(* ===== verification/Prelude.thy ===== *)
theory Prelude
  imports Main "HOL-Library.Sublist" "HOL-Library.List_Lexorder" "HOL-Library.Char_ord"
    "HOL-Library.Finite_Map" "HOL-Library.Word"
begin

text \<open>
  Shared vocabulary of the development: the collections of rewrite rules the component
  theories fill, the types that stand for Go's machine integers, times and durations, and
  generic facts on lists and finite maps that several components use.

  Go strings are byte sequences and are modelled as HOL strings (lists of 8-bit characters);
  the order of \<open>List_Lexorder\<close> over \<open>Char_ord\<close> is Go's bytewise \<open><\<close> on strings.
\<close>

named_theorems go_str \<open>rewrite rules for the modelled parts of package strings\<close>
named_theorems go_eval \<open>definitions unfolded when a closed instance is evaluated\<close>

type_synonym int64 = "64 word"
type_synonym gotime = int
type_synonym duration = int

section \<open>Lists\<close>

lemma filter_neq_notin [simp]: "x \<notin> set xs \<Longrightarrow> filter (\<lambda>y. y \<noteq> x) xs = xs"
  by (induction xs) auto

lemma takeWhile_append_stop:
  "\<forall>x \<in> set xs. P x \<Longrightarrow> \<not> P y \<Longrightarrow> takeWhile P (xs @ y # ys) = xs"
  by (induction xs) auto

lemma dropWhile_append_stop:
  "\<forall>x \<in> set xs. P x \<Longrightarrow> \<not> P y \<Longrightarrow> dropWhile P (xs @ y # ys) = y # ys"
  by (induction xs) auto

lemma sorted_key_nth_mono:
  "sorted (map f xs) \<Longrightarrow> i \<le> j \<Longrightarrow> j < length xs \<Longrightarrow> f (xs ! i) \<le> f (xs ! j)"
  using sorted_nth_mono [of "map f xs" i j] by simp

lemma length_filter_Suc_neq:
  "distinct xs \<Longrightarrow> x \<in> set xs \<Longrightarrow> Suc (length (filter (\<lambda>y. y \<noteq> x) xs)) = length xs"
  by (induction xs) auto

lemma Suc_length_remove1: "x \<in> set xs \<Longrightarrow> Suc (length (remove1 x xs)) = length xs"
  by (induction xs) auto

section \<open>Finite maps\<close>

text \<open>A Go map is a finite map; a \<open>range\<close> loop over it visits its keys in an order the
  runtime chooses, so such a loop takes the enumeration as an argument.\<close>

definition enumerates :: "'k list \<Rightarrow> ('k, 'v) fmap \<Rightarrow> bool" where
  "enumerates ks m \<longleftrightarrow> distinct ks \<and> set ks = fmdom' m"

lemma fmlookup_in_dom: "fmlookup m k = Some v \<Longrightarrow> k \<in> fmdom' m"
  by (rule fmdom'I)

lemma enumerates_lookup:
  "enumerates ks m \<Longrightarrow> k \<in> set ks \<longleftrightarrow> (\<exists>v. fmlookup m k = Some v)"
  by (simp add: enumerates_def fmlookup_dom'_iff)

end
