(* ===== verification/Go_Strings.thy ===== *)
theory Go_Strings
  imports Prelude
begin

text \<open>
  The functions of Go's \<open>strings\<close> and \<open>strconv\<close> packages that the sources call, on
  byte strings. Case mapping and white space are those of ASCII text: a string with bytes
  from 128 upwards is treated bytewise (Go decodes them as UTF-8 first).
\<close>

section \<open>Prefixes, suffixes, searching\<close>

definition has_prefix :: "string \<Rightarrow> string \<Rightarrow> bool" where
  "has_prefix s p \<longleftrightarrow> take (length p) s = p"

definition has_suffix :: "string \<Rightarrow> string \<Rightarrow> bool" where
  "has_suffix s p \<longleftrightarrow> length p \<le> length s \<and> drop (length s - length p) s = p"

definition trim_prefix :: "string \<Rightarrow> string \<Rightarrow> string" where
  "trim_prefix s p = (if has_prefix s p then drop (length p) s else s)"

fun str_index :: "string \<Rightarrow> string \<Rightarrow> nat option" where
  "str_index [] sub = (if sub = [] then Some 0 else None)"
| "str_index (c # cs) sub =
     (if has_prefix (c # cs) sub then Some 0 else map_option Suc (str_index cs sub))"

definition str_contains :: "string \<Rightarrow> string \<Rightarrow> bool" where
  "str_contains s sub \<longleftrightarrow> str_index s sub \<noteq> None"

fun last_index :: "string \<Rightarrow> char \<Rightarrow> nat option" where
  "last_index [] c = None"
| "last_index (x # xs) c =
     (case last_index xs c of Some i \<Rightarrow> Some (Suc i) | None \<Rightarrow> if x = c then Some 0 else None)"

lemma has_prefix_append [simp, go_str]: "has_prefix (p @ s) p"
  by (simp add: has_prefix_def)

lemma has_prefix_Nil [simp, go_str]: "has_prefix s []"
  by (simp add: has_prefix_def)

lemma has_prefix_Cons [simp, go_str]:
  "has_prefix (x # xs) (y # ys) \<longleftrightarrow> x = y \<and> has_prefix xs ys"
  by (auto simp: has_prefix_def)

lemma has_prefix_empty [simp, go_str]: "has_prefix [] (y # ys) = False"
  by (simp add: has_prefix_def)

lemma has_prefix_iff: "has_prefix s p \<longleftrightarrow> (\<exists>t. s = p @ t)"
  by (metis append_eq_conv_conj append_take_drop_id has_prefix_def)

lemma has_suffix_append [simp, go_str]: "has_suffix (s @ p) p"
  by (simp add: has_suffix_def)

lemma has_suffix_snoc [simp, go_str]: "has_suffix (s @ [x]) [y] \<longleftrightarrow> x = y"
  by (simp add: has_suffix_def)

lemma str_index_char_None: "str_index s [c] = None \<longleftrightarrow> c \<notin> set s"
  by (induction s) auto

lemma str_index_char_append:
  "c \<notin> set xs \<Longrightarrow> str_index (xs @ c # ys) [c] = Some (length xs)"
  by (induction xs) auto

lemma str_index_char_Some:
  "str_index s [c] = Some i \<Longrightarrow>
     i < length s \<and> s = take i s @ c # drop (Suc i) s \<and> c \<notin> set (take i s)"
  by (induction s arbitrary: i) (auto split: if_splits)

section \<open>White space\<close>

definition is_space :: "char \<Rightarrow> bool" where
  "is_space c \<longleftrightarrow> c = CHR 0x09 \<or> c = CHR 0x0A \<or> c = CHR 0x0B \<or> c = CHR 0x0C \<or> c = CHR 0x0D \<or> c = CHR 0x20"

definition trim_left :: "string \<Rightarrow> string" where
  "trim_left s = dropWhile is_space s"

definition trim_right :: "string \<Rightarrow> string" where
  "trim_right s = rev (dropWhile is_space (rev s))"

definition trim_space :: "string \<Rightarrow> string" where
  "trim_space s = trim_right (trim_left s)"

text \<open>A string with no white space at either end, the fixed points of \<open>TrimSpace\<close>.\<close>

definition trimmed :: "string \<Rightarrow> bool" where
  "trimmed s \<longleftrightarrow> s = [] \<or> (\<not> is_space (hd s) \<and> \<not> is_space (last s))"

lemma trim_left_id: "s = [] \<or> \<not> is_space (hd s) \<Longrightarrow> trim_left s = s"
  by (cases s) (auto simp: trim_left_def)

lemma trim_right_id: "s = [] \<or> \<not> is_space (last s) \<Longrightarrow> trim_right s = s"
  by (cases s rule: rev_cases) (auto simp: trim_right_def)

lemma trim_space_id [simp, go_str]: "trimmed s \<Longrightarrow> trim_space s = s"
  by (auto simp: trim_space_def trimmed_def trim_left_id trim_right_id)

lemma trim_left_hd: "trim_left s \<noteq> [] \<Longrightarrow> \<not> is_space (hd (trim_left s))"
  by (simp add: trim_left_def hd_dropWhile)

lemma trim_right_last: "trim_right s \<noteq> [] \<Longrightarrow> \<not> is_space (last (trim_right s))"
  by (simp add: trim_right_def last_rev hd_dropWhile)

lemma trim_right_prefix: "\<exists>t. s = trim_right s @ t"
proof -
  have "s = rev (takeWhile is_space (rev s) @ dropWhile is_space (rev s))" by simp
  then have "s = trim_right s @ rev (takeWhile is_space (rev s))"
    by (simp only: trim_right_def rev_append)
  then show ?thesis ..
qed

lemma trimmed_trim_space [simp, go_str]: "trimmed (trim_space s)"
proof (cases "trim_space s = []")
  case True
  then show ?thesis by (simp add: trimmed_def)
next
  case False
  obtain t where t: "trim_left s = trim_space s @ t"
    using trim_right_prefix [of "trim_left s"] by (auto simp: trim_space_def)
  with False have "hd (trim_space s) = hd (trim_left s)" and "trim_left s \<noteq> []" by auto
  then have "\<not> is_space (hd (trim_space s))" using trim_left_hd by simp
  moreover have "\<not> is_space (last (trim_space s))"
    using False trim_right_last by (simp add: trim_space_def)
  ultimately show ?thesis by (simp add: trimmed_def)
qed

lemma trim_space_idem [simp, go_str]: "trim_space (trim_space s) = trim_space s"
  by simp

lemma set_trim_space: "set (trim_space s) \<subseteq> set s"
  by (auto simp: trim_space_def trim_left_def trim_right_def dest!: set_dropWhileD)

lemma trim_left_space: "\<forall>c \<in> set ws. is_space c \<Longrightarrow> trim_left (ws @ s) = trim_left s"
  by (induction ws) (auto simp: trim_left_def)

lemma trim_space_ws_left: "is_space c \<Longrightarrow> trim_space (c # s) = trim_space s"
  by (simp add: trim_space_def trim_left_def)

section \<open>Splitting and joining\<close>

fun split_by :: "(char \<Rightarrow> bool) \<Rightarrow> string \<Rightarrow> string list" where
  "split_by P [] = [[]]"
| "split_by P (x # xs) =
     (if P x then [] # split_by P xs
      else (case split_by P xs of [] \<Rightarrow> [[x]] | y # ys \<Rightarrow> (x # y) # ys))"

definition split_on :: "char \<Rightarrow> string \<Rightarrow> string list" where
  "split_on c s = split_by (\<lambda>x. x = c) s"

fun str_join :: "string \<Rightarrow> string list \<Rightarrow> string" where
  "str_join sep [] = []"
| "str_join sep [x] = x"
| "str_join sep (x # y # ys) = x @ sep @ str_join sep (y # ys)"

definition str_fields :: "string \<Rightarrow> string list" where
  "str_fields s = filter (\<lambda>w. w \<noteq> []) (split_by is_space s)"

lemma split_by_not_Nil [simp]: "split_by P s \<noteq> []"
  by (induction s) (auto split: list.splits)

lemma split_on_not_Nil [simp]: "split_on c s \<noteq> []"
  by (simp add: split_on_def)

lemma split_by_none: "\<forall>x \<in> set s. \<not> P x \<Longrightarrow> split_by P s = [s]"
  by (induction s) auto

lemma split_by_append:
  "\<forall>x \<in> set xs. \<not> P x \<Longrightarrow> P c \<Longrightarrow> split_by P (xs @ c # ys) = xs # split_by P ys"
  by (induction xs) auto

lemma split_on_none [go_str]: "c \<notin> set s \<Longrightarrow> split_on c s = [s]"
  by (auto simp: split_on_def intro!: split_by_none)

lemma split_on_append [go_str]:
  "c \<notin> set xs \<Longrightarrow> split_on c (xs @ c # ys) = xs # split_on c ys"
  unfolding split_on_def by (rule split_by_append) auto

lemma split_by_no_sep: "w \<in> set (split_by P s) \<Longrightarrow> x \<in> set w \<Longrightarrow> \<not> P x"
proof (induction s arbitrary: w)
  case Nil
  then show ?case by simp
next
  case (Cons a s)
  then show ?case by (cases "split_by P s") (fastforce split: if_splits)+
qed

lemma split_on_no_sep: "w \<in> set (split_on c s) \<Longrightarrow> c \<notin> set w"
  using split_by_no_sep [of w "\<lambda>x. x = c" s c] by (auto simp: split_on_def)

lemma split_by_subset: "w \<in> set (split_by P s) \<Longrightarrow> set w \<subseteq> set s"
proof (induction s arbitrary: w)
  case Nil
  then show ?case by simp
next
  case (Cons a s)
  show ?case
  proof (cases "P a")
    case True
    with Cons show ?thesis by auto
  next
    case False
    obtain y ys where y: "split_by P s = y # ys" by (cases "split_by P s") auto
    with Cons.IH have "set y \<subseteq> set s" and "\<And>v. v \<in> set ys \<Longrightarrow> set v \<subseteq> set s" by auto
    with Cons.prems False y show ?thesis by fastforce
  qed
qed

lemma split_on_subset: "w \<in> set (split_on c s) \<Longrightarrow> set w \<subseteq> set s"
  by (simp add: split_on_def split_by_subset)

lemma str_join_Cons: "str_join sep (x # xs) = (if xs = [] then x else x @ sep @ str_join sep xs)"
  by (cases xs) auto

lemma join_split_on: "str_join [c] (split_on c s) = s"
proof (induction s)
  case Nil
  then show ?case by (simp add: split_on_def)
next
  case (Cons a s)
  obtain y ys where y: "split_on c s = y # ys" by (cases "split_on c s") auto
  with Cons show ?case by (auto simp: split_on_def str_join_Cons)
qed

lemma split_on_join [go_str]:
  "xs \<noteq> [] \<Longrightarrow> \<forall>x \<in> set xs. c \<notin> set x \<Longrightarrow> split_on c (str_join [c] xs) = xs"
  by (induction xs rule: induct_list012) (auto simp: split_on_none split_on_append)

lemma set_str_join: "set (str_join sep xs) \<subseteq> set sep \<union> \<Union> (set ` set xs)"
  by (induction xs rule: induct_list012) auto

lemma split_by_append_sep: "P c \<Longrightarrow> split_by P (xs @ c # ys) = split_by P xs @ split_by P ys"
  by (induction xs) (auto split: list.splits)

lemma split_on_append_sep: "split_on c (xs @ c # ys) = split_on c xs @ split_on c ys"
  by (simp add: split_on_def split_by_append_sep)

lemma str_join_append:
  "xs \<noteq> [] \<Longrightarrow> ys \<noteq> [] \<Longrightarrow> str_join sep (xs @ ys) = str_join sep xs @ sep @ str_join sep ys"
  by (induction xs rule: induct_list012) (auto simp: str_join_Cons)

lemma join_concat_split: "str_join [c] (concat (map (split_on c) xs)) = str_join [c] xs"
proof (induction xs)
  case Nil
  then show ?case by simp
next
  case (Cons x xs)
  show ?case
  proof (cases xs)
    case Nil
    then show ?thesis by (simp add: join_split_on)
  next
    case (Cons y ys)
    then have "concat (map (split_on c) xs) \<noteq> []" by simp
    then show ?thesis using Cons.IH Cons by (simp add: str_join_append join_split_on str_join_Cons)
  qed
qed

section \<open>Replacing, case mapping\<close>

function replace_all :: "string \<Rightarrow> string \<Rightarrow> string \<Rightarrow> string" where
  "replace_all old new [] = []"
| "replace_all old new (x # xs) =
     (if old \<noteq> [] \<and> has_prefix (x # xs) old
      then new @ replace_all old new (drop (length old) (x # xs))
      else x # replace_all old new xs)"
  by pat_completeness auto
termination
  by (relation "measure (\<lambda>(old, new, s). length s)") (auto simp: Suc_le_eq)

definition replace_char :: "char \<Rightarrow> char \<Rightarrow> string \<Rightarrow> string" where
  "replace_char a b s = map (\<lambda>x. if x = a then b else x) s"

lemma replace_all_char: "replace_all [a] [b] s = replace_char a b s"
  by (induction s) (auto simp: replace_char_def)

lemma replace_all_absent:
  "\<not> (\<exists>xs ys. s = xs @ old @ ys) \<Longrightarrow> replace_all old new s = s"
proof (induction s)
  case Nil
  then show ?case by simp
next
  case (Cons a s)
  have "\<not> has_prefix (a # s) old"
    using Cons.prems by (metis append_Nil has_prefix_iff)
  moreover have "\<not> (\<exists>xs ys. s = xs @ old @ ys)"
    using Cons.prems by (metis append_Cons)
  ultimately show ?case using Cons.IH by simp
qed

lemma replace_all_char_absent [simp]: "a \<notin> set s \<Longrightarrow> replace_all (a # old) new s = s"
  by (rule replace_all_absent) auto

definition char_upper :: "char \<Rightarrow> char" where
  "char_upper c = (if 97 \<le> (of_char c :: nat) \<and> (of_char c :: nat) \<le> 122
     then char_of ((of_char c :: nat) - 32) else c)"

definition char_lower :: "char \<Rightarrow> char" where
  "char_lower c = (if 65 \<le> (of_char c :: nat) \<and> (of_char c :: nat) \<le> 90
     then char_of ((of_char c :: nat) + 32) else c)"

definition to_upper :: "string \<Rightarrow> string" where
  "to_upper s = map char_upper s"

definition to_lower :: "string \<Rightarrow> string" where
  "to_lower s = map char_lower s"

definition equal_fold :: "string \<Rightarrow> string \<Rightarrow> bool" where
  "equal_fold a b \<longleftrightarrow> to_lower a = to_lower b"

definition trim_char :: "char \<Rightarrow> string \<Rightarrow> string" where
  "trim_char c s = rev (dropWhile (\<lambda>x. x = c) (rev (dropWhile (\<lambda>x. x = c) s)))"

lemma char_lower_idem [simp]: "char_lower (char_lower c) = char_lower c"
  by (auto simp: char_lower_def)

lemma to_lower_idem [simp]: "to_lower (to_lower s) = to_lower s"
  by (induction s) (auto simp: to_lower_def)

section \<open>The ASCII classes on the bits of a character\<close>

text \<open>Equations by which closed instances are evaluated; \<open>letter5\<close> is 1 to 26 in the low five bits.\<close>

definition letter5 :: "bool \<Rightarrow> bool \<Rightarrow> bool \<Rightarrow> bool \<Rightarrow> bool \<Rightarrow> bool" where
  "letter5 b0 b1 b2 b3 b4 \<longleftrightarrow> (b0 \<or> b1 \<or> b2 \<or> b3 \<or> b4) \<and> \<not> (b4 \<and> b3 \<and> (b2 \<or> (b1 \<and> b0)))"

lemma char_upper_bits [code]: "char_upper (Char b0 b1 b2 b3 b4 b5 b6 b7) =
   (if \<not> b7 \<and> b6 \<and> b5 \<and> letter5 b0 b1 b2 b3 b4 then Char b0 b1 b2 b3 b4 False b6 b7 else Char b0 b1 b2 b3 b4 b5 b6 b7)"
  by (cases b0; cases b1; cases b2; cases b3; cases b4; cases b5; cases b6; cases b7; simp add: char_upper_def letter5_def of_char_Char char_of_def bit_0)
lemma char_lower_bits [code]: "char_lower (Char b0 b1 b2 b3 b4 b5 b6 b7) =
   (if \<not> b7 \<and> b6 \<and> \<not> b5 \<and> letter5 b0 b1 b2 b3 b4 then Char b0 b1 b2 b3 b4 True b6 b7 else Char b0 b1 b2 b3 b4 b5 b6 b7)"
  by (cases b0; cases b1; cases b2; cases b3; cases b4; cases b5; cases b6; cases b7; simp add: char_lower_def letter5_def of_char_Char char_of_def bit_0)
text \<open>Words after a first one, each with the space before it.\<close>

definition spaced :: "string list \<Rightarrow> string" where
  "spaced ws = concat (map (\<lambda>w. CHR '' '' # w) ws)"

lemma spaced_simps [simp]: "spaced [] = []" "spaced (w # ws) = CHR '' '' # w @ spaced ws"
  by (simp_all add: spaced_def)

lemma spaced_append: "spaced (xs @ ys) = spaced xs @ spaced ys"
  by (simp add: spaced_def)

lemma str_join_spaced: "str_join '' '' (w # ws) = w @ spaced ws"
  by (induction ws arbitrary: w) simp_all

end
