(* ===== verification/Go_Regexp.thy ===== *)
theory Go_Regexp
  imports Go_Strconv
begin

text \<open>
  The fragment of Go's \<open>regexp\<close> package that the sources use. A pattern is a term of
  type \<open>regex\<close>; \<open>matches\<close> lists every way a pattern matches a prefix of a string, in the
  order a backtracking matcher tries them, with the captured groups and the rest of the
  string. Go's \<open>FindStringSubmatch\<close> returns the leftmost match and, there, the first of
  that order.

  \<open>Sat\<close> is a character class, \<open>Lit\<close> a literal under the flag \<open>(?i)\<close>, \<open>Opt\<close>, \<open>Star\<close> are
  the greedy operators, \<open>LazyStar\<close> the reluctant \<open>*?\<close>, \<open>Grp n\<close> the capturing group number \<open>n\<close> (there is
  no capture inside a repetition in the sources), \<open>WordB\<close> the assertion \<open>\\b\<close>, \<open>AtEnd\<close> the assertion \<open>$\<close>
  and \<open>AtStart\<close> the assertion \<open>^\<close>: there is no character before the position.
  \<open>WordB\<close> needs the character before the current position, which \<open>matches\<close> carries along.
\<close>

datatype regex =
    Eps
  | Sat "char \<Rightarrow> bool"
  | Seq regex regex
  | Alt regex regex
  | Star regex
  | Grp nat regex
  | WordB
  | AtEnd
  | LazyStar regex
  | AtStart

type_synonym captures = "(nat \<times> string) list"

definition word_char :: "char \<Rightarrow> bool" where
  "word_char c \<longleftrightarrow> is_digit c
     \<or> (65 \<le> (of_char c :: nat) \<and> (of_char c :: nat) \<le> 90)
     \<or> (97 \<le> (of_char c :: nat) \<and> (of_char c :: nat) \<le> 122) \<or> c = CHR ''_''"

lemma word_char_bits [code]: "word_char (Char b0 b1 b2 b3 b4 b5 b6 b7) \<longleftrightarrow>
   \<not> b7 \<and> ((\<not> b6 \<and> b5 \<and> b4 \<and> \<not> (b3 \<and> (b2 \<or> b1))) \<or> (b6 \<and> letter5 b0 b1 b2 b3 b4) \<or> (b6 \<and> \<not> b5 \<and> b4 \<and> b3 \<and> b2 \<and> b1 \<and> b0))"
  by (cases b0; cases b1; cases b2; cases b3; cases b4; cases b5; cases b6; cases b7; simp add: word_char_def is_digit_bits letter5_def of_char_Char)

text \<open>\<open>\\s\<close> of RE2: no vertical tab, unlike \<open>unicode.IsSpace\<close>.\<close>

definition re_space :: "char \<Rightarrow> bool" where
  "re_space c \<longleftrightarrow> c = CHR 0x09 \<or> c = CHR 0x0A \<or> c = CHR 0x0C \<or> c = CHR 0x0D \<or> c = CHR 0x20"

definition is_word :: "char option \<Rightarrow> bool" where
  "is_word co \<longleftrightarrow> (case co of None \<Rightarrow> False | Some c \<Rightarrow> word_char c)"

definition hd_opt :: "'a list \<Rightarrow> 'a option" where
  "hd_opt xs = (case xs of [] \<Rightarrow> None | x # _ \<Rightarrow> Some x)"

text \<open>The character before position \<open>length s - length s'\<close> when \<open>s'\<close> is what is left of \<open>s\<close>.\<close>

definition last_before :: "char option \<Rightarrow> string \<Rightarrow> string \<Rightarrow> char option" where
  "last_before p s s' =
     (if length s' < length s then Some (s ! (length s - length s' - 1)) else p)"

definition progress :: "string \<Rightarrow> (captures \<times> string) list \<Rightarrow> (captures \<times> string) list" where
  "progress s ms = filter (\<lambda>(c, s'). length s' < length s) ms"

lemma progress_cong:
  "progress s ms = ms' \<Longrightarrow> (c, s') \<in> set ms' \<Longrightarrow> length s' < length s"
  by (auto simp: progress_def)

function (sequential) matches :: "regex \<Rightarrow> char option \<Rightarrow> string \<Rightarrow> (captures \<times> string) list" where
  "matches Eps p s = [([], s)]"
| "matches (Sat P) p s = (case s of [] \<Rightarrow> [] | c # cs \<Rightarrow> if P c then [([], cs)] else [])"
| "matches (Seq r1 r2) p s =
     concat (map (\<lambda>(c1, s1).
       map (\<lambda>(c2, s2). (c1 @ c2, s2)) (if length s1 \<le> length s then matches r2 (last_before p s s1) s1 else []))
       (matches r1 p s))"
| "matches (Alt r1 r2) p s = matches r1 p s @ matches r2 p s"
| "matches (Star r) p s =
     concat (map (\<lambda>(c1, s1).
       map (\<lambda>(c2, s2). (c1 @ c2, s2))
         (if length s1 < length s then matches (Star r) (last_before p s s1) s1 else []))
       (matches r p s)) @ [([], s)]"
| "matches (Grp n r) p s =
     map (\<lambda>(c, s'). ((n, take (length s - length s') s) # c, s')) (matches r p s)"
| "matches WordB p s = (if is_word p \<noteq> is_word (hd_opt s) then [([], s)] else [])"
| "matches AtEnd p s = (if s = [] then [([], s)] else [])"
| "matches (LazyStar r) p s =
     ([], s) # concat (map (\<lambda>(c1, s1).
       map (\<lambda>(c2, s2). (c1 @ c2, s2))
         (if length s1 < length s then matches (LazyStar r) (last_before p s s1) s1 else []))
       (matches r p s))"
| "matches AtStart p s = (if p = None then [([], s)] else [])"
  by pat_completeness auto
termination
  by (relation "measures [\<lambda>(r, p, s). length s, \<lambda>(r, p, s). size r]") auto

declare matches.simps(3,5,9) [simp del]

lemma matches_Seq_Sat [simp]:
  "matches (Seq (Sat P) r) p s =
     (case s of [] \<Rightarrow> [] | c # cs \<Rightarrow> if P c then matches r (Some c) cs else [])"
  by (cases s) (simp_all add: matches.simps(3) last_before_def case_prod_beta')

lemma matches_Seq_Eps [simp]: "matches (Seq Eps r) p s = matches r p s"
  by (simp add: matches.simps(3) last_before_def case_prod_beta')

text \<open>A match anchored at the start of the subject, and an unanchored (leftmost) search.\<close>

definition match_here :: "regex \<Rightarrow> char option \<Rightarrow> string \<Rightarrow> captures option" where
  "match_here r p s = map_option (\<lambda>(c, s'). (0, take (length s - length s') s) # c) (hd_opt (matches r p s))"

definition find_anchored :: "regex \<Rightarrow> string \<Rightarrow> captures option" where
  "find_anchored r s = match_here r None s"

fun find_from :: "regex \<Rightarrow> char option \<Rightarrow> string \<Rightarrow> captures option" where
  "find_from r p [] = match_here r p []"
| "find_from r p (c # cs) =
     (case match_here r p (c # cs) of Some m \<Rightarrow> Some m | None \<Rightarrow> find_from r (Some c) cs)"

definition find_submatch :: "regex \<Rightarrow> string \<Rightarrow> captures option" where
  "find_submatch r s = find_from r None s"

definition matches_anywhere :: "regex \<Rightarrow> string \<Rightarrow> bool" where
  "matches_anywhere r s \<longleftrightarrow> find_submatch r s \<noteq> None"

text \<open>The text of group \<open>n\<close>; a group that took no part in the match is the empty string.\<close>

definition group :: "captures \<Rightarrow> nat \<Rightarrow> string" where
  "group m n = (case map_of m n of Some t \<Rightarrow> t | None \<Rightarrow> [])"

section \<open>Derived operators\<close>

definition Chr :: "char \<Rightarrow> regex" where
  "Chr c = Sat (\<lambda>x. x = c)"

definition Opt :: "regex \<Rightarrow> regex" where
  "Opt r = Alt r Eps"

definition Plus :: "regex \<Rightarrow> regex" where
  "Plus r = Seq r (Star r)"

fun Str :: "string \<Rightarrow> regex" where
  "Str [] = Eps"
| "Str (c # cs) = Seq (Chr c) (Str cs)"

text \<open>A literal under \<open>(?i)\<close>.\<close>

fun LitI :: "string \<Rightarrow> regex" where
  "LitI [] = Eps"
| "LitI (c # cs) = Seq (Sat (\<lambda>x. char_lower x = char_lower c)) (LitI cs)"

fun Seqs :: "regex list \<Rightarrow> regex" where
  "Seqs [] = Eps"
| "Seqs [r] = r"
| "Seqs (r # rs) = Seq r (Seqs rs)"

fun Rep :: "nat \<Rightarrow> regex \<Rightarrow> regex" where
  "Rep 0 r = Eps"
| "Rep (Suc n) r = Seq r (Rep n r)"

definition Spaces :: regex where
  "Spaces = Plus (Sat re_space)"

definition AnyNoNL :: regex where
  "AnyNoNL = Sat (\<lambda>x. x \<noteq> CHR 0x0A)"

section \<open>Runs of a character class\<close>

lemma matches_Star_Sat:
  "matches (Star (Sat P)) p s
     = map (\<lambda>k. ([], drop k s)) (rev [0..<Suc (length (takeWhile P s))])"
proof (induction s arbitrary: p)
  case Nil
  then show ?case by (simp add: matches.simps(5))
next
  case (Cons c cs)
  show ?case
  proof (cases "P c")
    case True
    have "matches (Star (Sat P)) p (c # cs)
        = map (\<lambda>k. ([], drop k cs)) (rev [0..<Suc (length (takeWhile P cs))]) @ [([], c # cs)]"
      using True by (subst matches.simps(5)) (simp add: Cons.IH case_prod_beta' del: upt_Suc)
    also have "\<dots> = map (\<lambda>k. ([], drop k (c # cs))) (rev [0..<Suc (length (takeWhile P (c # cs)))])"
    proof -
      have "[0..<Suc (Suc n)] = 0 # map Suc [0..<Suc n]" for n
        by (metis map_Suc_upt upt_conv_Cons zero_less_Suc)
      with True show ?thesis by (simp add: rev_map del: upt_Suc)
    qed
    finally show ?thesis .
  next
    case False
    then show ?thesis by (subst matches.simps(5)) simp
  qed
qed

text \<open>A run followed by something that cannot start inside the run is matched by the longest run only.\<close>

lemma matches_run:
  assumes stop: "\<And>k. k < length (takeWhile P s) \<Longrightarrow> matches r (last_before p s (drop k s)) (drop k s) = []"
  shows "matches (Seq (Star (Sat P)) r) p s
    = matches r (last_before p s (dropWhile P s)) (dropWhile P s)"
proof -
  let ?n = "length (takeWhile P s)"
  have n: "rev [0..<Suc ?n] = ?n # rev [0..<?n]" by simp
  have z: "concat (map (\<lambda>k. matches r (last_before p s (drop k s)) (drop k s)) (rev [0..<?n])) = []"
    using stop by simp
  have "drop ?n s = dropWhile P s" by (metis dropWhile_eq_drop)
  then show ?thesis
    using z by (simp add: matches.simps(3) matches_Star_Sat case_prod_beta' n o_def length_dropWhile_le del: upt_Suc)
qed

lemma match_run_to_end:
  "matches (Seq (Star (Sat P)) AtEnd) p s = (if list_all P s then [([], [])] else [])"
proof -
  have "k < length (takeWhile P s) \<Longrightarrow> matches AtEnd (last_before p s (drop k s)) (drop k s) = []" for k
    using length_takeWhile_le [of P s] by simp
  then have "matches (Seq (Star (Sat P)) AtEnd) p s
      = matches AtEnd (last_before p s (dropWhile P s)) (dropWhile P s)"
    by (rule matches_run)
  then show ?thesis by (auto simp: list_all_iff dropWhile_eq_Nil_conv)
qed

section \<open>Repetition and captures\<close>

lemma matches_Rep_Sat:
  "matches (Rep n (Sat P)) p s = (if n \<le> length s \<and> list_all P (take n s) then [([], drop n s)] else [])"
proof (induction n arbitrary: p s)
  case 0
  then show ?case by simp
next
  case (Suc n)
  then show ?case by (cases s) simp_all
qed

lemma matches_Grp_Rep:
  "matches (Seq (Grp i (Rep n (Sat P))) r) p s =
     (if n \<le> length s \<and> list_all P (take n s)
      then map (\<lambda>(c, s'). ((i, take n s) # c, s')) (matches r (last_before p s (drop n s)) (drop n s)) else [])"
  by (auto simp: matches.simps(3) matches_Rep_Sat case_prod_beta')

lemma matches_Seq_Chr [simp]:
  "matches (Seq (Chr c) r) p s = (case s of [] \<Rightarrow> [] | x # xs \<Rightarrow> if x = c then matches r (Some x) xs else [])"
  by (simp add: Chr_def)

lemma matches_Str:
  "matches (Str t) p s = (if has_prefix s t then [([], drop (length t) s)] else [])"
proof (induction t arbitrary: p s)
  case Nil
  then show ?case by simp
next
  case (Cons c cs)
  then show ?case by (cases s) (auto split: list.splits)
qed

lemma matches_Str_end:
  "matches (Seq (Str t) AtEnd) p s = (if s = t then [([], [])] else [])"
  by (auto simp: matches.simps(3) matches_Str has_prefix_iff)

text \<open>A captured run that the rest of the pattern cannot start inside of.\<close>

lemma matches_Grp_run:
  assumes stop: "\<And>k q. k < length (takeWhile Q cs) \<Longrightarrow> matches r q (drop k cs) = []"
  shows "matches (Seq (Grp i (Seq (Sat P) (Star (Sat Q)))) r) p (c # cs) =
    (if P c then map (\<lambda>(x, y). ((i, c # takeWhile Q cs) # x, y))
        (matches r (last_before p (c # cs) (dropWhile Q cs)) (dropWhile Q cs)) else [])"
proof (cases "P c")
  case False
  then show ?thesis by (simp add: matches.simps(3))
next
  case True
  let ?n = "length (takeWhile Q cs)"
  have n: "rev [0..<Suc ?n] = ?n # rev [0..<?n]" by simp
  have d: "drop ?n cs = dropWhile Q cs" by (metis dropWhile_eq_drop)
  have le: "?n \<le> length cs" by (rule length_takeWhile_le)
  have z: "k < ?n \<Longrightarrow> matches r (last_before p (c # cs) (drop k cs)) (drop k cs) = []" for k
    by (rule stop)
  have tk: "take (Suc (length cs) - (length cs - ?n)) (c # cs) = c # takeWhile Q cs"
    using le by (simp add: Suc_diff_le takeWhile_eq_take [symmetric] del: length_drop)
  have "matches (Seq (Grp i (Seq (Sat P) (Star (Sat Q)))) r) p (c # cs) =
     concat (map (\<lambda>k. map (\<lambda>(x, y). ((i, take (Suc (length cs) - (length cs - k)) (c # cs)) # x, y))
        (matches r (last_before p (c # cs) (drop k cs)) (drop k cs))) (rev [0..<Suc ?n]))"
    using True by (subst matches.simps(3)) (simp add: matches_Star_Sat case_prod_beta' o_def diff_le_self [THEN le_SucI] del: upt_Suc)
  also have "\<dots> = map (\<lambda>(x, y). ((i, c # takeWhile Q cs) # x, y))
        (matches r (last_before p (c # cs) (dropWhile Q cs)) (dropWhile Q cs))"
    using z tk by (simp add: n d del: upt_Suc)
  finally show ?thesis using True by simp
qed

end
