(* ===== verification/Surql_Errors.thy ===== *)
theory Surql_Errors
  imports Go_Strconv
begin

text \<open>
  Package \<open>errors\<close> (\<open>pkg/surql/errors/errors.go\<close>): the sentinels, the typed \<open>SurqlError\<close>,
  its \<open>Error\<close>, \<open>Unwrap\<close> and \<open>Is\<close> methods, the constructors, and the loop of the standard
  library's \<open>errors.Is\<close> that drives them. \<open>Opaque\<close> is an error value of foreign code (the
  database SDK, the file system, a cancelled context), of which only the text is known. A nil
  \<open>*SurqlError\<close> has no counterpart, and \<open>errors.Is\<close> is modelled for sentinel targets, the only
  ones the sources test for.
\<close>

datatype err_kind =
    ErrDatabase | ErrConnection | ErrQuery | ErrTransaction | ErrContext | ErrRegistry
  | ErrStreaming | ErrValidation | ErrSchemaParse | ErrMigrationDiscovery | ErrMigrationLoad
  | ErrMigrationGeneration | ErrMigrationExecution | ErrMigrationHistory | ErrMigrationSquash
  | ErrOrchestration | ErrSerialization

fun sentinel_text :: "err_kind \<Rightarrow> string" where
  "sentinel_text ErrDatabase = ''database error''"
| "sentinel_text ErrConnection = ''connection error''"
| "sentinel_text ErrQuery = ''query error''"
| "sentinel_text ErrTransaction = ''transaction error''"
| "sentinel_text ErrContext = ''context error''"
| "sentinel_text ErrRegistry = ''registry error''"
| "sentinel_text ErrStreaming = ''streaming error''"
| "sentinel_text ErrValidation = ''validation error''"
| "sentinel_text ErrSchemaParse = ''schema parse error''"
| "sentinel_text ErrMigrationDiscovery = ''migration discovery error''"
| "sentinel_text ErrMigrationLoad = ''migration load error''"
| "sentinel_text ErrMigrationGeneration = ''migration generation error''"
| "sentinel_text ErrMigrationExecution = ''migration execution error''"
| "sentinel_text ErrMigrationHistory = ''migration history error''"
| "sentinel_text ErrMigrationSquash = ''migration squash error''"
| "sentinel_text ErrOrchestration = ''orchestration error''"
| "sentinel_text ErrSerialization = ''serialization error''"

datatype go_error =
    Sentinel err_kind
  | Opaque string
  | SurqlError "go_error option" string "go_error option"

type_synonym 'a result = "go_error + 'a"

text \<open>\<open>New\<close>, \<open>Newf\<close>, \<open>Wrap\<close>, \<open>Wrapf\<close>; the reason of the \<open>f\<close> forms is the formatted text.\<close>

definition err_new :: "err_kind \<Rightarrow> string \<Rightarrow> go_error" where
  "err_new k reason = SurqlError (Some (Sentinel k)) reason None"

definition err_wrap :: "err_kind \<Rightarrow> string \<Rightarrow> go_error \<Rightarrow> go_error" where
  "err_wrap k reason e = SurqlError (Some (Sentinel k)) reason (Some e)"

fun err_text :: "go_error \<Rightarrow> string" where
  "err_text (Sentinel k) = sentinel_text k"
| "err_text (Opaque s) = s"
| "err_text (SurqlError k reason w) =
     (if reason = [] \<and> w = None then
        (case k of Some e \<Rightarrow> err_text e | None \<Rightarrow> ''surql: unknown error'')
      else
        (let kind = (case k of Some e \<Rightarrow> err_text e | None \<Rightarrow> ''surql error'') in
         (case w of
            Some e \<Rightarrow> if reason \<noteq> [] then kind @ '': '' @ reason @ '': '' @ err_text e
                      else kind @ '': '' @ err_text e
          | None \<Rightarrow> kind @ '': '' @ reason)))"

fun err_unwrap :: "go_error \<Rightarrow> go_error option" where
  "err_unwrap (SurqlError k reason w) = (case w of Some e \<Rightarrow> Some e | None \<Rightarrow> k)"
| "err_unwrap _ = None"

text \<open>
  \<open>errors.Is(err, target)\<close>: the error itself, then its \<open>Is\<close> method (the kind, then the wrapped
  chain), then the loop continues with \<open>Unwrap\<close>.
\<close>

fun errors_is :: "go_error \<Rightarrow> err_kind \<Rightarrow> bool" where
  "errors_is (Sentinel k) t = (k = t)"
| "errors_is (Opaque s) t = False"
| "errors_is (SurqlError k reason w) t =
     ((case k of Some e \<Rightarrow> errors_is e t | None \<Rightarrow> False)
      \<or> (case w of Some e \<Rightarrow> errors_is e t | None \<Rightarrow> False)
      \<or> (case w of Some e \<Rightarrow> errors_is e t
          | None \<Rightarrow> (case k of Some e \<Rightarrow> errors_is e t | None \<Rightarrow> False)))"

text \<open>The specification: the sentinels that occur anywhere in an error's tree.\<close>

fun err_kinds :: "go_error \<Rightarrow> err_kind set" where
  "err_kinds (Sentinel k) = {k}"
| "err_kinds (Opaque s) = {}"
| "err_kinds (SurqlError k reason w) =
     (case k of Some e \<Rightarrow> err_kinds e | None \<Rightarrow> {}) \<union> (case w of Some e \<Rightarrow> err_kinds e | None \<Rightarrow> {})"

lemma errors_is_kinds: "errors_is e t \<longleftrightarrow> t \<in> err_kinds e"
  by (induction e t rule: errors_is.induct) (auto split: option.splits)

lemma errors_is_new [simp]: "errors_is (err_new k r) t \<longleftrightarrow> k = t"
  by (simp add: err_new_def)

lemma errors_is_wrap [simp]: "errors_is (err_wrap k r e) t \<longleftrightarrow> k = t \<or> errors_is e t"
  by (auto simp: err_wrap_def)

text \<open>Composition of fallible steps: an error is returned at once.\<close>

definition rbind :: "'a result \<Rightarrow> ('a \<Rightarrow> 'b result) \<Rightarrow> 'b result" where
  "rbind x f = (case x of Inl e \<Rightarrow> Inl e | Inr a \<Rightarrow> f a)"

lemma rbind_simps [simp]: "rbind (Inl e) f = Inl e" "rbind (Inr a) f = f a"
  by (simp_all add: rbind_def)

lemma rbind_Inr_iff: "rbind x f = Inr b \<longleftrightarrow> (\<exists>a. x = Inr a \<and> f a = Inr b)"
  by (cases x) auto

text \<open>
  \<open>errors.Is\<close> on any error built by this package finds exactly the sentinels that
  occur in it: the kind of every \<open>SurqlError\<close> on the way and whatever the wrapped causes carry,
  and wrapping (\<open>Wrap\<close>/\<open>Wrapf\<close>) adds its own kind and hides none of the cause's.
\<close>

theorem errors_is_complete:
  "(errors_is e t \<longleftrightarrow> t \<in> err_kinds e)
   \<and> (errors_is (err_wrap k reason e) t \<longleftrightarrow> t = k \<or> errors_is e t)
   \<and> (err_unwrap (err_wrap k reason e) = Some e)"
  by (auto simp: errors_is_kinds [symmetric]) (auto simp: err_wrap_def)

end
