(* ===== verification/Record_Ids.thy ===== *)
theory Record_Ids
  imports Surql_Errors Go_Regexp
begin

text \<open>
  Package \<open>types\<close>: record identifiers (\<open>record_id.go\<close>), file references (\<open>file_ref.go\<close>),
  reserved words (\<open>reserved.go\<close>), record references and raw function expressions
  (\<open>record_ref.go\<close>, \<open>surreal_fn.go\<close>). The JSON and CBOR methods, which call the standard
  codecs, are left out.
\<close>

section \<open>Record identifiers\<close>

definition alpha_under :: "char \<Rightarrow> bool" where
  "alpha_under c \<longleftrightarrow> word_char c \<and> \<not> is_digit c"

definition tablePattern :: regex where
  "tablePattern = Seq (Sat alpha_under) (Seq (Star (Sat word_char)) AtEnd)"

definition simpleIDPattern :: regex where
  "simpleIDPattern = Seq (Sat word_char) (Seq (Star (Sat word_char)) AtEnd)"

record record_id_value =
  rv_str :: string
  rv_int :: int64
  rv_is_int :: bool
  rv_present :: bool

definition StringID :: "string \<Rightarrow> record_id_value" where
  "StringID s = \<lparr>rv_str = s, rv_int = 0, rv_is_int = False, rv_present = True\<rparr>"

definition IntID :: "int64 \<Rightarrow> record_id_value" where
  "IntID n = \<lparr>rv_str = [], rv_int = n, rv_is_int = True, rv_present = True\<rparr>"

definition rv_string :: "record_id_value \<Rightarrow> string" where
  "rv_string v = (if rv_is_int v then show_int (sint (rv_int v)) else rv_str v)"

record record_id =
  ri_table :: string
  ri_id :: record_id_value

definition validate_table :: "string \<Rightarrow> unit result" where
  "validate_table table =
     (if table = [] then Inl (err_new ErrValidation ''Table name cannot be empty'')
      else if find_anchored tablePattern table = None then
        Inl (err_new ErrValidation (''Invalid table name: '' @ go_quote table @
          ''. Must contain only alphanumeric characters and underscores, and cannot start with a digit''))
      else Inr ())"

definition NewRecordID :: "string \<Rightarrow> record_id_value \<Rightarrow> record_id result" where
  "NewRecordID table rid =
     (case validate_table table of
        Inl e \<Rightarrow> Inl e
      | Inr _ \<Rightarrow>
          if \<not> rv_present rid then Inl (err_new ErrValidation ''record id cannot be empty'')
          else Inr \<lparr>ri_table = table, ri_id = rid\<rparr>)"

definition needs_angle_brackets :: "record_id \<Rightarrow> bool" where
  "needs_angle_brackets r =
     (if rv_is_int (ri_id r) then False
      else find_anchored simpleIDPattern (rv_str (ri_id r)) = None)"

definition record_id_string :: "record_id \<Rightarrow> string" where
  "record_id_string r =
     (if needs_angle_brackets r then ri_table r @ '':<'' @ rv_string (ri_id r) @ ''>''
      else ri_table r @ '':'' @ rv_string (ri_id r))"

definition ParseRecordID :: "string \<Rightarrow> record_id result" where
  "ParseRecordID input =
     (case str_index input '':'' of
        None \<Rightarrow> Inl (err_new ErrValidation (''Invalid record ID format: '' @ input @ ''. Expected format: table:id''))
      | Some idx \<Rightarrow>
         (let table = trim_space (take idx input);
              idStr = trim_space (drop (idx + 1) input) in
          if table = [] then
            Inl (err_new ErrValidation (''Invalid record ID: table name cannot be empty in '' @ go_quote input))
          else if idStr = [] then
            Inl (err_new ErrValidation (''Invalid record ID: id cannot be empty in '' @ go_quote input))
          else
            (let idStr = (if length idStr \<ge> 2 \<and> hd idStr = CHR ''<'' \<and> last idStr = CHR ''>''
                          then butlast (tl idStr) else idStr) in
             (case parse_int64 idStr of
                Some n \<Rightarrow> NewRecordID table (IntID (word_of_int n))
              | None \<Rightarrow> NewRecordID table (StringID idStr)))))"

lemma find_anchored_class:
  "find_anchored (Seq (Sat P) (Seq (Star (Sat Q)) AtEnd)) s \<noteq> None
     \<longleftrightarrow> (\<exists>c cs. s = c # cs \<and> P c \<and> list_all Q cs)"
  by (cases s) (auto simp: find_anchored_def match_here_def hd_opt_def match_run_to_end)

lemma validate_table_ok_iff:
  "validate_table t = Inr u \<longleftrightarrow> (\<exists>c cs. t = c # cs \<and> alpha_under c \<and> list_all word_char cs)"
  using find_anchored_class [of alpha_under word_char t]
  by (auto simp: validate_table_def tablePattern_def)

lemma simple_id_iff:
  "find_anchored simpleIDPattern s \<noteq> None \<longleftrightarrow> s \<noteq> [] \<and> list_all word_char s"
  unfolding simpleIDPattern_def find_anchored_class by (cases s) auto

lemma NewRecordID_ok_iff:
  "NewRecordID t v = Inr r \<longleftrightarrow>
     validate_table t = Inr () \<and> rv_present v \<and> r = \<lparr>ri_table = t, ri_id = v\<rparr>"
  by (auto simp: NewRecordID_def split: sum.splits)

lemma word_char_not_space: "word_char c \<Longrightarrow> \<not> is_space c"
  by (auto simp: word_char_def is_space_def is_digit_def)

lemma word_char_not_punct: "word_char c \<Longrightarrow> c \<noteq> CHR '':'' \<and> c \<noteq> CHR ''<'' \<and> c \<noteq> CHR ''>''"
  by (auto simp: word_char_def is_digit_def)

lemma trimmed_no_space: "\<forall>c \<in> set s. \<not> is_space c \<Longrightarrow> trimmed s"
  by (metis hd_in_set last_in_set trimmed_def)

lemma valid_table_chars: "validate_table t = Inr u \<Longrightarrow> t \<noteq> [] \<and> (\<forall>c \<in> set t. word_char c)"
  by (auto simp: validate_table_ok_iff alpha_under_def list_all_iff)

lemma valid_table_trimmed: "validate_table t = Inr u \<Longrightarrow> trimmed t"
  using valid_table_chars word_char_not_space trimmed_no_space by blast

lemma valid_table_no_colon: "validate_table t = Inr u \<Longrightarrow> CHR '':'' \<notin> set t"
  using valid_table_chars word_char_not_punct by blast

text \<open>What the parser does with \<open>table:body\<close>.\<close>

lemma ParseRecordID_colon:
  assumes t: "validate_table t = Inr ()" and b: "trimmed body" "body \<noteq> []"
  shows "ParseRecordID (t @ '':'' @ body) =
    (let idStr = (if length body \<ge> 2 \<and> hd body = CHR ''<'' \<and> last body = CHR ''>''
                  then butlast (tl body) else body) in
     case parse_int64 idStr of
       Some n \<Rightarrow> Inr \<lparr>ri_table = t, ri_id = IntID (word_of_int n)\<rparr>
     | None \<Rightarrow> Inr \<lparr>ri_table = t, ri_id = StringID idStr\<rparr>)"
proof -
  have "str_index (t @ '':'' @ body) '':'' = Some (length t)"
    using valid_table_no_colon [OF t] by (simp add: str_index_char_append)
  moreover have "t \<noteq> []" using valid_table_chars [OF t] by simp
  ultimately show ?thesis
    using t b valid_table_trimmed [OF t]
    by (simp add: ParseRecordID_def NewRecordID_def Let_def IntID_def StringID_def split: option.splits)
qed

lemma not_digit_angle: "\<not> is_digit CHR ''<''" "CHR ''<'' \<noteq> CHR ''-''"
  by (simp_all add: is_digit_def)

lemma show_int_trimmed: "trimmed (show_int i)"
  using show_int_chars [of i]
  by (intro trimmed_no_space) (fastforce simp: is_digit_def is_space_def)

lemma ParseRecordID_int:
  assumes "validate_table t = Inr ()"
  shows "ParseRecordID (record_id_string \<lparr>ri_table = t, ri_id = IntID n\<rparr>)
    = Inr \<lparr>ri_table = t, ri_id = IntID n\<rparr>"
proof -
  have hd: "hd (show_int (sint n)) \<noteq> CHR ''<''"
    using show_int_chars [of "sint n"] show_int_not_Nil [of "sint n"] not_digit_angle
    by (metis hd_in_set)
  have "parse_int64 (show_int (sint n)) = Some (sint n)"
    using sint_ge [of n] sint_lt [of n] by (intro parse_int64_show_int) simp_all
  with assms hd show ?thesis
    by (simp add: record_id_string_def needs_angle_brackets_def rv_string_def IntID_def
        ParseRecordID_colon [unfolded append_Cons append_Nil] show_int_trimmed)
qed

lemma ParseRecordID_string:
  assumes t: "validate_table t = Inr ()"
  shows "ParseRecordID (record_id_string \<lparr>ri_table = t, ri_id = StringID s\<rparr>)
    = Inr \<lparr>ri_table = t,
        ri_id = (case parse_int64 s of Some n \<Rightarrow> IntID (word_of_int n) | None \<Rightarrow> StringID s)\<rparr>"
proof (cases "find_anchored simpleIDPattern s = None")
  case True
  have "trimmed (''<'' @ s @ ''>'')" by (simp add: trimmed_def is_space_def)
  from ParseRecordID_colon [OF t this] True show ?thesis
    by (simp add: record_id_string_def needs_angle_brackets_def rv_string_def StringID_def
        split: option.splits)
next
  case False
  then have s: "s \<noteq> []" "\<forall>c \<in> set s. word_char c"
    using simple_id_iff [of s] by (auto simp only: list_all_iff)
  then have "trimmed s" by (auto intro!: trimmed_no_space word_char_not_space)
  moreover have "hd s \<noteq> CHR ''<''" using s word_char_not_punct by auto
  ultimately show ?thesis
    using ParseRecordID_colon [OF t, of s] False s
    by (simp add: record_id_string_def needs_angle_brackets_def rv_string_def StringID_def
        split: option.splits)
qed

text \<open>
  C1 (roundtrip). Printing and parsing record identifiers: for a table name the constructor
  accepts, \<open>ParseRecordID\<close> inverts \<open>String\<close> on every integer id, and on a string id exactly when
  the id does not read as a 64-bit decimal integer (such a string id comes back as an \<open>IntID\<close>);
  the angle brackets are put on and taken off consistently, whatever characters the id has.
\<close>

theorem record_id_roundtrip:
  assumes "validate_table t = Inr ()"
  shows "ParseRecordID (record_id_string \<lparr>ri_table = t, ri_id = IntID n\<rparr>)
           = Inr \<lparr>ri_table = t, ri_id = IntID n\<rparr>
    \<and> (ParseRecordID (record_id_string \<lparr>ri_table = t, ri_id = StringID s\<rparr>)
           = Inr \<lparr>ri_table = t, ri_id = StringID s\<rparr> \<longleftrightarrow> parse_int64 s = None)"
  using ParseRecordID_int [OF assms] ParseRecordID_string [OF assms, of s]
  by (auto simp: IntID_def StringID_def split: option.splits)

lemma validate_user: "validate_table ''user'' = Inr ()"
  by (auto simp: validate_table_ok_iff alpha_under_def word_char_def is_digit_def)

theorem record_id_roundtrip_witness:
  "ParseRecordID (record_id_string \<lparr>ri_table = ''user'', ri_id = IntID 42\<rparr>)
     = Inr \<lparr>ri_table = ''user'', ri_id = IntID 42\<rparr>
   \<and> ParseRecordID (record_id_string \<lparr>ri_table = ''user'', ri_id = StringID ''a:b''\<rparr>)
     = Inr \<lparr>ri_table = ''user'', ri_id = StringID ''a:b''\<rparr>
   \<and> ParseRecordID (record_id_string \<lparr>ri_table = ''user'', ri_id = StringID ''007''\<rparr>)
     \<noteq> Inr \<lparr>ri_table = ''user'', ri_id = StringID ''007''\<rparr>"
proof -
  note r = record_id_roundtrip [OF validate_user]
  have a: "parse_int64 ''a:b'' = None" and b: "parse_int64 ''007'' \<noteq> None"
    by (simp_all add: parse_int64_def parse_digits_def is_digit_def digits_val_def digit_val_def)
  show ?thesis
    by (intro conjI; (rule conjunct1 [OF r] iffD2 [OF conjunct2 [OF r] a])?)
      (simp only: conjunct2 [OF r] b not_False_eq_True)
qed

section \<open>File references\<close>

record file_ref =
  fr_bucket :: string
  fr_key :: string

definition file_ref_string :: "file_ref \<Rightarrow> string" where
  "file_ref_string f = fr_bucket f @ '':/'' @ trim_prefix (fr_key f) ''/''"

definition file_ref_validate :: "file_ref \<Rightarrow> unit result" where
  "file_ref_validate f =
     (if fr_bucket f = [] then Inl (err_new ErrValidation ''file ref bucket cannot be empty'')
      else if fr_key f = [] then Inl (err_new ErrValidation ''file ref key cannot be empty'')
      else Inr ())"

definition ParseFileRef :: "string \<Rightarrow> file_ref result" where
  "ParseFileRef input =
     (case str_index input '':/'' of
        None \<Rightarrow> Inl (err_new ErrValidation (''invalid file reference '' @ go_quote input @
                  '': expected format bucket:/key''))
      | Some idx \<Rightarrow>
          (let bucket = take idx input; key = drop (idx + 2) input in
           if bucket = [] then Inl (err_new ErrValidation (''invalid file reference '' @ go_quote input @
                  '': bucket cannot be empty''))
           else if key = [] then Inl (err_new ErrValidation (''invalid file reference '' @ go_quote input @
                  '': key cannot be empty''))
           else Inr \<lparr>fr_bucket = bucket, fr_key = key\<rparr>))"

lemma str_index_sep:
  "str_index b '':/'' = None \<Longrightarrow> str_index (b @ '':/'' @ k) '':/'' = Some (length b)"
proof (induction b)
  case Nil
  then show ?case by simp
next
  case (Cons c cs)
  then show ?case by (cases cs) (auto split: if_splits)
qed

lemma str_index_sep_first:
  "str_index s '':/'' = Some i \<Longrightarrow>
     s = take i s @ '':/'' @ drop (i + 2) s \<and> str_index (take i s) '':/'' = None"
proof (induction s arbitrary: i)
  case Nil
  then show ?case by simp
next
  case (Cons c cs)
  show ?case
  proof (cases "has_prefix (c # cs) '':/''")
    case True
    with Cons.prems show ?thesis by (cases cs) auto
  next
    case False
    with Cons.prems obtain j where j: "i = Suc j" "str_index cs '':/'' = Some j"
      by (auto split: if_splits)
    with Cons.IH have "cs = take j cs @ '':/'' @ drop (j + 2) cs"
      and "str_index (take j cs) '':/'' = None" by auto
    with j False show ?thesis by (cases cs; cases j) auto
  qed
qed

text \<open>
  A file reference that validates, whose bucket does not contain the separator
  and whose key has no leading slash, survives printing and parsing; conversely whatever
  \<open>ParseFileRef\<close> accepts is valid, is the text split at its first \<open>:/\<close>, and prints back to the
  same text unless the key begins with a slash (then one slash is dropped).
\<close>

theorem file_ref_roundtrip:
  "(file_ref_validate f = Inr () \<and> \<not> str_contains (fr_bucket f) '':/'' \<and> \<not> has_prefix (fr_key f) ''/''
      \<longrightarrow> ParseFileRef (file_ref_string f) = Inr f)
   \<and> (ParseFileRef input = Inr g
      \<longrightarrow> file_ref_validate g = Inr () \<and> input = fr_bucket g @ '':/'' @ fr_key g
        \<and> \<not> str_contains (fr_bucket g) '':/''
        \<and> (file_ref_string g = input \<longleftrightarrow> \<not> has_prefix (fr_key g) ''/''))"
proof (intro conjI impI; (elim conjE)?)
  assume "file_ref_validate f = Inr ()" "\<not> str_contains (fr_bucket f) '':/''"
    "\<not> has_prefix (fr_key f) ''/''"
  then show "ParseFileRef (file_ref_string f) = Inr f"
    using str_index_sep [of "fr_bucket f" "fr_key f"]
    by (auto simp: ParseFileRef_def file_ref_string_def file_ref_validate_def trim_prefix_def
        str_contains_def split: if_splits)
next
  assume p: "ParseFileRef input = Inr g"
  then obtain i where i: "str_index input '':/'' = Some i"
    by (auto simp: ParseFileRef_def split: option.splits)
  note first = str_index_sep_first [OF i]
  from p i have g: "g = \<lparr>fr_bucket = take i input, fr_key = drop (i + 2) input\<rparr>"
    "take i input \<noteq> []" "drop (i + 2) input \<noteq> []"
    by (auto simp: ParseFileRef_def Let_def split: if_splits)
  then show "file_ref_validate g = Inr ()" by (simp add: file_ref_validate_def)
  show eq: "input = fr_bucket g @ '':/'' @ fr_key g" using g first by simp
  show "\<not> str_contains (fr_bucket g) '':/''" using g first by (simp add: str_contains_def)
  show "file_ref_string g = input \<longleftrightarrow> \<not> has_prefix (fr_key g) ''/''"
    by (subst eq) (auto simp: file_ref_string_def trim_prefix_def has_prefix_iff)
qed

theorem file_ref_roundtrip_witness:
  "ParseFileRef (file_ref_string \<lparr>fr_bucket = ''avatars'', fr_key = ''users/a.png''\<rparr>)
     = Inr \<lparr>fr_bucket = ''avatars'', fr_key = ''users/a.png''\<rparr>
   \<and> file_ref_string \<lparr>fr_bucket = ''b'', fr_key = ''/k''\<rparr> \<noteq> ''b://k''"
proof -
  have "ParseFileRef ''b://k'' = Inr \<lparr>fr_bucket = ''b'', fr_key = ''/k''\<rparr>"
    by (simp add: ParseFileRef_def)
  then show ?thesis
    using file_ref_roundtrip [of "\<lparr>fr_bucket = ''avatars'', fr_key = ''users/a.png''\<rparr>"
        "''b://k''" "\<lparr>fr_bucket = ''b'', fr_key = ''/k''\<rparr>"]
    by (simp add: file_ref_validate_def str_contains_def)
qed

end
