(* ===== verification/Sql_Values.thy ===== *)
theory Sql_Values
  imports Record_Ids
begin

text \<open>
  Package \<open>types\<close>, continued: the SurrealQL text of values. String escaping
  (\<open>escapeSingleQuotes\<close>, \<open>quoteTypeRecordString\<close>), \<open>RecordRef\<close>, \<open>SurrealFn\<close>, \<open>TypeRecord\<close>,
  \<open>FileRef.ToSurql\<close>, and the reserved-word check. The specification is a lexer for
  single-quoted literals: what the server reads back.
\<close>

abbreviation (input) squote :: char where "squote \<equiv> CHR 0x27"
abbreviation (input) backslash :: char where "backslash \<equiv> CHR 0x5C"

section \<open>Escaping\<close>

definition escape_single_quotes :: "string \<Rightarrow> string" where
  "escape_single_quotes s = replace_all [squote] [backslash, squote] (replace_all [backslash] [backslash, backslash] s)"

definition quote_type_record_string :: "string \<Rightarrow> string" where
  "quote_type_record_string s =
     (let escaped = replace_all [backslash] [backslash, backslash] s;
          escaped = replace_all [squote] [backslash, squote] escaped in
      [squote] @ escaped @ [squote])"

text \<open>
  The body of a single-quoted SurrealQL literal up to its closing quote, and the text after it.
  Of the escape sequences only the two the code emits are read; any other gives None.
\<close>

fun lex_body :: "string \<Rightarrow> (string \<times> string) option" where
  "lex_body [] = None"
| "lex_body (c # cs) =
     (if c = squote then Some ([], cs)
      else if c = backslash then
        (case cs of
           [] \<Rightarrow> None
         | d # ds \<Rightarrow> if d = squote \<or> d = backslash
             then map_option (\<lambda>(b, r). (d # b, r)) (lex_body ds) else None)
      else map_option (\<lambda>(b, r). (c # b, r)) (lex_body cs))"

fun lex_literal :: "string \<Rightarrow> (string \<times> string) option" where
  "lex_literal [] = None"
| "lex_literal (c # cs) = (if c = squote then lex_body cs else None)"

definition esc_char :: "char \<Rightarrow> string" where
  "esc_char c = (if c = squote \<or> c = backslash then [backslash, c] else [c])"

lemma replace_all_single:
  "replace_all [a] w s = concat (map (\<lambda>x. if x = a then w else [x]) s)"
  by (induction s) auto

lemma escape_single_quotes_map: "escape_single_quotes s = concat (map esc_char s)"
  by (induction s) (auto simp: escape_single_quotes_def replace_all_single esc_char_def)

lemma quote_type_record_string_map:
  "quote_type_record_string s = squote # concat (map esc_char s) @ [squote]"
  using escape_single_quotes_map [of s]
  by (simp add: quote_type_record_string_def escape_single_quotes_def)

lemma lex_body_escaped:
  "lex_body (concat (map esc_char s) @ squote # rest) = Some (s, rest)"
  by (induction s) (auto simp: esc_char_def)

lemma lex_body_plain:
  "squote \<notin> set s \<Longrightarrow> backslash \<notin> set s \<Longrightarrow> lex_body (s @ squote # rest) = Some (s, rest)"
  by (induction s) auto

section \<open>Record references and function calls\<close>

record record_ref =
  rr_table :: string
  rr_id :: record_id_value

definition record_ref_surql :: "record_ref \<Rightarrow> string" where
  "record_ref_surql r =
     (if rv_is_int (rr_id r)
      then ''type::record('' @ [squote] @ rr_table r @ [squote] @ '', '' @ show_int (sint (rv_int (rr_id r))) @ '')''
      else
        (let escaped = replace_all [backslash] [backslash, backslash] (rv_string (rr_id r));
             escaped = replace_all [squote] [backslash, squote] escaped in
         ''type::record('' @ [squote] @ rr_table r @ [squote] @ '', '' @ [squote] @ escaped @ [squote] @ '')''))"

definition StringRecordRef :: "string \<Rightarrow> string \<Rightarrow> record_ref" where
  "StringRecordRef table s = \<lparr>rr_table = table, rr_id = StringID s\<rparr>"

definition IntRecordRef :: "string \<Rightarrow> int64 \<Rightarrow> record_ref" where
  "IntRecordRef table n = \<lparr>rr_table = table, rr_id = IntID n\<rparr>"

text \<open>The dynamic types \<open>renderTypeRecord\<close> switches on: the eleven integer kinds are one case,
  and a \<open>Stringer\<close> or any other value comes as its rendered text.\<close>

datatype id_any = AnyIDValue record_id_value | AnyString string | AnyInt int | AnyText string

definition render_type_record :: "string \<Rightarrow> string \<Rightarrow> id_any \<Rightarrow> string" where
  "render_type_record kind table i =
     ''type::'' @ kind @ ''('' @ [squote] @ table @ [squote] @ '', '' @
     (case i of
        AnyIDValue v \<Rightarrow> (if rv_is_int v then show_int (sint (rv_int v)) else quote_type_record_string (rv_string v))
      | AnyString s \<Rightarrow> quote_type_record_string s
      | AnyInt n \<Rightarrow> show_int n
      | AnyText s \<Rightarrow> quote_type_record_string s) @ '')''"

record surreal_fn =
  sf_expression :: string

definition TypeRecord :: "string \<Rightarrow> id_any \<Rightarrow> surreal_fn" where
  "TypeRecord table i = \<lparr>sf_expression = render_type_record ''record'' table i\<rparr>"

definition TypeThing :: "string \<Rightarrow> id_any \<Rightarrow> surreal_fn" where
  "TypeThing table i = \<lparr>sf_expression = render_type_record ''record'' table i\<rparr>"

definition SurqlFn :: "string \<Rightarrow> string list \<Rightarrow> surreal_fn" where
  "SurqlFn name args =
     (if args = [] then \<lparr>sf_expression = name @ ''()''\<rparr>
      else \<lparr>sf_expression = name @ ''('' @ str_join '', '' args @ '')''\<rparr>)"

definition file_ref_surql :: "file_ref \<Rightarrow> string" where
  "file_ref_surql f =
     ''type::file('' @ [squote] @ escape_single_quotes (fr_bucket f) @ [squote] @ '', '' @
       [squote] @ escape_single_quotes (fr_key f) @ [squote] @ '')''"

text \<open>Reading such a call back: the name, then two literals.\<close>

definition lex_call2 :: "string \<Rightarrow> string \<Rightarrow> (string \<times> string \<times> string) option" where
  "lex_call2 fname s =
     (if \<not> has_prefix s (fname @ ''('') then None
      else (case lex_literal (drop (length fname + 1) s) of
              None \<Rightarrow> None
            | Some (a, s1) \<Rightarrow>
                if \<not> has_prefix s1 '', '' then None
                else (case lex_literal (drop 2 s1) of
                        None \<Rightarrow> None
                      | Some (b, s2) \<Rightarrow> if has_prefix s2 '')'' then Some (a, b, drop 1 s2) else None)))"

lemma lex_call2_render:
  assumes "lex_literal (A @ '', '' @ B @ '')'' @ rest) = Some (a, '', '' @ B @ '')'' @ rest)"
    and "lex_literal (B @ '')'' @ rest) = Some (b, '')'' @ rest)"
  shows "lex_call2 fname (fname @ ''('' @ A @ '', '' @ B @ '')'' @ rest) = Some (a, b, rest)"
  using assms by (simp add: lex_call2_def has_prefix_def)

lemma record_ref_lex:
  assumes "squote \<notin> set table" "backslash \<notin> set table"
  shows "lex_call2 ''type::record'' (record_ref_surql (StringRecordRef table s) @ rest) = Some (table, s, rest)"
proof -
  let ?A = "squote # table @ [squote]" and ?B = "squote # concat (map esc_char s) @ [squote]"
  have eq: "record_ref_surql (StringRecordRef table s) @ rest
      = ''type::record'' @ ''('' @ ?A @ '', '' @ ?B @ '')'' @ rest"
    using escape_single_quotes_map [of s]
    by (simp add: record_ref_surql_def StringRecordRef_def StringID_def rv_string_def escape_single_quotes_def)
  show ?thesis unfolding eq
    by (rule lex_call2_render) (use assms in \<open>simp_all add: lex_body_plain lex_body_escaped\<close>)
qed

lemma file_ref_lex:
  "lex_call2 ''type::file'' (file_ref_surql f @ rest) = Some (fr_bucket f, fr_key f, rest)"
proof -
  let ?A = "squote # concat (map esc_char (fr_bucket f)) @ [squote]"
  let ?B = "squote # concat (map esc_char (fr_key f)) @ [squote]"
  have eq: "file_ref_surql f @ rest = ''type::file'' @ ''('' @ ?A @ '', '' @ ?B @ '')'' @ rest"
    by (simp add: file_ref_surql_def escape_single_quotes_map)
  show ?thesis unfolding eq
    by (rule lex_call2_render) (simp_all add: lex_body_escaped)
qed

lemma type_record_lex:
  assumes "squote \<notin> set table" "backslash \<notin> set table"
  shows "lex_call2 ''type::record'' (sf_expression (TypeRecord table (AnyString s)) @ rest) = Some (table, s, rest)"
proof -
  let ?A = "squote # table @ [squote]" and ?B = "squote # concat (map esc_char s) @ [squote]"
  have eq: "sf_expression (TypeRecord table (AnyString s)) @ rest
      = ''type::record'' @ ''('' @ ?A @ '', '' @ ?B @ '')'' @ rest"
    by (simp add: TypeRecord_def render_type_record_def quote_type_record_string_map)
  show ?thesis unfolding eq
    by (rule lex_call2_render) (use assms in \<open>simp_all add: lex_body_plain lex_body_escaped\<close>)
qed

text \<open>
  C2 (safety). No value breaks out of its literal: whatever characters a record id or the two
  parts of a file reference contain, the text the code emits is read back as exactly one
  function call with exactly those strings, and nothing of them leaks into the query that
  follows. For record references the table name must itself hold no quote or backslash, since
  it is interpolated unescaped.
\<close>

theorem literals_do_not_escape:
  assumes "squote \<notin> set table" and "backslash \<notin> set table"
  shows "lex_call2 ''type::record'' (record_ref_surql (StringRecordRef table s) @ rest) = Some (table, s, rest)
    \<and> lex_call2 ''type::record'' (sf_expression (TypeRecord table (AnyString s)) @ rest) = Some (table, s, rest)
    \<and> lex_call2 ''type::file'' (file_ref_surql f @ rest) = Some (fr_bucket f, fr_key f, rest)"
  using record_ref_lex [OF assms] type_record_lex [OF assms] file_ref_lex by blast

theorem literals_do_not_escape_witness:
  "lex_call2 ''type::record'' (record_ref_surql (StringRecordRef ''user'' [squote, CHR '';'', backslash]) @ ''; x'')
     = Some (''user'', [squote, CHR '';'', backslash], ''; x'')"
  using literals_do_not_escape [of "''user''" "[squote, CHR '';'', backslash]" "''; x''"] by simp

text \<open>The hypothesis is needed: a quote in the table name ends the literal early.\<close>

lemma record_ref_table_breaks_out:
  "lex_call2 ''type::record'' (record_ref_surql (StringRecordRef (''a'' @ [squote] @ '', '' @ [squote] @ ''b'' @ [squote] @ ''); REMOVE TABLE a; --'') ''x''))
     = Some (''a'', ''b'', ''; REMOVE TABLE a; --'' @ [squote] @ '', '' @ [squote] @ ''x'' @ [squote] @ '')'')"
  by (simp add: record_ref_surql_def StringRecordRef_def StringID_def rv_string_def lex_call2_def)

section \<open>Reserved words\<close>

definition reserved_words :: "string list" where
  "reserved_words = [''select'', ''from'', ''where'', ''group'', ''order'', ''limit'', ''start'', ''fetch'',
     ''timeout'', ''parallel'', ''value'', ''content'', ''set'', ''create'', ''update'', ''delete'',
     ''relate'', ''insert'', ''define'', ''remove'', ''begin'', ''commit'', ''cancel'', ''return'', ''let'',
     ''if'', ''else'', ''then'', ''end'', ''for'', ''break'', ''continue'', ''throw'', ''none'', ''null'',
     ''true'', ''false'', ''and'', ''or'', ''not'', ''is'', ''contains'', ''inside'', ''outside'',
     ''intersects'', ''type'', ''table'', ''field'', ''index'', ''event'', ''namespace'', ''database'',
     ''scope'', ''token'', ''info'', ''live'', ''kill'', ''sleep'', ''use'', ''in'', ''out'']"

definition edge_allowed_reserved :: "string list" where
  "edge_allowed_reserved = [''in'', ''out'']"

definition leaf_segment :: "string \<Rightarrow> string" where
  "leaf_segment name = (case last_index name CHR ''.'' of Some idx \<Rightarrow> drop (idx + 1) name | None \<Rightarrow> name)"

definition IsReservedWord :: "string \<Rightarrow> bool" where
  "IsReservedWord name \<longleftrightarrow> to_lower (leaf_segment name) \<in> set reserved_words"

definition CheckReservedWord :: "string \<Rightarrow> bool \<Rightarrow> string" where
  "CheckReservedWord name allow_edge =
     (let lower = to_lower (leaf_segment name) in
      if lower \<notin> set reserved_words then []
      else if allow_edge \<and> lower \<in> set edge_allowed_reserved then []
      else ''Field name '' @ go_quote name @ '' collides with SurrealDB reserved word '' @ go_quote lower @
        ''. This may cause unexpected query behavior.'')"

lemma CheckReservedWord_empty_iff:
  "CheckReservedWord name e = [] \<longleftrightarrow>
     \<not> IsReservedWord name \<or> (e \<and> to_lower (leaf_segment name) \<in> {''in'', ''out''})"
  by (auto simp: CheckReservedWord_def IsReservedWord_def edge_allowed_reserved_def Let_def)

end
