(* ===== verification/Version_Graph.thy ===== *)
theory Version_Graph
  imports Surql_Errors
begin

text \<open>
  \<open>VersionGraph\<close> of \<open>pkg/surql/migration/versioning.go\<close>: the graph of schema snapshots with
  its insertion, removal (which re-parents children), breadth-first path search, ancestors and
  descendants. The graph reads only the \<open>Version\<close> of a snapshot; the other fields of
  \<open>SchemaSnapshot\<close> are the type parameter \<open>'p\<close>. The mutex is not modelled: every method holds
  it from start to end, so calls are atomic.
\<close>

section \<open>Sorted slices of strings\<close>

text \<open>\<open>sort.SearchStrings\<close>: binary search for the first index whose element is at least \<open>x\<close>.\<close>

function search_loop :: "string list \<Rightarrow> string \<Rightarrow> nat \<Rightarrow> nat \<Rightarrow> nat" where
  "search_loop a x i j =
     (if i < j then
        (let h = (i + j) div 2 in
         if \<not> x \<le> a ! h then search_loop a x (h + 1) j else search_loop a x i h)
      else i)"
  by pat_completeness auto
termination
  by (relation "measure (\<lambda>(a, x, i, j). j - i)") auto

declare search_loop.simps [simp del]

definition search_strings :: "string list \<Rightarrow> string \<Rightarrow> nat" where
  "search_strings a x = search_loop a x 0 (length a)"

definition insert_sorted :: "string list \<Rightarrow> string \<Rightarrow> string list" where
  "insert_sorted xs v =
     (let idx = search_strings xs v in
      if idx < length xs \<and> xs ! idx = v then xs
      else take idx xs @ [v] @ drop idx xs)"

fun remove_from_slice :: "string list \<Rightarrow> string \<Rightarrow> string list" where
  "remove_from_slice [] v = []"
| "remove_from_slice (x # xs) v = (if x = v then xs else x # remove_from_slice xs v)"

lemma search_loop_spec:
  "sorted a \<Longrightarrow> i \<le> j \<Longrightarrow> j \<le> length a \<Longrightarrow> \<forall>k < i. a ! k < x \<Longrightarrow> \<forall>k. j \<le> k \<and> k < length a \<longrightarrow> x \<le> a ! k \<Longrightarrow>
   (let r = search_loop a x i j in
      r \<le> length a \<and> (\<forall>k < r. a ! k < x) \<and> (\<forall>k. r \<le> k \<and> k < length a \<longrightarrow> x \<le> a ! k))"
proof (induction a x i j rule: search_loop.induct)
  case (1 a x i j)
  show ?case
  proof (cases "i < j")
    case False
    with "1.prems" show ?thesis by (subst search_loop.simps) (simp add: Let_def)
  next
    case True
    define h where "h = (i + j) div 2"
    have h: "i \<le> h" "h < j" using True by (auto simp: h_def)
    show ?thesis
    proof (cases "x \<le> a ! h")
      case True
      have "x \<le> a ! k" if "h \<le> k" "k < length a" for k
        using True sorted_nth_mono [OF "1.prems"(1) that] by simp
      then have "let r = search_loop a x i h in
          r \<le> length a \<and> (\<forall>k < r. a ! k < x) \<and> (\<forall>k. r \<le> k \<and> k < length a \<longrightarrow> x \<le> a ! k)"
        using "1.IH"(2) [OF \<open>i < j\<close> h_def] True h "1.prems" by simp
      moreover have "search_loop a x i j = search_loop a x i h"
        using \<open>i < j\<close> True by (subst search_loop.simps) (simp add: h_def Let_def)
      ultimately show ?thesis by simp
    next
      case False
      have "a ! k < x" if "k < h + 1" for k
      proof -
        have "a ! k \<le> a ! h" using that h "1.prems"(1,3) by (intro sorted_nth_mono) auto
        with False show ?thesis by simp
      qed
      then have "let r = search_loop a x (h + 1) j in
          r \<le> length a \<and> (\<forall>k < r. a ! k < x) \<and> (\<forall>k. r \<le> k \<and> k < length a \<longrightarrow> x \<le> a ! k)"
        using "1.IH"(1) [OF \<open>i < j\<close> h_def] False h "1.prems" by simp
      moreover have "search_loop a x i j = search_loop a x (h + 1) j"
        using \<open>i < j\<close> False by (subst search_loop.simps) (simp add: h_def Let_def)
      ultimately show ?thesis by simp
    qed
  qed
qed

lemma search_strings_spec:
  assumes "sorted a"
  shows "search_strings a x \<le> length a \<and> (\<forall>k < search_strings a x. a ! k < x)
    \<and> (\<forall>k. search_strings a x \<le> k \<and> k < length a \<longrightarrow> x \<le> a ! k)"
proof -
  have "\<forall>k. length a \<le> k \<and> k < length a \<longrightarrow> x \<le> a ! k" by auto
  from search_loop_spec [OF assms _ _ _ this, of 0] show ?thesis
    by (simp add: search_strings_def Let_def)
qed

abbreviation sdistinct :: "string list \<Rightarrow> bool" where
  "sdistinct xs \<equiv> sorted_wrt (<) xs"

lemma sdistinct_sorted: "sdistinct xs \<Longrightarrow> sorted xs \<and> distinct xs"
  by (simp add: strict_sorted_iff)

lemma insert_sorted_sdistinct:
  assumes "sdistinct xs"
  shows "sdistinct (insert_sorted xs v) \<and> set (insert_sorted xs v) = insert v (set xs)"
proof -
  let ?i = "search_strings xs v"
  note s = search_strings_spec [OF conjunct1 [OF sdistinct_sorted [OF assms]], of v]
  show ?thesis
  proof (cases "?i < length xs \<and> xs ! ?i = v")
    case True
    then have "v \<in> set xs" using nth_mem by metis
    with True assms show ?thesis by (auto simp: insert_sorted_def Let_def)
  next
    case False
    have lo: "\<forall>y \<in> set (take ?i xs). y < v"
      using s by (auto simp: in_set_conv_nth)
    have hi: "\<forall>y \<in> set (drop ?i xs). v < y"
    proof
      fix y assume "y \<in> set (drop ?i xs)"
      then obtain k where k: "y = xs ! (?i + k)" "?i + k < length xs"
        by (auto simp: in_set_conv_nth)
      then have "v \<le> xs ! ?i" and "xs ! ?i \<le> y"
        using s sdistinct_sorted [OF assms] by (auto intro: sorted_nth_mono)
      with False k show "v < y" by auto
    qed
    have tri: "insert_sorted xs v = take ?i xs @ [v] @ drop ?i xs"
      using False by (auto simp: insert_sorted_def Let_def)
    have "sdistinct (take ?i xs @ drop ?i xs)" using assms by simp
    then have "sdistinct (take ?i xs) \<and> sdistinct (drop ?i xs)"
      by (simp only: sorted_wrt_append)
    moreover have "set xs = set (take ?i xs) \<union> set (drop ?i xs)"
      by (metis append_take_drop_id set_append)
    ultimately show ?thesis
      unfolding tri sorted_wrt_append using lo hi by fastforce
  qed
qed

lemma remove_from_slice_remove1: "remove_from_slice xs v = remove1 v xs"
  by (induction xs) auto

lemma remove_from_slice_sdistinct:
  "sdistinct xs \<Longrightarrow> sdistinct (remove_from_slice xs v) \<and> set (remove_from_slice xs v) = set xs - {v}"
  unfolding remove_from_slice_remove1
  by (metis sdistinct_sorted set_remove1_eq sorted_remove1 distinct_remove1 strict_sorted_iff)

section \<open>The graph and its updates\<close>

record 'p snapshot =
  sn_version :: string
  sn_payload :: 'p

record 'p version_node =
  vn_version :: string
  vn_parent :: string
  vn_snapshot :: "'p snapshot"
  vn_children :: "string list"

record 'p version_graph =
  vg_nodes :: "(string, 'p version_node) fmap"
  vg_root :: string

definition NewVersionGraph :: "'p version_graph" where
  "NewVersionGraph = \<lparr>vg_nodes = fmempty, vg_root = []\<rparr>"

definition vg_add :: "'p snapshot \<Rightarrow> string \<Rightarrow> 'p version_graph \<Rightarrow> 'p version_graph result" where
  "vg_add snap parent g =
     (if sn_version snap = [] then
        Inl (err_new ErrValidation ''cannot add snapshot with empty version to graph'')
      else if fmlookup (vg_nodes g) (sn_version snap) \<noteq> None then
        Inl (err_new ErrValidation (''version '' @ go_quote (sn_version snap) @ '' already exists in graph''))
      else if parent \<noteq> [] \<and> fmlookup (vg_nodes g) parent = None then
        Inl (err_new ErrValidation (''parent version '' @ go_quote parent @ '' not found in graph''))
      else
        (let node = \<lparr>vn_version = sn_version snap, vn_parent = parent, vn_snapshot = snap, vn_children = []\<rparr>;
             nodes = fmupd (sn_version snap) node (vg_nodes g) in
         if parent \<noteq> [] then
           (case fmlookup nodes parent of
              Some pn \<Rightarrow> Inr (g\<lparr>vg_nodes := fmupd parent
                 (pn\<lparr>vn_children := insert_sorted (vn_children pn) (sn_version snap)\<rparr>) nodes\<rparr>)
            | None \<Rightarrow> Inr (g\<lparr>vg_nodes := nodes\<rparr>))
         else if vg_root g = [] then Inr (g\<lparr>vg_nodes := nodes, vg_root := sn_version snap\<rparr>)
         else Inr (g\<lparr>vg_nodes := nodes\<rparr>)))"

text \<open>The loop of \<open>Remove\<close> over the removed node's children; \<open>np\<close> is the removed node's parent.\<close>

fun reparent :: "string \<Rightarrow> string list \<Rightarrow> (string, 'p version_node) fmap \<Rightarrow> (string, 'p version_node) fmap" where
  "reparent np [] nodes = nodes"
| "reparent np (c # cs) nodes =
     (case fmlookup nodes c of
        None \<Rightarrow> reparent np cs nodes
      | Some child \<Rightarrow>
          (let nodes1 = fmupd c (child\<lparr>vn_parent := np\<rparr>) nodes;
               nodes2 = (if np \<noteq> [] then
                           (case fmlookup nodes1 np of
                              Some pn \<Rightarrow> fmupd np (pn\<lparr>vn_children := insert_sorted (vn_children pn) c\<rparr>) nodes1
                            | None \<Rightarrow> nodes1)
                         else nodes1) in
           reparent np cs nodes2))"

text \<open>The \<open>range\<close> loop that promotes a parentless node, over the runtime's enumeration of the map.\<close>

fun first_root :: "(string, 'p version_node) fmap \<Rightarrow> string list \<Rightarrow> string" where
  "first_root nodes [] = []"
| "first_root nodes (v # vs) =
     (case fmlookup nodes v of
        Some n \<Rightarrow> if vn_parent n = [] then v else first_root nodes vs
      | None \<Rightarrow> first_root nodes vs)"

definition detach :: "string \<Rightarrow> string \<Rightarrow> (string, 'p version_node) fmap \<Rightarrow> (string, 'p version_node) fmap" where
  "detach parent v nodes =
     (if parent \<noteq> [] then
        (case fmlookup nodes parent of
           Some pn \<Rightarrow> fmupd parent (pn\<lparr>vn_children := remove_from_slice (vn_children pn) v\<rparr>) nodes
         | None \<Rightarrow> nodes)
      else nodes)"

definition vg_remove :: "string list \<Rightarrow> string \<Rightarrow> 'p version_graph \<Rightarrow> 'p version_graph result" where
  "vg_remove order v g =
     (case fmlookup (vg_nodes g) v of
        None \<Rightarrow> Inl (err_new ErrValidation (''version '' @ go_quote v @ '' not found in graph''))
      | Some node \<Rightarrow>
          (let nodes1 = detach (vn_parent node) v (vg_nodes g);
               nodes2 = reparent (vn_parent node) (vn_children node) nodes1;
               nodes3 = fmdrop v nodes2 in
           Inr (if vg_root g = v then \<lparr>vg_nodes = nodes3, vg_root = first_root nodes3 order\<rparr>
                else g\<lparr>vg_nodes := nodes3\<rparr>)))"

section \<open>Queries\<close>

definition vg_get :: "'p version_graph \<Rightarrow> string \<Rightarrow> 'p version_node option" where
  "vg_get g v = fmlookup (vg_nodes g) v"

definition vg_has :: "'p version_graph \<Rightarrow> string \<Rightarrow> bool" where
  "vg_has g v \<longleftrightarrow> fmlookup (vg_nodes g) v \<noteq> None"

definition vg_len :: "'p version_graph \<Rightarrow> nat" where
  "vg_len g = fcard (fmdom (vg_nodes g))"

definition vg_versions :: "'p version_graph \<Rightarrow> string list" where
  "vg_versions g = sorted_list_of_fset (fmdom (vg_nodes g))"

definition neighbours :: "'p version_node \<Rightarrow> string list" where
  "neighbours node = vn_children node @ (if vn_parent node \<noteq> [] then [vn_parent node] else [])"

text \<open>
  The inner loop of \<open>Path\<close>: either the target is met (\<open>Inl\<close> its path) or the visited set and
  the entries to enqueue.
\<close>

fun scan_neighbours ::
  "string \<Rightarrow> string list \<Rightarrow> string list \<Rightarrow> string set \<Rightarrow> string list + (string set \<times> (string \<times> string list) list)" where
  "scan_neighbours target path [] visited = Inr (visited, [])"
| "scan_neighbours target path (n # ns) visited =
     (if n \<in> visited then scan_neighbours target path ns visited
      else
        (let newPath = path @ [n] in
         if n = target then Inl newPath
         else
           (case scan_neighbours target path ns (insert n visited) of
              Inl p \<Rightarrow> Inl p
            | Inr (vis, fresh) \<Rightarrow> Inr (vis, (n, newPath) # fresh))))"

text \<open>The names that occur in a graph: what the search can ever visit.\<close>

definition mentioned :: "'p version_graph \<Rightarrow> string set" where
  "mentioned g = (\<Union>n \<in> fmran' (vg_nodes g). set (neighbours n))"

lemma finite_mentioned [simp]: "finite (mentioned g)"
  by (simp add: mentioned_def fmran'_alt_def)

lemma neighbours_mentioned: "fmlookup (vg_nodes g) v = Some n \<Longrightarrow> set (neighbours n) \<subseteq> mentioned g"
  by (auto simp: mentioned_def intro: fmran'I)

lemma scan_neighbours_Inr:
  "scan_neighbours t p ns V = Inr (V', fresh) \<Longrightarrow>
     V' = V \<union> set ns \<and> distinct (map fst fresh) \<and> set (map fst fresh) = set ns - V
     \<and> (\<forall>(n, q) \<in> set fresh. q = p @ [n]) \<and> (t \<in> set ns \<longrightarrow> t \<in> V)"
proof (induction ns arbitrary: V V' fresh)
  case Nil
  then show ?case by simp
next
  case (Cons n ns)
  show ?case
  proof (cases "n \<in> V")
    case True
    with Cons show ?thesis by auto
  next
    case False
    with Cons.prems obtain m where "n \<noteq> t" and fresh: "fresh = (n, p @ [n]) # m"
      and "scan_neighbours t p ns (insert n V) = Inr (V', m)"
      by (auto simp: Let_def split: if_splits sum.splits)
    from Cons.IH [OF this(3)] False \<open>n \<noteq> t\<close> show ?thesis unfolding fresh by auto
  qed
qed

lemma scan_neighbours_Inl:
  "scan_neighbours t p ns V = Inl q \<Longrightarrow> q = p @ [t] \<and> t \<in> set ns \<and> t \<notin> V"
  by (induction ns arbitrary: V) (auto simp: Let_def split: if_splits sum.splits prod.splits)

text \<open>
  The outer loop of \<open>Path\<close>. A dequeued name that is not in the map would be a nil dereference:
  None. A nil result slice is the empty list.
\<close>

function path_loop ::
  "'p version_graph \<Rightarrow> string \<Rightarrow> (string \<times> string list) list \<Rightarrow> string set \<Rightarrow> string list option" where
  "path_loop g target [] visited = Some []"
| "path_loop g target ((v, path) # queue) visited =
     (case fmlookup (vg_nodes g) v of
        None \<Rightarrow> None
      | Some node \<Rightarrow>
          (case scan_neighbours target path (neighbours node) visited of
             Inl p \<Rightarrow> Some p
           | Inr (vis, fresh) \<Rightarrow> path_loop g target (queue @ fresh) vis))"
  by pat_completeness auto
termination
proof (relation "measure (\<lambda>(g, t, q, V). card (mentioned g - V) + length q)", goal_cases)
  case 1
  then show ?case by simp
next
  case (2 g t v p q V node vm vis fresh)
  then have s: "scan_neighbours t p (neighbours node) V = Inr (vis, fresh)" by (cases vm) simp
  note m = scan_neighbours_Inr [OF s]
  let ?new = "set (neighbours node) - V"
  have len: "length fresh = card ?new"
    using m by (metis distinct_card length_map)
  have "mentioned g - V = (mentioned g - vis) \<union> ?new"
    using m neighbours_mentioned [OF 2(1)] by auto
  moreover have "(mentioned g - vis) \<inter> ?new = {}" using m by auto
  ultimately have "card (mentioned g - V) = card (mentioned g - vis) + card ?new"
    by (simp add: card_Un_disjoint)
  with len 2 show ?case by (cases vm) simp
qed

definition vg_path :: "'p version_graph \<Rightarrow> string \<Rightarrow> string \<Rightarrow> string list option" where
  "vg_path g from to =
     (if fmlookup (vg_nodes g) from = None then Some []
      else if fmlookup (vg_nodes g) to = None then Some []
      else if from = to then Some [from]
      else path_loop g to [(from, [from])] {from})"

text \<open>The loop of \<open>Ancestors\<close> follows parent links without a bound: None if it does not return.\<close>

partial_function (option) ancestors_loop ::
  "'p version_graph \<Rightarrow> string \<Rightarrow> string list \<Rightarrow> string list option" where
  "ancestors_loop g current acc =
     (case fmlookup (vg_nodes g) current of
        None \<Rightarrow> Some acc
      | Some node \<Rightarrow>
          (if vn_parent node = [] then Some acc
           else ancestors_loop g (vn_parent node) (vn_parent node # acc)))"

definition vg_ancestors :: "'p version_graph \<Rightarrow> string \<Rightarrow> string list option" where
  "vg_ancestors g v =
     (if fmlookup (vg_nodes g) v = None then Some [] else ancestors_loop g v [])"

fun push_children :: "string list \<Rightarrow> string set \<Rightarrow> string set \<times> string list" where
  "push_children [] visited = (visited, [])"
| "push_children (c # cs) visited =
     (if c \<in> visited then push_children cs visited
      else (case push_children cs (insert c visited) of (vis, fresh) \<Rightarrow> (vis, c # fresh)))"

lemma push_children_spec:
  "push_children cs V = (V', fresh) \<Longrightarrow>
     V' = V \<union> set cs \<and> distinct fresh \<and> set fresh = set cs - V"
  by (induction cs arbitrary: V V' fresh) (fastforce split: if_splits prod.splits)+

function descendants_loop :: "'p version_graph \<Rightarrow> string list \<Rightarrow> string set \<Rightarrow> string list \<Rightarrow> string list" where
  "descendants_loop g [] visited acc = acc"
| "descendants_loop g (cur # queue) visited acc =
     (case fmlookup (vg_nodes g) cur of
        None \<Rightarrow> descendants_loop g queue visited (acc @ [cur])
      | Some node \<Rightarrow>
          (case push_children (vn_children node) visited of
             (vis, fresh) \<Rightarrow> descendants_loop g (queue @ fresh) vis (acc @ [cur])))"
  by pat_completeness auto
termination
proof (relation "measure (\<lambda>(g, q, V, acc). card (mentioned g - V) + length q)", goal_cases)
  case 1
  then show ?case by simp
next
  case 2
  then show ?case by simp
next
  case (3 g cur q V acc node vis fresh)
  then have s: "push_children (vn_children node) V = (vis, fresh)" by simp
  note m = push_children_spec [OF s]
  let ?new = "set (vn_children node) - V"
  have len: "length fresh = card ?new" using m by (metis distinct_card)
  have "set (vn_children node) \<subseteq> mentioned g"
    using neighbours_mentioned [OF 3(1)] by (auto simp: neighbours_def)
  then have "mentioned g - V = (mentioned g - vis) \<union> ?new" using m by auto
  moreover have "(mentioned g - vis) \<inter> ?new = {}" using m by auto
  ultimately have "card (mentioned g - V) = card (mentioned g - vis) + card ?new"
    by (simp add: card_Un_disjoint)
  with len 3 show ?case by simp
qed

definition vg_descendants :: "'p version_graph \<Rightarrow> string \<Rightarrow> string list" where
  "vg_descendants g v =
     (case fmlookup (vg_nodes g) v of
        None \<Rightarrow> []
      | Some node \<Rightarrow> descendants_loop g (vn_children node) (set (vn_children node)) [])"

end
