(* ===== verification/Version_Graph_Correct.thy ===== *)
theory Version_Graph_Correct
  imports Version_Graph
begin

text \<open>
  Correctness of the version graph: the well-formedness invariant that every sequence of
  insertions and removals keeps, and what the searches compute on a well-formed graph.
\<close>

section \<open>The invariant\<close>

definition par :: "'p version_graph \<Rightarrow> string \<Rightarrow> string option" where
  "par g v = map_option vn_parent (fmlookup (vg_nodes g) v)"

definition parent_of :: "'p version_graph \<Rightarrow> string \<Rightarrow> string \<Rightarrow> bool" where
  "parent_of g p v \<longleftrightarrow> p \<noteq> [] \<and> par g v = Some p"

text \<open>
  Nodes are filed under their own, nonempty version; parent and child links are inverse to one
  another and stay inside the graph; children are strictly sorted; some rank grows along every
  parent link (no cycle); the root is a parentless node, and there is none only if no node is
  parentless.
\<close>

definition vg_node_ok :: "'p version_graph \<Rightarrow> string \<Rightarrow> 'p version_node \<Rightarrow> bool" where
  "vg_node_ok g v n \<longleftrightarrow>
     v \<noteq> [] \<and> vn_version n = v \<and> sn_version (vn_snapshot n) = v \<and> sdistinct (vn_children n)
     \<and> (\<forall>c. c \<in> set (vn_children n) \<longleftrightarrow> parent_of g v c)
     \<and> (vn_parent n \<noteq> [] \<longrightarrow> vg_has g (vn_parent n))"

definition vg_root_ok :: "'p version_graph \<Rightarrow> bool" where
  "vg_root_ok g \<longleftrightarrow>
     (if vg_root g = [] then \<forall>v. par g v \<noteq> Some [] else par g (vg_root g) = Some [])"

definition vg_ranked :: "'p version_graph \<Rightarrow> (string \<Rightarrow> nat) \<Rightarrow> bool" where
  "vg_ranked g rk \<longleftrightarrow> (\<forall>p v. parent_of g p v \<longrightarrow> rk p < rk v)"

definition vg_inv :: "'p version_graph \<Rightarrow> bool" where
  "vg_inv g \<longleftrightarrow> (\<forall>v n. fmlookup (vg_nodes g) v = Some n \<longrightarrow> vg_node_ok g v n)
     \<and> vg_root_ok g \<and> (\<exists>rk. vg_ranked g rk)"

lemma vg_inv_nodeD:
  assumes "vg_inv g" "fmlookup (vg_nodes g) v = Some n"
  shows "v \<noteq> []" "vn_version n = v" "sn_version (vn_snapshot n) = v" "sdistinct (vn_children n)"
    "\<And>c. c \<in> set (vn_children n) \<longleftrightarrow> parent_of g v c"
    "vn_parent n \<noteq> [] \<Longrightarrow> \<exists>pn. fmlookup (vg_nodes g) (vn_parent n) = Some pn"
  using assms by (auto simp: vg_inv_def vg_node_ok_def vg_has_def)

lemma vg_has_par: "vg_has g v \<longleftrightarrow> par g v \<noteq> None"
  by (simp add: vg_has_def par_def)

lemma parent_of_has: "parent_of g p v \<Longrightarrow> vg_has g v"
  by (simp add: parent_of_def vg_has_par)

lemma parent_of_unique: "parent_of g p v \<Longrightarrow> parent_of g q v \<Longrightarrow> p = q"
  by (simp add: parent_of_def)

lemma parent_of_has_parent: "vg_inv g \<Longrightarrow> parent_of g p v \<Longrightarrow> vg_has g p"
  using vg_inv_nodeD(6) by (fastforce simp: parent_of_def par_def vg_has_def)

lemma parent_of_neq: "vg_inv g \<Longrightarrow> parent_of g p v \<Longrightarrow> p \<noteq> v"
  by (auto simp: vg_inv_def vg_ranked_def)

lemma vg_inv_New: "vg_inv NewVersionGraph"
  by (simp add: vg_inv_def NewVersionGraph_def vg_root_ok_def vg_ranked_def parent_of_def par_def)

section \<open>Insertion\<close>

text \<open>A successful insertion, as a change of the lookup function.\<close>

lemma vg_add_Inr:
  assumes inv: "vg_inv g" and add: "vg_add s p g = Inr g'"
  shows "sn_version s \<noteq> [] \<and> \<not> vg_has g (sn_version s) \<and> (p = [] \<or> vg_has g p)
    \<and> (\<forall>w. fmlookup (vg_nodes g') w =
        (if w = sn_version s then Some \<lparr>vn_version = sn_version s, vn_parent = p, vn_snapshot = s, vn_children = []\<rparr>
         else map_option (\<lambda>n. if p \<noteq> [] \<and> w = p then n\<lparr>vn_children := insert_sorted (vn_children n) (sn_version s)\<rparr> else n)
                (fmlookup (vg_nodes g) w)))
    \<and> vg_root g' = (if p = [] \<and> vg_root g = [] then sn_version s else vg_root g)"
  using add
  by (auto simp: vg_add_def vg_has_def Let_def option.map_ident split: if_splits option.splits)

lemma vg_add_par:
  assumes "vg_inv g" "vg_add s p g = Inr g'"
  shows "par g' = (par g)(sn_version s \<mapsto> p)"
proof
  fix w
  show "par g' w = ((par g)(sn_version s \<mapsto> p)) w"
    using vg_add_Inr [OF assms] by (cases "fmlookup (vg_nodes g) w") (auto simp: par_def)
qed

lemma vg_add_parent_of:
  assumes "vg_inv g" "vg_add s p g = Inr g'"
  shows "parent_of g' q v \<longleftrightarrow> (if v = sn_version s then p \<noteq> [] \<and> q = p else parent_of g q v)"
  using vg_add_par [OF assms] by (auto simp: parent_of_def)

lemma vg_add_inv:
  assumes inv: "vg_inv g" and add: "vg_add s p g = Inr g'"
  shows "vg_inv g'"
proof -
  note a = vg_add_Inr [OF inv add] and po = vg_add_parent_of [OF inv add]
  let ?v = "sn_version s"
  have new: "\<not> parent_of g ?v c" for c
    using a parent_of_has_parent [OF inv] by blast
  have "vg_node_ok g' w n" if w: "fmlookup (vg_nodes g') w = Some n" for w n
  proof (cases "w = ?v")
    case True
    with w a have "n = \<lparr>vn_version = ?v, vn_parent = p, vn_snapshot = s, vn_children = []\<rparr>" by simp
    with True a new po show ?thesis
      by (auto simp: vg_node_ok_def vg_has_def)
  next
    case False
    with w a obtain m where m: "fmlookup (vg_nodes g) w = Some m"
      and n: "n = (if p \<noteq> [] \<and> w = p then m\<lparr>vn_children := insert_sorted (vn_children m) ?v\<rparr> else m)"
      by auto
    note d = vg_inv_nodeD [OF inv m]
    have "\<not> parent_of g w ?v" using a parent_of_has by blast
    with d n insert_sorted_sdistinct [OF d(4), of ?v] po a
    show ?thesis by (auto simp: vg_node_ok_def vg_has_def)
  qed
  moreover have "vg_root_ok g'"
    using inv a vg_add_par [OF inv add]
    by (auto simp: vg_inv_def vg_root_ok_def vg_has_par split: if_splits)
  moreover obtain rk where "vg_ranked g rk" using inv by (auto simp: vg_inv_def)
  then have "vg_ranked g' (rk(?v := Suc (rk p)))"
    using po a new by (auto simp: vg_ranked_def)
  ultimately show ?thesis unfolding vg_inv_def by blast
qed

section \<open>Removal\<close>

lemma foldl_insert_sorted:
  "sdistinct xs \<Longrightarrow> sdistinct (foldl insert_sorted xs cs) \<and> set (foldl insert_sorted xs cs) = set xs \<union> set cs"
proof (induction cs arbitrary: xs)
  case Nil
  then show ?case by simp
next
  case (Cons c cs)
  with insert_sorted_sdistinct [of xs c] show ?case by auto
qed

text \<open>The effect of the re-parenting loop on one node, when the children are distinct nodes other
  than the new parent.\<close>

lemma reparent_lookup:
  assumes "distinct cs" "np \<notin> set cs" "\<forall>c \<in> set cs. fmlookup nodes c \<noteq> None"
    "np = [] \<longrightarrow> fmlookup nodes [] = None"
  shows "fmlookup (reparent np cs nodes) w =
    map_option (\<lambda>n. if w \<in> set cs then n\<lparr>vn_parent := np\<rparr>
      else if w = np then n\<lparr>vn_children := foldl insert_sorted (vn_children n) cs\<rparr> else n)
      (fmlookup nodes w)"
  using assms
proof (induction cs arbitrary: nodes)
  case Nil
  then show ?case by (cases "fmlookup nodes w") auto
next
  case (Cons c cs)
  then obtain child where c: "fmlookup nodes c = Some child" by auto
  define nodes1 where "nodes1 = fmupd c (child\<lparr>vn_parent := np\<rparr>) nodes"
  define nodes2 where "nodes2 = (if np \<noteq> [] then
      (case fmlookup nodes1 np of
         Some pn \<Rightarrow> fmupd np (pn\<lparr>vn_children := insert_sorted (vn_children pn) c\<rparr>) nodes1
       | None \<Rightarrow> nodes1) else nodes1)"
  have neq: "np \<noteq> c" using Cons.prems by auto
  have l2: "fmlookup nodes2 x = (if x = c then Some (child\<lparr>vn_parent := np\<rparr>)
      else if x = np then map_option (\<lambda>n. n\<lparr>vn_children := insert_sorted (vn_children n) c\<rparr>) (fmlookup nodes np)
      else fmlookup nodes x)" for x
    using neq Cons.prems(4)
    by (cases "fmlookup nodes np") (auto simp: nodes2_def nodes1_def split: option.splits)
  have "reparent np (c # cs) nodes = reparent np cs nodes2"
    by (simp only: reparent.simps c option.case Let_def nodes2_def nodes1_def)
  moreover have "fmlookup (reparent np cs nodes2) w =
    map_option (\<lambda>n. if w \<in> set cs then n\<lparr>vn_parent := np\<rparr>
      else if w = np then n\<lparr>vn_children := foldl insert_sorted (vn_children n) cs\<rparr> else n)
      (fmlookup nodes2 w)"
    using Cons.prems l2 by (intro Cons.IH) auto
  ultimately show ?case
    using Cons.prems c neq
    by (cases "fmlookup nodes w") (auto simp: l2)
qed

lemma detach_lookup:
  "parent = [] \<longrightarrow> fmlookup nodes [] = None \<Longrightarrow>
   fmlookup (detach parent v nodes) w =
     map_option (\<lambda>n. if w = parent then n\<lparr>vn_children := remove_from_slice (vn_children n) v\<rparr> else n)
       (fmlookup nodes w)"
  by (cases "fmlookup nodes w") (auto simp: detach_def split: option.splits)

text \<open>What a removal of \<open>v\<close>, filed as \<open>node\<close>, does to each node.\<close>

definition removed_node :: "string \<Rightarrow> 'p version_node \<Rightarrow> string \<Rightarrow> 'p version_node \<Rightarrow> 'p version_node" where
  "removed_node v node w n =
     (if w \<in> set (vn_children node) then n\<lparr>vn_parent := vn_parent node\<rparr>
      else if w = vn_parent node then
        n\<lparr>vn_children := foldl insert_sorted (remove_from_slice (vn_children n) v) (vn_children node)\<rparr>
      else n)"

definition removal :: "'p version_graph \<Rightarrow> string \<Rightarrow> 'p version_node \<Rightarrow> 'p version_graph \<Rightarrow> bool" where
  "removal g v node g' \<longleftrightarrow>
     fmlookup (vg_nodes g) v = Some node \<and> vn_parent node \<noteq> v \<and> vn_parent node \<notin> set (vn_children node)
     \<and> (\<forall>w. fmlookup (vg_nodes g') w =
          (if w = v then None else map_option (removed_node v node w) (fmlookup (vg_nodes g) w)))"

lemma vg_remove_Inr:
  assumes inv: "vg_inv g" and rem: "vg_remove order v g = Inr g'"
  shows "\<exists>node. removal g v node g'
    \<and> vg_root g' = (if vg_root g = v then first_root (vg_nodes g') order else vg_root g)"
proof -
  from rem obtain node where node: "fmlookup (vg_nodes g) v = Some node"
    by (auto simp: vg_remove_def split: option.splits)
  note d = vg_inv_nodeD [OF inv node]
  obtain rk where rk: "vg_ranked g rk" using inv by (auto simp: vg_inv_def)
  have pv: "vn_parent node \<noteq> [] \<Longrightarrow> parent_of g (vn_parent node) v"
    using node by (simp add: parent_of_def par_def)
  have neq: "vn_parent node \<noteq> v"
    using pv parent_of_neq [OF inv] d(1) by blast
  have nil: "fmlookup (vg_nodes g) [] = None"
    using vg_inv_nodeD(1) [OF inv] by (metis not_None_eq)
  have notin: "vn_parent node \<notin> set (vn_children node)"
  proof
    assume "vn_parent node \<in> set (vn_children node)"
    then have a: "parent_of g v (vn_parent node)" using d(5) by blast
    then have "vn_parent node \<noteq> []" using nil by (auto simp: parent_of_def par_def)
    with pv a rk show False unfolding vg_ranked_def by (meson less_asym)
  qed
  have kids: "\<forall>c \<in> set (vn_children node). fmlookup (vg_nodes g) c \<noteq> None"
    using d(5) parent_of_has by (fastforce simp: vg_has_def)
  let ?n1 = "detach (vn_parent node) v (vg_nodes g)"
  have l1: "fmlookup ?n1 w = map_option (\<lambda>n. if w = vn_parent node
      then n\<lparr>vn_children := remove_from_slice (vn_children n) v\<rparr> else n) (fmlookup (vg_nodes g) w)" for w
    using nil by (intro detach_lookup) simp
  have l2: "fmlookup (reparent (vn_parent node) (vn_children node) ?n1) w =
    map_option (\<lambda>n. if w \<in> set (vn_children node) then n\<lparr>vn_parent := vn_parent node\<rparr>
      else if w = vn_parent node then n\<lparr>vn_children := foldl insert_sorted (vn_children n) (vn_children node)\<rparr> else n)
      (fmlookup ?n1 w)" for w
    using d(4) sdistinct_sorted notin kids nil l1 by (intro reparent_lookup) auto
  let ?n3 = "fmdrop v (reparent (vn_parent node) (vn_children node) ?n1)"
  have g': "g' = (if vg_root g = v then \<lparr>vg_nodes = ?n3, vg_root = first_root ?n3 order\<rparr>
      else g\<lparr>vg_nodes := ?n3\<rparr>)"
    using rem node by (simp add: vg_remove_def Let_def)
  then have n3: "vg_nodes g' = ?n3" by auto
  have "fmlookup (vg_nodes g') w =
      (if w = v then None else map_option (removed_node v node w) (fmlookup (vg_nodes g) w))" for w
    unfolding n3 removed_node_def using notin by (cases "fmlookup (vg_nodes g) w") (auto simp: l2 l1)
  with node neq notin have "removal g v node g'" unfolding removal_def by blast
  moreover have "vg_root g' = (if vg_root g = v then first_root (vg_nodes g') order else vg_root g)"
    using g' n3 by auto
  ultimately show ?thesis by blast
qed

lemma first_root_spec:
  "(first_root nodes vs = [] \<and> (\<forall>v \<in> set vs. \<forall>n. fmlookup nodes v = Some n \<and> vn_parent n = [] \<longrightarrow> v = []))
   \<or> (\<exists>n. fmlookup nodes (first_root nodes vs) = Some n \<and> vn_parent n = [])"
  by (induction vs) (auto split: option.splits)

lemma removal_par:
  assumes "removal g v node g'"
  shows "par g' w = (if w = v then None
      else if w \<in> set (vn_children node) \<and> par g w \<noteq> None then Some (vn_parent node) else par g w)"
  using assms by (cases "fmlookup (vg_nodes g) w") (auto simp: par_def removal_def removed_node_def)

lemma removal_parent_of:
  assumes inv: "vg_inv g" and r: "removal g v node g'"
  shows "parent_of g' p c \<longleftrightarrow>
      p \<noteq> v \<and> c \<noteq> v \<and> (parent_of g p c \<or> (parent_of g p v \<and> parent_of g v c))"
proof -
  have node: "fmlookup (vg_nodes g) v = Some node" using r by (simp add: removal_def)
  note d = vg_inv_nodeD [OF inv node]
  have neq: "vn_parent node \<noteq> v" using r by (simp add: removal_def)
  have pv: "parent_of g p v \<longleftrightarrow> p \<noteq> [] \<and> p = vn_parent node"
    using node by (auto simp: parent_of_def par_def)
  show ?thesis
  proof (cases "parent_of g v c")
    case True
    then have "par g c = Some v" by (simp add: parent_of_def)
    then show ?thesis
      using removal_par [OF r, of c] True d(5) [of c] neq pv d(1) by (auto simp: parent_of_def)
  next
    case False
    then have "par g' c = (if c = v then None else par g c)"
      using removal_par [OF r, of c] d(5) [of c] by simp
    then show ?thesis using False d(1) by (auto simp: parent_of_def)
  qed
qed

lemma removal_children:
  assumes inv: "vg_inv g" and r: "removal g v node g'" and w: "fmlookup (vg_nodes g') w = Some n"
  shows "sdistinct (vn_children n) \<and> (\<forall>c. c \<in> set (vn_children n) \<longleftrightarrow> parent_of g' w c)"
proof -
  from w r obtain m where m: "fmlookup (vg_nodes g) w = Some m" and wv: "w \<noteq> v"
    and n: "n = removed_node v node w m" and node: "fmlookup (vg_nodes g) v = Some node"
    by (auto simp: removal_def split: if_splits)
  note d = vg_inv_nodeD [OF inv node] and e = vg_inv_nodeD [OF inv m]
    and po = removal_parent_of [OF inv r]
  have pv: "parent_of g p v \<longleftrightarrow> p \<noteq> [] \<and> p = vn_parent node" for p
    using node by (auto simp: parent_of_def par_def)
  have notin: "vn_parent node \<notin> set (vn_children node)" using r by (simp add: removal_def)
  show ?thesis
  proof (cases "w = vn_parent node")
    case True
    note rs = remove_from_slice_sdistinct [OF e(4), of v]
    note fs = foldl_insert_sorted [OF conjunct1 [OF rs], of "vn_children node"]
    have ch: "vn_children n = foldl insert_sorted (remove_from_slice (vn_children m) v) (vn_children node)"
      using n True notin by (simp add: removed_node_def)
    have "c \<in> set (vn_children n) \<longleftrightarrow> (parent_of g w c \<and> c \<noteq> v) \<or> parent_of g v c" for c
      using fs rs ch e(5) d(5) by simp
    moreover have "parent_of g w v" using pv True e(1) by blast
    ultimately have "c \<in> set (vn_children n) \<longleftrightarrow> parent_of g' w c" for c
      using po [of w c] wv parent_of_neq [OF inv, of v c] by blast
    with fs ch show ?thesis by simp
  next
    case False
    with n have "vn_children n = vn_children m" by (simp add: removed_node_def)
    moreover have "\<not> parent_of g w v" using pv False by blast
    then have "parent_of g' w c \<longleftrightarrow> parent_of g w c" for c using po [of w c] wv by blast
    ultimately show ?thesis using e(4,5) by simp
  qed
qed

lemma removal_node_ok:
  assumes inv: "vg_inv g" and r: "removal g v node g'" and w: "fmlookup (vg_nodes g') w = Some n"
  shows "vg_node_ok g' w n"
proof -
  from w r obtain m where m: "fmlookup (vg_nodes g) w = Some m" and n: "n = removed_node v node w m"
    by (auto simp: removal_def split: if_splits)
  note e = vg_inv_nodeD [OF inv m]
  have ids: "w \<noteq> []" "vn_version n = w" "sn_version (vn_snapshot n) = w"
    using e n by (auto simp: removed_node_def)
  have "vg_has g' (vn_parent n)" if "vn_parent n \<noteq> []"
  proof -
    have "parent_of g' (vn_parent n) w" using that w by (simp add: parent_of_def par_def)
    then have "vn_parent n \<noteq> v" and "vg_has g (vn_parent n)"
      using removal_parent_of [OF inv r] parent_of_has_parent [OF inv] by blast+
    then show ?thesis using removal_par [OF r] by (simp add: vg_has_par)
  qed
  with ids removal_children [OF inv r w] show ?thesis by (simp add: vg_node_ok_def)
qed

lemma first_root_ok:
  assumes ord: "enumerates order (vg_nodes g)" and nil: "fmlookup (vg_nodes g) [] = None"
    and root: "vg_root g = first_root (vg_nodes g) order"
  shows "vg_root_ok g"
  using first_root_spec [of "vg_nodes g" order]
proof
  assume a: "first_root (vg_nodes g) order = [] \<and>
    (\<forall>v \<in> set order. \<forall>n. fmlookup (vg_nodes g) v = Some n \<and> vn_parent n = [] \<longrightarrow> v = [])"
  have "par g w \<noteq> Some []" for w
  proof
    assume p: "par g w = Some []"
    then obtain n where n: "fmlookup (vg_nodes g) w = Some n" "vn_parent n = []" by (auto simp: par_def)
    then have "w \<in> set order" using ord enumerates_lookup by fastforce
    with a n nil show False by auto
  qed
  with a root show ?thesis by (simp add: vg_root_ok_def)
next
  assume "\<exists>n. fmlookup (vg_nodes g) (first_root (vg_nodes g) order) = Some n \<and> vn_parent n = []"
  then have "par g (vg_root g) = Some []" using root by (auto simp: par_def)
  moreover from this have "vg_root g \<noteq> []" using nil by (auto simp: par_def)
  ultimately show ?thesis by (simp add: vg_root_ok_def)
qed

lemma removal_root_kept:
  assumes inv: "vg_inv g" and r: "removal g v node g'"
    and root: "vg_root g' = vg_root g" "vg_root g \<noteq> v"
  shows "vg_root_ok g'"
proof -
  have node: "fmlookup (vg_nodes g) v = Some node" using r by (simp add: removal_def)
  note d = vg_inv_nodeD [OF inv node] and p = removal_par [OF r]
  have ok: "vg_root_ok g" using inv by (simp add: vg_inv_def)
  show ?thesis
  proof (cases "vg_root g = []")
    case True
    with ok have np: "\<And>w. par g w \<noteq> Some []" by (simp add: vg_root_ok_def)
    then have "vn_parent node \<noteq> []" using np [of v] node by (auto simp: par_def)
    then show ?thesis using np True root p by (simp add: vg_root_ok_def)
  next
    case False
    with ok have "par g (vg_root g) = Some []" by (simp add: vg_root_ok_def)
    moreover from this have "\<not> parent_of g v (vg_root g)" using d(1) by (auto simp: parent_of_def)
    ultimately show ?thesis using False root p d(5) by (simp add: vg_root_ok_def)
  qed
qed

lemma vg_remove_inv:
  assumes inv: "vg_inv g" and rem: "vg_remove order v g = Inr g'" and ord: "enumerates order (vg_nodes g')"
  shows "vg_inv g'"
proof -
  obtain node where r: "removal g v node g'"
    and root: "vg_root g' = (if vg_root g = v then first_root (vg_nodes g') order else vg_root g)"
    using vg_remove_Inr [OF inv rem] by blast
  have nodes: "\<forall>w n. fmlookup (vg_nodes g') w = Some n \<longrightarrow> vg_node_ok g' w n"
    using removal_node_ok [OF inv r] by blast
  have nil: "fmlookup (vg_nodes g') [] = None"
    using nodes by (metis not_None_eq vg_node_ok_def)
  have "vg_root_ok g'"
  proof (cases "vg_root g = v")
    case True
    with root first_root_ok [OF ord nil] show ?thesis by simp
  next
    case False
    with root removal_root_kept [OF inv r] show ?thesis by simp
  qed
  moreover obtain rk where "vg_ranked g rk" using inv by (auto simp: vg_inv_def)
  then have "vg_ranked g' rk"
    using removal_parent_of [OF inv r] unfolding vg_ranked_def by (meson less_trans)
  ultimately show ?thesis unfolding vg_inv_def using nodes by blast
qed

end
