(* ===== verification/Version_Graph_Search.thy ===== *)
theory Version_Graph_Search
  imports Version_Graph_Correct
begin

text \<open>
  The three searches of the version graph on well-formed graphs: \<open>Path\<close> returns a shortest
  walk, \<open>Ancestors\<close> returns and gives the chain of parents from the root down, and
  \<open>Descendants\<close> gives every node below, without repetition.
\<close>

section \<open>Walks\<close>

definition adj :: "'p version_graph \<Rightarrow> string \<Rightarrow> string \<Rightarrow> bool" where
  "adj g u v \<longleftrightarrow> (\<exists>n. fmlookup (vg_nodes g) u = Some n \<and> v \<in> set (neighbours n))"

definition walk :: "'p version_graph \<Rightarrow> string \<Rightarrow> string \<Rightarrow> string list \<Rightarrow> bool" where
  "walk g u w p \<longleftrightarrow> p \<noteq> [] \<and> hd p = u \<and> last p = w \<and> successively (adj g) p"

lemma adj_parent: "vg_inv g \<Longrightarrow> adj g u v \<longleftrightarrow> parent_of g u v \<or> parent_of g v u"
proof (cases "fmlookup (vg_nodes g) u")
  case None
  assume inv: "vg_inv g"
  with None have "\<not> parent_of g u v" using parent_of_has_parent by (fastforce simp: vg_has_def)
  with None show ?thesis by (simp add: adj_def parent_of_def par_def)
next
  case (Some n)
  assume inv: "vg_inv g"
  have "v \<in> set (vn_children n) \<longleftrightarrow> parent_of g u v" using vg_inv_nodeD(5) [OF inv Some] .
  moreover have "parent_of g v u \<longleftrightarrow> vn_parent n \<noteq> [] \<and> v = vn_parent n"
    using Some by (auto simp: parent_of_def par_def)
  ultimately show ?thesis using Some by (auto simp: adj_def neighbours_def)
qed

lemma adj_has: "vg_inv g \<Longrightarrow> adj g u v \<Longrightarrow> vg_has g v"
  by (auto simp: adj_parent dest: parent_of_has parent_of_has_parent)

lemma walk_snoc: "walk g s v p \<Longrightarrow> adj g v w \<Longrightarrow> walk g s w (p @ [w])"
  by (auto simp: walk_def successively_append_iff)

lemma walk_snocE:
  assumes "walk g s w q" "1 < length q"
  obtains v p where "q = p @ [w]" "walk g s v p" "adj g v w"
proof -
  obtain p where q: "q = p @ [w]" and p: "p \<noteq> []"
    using assms by (cases q rule: rev_cases) (auto simp: walk_def)
  with assms(1) have "walk g s (last p) p" "adj g (last p) w"
    by (auto simp: walk_def successively_append_iff)
  with q show thesis by (rule that)
qed

lemma walk_single: "walk g s w [x] \<longleftrightarrow> x = s \<and> x = w"
  by (auto simp: walk_def)

lemma walk_length_pos: "walk g s w q \<Longrightarrow> 0 < length q"
  by (simp add: walk_def)

lemma walk_closed:
  assumes "s \<in> V" "\<And>v w. v \<in> V \<Longrightarrow> adj g v w \<Longrightarrow> w \<in> V"
  shows "walk g s w q \<Longrightarrow> w \<in> V"
proof (induction "length q" arbitrary: q w)
  case 0
  then show ?case by (simp add: walk_def)
next
  case (Suc n)
  show ?case
  proof (cases "1 < length q")
    case True
    from walk_snocE [OF Suc.prems True] obtain v p where "q = p @ [w]" "walk g s v p" "adj g v w" .
    with Suc.hyps(1) [of p v] Suc.hyps(2) assms(2) show ?thesis by simp
  next
    case False
    with Suc obtain x where "q = [x]" by (cases q) auto
    with Suc.prems assms(1) show ?thesis by (auto simp: walk_single)
  qed
qed

section \<open>Breadth-first search\<close>

definition shortest :: "'p version_graph \<Rightarrow> string \<Rightarrow> string \<Rightarrow> string list \<Rightarrow> bool" where
  "shortest g s v p \<longleftrightarrow> walk g s v p \<and> (\<forall>q. walk g s v q \<longrightarrow> length p \<le> length q)"

text \<open>
  The invariant of the queue and the visited set: queued entries carry shortest walks, in
  ascending length and within one of the head's; a visited name is queued or all its neighbours
  are visited; everything at least as near as the head is visited; the target is not.
\<close>

definition bfs_inv ::
  "'p version_graph \<Rightarrow> string \<Rightarrow> string \<Rightarrow> (string \<times> string list) list \<Rightarrow> string set \<Rightarrow> bool" where
  "bfs_inv g s t Q V \<longleftrightarrow>
     (\<forall>(v, p) \<in> set Q. v \<in> V \<and> shortest g s v p \<and> length p \<le> Suc (length (snd (hd Q))))
     \<and> sorted (map (\<lambda>e. length (snd e)) Q)
     \<and> s \<in> V \<and> t \<notin> V \<and> (\<forall>v \<in> V. vg_has g v)
     \<and> (\<forall>v \<in> V. v \<in> fst ` set Q \<or> (\<forall>w. adj g v w \<longrightarrow> w \<in> V))
     \<and> (Q \<noteq> [] \<longrightarrow> (\<forall>w q. walk g s w q \<and> length q \<le> length (snd (hd Q)) \<longrightarrow> w \<in> V))"

lemma bfs_inv_start:
  assumes "vg_has g s" "s \<noteq> t"
  shows "bfs_inv g s t [(s, [s])] {s}"
proof -
  have "w = s" if "walk g s w q" "length q \<le> 1" for w q
    using that by (cases q) (auto simp: walk_def)
  moreover have "shortest g s s [s]"
    by (auto simp: shortest_def walk_single Suc_le_eq dest: walk_length_pos)
  ultimately show ?thesis using assms by (auto simp: bfs_inv_def)
qed

lemma bfs_inv_consD:
  assumes "bfs_inv g s t ((v, p) # Q) V"
  shows "v \<in> V \<and> shortest g s v p"
    and "\<And>w q. walk g s w q \<Longrightarrow> length q \<le> length p \<Longrightarrow> w \<in> V"
    and "\<And>u r. (u, r) \<in> set Q \<Longrightarrow>
           u \<in> V \<and> shortest g s u r \<and> length p \<le> length r \<and> length r \<le> Suc (length p)"
    and "\<And>u. u \<in> V \<Longrightarrow> u = v \<or> u \<in> fst ` set Q \<or> (\<forall>w. adj g u w \<longrightarrow> w \<in> V)"
  using assms by (auto simp: bfs_inv_def)

lemma bfs_inv_exhausted: "bfs_inv g s t [] V \<Longrightarrow> \<not> walk g s t q"
  using walk_closed [of s V g t q] by (auto simp: bfs_inv_def)

lemma bfs_inv_found:
  assumes I: "bfs_inv g s t ((v, p) # Q) V" and n: "fmlookup (vg_nodes g) v = Some n"
    and f: "scan_neighbours t p (neighbours n) V = Inl r"
  shows "shortest g s t r"
proof -
  note r = scan_neighbours_Inl [OF f]
  have "walk g s v p" using I by (simp add: bfs_inv_def shortest_def)
  then have "walk g s t r" using r n by (auto simp: adj_def intro: walk_snoc)
  moreover have "length r \<le> length q" if "walk g s t q" for q
  proof -
    have "\<not> length q \<le> length p" using I that by (auto simp: bfs_inv_def)
    then show ?thesis using r by simp
  qed
  ultimately show ?thesis by (simp add: shortest_def)
qed

lemma bfs_inv_fresh:
  assumes I: "bfs_inv g s t ((v, p) # Q) V" and n: "fmlookup (vg_nodes g) v = Some n"
    and f: "scan_neighbours t p (neighbours n) V = Inr (V', fresh)" and e: "(w, q) \<in> set fresh"
  shows "q = p @ [w] \<and> w \<in> V' \<and> shortest g s w q"
proof -
  note m = scan_neighbours_Inr [OF f]
  have q: "q = p @ [w]" using m e by blast
  have "w \<in> set (map fst fresh)" using e by force
  then have w: "w \<in> set (neighbours n) - V" using m by blast
  have "walk g s v p" using I by (simp add: bfs_inv_def shortest_def)
  with q w n have "walk g s w q" by (auto simp: adj_def intro: walk_snoc)
  moreover have "length q \<le> length r" if "walk g s w r" for r
  proof -
    have "\<not> length r \<le> length p" using I that w by (auto simp: bfs_inv_def)
    then show ?thesis using q by simp
  qed
  ultimately show ?thesis using q w m by (auto simp: shortest_def)
qed

text \<open>The nearness clause after the head \<open>(v, p)\<close> has been processed.\<close>

lemma bfs_inv_near:
  assumes I: "bfs_inv g s t ((v, p) # Q) V" and V: "V \<subseteq> V'"
    and entries: "\<forall>(u, r) \<in> set Q'. shortest g s u r \<and> length p \<le> length r"
    and srt: "sorted (map (\<lambda>e. length (snd e)) Q')" and len: "\<forall>(u, r) \<in> set Q'. length r \<le> Suc (length p)"
    and front: "\<forall>u \<in> V'. u \<in> fst ` set Q' \<or> (\<forall>w. adj g u w \<longrightarrow> w \<in> V')"
    and ne: "Q' \<noteq> []" and w: "walk g s w q" "length q \<le> length (snd (hd Q'))"
  shows "w \<in> V'"
proof (cases "length q \<le> length p")
  case True
  with bfs_inv_consD(2) [OF I w(1)] V show ?thesis by blast
next
  case False
  obtain u0 r0 Q0 where Q': "Q' = (u0, r0) # Q0" using ne by (cases Q') auto
  have head: "length r0 = Suc (length p)" and lq: "length q = Suc (length p)"
    using False w(2) len Q' by auto
  have p: "0 < length p" using I by (auto simp: bfs_inv_def shortest_def walk_def)
  have "1 < length q" using lq p by simp
  from walk_snocE [OF w(1) this] obtain u q' where q: "q = q' @ [w]" "walk g s u q'" "adj g u w" .
  have "u \<in> V'" using bfs_inv_consD(2) [OF I q(2)] q(1) lq V by auto
  moreover have "u \<notin> fst ` set Q'"
  proof
    assume "u \<in> fst ` set Q'"
    then obtain r where r: "(u, r) \<in> set Q'" by auto
    then have "length r \<le> length q'" using entries q(2) by (auto simp: shortest_def)
    moreover have "length r0 \<le> length r" using r srt Q' by auto
    ultimately show False using head lq q(1) by simp
  qed
  ultimately show ?thesis using front q(3) by blast
qed

lemma bfs_inv_step:
  assumes inv: "vg_inv g" and I: "bfs_inv g s t ((v, p) # Q) V" and n: "fmlookup (vg_nodes g) v = Some n"
    and f: "scan_neighbours t p (neighbours n) V = Inr (V', fresh)"
  shows "bfs_inv g s t (Q @ fresh) V'"
proof -
  note m = scan_neighbours_Inr [OF f] and fr = bfs_inv_fresh [OF I n f]
  note c = bfs_inv_consD [OF I]
  have entry: "u \<in> V' \<and> shortest g s u r \<and> length p \<le> length r \<and> length r \<le> Suc (length p)"
    if "(u, r) \<in> set (Q @ fresh)" for u r
  proof (cases "(u, r) \<in> set Q")
    case True
    then show ?thesis using c(3) m by blast
  next
    case False
    with that have "(u, r) \<in> set fresh" by simp
    with fr [of u r] show ?thesis by auto
  qed
  then have entries: "\<forall>(u, r) \<in> set (Q @ fresh). u \<in> V' \<and> shortest g s u r \<and> length p \<le> length r \<and> length r \<le> Suc (length p)"
    by blast
  have "map (\<lambda>e. length (snd e)) fresh = replicate (length fresh) (Suc (length p))"
    by (intro replicate_eqI) (auto dest!: fr)
  then have srt: "sorted (map (\<lambda>e. length (snd e)) (Q @ fresh))"
    using I c(3) by (auto simp: sorted_append bfs_inv_def)
  have front: "\<forall>u \<in> V'. u \<in> fst ` set (Q @ fresh) \<or> (\<forall>w. adj g u w \<longrightarrow> w \<in> V')"
  proof
    fix u assume u: "u \<in> V'"
    show "u \<in> fst ` set (Q @ fresh) \<or> (\<forall>w. adj g u w \<longrightarrow> w \<in> V')"
    proof (cases "u \<in> V")
      case False
      with u m have "u \<in> set (map fst fresh)" by auto
      then show ?thesis by auto
    next
      case True
      from c(4) [OF this] show ?thesis using m n by (auto simp: adj_def)
    qed
  qed
  have hd: "length p \<le> length (snd (hd (Q @ fresh)))" if "Q @ fresh \<noteq> []"
    using entries that by (metis (no_types, lifting) case_prod_beta hd_in_set)
  have has: "\<forall>u \<in> V'. vg_has g u"
    using I m n adj_has [OF inv] by (auto simp: bfs_inv_def adj_def)
  have V: "V \<subseteq> V'" using m by blast
  have e1: "\<forall>(u, r) \<in> set (Q @ fresh). shortest g s u r \<and> length p \<le> length r" using entry by blast
  have e2: "\<forall>(u, r) \<in> set (Q @ fresh). length r \<le> Suc (length p)" using entry by blast
  have near: "\<forall>w q. walk g s w q \<and> length q \<le> length (snd (hd (Q @ fresh))) \<longrightarrow> w \<in> V'" if "Q @ fresh \<noteq> []"
    using bfs_inv_near [OF I V e1 srt e2 front that] by blast
  have "\<forall>(u, r) \<in> set (Q @ fresh). u \<in> V' \<and> shortest g s u r \<and> length r \<le> Suc (length (snd (hd (Q @ fresh))))"
    using entries hd by (fastforce simp del: set_append)
  moreover have "s \<in> V'" "t \<notin> V'" using I m by (auto simp: bfs_inv_def)
  ultimately show ?thesis using srt front near has unfolding bfs_inv_def by blast
qed

lemma path_loop_correct:
  "vg_inv g \<Longrightarrow> bfs_inv g s t Q V \<Longrightarrow>
    \<exists>r. path_loop g t Q V = Some r \<and> (if r = [] then \<forall>q. \<not> walk g s t q else shortest g s t r)"
proof (induction g t Q V rule: path_loop.induct)
  case (1 g t V)
  from bfs_inv_exhausted [OF 1(2)] show ?case by simp
next
  case (2 g t v p Q V)
  then obtain n where n: "fmlookup (vg_nodes g) v = Some n"
    by (auto simp: bfs_inv_def vg_has_def)
  show ?case
  proof (cases "scan_neighbours t p (neighbours n) V")
    case (Inl r)
    with bfs_inv_found [OF 2(3) n] n show ?thesis by (auto simp: shortest_def walk_def)
  next
    case (Inr x)
    obtain V' fresh where x: "x = (V', fresh)" by (cases x)
    have "bfs_inv g s t (Q @ fresh) V'"
      using bfs_inv_step [OF 2(2,3) n] Inr x by simp
    with 2(1) [OF n Inr x [symmetric] 2(2)] show ?thesis using n Inr x by simp
  qed
qed

section \<open>Ancestors\<close>

definition is_ancestor :: "'p version_graph \<Rightarrow> string \<Rightarrow> string \<Rightarrow> bool" where
  "is_ancestor g a v \<longleftrightarrow> (parent_of g)\<^sup>+\<^sup>+ a v"

lemma is_ancestor_root: "par g v = Some [] \<Longrightarrow> \<not> is_ancestor g a v"
  by (auto simp: is_ancestor_def parent_of_def elim: tranclp.cases)

lemma is_ancestor_parent: "parent_of g p v \<Longrightarrow> is_ancestor g a v \<longleftrightarrow> a = p \<or> is_ancestor g a p"
  unfolding is_ancestor_def
  by (metis parent_of_unique tranclp.cases tranclp.r_into_trancl tranclp.trancl_into_trancl)

lemma is_ancestor_rank: "vg_ranked g rk \<Longrightarrow> is_ancestor g a v \<Longrightarrow> rk a < rk v"
proof -
  assume rk: "vg_ranked g rk" and "is_ancestor g a v"
  then have "(parent_of g)\<^sup>+\<^sup>+ a v" by (simp add: is_ancestor_def)
  then show "rk a < rk v"
    using rk by (induction rule: tranclp_induct) (auto simp: vg_ranked_def intro: less_trans)
qed

text \<open>The loop returns the chain of parents, root first, in front of what it had collected.\<close>

lemma ancestors_loop_correct:
  assumes inv: "vg_inv g" and rk: "vg_ranked g rk"
  shows "vg_has g v \<Longrightarrow> \<exists>as. ancestors_loop g v acc = Some (as @ acc)
    \<and> successively (parent_of g) (as @ [v]) \<and> par g (hd (as @ [v])) = Some []
    \<and> (\<forall>a. a \<in> set as \<longleftrightarrow> is_ancestor g a v)"
proof (induction "rk v" arbitrary: v acc rule: less_induct)
  case less
  then obtain n where n: "fmlookup (vg_nodes g) v = Some n" by (auto simp: vg_has_def)
  show ?case
  proof (cases "vn_parent n = []")
    case True
    with n have "par g v = Some []" by (simp add: par_def)
    with True n is_ancestor_root [of g v] show ?thesis
      by (intro exI [of _ "[]"]) (simp add: ancestors_loop.simps)
  next
    case False
    let ?p = "vn_parent n"
    have p: "parent_of g ?p v" using n False by (simp add: parent_of_def par_def)
    then have "rk ?p < rk v" and "vg_has g ?p"
      using rk parent_of_has_parent [OF inv] by (auto simp: vg_ranked_def)
    from less.hyps [OF this, of "?p # acc"] obtain as where
      as: "ancestors_loop g ?p (?p # acc) = Some (as @ ?p # acc)"
        "successively (parent_of g) (as @ [?p])" "par g (hd (as @ [?p])) = Some []"
        "\<forall>a. a \<in> set as \<longleftrightarrow> is_ancestor g a ?p" by auto
    have "ancestors_loop g v acc = Some ((as @ [?p]) @ acc)"
      using as(1) n False by (subst ancestors_loop.simps) simp
    moreover have "successively (parent_of g) ((as @ [?p]) @ [v])"
      using as(2) p by (auto simp: successively_append_iff)
    moreover have "par g (hd ((as @ [?p]) @ [v])) = Some []" using as(3) by (cases as) auto
    moreover have "\<forall>a. a \<in> set (as @ [?p]) \<longleftrightarrow> is_ancestor g a v"
      using as(4) is_ancestor_parent [OF p] by auto
    ultimately show ?thesis by blast
  qed
qed

section \<open>Descendants\<close>

definition desc_inv ::
  "'p version_graph \<Rightarrow> string \<Rightarrow> string list \<Rightarrow> string set \<Rightarrow> string list \<Rightarrow> bool" where
  "desc_inv g v Q V acc \<longleftrightarrow>
     distinct (acc @ Q) \<and> set (acc @ Q) = V \<and> (\<forall>x \<in> V. is_ancestor g v x)
     \<and> (\<forall>c. parent_of g v c \<longrightarrow> c \<in> V) \<and> (\<forall>a \<in> set acc. \<forall>c. parent_of g a c \<longrightarrow> c \<in> V)"

lemma desc_inv_done:
  assumes "desc_inv g v [] V acc"
  shows "distinct acc \<and> set acc = {x. is_ancestor g v x}"
proof -
  have "x \<in> V" if "is_ancestor g v x" for x
    using that unfolding is_ancestor_def
    by (induction rule: tranclp_induct) (use assms in \<open>auto simp: desc_inv_def\<close>)
  moreover have "V = set acc" "distinct acc" "\<forall>x \<in> V. is_ancestor g v x"
    using assms by (simp_all add: desc_inv_def)
  ultimately show ?thesis by blast
qed

lemma desc_inv_step:
  assumes inv: "vg_inv g" and I: "desc_inv g v (cur # Q) V acc"
    and n: "fmlookup (vg_nodes g) cur = Some n" and p: "push_children (vn_children n) V = (V', fresh)"
  shows "desc_inv g v (Q @ fresh) V' (acc @ [cur])"
proof -
  note m = push_children_spec [OF p]
  have ch: "c \<in> set (vn_children n) \<longleftrightarrow> parent_of g cur c" for c
    using vg_inv_nodeD(5) [OF inv n] .
  have "is_ancestor g v cur" using I by (auto simp: desc_inv_def)
  then have "is_ancestor g v c" if "parent_of g cur c" for c
    using that by (auto simp: is_ancestor_def intro: tranclp.trancl_into_trancl)
  then show ?thesis using I m ch by (auto simp: desc_inv_def)
qed

lemma descendants_loop_correct:
  "vg_inv g \<Longrightarrow> desc_inv g v Q V acc \<Longrightarrow>
     distinct (descendants_loop g Q V acc) \<and> set (descendants_loop g Q V acc) = {x. is_ancestor g v x}"
proof (induction g Q V acc rule: descendants_loop.induct)
  case (1 g V acc)
  from desc_inv_done [OF 1(2)] show ?case by simp
next
  case (2 g cur Q V acc)
  have "is_ancestor g v cur" using 2(4) by (auto simp: desc_inv_def)
  then have "vg_has g cur"
    unfolding is_ancestor_def by (metis parent_of_has tranclp.cases)
  then obtain n where n: "fmlookup (vg_nodes g) cur = Some n" by (auto simp: vg_has_def)
  obtain V' fresh where p: "push_children (vn_children n) V = (V', fresh)" by fastforce
  from 2(2) [OF n p [symmetric] 2(3) desc_inv_step [OF 2(3,4) n p]] n p
  show ?case by simp
qed

lemma vg_descendants_correct:
  assumes inv: "vg_inv g"
  shows "distinct (vg_descendants g v) \<and> set (vg_descendants g v) = {x. is_ancestor g v x}"
proof (cases "fmlookup (vg_nodes g) v")
  case None
  have "\<not> is_ancestor g v x" for x
  proof
    assume "is_ancestor g v x"
    then obtain c where "parent_of g v c" unfolding is_ancestor_def by (metis tranclpD)
    from parent_of_has_parent [OF inv this] None show False by (simp add: vg_has_def)
  qed
  with None show ?thesis by (simp add: vg_descendants_def)
next
  case (Some n)
  note d = vg_inv_nodeD [OF inv Some]
  have "desc_inv g v (vn_children n) (set (vn_children n)) []"
    using d(4,5) sdistinct_sorted by (auto simp: desc_inv_def is_ancestor_def)
  from descendants_loop_correct [OF inv this] Some show ?thesis by (simp add: vg_descendants_def)
qed

section \<open>Reachable graphs and the properties\<close>

text \<open>The graphs a program can build: any sequence of successful insertions and removals, the
  removals with any enumeration of the remaining map.\<close>

inductive vg_step :: "'p version_graph \<Rightarrow> 'p version_graph \<Rightarrow> bool" where
  step_add: "vg_add s p g = Inr g' \<Longrightarrow> vg_step g g'"
| step_remove: "vg_remove order v g = Inr g' \<Longrightarrow> enumerates order (vg_nodes g') \<Longrightarrow> vg_step g g'"

inductive vg_reachable :: "'p version_graph \<Rightarrow> bool" where
  start: "vg_reachable NewVersionGraph"
| step: "vg_reachable g \<Longrightarrow> vg_step g g' \<Longrightarrow> vg_reachable g'"

inductive_cases vg_stepE: "vg_step g g'"

lemma vg_step_inv: "vg_step g g' \<Longrightarrow> vg_inv g \<Longrightarrow> vg_inv g'"
  by (elim vg_stepE) (auto intro: vg_add_inv vg_remove_inv)

lemma vg_reachable_inv: "vg_reachable g \<Longrightarrow> vg_inv g"
  by (induction rule: vg_reachable.induct) (auto intro: vg_inv_New vg_step_inv)

definition snap :: "string \<Rightarrow> unit snapshot" where
  "snap v = \<lparr>sn_version = v, sn_payload = ()\<rparr>"

definition sample_graph :: "unit version_graph" where
  "sample_graph = (case vg_add (snap ''a'') [] NewVersionGraph of Inl _ \<Rightarrow> NewVersionGraph | Inr g1 \<Rightarrow>
     (case vg_add (snap ''b'') ''a'' g1 of Inl _ \<Rightarrow> g1 | Inr g2 \<Rightarrow>
       (case vg_add (snap ''c'') ''b'' g2 of Inl _ \<Rightarrow> g2 | Inr g3 \<Rightarrow> g3)))"

lemma insert_sorted_Nil [simp]: "insert_sorted [] v = [v]"
  by (simp add: insert_sorted_def)

lemma sample_graph_reachable: "vg_reachable sample_graph"
proof -
  have r: "vg_reachable g' " if "vg_reachable g" "vg_add s p g = Inr g'" for g g' :: "unit version_graph" and s p
    using that by (blast intro: vg_reachable.step step_add)
  show ?thesis
    unfolding sample_graph_def
    by (auto split: sum.split) (blast intro: vg_reachable.start r)+
qed

lemma sample_graph_lookup:
  "fmlookup (vg_nodes sample_graph) v =
     (if v = ''a'' then Some \<lparr>vn_version = ''a'', vn_parent = [], vn_snapshot = snap ''a'', vn_children = [''b'']\<rparr>
      else if v = ''b'' then Some \<lparr>vn_version = ''b'', vn_parent = ''a'', vn_snapshot = snap ''b'', vn_children = [''c'']\<rparr>
      else if v = ''c'' then Some \<lparr>vn_version = ''c'', vn_parent = ''b'', vn_snapshot = snap ''c'', vn_children = []\<rparr>
      else None)"
  by (simp add: sample_graph_def vg_add_def snap_def NewVersionGraph_def)

text \<open>
  C3 (invariant). Every graph built from \<open>NewVersionGraph\<close> by \<open>Add\<close> and \<open>Remove\<close> is a forest:
  nodes are filed under their version, parent and child links are inverse to one another and
  never dangle, children are strictly sorted, no node is its own ancestor, and the root is a
  parentless node, empty only for the empty graph (whichever node \<open>Remove\<close> promotes).
\<close>

theorem vg_reachable_forest:
  assumes "vg_reachable g" and "fmlookup (vg_nodes g) v = Some n"
  shows "vn_version n = v \<and> sdistinct (vn_children n)
    \<and> (\<forall>c. c \<in> set (vn_children n) \<longleftrightarrow> c \<noteq> [] \<and> parent_of g v c)
    \<and> (vn_parent n = [] \<or> (\<exists>pn. vg_get g (vn_parent n) = Some pn \<and> v \<in> set (vn_children pn)))
    \<and> \<not> is_ancestor g v v
    \<and> (\<exists>rn. vg_get g (vg_root g) = Some rn \<and> vn_parent rn = [])"
proof -
  have inv: "vg_inv g" using vg_reachable_inv [OF assms(1)] .
  note d = vg_inv_nodeD [OF inv assms(2)]
  obtain rk where rk: "vg_ranked g rk" using inv by (auto simp: vg_inv_def)
  have nonempty: "c \<noteq> []" if "parent_of g v c" for c
    using parent_of_has [OF that] vg_inv_nodeD(1) [OF inv] by (auto simp: vg_has_def)
  have "v \<in> set (vn_children pn)" if "vn_parent n \<noteq> []" "fmlookup (vg_nodes g) (vn_parent n) = Some pn" for pn
    using that vg_inv_nodeD(5) [OF inv that(2)] assms(2) by (simp add: parent_of_def par_def)
  moreover have "vg_root g \<noteq> []"
  proof
    assume "vg_root g = []"
    then have "\<forall>w. par g w \<noteq> Some []" using inv by (simp add: vg_inv_def vg_root_ok_def)
    moreover obtain as where "par g (hd (as @ [v])) = Some []"
      using ancestors_loop_correct [OF inv rk, of v "[]"] assms(2) by (auto simp: vg_has_def)
    ultimately show False by blast
  qed
  then have "par g (vg_root g) = Some []" using inv by (simp add: vg_inv_def vg_root_ok_def)
  ultimately show ?thesis
    using d is_ancestor_rank [OF rk, of v v] nonempty by (auto simp: vg_get_def par_def)
qed

theorem vg_reachable_forest_witness:
  "\<not> is_ancestor sample_graph ''b'' ''b''
   \<and> (\<exists>pn. vg_get sample_graph ''a'' = Some pn \<and> ''b'' \<in> set (vn_children pn))"
  using vg_reachable_forest [OF sample_graph_reachable, of "''b''"
      "\<lparr>vn_version = ''b'', vn_parent = ''a'', vn_snapshot = snap ''b'', vn_children = [''c'']\<rparr>"]
  by (simp add: sample_graph_lookup)

lemma vg_add_snapshot:
  assumes "vg_inv g" "vg_add s p g = Inr g'"
  shows "map_option vn_snapshot (vg_get g' w) =
    (if w = sn_version s then Some s else map_option vn_snapshot (vg_get g w))"
  using vg_add_Inr [OF assms] by (cases "fmlookup (vg_nodes g) w") (auto simp: vg_get_def)

text \<open>
  \<open>Remove\<close> fails exactly on unknown versions; otherwise it removes that node
  alone, hands each of its children to its parent (or makes them parentless), and leaves every
  other parent link and every snapshot as it was. \<open>Add\<close> fails exactly on an empty or duplicate
  version or an unknown parent, and otherwise adds one leaf below the given parent.
\<close>

theorem vg_update_effects:
  assumes "vg_reachable g"
  shows "((\<exists>g'. vg_remove order v g = Inr g') \<longleftrightarrow> vg_has g v)
    \<and> (vg_remove order v g = Inr g1 \<longrightarrow>
         (\<forall>w. vg_has g1 w \<longleftrightarrow> vg_has g w \<and> w \<noteq> v)
         \<and> (\<forall>w. w \<noteq> v \<longrightarrow> map_option vn_snapshot (vg_get g1 w) = map_option vn_snapshot (vg_get g w))
         \<and> (\<forall>p c. parent_of g1 p c \<longleftrightarrow>
              p \<noteq> v \<and> c \<noteq> v \<and> (parent_of g p c \<or> parent_of g p v \<and> parent_of g v c)))
    \<and> ((\<exists>g'. vg_add s p g = Inr g') \<longleftrightarrow>
         sn_version s \<noteq> [] \<and> \<not> vg_has g (sn_version s) \<and> (p = [] \<or> vg_has g p))
    \<and> (vg_add s p g = Inr g2 \<longrightarrow>
         (\<forall>w. map_option vn_snapshot (vg_get g2 w) =
            (if w = sn_version s then Some s else map_option vn_snapshot (vg_get g w)))
         \<and> (\<forall>q c. parent_of g2 q c \<longleftrightarrow>
              (if c = sn_version s then p \<noteq> [] \<and> q = p else parent_of g q c)))"
proof (intro conjI impI)
  have inv: "vg_inv g" using vg_reachable_inv [OF assms] .
  show "(\<exists>g'. vg_remove order v g = Inr g') \<longleftrightarrow> vg_has g v"
    by (auto simp: vg_remove_def vg_has_def Let_def split: option.splits)
  show "(\<exists>g'. vg_add s p g = Inr g') \<longleftrightarrow>
      sn_version s \<noteq> [] \<and> \<not> vg_has g (sn_version s) \<and> (p = [] \<or> vg_has g p)"
    by (auto simp: vg_add_def vg_has_def Let_def split: option.splits)
  {
    assume r: "vg_remove order v g = Inr g1"
    then obtain node where rem: "removal g v node g1" using vg_remove_Inr [OF inv] by blast
    show "\<forall>w. vg_has g1 w \<longleftrightarrow> vg_has g w \<and> w \<noteq> v"
      using rem by (auto simp: removal_def vg_has_def)
    have "vn_snapshot (removed_node v node w n) = vn_snapshot n" for w n by (simp add: removed_node_def)
    then show "\<forall>w. w \<noteq> v \<longrightarrow> map_option vn_snapshot (vg_get g1 w) = map_option vn_snapshot (vg_get g w)"
      using rem by (auto simp: removal_def vg_get_def option.map_comp o_def)
    show "\<forall>p c. parent_of g1 p c \<longleftrightarrow>
        p \<noteq> v \<and> c \<noteq> v \<and> (parent_of g p c \<or> parent_of g p v \<and> parent_of g v c)"
      using removal_parent_of [OF inv rem] by blast
  }
  {
    assume a: "vg_add s p g = Inr g2"
    show "\<forall>w. map_option vn_snapshot (vg_get g2 w) =
        (if w = sn_version s then Some s else map_option vn_snapshot (vg_get g w))"
      using vg_add_snapshot [OF inv a] by blast
    show "\<forall>q c. parent_of g2 q c \<longleftrightarrow> (if c = sn_version s then p \<noteq> [] \<and> q = p else parent_of g q c)"
      using vg_add_parent_of [OF inv a] by blast
  }
qed

theorem vg_update_effects_witness:
  "\<exists>g'. vg_remove [''a'', ''c''] ''b'' sample_graph = Inr g' \<and> parent_of g' ''a'' ''c'' \<and> \<not> vg_has g' ''b''"
proof -
  note e = vg_update_effects [OF sample_graph_reachable, where v = "''b''" and order = "[''a'', ''c'']"]
  have "vg_has sample_graph ''b''" by (simp add: vg_has_def sample_graph_lookup)
  then obtain g' where g': "vg_remove [''a'', ''c''] ''b'' sample_graph = Inr g'"
    using conjunct1 [OF e] by blast
  note e' = conjunct1 [OF conjunct2 [OF e], THEN mp, OF g']
  have "parent_of sample_graph ''a'' ''b''" "parent_of sample_graph ''b'' ''c''"
    by (simp_all add: parent_of_def par_def sample_graph_lookup)
  then have "parent_of g' ''a'' ''c''"
    using conjunct2 [OF conjunct2 [OF e']] by simp
  moreover have "\<not> vg_has g' ''b''" using conjunct1 [OF e'] by simp
  ultimately show ?thesis using g' by blast
qed

text \<open>
  C4 (functional). On every graph that can be built, \<open>Path\<close> returns (it never dereferences a
  missing node): the empty slice if an endpoint is unknown or no walk over parent and child
  links joins them, and otherwise a walk from one to the other that no walk beats in length.
\<close>

theorem vg_path_shortest:
  assumes "vg_reachable g"
  shows "\<exists>r. vg_path g u w = Some r
    \<and> (if vg_has g u \<and> vg_has g w \<and> (\<exists>q. walk g u w q)
        then walk g u w r \<and> (\<forall>q. walk g u w q \<longrightarrow> length r \<le> length q)
        else r = [])"
proof -
  have inv: "vg_inv g" using vg_reachable_inv [OF assms] .
  consider (missing) "\<not> vg_has g u \<or> \<not> vg_has g w" | (same) "vg_has g u" "vg_has g w" "u = w"
    | (search) "vg_has g u" "vg_has g w" "u \<noteq> w" by blast
  then show ?thesis
  proof cases
    case missing
    then show ?thesis by (auto simp: vg_path_def vg_has_def)
  next
    case same
    then have "walk g u w [u]" by (simp add: walk_single)
    moreover have "length [u] \<le> length q" if "walk g u w q" for q
      using walk_length_pos [OF that] by (simp add: Suc_le_eq)
    ultimately show ?thesis using same by (auto simp: vg_path_def vg_has_def)
  next
    case search
    from path_loop_correct [OF inv bfs_inv_start [OF search(1,3)]] obtain r where
      r: "path_loop g w [(u, [u])] {u} = Some r"
        "if r = [] then \<forall>q. \<not> walk g u w q else shortest g u w r" by blast
    then have "vg_path g u w = Some r" using search by (auto simp: vg_path_def vg_has_def)
    with r(2) search show ?thesis by (auto simp: shortest_def split: if_splits)
  qed
qed

theorem vg_path_shortest_witness:
  "\<exists>r. vg_path sample_graph ''a'' ''c'' = Some r \<and> walk sample_graph ''a'' ''c'' r \<and> length r \<le> 3"
proof -
  have w: "walk sample_graph ''a'' ''c'' [''a'', ''b'', ''c'']"
    by (simp add: walk_def adj_def sample_graph_lookup neighbours_def)
  have "vg_has sample_graph ''a''" "vg_has sample_graph ''c''"
    by (simp_all add: vg_has_def sample_graph_lookup)
  moreover have ex: "\<exists>q. walk sample_graph ''a'' ''c'' q" using w by blast
  ultimately obtain r where "vg_path sample_graph ''a'' ''c'' = Some r" "walk sample_graph ''a'' ''c'' r"
      "\<forall>q. walk sample_graph ''a'' ''c'' q \<longrightarrow> length r \<le> length q"
    using vg_path_shortest [OF sample_graph_reachable, of "''a''" "''c''"] by (auto split: if_splits)
  moreover from this(3) w have "length r \<le> 3" by force
  ultimately show ?thesis by blast
qed

text \<open>
  C5 (termination). On every graph that can be built, the unbounded loop of \<open>Ancestors\<close> returns:
  for a known version the chain of parents from a parentless node down to the immediate parent,
  each the parent of the next; and \<open>Descendants\<close> lists, without repetition, exactly the nodes
  whose ancestors include the version.
\<close>

theorem vg_ancestors_descendants:
  assumes "vg_reachable g" and "vg_has g v"
  shows "\<exists>as. vg_ancestors g v = Some as
    \<and> successively (parent_of g) (as @ [v]) \<and> par g (hd (as @ [v])) = Some []
    \<and> (\<forall>a. a \<in> set as \<longleftrightarrow> v \<in> set (vg_descendants g a)) \<and> distinct (vg_descendants g v)"
proof -
  have inv: "vg_inv g" using vg_reachable_inv [OF assms(1)] .
  then obtain rk where rk: "vg_ranked g rk" by (auto simp: vg_inv_def)
  from ancestors_loop_correct [OF inv rk assms(2), of "[]"] show ?thesis
    using assms(2) vg_descendants_correct [OF inv] by (auto simp: vg_ancestors_def vg_has_def)
qed

theorem vg_ancestors_descendants_witness:
  "\<exists>as. vg_ancestors sample_graph ''c'' = Some as \<and> (''a'' \<in> set as \<longleftrightarrow> ''c'' \<in> set (vg_descendants sample_graph ''a''))"
  using vg_ancestors_descendants [OF sample_graph_reachable, of "''c''"]
  by (auto simp: vg_has_def sample_graph_lookup)

end
