(* ===== verification/Memory_Cache_Correct.thy ===== *)
theory Memory_Cache_Correct
  imports Memory_Cache
begin

text \<open>
  The memory cache refines a list of entries. \<open>mc_rep\<close> ties the index, the list and the heap
  together; under it every operation acts on \<open>mc_entries\<close>, the entries in the order of the list,
  as the one-line list operation named after it.
\<close>

section \<open>The specification: a list of entries, most recently used first\<close>

definition lru_find :: "string \<Rightarrow> 'v memory_entry list \<Rightarrow> 'v memory_entry option" where
  "lru_find k es = find (\<lambda>en. me_key en = k) es"

definition lru_drop :: "string \<Rightarrow> 'v memory_entry list \<Rightarrow> 'v memory_entry list" where
  "lru_drop k es = filter (\<lambda>en. me_key en \<noteq> k) es"

definition lru_get :: "gotime \<Rightarrow> string \<Rightarrow> 'v memory_entry list \<Rightarrow> 'v option \<times> 'v memory_entry list" where
  "lru_get now k es =
     (case lru_find k es of
        None \<Rightarrow> (None, es)
      | Some en \<Rightarrow> if entry_expired now en then (None, lru_drop k es)
                   else (Some (me_value en), en # lru_drop k es))"

definition lru_set :: "int \<Rightarrow> string \<Rightarrow> 'v \<Rightarrow> gotime \<Rightarrow> 'v memory_entry list \<Rightarrow> 'v memory_entry list" where
  "lru_set cap k v expires es =
     take (nat cap) (\<lparr>me_key = k, me_value = v, me_expires = expires\<rparr> # lru_drop k es)"

definition lru_exists :: "gotime \<Rightarrow> string \<Rightarrow> 'v memory_entry list \<Rightarrow> bool \<times> 'v memory_entry list" where
  "lru_exists now k es =
     (case lru_find k es of
        None \<Rightarrow> (False, es)
      | Some en \<Rightarrow> if entry_expired now en then (False, lru_drop k es) else (True, es))"

section \<open>The representation\<close>

definition mc_entry :: "'v memory_cache \<Rightarrow> nat \<Rightarrow> 'v memory_entry" where
  "mc_entry m e = the (fmlookup (mc_heap m) e)"

definition mc_entries :: "'v memory_cache \<Rightarrow> 'v memory_entry list" where
  "mc_entries m = map (mc_entry m) (mc_order m)"

definition mc_rep :: "'v memory_cache \<Rightarrow> bool" where
  "mc_rep m \<longleftrightarrow>
     distinct (mc_order m)
   \<and> (\<forall>e \<in> set (mc_order m). e < mc_next m \<and> fmlookup (mc_heap m) e \<noteq> None
        \<and> fmlookup (mc_items m) (me_key (mc_entry m e)) = Some e)
   \<and> (\<forall>k e. fmlookup (mc_items m) k = Some e \<longrightarrow> e \<in> set (mc_order m) \<and> me_key (mc_entry m e) = k)
   \<and> cs_size (mc_stats m) = of_nat (length (mc_order m))"

definition mc_inv :: "'v memory_cache \<Rightarrow> bool" where
  "mc_inv m \<longleftrightarrow> mc_rep m \<and> 0 < mc_capacity m \<and> 0 < mc_default_ttl m
     \<and> int (length (mc_order m)) \<le> mc_capacity m"

lemma mc_rep_item:
  "mc_rep m \<Longrightarrow> fmlookup (mc_items m) k = Some e \<Longrightarrow>
     e \<in> set (mc_order m) \<and> fmlookup (mc_heap m) e = Some (mc_entry m e) \<and> me_key (mc_entry m e) = k"
  by (auto simp: mc_rep_def mc_entry_def)

lemma mc_inv_heap: "mc_inv m \<Longrightarrow> fmlookup (mc_items m) k = Some e \<Longrightarrow> fmlookup (mc_heap m) e \<noteq> None"
  by (simp add: mc_inv_def mc_rep_item)

lemma mc_rep_key_eq:
  "mc_rep m \<Longrightarrow> e \<in> set (mc_order m) \<Longrightarrow> e' \<in> set (mc_order m) \<Longrightarrow>
     me_key (mc_entry m e) = me_key (mc_entry m e') \<longleftrightarrow> e = e'"
  unfolding mc_rep_def by (metis option.inject)

lemma mc_rep_absent:
  "mc_rep m \<Longrightarrow> fmlookup (mc_items m) k = None \<Longrightarrow> e \<in> set (mc_order m) \<Longrightarrow> me_key (mc_entry m e) \<noteq> k"
  unfolding mc_rep_def by (metis option.distinct(1))

lemma mc_entries_distinct:
  assumes "mc_rep m"
  shows "distinct (map me_key (mc_entries m))"
proof -
  have "inj_on (me_key \<circ> mc_entry m) (set (mc_order m))"
  proof (rule inj_onI)
    fix x y
    assume xy: "x \<in> set (mc_order m)" "y \<in> set (mc_order m)"
      and eq: "(me_key \<circ> mc_entry m) x = (me_key \<circ> mc_entry m) y"
    show "x = y" by (rule iffD1 [OF mc_rep_key_eq [OF assms xy] eq [unfolded o_apply]])
  qed
  moreover have "distinct (mc_order m)" using assms by (simp add: mc_rep_def)
  ultimately show ?thesis by (simp add: mc_entries_def distinct_map [of "me_key \<circ> mc_entry m"])
qed

lemma find_map_key:
  "e \<in> set xs \<Longrightarrow> \<forall>x \<in> set xs. key (f x) = key (f e) \<longrightarrow> x = e
     \<Longrightarrow> find (\<lambda>en. key en = key (f e)) (map f xs) = Some (f e)"
  by (induction xs) auto

lemma lru_find_entries:
  assumes "mc_rep m"
  shows "lru_find k (mc_entries m) = map_option (mc_entry m) (fmlookup (mc_items m) k)"
proof (cases "fmlookup (mc_items m) k")
  case None
  then have "\<forall>e \<in> set (mc_order m). me_key (mc_entry m e) \<noteq> k"
    using mc_rep_absent [OF assms] by blast
  with None show ?thesis by (auto simp: lru_find_def find_None_iff mc_entries_def)
next
  case (Some e)
  note it = mc_rep_item [OF assms Some]
  have "\<forall>x \<in> set (mc_order m). me_key (mc_entry m x) = me_key (mc_entry m e) \<longrightarrow> x = e"
    using it mc_rep_key_eq [OF assms] by blast
  with Some it show ?thesis
    using find_map_key [of e "mc_order m" me_key "mc_entry m"]
    by (simp add: lru_find_def mc_entries_def)
qed

lemma mc_entries_remove1:
  assumes "mc_rep m" and "e \<in> set (mc_order m)"
  shows "map (mc_entry m) (remove1 e (mc_order m)) = lru_drop (me_key (mc_entry m e)) (mc_entries m)"
proof -
  have "remove1 e (mc_order m) = filter (\<lambda>x. x \<noteq> e) (mc_order m)"
    using assms by (simp add: mc_rep_def distinct_remove1_removeAll removeAll_filter_not_eq eq_commute)
  also have "\<dots> = filter (\<lambda>x. me_key (mc_entry m x) \<noteq> me_key (mc_entry m e)) (mc_order m)"
    using mc_rep_key_eq [OF assms(1) _ assms(2)] by (intro filter_cong) auto
  finally show ?thesis by (simp add: mc_entries_def lru_drop_def filter_map o_def)
qed

lemma remove_element_rep:
  assumes r: "mc_rep m" and e: "e \<in> set (mc_order m)"
  shows "mc_rep (remove_element e m)
    \<and> mc_entries (remove_element e m) = lru_drop (me_key (mc_entry m e)) (mc_entries m)"
proof -
  have h: "fmlookup (mc_heap m) e = Some (mc_entry m e)" using r e by (auto simp: mc_rep_def mc_entry_def)
  have ent: "mc_entry (remove_element e m) = mc_entry m"
    by (simp add: mc_entry_def [abs_def] remove_element_def)
  have "mc_entries (remove_element e m) = lru_drop (me_key (mc_entry m e)) (mc_entries m)"
    using mc_entries_remove1 [OF r e] by (simp add: mc_entries_def [of "remove_element e m"] ent)
      (simp add: remove_element_def)
  moreover have "of_nat (length (remove1 e (mc_order m))) = (of_nat (length (mc_order m)) - 1 :: int64)"
    by (simp flip: Suc_length_remove1 [OF e])
  moreover have "fmlookup (mc_items m) (me_key (mc_entry m x)) = Some x" if "x \<in> set (mc_order m)" for x
    using r that by (simp add: mc_rep_def)
  ultimately show ?thesis
    using r e h mc_rep_key_eq [OF r _ e]
    unfolding mc_rep_def ent
    by (auto simp: remove_element_def AddSize_def split: if_splits dest: notin_set_remove1)
qed

lemma move_to_front_rep:
  assumes r: "mc_rep m" and e: "e \<in> set (mc_order m)"
  shows "mc_rep (move_to_front e m)
    \<and> mc_entries (move_to_front e m) = mc_entry m e # lru_drop (me_key (mc_entry m e)) (mc_entries m)"
proof -
  have ent: "mc_entry (move_to_front e m) = mc_entry m"
    by (simp add: mc_entry_def [abs_def] move_to_front_def)
  have len: "Suc (length (remove1 e (mc_order m))) = length (mc_order m)"
    by (rule Suc_length_remove1 [OF e])
  have "mc_entries (move_to_front e m) = mc_entry m e # lru_drop (me_key (mc_entry m e)) (mc_entries m)"
    using mc_entries_remove1 [OF r e] by (simp add: mc_entries_def [of "move_to_front e m"] ent)
      (simp add: move_to_front_def)
  moreover have "mc_rep (move_to_front e m)"
    using r e unfolding mc_rep_def ent
    by (simp add: move_to_front_def len del: of_nat_Suc)
  ultimately show ?thesis by simp
qed

lemma mc_rep_stats: "cs_size s = cs_size (mc_stats m) \<Longrightarrow> mc_rep m \<Longrightarrow> mc_rep (m\<lparr>mc_stats := s\<rparr>)"
  by (simp add: mc_rep_def mc_entry_def)

lemma mc_entries_stats [simp]: "mc_entries (m\<lparr>mc_stats := s\<rparr>) = mc_entries m"
  by (simp add: mc_entries_def mc_entry_def [abs_def])

lemma mc_size_entries: "length (mc_entries m) = length (mc_order m)"
  by (simp add: mc_entries_def)

section \<open>Each operation refines its list operation\<close>

lemma mc_get_refines:
  assumes inv: "mc_inv m"
  shows "mc_inv (snd (mc_get now k m))
    \<and> (fst (mc_get now k m), mc_entries (snd (mc_get now k m))) = lru_get now k (mc_entries m)"
proof (cases "fmlookup (mc_items m) k")
  case None
  have r: "mc_rep m" using inv by (simp add: mc_inv_def)
  from None inv show ?thesis
    by (simp add: mc_get_def lru_get_def lru_find_entries [OF r] mc_inv_def mc_rep_stats RecordMiss_def)
next
  case (Some e)
  have r: "mc_rep m" using inv by (simp add: mc_inv_def)
  note it = mc_rep_item [OF r Some]
  note re = remove_element_rep [OF r conjunct1 [OF it]] and mf = move_to_front_rep [OF r conjunct1 [OF it]]
  have len: "length (mc_order (remove_element e m)) \<le> length (mc_order m)"
    "length (mc_order (move_to_front e m)) = length (mc_order m)"
    using Suc_length_remove1 [OF conjunct1 [OF it]] by (simp_all add: remove_element_def move_to_front_def)
  have cap: "mc_capacity (remove_element e m) = mc_capacity m" "mc_capacity (move_to_front e m) = mc_capacity m"
    "mc_default_ttl (remove_element e m) = mc_default_ttl m" "mc_default_ttl (move_to_front e m) = mc_default_ttl m"
    by (simp_all add: remove_element_def move_to_front_def)
  show ?thesis
    using Some it inv re mf len cap
    by (simp add: mc_get_def lru_get_def lru_find_entries [OF r] mc_inv_def Let_def mc_rep_stats
        RecordMiss_def RecordHit_def)
qed

lemma mc_exists_refines:
  assumes inv: "mc_inv m"
  shows "mc_inv (snd (mc_exists now k m))
    \<and> (fst (mc_exists now k m), mc_entries (snd (mc_exists now k m))) = lru_exists now k (mc_entries m)"
proof (cases "fmlookup (mc_items m) k")
  case None
  have r: "mc_rep m" using inv by (simp add: mc_inv_def)
  from None inv show ?thesis by (simp add: mc_exists_def lru_exists_def lru_find_entries [OF r])
next
  case (Some e)
  have r: "mc_rep m" using inv by (simp add: mc_inv_def)
  note it = mc_rep_item [OF r Some]
  have "length (mc_order (remove_element e m)) \<le> length (mc_order m)"
    by (simp add: remove_element_def length_remove1)
  moreover have "mc_capacity (remove_element e m) = mc_capacity m"
    "mc_default_ttl (remove_element e m) = mc_default_ttl m"
    by (simp_all add: remove_element_def)
  ultimately show ?thesis
    using Some it inv remove_element_rep [OF r conjunct1 [OF it]]
    by (simp add: mc_exists_def lru_exists_def lru_find_entries [OF r] mc_inv_def)
qed

lemma lru_drop_absent: "lru_find k es = None \<Longrightarrow> lru_drop k es = es"
  by (auto simp: lru_find_def lru_drop_def find_None_iff intro: filter_True)

lemma mc_delete_refines:
  assumes inv: "mc_inv m"
  shows "mc_inv (mc_delete k m) \<and> mc_entries (mc_delete k m) = lru_drop k (mc_entries m)"
proof (cases "fmlookup (mc_items m) k")
  case None
  have r: "mc_rep m" using inv by (simp add: mc_inv_def)
  from None inv show ?thesis by (simp add: mc_delete_def lru_drop_absent lru_find_entries [OF r])
next
  case (Some e)
  have r: "mc_rep m" using inv by (simp add: mc_inv_def)
  note it = mc_rep_item [OF r Some]
  have "length (mc_order (remove_element e m)) \<le> length (mc_order m)"
    by (simp add: remove_element_def length_remove1)
  then show ?thesis
    using Some it inv remove_element_rep [OF r conjunct1 [OF it]]
    by (auto simp: mc_delete_def mc_inv_def remove_element_def)
qed

lemma mc_clear_refines:
  "mc_inv m \<Longrightarrow> mc_inv (snd (mc_clear m)) \<and> mc_entries (snd (mc_clear m)) = []
     \<and> fst (mc_clear m) = length (mc_entries m)"
  by (simp add: mc_clear_def mc_inv_def mc_rep_def mc_entries_def SetSize_def)

lemma lru_drop_last:
  assumes "distinct (map me_key es)" and "es \<noteq> []"
  shows "lru_drop (me_key (last es)) es = butlast es"
proof -
  obtain ys y where es: "es = ys @ [y]" using assms(2) by (cases es rule: rev_cases) auto
  have "me_key y \<notin> me_key ` set ys" using assms(1) unfolding es by simp
  then have "\<forall>x \<in> set ys. me_key x \<noteq> me_key y" by (metis imageI)
  with es show ?thesis by (simp add: lru_drop_def filter_id_conv)
qed

lemma mc_evict_refines:
  assumes "mc_rep m" and "0 < mc_capacity m"
  shows "mc_rep (mc_evict m) \<and> mc_entries (mc_evict m) = take (nat (mc_capacity m)) (mc_entries m)
    \<and> mc_capacity (mc_evict m) = mc_capacity m \<and> mc_default_ttl (mc_evict m) = mc_default_ttl m"
  using assms
proof (induction m rule: mc_evict.induct)
  case (1 m)
  show ?case
  proof (cases "int (length (mc_order m)) > mc_capacity m")
    case False
    then show ?thesis using 1(2) by (subst (1 2 3 4) mc_evict.simps) (simp add: mc_size_entries)
  next
    case True
    with 1(3) have ne: "mc_order m \<noteq> []" by auto
    let ?e = "last (mc_order m)" and ?m1 = "remove_element (last (mc_order m)) m"
    let ?m2 = "?m1\<lparr>mc_stats := RecordEviction (mc_stats ?m1)\<rparr>"
    have unf: "mc_evict m = mc_evict ?m2" using True ne by (subst mc_evict.simps) (simp add: Let_def)
    have e: "?e \<in> set (mc_order m)" using ne by simp
    note re = remove_element_rep [OF 1(2) e]
    have "me_key (mc_entry m ?e) = me_key (last (mc_entries m))"
      using ne by (simp add: mc_entries_def last_map)
    then have ent: "mc_entries ?m2 = butlast (mc_entries m)"
      using re lru_drop_last [OF mc_entries_distinct [OF 1(2)]] ne by (simp add: mc_entries_def [of m])
    have rep: "mc_rep ?m2" by (rule mc_rep_stats) (use re in \<open>simp_all add: RecordEviction_def\<close>)
    have cap: "mc_capacity ?m2 = mc_capacity m" "mc_default_ttl ?m2 = mc_default_ttl m"
      by (simp_all add: remove_element_def)
    have "take (nat (mc_capacity m)) (butlast (mc_entries m)) = take (nat (mc_capacity m)) (mc_entries m)"
      using True 1(3) by (intro take_butlast) (simp add: mc_size_entries nat_less_iff)
    with 1(1) [OF True ne refl rep] 1(3) show ?thesis unfolding unf cap ent by simp
  qed
qed

lemma heap_update_rep:
  assumes r: "mc_rep m" and e: "e \<in> set (mc_order m)" and k: "me_key en = me_key (mc_entry m e)"
  defines "m' \<equiv> m\<lparr>mc_heap := fmupd e en (mc_heap m)\<rparr>"
  shows "mc_rep m' \<and> mc_entry m' e = en
    \<and> lru_drop (me_key en) (mc_entries m') = lru_drop (me_key en) (mc_entries m)"
proof -
  have ent: "mc_entry m' x = (if x = e then en else mc_entry m x)" for x
    by (simp add: m'_def mc_entry_def)
  have ord: "mc_order m' = mc_order m" by (simp add: m'_def)
  have rep: "mc_rep m'"
    using r e k unfolding mc_rep_def ent by (auto simp: m'_def)
  have "filter (\<lambda>x. me_key (mc_entry m' x) \<noteq> me_key en) (mc_order m)
      = filter (\<lambda>x. me_key (mc_entry m x) \<noteq> me_key en) (mc_order m)"
    by (intro filter_cong) (simp_all add: ent k)
  then have "lru_drop (me_key en) (mc_entries m') = lru_drop (me_key en) (mc_entries m)"
    by (auto simp: lru_drop_def mc_entries_def filter_map o_def ord ent k)
  with rep ent show ?thesis by simp
qed

lemma push_front_rep:
  fixes v :: 'v and x :: gotime and m :: "'v memory_cache" and k :: string
  assumes r: "mc_rep m" and k: "fmlookup (mc_items m) k = None"
  defines "m' \<equiv> m\<lparr>mc_heap := fmupd (mc_next m) \<lparr>me_key = k, me_value = v, me_expires = x\<rparr> (mc_heap m),
      mc_next := mc_next m + 1, mc_order := mc_next m # mc_order m,
      mc_items := fmupd k (mc_next m) (mc_items m), mc_stats := AddSize 1 (mc_stats m)\<rparr>"
  shows "mc_rep m' \<and> mc_entries m' = \<lparr>me_key = k, me_value = v, me_expires = x\<rparr> # lru_drop k (mc_entries m)"
proof -
  have new: "mc_next m \<notin> set (mc_order m)" using r by (auto simp: mc_rep_def)
  have ent: "mc_entry m' y = (if y = mc_next m then \<lparr>me_key = k, me_value = v, me_expires = x\<rparr> else mc_entry m y)" for y
    by (simp add: m'_def mc_entry_def)
  have ord: "mc_order m' = mc_next m # mc_order m" by (simp add: m'_def)
  have "lru_drop k (mc_entries m) = mc_entries m"
    using k by (simp add: lru_drop_absent lru_find_entries [OF r])
  moreover have "map (mc_entry m') (mc_order m) = map (mc_entry m) (mc_order m)"
    using new by (intro map_cong) (auto simp: ent)
  ultimately have ents: "mc_entries m' = \<lparr>me_key = k, me_value = v, me_expires = x\<rparr> # lru_drop k (mc_entries m)"
    unfolding mc_entries_def [of m'] ord list.map ent [of "mc_next m"] by (simp add: mc_entries_def)
  have keys: "me_key (mc_entry m e) \<noteq> k" if "e \<in> set (mc_order m)" for e
    by (rule mc_rep_absent [OF r k that])
  have "mc_rep m'"
    using r new keys unfolding mc_rep_def ent by (auto simp: m'_def AddSize_def less_Suc_eq)
  with ents show ?thesis by simp
qed

definition set_ttl :: "'v memory_cache \<Rightarrow> duration \<Rightarrow> duration" where
  "set_ttl m ttl = (if ttl \<le> 0 then mc_default_ttl m else ttl)"

lemma mc_set_refines:
  assumes inv: "mc_inv m"
  shows "mc_inv (mc_set now k v ttl m)
    \<and> mc_entries (mc_set now k v ttl m)
      = lru_set (mc_capacity m) k v (now + set_ttl m ttl) (mc_entries m)
    \<and> mc_capacity (mc_set now k v ttl m) = mc_capacity m
    \<and> mc_default_ttl (mc_set now k v ttl m) = mc_default_ttl m"
proof (cases "fmlookup (mc_items m) k")
  case None
  have r: "mc_rep m" using inv by (simp add: mc_inv_def)
  let ?x = "now + set_ttl m ttl"
  define p where "p = m\<lparr>mc_heap := fmupd (mc_next m) \<lparr>me_key = k, me_value = v, me_expires = ?x\<rparr> (mc_heap m),
      mc_next := mc_next m + 1, mc_order := mc_next m # mc_order m,
      mc_items := fmupd k (mc_next m) (mc_items m), mc_stats := AddSize 1 (mc_stats m)\<rparr>"
  have pf: "mc_rep p" "mc_entries p = \<lparr>me_key = k, me_value = v, me_expires = ?x\<rparr> # lru_drop k (mc_entries m)"
    using push_front_rep [OF r None, of v ?x] unfolding p_def by simp_all
  have eq: "mc_set now k v ttl m = mc_evict p"
    using None by (simp add: mc_set_def Let_def set_ttl_def p_def)
  have cap: "mc_capacity p = mc_capacity m" "mc_default_ttl p = mc_default_ttl m" by (simp_all add: p_def)
  have pos: "0 < mc_capacity p" using inv cap by (simp add: mc_inv_def)
  note ev = mc_evict_refines [OF pf(1) pos]
  have "length (mc_order (mc_evict p)) \<le> nat (mc_capacity m)"
    using ev cap by (simp flip: mc_size_entries)
  then have "int (length (mc_order (mc_evict p))) \<le> mc_capacity m"
    using pos cap by linarith
  then show ?thesis
    using ev pf inv cap unfolding eq by (simp add: mc_inv_def lru_set_def)
next
  case (Some e)
  have r: "mc_rep m" using inv by (simp add: mc_inv_def)
  note it = mc_rep_item [OF r Some]
  let ?en = "(mc_entry m e)\<lparr>me_value := v, me_expires := now + set_ttl m ttl\<rparr>"
  let ?m = "m\<lparr>mc_heap := fmupd e ?en (mc_heap m)\<rparr>"
  have hu: "mc_rep ?m \<and> mc_entry ?m e = ?en \<and> lru_drop (me_key ?en) (mc_entries ?m) = lru_drop (me_key ?en) (mc_entries m)"
    using heap_update_rep [OF r conjunct1 [OF it], of ?en] by simp
  have eq: "mc_set now k v ttl m = move_to_front e ?m"
    using Some it by (simp add: mc_set_def Let_def set_ttl_def)
  have e: "e \<in> set (mc_order ?m)" using it by simp
  note mf = move_to_front_rep [OF conjunct1 [OF hu] e]
  have en: "?en = \<lparr>me_key = k, me_value = v, me_expires = now + set_ttl m ttl\<rparr>" using it by simp
  have ents: "mc_entries (move_to_front e ?m) = ?en # lru_drop k (mc_entries m)"
    using mf hu it by simp
  have len: "length (mc_order (move_to_front e ?m)) = length (mc_order m)"
    using Suc_length_remove1 [OF conjunct1 [OF it]] by (simp add: move_to_front_def)
  then have "length (mc_entries (move_to_front e ?m)) \<le> nat (mc_capacity m)"
    using inv by (simp add: mc_inv_def mc_size_entries le_nat_iff)
  then have "take (nat (mc_capacity m)) (mc_entries (move_to_front e ?m)) = mc_entries (move_to_front e ?m)"
    by simp
  moreover have "mc_capacity (move_to_front e ?m) = mc_capacity m"
    "mc_default_ttl (move_to_front e ?m) = mc_default_ttl m" by (simp_all add: move_to_front_def)
  ultimately show ?thesis
    using mf len inv ents unfolding eq lru_set_def en by (simp add: mc_inv_def)
qed

lemma lru_find_drop: "lru_find k (lru_drop j es) = (if k = j then None else lru_find k es)"
  by (induction es) (auto simp: lru_find_def lru_drop_def)

lemma clear_loop_refines:
  assumes "mc_inv m" and "distinct ks" and "\<forall>k \<in> set ks. \<exists>e. fmlookup (mc_items m) k = Some e"
    and "\<forall>k. glob pattern k = Inr (hit k)"
  shows "fst (clear_loop glob pattern ks n m) = (n + length (filter hit ks), None)
    \<and> mc_inv (snd (clear_loop glob pattern ks n m))
    \<and> mc_entries (snd (clear_loop glob pattern ks n m))
      = filter (\<lambda>en. \<not> (me_key en \<in> set ks \<and> hit (me_key en))) (mc_entries m)"
  using assms(1,2,3)
proof (induction ks arbitrary: n m)
  case Nil
  then show ?case by simp
next
  case (Cons k ks)
  from Cons.prems obtain e where e: "fmlookup (mc_items m) k = Some e" by auto
  show ?case
  proof (cases "hit k")
    case False
    then show ?thesis
      using Cons.IH [OF Cons.prems(1), of n] Cons.prems e assms(4) by (auto intro!: filter_cong)
  next
    case True
    note r = Cons.prems(1) [unfolded mc_inv_def]
    have del: "mc_delete k m = remove_element e m" using e by (simp add: mc_delete_def)
    note d = mc_delete_refines [OF Cons.prems(1), of k, unfolded del]
    have "mc_rep (remove_element e m)" using d by (simp add: mc_inv_def)
    from lru_find_entries [OF this] lru_find_entries [OF conjunct1 [OF r]] d
    have lk: "map_option (mc_entry (remove_element e m)) (fmlookup (mc_items (remove_element e m)) j)
        = (if j = k then None else map_option (mc_entry m) (fmlookup (mc_items m) j))" for j
      by (metis lru_find_drop)
    have "\<forall>j \<in> set ks. \<exists>e'. fmlookup (mc_items (remove_element e m)) j = Some e'"
    proof
      fix j assume "j \<in> set ks"
      with Cons.prems lk [of j] show "\<exists>e'. fmlookup (mc_items (remove_element e m)) j = Some e'"
        by (cases "fmlookup (mc_items (remove_element e m)) j") (auto split: if_splits)
    qed
    from Cons.IH [OF conjunct1 [OF d] _ this, of "n + 1"] Cons.prems(2) d True e assms(4)
    show ?thesis by (auto simp: lru_drop_def intro!: filter_cong)
  qed
qed

lemma mc_clear_pattern_refines:
  assumes inv: "mc_inv m" and ks: "enumerates ks (mc_items m)" and g: "\<forall>k. glob pattern k = Inr (hit k)"
  shows "mc_inv (snd (mc_clear_pattern glob ks pattern m))
    \<and> mc_entries (snd (mc_clear_pattern glob ks pattern m)) = filter (\<lambda>en. \<not> hit (me_key en)) (mc_entries m)
    \<and> fst (mc_clear_pattern glob ks pattern m) = (length (filter hit ks), None)"
proof -
  have r: "mc_rep m" using inv by (simp add: mc_inv_def)
  have mem: "me_key en \<in> set ks" if "en \<in> set (mc_entries m)" for en
    using that r enumerates_lookup [OF ks] by (auto simp: mc_entries_def mc_rep_def)
  have "\<forall>k \<in> set ks. \<exists>e. fmlookup (mc_items m) k = Some e"
    using enumerates_lookup [OF ks] by simp
  moreover have "distinct ks" using ks by (simp add: enumerates_def)
  ultimately have "fst (clear_loop glob pattern ks 0 m) = (length (filter hit ks), None)
    \<and> mc_inv (snd (clear_loop glob pattern ks 0 m))
    \<and> mc_entries (snd (clear_loop glob pattern ks 0 m))
      = filter (\<lambda>en. \<not> (me_key en \<in> set ks \<and> hit (me_key en))) (mc_entries m)"
    using clear_loop_refines [OF inv, of ks glob pattern hit 0] g by simp
  with mem show ?thesis
    by (auto simp: mc_clear_pattern_def intro!: filter_cong)
qed

lemma clear_loop_inv: "mc_inv m \<Longrightarrow> mc_inv (snd (clear_loop glob pattern ks n m))"
proof (induction ks arbitrary: n m)
  case Nil
  then show ?case by simp
next
  case (Cons k ks)
  have "mc_inv (remove_element e m)" if "fmlookup (mc_items m) k = Some e" for e
    using mc_delete_refines [OF Cons.prems, of k] that by (simp add: mc_delete_def)
  with Cons show ?case by (auto split: option.splits sum.splits)
qed


lemma NewMemoryCache_inv:
  "mc_inv (NewMemoryCache capacity ttl :: 'v memory_cache)
   \<and> mc_entries (NewMemoryCache capacity ttl :: 'v memory_cache) = []"
  by (simp add: NewMemoryCache_def mc_inv_def mc_rep_def mc_entries_def NewStats_def
      DefaultMaxSize_def DefaultTTL_def)

lemma NewMemoryCache_capacity: "mc_capacity (NewMemoryCache c t) = (if c \<le> 0 then DefaultMaxSize else c)"
  by (simp add: NewMemoryCache_def)


section \<open>Reachable caches\<close>

datatype 'v mc_op =
    MGet gotime string | MSet gotime string 'v duration | MDelete string | MExists gotime string
  | MClear | MClearPattern "string list" string

fun mc_apply :: "(string \<Rightarrow> string \<Rightarrow> bool result) \<Rightarrow> 'v mc_op \<Rightarrow> 'v memory_cache \<Rightarrow> 'v memory_cache" where
  "mc_apply glob (MGet now k) m = snd (mc_get now k m)"
| "mc_apply glob (MSet now k v ttl) m = mc_set now k v ttl m"
| "mc_apply glob (MDelete k) m = mc_delete k m"
| "mc_apply glob (MExists now k) m = snd (mc_exists now k m)"
| "mc_apply glob MClear m = snd (mc_clear m)"
| "mc_apply glob (MClearPattern ks p) m = snd (mc_clear_pattern glob ks p m)"

inductive mc_reachable :: "(string \<Rightarrow> string \<Rightarrow> bool result) \<Rightarrow> int \<Rightarrow> duration \<Rightarrow> 'v memory_cache \<Rightarrow> bool"
  for glob c ttl where
  mc_start: "mc_reachable glob c ttl (NewMemoryCache c ttl)"
| mc_step: "mc_reachable glob c ttl m \<Longrightarrow> mc_reachable glob c ttl (mc_apply glob op m)"

lemma mc_apply_inv: "mc_inv m \<Longrightarrow> mc_inv (mc_apply glob op m)"
  by (cases op) (simp_all add: mc_get_refines mc_set_refines mc_delete_refines mc_exists_refines
      mc_clear_refines clear_loop_inv mc_clear_pattern_def)

lemma remove_element_capacity [simp]: "mc_capacity (remove_element e m) = mc_capacity m"
  and move_to_front_capacity [simp]: "mc_capacity (move_to_front e m) = mc_capacity m"
  by (simp_all add: remove_element_def move_to_front_def)

lemma clear_loop_capacity: "mc_capacity (snd (clear_loop glob pattern ks n m)) = mc_capacity m"
  by (induction ks arbitrary: n m) (auto split: option.splits sum.splits)

lemma mc_apply_capacity: "mc_inv m \<Longrightarrow> mc_capacity (mc_apply glob op m) = mc_capacity m"
  by (cases op) (auto simp: mc_get_def mc_delete_def mc_exists_def mc_clear_def mc_clear_pattern_def
      clear_loop_capacity mc_set_refines Let_def split: option.splits)

lemma mc_reachable_inv:
  "mc_reachable glob c ttl m \<Longrightarrow> mc_inv m \<and> mc_capacity m = (if c \<le> 0 then DefaultMaxSize else c)"
proof (induction rule: mc_reachable.induct)
  case mc_start
  show ?case by (simp add: NewMemoryCache_inv NewMemoryCache_capacity)
next
  case (mc_step m op)
  then show ?case by (simp add: mc_apply_inv mc_apply_capacity)
qed

text \<open>
  However a memory cache is used, it never holds more entries than the capacity
  it was built with (1000 when that was not positive), never two entries for one key, every key
  of the index finds the live entry of that key, and the size counter, moved by increments and
  decrements, always equals the number of entries (modulo \<open>2 ^ 64\<close>).
\<close>

theorem mc_reachable_bounded:
  assumes "mc_reachable glob c ttl m"
  shows "int (mc_size m) \<le> (if c \<le> 0 then 1000 else c)
    \<and> distinct (map me_key (mc_entries m))
    \<and> (\<forall>k. map_option (mc_entry m) (fmlookup (mc_items m) k) = lru_find k (mc_entries m))
    \<and> cs_size (mc_stats m) = cs_size (mc_stats_snapshot m)"
proof -
  have inv: "mc_inv m" and cap: "mc_capacity m = (if c \<le> 0 then DefaultMaxSize else c)"
    using mc_reachable_inv [OF assms] by simp_all
  then have r: "mc_rep m" by (simp add: mc_inv_def)
  have "int (mc_size m) \<le> mc_capacity m" using inv by (simp add: mc_inv_def mc_size_def)
  moreover have "cs_size (mc_stats m) = cs_size (mc_stats_snapshot m)"
    using r by (simp add: mc_stats_snapshot_def mc_rep_def mc_size_def)
  ultimately show ?thesis
    using mc_entries_distinct [OF r] lru_find_entries [OF r] cap
    by (auto simp: DefaultMaxSize_def)
qed

theorem mc_reachable_bounded_witness:
  "int (mc_size (mc_set 3 ''b'' (2 :: nat) 9 (mc_set 1 ''a'' 1 9 (NewMemoryCache 1 0)))) \<le> 1"
proof -
  let ?glob = "\<lambda>_ _. Inr True"
  have "mc_reachable ?glob 1 0 (mc_apply ?glob (MSet 3 ''b'' 2 9)
      (mc_apply ?glob (MSet 1 ''a'' (1 :: nat) 9) (NewMemoryCache 1 0)))"
    by (intro mc_step mc_start)
  from mc_reachable_bounded [OF this] show ?thesis by simp
qed

section \<open>What a look-up sees\<close>

definition mc_look :: "gotime \<Rightarrow> 'v memory_cache \<Rightarrow> string \<Rightarrow> 'v option" where
  "mc_look t m k = fst (lru_get t k (mc_entries m))"

lemma mc_look_find:
  "mc_look t m k = (case lru_find k (mc_entries m) of
     Some en \<Rightarrow> if entry_expired t en then None else Some (me_value en) | None \<Rightarrow> None)"
  by (simp add: mc_look_def lru_get_def split: option.splits)

lemma lru_find_Cons: "lru_find k (en # es) = (if me_key en = k then Some en else lru_find k es)"
  by (simp add: lru_find_def)

lemma expired_mono: "entry_expired now en \<Longrightarrow> now \<le> t \<Longrightarrow> entry_expired t en"
  by (auto simp: entry_expired_def)

lemma lru_find_key: "lru_find k es = Some en \<Longrightarrow> me_key en = k"
  by (auto simp: lru_find_def find_Some_iff)

lemma mc_look_get:
  assumes "mc_inv m" and "now \<le> t"
  shows "fst (mc_get now k m) = mc_look now m k \<and> mc_look t (snd (mc_get now k m)) j = mc_look t m j"
  using mc_get_refines [OF assms(1), of now k] assms(2)
  by (auto simp: mc_look_def lru_get_def lru_find_drop lru_find_Cons prod_eq_iff
      dest: lru_find_key expired_mono split: option.splits if_splits)

lemma mc_look_exists:
  assumes "mc_inv m" and "now \<le> t"
  shows "fst (mc_exists now k m) = (mc_look now m k \<noteq> None) \<and> mc_look t (snd (mc_exists now k m)) j = mc_look t m j"
  using mc_exists_refines [OF assms(1), of now k] assms(2)
  by (auto simp: mc_look_def lru_get_def lru_exists_def lru_find_drop lru_find_Cons prod_eq_iff
      dest: lru_find_key expired_mono split: option.splits if_splits)

lemma mc_look_delete:
  "mc_inv m \<Longrightarrow> mc_look t (mc_delete k m) j = (if j = k then None else mc_look t m j)"
  by (simp add: mc_look_find mc_delete_refines lru_find_drop)

lemma mc_look_clear: "mc_inv m \<Longrightarrow> mc_look t (snd (mc_clear m)) k = None"
  by (simp add: mc_look_find mc_clear_refines lru_find_def)

lemma lru_find_butlast:
  assumes "distinct (map me_key es)" and "es \<noteq> []"
  shows "lru_find j (butlast es) = (if j = me_key (last es) then None else lru_find j es)"
  unfolding lru_drop_last [OF assms, symmetric] by (simp add: lru_find_drop)

lemma lru_set_find:
  assumes d: "distinct (map me_key es)" and len: "length es \<le> nat cap" and cap: "0 < cap"
  shows "lru_find j (lru_set cap k v x es) =
    (if j = k then Some \<lparr>me_key = k, me_value = v, me_expires = x\<rparr>
     else if int (length es) = cap \<and> lru_find k es = None \<and> j = me_key (last es) then None
     else lru_find j es)"
proof (cases "int (length es) = cap \<and> lru_find k es = None")
  case True
  with cap have ne: "es \<noteq> []" by auto
  from cap obtain n where n: "nat cap = Suc n" by (cases "nat cap") auto
  from True n have "length es = Suc n" by linarith
  then have "take n es = butlast es" by (simp add: butlast_conv_take)
  with True n d ne show ?thesis
    by (auto simp: lru_set_def lru_drop_absent lru_find_Cons lru_find_butlast)
next
  case False
  have "length (lru_drop k es) < nat cap"
  proof (cases "lru_find k es")
    case None
    with False len cap show ?thesis by (simp add: lru_drop_absent)
  next
    case (Some en)
    then have "en \<in> set es" "me_key en = k" by (auto simp: lru_find_def find_Some_iff)
    then have "length (lru_drop k es) < length es"
      unfolding lru_drop_def by (intro length_filter_less) auto
    with len show ?thesis by simp
  qed
  with False show ?thesis by (auto simp: lru_set_def lru_find_Cons lru_find_drop)
qed

lemma mc_look_set:
  assumes "mc_inv m"
  shows "mc_look t (mc_set now k v ttl m) j =
    (if j = k then if now + set_ttl m ttl \<noteq> 0 \<and> now + set_ttl m ttl \<le> t then None else Some v
     else if int (mc_size m) = mc_capacity m \<and> lru_find k (mc_entries m) = None
          \<and> j = me_key (last (mc_entries m)) then None
     else mc_look t m j)"
proof -
  have "mc_rep m" "0 < mc_capacity m" "length (mc_entries m) \<le> nat (mc_capacity m)"
    using assms by (auto simp: mc_inv_def mc_size_entries)
  from lru_set_find [OF mc_entries_distinct [OF this(1)] this(3,2)] show ?thesis
    using mc_set_refines [OF assms, of now k v ttl]
    by (simp add: mc_look_find mc_size_def mc_size_entries entry_expired_def not_less)
qed

text \<open>
  After \<open>Set\<close> of a key at time \<open>now\<close>, a \<open>Get\<close> of that key at any later time
  returns the value before \<open>now + ttl\<close> and nothing from then on. Every other key is answered as
  before, with one exception: when the key was new and the cache full, the least recently used
  entry is gone.
\<close>

theorem mc_set_then_get:
  assumes "mc_reachable glob c d m" and "0 \<le> now" and "0 < ttl"
  shows "fst (mc_get t k (mc_set now k v ttl m)) = (if t < now + ttl then Some v else None)
    \<and> (j \<noteq> k \<longrightarrow> fst (mc_get t j (mc_set now k v ttl m)) =
         (if int (mc_size m) = mc_capacity m \<and> fmlookup (mc_items m) k = None
             \<and> j = me_key (last (mc_entries m)) then None
          else fst (mc_get t j m)))"
proof -
  have inv: "mc_inv m" using mc_reachable_inv [OF assms(1)] by simp
  have inv': "mc_inv (mc_set now k v ttl m)" using mc_set_refines [OF inv] by simp
  have r: "mc_rep m" using inv by (simp add: mc_inv_def)
  show ?thesis
    using mc_look_get [OF inv' order_refl, of t] mc_look_get [OF inv order_refl, of t] assms(2,3)
    by (simp add: mc_look_set [OF inv] set_ttl_def lru_find_entries [OF r])
qed

theorem mc_set_then_get_witness:
  "fst (mc_get 5 ''k'' (mc_set 1 ''k'' (7 :: nat) 9 (NewMemoryCache 2 0))) = Some 7
   \<and> fst (mc_get 10 ''k'' (mc_set 1 ''k'' (7 :: nat) 9 (NewMemoryCache 2 0))) = None"
  using mc_set_then_get [OF mc_start [of "\<lambda>_ _. Inr True" 2 0], of 1 9 _ "''k''" "7 :: nat"] by simp

end
