(* ===== verification/Cache_Manager.thy ===== *)
theory Cache_Manager
  imports Memory_Cache_Correct
begin

text \<open>
  Package \<open>cache\<close>, the part above the storage: \<open>config.go\<close>, the \<open>CacheBackend\<close> interface of
  \<open>backend.go\<close>, the manager of \<open>manager.go\<close>, the read-through helper of \<open>decorator.go\<close> and the
  global helpers of \<open>cache.go\<close>. The interface is a record of operations that every manager
  operation takes as an argument, as the Go method takes the interface value; its contract is
  the locale \<open>backend_contract\<close>, interpreted on the memory cache in \<open>Cache_Coherence\<close>.
\<close>

section \<open>Configuration\<close>

record cache_config =
  cc_enabled :: bool
  cc_backend :: string
  cc_default_ttl :: duration
  cc_max_size :: int
  cc_redis_url :: string
  cc_key_prefix :: string

definition DefaultConfig :: cache_config where
  "DefaultConfig = \<lparr>cc_enabled = True, cc_backend = ''memory'', cc_default_ttl = DefaultTTL,
     cc_max_size = DefaultMaxSize, cc_redis_url = ''redis://localhost:6379'', cc_key_prefix = ''surql:''\<rparr>"

definition config_validate :: "cache_config \<Rightarrow> unit result" where
  "config_validate c =
     (if cc_backend c = [] then Inl (err_new ErrValidation ''cache backend cannot be empty'')
      else if cc_backend c \<noteq> ''memory'' \<and> cc_backend c \<noteq> ''redis'' then
        Inl (err_new ErrValidation (''unknown cache backend '' @ go_quote (cc_backend c)))
      else if cc_default_ttl c \<le> 0 then Inl (err_new ErrValidation ''cache default_ttl must be positive'')
      else if cc_max_size c \<le> 0 then Inl (err_new ErrValidation ''cache max_size must be positive'')
      else if cc_backend c = ''redis'' \<and> cc_redis_url c = [] then
        Inl (err_new ErrValidation ''cache redis_url cannot be empty when backend=redis'')
      else Inr ())"

section \<open>The backend interface\<close>

record ('s, 'v) cache_backend =
  be_get :: "gotime \<Rightarrow> string \<Rightarrow> 's \<Rightarrow> 'v option result \<times> 's"
  be_set :: "gotime \<Rightarrow> string \<Rightarrow> 'v \<Rightarrow> duration \<Rightarrow> 's \<Rightarrow> go_error option \<times> 's"
  be_delete :: "string \<Rightarrow> 's \<Rightarrow> go_error option \<times> 's"
  be_exists :: "gotime \<Rightarrow> string \<Rightarrow> 's \<Rightarrow> bool result \<times> 's"
  be_clear :: "'s \<Rightarrow> int result \<times> 's"
  be_clear_pattern :: "string \<Rightarrow> 's \<Rightarrow> (int \<times> go_error option) \<times> 's"
  be_stats :: "'s \<Rightarrow> cache_stats result"

text \<open>The memory cache as a backend; \<open>ord\<close> is the runtime's map order, \<open>glob\<close> is \<open>path.Match\<close>.\<close>

definition memory_backend ::
  "(string \<Rightarrow> string \<Rightarrow> bool result) \<Rightarrow> ('v memory_cache \<Rightarrow> string list) \<Rightarrow> ('v memory_cache, 'v) cache_backend" where
  "memory_backend glob ord =
     \<lparr>be_get = (\<lambda>now k m. case mc_get now k m of (r, m') \<Rightarrow> (Inr r, m')),
      be_set = (\<lambda>now k v ttl m. (None, mc_set now k v ttl m)),
      be_delete = (\<lambda>k m. (None, mc_delete k m)),
      be_exists = (\<lambda>now k m. case mc_exists now k m of (r, m') \<Rightarrow> (Inr r, m')),
      be_clear = (\<lambda>m. case mc_clear m of (n, m') \<Rightarrow> (Inr (int n), m')),
      be_clear_pattern = (\<lambda>p m. case mc_clear_pattern glob (ord m) p m of ((n, e), m') \<Rightarrow> ((int n, e), m')),
      be_stats = (\<lambda>m. Inr (mc_stats_snapshot m))\<rparr>"

section \<open>The manager\<close>

text \<open>The manager's own state and, in \<open>cm_store\<close>, the state of the backend it owns.\<close>

record 's cache_manager =
  cm_config :: cache_config
  cm_stats :: cache_stats
  cm_tables :: "(string, string fset) fmap"
  cm_store :: 's

text \<open>\<open>buildBackend\<close>; the Redis constructor is a parameter, as is how a memory cache becomes the
  backend's state.\<close>

definition build_backend ::
  "('v memory_cache \<Rightarrow> 's) \<Rightarrow> (string \<Rightarrow> string \<Rightarrow> duration \<Rightarrow> 's result) \<Rightarrow> cache_config \<Rightarrow> 's result" where
  "build_backend of_memory new_redis cfg =
     (if cc_backend cfg = ''memory'' then Inr (of_memory (NewMemoryCache (cc_max_size cfg) (cc_default_ttl cfg)))
      else if cc_backend cfg = ''redis'' then new_redis (cc_redis_url cfg) (cc_key_prefix cfg) (cc_default_ttl cfg)
      else Inl (err_new ErrValidation (''unknown cache backend '' @ go_quote (cc_backend cfg))))"

text \<open>\<open>NewCacheManager\<close> with the backend given (Some) or built from the configuration (None).\<close>

definition NewCacheManager ::
  "(cache_config \<Rightarrow> 's result) \<Rightarrow> cache_config \<Rightarrow> 's option \<Rightarrow> 's cache_manager result" where
  "NewCacheManager build cfg backend =
     (case config_validate cfg of
        Inl e \<Rightarrow> Inl e
      | Inr _ \<Rightarrow>
          (case (case backend of Some s \<Rightarrow> Inr s | None \<Rightarrow> build cfg) of
             Inl e \<Rightarrow> Inl e
           | Inr s \<Rightarrow> Inr \<lparr>cm_config = cfg, cm_stats = NewStats, cm_tables = fmempty, cm_store = s\<rparr>))"

definition build_key :: "cache_config \<Rightarrow> string list \<Rightarrow> string" where
  "build_key cfg parts =
     (let key = str_join '':'' parts in
      if cc_key_prefix cfg = [] then key
      else if has_prefix key (cc_key_prefix cfg) then key
      else cc_key_prefix cfg @ key)"

abbreviation cm_enabled :: "'s cache_manager \<Rightarrow> bool" where
  "cm_enabled m \<equiv> cc_enabled (cm_config m)"

abbreviation cm_key :: "'s cache_manager \<Rightarrow> string \<Rightarrow> string" where
  "cm_key m k \<equiv> build_key (cm_config m) [k]"

definition cm_get ::
  "('s, 'v) cache_backend \<Rightarrow> gotime \<Rightarrow> string \<Rightarrow> 's cache_manager \<Rightarrow> 'v option result \<times> 's cache_manager" where
  "cm_get B now key m =
     (if \<not> cm_enabled m then (Inr None, m)
      else
        (case be_get B now (cm_key m key) (cm_store m) of
           (Inl e, s) \<Rightarrow> (Inl e, m\<lparr>cm_store := s\<rparr>)
         | (Inr (Some v), s) \<Rightarrow> (Inr (Some v), m\<lparr>cm_store := s, cm_stats := RecordHit (cm_stats m)\<rparr>)
         | (Inr None, s) \<Rightarrow> (Inr None, m\<lparr>cm_store := s, cm_stats := RecordMiss (cm_stats m)\<rparr>)))"

text \<open>One entry of the table index: the set of keys is created when the table is new.\<close>

definition track :: "string \<Rightarrow> string \<Rightarrow> (string, string fset) fmap \<Rightarrow> (string, string fset) fmap" where
  "track prefixed t tk =
     fmupd t (finsert prefixed (case fmlookup tk t of Some keys \<Rightarrow> keys | None \<Rightarrow> {||})) tk"

definition cm_set ::
  "('s, 'v) cache_backend \<Rightarrow> gotime \<Rightarrow> string \<Rightarrow> 'v \<Rightarrow> duration \<Rightarrow> string list \<Rightarrow> 's cache_manager
     \<Rightarrow> go_error option \<times> 's cache_manager" where
  "cm_set B now key v ttl tables m =
     (if \<not> cm_enabled m then (None, m)
      else
        (let ttl = (if ttl \<le> 0 then cc_default_ttl (cm_config m) else ttl);
             prefixed = cm_key m key in
         case be_set B now prefixed v ttl (cm_store m) of
           (Some e, s) \<Rightarrow> (Some e, m\<lparr>cm_store := s\<rparr>)
         | (None, s) \<Rightarrow> (None, m\<lparr>cm_store := s, cm_tables := fold (track prefixed) tables (cm_tables m)\<rparr>)))"

definition cm_delete ::
  "('s, 'v) cache_backend \<Rightarrow> string \<Rightarrow> 's cache_manager \<Rightarrow> go_error option \<times> 's cache_manager" where
  "cm_delete B key m =
     (if \<not> cm_enabled m then (None, m)
      else
        (let prefixed = cm_key m key in
         case be_delete B prefixed (cm_store m) of
           (Some e, s) \<Rightarrow> (Some e, m\<lparr>cm_store := s\<rparr>)
         | (None, s) \<Rightarrow> (None, m\<lparr>cm_store := s,
              cm_tables := fmmap (\<lambda>keys. keys |-| {|prefixed|}) (cm_tables m)\<rparr>)))"

definition cm_exists ::
  "('s, 'v) cache_backend \<Rightarrow> gotime \<Rightarrow> string \<Rightarrow> 's cache_manager \<Rightarrow> bool result \<times> 's cache_manager" where
  "cm_exists B now key m =
     (if \<not> cm_enabled m then (Inr False, m)
      else (case be_exists B now (cm_key m key) (cm_store m) of (r, s) \<Rightarrow> (r, m\<lparr>cm_store := s\<rparr>)))"

definition cm_clear :: "('s, 'v) cache_backend \<Rightarrow> 's cache_manager \<Rightarrow> int result \<times> 's cache_manager" where
  "cm_clear B m =
     (if \<not> cm_enabled m then (Inr 0, m)
      else
        (case be_clear B (cm_store m) of
           (Inl e, s) \<Rightarrow> (Inl e, m\<lparr>cm_store := s\<rparr>)
         | (Inr n, s) \<Rightarrow> (Inr n, m\<lparr>cm_store := s, cm_tables := fmempty, cm_stats := stats_reset (cm_stats m)\<rparr>)))"

definition cm_backend_stats :: "('s, 'v) cache_backend \<Rightarrow> 's cache_manager \<Rightarrow> cache_stats result" where
  "cm_backend_stats B m = (if \<not> cm_enabled m then Inr NewStats else be_stats B (cm_store m))"

definition cm_invalidate_key ::
  "('s, 'v) cache_backend \<Rightarrow> string \<Rightarrow> 's cache_manager \<Rightarrow> go_error option \<times> 's cache_manager" where
  "cm_invalidate_key B key m = cm_delete B key m"

definition tracked :: "'s cache_manager \<Rightarrow> string \<Rightarrow> string fset" where
  "tracked m table = (case fmlookup (cm_tables m) table of Some keys \<Rightarrow> keys | None \<Rightarrow> {||})"

fun delete_loop ::
  "('s, 'v) cache_backend \<Rightarrow> string list \<Rightarrow> nat \<Rightarrow> 's \<Rightarrow> (nat \<times> go_error option) \<times> 's" where
  "delete_loop B [] count s = ((count, None), s)"
| "delete_loop B (k # ks) count s =
     (case be_delete B k s of
        (Some e, s') \<Rightarrow> ((count, Some e), s')
      | (None, s') \<Rightarrow> delete_loop B ks (count + 1) s')"

text \<open>\<open>InvalidateTable\<close>: the tracked set is taken out first, then its keys are deleted in the
  runtime's order \<open>ord\<close>.\<close>

definition cm_invalidate_table ::
  "('s, 'v) cache_backend \<Rightarrow> (string fset \<Rightarrow> string list) \<Rightarrow> string \<Rightarrow> 's cache_manager
     \<Rightarrow> (nat \<times> go_error option) \<times> 's cache_manager" where
  "cm_invalidate_table B ord table m =
     (if \<not> cm_enabled m then ((0, None), m)
      else
        (let keys = tracked m table;
             m1 = m\<lparr>cm_tables := fmupd table {||} (cm_tables m)\<rparr> in
         case delete_loop B (ord keys) 0 (cm_store m1) of (r, s) \<Rightarrow> (r, m1\<lparr>cm_store := s\<rparr>)))"

definition cm_invalidate_pattern ::
  "('s, 'v) cache_backend \<Rightarrow> string \<Rightarrow> 's cache_manager \<Rightarrow> (int \<times> go_error option) \<times> 's cache_manager" where
  "cm_invalidate_pattern B pattern m =
     (if \<not> cm_enabled m then ((0, None), m)
      else (case be_clear_pattern B (cm_key m pattern) (cm_store m) of (r, s) \<Rightarrow> (r, m\<lparr>cm_store := s\<rparr>)))"

definition cm_track_table :: "string \<Rightarrow> string \<Rightarrow> 's cache_manager \<Rightarrow> 's cache_manager" where
  "cm_track_table table key m = m\<lparr>cm_tables := track (cm_key m key) table (cm_tables m)\<rparr>"

section \<open>Read-through and the global helpers\<close>

text \<open>
  \<open>Cached\<close>: the value and error it returns (a nil value is None) and whether \<open>fetch\<close> was called.
  \<open>cast\<close> is the type assertion to the requested type, \<open>box\<close> stores a value of it in an interface;
  \<open>now\<close> and \<open>later\<close> are the clock at the look-up and at the store.
\<close>

definition fetch_and_store ::
  "('s, 'v) cache_backend \<Rightarrow> ('t \<Rightarrow> 'v) \<Rightarrow> gotime \<Rightarrow> string \<Rightarrow> duration \<Rightarrow> 't result \<Rightarrow> 's cache_manager
     \<Rightarrow> ('t option \<times> go_error option \<times> bool) \<times> 's cache_manager" where
  "fetch_and_store B box later key ttl fetch m =
     (case fetch of
        Inl e \<Rightarrow> ((None, Some e, True), m)
      | Inr fresh \<Rightarrow> (case cm_set B later key (box fresh) ttl [] m of (err, m') \<Rightarrow> ((Some fresh, err, True), m')))"

definition Cached ::
  "('s, 'v) cache_backend \<Rightarrow> ('v \<Rightarrow> 't option) \<Rightarrow> ('t \<Rightarrow> 'v) \<Rightarrow> gotime \<Rightarrow> gotime \<Rightarrow> string \<Rightarrow> duration
     \<Rightarrow> 't result \<Rightarrow> 's cache_manager \<Rightarrow> ('t option \<times> go_error option \<times> bool) \<times> 's cache_manager" where
  "Cached B cast box now later key ttl fetch m =
     (if \<not> cm_enabled m then
        ((case fetch of Inl e \<Rightarrow> (None, Some e, True) | Inr x \<Rightarrow> (Some x, None, True)), m)
      else
        (let ttl = (if ttl \<le> 0 then cc_default_ttl (cm_config m) else ttl) in
         case cm_get B now key m of
           (Inl e, m1) \<Rightarrow> ((None, Some e, False), m1)
         | (Inr (Some v), m1) \<Rightarrow>
             (case cast v of
                Some typed \<Rightarrow> ((Some typed, None, False), m1)
              | None \<Rightarrow> fetch_and_store B box later key ttl fetch (snd (cm_delete B key m1)))
         | (Inr None, m1) \<Rightarrow> fetch_and_store B box later key ttl fetch m1))"

definition IsCached ::
  "('s, 'v) cache_backend \<Rightarrow> gotime \<Rightarrow> string \<Rightarrow> 's cache_manager \<Rightarrow> bool result \<times> 's cache_manager" where
  "IsCached B now key m = (if \<not> cm_enabled m then (Inr False, m) else cm_exists B now key m)"

text \<open>\<open>Invalidate\<close> on the global manager, None when none is configured; an empty argument is skipped.\<close>

definition Invalidate ::
  "('s, 'v) cache_backend \<Rightarrow> (string fset \<Rightarrow> string list) \<Rightarrow> string \<Rightarrow> string \<Rightarrow> string
     \<Rightarrow> 's cache_manager option \<Rightarrow> (int \<times> go_error option) \<times> 's cache_manager option" where
  "Invalidate B ord key table pattern global =
     (case global of
        None \<Rightarrow> ((0, None), None)
      | Some m \<Rightarrow>
          (case (if key = [] then ((0, None), m)
                 else (case cm_invalidate_key B key m of
                         (Some e, m') \<Rightarrow> ((0, Some e), m') | (None, m') \<Rightarrow> ((1, None), m'))) of
             ((tot, Some e), m1) \<Rightarrow> ((tot, Some e), Some m1)
           | ((tot, None), m1) \<Rightarrow>
               (case (if table = [] then ((0, None), m1) else cm_invalidate_table B ord table m1) of
                  ((n, Some e), m2) \<Rightarrow> ((tot, Some e), Some m2)
                | ((n, None), m2) \<Rightarrow>
                    (case (if pattern = [] then ((0, None), m2) else cm_invalidate_pattern B pattern m2) of
                       ((p, Some e), m3) \<Rightarrow> ((tot + int n, Some e), Some m3)
                     | ((p, None), m3) \<Rightarrow> ((tot + int n + p, None), Some m3)))))"

definition ClearCache ::
  "('s, 'v) cache_backend \<Rightarrow> 's cache_manager option \<Rightarrow> int result \<times> 's cache_manager option" where
  "ClearCache B global =
     (case global of
        None \<Rightarrow> (Inr 0, None)
      | Some m \<Rightarrow> (case cm_clear B m of (r, m') \<Rightarrow> (r, Some m')))"

end
