(* ===== verification/Cache_Coherence.thy ===== *)
theory Cache_Coherence
  imports Cache_Manager
begin

text \<open>
  Correctness of the cache manager over any backend that keeps the contract of \<open>CacheBackend\<close>.
  The contract comes in two parts. The locale \<open>sound_backend\<close> has a logical content \<open>look\<close>, the keys \<open>ok\<close> the
  client may use, and what an operation may do to the content: nothing appears in it that was not stored. The locale
  \<open>backend_contract\<close> adds that what is stored stays until its time is up. The client lemmas relate
  the manager to a specification that remembers, per key, the last value written and not
  invalidated, and per table, the keys recorded for it. The memory cache is shown to satisfy both parts,
  and the properties at the end are the client lemmas for it; the Redis cache is in \<open>Redis_Cache\<close>.
\<close>

section \<open>The contract of a backend\<close>

locale sound_backend =
  fixes B :: "('s, 'v) cache_backend"
    and inv :: "'s \<Rightarrow> bool"
    and look :: "gotime \<Rightarrow> 's \<Rightarrow> string \<Rightarrow> 'v option"
    and ok :: "string \<Rightarrow> bool"
  assumes get_law: "inv s \<Longrightarrow> ok k \<Longrightarrow> be_get B now k s = (r, s') \<Longrightarrow>
      inv s' \<and> (\<forall>t j. now \<le> t \<longrightarrow> look t s' j = look t s j) \<and> (\<forall>x. r = Inr x \<longrightarrow> x = look now s k)"
    and set_law: "inv s \<Longrightarrow> ok k \<Longrightarrow> 0 \<le> now \<Longrightarrow> 0 < ttl \<Longrightarrow> be_set B now k v ttl s = (e, s') \<Longrightarrow>
      inv s' \<and> (\<forall>t j w. look t s' j = Some w \<longrightarrow> look t s j = Some w \<or> j = k \<and> w = v)
      \<and> (e = None \<longrightarrow> (\<forall>t w. look t s' k = Some w \<longrightarrow> w = v))"
    and delete_law: "inv s \<Longrightarrow> ok k \<Longrightarrow> be_delete B k s = (e, s') \<Longrightarrow>
      inv s' \<and> (\<forall>t j w. look t s' j = Some w \<longrightarrow> look t s j = Some w) \<and> (e = None \<longrightarrow> (\<forall>t. look t s' k = None))"
    and exists_law: "inv s \<Longrightarrow> ok k \<Longrightarrow> be_exists B now k s = (q, s') \<Longrightarrow>
      inv s' \<and> (\<forall>t j. now \<le> t \<longrightarrow> look t s' j = look t s j) \<and> (\<forall>b. q = Inr b \<longrightarrow> b = (look now s k \<noteq> None))"
    and clear_law: "inv s \<Longrightarrow> be_clear B s = (n, s') \<Longrightarrow>
      inv s' \<and> (\<forall>t j w. look t s' j = Some w \<longrightarrow> look t s j = Some w) \<and> ((\<exists>c. n = Inr c) \<longrightarrow> (\<forall>t j. look t s' j = None))"
    and clear_pattern_law: "inv s \<Longrightarrow> be_clear_pattern B p s = (c, s') \<Longrightarrow>
      inv s' \<and> (\<forall>t j w. look t s' j = Some w \<longrightarrow> look t s j = Some w)"

locale backend_contract = sound_backend +
  assumes set_holds: "inv s \<Longrightarrow> ok k \<Longrightarrow> 0 \<le> now \<Longrightarrow> 0 < ttl \<Longrightarrow> be_set B now k v ttl s = (None, s') \<Longrightarrow>
      look t s' k = (if t < now + ttl then Some v else None)"

section \<open>The specification of the manager\<close>

datatype 'v cm_op =
    CGet gotime string | CSet gotime string 'v duration "string list" | CDelete string
  | CExists gotime string | CClear | CTable string | CPattern string | CTrack string string

text \<open>One operation on the manager; the flag says that it returned no error.\<close>

fun cm_apply ::
  "('s, 'v) cache_backend \<Rightarrow> (string fset \<Rightarrow> string list) \<Rightarrow> 'v cm_op \<Rightarrow> 's cache_manager \<Rightarrow> bool \<times> 's cache_manager" where
  "cm_apply B ord (CGet now k) m = (case cm_get B now k m of (r, m') \<Rightarrow> (isl r = False, m'))"
| "cm_apply B ord (CSet now k v ttl ts) m = (case cm_set B now k v ttl ts m of (e, m') \<Rightarrow> (e = None, m'))"
| "cm_apply B ord (CDelete k) m = (case cm_delete B k m of (e, m') \<Rightarrow> (e = None, m'))"
| "cm_apply B ord (CExists now k) m = (case cm_exists B now k m of (r, m') \<Rightarrow> (isl r = False, m'))"
| "cm_apply B ord CClear m = (case cm_clear B m of (r, m') \<Rightarrow> (isl r = False, m'))"
| "cm_apply B ord (CTable t) m = (case cm_invalidate_table B ord t m of ((n, e), m') \<Rightarrow> (e = None, m'))"
| "cm_apply B ord (CPattern p) m = (case cm_invalidate_pattern B p m of ((n, e), m') \<Rightarrow> (e = None, m'))"
| "cm_apply B ord (CTrack t k) m = (True, cm_track_table t k m)"

record 'v cache_spec =
  sp_value :: "string \<Rightarrow> 'v option"
  sp_table :: "string \<Rightarrow> string set"

fun spec_apply :: "cache_config \<Rightarrow> 'v cm_op \<Rightarrow> 'v cache_spec \<Rightarrow> 'v cache_spec" where
  "spec_apply cfg (CGet now k) sp = sp"
| "spec_apply cfg (CSet now k v ttl ts) sp =
     sp\<lparr>sp_value := (sp_value sp)(build_key cfg [k] := Some v),
        sp_table := (\<lambda>t. if t \<in> set ts then insert (build_key cfg [k]) (sp_table sp t) else sp_table sp t)\<rparr>"
| "spec_apply cfg (CDelete k) sp =
     sp\<lparr>sp_value := (sp_value sp)(build_key cfg [k] := None),
        sp_table := (\<lambda>t. sp_table sp t - {build_key cfg [k]})\<rparr>"
| "spec_apply cfg (CExists now k) sp = sp"
| "spec_apply cfg CClear sp = \<lparr>sp_value = (\<lambda>_. None), sp_table = (\<lambda>_. {})\<rparr>"
| "spec_apply cfg (CTable t) sp =
     sp\<lparr>sp_value := (\<lambda>k. if k \<in> sp_table sp t then None else sp_value sp k),
        sp_table := (sp_table sp)(t := {})\<rparr>"
| "spec_apply cfg (CPattern p) sp = sp"
| "spec_apply cfg (CTrack t k) sp =
     sp\<lparr>sp_table := (sp_table sp)(t := insert (build_key cfg [k]) (sp_table sp t))\<rparr>"

fun op_time :: "gotime \<Rightarrow> 'v cm_op \<Rightarrow> gotime" where
  "op_time now (CGet t k) = t"
| "op_time now (CSet t k v ttl ts) = t"
| "op_time now (CExists t k) = t"
| "op_time now _ = now"

text \<open>
  A run of the manager beside its specification: the clock never goes back, an operation that
  reports an error ends the run.
\<close>

inductive cm_run ::
  "('s, 'v) cache_backend \<Rightarrow> (string fset \<Rightarrow> string list) \<Rightarrow> 's cache_manager
     \<Rightarrow> gotime \<Rightarrow> 's cache_manager \<Rightarrow> 'v cache_spec \<Rightarrow> bool"
  for B ord m0 where
  cm_run_start: "cm_run B ord m0 0 m0 \<lparr>sp_value = (\<lambda>_. None), sp_table = (\<lambda>_. {})\<rparr>"
| cm_run_step: "cm_run B ord m0 now m sp \<Longrightarrow> now \<le> op_time now op \<Longrightarrow> cm_apply B ord op m = (True, m') \<Longrightarrow>
     cm_run B ord m0 (op_time now op) m' (spec_apply (cm_config m0) op sp)"

lemma track_lookup:
  "fmlookup (track p t tk) u = (if u = t then Some (finsert p (case fmlookup tk t of Some ks \<Rightarrow> ks | None \<Rightarrow> {||}))
     else fmlookup tk u)"
  by (simp add: track_def)

lemma fold_track_lookup:
  "(case fmlookup (fold (track p) ts tk) u of Some ks \<Rightarrow> fset ks | None \<Rightarrow> {})
     = (if u \<in> set ts then insert p else id) (case fmlookup tk u of Some ks \<Rightarrow> fset ks | None \<Rightarrow> {})"
  by (induction ts arbitrary: tk) (auto simp: track_lookup split: option.splits)

lemma fset_tracked: "fset (tracked m t) = (case fmlookup (cm_tables m) t of Some ks \<Rightarrow> fset ks | None \<Rightarrow> {})"
  by (simp add: tracked_def split: option.splits)

section \<open>The client lemmas\<close>

context sound_backend begin

definition sim :: "(string fset \<Rightarrow> string list) \<Rightarrow> gotime \<Rightarrow> 's cache_manager \<Rightarrow> 'v cache_spec \<Rightarrow> bool" where
  "sim ord now m sp \<longleftrightarrow> inv (cm_store m) \<and> 0 \<le> now
     \<and> (\<forall>t k w. now \<le> t \<longrightarrow> look t (cm_store m) k = Some w \<longrightarrow> sp_value sp k = Some w)
     \<and> (\<forall>t. fset (tracked m t) = sp_table sp t) \<and> (\<forall>t. \<forall>k \<in> sp_table sp t. ok k)"

lemma sim_later: "sim ord now m sp \<Longrightarrow> now \<le> now' \<Longrightarrow> sim ord now' m sp"
  unfolding sim_def by (meson order_trans)

lemma sim_store:
  assumes "sim ord now m sp" and "inv (cm_store m')" and "cm_tables m' = cm_tables m"
    and "\<forall>t j w. now \<le> t \<longrightarrow> look t (cm_store m') j = Some w \<longrightarrow> look t (cm_store m) j = Some w"
  shows "sim ord now m' sp"
  using assms unfolding sim_def tracked_def by auto

lemma delete_loop_law:
  "inv s \<Longrightarrow> \<forall>k \<in> set ks. ok k \<Longrightarrow> delete_loop B ks n s = ((n', e), s') \<Longrightarrow>
     inv s' \<and> (\<forall>t j w. look t s' j = Some w \<longrightarrow> look t s j = Some w)
     \<and> (e = None \<longrightarrow> n' = n + length ks \<and> (\<forall>t. \<forall>k \<in> set ks. look t s' k = None))"
proof (induction ks arbitrary: n s)
  case Nil
  then show ?case by simp
next
  case (Cons k ks)
  obtain e1 s1 where d: "be_delete B k s = (e1, s1)" by (cases "be_delete B k s")
  have ok: "ok k" "\<forall>k \<in> set ks. ok k" using Cons.prems(2) by simp_all
  note law = delete_law [OF Cons.prems(1) ok(1) d]
  show ?case
  proof (cases e1)
    case (Some x)
    with Cons.prems d law show ?thesis by auto
  next
    case None
    with Cons.prems(3) d have "delete_loop B ks (n + 1) s1 = ((n', e), s')" by simp
    from Cons.IH [OF conjunct1 [OF law] ok(2) this] law None show ?thesis
      by auto (metis not_None_eq)
  qed
qed

lemma sim_step:
  assumes sim: "sim ord now m sp" and en: "cm_enabled m" and keys: "\<forall>k. ok (cm_key m k)"
    and cfg: "0 < cc_default_ttl (cm_config m)"
    and ord: "\<forall>ks. set (ord ks) = fset ks"
    and t: "now \<le> op_time now op" and step: "cm_apply B ord op m = (True, m')"
  shows "sim ord (op_time now op) m' (spec_apply (cm_config m) op sp) \<and> cm_config m' = cm_config m"
proof (cases op)
  case (CGet now' k)
  obtain r s' where g: "be_get B now' (cm_key m k) (cm_store m) = (r, s')"
    by (cases "be_get B now' (cm_key m k) (cm_store m)")
  have sim': "sim ord now' m sp" using sim_later [OF sim] t CGet by simp
  then have law: "inv s' \<and> (\<forall>t j. now' \<le> t \<longrightarrow> look t s' j = look t (cm_store m) j)"
    using get_law [OF _ _ g] keys by (simp add: sim_def)
  have m': "cm_store m' = s'" "cm_tables m' = cm_tables m" "cm_config m' = cm_config m"
    using step en CGet g by (auto simp: cm_get_def split: sum.splits option.splits)
  have "sim ord now' m' sp"
    by (rule sim_store [OF sim']) (use law m' in simp_all)
  then show ?thesis using m' CGet by simp
next
  case (CSet now' k v ttl ts)
  let ?ttl = "if ttl \<le> 0 then cc_default_ttl (cm_config m) else ttl"
  obtain e s' where g: "be_set B now' (cm_key m k) v ?ttl (cm_store m) = (e, s')"
    by (cases "be_set B now' (cm_key m k) v ?ttl (cm_store m)")
  have law: "inv s' \<and> (\<forall>t j w. look t s' j = Some w \<longrightarrow> look t (cm_store m) j = Some w \<or> j = cm_key m k \<and> w = v)
      \<and> (e = None \<longrightarrow> (\<forall>t w. look t s' (cm_key m k) = Some w \<longrightarrow> w = v))"
    by (rule set_law [OF _ _ _ _ g]) (use sim t cfg keys CSet in \<open>auto simp: sim_def\<close>)
  have sim': "sim ord now' m sp" using sim_later [OF sim] t CSet by simp
  from step en CSet g have e: "e = None"
    and m': "m' = m\<lparr>cm_store := s', cm_tables := fold (track (cm_key m k)) ts (cm_tables m)\<rparr>"
    by (auto simp: cm_set_def Let_def split: option.splits)
  have "\<forall>u j w. now' \<le> u \<longrightarrow> look u s' j = Some w \<longrightarrow> ((sp_value sp)(cm_key m k := Some v)) j = Some w"
  proof (intro allI impI)
    fix u j w
    assume u: "now' \<le> u" and l: "look u s' j = Some w"
    show "((sp_value sp)(cm_key m k := Some v)) j = Some w"
    proof (cases "j = cm_key m k")
      case True
      with l law e show ?thesis by auto
    next
      case False
      with l law have "look u (cm_store m) j = Some w" by blast
      with sim' u False show ?thesis by (simp add: sim_def)
    qed
  qed
  moreover have "fset (tracked m' u) = (if u \<in> set ts then insert (cm_key m k) (sp_table sp u) else sp_table sp u)" for u
    using sim unfolding m' fset_tracked by (simp add: fold_track_lookup sim_def fset_tracked)
  ultimately show ?thesis using law sim t CSet keys by (simp add: sim_def m')
next
  case (CDelete k)
  obtain e s' where g: "be_delete B (cm_key m k) (cm_store m) = (e, s')"
    by (cases "be_delete B (cm_key m k) (cm_store m)")
  note law = delete_law [OF _ keys [rule_format] g]
  from step en CDelete g have e: "e = None" and m': "m' = m\<lparr>cm_store := s',
      cm_tables := fmmap (\<lambda>keys. keys |-| {|cm_key m k|}) (cm_tables m)\<rparr>"
    by (auto simp: cm_delete_def Let_def split: option.splits)
  have "fset (tracked m' u) = fset (tracked m u) - {cm_key m k}" for u
    unfolding m' fset_tracked by (auto split: option.splits)
  then show ?thesis using law sim e CDelete by (auto simp: sim_def m')
next
  case (CExists now' k)
  obtain r s' where g: "be_exists B now' (cm_key m k) (cm_store m) = (r, s')"
    by (cases "be_exists B now' (cm_key m k) (cm_store m)")
  have sim': "sim ord now' m sp" using sim_later [OF sim] t CExists by simp
  then have law: "inv s' \<and> (\<forall>t j. now' \<le> t \<longrightarrow> look t s' j = look t (cm_store m) j)"
    using exists_law [OF _ _ g] keys by (simp add: sim_def)
  have m': "cm_store m' = s'" "cm_tables m' = cm_tables m" "cm_config m' = cm_config m"
    using step en CExists g by (auto simp: cm_exists_def)
  have "sim ord now' m' sp"
    by (rule sim_store [OF sim']) (use law m' in simp_all)
  then show ?thesis using m' CExists by simp
next
  case CClear
  obtain r s' where g: "be_clear B (cm_store m) = (r, s')" by (cases "be_clear B (cm_store m)")
  have law: "inv s' \<and> ((\<exists>c. r = Inr c) \<longrightarrow> (\<forall>t j. look t s' j = None))"
    using clear_law [OF _ g] sim by (simp add: sim_def)
  obtain c where "r = Inr c" and m': "cm_store m' = s'" "cm_tables m' = fmempty" "cm_config m' = cm_config m"
    using step en CClear g by (auto simp: cm_clear_def split: sum.splits)
  then show ?thesis using law sim CClear by (simp add: sim_def tracked_def)
next
  case (CTable tb)
  obtain n e s' where g: "delete_loop B (ord (tracked m tb)) 0 (cm_store m) = ((n, e), s')"
    by (metis prod.collapse)
  have tok: "\<forall>k \<in> set (ord (tracked m tb)). ok k" using sim ord by (simp add: sim_def)
  note law = delete_loop_law [OF _ tok g]
  from step en CTable g have e: "e = None"
    and m': "m' = m\<lparr>cm_tables := fmupd tb {||} (cm_tables m), cm_store := s'\<rparr>"
    by (auto simp: cm_invalidate_table_def Let_def)
  have "fset (tracked m' u) = (if u = tb then {} else fset (tracked m u))" for u
    unfolding m' fset_tracked by simp
  then show ?thesis using law sim e CTable ord by (auto simp: sim_def m')
next
  case (CPattern p)
  obtain n e s' where g: "be_clear_pattern B (cm_key m p) (cm_store m) = ((n, e), s')"
    by (metis prod.collapse)
  have law: "inv s' \<and> (\<forall>t j w. look t s' j = Some w \<longrightarrow> look t (cm_store m) j = Some w)"
    using clear_pattern_law [OF _ g] sim by (simp add: sim_def)
  have m': "cm_store m' = s'" "cm_tables m' = cm_tables m" "cm_config m' = cm_config m"
    using step en CPattern g by (auto simp: cm_invalidate_pattern_def)
  have "sim ord now m' sp"
    by (rule sim_store [OF sim]) (use law m' in simp_all)
  then show ?thesis using m' CPattern by simp
next
  case (CTrack tb k)
  have "fset (tracked m' u) = (if u = tb then insert (cm_key m k) (fset (tracked m u)) else fset (tracked m u))" for u
    using step CTrack by (auto simp: fset_tracked cm_track_table_def track_lookup split: option.splits)
  then show ?thesis using step sim CTrack keys by (auto simp: sim_def cm_track_table_def)
qed

lemma run_sim:
  assumes "cm_run B ord m0 now m sp" and "inv (cm_store m0)" and "\<forall>t k. look t (cm_store m0) k = None"
    and "cm_tables m0 = fmempty" and "cm_enabled m0" and "0 < cc_default_ttl (cm_config m0)"
    and "\<forall>ks. set (ord ks) = fset ks" and "\<forall>k. ok (cm_key m0 k)"
  shows "sim ord now m sp \<and> cm_config m = cm_config m0"
  using assms(1)
proof (induction rule: cm_run.induct)
  case cm_run_start
  show ?case using assms by (simp add: sim_def tracked_def)
next
  case (cm_run_step now m sp op m')
  then show ?case using sim_step [of ord now m sp op m'] assms by simp
qed

lemma sim_get:
  assumes "sim ord now m sp" and "cm_enabled m" and "now \<le> t" and "ok (cm_key m k)" and "fst (cm_get B t k m) = Inr (Some w)"
  shows "sp_value sp (cm_key m k) = Some w"
proof -
  obtain r s' where g: "be_get B t (cm_key m k) (cm_store m) = (r, s')"
    by (cases "be_get B t (cm_key m k) (cm_store m)")
  show ?thesis using assms g get_law [OF _ assms(4) g]
    by (auto simp: sim_def cm_get_def split: sum.splits option.splits)
qed

end

context backend_contract begin

lemma fetch_and_store_law:
  assumes "inv (cm_store m)" and ok: "ok (cm_key m k)" and "cm_enabled m" and "0 \<le> later" and "0 < ttl"
    and "fetch_and_store B box later k ttl (Inr x) m = ((r, None, b), m')"
  shows "r = Some x \<and> b \<and> inv (cm_store m') \<and> cm_config m' = cm_config m
    \<and> (\<forall>t. look t (cm_store m') (cm_key m k) = (if t < later + ttl then Some (box x) else None))"
proof -
  obtain e s' where g: "be_set B later (cm_key m k) (box x) ttl (cm_store m) = (e, s')"
    by (cases "be_set B later (cm_key m k) (box x) ttl (cm_store m)")
  have e: "e = None" "r = Some x" "b" "cm_store m' = s'" "cm_config m' = cm_config m"
    using assms(3,5,6) g by (auto simp: fetch_and_store_def cm_set_def split: option.splits)
  show ?thesis using set_law [OF assms(1) ok assms(4,5) g] set_holds [OF assms(1) ok assms(4,5) g [unfolded e(1)]] e by simp
qed

lemma cached_miss:
  assumes inv: "inv (cm_store m)" and ok: "ok (cm_key m k)" and en: "cm_enabled m" and "0 \<le> later" and "0 < ttl"
    and c: "Cached B cast box now later k ttl (Inr x) m = ((r, None, True), m')"
  shows "r = Some x \<and> inv (cm_store m') \<and> cm_config m' = cm_config m
    \<and> (\<forall>t. look t (cm_store m') (cm_key m k) = (if t < later + ttl then Some (box x) else None))"
proof -
  obtain q s1 where g: "be_get B now (cm_key m k) (cm_store m) = (q, s1)"
    by (cases "be_get B now (cm_key m k) (cm_store m)")
  note inv1 = conjunct1 [OF get_law [OF inv ok g]]
  show ?thesis
  proof (cases "q = Inr None")
    case True
    with c g en assms(5) have "fetch_and_store B box later k ttl (Inr x)
        (m\<lparr>cm_store := s1, cm_stats := RecordMiss (cm_stats m)\<rparr>) = ((r, None, True), m')"
      by (simp add: Cached_def cm_get_def)
    from fetch_and_store_law [OF _ _ _ assms(4,5) this] inv1 ok en show ?thesis by simp
  next
    case False
    with c g en assms(5) obtain v where v: "q = Inr (Some v)" "cast v = None"
      by (auto simp: Cached_def cm_get_def split: sum.splits option.splits)
    let ?m1 = "m\<lparr>cm_store := s1, cm_stats := RecordHit (cm_stats m)\<rparr>"
    obtain e s2 where d: "be_delete B (cm_key m k) s1 = (e, s2)" by (cases "be_delete B (cm_key m k) s1")
    have m2: "inv (cm_store (snd (cm_delete B k ?m1)))" "cm_config (snd (cm_delete B k ?m1)) = cm_config m"
      using delete_law [OF inv1 ok d] d en by (auto simp: cm_delete_def split: option.splits)
    from v c g en assms(5) have "fetch_and_store B box later k ttl (Inr x) (snd (cm_delete B k ?m1)) = ((r, None, True), m')"
      by (simp add: Cached_def cm_get_def)
    from fetch_and_store_law [OF m2(1) _ _ assms(4,5) this] m2(2) ok en show ?thesis by simp
  qed
qed

end

section \<open>The memory cache keeps the contract\<close>

lemma mc_look_clear_loop:
  "mc_inv m \<Longrightarrow> mc_look t (snd (clear_loop glob p ks n m)) j = Some w \<Longrightarrow> mc_look t m j = Some w"
proof (induction ks arbitrary: n m)
  case Nil
  then show ?case by simp
next
  case (Cons k ks)
  have del: "mc_inv (remove_element e m) \<and> (mc_look t (remove_element e m) j = Some w \<longrightarrow> mc_look t m j = Some w)"
    if "fmlookup (mc_items m) k = Some e" for e
    using mc_delete_refines [OF Cons.prems(1), of k] mc_look_delete [OF Cons.prems(1), of t k j] that
    by (auto simp: mc_delete_def split: if_splits)
  show ?case
    using Cons.prems Cons.IH [OF Cons.prems(1)] del Cons.IH [OF conjunct1 [OF del]]
    by (auto split: option.splits sum.splits if_splits)
qed

interpretation mem: backend_contract "memory_backend glob ord" mc_inv mc_look "\<lambda>_. True"
proof (unfold_locales, goal_cases)
  case (1 s k now r s')
  then have "s' = snd (mc_get now k s)" "r = Inr (fst (mc_get now k s))"
    by (auto simp: memory_backend_def split: prod.splits)
  with 1 show ?case using mc_look_get [of s now] mc_get_refines [of s now k] by auto
next
  case (2 s k now ttl v e s')
  then have "s' = mc_set now k v ttl s" "e = None" by (auto simp: memory_backend_def)
  with 2 show ?case using mc_set_refines [of s now k v ttl]
    by (auto simp: mc_look_set set_ttl_def split: if_splits)
next
  case (3 s k e s')
  then have "s' = mc_delete k s" by (auto simp: memory_backend_def)
  with 3 show ?case by (auto simp: mc_look_delete mc_delete_refines split: if_splits)
next
  case (4 s k now q s')
  then have "s' = snd (mc_exists now k s)" "q = Inr (fst (mc_exists now k s))"
    by (auto simp: memory_backend_def split: prod.splits)
  with 4 show ?case using mc_look_exists [of s now] mc_exists_refines [of s now k] by auto
next
  case (5 s n s')
  then have "s' = snd (mc_clear s)" by (auto simp: memory_backend_def split: prod.splits)
  with 5 show ?case by (simp add: mc_look_clear mc_clear_refines)
next
  case (6 s p c s')
  then have "s' = snd (mc_clear_pattern glob (ord s) p s)" by (auto simp: memory_backend_def split: prod.splits)
  with 6 show ?case by (auto simp: mc_clear_pattern_def clear_loop_inv intro: mc_look_clear_loop)
next
  case (7 s k now ttl v s' t)
  then have "s' = mc_set now k v ttl s" by (auto simp: memory_backend_def)
  with 7 show ?case using mc_set_refines [of s now k v ttl] by (auto simp: mc_look_set set_ttl_def split: if_splits)
qed

section \<open>The manager over the memory cache\<close>

text \<open>A manager that \<open>NewCacheManager\<close> builds from an enabled memory configuration, and its runs.\<close>

definition memory_manager :: "cache_config \<Rightarrow> 'v memory_cache cache_manager \<Rightarrow> bool" where
  "memory_manager cfg m0 \<longleftrightarrow> cc_enabled cfg \<and> cc_backend cfg = ''memory''
     \<and> NewCacheManager (build_backend (\<lambda>c. c) (\<lambda>_ _ _. Inl (Opaque ''redis''))) cfg None = Inr m0"

lemma memory_manager_start:
  assumes "memory_manager cfg m0"
  shows "mc_inv (cm_store m0) \<and> (\<forall>t k. mc_look t (cm_store m0) k = None) \<and> cm_tables m0 = fmempty
    \<and> cm_config m0 = cfg \<and> cm_enabled m0 \<and> 0 < cc_default_ttl cfg"
proof -
  have m0: "m0 = \<lparr>cm_config = cfg, cm_stats = NewStats, cm_tables = fmempty,
      cm_store = NewMemoryCache (cc_max_size cfg) (cc_default_ttl cfg)\<rparr>" and "config_validate cfg = Inr ()"
    using assms by (auto simp: memory_manager_def NewCacheManager_def build_backend_def split: sum.splits)
  moreover from this(2) have "0 < cc_default_ttl cfg"
    by (auto simp: config_validate_def split: if_splits)
  ultimately show ?thesis
    using assms by (simp add: NewMemoryCache_inv mc_look_find lru_find_def memory_manager_def)
qed

lemma memory_run_sim:
  assumes "memory_manager cfg m0" and "\<forall>ks. set (ord ks) = fset ks"
    and "cm_run (memory_backend glob mo) ord m0 now m sp"
  shows "mem.sim ord now m sp \<and> cm_config m = cfg"
  using mem.run_sim [OF assms(3) _ _ _ _ _ assms(2)] memory_manager_start [OF assms(1)] by auto

lemma mem_get_result:
  "mc_inv (cm_store m) \<Longrightarrow> cm_enabled m \<Longrightarrow>
     fst (cm_get (memory_backend glob mo) t k m) = Inr (mc_look t (cm_store m) (cm_key m k))"
  using mc_look_get [of "cm_store m" t t "cm_key m k"]
  by (auto simp: cm_get_def memory_backend_def split: prod.splits option.splits)

text \<open>
  C7 (safety). No stale reads. Whatever sequence of \<open>Get\<close>, \<open>Set\<close>, \<open>Delete\<close>, \<open>Exists\<close>,
  \<open>Clear\<close>, table and pattern invalidations and \<open>TrackTable\<close> a manager over the memory cache has
  performed, a \<open>Get\<close> at any later time succeeds and returns either nothing or the value last
  stored under the prefixed key and not deleted, cleared or invalidated through its tables since.
\<close>

theorem no_stale_reads:
  assumes "memory_manager cfg m0" and "\<forall>ks. set (ord ks) = fset ks"
    and "cm_run (memory_backend glob mo) ord m0 now m sp" and "now \<le> t"
  shows "\<exists>r. fst (cm_get (memory_backend glob mo) t k m) = Inr r
    \<and> (r = None \<or> r = sp_value sp (build_key cfg [k]))"
proof -
  have sim: "mem.sim ord now m sp" and cfg: "cm_config m = cfg"
    using memory_run_sim [OF assms(1-3)] by simp_all
  have en: "cm_enabled m" using cfg memory_manager_start [OF assms(1)] by auto
  have "fst (cm_get (memory_backend glob mo) t k m) = Inr (mc_look t (cm_store m) (cm_key m k))"
    by (rule mem_get_result) (use sim en in \<open>simp_all add: mem.sim_def\<close>)
  moreover have "mc_look t (cm_store m) (cm_key m k) = Some w \<Longrightarrow> sp_value sp (cm_key m k) = Some w" for w
    using sim assms(4) by (simp add: mem.sim_def)
  ultimately show ?thesis using cfg by (cases "mc_look t (cm_store m) (cm_key m k)") auto
qed

definition sample_config :: cache_config where
  "sample_config = DefaultConfig"

definition sample_manager :: "nat memory_cache cache_manager" where
  "sample_manager = \<lparr>cm_config = sample_config, cm_stats = NewStats, cm_tables = fmempty,
     cm_store = NewMemoryCache DefaultMaxSize DefaultTTL\<rparr>"

lemma sample_manager_new: "memory_manager sample_config sample_manager"
  by (simp add: memory_manager_def NewCacheManager_def build_backend_def sample_manager_def
      sample_config_def DefaultConfig_def config_validate_def DefaultTTL_def DefaultMaxSize_def)

definition sample_ord :: "string fset \<Rightarrow> string list" where
  "sample_ord ks = sorted_list_of_fset ks"

lemma sample_ord: "\<forall>ks. set (sample_ord ks) = fset ks"
  by (simp add: sample_ord_def)

abbreviation sample_backend :: "(nat memory_cache, nat) cache_backend" where
  "sample_backend \<equiv> memory_backend (\<lambda>_ _. Inr False) (\<lambda>_. [])"

lemma sample_run:
  "\<exists>m. cm_run sample_backend sample_ord sample_manager 1 m
     (spec_apply sample_config (CSet 1 ''k'' 7 60 [''user'']) \<lparr>sp_value = (\<lambda>_. None), sp_table = (\<lambda>_. {})\<rparr>)"
proof -
  obtain m where "cm_apply sample_backend sample_ord (CSet 1 ''k'' 7 60 [''user'']) sample_manager = (True, m)"
    by (simp add: cm_set_def memory_backend_def sample_manager_def sample_config_def DefaultConfig_def Let_def)
  from cm_run_step [OF cm_run_start _ this] show ?thesis by (auto simp: sample_manager_def)
qed

theorem no_stale_reads_witness:
  "\<exists>m r. fst (cm_get sample_backend 5 ''k'' m) = Inr r \<and> (r = None \<or> r = Some (7 :: nat))"
proof -
  obtain m where run: "cm_run sample_backend sample_ord sample_manager 1 m
     (spec_apply sample_config (CSet 1 ''k'' 7 60 [''user'']) \<lparr>sp_value = (\<lambda>_. None), sp_table = (\<lambda>_. {})\<rparr>)"
    using sample_run by blast
  have "(1 :: int) \<le> 5" by simp
  from no_stale_reads [OF sample_manager_new sample_ord run this, of "''k''"] show ?thesis by auto
qed

lemma mem_delete_loop:
  "mc_inv s \<Longrightarrow>
   (case delete_loop (memory_backend glob mo) ks n s of ((n', e), s') \<Rightarrow>
     e = None \<and> n' = n + length ks \<and> mc_inv s'
     \<and> (\<forall>t j. mc_look t s' j = (if j \<in> set ks then None else mc_look t s j)))"
proof (induction ks arbitrary: n s)
  case Nil
  then show ?case by simp
next
  case (Cons k ks)
  have d: "be_delete (memory_backend glob mo) k s = (None, mc_delete k s)" by (simp add: memory_backend_def)
  have inv: "mc_inv (mc_delete k s)" using mc_delete_refines [OF Cons.prems] by simp
  from Cons.IH [OF inv, of "n + 1"] d Cons.prems show ?case
    by (auto simp: mc_look_delete split: prod.splits)
qed

text \<open>
  \<open>InvalidateTable\<close> on a manager over the memory cache, at any point of a run:
  it does not fail, reports the number of keys recorded for the table, and afterwards every key
  recorded for it by \<open>Set\<close> or \<open>TrackTable\<close> is absent at every time, while the other tables keep
  their records and no other key's answer changes.
\<close>

theorem table_invalidation:
  assumes "memory_manager cfg m0" and "\<forall>ks. set (ord ks) = fset ks \<and> distinct (ord ks)"
    and "cm_run (memory_backend glob mo) ord m0 now m sp"
    and "cm_invalidate_table (memory_backend glob mo) ord table m = ((n, e), m')"
  shows "e = None \<and> n = card (sp_table sp table)
    \<and> (\<forall>t k. fst (cm_get (memory_backend glob mo) t k m') =
          (if build_key cfg [k] \<in> sp_table sp table then Inr None
           else fst (cm_get (memory_backend glob mo) t k m)))
    \<and> (\<forall>u. fset (tracked m' u) = (if u = table then {} else sp_table sp u))"
proof -
  have ord: "\<forall>ks. set (ord ks) = fset ks" using assms(2) by blast
  have sim: "mem.sim ord now m sp" and cfg: "cm_config m = cfg"
    using memory_run_sim [OF assms(1) ord assms(3)] by simp_all
  have en: "cm_enabled m" using cfg memory_manager_start [OF assms(1)] by auto
  have inv: "mc_inv (cm_store m)" and tab: "\<And>u. fset (tracked m u) = sp_table sp u"
    using sim by (simp_all add: mem.sim_def)
  let ?ks = "ord (tracked m table)"
  obtain n' e' s' where dl: "delete_loop (memory_backend glob mo) ?ks 0 (cm_store m) = ((n', e'), s')"
    by (metis prod.collapse)
  from mem_delete_loop [OF inv, where ks = ?ks and n = 0 and glob = glob and mo = mo] dl
  have law: "e' = None" "n' = length ?ks" "mc_inv s'"
    "\<And>t j. mc_look t s' j = (if j \<in> set ?ks then None else mc_look t (cm_store m) j)" by simp_all
  have m': "m' = m\<lparr>cm_tables := fmupd table {||} (cm_tables m), cm_store := s'\<rparr>" and ne: "n = n'" "e = e'"
    using assms(4) dl en by (auto simp: cm_invalidate_table_def Let_def)
  have "length ?ks = card (sp_table sp table)"
    using assms(2) tab [of table] by (metis distinct_card)
  moreover have "fst (cm_get (memory_backend glob mo) t k m') =
      (if build_key cfg [k] \<in> sp_table sp table then Inr None else fst (cm_get (memory_backend glob mo) t k m))" for t k
  proof -
    have "fst (cm_get (memory_backend glob mo) t k m') = Inr (mc_look t s' (cm_key m' k))"
      using mem_get_result [of m'] law(3) en m' by simp
    then show ?thesis using mem_get_result [OF inv en] law(4) ord tab cfg by (simp add: m')
  qed
  moreover have "fset (tracked m' u) = (if u = table then {} else sp_table sp u)" for u
    using tab by (auto simp: m' fset_tracked)
  ultimately show ?thesis using law ne by simp
qed

theorem table_invalidation_witness:
  "\<exists>m n m'. cm_invalidate_table sample_backend sample_ord ''user'' m = ((n, None), m') \<and> n = 1
     \<and> fst (cm_get sample_backend 5 ''k'' m') = Inr None"
proof -
  obtain m where run: "cm_run sample_backend sample_ord sample_manager 1 m
     (spec_apply sample_config (CSet 1 ''k'' 7 60 [''user'']) \<lparr>sp_value = (\<lambda>_. None), sp_table = (\<lambda>_. {})\<rparr>)"
    using sample_run by blast
  obtain n e m' where i: "cm_invalidate_table sample_backend sample_ord ''user'' m = ((n, e), m')"
    by (metis prod.collapse)
  have "\<forall>ks. set (sample_ord ks) = fset ks \<and> distinct (sample_ord ks)"
    by (simp add: sample_ord_def sorted_list_of_fset.rep_eq)
  from table_invalidation [OF sample_manager_new this run i]
  have "e = None" "n = 1" "fst (cm_get sample_backend 5 ''k'' m') = Inr None" by simp_all
  with i show ?thesis by blast
qed

lemma mem_cached_total:
  "mc_inv (cm_store m) \<Longrightarrow> cm_enabled m \<Longrightarrow> 0 < ttl \<Longrightarrow>
   Cached (memory_backend glob mo) cast box now later k ttl (Inr x) m = ((r, e, called), m') \<Longrightarrow>
   e = None \<and> (\<not> called \<longrightarrow> (\<exists>v. mc_look now (cm_store m) (cm_key m k) = Some v \<and> cast v = r \<and> r \<noteq> None))"
  using mem_get_result [of m glob mo now k]
  by (auto simp: Cached_def fetch_and_store_def cm_set_def memory_backend_def Let_def
      split: prod.splits option.splits sum.splits if_splits) (metis)

lemma mem_cached_hit:
  "mc_inv (cm_store m) \<Longrightarrow> cm_enabled m \<Longrightarrow> mc_look now (cm_store m) (cm_key m k) = Some v \<Longrightarrow> cast v = Some y \<Longrightarrow>
   fst (Cached (memory_backend glob mo) cast box now later k ttl fetch m) = (Some y, None, False)"
  using mem_get_result [of m glob mo now k]
  by (auto simp: Cached_def split: prod.splits)

text \<open>
  Read-through: a \<open>Cached\<close> call whose fetch succeeds returns no error; it either
  skips the fetch and returns the last value stored under the key and not invalidated, or returns
  the fetched value, and in that case every further \<open>Cached\<close> call for the key before the entry's
  time is up returns that same value without calling its own fetch.
\<close>

theorem cached_read_through:
  assumes "memory_manager cfg m0" and "\<forall>ks. set (ord ks) = fset ks"
    and "cm_run (memory_backend glob mo) ord m0 now m sp" and "now \<le> n1" and "n1 \<le> n2" and "0 < ttl"
    and "\<forall>y. cast (box y) = Some y"
    and "Cached (memory_backend glob mo) cast box n1 n2 k ttl (Inr x) m = ((r, e, called), m')"
  shows "e = None
    \<and> (if called then r = Some x \<and> (\<forall>t later fetch. t < n2 + ttl \<longrightarrow>
           fst (Cached (memory_backend glob mo) cast box t later k ttl fetch m') = (Some x, None, False))
       else \<exists>v. sp_value sp (build_key cfg [k]) = Some v \<and> cast v = r \<and> r \<noteq> None)"
proof -
  have sim: "mem.sim ord now m sp" and cfg: "cm_config m = cfg"
    using memory_run_sim [OF assms(1-3)] by simp_all
  have en: "cm_enabled m" using cfg memory_manager_start [OF assms(1)] by auto
  have inv: "mc_inv (cm_store m)" "0 \<le> n2" using sim assms(4,5) by (simp_all add: mem.sim_def)
  note tot = mem_cached_total [OF inv(1) en assms(6,8)]
  show ?thesis
  proof (cases called)
    case False
    with tot obtain v where "mc_look n1 (cm_store m) (cm_key m k) = Some v" "cast v = r" "r \<noteq> None" by blast
    moreover from this(1) have "sp_value sp (cm_key m k) = Some v" using sim assms(4) by (simp add: mem.sim_def)
    ultimately show ?thesis using False tot cfg by auto
  next
    case True
    then have c: "Cached (memory_backend glob mo) cast box n1 n2 k ttl (Inr x) m = ((r, None, True), m')"
      using assms(8) tot by simp
    note miss = mem.cached_miss [OF inv(1) TrueI en inv(2) assms(6) c]
    have "fst (Cached (memory_backend glob mo) cast box t later k ttl fetch m') = (Some x, None, False)"
      if "t < n2 + ttl" for t later fetch
      by (rule mem_cached_hit [of _ _ _ "box x"]) (use miss en that assms(7) in simp_all)
    with miss tot True show ?thesis by simp
  qed
qed

theorem cached_read_through_witness:
  "\<exists>m r e called m'. Cached sample_backend Some (\<lambda>y. y) 2 3 ''q'' 60 (Inr (9 :: nat)) m = ((r, e, called), m') \<and> e = None"
proof -
  obtain m where run: "cm_run sample_backend sample_ord sample_manager 1 m
     (spec_apply sample_config (CSet 1 ''k'' 7 60 [''user'']) \<lparr>sp_value = (\<lambda>_. None), sp_table = (\<lambda>_. {})\<rparr>)"
    using sample_run by blast
  obtain r e called m' where c: "Cached sample_backend Some (\<lambda>y. y) 2 3 ''q'' 60 (Inr (9 :: nat)) m = ((r, e, called), m')"
    by (metis prod.collapse)
  have "e = None" using cached_read_through [OF sample_manager_new sample_ord run _ _ _ _ c] by simp
  with c show ?thesis by blast
qed

section \<open>Keys, and three observations\<close>

lemma build_key_idempotent: "build_key cfg [build_key cfg [k]] = build_key cfg [k]"
  by (simp add: build_key_def Let_def)

lemma build_key_injective:
  "\<not> has_prefix j (cc_key_prefix cfg) \<Longrightarrow> \<not> has_prefix k (cc_key_prefix cfg) \<Longrightarrow>
     build_key cfg [j] = build_key cfg [k] \<longleftrightarrow> j = k"
  by (simp add: build_key_def Let_def)

text \<open>A disabled manager touches neither its own state nor the backend's.\<close>

lemma disabled_manager:
  "\<not> cm_enabled m \<Longrightarrow> cm_get B now k m = (Inr None, m) \<and> cm_set B now k v ttl ts m = (None, m)
     \<and> cm_delete B k m = (None, m) \<and> cm_exists B now k m = (Inr False, m) \<and> cm_clear B m = (Inr 0, m)
     \<and> cm_invalidate_table B ord t m = ((0, None), m) \<and> cm_invalidate_pattern B p m = ((0, None), m)"
  by (simp add: cm_get_def cm_set_def cm_delete_def cm_exists_def cm_clear_def
      cm_invalidate_table_def cm_invalidate_pattern_def)

text \<open>\<open>Invalidate\<close> counts the key it was given, whether or not an entry was removed.\<close>

lemma Invalidate_counts_absent_key:
  "\<not> cm_enabled m \<Longrightarrow> k \<noteq> [] \<Longrightarrow> Invalidate B ord k [] [] (Some m) = ((1, None), Some m)"
  by (simp add: Invalidate_def cm_invalidate_key_def disabled_manager)

text \<open>When the backend fails on the first key, the table's record is gone although nothing was deleted.\<close>

lemma invalidate_table_error_forgets:
  "cm_enabled m \<Longrightarrow> ord (tracked m table) = k # ks \<Longrightarrow> be_delete B k (cm_store m) = (Some e, s) \<Longrightarrow>
     fst (cm_invalidate_table B ord table m) = (0, Some e)
     \<and> tracked (snd (cm_invalidate_table B ord table m)) table = {||}"
  by (simp add: cm_invalidate_table_def Let_def tracked_def)

end
