(* ===== verification/Redis_Cache.thy ===== *)
theory Redis_Cache
  imports Cache_Coherence
begin

text \<open>
  Package \<open>cache\<close>, \<open>redis.go\<close>: the cache on a Redis server, and the proof that it keeps the contract of
  \<open>Cache_Coherence\<close> on the keys the manager uses. The calls of \<open>go-redis\<close> are the record \<open>redis_client\<close> over a
  server state \<open>'r\<close>, \<open>encoding/json\<close> is the record \<open>json_codec\<close>.
\<close>

section \<open>The client library\<close>

text \<open>\<open>rd_scan p\<close> are the page fetches of an iteration over the keys that match \<open>p\<close>, which the server ends with the cursor
  zero; what a fetch returns depends on the state in which it is made. \<open>redis.Nil\<close> is a get that returns None.\<close>

record 'r redis_client =
  rd_get :: "gotime \<Rightarrow> string \<Rightarrow> 'r \<Rightarrow> string option result \<times> 'r"
  rd_set :: "gotime \<Rightarrow> string \<Rightarrow> string \<Rightarrow> duration \<Rightarrow> 'r \<Rightarrow> go_error option \<times> 'r"
  rd_del :: "string list \<Rightarrow> 'r \<Rightarrow> go_error option \<times> 'r"
  rd_exists :: "gotime \<Rightarrow> string \<Rightarrow> 'r \<Rightarrow> int result \<times> 'r"
  rd_scan :: "string \<Rightarrow> ('r \<Rightarrow> string list result \<times> 'r) list"
  rd_close :: "'r \<Rightarrow> go_error option \<times> 'r"

text \<open>\<open>jc_literal\<close> is the string of a payload that is no JSON, as a value.\<close>

record 'v json_codec =
  jc_encode :: "'v \<Rightarrow> string result"
  jc_decode :: "string \<Rightarrow> 'v result"
  jc_literal :: "string \<Rightarrow> 'v"

section \<open>The backend\<close>

record 'r redis_cache =
  rc_prefix :: string
  rc_default_ttl :: duration
  rc_stats :: cache_stats
  rc_server :: 'r

definition NewRedisCacheFromClient :: "'r \<Rightarrow> string \<Rightarrow> duration \<Rightarrow> 'r redis_cache" where
  "NewRedisCacheFromClient r pre ttl =
     \<lparr>rc_prefix = pre, rc_default_ttl = (if ttl \<le> 0 then DefaultTTL else ttl), rc_stats = NewStats, rc_server = r\<rparr>"

text \<open>\<open>parse_url\<close> is \<open>redis.ParseURL\<close> with \<open>redis.NewClient\<close>.\<close>

definition NewRedisCache :: "(string \<Rightarrow> 'r result) \<Rightarrow> string \<Rightarrow> string \<Rightarrow> duration \<Rightarrow> 'r redis_cache result" where
  "NewRedisCache parse_url url pre ttl =
     (if url = [] then Inl (err_new ErrValidation ''redis url cannot be empty'')
      else case parse_url url of
        Inl e \<Rightarrow> Inl (err_wrap ErrValidation (''invalid redis url '' @ go_quote url) e)
      | Inr r \<Rightarrow> Inr (NewRedisCacheFromClient r pre ttl))"

definition makeKey :: "'r redis_cache \<Rightarrow> string \<Rightarrow> string" where
  "makeKey c key = (if rc_prefix c = [] \<or> has_prefix key (rc_prefix c) then key else rc_prefix c @ key)"

definition redis_value :: "'v json_codec \<Rightarrow> string \<Rightarrow> 'v" where
  "redis_value jc raw = (case jc_decode jc raw of Inr v \<Rightarrow> v | Inl _ \<Rightarrow> jc_literal jc raw)"

definition redis_get :: "'r redis_client \<Rightarrow> 'v json_codec \<Rightarrow> gotime \<Rightarrow> string \<Rightarrow> 'r redis_cache \<Rightarrow> 'v option result \<times> 'r redis_cache" where
  "redis_get rd jc now key c =
     (case rd_get rd now (makeKey c key) (rc_server c) of
        (Inl e, r) \<Rightarrow> (Inl e, c\<lparr>rc_server := r\<rparr>)
      | (Inr None, r) \<Rightarrow> (Inr None, c\<lparr>rc_server := r, rc_stats := RecordMiss (rc_stats c)\<rparr>)
      | (Inr (Some raw), r) \<Rightarrow> (Inr (Some (redis_value jc raw)), c\<lparr>rc_server := r, rc_stats := RecordHit (rc_stats c)\<rparr>))"

definition redis_set ::
  "'r redis_client \<Rightarrow> 'v json_codec \<Rightarrow> gotime \<Rightarrow> string \<Rightarrow> 'v \<Rightarrow> duration \<Rightarrow> 'r redis_cache \<Rightarrow> go_error option \<times> 'r redis_cache" where
  "redis_set rd jc now key v ttl c =
     (let ttl = (if ttl \<le> 0 then rc_default_ttl c else ttl) in
      case jc_encode jc v of
        Inl e \<Rightarrow> (Some e, c)
      | Inr payload \<Rightarrow> (case rd_set rd now (makeKey c key) payload ttl (rc_server c) of (e, r) \<Rightarrow> (e, c\<lparr>rc_server := r\<rparr>)))"

definition redis_delete :: "'r redis_client \<Rightarrow> string \<Rightarrow> 'r redis_cache \<Rightarrow> go_error option \<times> 'r redis_cache" where
  "redis_delete rd key c = (case rd_del rd [makeKey c key] (rc_server c) of (e, r) \<Rightarrow> (e, c\<lparr>rc_server := r\<rparr>))"

definition redis_exists :: "'r redis_client \<Rightarrow> gotime \<Rightarrow> string \<Rightarrow> 'r redis_cache \<Rightarrow> bool result \<times> 'r redis_cache" where
  "redis_exists rd now key c =
     (case rd_exists rd now (makeKey c key) (rc_server c) of
        (Inl e, r) \<Rightarrow> (Inl e, c\<lparr>rc_server := r\<rparr>)
      | (Inr n, r) \<Rightarrow> (Inr (n > 0), c\<lparr>rc_server := r\<rparr>))"

text \<open>A batch goes when it has 100 keys, and at the end.\<close>

definition flush_keys :: "'r redis_client \<Rightarrow> string list \<Rightarrow> int \<Rightarrow> 'r \<Rightarrow> go_error option \<times> string list \<times> int \<times> 'r" where
  "flush_keys rd batch removed r =
     (if batch = [] then (None, batch, removed, r)
      else case rd_del rd batch r of
        (Some e, r') \<Rightarrow> (Some e, batch, removed, r')
      | (None, r') \<Rightarrow> (None, [], removed + int (length batch), r'))"

fun take_page :: "'r redis_client \<Rightarrow> string list \<Rightarrow> string list \<Rightarrow> int \<Rightarrow> 'r \<Rightarrow> go_error option \<times> string list \<times> int \<times> 'r" where
  "take_page rd [] batch removed r = (None, batch, removed, r)"
| "take_page rd (k # ks) batch removed r =
     (let batch = batch @ [k] in
      case (if length batch \<ge> 100 then flush_keys rd batch removed r else (None, batch, removed, r)) of
        (Some e, st) \<Rightarrow> (Some e, st)
      | (None, batch, removed, r) \<Rightarrow> take_page rd ks batch removed r)"

fun scan_pages :: "'r redis_client \<Rightarrow> ('r \<Rightarrow> string list result \<times> 'r) list \<Rightarrow> string list \<Rightarrow> int \<Rightarrow> 'r \<Rightarrow> (int \<times> go_error option) \<times> 'r" where
  "scan_pages rd [] batch removed r =
     (case flush_keys rd batch removed r of (e, _, removed, r) \<Rightarrow> ((removed, e), r))"
| "scan_pages rd (page # pages) batch removed r =
     (case page r of
        (Inl e, r) \<Rightarrow> ((removed, Some e), r)
      | (Inr keys, r) \<Rightarrow>
          (case take_page rd keys batch removed r of
             (Some e, _, removed, r) \<Rightarrow> ((removed, Some e), r)
           | (None, batch, removed, r) \<Rightarrow> scan_pages rd pages batch removed r))"

definition redis_clear_pattern :: "'r redis_client \<Rightarrow> string \<Rightarrow> 'r redis_cache \<Rightarrow> (int \<times> go_error option) \<times> 'r redis_cache" where
  "redis_clear_pattern rd pattern c =
     (case scan_pages rd (rd_scan rd (makeKey c pattern)) [] 0 (rc_server c) of (n, r) \<Rightarrow> (n, c\<lparr>rc_server := r\<rparr>))"

definition redis_clear :: "'r redis_client \<Rightarrow> 'r redis_cache \<Rightarrow> (int \<times> go_error option) \<times> 'r redis_cache" where
  "redis_clear rd c = redis_clear_pattern rd ''*'' c"

definition redis_close :: "'r redis_client \<Rightarrow> 'r redis_cache \<Rightarrow> go_error option \<times> 'r redis_cache" where
  "redis_close rd c = (case rd_close rd (rc_server c) of (e, r) \<Rightarrow> (e, c\<lparr>rc_server := r\<rparr>))"

text \<open>The interface drops the count of a clearing that failed, which no caller uses.\<close>

definition redis_backend :: "'r redis_client \<Rightarrow> 'v json_codec \<Rightarrow> ('r redis_cache, 'v) cache_backend" where
  "redis_backend rd jc =
     \<lparr>be_get = redis_get rd jc, be_set = redis_set rd jc, be_delete = redis_delete rd, be_exists = redis_exists rd,
      be_clear = (\<lambda>c. case redis_clear rd c of ((n, Some e), c') \<Rightarrow> (Inl e, c') | ((n, None), c') \<Rightarrow> (Inr n, c')),
      be_clear_pattern = redis_clear_pattern rd, be_stats = (\<lambda>c. Inr (rc_stats c))\<rparr>"

section \<open>The server\<close>

text \<open>What the server is documented to do with its keys: \<open>rlook t r k\<close> is the payload at the time \<open>t\<close>. A payload set is
  there no longer than its time to live (the server rounds it), a deletion that succeeds deletes all its keys, and an
  iteration over a literal text with a star behind returns every key that begins with the text and is
  there throughout.\<close>

definition shrinks :: "(gotime \<Rightarrow> 'r \<Rightarrow> string \<Rightarrow> string option) \<Rightarrow> 'r \<Rightarrow> 'r \<Rightarrow> bool" where
  "shrinks rlook r r' \<longleftrightarrow> (\<forall>t j x. rlook t r' j = Some x \<longrightarrow> rlook t r j = Some x)"

definition same_from :: "(gotime \<Rightarrow> 'r \<Rightarrow> string \<Rightarrow> string option) \<Rightarrow> gotime \<Rightarrow> 'r \<Rightarrow> 'r \<Rightarrow> bool" where
  "same_from rlook now r r' \<longleftrightarrow> (\<forall>t j. now \<le> t \<longrightarrow> rlook t r' j = rlook t r j)"

definition redis_server ::
  "'r redis_client \<Rightarrow> ('r \<Rightarrow> bool) \<Rightarrow> (gotime \<Rightarrow> 'r \<Rightarrow> string \<Rightarrow> string option) \<Rightarrow> bool" where
  "redis_server rd up rlook \<longleftrightarrow>
     (\<forall>r now k x r'. up r \<and> rd_get rd now k r = (x, r') \<longrightarrow> up r' \<and> same_from rlook now r r' \<and> (\<forall>y. x = Inr y \<longrightarrow> y = rlook now r k))
   \<and> (\<forall>r now k p ttl e r'. up r \<and> 0 < ttl \<and> rd_set rd now k p ttl r = (e, r') \<longrightarrow> up r'
        \<and> (\<forall>t j x. rlook t r' j = Some x \<longrightarrow> rlook t r j = Some x \<or> j = k \<and> x = p)
        \<and> (e = None \<longrightarrow> (\<forall>t x. rlook t r' k = Some x \<longrightarrow> x = p)))
   \<and> (\<forall>r ks e r'. up r \<and> rd_del rd ks r = (e, r') \<longrightarrow> up r' \<and> shrinks rlook r r' \<and> (e = None \<longrightarrow> (\<forall>t. \<forall>k \<in> set ks. rlook t r' k = None)))
   \<and> (\<forall>r now k x r'. up r \<and> rd_exists rd now k r = (x, r') \<longrightarrow> up r' \<and> same_from rlook now r r' \<and> (\<forall>n. x = Inr n \<longrightarrow> (n > 0 \<longleftrightarrow> rlook now r k \<noteq> None)))
   \<and> (\<forall>r p page x r'. up r \<and> page \<in> set (rd_scan rd p) \<and> page r = (x, r') \<longrightarrow> up r' \<and> shrinks rlook r r')"

text \<open>An iteration in which every fetch succeeds, with the answers; in between keys may only go.\<close>

fun scanned ::
  "(gotime \<Rightarrow> 'r \<Rightarrow> string \<Rightarrow> string option) \<Rightarrow> ('r \<Rightarrow> string list result \<times> 'r) list \<Rightarrow> string list list \<Rightarrow> 'r \<Rightarrow> 'r \<Rightarrow> bool" where
  "scanned rlook [] kss r r' \<longleftrightarrow> kss = [] \<and> shrinks rlook r r'"
| "scanned rlook (page # pages) kss r r' \<longleftrightarrow>
     (\<exists>r1 ks r2 rest. kss = ks # rest \<and> shrinks rlook r r1 \<and> page r1 = (Inr ks, r2) \<and> scanned rlook pages rest r2 r')"

definition scan_complete ::
  "'r redis_client \<Rightarrow> ('r \<Rightarrow> bool) \<Rightarrow> (gotime \<Rightarrow> 'r \<Rightarrow> string \<Rightarrow> string option) \<Rightarrow> string \<Rightarrow> bool" where
  "scan_complete rd up rlook pre \<longleftrightarrow>
     (\<forall>kss r r' t k x. up r \<and> scanned rlook (rd_scan rd (pre @ ''*'')) kss r r' \<and> has_prefix k pre \<and> rlook t r' k = Some x
        \<longrightarrow> (\<exists>ks \<in> set kss. k \<in> set ks))"

section \<open>Clearing\<close>

lemma shrinks_refl: "shrinks rlook r r" and shrinks_trans: "shrinks rlook r r1 \<Longrightarrow> shrinks rlook r1 r2 \<Longrightarrow> shrinks rlook r r2"
  by (simp_all add: shrinks_def)

lemma shrinks_None: "shrinks rlook r r' \<Longrightarrow> rlook t r k = None \<Longrightarrow> rlook t r' k = None"
  unfolding shrinks_def by (metis not_None_eq)

lemma server_get:
  assumes "redis_server rd up rlook" "up r" "rd_get rd now k r = (x, r')"
  shows "up r' \<and> same_from rlook now r r' \<and> (\<forall>y. x = Inr y \<longrightarrow> y = rlook now r k)"
  by (rule assms(1) [unfolded redis_server_def, THEN conjunct1, rule_format, OF conjI [OF assms(2,3)]])

lemma server_set:
  assumes "redis_server rd up rlook" "up r" "0 < ttl" "rd_set rd now k p ttl r = (e, r')"
  shows "up r' \<and> (\<forall>t j x. rlook t r' j = Some x \<longrightarrow> rlook t r j = Some x \<or> j = k \<and> x = p)
    \<and> (e = None \<longrightarrow> (\<forall>t x. rlook t r' k = Some x \<longrightarrow> x = p))"
  by (rule assms(1) [unfolded redis_server_def, THEN conjunct2, THEN conjunct1, rule_format, OF conjI [OF assms(2) conjI [OF assms(3,4)]]])

lemma server_del:
  assumes "redis_server rd up rlook" "up r" "rd_del rd ks r = (e, r')"
  shows "up r' \<and> shrinks rlook r r' \<and> (e = None \<longrightarrow> (\<forall>t. \<forall>k \<in> set ks. rlook t r' k = None))"
  by (rule assms(1) [unfolded redis_server_def, THEN conjunct2, THEN conjunct2, THEN conjunct1, rule_format, OF conjI [OF assms(2,3)]])

lemma server_exists:
  assumes "redis_server rd up rlook" "up r" "rd_exists rd now k r = (x, r')"
  shows "up r' \<and> same_from rlook now r r' \<and> (\<forall>n. x = Inr n \<longrightarrow> (n > 0 \<longleftrightarrow> rlook now r k \<noteq> None))"
  by (rule assms(1) [unfolded redis_server_def, THEN conjunct2, THEN conjunct2, THEN conjunct2, THEN conjunct1, rule_format, OF conjI [OF assms(2,3)]])

lemma server_page:
  assumes "redis_server rd up rlook" "up r" "page \<in> set (rd_scan rd p)" "page r = (x, r')"
  shows "up r' \<and> shrinks rlook r r'"
  by (rule assms(1) [unfolded redis_server_def, THEN conjunct2, THEN conjunct2, THEN conjunct2, THEN conjunct2, rule_format,
    OF conjI [OF assms(2) conjI [OF assms(3,4)]]])

definition gone :: "(gotime \<Rightarrow> 'r \<Rightarrow> string \<Rightarrow> string option) \<Rightarrow> string set \<Rightarrow> 'r \<Rightarrow> bool" where
  "gone rlook ks r \<longleftrightarrow> (\<forall>t. \<forall>k \<in> ks. rlook t r k = None)"

lemma gone_simps [simp]: "gone rlook {} r" "gone rlook (A \<union> B) r \<longleftrightarrow> gone rlook A r \<and> gone rlook B r"
  by (auto simp: gone_def)

lemma gone_mono: "gone rlook A r \<Longrightarrow> shrinks rlook r r' \<Longrightarrow> gone rlook A r'"
  by (auto simp: gone_def intro: shrinks_None)

lemma flush_ok:
  assumes "redis_server rd up rlook" "up r" "flush_keys rd batch removed r = (e, batch', removed', r')"
  shows "up r' \<and> shrinks rlook r r' \<and> (e = None \<longrightarrow> batch' = [] \<and> gone rlook (set batch) r')"
proof (cases "batch = []")
  case True
  then show ?thesis using assms by (auto simp: flush_keys_def shrinks_refl)
next
  case False
  obtain d r1 where d: "rd_del rd batch r = (d, r1)" by fastforce
  show ?thesis using server_del [OF assms(1,2) d] assms(3) False d by (auto simp: flush_keys_def gone_def split: option.splits)
qed

text \<open>After a page, every key of the batch and the page is gone or in the batch.\<close>

lemma take_page_ok:
  assumes "redis_server rd up rlook" "up r" "take_page rd ks batch removed r = (e, batch', removed', r')"
  shows "up r' \<and> shrinks rlook r r' \<and> (e = None \<longrightarrow> gone rlook ((set batch \<union> set ks) - set batch') r')"
  using assms(2,3)
proof (induction ks arbitrary: batch removed r)
  case Nil
  then show ?case by (auto simp: shrinks_refl gone_def)
next
  case (Cons k ks)
  obtain e1 b1 n1 r1 where f: "(if length (batch @ [k]) \<ge> 100 then flush_keys rd (batch @ [k]) removed r else (None, batch @ [k], removed, r)) = (e1, b1, n1, r1)"
    by (metis prod_cases4)
  have step: "up r1 \<and> shrinks rlook r r1 \<and> (e1 = None \<longrightarrow> gone rlook ((set batch \<union> {k}) - set b1) r1)"
  proof (cases "length (batch @ [k]) \<ge> 100")
    case True
    then have "flush_keys rd (batch @ [k]) removed r = (e1, b1, n1, r1)" using f by simp
    from flush_ok [OF assms(1) Cons.prems(1) this] show ?thesis by (auto simp: gone_def)
  next
    case False
    then show ?thesis using f Cons.prems(1) by (auto simp: shrinks_refl gone_def)
  qed
  show ?case
  proof (cases e1)
    case (Some x)
    then have "e = Some x \<and> r' = r1" using Cons.prems(2) f by (simp add: Let_def split: if_splits)
    then show ?thesis using step by simp
  next
    case None
    then have rest: "take_page rd ks b1 n1 r1 = (e, batch', removed', r')" using Cons.prems(2) f by (simp add: Let_def split: if_splits)
    have ih: "up r' \<and> shrinks rlook r1 r' \<and> (e = None \<longrightarrow> gone rlook ((set b1 \<union> set ks) - set batch') r')"
      using Cons.IH [OF _ rest] step by blast
    have old: "gone rlook ((set batch \<union> {k}) - set b1) r'" by (rule gone_mono [of _ _ r1]) (use step None ih in simp_all)
    have shr: "shrinks rlook r r'" by (rule shrinks_trans [of _ _ r1]) (use step ih in simp_all)
    have "gone rlook ((set batch \<union> set (k # ks)) - set batch') r'" if e: "e = None"
    proof -
      have "gone rlook ((set b1 \<union> set ks) - set batch') r'" using ih e by simp
      then show ?thesis using old by (auto simp: gone_def)
    qed
    then show ?thesis using ih shr by simp
  qed
qed

lemma scanned_mono: "shrinks rlook r0 r \<Longrightarrow> scanned rlook pages kss r r' \<Longrightarrow> scanned rlook pages kss r0 r'"
  by (cases pages) (auto, (metis shrinks_trans)+)

lemma scan_pages_ok:
  assumes "redis_server rd up rlook" "up r" "set pages \<subseteq> set (rd_scan rd p)" "scan_pages rd pages batch removed r = ((n, e), r')"
  shows "up r' \<and> shrinks rlook r r' \<and> (e = None \<longrightarrow> (\<exists>kss. scanned rlook pages kss r r' \<and> gone rlook (set batch \<union> \<Union> (set ` set kss)) r'))"
  using assms(2-4)
proof (induction pages arbitrary: batch removed r)
  case Nil
  obtain e1 b1 n1 r1 where f: "flush_keys rd batch removed r = (e1, b1, n1, r1)" by (metis prod_cases4)
  show ?case using flush_ok [OF assms(1) Nil.prems(1) f] Nil.prems(3) f by auto
next
  case (Cons page pages)
  obtain x r1 where x: "page r = (x, r1)" by fastforce
  have page: "up r1 \<and> shrinks rlook r r1" using server_page [of rd up rlook r page p x r1] assms(1) Cons.prems(1,2) x by simp
  show ?case
  proof (cases x)
    case (Inl err)
    then show ?thesis using Cons.prems(3) x page by auto
  next
    case (Inr ks)
    obtain e2 b2 n2 r2 where t: "take_page rd ks batch removed r1 = (e2, b2, n2, r2)" by (metis prod_cases4)
    note took = take_page_ok [OF assms(1) conjunct1 [OF page] t]
    show ?thesis
    proof (cases e2)
      case (Some err)
      then have "e = Some err" "r' = r2" using Cons.prems(3) x Inr t by simp_all
      then show ?thesis using took page shrinks_trans [of rlook r r1 r2] by simp
    next
      case None
      have rest: "scan_pages rd pages b2 n2 r2 = ((n, e), r')" using Cons.prems(3) x Inr t None by simp
      have ih: "up r' \<and> shrinks rlook r2 r' \<and> (e = None \<longrightarrow> (\<exists>kss. scanned rlook pages kss r2 r' \<and> gone rlook (set b2 \<union> \<Union> (set ` set kss)) r'))"
        using Cons.IH [OF _ _ rest] took Cons.prems(2) by simp
      have shr2: "shrinks rlook r1 r2" using took by simp
      have shr: "shrinks rlook r r'" by (rule shrinks_trans [OF _ shrinks_trans [OF shr2]]) (use page ih in simp_all)
      show ?thesis
      proof (intro conjI impI)
        assume "e = None"
        then obtain kss where kss: "scanned rlook pages kss r2 r'" "gone rlook (set b2 \<union> \<Union> (set ` set kss)) r'" using ih by blast
        have "scanned rlook (page # pages) (ks # kss) r r'"
          using scanned_mono [OF shr2 kss(1)] x Inr shrinks_refl [of rlook r] by auto
        moreover have "gone rlook ((set batch \<union> set ks) - set b2) r'" by (rule gone_mono [of _ _ r2]) (use took None ih in simp_all)
        ultimately show "\<exists>kss. scanned rlook (page # pages) kss r r' \<and> gone rlook (set batch \<union> \<Union> (set ` set kss)) r'"
          using kss(2) by (intro exI [of _ "ks # kss"]) (simp add: gone_def, blast)
      qed (use ih shr in simp_all)
    qed
  qed
qed

section \<open>The contract\<close>

definition redis_ok :: "('r \<Rightarrow> bool) \<Rightarrow> string \<Rightarrow> 'r redis_cache \<Rightarrow> bool" where
  "redis_ok up pre c \<longleftrightarrow> up (rc_server c) \<and> rc_prefix c = pre \<and> 0 < rc_default_ttl c"

definition redis_look ::
  "(gotime \<Rightarrow> 'r \<Rightarrow> string \<Rightarrow> string option) \<Rightarrow> 'v json_codec \<Rightarrow> string \<Rightarrow> gotime \<Rightarrow> 'r redis_cache \<Rightarrow> string \<Rightarrow> 'v option" where
  "redis_look rlook jc pre t c k = (if has_prefix k pre then map_option (redis_value jc) (rlook t (rc_server c) k) else None)"

definition json_survives :: "'v json_codec \<Rightarrow> bool" where
  "json_survives jc \<longleftrightarrow> (\<forall>v p. jc_encode jc v = Inr p \<longrightarrow> jc_decode jc p = Inr v)"

lemma makeKey_prefixed: "rc_prefix c = pre \<Longrightarrow> has_prefix k pre \<Longrightarrow> makeKey c k = k"
  by (simp add: makeKey_def)

lemma redis_sound:
  assumes server: "redis_server rd up rlook" and scan: "scan_complete rd up rlook pre" and json: "json_survives jc" and pre: "pre \<noteq> ''*''"
  shows "sound_backend (redis_backend rd jc) (redis_ok up pre) (redis_look rlook jc pre) (\<lambda>k. has_prefix k pre)"
proof (unfold_locales, goal_cases)
  case (1 s k now r s')
  obtain x r1 where g: "rd_get rd now k (rc_server s) = (x, r1)" by fastforce
  have key: "makeKey s k = k" using 1 makeKey_prefixed by (auto simp: redis_ok_def)
  have up: "up (rc_server s)" using 1(1) by (simp add: redis_ok_def)
  note law = server_get [OF server up g]
  have s': "rc_server s' = r1" "rc_prefix s' = rc_prefix s" "rc_default_ttl s' = rc_default_ttl s"
    "\<forall>y. r = Inr y \<longrightarrow> (\<exists>z. x = Inr z \<and> y = map_option (redis_value jc) z)"
    using 1(3) g key by (auto simp: redis_backend_def redis_get_def split: sum.splits option.splits)
  show ?case using 1(1,2) law s' by (auto simp: redis_ok_def redis_look_def same_from_def)
next
  case (2 s k now ttl v e s')
  have key: "makeKey s k = k" and up: "up (rc_server s)" using 2 makeKey_prefixed by (auto simp: redis_ok_def)
  show ?case
  proof (cases "jc_encode jc v")
    case (Inl err)
    then show ?thesis using 2 by (auto simp: redis_backend_def redis_set_def Let_def)
  next
    case (Inr p)
    obtain x r1 where g: "rd_set rd now k p ttl (rc_server s) = (x, r1)" by fastforce
    note law = server_set [OF server up 2(4) g]
    have s': "s' = s\<lparr>rc_server := r1\<rparr>" "e = x" using 2(4,5) g key Inr by (auto simp: redis_backend_def redis_set_def Let_def)
    have val: "redis_value jc p = v" using json Inr by (simp add: json_survives_def redis_value_def)
    have "redis_look rlook jc pre t s j = Some w \<or> j = k \<and> w = v" if look: "redis_look rlook jc pre t s' j = Some w" for t j w
    proof -
      obtain y where y: "has_prefix j pre" "rlook t r1 j = Some y" "w = redis_value jc y"
        using look by (auto simp: redis_look_def s'(1) split: if_splits)
      then consider "rlook t (rc_server s) j = Some y" | "j = k" "y = p" using law by blast
      then show ?thesis using y val by cases (simp_all add: redis_look_def)
    qed
    moreover have "w = v" if "redis_look rlook jc pre t s' k = Some w" "e = None" for t w
      using that law val by (auto simp: redis_look_def s' split: if_splits)
    ultimately show ?thesis using 2(1) law by (simp add: s'(1) redis_ok_def)
  qed
next
  case (3 s k e s')
  obtain x r1 where g: "rd_del rd [k] (rc_server s) = (x, r1)" by fastforce
  have key: "makeKey s k = k" and up: "up (rc_server s)" using 3 makeKey_prefixed by (auto simp: redis_ok_def)
  have s': "s' = s\<lparr>rc_server := r1\<rparr>" "e = x" using 3(3) g key by (auto simp: redis_backend_def redis_delete_def)
  show ?case using server_del [OF server up g] 3(1) by (auto simp: s' redis_ok_def redis_look_def shrinks_def)
next
  case (4 s k now q s')
  obtain x r1 where g: "rd_exists rd now k (rc_server s) = (x, r1)" by fastforce
  have key: "makeKey s k = k" and up: "up (rc_server s)" using 4 makeKey_prefixed by (auto simp: redis_ok_def)
  note law = server_exists [OF server up g]
  have s': "s' = s\<lparr>rc_server := r1\<rparr>" "\<forall>b. q = Inr b \<longrightarrow> (\<exists>n. x = Inr n \<and> b = (n > 0))"
    using 4(3) g key by (auto simp: redis_backend_def redis_exists_def split: sum.splits)
  show ?case using 4(1,2) law s'(2) by (auto simp: s'(1) redis_ok_def redis_look_def same_from_def)
next
  case (5 s n s')
  have up: "up (rc_server s)" and p: "rc_prefix s = pre" using 5(1) by (simp_all add: redis_ok_def)
  have star: "makeKey s ''*'' = pre @ ''*''" using p pre by (cases pre) (auto simp: makeKey_def has_prefix_def)
  obtain m e r1 where g: "scan_pages rd (rd_scan rd (pre @ ''*'')) [] 0 (rc_server s) = ((m, e), r1)" by (metis prod.collapse)
  note ok = scan_pages_ok [OF server up subset_refl g]
  have s': "s' = s\<lparr>rc_server := r1\<rparr>" "(\<exists>c. n = Inr c) \<longrightarrow> e = None"
    using 5(2) g star by (auto simp: redis_backend_def redis_clear_def redis_clear_pattern_def split: option.splits)
  have "redis_look rlook jc pre t s' j = None" if e: "e = None" for t j
  proof (cases "rlook t r1 j")
    case (Some y)
    obtain kss where kss: "scanned rlook (rd_scan rd (pre @ ''*'')) kss (rc_server s) r1" "gone rlook (\<Union> (set ` set kss)) r1"
      using ok e by auto
    have "\<not> has_prefix j pre"
    proof
      assume "has_prefix j pre"
      then obtain ks where "ks \<in> set kss" "j \<in> set ks" using scan up kss(1) Some unfolding scan_complete_def by blast
      then show False using kss(2) Some by (fastforce simp: gone_def)
    qed
    then show ?thesis by (simp add: redis_look_def)
  qed (simp add: redis_look_def s'(1))
  then show ?case using ok 5(1) s'(2) by (auto simp: s'(1) redis_ok_def redis_look_def shrinks_def)
next
  case (6 s p c s')
  have up: "up (rc_server s)" using 6(1) by (simp add: redis_ok_def)
  obtain m e r1 where g: "scan_pages rd (rd_scan rd (makeKey s p)) [] 0 (rc_server s) = ((m, e), r1)" by (metis prod.collapse)
  have s': "s' = s\<lparr>rc_server := r1\<rparr>" using 6(2) g by (auto simp: redis_backend_def redis_clear_pattern_def)
  show ?case using scan_pages_ok [OF server up subset_refl g] 6(1) by (auto simp: s' redis_ok_def redis_look_def shrinks_def)
qed

section \<open>The manager over Redis\<close>

text \<open>A manager that \<open>NewCacheManager\<close> builds from an enabled Redis configuration.\<close>

definition redis_manager ::
  "('v memory_cache \<Rightarrow> 'r redis_cache) \<Rightarrow> (string \<Rightarrow> 'r result) \<Rightarrow> cache_config \<Rightarrow> 'r redis_cache cache_manager \<Rightarrow> bool" where
  "redis_manager of_memory parse_url cfg m0 \<longleftrightarrow> cc_enabled cfg \<and> cc_backend cfg = ''redis''
     \<and> NewCacheManager (build_backend of_memory (NewRedisCache parse_url)) cfg None = Inr m0"

lemma redis_manager_start:
  assumes "redis_manager of_memory parse_url cfg m0"
  shows "\<exists>r. parse_url (cc_redis_url cfg) = Inr r
    \<and> m0 = \<lparr>cm_config = cfg, cm_stats = NewStats, cm_tables = fmempty, cm_store = NewRedisCacheFromClient r (cc_key_prefix cfg) (cc_default_ttl cfg)\<rparr>
    \<and> cc_enabled cfg \<and> 0 < cc_default_ttl cfg"
proof -
  have v: "config_validate cfg = Inr ()" using assms by (auto simp: redis_manager_def NewCacheManager_def split: sum.splits)
  then have "0 < cc_default_ttl cfg" by (auto simp: config_validate_def split: if_splits)
  then show ?thesis using assms v
    by (auto simp: redis_manager_def NewCacheManager_def build_backend_def NewRedisCache_def split: sum.splits if_splits)
qed

lemma build_key_prefixed: "has_prefix (build_key cfg [k]) (cc_key_prefix cfg)"
  by (simp add: build_key_def Let_def has_prefix_iff)

text \<open>
  C36 (safety). No stale reads from Redis. When the server keeps its keys as documented, nothing else writes under the prefix of the manager,
  the prefix reads as a literal in a pattern and the values survive JSON, then whatever the manager did without an error, a
  \<open>Get\<close> at a later time fails, or returns nothing or the value last stored under the key and not deleted, cleared
  or invalidated through its tables since.
\<close>

theorem redis_no_stale_reads:
  assumes "redis_manager of_memory parse_url cfg m0" and "\<forall>ks. set (ord ks) = fset ks"
    and "redis_server rd up rlook" and "scan_complete rd up rlook (cc_key_prefix cfg)" and "cc_key_prefix cfg \<noteq> ''*''" and "json_survives jc"
    and "\<forall>r. parse_url (cc_redis_url cfg) = Inr r \<longrightarrow> up r \<and> (\<forall>t k. has_prefix k (cc_key_prefix cfg) \<longrightarrow> rlook t r k = None)"
    and "cm_run (redis_backend rd jc) ord m0 now m sp" and "now \<le> t" and "fst (cm_get (redis_backend rd jc) t k m) = Inr r"
  shows "r = None \<or> r = sp_value sp (build_key cfg [k])"
proof -
  let ?pre = "cc_key_prefix cfg"
  note sound = redis_sound [OF assms(3,4,6,5)]
  obtain s where s: "parse_url (cc_redis_url cfg) = Inr s" "cm_enabled m0" "0 < cc_default_ttl cfg"
    and m0: "m0 = \<lparr>cm_config = cfg, cm_stats = NewStats, cm_tables = fmempty, cm_store = NewRedisCacheFromClient s ?pre (cc_default_ttl cfg)\<rparr>"
    using redis_manager_start [OF assms(1)] by auto
  have "redis_ok up ?pre (cm_store m0)" "\<forall>t k. redis_look rlook jc ?pre t (cm_store m0) k = None"
    using assms(7) s by (auto simp: m0 redis_ok_def redis_look_def NewRedisCacheFromClient_def)
  then have sim: "sound_backend.sim (redis_ok up ?pre) (redis_look rlook jc ?pre) (\<lambda>k. has_prefix k ?pre) ord now m sp \<and> cm_config m = cfg"
    using sound_backend.run_sim [OF sound assms(8) _ _ _ _ _ assms(2)] s by (simp add: m0 build_key_prefixed)
  show ?thesis
  proof (cases r)
    case (Some w)
    have "sp_value sp (cm_key m k) = Some w"
      by (rule sound_backend.sim_get [OF sound conjunct1 [OF sim] _ assms(9)])
        (use sim s assms(10) Some in \<open>simp_all add: m0 build_key_prefixed\<close>)
    then show ?thesis using sim Some by simp
  qed simp
qed

section \<open>A server\<close>

type_synonym toy_server = "string \<rightharpoonup> string \<times> gotime"

definition toy_look :: "gotime \<Rightarrow> toy_server \<Rightarrow> string \<Rightarrow> string option" where
  "toy_look t r k = (case r k of Some (p, until) \<Rightarrow> if t < until then Some p else None | None \<Rightarrow> None)"

definition toy_redis :: "toy_server redis_client" where
  "toy_redis = \<lparr>rd_get = (\<lambda>now k r. (Inr (toy_look now r k), r)), rd_set = (\<lambda>now k p ttl r. (None, r(k \<mapsto> (p, now + ttl)))),
     rd_del = (\<lambda>ks r. (None, r |` (- set ks))), rd_exists = (\<lambda>now k r. (Inr (if toy_look now r k \<noteq> None then 1 else 0), r)),
     rd_scan = (\<lambda>p. [\<lambda>r. (Inr (sorted_list_of_set {k \<in> dom r. has_prefix k (butlast p)}), r)]), rd_close = (\<lambda>r. (None, r))\<rparr>"

definition toy_up :: "toy_server \<Rightarrow> bool" where "toy_up r \<longleftrightarrow> finite (dom r)"

lemma toy_look_simps:
  "toy_look t (r |` (- ks)) j = (if j \<in> ks then None else toy_look t r j)"
  "toy_look t (r(k \<mapsto> (p, until))) j = (if j = k then if t < until then Some p else None else toy_look t r j)"
  by (simp_all add: toy_look_def restrict_map_def)

lemma toy_redis_server: "redis_server toy_redis toy_up toy_look"
  by (auto simp: redis_server_def toy_redis_def toy_up_def shrinks_def same_from_def toy_look_simps split: if_splits)

lemma toy_scan_complete: "scan_complete toy_redis toy_up toy_look pre"
proof -
  have "k \<in> dom r1" if "toy_look t r2 k = Some x" "shrinks toy_look r1 r2" for t r1 r2 k x
    using that by (auto simp: shrinks_def toy_look_def split: option.splits if_splits prod.splits)
  moreover have "finite (dom r1)" if "shrinks toy_look r r1" "finite (dom r)" for r r1
  proof (rule finite_subset [OF _ that(2)], rule subsetI)
    fix k assume "k \<in> dom r1"
    then obtain p until where "r1 k = Some (p, until)" by auto
    then have "toy_look (until - 1) r1 k = Some p" by (simp add: toy_look_def)
    then have "toy_look (until - 1) r k = Some p" using that(1) unfolding shrinks_def by blast
    then show "k \<in> dom r" by (auto simp: toy_look_def split: option.splits)
  qed
  ultimately show ?thesis by (auto simp: scan_complete_def toy_redis_def toy_up_def)
qed

definition toy_json :: "string json_codec" where
  "toy_json = \<lparr>jc_encode = (\<lambda>v. Inr v), jc_decode = (\<lambda>p. Inr p), jc_literal = (\<lambda>p. p)\<rparr>"

definition redis_config :: cache_config where
  "redis_config = DefaultConfig\<lparr>cc_backend := ''redis''\<rparr>"

definition toy_redis_manager :: "toy_server redis_cache cache_manager" where
  "toy_redis_manager = \<lparr>cm_config = redis_config, cm_stats = NewStats, cm_tables = fmempty,
     cm_store = NewRedisCacheFromClient Map.empty ''surql:'' DefaultTTL\<rparr>"

lemma toy_redis_manager_new:
  "redis_manager (\<lambda>c :: nat memory_cache. NewRedisCacheFromClient Map.empty [] 0) (\<lambda>u. Inr Map.empty) redis_config toy_redis_manager"
  by (simp add: redis_manager_def NewCacheManager_def build_backend_def NewRedisCache_def toy_redis_manager_def redis_config_def DefaultConfig_def
      config_validate_def DefaultTTL_def DefaultMaxSize_def)

lemma toy_redis_run:
  "\<exists>m. cm_run (redis_backend toy_redis toy_json) sample_ord toy_redis_manager 1 m
     (spec_apply redis_config (CSet 1 ''k'' ''v'' 60 [''user'']) \<lparr>sp_value = (\<lambda>_. None), sp_table = (\<lambda>_. {})\<rparr>)"
proof -
  obtain m where "cm_apply (redis_backend toy_redis toy_json) sample_ord (CSet 1 ''k'' ''v'' 60 [''user'']) toy_redis_manager = (True, m)"
    by (simp add: cm_set_def redis_backend_def redis_set_def toy_json_def toy_redis_def toy_redis_manager_def redis_config_def DefaultConfig_def Let_def)
  from cm_run_step [OF cm_run_start _ this] show ?thesis by (auto simp: toy_redis_manager_def)
qed

theorem redis_no_stale_reads_witness:
  "\<exists>m r. fst (cm_get (redis_backend toy_redis toy_json) 5 ''k'' m) = Inr r \<and> (r = None \<or> r = Some ''v'')"
proof -
  obtain m where run: "cm_run (redis_backend toy_redis toy_json) sample_ord toy_redis_manager 1 m
     (spec_apply redis_config (CSet 1 ''k'' ''v'' 60 [''user'']) \<lparr>sp_value = (\<lambda>_. None), sp_table = (\<lambda>_. {})\<rparr>)"
    using toy_redis_run by blast
  have hyps: "cc_key_prefix redis_config \<noteq> ''*''" "json_survives toy_json" "(1 :: int) \<le> 5"
    "\<forall>r. Inr Map.empty = (Inr r :: toy_server result) \<longrightarrow> toy_up r \<and> (\<forall>t k. has_prefix k (cc_key_prefix redis_config) \<longrightarrow> toy_look t r k = None)"
    by (simp_all add: redis_config_def DefaultConfig_def json_survives_def toy_json_def toy_up_def toy_look_def)
  have "\<exists>r. fst (cm_get (redis_backend toy_redis toy_json) 5 ''k'' m) = Inr r"
    by (cases "toy_look 5 (rc_server (cm_store m)) (makeKey (cm_store m) (cm_key m ''k''))")
      (simp_all add: cm_get_def redis_backend_def redis_get_def toy_redis_def)
  then obtain r where r: "fst (cm_get (redis_backend toy_redis toy_json) 5 ''k'' m) = Inr r" by blast
  have "r = None \<or> r = Some ''v''"
    using redis_no_stale_reads [OF toy_redis_manager_new sample_ord toy_redis_server toy_scan_complete hyps(1,2,4) run hyps(3) r] by simp
  with r show ?thesis by blast
qed

section \<open>Where the code and its documentation differ\<close>

text \<open>What JSON does not keep is another value after a round trip: a read-through whose type is not what JSON decodes to fetches at
  every call.\<close>

lemma cached_never_hits:
  assumes "cm_enabled m" "cm_get (redis_backend rd jc) now k m = (Inr (Some v), m1)" "cast v = None" "0 < ttl"
  shows "snd (snd (fst (Cached (redis_backend rd jc) cast box now later k ttl fetch m)))"
  using assms by (auto simp: Cached_def fetch_and_store_def Let_def split: sum.splits prod.splits)

text \<open>With the pattern star as its prefix, or one that reads as a pattern, a clearing does not ask for the keys of the cache.\<close>

lemma star_prefix_clears_everything: "makeKey (NewRedisCacheFromClient r ''*'' ttl) ''*'' = ''*''"
  by (simp add: makeKey_def NewRedisCacheFromClient_def has_prefix_def)

text \<open>Keys that differ by the prefix are one key.\<close>

lemma prefixed_key_collides: "rc_prefix c = pre \<Longrightarrow> \<not> has_prefix k pre \<Longrightarrow> makeKey c k = makeKey c (pre @ k)"
  by (auto simp: makeKey_def has_prefix_iff)

end
