(* ===== verification/Migration_Files.thy ===== *)
theory Migration_Files
  imports Surql_Errors Go_Regexp
begin

text \<open>
  Package \<open>migration\<close>: the migration record of \<open>models.go\<close>, the file format of \<open>discovery.go\<close>
  (file names, section markers, statement splitting, loading, discovery) and of \<open>generator.go\<close>
  (slugs, script splitting, rendering, writing and reading back). A directory is a finite map
  from file names to contents; SHA-256 and the joining of paths are parameters.
\<close>

section \<open>Models\<close>

record migration =
  mg_version :: string
  mg_description :: string
  mg_path :: string
  mg_up :: "string list"
  mg_down :: "string list"
  mg_checksum :: string
  mg_depends_on :: "string list"

datatype diff_op =
    AddTable | DropTable | AddField | DropField | ModifyField | AddIndex | DropIndex
  | AddEvent | DropEvent | ModifyPermissions | AddBucket | DropBucket | ModifyBucket

record schema_diff =
  sd_operation :: diff_op
  sd_table :: string
  sd_field :: string
  sd_index :: string
  sd_event :: string
  sd_bucket :: string
  sd_description :: string
  sd_forward :: string
  sd_backward :: string

section \<open>File names\<close>

abbreviation (input) newline :: char where "newline \<equiv> CHR 0x0A"
abbreviation (input) carriage :: char where "carriage \<equiv> CHR 0x0D"

text \<open>\<open>^(\d{8})_(\d{6})_([A-Za-z0-9][A-Za-z0-9_-]*)\.surql$\<close>\<close>

definition slug_head :: "char \<Rightarrow> bool" where
  "slug_head c \<longleftrightarrow> word_char c \<and> c \<noteq> CHR ''_''"

definition slug_char :: "char \<Rightarrow> bool" where
  "slug_char c \<longleftrightarrow> word_char c \<or> c = CHR ''-''"

definition filenameRe :: regex where
  "filenameRe =
     Seqs [Grp 1 (Rep 8 (Sat is_digit)), Chr (CHR ''_''), Grp 2 (Rep 6 (Sat is_digit)), Chr (CHR ''_''),
       Grp 3 (Seq (Sat slug_head) (Star (Sat slug_char))), Str ''.surql'', AtEnd]"

definition ValidateMigrationName :: "string \<Rightarrow> bool" where
  "ValidateMigrationName filename \<longleftrightarrow> find_anchored filenameRe filename \<noteq> None"

definition GetVersionFromFilename :: "string \<Rightarrow> string option" where
  "GetVersionFromFilename filename =
     (case find_anchored filenameRe filename of
        None \<Rightarrow> None | Some m \<Rightarrow> Some (group m 1 @ ''_'' @ group m 2))"

definition GetDescriptionFromFilename :: "string \<Rightarrow> string option" where
  "GetDescriptionFromFilename filename =
     (case find_anchored filenameRe filename of None \<Rightarrow> None | Some m \<Rightarrow> Some (group m 3))"

section \<open>Reading a file\<close>

record parsed =
  p_description :: string
  p_depends_on :: "string list"
  p_up :: "string list"
  p_down :: "string list"

definition markerUp :: string where "markerUp = ''-- @up''"
definition markerDown :: string where "markerDown = ''-- @down''"
definition markerDescription :: string where "markerDescription = ''-- @description:''"
definition markerDependsOn :: string where "markerDependsOn = ''-- @depends_on:''"

lemmas marker_defs [go_eval] = markerUp_def markerDown_def markerDescription_def markerDependsOn_def

text \<open>The loop that locates the section markers; \<open>i\<close> is the index of the first line given.\<close>

fun scan_markers :: "nat \<Rightarrow> string list \<Rightarrow> nat option \<Rightarrow> nat option \<Rightarrow> (nat option \<times> nat option) result" where
  "scan_markers i [] up down = Inr (up, down)"
| "scan_markers i (raw # lines) up down =
     (if trim_space raw = markerUp then
        (if up \<noteq> None then Inl (err_new ErrMigrationLoad (''duplicate '' @ [CHR 0x27] @ ''-- @up'' @ [CHR 0x27] @ '' marker''))
         else scan_markers (i + 1) lines (Some i) down)
      else if trim_space raw = markerDown then
        (if down \<noteq> None then Inl (err_new ErrMigrationLoad (''duplicate '' @ [CHR 0x27] @ ''-- @down'' @ [CHR 0x27] @ '' marker''))
         else scan_markers (i + 1) lines up (Some i))
      else scan_markers (i + 1) lines up down)"

definition splitCSV :: "string \<Rightarrow> string list" where
  "splitCSV s =
     (let s = trim_space s in
      if s = [] then [] else filter (\<lambda>v. v \<noteq> []) (map trim_space (split_on (CHR '','') s)))"

text \<open>The header loop: one line of it.\<close>

definition header_line :: "string \<Rightarrow> parsed \<Rightarrow> parsed" where
  "header_line raw p =
     (let t = trim_space raw in
      if has_prefix t markerDescription then
        p\<lparr>p_description := trim_space (trim_prefix t markerDescription)\<rparr>
      else if has_prefix t markerDependsOn then
        p\<lparr>p_depends_on := splitCSV (trim_prefix t markerDependsOn)\<rparr>
      else p)"

text \<open>A line that is neither blank nor only a comment.\<close>

definition code_line :: "string \<Rightarrow> bool" where
  "code_line raw \<longleftrightarrow> trim_space raw \<noteq> [] \<and> \<not> has_prefix (trim_space raw) ''--''"

definition splitStatements :: "string list \<Rightarrow> string list" where
  "splitStatements lines =
     (let cleaned = filter code_line lines in
      if cleaned = [] then []
      else
        (let joined = str_join [newline] cleaned;
             parts = split_on (CHR '';'') joined in
         map (\<lambda>stmt. stmt @ '';'') (filter (\<lambda>stmt. stmt \<noteq> []) (map trim_space parts))))"

definition parseMigrationContent :: "string \<Rightarrow> parsed result" where
  "parseMigrationContent body =
     (let body = replace_all [carriage, newline] [newline] body;
          lines = split_on newline body in
      case scan_markers 0 lines None None of
        Inl e \<Rightarrow> Inl e
      | Inr (None, _) \<Rightarrow> Inl (err_new ErrMigrationLoad (''missing '' @ [CHR 0x27] @ ''-- @up'' @ [CHR 0x27] @ '' section marker''))
      | Inr (Some _, None) \<Rightarrow> Inl (err_new ErrMigrationLoad (''missing '' @ [CHR 0x27] @ ''-- @down'' @ [CHR 0x27] @ '' section marker''))
      | Inr (Some upIdx, Some downIdx) \<Rightarrow>
          if downIdx < upIdx then
            Inl (err_new ErrMigrationLoad ([CHR 0x27] @ ''-- @down'' @ [CHR 0x27] @ '' marker must follow '' @
              [CHR 0x27] @ ''-- @up'' @ [CHR 0x27]))
          else
            (let p = fold header_line (take upIdx lines)
                       \<lparr>p_description = [], p_depends_on = [], p_up = [], p_down = []\<rparr> in
             Inr (p\<lparr>p_up := splitStatements (take (downIdx - (upIdx + 1)) (drop (upIdx + 1) lines)),
                    p_down := splitStatements (drop (downIdx + 1) lines)\<rparr>)))"

definition humanizeDescription :: "string \<Rightarrow> string" where
  "humanizeDescription slug =
     (if slug = [] then []
      else
        (let slug = replace_all ''-'' '' '' slug;
             slug = replace_all ''_'' '' '' slug in
         str_join '' '' (str_fields slug)))"

text \<open>What \<open>os.Stat\<close> and \<open>os.ReadFile\<close> report of a path.\<close>

datatype fs_entry = FsMissing | FsStatError go_error | FsDir | FsUnreadable go_error | FsFile string

definition LoadMigration :: "(string \<Rightarrow> string) \<Rightarrow> string \<Rightarrow> string \<Rightarrow> fs_entry \<Rightarrow> migration result" where
  "LoadMigration sha path filename entry =
     (case entry of
        FsMissing \<Rightarrow> Inl (err_new ErrMigrationLoad (''migration file not found: '' @ go_quote path))
      | FsStatError e \<Rightarrow> Inl (err_wrap ErrMigrationLoad (''cannot stat migration file '' @ go_quote path) e)
      | FsDir \<Rightarrow> Inl (err_new ErrMigrationLoad (''path is not a file: '' @ go_quote path))
      | _ \<Rightarrow>
          if \<not> ValidateMigrationName filename then
            Inl (err_new ErrMigrationLoad (''invalid migration filename: '' @ go_quote filename))
          else
            (case entry of
               FsFile content \<Rightarrow>
                 (case parseMigrationContent content of
                    Inl e \<Rightarrow> Inl (err_wrap ErrMigrationLoad (''failed to parse migration '' @ go_quote path) e)
                  | Inr p \<Rightarrow>
                      (let version = (case GetVersionFromFilename filename of Some v \<Rightarrow> v | None \<Rightarrow> []);
                           description =
                             (if p_description p = []
                              then humanizeDescription (case GetDescriptionFromFilename filename of Some d \<Rightarrow> d | None \<Rightarrow> [])
                              else p_description p) in
                       Inr \<lparr>mg_version = version, mg_description = description, mg_path = path,
                            mg_up = p_up p, mg_down = p_down p, mg_checksum = sha content,
                            mg_depends_on = p_depends_on p\<rparr>))
             | FsUnreadable e \<Rightarrow> Inl (err_wrap ErrMigrationLoad (''cannot read migration file '' @ go_quote path) e)
             | _ \<Rightarrow> Inl (err_new ErrMigrationLoad (''path is not a file: '' @ go_quote path))))"

section \<open>Discovery\<close>

datatype dir_state = DirMissing | DirStatError go_error | NotADir | DirUnreadable go_error
  | DirEntries "(string \<times> fs_entry) list"

fun load_entries ::
  "(string \<Rightarrow> string) \<Rightarrow> (string \<Rightarrow> string) \<Rightarrow> (string \<times> fs_entry) list \<Rightarrow> migration list \<Rightarrow> migration list result" where
  "load_entries sha join [] acc = Inr acc"
| "load_entries sha join ((name, entry) # rest) acc =
     (if entry = FsDir then load_entries sha join rest acc
      else if \<not> ValidateMigrationName name then load_entries sha join rest acc
      else
        (case LoadMigration sha (join name) name entry of
           Inl e \<Rightarrow> Inl (err_wrap ErrMigrationDiscovery (''failed to load migration '' @ go_quote (join name)) e)
         | Inr m \<Rightarrow> load_entries sha join rest (acc @ [m])))"

text \<open>\<open>join name\<close> is \<open>filepath.Join(directory, name)\<close>; \<open>sort_key\<close> is a stable sort.\<close>

definition DiscoverMigrations ::
  "(string \<Rightarrow> string) \<Rightarrow> (string \<Rightarrow> string) \<Rightarrow> string \<Rightarrow> dir_state \<Rightarrow> migration list result" where
  "DiscoverMigrations sha join directory st =
     (case st of
        DirMissing \<Rightarrow> Inr []
      | DirStatError e \<Rightarrow> Inl (err_wrap ErrMigrationDiscovery (''cannot stat migration directory '' @ go_quote directory) e)
      | NotADir \<Rightarrow> Inl (err_new ErrMigrationDiscovery (''path is not a directory: '' @ go_quote directory))
      | DirUnreadable e \<Rightarrow> Inl (err_wrap ErrMigrationDiscovery (''cannot read migration directory '' @ go_quote directory) e)
      | DirEntries entries \<Rightarrow>
          (case load_entries sha join entries [] of
             Inl e \<Rightarrow> Inl e
           | Inr ms \<Rightarrow> Inr (sort_key mg_version ms)))"

section \<open>Writing a file\<close>

text \<open>\<open>_+\<close> replaced by one underscore.\<close>

fun collapse_underscores :: "string \<Rightarrow> string" where
  "collapse_underscores [] = []"
| "collapse_underscores (c # cs) =
     (if c = CHR ''_'' \<and> cs \<noteq> [] \<and> hd cs = CHR ''_'' then collapse_underscores cs
      else c # collapse_underscores cs)"

text \<open>The complement of \<open>[^a-z0-9_]\<close>.\<close>

definition slug_keep :: "char \<Rightarrow> bool" where
  "slug_keep c \<longleftrightarrow> is_digit c \<or> c = CHR ''_''
     \<or> (97 \<le> (of_char c :: nat) \<and> (of_char c :: nat) \<le> 122)"

definition sanitizeSlug :: "string \<Rightarrow> string" where
  "sanitizeSlug s =
     (let out1 = to_lower (trim_space s);
          out2 = replace_all ''-'' ''_'' out1;
          out3 = replace_all '' '' ''_'' out2;
          out4 = filter slug_keep out3;
          out5 = collapse_underscores out4 in
      trim_char (CHR ''_'') out5)"

definition BuildFilename :: "string \<Rightarrow> string \<Rightarrow> string" where
  "BuildFilename version description =
     (let slug = sanitizeSlug description;
          slug = (if slug = [] then ''migration'' else slug) in
      version @ ''_'' @ slug @ ''.surql'')"

definition splitScriptStatements :: "string \<Rightarrow> string list" where
  "splitScriptStatements script =
     (if trim_space script = [] then []
      else
        (let script = replace_all [carriage, newline] [newline] script;
             lines = split_on newline script;
             cleaned = map trim_space (filter code_line lines) in
         if cleaned = [] then []
         else
           (let joined = str_join '' '' cleaned;
                parts = split_on (CHR '';'') joined in
            map (\<lambda>stmt. stmt @ '';'') (filter (\<lambda>stmt. stmt \<noteq> []) (map trim_space parts)))))"

definition render_statement :: "string \<Rightarrow> string" where
  "render_statement stmt = (if has_suffix stmt [newline] then stmt else stmt @ [newline])"

definition renderMigrationContent :: "string \<Rightarrow> string list \<Rightarrow> string list \<Rightarrow> string list \<Rightarrow> string" where
  "renderMigrationContent description dependsOn up down =
     (if description \<noteq> [] then ''-- @description: '' @ description @ [newline] else [])
     @ (if dependsOn \<noteq> [] then ''-- @depends_on: '' @ str_join '', '' dependsOn @ [newline] else [])
     @ ''-- @up'' @ [newline] @ concat (map render_statement up)
     @ ''-- @down'' @ [newline] @ concat (map render_statement down)"

text \<open>A migration directory: its files. \<open>mkdir\<close> and \<open>write\<close> are the outcomes of \<open>MkdirAll\<close> and of
  the atomic write, which replaces the file as a whole or leaves it alone.\<close>

type_synonym mig_dir = "(string, string) fmap"

record mig_io =
  io_sha :: "string \<Rightarrow> string"
  io_join :: "string \<Rightarrow> string"
  io_mkdir :: "go_error option"
  io_write :: "go_error option"

definition writeMigrationFile ::
  "mig_io \<Rightarrow> string \<Rightarrow> string \<Rightarrow> string \<Rightarrow> string list \<Rightarrow> string list \<Rightarrow> string list \<Rightarrow> string \<Rightarrow> mig_dir
     \<Rightarrow> migration result \<times> mig_dir" where
  "writeMigrationFile io version slugSource description dependsOn up down dir fs =
     (if trim_space dir = [] then
        (Inl (err_new ErrMigrationGeneration ''migration directory must not be empty''), fs)
      else
        (case io_mkdir io of
           Some e \<Rightarrow> (Inl (err_wrap ErrMigrationGeneration (''cannot create migration directory '' @ go_quote dir) e), fs)
         | None \<Rightarrow>
             (let filename = BuildFilename version slugSource in
              if \<not> ValidateMigrationName filename then
                (Inl (err_new ErrMigrationGeneration
                   (''generated filename '' @ go_quote filename @ '' is not a valid migration name'')), fs)
              else
                (let finalPath = io_join io filename;
                     content = renderMigrationContent description dependsOn up down in
                 case io_write io of
                   Some e \<Rightarrow> (Inl (err_wrap ErrMigrationGeneration (''failed to write migration '' @ go_quote finalPath) e), fs)
                 | None \<Rightarrow>
                     (let fs1 = fmupd filename content fs in
                      case LoadMigration (io_sha io) finalPath filename (FsFile content) of
                        Inl e \<Rightarrow> (Inl (err_wrap ErrMigrationGeneration
                            (''generator produced invalid migration file '' @ go_quote finalPath) e), fmdrop filename fs1)
                      | Inr m \<Rightarrow> (Inr m, fs1))))))"

definition GenerateMigration ::
  "mig_io \<Rightarrow> string \<Rightarrow> string \<Rightarrow> string list \<Rightarrow> string list \<Rightarrow> string \<Rightarrow> mig_dir \<Rightarrow> migration result \<times> mig_dir" where
  "GenerateMigration io version name up down dir fs =
     (if trim_space name = [] then
        (Inl (err_new ErrMigrationGeneration ''migration name must not be empty''), fs)
      else if up = [] \<and> down = [] then
        (Inl (err_new ErrMigrationGeneration ''migration must define at least one up or down statement''), fs)
      else writeMigrationFile io version name name [] up down dir fs)"

definition CreateBlankMigration ::
  "mig_io \<Rightarrow> string \<Rightarrow> string \<Rightarrow> string \<Rightarrow> string \<Rightarrow> mig_dir \<Rightarrow> migration result \<times> mig_dir" where
  "CreateBlankMigration io version name description dir fs =
     (if trim_space name = [] then
        (Inl (err_new ErrMigrationGeneration ''migration name must not be empty''), fs)
      else
        (let effectiveDescription = (if trim_space description = [] then name else description) in
         writeMigrationFile io version name effectiveDescription [] [] [] dir fs))"

definition GenerateMigrationFromDiffs ::
  "mig_io \<Rightarrow> string \<Rightarrow> string \<Rightarrow> schema_diff list \<Rightarrow> string \<Rightarrow> mig_dir \<Rightarrow> migration result \<times> mig_dir" where
  "GenerateMigrationFromDiffs io version name diffs dir fs =
     (if trim_space name = [] then
        (Inl (err_new ErrMigrationGeneration ''migration name must not be empty''), fs)
      else if diffs = [] then
        (Inl (err_new ErrMigrationGeneration ''at least one diff is required''), fs)
      else
        (let up = concat (map (\<lambda>d. if sd_forward d = [] then [] else splitScriptStatements (sd_forward d)) diffs);
             down = concat (map (\<lambda>d. if sd_backward d = [] then [] else splitScriptStatements (sd_backward d)) (rev diffs)) in
         if up = [] \<and> down = [] then
           (Inl (err_new ErrMigrationGeneration ''diffs produced no SQL statements''), fs)
         else writeMigrationFile io version name name [] up down dir fs))"

text \<open>The initial migration; the registry enters through its counts and the script rendered from it.\<close>

definition GenerateInitialMigration ::
  "mig_io \<Rightarrow> string \<Rightarrow> (nat \<times> nat \<times> string result) option \<Rightarrow> string \<Rightarrow> mig_dir \<Rightarrow> migration result \<times> mig_dir" where
  "GenerateInitialMigration io version registry dir fs =
     (case registry of
        None \<Rightarrow> (Inl (err_new ErrMigrationGeneration ''registry must not be nil''), fs)
      | Some (tables, edges, sql) \<Rightarrow>
          if tables = 0 \<and> edges = 0 then
            (Inl (err_new ErrMigrationGeneration ''registry contains no tables or edges''), fs)
          else
            (case sql of
               Inl e \<Rightarrow> (Inl (err_wrap ErrMigrationGeneration ''failed to render initial schema SQL'' e), fs)
             | Inr script \<Rightarrow>
                 (let up = splitScriptStatements script in
                  if up = [] then
                    (Inl (err_new ErrMigrationGeneration ''registry produced no DEFINE statements''), fs)
                  else writeMigrationFile io version ''Initial schema'' ''Initial schema'' [] up [] dir fs)))"

end
