(* ===== verification/Migration_Files_Correct.thy ===== *)
theory Migration_Files_Correct
  imports Migration_Files "HOL-Library.Multiset"
begin

text \<open>
  Correctness of the migration file format: every generated file name is valid and gives its
  version back, rendering and parsing are inverse on well-formed statements, the statements cut
  from a script are well-formed, and hence what the generator writes is what discovery loads.
\<close>

section \<open>File names\<close>

definition timestamp :: "string \<Rightarrow> bool" where
  "timestamp v \<longleftrightarrow> (\<exists>d t. v = d @ ''_'' @ t \<and> length d = 8 \<and> length t = 6 \<and> list_all is_digit d \<and> list_all is_digit t)"

lemma dot_not_slug: "\<not> slug_char CHR ''.''" "\<not> slug_head CHR ''.''"
  by (simp_all add: slug_char_def slug_head_def word_char_def is_digit_def)

lemma find_filename:
  assumes "length d = 8" "length t = 6" "list_all is_digit d" "list_all is_digit t"
    and "slug_head c" "list_all slug_char cs"
  shows "find_anchored filenameRe (d @ ''_'' @ t @ ''_'' @ c # cs @ ''.surql'')
    = Some [(0, d @ ''_'' @ t @ ''_'' @ c # cs @ ''.surql''), (1, d), (2, t), (3, c # cs)]"
proof -
  let ?r = "Seq (Str ''.surql'') AtEnd" and ?w = "cs @ ''.surql''"
  have run: "takeWhile slug_char ?w = cs" "dropWhile slug_char ?w = ''.surql''"
    using assms(6) dot_not_slug(1) by (simp_all add: takeWhile_append_stop dropWhile_append_stop list_all_iff)
  have stop: "matches ?r q (drop k ?w) = []" if k: "k < length (takeWhile slug_char ?w)" for k q
  proof -
    have "slug_char (cs ! k)" using k run assms(6) by (simp add: list_all_length)
    moreover have "drop k ?w = cs ! k # drop (Suc k) ?w"
      using k run by (subst Cons_nth_drop_Suc [symmetric]) (simp_all add: nth_append)
    ultimately have "drop k ?w \<noteq> ''.surql''" using dot_not_slug(1) by (metis list.inject)
    then show ?thesis by (simp only: matches_Str_end if_False)
  qed
  have slug: "matches (Seq (Grp 3 (Seq (Sat slug_head) (Star (Sat slug_char)))) ?r) q (c # ?w) = [([(3, c # cs)], [])]" for q
    using matches_Grp_run [where Q = slug_char and cs = ?w and r = ?r, OF stop] assms(5) run
    by (simp add: matches_Str_end del: Str.simps)
  have "matches filenameRe None (d @ ''_'' @ t @ ''_'' @ c # cs @ ''.surql'')
      = [([(1, d), (2, t), (3, c # cs)], [])]"
    using assms(1-4) slug unfolding filenameRe_def Seqs.simps
    by (simp add: matches_Grp_Rep del: Rep.simps Str.simps)
  then show ?thesis by (simp add: find_anchored_def match_here_def hd_opt_def)
qed

lemma collapse_underscores_set: "set (collapse_underscores s) \<subseteq> set s"
  by (induction s rule: collapse_underscores.induct) auto

lemma set_trim_char: "set (trim_char c s) \<subseteq> set s"
  by (auto simp: trim_char_def dest!: set_dropWhileD)

lemma rev_drop_take: "xs = rev (dropWhile P (rev xs)) @ rev (takeWhile P (rev xs))"
  using arg_cong [OF takeWhile_dropWhile_id [of P "rev xs"], of rev] by (simp only: rev_append rev_rev_ident)

lemma hd_trim_char: "trim_char c s \<noteq> [] \<Longrightarrow> hd (trim_char c s) \<noteq> c"
proof -
  let ?t = "dropWhile (\<lambda>x. x = c) s"
  assume ne: "trim_char c s \<noteq> []"
  have "?t = trim_char c s @ rev (takeWhile (\<lambda>x. x = c) (rev ?t))"
    unfolding trim_char_def by (rule rev_drop_take)
  then obtain u where u: "?t = trim_char c s @ u" by blast
  have "hd ?t = hd (trim_char c s)" by (subst u) (simp add: ne)
  moreover have "?t \<noteq> []" by (subst u) (simp add: ne)
  ultimately show ?thesis using hd_dropWhile [of "\<lambda>x. x = c" s] by simp
qed

lemma slug_keep_char: "slug_keep c \<Longrightarrow> slug_char c"
  by (auto simp: slug_keep_def slug_char_def word_char_def)

lemma slug_keep_head: "slug_keep c \<Longrightarrow> c \<noteq> CHR ''_'' \<Longrightarrow> slug_head c"
  by (auto simp: slug_keep_def slug_head_def word_char_def)

lemma sanitizeSlug_shape:
  "sanitizeSlug s \<noteq> [] \<Longrightarrow> list_all slug_char (sanitizeSlug s) \<and> slug_head (hd (sanitizeSlug s))"
proof -
  assume ne: "sanitizeSlug s \<noteq> []"
  have "set (sanitizeSlug s) \<subseteq> {c. slug_keep c}"
    using set_trim_char collapse_underscores_set by (fastforce simp: sanitizeSlug_def Let_def)
  moreover have "hd (sanitizeSlug s) \<noteq> CHR ''_''"
    using ne hd_trim_char by (simp add: sanitizeSlug_def Let_def)
  moreover have "hd (sanitizeSlug s) \<in> set (sanitizeSlug s)" using ne by simp
  ultimately show ?thesis
    using slug_keep_head by (auto simp: list_all_iff intro: slug_keep_char)
qed

lemma slug_head_char: "slug_head c \<Longrightarrow> slug_char c"
  by (simp add: slug_head_def slug_char_def)

lemma BuildFilename_name:
  assumes "timestamp v"
  shows "ValidateMigrationName (BuildFilename v description)
    \<and> GetVersionFromFilename (BuildFilename v description) = Some v
    \<and> GetDescriptionFromFilename (BuildFilename v description)
        = Some (if sanitizeSlug description = [] then ''migration'' else sanitizeSlug description)"
proof -
  let ?slug = "if sanitizeSlug description = [] then ''migration'' else sanitizeSlug description"
  obtain d t where v: "v = d @ ''_'' @ t" and dt: "length d = 8" "length t = 6" "list_all is_digit d" "list_all is_digit t"
    using assms by (auto simp: timestamp_def)
  have "list_all slug_char ?slug \<and> slug_head (hd ?slug) \<and> ?slug \<noteq> []"
    using sanitizeSlug_shape [of description]
    by (auto simp: slug_char_def slug_head_def word_char_def is_digit_def)
  then obtain c cs where s: "?slug = c # cs" "slug_head c" "list_all slug_char cs"
    by (cases ?slug) simp_all
  have "BuildFilename v description = d @ ''_'' @ t @ ''_'' @ c # cs @ ''.surql''"
    using s(1) by (simp add: BuildFilename_def Let_def v)
  then show ?thesis
    using find_filename [OF dt s(2,3)] s(1) v
    by (simp add: ValidateMigrationName_def GetVersionFromFilename_def GetDescriptionFromFilename_def group_def)
qed

text \<open>
  For a well-formed version timestamp and any description whatsoever,
  \<open>BuildFilename\<close> yields a name that \<open>ValidateMigrationName\<close> accepts, from which the same version
  is read back, and whose description part is the sanitized slug (or \<open>migration\<close> when nothing of
  the description survives).
\<close>

theorem BuildFilename_valid:
  assumes "timestamp v"
  shows "ValidateMigrationName (BuildFilename v description)
    \<and> GetVersionFromFilename (BuildFilename v description) = Some v
    \<and> GetDescriptionFromFilename (BuildFilename v description)
        = Some (if sanitizeSlug description = [] then ''migration'' else sanitizeSlug description)"
  by (rule BuildFilename_name [OF assms])

theorem BuildFilename_valid_witness:
  "ValidateMigrationName (BuildFilename ''20260102_120000'' ''!!'')
   \<and> GetVersionFromFilename (BuildFilename ''20260102_120000'' ''Add users'') = Some ''20260102_120000''"
proof -
  have "timestamp ''20260102_120000''"
    unfolding timestamp_def
    by (rule exI [of _ "''20260102''"], rule exI [of _ "''120000''"]) (simp add: is_digit_def)
  from BuildFilename_valid [OF this] show ?thesis by blast
qed

section \<open>Rendering and parsing\<close>

text \<open>
  A well-formed statement: a non-blank body without \<open>;\<close> or carriage return, closed by one \<open>;\<close>,
  none of whose lines is blank or starts as a comment.
\<close>

definition good_statement :: "string \<Rightarrow> bool" where
  "good_statement s \<longleftrightarrow> (\<exists>b. s = b @ '';'' \<and> b \<noteq> [] \<and> trimmed b \<and> CHR '';'' \<notin> set b \<and> carriage \<notin> set b)
     \<and> list_all code_line (split_on newline s)"

lemma scan_skip:
  "\<forall>l \<in> set ls. trim_space l \<noteq> markerUp \<and> trim_space l \<noteq> markerDown \<Longrightarrow>
     scan_markers i (ls @ rest) up down = scan_markers (i + length ls) rest up down"
  by (induction ls arbitrary: i) auto

lemma code_line_no_marker: "code_line l \<Longrightarrow> trim_space l \<noteq> markerUp \<and> trim_space l \<noteq> markerDown"
  by (auto simp: code_line_def marker_defs)

lemma split_parts:
  assumes "\<forall>b \<in> set bs. b \<noteq> [] \<and> trimmed b \<and> CHR '';'' \<notin> set b" and "w = [] \<or> w = [newline]"
  shows "filter (\<lambda>s. s \<noteq> []) (map trim_space (split_on (CHR '';'') (w @ str_join [newline] (map (\<lambda>b. b @ '';'') bs)))) = bs"
  using assms
proof (induction bs arbitrary: w)
  case Nil
  then show ?case by (auto simp: split_on_def trim_space_def trim_left_def trim_right_def is_space_def)
next
  case (Cons b bs)
  have w: "CHR '';'' \<notin> set (w @ b)" using Cons.prems by auto
  have tr: "trim_space (w @ b) = b" using Cons.prems by (auto simp: trim_space_ws_left is_space_def)
  let ?rest = "if bs = [] then [] else [newline] @ str_join [newline] (map (\<lambda>b. b @ '';'') bs)"
  have "w @ str_join [newline] (map (\<lambda>b. b @ '';'') (b # bs)) = (w @ b) @ CHR '';'' # ?rest"
    by (simp add: str_join_Cons)
  then have "split_on (CHR '';'') (w @ str_join [newline] (map (\<lambda>b. b @ '';'') (b # bs)))
      = (w @ b) # split_on (CHR '';'') ?rest"
    by (simp only: split_on_append [OF w])
  moreover have "filter (\<lambda>s. s \<noteq> []) (map trim_space (split_on (CHR '';'') ?rest)) = bs"
  proof (cases "bs = []")
    case True
    then show ?thesis by (simp add: split_on_def trim_space_def trim_left_def trim_right_def)
  next
    case False
    then show ?thesis using Cons.IH [of "[newline]"] Cons.prems(1) by simp
  qed
  ultimately show ?case using tr Cons.prems(1) by simp
qed

lemma splitStatements_good:
  assumes "list_all good_statement ss"
  shows "splitStatements (concat (map (split_on newline) ss)) = ss"
proof (cases "ss = []")
  case True
  then show ?thesis by (simp add: splitStatements_def)
next
  case False
  have code: "filter code_line (concat (map (split_on newline) ss)) = concat (map (split_on newline) ss)"
    using assms by (intro filter_True) (auto simp: good_statement_def list_all_iff)
  have "\<forall>s \<in> set ss. \<exists>b. s = b @ '';'' \<and> b \<noteq> [] \<and> trimmed b \<and> CHR '';'' \<notin> set b"
    using assms by (auto simp: good_statement_def list_all_iff)
  then obtain f where f: "\<forall>s \<in> set ss. s = f s @ '';'' \<and> f s \<noteq> [] \<and> trimmed (f s) \<and> CHR '';'' \<notin> set (f s)"
    by metis
  let ?bs = "map f ss"
  have ss: "ss = map (\<lambda>b. b @ '';'') ?bs" using f by (simp add: map_idI)
  have parts: "filter (\<lambda>s. s \<noteq> []) (map trim_space (split_on (CHR '';'') (str_join [newline] ss))) = ?bs"
    using split_parts [of ?bs "[]"] f ss by simp
  have ne: "concat (map (split_on newline) ss) \<noteq> []" using False by (cases ss) simp_all
  show ?thesis
    unfolding splitStatements_def Let_def code join_concat_split parts using ne ss by simp
qed

lemma good_no_trailing_newline: "good_statement s \<Longrightarrow> render_statement s = s @ [newline]"
  by (auto simp: good_statement_def render_statement_def has_suffix_def)

lemma split_rendered:
  "list_all good_statement ss \<Longrightarrow>
     split_on newline (concat (map render_statement ss) @ rest)
       = concat (map (split_on newline) ss) @ split_on newline rest"
  by (induction ss) (simp_all add: good_no_trailing_newline split_on_append_sep)

definition header_text :: "string \<Rightarrow> bool" where
  "header_text d \<longleftrightarrow> trimmed d \<and> newline \<notin> set d \<and> carriage \<notin> set d"

definition good_dependency :: "string \<Rightarrow> bool" where
  "good_dependency v \<longleftrightarrow> v \<noteq> [] \<and> trimmed v \<and> CHR '','' \<notin> set v \<and> newline \<notin> set v \<and> carriage \<notin> set v"

definition header_lines :: "string \<Rightarrow> string list \<Rightarrow> string list" where
  "header_lines d deps =
     (if d \<noteq> [] then [''-- @description: '' @ d] else [])
     @ (if deps \<noteq> [] then [''-- @depends_on: '' @ str_join '', '' deps] else [])"

lemma trimmed_prefixed: "trimmed d \<Longrightarrow> d \<noteq> [] \<Longrightarrow> p \<noteq> [] \<Longrightarrow> \<not> is_space (hd p) \<Longrightarrow> trimmed (p @ d)"
  by (auto simp: trimmed_def)

lemma split_deps:
  assumes "list_all good_dependency deps" and "w = [] \<or> w = '' ''"
  shows "filter (\<lambda>v. v \<noteq> []) (map trim_space (split_on (CHR '','') (w @ str_join '', '' deps))) = deps"
  using assms
proof (induction deps arbitrary: w)
  case Nil
  then show ?case by (auto simp: split_on_def trim_space_def trim_left_def trim_right_def is_space_def)
next
  case (Cons v deps)
  have w: "CHR '','' \<notin> set (w @ v)" using Cons.prems by (auto simp: good_dependency_def)
  have tr: "trim_space (w @ v) = v" "v \<noteq> []"
    using Cons.prems by (auto simp: trim_space_ws_left is_space_def good_dependency_def)
  show ?case
  proof (cases deps)
    case Nil
    then show ?thesis using w tr by (simp add: split_on_none)
  next
    case c: (Cons u us)
    then have "w @ str_join '', '' (v # deps) = (w @ v) @ CHR '','' # '' '' @ str_join '', '' deps" by simp
    then have "split_on (CHR '','') (w @ str_join '', '' (v # deps))
        = (w @ v) # split_on (CHR '','') ('' '' @ str_join '', '' deps)"
      by (simp only: split_on_append [OF w])
    then show ?thesis using Cons.IH [of "'' ''"] Cons.prems(1) tr by simp
  qed
qed

lemma last_str_join:
  "xs \<noteq> [] \<Longrightarrow> last xs \<noteq> [] \<Longrightarrow> str_join sep xs \<noteq> [] \<and> last (str_join sep xs) = last (last xs)"
  by (induction xs) (auto simp: str_join_Cons)

lemma str_join_ne: "xs \<noteq> [] \<Longrightarrow> hd xs \<noteq> [] \<Longrightarrow> str_join sep xs \<noteq> [] \<and> hd (str_join sep xs) = hd (hd xs)"
  by (induction xs rule: induct_list012) auto

lemma trimmed_join_deps:
  assumes "list_all good_dependency deps" and "deps \<noteq> []"
  shows "trimmed (str_join '', '' deps) \<and> str_join '', '' deps \<noteq> []"
proof -
  have "good_dependency (hd deps)" "good_dependency (last deps)"
    using assms by (auto simp: list_all_iff)
  then show ?thesis
    using str_join_ne [OF assms(2), of "'', ''"] last_str_join [OF assms(2), of "'', ''"]
    by (auto simp: good_dependency_def trimmed_def)
qed

lemma header_fold:
  assumes "header_text d" and "list_all good_dependency deps"
  shows "fold header_line (header_lines d deps) \<lparr>p_description = [], p_depends_on = [], p_up = [], p_down = []\<rparr>
    = \<lparr>p_description = d, p_depends_on = deps, p_up = [], p_down = []\<rparr>"
proof -
  have d: "trim_space (''-- @description: '' @ d) = ''-- @description: '' @ d \<and> trim_space (CHR '' '' # d) = d" if "d \<noteq> []"
    using that assms(1) trimmed_prefixed [of d "''-- @description: ''"]
    by (simp add: header_text_def trim_space_ws_left is_space_def)
  have j: "trim_space (''-- @depends_on: '' @ str_join '', '' deps) = ''-- @depends_on: '' @ str_join '', '' deps
      \<and> splitCSV (CHR '' '' # str_join '', '' deps) = deps" if "deps \<noteq> []"
    using trimmed_join_deps [OF assms(2) that] trimmed_prefixed [of "str_join '', '' deps" "''-- @depends_on: ''"]
      split_deps [OF assms(2), of "[]"]
    by (simp add: splitCSV_def trim_space_ws_left is_space_def)
  show ?thesis
    using d j by (auto simp: header_lines_def header_line_def marker_defs trim_prefix_def Let_def)
qed

lemma header_line_shape:
  assumes "l \<in> set (header_lines d deps)" and "header_text d" and "list_all good_dependency deps"
  shows "newline \<notin> set l \<and> trim_space l \<noteq> markerUp \<and> trim_space l \<noteq> markerDown"
proof -
  have deps: "newline \<notin> set (str_join '', '' deps)"
    using assms(3) set_str_join [of "'', ''" deps] by (auto simp: list_all_iff good_dependency_def)
  consider (desc) "l = ''-- @description: '' @ d" "d \<noteq> []" | (dep) "l = ''-- @depends_on: '' @ str_join '', '' deps" "deps \<noteq> []"
    using assms(1) by (auto simp: header_lines_def split: if_splits)
  then show ?thesis
  proof cases
    case desc
    then show ?thesis
      using assms(2) trimmed_prefixed [of d "''-- @description: ''"]
      by (simp add: header_text_def is_space_def marker_defs)
  next
    case dep
    then show ?thesis
      using deps trimmed_join_deps [OF assms(3)] trimmed_prefixed [of "str_join '', '' deps" "''-- @depends_on: ''"]
      by (simp add: is_space_def marker_defs)
  qed
qed

lemma split_header:
  assumes "header_text d" and "list_all good_dependency deps"
  shows "split_on newline ((if d \<noteq> [] then ''-- @description: '' @ d @ [newline] else [])
      @ (if deps \<noteq> [] then ''-- @depends_on: '' @ str_join '', '' deps @ [newline] else []) @ rest)
    = header_lines d deps @ split_on newline rest"
proof -
  have "newline \<notin> set (str_join '', '' deps)"
    using assms(2) set_str_join [of "'', ''" deps] by (auto simp: list_all_iff good_dependency_def)
  then have n: "newline \<notin> set (''-- @description: '' @ d)"
    "newline \<notin> set (''-- @depends_on: '' @ str_join '', '' deps)"
    using assms(1) by (simp_all add: header_text_def)
  have "split_on newline (''-- @description: '' @ d @ [newline] @ r) = (''-- @description: '' @ d) # split_on newline r"
    if "d \<noteq> []" for r
    using split_on_append [OF n(1), of r] by simp
  moreover have "split_on newline (''-- @depends_on: '' @ str_join '', '' deps @ [newline] @ r)
      = (''-- @depends_on: '' @ str_join '', '' deps) # split_on newline r" if "deps \<noteq> []" for r
    using split_on_append [OF n(2), of r] by simp
  ultimately show ?thesis by (simp add: header_lines_def)
qed

lemma good_statement_no_carriage: "good_statement s \<Longrightarrow> carriage \<notin> set s"
  by (auto simp: good_statement_def)

lemma good_statement_lines: "good_statement s \<Longrightarrow> l \<in> set (split_on newline s) \<Longrightarrow> code_line l"
  by (auto simp: good_statement_def list_all_iff)

lemma rendered_lines:
  assumes "header_text d" and "list_all good_dependency deps" and "list_all good_statement up" and "list_all good_statement down"
  shows "split_on newline (renderMigrationContent d deps up down)
    = header_lines d deps @ [markerUp] @ concat (map (split_on newline) up)
      @ [markerDown] @ concat (map (split_on newline) down) @ [[]]"
proof -
  have m: "split_on newline (markerUp @ [newline] @ r) = markerUp # split_on newline r"
    "split_on newline (markerDown @ [newline] @ r) = markerDown # split_on newline r" for r
    using split_on_append [of newline markerUp r] split_on_append [of newline markerDown r]
    by (simp_all add: marker_defs)
  have e: "split_on newline [] = [[]]" by (simp add: split_on_def)
  have "split_on newline (concat (map render_statement down)) = concat (map (split_on newline) down) @ [[]]"
    using split_rendered [OF assms(4), of "[]"] e by simp
  then show ?thesis
    unfolding renderMigrationContent_def
    using split_header [OF assms(1,2)] split_rendered [OF assms(3)] m
    by (simp add: markerUp_def [symmetric] markerDown_def [symmetric] del: append_Cons)
qed

lemma rendered_no_carriage:
  assumes "header_text d" and "list_all good_dependency deps" and "list_all good_statement up" and "list_all good_statement down"
  shows "carriage \<notin> set (renderMigrationContent d deps up down)"
proof -
  have st: "carriage \<notin> set (concat (map render_statement ss))" if "list_all good_statement ss" for ss
    using that good_statement_no_carriage by (auto simp: list_all_iff render_statement_def split: if_splits)
  have "carriage \<notin> set (str_join '', '' deps)"
    using assms(2) set_str_join [of "'', ''" deps] by (auto simp: list_all_iff good_dependency_def)
  then show ?thesis
    using assms(1) st [OF assms(3)] st [OF assms(4)] by (simp add: renderMigrationContent_def header_text_def)
qed

text \<open>Any body whose lines are some header lines, the up section and the down section.\<close>

lemma parse_sections:
  assumes "carriage \<notin> set body" and "list_all good_statement up" and "list_all good_statement down"
    and hs: "\<forall>l \<in> set hs. trim_space l \<noteq> markerUp \<and> trim_space l \<noteq> markerDown"
    and lines: "split_on newline body = hs @ [markerUp] @ concat (map (split_on newline) up)
      @ [markerDown] @ concat (map (split_on newline) down) @ [[]]"
  shows "parseMigrationContent body
    = Inr ((fold header_line hs \<lparr>p_description = [], p_depends_on = [], p_up = [], p_down = []\<rparr>)\<lparr>p_up := up, p_down := down\<rparr>)"
proof -
  let ?u = "concat (map (split_on newline) up)" and ?w = "concat (map (split_on newline) down)"
  let ?lines = "hs @ [markerUp] @ ?u @ [markerDown] @ ?w @ [[]]"
  have tm: "trim_space markerUp = markerUp" "trim_space markerDown = markerDown" "markerUp \<noteq> markerDown" "trim_space [] = []"
    by (simp_all add: marker_defs trimmed_def is_space_def)
  have skip: "\<forall>l \<in> set ?u. trim_space l \<noteq> markerUp \<and> trim_space l \<noteq> markerDown"
    "\<forall>l \<in> set (?w @ [[]]). trim_space l \<noteq> markerUp \<and> trim_space l \<noteq> markerDown"
    using assms(2,3) tm(4)
    by (auto simp: list_all_iff marker_defs dest!: good_statement_lines code_line_no_marker [unfolded marker_defs])
  have scan: "scan_markers 0 ?lines None None = Inr (Some (length hs), Some (length hs + 1 + length ?u))"
    using hs skip(1) scan_skip [OF skip(2), of _ "[]"] tm by (simp add: scan_skip)
  have "replace_all [carriage, newline] [newline] body = body" using assms(1) by simp
  moreover have "splitStatements (?w @ [[]]) = down"
    using splitStatements_good [OF assms(3)] tm(4) by (simp add: splitStatements_def code_line_def)
  ultimately show ?thesis
    using scan splitStatements_good [OF assms(2)]
    by (simp add: parseMigrationContent_def Let_def lines)
qed

lemma rendered_parses:
  assumes "header_text d" and "list_all good_dependency deps"
    and "list_all good_statement up" and "list_all good_statement down"
  shows "parseMigrationContent (renderMigrationContent d deps up down)
    = Inr \<lparr>p_description = d, p_depends_on = deps, p_up = up, p_down = down\<rparr>"
proof -
  have "\<forall>l \<in> set (header_lines d deps). trim_space l \<noteq> markerUp \<and> trim_space l \<noteq> markerDown"
    using header_line_shape [OF _ assms(1,2)] by blast
  from parse_sections [OF rendered_no_carriage [OF assms] assms(3,4) this rendered_lines [OF assms]]
  show ?thesis by (simp add: header_fold [OF assms(1,2)])
qed

text \<open>
  Parsing inverts rendering: for a one-line description, dependencies without
  commas and well-formed statements (multi-line ones included), \<open>parseMigrationContent\<close> of what
  \<open>renderMigrationContent\<close> writes returns exactly the description, the dependencies and both
  statement lists, empty lists included.
\<close>

theorem parse_render:
  assumes "header_text d" and "list_all good_dependency deps"
    and "list_all good_statement up" and "list_all good_statement down"
  shows "parseMigrationContent (renderMigrationContent d deps up down)
    = Inr \<lparr>p_description = d, p_depends_on = deps, p_up = up, p_down = down\<rparr>"
  by (rule rendered_parses [OF assms])

theorem parse_render_witness:
  "parseMigrationContent (renderMigrationContent ''add users'' [''20250101_000000'']
      [''DEFINE TABLE user'' @ [newline] @ ''  SCHEMAFULL;'', ''DEFINE FIELD a ON user;''] [''REMOVE TABLE user;''])
   = Inr \<lparr>p_description = ''add users'', p_depends_on = [''20250101_000000''],
      p_up = [''DEFINE TABLE user'' @ [newline] @ ''  SCHEMAFULL;'', ''DEFINE FIELD a ON user;''],
      p_down = [''REMOVE TABLE user;'']\<rparr>"
proof -
  have one: "good_statement (b @ '';'')" if "b \<noteq> []" "trimmed b" "CHR '';'' \<notin> set b" "carriage \<notin> set b"
    "list_all code_line (split_on newline (b @ '';''))" for b
    using that by (auto simp: good_statement_def)
  have "good_statement (''DEFINE TABLE user'' @ [newline] @ ''  SCHEMAFULL;'')"
    using one [of "''DEFINE TABLE user'' @ [newline] @ ''  SCHEMAFULL''"]
    by (simp add: trimmed_def is_space_def split_on_def code_line_def trim_space_def trim_left_def trim_right_def)
  moreover have "good_statement ''DEFINE FIELD a ON user;''" "good_statement ''REMOVE TABLE user;''"
    using one [of "''DEFINE FIELD a ON user''"] one [of "''REMOVE TABLE user''"]
    by (simp_all add: trimmed_def is_space_def split_on_def code_line_def trim_space_def trim_left_def trim_right_def)
  ultimately show ?thesis
    by (intro parse_render) (simp_all add: header_text_def good_dependency_def trimmed_def is_space_def)
qed

section \<open>Scripts\<close>

text \<open>A script without comments (no \<open>--\<close> anywhere) and without carriage returns.\<close>

definition clean_script :: "string \<Rightarrow> bool" where
  "clean_script s \<longleftrightarrow> carriage \<notin> set s \<and> \<not> sublist ''--'' s"

lemma sublist_double_sep: "c \<noteq> a \<Longrightarrow> sublist [a, a] (x @ c # y) \<Longrightarrow> sublist [a, a] x \<or> sublist [a, a] y"
proof (induction x)
  case Nil
  then show ?case by (auto simp: sublist_Cons_right)
next
  case (Cons d x)
  then show ?case by (cases x) (auto simp: sublist_Cons_right)
qed

lemma sublist_double_join:
  "sublist ''--'' (str_join '' '' xs) \<Longrightarrow> \<exists>x \<in> set xs. sublist ''--'' x"
proof (induction xs rule: induct_list012)
  case 1
  then show ?case by simp
next
  case (2 x)
  then show ?case by simp
next
  case (3 x y zs)
  then have "sublist ''--'' (x @ CHR '' '' # str_join '' '' (y # zs))" by simp
  then have "sublist ''--'' x \<or> sublist ''--'' (str_join '' '' (y # zs))"
    by (rule sublist_double_sep [rotated]) simp
  with 3 show ?case by auto
qed

lemma sublist_trim_space: "sublist (trim_space s) s"
proof -
  obtain u where "trim_left s = trim_space s @ u"
    using trim_right_prefix [of "trim_left s"] by (auto simp: trim_space_def)
  then have "s = takeWhile is_space s @ trim_space s @ u"
    by (metis takeWhile_dropWhile_id trim_left_def)
  then show ?thesis unfolding sublist_def by blast
qed

lemma split_by_sublist: "prefix (hd (split_by P s)) s \<and> (\<forall>w \<in> set (split_by P s). sublist w s)"
proof (induction s)
  case Nil
  then show ?case by simp
next
  case (Cons x xs)
  obtain y ys where sp: "split_by P xs = y # ys" using split_by_not_Nil [of P xs] by (cases "split_by P xs") auto
  with Cons show ?case by (auto simp: sublist_Cons_right prefix_imp_sublist)
qed

lemma sublist_split_on: "w \<in> set (split_on c s) \<Longrightarrow> sublist w s"
  using split_by_sublist [of "\<lambda>x. x = c" s] by (simp add: split_on_def)

lemma splitScriptStatements_good:
  assumes "clean_script s"
  shows "list_all good_statement (splitScriptStatements s)"
proof -
  let ?lines = "map trim_space (filter code_line (split_on newline s))"
  let ?joined = "str_join '' '' ?lines"
  have norm: "replace_all [carriage, newline] [newline] s = s"
    using assms by (simp add: clean_script_def)
  have line: "sublist l s \<and> newline \<notin> set l" if l: "l \<in> set ?lines" for l
  proof -
    from l obtain r where r: "l = trim_space r" "r \<in> set (split_on newline s)" by auto
    have "sublist l s" using sublist_trim_space [of r] sublist_split_on [OF r(2)] r(1) sublist_order.order_trans by blast
    moreover have "newline \<notin> set l" using split_on_no_sep [OF r(2)] set_trim_space [of r] r(1) by auto
    ultimately show ?thesis by simp
  qed
  have nd: "\<not> sublist ''--'' ?joined"
  proof
    assume "sublist ''--'' ?joined"
    from sublist_double_join [OF this] obtain l where "l \<in> set ?lines" "sublist ''--'' l" by blast
    then have "sublist ''--'' s" using line sublist_order.order_trans by blast
    with assms show False by (simp add: clean_script_def)
  qed
  have chars: "set ?joined \<subseteq> set s \<union> {CHR '' ''} \<and> newline \<notin> set ?joined"
  proof -
    have "set l \<subseteq> set s - {newline}" if "l \<in> set ?lines" for l
      using line [OF that] set_mono_sublist [of l s] by blast
    then have "\<Union> (set ` set ?lines) \<subseteq> set s - {newline}" by blast
    with set_str_join [of "'' ''" ?lines] have "set ?joined \<subseteq> set '' '' \<union> (set s - {newline})" by blast
    then show ?thesis by (simp add: subset_iff) blast
  qed
  have good: "good_statement (b @ '';'')"
    if b: "b = trim_space part" "part \<in> set (split_on (CHR '';'') ?joined)" "b \<noteq> []" for b part
  proof -
    have sub: "sublist b ?joined"
      using sublist_trim_space [of part] sublist_split_on [OF b(2)] b(1) sublist_order.order_trans by blast
    then have sb: "set b \<subseteq> set ?joined" by (rule set_mono_sublist)
    have tr: "trimmed b" using b(1) by simp
    have tr': "trimmed (b @ '';'')" using tr b(3) by (auto simp: trimmed_def is_space_def)
    have semi: "CHR '';'' \<notin> set b" using split_on_no_sep [OF b(2)] set_trim_space [of part] b(1) by auto
    have cr: "carriage \<notin> set b" using sb chars assms by (auto simp: clean_script_def)
    have "\<not> has_prefix (b @ '';'') ''--''"
    proof
      assume "has_prefix (b @ '';'') ''--''"
      then obtain r where "b = ''--'' @ r" using b(3) by (cases b; cases "tl b") auto
      then have "sublist ''--'' b" by simp
      then show False using sub nd sublist_order.order_trans by blast
    qed
    then have "code_line (b @ '';'')" using tr' by (simp add: code_line_def)
    moreover have "split_on newline (b @ '';'') = [b @ '';'']"
      using sb chars by (intro split_on_none) auto
    ultimately show ?thesis using tr semi cr b(3) by (auto simp: good_statement_def)
  qed
  show ?thesis
    unfolding splitScriptStatements_def Let_def norm using good by (auto simp: list_all_iff)
qed

section \<open>The generator\<close>

lemma writeMigrationFile_ok:
  fixes slug :: string
  assumes "timestamp v" and "trim_space dir \<noteq> []" and "io_mkdir io = None" and "io_write io = None"
    and "header_text d" and "d \<noteq> []" and "list_all good_dependency deps"
    and "list_all good_statement up" and "list_all good_statement down"
  defines "f \<equiv> BuildFilename v slug" and "c \<equiv> renderMigrationContent d deps up down"
  shows "LoadMigration (io_sha io) (io_join io f) f (FsFile c)
      = Inr \<lparr>mg_version = v, mg_description = d, mg_path = io_join io f, mg_up = up, mg_down = down,
             mg_checksum = io_sha io c, mg_depends_on = deps\<rparr>
    \<and> writeMigrationFile io v slug d deps up down dir fs
      = (LoadMigration (io_sha io) (io_join io f) f (FsFile c), fmupd f c fs)"
proof -
  have name: "ValidateMigrationName f" "GetVersionFromFilename f = Some v"
    using assms(1) BuildFilename_name by (simp_all add: f_def)
  have load: "LoadMigration (io_sha io) (io_join io f) f (FsFile c)
      = Inr \<lparr>mg_version = v, mg_description = d, mg_path = io_join io f, mg_up = up, mg_down = down,
             mg_checksum = io_sha io c, mg_depends_on = deps\<rparr>"
    using name rendered_parses [OF assms(5,7-9)] assms(6) by (simp add: LoadMigration_def c_def)
  then show ?thesis
    using assms(2-4) name by (simp add: writeMigrationFile_def Let_def f_def [symmetric] c_def [symmetric])
qed

text \<open>
  C8 (functional). A migration generated from schema differences: if the SQL of every difference
  is free of comments and carriage returns and yields some statement, and the name is a non-empty
  single line, then generation succeeds; the returned migration has the given version and name,
  the forward statements in the order of the differences and the backward statements in the
  reverse order; exactly one file is added to the directory, and discovery, which loads that
  file, gets this very migration.
\<close>

theorem generate_from_diffs:
  assumes "timestamp v" and "trim_space dir \<noteq> []" and "io_mkdir io = None" and "io_write io = None"
    and "header_text name" and "name \<noteq> []"
    and "\<forall>d \<in> set diffs. clean_script (sd_forward d) \<and> clean_script (sd_backward d)"
    and "concat (map (\<lambda>d. splitScriptStatements (sd_forward d) @ splitScriptStatements (sd_backward d)) diffs) \<noteq> []"
  shows "\<exists>m content. GenerateMigrationFromDiffs io v name diffs dir fs = (Inr m, fmupd (BuildFilename v name) content fs)
    \<and> mg_version m = v \<and> mg_description m = name
    \<and> mg_up m = concat (map (\<lambda>d. splitScriptStatements (sd_forward d)) diffs)
    \<and> mg_down m = concat (map (\<lambda>d. splitScriptStatements (sd_backward d)) (rev diffs))
    \<and> ValidateMigrationName (BuildFilename v name)
    \<and> LoadMigration (io_sha io) (io_join io (BuildFilename v name)) (BuildFilename v name) (FsFile content) = Inr m"
proof -
  have nil: "splitScriptStatements [] = []"
    by (simp add: splitScriptStatements_def trim_space_def trim_left_def trim_right_def)
  have up: "concat (map (\<lambda>d. if sd_forward d = [] then [] else splitScriptStatements (sd_forward d)) diffs)
      = concat (map (\<lambda>d. splitScriptStatements (sd_forward d)) diffs)" for diffs
    by (induction diffs) (auto simp: nil)
  have down: "concat (map (\<lambda>d. if sd_backward d = [] then [] else splitScriptStatements (sd_backward d)) diffs)
      = concat (map (\<lambda>d. splitScriptStatements (sd_backward d)) diffs)" for diffs
    by (induction diffs) (auto simp: nil)
  let ?up = "concat (map (\<lambda>d. splitScriptStatements (sd_forward d)) diffs)"
  let ?down = "concat (map (\<lambda>d. splitScriptStatements (sd_backward d)) (rev diffs))"
  have good: "list_all good_statement ?up" "list_all good_statement ?down"
    using assms(7) splitScriptStatements_good by (fastforce simp: list_all_iff)+
  have ne: "\<not> (?up = [] \<and> ?down = [])" "diffs \<noteq> []" "trim_space name \<noteq> []"
    using assms(5,6,8) by (auto simp: header_text_def)
  let ?f = "BuildFilename v name" and ?c = "renderMigrationContent name [] ?up ?down"
  let ?m = "\<lparr>mg_version = v, mg_description = name, mg_path = io_join io ?f, mg_up = ?up, mg_down = ?down,
    mg_checksum = io_sha io ?c, mg_depends_on = []\<rparr>"
  have load: "LoadMigration (io_sha io) (io_join io ?f) ?f (FsFile ?c) = Inr ?m"
    and wr: "writeMigrationFile io v name name [] ?up ?down dir fs
      = (LoadMigration (io_sha io) (io_join io ?f) ?f (FsFile ?c), fmupd ?f ?c fs)"
    using writeMigrationFile_ok [OF assms(1-6) _ good, of "[]" name fs] by simp_all
  have "GenerateMigrationFromDiffs io v name diffs dir fs = (Inr ?m, fmupd ?f ?c fs)"
    using ne unfolding GenerateMigrationFromDiffs_def up down Let_def wr load by (simp only: if_False)
  with load show ?thesis
    by (intro exI [of _ ?m] exI [of _ ?c]) (simp add: BuildFilename_name assms(1))
qed

definition sample_io :: mig_io where
  "sample_io = \<lparr>io_sha = (\<lambda>s. s), io_join = (\<lambda>n. ''migrations/'' @ n), io_mkdir = None, io_write = None\<rparr>"

definition sample_diff :: schema_diff where
  "sample_diff = \<lparr>sd_operation = AddTable, sd_table = ''a'', sd_field = [], sd_index = [], sd_event = [], sd_bucket = [],
     sd_description = ''add a'', sd_forward = ''DEFINE TABLE a;'', sd_backward = ''REMOVE TABLE a''\<rparr>"

lemma timestamp_sample: "timestamp ''20260102_120000''"
  unfolding timestamp_def
  by (rule exI [of _ "''20260102''"], rule exI [of _ "''120000''"]) (simp add: is_digit_def)

lemma splitScript_sample:
  "splitScriptStatements ''DEFINE TABLE a;'' = [''DEFINE TABLE a;'']"
  "splitScriptStatements ''REMOVE TABLE a'' = [''REMOVE TABLE a;'']"
  by (simp_all add: splitScriptStatements_def split_on_def code_line_def trim_space_def trim_left_def trim_right_def is_space_def)

theorem generate_from_diffs_witness:
  "\<exists>m. fst (GenerateMigrationFromDiffs sample_io ''20260102_120000'' ''add a'' [sample_diff] ''migrations'' fmempty) = Inr m
     \<and> mg_up m = [''DEFINE TABLE a;''] \<and> mg_down m = [''REMOVE TABLE a;'']"
proof -
  have clean: "clean_script ''DEFINE TABLE a;''" "clean_script ''REMOVE TABLE a''"
    by (simp_all add: clean_script_def sublist_Cons_right)
  have "\<exists>m content. GenerateMigrationFromDiffs sample_io ''20260102_120000'' ''add a'' [sample_diff] ''migrations'' fmempty
        = (Inr m, fmupd (BuildFilename ''20260102_120000'' ''add a'') content fmempty)
      \<and> mg_version m = ''20260102_120000'' \<and> mg_description m = ''add a''
      \<and> mg_up m = concat (map (\<lambda>d. splitScriptStatements (sd_forward d)) [sample_diff])
      \<and> mg_down m = concat (map (\<lambda>d. splitScriptStatements (sd_backward d)) (rev [sample_diff]))
      \<and> ValidateMigrationName (BuildFilename ''20260102_120000'' ''add a'')
      \<and> LoadMigration (io_sha sample_io) (io_join sample_io (BuildFilename ''20260102_120000'' ''add a''))
          (BuildFilename ''20260102_120000'' ''add a'') (FsFile content) = Inr m"
    by (rule generate_from_diffs [OF timestamp_sample])
      (use clean in \<open>simp_all add: sample_io_def sample_diff_def splitScript_sample header_text_def trimmed_def is_space_def\<close>)
  then show ?thesis by (auto simp: sample_diff_def splitScript_sample)
qed

section \<open>Discovery\<close>

definition candidates :: "(string \<times> fs_entry) list \<Rightarrow> (string \<times> fs_entry) list" where
  "candidates es = filter (\<lambda>(n, e). e \<noteq> FsDir \<and> ValidateMigrationName n) es"

lemma load_entries_spec:
  "case load_entries sha join es acc of
     Inr ms \<Rightarrow> map Inr ms = map Inr acc @ map (\<lambda>(n, e). LoadMigration sha (join n) n e) (candidates es)
   | Inl e \<Rightarrow> errors_is e ErrMigrationDiscovery
       \<and> (\<exists>(n, f) \<in> set (candidates es). isl (LoadMigration sha (join n) n f))"
proof (induction es arbitrary: acc)
  case Nil
  then show ?case by (simp add: candidates_def)
next
  case (Cons x es)
  obtain n f where x: "x = (n, f)" by (cases x)
  show ?case
  proof (cases "f \<noteq> FsDir \<and> ValidateMigrationName n")
    case False
    then have eq: "load_entries sha join (x # es) acc = load_entries sha join es acc" "candidates (x # es) = candidates es"
      by (auto simp: x candidates_def)
    show ?thesis unfolding eq by (rule Cons.IH)
  next
    case True
    then have c: "candidates (x # es) = (n, f) # candidates es" by (simp add: x candidates_def)
    show ?thesis
    proof (cases "LoadMigration sha (join n) n f")
      case (Inl e)
      with True c show ?thesis by (simp add: x err_wrap_def)
    next
      case (Inr m)
      with True have "load_entries sha join (x # es) acc = load_entries sha join es (acc @ [m])" by (simp add: x)
      then show ?thesis using Cons.IH [of "acc @ [m]"] c Inr by (auto split: sum.splits)
    qed
  qed
qed

text \<open>
  Discovery over a readable directory either fails, with an error that
  \<open>errors.Is\<close> recognises as a discovery error and only if some candidate file does not load, or
  returns exactly the migrations of the candidate files (those whose name follows the
  convention; directories and other files are skipped), sorted by version, files of equal
  version in the order of the directory listing.
\<close>

theorem discover_migrations:
  "case DiscoverMigrations sha join directory (DirEntries es) of
     Inl e \<Rightarrow> errors_is e ErrMigrationDiscovery
       \<and> (\<exists>(n, f) \<in> set (candidates es). isl (LoadMigration sha (join n) n f))
   | Inr ms \<Rightarrow> sorted (map mg_version ms)
       \<and> mset (map Inr ms) = mset (map (\<lambda>(n, f). LoadMigration sha (join n) n f) (candidates es))
       \<and> (\<forall>v. map Inr (filter (\<lambda>m. mg_version m = v) ms)
             = filter (\<lambda>r. case r of Inr m \<Rightarrow> mg_version m = v | Inl e \<Rightarrow> False)
                 (map (\<lambda>(n, f). LoadMigration sha (join n) n f) (candidates es)))"
proof (cases "load_entries sha join es []")
  case (Inl e)
  then show ?thesis using load_entries_spec [where sha = sha and join = join and es = es and acc = "[]"] by (simp add: DiscoverMigrations_def)
next
  case (Inr ms)
  then have ms: "map Inr ms = map (\<lambda>(n, f). LoadMigration sha (join n) n f) (candidates es)"
    using load_entries_spec [where sha = sha and join = join and es = es and acc = "[]"] by simp
  have fl: "filter (\<lambda>r. case r of Inr m \<Rightarrow> mg_version m = v | Inl e \<Rightarrow> False) (map Inr xs)
      = map Inr (filter (\<lambda>m. mg_version m = v) xs)" for v xs
    by (induction xs) auto
  have "filter (\<lambda>m. mg_version m = v) (sort_key mg_version ms) = filter (\<lambda>m. mg_version m = v) ms" for v
    by (rule sort_key_stable)
  then show ?thesis using Inr by (simp add: DiscoverMigrations_def fl flip: ms)
qed

section \<open>Where the statement splitter falls short\<close>

text \<open>A \<open>;\<close> inside a block ends the statement there.\<close>

lemma block_is_split:
  "splitStatements [''DEFINE EVENT e ON t THEN { a; b };''] = [''DEFINE EVENT e ON t THEN { a;'', ''b };'']"
  by (simp add: splitStatements_def split_on_def code_line_def trim_space_def trim_left_def trim_right_def is_space_def)

text \<open>A comment after code swallows the lines that follow, which are joined to it by a space.\<close>

lemma trailing_comment_swallows:
  "splitScriptStatements (''DEFINE TABLE a -- note'' @ [newline] @ ''SCHEMAFULL;'') = [''DEFINE TABLE a -- note SCHEMAFULL;'']"
  by (simp add: splitScriptStatements_def split_on_def code_line_def trim_space_def trim_left_def trim_right_def is_space_def)

text \<open>A statement that such a comment opens is written to the file and dropped when it is read back.\<close>

lemma comment_statement_lost:
  "splitScriptStatements (''A; -- note'' @ [newline] @ ''B;'') = [''A;'', ''-- note B;'']
   \<and> splitStatements [''A;'', ''-- note B;''] = [''A;'']"
  by (simp add: splitScriptStatements_def splitStatements_def split_on_def code_line_def trim_space_def
      trim_left_def trim_right_def is_space_def)

end
