(* ===== verification/Squash.thy ===== *)
theory Squash
  imports Migration_Files
begin

text \<open>
  Package \<open>migration\<close>: squashing (\<open>squash.go\<close>). Statement classification by regular expressions,
  the three passes of the optimiser over statement indices, the safety warnings, the selection
  by version and the whole \<open>SquashMigrationsWithOptions\<close>, with discovery's result, the clock
  and the outcome of writing as arguments.
\<close>

section \<open>Classifying a statement\<close>

record parsed_statement =
  ps_statement :: string
  ps_operation :: string
  ps_object :: string
  ps_table :: string
  ps_field :: string
  ps_index :: string

definition Word :: regex where
  "Word = Plus (Sat word_char)"

text \<open>\<open>(?:\s+IF\s+(?:NOT\s+)?EXISTS)?\<close> and \<open>\s+ON\s+(?:TABLE\s+)?(\w+)\<close>\<close>

definition if_exists :: regex where
  "if_exists = Opt (Seqs [Spaces, LitI ''IF'', Spaces, Opt (Seq (LitI ''NOT'') Spaces), LitI ''EXISTS''])"

definition on_table :: regex where
  "on_table = Seqs [Spaces, LitI ''ON'', Spaces, Opt (Seq (LitI ''TABLE'') Spaces), Grp 3 Word]"

definition define_head :: "string \<Rightarrow> regex" where
  "define_head kind = Seqs [Grp 1 (Alt (LitI ''DEFINE'') (LitI ''REMOVE'')), Spaces, LitI kind, if_exists, Spaces, Grp 2 Word]"

definition reDefineTable :: regex where "reDefineTable = define_head ''TABLE''"
definition reDefineField :: regex where "reDefineField = Seq (define_head ''FIELD'') on_table"
definition reDefineIndex :: regex where "reDefineIndex = Seq (define_head ''INDEX'') on_table"
definition reDefineEvent :: regex where "reDefineEvent = Seq (define_head ''EVENT'') on_table"

text \<open>\<open>(?i)\bSET\s+(\w+)\s*=\<close> and \<open>(?i)\bUPDATE\s+(\w+)\b\<close>\<close>

definition reUpdateSet :: regex where
  "reUpdateSet = Seqs [WordB, LitI ''SET'', Spaces, Grp 1 Word, Star (Sat re_space), Chr (CHR ''='')]"

definition reUpdateTable :: regex where
  "reUpdateTable = Seqs [WordB, LitI ''UPDATE'', Spaces, Grp 1 Word, WordB]"

definition parse_operation :: "string \<Rightarrow> string option" where
  "parse_operation upper =
     (if has_prefix upper ''DEFINE'' then Some ''DEFINE''
      else if has_prefix upper ''REMOVE'' then Some ''REMOVE''
      else if has_prefix upper ''INSERT'' then Some ''INSERT''
      else if has_prefix upper ''UPDATE'' then Some ''UPDATE''
      else if has_prefix upper ''DELETE'' then Some ''DELETE''
      else if has_prefix upper ''CREATE'' then Some ''CREATE''
      else None)"

definition parseStatement :: "string \<Rightarrow> parsed_statement" where
  "parseStatement statement =
     (let trimmed = trim_space statement; upper = to_upper trimmed in
      case parse_operation upper of
        None \<Rightarrow> \<lparr>ps_statement = trimmed, ps_operation = ''UNKNOWN'', ps_object = [], ps_table = [], ps_field = [], ps_index = []\<rparr>
      | Some operation \<Rightarrow>
          (let out = \<lparr>ps_statement = trimmed, ps_operation = operation, ps_object = [], ps_table = [], ps_field = [], ps_index = []\<rparr> in
           case find_anchored reDefineField trimmed of
             Some m \<Rightarrow> out\<lparr>ps_object := ''FIELD'', ps_field := to_lower (group m 2), ps_table := to_lower (group m 3)\<rparr>
           | None \<Rightarrow>
          (case find_anchored reDefineIndex trimmed of
             Some m \<Rightarrow> out\<lparr>ps_object := ''INDEX'', ps_index := to_lower (group m 2), ps_table := to_lower (group m 3)\<rparr>
           | None \<Rightarrow>
          (case find_anchored reDefineEvent trimmed of
             Some m \<Rightarrow> out\<lparr>ps_object := ''EVENT'', ps_index := to_lower (group m 2), ps_table := to_lower (group m 3)\<rparr>
           | None \<Rightarrow>
          (case find_anchored reDefineTable trimmed of
             Some m \<Rightarrow> out\<lparr>ps_object := ''TABLE'', ps_table := to_lower (group m 2)\<rparr>
           | None \<Rightarrow> out)))))"

section \<open>The optimiser\<close>

text \<open>The indices removed so far and the count of optimisations.\<close>

type_synonym removal_state = "nat set \<times> nat"

text \<open>Does the REMOVE statement \<open>q\<close> undo the DEFINE statement \<open>p\<close>?\<close>

definition same_object :: "parsed_statement \<Rightarrow> parsed_statement \<Rightarrow> bool" where
  "same_object p q =
     (if ps_object p \<noteq> ps_object q \<or> ps_table p \<noteq> ps_table q then False
      else if ps_object p = ''TABLE'' then True
      else if ps_object p = ''FIELD'' then ps_field p = ps_field q
      else if ps_object p = ''INDEX'' \<or> ps_object p = ''EVENT'' then ps_index p = ps_index q
      else False)"

fun find_pair :: "parsed_statement list \<Rightarrow> nat set \<Rightarrow> parsed_statement \<Rightarrow> nat list \<Rightarrow> nat option" where
  "find_pair ps rem p [] = None"
| "find_pair ps rem p (j # js) =
     (if j \<in> rem then find_pair ps rem p js
      else if ps_operation (ps ! j) \<noteq> ''REMOVE'' then find_pair ps rem p js
      else if \<not> same_object p (ps ! j) then find_pair ps rem p js
      else Some j)"

definition pass1_step :: "parsed_statement list \<Rightarrow> nat \<Rightarrow> removal_state \<Rightarrow> removal_state" where
  "pass1_step ps i st =
     (case st of (rem, n) \<Rightarrow>
        if i \<in> rem then (rem, n)
        else if ps_operation (ps ! i) \<noteq> ''DEFINE'' then (rem, n)
        else (case find_pair ps rem (ps ! i) [i + 1..<length ps] of
                None \<Rightarrow> (rem, n)
              | Some j \<Rightarrow> (insert j (insert i rem), n + 2)))"

definition pass1 :: "parsed_statement list \<Rightarrow> removal_state" where
  "pass1 ps = fold (pass1_step ps) [0..<length ps] ({}, 0)"

type_synonym define_key = "string \<times> string \<times> string \<times> string"

definition define_key :: "parsed_statement \<Rightarrow> define_key" where
  "define_key p = (ps_object p, ps_table p, ps_field p, ps_index p)"

definition pass2_step ::
  "parsed_statement list \<Rightarrow> nat \<Rightarrow> (define_key \<Rightarrow> nat option) \<times> removal_state \<Rightarrow> (define_key \<Rightarrow> nat option) \<times> removal_state" where
  "pass2_step ps i st =
     (case st of (defines, rem, n) \<Rightarrow>
        if i \<in> rem then (defines, rem, n)
        else if ps_operation (ps ! i) \<noteq> ''DEFINE'' then (defines, rem, n)
        else
          (let key = define_key (ps ! i) in
           case defines key of
             Some earlier \<Rightarrow>
               if earlier \<notin> rem then (defines(key \<mapsto> i), insert earlier rem, n + 1)
               else (defines(key \<mapsto> i), rem, n)
           | None \<Rightarrow> (defines(key \<mapsto> i), rem, n)))"

definition pass2 :: "parsed_statement list \<Rightarrow> removal_state \<Rightarrow> removal_state" where
  "pass2 ps st = snd (fold (pass2_step ps) [0..<length ps] (\<lambda>_. None, st))"

definition removed_fields :: "parsed_statement list \<Rightarrow> nat set \<Rightarrow> (string \<times> string) list" where
  "removed_fields ps rem =
     map (\<lambda>i. (ps_table (ps ! i), ps_field (ps ! i)))
       (filter (\<lambda>i. i \<in> rem \<and> ps_object (ps ! i) = ''FIELD'' \<and> ps_table (ps ! i) \<noteq> [] \<and> ps_field (ps ! i) \<noteq> [])
         [0..<length ps])"

definition updates_field :: "string \<Rightarrow> string \<times> string \<Rightarrow> bool" where
  "updates_field statement key =
     (case (find_submatch reUpdateSet statement, find_submatch reUpdateTable statement) of
        (Some s, Some t) \<Rightarrow> equal_fold (group s 1) (snd key) \<and> equal_fold (group t 1) (fst key)
      | _ \<Rightarrow> False)"

definition pass3_step :: "parsed_statement list \<Rightarrow> (string \<times> string) list \<Rightarrow> nat \<Rightarrow> removal_state \<Rightarrow> removal_state" where
  "pass3_step ps keys i st =
     (case st of (rem, n) \<Rightarrow>
        if i \<in> rem then (rem, n)
        else if ps_operation (ps ! i) \<noteq> ''UPDATE'' then (rem, n)
        else if list_ex (updates_field (ps_statement (ps ! i))) keys then (insert i rem, n + 1)
        else (rem, n))"

definition pass3 :: "parsed_statement list \<Rightarrow> removal_state \<Rightarrow> removal_state" where
  "pass3 ps st = fold (pass3_step ps (removed_fields ps (fst st))) [0..<length ps] st"

definition optimizeStatements :: "string list \<Rightarrow> string list \<times> nat" where
  "optimizeStatements statements =
     (let ps = map parseStatement statements;
          (rem, n) = pass3 ps (pass2 ps (pass1 ps)) in
      (map (\<lambda>i. statements ! i) (filter (\<lambda>i. i \<notin> rem) [0..<length statements]), n))"

section \<open>Safety warnings and selection\<close>

record squash_warning =
  sw_migration :: string
  sw_message :: string
  sw_severity :: string

definition truncateForWarning :: "string \<Rightarrow> string" where
  "truncateForWarning stmt = (if length stmt \<le> 50 then stmt else take 50 stmt @ ''...'')"

definition statement_warnings :: "string \<Rightarrow> string \<Rightarrow> squash_warning list" where
  "statement_warnings version stmt =
     (let t = trim_space stmt; upper = to_upper t;
          warn = (\<lambda>message severity. \<lparr>sw_migration = version, sw_message = message, sw_severity = severity\<rparr>) in
      (if has_prefix upper ''INSERT'' then
         [warn (''Contains INSERT statement: '' @ truncateForWarning t) ''medium'']
       else if has_prefix upper ''UPDATE'' \<and> str_contains upper ''SET'' then
         (if \<not> str_contains upper ''IS NONE'' then
            [warn (''Contains UPDATE statement: '' @ truncateForWarning t) ''medium''] else [])
       else if has_prefix upper ''DELETE'' then
         [warn (''Contains DELETE statement: '' @ truncateForWarning t) ''high'']
       else if has_prefix upper ''CREATE'' \<and> \<not> str_contains upper ''CREATE TABLE'' then
         [warn (''Contains CREATE statement: '' @ truncateForWarning t) ''low'']
       else [])
      @ (if str_contains upper ''RECORD'' \<and> str_contains upper ''TYPE''
         then [warn ''Contains record reference - verify table order'' ''low''] else []))"

definition validateSquashSafety :: "migration list \<Rightarrow> squash_warning list" where
  "validateSquashSafety ms = concat (map (\<lambda>m. concat (map (statement_warnings (mg_version m)) (mg_up m))) ms)"

definition filterMigrationsByVersion :: "migration list \<Rightarrow> string \<Rightarrow> string \<Rightarrow> migration list" where
  "filterMigrationsByVersion ms from to =
     sort_key mg_version
       (filter (\<lambda>m. \<not> (from \<noteq> [] \<and> mg_version m < from) \<and> \<not> (to \<noteq> [] \<and> to < mg_version m)) ms)"

section \<open>Writing the squashed migration\<close>

definition splice_header :: "string list \<Rightarrow> string \<Rightarrow> string result" where
  "splice_header extra body =
     (if extra = [] then Inr body
      else
        (case str_index body (''-- @up'' @ [newline]) of
           None \<Rightarrow> Inl (err_new ErrMigrationGeneration ''rendered migration body is missing the -- @up marker'')
         | Some idx \<Rightarrow> Inr (take idx body @ concat (map render_statement extra) @ drop idx body)))"

definition writeSquashedMigrationFile ::
  "mig_io \<Rightarrow> string \<Rightarrow> string \<Rightarrow> string \<Rightarrow> string list \<Rightarrow> string list \<Rightarrow> string list \<Rightarrow> string \<Rightarrow> mig_dir
     \<Rightarrow> migration result \<times> mig_dir" where
  "writeSquashedMigrationFile io version slugSource description extraHeader up down dir fs =
     (if trim_space dir = [] then
        (Inl (err_new ErrMigrationGeneration ''migration directory must not be empty''), fs)
      else
        (let filename = BuildFilename version slugSource in
         if \<not> ValidateMigrationName filename then
           (Inl (err_new ErrMigrationGeneration
              (''generated filename '' @ go_quote filename @ '' is not a valid migration name'')), fs)
         else
           (case splice_header extraHeader (renderMigrationContent description [] up down) of
              Inl e \<Rightarrow> (Inl e, fs)
            | Inr body \<Rightarrow>
                (let finalPath = io_join io filename in
                 case io_mkdir io of
                   Some e \<Rightarrow> (Inl (err_wrap ErrMigrationGeneration (''cannot create migration directory '' @ go_quote dir) e), fs)
                 | None \<Rightarrow>
                     (case io_write io of
                        Some e \<Rightarrow> (Inl (err_wrap ErrMigrationGeneration (''failed to write migration '' @ go_quote finalPath) e), fs)
                      | None \<Rightarrow>
                          (case LoadMigration (io_sha io) finalPath filename (FsFile body) of
                             Inl e \<Rightarrow> (Inl (err_wrap ErrMigrationGeneration
                                 (''generator produced invalid migration file '' @ go_quote finalPath) e), fmupd filename body fs)
                           | Inr m \<Rightarrow> (Inr m, fmupd filename body fs)))))))"

record squash_result =
  sr_path :: string
  sr_version :: string
  sr_checksum :: string
  sr_original_count :: nat
  sr_statement_count :: nat
  sr_optimizations :: nat
  sr_originals :: "string list"
  sr_warnings :: "squash_warning list"

text \<open>The options; \<open>so_dir\<close> is \<open>filepath.Dir\<close> of a non-empty \<open>OutputPath\<close>.\<close>

record squash_options =
  so_description :: string
  so_dir :: "string option"
  so_optimize :: "bool option"
  so_dry_run :: bool

text \<open>\<open>discovered\<close> is what \<open>DiscoverMigrations(directory)\<close> returns, \<open>cancelled\<close> is \<open>ctx.Err()\<close>,
  \<open>joined\<close> is \<open>filepath.Join\<close> of the output directory, \<open>version\<close> the formatted clock.\<close>

definition buildSquashedPath :: "(string \<Rightarrow> string) \<Rightarrow> string \<Rightarrow> string \<Rightarrow> string \<Rightarrow> string" where
  "buildSquashedPath join dir version description =
     (let filename = BuildFilename version description in if dir = [] then filename else join filename)"

definition SquashMigrationsWithOptions ::
  "mig_io \<Rightarrow> string \<Rightarrow> go_error option \<Rightarrow> migration list result \<Rightarrow> string \<Rightarrow> string \<Rightarrow> string \<Rightarrow> squash_options \<Rightarrow> mig_dir
     \<Rightarrow> squash_result result \<times> mig_dir" where
  "SquashMigrationsWithOptions io version cancelled discovered directory from to opts fs =
     (case cancelled of
        Some e \<Rightarrow> (Inl (err_wrap ErrMigrationSquash ''context cancelled before squash'' e), fs)
      | None \<Rightarrow>
     (case discovered of
        Inl e \<Rightarrow> (Inl (err_wrap ErrMigrationSquash ''failed to discover migrations'' e), fs)
      | Inr all \<Rightarrow>
     (if all = [] then (Inl (err_new ErrMigrationSquash ''no migrations found in directory''), fs)
      else
        (let selected = filterMigrationsByVersion all from to in
         if selected = [] then
           (Inl (err_new ErrMigrationSquash ''no migrations match the specified version range''), fs)
         else if length selected < 2 then
           (Inl (err_new ErrMigrationSquash ''at least 2 migrations are required for squashing''), fs)
         else
           (let warnings = validateSquashSafety selected;
                highSeverity = filter (\<lambda>w. sw_severity w = ''high'') warnings in
            if highSeverity \<noteq> [] then
              (Inl (err_new ErrMigrationSquash
                 (''high severity warnings prevent squashing: '' @ str_join ''; '' (map sw_message highSeverity))), fs)
            else
              (let up0 = concat (map mg_up selected);
                   versions = map mg_version selected;
                   down = concat (map (\<lambda>m. rev (mg_down m)) (rev selected));
                   optimize = (case so_optimize opts of Some b \<Rightarrow> b | None \<Rightarrow> True);
                   (up, applied) = (if optimize then optimizeStatements up0 else (up0, 0));
                   firstVersion = mg_version (hd selected);
                   lastVersion = mg_version (last selected);
                   description = (if trim_space (so_description opts) = []
                                  then ''squashed_'' @ firstVersion @ ''_to_'' @ lastVersion else so_description opts);
                   outputDir = (case so_dir opts of Some d \<Rightarrow> d | None \<Rightarrow> directory);
                   extraHeader = [''-- @squashed-from: '' @ firstVersion @ ''..'' @ lastVersion] in
               if so_dry_run opts then
                 (Inr \<lparr>sr_path = buildSquashedPath (io_join io) outputDir version description, sr_version = version,
                       sr_checksum = [], sr_original_count = length selected, sr_statement_count = length up,
                       sr_optimizations = applied, sr_originals = versions, sr_warnings = warnings\<rparr>, fs)
               else
                 (case writeSquashedMigrationFile io version description description extraHeader up down outputDir fs of
                    (Inl e, fs') \<Rightarrow> (Inl (err_wrap ErrMigrationSquash ''failed to write squashed migration'' e), fs')
                  | (Inr written, fs') \<Rightarrow>
                      (Inr \<lparr>sr_path = mg_path written, sr_version = mg_version written,
                            sr_checksum = mg_checksum written, sr_original_count = length selected,
                            sr_statement_count = length up, sr_optimizations = applied, sr_originals = versions,
                            sr_warnings = warnings\<rparr>, fs'))))))))"

end
