(* ===== verification/Squash_Correct.thy ===== *)
theory Squash_Correct
  imports Squash Migration_Files_Correct
begin

text \<open>
  Correctness of squashing: the optimiser's bookkeeping is exact and touches only DEFINE,
  REMOVE and UPDATE statements; on histories in which no object is redefined before it is
  removed, the optimised script leaves the same schema; and the squashed file loads back as the
  merged statement lists. The lemmas of the last section evaluate the cases in which it does not.
\<close>

section \<open>Bookkeeping of the three passes\<close>

definition removal_ok :: "nat \<Rightarrow> removal_state \<Rightarrow> bool" where
  "removal_ok len st \<longleftrightarrow> fst st \<subseteq> {..<len} \<and> snd st = card (fst st)"

lemma removal_ok_finite: "removal_ok len st \<Longrightarrow> finite (fst st)"
  by (auto simp: removal_ok_def intro: finite_subset)

lemma find_pair_find:
  "find_pair ps rem p js = find (\<lambda>j. j \<notin> rem \<and> ps_operation (ps ! j) = ''REMOVE'' \<and> same_object p (ps ! j)) js"
  by (induction js) auto

lemma find_upt_Some:
  assumes "find P [a..<b] = Some j"
  shows "a \<le> j \<and> j < b \<and> P j \<and> (\<forall>k. a \<le> k \<longrightarrow> k < j \<longrightarrow> \<not> P k)"
proof -
  obtain i where i: "i < length [a..<b]" "P ([a..<b] ! i)" "j = [a..<b] ! i" "\<forall>k < i. \<not> P ([a..<b] ! k)"
    using assms by (auto simp: find_Some_iff)
  have "\<not> P k" if "a \<le> k" "k < j" for k
    using i(1,3) i(4) [rule_format, of "k - a"] that by auto
  with i show ?thesis by auto
qed

lemma find_pair_Some:
  assumes "find_pair ps rem p [Suc i..<n] = Some j"
  shows "i < j \<and> j < n \<and> j \<notin> rem \<and> ps_operation (ps ! j) = ''REMOVE'' \<and> same_object p (ps ! j)
    \<and> (\<forall>k. i < k \<longrightarrow> k < j \<longrightarrow> \<not> (k \<notin> rem \<and> ps_operation (ps ! k) = ''REMOVE'' \<and> same_object p (ps ! k)))"
  using find_upt_Some [OF assms [unfolded find_pair_find]] by (simp add: Suc_le_eq)

lemma find_pair_None:
  "find_pair ps rem p [Suc i..<n] = None \<longleftrightarrow>
     (\<forall>k. i < k \<longrightarrow> k < n \<longrightarrow> \<not> (k \<notin> rem \<and> ps_operation (ps ! k) = ''REMOVE'' \<and> same_object p (ps ! k)))"
  by (auto simp: find_pair_find find_None_iff Suc_le_eq)

lemma pass1_step_ok:
  assumes "removal_ok (length ps) st" and "i < length ps"
  shows "removal_ok (length ps) (pass1_step ps i st)"
proof -
  obtain rem n where st: "st = (rem, n)" by (cases st)
  show ?thesis
  proof (cases "find_pair ps rem (ps ! i) [Suc i..<length ps]")
    case None
    with assms st show ?thesis by (simp add: pass1_step_def)
  next
    case (Some j)
    from find_pair_Some [OF Some] removal_ok_finite [OF assms(1)] show ?thesis
      using assms Some by (auto simp: st pass1_step_def removal_ok_def)
  qed
qed

lemma fold_upt_invariant:
  assumes "I 0 s" and "\<And>i s. i < n \<Longrightarrow> I i s \<Longrightarrow> I (Suc i) (f i s)"
  shows "I n (fold f [0..<n] s)"
  using assms
proof (induction n)
  case 0
  then show ?case by simp
next
  case (Suc n)
  have "I n (fold f [0..<n] s)" using Suc.prems by (intro Suc.IH) auto
  then show ?case using Suc.prems(2) [of n] by simp
qed

lemma pass1_ok: "removal_ok (length ps) (pass1 ps)"
  unfolding pass1_def
  by (rule fold_upt_invariant [where I = "\<lambda>_. removal_ok (length ps)"]) (auto simp: removal_ok_def [of _ "({}, 0)"] pass1_step_ok)

lemma ran_upd: "ran (m(k \<mapsto> v)) \<subseteq> insert v (ran m)"
  by (auto simp: ran_def)

lemma pass2_step_ok:
  assumes "ran (fst st) \<subseteq> {..<i}" and "removal_ok (length ps) (snd st)" and "i < length ps"
  shows "ran (fst (pass2_step ps i st)) \<subseteq> {..<Suc i} \<and> removal_ok (length ps) (snd (pass2_step ps i st))"
proof -
  obtain d rem n where st: "st = (d, rem, n)" by (cases st)
  have fin: "finite rem" using removal_ok_finite [OF assms(2)] by (simp add: st)
  have r: "ran (d(define_key (ps ! i) \<mapsto> i)) \<subseteq> {..<Suc i}" "ran d \<subseteq> {..<Suc i}"
    using assms(1) ran_upd [of d "define_key (ps ! i)" i] by (auto simp: st)
  show ?thesis
  proof (cases "d (define_key (ps ! i))")
    case None
    with assms r show ?thesis by (simp add: st pass2_step_def Let_def)
  next
    case (Some x)
    then have "x < length ps" using ranI [of d, OF Some] assms(1,3) by (auto simp: st)
    with assms r fin Some show ?thesis by (simp add: st pass2_step_def Let_def removal_ok_def)
  qed
qed

lemma pass2_ok:
  assumes "removal_ok (length ps) st"
  shows "removal_ok (length ps) (pass2 ps st)"
proof -
  have "ran (fst (fold (pass2_step ps) [0..<length ps] (\<lambda>_. None, st))) \<subseteq> {..<length ps}
      \<and> removal_ok (length ps) (snd (fold (pass2_step ps) [0..<length ps] (\<lambda>_. None, st)))"
    by (rule fold_upt_invariant [where I = "\<lambda>i s. ran (fst s) \<subseteq> {..<i} \<and> removal_ok (length ps) (snd s)"])
      (use assms pass2_step_ok in \<open>auto simp: ran_def\<close>)
  then show ?thesis by (simp add: pass2_def)
qed

lemma pass3_step_ok:
  "removal_ok (length ps) st \<Longrightarrow> i < length ps \<Longrightarrow> removal_ok (length ps) (pass3_step ps keys i st)"
  using removal_ok_finite [of "length ps" st] by (cases st) (auto simp: pass3_step_def removal_ok_def)

lemma pass3_ok: "removal_ok (length ps) st \<Longrightarrow> removal_ok (length ps) (pass3 ps st)"
  unfolding pass3_def
  by (rule fold_upt_invariant [where I = "\<lambda>_. removal_ok (length ps)"]) (auto simp: pass3_step_ok)

definition final_removal :: "string list \<Rightarrow> removal_state" where
  "final_removal ss = (let ps = map parseStatement ss in pass3 ps (pass2 ps (pass1 ps)))"

lemma final_removal_ok: "removal_ok (length ss) (final_removal ss)"
  using pass3_ok [OF pass2_ok [OF pass1_ok]] by (simp add: final_removal_def Let_def) (metis length_map)

lemma optimizeStatements_eq:
  "optimizeStatements ss = (map (\<lambda>i. ss ! i) (filter (\<lambda>i. i \<notin> fst (final_removal ss)) [0..<length ss]), snd (final_removal ss))"
  by (simp add: optimizeStatements_def final_removal_def Let_def case_prod_beta')

section \<open>What may be removed\<close>

definition removable :: "parsed_statement \<Rightarrow> bool" where
  "removable p \<longleftrightarrow> ps_operation p = ''DEFINE'' \<or> ps_operation p = ''REMOVE'' \<or> ps_operation p = ''UPDATE''"

lemma pass1_removable: "\<forall>i \<in> fst (pass1 ps). ps_operation (ps ! i) = ''DEFINE'' \<or> ps_operation (ps ! i) = ''REMOVE''"
  unfolding pass1_def
proof (rule fold_upt_invariant [where I = "\<lambda>_ st. \<forall>i \<in> fst st. ps_operation (ps ! i) = ''DEFINE'' \<or> ps_operation (ps ! i) = ''REMOVE''"],
    goal_cases)
  case 1
  then show ?case by simp
next
  case (2 i st)
  then show ?case
    by (cases st; cases "find_pair ps (fst st) (ps ! i) [Suc i..<length ps]")
      (auto simp: pass1_step_def dest!: find_pair_Some)
qed

lemma pass2_removable:
  assumes "\<forall>i \<in> fst st. Q i" and "\<And>i. ps_operation (ps ! i) = ''DEFINE'' \<Longrightarrow> Q i"
  shows "\<forall>i \<in> fst (pass2 ps st). Q i"
proof -
  let ?I = "\<lambda>_ s. (\<forall>j \<in> ran (fst s). ps_operation (ps ! j) = ''DEFINE'') \<and> (\<forall>i \<in> fst (snd s). Q i)"
  have "?I (length ps) (fold (pass2_step ps) [0..<length ps] (\<lambda>_. None, st))"
  proof (rule fold_upt_invariant [where I = ?I], goal_cases)
    case 1
    then show ?case using assms(1) by (simp add: ran_def)
  next
    case (2 i s)
    obtain d rem n where s: "s = (d, rem, n)" by (cases s)
    note up = ran_upd [of d "define_key (ps ! i)" i]
    show ?case
    proof (cases "d (define_key (ps ! i))")
      case None
      with 2 up show ?thesis by (auto simp: s pass2_step_def Let_def)
    next
      case (Some x)
      then have "ps_operation (ps ! x) = ''DEFINE''" using ranI [of d, OF Some] 2(2) by (auto simp: s)
      with 2 up Some assms(2) show ?thesis by (auto simp: s pass2_step_def Let_def)
    qed
  qed
  then show ?thesis by (simp add: pass2_def)
qed

lemma pass3_removable:
  assumes "\<forall>i \<in> fst st. Q i" and "\<And>i. ps_operation (ps ! i) = ''UPDATE'' \<Longrightarrow> Q i"
  shows "\<forall>i \<in> fst (pass3 ps st). Q i"
  unfolding pass3_def
proof (rule fold_upt_invariant [where I = "\<lambda>_ st. \<forall>i \<in> fst st. Q i"], goal_cases)
  case 1
  then show ?case using assms(1) by simp
next
  case (2 i s)
  then show ?case using assms(2) by (cases s) (auto simp: pass3_step_def)
qed

lemma final_removable: "\<forall>i \<in> fst (final_removal ss). i < length ss \<and> removable (parseStatement (ss ! i))"
proof -
  let ?ps = "map parseStatement ss"
  have "\<forall>i \<in> fst (pass3 ?ps (pass2 ?ps (pass1 ?ps))). removable (?ps ! i)"
    using pass1_removable [of ?ps]
    by (intro pass3_removable pass2_removable) (auto simp: removable_def)
  then show ?thesis
    using final_removal_ok [of ss] by (auto simp: final_removal_def Let_def removal_ok_def subset_iff)
qed

lemma subseq_nth_filter: "subseq (map (\<lambda>i. xs ! i) (filter P [0..<length xs])) xs"
proof -
  have "subseq (map (\<lambda>i. xs ! i) (filter P [0..<length xs])) (map (\<lambda>i. xs ! i) [0..<length xs])"
    by (intro subseq_map subseq_filter_left)
  then show ?thesis by (simp add: map_nth)
qed

lemma optimized_length:
  "length (fst (optimizeStatements ss)) + snd (optimizeStatements ss) = length ss"
proof -
  let ?rem = "fst (final_removal ss)"
  have ok: "?rem \<subseteq> {..<length ss}" "snd (final_removal ss) = card ?rem"
    using final_removal_ok [of ss] by (simp_all add: removal_ok_def)
  have "length (filter (\<lambda>i. i \<notin> ?rem) [0..<length ss]) = card ({..<length ss} - ?rem)"
    by (subst distinct_card [symmetric]) (auto intro!: arg_cong [where f = card])
  moreover have "card ({..<length ss} - ?rem) + card ?rem = length ss"
    using ok(1) by (simp add: card_Diff_subset finite_subset card_mono [of "{..<length ss}", simplified])
  ultimately show ?thesis
    using ok(2) by (simp add: optimizeStatements_eq)
qed
text \<open>
  C9 (safety). The optimiser only deletes: its output is a subsequence of its input, the
  number it reports is exactly the number of statements deleted, and every statement that is not
  classified as DEFINE, REMOVE or UPDATE is still there, as often as before and in place.
\<close>

theorem optimize_only_deletes:
  "subseq (fst (optimizeStatements ss)) ss
   \<and> length (fst (optimizeStatements ss)) + snd (optimizeStatements ss) = length ss
   \<and> filter (\<lambda>s. \<not> removable (parseStatement s)) (fst (optimizeStatements ss))
       = filter (\<lambda>s. \<not> removable (parseStatement s)) ss"
proof -
  let ?rem = "fst (final_removal ss)"
  have "filter (\<lambda>s. \<not> removable (parseStatement s)) (fst (optimizeStatements ss))
      = map (\<lambda>i. ss ! i) (filter (\<lambda>i. \<not> removable (parseStatement (ss ! i)) \<and> i \<notin> ?rem) [0..<length ss])"
    by (simp add: optimizeStatements_eq filter_map o_def conj_commute)
  also have "filter (\<lambda>i. \<not> removable (parseStatement (ss ! i)) \<and> i \<notin> ?rem) [0..<length ss]
      = filter (\<lambda>i. \<not> removable (parseStatement (ss ! i))) [0..<length ss]"
    using final_removable [of ss] by (intro filter_cong) auto
  also have "map (\<lambda>i. ss ! i) \<dots> = filter (\<lambda>s. \<not> removable (parseStatement s)) (map (\<lambda>i. ss ! i) [0..<length ss])"
    by (simp add: filter_map o_def)
  finally have "filter (\<lambda>s. \<not> removable (parseStatement s)) (fst (optimizeStatements ss))
      = filter (\<lambda>s. \<not> removable (parseStatement s)) ss" by (simp add: map_nth)
  then show ?thesis
    using subseq_nth_filter [of ss] optimized_length [of ss] by (simp add: optimizeStatements_eq)
qed

section \<open>The schema a script leaves\<close>

text \<open>
  Tables, fields, indexes and events by their key; a DEFINE stores its text, a REMOVE clears the
  key, other statements leave the schema alone.
\<close>

definition recognised :: "parsed_statement \<Rightarrow> bool" where
  "recognised p \<longleftrightarrow> ps_object p \<noteq> []"

definition defines_obj :: "define_key \<Rightarrow> parsed_statement \<Rightarrow> bool" where
  "defines_obj k p \<longleftrightarrow> recognised p \<and> ps_operation p = ''DEFINE'' \<and> define_key p = k"

definition removes_obj :: "define_key \<Rightarrow> parsed_statement \<Rightarrow> bool" where
  "removes_obj k p \<longleftrightarrow> recognised p \<and> ps_operation p = ''REMOVE'' \<and> define_key p = k"

type_synonym schema_state = "define_key \<Rightarrow> string option"

definition schema_step :: "parsed_statement \<Rightarrow> schema_state \<Rightarrow> schema_state" where
  "schema_step p st =
     (if \<not> recognised p then st
      else if ps_operation p = ''DEFINE'' then st(define_key p \<mapsto> ps_statement p)
      else if ps_operation p = ''REMOVE'' then st(define_key p := None)
      else st)"

definition schema_after :: "string list \<Rightarrow> schema_state \<Rightarrow> schema_state" where
  "schema_after ss st = fold schema_step (map parseStatement ss) st"

text \<open>No object is defined twice in a row and then removed.\<close>

definition well_paired :: "parsed_statement list \<Rightarrow> bool" where
  "well_paired ps \<longleftrightarrow>
     (\<forall>k < length ps. \<forall>j < k. \<forall>i < j.
        ps_operation (ps ! i) = ''DEFINE'' \<and> ps_operation (ps ! j) = ''DEFINE'' \<and> ps_operation (ps ! k) = ''REMOVE''
        \<and> recognised (ps ! i) \<and> define_key (ps ! i) = define_key (ps ! j) \<and> define_key (ps ! j) = define_key (ps ! k)
        \<longrightarrow> (\<exists>l < j. i < l \<and> ps_operation (ps ! l) = ''REMOVE'' \<and> define_key (ps ! l) = define_key (ps ! i)))"

lemma parse_shape:
  "(ps_object (parseStatement s) = ''TABLE'' \<longrightarrow> ps_field (parseStatement s) = [] \<and> ps_index (parseStatement s) = [])
   \<and> (ps_object (parseStatement s) = ''FIELD'' \<longrightarrow> ps_index (parseStatement s) = [])
   \<and> (ps_object (parseStatement s) = ''INDEX'' \<or> ps_object (parseStatement s) = ''EVENT'' \<longrightarrow> ps_field (parseStatement s) = [])
   \<and> ps_object (parseStatement s) \<in> {[], ''TABLE'', ''FIELD'', ''INDEX'', ''EVENT''}"
  by (auto simp: parseStatement_def Let_def split: option.splits)

lemma same_object_key:
  assumes "p \<in> range parseStatement" and "q \<in> range parseStatement"
  shows "same_object p q \<longleftrightarrow> recognised p \<and> define_key p = define_key q"
proof -
  obtain s t where pq: "p = parseStatement s" "q = parseStatement t" using assms by blast
  show ?thesis
    using parse_shape [of s] parse_shape [of t] unfolding pq [symmetric]
    by (auto simp: same_object_def recognised_def define_key_def)
qed

lemma recognised_key: "define_key p = define_key q \<Longrightarrow> recognised p \<longleftrightarrow> recognised q"
  by (simp add: define_key_def recognised_def)

definition touches :: "define_key \<Rightarrow> parsed_statement \<Rightarrow> bool" where
  "touches k p \<longleftrightarrow> defines_obj k p \<or> removes_obj k p"

lemma schema_fold:
  "fold schema_step ps st k =
     (if filter (touches k) ps = [] then st k
      else if defines_obj k (last (filter (touches k) ps)) then Some (ps_statement (last (filter (touches k) ps)))
      else None)"
proof (induction ps rule: rev_induct)
  case Nil
  then show ?case by simp
next
  case (snoc p ps)
  show ?case
  proof (cases "touches k p")
    case True
    then show ?thesis by (auto simp: schema_step_def touches_def defines_obj_def removes_obj_def)
  next
    case False
    then have "fold schema_step (ps @ [p]) st k = fold schema_step ps st k"
      by (auto simp: schema_step_def touches_def defines_obj_def removes_obj_def)
    then show ?thesis using snoc False by simp
  qed
qed

section \<open>What pass one pairs\<close>

definition parsed_list :: "parsed_statement list \<Rightarrow> bool" where
  "parsed_list ps \<longleftrightarrow> set ps \<subseteq> range parseStatement"

definition defines_at :: "parsed_statement list \<Rightarrow> define_key \<Rightarrow> nat \<Rightarrow> bool" where
  "defines_at ps k i \<longleftrightarrow> i < length ps \<and> defines_obj k (ps ! i)"

definition removes_at :: "parsed_statement list \<Rightarrow> define_key \<Rightarrow> nat \<Rightarrow> bool" where
  "removes_at ps k i \<longleftrightarrow> i < length ps \<and> removes_obj k (ps ! i)"

lemma parsed_nth: "parsed_list ps \<Longrightarrow> i < length ps \<Longrightarrow> ps ! i \<in> range parseStatement"
  using nth_mem [of i ps] by (auto simp: parsed_list_def)

lemma D_R_same: "parsed_list ps \<Longrightarrow> defines_at ps k i \<Longrightarrow> removes_at ps k j \<Longrightarrow> same_object (ps ! i) (ps ! j)"
  using same_object_key [OF parsed_nth parsed_nth, of ps i ps j] by (simp add: defines_at_def removes_at_def defines_obj_def removes_obj_def)

lemma paired_is_D:
  "parsed_list ps \<Longrightarrow> i < length ps \<Longrightarrow> ps_operation (ps ! i) = ''DEFINE'' \<Longrightarrow> same_object (ps ! i) (ps ! j) \<Longrightarrow> removes_at ps k j \<Longrightarrow> defines_at ps k i"
  using same_object_key [OF parsed_nth parsed_nth, of ps i ps j] by (simp add: defines_at_def removes_at_def defines_obj_def removes_obj_def)

definition inv1 :: "parsed_statement list \<Rightarrow> define_key \<Rightarrow> nat \<Rightarrow> nat set \<Rightarrow> bool" where
  "inv1 ps k i rem \<longleftrightarrow>
     (\<forall>d < i. defines_at ps k d \<and> (\<exists>r > d. removes_at ps k r) \<longrightarrow> d \<in> rem)
   \<and> (\<forall>r \<in> rem. removes_at ps k r \<longrightarrow> (\<exists>d < i. defines_at ps k d \<and> d < r \<and> (\<forall>l. d < l \<longrightarrow> l < r \<longrightarrow> \<not> removes_at ps k l)))
   \<and> (\<forall>d \<in> rem. defines_at ps k d \<longrightarrow> (\<exists>r > d. removes_at ps k r))"

lemma inv1_step:
  assumes pl: "parsed_list ps" and wp: "well_paired ps" and inv: "inv1 ps k i (fst st)" and i: "i < length ps"
  shows "inv1 ps k (Suc i) (fst (pass1_step ps i st))"
proof -
  obtain rem n where st: "st = (rem, n)" by (cases st)
  have later: "r \<notin> rem" if Di: "defines_at ps k i" and Rr: "removes_at ps k r" and ir: "i < r" for r
  proof
    assume "r \<in> rem"
    then obtain d where d: "d < i" "defines_at ps k d" "d < r" "\<forall>l. d < l \<longrightarrow> l < r \<longrightarrow> \<not> removes_at ps k l"
      using inv Rr by (auto simp: inv1_def st)
    have "\<exists>l < i. d < l \<and> ps_operation (ps ! l) = ''REMOVE'' \<and> define_key (ps ! l) = define_key (ps ! d)"
      using wp [unfolded well_paired_def, rule_format, of r i d] d Di Rr ir
      by (simp add: defines_at_def removes_at_def defines_obj_def removes_obj_def)
    then obtain l where l: "l < i" "d < l" "ps_operation (ps ! l) = ''REMOVE''" "define_key (ps ! l) = define_key (ps ! d)"
      by blast
    then have "removes_at ps k l" using d(2) recognised_key [OF l(4)] i by (simp add: removes_at_def defines_at_def removes_obj_def defines_obj_def)
    with d(4) l ir show False by auto
  qed
  have D_op: "ps_operation (ps ! x) = ''DEFINE''" if "defines_at ps k x" for x using that by (simp add: defines_at_def defines_obj_def)
  have R_op: "ps_operation (ps ! x) = ''REMOVE''" if "removes_at ps k x" for x using that by (simp add: removes_at_def removes_obj_def)
  consider (kept) "i \<in> rem \<or> ps_operation (ps ! i) \<noteq> ''DEFINE''"
    | (none) "i \<notin> rem" "ps_operation (ps ! i) = ''DEFINE''" "find_pair ps rem (ps ! i) [Suc i..<length ps] = None"
    | (pair) j where "i \<notin> rem" "ps_operation (ps ! i) = ''DEFINE''" "find_pair ps rem (ps ! i) [Suc i..<length ps] = Some j"
    by fastforce
  then show ?thesis
  proof cases
    case kept
    then have "fst (pass1_step ps i st) = rem" by (auto simp: st pass1_step_def)
    moreover have "defines_at ps k i \<longrightarrow> i \<in> rem" using kept D_op by blast
    ultimately show ?thesis using inv by (auto simp: inv1_def st less_Suc_eq)
  next
    case none
    then have f: "fst (pass1_step ps i st) = rem" by (simp add: st pass1_step_def)
    have "\<not> (defines_at ps k i \<and> (\<exists>r > i. removes_at ps k r))"
    proof
      assume "defines_at ps k i \<and> (\<exists>r > i. removes_at ps k r)"
      then obtain r where r: "defines_at ps k i" "removes_at ps k r" "i < r" by blast
      with none(3) later [OF r] D_R_same [OF pl r(1,2)] R_op [OF r(2)] show False
        by (auto simp: find_pair_None removes_at_def)
    qed
    then show ?thesis using inv f by (auto simp: inv1_def st less_Suc_eq)
  next
    case pair
    note fp = find_pair_Some [OF pair(3)]
    have f: "fst (pass1_step ps i st) = insert j (insert i rem)"
      using pair by (simp add: st pass1_step_def)
    have nR: "\<not> removes_at ps k i" using pair(2) R_op by fastforce
    have nD: "\<not> defines_at ps k j" using fp D_op by fastforce
    have Rj: "\<exists>d < Suc i. defines_at ps k d \<and> d < j \<and> (\<forall>l. d < l \<longrightarrow> l < j \<longrightarrow> \<not> removes_at ps k l)" if "removes_at ps k j"
    proof -
      have Di: "defines_at ps k i" using paired_is_D [OF pl i pair(2) _ that] fp by blast
      have "\<not> removes_at ps k l" if l: "i < l" "l < j" for l
      proof
        assume "removes_at ps k l"
        with later [OF Di this l(1)] fp D_R_same [OF pl Di this] R_op [OF this] l show False by blast
      qed
      with Di fp show ?thesis by blast
    qed
    have Di: "\<exists>r > i. removes_at ps k r" if "defines_at ps k i"
    proof -
      have "define_key (ps ! j) = k" "recognised (ps ! j)"
        using same_object_key [OF parsed_nth [OF pl i] parsed_nth [OF pl, of j]] fp that recognised_key [of "ps ! i" "ps ! j"]
        by (auto simp: defines_at_def defines_obj_def)
      then have "removes_at ps k j" using fp by (simp add: removes_at_def removes_obj_def)
      with fp show ?thesis by blast
    qed
    show ?thesis
      unfolding f inv1_def
    proof (intro conjI ballI allI impI, goal_cases)
      case (1 d)
      then show ?case using inv by (auto simp: inv1_def st less_Suc_eq)
    next
      case (2 r)
      then show ?case using Rj nR inv unfolding inv1_def st by (metis fst_conv insert_iff less_Suc_eq)
    next
      case (3 d)
      then show ?case using Di nD inv unfolding inv1_def st by (metis fst_conv insert_iff)
    qed
  qed
qed

lemma inv1_pass1:
  assumes "parsed_list ps" and "well_paired ps"
  shows "inv1 ps k (length ps) (fst (pass1 ps))"
  unfolding pass1_def
  by (rule fold_upt_invariant [where I = "\<lambda>i st. inv1 ps k i (fst st)"])
    (simp add: inv1_def, rule inv1_step [OF assms])

section \<open>The optimiser preserves the schema\<close>

lemma pass_mono:
  "fst st \<subseteq> fst (pass2 ps st)" "fst st \<subseteq> fst (pass3 ps st)"
proof -
  let ?I = "\<lambda>_ s. fst st \<subseteq> fst (snd s)"
  have "?I (length ps) (fold (pass2_step ps) [0..<length ps] (\<lambda>_. None, st))"
  proof (rule fold_upt_invariant [where I = ?I], goal_cases)
    case (2 i s)
    then show ?case by (cases s) (auto simp: pass2_step_def Let_def split: option.splits)
  qed simp
  then show "fst st \<subseteq> fst (pass2 ps st)" by (simp add: pass2_def)
  have "fst st \<subseteq> fst (fold (pass3_step ps keys) [0..<length ps] st)" for keys
  proof (rule fold_upt_invariant [where I = "\<lambda>_ s. fst st \<subseteq> fst s"], goal_cases)
    case (2 i s)
    then show ?case by (cases s) (auto simp: pass3_step_def)
  qed simp
  then show "fst st \<subseteq> fst (pass3 ps st)" by (simp add: pass3_def)
qed

text \<open>Pass two removes only statements that a later DEFINE of the same object supersedes.\<close>

lemma pass2_superseded:
  "\<forall>d \<in> fst (pass2 ps st) - fst st. ps_operation (ps ! d) = ''DEFINE''
     \<and> (\<exists>e > d. e < length ps \<and> ps_operation (ps ! e) = ''DEFINE'' \<and> define_key (ps ! e) = define_key (ps ! d))"
proof -
  let ?sup = "\<lambda>d. ps_operation (ps ! d) = ''DEFINE''
     \<and> (\<exists>e > d. e < length ps \<and> ps_operation (ps ! e) = ''DEFINE'' \<and> define_key (ps ! e) = define_key (ps ! d))"
  let ?I = "\<lambda>i s. (\<forall>key \<in> UNIV. \<forall>j. fst s key = Some j \<longrightarrow> j < i \<and> ps_operation (ps ! j) = ''DEFINE'' \<and> define_key (ps ! j) = key)
      \<and> (\<forall>d \<in> fst (snd s) - fst st. ?sup d)"
  have "?I (length ps) (fold (pass2_step ps) [0..<length ps] (\<lambda>_. None, st))"
  proof (rule fold_upt_invariant [where I = ?I], goal_cases)
    case 1
    then show ?case by simp
  next
    case (2 i s)
    obtain d rem n where s: "s = (d, rem, n)" by (cases s)
    note hyp = conjunct2 [OF 2(2)]
    show ?case
    proof (cases "i \<in> rem \<or> ps_operation (ps ! i) \<noteq> ''DEFINE''")
      case True
      with 2 show ?thesis by (auto simp: s pass2_step_def less_Suc_eq)
    next
      case False
      let ?key = "define_key (ps ! i)"
      have fst1: "fst (pass2_step ps i s) = d(?key \<mapsto> i)"
        using False by (auto simp: s pass2_step_def Let_def split: option.splits)
      have map: "\<forall>key \<in> UNIV. \<forall>j. (d(?key \<mapsto> i)) key = Some j \<longrightarrow> j < Suc i \<and> ps_operation (ps ! j) = ''DEFINE'' \<and> define_key (ps ! j) = key"
        using 2(2) False by (auto simp: s less_Suc_eq simp del: split_paired_All)
      have rem: "fst (snd (pass2_step ps i s)) \<subseteq> (case d ?key of Some x \<Rightarrow> insert x rem | None \<Rightarrow> rem)"
        using False by (auto simp: s pass2_step_def Let_def split: option.splits)
      have "?sup x" if "d ?key = Some x" for x
        using 2(1) 2(2) that False by (auto simp: s simp del: split_paired_All) 
      note old = this
      have all: "\<forall>x \<in> fst (snd (pass2_step ps i s)) - fst st. ?sup x"
      proof
        fix x
        assume x: "x \<in> fst (snd (pass2_step ps i s)) - fst st"
        with rem consider (before) "x \<in> rem" | (earlier) "d ?key = Some x" by (cases "d ?key") auto
        then show "?sup x"
        proof cases
          case before
          then have "x \<in> fst (snd s) - fst st" using x by (simp add: s)
          with hyp show ?thesis by blast
        next
          case earlier
          then show ?thesis by (rule old)
        qed
      qed
      show ?thesis unfolding fst1 by (rule conjI [OF map all])
    qed
  qed
  then show ?thesis by (simp add: pass2_def)
qed

lemma pass3_updates: "\<forall>i \<in> fst (pass3 ps st) - fst st. ps_operation (ps ! i) = ''UPDATE''"
  using pass3_removable [of st "\<lambda>i. i \<in> fst st \<or> ps_operation (ps ! i) = ''UPDATE''" ps] by auto

lemma last_filter_filter:
  "xs \<noteq> [] \<Longrightarrow> P (last xs) \<Longrightarrow> filter P xs \<noteq> [] \<and> last (filter P xs) = last xs"
  by (cases xs rule: rev_cases) auto

lemma touch_indices:
  "filter (touches k) (map (\<lambda>i. ps ! i) is) = map (\<lambda>i. ps ! i) (filter (\<lambda>i. touches k (ps ! i)) is)"
  by (simp add: filter_map o_def)

lemma last_greatest: "sorted xs \<Longrightarrow> distinct xs \<Longrightarrow> x \<in> set xs \<Longrightarrow> x \<le> last (xs :: nat list)"
  by (cases xs rule: rev_cases) (auto simp: sorted_append)

lemma optimize_schema_key:
  fixes ss :: "string list" and st :: schema_state and k :: define_key
  defines "ps \<equiv> map parseStatement ss"
  assumes wp: "well_paired ps" and fresh: "\<forall>p \<in> set ps. ps_operation p = ''DEFINE'' \<longrightarrow> st (define_key p) = None"
  shows "schema_after (fst (optimizeStatements ss)) st k = schema_after ss st k"
proof -
  let ?rem = "fst (final_removal ss)" and ?n = "length ss"
  let ?T = "filter (\<lambda>i. touches k (ps ! i)) [0..<?n]"
  let ?T' = "filter (\<lambda>i. i \<notin> ?rem) ?T"
  have pl: "parsed_list ps" and len: "length ps = ?n" by (auto simp: parsed_list_def ps_def)
  have fin: "?rem = fst (pass3 ps (pass2 ps (pass1 ps)))" by (simp add: final_removal_def ps_def Let_def)
  note inv = inv1_pass1 [OF pl wp, of k, unfolded inv1_def len]
  have all: "map parseStatement ss = map (\<lambda>i. ps ! i) [0..<?n]" by (metis len map_nth ps_def)
  have out: "map parseStatement (fst (optimizeStatements ss)) = map (\<lambda>i. ps ! i) (filter (\<lambda>i. i \<notin> ?rem) [0..<?n])"
    by (simp add: optimizeStatements_eq ps_def o_def)
  have fT: "filter (touches k) (map parseStatement ss) = map (\<lambda>i. ps ! i) ?T"
    unfolding all by (rule touch_indices)
  have fT': "filter (touches k) (map parseStatement (fst (optimizeStatements ss))) = map (\<lambda>i. ps ! i) ?T'"
    unfolding out touch_indices by (simp add: conj_commute)
  have T: "i \<in> set ?T \<longleftrightarrow> i < ?n \<and> (defines_at ps k i \<or> removes_at ps k i)" for i
    by (auto simp: touches_def defines_at_def removes_at_def len)
  have top: "i \<in> set ?T \<Longrightarrow> i \<le> last ?T" for i by (intro last_greatest) (auto intro: sorted_wrt_filter)
  have opD: "ps_operation (ps ! i) = ''DEFINE''" if "defines_at ps k i" for i
    using that by (simp add: defines_at_def defines_obj_def)
  have opR: "ps_operation (ps ! i) = ''REMOVE''" if "removes_at ps k i" for i
    using that by (simp add: removes_at_def removes_obj_def)
  have removedR: "\<exists>d. defines_at ps k d" if "removes_at ps k r" "r \<in> ?rem" for r
  proof -
    have "r \<in> fst (pass1 ps)"
    proof (rule ccontr)
      assume "r \<notin> fst (pass1 ps)"
      then have "r \<in> fst (pass3 ps (pass2 ps (pass1 ps))) - fst (pass2 ps (pass1 ps)) \<or> r \<in> fst (pass2 ps (pass1 ps)) - fst (pass1 ps)"
        using that(2) unfolding fin by blast
      then have "ps_operation (ps ! r) = ''UPDATE'' \<or> ps_operation (ps ! r) = ''DEFINE''"
        using pass3_updates [of ps "pass2 ps (pass1 ps)"] pass2_superseded [of ps "pass1 ps"] by blast
      with opR [OF that(1)] show False by simp
    qed
    with inv that(1) show ?thesis by blast
  qed
  show ?thesis
  proof (cases "?T = []")
    case True
    then have "?T' = []" by simp
    with True show ?thesis unfolding schema_after_def schema_fold fT fT' by simp
  next
    case False
    let ?l = "last ?T"
    have l: "?l \<in> set ?T" by (rule last_in_set [OF False])
    show ?thesis
    proof (cases "defines_at ps k ?l")
      case True
      have "?l \<notin> ?rem"
      proof
        assume "?l \<in> ?rem"
        have "?l \<in> fst (pass2 ps (pass1 ps))"
        proof (rule ccontr)
          assume "?l \<notin> fst (pass2 ps (pass1 ps))"
          with \<open>?l \<in> ?rem\<close> have "ps_operation (ps ! ?l) = ''UPDATE''"
            using pass3_updates [of ps "pass2 ps (pass1 ps)"] unfolding fin by blast
          with opD [OF True] show False by (simp del: filter.simps)
        qed
        then consider "?l \<in> fst (pass1 ps)" | "?l \<in> fst (pass2 ps (pass1 ps)) - fst (pass1 ps)" by blast
        then show False
        proof cases
          case 1
          with inv True obtain r where r: "r > ?l" "removes_at ps k r" by blast
          then have "r \<in> set ?T" using T len by (simp add: removes_at_def)
          with top [of r] r show False by simp
        next
          case 2
          then obtain e where e: "e > ?l" "e < ?n" "ps_operation (ps ! e) = ''DEFINE''" "define_key (ps ! e) = define_key (ps ! ?l)"
            using pass2_superseded [of ps "pass1 ps"] len by auto
          then have "defines_at ps k e" using True recognised_key [OF e(4)] len by (simp add: defines_at_def defines_obj_def)
          then have "e \<in> set ?T" using T e(2) by simp
          with top [of e] e show False by simp
        qed
      qed
      then have "?T' \<noteq> [] \<and> last ?T' = ?l" by (intro last_filter_filter False)
      with False True show ?thesis
        unfolding schema_after_def schema_fold fT fT' by (simp add: last_map defines_at_def del: filter_filter)
    next
      case notD: False
      then have R: "removes_at ps k ?l" using l T by blast
      have orig: "schema_after ss st k = None"
        using notD False l len unfolding schema_after_def schema_fold fT by (simp add: last_map defines_at_def)
      have "i \<in> ?rem" if "defines_at ps k i" for i
      proof -
        have "i < ?n" using that len by (simp add: defines_at_def)
        then have "i < ?l" using top [of i] T that notD by (metis le_neq_implies_less)
        then have "i \<in> fst (pass1 ps)" using inv that R \<open>i < ?n\<close> by blast
        then show ?thesis using pass_mono(1) [of "pass1 ps" ps] pass_mono(2) [of "pass2 ps (pass1 ps)" ps] unfolding fin by blast
      qed
      then have noD: "\<not> defines_obj k (ps ! i)" if "i \<in> set ?T'" for i
        using that len by (auto simp: defines_at_def)
      show ?thesis
      proof (cases "?T' = []")
        case True
        then have "?l \<in> ?rem" using l by (auto simp: filter_empty_conv)
        then obtain d where d: "defines_at ps k d" using removedR [OF R] by blast
        then have "ps ! d \<in> set ps" "define_key (ps ! d) = k" by (simp_all add: defines_at_def defines_obj_def)
        then have "st k = None" using fresh opD [OF d] by auto
        with True orig show ?thesis by (simp add: schema_after_def [of "fst (optimizeStatements ss)"] schema_fold fT' del: filter_filter)
      next
        case ne: False
        have "\<not> defines_obj k (ps ! last ?T')" by (rule noD) (rule last_in_set [OF ne])
        with ne orig show ?thesis
          by (simp add: schema_after_def [of "fst (optimizeStatements ss)"] schema_fold fT' last_map del: filter_filter)
      qed
    qed
  qed
qed



section \<open>Where the optimiser changes the result\<close>

text \<open>Defined, redefined, removed: the first definition is paired with the removal, the second survives.\<close>

lemma redefined_then_removed:
  "optimizeStatements [''DEFINE TABLE t;'', ''DEFINE TABLE t DROP;'', ''REMOVE TABLE t;''] = ([''DEFINE TABLE t DROP;''], 2)"
  by code_simp

text \<open>Definitions the patterns do not recognise share the empty key: all but the last are lost.\<close>

lemma unrecognised_defines_lost:
  "optimizeStatements [''DEFINE ANALYZER a;'', ''DEFINE ANALYZER b;''] = ([''DEFINE ANALYZER b;''], 1)"
  by code_simp

lemma nested_fields_lost:
  "optimizeStatements [''DEFINE FIELD a.b ON t TYPE int;'', ''DEFINE FIELD a.c ON t TYPE int;'']
     = ([''DEFINE FIELD a.c ON t TYPE int;''], 1)"
  by code_simp

text \<open>A table that is defined and removed leaves its fields behind.\<close>

lemma fields_of_removed_table_stay:
  "optimizeStatements [''DEFINE TABLE t;'', ''DEFINE FIELD a ON t;'', ''REMOVE TABLE t;''] = ([''DEFINE FIELD a ON t;''], 2)"
  by code_simp

text \<open>An UPDATE of a field that is only redefined, never removed, is dropped.\<close>

lemma update_of_redefined_field_dropped:
  "optimizeStatements [''DEFINE FIELD a ON t TYPE int;'', ''UPDATE t SET a = 1;'', ''DEFINE FIELD a ON t TYPE string;'']
     = ([''DEFINE FIELD a ON t TYPE string;''], 2)"
  by code_simp

section \<open>The squashed file\<close>

lemma str_index_first:
  "\<forall>i < length a. \<not> has_prefix (drop i (a @ b)) p \<Longrightarrow> has_prefix b p \<Longrightarrow> str_index (a @ b) p = Some (length a)"
proof (induction a)
  case Nil
  then show ?case by (cases b) (auto simp: has_prefix_def)
next
  case (Cons x a)
  have "\<not> has_prefix (x # a @ b) p" using Cons.prems(1) by (metis append_Cons drop0 length_greater_0_conv list.distinct(1))
  moreover have "\<forall>i < length a. \<not> has_prefix (drop i (a @ b)) p"
    using Cons.prems(1) by (metis append_Cons drop_Suc_Cons length_Cons Suc_less_eq)
  ultimately show ?case using Cons.IH Cons.prems(2) by simp
qed

lemma first_newline:
  assumes "newline \<notin> set x" and "newline \<notin> set y" and eq: "x @ newline # r = y @ newline # q"
  shows "x = y"
proof -
  have "takeWhile (\<lambda>c. c \<noteq> newline) (x @ newline # r) = x" by (rule takeWhile_append_stop) (use assms in auto)
  moreover have "takeWhile (\<lambda>c. c \<noteq> newline) (y @ newline # q) = y" by (rule takeWhile_append_stop) (use assms in auto)
  ultimately show ?thesis unfolding eq by simp
qed

lemma drop_inside: "i < length (xs @ [c]) \<Longrightarrow> drop i ((xs @ [c]) @ ys) = drop i xs @ c # ys"
  by simp

lemma splice_squashed:
  assumes d: "header_text d" "d \<noteq> []" and s: "\<not> has_suffix (''-- @description: '' @ d) ''-- @up''"
    and x: "newline \<notin> set x"
  shows "splice_header [x] (renderMigrationContent d [] up down)
    = Inr (''-- @description: '' @ d @ [newline] @ x @ [newline] @ renderMigrationContent [] [] up down)"
proof -
  let ?L = "''-- @description: '' @ d" and ?r = "renderMigrationContent [] [] up down"
  have body: "renderMigrationContent d [] up down = (?L @ [newline]) @ ?r"
    using d by (simp add: renderMigrationContent_def)
  have nl: "newline \<notin> set ?L" using d by (simp add: header_text_def)
  have r: "has_prefix ?r (''-- @up'' @ [newline])" by (simp add: renderMigrationContent_def)
  have "\<not> has_prefix (drop i ((?L @ [newline]) @ ?r)) (''-- @up'' @ [newline])" if "i < length (?L @ [newline])" for i
  proof
    assume "has_prefix (drop i ((?L @ [newline]) @ ?r)) (''-- @up'' @ [newline])"
    then obtain q where "drop i ((?L @ [newline]) @ ?r) = ''-- @up'' @ newline # q"
      by (auto simp only: has_prefix_iff append_assoc append_Cons append_Nil)
    moreover have "drop i ((?L @ [newline]) @ ?r) = drop i ?L @ newline # ?r" by (rule drop_inside [OF that])
    ultimately have "drop i ?L @ newline # ?r = ''-- @up'' @ newline # q" by simp
    then have "drop i ?L = ''-- @up''"
      by (rule first_newline [rotated 2]) (use nl in \<open>auto dest: in_set_dropD\<close>)
    then have "?L = take i ?L @ ''-- @up''" by (metis append_take_drop_id)
    with s show False by (metis has_suffix_append)
  qed
  then have "str_index (renderMigrationContent d [] up down) (''-- @up'' @ [newline]) = Some (length (?L @ [newline]))"
    unfolding body by (intro str_index_first r) blast
  moreover have "render_statement x = x @ [newline]"
    using x by (cases x rule: rev_cases) (auto simp: render_statement_def has_suffix_def)
  ultimately show ?thesis unfolding splice_header_def by (simp add: body)
qed

lemma trim_prefixed:
  "trim_space (''-- @squashed-from: '' @ v) = ''-- @squashed-from: '' @ trim_right v
   \<or> trim_space (''-- @squashed-from: '' @ v) = ''-- @squashed-from:''"
proof (cases "trim_right v = []")
  case True
  then have "dropWhile is_space (rev v) = []" by (simp add: trim_right_def)
  then have "\<forall>c \<in> set v. is_space c" by (simp add: dropWhile_eq_Nil_conv)
  then have "dropWhile is_space (rev v @ rev ''-- @squashed-from: '') = dropWhile is_space (rev ''-- @squashed-from: '')"
    by (subst dropWhile_append) auto
  then show ?thesis by (simp add: trim_space_def trim_left_def trim_right_def is_space_def)
next
  case False
  then have "\<exists>c \<in> set (rev v). \<not> is_space c" by (auto simp: trim_right_def dropWhile_eq_Nil_conv)
  then obtain c where "c \<in> set (rev v)" "\<not> is_space c" by blast
  then have "dropWhile is_space (rev v @ w) = dropWhile is_space (rev v) @ w" for w
    by (rule dropWhile_append1)
  then show ?thesis by (simp add: trim_space_def trim_left_def trim_right_def is_space_def)
qed

lemma has_suffix_iff: "has_suffix s p \<longleftrightarrow> (\<exists>t. s = t @ p)"
  by (metis append_take_drop_id has_suffix_append has_suffix_def)

lemma description_suffix: "has_suffix (''-- @description: '' @ d) ''-- @up'' \<Longrightarrow> has_suffix d ''-- @up''"
proof -
  assume "has_suffix (''-- @description: '' @ d) ''-- @up''"
  then obtain t where t: "''-- @description: '' @ d = t @ ''-- @up''" by (auto simp only: has_suffix_iff)
  then obtain u where "''-- @description: '' = t @ u \<and> u @ d = ''-- @up'' \<or> ''-- @description: '' @ u = t \<and> d = u @ ''-- @up''"
    by (auto simp only: append_eq_append_conv2)
  then show ?thesis
  proof
    assume a: "''-- @description: '' = t @ u \<and> u @ d = ''-- @up''"
    then have "suffix u ''-- @description: ''" by (auto simp only: suffix_def)
    moreover have "prefix u (u @ d)" by (rule prefixI) simp
    then have "prefix u ''-- @up''" using a by (simp only:)
    ultimately have "suffix u ''-- @description: ''" "prefix u ''-- @up''" .
    then have "u \<in> set (suffixes ''-- @description: '')" "u \<in> set (prefixes ''-- @up'')"
      by (simp_all only: in_set_suffixes in_set_prefixes)
    then have "u = []" by auto
    with a show ?thesis using has_suffix_append [of "[]" "''-- @up''"] by simp
  qed (use has_suffix_append in auto)
qed

lemma spliced_parses:
  assumes d: "header_text d" "d \<noteq> []" and "list_all good_statement up" and "list_all good_statement down"
    and v: "newline \<notin> set v" "carriage \<notin> set v" 
  shows "parseMigrationContent (''-- @description: '' @ d @ [newline] @ (''-- @squashed-from: '' @ v) @ [newline] @ renderMigrationContent [] [] up down)
    = Inr \<lparr>p_description = d, p_depends_on = [], p_up = up, p_down = down\<rparr>"
    (is "parseMigrationContent ?body = _")
proof -
  let ?x = "''-- @squashed-from: '' @ v"
  have nil: "header_text []" "list_all good_dependency []" by (simp_all add: header_text_def trimmed_def)
  have xs: "trim_space ?x = ''-- @squashed-from: '' @ trim_right v \<or> trim_space ?x = ''-- @squashed-from:''"
    by (rule trim_prefixed)
  have hl: "header_line ?x p = p" for p
    using xs by (auto simp: header_line_def Let_def marker_defs)
  have xm: "trim_space ?x \<noteq> markerUp \<and> trim_space ?x \<noteq> markerDown"
    using xs by (auto simp: marker_defs)
  have l1: "split_on newline ((''-- @description: '' @ d) @ newline # r) = (''-- @description: '' @ d) # split_on newline r" for r
    using d by (intro split_on_append) (simp add: header_text_def)
  have l2: "split_on newline (?x @ newline # r) = ?x # split_on newline r" for r
    using v by (intro split_on_append) simp
  have lines: "split_on newline ?body = (header_lines d [] @ [?x]) @ [markerUp] @ concat (map (split_on newline) up)
      @ [markerDown] @ concat (map (split_on newline) down) @ [[]]"
    using l1 [of "?x @ newline # renderMigrationContent [] [] up down"] l2 [of "renderMigrationContent [] [] up down"]
      rendered_lines [OF nil assms(3,4)] d by (simp add: header_lines_def)
  have "carriage \<notin> set ?body"
    using d v rendered_no_carriage [OF nil assms(3,4)] by (simp add: header_text_def)
  from parse_sections [OF this assms(3,4) _ lines] show ?thesis
    using header_line_shape [OF _ d(1) nil(2)] xm header_fold [OF d(1) nil(2)] hl by simp
qed

lemma optimize_good: "list_all good_statement ss \<Longrightarrow> list_all good_statement (fst (optimizeStatements ss))"
  using subseq_nth_filter [of ss] by (simp add: optimizeStatements_eq list_all_iff)

definition squash_description :: "squash_options \<Rightarrow> migration list \<Rightarrow> string" where
  "squash_description opts ms =
     (if trim_space (so_description opts) = []
      then ''squashed_'' @ mg_version (hd ms) @ ''_to_'' @ mg_version (last ms) else so_description opts)"

definition squashed_up :: "squash_options \<Rightarrow> migration list \<Rightarrow> string list" where
  "squashed_up opts ms =
     (if so_optimize opts = Some False then concat (map mg_up ms) else fst (optimizeStatements (concat (map mg_up ms))))"

lemma squash_writes:
  assumes v: "timestamp v" and dir: "trim_space dir \<noteq> []" and io: "io_mkdir io = None" "io_write io = None"
    and d: "header_text d" "d \<noteq> []" "\<not> has_suffix (''-- @description: '' @ d) ''-- @up''"
    and r: "newline \<notin> set r" "carriage \<notin> set r"
    and good: "list_all good_statement up" "list_all good_statement down"
  shows "\<exists>content. LoadMigration (io_sha io) (io_join io (BuildFilename v d)) (BuildFilename v d) (FsFile content)
       = Inr \<lparr>mg_version = v, mg_description = d, mg_path = io_join io (BuildFilename v d), mg_up = up, mg_down = down,
              mg_checksum = io_sha io content, mg_depends_on = []\<rparr>
    \<and> writeSquashedMigrationFile io v d d [''-- @squashed-from: '' @ r] up down dir fs
       = (Inr \<lparr>mg_version = v, mg_description = d, mg_path = io_join io (BuildFilename v d), mg_up = up, mg_down = down,
              mg_checksum = io_sha io content, mg_depends_on = []\<rparr>, fmupd (BuildFilename v d) content fs)"
proof -
  let ?f = "BuildFilename v d"
  define x where "x = ''-- @squashed-from: '' @ r"
  define body where "body = ''-- @description: '' @ d @ [newline] @ x @ [newline] @ renderMigrationContent [] [] up down"
  have name: "ValidateMigrationName ?f" "GetVersionFromFilename ?f = Some v"
    using BuildFilename_name [OF v] by simp_all
  have "parseMigrationContent body = Inr \<lparr>p_description = d, p_depends_on = [], p_up = up, p_down = down\<rparr>"
    using spliced_parses [OF d(1,2) good r] unfolding body_def x_def .
  then have load: "LoadMigration (io_sha io) (io_join io ?f) ?f (FsFile body)
       = Inr \<lparr>mg_version = v, mg_description = d, mg_path = io_join io ?f, mg_up = up, mg_down = down,
              mg_checksum = io_sha io body, mg_depends_on = []\<rparr>"
    using name d(2) by (simp add: LoadMigration_def)
  have "newline \<notin> set x" using r by (simp add: x_def)
  from splice_squashed [OF d this] have "splice_header [x] (renderMigrationContent d [] up down) = Inr body"
    unfolding body_def .
  with load dir io name show ?thesis
    unfolding x_def [symmetric] by (intro exI [of _ body]) (simp add: writeSquashedMigrationFile_def Let_def)
qed

text \<open>
  Squashing the selected range of discovered migrations: with at least two of
  them, no DELETE among their statements, well-formed statements and a one-line description,
  the call succeeds, adds exactly one file and leaves the sources alone; the file, loaded as
  discovery would load it, has the merged (and, unless switched off, optimised) up statements in
  version order and the merged down statements with everything reversed; and the result reports
  its path, version and checksum, and the numbers of migrations and statements.
\<close>

theorem squash_migrations:
  assumes "timestamp v" and "trim_space directory \<noteq> []" and "io_mkdir io = None" and "io_write io = None"
    and "so_dir opts = None" and "\<not> so_dry_run opts"
    and "ms = filterMigrationsByVersion all from to" and "2 \<le> length ms"
    and "\<forall>w \<in> set (validateSquashSafety ms). sw_severity w \<noteq> ''high''"
    and "\<forall>m \<in> set ms. list_all good_statement (mg_up m) \<and> list_all good_statement (mg_down m)"
    and "header_text (squash_description opts ms)" and "\<not> has_suffix (squash_description opts ms) ''-- @up''"
    and "\<forall>m \<in> set ms. newline \<notin> set (mg_version m) \<and> carriage \<notin> set (mg_version m)"
  shows "\<exists>content m res. SquashMigrationsWithOptions io v None (Inr all) directory from to opts fs
        = (Inr res, fmupd (BuildFilename v (squash_description opts ms)) content fs)
    \<and> LoadMigration (io_sha io) (sr_path res) (BuildFilename v (squash_description opts ms)) (FsFile content) = Inr m
    \<and> mg_up m = squashed_up opts ms \<and> mg_down m = rev (concat (map mg_down ms))
    \<and> sr_version res = mg_version m \<and> mg_version m = v \<and> sr_checksum res = mg_checksum m
    \<and> sr_originals res = map mg_version ms \<and> sr_original_count res = length ms
    \<and> sr_statement_count res = length (mg_up m)
    \<and> sr_statement_count res + sr_optimizations res = length (concat (map mg_up ms))"
proof -
  let ?d = "squash_description opts ms" and ?up = "squashed_up opts ms"
  let ?down = "concat (map (\<lambda>m. rev (mg_down m)) (rev ms))"
  let ?r = "mg_version (hd ms) @ ''..'' @ mg_version (last ms)"
  have ms: "ms \<noteq> []" using assms(8) by auto
  then have "all \<noteq> []" unfolding assms(7) filterMigrationsByVersion_def by (cases all) simp_all
  note ms = ms this
  have down: "?down = rev (concat (map mg_down ms))" by (simp add: rev_concat rev_map o_def)
  have "list_all good_statement (concat (map mg_up ms))" using assms(10) by (auto simp: list_all_iff)
  then have gup: "list_all good_statement ?up" using optimize_good by (simp add: squashed_up_def)
  have gdown: "list_all good_statement ?down" using assms(10) by (auto simp: list_all_iff)
  have dne: "?d \<noteq> []" by (auto simp: squash_description_def trim_space_def trim_left_def trim_right_def)
  have suf: "\<not> has_suffix (''-- @description: '' @ ?d) ''-- @up''"
    using description_suffix assms(12) by blast
  have r: "newline \<notin> set ?r" "carriage \<notin> set ?r" using assms(13) ms(1) by auto
  from squash_writes [OF assms(1-4) assms(11) dne suf r gup gdown] obtain content where
    load: "LoadMigration (io_sha io) (io_join io (BuildFilename v ?d)) (BuildFilename v ?d) (FsFile content)
       = Inr \<lparr>mg_version = v, mg_description = ?d, mg_path = io_join io (BuildFilename v ?d), mg_up = ?up, mg_down = ?down,
              mg_checksum = io_sha io content, mg_depends_on = []\<rparr>"
    and wr: "writeSquashedMigrationFile io v ?d ?d [''-- @squashed-from: '' @ ?r] ?up ?down directory fs
       = (Inr \<lparr>mg_version = v, mg_description = ?d, mg_path = io_join io (BuildFilename v ?d), mg_up = ?up, mg_down = ?down,
              mg_checksum = io_sha io content, mg_depends_on = []\<rparr>, fmupd (BuildFilename v ?d) content fs)"
    by blast
  define applied where "applied = (if so_optimize opts = Some False then 0 else snd (optimizeStatements (concat (map mg_up ms))))"
  have opt: "(if case so_optimize opts of Some b \<Rightarrow> b | None \<Rightarrow> True then optimizeStatements (concat (map mg_up ms))
      else (concat (map mg_up ms), 0)) = (?up, applied)"
    by (auto simp: squashed_up_def applied_def split: option.splits)
  have high: "filter (\<lambda>w. sw_severity w = ''high'') (validateSquashSafety ms) = []"
    using assms(9) by (simp add: filter_empty_conv)
  let ?res = "\<lparr>sr_path = io_join io (BuildFilename v ?d), sr_version = v, sr_checksum = io_sha io content,
      sr_original_count = length ms, sr_statement_count = length ?up, sr_optimizations = applied,
      sr_originals = map mg_version ms, sr_warnings = validateSquashSafety ms\<rparr>"
  have "SquashMigrationsWithOptions io v None (Inr all) directory from to opts fs
      = (Inr ?res, fmupd (BuildFilename v ?d) content fs)"
    using wr ms assms(5,6,8) unfolding SquashMigrationsWithOptions_def option.case sum.case assms(7) [symmetric] Let_def
      squash_description_def [symmetric] opt high
    by simp
  moreover have "length ?up + applied = length (concat (map mg_up ms))"
    using optimized_length [of "concat (map mg_up ms)"] by (auto simp: squashed_up_def applied_def)
  ultimately show ?thesis using load down by (intro exI [of _ content] exI [of _ ?res]) simp
qed

definition sample_squash :: "migration list" where
  "sample_squash =
     [\<lparr>mg_version = ''20260101_000000'', mg_description = ''a'', mg_path = ''a'',
       mg_up = [''DEFINE TABLE a;'', ''DEFINE TABLE b;''], mg_down = [''REMOVE TABLE b;'', ''REMOVE TABLE a;''],
       mg_checksum = [], mg_depends_on = []\<rparr>,
      \<lparr>mg_version = ''20260101_000001'', mg_description = ''b'', mg_path = ''b'',
       mg_up = [''REMOVE TABLE a;''], mg_down = [''DEFINE TABLE a;''], mg_checksum = [], mg_depends_on = []\<rparr>]"

definition sample_options :: squash_options where
  "sample_options = \<lparr>so_description = ''merged'', so_dir = None, so_optimize = None, so_dry_run = False\<rparr>"

lemma good_sample:
  "good_statement ''DEFINE TABLE a;''" "good_statement ''DEFINE TABLE b;''"
  "good_statement ''REMOVE TABLE a;''" "good_statement ''REMOVE TABLE b;''"
proof -
  have one: "good_statement (b @ '';'')" if "b \<noteq> []" "trimmed b" "CHR '';'' \<notin> set b" "carriage \<notin> set b"
    "list_all code_line (split_on newline (b @ '';''))" for b
    using that by (auto simp: good_statement_def)
  show "good_statement ''DEFINE TABLE a;''" "good_statement ''DEFINE TABLE b;''"
    "good_statement ''REMOVE TABLE a;''" "good_statement ''REMOVE TABLE b;''"
    using one [of "''DEFINE TABLE a''"] one [of "''DEFINE TABLE b''"] one [of "''REMOVE TABLE a''"] one [of "''REMOVE TABLE b''"]
    by (simp_all add: trimmed_def is_space_def split_on_def code_line_def trim_space_def trim_left_def trim_right_def)
qed

lemma squashed_sample:
  "squashed_up sample_options sample_squash = [''DEFINE TABLE b;'']"
  "filterMigrationsByVersion sample_squash [] [] = sample_squash"
  "list_all (\<lambda>w. sw_severity w \<noteq> ''high'') (validateSquashSafety sample_squash)"
  "squash_description sample_options sample_squash = ''merged''"
  "length (concat (map mg_up sample_squash)) = 3"
  "map mg_version sample_squash = [''20260101_000000'', ''20260101_000001'']"
  by code_simp+

theorem squash_migrations_witness:
  "\<exists>res fs. SquashMigrationsWithOptions sample_io ''20260102_120000'' None (Inr sample_squash) ''migrations'' [] [] sample_options fmempty
     = (Inr res, fs)
   \<and> sr_originals res = [''20260101_000000'', ''20260101_000001''] \<and> sr_statement_count res = 1 \<and> sr_optimizations res = 2"
proof -
  have "\<exists>content m res. SquashMigrationsWithOptions sample_io ''20260102_120000'' None (Inr sample_squash) ''migrations'' [] [] sample_options fmempty
        = (Inr res, fmupd (BuildFilename ''20260102_120000'' (squash_description sample_options sample_squash)) content fmempty)
    \<and> LoadMigration (io_sha sample_io) (sr_path res) (BuildFilename ''20260102_120000'' (squash_description sample_options sample_squash))
        (FsFile content) = Inr m
    \<and> mg_up m = squashed_up sample_options sample_squash \<and> mg_down m = rev (concat (map mg_down sample_squash))
    \<and> sr_version res = mg_version m \<and> mg_version m = ''20260102_120000'' \<and> sr_checksum res = mg_checksum m
    \<and> sr_originals res = map mg_version sample_squash \<and> sr_original_count res = length sample_squash
    \<and> sr_statement_count res = length (mg_up m)
    \<and> sr_statement_count res + sr_optimizations res = length (concat (map mg_up sample_squash))"
  proof (rule squash_migrations [OF timestamp_sample])
    show "\<forall>m \<in> set sample_squash. list_all good_statement (mg_up m) \<and> list_all good_statement (mg_down m)"
      using good_sample by (simp add: sample_squash_def)
    show "\<forall>w \<in> set (validateSquashSafety sample_squash). sw_severity w \<noteq> ''high''"
      using squashed_sample(3) by (simp add: list_all_iff)
    show "sample_squash = filterMigrationsByVersion sample_squash [] []" by (simp add: squashed_sample(2))
    show "\<not> has_suffix (squash_description sample_options sample_squash) ''-- @up''"
      unfolding squashed_sample(4) by code_simp
  qed (simp_all add: sample_io_def sample_options_def sample_squash_def trim_space_def trim_left_def trim_right_def is_space_def
        squash_description_def header_text_def trimmed_def)
  then show ?thesis unfolding squashed_sample by auto
qed

end
