(* ===== verification/Go_Values.thy ===== *)
theory Go_Values
  imports Complex_Main Surql_Errors
begin

text \<open>
  Dynamic values of Go (\<open>any\<close>, \<open>map[string]any\<close>) as the packages exchange them with the database
  SDK, and \<open>float64\<close> numbers. A finite float is the rational it denotes (the sign of zero is not
  kept, no source distinguishes it); rounding of a product, \<open>math.Pow\<close> and the parser of decimal
  fractions are parameters where they are used.
\<close>

section \<open>Floats\<close>

datatype go_float = Fin rat | PInf | NInf | NaN

fun fl_less :: "go_float \<Rightarrow> go_float \<Rightarrow> bool" where
  "fl_less NaN _ = False"
| "fl_less _ NaN = False"
| "fl_less (Fin x) (Fin y) = (x < y)"
| "fl_less NInf NInf = False"
| "fl_less NInf _ = True"
| "fl_less PInf _ = False"
| "fl_less _ PInf = True"
| "fl_less _ NInf = False"

fun fl_eq :: "go_float \<Rightarrow> go_float \<Rightarrow> bool" where
  "fl_eq (Fin x) (Fin y) = (x = y)"
| "fl_eq PInf PInf = True"
| "fl_eq NInf NInf = True"
| "fl_eq _ _ = False"

definition fl_le :: "go_float \<Rightarrow> go_float \<Rightarrow> bool" where
  "fl_le a b \<longleftrightarrow> fl_less a b \<or> fl_eq a b"

lemma fl_less_Fin [simp]: "fl_less (Fin x) (Fin y) \<longleftrightarrow> x < y"
  by simp

lemma fl_le_Fin [simp]: "fl_le (Fin x) (Fin y) \<longleftrightarrow> x \<le> y"
  by (auto simp: fl_le_def)

lemma fl_not_less: "a \<noteq> NaN \<Longrightarrow> b \<noteq> NaN \<Longrightarrow> \<not> fl_less a b \<longleftrightarrow> fl_le b a"
  by (cases a; cases b) (auto simp: fl_le_def)

lemma fl_le_trans: "fl_le a b \<Longrightarrow> fl_le b c \<Longrightarrow> fl_le a c"
  by (cases a; cases b; cases c) (auto simp: fl_le_def)

lemma fl_le_refl: "a \<noteq> NaN \<Longrightarrow> fl_le a a"
  by (cases a) (auto simp: fl_le_def)

lemma fl_le_not_NaN: "fl_le a b \<Longrightarrow> a \<noteq> NaN \<and> b \<noteq> NaN"
  by (cases a; cases b) (auto simp: fl_le_def)

lemma fl_less_le: "fl_less a b \<Longrightarrow> fl_le a b"
  by (simp add: fl_le_def)

text \<open>Conversion to \<open>int64\<close> truncates; what does not fit is the hardware's, on the common
  platforms the least integer.\<close>

definition trunc_rat :: "rat \<Rightarrow> int" where
  "trunc_rat x = (if 0 \<le> x then \<lfloor>x\<rfloor> else \<lceil>x\<rceil>)"

fun float_to_int64 :: "go_float \<Rightarrow> int64" where
  "float_to_int64 (Fin x) =
     (if - (2 ^ 63) \<le> trunc_rat x \<and> trunc_rat x < 2 ^ 63 then word_of_int (trunc_rat x) else word_of_int (- (2 ^ 63)))"
| "float_to_int64 _ = word_of_int (- (2 ^ 63))"

section \<open>Values\<close>

text \<open>The kinds the type switches of the sources tell apart. \<open>OtherV\<close> is a value of any other
  type, of which only its \<open>%v\<close> text matters. A map lists its entries, in the order a \<open>range\<close> loop
  visits them, each key once.\<close>

datatype any =
    NilV
  | BoolV bool
  | IntV int64 | Int32V "32 word" | Int64V int64
  | UintV "64 word" | Uint32V "32 word" | Uint64V "64 word"
  | Float32V go_float | Float64V go_float
  | StrV string
  | TimeV gotime
  | ListV "any list"
  | MapV "(string \<times> any) list"
  | OtherV string

type_synonym go_map = "(string \<times> any) list"

abbreviation map_get :: "go_map \<Rightarrow> string \<Rightarrow> any option" where
  "map_get \<equiv> map_of"

text \<open>\<open>m[k]\<close> of a missing key is nil.\<close>

definition map_index :: "go_map \<Rightarrow> string \<Rightarrow> any" where
  "map_index m k = (case map_of m k of Some v \<Rightarrow> v | None \<Rightarrow> NilV)"

definition map_put :: "string \<Rightarrow> any \<Rightarrow> go_map \<Rightarrow> go_map" where
  "map_put k v m = (if k \<in> fst ` set m then map (\<lambda>(k', v'). if k' = k then (k', v) else (k', v')) m else m @ [(k, v)])"

lemma map_of_put: "map_of (map_put k v m) = (map_of m)(k \<mapsto> v)"
proof -
  have "map_of (map (\<lambda>(k', v'). if k' = k then (k', v) else (k', v')) m)
      = (if k \<in> fst ` set m then (map_of m)(k \<mapsto> v) else map_of m)"
    by (induction m) (auto simp: fun_eq_iff)
  then show ?thesis by (auto simp: map_put_def map_add_def fun_eq_iff split: option.splits dest: map_of_SomeD)
    (metis fst_conv image_eqI map_of_SomeD)+
qed

definition as_string :: "any \<Rightarrow> string option" where
  "as_string v = (case v of StrV s \<Rightarrow> Some s | _ \<Rightarrow> None)"

definition as_list :: "any \<Rightarrow> any list option" where
  "as_list v = (case v of ListV xs \<Rightarrow> Some xs | _ \<Rightarrow> None)"

definition as_map :: "any \<Rightarrow> go_map option" where
  "as_map v = (case v of MapV m \<Rightarrow> Some m | _ \<Rightarrow> None)"

lemma as_simps [simp]:
  "as_string (StrV s) = Some s" "as_list (ListV xs) = Some xs" "as_map (MapV m) = Some m"
  by (simp_all add: as_string_def as_list_def as_map_def)

end
