(* ===== verification/Connection_Config.thy ===== *)
theory Connection_Config
  imports Go_Values Go_Regexp
begin

text \<open>
  Package \<open>connection\<close>, \<open>config.go\<close>: protocols, the connection configuration, its validation, and
  loading it from an environment. The environment is a lookup function, \<open>strconv.ParseFloat\<close> a
  parameter.
\<close>

section \<open>Protocols\<close>

datatype protocol =
    ProtocolWebSocket | ProtocolWebSocketSecure | ProtocolHTTP | ProtocolHTTPS
  | ProtocolMemory | ProtocolFile | ProtocolSurrealKV

fun protocol_string :: "protocol \<Rightarrow> string" where
  "protocol_string ProtocolWebSocket = ''ws''"
| "protocol_string ProtocolWebSocketSecure = ''wss''"
| "protocol_string ProtocolHTTP = ''http''"
| "protocol_string ProtocolHTTPS = ''https''"
| "protocol_string ProtocolMemory = ''memory''"
| "protocol_string ProtocolFile = ''file''"
| "protocol_string ProtocolSurrealKV = ''surrealkv''"

definition SupportsLiveQueries :: "protocol \<Rightarrow> bool" where
  "SupportsLiveQueries p \<longleftrightarrow> p \<noteq> ProtocolHTTP \<and> p \<noteq> ProtocolHTTPS"

definition IsEmbedded :: "protocol \<Rightarrow> bool" where
  "IsEmbedded p \<longleftrightarrow> p = ProtocolMemory \<or> p = ProtocolFile \<or> p = ProtocolSurrealKV"

definition IsSupported :: "protocol \<Rightarrow> bool" where
  "IsSupported p \<longleftrightarrow> \<not> IsEmbedded p"

definition detectProtocol :: "string \<Rightarrow> protocol result" where
  "detectProtocol url =
     (let t = trim_space url in
      if has_prefix t ''ws://'' then
        (if t = ''ws://'' then Inl (err_new ErrValidation ''URL host must not be empty'') else Inr ProtocolWebSocket)
      else if has_prefix t ''wss://'' then Inr ProtocolWebSocketSecure
      else if has_prefix t ''http://'' then Inr ProtocolHTTP
      else if has_prefix t ''https://'' then Inr ProtocolHTTPS
      else if has_prefix t ''mem://'' \<or> has_prefix t ''memory://'' then Inr ProtocolMemory
      else if has_prefix t ''file://'' then Inr ProtocolFile
      else if has_prefix t ''surrealkv://'' then Inr ProtocolSurrealKV
      else Inl (err_new ErrValidation
        ''URL must use one of: ws://, wss://, http://, https://, mem://, memory://, file://, surrealkv://''))"

section \<open>The configuration\<close>

record connection_config =
  cc_url :: string
  cc_ns :: string
  cc_db :: string
  cc_user :: "string option"
  cc_pass :: "string option"
  cc_timeout :: go_float
  cc_max_connections :: "32 word"
  cc_retry_attempts :: "32 word"
  cc_retry_min :: go_float
  cc_retry_max :: go_float
  cc_retry_multiplier :: go_float
  cc_live :: bool

definition DefaultConfig :: connection_config where
  "DefaultConfig =
     \<lparr>cc_url = ''ws://localhost:8000/rpc'', cc_ns = ''development'', cc_db = ''main'',
      cc_user = None, cc_pass = None, cc_timeout = Fin 30, cc_max_connections = 10,
      cc_retry_attempts = 3, cc_retry_min = Fin 1, cc_retry_max = Fin 10,
      cc_retry_multiplier = Fin 2, cc_live = True\<rparr>"

text \<open>A validation that succeeds is None, as a nil error.\<close>

definition validateURL :: "string \<Rightarrow> go_error option" where
  "validateURL url =
     (if url = [] then Some (err_new ErrValidation ''URL cannot be empty'')
      else (case detectProtocol url of Inl e \<Rightarrow> Some e | Inr _ \<Rightarrow> None))"

definition identifier_char :: "char \<Rightarrow> bool" where
  "identifier_char c \<longleftrightarrow> word_char c \<or> c = CHR ''-''"

definition validateIdentifier :: "string \<Rightarrow> string \<Rightarrow> go_error option" where
  "validateIdentifier value context =
     (if value = [] then Some (err_new ErrValidation ''Identifier cannot be empty'')
      else if list_all identifier_char value then None
      else Some (err_new ErrValidation
        (''Identifier ('' @ context @ '') must be alphanumeric with optional underscores/hyphens'')))"

text \<open>The verb \<open>%v\<close> on a float, for the bounds the validator uses (one decimal at most).\<close>

fun bound_text :: "go_float \<Rightarrow> string" where
  "bound_text (Fin x) =
     (if of_int \<lfloor>x\<rfloor> = x then show_int \<lfloor>x\<rfloor>
      else show_int \<lfloor>x\<rfloor> @ ''.'' @ show_int \<lfloor>10 * (x - of_int \<lfloor>x\<rfloor>)\<rfloor>)"
| "bound_text PInf = ''+Inf''"
| "bound_text NInf = ''-Inf''"
| "bound_text NaN = ''NaN''"

definition validateNumericRange :: "string \<Rightarrow> go_float \<Rightarrow> go_float \<Rightarrow> go_float \<Rightarrow> go_error option" where
  "validateNumericRange name value minVal maxVal =
     (if value = NaN then Some (err_new ErrValidation (name @ '' must be a finite number''))
      else if fl_less value minVal then Some (err_new ErrValidation (name @ '' must be >= '' @ bound_text minVal))
      else if fl_less maxVal value then Some (err_new ErrValidation (name @ '' must be <= '' @ bound_text maxVal))
      else None)"

text \<open>The checks of \<open>Validate\<close> in their order; the first failure is returned.\<close>

fun first_error :: "go_error option list \<Rightarrow> go_error option" where
  "first_error [] = None"
| "first_error (c # cs) = (case c of Some e \<Rightarrow> Some e | None \<Rightarrow> first_error cs)"

definition float_of_word :: "32 word \<Rightarrow> go_float" where
  "float_of_word w = Fin (of_nat (unat w))"

definition Validate :: "connection_config \<Rightarrow> go_error option" where
  "Validate c =
     first_error
       [validateURL (cc_url c),
        validateIdentifier (cc_ns c) ''namespace'',
        validateIdentifier (cc_db c) ''database'',
        validateNumericRange ''timeout'' (cc_timeout c) (Fin 1) PInf,
        validateNumericRange ''max_connections'' (float_of_word (cc_max_connections c)) (Fin 1) (Fin 100),
        validateNumericRange ''retry_max_attempts'' (float_of_word (cc_retry_attempts c)) (Fin 1) (Fin 10),
        validateNumericRange ''retry_min_wait'' (cc_retry_min c) (Fin (1 / 10)) PInf,
        validateNumericRange ''retry_max_wait'' (cc_retry_max c) (Fin 1) PInf,
        validateNumericRange ''retry_multiplier'' (cc_retry_multiplier c) (Fin 1) PInf,
        (if fl_le (cc_retry_max c) (cc_retry_min c)
         then Some (err_new ErrValidation ''db_retry_max_wait must be greater than db_retry_min_wait'') else None),
        (case detectProtocol (cc_url c) of
           Inl e \<Rightarrow> Some e
         | Inr proto \<Rightarrow>
             if cc_live c \<and> \<not> SupportsLiveQueries proto then
               Some (err_new ErrValidation
                 ''Live queries require WebSocket (ws://, wss://) or embedded (mem://, memory://, file://, surrealkv://) connection'')
             else None)]"

section \<open>Loading\<close>

type_synonym env_lookup = "string \<Rightarrow> string option"

fun getWithAliases :: "env_lookup \<Rightarrow> string \<Rightarrow> string list \<Rightarrow> string option" where
  "getWithAliases lookup pre [] = None"
| "getWithAliases lookup pre (k # ks) =
     (case lookup (pre @ k) of
        Some v \<Rightarrow> Some v
      | None \<Rightarrow>
          (case lookup (to_lower (pre @ k)) of
             Some v \<Rightarrow> Some v
           | None \<Rightarrow> getWithAliases lookup pre ks))"

definition parseBool :: "string \<Rightarrow> bool result" where
  "parseBool s =
     (let t = to_lower (trim_space s) in
      if t \<in> {''1'', ''true'', ''yes'', ''on''} then Inr True
      else if t \<in> {''0'', ''false'', ''no'', ''off''} then Inr False
      else Inl (err_new ErrValidation (''invalid boolean value '' @ go_quote s)))"

text \<open>\<open>strconv.ParseUint(s, 10, 32)\<close>.\<close>

definition parse_uint32 :: "string \<Rightarrow> 32 word result" where
  "parse_uint32 s =
     (case parse_digits s of
        None \<Rightarrow> Inl (Opaque (''strconv.ParseUint: parsing '' @ go_quote s @ '': invalid syntax''))
      | Some n \<Rightarrow>
          if n < 2 ^ 32 then Inr (of_nat n)
          else Inl (Opaque (''strconv.ParseUint: parsing '' @ go_quote s @ '': value out of range'')))"

text \<open>One step of the loader: an unset key leaves the configuration, a bad value ends the load.\<close>

definition load_text :: "string option \<Rightarrow> (string \<Rightarrow> 'c \<Rightarrow> 'c) \<Rightarrow> 'c \<Rightarrow> 'c" where
  "load_text v set_it c = (case v of Some s \<Rightarrow> set_it s c | None \<Rightarrow> c)"

definition load_number ::
  "string option \<Rightarrow> string \<Rightarrow> (string \<Rightarrow> 'n result) \<Rightarrow> ('n \<Rightarrow> 'c \<Rightarrow> 'c) \<Rightarrow> 'c \<Rightarrow> 'c result" where
  "load_number v name parse set_it c =
     (case v of
        None \<Rightarrow> Inr c
      | Some s \<Rightarrow>
          (case parse s of
             Inl e \<Rightarrow> Inl (err_wrap ErrValidation (''invalid '' @ name @ ''='' @ go_quote s) e)
           | Inr n \<Rightarrow> Inr (set_it n c)))"

definition LoadConfigFromSource ::
  "(string \<Rightarrow> go_float result) \<Rightarrow> string \<Rightarrow> env_lookup \<Rightarrow> connection_config result" where
  "LoadConfigFromSource parse_float pre lookup =
     (let get = getWithAliases lookup pre;
          c0 = load_text (get [''URL'', ''DB_URL'']) (\<lambda>v. cc_url_update (\<lambda>_. v)) DefaultConfig;
          c1 = load_text (get [''NAMESPACE'', ''DB_NS'']) (\<lambda>v. cc_ns_update (\<lambda>_. v)) c0;
          c2 = load_text (get [''DATABASE'', ''DB'']) (\<lambda>v. cc_db_update (\<lambda>_. v)) c1;
          c3 = load_text (get [''USERNAME'', ''DB_USER'']) (\<lambda>v. cc_user_update (\<lambda>_. Some v)) c2;
          c4 = load_text (get [''PASSWORD'', ''DB_PASS'']) (\<lambda>v. cc_pass_update (\<lambda>_. Some v)) c3 in
      rbind (load_number (get [''TIMEOUT'', ''DB_TIMEOUT'']) ''timeout'' parse_float (\<lambda>f. cc_timeout_update (\<lambda>_. f)) c4) (\<lambda>c5.
      rbind (load_number (get [''MAX_CONNECTIONS'', ''DB_MAX_CONNECTIONS'']) ''max_connections'' parse_uint32
               (\<lambda>n. cc_max_connections_update (\<lambda>_. n)) c5) (\<lambda>c6.
      rbind (load_number (get [''RETRY_MAX_ATTEMPTS'', ''DB_RETRY_MAX_ATTEMPTS'']) ''retry_max_attempts'' parse_uint32
               (\<lambda>n. cc_retry_attempts_update (\<lambda>_. n)) c6) (\<lambda>c7.
      rbind (load_number (get [''RETRY_MIN_WAIT'', ''DB_RETRY_MIN_WAIT'']) ''retry_min_wait'' parse_float
               (\<lambda>f. cc_retry_min_update (\<lambda>_. f)) c7) (\<lambda>c8.
      rbind (load_number (get [''RETRY_MAX_WAIT'', ''DB_RETRY_MAX_WAIT'']) ''retry_max_wait'' parse_float
               (\<lambda>f. cc_retry_max_update (\<lambda>_. f)) c8) (\<lambda>c9.
      rbind (load_number (get [''RETRY_MULTIPLIER'', ''DB_RETRY_MULTIPLIER'']) ''retry_multiplier'' parse_float
               (\<lambda>f. cc_retry_multiplier_update (\<lambda>_. f)) c9) (\<lambda>c10.
      rbind (case get [''ENABLE_LIVE_QUERIES''] of
               None \<Rightarrow> Inr c10
             | Some v \<Rightarrow> rbind (parseBool v) (\<lambda>b. Inr (c10\<lparr>cc_live := b\<rparr>))) (\<lambda>c11.
      (case Validate c11 of Some e \<Rightarrow> Inl e | None \<Rightarrow> Inr c11)))))))))"

text \<open>\<open>LoadNamedConfigFromSource\<close>.\<close>

definition LoadNamedConfig ::
  "(string \<Rightarrow> go_float result) \<Rightarrow> string \<Rightarrow> env_lookup \<Rightarrow> (string \<times> connection_config) result" where
  "LoadNamedConfig parse_float name lookup =
     rbind (LoadConfigFromSource parse_float (''SURQL_'' @ to_upper name @ ''_'') lookup)
       (\<lambda>cfg. Inr (to_lower name, cfg))"

section \<open>What validation guarantees\<close>

lemma first_error_None:
  "first_error [] = None" "first_error (c # cs) = None \<longleftrightarrow> c = None \<and> first_error cs = None"
  by (auto split: option.splits)

lemma range_ok:
  "maxVal \<noteq> NaN \<Longrightarrow> validateNumericRange n v (Fin a) maxVal = None \<longleftrightarrow> fl_le (Fin a) v \<and> fl_le v maxVal"
  by (cases v; cases maxVal) (auto simp: validateNumericRange_def fl_le_def)

lemma range_unbounded: "validateNumericRange n v (Fin a) PInf = None \<longleftrightarrow> fl_le (Fin a) v"
  by (cases v) (auto simp: validateNumericRange_def fl_le_def)

lemma range_word:
  "validateNumericRange n (float_of_word w) (Fin 1) (Fin (numeral k)) = None \<longleftrightarrow> 1 \<le> unat w \<and> unat w \<le> numeral k"
proof -
  have "(1 :: rat) \<le> of_nat (unat w) \<longleftrightarrow> 1 \<le> unat w" by (metis of_nat_1 of_nat_le_iff)
  moreover have "(of_nat (unat w) :: rat) \<le> numeral k \<longleftrightarrow> unat w \<le> numeral k" by (metis of_nat_numeral of_nat_le_iff)
  ultimately show ?thesis unfolding range_ok [OF go_float.distinct(5)] float_of_word_def fl_le_Fin by simp
qed

text \<open>What a valid configuration satisfies.\<close>

definition config_valid :: "connection_config \<Rightarrow> bool" where
  "config_valid c \<longleftrightarrow>
     cc_url c \<noteq> [] \<and> (\<exists>p. detectProtocol (cc_url c) = Inr p \<and> (cc_live c \<longrightarrow> SupportsLiveQueries p))
     \<and> cc_ns c \<noteq> [] \<and> list_all identifier_char (cc_ns c) \<and> cc_db c \<noteq> [] \<and> list_all identifier_char (cc_db c)
     \<and> fl_le (Fin 1) (cc_timeout c)
     \<and> 1 \<le> unat (cc_max_connections c) \<and> unat (cc_max_connections c) \<le> 100
     \<and> 1 \<le> unat (cc_retry_attempts c) \<and> unat (cc_retry_attempts c) \<le> 10
     \<and> fl_le (Fin (1 / 10)) (cc_retry_min c) \<and> fl_le (Fin 1) (cc_retry_max c)
     \<and> fl_le (Fin 1) (cc_retry_multiplier c) \<and> fl_less (cc_retry_min c) (cc_retry_max c)"

lemma validateURL_iff: "validateURL url = None \<longleftrightarrow> url \<noteq> [] \<and> (\<exists>p. detectProtocol url = Inr p)"
  by (auto simp: validateURL_def split: sum.splits)

lemma validateIdentifier_iff: "validateIdentifier v ctx = None \<longleftrightarrow> v \<noteq> [] \<and> list_all identifier_char v"
  by (simp add: validateIdentifier_def)

lemma not_le_less: "fl_le (Fin a) x \<Longrightarrow> fl_le (Fin b) y \<Longrightarrow> \<not> fl_le y x \<longleftrightarrow> fl_less x y"
  using fl_not_less [of x y] fl_le_not_NaN by blast

lemma Validate_iff: "Validate c = None \<longleftrightarrow> config_valid c"
proof -
  have live: "(case detectProtocol (cc_url c) of Inl e \<Rightarrow> Some e
      | Inr proto \<Rightarrow> if cc_live c \<and> \<not> SupportsLiveQueries proto then Some E else None) = None
    \<longleftrightarrow> (\<exists>p. detectProtocol (cc_url c) = Inr p \<and> (cc_live c \<longrightarrow> SupportsLiveQueries p))" for E
    by (auto split: sum.splits)
  have wait: "(if b then Some E else None) = None \<longleftrightarrow> \<not> b" for b and E :: go_error by simp
  have all: "Validate c = None \<longleftrightarrow>
      (cc_url c \<noteq> [] \<and> (\<exists>p. detectProtocol (cc_url c) = Inr p))
    \<and> (cc_ns c \<noteq> [] \<and> list_all identifier_char (cc_ns c)) \<and> (cc_db c \<noteq> [] \<and> list_all identifier_char (cc_db c))
    \<and> fl_le (Fin 1) (cc_timeout c)
    \<and> (1 \<le> unat (cc_max_connections c) \<and> unat (cc_max_connections c) \<le> 100)
    \<and> (1 \<le> unat (cc_retry_attempts c) \<and> unat (cc_retry_attempts c) \<le> 10)
    \<and> fl_le (Fin (1 / 10)) (cc_retry_min c) \<and> fl_le (Fin 1) (cc_retry_max c)
    \<and> fl_le (Fin 1) (cc_retry_multiplier c) \<and> \<not> fl_le (cc_retry_max c) (cc_retry_min c)
    \<and> (\<exists>p. detectProtocol (cc_url c) = Inr p \<and> (cc_live c \<longrightarrow> SupportsLiveQueries p))"
    by (simp only: Validate_def first_error_None range_unbounded range_word validateURL_iff
        validateIdentifier_iff live wait conj_assoc simp_thms)
  show ?thesis
    unfolding all config_valid_def using not_le_less [of "1 / 10" "cc_retry_min c" 1 "cc_retry_max c"] by blast
qed

lemma load_default_valid: "Validate DefaultConfig = None"
  by (auto simp: Validate_iff config_valid_def DefaultConfig_def detectProtocol_def SupportsLiveQueries_def
      identifier_char_def word_char_def trim_space_def trim_left_def trim_right_def is_space_def fl_le_def)

lemma rbind_InrE: "rbind x f = Inr y \<Longrightarrow> (\<And>a. f a = Inr y \<Longrightarrow> P) \<Longrightarrow> P"
  by (cases x) auto

text \<open>
  Configuration loading: whatever the environment holds, a configuration that the
  loader returns is valid (host present, scheme known and able to run live queries when they are
  on, identifiers well-formed, between 1 and 10 attempts and 1 and 100 connections, waits ordered
  and no NaN anywhere); and an environment without any of the keys gives the defaults.
\<close>

theorem load_config_valid:
  "(LoadConfigFromSource parse_float pre lookup = Inr c \<longrightarrow> config_valid c)
   \<and> LoadConfigFromSource parse_float pre (\<lambda>_. None) = Inr DefaultConfig"
proof (intro conjI impI)
  assume "LoadConfigFromSource parse_float pre lookup = Inr c"
  then have "Validate c = None"
    unfolding LoadConfigFromSource_def Let_def by (elim rbind_InrE) (simp split: option.splits)
  then show "config_valid c" by (simp add: Validate_iff)
next
  have "getWithAliases (\<lambda>_. None) pre ks = None" for ks by (induction ks) simp_all
  then show "LoadConfigFromSource parse_float pre (\<lambda>_. None) = Inr DefaultConfig"
    by (simp add: LoadConfigFromSource_def load_text_def load_number_def load_default_valid)
qed

theorem load_config_valid_witness:
  "config_valid DefaultConfig"
  using load_config_valid [where lookup = "\<lambda>_. None" and c = DefaultConfig] by simp

end
