(* ===== verification/Database_Client.thy ===== *)
theory Database_Client
  imports Connection_Config
begin

text \<open>
  Package \<open>connection\<close>, \<open>client.go\<close> and the credentials of \<open>auth.go\<close>: the client's connection
  state, connecting with retries, authentication, queries. The SurrealDB SDK is the record \<open>sdk\<close>
  of its calls over a world \<open>'w\<close> (the server, the network, the context and the clock); nothing is
  assumed of it here.
\<close>

section \<open>The SDK\<close>

text \<open>An SDK error is a \<open>QueryError\<close> (message and text) or any other (text).\<close>

datatype sdk_error = QueryFault string string | OtherFault string

fun sdk_go_error :: "sdk_error \<Rightarrow> go_error" where
  "sdk_go_error (QueryFault message txt) = Opaque txt"
| "sdk_go_error (OtherFault txt) = Opaque txt"

record query_result =
  qr_status :: string
  qr_time :: string
  qr_result :: any

type_synonym query_response = "sdk_error + query_result list option"

datatype rpc = RpcSelect | RpcCreate any | RpcUpdate any | RpcMerge any | RpcDelete

record ('w, 'tx) sdk =
  sdk_cancelled :: "'w \<Rightarrow> go_error option"
  sdk_wait :: "int64 \<Rightarrow> 'w \<Rightarrow> go_error option \<times> 'w"
  sdk_dial :: "string \<Rightarrow> 'w \<Rightarrow> go_error option \<times> 'w"
  sdk_use :: "string \<Rightarrow> string \<Rightarrow> 'w \<Rightarrow> go_error option \<times> 'w"
  sdk_close :: "'w \<Rightarrow> go_error option \<times> 'w"
  sdk_signin :: "go_map \<Rightarrow> 'w \<Rightarrow> string result \<times> 'w"
  sdk_signup :: "go_map \<Rightarrow> 'w \<Rightarrow> string result \<times> 'w"
  sdk_authenticate :: "string \<Rightarrow> 'w \<Rightarrow> go_error option \<times> 'w"
  sdk_invalidate :: "'w \<Rightarrow> go_error option \<times> 'w"
  sdk_version :: "'w \<Rightarrow> go_error option \<times> 'w"
  sdk_rpc :: "rpc \<Rightarrow> string \<Rightarrow> 'w \<Rightarrow> any option result \<times> 'w"
  sdk_query :: "string \<Rightarrow> go_map \<Rightarrow> 'w \<Rightarrow> query_response \<times> 'w"
  sdk_begin :: "'w \<Rightarrow> 'tx result \<times> 'w"
  sdk_tx_query :: "'tx \<Rightarrow> string \<Rightarrow> go_map \<Rightarrow> 'w \<Rightarrow> query_response \<times> 'w"
  sdk_commit :: "'tx \<Rightarrow> 'w \<Rightarrow> go_error option \<times> 'w"
  sdk_cancel :: "'tx \<Rightarrow> 'w \<Rightarrow> go_error option \<times> 'w"

text \<open>Float multiplication and \<open>math.Pow\<close>.\<close>

record float_ops =
  fo_mul :: "go_float \<Rightarrow> go_float \<Rightarrow> go_float"
  fo_pow :: "go_float \<Rightarrow> go_float \<Rightarrow> go_float"

section \<open>Credentials\<close>

datatype credentials =
    RootCredentials string string
  | NamespaceCredentials string string string
  | DatabaseCredentials string string string string
  | ScopeCredentials string string string go_map

fun AuthType :: "credentials \<Rightarrow> string" where
  "AuthType (RootCredentials _ _) = ''root''"
| "AuthType (NamespaceCredentials _ _ _) = ''namespace''"
| "AuthType (DatabaseCredentials _ _ _ _) = ''database''"
| "AuthType (ScopeCredentials _ _ _ _) = ''scope''"

text \<open>The scope variables overwrite the fixed keys of the same name.\<close>

fun toSdkAuthPayload :: "credentials \<Rightarrow> go_map" where
  "toSdkAuthPayload (RootCredentials user pass) = [(''user'', StrV user), (''pass'', StrV pass)]"
| "toSdkAuthPayload (NamespaceCredentials ns user pass) = [(''NS'', StrV ns), (''user'', StrV user), (''pass'', StrV pass)]"
| "toSdkAuthPayload (DatabaseCredentials ns db user pass) =
     [(''NS'', StrV ns), (''DB'', StrV db), (''user'', StrV user), (''pass'', StrV pass)]"
| "toSdkAuthPayload (ScopeCredentials ns db access vars) =
     fold (\<lambda>(k, v). map_put k v) vars [(''NS'', StrV ns), (''DB'', StrV db), (''AC'', StrV access)]"

text \<open>\<open>ToSigninPayload\<close>: the documented payload; empty passwords are left out.\<close>

definition put_password :: "string \<Rightarrow> go_map \<Rightarrow> go_map" where
  "put_password pass out = (if pass \<noteq> [] then map_put ''password'' (StrV pass) out else out)"

fun ToSigninPayload :: "credentials \<Rightarrow> go_map" where
  "ToSigninPayload (RootCredentials user pass) = put_password pass [(''username'', StrV user)]"
| "ToSigninPayload (NamespaceCredentials ns user pass) =
     put_password pass [(''namespace'', StrV ns), (''username'', StrV user)]"
| "ToSigninPayload (DatabaseCredentials ns db user pass) =
     put_password pass [(''namespace'', StrV ns), (''database'', StrV db), (''username'', StrV user)]"
| "ToSigninPayload (ScopeCredentials ns db access vars) =
     fold (\<lambda>(k, v). map_put k v) vars [(''namespace'', StrV ns), (''database'', StrV db), (''access'', StrV access)]"

text \<open>A scope variable may replace the namespace, the database or the access method.\<close>

lemma scope_variables_overwrite:
  "toSdkAuthPayload (ScopeCredentials ''app'' ''main'' ''user'' [(''AC'', StrV ''admin'')])
     = [(''NS'', StrV ''app''), (''DB'', StrV ''main''), (''AC'', StrV ''admin'')]"
  by (simp add: map_put_def)

section \<open>Backoff\<close>

definition backoff_seconds :: "float_ops \<Rightarrow> nat \<Rightarrow> go_float \<Rightarrow> go_float \<Rightarrow> go_float \<Rightarrow> go_float" where
  "backoff_seconds fo attempt minWait maxWait multiplier =
     (let multiplier = (if fl_less multiplier (Fin 1) then Fin 1 else multiplier);
          minWait = (if fl_less minWait (Fin 0) then Fin 0 else minWait);
          maxWait = (if fl_less maxWait minWait then minWait else maxWait);
          delay = fo_mul fo minWait (fo_pow fo multiplier (Fin (of_nat (attempt - 1))));
          delay = (if delay \<in> {PInf, NInf, NaN} \<or> fl_less maxWait delay then maxWait else delay) in
      if fl_less delay minWait then minWait else delay)"

definition backoffDelay :: "float_ops \<Rightarrow> nat \<Rightarrow> go_float \<Rightarrow> go_float \<Rightarrow> go_float \<Rightarrow> int64" where
  "backoffDelay fo attempt minWait maxWait multiplier =
     float_to_int64 (fo_mul fo (backoff_seconds fo attempt minWait maxWait multiplier) (Fin 1000000000))"

section \<open>The client\<close>

record client =
  cl_cfg :: connection_config
  cl_db :: bool
  cl_connected :: bool
  cl_token :: string
  cl_auth :: string

definition NewDatabaseClient :: "connection_config \<Rightarrow> client result" where
  "NewDatabaseClient cfg =
     (case Validate cfg of
        Some e \<Rightarrow> Inl e
      | None \<Rightarrow> Inr \<lparr>cl_cfg = cfg, cl_db = False, cl_connected = False, cl_token = [], cl_auth = []\<rparr>)"

definition IsConnected :: "client \<Rightarrow> bool" where
  "IsConnected c \<longleftrightarrow> cl_connected c \<and> cl_db c"

definition requireDB :: "client \<Rightarrow> go_error option" where
  "requireDB c =
     (if \<not> cl_connected c \<or> \<not> cl_db c then Some (err_new ErrConnection ''client is not connected'') else None)"

definition Disconnect :: "('w, 'tx) sdk \<Rightarrow> client \<Rightarrow> 'w \<Rightarrow> go_error option \<times> client \<times> 'w" where
  "Disconnect sdk c w =
     (let c' = c\<lparr>cl_db := False, cl_connected := False, cl_token := [], cl_auth := []\<rparr> in
      if \<not> cl_db c then (None, c', w)
      else
        (case sdk_close sdk w of
           (Some e, w') \<Rightarrow> (Some (err_wrap ErrConnection ''failed to close connection'' e), c', w')
         | (None, w') \<Rightarrow> (None, c', w')))"

text \<open>One dial: open the endpoint and select namespace and database; a failed selection closes it.\<close>

definition dial :: "('w, 'tx) sdk \<Rightarrow> connection_config \<Rightarrow> 'w \<Rightarrow> go_error option \<times> 'w" where
  "dial sdk cfg w =
     (case sdk_dial sdk (cc_url cfg) w of
        (Some e, w1) \<Rightarrow> (Some e, w1)
      | (None, w1) \<Rightarrow>
          (case sdk_use sdk (cc_ns cfg) (cc_db cfg) w1 of
             (None, w2) \<Rightarrow> (None, w2)
           | (Some e, w2) \<Rightarrow> (Some e, snd (sdk_close sdk w2))))"

definition connect_failed :: "connection_config \<Rightarrow> nat \<Rightarrow> go_error option \<Rightarrow> go_error" where
  "connect_failed cfg attempts lastErr =
     SurqlError (Some (Sentinel ErrConnection))
       (''failed to connect to '' @ cc_url cfg @ '' after '' @ show_nat attempts @ '' attempts'') lastErr"

text \<open>The attempts still to be made, in order.\<close>

fun connect_loop ::
  "('w, 'tx) sdk \<Rightarrow> float_ops \<Rightarrow> nat \<Rightarrow> nat list \<Rightarrow> go_error option \<Rightarrow> client \<Rightarrow> 'w \<Rightarrow> go_error option \<times> client \<times> 'w" where
  "connect_loop sdk fo attempts [] lastErr c w = (Some (connect_failed (cl_cfg c) attempts lastErr), c, w)"
| "connect_loop sdk fo attempts (attempt # rest) lastErr c w =
     (case sdk_cancelled sdk w of
        Some e \<Rightarrow> (Some (err_wrap ErrConnection ''context cancelled while connecting'' e), c, w)
      | None \<Rightarrow>
          (case dial sdk (cl_cfg c) w of
             (None, w1) \<Rightarrow> (None, c\<lparr>cl_db := True, cl_connected := True\<rparr>, w1)
           | (Some e, w1) \<Rightarrow>
               (if attempt = attempts then (Some (connect_failed (cl_cfg c) attempts (Some e)), c, w1)
                else
                  (case sdk_wait sdk
                          (backoffDelay fo attempt (cc_retry_min (cl_cfg c)) (cc_retry_max (cl_cfg c))
                             (cc_retry_multiplier (cl_cfg c))) w1 of
                     (Some ce, w2) \<Rightarrow> (Some (err_wrap ErrConnection ''context cancelled during retry backoff'' ce), c, w2)
                   | (None, w2) \<Rightarrow> connect_loop sdk fo attempts rest (Some e) c w2))))"

definition max_attempts :: "connection_config \<Rightarrow> nat" where
  "max_attempts cfg = (if cc_retry_attempts cfg = 0 then 1 else unat (cc_retry_attempts cfg))"

definition unsupported_scheme :: "connection_config \<Rightarrow> go_error option" where
  "unsupported_scheme cfg =
     (case detectProtocol (cc_url cfg) of
        Inl _ \<Rightarrow> None
      | Inr proto \<Rightarrow>
          if IsSupported proto then None
          else Some (err_new ErrConnection
            (''embedded scheme '' @ go_quote (protocol_string proto) @ '' is not supported: surrealdb.go has no embedded ''
             @ ''engine linked in (upstream https://github.com/surrealdb/surrealdb.go/issues/197). ''
             @ ''Use ws:// / wss:// / http:// / https:// to connect to a running SurrealDB instance'')))"

definition Connect :: "('w, 'tx) sdk \<Rightarrow> float_ops \<Rightarrow> client \<Rightarrow> 'w \<Rightarrow> go_error option \<times> client \<times> 'w" where
  "Connect sdk fo c w =
     (case (if IsConnected c then Disconnect sdk c w else (None, c, w)) of
        (Some e, c1, w1) \<Rightarrow> (Some e, c1, w1)
      | (None, c1, w1) \<Rightarrow>
          (case unsupported_scheme (cl_cfg c1) of
             Some e \<Rightarrow> (Some e, c1, w1)
           | None \<Rightarrow>
               connect_loop sdk fo (max_attempts (cl_cfg c1)) [1..<Suc (max_attempts (cl_cfg c1))] None c1 w1))"

section \<open>Authentication\<close>

definition Signin :: "('w, 'tx) sdk \<Rightarrow> credentials option \<Rightarrow> client \<Rightarrow> 'w \<Rightarrow> string result \<times> client \<times> 'w" where
  "Signin sdk creds c w =
     (case creds of
        None \<Rightarrow> (Inl (err_new ErrValidation ''credentials must not be nil''), c, w)
      | Some cr \<Rightarrow>
          (case requireDB c of
             Some e \<Rightarrow> (Inl e, c, w)
           | None \<Rightarrow>
               (case sdk_signin sdk (toSdkAuthPayload cr) w of
                  (Inl e, w') \<Rightarrow> (Inl (err_wrap ErrConnection ''signin failed'' e), c, w')
                | (Inr token, w') \<Rightarrow> (Inr token, c\<lparr>cl_token := token, cl_auth := AuthType cr\<rparr>, w'))))"

text \<open>\<open>Signup\<close> takes scope credentials by value.\<close>

definition Signup :: "('w, 'tx) sdk \<Rightarrow> credentials \<Rightarrow> client \<Rightarrow> 'w \<Rightarrow> string result \<times> client \<times> 'w" where
  "Signup sdk cr c w =
     (case requireDB c of
        Some e \<Rightarrow> (Inl e, c, w)
      | None \<Rightarrow>
          (case sdk_signup sdk (toSdkAuthPayload cr) w of
             (Inl e, w') \<Rightarrow> (Inl (err_wrap ErrConnection ''signup failed'' e), c, w')
           | (Inr token, w') \<Rightarrow> (Inr token, c\<lparr>cl_token := token, cl_auth := ''scope''\<rparr>, w')))"

definition Authenticate :: "('w, 'tx) sdk \<Rightarrow> string \<Rightarrow> client \<Rightarrow> 'w \<Rightarrow> go_error option \<times> client \<times> 'w" where
  "Authenticate sdk token c w =
     (case requireDB c of
        Some e \<Rightarrow> (Some e, c, w)
      | None \<Rightarrow>
          if token = [] then (Some (err_new ErrValidation ''token must not be empty''), c, w)
          else
            (case sdk_authenticate sdk token w of
               (Some e, w') \<Rightarrow> (Some (err_wrap ErrConnection ''authenticate failed'' e), c, w')
             | (None, w') \<Rightarrow> (None, c\<lparr>cl_token := token\<rparr>, w')))"

definition Invalidate :: "('w, 'tx) sdk \<Rightarrow> client \<Rightarrow> 'w \<Rightarrow> go_error option \<times> client \<times> 'w" where
  "Invalidate sdk c w =
     (case requireDB c of
        Some e \<Rightarrow> (Some e, c, w)
      | None \<Rightarrow>
          (case sdk_invalidate sdk w of
             (Some e, w') \<Rightarrow> (Some (err_wrap ErrConnection ''invalidate failed'' e), c, w')
           | (None, w') \<Rightarrow> (None, c\<lparr>cl_token := [], cl_auth := []\<rparr>, w')))"

section \<open>Queries\<close>

text \<open>The cause of the background context is always nil, so the first test of \<open>mapQueryError\<close>
  never holds.\<close>

definition mapQueryError :: "sdk_error \<Rightarrow> go_error" where
  "mapQueryError e =
     (case e of
        QueryFault message _ \<Rightarrow> err_wrap ErrQuery message (sdk_go_error e)
      | OtherFault _ \<Rightarrow> err_wrap ErrQuery ''query failed'' (sdk_go_error e))"

definition envelope :: "query_result \<Rightarrow> any" where
  "envelope r = MapV [(''status'', StrV (qr_status r)), (''time'', StrV (qr_time r)), (''result'', qr_result r)]"

definition queryResultsToEnvelopes :: "query_result list option \<Rightarrow> any" where
  "queryResultsToEnvelopes results =
     (case results of None \<Rightarrow> ListV [] | Some rs \<Rightarrow> ListV (map envelope rs))"

definition QueryWithVars :: "('w, 'tx) sdk \<Rightarrow> client \<Rightarrow> string \<Rightarrow> go_map \<Rightarrow> 'w \<Rightarrow> any result \<times> 'w" where
  "QueryWithVars sdk c surql vars w =
     (case requireDB c of
        Some e \<Rightarrow> (Inl e, w)
      | None \<Rightarrow>
          (case sdk_query sdk surql vars w of
             (Inl e, w') \<Rightarrow> (Inl (mapQueryError e), w')
           | (Inr results, w') \<Rightarrow> (Inr (queryResultsToEnvelopes results), w')))"

definition Query :: "('w, 'tx) sdk \<Rightarrow> client \<Rightarrow> string \<Rightarrow> 'w \<Rightarrow> any result \<times> 'w" where
  "Query sdk c surql w = QueryWithVars sdk c surql [] w"

fun rpc_name :: "rpc \<Rightarrow> string" where
  "rpc_name RpcSelect = ''select ''"
| "rpc_name (RpcCreate _) = ''create ''"
| "rpc_name (RpcUpdate _) = ''update ''"
| "rpc_name (RpcMerge _) = ''merge ''"
| "rpc_name RpcDelete = ''delete ''"

text \<open>\<open>Select\<close>, \<open>Create\<close>, \<open>Update\<close>, \<open>Merge\<close> and \<open>Delete\<close> differ in the call they make.\<close>

definition client_rpc :: "('w, 'tx) sdk \<Rightarrow> client \<Rightarrow> rpc \<Rightarrow> string \<Rightarrow> 'w \<Rightarrow> any result \<times> 'w" where
  "client_rpc sdk c call target w =
     (case requireDB c of
        Some e \<Rightarrow> (Inl e, w)
      | None \<Rightarrow>
          (case sdk_rpc sdk call target w of
             (Inl e, w') \<Rightarrow> (Inl (err_wrap ErrQuery (rpc_name call @ go_quote target @ '' failed'') e), w')
           | (Inr res, w') \<Rightarrow> (Inr (case res of None \<Rightarrow> NilV | Some v \<Rightarrow> v), w')))"

definition Info :: "('w, 'tx) sdk \<Rightarrow> client \<Rightarrow> 'w \<Rightarrow> go_map option result \<times> 'w" where
  "Info sdk c w =
     (case Query sdk c ''RETURN $auth;'' w of
        (Inl e, w') \<Rightarrow> (Inl (err_wrap ErrConnection ''info failed'' e), w')
      | (Inr raw, w') \<Rightarrow>
          (case as_list raw of
             Some (first # _) \<Rightarrow>
               (case as_map first of
                  None \<Rightarrow> (Inr None, w')
                | Some env \<Rightarrow>
                    (case map_index env ''result'' of
                       NilV \<Rightarrow> (Inr None, w')
                     | MapV m \<Rightarrow> (Inr (Some m), w')
                     | v \<Rightarrow> (Inr (Some [(''value'', v)]), w')))
           | _ \<Rightarrow> (Inr None, w')))"

definition Health :: "('w, 'tx) sdk \<Rightarrow> client \<Rightarrow> 'w \<Rightarrow> bool result \<times> 'w" where
  "Health sdk c w =
     (case requireDB c of
        Some e \<Rightarrow> (Inl e, w)
      | None \<Rightarrow>
          (case sdk_version sdk w of
             (Some e, w') \<Rightarrow> (Inl (err_wrap ErrConnection ''health check failed'' e), w')
           | (None, w') \<Rightarrow> (Inr True, w')))"

section \<open>Retrying\<close>

lemma clamp_le_upper:
  "lo \<noteq> NaN \<Longrightarrow> hi \<noteq> NaN \<Longrightarrow> \<not> fl_less hi lo \<Longrightarrow>
   d = (if x \<in> {PInf, NInf, NaN} \<or> fl_less hi x then hi else x) \<Longrightarrow> fl_le (if fl_less d lo then lo else d) hi"
  by (cases lo; cases hi; cases x) (auto simp: fl_le_def)

lemma clamp_ge_lower: "lo \<noteq> NaN \<Longrightarrow> d \<noteq> NaN \<Longrightarrow> fl_le lo (if fl_less d lo then lo else d)"
  by (cases lo; cases d) (auto simp: fl_le_def)

text \<open>
  The wait before a retry: whatever \<open>math.Pow\<close> and the rounded product give
  (infinities and NaN included), the number of seconds lies between the configured minimum and
  maximum, for every attempt of a client whose configuration passed validation.
\<close>

theorem backoff_within_bounds:
  assumes "NewDatabaseClient cfg = Inr c"
  shows "fl_le (cc_retry_min cfg)
           (backoff_seconds fo attempt (cc_retry_min cfg) (cc_retry_max cfg) (cc_retry_multiplier cfg))
    \<and> fl_le (backoff_seconds fo attempt (cc_retry_min cfg) (cc_retry_max cfg) (cc_retry_multiplier cfg)) (cc_retry_max cfg)"
proof -
  let ?lo = "cc_retry_min cfg" and ?hi = "cc_retry_max cfg"
  have v: "config_valid cfg" using assms by (simp add: NewDatabaseClient_def Validate_iff split: option.splits)
  then have lo: "fl_le (Fin (1 / 10)) ?lo" and lh: "fl_less ?lo ?hi" and m: "fl_le (Fin 1) (cc_retry_multiplier cfg)"
    by (simp_all add: config_valid_def)
  have nan: "?lo \<noteq> NaN" "?hi \<noteq> NaN" using lo lh fl_le_not_NaN fl_less_le by blast+
  have pos: "\<not> fl_less ?lo (Fin 0)" using lo by (cases ?lo) (auto simp: fl_le_def)
  have hl: "\<not> fl_less ?hi ?lo" using fl_not_less [OF nan(2,1)] fl_less_le [OF lh] by simp
  have m1: "\<not> fl_less (cc_retry_multiplier cfg) (Fin 1)" using m by (cases "cc_retry_multiplier cfg") (auto simp: fl_le_def)
  define x where "x = fo_mul fo ?lo (fo_pow fo (cc_retry_multiplier cfg) (Fin (of_nat (attempt - 1))))"
  define d where "d = (if x \<in> {PInf, NInf, NaN} \<or> fl_less ?hi x then ?hi else x)"
  have eq: "backoff_seconds fo attempt ?lo ?hi (cc_retry_multiplier cfg) = (if fl_less d ?lo then ?lo else d)"
    using pos hl m1 by (simp add: backoff_seconds_def Let_def x_def d_def)
  have "d \<noteq> NaN" using nan by (auto simp: d_def)
  then show ?thesis unfolding eq using clamp_ge_lower [OF nan(1)] clamp_le_upper [OF nan hl d_def] by blast
qed

definition sample_float_ops :: float_ops where
  "sample_float_ops = \<lparr>fo_mul = (\<lambda>x y. case (x, y) of (Fin a, Fin b) \<Rightarrow> Fin (a * b) | _ \<Rightarrow> NaN), fo_pow = (\<lambda>_ _. PInf)\<rparr>"

lemma default_client: "NewDatabaseClient DefaultConfig
    = Inr \<lparr>cl_cfg = DefaultConfig, cl_db = False, cl_connected = False, cl_token = [], cl_auth = []\<rparr>"
  using load_default_valid by (simp add: NewDatabaseClient_def)

theorem backoff_within_bounds_witness:
  "fl_le (Fin 1) (backoff_seconds sample_float_ops 3 (Fin 1) (Fin 10) (Fin 2))
   \<and> fl_le (backoff_seconds sample_float_ops 3 (Fin 1) (Fin 10) (Fin 2)) (Fin 10)"
  using backoff_within_bounds [OF default_client, of sample_float_ops 3] by (simp add: DefaultConfig_def)

text \<open>An SDK that also counts the dials and logs the waits.\<close>

definition lift_log :: "('w \<Rightarrow> 'r \<times> 'w) \<Rightarrow> 'w \<times> 'l \<Rightarrow> 'r \<times> 'w \<times> 'l" where
  "lift_log f s = (case f (fst s) of (r, w) \<Rightarrow> (r, w, snd s))"

definition logged :: "('w, 'tx) sdk \<Rightarrow> ('w \<times> nat \<times> int64 list, 'tx) sdk" where
  "logged sdk =
     \<lparr>sdk_cancelled = (\<lambda>s. sdk_cancelled sdk (fst s)),
      sdk_wait = (\<lambda>d s. case lift_log (sdk_wait sdk d) s of (r, w, n, ds) \<Rightarrow> (r, w, n, ds @ [d])),
      sdk_dial = (\<lambda>u s. case lift_log (sdk_dial sdk u) s of (r, w, n, ds) \<Rightarrow> (r, w, Suc n, ds)),
      sdk_use = (\<lambda>ns db. lift_log (sdk_use sdk ns db)), sdk_close = lift_log (sdk_close sdk),
      sdk_signin = (\<lambda>p. lift_log (sdk_signin sdk p)), sdk_signup = (\<lambda>p. lift_log (sdk_signup sdk p)),
      sdk_authenticate = (\<lambda>t. lift_log (sdk_authenticate sdk t)), sdk_invalidate = lift_log (sdk_invalidate sdk),
      sdk_version = lift_log (sdk_version sdk), sdk_rpc = (\<lambda>r t. lift_log (sdk_rpc sdk r t)),
      sdk_query = (\<lambda>q v. lift_log (sdk_query sdk q v)), sdk_begin = lift_log (sdk_begin sdk),
      sdk_tx_query = (\<lambda>tx q v. lift_log (sdk_tx_query sdk tx q v)),
      sdk_commit = (\<lambda>tx. lift_log (sdk_commit sdk tx)), sdk_cancel = (\<lambda>tx. lift_log (sdk_cancel sdk tx))\<rparr>"

lemma dial_logged:
  "dial (logged sdk) cfg (w, n, ds) = (case dial sdk cfg w of (r, w') \<Rightarrow> (r, w', Suc n, ds))"
  by (auto simp: dial_def logged_def lift_log_def split: prod.splits option.splits)

lemma wait_logged:
  "sdk_wait (logged sdk) d (w, n, ds) = (case sdk_wait sdk d w of (r, w') \<Rightarrow> (r, w', n, ds @ [d]))"
  by (auto simp: logged_def lift_log_def split: prod.splits)

lemma close_logged:
  "sdk_close (logged sdk) (w, n, ds) = (case sdk_close sdk w of (r, w') \<Rightarrow> (r, w', n, ds))"
  by (simp add: logged_def lift_log_def split: prod.splits)

abbreviation delay_of :: "float_ops \<Rightarrow> connection_config \<Rightarrow> nat \<Rightarrow> int64" where
  "delay_of fo cfg attempt \<equiv>
     backoffDelay fo attempt (cc_retry_min cfg) (cc_retry_max cfg) (cc_retry_multiplier cfg)"

definition connect_ok :: "connection_config \<Rightarrow> go_error option \<Rightarrow> client \<Rightarrow> bool" where
  "connect_ok cfg r c \<longleftrightarrow> cl_cfg c = cfg \<and> (r = None \<longleftrightarrow> IsConnected c) \<and> (\<forall>e. r = Some e \<longrightarrow> errors_is e ErrConnection)"

lemma errors_is_connect_failed: "errors_is (connect_failed cfg n e) ErrConnection"
  by (simp add: connect_failed_def)

lemma connect_failed_other:
  "err_wrap ErrConnection ''context cancelled while connecting'' x \<noteq> connect_failed cfg n e"
  "err_wrap ErrConnection ''context cancelled during retry backoff'' x \<noteq> connect_failed cfg n e"
  "err_wrap ErrConnection ''failed to close connection'' x \<noteq> connect_failed cfg n e"
  by (simp_all add: connect_failed_def err_wrap_def)

lemma connect_loop_log:
  assumes "connect_loop (logged sdk) fo n [k..<Suc n] lastErr c (w, k - 1, map (delay_of fo (cl_cfg c)) [1..<k]) = (r, c', w', dials, waits)"
    and "1 \<le> k" "k \<le> n" "\<not> IsConnected c"
  shows "connect_ok (cl_cfg c) r c' \<and> dials \<le> n \<and> (\<exists>j < n. waits = map (delay_of fo (cl_cfg c)) [1..<Suc j])
    \<and> (\<forall>e. r = Some (connect_failed (cl_cfg c) n e) \<longrightarrow> dials = n)"
  using assms
proof (induction "n - k" arbitrary: k lastErr w)
  case 0
  then have "[k..<Suc n] = [k]" "k = n" by simp_all
  with 0 show ?case
    by (auto simp: dial_logged connect_ok_def IsConnected_def errors_is_connect_failed connect_failed_other
        split: option.splits prod.splits intro!: exI [of _ "n - 1"] simp del: upt_Suc)
next
  case (Suc m)
  then have l: "[k..<Suc n] = k # [Suc k..<Suc n]" and kn: "k \<noteq> n" by (simp_all add: upt_conv_Cons)
  have snoc: "map (delay_of fo (cl_cfg c)) [1..<k] @ [delay_of fo (cl_cfg c) k] = map (delay_of fo (cl_cfg c)) [1..<Suc k]"
    using Suc.prems(2) by simp
  have one: "Suc (k - 1) = Suc k - 1" using Suc.prems(2) by simp
  have pre: "connect_ok (cl_cfg c) (Some (err_wrap ErrConnection s e)) c" for s e
    using Suc.prems(4) by (simp add: connect_ok_def)
  show ?case
  proof (cases "sdk_cancelled (logged sdk) (w, k - 1, map (delay_of fo (cl_cfg c)) [1..<k])")
    case (Some e)
    then show ?thesis using Suc.prems pre unfolding l
      by (auto simp: connect_failed_other intro!: exI [of _ "k - 1"] simp del: upt_Suc)
  next
    case None
    obtain de w1 where d: "dial sdk (cl_cfg c) w = (de, w1)" by fastforce
    show ?thesis
    proof (cases de)
      case None2: None
      then show ?thesis using Suc.prems None d unfolding l
        by (auto simp: dial_logged connect_ok_def IsConnected_def intro!: exI [of _ "k - 1"] simp del: upt_Suc)
    next
      case (Some e)
      obtain we w2 where wt: "sdk_wait sdk (delay_of fo (cl_cfg c) k) w1 = (we, w2)" by fastforce
      show ?thesis
      proof (cases we)
        case None3: None
        have "connect_loop (logged sdk) fo n [Suc k..<Suc n] (Some e) c
            (w2, Suc k - 1, map (delay_of fo (cl_cfg c)) [1..<Suc k]) = (r, c', w', dials, waits)"
          using Suc.prems(1) None d Some wt None3 kn unfolding l snoc [symmetric] one [symmetric]
          by (simp add: dial_logged wait_logged del: upt_Suc)
        then show ?thesis by (rule Suc.hyps(1) [rotated]) (use Suc in simp_all)
      next
        case Some4: (Some ce)
        then show ?thesis using Suc.prems pre None d Some wt kn unfolding l
          by (auto simp: dial_logged wait_logged upt_Suc_append connect_failed_other intro!: exI [of _ k] simp del: upt_Suc)
      qed
    qed
  qed
qed

text \<open>
  Connecting ends after at most the configured number of dials, with waits between
  them that are the backoff delays of attempts 1, 2, 3 and so on; it returns nil exactly when the
  client is connected afterwards, every error is a connection error, and it gives up with "failed
  to connect" only when all the attempts have been made.
\<close>

theorem connect_terminates:
  assumes "Connect (logged sdk) fo c (w, 0, []) = (r, c', w', dials, waits)"
  shows "connect_ok (cl_cfg c) r c' \<and> dials \<le> max_attempts (cl_cfg c)
    \<and> (\<exists>j < max_attempts (cl_cfg c). waits = map (delay_of fo (cl_cfg c)) [1..<Suc j])
    \<and> (\<forall>e. r = Some (connect_failed (cl_cfg c) (max_attempts (cl_cfg c)) e) \<longrightarrow> dials = max_attempts (cl_cfg c))"
proof -
  let ?n = "max_attempts (cl_cfg c)"
  have n: "1 \<le> ?n"
    by (simp add: max_attempts_def unat_gt_0 Suc_le_eq)
  obtain r1 c1 w1 where d: "(if IsConnected c then Disconnect sdk c w else (None, c, w)) = (r1, c1, w1)"
    by (metis prod_cases3)
  have dl: "(if IsConnected c then Disconnect (logged sdk) c (w, 0, []) else (None, c, (w, 0, []))) = (r1, c1, (w1, 0, []))"
    using d by (auto simp: Disconnect_def close_logged Let_def split: if_splits option.splits prod.splits)
  have cfg: "cl_cfg c1 = cl_cfg c" and off: "\<not> IsConnected c1"
    using d by (auto simp: Disconnect_def IsConnected_def Let_def split: if_splits option.splits prod.splits)
  have r1: "\<exists>x. e = err_wrap ErrConnection ''failed to close connection'' x" if "r1 = Some e" for e
    using d that by (auto simp: Disconnect_def Let_def split: if_splits option.splits prod.splits)
  consider (err) e where "r1 = Some e" | (scheme) e where "r1 = None" "unsupported_scheme (cl_cfg c) = Some e"
    | (loop) "r1 = None" "unsupported_scheme (cl_cfg c) = None" by (cases r1; cases "unsupported_scheme (cl_cfg c)") auto
  then show ?thesis
  proof cases
    case err
    with assms r1 [OF err] show ?thesis using cfg off n
      by (auto simp: Connect_def dl connect_ok_def connect_failed_other intro!: exI [of _ 0])
  next
    case scheme
    then have "errors_is e ErrConnection" "\<And>l. e \<noteq> connect_failed (cl_cfg c) ?n l"
      by (auto simp: unsupported_scheme_def connect_failed_def err_new_def split: sum.splits if_splits)
    with scheme assms show ?thesis using cfg off n
      by (auto simp: Connect_def dl connect_ok_def intro!: exI [of _ 0] dest: sym [of "Some e"])
  next
    case loop
    then have "connect_loop (logged sdk) fo ?n [1..<Suc ?n] None c1 (w1, 1 - 1, map (delay_of fo (cl_cfg c1)) [1..<1])
        = (r, c', w', dials, waits)"
      using assms by (simp add: Connect_def dl cfg)
    from connect_loop_log [OF this _ n off] show ?thesis by (simp add: cfg)
  qed
qed

text \<open>A server that refuses every connection: three attempts, two waits.\<close>

definition refusing :: "(unit, unit) sdk" where
  "refusing =
     \<lparr>sdk_cancelled = (\<lambda>_. None), sdk_wait = (\<lambda>_ w. (None, w)), sdk_dial = (\<lambda>_ w. (Some (Opaque ''refused''), w)),
      sdk_use = (\<lambda>_ _ w. (None, w)), sdk_close = (\<lambda>w. (None, w)), sdk_signin = (\<lambda>_ w. (Inr [], w)),
      sdk_signup = (\<lambda>_ w. (Inr [], w)), sdk_authenticate = (\<lambda>_ w. (None, w)), sdk_invalidate = (\<lambda>w. (None, w)),
      sdk_version = (\<lambda>w. (None, w)), sdk_rpc = (\<lambda>_ _ w. (Inr None, w)), sdk_query = (\<lambda>_ _ w. (Inr None, w)),
      sdk_begin = (\<lambda>w. (Inr (), w)), sdk_tx_query = (\<lambda>_ _ _ w. (Inr None, w)), sdk_commit = (\<lambda>_ w. (None, w)),
      sdk_cancel = (\<lambda>_ w. (None, w))\<rparr>"

theorem connect_terminates_witness:
  "\<exists>r c' w dials waits. Connect (logged refusing) sample_float_ops
       \<lparr>cl_cfg = DefaultConfig, cl_db = False, cl_connected = False, cl_token = [], cl_auth = []\<rparr> ((), 0, [])
     = (r, c', w, dials, waits) \<and> dials \<le> 3"
proof -
  obtain r c' w dials waits where "Connect (logged refusing) sample_float_ops
       \<lparr>cl_cfg = DefaultConfig, cl_db = False, cl_connected = False, cl_token = [], cl_auth = []\<rparr> ((), 0, [])
     = (r, c', w, dials, waits)"
    by (metis prod_cases5)
  with connect_terminates [OF this] show ?thesis by (auto simp: max_attempts_def DefaultConfig_def)
qed

end
