(* ===== verification/Transactions.thy ===== *)
theory Transactions
  imports Database_Client "HOL-Library.Multiset"
begin

text \<open>
  Package \<open>connection\<close>, \<open>transaction.go\<close>: the life cycle of an interactive transaction. The
  critical sections of \<open>Commit\<close> and \<open>Rollback\<close> are functions of the state and of what the SDK
  answers; the sequential operations and the interleaving of several goroutines are built from the
  same sections.
\<close>

section \<open>States and critical sections\<close>

datatype tx_state = TransactionActive | TransactionCommitted | TransactionRolledBack | TransactionFailed

fun tx_state_string :: "tx_state \<Rightarrow> string" where
  "tx_state_string TransactionActive = ''active''"
| "tx_state_string TransactionCommitted = ''committed''"
| "tx_state_string TransactionRolledBack = ''rolled_back''"
| "tx_state_string TransactionFailed = ''failed''"

text \<open>What \<open>Commit\<close> and \<open>Rollback\<close> do under the lock, given the answer of the RPC.\<close>

definition commit_section :: "go_error option \<Rightarrow> tx_state \<times> go_error option" where
  "commit_section answer =
     (case answer of
        Some e \<Rightarrow> (TransactionFailed, Some (err_wrap ErrTransaction ''commit failed'' e))
      | None \<Rightarrow> (TransactionCommitted, None))"

definition rollback_section :: "go_error option \<Rightarrow> tx_state \<times> go_error option" where
  "rollback_section answer =
     (case answer of
        Some e \<Rightarrow> (TransactionFailed, Some (err_wrap ErrTransaction ''rollback failed'' e))
      | None \<Rightarrow> (TransactionRolledBack, None))"

definition refused :: "string \<Rightarrow> tx_state \<Rightarrow> go_error" where
  "refused operation st =
     err_new ErrTransaction (''cannot '' @ operation @ '' transaction in state '' @ go_quote (tx_state_string st))"

section \<open>Operations\<close>

record 'tx transaction =
  tx_handle :: 'tx
  tx_st :: tx_state

definition Begin :: "('w, 'tx) sdk \<Rightarrow> client \<Rightarrow> 'w \<Rightarrow> 'tx transaction result \<times> 'w" where
  "Begin sdk c w =
     (case requireDB c of
        Some e \<Rightarrow> (Inl (err_wrap ErrTransaction ''cannot begin transaction'' e), w)
      | None \<Rightarrow>
          (case sdk_begin sdk w of
             (Inl e, w') \<Rightarrow> (Inl (err_wrap ErrTransaction ''begin failed'' e), w')
           | (Inr tx, w') \<Rightarrow> (Inr \<lparr>tx_handle = tx, tx_st = TransactionActive\<rparr>, w')))"

definition IsActive :: "'tx transaction \<Rightarrow> bool" where
  "IsActive t \<longleftrightarrow> tx_st t = TransactionActive"

definition Commit :: "('w, 'tx) sdk \<Rightarrow> 'tx transaction \<Rightarrow> 'w \<Rightarrow> go_error option \<times> 'tx transaction \<times> 'w" where
  "Commit sdk t w =
     (if tx_st t \<noteq> TransactionActive then (Some (refused ''commit'' (tx_st t)), t, w)
      else
        (case sdk_commit sdk (tx_handle t) w of
           (answer, w') \<Rightarrow> (snd (commit_section answer), t\<lparr>tx_st := fst (commit_section answer)\<rparr>, w')))"

definition Rollback :: "('w, 'tx) sdk \<Rightarrow> 'tx transaction \<Rightarrow> 'w \<Rightarrow> go_error option \<times> 'tx transaction \<times> 'w" where
  "Rollback sdk t w =
     (if tx_st t \<noteq> TransactionActive then (Some (refused ''rollback'' (tx_st t)), t, w)
      else
        (case sdk_cancel sdk (tx_handle t) w of
           (answer, w') \<Rightarrow> (snd (rollback_section answer), t\<lparr>tx_st := fst (rollback_section answer)\<rparr>, w')))"

definition ExecuteWithVars :: "('w, 'tx) sdk \<Rightarrow> 'tx transaction \<Rightarrow> string \<Rightarrow> go_map \<Rightarrow> 'w \<Rightarrow> any result \<times> 'w" where
  "ExecuteWithVars sdk t surql vars w =
     (if \<not> IsActive t then
        (Inl (err_new ErrTransaction (''cannot execute in transaction state '' @ go_quote (tx_state_string (tx_st t)))), w)
      else
        (case sdk_tx_query sdk (tx_handle t) surql vars w of
           (Inl e, w') \<Rightarrow> (Inl (mapQueryError e), w')
         | (Inr results, w') \<Rightarrow> (Inr (queryResultsToEnvelopes results), w')))"

definition Execute :: "('w, 'tx) sdk \<Rightarrow> 'tx transaction \<Rightarrow> string \<Rightarrow> 'w \<Rightarrow> any result \<times> 'w" where
  "Execute sdk t surql w = ExecuteWithVars sdk t surql [] w"

section \<open>Interleavings\<close>

text \<open>
  Several goroutines on one transaction. \<open>Commit\<close> and \<open>Rollback\<close> hold the lock from the test to
  the answer of the RPC, so each is one step; \<open>ExecuteWithVars\<close> releases the lock between its
  test and its RPC, so it is two, with the statements that have passed the test in between.
  The log has the RPCs in the order the SDK sees them, with their answers.
\<close>

datatype tx_event = RpcCommit "go_error option" | RpcCancel "go_error option" | RpcExec string

record tx_conf =
  tc_state :: tx_state
  tc_checked :: "string multiset"
  tc_log :: "tx_event list"

definition tx_start :: tx_conf where
  "tx_start = \<lparr>tc_state = TransactionActive, tc_checked = {#}, tc_log = []\<rparr>"

inductive tx_step :: "tx_conf \<Rightarrow> tx_conf \<Rightarrow> bool" where
  commit: "tc_state c = TransactionActive \<Longrightarrow>
     tx_step c (c\<lparr>tc_state := fst (commit_section answer), tc_log := tc_log c @ [RpcCommit answer]\<rparr>)"
| rollback: "tc_state c = TransactionActive \<Longrightarrow>
     tx_step c (c\<lparr>tc_state := fst (rollback_section answer), tc_log := tc_log c @ [RpcCancel answer]\<rparr>)"
| refuse: "tc_state c \<noteq> TransactionActive \<Longrightarrow> tx_step c c"
| exec_check: "tc_state c = TransactionActive \<Longrightarrow> tx_step c (c\<lparr>tc_checked := add_mset s (tc_checked c)\<rparr>)"
| exec_send: "s \<in># tc_checked c \<Longrightarrow>
     tx_step c (c\<lparr>tc_checked := tc_checked c - {#s#}, tc_log := tc_log c @ [RpcExec s]\<rparr>)"

inductive_cases tx_stepE: "tx_step c c'"

definition finaliser :: "tx_event \<Rightarrow> bool" where
  "finaliser ev \<longleftrightarrow> (\<forall>s. ev \<noteq> RpcExec s)"

text \<open>The state the finalising RPC of a log leads to.\<close>

definition outcome :: "tx_event list \<Rightarrow> tx_state" where
  "outcome evs =
     (case filter finaliser evs of
        [RpcCommit None] \<Rightarrow> TransactionCommitted
      | [RpcCancel None] \<Rightarrow> TransactionRolledBack
      | [] \<Rightarrow> TransactionActive
      | _ \<Rightarrow> TransactionFailed)"

definition tx_inv :: "tx_conf \<Rightarrow> bool" where
  "tx_inv c \<longleftrightarrow> length (filter finaliser (tc_log c)) \<le> 1 \<and> tc_state c = outcome (tc_log c)"

lemma finaliser_simps [simp]:
  "finaliser (RpcCommit a)" "finaliser (RpcCancel a)" "\<not> finaliser (RpcExec s)"
  by (simp_all add: finaliser_def)

lemma active_unfinished: "tx_inv c \<Longrightarrow> tc_state c = TransactionActive \<Longrightarrow> filter finaliser (tc_log c) = []"
proof (rule ccontr)
  assume "tx_inv c" "tc_state c = TransactionActive" "filter finaliser (tc_log c) \<noteq> []"
  moreover from this obtain e where "filter finaliser (tc_log c) = [e]"
    by (cases "filter finaliser (tc_log c)") (auto simp: tx_inv_def)
  moreover from this have "e \<in> set (filter finaliser (tc_log c))" by simp
  ultimately show False
    by (cases e) (simp_all add: tx_inv_def outcome_def split: option.splits)
qed

lemma tx_inv_step: "tx_step c c' \<Longrightarrow> tx_inv c \<Longrightarrow> tx_inv c'"
proof (induction rule: tx_step.induct)
  case (commit c answer)
  with active_unfinished [of c] show ?case
    by (simp add: tx_inv_def outcome_def commit_section_def split: option.splits)
next
  case (rollback c answer)
  with active_unfinished [of c] show ?case
    by (simp add: tx_inv_def outcome_def rollback_section_def split: option.splits)
qed (simp_all add: tx_inv_def outcome_def)

text \<open>
  C11 (invariant). Whatever goroutines do with a transaction, in every interleaving: at most one
  commit or cancel RPC is sent, the state the object reports is exactly the outcome of that RPC
  (committed, rolled back, failed, or active when none was sent), and once it has left the active
  state no further step changes it.
\<close>

theorem transaction_finalised_once:
  assumes "tx_step\<^sup>*\<^sup>* tx_start c"
  shows "length (filter finaliser (tc_log c)) \<le> 1 \<and> tc_state c = outcome (tc_log c)
    \<and> (\<forall>c'. tc_state c \<noteq> TransactionActive \<longrightarrow> tx_step c c' \<longrightarrow> tc_state c' = tc_state c)"
proof -
  have "tx_inv c"
    using assms
  proof (induction rule: rtranclp_induct)
    case base
    then show ?case by (simp add: tx_inv_def tx_start_def outcome_def)
  next
    case (step y z)
    then show ?case using tx_inv_step by blast
  qed
  then show ?thesis by (auto simp: tx_inv_def elim!: tx_stepE)
qed

lemma committed_reachable:
  "tx_step\<^sup>*\<^sup>* tx_start \<lparr>tc_state = TransactionCommitted, tc_checked = {#''CREATE a''#}, tc_log = [RpcCommit None]\<rparr>"
proof -
  have "tx_step tx_start (tx_start\<lparr>tc_checked := {#''CREATE a''#}\<rparr>)"
    using tx_step.exec_check [of tx_start "''CREATE a''"] by (simp add: tx_start_def)
  moreover have "tx_step (tx_start\<lparr>tc_checked := {#''CREATE a''#}\<rparr>)
      \<lparr>tc_state = TransactionCommitted, tc_checked = {#''CREATE a''#}, tc_log = [RpcCommit None]\<rparr>"
    using tx_step.commit [of "tx_start\<lparr>tc_checked := {#''CREATE a''#}\<rparr>" None]
    by (simp add: tx_start_def commit_section_def)
  ultimately show ?thesis by (meson converse_rtranclp_into_rtranclp rtranclp.rtrancl_refl)
qed

theorem transaction_finalised_once_witness:
  "length (filter finaliser [RpcCommit None]) \<le> 1 \<and> TransactionCommitted = outcome [RpcCommit None]"
  using transaction_finalised_once [OF committed_reachable] by simp

text \<open>The gap in \<open>ExecuteWithVars\<close>: a statement tested while the transaction was active may be
  sent after it has been committed.\<close>

lemma execute_after_commit:
  "\<exists>c. tx_step\<^sup>*\<^sup>* tx_start c \<and> tc_log c = [RpcCommit None, RpcExec ''CREATE a'']"
proof -
  let ?c = "\<lparr>tc_state = TransactionCommitted, tc_checked = {#''CREATE a''#}, tc_log = [RpcCommit None]\<rparr>"
  have "tx_step ?c \<lparr>tc_state = TransactionCommitted, tc_checked = {#}, tc_log = [RpcCommit None, RpcExec ''CREATE a'']\<rparr>"
    using tx_step.exec_send [of "''CREATE a''" ?c] by simp
  then have "tx_step\<^sup>*\<^sup>* tx_start
      \<lparr>tc_state = TransactionCommitted, tc_checked = {#}, tc_log = [RpcCommit None, RpcExec ''CREATE a'']\<rparr>"
    by (rule rtranclp.rtrancl_into_rtrancl [OF committed_reachable])
  then show ?thesis by (intro exI conjI) (assumption, simp)
qed

end
