(* ===== verification/Migration_History.thy ===== *)
theory Migration_History
  imports Database_Client Migration_Files "HOL-Library.Product_Lexorder"
begin

text \<open>
  Package \<open>migration\<close>, \<open>history.go\<close>: the table of applied migrations, kept in the database itself.
  A nil \<open>*DatabaseClient\<close> is None. A time is a number of nanoseconds with 0 the zero \<open>time.Time\<close>;
  \<open>tm_format\<close> and \<open>tm_parse\<close> are the RFC 3339 formatter and parser of package \<open>time\<close>.
\<close>

section \<open>Entries\<close>

record history_entry =
  h_version :: string
  h_description :: string
  h_applied_at :: gotime
  h_checksum :: string
  h_execution_ms :: "int64 option"

record 'w time_env =
  tm_now :: "'w \<Rightarrow> gotime"
  tm_format :: "gotime \<Rightarrow> string"
  tm_parse :: "string \<Rightarrow> gotime option"

definition MigrationTableName :: string where
  "MigrationTableName = ''_migration_history''"

definition nil_client :: go_error where
  "nil_client = err_new ErrValidation ''client cannot be nil''"

section \<open>The table\<close>

definition history_schema :: "string list" where
  "history_schema =
     [''DEFINE TABLE IF NOT EXISTS '' @ MigrationTableName @ '' SCHEMAFULL;'',
      ''DEFINE FIELD IF NOT EXISTS version ON TABLE '' @ MigrationTableName @ '' TYPE string;'',
      ''DEFINE FIELD IF NOT EXISTS description ON TABLE '' @ MigrationTableName @ '' TYPE string;'',
      ''DEFINE FIELD IF NOT EXISTS applied_at ON TABLE '' @ MigrationTableName @ '' TYPE datetime;'',
      ''DEFINE FIELD IF NOT EXISTS checksum ON TABLE '' @ MigrationTableName @ '' TYPE string;'',
      ''DEFINE FIELD IF NOT EXISTS execution_time_ms ON TABLE '' @ MigrationTableName @ '' TYPE option<int>;'',
      ''DEFINE INDEX IF NOT EXISTS version_idx ON TABLE '' @ MigrationTableName @ '' COLUMNS version UNIQUE;'']"

fun run_schema :: "('w, 'tx) sdk \<Rightarrow> client \<Rightarrow> string list \<Rightarrow> 'w \<Rightarrow> go_error option \<times> 'w" where
  "run_schema sdk c [] w = (None, w)"
| "run_schema sdk c (stmt # rest) w =
     (case Query sdk c stmt w of
        (Inl e, w') \<Rightarrow> (Some (err_wrap ErrMigrationHistory ''failed to create migration history table'' e), w')
      | (Inr _, w') \<Rightarrow> run_schema sdk c rest w')"

definition CreateMigrationTable :: "('w, 'tx) sdk \<Rightarrow> client option \<Rightarrow> 'w \<Rightarrow> go_error option \<times> 'w" where
  "CreateMigrationTable sdk co w =
     (case co of None \<Rightarrow> (Some nil_client, w) | Some c \<Rightarrow> run_schema sdk c history_schema w)"

definition EnsureMigrationTable :: "('w, 'tx) sdk \<Rightarrow> client option \<Rightarrow> 'w \<Rightarrow> go_error option \<times> 'w" where
  "EnsureMigrationTable = CreateMigrationTable"

section \<open>Recording and removing\<close>

definition record_vars :: "'w time_env \<Rightarrow> history_entry \<Rightarrow> gotime \<Rightarrow> go_map" where
  "record_vars tm entry appliedAt =
     [(''version'', StrV (h_version entry)), (''description'', StrV (h_description entry)),
      (''applied_at'', StrV (tm_format tm appliedAt)), (''checksum'', StrV (h_checksum entry))]
     @ (case h_execution_ms entry of None \<Rightarrow> [] | Some ms \<Rightarrow> [(''execution_time_ms'', Int64V ms)])"

definition record_sql :: "history_entry \<Rightarrow> string" where
  "record_sql entry =
     ''CREATE '' @ MigrationTableName @ '' SET '' @ ''version = $version, '' @ ''description = $description, ''
     @ ''applied_at = <datetime> $applied_at, '' @ ''checksum = $checksum''
     @ (case h_execution_ms entry of None \<Rightarrow> [] | Some _ \<Rightarrow> '', execution_time_ms = $execution_time_ms'') @ '';''"

definition RecordMigration ::
  "('w, 'tx) sdk \<Rightarrow> 'w time_env \<Rightarrow> client option \<Rightarrow> history_entry \<Rightarrow> 'w \<Rightarrow> go_error option \<times> 'w" where
  "RecordMigration sdk tm co entry w =
     (case co of
        None \<Rightarrow> (Some nil_client, w)
      | Some c \<Rightarrow>
          if h_version entry = [] then (Some (err_new ErrValidation ''history entry version cannot be empty''), w)
          else
            (case EnsureMigrationTable sdk (Some c) w of
               (Some e, w1) \<Rightarrow> (Some e, w1)
             | (None, w1) \<Rightarrow>
                 (let appliedAt = (if h_applied_at entry = 0 then tm_now tm w1 else h_applied_at entry) in
                  case QueryWithVars sdk c (record_sql entry) (record_vars tm entry appliedAt) w1 of
                    (Inl e, w2) \<Rightarrow>
                      (Some (err_wrap ErrMigrationHistory (''failed to record migration '' @ go_quote (h_version entry)) e), w2)
                  | (Inr _, w2) \<Rightarrow> (None, w2))))"

definition remove_sql :: string where
  "remove_sql = ''DELETE '' @ MigrationTableName @ '' WHERE version = $version;''"

definition RemoveMigrationRecord :: "('w, 'tx) sdk \<Rightarrow> client option \<Rightarrow> string \<Rightarrow> 'w \<Rightarrow> go_error option \<times> 'w" where
  "RemoveMigrationRecord sdk co version w =
     (case co of
        None \<Rightarrow> (Some nil_client, w)
      | Some c \<Rightarrow>
          if version = [] then (Some (err_new ErrValidation ''version cannot be empty''), w)
          else
            (case EnsureMigrationTable sdk (Some c) w of
               (Some e, w1) \<Rightarrow> (Some e, w1)
             | (None, w1) \<Rightarrow>
                 (case QueryWithVars sdk c remove_sql [(''version'', StrV version)] w1 of
                    (Inl e, w2) \<Rightarrow>
                      (Some (err_wrap ErrMigrationHistory (''failed to remove migration record '' @ go_quote version) e), w2)
                  | (Inr _, w2) \<Rightarrow> (None, w2))))"

section \<open>Reading\<close>

fun appendResultValues :: "any \<Rightarrow> go_map list" where
  "appendResultValues (ListV items) = List.map_filter as_map items"
| "appendResultValues (MapV m) = [m]"
| "appendResultValues _ = []"

definition entry_records :: "any \<Rightarrow> go_map list" where
  "entry_records entry =
     (case as_map entry of
        None \<Rightarrow> []
      | Some env \<Rightarrow>
          (case map_get env ''result'' of
             None \<Rightarrow> [env]
           | Some raw \<Rightarrow> appendResultValues raw))"

definition extractRecords :: "any \<Rightarrow> go_map list" where
  "extractRecords res = (case as_list res of None \<Rightarrow> [] | Some arr \<Rightarrow> concat (map entry_records arr))"

fun coerceInt64 :: "any \<Rightarrow> int64 option" where
  "coerceInt64 (IntV n) = Some n"
| "coerceInt64 (Int32V n) = Some (scast n)"
| "coerceInt64 (Int64V n) = Some n"
| "coerceInt64 (UintV n) = Some n"
| "coerceInt64 (Uint32V n) = Some (ucast n)"
| "coerceInt64 (Uint64V n) = Some n"
| "coerceInt64 (Float32V f) = Some (float_to_int64 f)"
| "coerceInt64 (Float64V f) = Some (float_to_int64 f)"
| "coerceInt64 _ = None"

text \<open>\<open>time.Parse\<close> is tried with two layouts that accept the same strings (a fraction of a second
  is read by either), so it is called once.\<close>

fun parseHistoryDatetime :: "'w time_env \<Rightarrow> any \<Rightarrow> gotime" where
  "parseHistoryDatetime tm (TimeV t) = t"
| "parseHistoryDatetime tm (StrV s) = (case tm_parse tm s of Some t \<Rightarrow> t | None \<Rightarrow> 0)"
| "parseHistoryDatetime tm _ = 0"

definition string_or_empty :: "any \<Rightarrow> string" where
  "string_or_empty v = (case as_string v of Some s \<Rightarrow> s | None \<Rightarrow> [])"

definition decodeHistoryRecord :: "'w time_env \<Rightarrow> go_map \<Rightarrow> history_entry option" where
  "decodeHistoryRecord tm r =
     (let version = string_or_empty (map_index r ''version'') in
      if version = [] then None
      else
        Some \<lparr>h_version = version, h_description = string_or_empty (map_index r ''description''),
              h_applied_at = parseHistoryDatetime tm (map_index r ''applied_at''),
              h_checksum = string_or_empty (map_index r ''checksum''),
              h_execution_ms = coerceInt64 (map_index r ''execution_time_ms'')\<rparr>)"

definition select_sql :: string where
  "select_sql = ''SELECT * FROM '' @ MigrationTableName @ '' ORDER BY applied_at ASC;''"

definition GetAppliedMigrations ::
  "('w, 'tx) sdk \<Rightarrow> 'w time_env \<Rightarrow> client option \<Rightarrow> 'w \<Rightarrow> history_entry list result \<times> 'w" where
  "GetAppliedMigrations sdk tm co w =
     (case co of
        None \<Rightarrow> (Inl nil_client, w)
      | Some c \<Rightarrow>
          (case EnsureMigrationTable sdk (Some c) w of
             (Some e, w1) \<Rightarrow> (Inl e, w1)
           | (None, w1) \<Rightarrow>
               (case Query sdk c select_sql w1 of
                  (Inl e, w2) \<Rightarrow> (Inl (err_wrap ErrMigrationHistory ''failed to fetch applied migrations'' e), w2)
                | (Inr res, w2) \<Rightarrow> (Inr (List.map_filter (decodeHistoryRecord tm) (extractRecords res)), w2))))"

definition GetAppliedVersions ::
  "('w, 'tx) sdk \<Rightarrow> 'w time_env \<Rightarrow> client option \<Rightarrow> 'w \<Rightarrow> string set result \<times> 'w" where
  "GetAppliedVersions sdk tm co w =
     (case GetAppliedMigrations sdk tm co w of
        (Inl e, w') \<Rightarrow> (Inl e, w')
      | (Inr ms, w') \<Rightarrow> (Inr (set (map h_version ms)), w'))"

definition IsMigrationApplied ::
  "('w, 'tx) sdk \<Rightarrow> 'w time_env \<Rightarrow> client option \<Rightarrow> string \<Rightarrow> 'w \<Rightarrow> bool result \<times> 'w" where
  "IsMigrationApplied sdk tm co version w =
     (case co of
        None \<Rightarrow> (Inl nil_client, w)
      | Some c \<Rightarrow>
          if version = [] then (Inl (err_new ErrValidation ''version cannot be empty''), w)
          else
            (case GetAppliedMigrations sdk tm (Some c) w of
               (Inl e, w') \<Rightarrow> (Inl e, w')
             | (Inr ms, w') \<Rightarrow> (Inr (list_ex (\<lambda>m. h_version m = version) ms), w')))"

definition GetMigrationHistory ::
  "('w, 'tx) sdk \<Rightarrow> 'w time_env \<Rightarrow> client option \<Rightarrow> 'w \<Rightarrow> history_entry list result \<times> 'w" where
  "GetMigrationHistory sdk tm co w =
     (case GetAppliedMigrations sdk tm co w of
        (Inl e, w') \<Rightarrow> (Inl e, w')
      | (Inr ms, w') \<Rightarrow> (Inr (sort_key h_applied_at ms), w'))"

end
