(* ===== verification/Migration_Executor.thy ===== *)
theory Migration_Executor
  imports Transactions Migration_History
begin

text \<open>
  Package \<open>migration\<close>, \<open>executor.go\<close>: running one migration in a transaction and recording it,
  and the operations on whole directories of migrations. What \<open>DiscoverMigrations\<close> returns for the
  directory is an argument.
\<close>

section \<open>Options and reports\<close>

definition direction_valid :: "string \<Rightarrow> bool" where
  "direction_valid dir \<longleftrightarrow> dir = ''up'' \<or> dir = ''down''"

record migration_status =
  ms_migration :: migration
  ms_state :: string
  ms_applied_at :: "gotime option"
  ms_error :: string

record execute_options =
  eo_steps :: "32 word"
  eo_dry_run :: bool
  eo_fail_on_validation :: bool

definition defaultExecuteOptions :: execute_options where
  "defaultExecuteOptions = \<lparr>eo_steps = 0, eo_dry_run = False, eo_fail_on_validation = True\<rparr>"

definition failed_status :: "migration \<Rightarrow> string \<Rightarrow> migration_status" where
  "failed_status m msg = \<lparr>ms_migration = m, ms_state = ''failed'', ms_applied_at = None, ms_error = msg\<rparr>"

record migration_plan =
  mp_migrations :: "migration list"
  mp_direction :: string

record status_report =
  rp_total :: nat
  rp_applied :: nat
  rp_pending :: nat

section \<open>One migration\<close>

text \<open>Runs the statements from number \<open>i\<close>; the failing statement's number and error, or None.\<close>

fun exec_statements ::
  "('w, 'tx) sdk \<Rightarrow> 'tx transaction \<Rightarrow> nat \<Rightarrow> string list \<Rightarrow> 'w \<Rightarrow> (nat \<times> go_error) option \<times> 'w" where
  "exec_statements sdk tx i [] w = (None, w)"
| "exec_statements sdk tx i (stmt # rest) w =
     (case Execute sdk tx stmt w of
        (Inl e, w') \<Rightarrow> (Some (i, e), w')
      | (Inr _, w') \<Rightarrow> exec_statements sdk tx (Suc i) rest w')"

definition milliseconds :: "gotime \<Rightarrow> int64" where
  "milliseconds d = word_of_int (d div 1000000)"

text \<open>The switch on the direction after the commit: the error of the history table, if any, and
  the error that is returned for it.\<close>

definition record_outcome ::
  "('w, 'tx) sdk \<Rightarrow> 'w time_env \<Rightarrow> client \<Rightarrow> migration \<Rightarrow> string \<Rightarrow> gotime \<Rightarrow> 'w \<Rightarrow> (go_error \<times> go_error) option \<times> 'w" where
  "record_outcome sdk tm c m dir start w =
     (if dir = ''up'' then
        (case RecordMigration sdk tm (Some c)
                \<lparr>h_version = mg_version m, h_description = mg_description m, h_applied_at = tm_now tm w,
                 h_checksum = mg_checksum m, h_execution_ms = Some (milliseconds (tm_now tm w - start))\<rparr> w of
           (Some e, w') \<Rightarrow>
             (Some (e, err_wrap ErrMigrationExecution
                (''migration '' @ go_quote (mg_version m) @ '' applied but history recording failed'') e), w')
         | (None, w') \<Rightarrow> (None, w'))
      else
        (case RemoveMigrationRecord sdk (Some c) (mg_version m) w of
           (Some e, w') \<Rightarrow>
             (Some (e, err_wrap ErrMigrationExecution
                (''migration '' @ go_quote (mg_version m) @ '' rolled back but history removal failed'') e), w')
         | (None, w') \<Rightarrow> (None, w')))"

definition ExecuteMigration ::
  "('w, 'tx) sdk \<Rightarrow> 'w time_env \<Rightarrow> client option \<Rightarrow> migration \<Rightarrow> string \<Rightarrow> 'w
     \<Rightarrow> migration_status \<times> go_error option \<times> 'w" where
  "ExecuteMigration sdk tm co m dir w =
     (case co of
        None \<Rightarrow> (failed_status m ''client cannot be nil'', Some nil_client, w)
      | Some c \<Rightarrow>
     (if \<not> direction_valid dir then
        (failed_status m ''invalid migration direction'',
         Some (err_new ErrValidation (''invalid migration direction '' @ go_quote dir)), w)
      else
        (let statements = (if dir = ''down'' then mg_down m else mg_up m);
             start = tm_now tm w in
         case Begin sdk c w of
           (Inl e, w1) \<Rightarrow>
             (failed_status m (err_text e),
              Some (err_wrap ErrMigrationExecution
                (''failed to begin transaction for migration '' @ go_quote (mg_version m)) e), w1)
         | (Inr tx, w1) \<Rightarrow>
             (case exec_statements sdk tx 0 statements w1 of
                (Some (i, e), w2) \<Rightarrow>
                  (failed_status m (''statement '' @ show_nat i @ '': '' @ err_text e),
                   Some (err_wrap ErrMigrationExecution
                     (''migration '' @ go_quote (mg_version m) @ '': failed to execute statement '' @ show_nat i) e),
                   snd (snd (Rollback sdk tx w2)))
              | (None, w2) \<Rightarrow>
                  (case Commit sdk tx w2 of
                     (Some e, _, w3) \<Rightarrow>
                       (failed_status m (err_text e),
                        Some (err_wrap ErrMigrationExecution
                          (''migration '' @ go_quote (mg_version m) @ '': commit failed'') e), w3)
                   | (None, _, w3) \<Rightarrow>
                       (case record_outcome sdk tm c m dir start w3 of
                          (Some (cause, e), w4) \<Rightarrow> (failed_status m (err_text cause), Some e, w4)
                        | (None, w4) \<Rightarrow>
                            (\<lparr>ms_migration = m, ms_state = ''applied'', ms_applied_at = Some (tm_now tm w3), ms_error = []\<rparr>,
                             None, w4)))))))"

section \<open>Sets of migrations\<close>

definition validateMigrationSet :: "migration list \<Rightarrow> string list" where
  "validateMigrationSet migrations =
     (let versions = map mg_version migrations;
          duplicates = sort (filter (\<lambda>v. 1 < count_list versions v) (remdups versions));
          issues1 = (if duplicates \<noteq> [] then [''duplicate migration versions: '' @ str_join '', '' duplicates] else []);
          issues2 = concat (map (\<lambda>m.
            map (\<lambda>dep. ''migration '' @ mg_version m @ '' depends on missing migration '' @ dep)
              (filter (\<lambda>dep. dep \<notin> set versions) (mg_depends_on m))
            @ (if mg_up m = [] then [''migration '' @ mg_version m @ '' has no up statements''] else [])) migrations) in
      sort (issues1 @ issues2))"

definition ValidateMigrations :: "migration list result \<Rightarrow> string list result" where
  "ValidateMigrations discovered = rbind discovered (\<lambda>ms. Inr (validateMigrationSet ms))"

definition pendingMigrations ::
  "('w, 'tx) sdk \<Rightarrow> 'w time_env \<Rightarrow> client option \<Rightarrow> migration list \<Rightarrow> 'w \<Rightarrow> migration list result \<times> 'w" where
  "pendingMigrations sdk tm co migrations w =
     (case GetAppliedMigrations sdk tm co w of
        (Inl e, w') \<Rightarrow> (Inl e, w')
      | (Inr applied, w') \<Rightarrow>
          (Inr (sort_key mg_version
             (filter (\<lambda>m. mg_version m \<notin> set (map h_version applied)) migrations)), w'))"

text \<open>A later migration of the same version replaces an earlier one in the index.\<close>

definition indexByVersion :: "migration list \<Rightarrow> string \<Rightarrow> migration option" where
  "indexByVersion migrations = map_of (rev (map (\<lambda>m. (mg_version m, m)) migrations))"

fun run_pending ::
  "('w, 'tx) sdk \<Rightarrow> 'w time_env \<Rightarrow> client option \<Rightarrow> bool \<Rightarrow> string \<Rightarrow> migration list \<Rightarrow> migration_status list \<Rightarrow> 'w
     \<Rightarrow> migration_status list \<times> go_error option \<times> 'w" where
  "run_pending sdk tm co dry dir [] statuses w = (statuses, None, w)"
| "run_pending sdk tm co dry dir (m # rest) statuses w =
     (if dry then
        run_pending sdk tm co dry dir rest
          (statuses @ [\<lparr>ms_migration = m, ms_state = ''pending'', ms_applied_at = None, ms_error = []\<rparr>]) w
      else
        (case ExecuteMigration sdk tm co m dir w of
           (st, Some e, w') \<Rightarrow> (statuses @ [st], Some e, w')
         | (st, None, w') \<Rightarrow> run_pending sdk tm co dry dir rest (statuses @ [st]) w'))"

definition limit_steps :: "32 word \<Rightarrow> migration list \<Rightarrow> migration list" where
  "limit_steps steps pending = (if 0 < steps \<and> unat steps < length pending then take (unat steps) pending else pending)"

definition MigrateUp ::
  "('w, 'tx) sdk \<Rightarrow> 'w time_env \<Rightarrow> client option \<Rightarrow> migration list result \<Rightarrow> execute_options \<Rightarrow> 'w
     \<Rightarrow> migration_status list \<times> go_error option \<times> 'w" where
  "MigrateUp sdk tm co discovered opts w =
     (if co = None then ([], Some nil_client, w)
      else
        (case discovered of
           Inl e \<Rightarrow> ([], Some e, w)
         | Inr migrations \<Rightarrow>
             (let issues = validateMigrationSet migrations in
              if eo_fail_on_validation opts \<and> issues \<noteq> [] then
                ([], Some (err_new ErrMigrationExecution (''migration validation failed: '' @ str_join ''; '' issues)), w)
              else
                (case pendingMigrations sdk tm co migrations w of
                   (Inl e, w1) \<Rightarrow> ([], Some e, w1)
                 | (Inr pending, w1) \<Rightarrow>
                     run_pending sdk tm co (eo_dry_run opts) ''up'' (limit_steps (eo_steps opts) pending) [] w1))))"

section \<open>Rolling back\<close>

definition GetAppliedMigrationsOrdered ::
  "('w, 'tx) sdk \<Rightarrow> 'w time_env \<Rightarrow> client option \<Rightarrow> 'w \<Rightarrow> history_entry list result \<times> 'w" where
  "GetAppliedMigrationsOrdered sdk tm co w =
     (case GetAppliedMigrations sdk tm co w of
        (Inl e, w') \<Rightarrow> (Inl e, w')
      | (Inr entries, w') \<Rightarrow> (Inr (sort_key (\<lambda>e. (h_applied_at e, h_version e)) entries), w'))"

text \<open>The loop of \<open>MigrateDown\<close> over the entries to undo, newest first.\<close>

fun run_down ::
  "('w, 'tx) sdk \<Rightarrow> 'w time_env \<Rightarrow> client option \<Rightarrow> string \<Rightarrow> (string \<Rightarrow> migration option) \<Rightarrow> history_entry list
     \<Rightarrow> migration_status list \<Rightarrow> 'w \<Rightarrow> migration_status list \<times> go_error option \<times> 'w" where
  "run_down sdk tm co directory disk [] statuses w = (statuses, None, w)"
| "run_down sdk tm co directory disk (entry # rest) statuses w =
     (case disk (h_version entry) of
        None \<Rightarrow>
          (statuses,
           Some (err_new ErrMigrationExecution
             (''cannot rollback '' @ go_quote (h_version entry) @ '': migration file not found in '' @ go_quote directory)), w)
      | Some m \<Rightarrow>
          (case ExecuteMigration sdk tm co m ''down'' w of
             (st, Some e, w') \<Rightarrow> (statuses @ [st], Some e, w')
           | (st, None, w') \<Rightarrow> run_down sdk tm co directory disk rest (statuses @ [st]) w'))"

definition last_steps :: "32 word \<Rightarrow> 'a list \<Rightarrow> 'a list" where
  "last_steps steps xs = drop (if unat steps < length xs then length xs - unat steps else 0) xs"

definition MigrateDown ::
  "('w, 'tx) sdk \<Rightarrow> 'w time_env \<Rightarrow> client option \<Rightarrow> string \<Rightarrow> migration list result \<Rightarrow> 32 word \<Rightarrow> 'w
     \<Rightarrow> migration_status list \<times> go_error option \<times> 'w" where
  "MigrateDown sdk tm co directory discovered steps w =
     (if co = None then ([], Some nil_client, w)
      else if steps = 0 then ([], Some (err_new ErrValidation ''rollback steps must be >= 1''), w)
      else
        (case discovered of
           Inl e \<Rightarrow> ([], Some e, w)
         | Inr migrations \<Rightarrow>
             (case GetAppliedMigrationsOrdered sdk tm co w of
                (Inl e, w1) \<Rightarrow> ([], Some e, w1)
              | (Inr applied, w1) \<Rightarrow>
                  (if applied = [] then ([], None, w1)
                   else run_down sdk tm co directory (indexByVersion migrations) (rev (last_steps steps applied)) [] w1))))"

section \<open>Plans and reports\<close>

definition GetPendingMigrations ::
  "('w, 'tx) sdk \<Rightarrow> 'w time_env \<Rightarrow> client option \<Rightarrow> migration list result \<Rightarrow> 'w \<Rightarrow> migration list result \<times> 'w" where
  "GetPendingMigrations sdk tm co discovered w =
     (if co = None then (Inl nil_client, w)
      else (case discovered of Inl e \<Rightarrow> (Inl e, w) | Inr migrations \<Rightarrow> pendingMigrations sdk tm co migrations w))"

definition GetMigrationStatus ::
  "('w, 'tx) sdk \<Rightarrow> 'w time_env \<Rightarrow> client option \<Rightarrow> migration list result \<Rightarrow> 'w \<Rightarrow> status_report result \<times> 'w" where
  "GetMigrationStatus sdk tm co discovered w =
     (if co = None then (Inl nil_client, w)
      else
        (case discovered of
           Inl e \<Rightarrow> (Inl e, w)
         | Inr migrations \<Rightarrow>
             (case GetAppliedMigrations sdk tm co w of
                (Inl e, w1) \<Rightarrow> (Inl e, w1)
              | (Inr applied, w1) \<Rightarrow>
                  (let appliedCount = length (filter (\<lambda>m. mg_version m \<in> set (map h_version applied)) migrations) in
                   (Inr \<lparr>rp_total = length migrations, rp_applied = appliedCount,
                         rp_pending = length migrations - appliedCount\<rparr>, w1)))))"

definition CreateMigrationPlan ::
  "('w, 'tx) sdk \<Rightarrow> 'w time_env \<Rightarrow> client option \<Rightarrow> migration list result \<Rightarrow> 'w \<Rightarrow> migration_plan result \<times> 'w" where
  "CreateMigrationPlan sdk tm co discovered w =
     (case GetPendingMigrations sdk tm co discovered w of
        (Inl e, w') \<Rightarrow> (Inl e, w')
      | (Inr pending, w') \<Rightarrow> (Inr \<lparr>mp_migrations = pending, mp_direction = ''up''\<rparr>, w'))"

definition ExecuteMigrationPlan ::
  "('w, 'tx) sdk \<Rightarrow> 'w time_env \<Rightarrow> client option \<Rightarrow> migration_plan \<Rightarrow> 'w
     \<Rightarrow> migration_status list \<times> go_error option \<times> 'w" where
  "ExecuteMigrationPlan sdk tm co plan w =
     (if co = None then ([], Some nil_client, w)
      else if \<not> direction_valid (mp_direction plan) then
        ([], Some (err_new ErrValidation (''invalid plan direction '' @ go_quote (mp_direction plan))), w)
      else if mp_migrations plan = [] then ([], None, w)
      else
        run_pending sdk tm co False (mp_direction plan)
          (if mp_direction plan = ''down'' then rev (mp_migrations plan) else mp_migrations plan) [] w)"

end
