(* ===== verification/Migration_Executor_Correct.thy ===== *)
theory Migration_Executor_Correct
  imports Migration_Executor
begin

text \<open>
  Correctness of the executor. The database behind the SDK is seen through \<open>db_view\<close>: its
  committed data, the versions in the history table, what a transaction has staged, and the effect
  of a statement. \<open>surreal_laws\<close> states the documented behaviour the executor relies on (isolation
  and atomicity of transactions, and the three statements it issues on the history table), and
  nothing about which calls succeed; a failed commit or insertion may or may not have taken effect.
\<close>

section \<open>The laws\<close>

record ('w, 'tx, 'd) db_view =
  dv_data :: "'w \<Rightarrow> 'd"
  dv_hist :: "'w \<Rightarrow> string list"
  dv_staged :: "'tx \<Rightarrow> 'w \<Rightarrow> 'd"
  dv_run :: "string \<Rightarrow> 'd \<Rightarrow> 'd"

definition unchanged :: "('w, 'tx, 'd) db_view \<Rightarrow> 'w \<Rightarrow> 'w \<Rightarrow> bool" where
  "unchanged dv w w' \<longleftrightarrow> dv_data dv w' = dv_data dv w \<and> dv_hist dv w' = dv_hist dv w"

definition transaction_laws :: "('w, 'tx) sdk \<Rightarrow> ('w, 'tx, 'd) db_view \<Rightarrow> bool" where
  "transaction_laws sdk dv \<longleftrightarrow>
     (\<forall>w r w'. sdk_begin sdk w = (r, w') \<longrightarrow>
        unchanged dv w w' \<and> (\<forall>tx. r = Inr tx \<longrightarrow> dv_staged dv tx w' = dv_data dv w'))
   \<and> (\<forall>tx s vars w r w'. sdk_tx_query sdk tx s vars w = (r, w') \<longrightarrow>
        unchanged dv w w' \<and> (\<forall>res. r = Inr res \<longrightarrow> dv_staged dv tx w' = dv_run dv s (dv_staged dv tx w)))
   \<and> (\<forall>tx w r w'. sdk_commit sdk tx w = (r, w') \<longrightarrow>
        dv_hist dv w' = dv_hist dv w
        \<and> (r = None \<longrightarrow> dv_data dv w' = dv_staged dv tx w)
        \<and> (r \<noteq> None \<longrightarrow> dv_data dv w' \<in> {dv_data dv w, dv_staged dv tx w}))
   \<and> (\<forall>tx w r w'. sdk_cancel sdk tx w = (r, w') \<longrightarrow> unchanged dv w w')"

definition history_laws :: "('w, 'tx) sdk \<Rightarrow> 'w time_env \<Rightarrow> ('w, 'tx, 'd) db_view \<Rightarrow> bool" where
  "history_laws sdk tm dv \<longleftrightarrow>
     (\<forall>s w r w'. s \<in> set history_schema \<longrightarrow> sdk_query sdk s [] w = (r, w') \<longrightarrow> unchanged dv w w')
   \<and> (\<forall>entry t w r w'. sdk_query sdk (record_sql entry) (record_vars tm entry t) w = (r, w') \<longrightarrow>
        dv_data dv w' = dv_data dv w
        \<and> (\<forall>res. r = Inr res \<longrightarrow> dv_hist dv w' = dv_hist dv w @ [h_version entry])
        \<and> dv_hist dv w' \<in> {dv_hist dv w, dv_hist dv w @ [h_version entry]})
   \<and> (\<forall>v w r w'. sdk_query sdk remove_sql [(''version'', StrV v)] w = (r, w') \<longrightarrow>
        dv_data dv w' = dv_data dv w
        \<and> (\<forall>res. r = Inr res \<longrightarrow> dv_hist dv w' = filter (\<lambda>x. x \<noteq> v) (dv_hist dv w))
        \<and> dv_hist dv w' \<in> {dv_hist dv w, filter (\<lambda>x. x \<noteq> v) (dv_hist dv w)})
   \<and> (\<forall>w r w'. sdk_query sdk select_sql [] w = (r, w') \<longrightarrow>
        unchanged dv w w'
        \<and> (\<forall>res. r = Inr res \<longrightarrow>
             (\<exists>st ti recs. res = Some [\<lparr>qr_status = st, qr_time = ti, qr_result = ListV (map MapV recs)\<rparr>]
                \<and> set (map (\<lambda>row. map_index row ''version'') recs) = StrV ` set (dv_hist dv w))))"

definition surreal_laws :: "('w, 'tx) sdk \<Rightarrow> 'w time_env \<Rightarrow> ('w, 'tx, 'd) db_view \<Rightarrow> bool" where
  "surreal_laws sdk tm dv \<longleftrightarrow> transaction_laws sdk dv \<and> history_laws sdk tm dv"

abbreviation run_script :: "('w, 'tx, 'd) db_view \<Rightarrow> string list \<Rightarrow> 'd \<Rightarrow> 'd" where
  "run_script dv stmts \<equiv> fold (dv_run dv) stmts"

lemma unchanged_refl [simp]: "unchanged dv w w"
  by (simp add: unchanged_def)

lemma unchanged_trans: "unchanged dv a b \<Longrightarrow> unchanged dv b c \<Longrightarrow> unchanged dv a c"
  by (simp add: unchanged_def)

lemma begin_law:
  assumes "surreal_laws sdk tm dv" "Begin sdk c w = (r, w')"
  shows "unchanged dv w w' \<and> (\<forall>t. r = Inr t \<longrightarrow> IsActive t \<and> dv_staged dv (tx_handle t) w' = dv_data dv w)"
  using assms
  by (auto simp: surreal_laws_def transaction_laws_def Begin_def IsActive_def unchanged_def split: option.splits prod.splits sum.splits)

lemma execute_law:
  assumes "surreal_laws sdk tm dv" "Execute sdk t s w = (r, w')"
  shows "unchanged dv w w'
    \<and> (\<forall>v. r = Inr v \<longrightarrow> dv_staged dv (tx_handle t) w' = dv_run dv s (dv_staged dv (tx_handle t) w))"
  using assms
  by (auto simp: surreal_laws_def transaction_laws_def Execute_def ExecuteWithVars_def split: if_splits prod.splits sum.splits)

lemma statements_law:
  assumes "surreal_laws sdk tm dv"
  shows "exec_statements sdk t i ss w = (r, w') \<Longrightarrow> unchanged dv w w'
    \<and> (r = None \<longrightarrow> dv_staged dv (tx_handle t) w' = run_script dv ss (dv_staged dv (tx_handle t) w))"
proof (induction ss arbitrary: i w)
  case (Cons s ss)
  obtain a w1 where ex: "Execute sdk t s w = (a, w1)" by fastforce
  note law = execute_law [OF assms ex]
  show ?case
  proof (cases a)
    case (Inl e)
    then show ?thesis using Cons.prems ex law by auto
  next
    case (Inr v)
    then have "exec_statements sdk t (Suc i) ss w1 = (r, w')" using Cons.prems ex by simp
    from Cons.IH [OF this] show ?thesis using law Inr unchanged_trans by fastforce
  qed
qed simp

lemma rollback_law:
  assumes "surreal_laws sdk tm dv"
  shows "unchanged dv w (snd (snd (Rollback sdk t w)))"
  using assms by (auto simp: surreal_laws_def transaction_laws_def Rollback_def split: prod.splits)

lemma commit_law:
  assumes "surreal_laws sdk tm dv" "Commit sdk t w = (r, t', w')" "IsActive t"
  shows "dv_hist dv w' = dv_hist dv w \<and> (r = None \<longrightarrow> dv_data dv w' = dv_staged dv (tx_handle t) w)
    \<and> dv_data dv w' \<in> {dv_data dv w, dv_staged dv (tx_handle t) w}"
  using assms
  by (auto simp: surreal_laws_def transaction_laws_def Commit_def IsActive_def commit_section_def split: prod.splits option.splits)

lemma run_schema_law:
  assumes "surreal_laws sdk tm dv"
  shows "set ss \<subseteq> set history_schema \<Longrightarrow> run_schema sdk c ss w = (r, w') \<Longrightarrow> unchanged dv w w'"
proof (induction ss arbitrary: w)
  case (Cons s ss)
  obtain a w1 where q: "Query sdk c s w = (a, w1)" by fastforce
  have "unchanged dv w w1"
    using assms q Cons.prems(1)
    by (auto simp: surreal_laws_def history_laws_def Query_def QueryWithVars_def split: option.splits prod.splits sum.splits)
  then show ?case using Cons q unchanged_trans by (fastforce split: sum.splits)
qed simp

lemma ensure_law:
  "surreal_laws sdk tm dv \<Longrightarrow> EnsureMigrationTable sdk co w = (r, w') \<Longrightarrow> unchanged dv w w'"
  by (auto simp: EnsureMigrationTable_def CreateMigrationTable_def dest: run_schema_law [OF _ order_refl] split: option.splits)

lemma record_law:
  assumes laws: "surreal_laws sdk tm dv" and rec: "RecordMigration sdk tm (Some c) entry w = (r, w')"
  shows "dv_data dv w' = dv_data dv w \<and> dv_hist dv w' \<in> {dv_hist dv w, dv_hist dv w @ [h_version entry]}
    \<and> (r = None \<longrightarrow> dv_hist dv w' = dv_hist dv w @ [h_version entry])"
proof (cases "h_version entry = []")
  case True
  then show ?thesis using rec by (auto simp: RecordMigration_def)
next
  case False
  obtain a w1 where en: "EnsureMigrationTable sdk (Some c) w = (a, w1)" by fastforce
  note u = ensure_law [OF laws en]
  show ?thesis
  proof (cases a)
    case (Some e)
    then show ?thesis using rec en False u by (auto simp: RecordMigration_def unchanged_def)
  next
    case None
    define stamp where "stamp = (if h_applied_at entry = 0 then tm_now tm w1 else h_applied_at entry)"
    obtain q w2 where q: "QueryWithVars sdk c (record_sql entry) (record_vars tm entry stamp) w1 = (q, w2)" by fastforce
    have "w' = w2" "r = None \<longleftrightarrow> (\<exists>v. q = Inr v)"
      using rec en None False q by (auto simp: RecordMigration_def Let_def stamp_def split: sum.splits)
    moreover have "dv_data dv w2 = dv_data dv w1 \<and> dv_hist dv w2 \<in> {dv_hist dv w1, dv_hist dv w1 @ [h_version entry]}
        \<and> (\<forall>v. q = Inr v \<longrightarrow> dv_hist dv w2 = dv_hist dv w1 @ [h_version entry])"
      using laws q by (auto simp: surreal_laws_def history_laws_def QueryWithVars_def split: option.splits prod.splits sum.splits)
    ultimately show ?thesis using u by (auto simp: unchanged_def)
  qed
qed

lemma remove_law:
  assumes laws: "surreal_laws sdk tm dv" and rem: "RemoveMigrationRecord sdk (Some c) v w = (r, w')"
  shows "dv_data dv w' = dv_data dv w \<and> dv_hist dv w' \<in> {dv_hist dv w, filter (\<lambda>x. x \<noteq> v) (dv_hist dv w)}
    \<and> (r = None \<longrightarrow> dv_hist dv w' = filter (\<lambda>x. x \<noteq> v) (dv_hist dv w))"
proof (cases "v = []")
  case True
  then show ?thesis using rem by (auto simp: RemoveMigrationRecord_def)
next
  case False
  obtain a w1 where en: "EnsureMigrationTable sdk (Some c) w = (a, w1)" by fastforce
  note u = ensure_law [OF laws en]
  show ?thesis
  proof (cases a)
    case (Some e)
    then show ?thesis using rem en False u by (auto simp: RemoveMigrationRecord_def unchanged_def)
  next
    case None
    obtain q w2 where q: "QueryWithVars sdk c remove_sql [(''version'', StrV v)] w1 = (q, w2)" by fastforce
    have "w' = w2" "r = None \<longleftrightarrow> (\<exists>v. q = Inr v)"
      using rem en None False q by (auto simp: RemoveMigrationRecord_def split: sum.splits)
    moreover have "dv_data dv w2 = dv_data dv w1 \<and> dv_hist dv w2 \<in> {dv_hist dv w1, filter (\<lambda>x. x \<noteq> v) (dv_hist dv w1)}
        \<and> (\<forall>y. q = Inr y \<longrightarrow> dv_hist dv w2 = filter (\<lambda>x. x \<noteq> v) (dv_hist dv w1))"
      using laws q by (auto simp: surreal_laws_def history_laws_def QueryWithVars_def split: option.splits prod.splits sum.splits)
    ultimately show ?thesis using u by (auto simp: unchanged_def)
  qed
qed

text \<open>What a direction runs and does to the history.\<close>

definition script_of :: "string \<Rightarrow> migration \<Rightarrow> string list" where
  "script_of dir m = (if dir = ''down'' then mg_down m else mg_up m)"

definition hist_after :: "string \<Rightarrow> migration \<Rightarrow> string list \<Rightarrow> string list" where
  "hist_after dir m h = (if dir = ''up'' then h @ [mg_version m] else filter (\<lambda>x. x \<noteq> mg_version m) h)"

lemma outcome_law:
  assumes "surreal_laws sdk tm dv" "record_outcome sdk tm c m dir start w = (r, w')"
  shows "dv_data dv w' = dv_data dv w \<and> dv_hist dv w' \<in> {dv_hist dv w, hist_after dir m (dv_hist dv w)}
    \<and> (r = None \<longrightarrow> dv_hist dv w' = hist_after dir m (dv_hist dv w))"
proof (cases "dir = ''up''")
  case True
  obtain q w1 where q: "RecordMigration sdk tm (Some c)
      \<lparr>h_version = mg_version m, h_description = mg_description m, h_applied_at = tm_now tm w,
       h_checksum = mg_checksum m, h_execution_ms = Some (milliseconds (tm_now tm w - start))\<rparr> w = (q, w1)" by fastforce
  have "w' = w1" "r = None \<longleftrightarrow> q = None"
    using assms(2) q True by (auto simp: record_outcome_def split: option.splits)
  then show ?thesis using record_law [OF assms(1) q] True by (simp add: hist_after_def)
next
  case False
  obtain q w1 where q: "RemoveMigrationRecord sdk (Some c) (mg_version m) w = (q, w1)" by fastforce
  have "w' = w1" "r = None \<longleftrightarrow> q = None"
    using assms(2) q False by (auto simp: record_outcome_def split: option.splits)
  then show ?thesis using remove_law [OF assms(1) q] False by (simp add: hist_after_def)
qed

text \<open>All or nothing: nothing has happened, or the whole script has, and only then the history.\<close>

definition all_or_nothing ::
  "('w, 'tx, 'd) db_view \<Rightarrow> string \<Rightarrow> migration \<Rightarrow> 'w \<Rightarrow> 'w \<Rightarrow> bool" where
  "all_or_nothing dv dir m w w' \<longleftrightarrow>
     unchanged dv w w'
     \<or> dv_data dv w' = run_script dv (script_of dir m) (dv_data dv w)
        \<and> dv_hist dv w' \<in> {dv_hist dv w, hist_after dir m (dv_hist dv w)}"

definition completed :: "('w, 'tx, 'd) db_view \<Rightarrow> string \<Rightarrow> migration \<Rightarrow> 'w \<Rightarrow> 'w \<Rightarrow> bool" where
  "completed dv dir m w w' \<longleftrightarrow>
     dv_data dv w' = run_script dv (script_of dir m) (dv_data dv w) \<and> dv_hist dv w' = hist_after dir m (dv_hist dv w)"

lemma execute_migration_step:
  assumes laws: "surreal_laws sdk tm dv" and dir: "direction_valid dir"
    and ex: "ExecuteMigration sdk tm (Some c) m dir w = (st, err, w')"
  shows "all_or_nothing dv dir m w w' \<and> ms_migration st = m
    \<and> (err = None \<longrightarrow> ms_state st = ''applied'' \<and> completed dv dir m w w')
    \<and> (\<forall>e. err = Some e \<longrightarrow> ms_state st = ''failed'' \<and> errors_is e ErrMigrationExecution)"
proof -
  let ?ss = "script_of dir m"
  obtain b w1 where b: "Begin sdk c w = (b, w1)" by fastforce
  note bl = begin_law [OF laws b]
  show ?thesis
  proof (cases b)
    case (Inl e)
    then have "st = failed_status m (err_text e)" "w' = w1"
      "err = Some (err_wrap ErrMigrationExecution (''failed to begin transaction for migration '' @ go_quote (mg_version m)) e)"
      using ex dir b by (simp_all add: ExecuteMigration_def)
    then show ?thesis using bl by (simp add: all_or_nothing_def failed_status_def)
  next
    case (Inr t)
    obtain s w2 where s: "exec_statements sdk t 0 ?ss w1 = (s, w2)" by fastforce
    note sl = statements_law [OF laws s]
    have u2: "unchanged dv w w2" by (rule unchanged_trans [OF conjunct1 [OF bl] conjunct1 [OF sl]])
    show ?thesis
    proof (cases s)
      case (Some ie)
      moreover have "unchanged dv w (snd (snd (Rollback sdk t w2)))"
        by (rule unchanged_trans [OF u2 rollback_law [OF laws]])
      ultimately show ?thesis using ex dir b Inr s
        by (cases ie) (auto simp: ExecuteMigration_def script_of_def all_or_nothing_def failed_status_def)
    next
      case None
      obtain r t' w3 where k: "Commit sdk t w2 = (r, t', w3)" by (metis prod_cases3)
      have act: "IsActive t" using bl Inr by simp
      have staged: "dv_staged dv (tx_handle t) w2 = run_script dv ?ss (dv_data dv w)" using bl sl Inr None by simp
      note cl = commit_law [OF laws k act]
      show ?thesis
      proof (cases r)
        case (Some e)
        then show ?thesis using ex dir b Inr s None k cl u2 staged
          by (auto simp: ExecuteMigration_def script_of_def all_or_nothing_def failed_status_def unchanged_def)
      next
        case None2: None
        obtain q w4 where q: "record_outcome sdk tm c m dir (tm_now tm w) w3 = (q, w4)" by fastforce
        have w3: "dv_data dv w3 = run_script dv ?ss (dv_data dv w)" "dv_hist dv w3 = dv_hist dv w"
          using cl None2 staged u2 by (simp_all add: unchanged_def)
        have q_err: "errors_is e ErrMigrationExecution" if "q = Some (x, e)" for x e
          using q that by (auto simp: record_outcome_def split: if_splits prod.splits option.splits)
        show ?thesis using ex dir b Inr s None k None2 q w3 outcome_law [OF laws q] q_err
          by (auto simp: ExecuteMigration_def script_of_def all_or_nothing_def completed_def failed_status_def
              split: option.splits prod.splits)
      qed
    qed
  qed
qed

text \<open>
  C12 (safety). Executing one migration, up or down, is all or nothing for every outcome of every
  call to the database: either neither the data nor the history has changed, or every statement of
  the migration has taken effect, in order. The history is touched only in the second case. If no
  error is returned both have changed and the status is "applied"; otherwise the status is "failed"
  with the same migration, and the error is a migration-execution error.
\<close>

theorem execute_migration_atomic:
  assumes laws: "surreal_laws sdk tm dv" and dir: "direction_valid dir"
    and ex: "ExecuteMigration sdk tm (Some c) m dir w = (st, err, w')"
  shows "all_or_nothing dv dir m w w' \<and> ms_migration st = m
    \<and> (err = None \<longrightarrow> ms_state st = ''applied'' \<and> completed dv dir m w w')
    \<and> (\<forall>e. err = Some e \<longrightarrow> ms_state st = ''failed'' \<and> errors_is e ErrMigrationExecution)"
  by (rule execute_migration_step [OF assms])

section \<open>Directories of migrations\<close>

lemma map_filter_as_map [simp]: "List.map_filter as_map (map MapV recs) = recs"
  by (induction recs) (simp_all add: List.map_filter_simps)

lemma decoded_versions:
  "set (map h_version (List.map_filter (decodeHistoryRecord tm) recs))
    = {v. v \<noteq> [] \<and> StrV v \<in> set (map (\<lambda>row. map_index row ''version'') recs)}"
proof (induction recs)
  case (Cons row recs)
  show ?case
  proof (cases "\<exists>v. v \<noteq> [] \<and> map_index row ''version'' = StrV v")
    case True
    then obtain v where v: "v \<noteq> []" "map_index row ''version'' = StrV v" by blast
    then obtain e where "decodeHistoryRecord tm row = Some e" "h_version e = v"
      by (simp add: decodeHistoryRecord_def string_or_empty_def)
    with Cons.IH v show ?thesis by (auto simp: List.map_filter_simps)
  next
    case False
    then have "decodeHistoryRecord tm row = None"
      by (auto simp: decodeHistoryRecord_def string_or_empty_def as_string_def Let_def split: any.splits)
    moreover have "{v. v \<noteq> [] \<and> StrV v \<in> set (map (\<lambda>row. map_index row ''version'') (row # recs))}
        = {v. v \<noteq> [] \<and> StrV v \<in> set (map (\<lambda>row. map_index row ''version'') recs)}" using False by auto
    ultimately show ?thesis using Cons.IH by (simp add: List.map_filter_simps)
  qed
qed (simp add: List.map_filter_simps)

lemma select_law:
  assumes laws: "surreal_laws sdk tm dv" and q: "Query sdk c select_sql w = (q, w')"
  shows "unchanged dv w w' \<and> (\<forall>v. q = Inr v \<longrightarrow> (\<exists>st ti recs.
        v = queryResultsToEnvelopes (Some [\<lparr>qr_status = st, qr_time = ti, qr_result = ListV (map MapV recs)\<rparr>])
        \<and> set (map (\<lambda>row. map_index row ''version'') recs) = StrV ` set (dv_hist dv w)))"
proof (cases "requireDB c")
  case (Some e)
  then show ?thesis using q by (auto simp: Query_def QueryWithVars_def)
next
  case None
  obtain x w2 where x: "sdk_query sdk select_sql [] w = (x, w2)" by fastforce
  then have "unchanged dv w w2 \<and> (\<forall>res. x = Inr res \<longrightarrow>
      (\<exists>st ti recs. res = Some [\<lparr>qr_status = st, qr_time = ti, qr_result = ListV (map MapV recs)\<rparr>]
        \<and> set (map (\<lambda>row. map_index row ''version'') recs) = StrV ` set (dv_hist dv w)))"
    using laws unfolding surreal_laws_def history_laws_def by blast
  moreover have "w' = w2" "\<forall>v. q = Inr v \<longrightarrow> (\<exists>res. x = Inr res \<and> v = queryResultsToEnvelopes res)"
    using q None x by (auto simp: Query_def QueryWithVars_def split: sum.splits)
  ultimately show ?thesis by blast
qed

lemma applied_law:
  assumes laws: "surreal_laws sdk tm dv" and h: "[] \<notin> set (dv_hist dv w)"
    and g: "GetAppliedMigrations sdk tm (Some c) w = (r, w')"
  shows "unchanged dv w w' \<and> (\<forall>es. r = Inr es \<longrightarrow> set (map h_version es) = set (dv_hist dv w))"
proof -
  obtain a w1 where en: "EnsureMigrationTable sdk (Some c) w = (a, w1)" by fastforce
  note u = ensure_law [OF laws en]
  show ?thesis
  proof (cases a)
    case (Some e)
    then show ?thesis using g en u by (auto simp: GetAppliedMigrations_def)
  next
    case None
    obtain q w2 where q: "Query sdk c select_sql w1 = (q, w2)" by fastforce
    have w': "w' = w2" using g en None q by (auto simp: GetAppliedMigrations_def split: sum.splits)
    note sel = select_law [OF laws q]
    then have res: "\<forall>v. q = Inr v \<longrightarrow> (\<exists>st ti recs.
        v = queryResultsToEnvelopes (Some [\<lparr>qr_status = st, qr_time = ti, qr_result = ListV (map MapV recs)\<rparr>])
        \<and> set (map (\<lambda>row. map_index row ''version'') recs) = StrV ` set (dv_hist dv w1))" by (rule conjunct2)
    have u': "unchanged dv w w'" unfolding w' by (rule unchanged_trans [OF u conjunct1 [OF sel]])
    have "set (map h_version es) = set (dv_hist dv w)" if r: "r = Inr es" for es
    proof -
      obtain v where v: "q = Inr v" "es = List.map_filter (decodeHistoryRecord tm) (extractRecords v)"
        using g en None q r by (auto simp: GetAppliedMigrations_def split: sum.splits)
      from res v(1) obtain st ti recs where
        d: "v = queryResultsToEnvelopes (Some [\<lparr>qr_status = st, qr_time = ti, qr_result = ListV (map MapV recs)\<rparr>])"
          "set (map (\<lambda>row. map_index row ''version'') recs) = StrV ` set (dv_hist dv w1)" by blast
      have "extractRecords v = recs"
        by (simp add: d(1) extractRecords_def queryResultsToEnvelopes_def envelope_def entry_records_def)
      moreover have "dv_hist dv w1 = dv_hist dv w" using u by (simp add: unchanged_def)
      ultimately have "set (map h_version es) = {v. v \<noteq> [] \<and> v \<in> set (dv_hist dv w)}"
        unfolding v(2) decoded_versions using d(2) by (auto simp del: set_map)
      then show ?thesis using h by auto
    qed
    with u' show ?thesis by blast
  qed
qed

definition done_all :: "('w, 'tx, 'd) db_view \<Rightarrow> string \<Rightarrow> migration list \<Rightarrow> 'w \<Rightarrow> 'w \<Rightarrow> bool" where
  "done_all dv dir ms w w' \<longleftrightarrow>
     dv_data dv w' = run_script dv (concat (map (script_of dir) ms)) (dv_data dv w)
     \<and> dv_hist dv w' = fold (hist_after dir) ms (dv_hist dv w)"

lemma done_all_Nil: "done_all dv dir [] w w' \<longleftrightarrow> unchanged dv w w'"
  by (simp add: done_all_def unchanged_def)

lemma done_all_Cons: "completed dv dir m w w1 \<Longrightarrow> done_all dv dir ms w1 w' \<Longrightarrow> done_all dv dir (m # ms) w w'"
  by (simp add: done_all_def completed_def)

lemma done_all_unchanged: "unchanged dv w w1 \<Longrightarrow> done_all dv dir ms w1 w' \<Longrightarrow> done_all dv dir ms w w'"
  by (simp add: done_all_def unchanged_def)

text \<open>How far a run over \<open>ms\<close> came: the statuses \<open>sts\<close> it produced, and whether it ended early.\<close>

definition run_report ::
  "('w, 'tx, 'd) db_view \<Rightarrow> string \<Rightarrow> migration list \<Rightarrow> 'w \<Rightarrow> migration_status list \<Rightarrow> go_error option \<Rightarrow> 'w \<Rightarrow> bool" where
  "run_report dv dir ms w sts err w' \<longleftrightarrow>
     map ms_migration sts = take (length sts) ms
     \<and> (err = None \<longrightarrow> length sts = length ms \<and> done_all dv dir ms w w' \<and> (\<forall>s \<in> set sts. ms_state s = ''applied''))
     \<and> (err \<noteq> None \<longrightarrow>
          (\<exists>k wm. length sts = Suc k \<and> k < length ms \<and> done_all dv dir (take k ms) w wm
             \<and> all_or_nothing dv dir (ms ! k) wm w'
             \<and> (\<forall>s \<in> set (butlast sts). ms_state s = ''applied'') \<and> ms_state (last sts) = ''failed''))"

lemma run_report_Cons:
  assumes c: "completed dv dir m w w1" "ms_state st = ''applied''" "ms_migration st = m"
    and r: "run_report dv dir ms w1 sts err w'"
  shows "run_report dv dir (m # ms) w (st # sts) err w'"
proof (cases err)
  case None
  then show ?thesis using r c done_all_Cons [OF c(1)] by (simp add: run_report_def)
next
  case (Some e)
  with r obtain k wm where k: "length sts = Suc k" "k < length ms" "done_all dv dir (take k ms) w1 wm"
      "all_or_nothing dv dir (ms ! k) wm w'" "\<forall>s \<in> set (butlast sts). ms_state s = ''applied''" "ms_state (last sts) = ''failed''"
      "map ms_migration sts = take (length sts) ms"
    by (auto simp: run_report_def)
  have "done_all dv dir (take (Suc k) (m # ms)) w wm" using done_all_Cons [OF c(1) k(3)] by simp
  moreover have "sts \<noteq> []" using k(1) by auto
  ultimately show ?thesis unfolding run_report_def using Some k c
    by (intro conjI impI exI [of _ "Suc k"] exI [of _ wm]) simp_all
qed

lemma run_report_unchanged:
  assumes "unchanged dv w w1" "run_report dv dir ms w1 sts err w'"
  shows "run_report dv dir ms w sts err w'"
proof (cases err)
  case None
  then show ?thesis using assms(2) done_all_unchanged [OF assms(1)] by (simp add: run_report_def)
next
  case (Some e)
  with assms(2) obtain k wm where "length sts = Suc k" "k < length ms" "done_all dv dir (take k ms) w1 wm"
      "all_or_nothing dv dir (ms ! k) wm w'" "\<forall>s \<in> set (butlast sts). ms_state s = ''applied''" "ms_state (last sts) = ''failed''"
      "map ms_migration sts = take (length sts) ms"
    by (auto simp: run_report_def)
  then show ?thesis unfolding run_report_def using Some done_all_unchanged [OF assms(1)]
    by (intro conjI impI exI [of _ k] exI [of _ wm]) simp_all
qed

lemma run_pending_acc:
  "run_pending sdk tm co dry dir ms sts w
     = (case run_pending sdk tm co dry dir ms [] w of (s, r) \<Rightarrow> (sts @ s, r))"
proof (induction ms arbitrary: sts w dry)
  case (Cons m ms)
  show ?case
    by (cases dry) (simp_all add: Cons.IH [of _ "_ @ _"] Cons.IH [of _ "[_]"] split: prod.splits option.splits)
qed simp

lemma run_pending_law:
  assumes laws: "surreal_laws sdk tm dv" and dir: "direction_valid dir"
  shows "run_pending sdk tm (Some c) False dir ms [] w = (sts, err, w') \<Longrightarrow> run_report dv dir ms w sts err w'"
proof (induction ms arbitrary: w sts err w')
  case Nil
  then show ?case by (simp add: run_report_def done_all_Nil)
next
  case (Cons m ms)
  obtain st e w1 where ex: "ExecuteMigration sdk tm (Some c) m dir w = (st, e, w1)" by (metis prod_cases3)
  note at = execute_migration_step [OF laws dir ex]
  show ?case
  proof (cases e)
    case (Some x)
    then have "sts = [st]" "err = Some x" "w' = w1" using Cons.prems ex by simp_all
    then show ?thesis using at Some
      by (auto simp: run_report_def done_all_Nil intro!: exI [of _ 0] exI [of _ w])
  next
    case None
    obtain sts1 err1 w2 where r: "run_pending sdk tm (Some c) False dir ms [] w1 = (sts1, err1, w2)" by (metis prod_cases3)
    then have eq: "sts = st # sts1" "err = err1" "w' = w2"
      using Cons.prems ex None by (simp_all add: run_pending_acc [of _ _ _ _ _ ms "[st]"])
    have c1: "completed dv dir m w w1" "ms_state st = ''applied''" "ms_migration st = m" using at None by simp_all
    from Cons.IH [OF r] show ?thesis unfolding eq by (rule run_report_Cons [OF c1])
  qed
qed

lemma hist_after_up: "fold (hist_after ''up'') ms h = h @ map mg_version ms"
  by (induction ms arbitrary: h) (simp_all add: hist_after_def)

lemma hist_after_down: "fold (hist_after ''down'') ms h = filter (\<lambda>v. v \<notin> set (map mg_version ms)) h"
  by (induction ms arbitrary: h) (auto simp: hist_after_def intro: filter_cong)

lemma script_of_dir [simp]: "script_of ''up'' = mg_up" "script_of ''down'' = mg_down"
  by (auto simp: script_of_def fun_eq_iff)

lemma up_down_unchanged:
  assumes inverse: "\<forall>m \<in> set ms. \<forall>d. run_script dv (mg_down m) (run_script dv (mg_up m) d) = d"
    and new: "\<forall>m \<in> set ms. mg_version m \<notin> set (dv_hist dv w)"
    and up: "done_all dv ''up'' ms w w1" and down: "done_all dv ''down'' (rev ms) w1 w2"
  shows "unchanged dv w w2"
proof -
  have undo: "run_script dv (concat (map mg_down (rev ms))) (run_script dv (concat (map mg_up ms)) d) = d" for d
    using inverse by (induction ms arbitrary: d) simp_all
  have h: "filter (\<lambda>v. v \<notin> set (map mg_version ms)) (dv_hist dv w) = dv_hist dv w"
    using new by (auto intro!: filter_True)
  show ?thesis using up down undo h by (simp add: unchanged_def done_all_def hist_after_up hist_after_down)
qed

definition pending_of :: "migration list \<Rightarrow> string list \<Rightarrow> migration list" where
  "pending_of ms h = sort_key mg_version (filter (\<lambda>m. mg_version m \<notin> set h) ms)"

lemma pending_law:
  assumes "surreal_laws sdk tm dv" "[] \<notin> set (dv_hist dv w)" "pendingMigrations sdk tm (Some c) ms w = (r, w')"
  shows "unchanged dv w w' \<and> (\<forall>ps. r = Inr ps \<longrightarrow> ps = pending_of ms (dv_hist dv w))"
proof -
  obtain q w1 where q: "GetAppliedMigrations sdk tm (Some c) w = (q, w1)" by fastforce
  from applied_law [OF assms(1,2) q] show ?thesis using assms(3) q
    by (auto simp: pendingMigrations_def pending_of_def split: sum.splits)
qed

lemma migrate_up_law:
  assumes laws: "surreal_laws sdk tm dv" and h: "[] \<notin> set (dv_hist dv w)"
    and up: "MigrateUp sdk tm (Some c) (Inr ms) opts w = (sts, err, w')" and run: "\<not> eo_dry_run opts"
  shows "sts = [] \<and> err \<noteq> None \<and> unchanged dv w w'
    \<or> run_report dv ''up'' (limit_steps (eo_steps opts) (pending_of ms (dv_hist dv w))) w sts err w'"
proof (cases "eo_fail_on_validation opts \<and> validateMigrationSet ms \<noteq> []")
  case True
  then show ?thesis using up by (auto simp: MigrateUp_def)
next
  case False
  obtain q w1 where q: "pendingMigrations sdk tm (Some c) ms w = (q, w1)" by fastforce
  note pl = pending_law [OF laws h q]
  show ?thesis
  proof (cases q)
    case (Inl e)
    then have "sts = [] \<and> err = Some e \<and> w' = w1" using up q False by (auto simp: MigrateUp_def)
    then show ?thesis using pl by simp
  next
    case (Inr ps)
    then have "run_pending sdk tm (Some c) False ''up'' (limit_steps (eo_steps opts) ps) [] w1 = (sts, err, w')"
      using up q False run by (auto simp: MigrateUp_def)
    from run_pending_law [OF laws _ this] have "run_report dv ''up'' (limit_steps (eo_steps opts) ps) w1 sts err w'"
      by (simp add: direction_valid_def)
    then have "run_report dv ''up'' (limit_steps (eo_steps opts) ps) w sts err w'"
      by (rule run_report_unchanged [OF conjunct1 [OF pl]])
    then show ?thesis using pl Inr by simp
  qed
qed

text \<open>
  \<open>MigrateUp\<close> on a directory, for every outcome of every call to the database.
  Without an error, exactly the pending migrations (those without a history entry) have been run,
  in version order: the data is the result of their scripts one after the other, the history has
  grown by their versions, every migration of the directory is now in it, and running it again does
  nothing. With an error, nothing has happened, or the pending migrations before the failing one
  have been applied in full and recorded, the failing one is all or nothing, and none after it has
  been started; the statuses say which.
\<close>

theorem migrate_up_applies_pending:
  assumes laws: "surreal_laws sdk tm dv" and h: "[] \<notin> set (dv_hist dv w)"
    and up: "MigrateUp sdk tm (Some c) (Inr ms) defaultExecuteOptions w = (sts, err, w')"
    and versions: "\<forall>m \<in> set ms. mg_version m \<noteq> []"
  shows "(err = None \<longrightarrow>
        map ms_migration sts = pending_of ms (dv_hist dv w)
        \<and> dv_data dv w' = run_script dv (concat (map mg_up (pending_of ms (dv_hist dv w)))) (dv_data dv w)
        \<and> dv_hist dv w' = dv_hist dv w @ map mg_version (pending_of ms (dv_hist dv w))
        \<and> mg_version ` set ms \<subseteq> set (dv_hist dv w')
        \<and> (\<forall>sts2 err2 w2. MigrateUp sdk tm (Some c) (Inr ms) defaultExecuteOptions w' = (sts2, err2, w2)
             \<longrightarrow> sts2 = [] \<and> unchanged dv w' w2))
    \<and> (err \<noteq> None \<longrightarrow>
        sts = [] \<and> unchanged dv w w'
        \<or> run_report dv ''up'' (pending_of ms (dv_hist dv w)) w sts err w')"
proof -
  let ?P = "pending_of ms (dv_hist dv w)"
  have lim: "limit_steps (eo_steps defaultExecuteOptions) ps = ps" for ps
    by (simp add: limit_steps_def defaultExecuteOptions_def)
  have nodry: "\<not> eo_dry_run defaultExecuteOptions" by (simp add: defaultExecuteOptions_def)
  note law = migrate_up_law [OF laws h up nodry, unfolded lim]
  have "map ms_migration sts = ?P \<and> done_all dv ''up'' ?P w w'" if "err = None"
    using law that by (auto simp: run_report_def)
  then have ok: "map ms_migration sts = ?P" "dv_data dv w' = run_script dv (concat (map mg_up ?P)) (dv_data dv w)"
      "dv_hist dv w' = dv_hist dv w @ map mg_version ?P" if "err = None"
    using that by (simp_all add: done_all_def hist_after_up)
  have all: "mg_version ` set ms \<subseteq> set (dv_hist dv w')" if "err = None"
    unfolding ok(3) [OF that] by (auto simp: pending_of_def)
  have again: "sts2 = [] \<and> unchanged dv w' w2" if e: "err = None"
    and up2: "MigrateUp sdk tm (Some c) (Inr ms) defaultExecuteOptions w' = (sts2, err2, w2)" for sts2 err2 w2
  proof -
    have h': "[] \<notin> set (dv_hist dv w')" unfolding ok(3) [OF e] using h versions by (auto simp: pending_of_def)
    have "filter (\<lambda>m. mg_version m \<notin> set (dv_hist dv w')) ms = []" using all [OF e] by (auto simp: filter_empty_conv)
    then have "pending_of ms (dv_hist dv w') = []" by (simp add: pending_of_def)
    with migrate_up_law [OF laws h' up2 nodry, unfolded lim] show ?thesis
      by (auto simp: run_report_def done_all_Nil)
  qed
  show ?thesis using ok all again law by blast
qed

section \<open>A database that obeys the laws\<close>

text \<open>The data is the list of statements that have taken effect; one transaction at a time; a
  statement that is empty is refused, and so is a second history entry of the same version; the
  entries are dated in the order of their insertion.\<close>

record toy =
  ty_data :: "string list"
  ty_hist :: "string list"
  ty_staged :: "string list"

fun toy_rows :: "int \<Rightarrow> string list \<Rightarrow> go_map list" where
  "toy_rows n [] = []"
| "toy_rows n (v # vs) = [(''version'', StrV v), (''applied_at'', TimeV n)] # toy_rows (n + 1) vs"

definition toy_query :: "string \<Rightarrow> go_map \<Rightarrow> toy \<Rightarrow> query_response \<times> toy" where
  "toy_query sql vars w =
     (if sql = select_sql then
        (Inr (Some [\<lparr>qr_status = ''OK'', qr_time = [],
           qr_result = ListV (map MapV (toy_rows 1 (ty_hist w)))\<rparr>]), w)
      else
        (case map_of vars ''version'' of
           Some (StrV v) \<Rightarrow>
             (if sql = remove_sql then (Inr (Some []), w\<lparr>ty_hist := filter (\<lambda>x. x \<noteq> v) (ty_hist w)\<rparr>)
              else if v \<in> set (ty_hist w) then (Inl (QueryFault ''duplicate'' ''duplicate''), w)
              else (Inr (Some []), w\<lparr>ty_hist := ty_hist w @ [v]\<rparr>))
         | _ \<Rightarrow> (Inr (Some []), w)))"

definition toy_sdk :: "(toy, unit) sdk" where
  "toy_sdk =
     \<lparr>sdk_cancelled = (\<lambda>_. None), sdk_wait = (\<lambda>_ w. (None, w)), sdk_dial = (\<lambda>_ w. (None, w)),
      sdk_use = (\<lambda>_ _ w. (None, w)), sdk_close = (\<lambda>w. (None, w)), sdk_signin = (\<lambda>_ w. (Inr [], w)),
      sdk_signup = (\<lambda>_ w. (Inr [], w)), sdk_authenticate = (\<lambda>_ w. (None, w)), sdk_invalidate = (\<lambda>w. (None, w)),
      sdk_version = (\<lambda>w. (None, w)), sdk_rpc = (\<lambda>_ _ w. (Inr None, w)), sdk_query = toy_query,
      sdk_begin = (\<lambda>w. (Inr (), w\<lparr>ty_staged := ty_data w\<rparr>)),
      sdk_tx_query = (\<lambda>_ s _ w. if s = [] then (Inl (QueryFault ''parse'' ''parse''), w)
                               else (Inr (Some []), w\<lparr>ty_staged := ty_staged w @ [s]\<rparr>)),
      sdk_commit = (\<lambda>_ w. (None, w\<lparr>ty_data := ty_staged w\<rparr>)),
      sdk_cancel = (\<lambda>_ w. (None, w))\<rparr>"

definition toy_time :: "toy time_env" where
  "toy_time = \<lparr>tm_now = (\<lambda>_. 1), tm_format = (\<lambda>_. []), tm_parse = (\<lambda>_. None)\<rparr>"

definition toy_view :: "(toy, unit, string list) db_view" where
  "toy_view = \<lparr>dv_data = ty_data, dv_hist = ty_hist, dv_staged = (\<lambda>_. ty_staged), dv_run = (\<lambda>s d. d @ [s])\<rparr>"

definition toy_client :: client where
  "toy_client = \<lparr>cl_cfg = DefaultConfig, cl_db = True, cl_connected = True, cl_token = [], cl_auth = []\<rparr>"

lemma record_sql_neq: "record_sql entry \<noteq> select_sql" "record_sql entry \<noteq> remove_sql" "remove_sql \<noteq> select_sql"
  by (simp_all add: record_sql_def select_sql_def remove_sql_def)

lemma schema_neq: "s \<in> set history_schema \<Longrightarrow> s \<noteq> select_sql"
  by (auto simp: history_schema_def select_sql_def)

lemma toy_rows_versions: "(\<lambda>row. map_index row ''version'') ` set (toy_rows n vs) = StrV ` set vs"
  by (induction vs arbitrary: n) (simp_all add: map_index_def)

lemma toy_laws: "surreal_laws toy_sdk toy_time toy_view"
proof -
  have vars: "map_of (record_vars tm entry stamp) ''version'' = Some (StrV (h_version entry))" for tm :: "'x time_env" and entry stamp
    by (simp add: record_vars_def)
  have "transaction_laws toy_sdk toy_view"
    by (auto simp: transaction_laws_def toy_sdk_def toy_view_def unchanged_def split: if_splits)
  moreover have "history_laws toy_sdk toy_time toy_view"
    unfolding history_laws_def
  proof (intro conjI allI impI)
    fix w :: toy and r w' res
    assume "sdk_query toy_sdk select_sql [] w = (r, w')" "r = Inr res"
    then show "\<exists>st ti recs. res = Some [\<lparr>qr_status = st, qr_time = ti, qr_result = ListV (map MapV recs)\<rparr>]
        \<and> set (map (\<lambda>row. map_index row ''version'') recs) = StrV ` set (dv_hist toy_view w)"
      by (intro exI [of _ "''OK''"] exI [of _ "[]"] exI [of _ "toy_rows 1 (ty_hist w)"])
        (auto simp: toy_sdk_def toy_query_def toy_view_def toy_rows_versions)
  qed (auto simp: toy_sdk_def toy_query_def toy_view_def unchanged_def vars record_sql_neq dest: schema_neq
      split: if_splits)
  ultimately show ?thesis by (simp add: surreal_laws_def)
qed

abbreviation toy_migration :: "string \<Rightarrow> string list \<Rightarrow> string list \<Rightarrow> migration" where
  "toy_migration v up down \<equiv>
     \<lparr>mg_version = v, mg_description = [], mg_path = [], mg_up = up, mg_down = down, mg_checksum = [], mg_depends_on = []\<rparr>"

abbreviation toy_empty :: toy where
  "toy_empty \<equiv> \<lparr>ty_data = [], ty_hist = [], ty_staged = []\<rparr>"

lemma toy_execute:
  "ExecuteMigration toy_sdk toy_time (Some toy_client) (toy_migration ''1'' [''a'', ''b''] []) ''up'' toy_empty
     = (\<lparr>ms_migration = toy_migration ''1'' [''a'', ''b''] [], ms_state = ''applied'', ms_applied_at = Some 1, ms_error = []\<rparr>, None,
        \<lparr>ty_data = [''a'', ''b''], ty_hist = [''1''], ty_staged = [''a'', ''b'']\<rparr>)"
  by code_simp

theorem execute_migration_atomic_witness:
  "completed toy_view ''up'' (toy_migration ''1'' [''a'', ''b''] []) toy_empty
     \<lparr>ty_data = [''a'', ''b''], ty_hist = [''1''], ty_staged = [''a'', ''b'']\<rparr>"
  using execute_migration_atomic [OF toy_laws _ toy_execute] by (simp add: direction_valid_def)

lemma toy_up:
  "MigrateUp toy_sdk toy_time (Some toy_client) (Inr [toy_migration ''2'' [''b''] [], toy_migration ''1'' [''a''] []])
     defaultExecuteOptions toy_empty
   = ([\<lparr>ms_migration = toy_migration ''1'' [''a''] [], ms_state = ''applied'', ms_applied_at = Some 1, ms_error = []\<rparr>,
       \<lparr>ms_migration = toy_migration ''2'' [''b''] [], ms_state = ''applied'', ms_applied_at = Some 1, ms_error = []\<rparr>], None,
      \<lparr>ty_data = [''a'', ''b''], ty_hist = [''1'', ''2''], ty_staged = [''a'', ''b'']\<rparr>)"
  by code_simp

theorem migrate_up_applies_pending_witness:
  "pending_of [toy_migration ''2'' [''b''] [], toy_migration ''1'' [''a''] []] (dv_hist toy_view toy_empty)
     = [toy_migration ''1'' [''a''] [], toy_migration ''2'' [''b''] []]"
  using migrate_up_applies_pending [OF toy_laws _ toy_up] by (simp add: toy_view_def)

section \<open>Going back\<close>

lemma index_version: "indexByVersion ms v = Some m \<Longrightarrow> m \<in> set ms \<and> mg_version m = v"
  by (auto simp: indexByVersion_def dest!: map_of_SomeD)

lemma run_down_acc:
  "run_down sdk tm co directory disk es sts w
     = (case run_down sdk tm co directory disk es [] w of (s, r) \<Rightarrow> (sts @ s, r))"
proof (induction es arbitrary: sts w)
  case (Cons e es)
  show ?case
    by (simp add: Cons.IH [of "_ @ _"] Cons.IH [of "[_]"] split: prod.splits option.splits)
qed simp

definition down_report ::
  "('w, 'tx, 'd) db_view \<Rightarrow> (string \<Rightarrow> migration option) \<Rightarrow> history_entry list \<Rightarrow> 'w
     \<Rightarrow> migration_status list \<Rightarrow> go_error option \<Rightarrow> 'w \<Rightarrow> bool" where
  "down_report dv disk es w sts err w' \<longleftrightarrow>
     map (\<lambda>e. disk (h_version e)) (take (length sts) es) = map (\<lambda>s. Some (ms_migration s)) sts
     \<and> (err = None \<longrightarrow> length sts = length es \<and> done_all dv ''down'' (map ms_migration sts) w w')
     \<and> (err \<noteq> None \<longrightarrow>
          length sts < length es \<and> disk (h_version (es ! length sts)) = None
            \<and> done_all dv ''down'' (map ms_migration sts) w w'
          \<or> sts \<noteq> [] \<and> (\<exists>wm. done_all dv ''down'' (map ms_migration (butlast sts)) w wm
              \<and> all_or_nothing dv ''down'' (ms_migration (last sts)) wm w'))"

lemma down_report_Cons:
  assumes c: "completed dv ''down'' m w w1" "ms_migration st = m" "disk (h_version e) = Some m"
    and r: "down_report dv disk es w1 sts err w'"
  shows "down_report dv disk (e # es) w (st # sts) err w'"
proof -
  note more = done_all_Cons [OF c(1)]
  have "(\<exists>wm. done_all dv ''down'' (map ms_migration (butlast (st # sts))) w wm
      \<and> all_or_nothing dv ''down'' (ms_migration (last (st # sts))) wm w')"
    if ne: "sts \<noteq> []" and ex: "\<exists>wm. done_all dv ''down'' (map ms_migration (butlast sts)) w1 wm
        \<and> all_or_nothing dv ''down'' (ms_migration (last sts)) wm w'"
    using ex more ne c(2) by auto
  moreover have "done_all dv ''down'' (map ms_migration (st # sts)) w w'"
    if "done_all dv ''down'' (map ms_migration sts) w1 w'"
    using more [OF that] c(2) by simp
  ultimately show ?thesis using r c(2,3) unfolding down_report_def by auto
qed

lemma run_down_law:
  assumes laws: "surreal_laws sdk tm dv"
  shows "run_down sdk tm (Some c) directory disk es [] w = (sts, err, w') \<Longrightarrow> down_report dv disk es w sts err w'"
proof (induction es arbitrary: w sts err w')
  case Nil
  then show ?case by (simp add: down_report_def done_all_Nil)
next
  case (Cons x es)
  have dir: "direction_valid ''down''" by (simp add: direction_valid_def)
  show ?case
  proof (cases "disk (h_version x)")
    case None
    then have "sts = []" "err \<noteq> None" "w' = w" using Cons.prems by auto
    then show ?thesis using None by (simp add: down_report_def done_all_Nil)
  next
    case (Some m)
    obtain st e w1 where ex: "ExecuteMigration sdk tm (Some c) m ''down'' w = (st, e, w1)" by (metis prod_cases3)
    note at = execute_migration_step [OF laws dir ex]
    show ?thesis
    proof (cases e)
      case e: (Some y)
      then have "sts = [st]" "err = Some y" "w' = w1" using Cons.prems ex Some by simp_all
      then show ?thesis using at Some
        by (auto simp: down_report_def done_all_Nil intro!: exI [of _ w])
    next
      case None
      obtain sts1 err1 w2 where r: "run_down sdk tm (Some c) directory disk es [] w1 = (sts1, err1, w2)" by (metis prod_cases3)
      then have eq: "sts = st # sts1" "err = err1" "w' = w2"
        using Cons.prems ex None Some by (simp_all add: run_down_acc [of _ _ _ _ _ es "[st]"])
      have "completed dv ''down'' m w w1" "ms_migration st = m" using at None by simp_all
      from down_report_Cons [OF this Some Cons.IH [OF r]] show ?thesis unfolding eq .
    qed
  qed
qed

lemma ordered_law:
  assumes "surreal_laws sdk tm dv" "[] \<notin> set (dv_hist dv w)"
    "GetAppliedMigrationsOrdered sdk tm (Some c) w = (r, w')"
  shows "unchanged dv w w'"
proof -
  obtain q w1 where q: "GetAppliedMigrations sdk tm (Some c) w = (q, w1)" by fastforce
  from applied_law [OF assms(1,2) q] show ?thesis using assms(3) q
    by (auto simp: GetAppliedMigrationsOrdered_def split: sum.splits)
qed

lemma length_last_steps: "length (last_steps n xs) = min (unat n) (length xs)"
  by (auto simp: last_steps_def)


lemma toy_down:
  "GetAppliedMigrationsOrdered toy_sdk toy_time (Some toy_client) \<lparr>ty_data = [''a'', ''b''], ty_hist = [''1'', ''2''], ty_staged = []\<rparr>
     = (Inr [\<lparr>h_version = ''1'', h_description = [], h_applied_at = 1, h_checksum = [], h_execution_ms = None\<rparr>,
             \<lparr>h_version = ''2'', h_description = [], h_applied_at = 2, h_checksum = [], h_execution_ms = None\<rparr>],
        \<lparr>ty_data = [''a'', ''b''], ty_hist = [''1'', ''2''], ty_staged = []\<rparr>)"
  "MigrateDown toy_sdk toy_time (Some toy_client) ''m'' (Inr [toy_migration ''1'' [''a''] [''x''], toy_migration ''2'' [''b''] [''y'']]) 1
     \<lparr>ty_data = [''a'', ''b''], ty_hist = [''1'', ''2''], ty_staged = []\<rparr>
   = ([\<lparr>ms_migration = toy_migration ''2'' [''b''] [''y''], ms_state = ''applied'', ms_applied_at = Some 1, ms_error = []\<rparr>], None,
      \<lparr>ty_data = [''a'', ''b'', ''y''], ty_hist = [''1''], ty_staged = [''a'', ''b'', ''y'']\<rparr>)"
  by code_simp+



lemma toy_plans:
  "ExecuteMigrationPlan toy_sdk toy_time (Some toy_client) \<lparr>mp_migrations = [toy_migration ''1'' [] []], mp_direction = ''up''\<rparr> toy_empty
     = ([\<lparr>ms_migration = toy_migration ''1'' [] [], ms_state = ''applied'', ms_applied_at = Some 1, ms_error = []\<rparr>], None,
        \<lparr>ty_data = [], ty_hist = [''1''], ty_staged = []\<rparr>)"
  "ExecuteMigrationPlan toy_sdk toy_time (Some toy_client) \<lparr>mp_migrations = [toy_migration ''1'' [] []], mp_direction = ''down''\<rparr>
       \<lparr>ty_data = [], ty_hist = [''1''], ty_staged = []\<rparr>
     = ([\<lparr>ms_migration = toy_migration ''1'' [] [], ms_state = ''applied'', ms_applied_at = Some 1, ms_error = []\<rparr>], None, toy_empty)"
  by code_simp+


section \<open>Validation\<close>

lemma count_list_distinct: "distinct xs \<longleftrightarrow> (\<forall>x \<in> set xs. count_list xs x \<le> 1)"
proof (induction xs)
  case (Cons x xs)
  then show ?case by (auto simp: count_list_0_iff Suc_le_eq)
qed simp

text \<open>
  The validation that guards \<open>MigrateUp\<close> reports nothing exactly for the sets
  of migrations with distinct versions, all of whose dependencies are in the set, and each of which
  has up statements.
\<close>

theorem validate_migration_set_iff:
  "validateMigrationSet ms = [] \<longleftrightarrow>
     distinct (map mg_version ms)
     \<and> (\<forall>m \<in> set ms. set (mg_depends_on m) \<subseteq> mg_version ` set ms \<and> mg_up m \<noteq> [])"
proof -
  let ?vs = "map mg_version ms"
  have "filter (\<lambda>v. 1 < count_list ?vs v) (remdups ?vs) = [] \<longleftrightarrow> distinct ?vs"
    unfolding count_list_distinct filter_empty_conv by (simp add: not_less)
  moreover have "sort xs = [] \<longleftrightarrow> xs = []" for xs :: "string list"
    by (metis length_0_conv length_sort)
  ultimately show ?thesis
    by (auto simp: validateMigrationSet_def Let_def filter_empty_conv split: if_splits)
qed

theorem validate_migration_set_iff_witness:
  "validateMigrationSet [toy_migration ''1'' [''a''] []] = []"
  using validate_migration_set_iff [of "[toy_migration ''1'' [''a''] []]"] by simp

section \<open>Where it goes wrong\<close>

text \<open>A migration that depends on a later version is applied before it.\<close>

lemma dependency_order_ignored:
  "MigrateUp toy_sdk toy_time (Some toy_client)
     (Inr [(toy_migration ''1'' [''needs 2''] [])\<lparr>mg_depends_on := [''2'']\<rparr>, toy_migration ''2'' [''first''] []])
     defaultExecuteOptions toy_empty
   = ([\<lparr>ms_migration = (toy_migration ''1'' [''needs 2''] [])\<lparr>mg_depends_on := [''2'']\<rparr>, ms_state = ''applied'',
        ms_applied_at = Some 1, ms_error = []\<rparr>,
       \<lparr>ms_migration = toy_migration ''2'' [''first''] [], ms_state = ''applied'', ms_applied_at = Some 1, ms_error = []\<rparr>], None,
      \<lparr>ty_data = [''needs 2'', ''first''], ty_hist = [''1'', ''2''], ty_staged = [''needs 2'', ''first'']\<rparr>)"
  by code_simp

text \<open>The history is written after the commit and outside it: when that fails, the statements have
  taken effect and the status says failed.\<close>

lemma committed_but_failed:
  "case ExecuteMigration toy_sdk toy_time (Some toy_client) (toy_migration ''1'' [''a''] []) ''up''
       \<lparr>ty_data = [], ty_hist = [''1''], ty_staged = []\<rparr> of
     (st, err, w) \<Rightarrow> ms_state st = ''failed'' \<and> ty_data w = [''a'']"
  by code_simp

end
