(* ===== verification/Migration_Rollback.thy ===== *)
theory Migration_Rollback
  imports Migration_Executor_Correct Record_Ids
begin

text \<open>
  Package \<open>migration\<close>, \<open>rollback.go\<close>: planning a rollback to a version with an analysis of what it
  destroys, executing the plan, and what plans contain. Durations are left out.
\<close>

section \<open>Safety levels\<close>

datatype rollback_safety = RollbackSafe | RollbackWarning | RollbackDanger

fun safety_rank :: "rollback_safety \<Rightarrow> nat" where
  "safety_rank RollbackDanger = 3"
| "safety_rank RollbackWarning = 2"
| "safety_rank RollbackSafe = 1"

record rollback_issue =
  ri_safety :: rollback_safety
  ri_migration :: string
  ri_description :: string
  ri_affected :: string
  ri_recommendation :: string

record rollback_plan =
  rb_from :: string
  rb_to :: string
  rb_migrations :: "migration list"
  rb_overall :: rollback_safety
  rb_issues :: "rollback_issue list"
  rb_requires_approval :: bool

definition MigrationCount :: "rollback_plan \<Rightarrow> nat" where
  "MigrationCount p = length (rb_migrations p)"

definition HasDataLoss :: "rollback_plan \<Rightarrow> bool" where
  "HasDataLoss p \<longleftrightarrow> rb_overall p = RollbackWarning \<or> rb_overall p = RollbackDanger"

record rollback_result =
  rr_plan :: rollback_plan
  rr_success :: bool
  rr_count :: nat
  rr_errors :: "string list"

definition CompletedAll :: "rollback_result \<Rightarrow> bool" where
  "CompletedAll r \<longleftrightarrow> rr_count r = MigrationCount (rr_plan r)"

section \<open>The analysis\<close>

definition drop_word :: regex where
  "drop_word = Alt (LitI ''DROP'') (LitI ''REMOVE'')"

definition if_exists_opt :: regex where
  "if_exists_opt = Opt (Seqs [Spaces, LitI ''IF'', Spaces, LitI ''EXISTS''])"

definition dropTableRe :: regex where
  "dropTableRe =
     Seqs [WordB, drop_word, Spaces, LitI ''TABLE'', if_exists_opt, Spaces,
       Grp 1 (Seq (Sat alpha_under) (Star (Sat word_char)))]"

definition dropFieldRe :: regex where
  "dropFieldRe =
     Seqs [WordB, drop_word, Spaces, LitI ''FIELD'', if_exists_opt, Spaces,
       Grp 1 (Seq (Sat alpha_under) (Star (Sat (\<lambda>c. word_char c \<or> c = CHR ''.''))))]"

definition dropIndexRe :: regex where
  "dropIndexRe = Seqs [WordB, drop_word, Spaces, LitI ''INDEX'']"

definition alterTypeRe :: regex where
  "alterTypeRe = Seqs [WordB, LitI ''ALTER'', WordB, Star AnyNoNL, WordB, LitI ''TYPE'', WordB]"

definition redefineFieldRe :: regex where
  "redefineFieldRe = Seqs [WordB, LitI ''DEFINE'', Spaces, LitI ''FIELD'', WordB, Star AnyNoNL, WordB, LitI ''TYPE'', WordB]"

text \<open>The issue of one down statement, if any: the cases of the loop in their order.\<close>

definition statement_issue :: "string \<Rightarrow> string \<Rightarrow> rollback_issue option" where
  "statement_issue version stmt =
     (let normalised = trim_space stmt in
      if normalised = [] then None
      else
        (case find_submatch dropTableRe normalised of
           Some m \<Rightarrow>
             Some \<lparr>ri_safety = RollbackDanger, ri_migration = version,
                   ri_description = ''dropping table '' @ go_quote (group m 1),
                   ri_affected = ''all records in table '' @ group m 1,
                   ri_recommendation = ''export table data before rollback''\<rparr>
         | None \<Rightarrow>
             (case find_submatch dropFieldRe normalised of
                Some m \<Rightarrow>
                  Some \<lparr>ri_safety = RollbackWarning, ri_migration = version,
                        ri_description = ''dropping field '' @ go_quote (group m 1),
                        ri_affected = ''field data in '' @ group m 1,
                        ri_recommendation = ''backup affected field data''\<rparr>
              | None \<Rightarrow>
                  (if matches_anywhere alterTypeRe normalised \<or> matches_anywhere redefineFieldRe normalised then
                     Some \<lparr>ri_safety = RollbackWarning, ri_migration = version,
                           ri_description = ''altering field type may cause data conversion issues'',
                           ri_affected = [], ri_recommendation = ''review data compatibility before rollback''\<rparr>
                   else None))))"

definition analyzeMigrationSafety :: "migration \<Rightarrow> rollback_issue list" where
  "analyzeMigrationSafety m =
     (if mg_down m = [] then
        [\<lparr>ri_safety = RollbackDanger, ri_migration = mg_version m,
          ri_description = ''migration has no rollback statements'', ri_affected = [],
          ri_recommendation = ''provide a '' @ [CHR 0x27] @ ''-- @down'' @ [CHR 0x27] @ '' section to enable safe rollback''\<rparr>]
      else List.map_filter (statement_issue (mg_version m)) (mg_down m))"

definition versionExists :: "migration list \<Rightarrow> string \<Rightarrow> bool" where
  "versionExists ms version \<longleftrightarrow> list_ex (\<lambda>m. mg_version m = version) ms"

definition migrationsNewerThan :: "migration list \<Rightarrow> string \<Rightarrow> migration list" where
  "migrationsNewerThan ms target = sort_key mg_version (filter (\<lambda>m. target < mg_version m) ms)"

definition target_not_found :: "string \<Rightarrow> string \<Rightarrow> go_error" where
  "target_not_found target directory =
     err_new ErrValidation (''target version '' @ go_quote target @ '' not found in '' @ go_quote directory)"

definition AnalyzeRollbackSafety :: "migration list result \<Rightarrow> string \<Rightarrow> string \<Rightarrow> rollback_issue list result" where
  "AnalyzeRollbackSafety discovered directory target =
     rbind discovered (\<lambda>ms.
       if \<not> versionExists ms target then Inl (target_not_found target directory)
       else Inr (concat (map analyzeMigrationSafety (migrationsNewerThan ms target))))"

section \<open>Planning\<close>

definition raise_safety :: "rollback_safety \<Rightarrow> rollback_issue \<Rightarrow> rollback_safety" where
  "raise_safety overall iss = (if safety_rank overall < safety_rank (ri_safety iss) then ri_safety iss else overall)"

text \<open>\<open>sort.SliceStable\<close> with \<open>>\<close>: descending, equal versions in their order.\<close>

definition sort_descending :: "migration list \<Rightarrow> migration list" where
  "sort_descending ms = rev (sort_key mg_version (rev ms))"

definition to_rollback :: "migration list \<Rightarrow> string \<Rightarrow> string \<Rightarrow> migration list" where
  "to_rollback ms target current =
     sort_descending (filter (\<lambda>m. target < mg_version m \<and> mg_version m \<le> current) ms)"

definition make_plan :: "migration list \<Rightarrow> string \<Rightarrow> string \<Rightarrow> rollback_plan" where
  "make_plan toRollback target current =
     (let issues = concat (map analyzeMigrationSafety toRollback);
          overall = fold (\<lambda>iss overall. raise_safety overall iss) issues RollbackSafe in
      \<lparr>rb_from = current, rb_to = target, rb_migrations = toRollback, rb_overall = overall, rb_issues = issues,
       rb_requires_approval = (overall \<noteq> RollbackSafe)\<rparr>)"

definition CreateRollbackPlan ::
  "('w, 'tx) sdk \<Rightarrow> 'w time_env \<Rightarrow> client option \<Rightarrow> string \<Rightarrow> migration list result \<Rightarrow> string \<Rightarrow> 'w
     \<Rightarrow> rollback_plan result \<times> 'w" where
  "CreateRollbackPlan sdk tm co directory discovered target w =
     (if co = None then (Inl nil_client, w)
      else if target = [] then (Inl (err_new ErrValidation ''target version cannot be empty''), w)
      else
        (case discovered of
           Inl e \<Rightarrow> (Inl e, w)
         | Inr ms \<Rightarrow>
             (if \<not> versionExists ms target then (Inl (target_not_found target directory), w)
              else
                (case GetAppliedMigrationsOrdered sdk tm co w of
                   (Inl e, w1) \<Rightarrow> (Inl e, w1)
                 | (Inr applied, w1) \<Rightarrow>
                     (if applied = [] then (Inl (err_new ErrMigrationHistory ''no migrations have been applied''), w1)
                      else
                        (let current = h_version (last applied) in
                         (Inr (make_plan (to_rollback ms target current) target current), w1)))))))"

section \<open>Executing\<close>

fun run_rollback ::
  "('w, 'tx) sdk \<Rightarrow> 'w time_env \<Rightarrow> client option \<Rightarrow> rollback_plan \<Rightarrow> migration list \<Rightarrow> nat \<Rightarrow> 'w
     \<Rightarrow> rollback_result \<times> go_error option \<times> 'w" where
  "run_rollback sdk tm co plan [] n w = (\<lparr>rr_plan = plan, rr_success = True, rr_count = n, rr_errors = []\<rparr>, None, w)"
| "run_rollback sdk tm co plan (m # rest) n w =
     (case ExecuteMigration sdk tm co m ''down'' w of
        (_, Some e, w') \<Rightarrow>
          (\<lparr>rr_plan = plan, rr_success = False, rr_count = n, rr_errors = [mg_version m @ '': '' @ err_text e]\<rparr>, Some e, w')
      | (_, None, w') \<Rightarrow> run_rollback sdk tm co plan rest (Suc n) w')"

definition ExecuteRollback ::
  "('w, 'tx) sdk \<Rightarrow> 'w time_env \<Rightarrow> client option \<Rightarrow> rollback_plan \<Rightarrow> 'w
     \<Rightarrow> rollback_result \<times> go_error option \<times> 'w" where
  "ExecuteRollback sdk tm co plan w =
     (if co = None then (\<lparr>rr_plan = plan, rr_success = False, rr_count = 0, rr_errors = []\<rparr>, Some nil_client, w)
      else run_rollback sdk tm co plan (rb_migrations plan) 0 w)"

section \<open>What a plan holds\<close>

lemma statement_issue_unsafe: "statement_issue v s = Some i \<Longrightarrow> ri_safety i \<noteq> RollbackSafe \<and> ri_migration i = v"
  by (auto simp: statement_issue_def Let_def split: if_splits option.splits)

lemma set_map_filter: "set (List.map_filter f xs) = {y. \<exists>x \<in> set xs. f x = Some y}"
  by (induction xs) (auto simp: List.map_filter_simps split: option.splits)

lemma analyze_unsafe: "i \<in> set (analyzeMigrationSafety m) \<Longrightarrow> ri_safety i \<noteq> RollbackSafe \<and> ri_migration i = mg_version m"
  by (auto simp: analyzeMigrationSafety_def set_map_filter dest: statement_issue_unsafe split: if_splits)

lemma dropTableRe_Nil: "find_submatch dropTableRe [] = None"
  by code_simp

lemma raise_rank: "safety_rank s \<le> safety_rank (raise_safety s i)" "safety_rank (ri_safety i) \<le> safety_rank (raise_safety s i)"
  "raise_safety s i \<in> {s, ri_safety i}"
  by (auto simp: raise_safety_def)

lemma overall_max:
  "safety_rank s \<le> safety_rank (fold (\<lambda>x overall. raise_safety overall x) iss s)
   \<and> (\<forall>i \<in> set iss. safety_rank (ri_safety i) \<le> safety_rank (fold (\<lambda>x overall. raise_safety overall x) iss s))
   \<and> fold (\<lambda>x overall. raise_safety overall x) iss s \<in> insert s (ri_safety ` set iss)"
proof (induction iss arbitrary: s)
  case (Cons i iss)
  from Cons.IH [of "raise_safety s i"] show ?case
    using raise_rank [where s = s and i = i] by (auto intro: order_trans)
qed simp

lemma set_sort_descending [simp]: "set (sort_descending ms) = set ms"
  by (simp add: sort_descending_def)

lemma sorted_descending: "sorted_wrt (\<lambda>a b. mg_version b \<le> mg_version a) (sort_descending ms)"
  using sorted_sort_key [of mg_version "rev ms"] by (simp add: sort_descending_def sorted_wrt_rev sorted_map)

lemma safe_rank: "safety_rank s \<le> 1 \<longleftrightarrow> s = RollbackSafe"
  by (cases s) simp_all

lemma danger_rank: "3 \<le> safety_rank s \<longleftrightarrow> s = RollbackDanger"
  by (cases s) simp_all

text \<open>
  A rollback plan: it holds exactly the files with a version above the target and
  not above the version it starts from, newest first; its overall level is the greatest of its
  issues; approval is required exactly if there is an issue; and if any of its migrations has no
  down statements, or a down statement that removes a table, the level is "danger".
\<close>

theorem rollback_plan_contents:
  assumes "CreateRollbackPlan sdk tm (Some c) directory (Inr ms) target w = (Inr plan, w1)"
  shows "rb_to plan = target
    \<and> set (rb_migrations plan) = {m \<in> set ms. target < mg_version m \<and> mg_version m \<le> rb_from plan}
    \<and> sorted_wrt (\<lambda>a b. mg_version b \<le> mg_version a) (rb_migrations plan)
    \<and> (\<forall>i \<in> set (rb_issues plan). safety_rank (ri_safety i) \<le> safety_rank (rb_overall plan))
    \<and> (rb_requires_approval plan \<longleftrightarrow> rb_issues plan \<noteq> [])
    \<and> (HasDataLoss plan \<longleftrightarrow> rb_issues plan \<noteq> [])
    \<and> (\<forall>m \<in> set (rb_migrations plan).
          mg_down m = [] \<or> (\<exists>s \<in> set (mg_down m). find_submatch dropTableRe (trim_space s) \<noteq> None)
          \<longrightarrow> rb_overall plan = RollbackDanger)"
proof -
  obtain current where plan: "plan = make_plan (to_rollback ms target current) target current"
    using assms by (auto simp: CreateRollbackPlan_def Let_def split: if_splits prod.splits sum.splits)
  define iss where "iss = concat (map analyzeMigrationSafety (to_rollback ms target current))"
  define overall where "overall = fold (\<lambda>x overall. raise_safety overall x) iss RollbackSafe"
  note mx = overall_max [of RollbackSafe iss, folded overall_def]
  have eqs: "rb_migrations plan = to_rollback ms target current" "rb_issues plan = iss" "rb_overall plan = overall"
      "rb_requires_approval plan \<longleftrightarrow> overall \<noteq> RollbackSafe" "rb_to plan = target" "rb_from plan = current"
    by (simp_all add: plan make_plan_def Let_def iss_def overall_def)
  have unsafe: "ri_safety i \<noteq> RollbackSafe" if "i \<in> set iss" for i
    using that analyze_unsafe by (auto simp: iss_def)
  have "iss = [] \<longleftrightarrow> overall = RollbackSafe"
  proof
    assume "overall = RollbackSafe"
    then have "\<forall>i \<in> set iss. safety_rank (ri_safety i) \<le> 1" using mx by simp
    with unsafe safe_rank show "iss = []" by (cases iss) auto
  qed (simp add: overall_def)
  moreover have "overall = RollbackDanger"
    if m: "m \<in> set (rb_migrations plan)"
      and bad: "mg_down m = [] \<or> (\<exists>s \<in> set (mg_down m). find_submatch dropTableRe (trim_space s) \<noteq> None)" for m
  proof -
    have "\<exists>i \<in> set (analyzeMigrationSafety m). ri_safety i = RollbackDanger"
    proof (cases "mg_down m = []")
      case False
      with bad obtain s g where s: "s \<in> set (mg_down m)" "find_submatch dropTableRe (trim_space s) = Some g" by auto
      then have ne: "trim_space s \<noteq> []" using dropTableRe_Nil by auto
      obtain i where i: "statement_issue (mg_version m) s = Some i" "ri_safety i = RollbackDanger"
        using s(2) ne by (simp add: statement_issue_def Let_def)
      then have "i \<in> set (List.map_filter (statement_issue (mg_version m)) (mg_down m))"
        unfolding set_map_filter using s(1) by blast
      then show ?thesis using False i(2) unfolding analyzeMigrationSafety_def by auto
    qed (simp add: analyzeMigrationSafety_def)
    then obtain i where "i \<in> set iss" "ri_safety i = RollbackDanger"
      using m unfolding eqs iss_def by auto
    then have "3 \<le> safety_rank overall" using mx by fastforce
    then show ?thesis by (simp add: danger_rank)
  qed
  moreover have "HasDataLoss plan \<longleftrightarrow> overall \<noteq> RollbackSafe"
    unfolding HasDataLoss_def eqs by (cases overall) simp_all
  ultimately show ?thesis unfolding eqs using mx sorted_descending
    by (auto simp: to_rollback_def)
qed

lemma toy_plan:
  "CreateRollbackPlan toy_sdk toy_time (Some toy_client) ''m''
     (Inr [toy_migration ''1'' [''a''] [''x''], toy_migration ''2'' [''b''] [''REMOVE TABLE t;''], toy_migration ''3'' [''c''] [''z'']]) ''1''
     \<lparr>ty_data = [], ty_hist = [''1'', ''3''], ty_staged = []\<rparr>
   = (Inr \<lparr>rb_from = ''3'', rb_to = ''1'',
        rb_migrations = [toy_migration ''3'' [''c''] [''z''], toy_migration ''2'' [''b''] [''REMOVE TABLE t;'']],
        rb_overall = RollbackDanger,
        rb_issues = [\<lparr>ri_safety = RollbackDanger, ri_migration = ''2'', ri_description = ''dropping table '' @ go_quote ''t'',
                      ri_affected = ''all records in table t'', ri_recommendation = ''export table data before rollback''\<rparr>],
        rb_requires_approval = True\<rparr>,
      \<lparr>ty_data = [], ty_hist = [''1'', ''3''], ty_staged = []\<rparr>)"
  by code_simp

theorem rollback_plan_contents_witness:
  "sorted_wrt (\<lambda>a b. mg_version b \<le> mg_version a)
     [toy_migration ''3'' [''c''] [''z''], toy_migration ''2'' [''b''] [''REMOVE TABLE t;'']]"
  using rollback_plan_contents [OF toy_plan] by simp

text \<open>The plan above undoes version 2, which was never applied: the range is taken over the files,
  not over the history.\<close>

lemma plan_undoes_unapplied:
  "map mg_version (rb_migrations (case fst (CreateRollbackPlan toy_sdk toy_time (Some toy_client) ''m''
     (Inr [toy_migration ''1'' [''a''] [''x''], toy_migration ''2'' [''b''] [''y''], toy_migration ''3'' [''c''] [''z'']]) ''1''
     \<lparr>ty_data = [], ty_hist = [''1'', ''3''], ty_staged = []\<rparr>) of Inr p \<Rightarrow> p)) = [''3'', ''2'']"
  by code_simp

text \<open>Version 2 was applied before version 1, a later pull of an older file: the current version is
  that of the newest entry, and version 2 stays although it is above the target.\<close>

lemma plan_misses_applied:
  "map mg_version (rb_migrations (case fst (CreateRollbackPlan toy_sdk toy_time (Some toy_client) ''m''
     (Inr [toy_migration ''0'' [''a''] [''x''], toy_migration ''1'' [''b''] [''y''], toy_migration ''2'' [''c''] [''z'']]) ''0''
     \<lparr>ty_data = [], ty_hist = [''0'', ''2'', ''1''], ty_staged = []\<rparr>) of Inr p \<Rightarrow> p)) = [''1'']"
  by code_simp

text \<open>A table name in backquotes is not recognised: the removal counts as safe.\<close>

lemma quoted_removal_is_safe:
  "analyzeMigrationSafety (toy_migration ''1'' [''a''] [''REMOVE TABLE `user`;'', ''DELETE user;'']) = []"
  by code_simp

section \<open>What executing a plan does\<close>

lemma run_rollback_law:
  assumes laws: "surreal_laws sdk tm dv"
  shows "run_rollback sdk tm (Some c) plan ms n w = (res, err, w') \<Longrightarrow>
    rr_plan res = plan \<and> (rr_success res \<longleftrightarrow> err = None)
    \<and> (err = None \<longrightarrow> rr_count res = n + length ms \<and> done_all dv ''down'' ms w w')
    \<and> (err \<noteq> None \<longrightarrow> (\<exists>k < length ms. \<exists>wm. rr_count res = n + k \<and> done_all dv ''down'' (take k ms) w wm
         \<and> all_or_nothing dv ''down'' (ms ! k) wm w'))"
proof (induction ms arbitrary: n w)
  case Nil
  then show ?case by (auto simp: done_all_Nil)
next
  case (Cons m ms)
  have dir: "direction_valid ''down''" by (simp add: direction_valid_def)
  obtain st e w1 where ex: "ExecuteMigration sdk tm (Some c) m ''down'' w = (st, e, w1)" by (metis prod_cases3)
  note at = execute_migration_step [OF laws dir ex]
  show ?case
  proof (cases e)
    case (Some x)
    then have "rr_plan res = plan" "\<not> rr_success res" "rr_count res = n" "err = Some x" "w' = w1"
      using Cons.prems ex by auto
    then show ?thesis using at by (auto simp: done_all_Nil intro!: exI [of _ 0] exI [of _ w])
  next
    case None
    then have "run_rollback sdk tm (Some c) plan ms (Suc n) w1 = (res, err, w')" using Cons.prems ex by simp
    note IH = Cons.IH [OF this]
    have c1: "completed dv ''down'' m w w1" using at None by simp
    have "\<exists>k < length (m # ms). \<exists>wm. rr_count res = n + k \<and> done_all dv ''down'' (take k (m # ms)) w wm
         \<and> all_or_nothing dv ''down'' ((m # ms) ! k) wm w'" if bad: "err \<noteq> None"
    proof -
      obtain k wm where k: "k < length ms" "rr_count res = Suc n + k" "done_all dv ''down'' (take k ms) w1 wm"
          "all_or_nothing dv ''down'' (ms ! k) wm w'" using IH bad by blast
      then show ?thesis using done_all_Cons [OF c1 k(3)]
        by (intro exI [of _ "Suc k"] conjI exI [of _ wm]) simp_all
    qed
    then show ?thesis using IH done_all_Cons [OF c1] by auto
  qed
qed

text \<open>
  Executing a rollback plan: success is reported exactly when there is no error, and
  then every migration of the plan has been undone, in the order of the plan. After an error the
  reported count is the number of migrations undone in full, the next one is all or nothing, and the
  rest has not been touched.
\<close>

theorem execute_rollback_progress:
  assumes "surreal_laws sdk tm dv" "ExecuteRollback sdk tm (Some c) plan w = (res, err, w')"
  shows "rr_plan res = plan \<and> (rr_success res \<longleftrightarrow> err = None)
    \<and> (err = None \<longrightarrow> CompletedAll res \<and> done_all dv ''down'' (rb_migrations plan) w w')
    \<and> (err \<noteq> None \<longrightarrow> \<not> CompletedAll res
        \<and> (\<exists>wm. done_all dv ''down'' (take (rr_count res) (rb_migrations plan)) w wm
             \<and> all_or_nothing dv ''down'' (rb_migrations plan ! rr_count res) wm w'))"
proof -
  have "run_rollback sdk tm (Some c) plan (rb_migrations plan) 0 w = (res, err, w')"
    using assms(2) by (simp add: ExecuteRollback_def)
  from run_rollback_law [OF assms(1) this] show ?thesis
    by (auto simp: CompletedAll_def MigrationCount_def)
qed

definition toy_rollback :: rollback_plan where
  "toy_rollback = \<lparr>rb_from = ''2'', rb_to = ''1'', rb_migrations = [toy_migration ''2'' [''b''] [''y'']],
     rb_overall = RollbackSafe, rb_issues = [], rb_requires_approval = False\<rparr>"

lemma toy_rollback_run:
  "ExecuteRollback toy_sdk toy_time (Some toy_client) toy_rollback \<lparr>ty_data = [''a'', ''b''], ty_hist = [''1'', ''2''], ty_staged = []\<rparr>
   = (\<lparr>rr_plan = toy_rollback, rr_success = True, rr_count = 1, rr_errors = []\<rparr>, None,
      \<lparr>ty_data = [''a'', ''b'', ''y''], ty_hist = [''1''], ty_staged = [''a'', ''b'', ''y'']\<rparr>)"
  by code_simp

theorem execute_rollback_progress_witness:
  "done_all toy_view ''down'' [toy_migration ''2'' [''b''] [''y'']]
     \<lparr>ty_data = [''a'', ''b''], ty_hist = [''1'', ''2''], ty_staged = []\<rparr>
     \<lparr>ty_data = [''a'', ''b'', ''y''], ty_hist = [''1''], ty_staged = [''a'', ''b'', ''y'']\<rparr>"
  using execute_rollback_progress [OF toy_laws toy_rollback_run] by (simp add: toy_rollback_def)

end
