(* ===== verification/Orchestration.thy ===== *)
theory Orchestration
  imports Migration_Executor
begin

text \<open>
  Package \<open>orchestration\<close>: the environment registry (\<open>environment.go\<close>), health checks
  (\<open>health.go\<close>), deployment results (\<open>result.go\<close>), the deployment strategies (\<open>strategies.go\<close>) and
  the coordinator (\<open>coordinator.go\<close>). Each environment name has a world of its own (its database),
  so what goroutines do to different environments is independent; \<open>Orchestration_Correct\<close> has the
  interleaving semantics of the bounded fan-out. A Go map that is ranged over comes with the
  enumeration the runtime chooses.
\<close>

section \<open>Environments\<close>

record environment_config =
  ec_name :: string
  ec_connection :: connection_config
  ec_priority :: int
  ec_tags :: "string set"
  ec_require_approval :: bool
  ec_allow_destructive :: bool

definition defaultPriority :: int where
  "defaultPriority = 100"

definition HasTag :: "environment_config \<Rightarrow> string \<Rightarrow> bool" where
  "HasTag e tag \<longleftrightarrow> tag \<in> ec_tags e"

definition environment_validate :: "environment_config \<Rightarrow> go_error option" where
  "environment_validate e =
     (if ec_name e = [] then Some (err_new ErrValidation ''environment name cannot be empty'')
      else if \<not> list_all identifier_char (ec_name e) then
        Some (err_new ErrValidation (''environment name '' @ go_quote (ec_name e)
          @ '' must be alphanumeric with optional underscores/hyphens''))
      else
        (case Validate (ec_connection e) of
           Some err \<Rightarrow> Some err
         | None \<Rightarrow>
             if ec_priority e < 0 then
               Some (err_new ErrValidation (''environment priority must be >= 0, got '' @ show_int (ec_priority e)))
             else None))"

definition normalised :: "environment_config \<Rightarrow> environment_config" where
  "normalised e = (if ec_priority e = 0 then e\<lparr>ec_priority := defaultPriority\<rparr> else e)"

type_synonym environment_registry = "(string, environment_config) fmap"

record register_options =
  ro_priority :: int
  ro_tags :: "string list"
  ro_require_approval :: bool
  ro_allow_destructive :: "bool option"

definition Register ::
  "string \<Rightarrow> connection_config \<Rightarrow> register_options option \<Rightarrow> environment_registry
     \<Rightarrow> go_error option \<times> environment_registry" where
  "Register name cfg opts r =
     (let env = \<lparr>ec_name = name, ec_connection = cfg,
            ec_priority = (case opts of Some ro \<Rightarrow> if 0 < ro_priority ro then ro_priority ro else defaultPriority
                                      | None \<Rightarrow> defaultPriority),
            ec_tags = (case opts of Some ro \<Rightarrow> set (ro_tags ro) | None \<Rightarrow> {}),
            ec_require_approval = (case opts of Some ro \<Rightarrow> ro_require_approval ro | None \<Rightarrow> False),
            ec_allow_destructive = (case opts of
               Some ro \<Rightarrow> (case ro_allow_destructive ro of Some b \<Rightarrow> b | None \<Rightarrow> True) | None \<Rightarrow> True)\<rparr> in
      case environment_validate env of
        Some e \<Rightarrow> (Some e, r)
      | None \<Rightarrow>
          if fmlookup r name \<noteq> None then
            (Some (err_new ErrRegistry (''environment '' @ go_quote name @ '' already registered'')), r)
          else (None, fmupd name (normalised env) r))"

definition env_not_found :: "string \<Rightarrow> go_error" where
  "env_not_found name = err_new ErrRegistry (''environment '' @ go_quote name @ '' not found'')"

definition Unregister :: "string \<Rightarrow> environment_registry \<Rightarrow> go_error option \<times> environment_registry" where
  "Unregister name r =
     (if fmlookup r name = None then (Some (env_not_found name), r) else (None, fmdrop name r))"

definition registry_get :: "environment_registry \<Rightarrow> string \<Rightarrow> environment_config result" where
  "registry_get r name = (case fmlookup r name of None \<Rightarrow> Inl (env_not_found name) | Some e \<Rightarrow> Inr e)"

definition entries_of :: "string list \<Rightarrow> environment_registry \<Rightarrow> environment_config list" where
  "entries_of ks r = List.map_filter (fmlookup r) ks"

definition by_priority :: "environment_config list \<Rightarrow> environment_config list" where
  "by_priority = sort_key (\<lambda>e. (ec_priority e, ec_name e))"

text \<open>\<open>ks\<close> enumerates the registry.\<close>

definition registry_list :: "string list \<Rightarrow> environment_registry \<Rightarrow> string list" where
  "registry_list ks r = map ec_name (by_priority (entries_of ks r))"

definition FindByTag :: "string list \<Rightarrow> environment_registry \<Rightarrow> string \<Rightarrow> environment_config list" where
  "FindByTag ks r tag = by_priority (filter (\<lambda>e. HasTag e tag) (entries_of ks r))"

text \<open>The entries of a parsed environments file, in order.\<close>

fun register_all :: "(string \<times> connection_config \<times> register_options) list \<Rightarrow> environment_registry \<Rightarrow> environment_registry result" where
  "register_all [] r = Inr r"
| "register_all ((name, cfg, opts) # rest) r =
     (case Register name cfg (Some opts) r of
        (Some e, _) \<Rightarrow> Inl e
      | (None, r') \<Rightarrow> register_all rest r')"

datatype env_file = EnvFileMissing | EnvFileError go_error | EnvFileMalformed go_error
  | EnvFile "(string \<times> connection_config \<times> register_options) list"

definition LoadRegistryFromFile :: "string \<Rightarrow> env_file \<Rightarrow> environment_registry result" where
  "LoadRegistryFromFile path file =
     (case file of
        EnvFileMissing \<Rightarrow> Inr fmempty
      | EnvFileError e \<Rightarrow> Inl (err_wrap ErrOrchestration (''failed to read environments config '' @ go_quote path) e)
      | EnvFileMalformed e \<Rightarrow> Inl (err_wrap ErrSerialization (''failed to parse environments config '' @ go_quote path) e)
      | EnvFile entries \<Rightarrow> register_all entries fmempty)"

section \<open>Clients and health\<close>

text \<open>A factory returns a client and the cleanup to run afterwards.\<close>

type_synonym 'w client_factory = "connection_config \<Rightarrow> 'w \<Rightarrow> (client option \<times> ('w \<Rightarrow> 'w)) result \<times> 'w"

definition defaultClientFactory :: "('w, 'tx) sdk \<Rightarrow> float_ops \<Rightarrow> 'w client_factory" where
  "defaultClientFactory sdk fo cfg w =
     (case NewDatabaseClient cfg of
        Inl e \<Rightarrow> (Inl e, w)
      | Inr c \<Rightarrow>
          (case Connect sdk fo c w of
             (Some e, _, w') \<Rightarrow> (Inl e, w')
           | (None, c', w') \<Rightarrow> (Inr (Some c', \<lambda>w. snd (snd (Disconnect sdk c' w))), w')))"

record health_status =
  hs_environment :: string
  hs_healthy :: bool
  hs_can_connect :: bool
  hs_table_exists :: bool
  hs_error :: string

definition checkMigrationTable :: "('w, 'tx) sdk \<Rightarrow> client option \<Rightarrow> 'w \<Rightarrow> bool \<times> 'w" where
  "checkMigrationTable sdk co w =
     (case co of
        None \<Rightarrow> (False, w)
      | Some c \<Rightarrow>
          (case Query sdk c (''SELECT * FROM '' @ MigrationTableName @ '' LIMIT 1'') w of
             (Inl _, w') \<Rightarrow> (False, w') | (Inr _, w') \<Rightarrow> (True, w')))"

text \<open>A nil client of a factory panics here, as the method call on it does: None.\<close>

definition CheckEnvironment ::
  "('w, 'tx) sdk \<Rightarrow> 'w client_factory \<Rightarrow> environment_config \<Rightarrow> 'w \<Rightarrow> (health_status \<times> 'w) option" where
  "CheckEnvironment sdk factory env w =
     (case factory (ec_connection env) w of
        (Inl e, w1) \<Rightarrow>
          Some (\<lparr>hs_environment = ec_name env, hs_healthy = False, hs_can_connect = False, hs_table_exists = False,
                 hs_error = ''cannot connect to database: '' @ err_text e\<rparr>, w1)
      | (Inr (None, _), w1) \<Rightarrow> None
      | (Inr (Some c, cleanup), w1) \<Rightarrow>
          (case Query sdk c ''RETURN 1'' w1 of
             (Inl e, w2) \<Rightarrow>
               Some (\<lparr>hs_environment = ec_name env, hs_healthy = False, hs_can_connect = False, hs_table_exists = False,
                      hs_error = ''connectivity probe failed: '' @ err_text e\<rparr>, cleanup w2)
           | (Inr _, w2) \<Rightarrow>
               (case checkMigrationTable sdk (Some c) w2 of
                  (exists, w3) \<Rightarrow>
                    Some (\<lparr>hs_environment = ec_name env, hs_healthy = True, hs_can_connect = True,
                           hs_table_exists = exists, hs_error = []\<rparr>, cleanup w3))))"

section \<open>Deploying to one environment\<close>

record deployment_result =
  dr_environment :: string
  dr_status :: string
  dr_started :: gotime
  dr_completed :: gotime
  dr_error :: string
  dr_ms :: int64
  dr_applied :: nat

record 'w deployment_plan =
  dp_environments :: "environment_config list"
  dp_migrations :: "migration list"
  dp_batch_size :: int
  dp_canary :: go_float
  dp_max_concurrent :: int
  dp_dry_run :: bool
  dp_factory :: "'w client_factory"

text \<open>The migrations from the \<open>n\<close>-th on; the failing one with its error, if any, and how many were applied.\<close>

fun apply_migrations ::
  "('w, 'tx) sdk \<Rightarrow> 'w time_env \<Rightarrow> client option \<Rightarrow> migration list \<Rightarrow> nat \<Rightarrow> 'w \<Rightarrow> (migration \<times> go_error) option \<times> nat \<times> 'w" where
  "apply_migrations sdk tm co [] n w = (None, n, w)"
| "apply_migrations sdk tm co (m # rest) n w =
     (case ExecuteMigration sdk tm co m ''up'' w of
        (_, Some e, w') \<Rightarrow> (Some (m, e), n, w')
      | (_, None, w') \<Rightarrow> apply_migrations sdk tm co rest (Suc n) w')"

definition executeOnEnvironment ::
  "('w, 'tx) sdk \<Rightarrow> 'w time_env \<Rightarrow> 'w deployment_plan \<Rightarrow> environment_config \<Rightarrow> 'w \<Rightarrow> deployment_result \<times> 'w" where
  "executeOnEnvironment sdk tm plan env w =
     (let started = tm_now tm w;
          report = (\<lambda>status e ms n w'. \<lparr>dr_environment = ec_name env, dr_status = status, dr_started = started,
             dr_completed = tm_now tm w', dr_error = e, dr_ms = ms, dr_applied = n\<rparr>) in
      if dp_dry_run plan then
        (case sdk_wait sdk 100000000 w of
           (Some e, w1) \<Rightarrow> (report ''failed'' (err_text e) (milliseconds (tm_now tm w1 - started)) 0 w1, w1)
         | (None, w1) \<Rightarrow>
             (report ''success'' [] (milliseconds (tm_now tm w1 - started)) (length (dp_migrations plan)) w1, w1))
      else
        (case dp_factory plan (ec_connection env) w of
           (Inl e, w1) \<Rightarrow> (report ''failed'' (''connect to '' @ ec_name env @ '' failed: '' @ err_text e) 0 0 w1, w1)
         | (Inr (co, cleanup), w1) \<Rightarrow>
             (case apply_migrations sdk tm co (dp_migrations plan) 0 w1 of
                (Some (m, e), n, w2) \<Rightarrow>
                  (report ''failed'' (''migration '' @ mg_version m @ '' failed: '' @ err_text e) 0 n w2, cleanup w2)
              | (None, n, w2) \<Rightarrow>
                  (report ''success'' [] (milliseconds (tm_now tm w2 - started)) n w2, cleanup w2))))"

section \<open>Strategies\<close>

type_synonym 'w worlds = "string \<Rightarrow> 'w"

definition deploy ::
  "('w, 'tx) sdk \<Rightarrow> 'w time_env \<Rightarrow> 'w deployment_plan \<Rightarrow> environment_config \<Rightarrow> 'w worlds \<Rightarrow> deployment_result \<times> 'w worlds" where
  "deploy sdk tm plan env ws =
     (case executeOnEnvironment sdk tm plan env (ws (ec_name env)) of (r, w) \<Rightarrow> (r, ws(ec_name env := w)))"

definition is_failed :: "deployment_result \<Rightarrow> bool" where
  "is_failed r \<longleftrightarrow> dr_status r = ''failed''"

definition firstFailure :: "deployment_result list \<Rightarrow> deployment_result option" where
  "firstFailure results = find is_failed results"

definition zero_result :: deployment_result where
  "zero_result = \<lparr>dr_environment = [], dr_status = [], dr_started = 0, dr_completed = 0, dr_error = [], dr_ms = 0, dr_applied = 0\<rparr>"

definition lastOrEmpty :: "deployment_result list \<Rightarrow> deployment_result" where
  "lastOrEmpty results = (if results = [] then zero_result else last results)"

text \<open>\<open>Deploy\<close> of every strategy.\<close>

definition single_view :: "deployment_result list \<Rightarrow> deployment_result" where
  "single_view results = (case firstFailure results of Some r \<Rightarrow> r | None \<Rightarrow> lastOrEmpty results)"

fun run_sequential ::
  "('w, 'tx) sdk \<Rightarrow> 'w time_env \<Rightarrow> 'w deployment_plan \<Rightarrow> environment_config list \<Rightarrow> 'w worlds
     \<Rightarrow> deployment_result list \<times> 'w worlds" where
  "run_sequential sdk tm plan [] ws = ([], ws)"
| "run_sequential sdk tm plan (env # rest) ws =
     (case deploy sdk tm plan env ws of
        (r, ws1) \<Rightarrow>
          if is_failed r then ([r], ws1)
          else (case run_sequential sdk tm plan rest ws1 of (rs, ws2) \<Rightarrow> (r # rs, ws2)))"

text \<open>The unbounded fan-out \<open>runParallel\<close>, and the result of the bounded one: every environment is
  deployed to, the results are in the order of the environments.\<close>

fun runParallel ::
  "('w, 'tx) sdk \<Rightarrow> 'w time_env \<Rightarrow> 'w deployment_plan \<Rightarrow> environment_config list \<Rightarrow> 'w worlds
     \<Rightarrow> deployment_result list \<times> 'w worlds" where
  "runParallel sdk tm plan [] ws = ([], ws)"
| "runParallel sdk tm plan (env # rest) ws =
     (case deploy sdk tm plan env ws of
        (r, ws1) \<Rightarrow> (case runParallel sdk tm plan rest ws1 of (rs, ws2) \<Rightarrow> (r # rs, ws2)))"

definition parallel_limit :: "int \<Rightarrow> 'w deployment_plan \<Rightarrow> int" where
  "parallel_limit maxConcurrent plan =
     (let limit = (if maxConcurrent \<le> 0 then dp_max_concurrent plan else maxConcurrent) in
      if limit \<le> 0 then 5 else limit)"

text \<open>The pause between batches: true when the context ends first. Only its outcomes matter here.\<close>

function run_rolling ::
  "('w, 'tx) sdk \<Rightarrow> 'w time_env \<Rightarrow> 'w deployment_plan \<Rightarrow> nat \<Rightarrow> bool list \<Rightarrow> environment_config list \<Rightarrow> 'w worlds
     \<Rightarrow> deployment_result list \<times> 'w worlds" where
  "run_rolling sdk tm plan batchSize pauses envs ws =
     (if envs = [] \<or> batchSize = 0 then ([], ws)
      else
        (let batch = take batchSize envs; rest = drop batchSize envs in
         case runParallel sdk tm plan batch ws of
           (rs, ws1) \<Rightarrow>
             if firstFailure rs \<noteq> None then (rs, ws1)
             else if rest = [] then (rs, ws1)
             else if (case pauses of [] \<Rightarrow> False | ended # _ \<Rightarrow> ended) then (rs, ws1)
             else
               (case run_rolling sdk tm plan batchSize (tl pauses) rest ws1 of
                  (rs', ws2) \<Rightarrow> (rs @ rs', ws2))))"
  by pat_completeness auto
termination
  by (relation "measure (\<lambda>(sdk, tm, plan, batchSize, pauses, envs, ws). length envs)") auto

definition rolling_batch :: "int \<Rightarrow> 'w deployment_plan \<Rightarrow> nat" where
  "rolling_batch batchSize plan =
     (let size = (if batchSize \<le> 0 then dp_batch_size plan else batchSize) in
      nat (if size \<le> 0 then 1 else size))"

definition canary_percentage :: "go_float \<Rightarrow> 'w deployment_plan \<Rightarrow> go_float" where
  "canary_percentage percentage plan =
     (let pct = (if fl_eq percentage (Fin 0) then dp_canary plan else percentage) in
      if fl_eq pct (Fin 0) then Fin 10 else pct)"

text \<open>\<open>fdiv\<close> is the float division.\<close>

definition canary_count :: "float_ops \<Rightarrow> (go_float \<Rightarrow> go_float \<Rightarrow> go_float) \<Rightarrow> nat \<Rightarrow> go_float \<Rightarrow> nat" where
  "canary_count fo fdiv n pct =
     (let count = sint (float_to_int64 (fdiv (fo_mul fo (Fin (of_nat n)) pct) (Fin 100)));
          count = (if count < 1 then 1 else count) in
      nat (if int n < count then int n else count))"

definition canary_range_error :: "(go_float \<Rightarrow> string) \<Rightarrow> go_float \<Rightarrow> go_error" where
  "canary_range_error fixed2 pct =
     err_new ErrValidation (''canary percentage must be between 1.0 and 50.0, got '' @ fixed2 pct)"

datatype strategy = SequentialStrategy | ParallelStrategy int | RollingStrategy int | CanaryStrategy go_float

text \<open>\<open>DeployAll\<close>. \<open>pauses\<close> are the outcomes of the rolling delays, \<open>fixed2\<close> the verb \<open>%.2f\<close>.\<close>

definition DeployAll ::
  "('w, 'tx) sdk \<Rightarrow> 'w time_env \<Rightarrow> float_ops \<Rightarrow> (go_float \<Rightarrow> go_float \<Rightarrow> go_float) \<Rightarrow> (go_float \<Rightarrow> string) \<Rightarrow> bool list
     \<Rightarrow> strategy \<Rightarrow> 'w deployment_plan \<Rightarrow> 'w worlds \<Rightarrow> deployment_result list result \<times> 'w worlds" where
  "DeployAll sdk tm fo fdiv fixed2 pauses s plan ws =
     (case s of
        SequentialStrategy \<Rightarrow>
          (case run_sequential sdk tm plan (dp_environments plan) ws of (rs, ws') \<Rightarrow> (Inr rs, ws'))
      | ParallelStrategy maxConcurrent \<Rightarrow>
          (case runParallel sdk tm plan (dp_environments plan) ws of (rs, ws') \<Rightarrow> (Inr rs, ws'))
      | RollingStrategy batchSize \<Rightarrow>
          (case run_rolling sdk tm plan (rolling_batch batchSize plan) pauses (dp_environments plan) ws of
             (rs, ws') \<Rightarrow> (Inr rs, ws'))
      | CanaryStrategy percentage \<Rightarrow>
          (let pct = canary_percentage percentage plan; envs = dp_environments plan in
           if fl_less pct (Fin 1) \<or> fl_less (Fin 50) pct then (Inl (canary_range_error fixed2 pct), ws)
           else if envs = [] then (Inr [], ws)
           else
             (let k = canary_count fo fdiv (length envs) pct in
              case runParallel sdk tm plan (take k envs) ws of
                (rs, ws1) \<Rightarrow>
                  if firstFailure rs \<noteq> None then (Inr rs, ws1)
                  else if drop k envs = [] then (Inr rs, ws1)
                  else (case runParallel sdk tm plan (drop k envs) ws1 of (rs', ws2) \<Rightarrow> (Inr (rs @ rs'), ws2)))))"

definition NewStrategy :: "string \<Rightarrow> 'w deployment_plan \<Rightarrow> strategy result" where
  "NewStrategy name plan =
     (if name = ''sequential'' then Inr SequentialStrategy
      else if name = ''parallel'' then Inr (ParallelStrategy (dp_max_concurrent plan))
      else if name = ''rolling'' then Inr (RollingStrategy (dp_batch_size plan))
      else if name = ''canary'' then Inr (CanaryStrategy (dp_canary plan))
      else Inl (err_new ErrValidation (''unknown deployment strategy '' @ go_quote name
        @ '' (want sequential, parallel, rolling, or canary)'')))"

section \<open>The coordinator\<close>

fun run_downs :: "('w, 'tx) sdk \<Rightarrow> 'w time_env \<Rightarrow> client option \<Rightarrow> migration list \<Rightarrow> 'w \<Rightarrow> 'w" where
  "run_downs sdk tm co [] w = w"
| "run_downs sdk tm co (m # rest) w = run_downs sdk tm co rest (snd (snd (ExecuteMigration sdk tm co m ''down'' w)))"

type_synonym result_map = "(string, deployment_result) fmap"

fun coordinator_rollback ::
  "('w, 'tx) sdk \<Rightarrow> 'w time_env \<Rightarrow> 'w client_factory \<Rightarrow> migration list \<Rightarrow> environment_config list \<Rightarrow> result_map \<Rightarrow> 'w worlds
     \<Rightarrow> result_map \<times> 'w worlds" where
  "coordinator_rollback sdk tm factory ms [] results ws = (results, ws)"
| "coordinator_rollback sdk tm factory ms (env # rest) results ws =
     (case fmlookup results (ec_name env) of
        None \<Rightarrow> coordinator_rollback sdk tm factory ms rest results ws
      | Some r \<Rightarrow>
          if dr_status r \<noteq> ''success'' then coordinator_rollback sdk tm factory ms rest results ws
          else
            (case factory (ec_connection env) (ws (ec_name env)) of
               (Inl _, w1) \<Rightarrow> coordinator_rollback sdk tm factory ms rest results (ws(ec_name env := w1))
             | (Inr (co, cleanup), w1) \<Rightarrow>
                 coordinator_rollback sdk tm factory ms rest
                   (fmupd (ec_name env) (r\<lparr>dr_status := ''rolled_back''\<rparr>) results)
                   (ws(ec_name env := cleanup (run_downs sdk tm co (rev ms) w1)))))"

fun resolve_environments :: "environment_registry \<Rightarrow> string list \<Rightarrow> environment_config list result" where
  "resolve_environments reg [] = Inr []"
| "resolve_environments reg (name # rest) =
     (case registry_get reg name of
        Inl e \<Rightarrow> Inl (err_wrap ErrOrchestration (''environment '' @ go_quote name @ '' not registered'') e)
      | Inr cfg \<Rightarrow> rbind (resolve_environments reg rest) (\<lambda>cfgs. Inr (cfg # cfgs)))"

text \<open>The probes of all environments; None is a panic in one of them.\<close>

fun verify_all ::
  "('w, 'tx) sdk \<Rightarrow> 'w client_factory \<Rightarrow> environment_config list \<Rightarrow> (string, health_status) fmap \<Rightarrow> 'w worlds
     \<Rightarrow> ((string, health_status) fmap \<times> 'w worlds) option" where
  "verify_all sdk factory [] m ws = Some (m, ws)"
| "verify_all sdk factory (env # rest) m ws =
     (case CheckEnvironment sdk factory env (ws (ec_name env)) of
        None \<Rightarrow> None
      | Some (s, w) \<Rightarrow> verify_all sdk factory rest (fmupd (ec_name env) s m) (ws(ec_name env := w)))"

definition unhealthy_names :: "environment_config list \<Rightarrow> (string, health_status) fmap \<Rightarrow> string list" where
  "unhealthy_names envs statuses =
     map ec_name (filter (\<lambda>env. case fmlookup statuses (ec_name env) of None \<Rightarrow> True | Some s \<Rightarrow> \<not> hs_healthy s) envs)"

record 'w deploy_options =
  do_strategy :: string
  do_batch_size :: int
  do_canary :: go_float
  do_max_concurrent :: int
  do_verify_health :: "bool option"
  do_auto_rollback :: "bool option"
  do_dry_run :: bool
  do_factory :: "'w client_factory option"
  do_health_factory :: "'w client_factory option"

definition result_map_of :: "deployment_result list \<Rightarrow> result_map" where
  "result_map_of results = fold (\<lambda>r m. fmupd (dr_environment r) r m) results fmempty"

text \<open>\<open>hc_factory\<close> is the factory of the coordinator's own health check (nil by default); the
  outer None is a panic in a probe.\<close>

definition health_factory :: "'w client_factory \<Rightarrow> 'w client_factory option \<Rightarrow> 'w deploy_options \<Rightarrow> 'w client_factory" where
  "health_factory stdFactory hc_factory opts =
     (let own = (case do_health_factory opts of Some f \<Rightarrow> Some f | None \<Rightarrow> hc_factory) in
      case own of Some f \<Rightarrow> f | None \<Rightarrow> (case do_factory opts of Some f \<Rightarrow> f | None \<Rightarrow> stdFactory))"

definition plan_of ::
  "'w client_factory \<Rightarrow> environment_config list \<Rightarrow> migration list \<Rightarrow> 'w deploy_options \<Rightarrow> 'w deployment_plan" where
  "plan_of stdFactory envs ms opts =
     \<lparr>dp_environments = envs, dp_migrations = ms, dp_batch_size = do_batch_size opts, dp_canary = do_canary opts,
      dp_max_concurrent = do_max_concurrent opts, dp_dry_run = do_dry_run opts,
      dp_factory = (case do_factory opts of Some f \<Rightarrow> f | None \<Rightarrow> stdFactory)\<rparr>"

definition deploy_phase ::
  "('w, 'tx) sdk \<Rightarrow> 'w time_env \<Rightarrow> float_ops \<Rightarrow> (go_float \<Rightarrow> go_float \<Rightarrow> go_float) \<Rightarrow> (go_float \<Rightarrow> string) \<Rightarrow> bool list
     \<Rightarrow> string \<Rightarrow> bool \<Rightarrow> 'w deployment_plan \<Rightarrow> 'w worlds \<Rightarrow> result_map result \<times> 'w worlds" where
  "deploy_phase sdk tm fo fdiv fixed2 pauses name autoRollback plan ws =
     (case NewStrategy name plan of
        Inl e \<Rightarrow> (Inl (err_wrap ErrOrchestration (''failed to construct strategy '' @ go_quote name) e), ws)
      | Inr s \<Rightarrow>
          (case DeployAll sdk tm fo fdiv fixed2 pauses s plan ws of
             (Inl e, ws1) \<Rightarrow> (Inl (err_wrap ErrOrchestration (''deployment strategy '' @ go_quote name @ '' failed'') e), ws1)
           | (Inr results, ws1) \<Rightarrow>
               (let resultMap = result_map_of results in
                if autoRollback \<and> \<not> dp_dry_run plan \<and> list_ex is_failed results then
                  (case coordinator_rollback sdk tm (dp_factory plan) (dp_migrations plan) (dp_environments plan) resultMap ws1 of
                     (m, ws2) \<Rightarrow> (Inr m, ws2))
                else (Inr resultMap, ws1))))"

definition DeployToEnvironments ::
  "('w, 'tx) sdk \<Rightarrow> 'w time_env \<Rightarrow> float_ops \<Rightarrow> (go_float \<Rightarrow> go_float \<Rightarrow> go_float) \<Rightarrow> (go_float \<Rightarrow> string) \<Rightarrow> bool list
     \<Rightarrow> 'w client_factory option \<Rightarrow> environment_registry \<Rightarrow> string list \<Rightarrow> migration list \<Rightarrow> 'w deploy_options \<Rightarrow> 'w worlds
     \<Rightarrow> (result_map result \<times> 'w worlds) option" where
  "DeployToEnvironments sdk tm fo fdiv fixed2 pauses hc_factory reg environments ms opts ws =
     (if environments = [] then Some (Inl (err_new ErrOrchestration ''at least one environment is required''), ws)
      else
        (let stdFactory = defaultClientFactory sdk fo;
             name = (if do_strategy opts = [] then ''sequential'' else do_strategy opts);
             verify = (case do_verify_health opts of Some b \<Rightarrow> b | None \<Rightarrow> True);
             autoRollback = (case do_auto_rollback opts of Some b \<Rightarrow> b | None \<Rightarrow> True) in
         case resolve_environments reg environments of
           Inl e \<Rightarrow> Some (Inl e, ws)
         | Inr envs \<Rightarrow>
             (let plan = plan_of stdFactory envs ms opts in
              if verify \<and> \<not> do_dry_run opts then
                (case verify_all sdk (health_factory stdFactory hc_factory opts) envs fmempty ws of
                   None \<Rightarrow> None
                 | Some (statuses, ws1) \<Rightarrow>
                     if unhealthy_names envs statuses \<noteq> [] then
                       Some (Inl (err_new ErrOrchestration
                         (''unhealthy environments: '' @ str_join '', '' (unhealthy_names envs statuses))), ws1)
                     else Some (deploy_phase sdk tm fo fdiv fixed2 pauses name autoRollback plan ws1))
              else Some (deploy_phase sdk tm fo fdiv fixed2 pauses name autoRollback plan ws))))"

end
