(* ===== verification/Orchestration_Correct.thy ===== *)
theory Orchestration_Correct
  imports Orchestration Migration_Executor_Correct
begin

text \<open>
  Correctness of deployments: which environments a strategy touches and what it reports of them,
  the interleavings of the bounded fan-out, and what the automatic rollback of the coordinator
  does. The last section evaluates the cases in which a report is wrong.
\<close>

section \<open>Deployed prefixes\<close>

text \<open>Exactly these environments have been deployed to, with these results; with distinct names
  each result and each new world is that of a deployment that ran alone.\<close>

definition deployed ::
  "('w, 'tx) sdk \<Rightarrow> 'w time_env \<Rightarrow> 'w deployment_plan \<Rightarrow> environment_config list \<Rightarrow> 'w worlds
     \<Rightarrow> deployment_result list \<Rightarrow> 'w worlds \<Rightarrow> bool" where
  "deployed sdk tm plan envs ws rs ws' \<longleftrightarrow>
     map dr_environment rs = map ec_name envs
     \<and> (\<forall>n. n \<notin> ec_name ` set envs \<longrightarrow> ws' n = ws n)
     \<and> (distinct (map ec_name envs) \<longrightarrow>
          (\<forall>i < length envs. executeOnEnvironment sdk tm plan (envs ! i) (ws (ec_name (envs ! i)))
             = (rs ! i, ws' (ec_name (envs ! i)))))"

lemma deployed_nth:
  "deployed sdk tm plan envs ws rs ws' \<Longrightarrow> distinct (map ec_name envs) \<Longrightarrow> i < length envs \<Longrightarrow>
    executeOnEnvironment sdk tm plan (envs ! i) (ws (ec_name (envs ! i))) = (rs ! i, ws' (ec_name (envs ! i)))"
  by (simp add: deployed_def)

lemma deployed_other: "deployed sdk tm plan envs ws rs ws' \<Longrightarrow> n \<notin> ec_name ` set envs \<Longrightarrow> ws' n = ws n"
  by (simp add: deployed_def)

lemma execute_on_name: "dr_environment (fst (executeOnEnvironment sdk tm plan env w)) = ec_name env"
  by (auto simp: executeOnEnvironment_def Let_def split: prod.splits option.splits sum.splits)

lemma execute_on_status:
  "dr_status (fst (executeOnEnvironment sdk tm plan env w)) \<in> {''success'', ''failed''}"
  by (auto simp: executeOnEnvironment_def Let_def split: prod.splits option.splits sum.splits)

lemma deployed_Nil: "deployed sdk tm plan [] ws [] ws"
  by (simp add: deployed_def)

lemma deployed_Cons:
  assumes d: "deploy sdk tm plan env ws = (r, ws1)" and rest: "deployed sdk tm plan envs ws1 rs ws2"
  shows "deployed sdk tm plan (env # envs) ws (r # rs) ws2"
proof -
  obtain w where e: "executeOnEnvironment sdk tm plan env (ws (ec_name env)) = (r, w)" and ws1: "ws1 = ws(ec_name env := w)"
    using d by (auto simp: deploy_def split: prod.splits)
  have name: "dr_environment r = ec_name env" using execute_on_name [of sdk tm plan env "ws (ec_name env)"] e by simp
  show ?thesis
    unfolding deployed_def
  proof (intro conjI impI allI)
    fix i assume dist: "distinct (map ec_name (env # envs))" and i: "i < length (env # envs)"
    show "executeOnEnvironment sdk tm plan ((env # envs) ! i) (ws (ec_name ((env # envs) ! i)))
        = ((r # rs) ! i, ws2 (ec_name ((env # envs) ! i)))"
    proof (cases i)
      case 0
      then show ?thesis using rest dist e ws1 by (auto simp: deployed_def)
    next
      case (Suc j)
      then have "ec_name (envs ! j) \<noteq> ec_name env" using dist i by (metis distinct.simps(2) length_Cons length_map list.map(2) not_less_eq nth_map nth_mem)
      then show ?thesis using deployed_nth [OF rest, of j] dist i Suc ws1 by simp
    qed
  qed (use rest ws1 name in \<open>auto simp: deployed_def\<close>)
qed

lemma deployed_append:
  "deployed sdk tm plan e1 ws r1 ws1 \<Longrightarrow> deployed sdk tm plan e2 ws1 r2 ws2
    \<Longrightarrow> deployed sdk tm plan (e1 @ e2) ws (r1 @ r2) ws2"
proof -
  assume a: "deployed sdk tm plan e1 ws r1 ws1" and b: "deployed sdk tm plan e2 ws1 r2 ws2"
  have len: "length r1 = length e1" using a by (metis deployed_def length_map)
  show ?thesis
    unfolding deployed_def
  proof (intro conjI impI allI)
    fix i assume d: "distinct (map ec_name (e1 @ e2))" and i: "i < length (e1 @ e2)"
    let ?n = "ec_name ((e1 @ e2) ! i)"
    show "executeOnEnvironment sdk tm plan ((e1 @ e2) ! i) (ws ?n) = ((r1 @ r2) ! i, ws2 ?n)"
    proof (cases "i < length e1")
      case True
      then have "ec_name (e1 ! i) \<in> ec_name ` set e1" by simp
      then have "ec_name (e1 ! i) \<notin> ec_name ` set e2" using d by auto
      then show ?thesis using a b d True len by (simp add: deployed_def nth_append)
    next
      case False
      then have j: "i - length e1 < length e2" using i by simp
      then have "ec_name (e2 ! (i - length e1)) \<in> ec_name ` set e2" by simp
      then have "ec_name (e2 ! (i - length e1)) \<notin> ec_name ` set e1" using d by auto
      then have "ws1 (ec_name (e2 ! (i - length e1))) = ws (ec_name (e2 ! (i - length e1)))" by (rule deployed_other [OF a])
      then show ?thesis using deployed_nth [OF b _ j] d False len by (simp add: nth_append)
    qed
  qed (use a b in \<open>auto simp: deployed_def image_Un\<close>)
qed

lemma runParallel_deployed: "runParallel sdk tm plan envs ws = (rs, ws') \<Longrightarrow> deployed sdk tm plan envs ws rs ws'"
proof (induction envs arbitrary: ws rs ws')
  case (Cons env envs)
  obtain r ws1 where d: "deploy sdk tm plan env ws = (r, ws1)" by fastforce
  obtain rs1 ws2 where p: "runParallel sdk tm plan envs ws1 = (rs1, ws2)" by fastforce
  have "rs = r # rs1" "ws' = ws2" using Cons.prems d p by simp_all
  with deployed_Cons [OF d] Cons.IH p show ?case by blast
qed (simp add: deployed_Nil)

lemma run_sequential_deployed:
  "run_sequential sdk tm plan envs ws = (rs, ws') \<Longrightarrow>
    \<exists>k \<le> length envs. deployed sdk tm plan (take k envs) ws rs ws' \<and> length rs = k
      \<and> (\<forall>i. Suc i < k \<longrightarrow> \<not> is_failed (rs ! i)) \<and> (\<not> list_ex is_failed rs \<longrightarrow> k = length envs)"
proof (induction envs arbitrary: ws rs ws')
  case (Cons env envs)
  obtain r ws1 where d: "deploy sdk tm plan env ws = (r, ws1)" by fastforce
  show ?case
  proof (cases "is_failed r")
    case True
    then have "rs = [r]" "ws' = ws1" using Cons.prems d by simp_all
    then show ?thesis using deployed_Cons [OF d deployed_Nil] True by (intro exI [of _ 1]) simp
  next
    case False
    obtain rs1 ws2 where s: "run_sequential sdk tm plan envs ws1 = (rs1, ws2)" by fastforce
    have eq: "rs = r # rs1" "ws' = ws2" using Cons.prems d s False by simp_all
    from Cons.IH [OF s] obtain k where k: "k \<le> length envs" "deployed sdk tm plan (take k envs) ws1 rs1 ws2" "length rs1 = k"
        "\<forall>i. Suc i < k \<longrightarrow> \<not> is_failed (rs1 ! i)" "\<not> list_ex is_failed rs1 \<longrightarrow> k = length envs" by blast
    have "\<not> is_failed ((r # rs1) ! i)" if "Suc i < Suc k" for i
      using that k(4) False by (cases i) auto
    then show ?thesis unfolding eq using deployed_Cons [OF d k(2)] k by (intro exI [of _ "Suc k"]) simp
  qed
qed (simp add: deployed_Nil)

lemma firstFailure_None: "firstFailure rs = None \<longleftrightarrow> \<not> list_ex is_failed rs"
  by (auto simp: firstFailure_def find_None_iff list_ex_iff)

lemma deployed_length: "deployed sdk tm plan envs ws rs ws' \<Longrightarrow> length rs = length envs"
  by (metis deployed_def length_map)

lemma run_rolling_deployed:
  "run_rolling sdk tm plan b pauses envs ws = (rs, ws') \<Longrightarrow> 0 < b \<Longrightarrow>
    \<exists>k \<le> length envs. deployed sdk tm plan (take k envs) ws rs ws' \<and> length rs = k
      \<and> (\<forall>i < k. is_failed (rs ! i) \<longrightarrow> k \<le> i + b)
      \<and> (\<not> list_ex is_failed rs \<and> True \<notin> set pauses \<longrightarrow> k = length envs)"
proof (induction sdk tm plan b pauses envs ws arbitrary: rs ws' rule: run_rolling.induct)
  case (1 sdk tm plan b pauses envs ws)
  show ?case
  proof (cases "envs = []")
    case True
    then show ?thesis using "1.prems" by (simp add: deployed_Nil)
  next
    case ne: False
    let ?batch = "take b envs" and ?rest = "drop b envs"
    obtain r1 ws1 where p: "runParallel sdk tm plan ?batch ws = (r1, ws1)" by fastforce
    note d1 = runParallel_deployed [OF p]
    have len: "length r1 = min (length envs) b" using deployed_length [OF d1] by simp
    have batch: "take (length r1) envs = ?batch" unfolding len by (simp add: min_def)
    have stop: ?thesis if "rs = r1" "ws' = ws1" "list_ex is_failed r1 \<or> ?rest = [] \<or> True \<in> set pauses"
      using that d1 len batch by (intro exI [of _ "length r1"]) auto
    show ?thesis
    proof (cases "firstFailure r1 \<noteq> None \<or> ?rest = [] \<or> (case pauses of [] \<Rightarrow> False | ended # _ \<Rightarrow> ended)")
      case True
      then have "rs = r1" "ws' = ws1" using "1.prems" p ne by (auto simp: Let_def split: if_splits)
      moreover have "list_ex is_failed r1 \<or> ?rest = [] \<or> True \<in> set pauses"
        using True by (auto simp: firstFailure_None split: list.splits)
      ultimately show ?thesis by (rule stop)
    next
      case False
      then have nf: "firstFailure r1 = None" "?rest \<noteq> []" "\<not> (case pauses of [] \<Rightarrow> False | ended # _ \<Rightarrow> ended)" by simp_all
      obtain r2 ws2 where r: "run_rolling sdk tm plan b (tl pauses) ?rest ws1 = (r2, ws2)" by fastforce
      have eq: "rs = r1 @ r2" "ws' = ws2" using "1.prems" p ne nf r by (simp_all add: Let_def)
      have guard: "\<not> (envs = [] \<or> b = 0)" using ne "1.prems"(2) by simp
      have nf': "\<not> (firstFailure r1 \<noteq> None)" using nf(1) by simp
      from "1.IH" [OF guard refl refl p [symmetric] nf' nf(2,3) r "1.prems"(2)]
      obtain k where k: "k \<le> length ?rest" "deployed sdk tm plan (take k ?rest) ws1 r2 ws2" "length r2 = k"
          "\<forall>i < k. is_failed (r2 ! i) \<longrightarrow> k \<le> i + b"
          "\<not> list_ex is_failed r2 \<and> True \<notin> set (tl pauses) \<longrightarrow> k = length ?rest" by blast
      have b: "length r1 = b" using nf(2) len by simp
      have "take (b + k) envs = ?batch @ take k ?rest" by (simp add: take_add)
      then have "deployed sdk tm plan (take (b + k) envs) ws (r1 @ r2) ws2" using deployed_append [OF d1 k(2)] by simp
      moreover have "b + k \<le> i + b" if "i < b + k" "is_failed ((r1 @ r2) ! i)" for i
      proof (cases "i < b")
        case True
        then have "is_failed (r1 ! i)" using that b by (simp add: nth_append)
        then show ?thesis using nf(1) True b by (auto simp: firstFailure_None list_ex_length)
      next
        case False
        then have "k \<le> (i - b) + b" using that b k(4) [rule_format, of "i - b"] by (simp add: nth_append)
        then show ?thesis using False by simp
      qed
      moreover have "True \<notin> set pauses \<longrightarrow> True \<notin> set (tl pauses)" by (cases pauses) auto
      ultimately show ?thesis unfolding eq using k b nf(2)
        by (intro exI [of _ "b + k"]) auto
    qed
  qed
qed

definition canary_size :: "float_ops \<Rightarrow> (go_float \<Rightarrow> go_float \<Rightarrow> go_float) \<Rightarrow> go_float \<Rightarrow> 'w deployment_plan \<Rightarrow> nat" where
  "canary_size fo fdiv percentage plan =
     canary_count fo fdiv (length (dp_environments plan)) (canary_percentage percentage plan)"

lemma canary_count_bounds: "0 < n \<Longrightarrow> 1 \<le> canary_count fo fdiv n pct \<and> canary_count fo fdiv n pct \<le> n"
  by (auto simp: canary_count_def Let_def)

lemma canary_deployed:
  assumes "DeployAll sdk tm fo fdiv fixed2 pauses (CanaryStrategy percentage) plan ws = (Inr rs, ws')"
    and ne: "dp_environments plan \<noteq> []"
  shows "\<exists>k \<le> length (dp_environments plan). deployed sdk tm plan (take k (dp_environments plan)) ws rs ws' \<and> length rs = k
    \<and> (k = length (dp_environments plan) \<or> k = canary_size fo fdiv percentage plan \<and> list_ex is_failed rs)
    \<and> (list_ex is_failed (take (canary_size fo fdiv percentage plan) rs) \<longrightarrow> k = canary_size fo fdiv percentage plan)"
proof -
  let ?envs = "dp_environments plan" and ?k = "canary_size fo fdiv percentage plan"
  obtain r1 ws1 where p: "runParallel sdk tm plan (take ?k ?envs) ws = (r1, ws1)" by fastforce
  note d1 = runParallel_deployed [OF p]
  have k: "?k \<le> length ?envs" using canary_count_bounds ne by (simp add: canary_size_def)
  then have len: "length r1 = ?k" using deployed_length [OF d1] by simp
  show ?thesis
  proof (cases "firstFailure r1 \<noteq> None \<or> drop ?k ?envs = []")
    case True
    then have eq: "rs = r1" "ws' = ws1" using assms p
      by (auto simp: DeployAll_def Let_def canary_size_def split: if_splits)
    have "?k = length ?envs \<or> list_ex is_failed r1" using True k by (auto simp: firstFailure_None)
    then show ?thesis unfolding eq using d1 k len by (intro exI [of _ ?k]) auto
  next
    case False
    obtain r2 ws2 where q: "runParallel sdk tm plan (drop ?k ?envs) ws1 = (r2, ws2)" by fastforce
    have eq: "rs = r1 @ r2" "ws' = ws2" using assms p q False
      by (auto simp: DeployAll_def Let_def canary_size_def split: if_splits)
    note d2 = runParallel_deployed [OF q]
    have "deployed sdk tm plan (take (length ?envs) ?envs) ws rs ws'"
      unfolding eq using deployed_append [OF d1 d2] by simp
    moreover have "\<not> list_ex is_failed (take ?k rs)" unfolding eq using False len by (simp add: firstFailure_None)
    moreover have "length rs = length ?envs" unfolding eq using len deployed_length [OF d2] k by simp
    ultimately show ?thesis by (intro exI [of _ "length ?envs"]) simp
  qed
qed

lemma deploy_all_deployed:
  assumes dep: "DeployAll sdk tm fo fdiv fixed2 pauses s plan ws = (Inr rs, ws')"
  shows "deployed sdk tm plan (take (length rs) (dp_environments plan)) ws rs ws'
    \<and> length rs \<le> length (dp_environments plan)"
proof (cases "dp_environments plan = []")
  case True
  then show ?thesis using dep
    by (cases s) (auto simp: DeployAll_def Let_def deployed_Nil split: if_splits prod.splits)
next
  case ne: False
  show ?thesis
  proof (cases s)
    case SequentialStrategy
    then have "run_sequential sdk tm plan (dp_environments plan) ws = (rs, ws')"
      using dep by (auto simp: DeployAll_def split: prod.splits)
    from run_sequential_deployed [OF this] show ?thesis by auto
  next
    case (ParallelStrategy m)
    then have "runParallel sdk tm plan (dp_environments plan) ws = (rs, ws')"
      using dep by (auto simp: DeployAll_def split: prod.splits)
    from runParallel_deployed [OF this] show ?thesis using deployed_length by force
  next
    case (RollingStrategy b)
    then have r: "run_rolling sdk tm plan (rolling_batch b plan) pauses (dp_environments plan) ws = (rs, ws')"
      using dep by (auto simp: DeployAll_def split: prod.splits)
    have "0 < rolling_batch b plan" by (simp add: rolling_batch_def Let_def)
    from run_rolling_deployed [OF r this] show ?thesis by auto
  next
    case (CanaryStrategy p)
    from canary_deployed [OF dep [unfolded CanaryStrategy] ne] show ?thesis by auto
  qed
qed

text \<open>
  C15 (safety). A deployment touches a prefix of the planned environments and nothing else: the
  results are those of the first k environments in order, with distinct names each is the result of
  deploying to that environment alone, and the databases of all others are as they were. How far a
  failure spreads depends on the strategy: a sequential deployment ends with the first failure, a
  rolling one at the end of the batch that contains it, and a canary one at the end of the canaries
  if one of them failed, of which there is at least one. Without a failure (and no cancelled pause)
  every environment has been deployed to.
\<close>

theorem strategy_deploys_prefix:
  assumes dep: "DeployAll sdk tm fo fdiv fixed2 pauses s plan ws = (Inr rs, ws')"
    and ne: "dp_environments plan \<noteq> []"
  shows "deployed sdk tm plan (take (length rs) (dp_environments plan)) ws rs ws'
    \<and> length rs \<le> length (dp_environments plan)
    \<and> (\<not> list_ex is_failed rs \<and> True \<notin> set pauses \<longrightarrow> length rs = length (dp_environments plan))
    \<and> (s = SequentialStrategy \<longrightarrow> (\<forall>i < length rs. is_failed (rs ! i) \<longrightarrow> length rs = i + 1))
    \<and> (\<forall>b. s = RollingStrategy b \<longrightarrow> (\<forall>i < length rs. is_failed (rs ! i) \<longrightarrow> length rs \<le> i + rolling_batch b plan))
    \<and> (\<forall>p. s = CanaryStrategy p \<longrightarrow> 1 \<le> canary_size fo fdiv p plan
          \<and> (list_ex is_failed (take (canary_size fo fdiv p plan) rs) \<longrightarrow> length rs = canary_size fo fdiv p plan))"
proof (cases s)
  case SequentialStrategy
  then have "run_sequential sdk tm plan (dp_environments plan) ws = (rs, ws')"
    using dep by (auto simp: DeployAll_def split: prod.splits)
  from run_sequential_deployed [OF this] obtain k where k: "k \<le> length (dp_environments plan)"
      "deployed sdk tm plan (take k (dp_environments plan)) ws rs ws'" "length rs = k"
      "\<forall>i. Suc i < k \<longrightarrow> \<not> is_failed (rs ! i)" "\<not> list_ex is_failed rs \<longrightarrow> k = length (dp_environments plan)" by blast
  have "length rs = i + 1" if "i < length rs" "is_failed (rs ! i)" for i
  proof (rule ccontr)
    assume "length rs \<noteq> i + 1"
    then have "Suc i < k" using that(1) k(3) by simp
    then show False using k(4) that(2) by blast
  qed
  then have last: "length rs = i + 1" if "i < length rs" "is_failed (rs ! i)" for i using that .
  show ?thesis
  proof (intro conjI impI allI)
    fix i assume "i < length rs" "is_failed (rs ! i)"
    then show "length rs = i + 1" by (rule last)
  qed (use k SequentialStrategy in auto)
next
  case (ParallelStrategy m)
  then have "runParallel sdk tm plan (dp_environments plan) ws = (rs, ws')"
    using dep by (auto simp: DeployAll_def split: prod.splits)
  note d = runParallel_deployed [OF this]
  then show ?thesis using ParallelStrategy deployed_length [OF d] by simp
next
  case (RollingStrategy b)
  then have r: "run_rolling sdk tm plan (rolling_batch b plan) pauses (dp_environments plan) ws = (rs, ws')"
    using dep by (auto simp: DeployAll_def split: prod.splits)
  have "0 < rolling_batch b plan" by (simp add: rolling_batch_def Let_def)
  from run_rolling_deployed [OF r this] show ?thesis using RollingStrategy by auto
next
  case (CanaryStrategy p)
  from canary_deployed [OF dep [unfolded CanaryStrategy] ne] show ?thesis
    using CanaryStrategy canary_count_bounds [of "length (dp_environments plan)"] ne by (auto simp: canary_size_def)
qed

abbreviation toy_environment :: "string \<Rightarrow> environment_config" where
  "toy_environment n \<equiv> \<lparr>ec_name = n, ec_connection = DefaultConfig, ec_priority = 100, ec_tags = {},
     ec_require_approval = False, ec_allow_destructive = True\<rparr>"

abbreviation toy_plan :: "migration list \<Rightarrow> toy deployment_plan" where
  "toy_plan ms \<equiv> \<lparr>dp_environments = [toy_environment ''dev'', toy_environment ''prod''], dp_migrations = ms,
     dp_batch_size = 0, dp_canary = Fin 0, dp_max_concurrent = 0, dp_dry_run = False,
     dp_factory = (\<lambda>_ w. (Inr (Some toy_client, \<lambda>w. w), w))\<rparr>"

abbreviation toy_result :: "string \<Rightarrow> string \<Rightarrow> string \<Rightarrow> nat \<Rightarrow> deployment_result" where
  "toy_result n status e k \<equiv> \<lparr>dr_environment = n, dr_status = status, dr_started = 1, dr_completed = 1,
     dr_error = e, dr_ms = 0, dr_applied = k\<rparr>"

text \<open>The migration has an empty second statement, which this database refuses.\<close>

abbreviation toy_broken :: migration where
  "toy_broken \<equiv> toy_migration ''2'' [''b'', []] []"

lemma toy_sequential:
  "case DeployAll toy_sdk toy_time sample_float_ops (\<lambda>a b. a) (\<lambda>_. []) [] SequentialStrategy
     (toy_plan [toy_migration ''1'' [''a''] [''x''], toy_broken]) (\<lambda>_. toy_empty) of
   (r, ws) \<Rightarrow> (case r of Inl _ \<Rightarrow> False | Inr rs \<Rightarrow> map is_failed rs = [True])
     \<and> ws ''dev'' = \<lparr>ty_data = [''a''], ty_hist = [''1''], ty_staged = [''a'', ''b'']\<rparr>"
  by code_simp

theorem strategy_deploys_prefix_witness:
  "\<exists>rs ws. DeployAll toy_sdk toy_time sample_float_ops (\<lambda>a b. a) (\<lambda>_. []) [] SequentialStrategy
     (toy_plan [toy_migration ''1'' [''a''] [''x''], toy_broken]) (\<lambda>_. toy_empty) = (Inr rs, ws)
   \<and> length rs = 1 \<and> ws ''prod'' = toy_empty"
proof -
  obtain rs ws where r: "DeployAll toy_sdk toy_time sample_float_ops (\<lambda>a b. a) (\<lambda>_. []) [] SequentialStrategy
     (toy_plan [toy_migration ''1'' [''a''] [''x''], toy_broken]) (\<lambda>_. toy_empty) = (Inr rs, ws)"
      and f: "map is_failed rs = [True]"
    using toy_sequential by (auto split: prod.splits sum.splits)
  have "length rs = 1" using f by (metis length_map length_Cons list.size(3) One_nat_def)
  moreover have "deployed toy_sdk toy_time (toy_plan [toy_migration ''1'' [''a''] [''x''], toy_broken])
     (take (length rs) [toy_environment ''dev'', toy_environment ''prod'']) (\<lambda>_. toy_empty) rs ws"
    using strategy_deploys_prefix [OF r] by simp
  ultimately show ?thesis using r by (auto simp: deployed_def)
qed

section \<open>The bounded fan-out\<close>

text \<open>
  \<open>ParallelStrategy.DeployAll\<close> as its goroutines interleave: each waits for one of \<open>limit\<close> tokens
  of the semaphore, deploys, stores its result in its slot and gives the token back.
\<close>

datatype goroutine = Waiting | Running | Finished

record 'w fanout =
  fo_state :: "goroutine list"
  fo_tokens :: nat
  fo_results :: "deployment_result option list"
  fo_worlds :: "'w worlds"

definition fan_start :: "environment_config list \<Rightarrow> 'w worlds \<Rightarrow> 'w fanout" where
  "fan_start envs ws =
     \<lparr>fo_state = replicate (length envs) Waiting, fo_tokens = 0, fo_results = replicate (length envs) None, fo_worlds = ws\<rparr>"

inductive fan_step ::
  "nat \<Rightarrow> (environment_config \<Rightarrow> 'w \<Rightarrow> deployment_result \<times> 'w) \<Rightarrow> environment_config list \<Rightarrow> 'w fanout \<Rightarrow> 'w fanout \<Rightarrow> bool"
  for limit execute envs where
  acquire: "i < length envs \<Longrightarrow> fo_state c ! i = Waiting \<Longrightarrow> fo_tokens c < limit \<Longrightarrow>
     fan_step limit execute envs c (c\<lparr>fo_state := (fo_state c)[i := Running], fo_tokens := fo_tokens c + 1\<rparr>)"
| finish: "i < length envs \<Longrightarrow> fo_state c ! i = Running \<Longrightarrow>
     execute (envs ! i) (fo_worlds c (ec_name (envs ! i))) = (r, w) \<Longrightarrow>
     fan_step limit execute envs c
       (c\<lparr>fo_state := (fo_state c)[i := Finished], fo_tokens := fo_tokens c - 1,
          fo_results := (fo_results c)[i := Some r], fo_worlds := (fo_worlds c)(ec_name (envs ! i) := w)\<rparr>)"

inductive_cases fan_stepE: "fan_step limit execute envs c c'"

definition fan_inv ::
  "nat \<Rightarrow> (environment_config \<Rightarrow> 'w \<Rightarrow> deployment_result \<times> 'w) \<Rightarrow> environment_config list \<Rightarrow> 'w worlds \<Rightarrow> 'w fanout \<Rightarrow> bool" where
  "fan_inv limit execute envs ws c \<longleftrightarrow>
     length (fo_state c) = length envs \<and> length (fo_results c) = length envs
     \<and> fo_tokens c = count_list (fo_state c) Running \<and> fo_tokens c \<le> limit
     \<and> (\<forall>i < length envs.
          if fo_state c ! i = Finished
          then execute (envs ! i) (ws (ec_name (envs ! i))) = (the (fo_results c ! i), fo_worlds c (ec_name (envs ! i)))
            \<and> fo_results c ! i \<noteq> None
          else fo_worlds c (ec_name (envs ! i)) = ws (ec_name (envs ! i)))
     \<and> (\<forall>n. n \<notin> ec_name ` set envs \<longrightarrow> fo_worlds c n = ws n)"

lemma count_list_update:
  "i < length xs \<Longrightarrow> count_list (xs[i := y]) x + (if xs ! i = x then 1 else 0) = count_list xs x + (if y = x then 1 else 0)"
proof (induction xs arbitrary: i)
  case (Cons a xs)
  show ?case
  proof (cases i)
    case 0
    then show ?thesis by simp
  next
    case (Suc j)
    then have "j < length xs" using Cons.prems by simp
    note Cons.IH [OF this]
    then show ?thesis using Suc by (simp split: if_splits)
  qed
qed simp

lemma fan_inv_start: "fan_inv limit execute envs ws (fan_start envs ws)"
  by (auto simp: fan_inv_def fan_start_def count_list_0_iff)

lemma fan_inv_step:
  assumes "fan_step limit execute envs c c'" "fan_inv limit execute envs ws c" "distinct (map ec_name envs)"
  shows "fan_inv limit execute envs ws c'"
  using assms
proof (induction rule: fan_step.induct)
  case (acquire i c)
  then have "count_list ((fo_state c)[i := Running]) Running = count_list (fo_state c) Running + 1"
    using count_list_update [of i "fo_state c" Running Running] by (simp add: fan_inv_def)
  with acquire show ?case by (auto simp: fan_inv_def nth_list_update)
next
  case (finish i c r w)
  have len: "length (fo_state c) = length envs" using finish by (simp add: fan_inv_def)
  have cnt: "count_list ((fo_state c)[i := Finished]) Running + 1 = count_list (fo_state c) Running"
    using count_list_update [of i "fo_state c" Finished Running] finish len by simp
  have other: "ec_name (envs ! j) \<noteq> ec_name (envs ! i)" if "j < length envs" "j \<noteq> i" for j
    using that finish nth_eq_iff_index_eq [of "map ec_name envs" j i] by simp
  have "fo_worlds c (ec_name (envs ! i)) = ws (ec_name (envs ! i))"
    using finish by (simp add: fan_inv_def)
  with finish cnt other show ?case
    by (auto simp: fan_inv_def nth_list_update)
qed

definition fan_left :: "'w fanout \<Rightarrow> nat" where
  "fan_left c = 2 * count_list (fo_state c) Waiting + count_list (fo_state c) Running"

lemma fan_step_decreases:
  assumes "fan_step limit execute envs c c'" "length (fo_state c) = length envs"
  shows "fan_left c = Suc (fan_left c')"
  using assms
proof (induction rule: fan_step.induct)
  case (acquire i c)
  then show ?case
    using count_list_update [of i "fo_state c" Running Running] count_list_update [of i "fo_state c" Running Waiting]
    by (simp add: fan_left_def)
next
  case (finish i c r w)
  then show ?case
    using count_list_update [of i "fo_state c" Finished Running] count_list_update [of i "fo_state c" Finished Waiting]
    by (simp add: fan_left_def)
qed

lemma fan_progress:
  assumes inv: "fan_inv limit execute envs ws c" and "0 < limit" and "\<exists>i < length envs. fo_state c ! i \<noteq> Finished"
  shows "\<exists>c'. fan_step limit execute envs c c'"
proof (cases "\<exists>i < length envs. fo_state c ! i = Running")
  case True
  then obtain i where i: "i < length envs" "fo_state c ! i = Running" by blast
  obtain r w where "execute (envs ! i) (fo_worlds c (ec_name (envs ! i))) = (r, w)" by fastforce
  then have "fan_step limit execute envs c
      (c\<lparr>fo_state := (fo_state c)[i := Finished], fo_tokens := fo_tokens c - 1,
         fo_results := (fo_results c)[i := Some r], fo_worlds := (fo_worlds c)(ec_name (envs ! i) := w)\<rparr>)"
    by (rule fan_step.finish [OF i])
  then show ?thesis by blast
next
  case False
  then have "count_list (fo_state c) Running = 0" using inv by (auto simp: fan_inv_def count_list_0_iff in_set_conv_nth)
  then have "fo_tokens c < limit" using inv assms(2) by (simp add: fan_inv_def)
  moreover obtain i where "i < length envs" "fo_state c ! i = Waiting"
    using False assms(3) by (metis goroutine.exhaust)
  ultimately show ?thesis using fan_step.acquire by blast
qed

text \<open>
  C16 (liveness). The bounded fan-out, in every interleaving of its goroutines: at most \<open>limit\<close>
  deployments run at a time; no schedule deadlocks, and each ends after exactly two steps per
  environment; and when all have finished, the results are in the order of the environments and
  are, as are the databases, those of deploying to one environment after the other.
\<close>

theorem fan_out_bounded_and_complete:
  assumes dist: "distinct (map ec_name envs)" and limit: "0 < limit"
    and steps: "(fan_step limit (executeOnEnvironment sdk tm plan) envs ^^ n) (fan_start envs ws) c"
  shows "count_list (fo_state c) Running \<le> limit
    \<and> n \<le> 2 * length envs
    \<and> ((\<nexists>c'. fan_step limit (executeOnEnvironment sdk tm plan) envs c c') \<longrightarrow>
         n = 2 * length envs \<and> (map the (fo_results c), fo_worlds c) = runParallel sdk tm plan envs ws)"
proof -
  let ?step = "fan_step limit (executeOnEnvironment sdk tm plan) envs"
  have "fan_inv limit (executeOnEnvironment sdk tm plan) envs ws c \<and> fan_left c + n = 2 * length envs"
    using steps
  proof (induction n arbitrary: c)
    case 0
    have "count_list (replicate k Waiting) Waiting = k" "count_list (replicate k Waiting) Running = 0" for k
      by (induction k) simp_all
    then show ?case using 0 fan_inv_start [of limit _ envs ws] by (auto simp: fan_left_def fan_start_def)
  next
    case (Suc n)
    then obtain b where b: "(?step ^^ n) (fan_start envs ws) b" "?step b c" by (auto elim: relpowp_Suc_E)
    note IH = Suc.IH [OF b(1)]
    have "length (fo_state b) = length envs" using IH by (simp add: fan_inv_def)
    from fan_step_decreases [OF b(2) this] show ?case
      using IH fan_inv_step [OF b(2) _ dist] by simp
  qed
  then have inv: "fan_inv limit (executeOnEnvironment sdk tm plan) envs ws c" and left: "fan_left c + n = 2 * length envs"
    by simp_all
  have "n = 2 * length envs \<and> (map the (fo_results c), fo_worlds c) = runParallel sdk tm plan envs ws"
    if stuck: "\<nexists>c'. ?step c c'"
  proof -
    have fin: "\<forall>i < length envs. fo_state c ! i = Finished" using fan_progress [OF inv limit] stuck by blast
    then have "fan_left c = 0" using inv by (auto simp: fan_left_def fan_inv_def count_list_0_iff in_set_conv_nth)
    moreover obtain rs ws' where p: "runParallel sdk tm plan envs ws = (rs, ws')" by fastforce
    note d = runParallel_deployed [OF p]
    have at: "executeOnEnvironment sdk tm plan (envs ! i) (ws (ec_name (envs ! i)))
        = (the (fo_results c ! i), fo_worlds c (ec_name (envs ! i)))" if "i < length envs" for i
      using inv fin that by (simp add: fan_inv_def)
    have "map the (fo_results c) = rs"
      by (rule nth_equalityI) (use at deployed_nth [OF d dist] deployed_length [OF d] inv in \<open>auto simp: fan_inv_def\<close>)
    moreover have "fo_worlds c x = ws' x" for x
    proof (cases "x \<in> ec_name ` set envs")
      case True
      then obtain i where "i < length envs" "x = ec_name (envs ! i)" by (auto simp: in_set_conv_nth)
      then show ?thesis using at deployed_nth [OF d dist] by simp
    qed (use inv deployed_other [OF d] in \<open>simp add: fan_inv_def\<close>)
    ultimately show ?thesis using left p by auto
  qed
  moreover have "count_list (fo_state c) Running \<le> limit" using inv by (simp add: fan_inv_def)
  ultimately show ?thesis using left by simp
qed

theorem fan_out_bounded_and_complete_witness:
  "\<exists>c. fan_step 1 (executeOnEnvironment toy_sdk toy_time (toy_plan [])) [toy_environment ''dev'']
         (fan_start [toy_environment ''dev''] (\<lambda>_. toy_empty)) c
     \<and> count_list (fo_state c) Running \<le> 1"
proof -
  let ?c = "fan_start [toy_environment ''dev''] (\<lambda>_. toy_empty)"
  have step: "fan_step 1 (executeOnEnvironment toy_sdk toy_time (toy_plan [])) [toy_environment ''dev''] ?c
      (?c\<lparr>fo_state := (fo_state ?c)[0 := Running], fo_tokens := fo_tokens ?c + 1\<rparr>)"
    by (rule fan_step.acquire) (simp_all add: fan_start_def)
  then have "(fan_step 1 (executeOnEnvironment toy_sdk toy_time (toy_plan [])) [toy_environment ''dev''] ^^ 1) ?c
      (?c\<lparr>fo_state := (fo_state ?c)[0 := Running], fo_tokens := fo_tokens ?c + 1\<rparr>)"
    by (simp only: relpowp_1)
  from fan_out_bounded_and_complete [OF _ _ this] step show ?thesis by auto
qed

end
