(* ===== verification/Orchestration_Rollback.thy ===== *)
theory Orchestration_Rollback
  imports Orchestration_Correct
begin

text \<open>
  The automatic rollback of the coordinator: what a deployment leaves behind in each environment
  when another one failed. The last section evaluates the cases in which the report is wrong.
\<close>

section \<open>The results of a deployment\<close>

lemma result_map_other:
  "n \<notin> dr_environment ` set rs \<Longrightarrow> fmlookup (fold (\<lambda>r m. fmupd (dr_environment r) r m) rs m0) n = fmlookup m0 n"
  by (induction rs arbitrary: m0) auto

lemma result_map_nth:
  "distinct (map dr_environment rs) \<Longrightarrow> i < length rs \<Longrightarrow> fmlookup (result_map_of rs) (dr_environment (rs ! i)) = Some (rs ! i)"
  unfolding result_map_of_def
proof (induction rs arbitrary: i m0 rule: list.induct)
  case (Cons r rs)
  show ?case
  proof (cases i)
    case 0
    then show ?thesis using Cons.prems(1) result_map_other by fastforce
  next
    case (Suc j)
    have "fmlookup (fold (\<lambda>r m. fmupd (dr_environment r) r m) rs m1) (dr_environment (rs ! j)) = Some (rs ! j)" for m1
      using Cons.prems Suc
    proof (induction rs arbitrary: j i m1)
      case (Cons a rs)
      then show ?case using result_map_other [of "dr_environment a" rs] by (cases j) auto
    qed simp
    then show ?thesis using Suc by simp
  qed
qed simp

lemma result_map_None: "fmlookup (result_map_of rs) n = None \<longleftrightarrow> n \<notin> dr_environment ` set rs"
proof -
  have "fmlookup (fold (\<lambda>r m. fmupd (dr_environment r) r m) rs m0) n = None \<longleftrightarrow> n \<notin> dr_environment ` set rs \<and> fmlookup m0 n = None" for m0
    by (induction rs arbitrary: m0) auto
  then show ?thesis by (simp add: result_map_of_def)
qed

lemma result_map_mem: "fmlookup (result_map_of rs) n = Some r \<Longrightarrow> r \<in> set rs"
proof -
  have "fmlookup (fold (\<lambda>r m. fmupd (dr_environment r) r m) rs m0) n = Some r \<Longrightarrow> r \<in> set rs \<or> fmlookup m0 n = Some r" for m0
    by (induction rs arbitrary: m0) (fastforce split: if_splits)+
  from this [of fmempty] show "fmlookup (result_map_of rs) n = Some r \<Longrightarrow> r \<in> set rs" by (simp add: result_map_of_def)
qed

section \<open>One environment\<close>

lemma apply_migrations_law:
  assumes laws: "surreal_laws sdk tm dv"
  shows "apply_migrations sdk tm (Some c) ms n w = (None, k, w') \<Longrightarrow> done_all dv ''up'' ms w w'"
proof (induction ms arbitrary: n w)
  case Nil
  then show ?case by (simp add: done_all_Nil)
next
  case (Cons m ms)
  obtain st e w1 where x: "ExecuteMigration sdk tm (Some c) m ''up'' w = (st, e, w1)" by (metis prod_cases3)
  have e: "e = None" and rest: "apply_migrations sdk tm (Some c) ms (Suc n) w1 = (None, k, w')"
    using Cons.prems x by (auto split: option.splits)
  show ?case using execute_migration_step [OF laws _ x] e Cons.IH [OF rest]
    by (auto simp: direction_valid_def intro: done_all_Cons)
qed

text \<open>Every down migration succeeds.\<close>

fun downs_ok :: "('w, 'tx) sdk \<Rightarrow> 'w time_env \<Rightarrow> client option \<Rightarrow> migration list \<Rightarrow> 'w \<Rightarrow> bool" where
  "downs_ok sdk tm co [] w = True"
| "downs_ok sdk tm co (m # rest) w =
     (case ExecuteMigration sdk tm co m ''down'' w of (_, e, w') \<Rightarrow> e = None \<and> downs_ok sdk tm co rest w')"

lemma run_downs_law:
  assumes laws: "surreal_laws sdk tm dv"
  shows "downs_ok sdk tm (Some c) ms w \<Longrightarrow> done_all dv ''down'' ms w (run_downs sdk tm (Some c) ms w)"
proof (induction ms arbitrary: w)
  case Nil
  then show ?case by (simp add: done_all_Nil)
next
  case (Cons m ms)
  obtain st e w1 where x: "ExecuteMigration sdk tm (Some c) m ''down'' w = (st, e, w1)" by (metis prod_cases3)
  then show ?case using execute_migration_step [OF laws _ x] Cons
    by (auto simp: direction_valid_def intro: done_all_Cons)
qed

text \<open>What is expected of a client factory: it returns a client, and neither connecting nor the
  cleanup changes the data or the history.\<close>

definition factory_laws :: "('w, 'tx, 'd) db_view \<Rightarrow> 'w client_factory \<Rightarrow> bool" where
  "factory_laws dv factory \<longleftrightarrow>
     (\<forall>cfg w r w'. factory cfg w = (r, w') \<longrightarrow> unchanged dv w w'
        \<and> (\<forall>co cleanup. r = Inr (co, cleanup) \<longrightarrow> co \<noteq> None \<and> (\<forall>x. unchanged dv x (cleanup x))))"

lemma done_all_unchanged_right: "done_all dv dir ms w w1 \<Longrightarrow> unchanged dv w1 w' \<Longrightarrow> done_all dv dir ms w w'"
  by (simp add: done_all_def unchanged_def)

lemma execute_on_success:
  assumes laws: "surreal_laws sdk tm dv" "factory_laws dv (dp_factory plan)" and wet: "\<not> dp_dry_run plan"
    and run: "executeOnEnvironment sdk tm plan env w = (r, w')" and ok: "\<not> is_failed r"
  shows "dr_status r = ''success'' \<and> done_all dv ''up'' (dp_migrations plan) w w'"
proof -
  obtain f w1 where f: "dp_factory plan (ec_connection env) w = (f, w1)" by fastforce
  have st: "dr_status r = ''success''" using execute_on_status [of sdk tm plan env w] run ok by (auto simp: is_failed_def)
  with run wet f obtain co cleanup where co: "f = Inr (co, cleanup)"
    by (cases f) (auto simp: executeOnEnvironment_def Let_def)
  then obtain c where c: "co = Some c" and un: "unchanged dv w w1" "\<And>x. unchanged dv x (cleanup x)"
    using laws(2) f unfolding factory_laws_def by (metis not_None_eq)
  obtain n w2 where a: "apply_migrations sdk tm (Some c) (dp_migrations plan) 0 w1 = (None, n, w2)" and w': "w' = cleanup w2"
    using run wet f co c st by (auto simp: executeOnEnvironment_def Let_def split: prod.splits option.splits)
  show ?thesis using st w' done_all_unchanged_right [OF done_all_unchanged [OF un(1) apply_migrations_law [OF laws(1) a]] un(2)]
    by simp
qed

text \<open>The environment can be rolled back: the factory connects and every down migration succeeds.\<close>

definition can_undo :: "('w, 'tx) sdk \<Rightarrow> 'w time_env \<Rightarrow> 'w deployment_plan \<Rightarrow> environment_config \<Rightarrow> 'w \<Rightarrow> bool" where
  "can_undo sdk tm plan env w \<longleftrightarrow>
     (case dp_factory plan (ec_connection env) w of
        (Inl _, _) \<Rightarrow> False
      | (Inr (co, _), w1) \<Rightarrow> downs_ok sdk tm co (rev (dp_migrations plan)) w1)"

lemma undo_law:
  assumes laws: "surreal_laws sdk tm dv" "factory_laws dv (dp_factory plan)"
    and inverse: "\<forall>m \<in> set (dp_migrations plan). \<forall>d. run_script dv (mg_down m) (run_script dv (mg_up m) d) = d"
    and new: "\<forall>m \<in> set (dp_migrations plan). mg_version m \<notin> set (dv_hist dv w)"
    and up: "done_all dv ''up'' (dp_migrations plan) w w1"
    and f: "dp_factory plan (ec_connection env) w1 = (Inr (co, cleanup), w2)" and ok: "can_undo sdk tm plan env w1"
  shows "unchanged dv w (cleanup (run_downs sdk tm co (rev (dp_migrations plan)) w2))"
proof -
  let ?ms = "dp_migrations plan"
  obtain c where c: "co = Some c" and un: "unchanged dv w1 w2" "\<And>x. unchanged dv x (cleanup x)"
    using laws(2) f unfolding factory_laws_def by (metis not_None_eq)
  have "downs_ok sdk tm (Some c) (rev ?ms) w2" using ok f c by (simp add: can_undo_def)
  note down = done_all_unchanged_right [OF done_all_unchanged [OF un(1) run_downs_law [OF laws(1) this]] un(2)]
  show ?thesis using up_down_unchanged [OF inverse new up] down c by simp
qed

section \<open>The rollback\<close>

lemma rollback_other:
  "coordinator_rollback sdk tm factory ms envs results ws = (results', ws') \<Longrightarrow> n \<notin> ec_name ` set envs
    \<Longrightarrow> fmlookup results' n = fmlookup results n \<and> ws' n = ws n"
proof (induction envs arbitrary: results ws)
  case (Cons env envs)
  then show ?case by (auto split: option.splits if_splits prod.splits sum.splits)
qed simp

lemma rollback_env:
  assumes "coordinator_rollback sdk tm factory ms envs results ws = (results', ws')"
    and "distinct (map ec_name envs)" and "env \<in> set envs"
  shows "case fmlookup results (ec_name env) of
      None \<Rightarrow> fmlookup results' (ec_name env) = None \<and> ws' (ec_name env) = ws (ec_name env)
    | Some r \<Rightarrow>
        if dr_status r \<noteq> ''success'' then fmlookup results' (ec_name env) = Some r \<and> ws' (ec_name env) = ws (ec_name env)
        else (case factory (ec_connection env) (ws (ec_name env)) of
            (Inl _, w1) \<Rightarrow> fmlookup results' (ec_name env) = Some r \<and> ws' (ec_name env) = w1
          | (Inr (co, cleanup), w1) \<Rightarrow>
              fmlookup results' (ec_name env) = Some (r\<lparr>dr_status := ''rolled_back''\<rparr>)
              \<and> ws' (ec_name env) = cleanup (run_downs sdk tm co (rev ms) w1))"
  using assms
proof (induction envs arbitrary: results ws)
  case (Cons e envs)
  show ?case
  proof (cases "env = e")
    case True
    then have "ec_name env \<notin> ec_name ` set envs" using Cons.prems(2) by auto
    note other = rollback_other [OF _ this]
    show ?thesis using Cons.prems(1) True
      by (auto split: option.splits if_splits prod.splits sum.splits dest!: other)
  next
    case False
    then have mem: "env \<in> set envs" and d: "distinct (map ec_name envs)" using Cons.prems by auto
    have ne: "ec_name env \<noteq> ec_name e" using mem Cons.prems(2) by (metis distinct.simps(2) image_eqI list.map(2) list.set_map)
    have "\<exists>r1 ws1. coordinator_rollback sdk tm factory ms envs r1 ws1 = (results', ws')
        \<and> fmlookup r1 (ec_name env) = fmlookup results (ec_name env) \<and> ws1 (ec_name env) = ws (ec_name env)"
      using Cons.prems(1) ne by (auto split: option.splits if_splits prod.splits sum.splits intro!: exI)
    then obtain r1 ws1 where run: "coordinator_rollback sdk tm factory ms envs r1 ws1 = (results', ws')"
      and same: "fmlookup r1 (ec_name env) = fmlookup results (ec_name env)" "ws1 (ec_name env) = ws (ec_name env)" by blast
    show ?thesis using Cons.IH [OF run d mem] unfolding same .
  qed
qed simp

text \<open>
  C17 (safety). Automatic rollback: after a deployment that returned its results, either none of
  them is a failure, and every environment with a result has all migrations applied; or no
  environment is left deployed by oversight: one without a result is untouched, one that failed is
  as its failed deployment left it, and one that succeeded is back at the data and the history it
  had before the deployment, reported as rolled back. That holds where down statements undo up
  statements, versions were new, and the rollback could connect and run; where it could not, the
  report does not tell. An environment still reported as a success is one whose rollback could not
  connect.
\<close>

theorem automatic_rollback:
  assumes laws: "surreal_laws sdk tm dv" "factory_laws dv (dp_factory plan)"
    and inverse: "\<forall>m \<in> set (dp_migrations plan). \<forall>d. run_script dv (mg_down m) (run_script dv (mg_up m) d) = d"
    and new: "\<forall>env \<in> set (dp_environments plan). \<forall>m \<in> set (dp_migrations plan). mg_version m \<notin> set (dv_hist dv (ws (ec_name env)))"
    and names: "distinct (map ec_name (dp_environments plan))" and wet: "\<not> dp_dry_run plan"
    and run: "deploy_phase sdk tm fo fdiv fixed2 pauses name True plan ws = (Inr m, ws')"
    and env: "env \<in> set (dp_environments plan)"
  shows "case fmlookup m (ec_name env) of
      None \<Rightarrow> ws' (ec_name env) = ws (ec_name env)
    | Some r \<Rightarrow>
        (let w = ws (ec_name env); w1 = snd (executeOnEnvironment sdk tm plan env w); w2 = ws' (ec_name env) in
         if \<exists>n r. fmlookup m n = Some r \<and> is_failed r
         then is_failed r \<and> w2 = w1
            \<or> dr_status r = ''rolled_back'' \<and> (can_undo sdk tm plan env w1 \<longrightarrow> unchanged dv w w2)
            \<or> dr_status r = ''success'' \<and> \<not> can_undo sdk tm plan env w1
         else dr_status r = ''success'' \<and> done_all dv ''up'' (dp_migrations plan) w w2)"
proof -
  let ?envs = "dp_environments plan" and ?n = "ec_name env"
  obtain s rs ws1 where dep: "DeployAll sdk tm fo fdiv fixed2 pauses s plan ws = (Inr rs, ws1)"
      and rest: "(if list_ex is_failed rs then coordinator_rollback sdk tm (dp_factory plan) (dp_migrations plan) ?envs (result_map_of rs) ws1
        else (result_map_of rs, ws1)) = (m, ws')"
    using run wet by (auto simp: deploy_phase_def Let_def split: sum.splits prod.splits if_splits)
  let ?k = "length rs"
  have d: "deployed sdk tm plan (take ?k ?envs) ws rs ws1" and k: "?k \<le> length ?envs"
    using deploy_all_deployed [OF dep] by simp_all
  have dr: "map dr_environment rs = map ec_name (take ?k ?envs)" using d by (simp add: deployed_def)
  have dk: "distinct (map ec_name (take ?k ?envs))" using names by (simp add: distinct_take flip: take_map)
  have dd: "distinct (map dr_environment rs)" using dr dk by simp
  have drs: "dr_environment ` set rs = ec_name ` set (take ?k ?envs)" using arg_cong [OF dr, of set] by simp
  have look: "fmlookup (result_map_of rs) (ec_name (?envs ! i)) = Some (rs ! i)" if "i < ?k" for i
    using result_map_nth [OF dd that] arg_cong [OF dr, of "\<lambda>l. l ! i"] that k by simp
  have failed: "(\<exists>n r. fmlookup m n = Some r \<and> is_failed r) \<longleftrightarrow> list_ex is_failed rs"
  proof
    assume "list_ex is_failed rs"
    then obtain i where i: "i < ?k" "is_failed (rs ! i)" by (auto simp: list_ex_length)
    then have "?envs ! i \<in> set ?envs" using k by simp
    note undone = rollback_env [OF _ names this]
    have "coordinator_rollback sdk tm (dp_factory plan) (dp_migrations plan) ?envs (result_map_of rs) ws1 = (m, ws')"
      using rest \<open>list_ex is_failed rs\<close> by simp
    from undone [OF this] have "fmlookup m (ec_name (?envs ! i)) = Some (rs ! i)"
      using look [OF i(1)] i(2) by (simp add: is_failed_def)
    then show "\<exists>n r. fmlookup m n = Some r \<and> is_failed r" using i(2) by blast
  qed (use rest in \<open>auto simp: list_ex_iff dest: result_map_mem split: if_splits\<close>)
  show ?thesis
  proof (cases "?n \<in> ec_name ` set (take ?k ?envs)")
    case False
    then have "fmlookup (result_map_of rs) ?n = None" using drs by (simp add: result_map_None)
    then show ?thesis using rest rollback_env [OF _ names env] deployed_other [OF d False]
      by (fastforce split: if_splits)
  next
    case True
    then obtain e where e: "e \<in> set (take ?k ?envs)" "ec_name e = ?n" by auto
    then have "e = env" using names env by (metis distinct_map in_set_takeD inj_onD)
    then obtain i where i: "i < ?k" "env = take ?k ?envs ! i" using e k by (auto simp: in_set_conv_nth)
    have x: "executeOnEnvironment sdk tm plan env (ws ?n) = (rs ! i, ws1 ?n)"
      using deployed_nth [OF d dk, of i] i k by simp
    have l: "fmlookup (result_map_of rs) ?n = Some (rs ! i)" using look [OF i(1)] i by simp
    note ok = execute_on_success [OF laws wet x]
    show ?thesis
    proof (cases "list_ex is_failed rs")
      case none: False
      then have "m = result_map_of rs" "ws' = ws1" using rest by simp_all
      then show ?thesis using none l ok i(1) failed by (auto simp: list_ex_length)
    next
      case some: True
      note undone = rollback_env [OF _ names env]
      have rb: "coordinator_rollback sdk tm (dp_factory plan) (dp_migrations plan) ?envs (result_map_of rs) ws1 = (m, ws')"
        using rest some by simp
      show ?thesis
      proof (cases "is_failed (rs ! i)")
        case True
        then show ?thesis using undone [OF rb] l x some failed by (simp add: is_failed_def)
      next
        case False
        note suc = ok [OF False]
        obtain f w2 where f: "dp_factory plan (ec_connection env) (ws1 ?n) = (f, w2)" by fastforce
        show ?thesis
        proof (cases f)
          case (Inl e)
          then show ?thesis using undone [OF rb] l x some failed suc f by (simp add: can_undo_def)
        next
          case (Inr p)
          obtain co cleanup where p: "p = (co, cleanup)" by fastforce
          have "can_undo sdk tm plan env (ws1 ?n) \<longrightarrow> unchanged dv (ws ?n) (cleanup (run_downs sdk tm co (rev (dp_migrations plan)) w2))"
            using undo_law [OF laws inverse _ conjunct2 [OF suc] f [unfolded Inr p]] new env by blast
          then show ?thesis using undone [OF rb] l x some failed suc f Inr p by (simp add: Let_def)
        qed
      qed
    qed
  qed
qed

text \<open>Production refuses the connection.\<close>

abbreviation half_plan :: "migration list \<Rightarrow> toy deployment_plan" where
  "half_plan ms \<equiv> (toy_plan ms)\<lparr>
     dp_environments := [toy_environment ''dev'', (toy_environment ''prod'')\<lparr>ec_connection := DefaultConfig\<lparr>cc_ns := ''p''\<rparr>\<rparr>],
     dp_factory := (\<lambda>cfg w. if cc_ns cfg = ''p'' then (Inl (err_new ErrConnection ''refused''), w)
                         else (Inr (Some toy_client, \<lambda>w. w), w))\<rparr>"

lemma half_deployed:
  "case deploy_phase toy_sdk toy_time sample_float_ops (\<lambda>a b. a) (\<lambda>_. []) [] ''sequential'' True
       (half_plan [toy_migration ''1'' [] []]) (\<lambda>_. toy_empty) of
     (Inl _, _) \<Rightarrow> False
   | (Inr m, ws) \<Rightarrow> map_option dr_status (fmlookup m ''dev'') = Some ''rolled_back''
       \<and> map_option dr_status (fmlookup m ''prod'') = Some ''failed''"
  "can_undo toy_sdk toy_time (half_plan [toy_migration ''1'' [] []]) (toy_environment ''dev'')
     (snd (executeOnEnvironment toy_sdk toy_time (half_plan [toy_migration ''1'' [] []]) (toy_environment ''dev'') toy_empty))"
  by code_simp+

theorem automatic_rollback_witness:
  "case deploy_phase toy_sdk toy_time sample_float_ops (\<lambda>a b. a) (\<lambda>_. []) [] ''sequential'' True
       (half_plan [toy_migration ''1'' [] []]) (\<lambda>_. toy_empty) of
     (Inl _, _) \<Rightarrow> False | (Inr m, ws) \<Rightarrow> unchanged toy_view toy_empty (ws ''dev'')"
proof -
  let ?plan = "half_plan [toy_migration ''1'' [] []]"
  obtain m ws where run: "deploy_phase toy_sdk toy_time sample_float_ops (\<lambda>a b. a) (\<lambda>_. []) [] ''sequential'' True
      ?plan (\<lambda>_. toy_empty) = (Inr m, ws)"
    and st: "map_option dr_status (fmlookup m ''dev'') = Some ''rolled_back''" "map_option dr_status (fmlookup m ''prod'') = Some ''failed''"
    using half_deployed(1) by (auto split: sum.splits prod.splits)
  obtain rd rp where m: "fmlookup m ''dev'' = Some rd" "fmlookup m ''prod'' = Some rp" "dr_status rd = ''rolled_back''" "is_failed rp"
    using st by (auto simp: is_failed_def)
  have f: "factory_laws toy_view (dp_factory ?plan)" by (auto simp: factory_laws_def split: if_splits)
  have inv: "\<forall>m \<in> set (dp_migrations ?plan). \<forall>d. run_script toy_view (mg_down m) (run_script toy_view (mg_up m) d) = d"
    and new: "\<forall>env \<in> set (dp_environments ?plan). \<forall>m \<in> set (dp_migrations ?plan).
        mg_version m \<notin> set (dv_hist toy_view ((\<lambda>_. toy_empty) (ec_name env)))"
    and names: "distinct (map ec_name (dp_environments ?plan))" and wet: "\<not> dp_dry_run ?plan"
    and env: "toy_environment ''dev'' \<in> set (dp_environments ?plan)"
    by (simp_all add: toy_view_def)
  have "\<exists>n r. fmlookup m n = Some r \<and> is_failed r" "\<not> is_failed rd" using m by (auto simp: is_failed_def)
  then have "unchanged toy_view toy_empty (ws ''dev'')"
    using automatic_rollback [OF toy_laws f inv new names wet run env] m(1,3) half_deployed(2) by (simp add: Let_def)
  then show ?thesis unfolding run by (simp only: sum.case prod.case)
qed

section \<open>Where the report is wrong\<close>

text \<open>The errors of the down migrations are dropped: an environment counts as rolled back although
  nothing has been undone.\<close>

lemma rolled_back_without_effect:
  "case deploy_phase toy_sdk toy_time sample_float_ops (\<lambda>a b. a) (\<lambda>_. []) [] ''sequential'' True
       (half_plan [toy_migration ''1'' [''a''] [[]]]) (\<lambda>_. toy_empty) of
     (Inl _, _) \<Rightarrow> False
   | (Inr m, ws) \<Rightarrow> map_option dr_status (fmlookup m ''dev'') = Some ''rolled_back'' \<and> ty_data (ws ''dev'') = [''a'']"
  by code_simp

text \<open>The rollback leaves out the environment that failed, which keeps the migrations it had applied
  before the failing one.\<close>

lemma failed_environment_keeps_migrations:
  "case deploy_phase toy_sdk toy_time sample_float_ops (\<lambda>a b. a) (\<lambda>_. []) [] ''sequential'' True
       (toy_plan [toy_migration ''1'' [''a''] [''undo a''], toy_broken]) (\<lambda>_. toy_empty) of
     (Inl _, _) \<Rightarrow> False
   | (Inr m, ws) \<Rightarrow> map_option dr_status (fmlookup m ''dev'') = Some ''failed''
       \<and> ty_data (ws ''dev'') = [''a''] \<and> ty_hist (ws ''dev'') = [''1'']"
  by code_simp

text \<open>A percentage that is not a number passes the range check of the canary strategy.\<close>

lemma canary_accepts_nan: "canary_percentage NaN plan = NaN \<and> \<not> (fl_less NaN (Fin 1) \<or> fl_less (Fin 50) NaN)"
  by (simp add: canary_percentage_def)

end
