(* ===== verification/Schema_Model.thy ===== *)
theory Schema_Model
  imports Surql_Errors Record_Ids
begin

text \<open>
  Package \<open>schema\<close>, the definitions and their SurrealQL: fields (\<open>fields.go\<close>), indexes, events and
  tables (\<open>table.go\<close>), edges (\<open>edge.go\<close>), access rules (\<open>access.go\<close>), buckets (\<open>bucket.go\<close>),
  analyzers (\<open>analyzer.go\<close>), the scripts composed of them (\<open>sql.go\<close>) and the registry
  (\<open>registry.go\<close>). The enumerations of the package are Go strings, so any text can occur and the
  \<open>IsValid\<close> predicates are checks. A functional option is a function on the record; a nil map of
  permissions and an empty one are the same finite map except where the code tells them apart.
\<close>

section \<open>Fields\<close>

type_synonym field_type = string

definition field_types :: "field_type list" where
  "field_types = [''string'', ''int'', ''float'', ''bool'', ''datetime'', ''duration'', ''decimal'', ''number'',
     ''object'', ''array'', ''record'', ''geometry'', ''any'', ''file'', ''bytes'']"

definition FieldType_IsValid :: "field_type \<Rightarrow> bool" where
  "FieldType_IsValid t \<longleftrightarrow> t \<in> set field_types"

type_synonym permissions = "(string, string) fmap"

record field_definition =
  fd_name :: string
  fd_type :: field_type
  fd_assertion :: string
  fd_default :: string
  fd_value :: string
  fd_permissions :: permissions
  fd_readonly :: bool
  fd_flexible :: bool

type_synonym field_option = "field_definition \<Rightarrow> field_definition"

definition NewField :: "string \<Rightarrow> field_type \<Rightarrow> field_option list \<Rightarrow> field_definition" where
  "NewField name ft opts =
     fold (\<lambda>opt. opt) opts
       \<lparr>fd_name = name, fd_type = ft, fd_assertion = [], fd_default = [], fd_value = [], fd_permissions = fmempty,
        fd_readonly = False, fd_flexible = False\<rparr>"

definition WithAssertion :: "string \<Rightarrow> field_option" where "WithAssertion e f = f\<lparr>fd_assertion := e\<rparr>"
definition WithDefault :: "string \<Rightarrow> field_option" where "WithDefault e f = f\<lparr>fd_default := e\<rparr>"
definition WithValue :: "string \<Rightarrow> field_option" where "WithValue e f = f\<lparr>fd_value := e\<rparr>"
definition WithFieldPermissions :: "permissions \<Rightarrow> field_option" where "WithFieldPermissions p f = f\<lparr>fd_permissions := p\<rparr>"
definition WithReadOnly :: "bool \<Rightarrow> field_option" where "WithReadOnly b f = f\<lparr>fd_readonly := b\<rparr>"
definition WithFlexible :: "bool \<Rightarrow> field_option" where "WithFlexible b f = f\<lparr>fd_flexible := b\<rparr>"

definition RecordField :: "string \<Rightarrow> string \<Rightarrow> field_option list \<Rightarrow> field_definition" where
  "RecordField name targetTable opts =
     (let fd = NewField name ''record'' opts; tableAssert = ''$value.table = '' @ go_quote targetTable in
      if targetTable = [] then fd
      else if fd_assertion fd = [] then fd\<lparr>fd_assertion := tableAssert\<rparr>
      else fd\<lparr>fd_assertion := ''('' @ tableAssert @ '') AND ('' @ fd_assertion fd @ '')''\<rparr>)"

definition ObjectField :: "string \<Rightarrow> field_option list \<Rightarrow> field_definition" where
  "ObjectField name opts = fold (\<lambda>opt. opt) opts ((NewField name ''object'' [])\<lparr>fd_flexible := True\<rparr>)"

definition ComputedField :: "string \<Rightarrow> string \<Rightarrow> field_type \<Rightarrow> field_option list \<Rightarrow> field_definition" where
  "ComputedField name valueExpr ft opts = (NewField name ft opts)\<lparr>fd_value := valueExpr, fd_readonly := True\<rparr>"

definition field_name_part :: "string \<Rightarrow> bool" where
  "field_name_part s \<longleftrightarrow>
     (case s of [] \<Rightarrow> False | c # cs \<Rightarrow> word_char c \<and> \<not> is_digit c \<and> list_all word_char cs)"

definition validateFieldName :: "string \<Rightarrow> go_error option" where
  "validateFieldName name =
     (if name = [] then Some (err_new ErrValidation ''field name cannot be empty'')
      else
        (case find (\<lambda>part. part = [] \<or> \<not> field_name_part part) (split_on CHR ''.'' name) of
           None \<Rightarrow> None
         | Some part \<Rightarrow>
             if part = [] then Some (err_new ErrValidation (''invalid field name '' @ go_quote name @ '': empty segment''))
             else Some (err_new ErrValidation (''invalid field name '' @ go_quote name @ '': segment '' @ go_quote part
               @ '' must contain only alphanumeric characters and underscores, and cannot start with a digit''))))"

definition field_validate :: "field_definition \<Rightarrow> go_error option" where
  "field_validate f =
     (case validateFieldName (fd_name f) of
        Some e \<Rightarrow> Some e
      | None \<Rightarrow>
          if \<not> FieldType_IsValid (fd_type f) then
            Some (err_new ErrValidation (''invalid field type '' @ go_quote (fd_type f) @ '' for field '' @ go_quote (fd_name f)))
          else None)"

text \<open>An optional clause: nothing for an empty text.\<close>

definition clause :: "string \<Rightarrow> string \<Rightarrow> string" where
  "clause keyword text = (if text = [] then [] else keyword @ text)"

definition flag :: "string \<Rightarrow> bool \<Rightarrow> string" where
  "flag keyword b = (if b then keyword else [])"

definition field_toSurql :: "field_definition \<Rightarrow> string \<Rightarrow> bool \<Rightarrow> string" where
  "field_toSurql f tableName ifNotExists =
     ''DEFINE FIELD'' @ flag '' IF NOT EXISTS'' ifNotExists @ '' '' @ fd_name f @ '' ON TABLE '' @ tableName
     @ '' TYPE '' @ fd_type f
     @ clause '' ASSERT '' (fd_assertion f) @ clause '' DEFAULT '' (fd_default f) @ clause '' VALUE '' (fd_value f)
     @ flag '' READONLY'' (fd_readonly f) @ flag '' FLEXIBLE'' (fd_flexible f) @ '';''"

section \<open>Indexes\<close>

definition index_types :: "string list" where
  "index_types = [''INDEX'', ''UNIQUE'', ''SEARCH'', ''MTREE'', ''HNSW'', ''DISKANN'']"

definition mtree_distances :: "string list" where
  "mtree_distances = [''COSINE'', ''EUCLIDEAN'', ''MANHATTAN'', ''MINKOWSKI'']"

definition hnsw_distances :: "string list" where
  "hnsw_distances = [''CHEBYSHEV'', ''COSINE'', ''EUCLIDEAN'', ''HAMMING'', ''JACCARD'', ''MANHATTAN'', ''MINKOWSKI'', ''PEARSON'']"

definition diskann_distances :: "string list" where
  "diskann_distances = [''COSINE'', ''COSINE_NORMALIZED'', ''EUCLIDEAN'', ''INNER_PRODUCT'']"

definition vector_types :: "string list" where
  "vector_types = [''F64'', ''F32'', ''F16'', ''I64'', ''I32'', ''I16'', ''I8'', ''U8'']"

definition ValidForMTree :: "string \<Rightarrow> bool" where
  "ValidForMTree v \<longleftrightarrow> v \<in> {''F64'', ''F32'', ''I64'', ''I32'', ''I16''}"

definition ValidForDiskAnn :: "string \<Rightarrow> bool" where
  "ValidForDiskAnn v \<longleftrightarrow> v \<in> {''F32'', ''F16'', ''I8'', ''U8''}"

record index_definition =
  ix_name :: string
  ix_columns :: "string list"
  ix_type :: string
  ix_dimension :: int
  ix_vector :: string
  ix_distance :: string
  ix_hnsw_distance :: string
  ix_efc :: int
  ix_m :: int
  ix_diskann_distance :: string
  ix_degree :: int
  ix_lbuild :: int
  ix_alpha :: string
  ix_hashed :: bool
  ix_analyzer :: string
  ix_bm25 :: bool
  ix_highlights :: bool

definition NewIndex :: "string \<Rightarrow> string list \<Rightarrow> string \<Rightarrow> index_definition" where
  "NewIndex name columns indexType =
     \<lparr>ix_name = name, ix_columns = columns, ix_type = indexType, ix_dimension = 0, ix_vector = [], ix_distance = [],
      ix_hnsw_distance = [], ix_efc = 0, ix_m = 0, ix_diskann_distance = [], ix_degree = 0, ix_lbuild = 0, ix_alpha = [],
      ix_hashed = False, ix_analyzer = [], ix_bm25 = False, ix_highlights = False\<rparr>"

definition UniqueIndex :: "string \<Rightarrow> string list \<Rightarrow> index_definition" where
  "UniqueIndex name columns = NewIndex name columns ''UNIQUE''"

definition SearchIndex :: "string \<Rightarrow> string list \<Rightarrow> index_definition" where
  "SearchIndex name columns = NewIndex name columns ''SEARCH''"

definition BM25Index :: "string \<Rightarrow> string list \<Rightarrow> string \<Rightarrow> index_definition" where
  "BM25Index name columns analyzer = (SearchIndex name columns)\<lparr>ix_analyzer := analyzer, ix_bm25 := True\<rparr>"

definition or_default :: "string \<Rightarrow> string \<Rightarrow> string" where
  "or_default s d = (if s = [] then d else s)"

definition MTreeIndex :: "string \<Rightarrow> string \<Rightarrow> int \<Rightarrow> string \<Rightarrow> string \<Rightarrow> index_definition" where
  "MTreeIndex name column dimension distance vectorType =
     (NewIndex name [column] ''MTREE'')\<lparr>ix_dimension := dimension, ix_distance := or_default distance ''EUCLIDEAN'',
        ix_vector := or_default vectorType ''F64''\<rparr>"

definition HnswIndex :: "string \<Rightarrow> string \<Rightarrow> int \<Rightarrow> string \<Rightarrow> string \<Rightarrow> int \<Rightarrow> int \<Rightarrow> index_definition" where
  "HnswIndex name column dimension distance vectorType efc m =
     (NewIndex name [column] ''HNSW'')\<lparr>ix_dimension := dimension, ix_hnsw_distance := or_default distance ''EUCLIDEAN'',
        ix_vector := or_default vectorType ''F64'', ix_efc := efc, ix_m := m\<rparr>"

definition DiskAnnIndex :: "string \<Rightarrow> string \<Rightarrow> int \<Rightarrow> string \<Rightarrow> string \<Rightarrow> int \<Rightarrow> int \<Rightarrow> string \<Rightarrow> bool \<Rightarrow> index_definition" where
  "DiskAnnIndex name column dimension distance vectorType degree lBuild alpha hashed =
     (NewIndex name [column] ''DISKANN'')\<lparr>ix_dimension := dimension,
        ix_diskann_distance := or_default distance ''EUCLIDEAN'', ix_vector := or_default vectorType ''F32'',
        ix_degree := (if degree = 0 then 64 else degree), ix_lbuild := (if lBuild = 0 then 100 else lBuild),
        ix_alpha := or_default alpha ''1.2'', ix_hashed := hashed\<rparr>"

text \<open>The cases of the type switch in \<open>Validate\<close>. \<open>kind\<close> is the name in the messages.\<close>

definition vector_index_error :: "string \<Rightarrow> index_definition \<Rightarrow> string \<Rightarrow> string list \<Rightarrow> go_error option" where
  "vector_index_error kind i distance distances =
     (if ix_dimension i \<le> 0 then
        Some (err_new ErrValidation (kind @ '' index '' @ go_quote (ix_name i) @ '' requires a positive dimension''))
      else if distance \<noteq> [] \<and> distance \<notin> set distances then
        Some (err_new ErrValidation (kind @ '' index '' @ go_quote (ix_name i) @ '' has invalid distance '' @ go_quote distance))
      else if ix_vector i \<noteq> [] \<and> ix_vector i \<notin> set vector_types then
        Some (err_new ErrValidation (kind @ '' index '' @ go_quote (ix_name i) @ '' has invalid vector type '' @ go_quote (ix_vector i)))
      else None)"

definition mtree_error :: "index_definition \<Rightarrow> go_error option" where
  "mtree_error i =
     (case vector_index_error ''MTREE'' i (ix_distance i) mtree_distances of
        Some e \<Rightarrow> Some e
      | None \<Rightarrow>
          if ix_vector i \<noteq> [] \<and> \<not> ValidForMTree (ix_vector i) then
            Some (err_new ErrValidation (''MTREE index '' @ go_quote (ix_name i) @ '' cannot use TYPE '' @ ix_vector i
              @ '': the engine only accepts F64, F32, I64, I32, or I16 for MTREE''))
          else None)"

definition hnsw_error :: "index_definition \<Rightarrow> go_error option" where
  "hnsw_error i = vector_index_error ''HNSW'' i (ix_hnsw_distance i) hnsw_distances"

definition diskann_error :: "index_definition \<Rightarrow> go_error option" where
  "diskann_error i =
     (case vector_index_error ''DISKANN'' i (ix_diskann_distance i) diskann_distances of
        Some e \<Rightarrow> Some e
      | None \<Rightarrow>
          if ix_vector i \<noteq> [] \<and> \<not> ValidForDiskAnn (ix_vector i) then
            Some (err_new ErrValidation (''DISKANN index '' @ go_quote (ix_name i) @ '' cannot use TYPE '' @ ix_vector i
              @ '': the engine only accepts F32, F16, I8, or U8 for DISKANN''))
          else if ix_distance i \<noteq> [] \<or> ix_hnsw_distance i \<noteq> [] then
            Some (err_new ErrValidation (''DISKANN index '' @ go_quote (ix_name i)
              @ '' takes its metric through DiskAnnDistance (EUCLIDEAN, COSINE, INNER_PRODUCT, or COSINE_NORMALIZED); ''
              @ ''the engine refuses every other MTREE/HNSW metric for DISKANN''))
          else None)"

definition index_validate :: "index_definition \<Rightarrow> go_error option" where
  "index_validate i =
     (if ix_name i = [] then Some (err_new ErrValidation ''index name cannot be empty'')
      else if ix_type i \<notin> set index_types then
        Some (err_new ErrValidation (''invalid index type '' @ go_quote (ix_type i) @ '' for index '' @ go_quote (ix_name i)))
      else if ix_columns i = [] then
        Some (err_new ErrValidation (''index '' @ go_quote (ix_name i) @ '' requires at least one column''))
      else if [] \<in> set (ix_columns i) then
        Some (err_new ErrValidation (''index '' @ go_quote (ix_name i) @ '' has an empty column name''))
      else if ix_type i = ''MTREE'' then mtree_error i
      else if ix_type i = ''HNSW'' then hnsw_error i
      else if ix_type i = ''DISKANN'' then diskann_error i
      else None)"

definition first_column :: "index_definition \<Rightarrow> string" where
  "first_column i = (case ix_columns i of [] \<Rightarrow> [] | c # _ \<Rightarrow> c)"

definition mtree_clauses :: "index_definition \<Rightarrow> string" where
  "mtree_clauses i = '' COLUMNS '' @ first_column i @ '' MTREE DIMENSION '' @ show_int (ix_dimension i)
     @ clause '' DIST '' (ix_distance i) @ clause '' TYPE '' (ix_vector i)"

definition hnsw_clauses :: "index_definition \<Rightarrow> string" where
  "hnsw_clauses i = '' COLUMNS '' @ first_column i @ '' HNSW DIMENSION '' @ show_int (ix_dimension i)
     @ clause '' DIST '' (ix_hnsw_distance i) @ clause '' TYPE '' (ix_vector i)
     @ (if 0 < ix_efc i then '' EFC '' @ show_int (ix_efc i) else [])
     @ (if 0 < ix_m i then '' M '' @ show_int (ix_m i) else [])"

definition diskann_clauses :: "index_definition \<Rightarrow> string" where
  "diskann_clauses i = '' COLUMNS '' @ first_column i @ '' DISKANN DIMENSION '' @ show_int (ix_dimension i)
     @ '' DIST '' @ or_default (ix_diskann_distance i) ''EUCLIDEAN'' @ '' TYPE '' @ or_default (ix_vector i) ''F32''
     @ '' DEGREE '' @ show_int (if ix_degree i = 0 then 64 else ix_degree i)
     @ '' L_BUILD '' @ show_int (if ix_lbuild i = 0 then 100 else ix_lbuild i)
     @ '' ALPHA '' @ or_default (ix_alpha i) ''1.2'' @ flag '' HASHED_VECTOR'' (ix_hashed i)"

definition plain_clauses :: "index_definition \<Rightarrow> string" where
  "plain_clauses i = '' COLUMNS '' @ str_join '', '' (ix_columns i)
     @ (if ix_type i = ''UNIQUE'' then '' UNIQUE''
        else if ix_type i = ''SEARCH'' then
          '' FULLTEXT ANALYZER '' @ or_default (ix_analyzer i) ''ascii'' @ flag '' BM25'' (ix_bm25 i)
          @ flag '' HIGHLIGHTS'' (ix_highlights i)
        else [])"

definition index_toSurql :: "index_definition \<Rightarrow> string \<Rightarrow> bool \<Rightarrow> string" where
  "index_toSurql i tableName ifNotExists =
     ''DEFINE INDEX'' @ flag '' IF NOT EXISTS'' ifNotExists @ '' '' @ ix_name i @ '' ON TABLE '' @ tableName
     @ (if ix_type i = ''MTREE'' then mtree_clauses i
        else if ix_type i = ''HNSW'' then hnsw_clauses i
        else if ix_type i = ''DISKANN'' then diskann_clauses i
        else plain_clauses i) @ '';''"

section \<open>Events\<close>

record event_definition =
  ev_name :: string
  ev_condition :: string
  ev_action :: string

definition event_validate :: "event_definition \<Rightarrow> go_error option" where
  "event_validate e =
     (if ev_name e = [] then Some (err_new ErrValidation ''event name cannot be empty'')
      else if ev_condition e = [] then
        Some (err_new ErrValidation (''event '' @ go_quote (ev_name e) @ '' requires a non-empty condition''))
      else if ev_action e = [] then
        Some (err_new ErrValidation (''event '' @ go_quote (ev_name e) @ '' requires a non-empty action''))
      else None)"

definition event_toSurql :: "event_definition \<Rightarrow> string \<Rightarrow> bool \<Rightarrow> string" where
  "event_toSurql e tableName ifNotExists =
     ''DEFINE EVENT'' @ flag '' IF NOT EXISTS'' ifNotExists @ '' '' @ ev_name e @ '' ON TABLE '' @ tableName
     @ '' WHEN '' @ ev_condition e @ '' THEN '' @ ev_action e @ '';''"

section \<open>Tables\<close>

definition table_modes :: "string list" where
  "table_modes = [''SCHEMAFULL'', ''SCHEMALESS'', ''DROP'']"

record table_definition =
  tb_name :: string
  tb_mode :: string
  tb_fields :: "field_definition list"
  tb_indexes :: "index_definition list"
  tb_events :: "event_definition list"
  tb_permissions :: permissions
  tb_drop :: bool

type_synonym table_option = "table_definition \<Rightarrow> table_definition"

definition NewTable :: "string \<Rightarrow> table_option list \<Rightarrow> table_definition" where
  "NewTable name opts =
     fold (\<lambda>opt. opt) opts
       \<lparr>tb_name = name, tb_mode = ''SCHEMAFULL'', tb_fields = [], tb_indexes = [], tb_events = [],
        tb_permissions = fmempty, tb_drop = False\<rparr>"

definition WithMode :: "string \<Rightarrow> table_option" where "WithMode m t = t\<lparr>tb_mode := m\<rparr>"
definition WithFields :: "field_definition list \<Rightarrow> table_option" where "WithFields fs t = t\<lparr>tb_fields := tb_fields t @ fs\<rparr>"
definition WithIndexes :: "index_definition list \<Rightarrow> table_option" where "WithIndexes ixs t = t\<lparr>tb_indexes := tb_indexes t @ ixs\<rparr>"
definition WithEvents :: "event_definition list \<Rightarrow> table_option" where "WithEvents evs t = t\<lparr>tb_events := tb_events t @ evs\<rparr>"
definition WithTablePermissions :: "permissions \<Rightarrow> table_option" where "WithTablePermissions p t = t\<lparr>tb_permissions := p\<rparr>"
definition WithDrop :: "bool \<Rightarrow> table_option" where "WithDrop b t = t\<lparr>tb_drop := b\<rparr>"

text \<open>The first error among the members, in order.\<close>

fun first_invalid :: "('a \<Rightarrow> go_error option) \<Rightarrow> 'a list \<Rightarrow> go_error option" where
  "first_invalid check [] = None"
| "first_invalid check (x # xs) = (case check x of Some e \<Rightarrow> Some e | None \<Rightarrow> first_invalid check xs)"

definition or_else :: "go_error option \<Rightarrow> go_error option \<Rightarrow> go_error option" where
  "or_else a b = (case a of Some e \<Rightarrow> Some e | None \<Rightarrow> b)"

definition table_validate :: "table_definition \<Rightarrow> go_error option" where
  "table_validate t =
     (if tb_name t = [] then Some (err_new ErrValidation ''table name cannot be empty'')
      else if tb_mode t \<notin> set table_modes then
        Some (err_new ErrValidation (''invalid table mode '' @ go_quote (tb_mode t) @ '' for table '' @ go_quote (tb_name t)))
      else or_else (first_invalid field_validate (tb_fields t))
        (or_else (first_invalid index_validate (tb_indexes t)) (first_invalid event_validate (tb_events t))))"

definition table_toSurql :: "table_definition \<Rightarrow> bool \<Rightarrow> string" where
  "table_toSurql t ifNotExists =
     ''DEFINE TABLE'' @ flag '' IF NOT EXISTS'' ifNotExists @ '' '' @ tb_name t @ '' '' @ tb_mode t @ '';''"

definition sorted_keys :: "permissions \<Rightarrow> string list" where
  "sorted_keys m = sorted_list_of_fset (fmdom m)"

definition permission_statement :: "string \<Rightarrow> permissions \<Rightarrow> string \<Rightarrow> string" where
  "permission_statement tableName perms k =
     ''DEFINE FIELD PERMISSIONS FOR '' @ to_upper k @ '' ON TABLE '' @ tableName @ '' WHERE ''
     @ (case fmlookup perms k of Some e \<Rightarrow> e | None \<Rightarrow> []) @ '';''"

definition table_toSurqlStatements :: "table_definition \<Rightarrow> bool \<Rightarrow> string list" where
  "table_toSurqlStatements t ine =
     table_toSurql t ine
     # map (\<lambda>f. field_toSurql f (tb_name t) ine) (tb_fields t)
     @ map (\<lambda>i. index_toSurql i (tb_name t) ine) (tb_indexes t)
     @ map (\<lambda>e. event_toSurql e (tb_name t) ine) (tb_events t)
     @ map (permission_statement (tb_name t) (tb_permissions t)) (sorted_keys (tb_permissions t))"

section \<open>Edges\<close>

definition edge_modes :: "string list" where
  "edge_modes = [''RELATION'', ''SCHEMAFULL'', ''SCHEMALESS'']"

record edge_definition =
  ed_name :: string
  ed_mode :: string
  ed_from :: string
  ed_to :: string
  ed_fields :: "field_definition list"
  ed_indexes :: "index_definition list"
  ed_events :: "event_definition list"
  ed_permissions :: permissions

type_synonym edge_option = "edge_definition \<Rightarrow> edge_definition"

definition NewEdge :: "string \<Rightarrow> edge_option list \<Rightarrow> edge_definition" where
  "NewEdge name opts =
     fold (\<lambda>opt. opt) opts
       \<lparr>ed_name = name, ed_mode = ''RELATION'', ed_from = [], ed_to = [], ed_fields = [], ed_indexes = [], ed_events = [],
        ed_permissions = fmempty\<rparr>"

definition TypedEdge :: "string \<Rightarrow> string \<Rightarrow> string \<Rightarrow> edge_option list \<Rightarrow> edge_definition" where
  "TypedEdge name fromTable toTable opts =
     NewEdge name ([\<lambda>e. e\<lparr>ed_from := fromTable\<rparr>, \<lambda>e. e\<lparr>ed_to := toTable\<rparr>] @ opts)"

definition BidirectionalEdge :: "string \<Rightarrow> string \<Rightarrow> edge_option list \<Rightarrow> edge_definition" where
  "BidirectionalEdge name table opts = TypedEdge name table table opts"

definition endpoints_missing :: "edge_definition \<Rightarrow> go_error option" where
  "endpoints_missing e =
     (if ed_mode e = ''RELATION'' \<and> (ed_from e = [] \<or> ed_to e = []) then
        Some (err_new ErrValidation (''edge '' @ go_quote (ed_name e) @ '' with RELATION mode requires both from_table and to_table''))
      else None)"

definition edge_validate :: "edge_definition \<Rightarrow> go_error option" where
  "edge_validate e =
     (if ed_name e = [] then Some (err_new ErrValidation ''edge name cannot be empty'')
      else if ed_mode e \<notin> set edge_modes then
        Some (err_new ErrValidation (''invalid edge mode '' @ go_quote (ed_mode e) @ '' for edge '' @ go_quote (ed_name e)))
      else or_else (endpoints_missing e) (or_else (first_invalid field_validate (ed_fields e))
        (or_else (first_invalid index_validate (ed_indexes e)) (first_invalid event_validate (ed_events e)))))"

definition edge_toSurql :: "edge_definition \<Rightarrow> bool \<Rightarrow> string" where
  "edge_toSurql e ifNotExists =
     ''DEFINE TABLE'' @ flag '' IF NOT EXISTS'' ifNotExists @ '' '' @ ed_name e
     @ (if ed_mode e = ''RELATION'' then '' TYPE RELATION'' @ clause '' FROM '' (ed_from e) @ clause '' TO '' (ed_to e)
        else if ed_mode e = ''SCHEMAFULL'' then '' SCHEMAFULL''
        else if ed_mode e = ''SCHEMALESS'' then '' SCHEMALESS'' else []) @ '';''"

definition edge_toSurqlStatements :: "edge_definition \<Rightarrow> bool \<Rightarrow> string list result" where
  "edge_toSurqlStatements e ine =
     (case endpoints_missing e of
        Some err \<Rightarrow> Inl err
      | None \<Rightarrow>
          Inr (edge_toSurql e ine
            # map (\<lambda>f. field_toSurql f (ed_name e) ine) (ed_fields e)
            @ map (\<lambda>i. index_toSurql i (ed_name e) ine) (ed_indexes e)
            @ map (\<lambda>ev. event_toSurql ev (ed_name e) ine) (ed_events e)
            @ map (permission_statement (ed_name e) (ed_permissions e)) (sorted_keys (ed_permissions e))))"

end
