(* ===== verification/Schema_Generate.thy ===== *)
theory Schema_Generate
  imports Schema_Model
begin

text \<open>
  The other definitions of package \<open>schema\<close> and what composes them: access rules (\<open>access.go\<close>), buckets
  (\<open>bucket.go\<close>), analyzers (\<open>analyzer.go\<close>), the schema scripts (\<open>sql.go\<close>) and the registry
  (\<open>registry.go\<close>).
\<close>

section \<open>Access\<close>

record jwt_config =
  jwt_algorithm :: string
  jwt_key :: string
  jwt_url :: string
  jwt_issuer :: string

record record_access_config =
  ra_signup :: string
  ra_signin :: string

record access_definition =
  ac_name :: string
  ac_type :: string
  ac_jwt :: "jwt_config option"
  ac_record :: "record_access_config option"
  ac_session :: string
  ac_token :: string

type_synonym access_option = "access_definition \<Rightarrow> access_definition"

definition AccessType_IsValid :: "string \<Rightarrow> bool" where
  "AccessType_IsValid t \<longleftrightarrow> t = ''JWT'' \<or> t = ''RECORD''"

definition NewAccess :: "string \<Rightarrow> string \<Rightarrow> access_option list \<Rightarrow> access_definition" where
  "NewAccess name accessType opts =
     fold (\<lambda>opt. opt) opts
       \<lparr>ac_name = name, ac_type = accessType, ac_jwt = None, ac_record = None, ac_session = [], ac_token = []\<rparr>"

definition JwtAccess :: "string \<Rightarrow> jwt_config \<Rightarrow> access_option list \<Rightarrow> access_definition" where
  "JwtAccess name cfg opts =
     (let cfg = (if jwt_algorithm cfg = [] then cfg\<lparr>jwt_algorithm := ''HS256''\<rparr> else cfg) in
      NewAccess name ''JWT'' ((\<lambda>a. a\<lparr>ac_jwt := Some cfg\<rparr>) # opts))"

definition RecordAccess :: "string \<Rightarrow> record_access_config \<Rightarrow> access_option list \<Rightarrow> access_definition" where
  "RecordAccess name cfg opts = NewAccess name ''RECORD'' ((\<lambda>a. a\<lparr>ac_record := Some cfg\<rparr>) # opts)"

definition access_validate :: "access_definition \<Rightarrow> go_error option" where
  "access_validate a =
     (if ac_name a = [] then Some (err_new ErrValidation ''access name cannot be empty'')
      else if \<not> AccessType_IsValid (ac_type a) then
        Some (err_new ErrValidation (''invalid access type '' @ go_quote (ac_type a) @ '' for access '' @ go_quote (ac_name a)))
      else if ac_type a = ''JWT'' \<and> ac_jwt a = None then
        Some (err_new ErrValidation (''JWT access '' @ go_quote (ac_name a) @ '' requires a JWT config''))
      else if ac_type a = ''RECORD'' \<and> ac_record a = None then
        Some (err_new ErrValidation (''RECORD access '' @ go_quote (ac_name a) @ '' requires a record config''))
      else None)"

text \<open>\<open>quoted_clause\<close> writes \<open>KEYWORD 'text'\<close>, \<open>paren_clause\<close> writes \<open>KEYWORD (text)\<close>.\<close>

definition quoted_clause :: "string \<Rightarrow> string \<Rightarrow> string" where
  "quoted_clause keyword text =
     (if text = [] then [] else keyword @ '' '' @ [CHR 0x27] @ text @ [CHR 0x27])"

definition paren_clause :: "string \<Rightarrow> string \<Rightarrow> string" where
  "paren_clause keyword text = (if text = [] then [] else keyword @ '' ('' @ text @ '')'')"

definition access_body :: "access_definition \<Rightarrow> string" where
  "access_body a =
     (case ac_jwt a of
        Some j \<Rightarrow>
          if ac_type a = ''JWT'' then
            '' ALGORITHM '' @ or_default (jwt_algorithm j) ''HS256'' @ quoted_clause '' KEY'' (jwt_key j)
            @ quoted_clause '' URL'' (jwt_url j) @ quoted_clause '' WITH ISSUER'' (jwt_issuer j)
          else []
      | None \<Rightarrow> [])
     @ (case ac_record a of
          Some r \<Rightarrow>
            if ac_type a = ''RECORD'' then paren_clause '' SIGNUP'' (ra_signup r) @ paren_clause '' SIGNIN'' (ra_signin r)
            else []
        | None \<Rightarrow> [])"

definition access_toSurql :: "access_definition \<Rightarrow> string" where
  "access_toSurql a =
     ''DEFINE ACCESS '' @ ac_name a @ '' ON DATABASE TYPE '' @ ac_type a @ access_body a
     @ (if ac_session a \<noteq> [] \<or> ac_token a \<noteq> [] then
          '' DURATION '' @ str_join '', ''
            ((if ac_session a \<noteq> [] then [''FOR SESSION '' @ ac_session a] else [])
             @ (if ac_token a \<noteq> [] then [''FOR TOKEN '' @ ac_token a] else []))
        else []) @ '';''"

section \<open>Buckets\<close>

record bucket_definition =
  bk_name :: string
  bk_backend :: string
  bk_readonly :: bool
  bk_permissions :: permissions
  bk_comment :: string

type_synonym bucket_option = "bucket_definition \<Rightarrow> bucket_definition"

definition NewBucket :: "string \<Rightarrow> string \<Rightarrow> bucket_option list \<Rightarrow> bucket_definition" where
  "NewBucket name backend opts =
     fold (\<lambda>opt. opt) opts
       \<lparr>bk_name = name, bk_backend = backend, bk_readonly = False, bk_permissions = fmempty, bk_comment = []\<rparr>"

definition MemoryBucket :: "string \<Rightarrow> bucket_option list \<Rightarrow> bucket_definition" where
  "MemoryBucket name opts = NewBucket name ''memory'' opts"

definition FileBucket :: "string \<Rightarrow> string \<Rightarrow> bucket_option list \<Rightarrow> bucket_definition" where
  "FileBucket name path opts = NewBucket name (''file:'' @ path) opts"

definition S3Bucket :: "string \<Rightarrow> string \<Rightarrow> bucket_option list \<Rightarrow> bucket_definition" where
  "S3Bucket name location opts = NewBucket name (''s3://'' @ location) opts"

definition bucket_validate :: "bucket_definition \<Rightarrow> go_error option" where
  "bucket_validate b =
     (if bk_name b = [] then Some (err_new ErrValidation ''bucket name cannot be empty'')
      else if \<not> field_name_part (bk_name b) then
        Some (err_new ErrValidation (''invalid bucket name '' @ go_quote (bk_name b)
          @ '': must contain only alphanumeric characters and underscores, and cannot start with a digit''))
      else if trim_space (bk_backend b) = [] then
        Some (err_new ErrValidation (''bucket '' @ go_quote (bk_name b) @ '' requires a non-empty backend''))
      else None)"

definition permissionsClause :: "permissions \<Rightarrow> string" where
  "permissionsClause perms =
     (let ks = sorted_keys perms;
          blanket = (if ks = [''*''] then map_option (\<lambda>e. to_upper (trim_space e)) (fmlookup perms ''*'') else None) in
      if ks = [] then []
      else if blanket = Some ''FULL'' then ''PERMISSIONS FULL''
      else if blanket = Some ''NONE'' then ''PERMISSIONS NONE''
      else ''PERMISSIONS '' @ str_join '' ''
        (map (\<lambda>k. ''FOR '' @ to_lower k @ '' WHERE '' @ (case fmlookup perms k of Some e \<Rightarrow> e | None \<Rightarrow> [])) ks))"

datatype bucket_define_mode = DefinePlain | DefineIfNotExists | DefineOverwrite

definition double_quoted :: "string \<Rightarrow> string \<Rightarrow> string" where
  "double_quoted keyword text = keyword @ '' '' @ [CHR 0x22] @ text @ [CHR 0x22]"

definition bucket_toSurql :: "bucket_definition \<Rightarrow> bucket_define_mode \<Rightarrow> string" where
  "bucket_toSurql b mode =
     ''DEFINE BUCKET''
     @ (case mode of DefinePlain \<Rightarrow> [] | DefineIfNotExists \<Rightarrow> '' IF NOT EXISTS'' | DefineOverwrite \<Rightarrow> '' OVERWRITE'')
     @ '' '' @ bk_name b @ double_quoted '' BACKEND'' (bk_backend b) @ flag '' READONLY'' (bk_readonly b)
     @ clause '' '' (permissionsClause (bk_permissions b))
     @ (if bk_comment b = [] then [] else double_quoted '' COMMENT'' (bk_comment b)) @ '';''"

definition bucket_toRemoveSurql :: "bucket_definition \<Rightarrow> string" where
  "bucket_toRemoveSurql b = ''REMOVE BUCKET '' @ bk_name b @ '';''"

text \<open>A nil pointer or nil map of the change is None.\<close>

record alter_bucket_change =
  ab_readonly :: "bool option"
  ab_backend :: "string option"
  ab_drop_backend :: bool
  ab_permissions :: "permissions option"
  ab_comment :: "string option"
  ab_drop_comment :: bool

definition AlterBucketSurql :: "string \<Rightarrow> alter_bucket_change \<Rightarrow> bool \<Rightarrow> string" where
  "AlterBucketSurql name change ifExists =
     ''ALTER BUCKET'' @ flag '' IF EXISTS'' ifExists @ '' '' @ name
     @ (case ab_readonly change of None \<Rightarrow> [] | Some True \<Rightarrow> '' READONLY'' | Some False \<Rightarrow> '' DROP READONLY'')
     @ (if ab_drop_backend change then '' DROP BACKEND''
        else (case ab_backend change of None \<Rightarrow> [] | Some b \<Rightarrow> double_quoted '' BACKEND'' b))
     @ (case ab_permissions change of None \<Rightarrow> [] | Some p \<Rightarrow> clause '' '' (permissionsClause p))
     @ (if ab_drop_comment change then '' DROP COMMENT''
        else (case ab_comment change of None \<Rightarrow> [] | Some c \<Rightarrow> double_quoted '' COMMENT'' c)) @ '';''"

section \<open>Analyzers\<close>

type_synonym tokenizer = string

definition Tokenizer_IsValid :: "tokenizer \<Rightarrow> bool" where
  "Tokenizer_IsValid t \<longleftrightarrow> t \<in> {''blank'', ''camel'', ''class'', ''punct''}"

record token_filter =
  tf_kind :: string
  tf_min :: int
  tf_max :: int
  tf_language :: string

definition plain_filter :: "string \<Rightarrow> token_filter" where
  "plain_filter kind = \<lparr>tf_kind = kind, tf_min = 0, tf_max = 0, tf_language = []\<rparr>"

definition EdgeNgram :: "int \<Rightarrow> int \<Rightarrow> token_filter" where
  "EdgeNgram minLen maxLen = (plain_filter ''edgengram'')\<lparr>tf_min := minLen, tf_max := maxLen\<rparr>"

definition Ngram :: "int \<Rightarrow> int \<Rightarrow> token_filter" where
  "Ngram minLen maxLen = (plain_filter ''ngram'')\<lparr>tf_min := minLen, tf_max := maxLen\<rparr>"

definition Snowball :: "string \<Rightarrow> token_filter" where
  "Snowball language = (plain_filter ''snowball'')\<lparr>tf_language := language\<rparr>"

definition filter_toSurql :: "token_filter \<Rightarrow> string" where
  "filter_toSurql f =
     (if tf_kind f = ''edgengram'' then ''edgengram('' @ show_int (tf_min f) @ '','' @ show_int (tf_max f) @ '')''
      else if tf_kind f = ''ngram'' then ''ngram('' @ show_int (tf_min f) @ '','' @ show_int (tf_max f) @ '')''
      else if tf_kind f = ''snowball'' then ''snowball('' @ tf_language f @ '')''
      else tf_kind f)"

record analyzer_definition =
  an_name :: string
  an_tokenizers :: "tokenizer list"
  an_filters :: "token_filter list"

type_synonym analyzer_option = "analyzer_definition \<Rightarrow> analyzer_definition"

definition WithTokenizers :: "tokenizer list \<Rightarrow> analyzer_option" where
  "WithTokenizers ts a = a\<lparr>an_tokenizers := an_tokenizers a @ ts\<rparr>"

definition WithFilters :: "token_filter list \<Rightarrow> analyzer_option" where
  "WithFilters fs a = a\<lparr>an_filters := an_filters a @ fs\<rparr>"

definition Analyzer :: "string \<Rightarrow> analyzer_option list \<Rightarrow> analyzer_definition" where
  "Analyzer name opts = fold (\<lambda>opt. opt) opts \<lparr>an_name = name, an_tokenizers = [], an_filters = []\<rparr>"

definition StandardAnalyzer :: "string \<Rightarrow> analyzer_option list \<Rightarrow> analyzer_definition" where
  "StandardAnalyzer name opts =
     Analyzer name ([WithTokenizers [''class''], WithFilters [plain_filter ''lowercase'', plain_filter ''ascii'']] @ opts)"

definition analyzer_validate :: "analyzer_definition \<Rightarrow> go_error option" where
  "analyzer_validate a = (if an_name a = [] then Some (err_new ErrValidation ''analyzer name cannot be empty'') else None)"

definition analyzer_toSurql :: "analyzer_definition \<Rightarrow> bool \<Rightarrow> string" where
  "analyzer_toSurql a ifNotExists =
     ''DEFINE ANALYZER'' @ flag '' IF NOT EXISTS'' ifNotExists @ '' '' @ an_name a
     @ (if an_tokenizers a = [] then [] else '' TOKENIZERS '' @ str_join '','' (an_tokenizers a))
     @ (if an_filters a = [] then [] else '' FILTERS '' @ str_join '','' (map filter_toSurql (an_filters a))) @ '';''"

section \<open>Scripts\<close>

definition GenerateBucketSQL :: "bucket_definition \<Rightarrow> bool \<Rightarrow> string list result" where
  "GenerateBucketSQL b ine =
     (case bucket_validate b of
        Some e \<Rightarrow> Inl e
      | None \<Rightarrow> Inr [bucket_toSurql b (if ine then DefineIfNotExists else DefinePlain)])"

definition GenerateAnalyzerSQL :: "analyzer_definition \<Rightarrow> bool \<Rightarrow> string list result" where
  "GenerateAnalyzerSQL a ine =
     (case analyzer_validate a of Some e \<Rightarrow> Inl e | None \<Rightarrow> Inr [analyzer_toSurql a ine])"

text \<open>One loop of the script: the statements of each definition, followed by an empty line; the
  first error is wrapped and returned.\<close>

fun script_part :: "string \<Rightarrow> ('a \<Rightarrow> string) \<Rightarrow> ('a \<Rightarrow> string list result) \<Rightarrow> 'a list \<Rightarrow> string list result" where
  "script_part kind name_of gen [] = Inr []"
| "script_part kind name_of gen (x # xs) =
     (case gen x of
        Inl e \<Rightarrow> Inl (err_wrap ErrValidation (''failed to generate SQL for '' @ kind @ '' '' @ go_quote (name_of x)) e)
      | Inr stmts \<Rightarrow> rbind (script_part kind name_of gen xs) (\<lambda>rest. Inr (stmts @ [] # rest)))"

definition trim_newlines :: "string \<Rightarrow> string" where
  "trim_newlines s = rev (dropWhile (\<lambda>c. c = CHR 0x0A) (rev s))"

definition generateSchemaScript ::
  "bucket_definition list \<Rightarrow> analyzer_definition list \<Rightarrow> table_definition list \<Rightarrow> edge_definition list \<Rightarrow> bool \<Rightarrow> string result" where
  "generateSchemaScript buckets analyzers tables edges ine =
     (if buckets = [] \<and> analyzers = [] \<and> tables = [] \<and> edges = [] then Inr []
      else
        rbind (script_part ''bucket'' bk_name (\<lambda>b. GenerateBucketSQL b ine) buckets) (\<lambda>s1.
        rbind (script_part ''analyzer'' an_name (\<lambda>a. GenerateAnalyzerSQL a ine) analyzers) (\<lambda>s2.
        rbind (script_part ''table'' tb_name (\<lambda>t. Inr (table_toSurqlStatements t ine)) tables) (\<lambda>s3.
        rbind (script_part ''edge'' ed_name (\<lambda>e. edge_toSurqlStatements e ine) edges) (\<lambda>s4.
          Inr (trim_newlines (str_join [CHR 0x0A] (s1 @ s2 @ s3 @ s4))))))))"

section \<open>The registry\<close>

record schema_registry =
  sr_tables :: "(string, table_definition) fmap"
  sr_edges :: "(string, edge_definition) fmap"
  sr_buckets :: "(string, bucket_definition) fmap"

definition NewSchemaRegistry :: schema_registry where
  "NewSchemaRegistry = \<lparr>sr_tables = fmempty, sr_edges = fmempty, sr_buckets = fmempty\<rparr>"

definition empty_name_error :: "string \<Rightarrow> go_error" where
  "empty_name_error kind = err_new ErrValidation (''cannot register '' @ kind @ '' with empty name'')"

definition RegisterTable :: "table_definition \<Rightarrow> schema_registry \<Rightarrow> go_error option \<times> schema_registry" where
  "RegisterTable t r =
     (if tb_name t = [] then (Some (empty_name_error ''table''), r)
      else (None, r\<lparr>sr_tables := fmupd (tb_name t) t (sr_tables r)\<rparr>))"

definition RegisterEdge :: "edge_definition \<Rightarrow> schema_registry \<Rightarrow> go_error option \<times> schema_registry" where
  "RegisterEdge e r =
     (if ed_name e = [] then (Some (empty_name_error ''edge''), r)
      else (None, r\<lparr>sr_edges := fmupd (ed_name e) e (sr_edges r)\<rparr>))"

definition RegisterBucket :: "bucket_definition \<Rightarrow> schema_registry \<Rightarrow> go_error option \<times> schema_registry" where
  "RegisterBucket b r =
     (if bk_name b = [] then (Some (empty_name_error ''bucket''), r)
      else (None, r\<lparr>sr_buckets := fmupd (bk_name b) b (sr_buckets r)\<rparr>))"

definition sorted_names :: "(string, 'a) fmap \<Rightarrow> string list" where
  "sorted_names m = sorted_list_of_fset (fmdom m)"

definition sorted_values :: "(string, 'a) fmap \<Rightarrow> 'a list" where
  "sorted_values m = List.map_filter (fmlookup m) (sorted_names m)"

definition registry_clear :: "schema_registry \<Rightarrow> schema_registry" where
  "registry_clear r = NewSchemaRegistry"

definition GenerateSchemaSQL :: "schema_registry option \<Rightarrow> bool \<Rightarrow> string result" where
  "GenerateSchemaSQL r ine =
     (case r of
        None \<Rightarrow> Inr []
      | Some r \<Rightarrow>
          generateSchemaScript (sorted_values (sr_buckets r)) [] (sorted_values (sr_tables r)) (sorted_values (sr_edges r)) ine)"

end
