(* ===== verification/Schema_Diff.thy ===== *)
theory Schema_Diff
  imports Schema_Generate Go_Regexp
begin

text \<open>
  The diff engine of package \<open>migration\<close> (\<open>diff.go\<close>): from the schema in the code and the schema of the
  database to the list of changes, each with the SurrealQL that makes it and the SurrealQL that takes
  it back. Maps built from slices keep the last definition of a name, as \<open>by_name\<close> does. The
  provenance of a snapshot (version, time, description, access rules) plays no part and is left out.
\<close>

section \<open>Diffs\<close>

datatype diff_operation =
    AddTable | DropTable | AddField | DropField | ModifyField | AddIndex | DropIndex
  | AddEvent | DropEvent | ModifyPermissions | AddBucket | DropBucket | ModifyBucket

record schema_diff =
  sd_op :: diff_operation
  sd_table :: string
  sd_field :: string
  sd_index :: string
  sd_event :: string
  sd_bucket :: string
  sd_description :: string
  sd_forward :: string
  sd_backward :: string
  sd_details :: "(string \<times> string) list"

definition diff_on :: "diff_operation \<Rightarrow> string \<Rightarrow> string \<Rightarrow> string \<Rightarrow> string \<Rightarrow> schema_diff" where
  "diff_on op table descr forward backward =
     \<lparr>sd_op = op, sd_table = table, sd_field = [], sd_index = [], sd_event = [], sd_bucket = [],
      sd_description = descr, sd_forward = forward, sd_backward = backward, sd_details = []\<rparr>"

record schema_snapshot =
  ss_tables :: "table_definition list"
  ss_edges :: "edge_definition list"
  ss_buckets :: "bucket_definition list"

section \<open>What may be interpolated\<close>

definition identifier_re :: regex where
  "identifier_re = Seq (Sat (\<lambda>c. word_char c \<and> \<not> is_digit c)) (Star (Sat word_char))"

definition quoted_re :: regex where
  "quoted_re =
     Seqs [Chr (CHR 0x27),
       Star (Alt (Sat (\<lambda>c. c \<noteq> CHR 0x27 \<and> c \<noteq> CHR 0x5C)) (Seq (Chr (CHR 0x5C)) AnyNoNL)), Chr (CHR 0x27)]"

definition safeDefaultPattern :: regex where
  "safeDefaultPattern =
     Seq
       (foldr Alt
         [Seqs [identifier_re, Star (Seq (Str ''::'') identifier_re), Chr (CHR ''(''),
            Star (Sat (\<lambda>c. c \<noteq> CHR '';'')), Chr (CHR '')'')],
          Seqs [Opt (Chr (CHR ''-'')), Plus (Sat is_digit), Opt (Seq (Chr (CHR ''.'')) (Plus (Sat is_digit)))],
          Str ''true'', Str ''false'', Str ''NONE'', Str ''NULL'', quoted_re]
         (Seq (Chr (CHR ''$'')) identifier_re))
       AtEnd"

definition validateEventExpression :: "string \<Rightarrow> string \<Rightarrow> go_error option" where
  "validateEventExpression expr label =
     (let stripped = trim_space expr in
      if str_contains stripped ''; '' \<or> str_contains stripped '';--'' \<or> has_suffix stripped '';'' then
        Some (err_new ErrValidation (''unsafe event '' @ label @ '': '' @ go_quote expr @ '' must not contain statement separators''))
      else if str_contains stripped ''--'' then
        Some (err_new ErrValidation (''unsafe event '' @ label @ '': '' @ go_quote expr @ '' must not contain SQL comments''))
      else None)"

definition validateDefaultValue :: "string \<Rightarrow> go_error option" where
  "validateDefaultValue expr =
     (if find_anchored safeDefaultPattern (trim_space expr) = None then
        Some (err_new ErrValidation (''unsafe default value expression: '' @ go_quote expr
          @ ''; defaults must be function calls, literals, or parameter references''))
      else None)"

section \<open>Statements\<close>

definition checked_clause :: "string \<Rightarrow> string \<Rightarrow> string result" where
  "checked_clause keyword expr =
     (if expr = [] then Inr []
      else (case validateDefaultValue expr of Some e \<Rightarrow> Inl e | None \<Rightarrow> Inr (keyword @ expr)))"

definition fieldToSQL :: "string \<Rightarrow> field_definition \<Rightarrow> string result" where
  "fieldToSQL tableName f =
     rbind (checked_clause '' DEFAULT '' (fd_default f)) (\<lambda>d.
     rbind (checked_clause '' VALUE '' (fd_value f)) (\<lambda>v.
       Inr (''DEFINE FIELD '' @ fd_name f @ '' ON TABLE '' @ tableName @ '' TYPE '' @ fd_type f
         @ clause '' ASSERT '' (fd_assertion f) @ d @ v
         @ flag '' READONLY'' (fd_readonly f) @ flag '' FLEXIBLE'' (fd_flexible f) @ '';'')))"

definition dimension_error :: "string \<Rightarrow> index_definition \<Rightarrow> go_error" where
  "dimension_error kind idx =
     err_new ErrValidation (kind @ '' index '' @ go_quote (ix_name idx) @ '' must have dimension specified'')"

definition mtreeIndexToSQL :: "string \<Rightarrow> index_definition \<Rightarrow> string result" where
  "mtreeIndexToSQL tableName idx =
     (if ix_dimension idx \<le> 0 then Inl (dimension_error ''MTREE'' idx)
      else Inr (''DEFINE INDEX '' @ ix_name idx @ '' ON TABLE '' @ tableName @ mtree_clauses idx @ '';''))"

definition hnswIndexToSQL :: "string \<Rightarrow> index_definition \<Rightarrow> string result" where
  "hnswIndexToSQL tableName idx =
     (if ix_dimension idx \<le> 0 then Inl (dimension_error ''HNSW'' idx)
      else Inr (''DEFINE INDEX '' @ ix_name idx @ '' ON TABLE '' @ tableName @ hnsw_clauses idx @ '';''))"

definition diskAnnIndexToSQL :: "string \<Rightarrow> index_definition \<Rightarrow> string result" where
  "diskAnnIndexToSQL tableName idx =
     (if ix_dimension idx \<le> 0 then Inl (dimension_error ''DISKANN'' idx)
      else Inr (index_toSurql idx tableName False))"

definition indexToSQL :: "string \<Rightarrow> index_definition \<Rightarrow> string result" where
  "indexToSQL tableName idx =
     (if ix_type idx = ''MTREE'' then mtreeIndexToSQL tableName idx
      else if ix_type idx = ''HNSW'' then hnswIndexToSQL tableName idx
      else if ix_type idx = ''DISKANN'' then diskAnnIndexToSQL tableName idx
      else Inr (index_toSurql idx tableName False))"

definition permissionsToSQL :: "string \<Rightarrow> permissions \<Rightarrow> string" where
  "permissionsToSQL tableName perms = str_join '' '' (map (permission_statement tableName perms) (sorted_keys perms))"

definition remove_sql_of :: "string \<Rightarrow> string \<Rightarrow> string \<Rightarrow> string" where
  "remove_sql_of kind name tableName = ''REMOVE '' @ kind @ '' '' @ name @ '' ON TABLE '' @ tableName @ '';''"

section \<open>Generators\<close>

definition generateAddFieldDiff :: "string \<Rightarrow> field_definition \<Rightarrow> schema_diff result" where
  "generateAddFieldDiff tn f =
     rbind (fieldToSQL tn f) (\<lambda>sql.
       let sql' = (if fd_default f = [] then sql
                   else sql @ [CHR 0x0A] @ ''UPDATE '' @ tn @ '' SET '' @ fd_name f @ '' = '' @ fd_default f
                     @ '' WHERE '' @ fd_name f @ '' IS NONE;'') in
       case (if fd_default f = [] then None else validateDefaultValue (fd_default f)) of
         Some e \<Rightarrow> Inl e
       | None \<Rightarrow>
           Inr ((diff_on AddField tn (''Add field '' @ fd_name f @ '' to '' @ tn) sql' (remove_sql_of ''FIELD'' (fd_name f) tn))
             \<lparr>sd_field := fd_name f, sd_details := [(''type'', fd_type f)]\<rparr>))"

definition generateDropFieldDiff :: "string \<Rightarrow> field_definition \<Rightarrow> schema_diff result" where
  "generateDropFieldDiff tn f =
     rbind (fieldToSQL tn f) (\<lambda>sql.
       Inr ((diff_on DropField tn (''Drop field '' @ fd_name f @ '' from '' @ tn) (remove_sql_of ''FIELD'' (fd_name f) tn) sql)
         \<lparr>sd_field := fd_name f\<rparr>))"

definition generateModifyFieldDiff :: "string \<Rightarrow> field_definition \<Rightarrow> field_definition \<Rightarrow> schema_diff result" where
  "generateModifyFieldDiff tn oldF newF =
     rbind (fieldToSQL tn newF) (\<lambda>fwd.
     rbind (fieldToSQL tn oldF) (\<lambda>bwd.
       Inr ((diff_on ModifyField tn (''Modify field '' @ fd_name newF @ '' in '' @ tn) fwd bwd)
         \<lparr>sd_field := fd_name newF, sd_details := [(''old_type'', fd_type oldF), (''new_type'', fd_type newF)]\<rparr>)))"

definition generateAddIndexDiff :: "string \<Rightarrow> index_definition \<Rightarrow> schema_diff result" where
  "generateAddIndexDiff tn i =
     rbind (indexToSQL tn i) (\<lambda>sql.
       Inr ((diff_on AddIndex tn (''Add index '' @ ix_name i @ '' to '' @ tn) sql (remove_sql_of ''INDEX'' (ix_name i) tn))
         \<lparr>sd_index := ix_name i\<rparr>))"

definition generateDropIndexDiff :: "string \<Rightarrow> index_definition \<Rightarrow> schema_diff result" where
  "generateDropIndexDiff tn i =
     rbind (indexToSQL tn i) (\<lambda>sql.
       Inr ((diff_on DropIndex tn (''Drop index '' @ ix_name i @ '' from '' @ tn) (remove_sql_of ''INDEX'' (ix_name i) tn) sql)
         \<lparr>sd_index := ix_name i\<rparr>))"

definition event_sql :: "string \<Rightarrow> event_definition \<Rightarrow> string" where
  "event_sql tn ev = ''DEFINE EVENT '' @ ev_name ev @ '' ON TABLE '' @ tn @ '' WHEN '' @ ev_condition ev
     @ '' THEN { '' @ ev_action ev @ '' };''"

definition event_error :: "event_definition \<Rightarrow> go_error option" where
  "event_error ev =
     or_else (validateEventExpression (ev_condition ev) ''condition'') (validateEventExpression (ev_action ev) ''action'')"

definition generateAddEventDiff :: "string \<Rightarrow> event_definition \<Rightarrow> schema_diff result" where
  "generateAddEventDiff tn ev =
     (case event_error ev of
        Some e \<Rightarrow> Inl e
      | None \<Rightarrow>
          Inr ((diff_on AddEvent tn (''Add event '' @ ev_name ev @ '' to '' @ tn) (event_sql tn ev)
            (remove_sql_of ''EVENT'' (ev_name ev) tn))\<lparr>sd_event := ev_name ev\<rparr>))"

definition generateDropEventDiff :: "string \<Rightarrow> event_definition \<Rightarrow> schema_diff result" where
  "generateDropEventDiff tn ev =
     (case event_error ev of
        Some e \<Rightarrow> Inl e
      | None \<Rightarrow>
          Inr ((diff_on DropEvent tn (''Drop event '' @ ev_name ev @ '' from '' @ tn)
            (remove_sql_of ''EVENT'' (ev_name ev) tn) (event_sql tn ev))\<lparr>sd_event := ev_name ev\<rparr>))"

definition generateModifyPermissionsDiff :: "string \<Rightarrow> permissions \<Rightarrow> permissions \<Rightarrow> schema_diff" where
  "generateModifyPermissionsDiff tn perms oldPerms =
     diff_on ModifyPermissions tn (''Modify permissions for '' @ tn) (permissionsToSQL tn perms) (permissionsToSQL tn oldPerms)"

text \<open>The results of a generator over a list; the first error ends the loop.\<close>

fun collect :: "('a \<Rightarrow> 'b result) \<Rightarrow> 'a list \<Rightarrow> 'b list result" where
  "collect gen [] = Inr []"
| "collect gen (x # xs) = rbind (gen x) (\<lambda>d. rbind (collect gen xs) (\<lambda>ds. Inr (d # ds)))"

definition append_results :: "'a list result \<Rightarrow> 'a list result \<Rightarrow> 'a list result" where
  "append_results a b = rbind a (\<lambda>xs. rbind b (\<lambda>ys. Inr (xs @ ys)))"

definition children_diffs ::
  "string \<Rightarrow> field_definition list \<Rightarrow> index_definition list \<Rightarrow> event_definition list \<Rightarrow> schema_diff list result" where
  "children_diffs tn fs ixs evs =
     append_results (collect (generateAddFieldDiff tn) fs)
       (append_results (collect (generateAddIndexDiff tn) ixs) (collect (generateAddEventDiff tn) evs))"

definition mode_or_full :: "string \<Rightarrow> string" where
  "mode_or_full mode = or_default mode ''SCHEMAFULL''"

definition generateAddTableDiffs :: "table_definition \<Rightarrow> schema_diff list result" where
  "generateAddTableDiffs t =
     append_results
       (Inr [diff_on AddTable (tb_name t) (''Add table '' @ tb_name t)
          (''DEFINE TABLE '' @ tb_name t @ '' '' @ mode_or_full (tb_mode t) @ '';'') (''REMOVE TABLE '' @ tb_name t @ '';'')])
       (append_results (children_diffs (tb_name t) (tb_fields t) (tb_indexes t) (tb_events t))
         (Inr (if tb_permissions t = fmempty then []
               else [generateModifyPermissionsDiff (tb_name t) (tb_permissions t) fmempty])))"

definition generateDropTableDiff :: "table_definition \<Rightarrow> schema_diff" where
  "generateDropTableDiff t =
     diff_on DropTable (tb_name t) (''Drop table '' @ tb_name t) (''REMOVE TABLE '' @ tb_name t @ '';'')
       (''DEFINE TABLE '' @ tb_name t @ '' '' @ mode_or_full (tb_mode t) @ '';'')"

definition edge_define :: "edge_definition \<Rightarrow> string" where
  "edge_define e =
     (if ed_mode e = ''RELATION'' then
        ''DEFINE TABLE '' @ ed_name e @ '' TYPE RELATION'' @ clause '' FROM '' (ed_from e) @ clause '' TO '' (ed_to e) @ '';''
      else if ed_mode e = ''SCHEMAFULL'' then ''DEFINE TABLE '' @ ed_name e @ '' SCHEMAFULL;''
      else if ed_mode e = ''SCHEMALESS'' then ''DEFINE TABLE '' @ ed_name e @ '' SCHEMALESS;''
      else ''DEFINE TABLE '' @ ed_name e @ '' TYPE RELATION;'')"

definition generateAddEdgeDiffs :: "edge_definition \<Rightarrow> schema_diff list result" where
  "generateAddEdgeDiffs e =
     append_results
       (Inr [diff_on AddTable (ed_name e) (''Add edge '' @ ed_name e) (edge_define e) (''REMOVE TABLE '' @ ed_name e @ '';'')])
       (children_diffs (ed_name e) (ed_fields e) (ed_indexes e) (ed_events e))"

definition generateDropEdgeDiff :: "edge_definition \<Rightarrow> schema_diff" where
  "generateDropEdgeDiff e =
     diff_on DropTable (ed_name e) (''Drop edge '' @ ed_name e) (''REMOVE TABLE '' @ ed_name e @ '';'') []"

section \<open>Comparing members\<close>

definition by_name :: "('a \<Rightarrow> string) \<Rightarrow> 'a list \<Rightarrow> string \<Rightarrow> 'a option" where
  "by_name name_of xs = map_of (rev (map (\<lambda>x. (name_of x, x)) xs))"

definition only_in :: "('a \<Rightarrow> string) \<Rightarrow> 'a list \<Rightarrow> 'a list \<Rightarrow> 'a list" where
  "only_in name_of xs ys = filter (\<lambda>x. by_name name_of ys (name_of x) = None) xs"

definition common_names :: "('a \<Rightarrow> string) \<Rightarrow> 'a list \<Rightarrow> 'a list \<Rightarrow> string list" where
  "common_names name_of old new = sort (remdups (filter (\<lambda>n. by_name name_of new n \<noteq> None) (map name_of old)))"

definition common_pairs :: "('a \<Rightarrow> string) \<Rightarrow> 'a list \<Rightarrow> 'a list \<Rightarrow> ('a \<times> 'a) list" where
  "common_pairs name_of old new =
     map (\<lambda>n. (the (by_name name_of old n), the (by_name name_of new n))) (common_names name_of old new)"

definition fieldsEqual :: "field_definition \<Rightarrow> field_definition \<Rightarrow> bool" where
  "fieldsEqual a b \<longleftrightarrow>
     fd_name a = fd_name b \<and> fd_type a = fd_type b \<and> fd_assertion a = fd_assertion b \<and> fd_default a = fd_default b
     \<and> fd_value a = fd_value b \<and> fd_readonly a = fd_readonly b \<and> fd_flexible a = fd_flexible b"

definition DiffFields :: "table_definition \<Rightarrow> table_definition \<Rightarrow> schema_diff list result" where
  "DiffFields old new =
     append_results (collect (generateAddFieldDiff (tb_name new)) (only_in fd_name (tb_fields new) (tb_fields old)))
       (append_results (collect (generateDropFieldDiff (tb_name new)) (only_in fd_name (tb_fields old) (tb_fields new)))
         (collect (\<lambda>(a, b). generateModifyFieldDiff (tb_name new) a b)
           (filter (\<lambda>(a, b). \<not> fieldsEqual a b) (common_pairs fd_name (tb_fields old) (tb_fields new)))))"

definition DiffIndexes :: "table_definition \<Rightarrow> table_definition \<Rightarrow> schema_diff list result" where
  "DiffIndexes old new =
     append_results (collect (generateAddIndexDiff (tb_name new)) (only_in ix_name (tb_indexes new) (tb_indexes old)))
       (collect (generateDropIndexDiff (tb_name new)) (only_in ix_name (tb_indexes old) (tb_indexes new)))"

definition DiffEvents :: "table_definition \<Rightarrow> table_definition \<Rightarrow> schema_diff list result" where
  "DiffEvents old new =
     append_results (collect (generateAddEventDiff (tb_name new)) (only_in ev_name (tb_events new) (tb_events old)))
       (collect (generateDropEventDiff (tb_name new)) (only_in ev_name (tb_events old) (tb_events new)))"

definition DiffPermissions :: "table_definition \<Rightarrow> table_definition \<Rightarrow> schema_diff list" where
  "DiffPermissions old new =
     (if tb_permissions old = tb_permissions new then []
      else [generateModifyPermissionsDiff (tb_name new) (tb_permissions new) (tb_permissions old)])"

definition diff_members :: "table_definition \<Rightarrow> table_definition \<Rightarrow> schema_diff list result" where
  "diff_members old new =
     append_results (DiffFields old new)
       (append_results (DiffIndexes old new) (append_results (DiffEvents old new) (Inr (DiffPermissions old new))))"

definition DiffTables :: "table_definition option \<Rightarrow> table_definition option \<Rightarrow> schema_diff list result" where
  "DiffTables old new =
     (case (old, new) of
        (None, Some t) \<Rightarrow> generateAddTableDiffs t
      | (Some t, None) \<Rightarrow> Inr [generateDropTableDiff t]
      | (Some old, Some new) \<Rightarrow> diff_members old new
      | (None, None) \<Rightarrow> Inr [])"

definition edgeToTableProxy :: "edge_definition \<Rightarrow> table_definition" where
  "edgeToTableProxy e =
     \<lparr>tb_name = ed_name e, tb_mode = [], tb_fields = ed_fields e, tb_indexes = ed_indexes e, tb_events = ed_events e,
      tb_permissions = ed_permissions e, tb_drop = False\<rparr>"

definition DiffEdges :: "edge_definition option \<Rightarrow> edge_definition option \<Rightarrow> schema_diff list result" where
  "DiffEdges old new =
     (case (old, new) of
        (None, Some e) \<Rightarrow> generateAddEdgeDiffs e
      | (Some e, None) \<Rightarrow> Inr [generateDropEdgeDiff e]
      | (Some old, Some new) \<Rightarrow> diff_members (edgeToTableProxy old) (edgeToTableProxy new)
      | (None, None) \<Rightarrow> Inr [])"

section \<open>Buckets\<close>

definition bucketsEqual :: "bucket_definition \<Rightarrow> bucket_definition \<Rightarrow> bool" where
  "bucketsEqual a b \<longleftrightarrow>
     bk_name a = bk_name b \<and> bk_backend a = bk_backend b \<and> bk_readonly a = bk_readonly b
     \<and> bk_comment a = bk_comment b \<and> bk_permissions a = bk_permissions b"

definition bucket_diff :: "diff_operation \<Rightarrow> string \<Rightarrow> string \<Rightarrow> string \<Rightarrow> string \<Rightarrow> (string \<times> string) list \<Rightarrow> schema_diff" where
  "bucket_diff op name descr fwd bwd details =
     (diff_on op [] (descr @ '' bucket '' @ name) fwd bwd)\<lparr>sd_bucket := name, sd_details := details\<rparr>"

definition generateAddBucketDiff :: "bucket_definition \<Rightarrow> schema_diff" where
  "generateAddBucketDiff b =
     bucket_diff AddBucket (bk_name b) ''Add'' (bucket_toSurql b DefinePlain) (bucket_toRemoveSurql b) [(''backend'', bk_backend b)]"

definition generateDropBucketDiff :: "bucket_definition \<Rightarrow> schema_diff" where
  "generateDropBucketDiff b =
     bucket_diff DropBucket (bk_name b) ''Drop'' (bucket_toRemoveSurql b) (bucket_toSurql b DefinePlain) [(''backend'', bk_backend b)]"

definition bucketAlterChange :: "bucket_definition \<Rightarrow> bucket_definition \<Rightarrow> alter_bucket_change" where
  "bucketAlterChange src dst =
     \<lparr>ab_readonly = (if bk_readonly src = bk_readonly dst then None else Some (bk_readonly dst)),
      ab_backend = (if bk_backend src = bk_backend dst \<or> bk_backend dst = [] then None else Some (bk_backend dst)),
      ab_drop_backend = (bk_backend src \<noteq> bk_backend dst \<and> bk_backend dst = []),
      ab_permissions = (if bk_permissions src = bk_permissions dst then None else Some (bk_permissions dst)),
      ab_comment = (if bk_comment src = bk_comment dst \<or> bk_comment dst = [] then None else Some (bk_comment dst)),
      ab_drop_comment = (bk_comment src \<noteq> bk_comment dst \<and> bk_comment dst = [])\<rparr>"

definition generateModifyBucketDiff :: "bucket_definition \<Rightarrow> bucket_definition \<Rightarrow> schema_diff" where
  "generateModifyBucketDiff oldB newB =
     bucket_diff ModifyBucket (bk_name newB) ''Modify''
       (AlterBucketSurql (bk_name newB) (bucketAlterChange oldB newB) False)
       (AlterBucketSurql (bk_name newB) (bucketAlterChange newB oldB) False)
       [(''old_backend'', bk_backend oldB), (''new_backend'', bk_backend newB)]"

definition DiffBuckets :: "bucket_definition option \<Rightarrow> bucket_definition option \<Rightarrow> schema_diff list result" where
  "DiffBuckets old new =
     (case (old, new) of
        (None, Some b) \<Rightarrow> Inr [generateAddBucketDiff b]
      | (Some b, None) \<Rightarrow> Inr [generateDropBucketDiff b]
      | (Some old, Some new) \<Rightarrow> Inr (if bucketsEqual old new then [] else [generateModifyBucketDiff old new])
      | (None, None) \<Rightarrow> Inr [])"

section \<open>Whole schemas\<close>

text \<open>The three passes over one kind of object: added, dropped, and present on both sides.\<close>

definition diff_sets ::
  "('a \<Rightarrow> string) \<Rightarrow> ('a option \<Rightarrow> 'a option \<Rightarrow> schema_diff list result) \<Rightarrow> 'a list \<Rightarrow> 'a list \<Rightarrow> schema_diff list result" where
  "diff_sets name_of diff code db =
     rbind (collect (\<lambda>x. diff None (Some x)) (only_in name_of code db)) (\<lambda>a.
     rbind (collect (\<lambda>x. diff (Some x) None) (only_in name_of db code)) (\<lambda>d.
     rbind (collect (\<lambda>(a, b). diff (Some a) (Some b)) (common_pairs name_of db code)) (\<lambda>m.
       Inr (concat (a @ d @ m)))))"

definition diffBucketSets :: "bucket_definition list \<Rightarrow> bucket_definition list \<Rightarrow> schema_diff list result" where
  "diffBucketSets code db = diff_sets bk_name DiffBuckets code db"

definition DiffSchemas :: "schema_snapshot \<Rightarrow> schema_snapshot \<Rightarrow> schema_diff list result" where
  "DiffSchemas code db =
     append_results (diff_sets tb_name DiffTables (ss_tables code) (ss_tables db))
       (append_results (diff_sets ed_name DiffEdges (ss_edges code) (ss_edges db))
         (diffBucketSets (ss_buckets code) (ss_buckets db)))"

end
