(* ===== verification/Schema_Diff_Correct.thy ===== *)
theory Schema_Diff_Correct
  imports Schema_Diff
begin

text \<open>
  Correctness of the diff engine. A \<open>catalog\<close> holds the objects of a database, each with the
  statement that last defined it; \<open>apply_diff\<close> is what the forward SurrealQL of a diff does to it, and
  \<open>undo_diff\<close> what the backward one does. The locale \<open>object_changes\<close> states what the engine
  promises for one kind of object, and is interpreted for tables, edges and buckets in both directions.
\<close>

section \<open>Catalogs\<close>

datatype schema_key = TableKey string | FieldKey string string | IndexKey string string | EventKey string string
  | BucketKey string

type_synonym catalog = "schema_key \<Rightarrow> string option"

fun touches :: "schema_diff \<Rightarrow> schema_key \<Rightarrow> bool" where
  "touches d (TableKey t) \<longleftrightarrow> sd_op d \<in> {AddTable, DropTable} \<and> sd_table d = t"
| "touches d (FieldKey t f) \<longleftrightarrow>
     sd_table d = t \<and> (sd_op d = DropTable \<or> sd_op d \<in> {AddField, DropField, ModifyField} \<and> sd_field d = f)"
| "touches d (IndexKey t i) \<longleftrightarrow>
     sd_table d = t \<and> (sd_op d = DropTable \<or> sd_op d \<in> {AddIndex, DropIndex} \<and> sd_index d = i)"
| "touches d (EventKey t e) \<longleftrightarrow>
     sd_table d = t \<and> (sd_op d = DropTable \<or> sd_op d \<in> {AddEvent, DropEvent} \<and> sd_event d = e)"
| "touches d (BucketKey b) \<longleftrightarrow> sd_op d \<in> {AddBucket, DropBucket} \<and> sd_bucket d = b"

definition written :: "schema_diff \<Rightarrow> string option" where
  "written d = (if sd_op d \<in> {DropTable, DropField, DropIndex, DropEvent, DropBucket} then None else Some (sd_forward d))"

definition apply_diff :: "schema_diff \<Rightarrow> catalog \<Rightarrow> catalog" where
  "apply_diff d c = (\<lambda>k. if touches d k then written d else c k)"

fun inverse_op :: "diff_operation \<Rightarrow> diff_operation" where
  "inverse_op AddTable = DropTable" | "inverse_op DropTable = AddTable"
| "inverse_op AddField = DropField" | "inverse_op DropField = AddField" | "inverse_op ModifyField = ModifyField"
| "inverse_op AddIndex = DropIndex" | "inverse_op DropIndex = AddIndex"
| "inverse_op AddEvent = DropEvent" | "inverse_op DropEvent = AddEvent"
| "inverse_op ModifyPermissions = ModifyPermissions"
| "inverse_op AddBucket = DropBucket" | "inverse_op DropBucket = AddBucket" | "inverse_op ModifyBucket = ModifyBucket"

definition invert :: "schema_diff \<Rightarrow> schema_diff" where
  "invert d = d\<lparr>sd_op := inverse_op (sd_op d), sd_forward := sd_backward d, sd_backward := sd_forward d\<rparr>"

definition undo_diff :: "schema_diff \<Rightarrow> catalog \<Rightarrow> catalog" where
  "undo_diff d = apply_diff (invert d)"

definition apply_all :: "schema_diff list \<Rightarrow> catalog \<Rightarrow> catalog" where
  "apply_all ds = fold apply_diff ds"

text \<open>The diffs are taken back in reverse order.\<close>

definition undo_all :: "schema_diff list \<Rightarrow> catalog \<Rightarrow> catalog" where
  "undo_all ds = fold undo_diff (rev ds)"

lemma undo_all_apply: "undo_all ds = apply_all (map invert (rev ds))"
  unfolding undo_all_def apply_all_def fold_map comp_def undo_diff_def [abs_def] ..

lemma invert_simps [simp]:
  "sd_op (invert d) = inverse_op (sd_op d)" "sd_table (invert d) = sd_table d" "sd_field (invert d) = sd_field d"
  "sd_index (invert d) = sd_index d" "sd_event (invert d) = sd_event d" "sd_bucket (invert d) = sd_bucket d"
  "sd_forward (invert d) = sd_backward d"
  by (simp_all add: invert_def)

text \<open>What happens to a key does not depend on the order of the diffs that touch it when they agree.\<close>

lemma apply_all_untouched: "\<forall>d \<in> set ds. \<not> touches d k \<Longrightarrow> apply_all ds c k = c k"
  unfolding apply_all_def by (induction ds arbitrary: c) (simp_all add: apply_diff_def)

lemma apply_all_written:
  "\<exists>d \<in> set ds. touches d k \<Longrightarrow> \<forall>d \<in> set ds. touches d k \<longrightarrow> written d = v \<Longrightarrow> apply_all ds c k = v"
proof (induction ds arbitrary: c)
  case (Cons d ds)
  show ?case
  proof (cases "\<exists>d \<in> set ds. touches d k")
    case True
    then show ?thesis using Cons by (simp add: apply_all_def)
  next
    case False
    then have "apply_all ds (apply_diff d c) k = apply_diff d c k" by (simp add: apply_all_untouched)
    then show ?thesis using Cons.prems False by (simp add: apply_all_def apply_diff_def)
  qed
qed simp

lemma apply_all_append: "apply_all (xs @ ys) c = apply_all ys (apply_all xs c)"
  by (simp add: apply_all_def)

section \<open>Lists of results\<close>

lemma collect_Inr:
  "collect gen xs = Inr ds \<Longrightarrow> set ds = {d. \<exists>x \<in> set xs. gen x = Inr d} \<and> (\<forall>x \<in> set xs. \<exists>d. gen x = Inr d)"
proof (induction xs arbitrary: ds)
  case (Cons x xs)
  then obtain d ds' where "gen x = Inr d" "collect gen xs = Inr ds'" "ds = d # ds'" by (auto simp: rbind_Inr_iff)
  with Cons.IH show ?case by auto
qed simp

lemma collect_Nil_iff: "collect gen xs = Inr [] \<longleftrightarrow> xs = []"
  by (cases xs) (auto simp: rbind_Inr_iff)

lemma collect_append: "collect gen (xs @ ys) = append_results (collect gen xs) (collect gen ys)"
proof (induction xs)
  case Nil
  then show ?case by (cases "collect gen ys") (simp_all add: append_results_def)
next
  case (Cons x xs)
  then show ?case
    by (cases "gen x"; cases "collect gen xs"; cases "collect gen ys") (simp_all add: append_results_def)
qed

lemma append_results_Inr:
  "append_results a b = Inr ds \<longleftrightarrow> (\<exists>xs ys. a = Inr xs \<and> b = Inr ys \<and> ds = xs @ ys)"
  by (cases a; cases b) (auto simp: append_results_def)

lemma by_name_distinct:
  "distinct (map nm xs) \<Longrightarrow> by_name nm xs n = Some x \<longleftrightarrow> x \<in> set xs \<and> nm x = n"
  unfolding by_name_def by (subst map_of_eq_Some_iff) (auto simp: rev_map o_def simp flip: rev_map)

lemma by_name_None: "by_name nm xs n = None \<longleftrightarrow> n \<notin> nm ` set xs"
  by (auto simp: by_name_def map_of_eq_None_iff image_image)

lemma set_only_in: "set (only_in nm xs ys) = {x \<in> set xs. nm x \<notin> nm ` set ys}"
  by (auto simp: only_in_def by_name_None)

lemma set_common_pairs:
  "distinct (map nm old) \<Longrightarrow> distinct (map nm new) \<Longrightarrow>
    set (common_pairs nm old new) = {(a, b). a \<in> set old \<and> b \<in> set new \<and> nm a = nm b}"
proof -
  assume d: "distinct (map nm old)" "distinct (map nm new)"
  have "set (common_names nm old new) = nm ` set old \<inter> nm ` set new"
    by (auto simp: common_names_def by_name_None)
  moreover have "the (by_name nm old (nm a)) = a" if "a \<in> set old" for a
    using by_name_distinct [OF d(1), of "nm a" a] that by simp
  moreover have "the (by_name nm new (nm b)) = b" if "b \<in> set new" for b
    using by_name_distinct [OF d(2), of "nm b" b] that by simp
  ultimately show ?thesis unfolding common_pairs_def by (auto simp: image_iff) (metis IntI image_eqI)+
qed

section \<open>What each generator writes\<close>

text \<open>The statements that define a field: with or without the backfill of its default.\<close>

definition field_text :: "string \<Rightarrow> field_definition \<Rightarrow> string \<Rightarrow> bool" where
  "field_text tn f sql \<longleftrightarrow> (\<exists>d. generateAddFieldDiff tn f = Inr d \<and> sql = sd_forward d) \<or> fieldToSQL tn f = Inr sql"

lemma diff_on_simps [simp]:
  "sd_op (diff_on p t x f b) = p" "sd_table (diff_on p t x f b) = t" "sd_forward (diff_on p t x f b) = f"
  "sd_backward (diff_on p t x f b) = b" "sd_field (diff_on p t x f b) = []" "sd_index (diff_on p t x f b) = []"
  "sd_event (diff_on p t x f b) = []" "sd_bucket (diff_on p t x f b) = []"
  by (simp_all add: diff_on_def)

lemma add_field_diff:
  "generateAddFieldDiff tn f = Inr d \<Longrightarrow> sd_op d = AddField \<and> sd_table d = tn \<and> sd_field d = fd_name f \<and> field_text tn f (sd_forward d)"
  unfolding field_text_def by (auto simp: generateAddFieldDiff_def rbind_Inr_iff Let_def split: option.splits)

lemma drop_field_diff:
  "generateDropFieldDiff tn f = Inr d \<Longrightarrow> sd_op d = DropField \<and> sd_table d = tn \<and> sd_field d = fd_name f \<and> field_text tn f (sd_backward d)"
  by (auto simp: generateDropFieldDiff_def rbind_Inr_iff field_text_def)

lemma modify_field_diff:
  "generateModifyFieldDiff tn a b = Inr d \<Longrightarrow> sd_op d = ModifyField \<and> sd_table d = tn \<and> sd_field d = fd_name b
     \<and> field_text tn b (sd_forward d) \<and> field_text tn a (sd_backward d)"
  by (auto simp: generateModifyFieldDiff_def rbind_Inr_iff field_text_def)

lemma index_diffs:
  "generateAddIndexDiff tn i = Inr d \<Longrightarrow> sd_op d = AddIndex \<and> sd_table d = tn \<and> sd_index d = ix_name i"
  "generateDropIndexDiff tn i = Inr d \<Longrightarrow> sd_op d = DropIndex \<and> sd_table d = tn \<and> sd_index d = ix_name i"
  by (auto simp: generateAddIndexDiff_def generateDropIndexDiff_def rbind_Inr_iff)

lemma event_diffs:
  "generateAddEventDiff tn e = Inr d \<Longrightarrow> sd_op d = AddEvent \<and> sd_table d = tn \<and> sd_event d = ev_name e"
  "generateDropEventDiff tn e = Inr d \<Longrightarrow> sd_op d = DropEvent \<and> sd_table d = tn \<and> sd_event d = ev_name e"
  by (auto simp: generateAddEventDiff_def generateDropEventDiff_def split: option.splits)

lemma permission_diff: "d \<in> set (DiffPermissions a b) \<Longrightarrow> sd_op d = ModifyPermissions \<and> sd_table d = tb_name b"
  by (auto simp: DiffPermissions_def generateModifyPermissionsDiff_def split: if_splits)

lemma fields_equal_text:
  assumes "fieldsEqual a b"
  shows "field_text tn a = field_text tn b"
proof -
  have sql: "fieldToSQL tn a = fieldToSQL tn b" using assms by (simp add: fieldsEqual_def fieldToSQL_def)
  then have "generateAddFieldDiff tn a = generateAddFieldDiff tn b"
    using assms unfolding fieldsEqual_def generateAddFieldDiff_def by (simp only:)
  with sql show ?thesis by (intro ext) (simp only: field_text_def)
qed

section \<open>Changes to a set of named objects\<close>

text \<open>A change is the old and the new definition of one name, either of which may be missing.\<close>

definition change_name :: "('a \<Rightarrow> string) \<Rightarrow> 'a option \<times> 'a option \<Rightarrow> string" where
  "change_name nm p = (case p of (_, Some x) \<Rightarrow> nm x | (Some x, None) \<Rightarrow> nm x | (None, None) \<Rightarrow> [])"

definition proper_change :: "('a \<Rightarrow> string) \<Rightarrow> 'a option \<times> 'a option \<Rightarrow> bool" where
  "proper_change nm p \<longleftrightarrow>
     (case p of (Some x, Some y) \<Rightarrow> nm x = nm y | (None, None) \<Rightarrow> False | _ \<Rightarrow> True)"

text \<open>
  The promise for one kind of object: \<open>act\<close> is what a change does to the catalog (None if it was
  refused), \<open>region n\<close> the keys that belong to the object named \<open>n\<close>, \<open>holds\<close> says that the catalog has
  exactly the object, and \<open>allowed\<close> which changes the promise is made for.
\<close>

locale object_changes =
  fixes nm :: "'a \<Rightarrow> string" and region :: "string \<Rightarrow> schema_key set" and holds :: "catalog \<Rightarrow> 'a \<Rightarrow> bool"
    and act :: "'a option \<times> 'a option \<Rightarrow> (catalog \<Rightarrow> catalog) option" and allowed :: "'a option \<times> 'a option \<Rightarrow> bool"
  assumes regions: "n \<noteq> m \<Longrightarrow> region n \<inter> region m = {}"
    and local: "\<forall>k \<in> region (nm x). c k = c' k \<Longrightarrow> holds c x \<Longrightarrow> holds c' x"
    and frame: "act p = Some g \<Longrightarrow> proper_change nm p \<Longrightarrow> allowed p \<Longrightarrow> k \<notin> region (change_name nm p) \<Longrightarrow> g c k = c k"
    and add: "act (None, Some y) = Some g \<Longrightarrow> allowed (None, Some y) \<Longrightarrow> \<forall>k \<in> region (nm y). c k = None \<Longrightarrow> holds (g c) y"
    and drop: "act (Some x, None) = Some g \<Longrightarrow> allowed (Some x, None) \<Longrightarrow> holds c x \<Longrightarrow> k \<in> region (nm x) \<Longrightarrow> g c k = None"
    and modify: "act (Some x, Some y) = Some g \<Longrightarrow> allowed (Some x, Some y) \<Longrightarrow> nm x = nm y \<Longrightarrow> holds c x \<Longrightarrow> holds (g c) y"
begin

definition has :: "catalog \<Rightarrow> string \<Rightarrow> 'a option \<Rightarrow> bool" where
  "has c n xo = (case xo of None \<Rightarrow> \<forall>k \<in> region n. c k = None | Some x \<Rightarrow> nm x = n \<and> holds c x)"

lemma has_local: "\<forall>k \<in> region n. c k = c' k \<Longrightarrow> has c n xo \<Longrightarrow> has c' n xo"
  using local by (auto simp: has_def split: option.splits)

lemma has_step:
  "act p = Some g \<Longrightarrow> proper_change nm p \<Longrightarrow> allowed p \<Longrightarrow> has c (change_name nm p) (fst p) \<Longrightarrow> has (g c) (change_name nm p) (snd p)"
  using add drop modify by (auto simp: has_def proper_change_def change_name_def split: option.splits prod.splits)

lemma run_changes:
  "list_all2 (\<lambda>p g. act p = Some g \<and> proper_change nm p \<and> allowed p) ps gs \<Longrightarrow> distinct (map (change_name nm) ps) \<Longrightarrow>
    \<forall>p \<in> set ps. has c (change_name nm p) (fst p) \<Longrightarrow>
    (\<forall>p \<in> set ps. has (fold (\<lambda>g. g) gs c) (change_name nm p) (snd p))
    \<and> (\<forall>k. (\<forall>p \<in> set ps. k \<notin> region (change_name nm p)) \<longrightarrow> fold (\<lambda>g. g) gs c k = c k)"
proof (induction arbitrary: c rule: list_all2_induct)
  case (Cons p ps g gs)
  let ?n = "change_name nm p"
  have step: "has (g c) ?n (snd p)" using Cons.hyps(1) Cons.prems by (intro has_step) auto
  have other: "g c k = c k" if "k \<notin> region ?n" for k using that Cons.hyps(1) frame by blast
  have "has (g c) (change_name nm q) (fst q)" if "q \<in> set ps" for q
  proof (rule has_local [of _ c])
    have "?n \<noteq> change_name nm q" using that Cons.prems(1) by auto
    then show "\<forall>k \<in> region (change_name nm q). c k = g c k" using regions other by (metis disjoint_iff)
  qed (use that Cons.prems in simp)
  then have IH: "(\<forall>q \<in> set ps. has (fold (\<lambda>g. g) gs (g c)) (change_name nm q) (snd q))
      \<and> (\<forall>k. (\<forall>q \<in> set ps. k \<notin> region (change_name nm q)) \<longrightarrow> fold (\<lambda>g. g) gs (g c) k = g c k)"
    using Cons.IH Cons.prems(1) by simp
  have "fold (\<lambda>g. g) gs (g c) k = g c k" if "k \<in> region ?n" for k
  proof -
    have "k \<notin> region (change_name nm q)" if "q \<in> set ps" for q
      using regions [of ?n "change_name nm q"] \<open>k \<in> region ?n\<close> that Cons.prems(1) by auto
    then show ?thesis using IH by blast
  qed
  then have "has (fold (\<lambda>g. g) gs (g c)) ?n (snd p)" using has_local [of ?n "g c"] step by simp
  then show ?case using IH other by simp
qed simp

text \<open>The diffs of all changes, run one after the other.\<close>

lemma run_collected:
  assumes c: "collect (\<lambda>(a, b). D a b) ps = Inr dss" and act: "\<And>a b. act (a, b) = (case D a b of Inl _ \<Rightarrow> None | Inr ds \<Rightarrow> Some (run ds))"
    and ok: "\<forall>p \<in> set ps. proper_change nm p \<and> allowed p" and d: "distinct (map (change_name nm) ps)"
    and h: "\<forall>p \<in> set ps. has c (change_name nm p) (fst p)"
  shows "(\<forall>p \<in> set ps. has (fold run dss c) (change_name nm p) (snd p))
    \<and> (\<forall>k. (\<forall>p \<in> set ps. k \<notin> region (change_name nm p)) \<longrightarrow> fold run dss c k = c k)"
proof -
  have "list_all2 (\<lambda>p g. act p = Some g \<and> proper_change nm p \<and> allowed p) ps (map run dss)"
    using c ok
  proof (induction ps arbitrary: dss)
    case (Cons p ps)
    obtain a b where p: "p = (a, b)" by fastforce
    from Cons.prems(1) obtain ds dss' where "D a b = Inr ds" "collect (\<lambda>(a, b). D a b) ps = Inr dss'" "dss = ds # dss'"
      by (auto simp: p rbind_Inr_iff)
    then show ?case using Cons p act by simp
  qed simp
  from run_changes [OF this d h] show ?thesis by (simp add: fold_map comp_def)
qed

end

section \<open>Members of a table\<close>

lemma apply_all_touched:
  "\<exists>d \<in> set ds. touches d k \<Longrightarrow> \<forall>d \<in> set ds. touches d k \<longrightarrow> P (written d) \<Longrightarrow> P (apply_all ds c k)"
proof (induction ds arbitrary: c)
  case (Cons d ds)
  show ?case
  proof (cases "\<exists>d \<in> set ds. touches d k")
    case True
    then show ?thesis using Cons by (simp add: apply_all_def)
  next
    case False
    then have "apply_all ds (apply_diff d c) k = apply_diff d c k" by (simp add: apply_all_untouched)
    then show ?thesis using Cons.prems False by (simp add: apply_all_def apply_diff_def)
  qed
qed simp

fun in_table :: "string \<Rightarrow> schema_key \<Rightarrow> bool" where
  "in_table n (TableKey t) \<longleftrightarrow> t = n" | "in_table n (FieldKey t _) \<longleftrightarrow> t = n" | "in_table n (IndexKey t _) \<longleftrightarrow> t = n"
| "in_table n (EventKey t _) \<longleftrightarrow> t = n" | "in_table n (BucketKey _) \<longleftrightarrow> False"

definition table_region :: "string \<Rightarrow> schema_key set" where
  "table_region n = {k. in_table n k}"

definition wf_table :: "table_definition \<Rightarrow> bool" where
  "wf_table t \<longleftrightarrow> distinct (map fd_name (tb_fields t)) \<and> distinct (map ix_name (tb_indexes t)) \<and> distinct (map ev_name (tb_events t))"

text \<open>The diffs take the members of one kind from the names \<open>old\<close> to the names \<open>new\<close>; \<open>P\<close> is what is
  written for a name that is to exist.\<close>

definition covers ::
  "(string \<Rightarrow> schema_key) \<Rightarrow> (string \<Rightarrow> string option \<Rightarrow> bool) \<Rightarrow> string set \<Rightarrow> string set \<Rightarrow> schema_diff list \<Rightarrow> bool" where
  "covers K P old new ds \<longleftrightarrow>
     (\<forall>d \<in> set ds. \<forall>n. touches d (K n) \<longrightarrow> (if n \<in> new then P n (written d) else written d = None))
     \<and> (\<forall>n. (n \<in> new) \<noteq> (n \<in> old) \<longrightarrow> (\<exists>d \<in> set ds. touches d (K n)))"

lemma covers_new: "covers K P old new ds \<Longrightarrow> n \<in> new \<Longrightarrow> \<exists>d \<in> set ds. touches d (K n) \<Longrightarrow> P n (apply_all ds c (K n))"
  by (rule apply_all_touched) (auto simp: covers_def)

lemma covers_gone: "covers K P old new ds \<Longrightarrow> n \<notin> new \<Longrightarrow> n \<in> old \<or> c (K n) = None \<Longrightarrow> apply_all ds c (K n) = None"
  by (cases "\<exists>d \<in> set ds. touches d (K n)")
    (auto simp: covers_def apply_all_untouched intro: apply_all_touched [where P = "\<lambda>v. v = None"])

definition written_field :: "string \<Rightarrow> table_definition \<Rightarrow> string \<Rightarrow> string option \<Rightarrow> bool" where
  "written_field tn t n v \<longleftrightarrow> (\<exists>f sql. f \<in> set (tb_fields t) \<and> fd_name f = n \<and> v = Some sql \<and> field_text tn f sql)"

definition member_changes :: "string \<Rightarrow> table_definition \<Rightarrow> table_definition \<Rightarrow> schema_diff list \<Rightarrow> bool" where
  "member_changes tn old new ds \<longleftrightarrow>
     covers (FieldKey tn) (written_field tn new) (fd_name ` set (tb_fields old)) (fd_name ` set (tb_fields new)) ds
     \<and> covers (IndexKey tn) (\<lambda>_ v. v \<noteq> None) (ix_name ` set (tb_indexes old)) (ix_name ` set (tb_indexes new)) ds
     \<and> covers (EventKey tn) (\<lambda>_ v. v \<noteq> None) (ev_name ` set (tb_events old)) (ev_name ` set (tb_events new)) ds
     \<and> (\<forall>d \<in> set ds. \<not> touches d (TableKey tn))
     \<and> (\<forall>d \<in> set ds. \<forall>k. k \<notin> table_region tn \<longrightarrow> \<not> touches d k)
     \<and> (\<forall>f \<in> set (tb_fields new). \<forall>g \<in> set (tb_fields old). fd_name g = fd_name f \<longrightarrow>
          (\<forall>d \<in> set ds. \<not> touches d (FieldKey tn (fd_name f))) \<longrightarrow> fieldsEqual g f)"

text \<open>The catalog has exactly the table, its members, and the right statement for each field.\<close>

definition table_holds :: "catalog \<Rightarrow> table_definition \<Rightarrow> bool" where
  "table_holds c t \<longleftrightarrow>
     c (TableKey (tb_name t)) \<noteq> None
     \<and> (\<forall>n. c (FieldKey (tb_name t) n) \<noteq> None \<longleftrightarrow> n \<in> fd_name ` set (tb_fields t))
     \<and> (\<forall>n. c (IndexKey (tb_name t) n) \<noteq> None \<longleftrightarrow> n \<in> ix_name ` set (tb_indexes t))
     \<and> (\<forall>n. c (EventKey (tb_name t) n) \<noteq> None \<longleftrightarrow> n \<in> ev_name ` set (tb_events t))
     \<and> (\<forall>f \<in> set (tb_fields t). written_field (tb_name t) t (fd_name f) (c (FieldKey (tb_name t) (fd_name f))))"

lemma covers_exists:
  assumes cov: "covers K (\<lambda>_ v. v \<noteq> None) old new ds" and "\<forall>n. c (K n) \<noteq> None \<longleftrightarrow> n \<in> old"
  shows "\<forall>n. apply_all ds c (K n) \<noteq> None \<longleftrightarrow> n \<in> new"
proof
  fix n
  show "apply_all ds c (K n) \<noteq> None \<longleftrightarrow> n \<in> new"
  proof (cases "n \<in> new")
    case True
    then have "apply_all ds c (K n) \<noteq> None" if "\<exists>d \<in> set ds. touches d (K n)" using covers_new [OF cov _ that] by blast
    moreover have "apply_all ds c (K n) \<noteq> None" if "\<not> (\<exists>d \<in> set ds. touches d (K n))"
    proof -
      have "n \<in> old" using cov True that by (auto simp: covers_def)
      then show ?thesis using assms(2) that by (simp add: apply_all_untouched)
    qed
    ultimately show ?thesis using True by blast
  next
    case False
    have "n \<in> old \<or> c (K n) = None" using assms(2) by metis
    then have "apply_all ds c (K n) = None" by (rule covers_gone [OF cov False])
    then show ?thesis using False by simp
  qed
qed

lemma members_hold:
  assumes mc: "member_changes (tb_name new) old new ds" and nm: "tb_name old = tb_name new"
    and wf: "wf_table old" "wf_table new" and h: "table_holds c old"
  shows "table_holds (apply_all ds c) new"
proof -
  let ?tn = "tb_name new"
  note mc = mc [unfolded member_changes_def] and h = h [unfolded table_holds_def nm]
  have cf: "covers (FieldKey ?tn) (written_field ?tn new) (fd_name ` set (tb_fields old)) (fd_name ` set (tb_fields new)) ds"
    using mc by simp
  have field: "written_field ?tn new (fd_name f) (apply_all ds c (FieldKey ?tn (fd_name f)))" if f: "f \<in> set (tb_fields new)" for f
  proof (cases "\<exists>d \<in> set ds. touches d (FieldKey ?tn (fd_name f))")
    case True
    then show ?thesis using covers_new [OF cf _ True] f by simp
  next
    case False
    then have "fd_name f \<in> fd_name ` set (tb_fields old)" using cf f by (auto simp: covers_def)
    then obtain g where g: "g \<in> set (tb_fields old)" "fd_name g = fd_name f" by auto
    then have eq: "fieldsEqual g f" using mc f False by blast
    have "written_field ?tn old (fd_name g) (c (FieldKey ?tn (fd_name g)))" using h g(1) by simp
    then obtain g' sql where w: "g' \<in> set (tb_fields old)" "fd_name g' = fd_name g" "c (FieldKey ?tn (fd_name g)) = Some sql" "field_text ?tn g' sql"
      by (auto simp: written_field_def)
    have "g' = g" using w(1,2) g(1) wf(1) by (auto simp: wf_table_def distinct_map dest: inj_onD)
    then show ?thesis using w g False f fields_equal_text [OF eq] by (auto simp: written_field_def apply_all_untouched)
  qed
  have names: "apply_all ds c (FieldKey ?tn n) \<noteq> None \<longleftrightarrow> n \<in> fd_name ` set (tb_fields new)" for n
  proof (cases "n \<in> fd_name ` set (tb_fields new)")
    case True
    then show ?thesis using field by (auto simp: written_field_def)
  next
    case False
    have "n \<in> fd_name ` set (tb_fields old) \<or> c (FieldKey ?tn n) = None" using conjunct1 [OF conjunct2 [OF h]] by metis
    then have "apply_all ds c (FieldKey ?tn n) = None" by (rule covers_gone [OF cf False])
    then show ?thesis using False by simp
  qed
  have "apply_all ds c (TableKey ?tn) \<noteq> None" using mc h by (simp add: apply_all_untouched)
  moreover have "\<forall>n. apply_all ds c (IndexKey ?tn n) \<noteq> None \<longleftrightarrow> n \<in> ix_name ` set (tb_indexes new)"
    by (rule covers_exists) (use mc h in auto)
  moreover have "\<forall>n. apply_all ds c (EventKey ?tn n) \<noteq> None \<longleftrightarrow> n \<in> ev_name ` set (tb_events new)"
    by (rule covers_exists) (use mc h in auto)
  ultimately show ?thesis unfolding table_holds_def using field names by blast
qed

text \<open>What the diffs between two versions of a table are.\<close>

lemma collect_only:
  assumes "collect gen (only_in nm xs ys) = Inr ds"
  shows "d \<in> set ds \<Longrightarrow> \<exists>x \<in> set xs. nm x \<notin> nm ` set ys \<and> gen x = Inr d"
    and "x \<in> set xs \<Longrightarrow> nm x \<notin> nm ` set ys \<Longrightarrow> \<exists>d \<in> set ds. gen x = Inr d"
proof -
  note c = collect_Inr [OF assms, unfolded set_only_in]
  show "d \<in> set ds \<Longrightarrow> \<exists>x \<in> set xs. nm x \<notin> nm ` set ys \<and> gen x = Inr d" using c by blast
  assume "x \<in> set xs" "nm x \<notin> nm ` set ys"
  then obtain d where "gen x = Inr d" using c by blast
  moreover have "d \<in> set ds" using c \<open>gen x = Inr d\<close> \<open>x \<in> set xs\<close> \<open>nm x \<notin> nm ` set ys\<close> by blast
  ultimately show "\<exists>d \<in> set ds. gen x = Inr d" by blast
qed

lemma collect_modified:
  assumes "collect (\<lambda>(x, y). gen x y) (filter (\<lambda>(x, y). \<not> same x y) (common_pairs nm old new)) = Inr ds"
    and "distinct (map nm old)" "distinct (map nm new)"
  shows "d \<in> set ds \<Longrightarrow> \<exists>x \<in> set old. \<exists>y \<in> set new. nm x = nm y \<and> gen x y = Inr d"
    and "x \<in> set old \<Longrightarrow> y \<in> set new \<Longrightarrow> nm x = nm y \<Longrightarrow> \<not> same x y \<Longrightarrow> \<exists>d \<in> set ds. gen x y = Inr d"
proof -
  have mem: "(x, y) \<in> set (filter (\<lambda>(x, y). \<not> same x y) (common_pairs nm old new))
      \<longleftrightarrow> x \<in> set old \<and> y \<in> set new \<and> nm x = nm y \<and> \<not> same x y" for x y
    by (auto simp: set_common_pairs [OF assms(2,3)])
  note c = collect_Inr [OF assms(1)]
  show "d \<in> set ds \<Longrightarrow> \<exists>x \<in> set old. \<exists>y \<in> set new. nm x = nm y \<and> gen x y = Inr d" using c mem by fastforce
  assume "x \<in> set old" "y \<in> set new" "nm x = nm y" "\<not> same x y"
  then have xy: "(x, y) \<in> set (filter (\<lambda>(x, y). \<not> same x y) (common_pairs nm old new))" using mem by blast
  then obtain d where "gen x y = Inr d" using c by fastforce
  moreover have "d \<in> set ds" using conjunct1 [OF c] xy \<open>gen x y = Inr d\<close> by (simp only: mem_Collect_eq) (force intro: bexI [of _ "(x, y)"])
  ultimately show "\<exists>d \<in> set ds. gen x y = Inr d" by blast
qed

lemma member_diff_lists:
  assumes "diff_members old new = Inr ds" "tb_name old = tn" "tb_name new = tn"
  obtains a b m ia ib ea eb where "ds = (a @ b @ m) @ (ia @ ib) @ (ea @ eb) @ DiffPermissions old new"
    "collect (generateAddFieldDiff tn) (only_in fd_name (tb_fields new) (tb_fields old)) = Inr a"
    "collect (generateDropFieldDiff tn) (only_in fd_name (tb_fields old) (tb_fields new)) = Inr b"
    "collect (\<lambda>(x, y). generateModifyFieldDiff tn x y)
       (filter (\<lambda>(x, y). \<not> fieldsEqual x y) (common_pairs fd_name (tb_fields old) (tb_fields new))) = Inr m"
    "collect (generateAddIndexDiff tn) (only_in ix_name (tb_indexes new) (tb_indexes old)) = Inr ia"
    "collect (generateDropIndexDiff tn) (only_in ix_name (tb_indexes old) (tb_indexes new)) = Inr ib"
    "collect (generateAddEventDiff tn) (only_in ev_name (tb_events new) (tb_events old)) = Inr ea"
    "collect (generateDropEventDiff tn) (only_in ev_name (tb_events old) (tb_events new)) = Inr eb"
  using assms by (auto simp: diff_members_def DiffFields_def DiffIndexes_def DiffEvents_def append_results_Inr)

text \<open>Where a diff comes from, and that every difference gives one.\<close>

datatype origin = NewFieldO field_definition | OldFieldO field_definition | ChangedFieldO field_definition field_definition
  | NewIndexO index_definition | OldIndexO index_definition | NewEventO event_definition | OldEventO event_definition | PermissionO

fun originates :: "string \<Rightarrow> table_definition \<Rightarrow> table_definition \<Rightarrow> origin \<Rightarrow> schema_diff \<Rightarrow> bool" where
  "originates tn old new (NewFieldO f) d \<longleftrightarrow>
     f \<in> set (tb_fields new) \<and> fd_name f \<notin> fd_name ` set (tb_fields old) \<and> generateAddFieldDiff tn f = Inr d"
| "originates tn old new (OldFieldO f) d \<longleftrightarrow>
     f \<in> set (tb_fields old) \<and> fd_name f \<notin> fd_name ` set (tb_fields new) \<and> generateDropFieldDiff tn f = Inr d"
| "originates tn old new (ChangedFieldO g f) d \<longleftrightarrow>
     g \<in> set (tb_fields old) \<and> f \<in> set (tb_fields new) \<and> fd_name g = fd_name f \<and> generateModifyFieldDiff tn g f = Inr d"
| "originates tn old new (NewIndexO i) d \<longleftrightarrow>
     i \<in> set (tb_indexes new) \<and> ix_name i \<notin> ix_name ` set (tb_indexes old) \<and> generateAddIndexDiff tn i = Inr d"
| "originates tn old new (OldIndexO i) d \<longleftrightarrow>
     i \<in> set (tb_indexes old) \<and> ix_name i \<notin> ix_name ` set (tb_indexes new) \<and> generateDropIndexDiff tn i = Inr d"
| "originates tn old new (NewEventO e) d \<longleftrightarrow>
     e \<in> set (tb_events new) \<and> ev_name e \<notin> ev_name ` set (tb_events old) \<and> generateAddEventDiff tn e = Inr d"
| "originates tn old new (OldEventO e) d \<longleftrightarrow>
     e \<in> set (tb_events old) \<and> ev_name e \<notin> ev_name ` set (tb_events new) \<and> generateDropEventDiff tn e = Inr d"
| "originates tn old new PermissionO d \<longleftrightarrow> sd_op d = ModifyPermissions \<and> sd_table d = tn"

lemma member_diff_origin:
  assumes m: "diff_members old new = Inr ds" "tb_name old = tn" "tb_name new = tn" and wf: "wf_table old" "wf_table new"
    and d: "d \<in> set ds"
  shows "\<exists>src. originates tn old new src d"
proof -
  obtain a b m ia ib ea eb where ds: "ds = (a @ b @ m) @ (ia @ ib) @ (ea @ eb) @ DiffPermissions old new"
    and c: "collect (generateAddFieldDiff tn) (only_in fd_name (tb_fields new) (tb_fields old)) = Inr a"
      "collect (generateDropFieldDiff tn) (only_in fd_name (tb_fields old) (tb_fields new)) = Inr b"
      "collect (\<lambda>(x, y). generateModifyFieldDiff tn x y)
         (filter (\<lambda>(x, y). \<not> fieldsEqual x y) (common_pairs fd_name (tb_fields old) (tb_fields new))) = Inr m"
      "collect (generateAddIndexDiff tn) (only_in ix_name (tb_indexes new) (tb_indexes old)) = Inr ia"
      "collect (generateDropIndexDiff tn) (only_in ix_name (tb_indexes old) (tb_indexes new)) = Inr ib"
      "collect (generateAddEventDiff tn) (only_in ev_name (tb_events new) (tb_events old)) = Inr ea"
      "collect (generateDropEventDiff tn) (only_in ev_name (tb_events old) (tb_events new)) = Inr eb"
    by (rule member_diff_lists [OF m])
  consider "d \<in> set a" | "d \<in> set b" | "d \<in> set m" | "d \<in> set ia" | "d \<in> set ib" | "d \<in> set ea" | "d \<in> set eb"
    | "d \<in> set (DiffPermissions old new)" using d unfolding ds by (simp only: set_append Un_iff) blast
  then show ?thesis
  proof cases
    case 1
    then show ?thesis using collect_only(1) [OF c(1)] by (metis originates.simps(1))
  next
    case 2
    then show ?thesis using collect_only(1) [OF c(2)] by (metis originates.simps(2))
  next
    case 3
    then show ?thesis using collect_modified(1) [OF c(3)] wf by (metis originates.simps(3) wf_table_def)
  next
    case 4
    then show ?thesis using collect_only(1) [OF c(4)] by (metis originates.simps(4))
  next
    case 5
    then show ?thesis using collect_only(1) [OF c(5)] by (metis originates.simps(5))
  next
    case 6
    then show ?thesis using collect_only(1) [OF c(6)] by (metis originates.simps(6))
  next
    case 7
    then show ?thesis using collect_only(1) [OF c(7)] by (metis originates.simps(7))
  next
    case 8
    then show ?thesis using permission_diff assms(3) by (metis originates.simps(8))
  qed
qed

lemma member_diff_exists:
  assumes m: "diff_members old new = Inr ds" "tb_name old = tn" "tb_name new = tn" and wf: "wf_table old" "wf_table new"
  shows "f \<in> set (tb_fields new) \<Longrightarrow> fd_name f \<notin> fd_name ` set (tb_fields old) \<Longrightarrow> \<exists>d \<in> set ds. generateAddFieldDiff tn f = Inr d"
    and "g \<in> set (tb_fields old) \<Longrightarrow> fd_name g \<notin> fd_name ` set (tb_fields new) \<Longrightarrow> \<exists>d \<in> set ds. generateDropFieldDiff tn g = Inr d"
    and "g \<in> set (tb_fields old) \<Longrightarrow> f \<in> set (tb_fields new) \<Longrightarrow> fd_name g = fd_name f \<Longrightarrow> \<not> fieldsEqual g f \<Longrightarrow>
      \<exists>d \<in> set ds. generateModifyFieldDiff tn g f = Inr d"
    and "i \<in> set (tb_indexes new) \<Longrightarrow> ix_name i \<notin> ix_name ` set (tb_indexes old) \<Longrightarrow> \<exists>d \<in> set ds. generateAddIndexDiff tn i = Inr d"
    and "j \<in> set (tb_indexes old) \<Longrightarrow> ix_name j \<notin> ix_name ` set (tb_indexes new) \<Longrightarrow> \<exists>d \<in> set ds. generateDropIndexDiff tn j = Inr d"
    and "e \<in> set (tb_events new) \<Longrightarrow> ev_name e \<notin> ev_name ` set (tb_events old) \<Longrightarrow> \<exists>d \<in> set ds. generateAddEventDiff tn e = Inr d"
    and "v \<in> set (tb_events old) \<Longrightarrow> ev_name v \<notin> ev_name ` set (tb_events new) \<Longrightarrow> \<exists>d \<in> set ds. generateDropEventDiff tn v = Inr d"
proof -
  obtain a b m ia ib ea eb where ds: "ds = (a @ b @ m) @ (ia @ ib) @ (ea @ eb) @ DiffPermissions old new"
    and c: "collect (generateAddFieldDiff tn) (only_in fd_name (tb_fields new) (tb_fields old)) = Inr a"
      "collect (generateDropFieldDiff tn) (only_in fd_name (tb_fields old) (tb_fields new)) = Inr b"
      "collect (\<lambda>(x, y). generateModifyFieldDiff tn x y)
         (filter (\<lambda>(x, y). \<not> fieldsEqual x y) (common_pairs fd_name (tb_fields old) (tb_fields new))) = Inr m"
      "collect (generateAddIndexDiff tn) (only_in ix_name (tb_indexes new) (tb_indexes old)) = Inr ia"
      "collect (generateDropIndexDiff tn) (only_in ix_name (tb_indexes old) (tb_indexes new)) = Inr ib"
      "collect (generateAddEventDiff tn) (only_in ev_name (tb_events new) (tb_events old)) = Inr ea"
      "collect (generateDropEventDiff tn) (only_in ev_name (tb_events old) (tb_events new)) = Inr eb"
    by (rule member_diff_lists [OF m])
  have sub: "set a \<subseteq> set ds" "set b \<subseteq> set ds" "set m \<subseteq> set ds" "set ia \<subseteq> set ds" "set ib \<subseteq> set ds" "set ea \<subseteq> set ds" "set eb \<subseteq> set ds"
    unfolding ds by auto
  show "f \<in> set (tb_fields new) \<Longrightarrow> fd_name f \<notin> fd_name ` set (tb_fields old) \<Longrightarrow> \<exists>d \<in> set ds. generateAddFieldDiff tn f = Inr d"
    using collect_only(2) [OF c(1)] sub(1) by (metis subsetD)
  show "g \<in> set (tb_fields old) \<Longrightarrow> fd_name g \<notin> fd_name ` set (tb_fields new) \<Longrightarrow> \<exists>d \<in> set ds. generateDropFieldDiff tn g = Inr d"
    using collect_only(2) [OF c(2)] sub(2) by (metis subsetD)
  show "g \<in> set (tb_fields old) \<Longrightarrow> f \<in> set (tb_fields new) \<Longrightarrow> fd_name g = fd_name f \<Longrightarrow> \<not> fieldsEqual g f \<Longrightarrow>
      \<exists>d \<in> set ds. generateModifyFieldDiff tn g f = Inr d"
    using collect_modified(2) [OF c(3)] wf sub(3) unfolding wf_table_def by (metis subsetD)
  show "i \<in> set (tb_indexes new) \<Longrightarrow> ix_name i \<notin> ix_name ` set (tb_indexes old) \<Longrightarrow> \<exists>d \<in> set ds. generateAddIndexDiff tn i = Inr d"
    using collect_only(2) [OF c(4)] sub(4) by (metis subsetD)
  show "j \<in> set (tb_indexes old) \<Longrightarrow> ix_name j \<notin> ix_name ` set (tb_indexes new) \<Longrightarrow> \<exists>d \<in> set ds. generateDropIndexDiff tn j = Inr d"
    using collect_only(2) [OF c(5)] sub(5) by (metis subsetD)
  show "e \<in> set (tb_events new) \<Longrightarrow> ev_name e \<notin> ev_name ` set (tb_events old) \<Longrightarrow> \<exists>d \<in> set ds. generateAddEventDiff tn e = Inr d"
    using collect_only(2) [OF c(6)] sub(6) by (metis subsetD)
  show "v \<in> set (tb_events old) \<Longrightarrow> ev_name v \<notin> ev_name ` set (tb_events new) \<Longrightarrow> \<exists>d \<in> set ds. generateDropEventDiff tn v = Inr d"
    using collect_only(2) [OF c(7)] sub(7) by (metis subsetD)
qed

text \<open>The keys a diff touches, by its origin, and what it writes there in either direction.\<close>

definition origin_key :: "string \<Rightarrow> origin \<Rightarrow> schema_key option" where
  "origin_key tn src =
     (case src of
        NewFieldO f \<Rightarrow> Some (FieldKey tn (fd_name f)) | OldFieldO f \<Rightarrow> Some (FieldKey tn (fd_name f))
      | ChangedFieldO g f \<Rightarrow> Some (FieldKey tn (fd_name f))
      | NewIndexO i \<Rightarrow> Some (IndexKey tn (ix_name i)) | OldIndexO i \<Rightarrow> Some (IndexKey tn (ix_name i))
      | NewEventO e \<Rightarrow> Some (EventKey tn (ev_name e)) | OldEventO e \<Rightarrow> Some (EventKey tn (ev_name e))
      | PermissionO \<Rightarrow> None)"

lemma origin_touches:
  assumes "originates tn old new src d"
  shows "touches d k \<longleftrightarrow> origin_key tn src = Some k" "touches (invert d) k \<longleftrightarrow> origin_key tn src = Some k"
  using assms
  by (cases src; cases k; auto simp: origin_key_def dest!: add_field_diff drop_field_diff modify_field_diff index_diffs event_diffs)+

lemma origin_writes:
  assumes "originates tn old new src d"
  shows "src = NewFieldO f \<Longrightarrow> written_field tn new (fd_name f) (written d) \<and> written (invert d) = None"
    and "src = OldFieldO f \<Longrightarrow> written d = None \<and> written_field tn old (fd_name f) (written (invert d))"
    and "src = ChangedFieldO g f \<Longrightarrow> written_field tn new (fd_name f) (written d) \<and> written_field tn old (fd_name f) (written (invert d))"
    and "src = NewIndexO i \<Longrightarrow> written d \<noteq> None \<and> written (invert d) = None"
    and "src = OldIndexO i \<Longrightarrow> written d = None \<and> written (invert d) \<noteq> None"
    and "src = NewEventO e \<Longrightarrow> written d \<noteq> None \<and> written (invert d) = None"
    and "src = OldEventO e \<Longrightarrow> written d = None \<and> written (invert d) \<noteq> None"
  using assms
  by (auto simp: written_def written_field_def dest!: add_field_diff drop_field_diff modify_field_diff index_diffs event_diffs)

lemma origin_outside: "originates tn old new src d \<Longrightarrow> k \<notin> table_region tn \<or> k = TableKey tn \<Longrightarrow> origin_key tn src \<noteq> Some k"
  by (cases src) (auto simp: origin_key_def table_region_def)

lemma covers_both:
  assumes writes: "\<And>d n. d \<in> set ds \<Longrightarrow> touches d (K n) \<or> touches (invert d) (K n) \<Longrightarrow>
      (if n \<in> new then P n (written d) else written d = None) \<and> (if n \<in> old then Q n (written (invert d)) else written (invert d) = None)"
    and all: "\<And>n. (n \<in> new) \<noteq> (n \<in> old) \<Longrightarrow> \<exists>d \<in> set ds. touches d (K n) \<and> touches (invert d) (K n)"
  shows "covers K P old new ds \<and> covers K Q new old (map invert (rev ds))"
proof
  show "covers K P old new ds" unfolding covers_def using writes all by blast
  show "covers K Q new old (map invert (rev ds))" unfolding covers_def using writes all by (simp add: image_iff) metis
qed

lemma members_change:
  assumes m: "diff_members old new = Inr ds" "tb_name old = tn" "tb_name new = tn" and wf: "wf_table old" "wf_table new"
  shows "member_changes tn old new ds \<and> member_changes tn new old (map invert (rev ds))"
proof -
  note origin = member_diff_origin [OF m wf] and ex = member_diff_exists [OF m wf]
  have fields: "covers (FieldKey tn) (written_field tn new) (fd_name ` set (tb_fields old)) (fd_name ` set (tb_fields new)) ds
      \<and> covers (FieldKey tn) (written_field tn old) (fd_name ` set (tb_fields new)) (fd_name ` set (tb_fields old)) (map invert (rev ds))"
  proof (rule covers_both)
    fix d n assume "d \<in> set ds" and touch: "touches d (FieldKey tn n) \<or> touches (invert d) (FieldKey tn n)"
    then obtain src where o: "originates tn old new src d" using origin by blast
    then have "origin_key tn src = Some (FieldKey tn n)" using touch origin_touches by blast
    then show "(if n \<in> fd_name ` set (tb_fields new) then written_field tn new n (written d) else written d = None)
        \<and> (if n \<in> fd_name ` set (tb_fields old) then written_field tn old n (written (invert d)) else written (invert d) = None)"
      using o origin_writes [OF o] by (cases src) (auto simp: origin_key_def image_iff)
  next
    fix n assume "(n \<in> fd_name ` set (tb_fields new)) \<noteq> (n \<in> fd_name ` set (tb_fields old))"
    then show "\<exists>d \<in> set ds. touches d (FieldKey tn n) \<and> touches (invert d) (FieldKey tn n)"
      using ex(1,2) add_field_diff drop_field_diff by (fastforce simp: image_iff)
  qed
  have indexes: "covers (IndexKey tn) (\<lambda>_ v. v \<noteq> None) (ix_name ` set (tb_indexes old)) (ix_name ` set (tb_indexes new)) ds
      \<and> covers (IndexKey tn) (\<lambda>_ v. v \<noteq> None) (ix_name ` set (tb_indexes new)) (ix_name ` set (tb_indexes old)) (map invert (rev ds))"
  proof (rule covers_both)
    fix d n assume "d \<in> set ds" and touch: "touches d (IndexKey tn n) \<or> touches (invert d) (IndexKey tn n)"
    then obtain src where o: "originates tn old new src d" using origin by blast
    then have "origin_key tn src = Some (IndexKey tn n)" using touch origin_touches by blast
    then show "(if n \<in> ix_name ` set (tb_indexes new) then written d \<noteq> None else written d = None)
        \<and> (if n \<in> ix_name ` set (tb_indexes old) then written (invert d) \<noteq> None else written (invert d) = None)"
      using o origin_writes [OF o] by (cases src) (auto simp: origin_key_def image_iff)
  next
    fix n assume "(n \<in> ix_name ` set (tb_indexes new)) \<noteq> (n \<in> ix_name ` set (tb_indexes old))"
    then show "\<exists>d \<in> set ds. touches d (IndexKey tn n) \<and> touches (invert d) (IndexKey tn n)"
      using ex(4,5) index_diffs by (fastforce simp: image_iff)
  qed
  have events: "covers (EventKey tn) (\<lambda>_ v. v \<noteq> None) (ev_name ` set (tb_events old)) (ev_name ` set (tb_events new)) ds
      \<and> covers (EventKey tn) (\<lambda>_ v. v \<noteq> None) (ev_name ` set (tb_events new)) (ev_name ` set (tb_events old)) (map invert (rev ds))"
  proof (rule covers_both)
    fix d n assume "d \<in> set ds" and touch: "touches d (EventKey tn n) \<or> touches (invert d) (EventKey tn n)"
    then obtain src where o: "originates tn old new src d" using origin by blast
    then have "origin_key tn src = Some (EventKey tn n)" using touch origin_touches by blast
    then show "(if n \<in> ev_name ` set (tb_events new) then written d \<noteq> None else written d = None)
        \<and> (if n \<in> ev_name ` set (tb_events old) then written (invert d) \<noteq> None else written (invert d) = None)"
      using o origin_writes [OF o] by (cases src) (auto simp: origin_key_def image_iff)
  next
    fix n assume "(n \<in> ev_name ` set (tb_events new)) \<noteq> (n \<in> ev_name ` set (tb_events old))"
    then show "\<exists>d \<in> set ds. touches d (EventKey tn n) \<and> touches (invert d) (EventKey tn n)"
      using ex(6,7) event_diffs by (fastforce simp: image_iff)
  qed
  have outside: "\<not> touches d k \<and> \<not> touches (invert d) k" if "d \<in> set ds" "k \<notin> table_region tn \<or> k = TableKey tn" for d k
    using origin [OF that(1)] origin_touches origin_outside [OF _ that(2)] by blast
  have same: "fieldsEqual g f" if "f \<in> set (tb_fields new)" "g \<in> set (tb_fields old)" "fd_name g = fd_name f"
      "\<forall>d \<in> set ds. \<not> (touches d (FieldKey tn (fd_name f)) \<and> touches (invert d) (FieldKey tn (fd_name f)))" for f g
    using ex(3) [OF that(2,1,3)] that(4) modify_field_diff by fastforce
  have touches_same: "touches (invert d) k \<longleftrightarrow> touches d k" if "d \<in> set ds" for d k
    using origin [OF that] origin_touches by blast
  have "fieldsEqual f g" if "f \<in> set (tb_fields new)" "g \<in> set (tb_fields old)" "fd_name f = fd_name g"
      "\<forall>d \<in> set (map invert (rev ds)). \<not> touches d (FieldKey tn (fd_name g))" for f g
    using same [OF that(1,2)] that(3,4) touches_same by (auto simp: fieldsEqual_def)
  moreover have "fieldsEqual g f" if "f \<in> set (tb_fields new)" "g \<in> set (tb_fields old)" "fd_name g = fd_name f"
      "\<forall>d \<in> set ds. \<not> touches d (FieldKey tn (fd_name f))" for f g
    using same [OF that(1,2)] that(3,4) by blast
  moreover have "set (map invert (rev ds)) = invert ` set ds" by simp
  ultimately show ?thesis
    unfolding member_changes_def using fields indexes events outside
    by (simp del: touches.simps set_map set_rev)
qed

section \<open>Tables and edges\<close>

text \<open>The children of a new table are the changes from the table without any.\<close>

lemma children_change:
  assumes "children_diffs tn (tb_fields t) (tb_indexes t) (tb_events t) = Inr ds" "tb_name t = tn" "wf_table t"
  shows "member_changes tn (t\<lparr>tb_fields := [], tb_indexes := [], tb_events := []\<rparr>) t ds"
proof -
  have all: "only_in nm xs [] = xs" for nm :: "'b \<Rightarrow> string" and xs by (simp add: only_in_def by_name_def)
  have none: "only_in nm [] xs = []" "common_pairs nm [] xs = []" for nm :: "'b \<Rightarrow> string" and xs
    by (simp_all add: only_in_def common_pairs_def common_names_def)
  have "diff_members (t\<lparr>tb_fields := [], tb_indexes := [], tb_events := []\<rparr>) t = Inr ds"
    using assms(1,2)
    by (auto simp: diff_members_def DiffFields_def DiffIndexes_def DiffEvents_def DiffPermissions_def children_diffs_def all none
        append_results_Inr)
  then show ?thesis using members_change [of _ t ds tn] assms(2,3) by (simp add: wf_table_def)
qed

definition table_act :: "(schema_diff list \<Rightarrow> catalog \<Rightarrow> catalog) \<Rightarrow> schema_diff list result \<Rightarrow> (catalog \<Rightarrow> catalog) option" where
  "table_act run r = (case r of Inl _ \<Rightarrow> None | Inr ds \<Rightarrow> Some (run ds))"

lemma table_act_Some: "table_act run r = Some g \<longleftrightarrow> (\<exists>ds. r = Inr ds \<and> g = run ds)"
  by (auto simp: table_act_def split: sum.splits)

lemma table_regions: "n \<noteq> m \<Longrightarrow> table_region n \<inter> table_region m = {}"
proof -
  have "in_table n k \<Longrightarrow> in_table m k \<Longrightarrow> n = m" for k by (cases k) auto
  then show "n \<noteq> m \<Longrightarrow> table_region n \<inter> table_region m = {}" by (auto simp: table_region_def)
qed

lemma table_local: "\<forall>k \<in> table_region (tb_name t). c k = c' k \<Longrightarrow> table_holds c t \<Longrightarrow> table_holds c' t"
  by (simp add: table_holds_def table_region_def)

text \<open>A new table: its definition, then its members; a diff that touches no key may follow.\<close>

lemma new_table_holds:
  assumes "sd_op d = AddTable" "sd_table d = tb_name t"
    and "children_diffs (tb_name t) (tb_fields t) (tb_indexes t) (tb_events t) = Inr ds" "wf_table t"
    and "\<forall>d \<in> set ps. sd_op d = ModifyPermissions" and empty: "\<forall>k \<in> table_region (tb_name t). c k = None"
  shows "table_holds (apply_all (d # ds @ ps) c) t"
proof -
  let ?bare = "t\<lparr>tb_fields := [], tb_indexes := [], tb_events := []\<rparr>"
  have "table_holds (apply_diff d c) ?bare"
    using assms(1,2) empty by (simp add: table_holds_def apply_diff_def written_def table_region_def)
  then have "table_holds (apply_all ds (apply_diff d c)) t"
    by (rule members_hold [OF children_change [OF assms(3) refl assms(4)], rotated -1])
      (use assms(4) in \<open>simp_all add: wf_table_def\<close>)
  moreover have "apply_all ps c' = c'" for c'
    by (rule ext, rule apply_all_untouched) (use assms(5) in \<open>auto elim: touches.elims\<close>)
  ultimately show ?thesis by (simp add: apply_all_def)
qed

lemma permissions_touch_nothing: "sd_op d = ModifyPermissions \<Longrightarrow> \<not> touches d k \<and> \<not> touches (invert d) k"
  by (cases k) auto

text \<open>Taking back the definition of a table removes everything of it.\<close>

lemma undo_new_table:
  assumes "sd_op d = AddTable" "sd_table d = n" "k \<in> table_region n"
  shows "undo_all (d # ds) c k = None"
proof -
  have "touches (invert d) k" using assms by (cases k) (auto simp: table_region_def)
  then show ?thesis using assms(1) by (simp add: undo_all_def undo_diff_def apply_diff_def written_def)
qed

lemma drop_table_empties: "sd_op d = DropTable \<Longrightarrow> sd_table d = n \<Longrightarrow> k \<in> table_region n \<Longrightarrow> apply_diff d c k = None"
  by (cases k) (auto simp: apply_diff_def written_def table_region_def)

definition on_table :: "string \<Rightarrow> schema_diff \<Rightarrow> bool" where
  "on_table tn d \<longleftrightarrow> sd_table d = tn \<and> sd_op d \<notin> {AddBucket, DropBucket, ModifyBucket}"

lemma on_table_region: "on_table tn d \<Longrightarrow> touches d k \<or> touches (invert d) k \<Longrightarrow> k \<in> table_region tn"
  by (cases k; cases "sd_op d") (auto simp: on_table_def table_region_def)

lemma frame_apply: "\<forall>d \<in> set ds. on_table tn d \<Longrightarrow> k \<notin> table_region tn \<Longrightarrow> apply_all ds c k = c k \<and> undo_all ds c k = c k"
  unfolding undo_all_apply
  by (rule conjI; rule apply_all_untouched) (auto simp del: touches.simps dest: on_table_region)

lemma members_on_table:
  "diff_members old new = Inr ds \<Longrightarrow> tb_name old = tn \<Longrightarrow> tb_name new = tn \<Longrightarrow> wf_table old \<Longrightarrow> wf_table new \<Longrightarrow> d \<in> set ds
    \<Longrightarrow> on_table tn d"
proof -
  assume a: "diff_members old new = Inr ds" "tb_name old = tn" "tb_name new = tn" "wf_table old" "wf_table new" "d \<in> set ds"
  obtain src where "originates tn old new src d" using member_diff_origin [OF a] by blast
  then show "on_table tn d"
    by (cases src) (auto simp: on_table_def dest!: add_field_diff drop_field_diff modify_field_diff index_diffs event_diffs)
qed

lemma children_on_table: "children_diffs tn fs ixs evs = Inr ds \<Longrightarrow> d \<in> set ds \<Longrightarrow> on_table tn d"
  by (auto simp: children_diffs_def append_results_Inr on_table_def dest!: collect_Inr add_field_diff index_diffs event_diffs)

text \<open>The changes a promise is made for: members have distinct names. Taking back a dropped table
  brings back its definition only, so backwards there is no promise for it.\<close>

definition wf_pair :: "('a \<Rightarrow> table_definition) \<Rightarrow> 'a option \<times> 'a option \<Rightarrow> bool" where
  "wf_pair as_table p \<longleftrightarrow> pred_option (wf_table \<circ> as_table) (fst p) \<and> pred_option (wf_table \<circ> as_table) (snd p)"

definition undoable :: "('a \<Rightarrow> table_definition) \<Rightarrow> 'a option \<times> 'a option \<Rightarrow> bool" where
  "undoable as_table p \<longleftrightarrow> wf_pair as_table p \<and> fst p \<noteq> None"

lemma new_table_diffs:
  "generateAddTableDiffs t = Inr ds \<Longrightarrow> \<exists>d cs ps. ds = d # cs @ ps \<and> sd_op d = AddTable \<and> sd_table d = tb_name t
     \<and> children_diffs (tb_name t) (tb_fields t) (tb_indexes t) (tb_events t) = Inr cs
     \<and> (\<forall>d \<in> set ps. sd_op d = ModifyPermissions \<and> sd_table d = tb_name t)"
  by (auto simp: generateAddTableDiffs_def append_results_Inr generateModifyPermissionsDiff_def)

lemma new_edge_diffs:
  "generateAddEdgeDiffs e = Inr ds \<Longrightarrow> \<exists>d cs. ds = d # cs \<and> sd_op d = AddTable \<and> sd_table d = ed_name e
     \<and> children_diffs (ed_name e) (ed_fields e) (ed_indexes e) (ed_events e) = Inr cs"
  by (auto simp: generateAddEdgeDiffs_def append_results_Inr)

text \<open>
  The promise of the engine for objects that are tables with members: how a diff is made of the
  diffs of a table (\<open>as_table\<close>). It gives the contract of \<open>object_changes\<close> in both directions.
\<close>

locale table_like =
  fixes D :: "'a option \<Rightarrow> 'a option \<Rightarrow> schema_diff list result" and as_table :: "'a \<Rightarrow> table_definition"
  assumes new: "D None (Some y) = Inr ds \<Longrightarrow>
      \<exists>d cs ps. ds = d # cs @ ps \<and> sd_op d = AddTable \<and> sd_table d = tb_name (as_table y)
        \<and> children_diffs (tb_name (as_table y)) (tb_fields (as_table y)) (tb_indexes (as_table y)) (tb_events (as_table y)) = Inr cs
        \<and> (\<forall>d \<in> set ps. sd_op d = ModifyPermissions \<and> sd_table d = tb_name (as_table y))"
    and dropped: "D (Some x) None = Inr ds \<Longrightarrow> \<exists>d. ds = [d] \<and> sd_op d = DropTable \<and> sd_table d = tb_name (as_table x)"
    and both: "D (Some x) (Some y) = diff_members (as_table x) (as_table y)"
begin

abbreviation name_of :: "'a \<Rightarrow> string" where
  "name_of x \<equiv> tb_name (as_table x)"

lemma all_on_table:
  assumes "D a b = Inr ds" "proper_change name_of (a, b)" "wf_pair as_table (a, b)"
  shows "\<forall>d \<in> set ds. on_table (change_name name_of (a, b)) d"
proof (cases a; cases b)
  fix y assume "a = None" "b = Some y"
  then show ?thesis using assms(1) children_on_table
    by (fastforce simp: change_name_def on_table_def dest!: new)
next
  fix x assume "a = Some x" "b = None"
  then show ?thesis using assms(1) by (auto simp: change_name_def on_table_def dest!: dropped)
next
  fix x y assume "a = Some x" "b = Some y"
  then show ?thesis using assms members_on_table [of "as_table x" "as_table y" ds "name_of y"]
    by (simp add: both change_name_def proper_change_def wf_pair_def)
qed (use assms in \<open>simp add: proper_change_def\<close>)

end

sublocale table_like \<subseteq> forward: object_changes name_of table_region "\<lambda>c x. table_holds c (as_table x)"
  "\<lambda>(a, b). table_act apply_all (D a b)" "wf_pair as_table"
proof unfold_locales
  fix p :: "'a option \<times> 'a option" and g k and c :: catalog
  assume "(case p of (a, b) \<Rightarrow> table_act apply_all (D a b)) = Some g" "proper_change name_of p" "wf_pair as_table p"
    "k \<notin> table_region (change_name name_of p)"
  then show "g c k = c k" by (cases p) (auto simp: table_act_Some frame_apply [OF all_on_table])
next
  fix y g and c :: catalog
  assume a: "(case (None, Some y) of (a, b) \<Rightarrow> table_act apply_all (D a b)) = Some g" "wf_pair as_table (None, Some y)"
    "\<forall>k \<in> table_region (name_of y). c k = None"
  then obtain ds where "D None (Some y) = Inr ds" "g = apply_all ds" by (auto simp: table_act_Some)
  then show "table_holds (g c) (as_table y)"
    using new new_table_holds [of _ "as_table y" _ _ c] a(2,3) by (fastforce simp: wf_pair_def)
next
  fix x g k and c :: catalog
  assume "(case (Some x, None) of (a, b) \<Rightarrow> table_act apply_all (D a b)) = Some g" "k \<in> table_region (name_of x)"
  then show "g c k = None"
    by (auto simp: table_act_Some apply_all_def dest!: dropped intro: drop_table_empties)
next
  fix x y g and c :: catalog
  assume a: "(case (Some x, Some y) of (a, b) \<Rightarrow> table_act apply_all (D a b)) = Some g" "wf_pair as_table (Some x, Some y)"
    "name_of x = name_of y" "table_holds c (as_table x)"
  then obtain ds where "diff_members (as_table x) (as_table y) = Inr ds" "g = apply_all ds" by (auto simp: table_act_Some both)
  then show "table_holds (g c) (as_table y)"
    using members_hold [of "as_table y" "as_table x" ds c] members_change [of "as_table x" "as_table y" ds "name_of y"] a(2-4)
    by (simp add: wf_pair_def)
qed (use table_regions table_local in auto)

text \<open>Backwards, a change is read from the new definition to the old one.\<close>

sublocale table_like \<subseteq> backward: object_changes name_of table_region "\<lambda>c x. table_holds c (as_table x)"
  "\<lambda>(b, a). table_act undo_all (D a b)" "undoable as_table"
proof unfold_locales
  fix p :: "'a option \<times> 'a option" and g k and c :: catalog
  assume a: "(case p of (b, a) \<Rightarrow> table_act undo_all (D a b)) = Some g" "proper_change name_of p" "undoable as_table p"
    "k \<notin> table_region (change_name name_of p)"
  obtain b a where p: "p = (b, a)" by fastforce
  have "proper_change name_of (a, b)" "change_name name_of (a, b) = change_name name_of p" "wf_pair as_table (a, b)"
    using a(2,3) p by (auto simp: proper_change_def change_name_def undoable_def wf_pair_def split: option.splits)
  then show "g c k = c k" using a(1,4) p by (auto simp: table_act_Some frame_apply [OF all_on_table])
next
  fix x g k and c :: catalog
  assume "(case (Some x, None) of (b, a) \<Rightarrow> table_act undo_all (D a b)) = Some g" "k \<in> table_region (name_of x)"
  then show "g c k = None" by (auto simp: table_act_Some dest!: new intro: undo_new_table)
next
  fix x y g and c :: catalog
  assume a: "(case (Some x, Some y) of (b, a) \<Rightarrow> table_act undo_all (D a b)) = Some g" "undoable as_table (Some x, Some y)"
    "name_of x = name_of y" "table_holds c (as_table x)"
  then obtain ds where "diff_members (as_table y) (as_table x) = Inr ds" "g = apply_all (map invert (rev ds))"
    by (auto simp: table_act_Some both undo_all_apply)
  then show "table_holds (g c) (as_table y)"
    using members_hold [of "as_table y" "as_table x" "map invert (rev ds)" c] members_change [of "as_table y" "as_table x" ds "name_of y"] a(2-4)
    by (simp add: undoable_def wf_pair_def)
qed (use table_regions table_local in \<open>auto simp: undoable_def\<close>)

interpretation tables: table_like DiffTables "\<lambda>t. t"
  by unfold_locales (auto simp: DiffTables_def generateDropTableDiff_def dest!: new_table_diffs)

lemma edge_proxy [simp]:
  "tb_name (edgeToTableProxy e) = ed_name e" "tb_fields (edgeToTableProxy e) = ed_fields e"
  "tb_indexes (edgeToTableProxy e) = ed_indexes e" "tb_events (edgeToTableProxy e) = ed_events e"
  by (simp_all add: edgeToTableProxy_def)

interpretation edges: table_like DiffEdges edgeToTableProxy
  by unfold_locales (auto simp: DiffEdges_def generateDropEdgeDiff_def dest!: new_edge_diffs)

section \<open>Buckets\<close>

definition bucket_holds :: "catalog \<Rightarrow> bucket_definition \<Rightarrow> bool" where
  "bucket_holds c b \<longleftrightarrow> c (BucketKey (bk_name b)) \<noteq> None"

lemma bucket_diffs:
  "sd_op (generateAddBucketDiff b) = AddBucket" "sd_bucket (generateAddBucketDiff b) = bk_name b"
  "sd_op (generateDropBucketDiff b) = DropBucket" "sd_bucket (generateDropBucketDiff b) = bk_name b"
  "sd_op (generateModifyBucketDiff a b) = ModifyBucket"
  by (simp_all add: generateAddBucketDiff_def generateDropBucketDiff_def generateModifyBucketDiff_def bucket_diff_def)

lemma bucket_effects:
  "apply_diff (generateAddBucketDiff b) c k = (if k = BucketKey (bk_name b) then Some (sd_forward (generateAddBucketDiff b)) else c k)"
  "apply_diff (generateDropBucketDiff b) c k = (if k = BucketKey (bk_name b) then None else c k)"
  "apply_diff (generateModifyBucketDiff a b) c k = c k"
  "undo_diff (generateAddBucketDiff b) c k = (if k = BucketKey (bk_name b) then None else c k)"
  "undo_diff (generateDropBucketDiff b) c k = (if k = BucketKey (bk_name b) then Some (sd_backward (generateDropBucketDiff b)) else c k)"
  "undo_diff (generateModifyBucketDiff a b) c k = c k"
  by (cases k; simp add: apply_diff_def undo_diff_def written_def bucket_diffs)+

lemma bucket_acts:
  "table_act apply_all (DiffBuckets None (Some b)) = Some (apply_diff (generateAddBucketDiff b))"
  "table_act apply_all (DiffBuckets (Some b) None) = Some (apply_diff (generateDropBucketDiff b))"
  "table_act apply_all (DiffBuckets (Some a) (Some b)) = Some (if bucketsEqual a b then id else apply_diff (generateModifyBucketDiff a b))"
  "table_act undo_all (DiffBuckets None (Some b)) = Some (undo_diff (generateAddBucketDiff b))"
  "table_act undo_all (DiffBuckets (Some b) None) = Some (undo_diff (generateDropBucketDiff b))"
  "table_act undo_all (DiffBuckets (Some a) (Some b)) = Some (if bucketsEqual a b then id else undo_diff (generateModifyBucketDiff a b))"
  by (simp_all add: table_act_def DiffBuckets_def apply_all_def undo_all_def)

interpretation forward_buckets: object_changes bk_name "\<lambda>n. {BucketKey n}" bucket_holds
  "\<lambda>(a, b). table_act apply_all (DiffBuckets a b)" "\<lambda>_. True"
proof unfold_locales
  fix p :: "bucket_definition option \<times> bucket_definition option" and g k and c :: catalog
  assume "(case p of (a, b) \<Rightarrow> table_act apply_all (DiffBuckets a b)) = Some g" "proper_change bk_name p" "k \<notin> {BucketKey (change_name bk_name p)}"
  then show "g c k = c k"
    by (cases p; cases "fst p"; cases "snd p") (auto simp: bucket_acts bucket_effects change_name_def proper_change_def)
qed (auto simp: bucket_acts bucket_effects bucket_holds_def)

interpretation backward_buckets: object_changes bk_name "\<lambda>n. {BucketKey n}" bucket_holds
  "\<lambda>(b, a). table_act undo_all (DiffBuckets a b)" "\<lambda>_. True"
proof unfold_locales
  fix p :: "bucket_definition option \<times> bucket_definition option" and g k and c :: catalog
  assume "(case p of (b, a) \<Rightarrow> table_act undo_all (DiffBuckets a b)) = Some g" "proper_change bk_name p" "k \<notin> {BucketKey (change_name bk_name p)}"
  then show "g c k = c k"
    by (cases p; cases "fst p"; cases "snd p") (auto simp: bucket_acts bucket_effects change_name_def proper_change_def)
qed (auto simp: bucket_acts bucket_effects bucket_holds_def)

section \<open>Whole schemas\<close>

definition changes :: "('a \<Rightarrow> string) \<Rightarrow> 'a list \<Rightarrow> 'a list \<Rightarrow> ('a option \<times> 'a option) list" where
  "changes nm code db =
     map (\<lambda>x. (None, Some x)) (only_in nm code db) @ map (\<lambda>x. (Some x, None)) (only_in nm db code)
     @ map (\<lambda>(a, b). (Some a, Some b)) (common_pairs nm db code)"

lemma collect_map: "collect f (map g xs) = collect (\<lambda>x. f (g x)) xs"
  by (induction xs) simp_all

lemma diff_sets_changes:
  "diff_sets nm D code db = rbind (collect (\<lambda>(a, b). D a b) (changes nm code db)) (\<lambda>dss. Inr (concat dss))"
proof -
  have "(\<lambda>x. case (case x of (a, b) \<Rightarrow> (Some a, Some b)) of (a, b) \<Rightarrow> D a b) = (\<lambda>(a, b). D (Some a) (Some b))" by auto
  then show ?thesis
    unfolding changes_def diff_sets_def collect_append collect_map
    by (cases "collect (\<lambda>x. D None (Some x)) (only_in nm code db)"; cases "collect (\<lambda>x. D (Some x) None) (only_in nm db code)";
        cases "collect (\<lambda>(a, b). D (Some a) (Some b)) (common_pairs nm db code)") (simp_all add: append_results_def)
qed

lemma set_changes:
  assumes "distinct (map nm code)" "distinct (map nm db)"
  shows "p \<in> set (changes nm code db) \<longleftrightarrow>
    (\<exists>n \<in> nm ` set code \<union> nm ` set db. p = (by_name nm db n, by_name nm code n))"
proof -
  note look = by_name_distinct [OF assms(1)] by_name_distinct [OF assms(2)] and none = by_name_None [of nm]
  show ?thesis
  proof
    assume "p \<in> set (changes nm code db)"
    then consider x where "p = (None, Some x)" "x \<in> set code" "nm x \<notin> nm ` set db"
      | x where "p = (Some x, None)" "x \<in> set db" "nm x \<notin> nm ` set code"
      | a b where "p = (Some a, Some b)" "a \<in> set db" "b \<in> set code" "nm a = nm b"
      unfolding changes_def by (auto simp: set_only_in set_common_pairs [OF assms(2,1)])
    then show "\<exists>n \<in> nm ` set code \<union> nm ` set db. p = (by_name nm db n, by_name nm code n)"
    proof cases
      case (1 x)
      then have "by_name nm db (nm x) = None" "by_name nm code (nm x) = Some x" by (simp_all add: none look)
      then show ?thesis using 1 by (intro bexI [of _ "nm x"]) simp_all
    next
      case (2 x)
      then have "by_name nm code (nm x) = None" "by_name nm db (nm x) = Some x" by (simp_all add: none look)
      then show ?thesis using 2 by (intro bexI [of _ "nm x"]) simp_all
    next
      case (3 a b)
      then have "by_name nm db (nm b) = Some a" "by_name nm code (nm b) = Some b" by (simp_all add: look)
      then show ?thesis using 3 by (intro bexI [of _ "nm b"]) simp_all
    qed
  next
    assume "\<exists>n \<in> nm ` set code \<union> nm ` set db. p = (by_name nm db n, by_name nm code n)"
    then obtain n where n: "n \<in> nm ` set code \<union> nm ` set db" and p: "p = (by_name nm db n, by_name nm code n)" by blast
    show "p \<in> set (changes nm code db)"
    proof (cases "by_name nm db n")
      case None
      then obtain y where y: "by_name nm code n = Some y" using n none by (cases "by_name nm code n") auto
      then have "y \<in> set (only_in nm code db)" using look(1) None none by (simp add: set_only_in)
      then show ?thesis using p None y by (simp add: changes_def)
    next
      case (Some x)
      show ?thesis
      proof (cases "by_name nm code n")
        case None
        then have "x \<in> set (only_in nm db code)" using look(2) Some none by (simp add: set_only_in)
        then show ?thesis using p None Some by (simp add: changes_def)
      next
        case (Some y)
        then have "(x, y) \<in> set (common_pairs nm db code)"
          using look \<open>by_name nm db n = Some x\<close> by (simp add: set_common_pairs [OF assms(2,1)])
        then show ?thesis using p Some \<open>by_name nm db n = Some x\<close> by (force simp: changes_def)
      qed
    qed
  qed
qed

lemma changes_distinct:
  assumes "distinct (map nm code)" "distinct (map nm db)"
  shows "distinct (map (change_name nm) (changes nm code db))" "\<forall>p \<in> set (changes nm code db). proper_change nm p"
proof -
  have names: "nm (the (by_name nm code n)) = n" if n: "n \<in> set (common_names nm db code)" for n
  proof -
    obtain y where "by_name nm code n = Some y" using n unfolding common_names_def by fastforce
    then show ?thesis using by_name_distinct [OF assms(1), of n y] by auto
  qed
  have "map (\<lambda>p. nm (snd p)) (common_pairs nm db code) = map (\<lambda>n. n) (common_names nm db code)"
    unfolding common_pairs_def map_map by (rule map_cong) (simp_all add: names)
  then have "map (change_name nm) (changes nm code db)
      = map nm (only_in nm code db) @ map nm (only_in nm db code) @ common_names nm db code"
    by (simp add: changes_def change_name_def comp_def case_prod_unfold)
  moreover have "distinct (map nm (only_in nm xs ys))" if "distinct (map nm xs)" for xs ys
    using that by (simp add: only_in_def distinct_map_filter)
  moreover have "distinct (common_names nm db code)" by (simp add: common_names_def)
  moreover have "set (common_names nm db code) = nm ` set db \<inter> nm ` set code" by (auto simp: common_names_def by_name_None)
  ultimately show "distinct (map (change_name nm) (changes nm code db))"
    using assms by (auto simp: set_only_in)
  show "\<forall>p \<in> set (changes nm code db). proper_change nm p"
    by (auto simp: changes_def proper_change_def set_common_pairs [OF assms(2,1)])
qed

lemma collect_rev: "collect gen xs = Inr ds \<Longrightarrow> collect gen (rev xs) = Inr (rev ds)"
proof (induction xs arbitrary: ds)
  case (Cons x xs)
  then obtain d ds' where "gen x = Inr d" "collect gen xs = Inr ds'" "ds = d # ds'" by (auto simp: rbind_Inr_iff)
  then show ?case using Cons.IH by (simp add: collect_append append_results_Inr)
qed simp

lemma run_concat:
  "apply_all (concat dss) = fold apply_all dss" "undo_all (concat dss) = fold undo_all (rev dss)"
  by (induction dss) (simp_all add: apply_all_def undo_all_def)

text \<open>All changes between two sets of objects: the names on either side and what they stand for.\<close>

context object_changes
begin

lemma run_sets:
  assumes c: "collect (\<lambda>(a, b). D a b) ps = Inr dss" and act: "\<And>a b. act (a, b) = (case D a b of Inl _ \<Rightarrow> None | Inr ds \<Rightarrow> Some (run ds))"
    and ps: "\<And>p. p \<in> set ps \<longleftrightarrow> (\<exists>n \<in> N. p = (old n, new n))"
    and ok: "\<forall>p \<in> set ps. proper_change nm p \<and> allowed p" and d: "distinct (map (change_name nm) ps)"
    and nm: "\<And>n. n \<in> N \<Longrightarrow> change_name nm (old n, new n) = n"
    and h: "\<forall>n \<in> N. has c n (old n)"
  shows "(\<forall>n \<in> N. has (fold run dss c) n (new n)) \<and> (\<forall>k. (\<forall>n \<in> N. k \<notin> region n) \<longrightarrow> fold run dss c k = c k)"
proof -
  have "\<forall>p \<in> set ps. has c (change_name nm p) (fst p)" using h ps nm by auto
  from run_collected [OF c act ok d this]
  have r: "\<forall>p \<in> set ps. has (fold run dss c) (change_name nm p) (snd p)"
    "\<And>k. \<forall>p \<in> set ps. k \<notin> region (change_name nm p) \<Longrightarrow> fold run dss c k = c k" by blast+
  have "has (fold run dss c) n (new n)" if "n \<in> N" for n
    using r(1) [rule_format, of "(old n, new n)"] ps nm [OF that] that by auto
  moreover have "fold run dss c k = c k" if "\<forall>n \<in> N. k \<notin> region n" for k
    by (rule r(2)) (use that ps nm in auto)
  ultimately show ?thesis by blast
qed

lemma run_forward:
  assumes s: "diff_sets nm D code db = Inr ds" and act: "\<And>a b. act (a, b) = table_act apply_all (D a b)"
    and d: "distinct (map nm code)" "distinct (map nm db)" and ok: "\<forall>p \<in> set (changes nm code db). allowed p"
    and N: "N = nm ` set code \<union> nm ` set db" and h: "\<forall>n \<in> N. has c n (by_name nm db n)"
  shows "(\<forall>n \<in> N. has (apply_all ds c) n (by_name nm code n)) \<and> (\<forall>k. (\<forall>n \<in> N. k \<notin> region n) \<longrightarrow> apply_all ds c k = c k)"
proof -
  obtain dss where dss: "collect (\<lambda>(a, b). D a b) (changes nm code db) = Inr dss" "ds = concat dss"
    using s by (auto simp: diff_sets_changes rbind_Inr_iff)
  have nm: "change_name nm (by_name nm db n, by_name nm code n) = n" if "n \<in> N" for n
    using that by_name_distinct [OF d(1)] by_name_distinct [OF d(2)] by_name_None [of nm] N
    by (auto simp: change_name_def split: option.splits)
  show ?thesis
    using run_sets [OF dss(1), of apply_all N "by_name nm db" "by_name nm code" c]
      act [unfolded table_act_def] set_changes [OF d] changes_distinct [OF d] ok nm h N
    by (simp add: dss(2) run_concat)
qed

lemma run_backward:
  assumes s: "diff_sets nm D code db = Inr ds" and act: "\<And>a b. act (b, a) = table_act undo_all (D a b)"
    and d: "distinct (map nm code)" "distinct (map nm db)" and ok: "\<forall>p \<in> set (changes nm code db). allowed (prod.swap p)"
    and N: "N = nm ` set code \<union> nm ` set db" and h: "\<forall>n \<in> N. has c n (by_name nm code n)"
  shows "(\<forall>n \<in> N. has (undo_all ds c) n (by_name nm db n)) \<and> (\<forall>k. (\<forall>n \<in> N. k \<notin> region n) \<longrightarrow> undo_all ds c k = c k)"
proof -
  obtain dss where dss: "collect (\<lambda>(a, b). D a b) (changes nm code db) = Inr dss" "ds = concat dss"
    using s by (auto simp: diff_sets_changes rbind_Inr_iff)
  let ?ps = "rev (map prod.swap (changes nm code db))"
  have "collect (\<lambda>(b, a). D a b) (map prod.swap (changes nm code db)) = Inr dss"
    using dss(1) by (simp add: collect_map case_prod_unfold)
  then have c: "collect (\<lambda>(b, a). D a b) ?ps = Inr (rev dss)" by (rule collect_rev)
  have swap: "change_name nm (prod.swap p) = change_name nm p \<and> proper_change nm (prod.swap p)" if "proper_change nm p" for p
    using that by (auto simp: change_name_def proper_change_def split: prod.splits option.splits)
  have nm: "change_name nm (by_name nm code n, by_name nm db n) = n" if "n \<in> N" for n
    using that by_name_distinct [OF d(1)] by_name_distinct [OF d(2)] by_name_None [of nm] N
    by (auto simp: change_name_def split: option.splits)
  have names: "map (change_name nm) ?ps = rev (map (change_name nm) (changes nm code db))"
    using swap changes_distinct(2) [OF d] by (simp add: rev_map)
  show ?thesis
  proof (rule run_sets [OF c, of undo_all N "by_name nm code" "by_name nm db" c, folded run_concat, folded dss(2)])
    show "act (b, a) = (case D a b of Inl _ \<Rightarrow> None | Inr ds \<Rightarrow> Some (undo_all ds))" for a b
      by (simp add: act table_act_def)
    show "p \<in> set ?ps \<longleftrightarrow> (\<exists>n \<in> N. p = (by_name nm code n, by_name nm db n))" for p
    proof -
      have "p \<in> set ?ps \<longleftrightarrow> prod.swap p \<in> set (changes nm code db)" by (cases p) force
      then show ?thesis unfolding set_changes [OF d] N [symmetric] by (cases p) (simp add: conj_commute)
    qed
    show "\<forall>p \<in> set ?ps. proper_change nm p \<and> allowed p" using ok swap changes_distinct(2) [OF d] by auto
    show "distinct (map (change_name nm) ?ps)" unfolding names using changes_distinct(1) [OF d] by simp
  qed (use nm h in auto)
qed

end

end
