(* ===== verification/Schema_Reconcile.thy ===== *)
theory Schema_Reconcile
  imports Schema_Diff_Correct
begin

text \<open>
  Whole schemas: the diffs from a database to the schema in the code make the database the schema,
  taking them back restores the database, and there are none exactly when nothing that the engine
  compares differs.
\<close>

section \<open>The catalog of a schema\<close>

definition slot :: "catalog \<Rightarrow> string \<Rightarrow> table_definition option \<Rightarrow> bool" where
  "slot c n t = (case t of None \<Rightarrow> \<forall>k \<in> table_region n. c k = None | Some t \<Rightarrow> tb_name t = n \<and> table_holds c t)"

definition table_named :: "schema_snapshot \<Rightarrow> string \<Rightarrow> table_definition option" where
  "table_named s n =
     (case by_name tb_name (ss_tables s) n of
        Some t \<Rightarrow> Some t
      | None \<Rightarrow> map_option edgeToTableProxy (by_name ed_name (ss_edges s) n))"

text \<open>The catalog has the tables, edges and buckets of the schema and nothing else.\<close>

definition realises :: "catalog \<Rightarrow> schema_snapshot \<Rightarrow> bool" where
  "realises c s \<longleftrightarrow>
     (\<forall>n. slot c n (table_named s n)) \<and> (\<forall>b. c (BucketKey b) \<noteq> None \<longleftrightarrow> b \<in> bk_name ` set (ss_buckets s))"

definition wf_snapshot :: "schema_snapshot \<Rightarrow> bool" where
  "wf_snapshot s \<longleftrightarrow>
     distinct (map tb_name (ss_tables s)) \<and> distinct (map ed_name (ss_edges s)) \<and> distinct (map bk_name (ss_buckets s))
     \<and> (\<forall>t \<in> set (ss_tables s). wf_table t) \<and> (\<forall>e \<in> set (ss_edges s). wf_table (edgeToTableProxy e))"

definition table_names :: "schema_snapshot \<Rightarrow> string set" where
  "table_names s = tb_name ` set (ss_tables s)"

definition edge_names :: "schema_snapshot \<Rightarrow> string set" where
  "edge_names s = ed_name ` set (ss_edges s)"

text \<open>No name is a table on one side and an edge on either.\<close>

definition kinds_apart :: "schema_snapshot \<Rightarrow> schema_snapshot \<Rightarrow> bool" where
  "kinds_apart s s' \<longleftrightarrow> (table_names s \<union> table_names s') \<inter> (edge_names s \<union> edge_names s') = {}"

lemma slot_tables: "tables.forward.has c n t = slot c n t"
  unfolding tables.forward.has_def slot_def by (rule refl)

lemma slot_edges: "edges.forward.has c n e = slot c n (map_option edgeToTableProxy e)"
  unfolding edges.forward.has_def slot_def by (cases e) (simp_all only: option.case option.map)

section \<open>The three passes\<close>

lemma slot_cong: "\<forall>k \<in> table_region n. c k = c' k \<Longrightarrow> slot c n t \<longleftrightarrow> slot c' n t"
  using table_local [of _ c c'] table_local [of _ c' c] by (auto simp: slot_def split: option.splits)

lemma bucket_not_in_table: "BucketKey b \<notin> table_region n"
  by (simp add: table_region_def)

text \<open>A run between passes: the tables, edges and buckets the catalog has so far.\<close>

definition stage ::
  "string set \<Rightarrow> string set \<Rightarrow> catalog \<Rightarrow> (string \<Rightarrow> table_definition option) \<Rightarrow> (string \<Rightarrow> table_definition option) \<Rightarrow> string set \<Rightarrow> bool" where
  "stage M N c T E B \<longleftrightarrow>
     (\<forall>n \<in> M. slot c n (T n)) \<and> (\<forall>n \<in> N. slot c n (E n)) \<and> (\<forall>n. n \<notin> M \<union> N \<longrightarrow> slot c n None)
     \<and> (\<forall>b. c (BucketKey b) \<noteq> None \<longleftrightarrow> b \<in> B)"

lemma stage_swap: "stage M N c T E B \<longleftrightarrow> stage N M c E T B"
  by (auto simp: stage_def)

lemma stage_pass:
  assumes st: "stage M N c T E B" and apart: "M \<inter> N = {}"
    and pass: "(\<forall>n \<in> M. slot c' n (T' n)) \<and> (\<forall>k. (\<forall>n \<in> M. k \<notin> table_region n) \<longrightarrow> c' k = c k)"
  shows "stage M N c' T' E B"
proof -
  have same: "slot c' n t \<longleftrightarrow> slot c n t" if "n \<notin> M" for n t
  proof (rule slot_cong, rule ballI)
    fix k assume "k \<in> table_region n"
    then have "k \<notin> table_region m" if "m \<in> M" for m using table_regions [of n m] that \<open>n \<notin> M\<close> by (metis disjoint_iff)
    then show "c' k = c k" using pass by blast
  qed
  have buckets: "c' (BucketKey b) = c (BucketKey b)" for b using pass bucket_not_in_table by blast
  show ?thesis
    unfolding stage_def
  proof (intro conjI ballI allI impI)
    show "slot c' n (T' n)" if "n \<in> M" for n using pass that by blast
    show "slot c' n (E n)" if "n \<in> N" for n using st same apart that unfolding stage_def by blast
    show "slot c' n None" if "n \<notin> M \<union> N" for n using st same that unfolding stage_def by blast
    show "c' (BucketKey b) \<noteq> None \<longleftrightarrow> b \<in> B" for b using st buckets unfolding stage_def by metis
  qed
qed

lemma stage_buckets:
  assumes st: "stage M N c T E B" and same: "\<forall>n. \<forall>k \<in> table_region n. c' k = c k"
    and b: "\<forall>b. c' (BucketKey b) \<noteq> None \<longleftrightarrow> b \<in> B'"
  shows "stage M N c' T E B'"
proof -
  have "slot c' n t \<longleftrightarrow> slot c n t" for n t using same by (intro slot_cong) blast
  then show ?thesis using st b unfolding stage_def by simp
qed

definition edge_named :: "schema_snapshot \<Rightarrow> string \<Rightarrow> table_definition option" where
  "edge_named s n = map_option edgeToTableProxy (by_name ed_name (ss_edges s) n)"

definition bucket_names :: "schema_snapshot \<Rightarrow> string set" where
  "bucket_names s = bk_name ` set (ss_buckets s)"

lemma realises_stage:
  assumes "kinds_apart code db" "s = code \<or> s = db"
    and "M = table_names code \<union> table_names db" "N = edge_names code \<union> edge_names db"
  shows "realises c s \<longleftrightarrow> stage M N c (by_name tb_name (ss_tables s)) (edge_named s) (bucket_names s)"
proof -
  have T: "by_name tb_name (ss_tables s) n = None" if "n \<notin> M" for n
    using that assms(2,3) by (auto simp: by_name_None table_names_def)
  have E: "edge_named s n = None" if "n \<notin> N" for n
    using that assms(2,4) by (auto simp: by_name_None edge_names_def edge_named_def)
  have apart: "M \<inter> N = {}" using assms by (simp add: kinds_apart_def)
  have tables: "table_named s n = by_name tb_name (ss_tables s) n" if "n \<in> M" for n
  proof -
    have "edge_named s n = None" using apart that by (intro E) blast
    then show ?thesis by (simp add: table_named_def edge_named_def split: option.splits)
  qed
  have edges: "table_named s n = edge_named s n" if "n \<notin> M" for n
    using T [OF that] by (simp add: table_named_def edge_named_def)
  have "(\<forall>n. slot c n (table_named s n)) \<longleftrightarrow>
      (\<forall>n \<in> M. slot c n (by_name tb_name (ss_tables s) n)) \<and> (\<forall>n \<in> N. slot c n (edge_named s n)) \<and> (\<forall>n. n \<notin> M \<union> N \<longrightarrow> slot c n None)"
    using tables edges E apart by (metis Un_iff disjoint_iff)
  then show ?thesis unfolding realises_def stage_def bucket_names_def by blast
qed

lemma changes_members:
  assumes "distinct (map nm code)" "distinct (map nm db)" "(a, b) \<in> set (changes nm code db)"
  shows "pred_option (\<lambda>x. x \<in> set db) a \<and> pred_option (\<lambda>x. x \<in> set code) b"
  using assms(3) unfolding changes_def by (auto simp: set_common_pairs [OF assms(2,1)] set_only_in)

lemma changes_wf:
  assumes "distinct (map nm code)" "distinct (map nm db)" "\<forall>x \<in> set code \<union> set db. wf_table (as_table x)"
  shows "\<forall>p \<in> set (changes nm code db). wf_pair as_table p"
proof
  fix p assume p: "p \<in> set (changes nm code db)"
  then show "wf_pair as_table p"
    using changes_members [OF assms(1,2), of "fst p" "snd p"] assms(3) by (auto simp: wf_pair_def pred_option_def)
qed

lemma changes_undoable:
  assumes "distinct (map nm code)" "distinct (map nm db)" "\<forall>x \<in> set code \<union> set db. wf_table (as_table x)"
    and "nm ` set db \<subseteq> nm ` set code"
  shows "\<forall>p \<in> set (changes nm code db). undoable as_table (prod.swap p)"
proof
  fix p assume p: "p \<in> set (changes nm code db)"
  then obtain n where n: "n \<in> nm ` set code \<union> nm ` set db" "p = (by_name nm db n, by_name nm code n)"
    unfolding set_changes [OF assms(1,2)] by blast
  then have "by_name nm code n \<noteq> None" using assms(4) by (auto simp: by_name_None)
  moreover have "wf_pair as_table p" using changes_wf [OF assms(1-3)] p by blast
  ultimately show "undoable as_table (prod.swap p)" using n(2) by (simp add: undoable_def wf_pair_def)
qed

lemma wf_snapshotD:
  assumes "wf_snapshot s"
  shows "distinct (map tb_name (ss_tables s))" "distinct (map ed_name (ss_edges s))" "distinct (map bk_name (ss_buckets s))"
    "\<forall>t \<in> set (ss_tables s). wf_table t" "\<forall>e \<in> set (ss_edges s). wf_table (edgeToTableProxy e)"
  using assms by (simp_all add: wf_snapshot_def)

lemma bucket_slot: "forward_buckets.has c n (by_name bk_name bs n) \<longleftrightarrow> (c (BucketKey n) \<noteq> None \<longleftrightarrow> n \<in> bk_name ` set bs)"
  if "distinct (map bk_name bs)"
proof (cases "by_name bk_name bs n")
  case None
  then show ?thesis using by_name_None [of bk_name bs n] by (simp add: forward_buckets.has_def)
next
  case (Some b)
  then have "b \<in> set bs" "bk_name b = n" using by_name_distinct [OF that, of n b] by simp_all
  then show ?thesis using Some by (auto simp: forward_buckets.has_def bucket_holds_def)
qed

lemma bucket_pass:
  assumes d: "distinct (map bk_name code)" "distinct (map bk_name db)" and N: "N = bk_name ` set code \<union> bk_name ` set db"
    and pass: "(\<forall>n \<in> N. forward_buckets.has c' n (by_name bk_name code n)) \<and> (\<forall>k. (\<forall>n \<in> N. k \<notin> {BucketKey n}) \<longrightarrow> c' k = c k)"
    and h: "\<forall>b. c (BucketKey b) \<noteq> None \<longleftrightarrow> b \<in> bk_name ` set db"
  shows "\<forall>b. c' (BucketKey b) \<noteq> None \<longleftrightarrow> b \<in> bk_name ` set code" "\<forall>n. \<forall>k \<in> table_region n. c' k = c k"
proof -
  show "\<forall>b. c' (BucketKey b) \<noteq> None \<longleftrightarrow> b \<in> bk_name ` set code"
  proof
    fix b
    show "c' (BucketKey b) \<noteq> None \<longleftrightarrow> b \<in> bk_name ` set code"
    proof (cases "b \<in> N")
      case True
      then show ?thesis using pass unfolding bucket_slot [OF d(1)] by blast
    next
      case False
      then have "c' (BucketKey b) = c (BucketKey b)" using pass by blast
      then show ?thesis using h False N by simp
    qed
  qed
  show "\<forall>n. \<forall>k \<in> table_region n. c' k = c k" using pass bucket_not_in_table by (metis singletonD)
qed

section \<open>From the database to the schema in the code\<close>

lemma DiffSchemas_passes:
  assumes "DiffSchemas code db = Inr ds"
  obtains x y z where "ds = x @ y @ z" "diff_sets tb_name DiffTables (ss_tables code) (ss_tables db) = Inr x"
    "diff_sets ed_name DiffEdges (ss_edges code) (ss_edges db) = Inr y"
    "diff_sets bk_name DiffBuckets (ss_buckets code) (ss_buckets db) = Inr z"
  using assms by (auto simp: DiffSchemas_def diffBucketSets_def append_results_Inr)

lemma tables_forward:
  assumes "diff_sets tb_name DiffTables (ss_tables code) (ss_tables db) = Inr x" and wf: "wf_snapshot code" "wf_snapshot db"
    and M: "M = table_names code \<union> table_names db" and h: "\<forall>n \<in> M. slot c n (by_name tb_name (ss_tables db) n)"
  shows "(\<forall>n \<in> M. slot (apply_all x c) n (by_name tb_name (ss_tables code) n))
    \<and> (\<forall>k. (\<forall>n \<in> M. k \<notin> table_region n) \<longrightarrow> apply_all x c k = c k)"
proof -
  note w = wf_snapshotD [OF wf(1)] wf_snapshotD [OF wf(2)]
  show ?thesis
    by (rule tables.forward.run_forward [OF assms(1) _ w(1) w(6) changes_wf [OF w(1) w(6)], unfolded slot_tables])
      (use w M h in \<open>simp_all add: table_names_def ball_Un\<close>)
qed

lemma edges_forward:
  assumes "diff_sets ed_name DiffEdges (ss_edges code) (ss_edges db) = Inr y" and wf: "wf_snapshot code" "wf_snapshot db"
    and N: "N = edge_names code \<union> edge_names db" and h: "\<forall>n \<in> N. slot c n (edge_named db n)"
  shows "(\<forall>n \<in> N. slot (apply_all y c) n (edge_named code n))
    \<and> (\<forall>k. (\<forall>n \<in> N. k \<notin> table_region n) \<longrightarrow> apply_all y c k = c k)"
proof -
  note w = wf_snapshotD [OF wf(1)] wf_snapshotD [OF wf(2)]
  have ok: "\<forall>p \<in> set (changes ed_name (ss_edges code) (ss_edges db)). wf_pair edgeToTableProxy p"
    by (rule changes_wf) (use w in auto)
  show ?thesis
    using edges.forward.run_forward [unfolded slot_edges, unfolded edge_proxy, of DiffEdges "ss_edges code" "ss_edges db" y N c] assms(1) w ok N h
    by (simp add: edge_names_def edge_named_def)
qed

lemma tables_backward:
  assumes "diff_sets tb_name DiffTables (ss_tables code) (ss_tables db) = Inr x" and wf: "wf_snapshot code" "wf_snapshot db"
    and M: "M = table_names code \<union> table_names db" and h: "\<forall>n \<in> M. slot c n (by_name tb_name (ss_tables code) n)"
    and kept: "table_names db \<subseteq> table_names code"
  shows "(\<forall>n \<in> M. slot (undo_all x c) n (by_name tb_name (ss_tables db) n))
    \<and> (\<forall>k. (\<forall>n \<in> M. k \<notin> table_region n) \<longrightarrow> undo_all x c k = c k)"
proof -
  note w = wf_snapshotD [OF wf(1)] wf_snapshotD [OF wf(2)]
  have ok: "\<forall>p \<in> set (changes tb_name (ss_tables code) (ss_tables db)). undoable (\<lambda>t. t) (prod.swap p)"
    by (rule changes_undoable) (use w kept in \<open>auto simp: table_names_def\<close>)
  show ?thesis
    using tables.backward.run_backward [unfolded slot_tables, of DiffTables "ss_tables code" "ss_tables db" x M c] assms(1) w ok M h
    by (simp add: table_names_def)
qed

lemma edges_backward:
  assumes "diff_sets ed_name DiffEdges (ss_edges code) (ss_edges db) = Inr y" and wf: "wf_snapshot code" "wf_snapshot db"
    and N: "N = edge_names code \<union> edge_names db" and h: "\<forall>n \<in> N. slot c n (edge_named code n)"
    and kept: "edge_names db \<subseteq> edge_names code"
  shows "(\<forall>n \<in> N. slot (undo_all y c) n (edge_named db n))
    \<and> (\<forall>k. (\<forall>n \<in> N. k \<notin> table_region n) \<longrightarrow> undo_all y c k = c k)"
proof -
  note w = wf_snapshotD [OF wf(1)] wf_snapshotD [OF wf(2)]
  have ok: "\<forall>p \<in> set (changes ed_name (ss_edges code) (ss_edges db)). undoable edgeToTableProxy (prod.swap p)"
    by (rule changes_undoable) (use w kept in \<open>auto simp: edge_names_def\<close>)
  show ?thesis
    using edges.backward.run_backward [unfolded slot_edges, unfolded edge_proxy, of DiffEdges "ss_edges code" "ss_edges db" y N c]
      assms(1) w ok N h by (simp add: edge_names_def edge_named_def)
qed

lemma buckets_pass:
  assumes "diff_sets bk_name DiffBuckets (ss_buckets code) (ss_buckets db) = Inr z" and wf: "wf_snapshot code" "wf_snapshot db"
  shows "\<forall>b. c (BucketKey b) \<noteq> None \<longleftrightarrow> b \<in> bucket_names db \<Longrightarrow>
      (\<forall>b. apply_all z c (BucketKey b) \<noteq> None \<longleftrightarrow> b \<in> bucket_names code) \<and> (\<forall>n. \<forall>k \<in> table_region n. apply_all z c k = c k)"
    and "\<forall>b. c (BucketKey b) \<noteq> None \<longleftrightarrow> b \<in> bucket_names code \<Longrightarrow>
      (\<forall>b. undo_all z c (BucketKey b) \<noteq> None \<longleftrightarrow> b \<in> bucket_names db) \<and> (\<forall>n. \<forall>k \<in> table_region n. undo_all z c k = c k)"
proof -
  let ?N = "bk_name ` set (ss_buckets code) \<union> bk_name ` set (ss_buckets db)"
  note d = wf_snapshotD(3) [OF wf(1)] wf_snapshotD(3) [OF wf(2)]
  show "(\<forall>b. apply_all z c (BucketKey b) \<noteq> None \<longleftrightarrow> b \<in> bucket_names code) \<and> (\<forall>n. \<forall>k \<in> table_region n. apply_all z c k = c k)"
    if h: "\<forall>b. c (BucketKey b) \<noteq> None \<longleftrightarrow> b \<in> bucket_names db"
  proof -
    have "(\<forall>n \<in> ?N. forward_buckets.has (apply_all z c) n (by_name bk_name (ss_buckets code) n))
        \<and> (\<forall>k. (\<forall>n \<in> ?N. k \<notin> {BucketKey n}) \<longrightarrow> apply_all z c k = c k)"
      by (rule forward_buckets.run_forward [OF assms(1) _ d]) (use h in \<open>simp_all add: bucket_slot [OF d(2)] bucket_names_def\<close>)
    from bucket_pass [OF d refl this h [unfolded bucket_names_def]] show ?thesis by (simp add: bucket_names_def)
  qed
  show "(\<forall>b. undo_all z c (BucketKey b) \<noteq> None \<longleftrightarrow> b \<in> bucket_names db) \<and> (\<forall>n. \<forall>k \<in> table_region n. undo_all z c k = c k)"
    if h: "\<forall>b. c (BucketKey b) \<noteq> None \<longleftrightarrow> b \<in> bucket_names code"
  proof -
    have "(\<forall>n \<in> ?N. forward_buckets.has (undo_all z c) n (by_name bk_name (ss_buckets db) n))
        \<and> (\<forall>k. (\<forall>n \<in> ?N. k \<notin> {BucketKey n}) \<longrightarrow> undo_all z c k = c k)"
      by (rule backward_buckets.run_backward [OF assms(1) _ d]) (use h in \<open>simp_all add: bucket_slot [OF d(1)] bucket_names_def\<close>)
    from bucket_pass [OF d(2,1) _ this h [unfolded bucket_names_def]] show ?thesis by (simp add: bucket_names_def Un_commute)
  qed
qed

section \<open>When there is nothing to do\<close>

definition same_by :: "('a \<Rightarrow> string) \<Rightarrow> ('a \<Rightarrow> 'a \<Rightarrow> bool) \<Rightarrow> 'a list \<Rightarrow> 'a list \<Rightarrow> bool" where
  "same_by nm same xs ys \<longleftrightarrow>
     nm ` set xs = nm ` set ys \<and> (\<forall>x \<in> set xs. \<forall>y \<in> set ys. nm x = nm y \<longrightarrow> same x y)"

text \<open>What the engine compares: the fields with their clauses, the names of the indexes and events, and
  the permissions of a table; neither its mode nor what an index or an event is.\<close>

definition same_table :: "table_definition \<Rightarrow> table_definition \<Rightarrow> bool" where
  "same_table a b \<longleftrightarrow>
     same_by fd_name fieldsEqual (tb_fields a) (tb_fields b) \<and> ix_name ` set (tb_indexes a) = ix_name ` set (tb_indexes b)
     \<and> ev_name ` set (tb_events a) = ev_name ` set (tb_events b) \<and> tb_permissions a = tb_permissions b"

definition same_schema :: "schema_snapshot \<Rightarrow> schema_snapshot \<Rightarrow> bool" where
  "same_schema s s' \<longleftrightarrow>
     same_by tb_name same_table (ss_tables s) (ss_tables s')
     \<and> same_by ed_name (\<lambda>a b. same_table (edgeToTableProxy a) (edgeToTableProxy b)) (ss_edges s) (ss_edges s')
     \<and> same_by bk_name (=) (ss_buckets s) (ss_buckets s')"

lemma only_in_Nil: "only_in nm xs ys = [] \<longleftrightarrow> nm ` set xs \<subseteq> nm ` set ys"
  using set_only_in [of nm xs ys] by (auto simp flip: set_empty)

lemma append_results_Nil: "append_results a b = Inr [] \<longleftrightarrow> a = Inr [] \<and> b = Inr []"
  by (auto simp: append_results_Inr)

lemma same_by_pairs:
  assumes "distinct (map nm old)" "distinct (map nm new)"
  shows "same_by nm same old new \<longleftrightarrow>
    only_in nm new old = [] \<and> only_in nm old new = [] \<and> (\<forall>(a, b) \<in> set (common_pairs nm old new). same a b)"
  unfolding same_by_def only_in_Nil set_common_pairs [OF assms] by auto

lemma concat_collect_Nil:
  "(\<exists>dss. collect f xs = Inr dss \<and> concat dss = []) \<longleftrightarrow> (\<forall>x \<in> set xs. f x = Inr [])"
  by (induction xs) (auto simp: rbind_Inr_iff)

lemma diff_sets_Nil:
  assumes "distinct (map nm code)" "distinct (map nm db)" and "\<And>x. D None (Some x) \<noteq> Inr []" "\<And>x. D (Some x) None \<noteq> Inr []"
  shows "diff_sets nm D code db = Inr [] \<longleftrightarrow> same_by nm (\<lambda>a b. D (Some a) (Some b) = Inr []) db code"
proof -
  have "diff_sets nm D code db = Inr [] \<longleftrightarrow> (\<forall>p \<in> set (changes nm code db). (case p of (a, b) \<Rightarrow> D a b) = Inr [])"
    unfolding diff_sets_changes concat_collect_Nil [symmetric] by (auto simp: rbind_Inr_iff)
  also have "\<dots> \<longleftrightarrow> same_by nm (\<lambda>a b. D (Some a) (Some b) = Inr []) db code"
    unfolding same_by_pairs [OF assms(2,1)] changes_def using assms(3,4)
    by (cases "only_in nm code db"; cases "only_in nm db code") auto
  finally show ?thesis .
qed

lemma diff_members_Nil:
  assumes "wf_table old" "wf_table new"
  shows "diff_members old new = Inr [] \<longleftrightarrow> same_table old new"
proof -
  have "filter (\<lambda>(a, b). \<not> fieldsEqual a b) ps = [] \<longleftrightarrow> (\<forall>(a, b) \<in> set ps. fieldsEqual a b)" for ps
    by (auto simp: filter_empty_conv)
  then have "DiffFields old new = Inr [] \<longleftrightarrow> same_by fd_name fieldsEqual (tb_fields old) (tb_fields new)"
    using assms unfolding DiffFields_def append_results_Nil collect_Nil_iff wf_table_def by (simp add: same_by_pairs)
  moreover have "DiffIndexes old new = Inr [] \<longleftrightarrow> ix_name ` set (tb_indexes old) = ix_name ` set (tb_indexes new)"
    unfolding DiffIndexes_def append_results_Nil collect_Nil_iff only_in_Nil by auto
  moreover have "DiffEvents old new = Inr [] \<longleftrightarrow> ev_name ` set (tb_events old) = ev_name ` set (tb_events new)"
    unfolding DiffEvents_def append_results_Nil collect_Nil_iff only_in_Nil by auto
  ultimately show ?thesis
    by (auto simp: diff_members_def append_results_Nil same_table_def DiffPermissions_def)
qed

lemma same_by_cong:
  "(\<And>x y. x \<in> set xs \<Longrightarrow> y \<in> set ys \<Longrightarrow> nm x = nm y \<Longrightarrow> P x y = Q x y) \<Longrightarrow> same_by nm P xs ys = same_by nm Q xs ys"
  unfolding same_by_def by blast

lemma no_diffs_same:
  assumes wf: "wf_snapshot code" "wf_snapshot db"
  shows "DiffSchemas code db = Inr [] \<longleftrightarrow> same_schema db code"
proof -
  note w = wf_snapshotD [OF wf(1)] wf_snapshotD [OF wf(2)]
  have t: "diff_sets tb_name DiffTables (ss_tables code) (ss_tables db) = Inr [] \<longleftrightarrow> same_by tb_name same_table (ss_tables db) (ss_tables code)"
    using w by (subst diff_sets_Nil)
      (auto simp: DiffTables_def append_results_Nil generateAddTableDiffs_def diff_members_Nil intro!: same_by_cong)
  have e: "diff_sets ed_name DiffEdges (ss_edges code) (ss_edges db) = Inr []
      \<longleftrightarrow> same_by ed_name (\<lambda>a b. same_table (edgeToTableProxy a) (edgeToTableProxy b)) (ss_edges db) (ss_edges code)"
    using w by (subst diff_sets_Nil)
      (auto simp: DiffEdges_def append_results_Nil generateAddEdgeDiffs_def diff_members_Nil intro!: same_by_cong)
  have b: "diff_sets bk_name DiffBuckets (ss_buckets code) (ss_buckets db) = Inr [] \<longleftrightarrow> same_by bk_name (=) (ss_buckets db) (ss_buckets code)"
    using w by (subst diff_sets_Nil) (auto simp: DiffBuckets_def bucketsEqual_def intro!: same_by_cong)
  show ?thesis unfolding DiffSchemas_def diffBucketSets_def append_results_Nil same_schema_def t e b ..
qed


lemma diffs_change:
  assumes ds: "DiffSchemas code db = Inr ds" and wf: "wf_snapshot code" "wf_snapshot db" and apart: "kinds_apart code db"
    and r: "realises c db"
  shows "realises (apply_all ds c) code"
proof -
  let ?M = "table_names code \<union> table_names db" and ?N = "edge_names code \<union> edge_names db"
  obtain x y z where p: "ds = x @ y @ z" "diff_sets tb_name DiffTables (ss_tables code) (ss_tables db) = Inr x"
    "diff_sets ed_name DiffEdges (ss_edges code) (ss_edges db) = Inr y"
    "diff_sets bk_name DiffBuckets (ss_buckets code) (ss_buckets db) = Inr z" by (rule DiffSchemas_passes [OF ds])
  have MN: "?M \<inter> ?N = {}" "?N \<inter> ?M = {}" using apart by (auto simp: kinds_apart_def)
  let ?c1 = "apply_all x c" let ?c2 = "apply_all y ?c1"
  have "stage ?M ?N c (by_name tb_name (ss_tables db)) (edge_named db) (bucket_names db)"
    using r realises_stage [OF apart] by blast
  then have "stage ?M ?N ?c1 (by_name tb_name (ss_tables code)) (edge_named db) (bucket_names db)"
    by (intro stage_pass [OF _ MN(1) tables_forward [OF p(2) wf refl]]) (auto simp: stage_def)
  then have "stage ?N ?M ?c1 (edge_named db) (by_name tb_name (ss_tables code)) (bucket_names db)" by (rule stage_swap [THEN iffD1])
  then have "stage ?N ?M ?c2 (edge_named code) (by_name tb_name (ss_tables code)) (bucket_names db)"
    by (intro stage_pass [OF _ MN(2) edges_forward [OF p(3) wf refl]]) (auto simp: stage_def)
  then have st: "stage ?M ?N ?c2 (by_name tb_name (ss_tables code)) (edge_named code) (bucket_names db)" by (rule stage_swap [THEN iffD1])
  then have "\<forall>b. ?c2 (BucketKey b) \<noteq> None \<longleftrightarrow> b \<in> bucket_names db" by (simp add: stage_def)
  from buckets_pass(1) [OF p(4) wf this]
  have "stage ?M ?N (apply_all z ?c2) (by_name tb_name (ss_tables code)) (edge_named code) (bucket_names code)"
    using stage_buckets [OF st] by blast
  then show ?thesis using realises_stage [OF apart] by (simp add: p(1) apply_all_append)
qed


lemma undo_all_append: "undo_all (xs @ ys) c = undo_all xs (undo_all ys c)"
  by (simp add: undo_all_def)


section \<open>A concrete schema\<close>

definition name_field :: field_definition where
  "name_field = NewField ''name'' ''string'' []"

definition age_field :: field_definition where
  "age_field = NewField ''age'' ''int'' [WithAssertion ''$value > 0'']"

definition user_schema :: "field_definition list \<Rightarrow> edge_definition list \<Rightarrow> schema_snapshot" where
  "user_schema fs es = \<lparr>ss_tables = [NewTable ''user'' [WithFields fs]], ss_edges = es, ss_buckets = []\<rparr>"

definition user_catalog :: catalog where
  "user_catalog =
     [TableKey ''user'' \<mapsto> ''DEFINE TABLE user SCHEMAFULL;'',
      FieldKey ''user'' ''name'' \<mapsto> ''DEFINE FIELD name ON TABLE user TYPE string;'']"

lemma user_schema_simps:
  "ss_tables (user_schema fs es) = [NewTable ''user'' [WithFields fs]]" "ss_edges (user_schema fs es) = es"
  "ss_buckets (user_schema fs es) = []" "tb_name (NewTable ''user'' [WithFields fs]) = ''user''"
  "tb_fields (NewTable ''user'' [WithFields fs]) = fs" "tb_indexes (NewTable ''user'' [WithFields fs]) = []"
  "tb_events (NewTable ''user'' [WithFields fs]) = []" "tb_permissions (NewTable ''user'' [WithFields fs]) = fmempty"
  by (simp_all add: user_schema_def NewTable_def WithFields_def)

lemma user_fields:
  "fd_name name_field = ''name''" "fd_name age_field = ''age''"
  "fieldToSQL ''user'' name_field = Inr ''DEFINE FIELD name ON TABLE user TYPE string;''"
  "fieldToSQL ''user'' age_field = Inr ''DEFINE FIELD age ON TABLE user TYPE int ASSERT $value > 0;''"
  by (simp_all add: name_field_def age_field_def NewField_def WithAssertion_def fieldToSQL_def checked_clause_def clause_def flag_def)

lemma user_schema_wf: "distinct (map fd_name fs) \<Longrightarrow> es = [] \<or> es = [TypedEdge ''likes'' ''user'' ''post'' []] \<Longrightarrow> wf_snapshot (user_schema fs es)"
  by (auto simp: wf_snapshot_def user_schema_simps wf_table_def TypedEdge_def NewEdge_def)

lemma user_catalog_realises: "realises user_catalog (user_schema [name_field] [])"
proof -
  have "slot user_catalog n (table_named (user_schema [name_field] []) n)" for n
  proof (cases "n = ''user''")
    case True
    then show ?thesis
      by (auto simp: slot_def table_named_def by_name_def user_schema_simps table_holds_def user_catalog_def user_fields written_field_def
          field_text_def)
  next
    case False
    then have "user_catalog k = None" if "k \<in> table_region n" for k using that by (cases k) (auto simp: table_region_def user_catalog_def)
    with False show ?thesis by (simp add: slot_def table_named_def by_name_def user_schema_simps)
  qed
  then show ?thesis by (simp add: realises_def user_schema_simps user_catalog_def)
qed

lemma user_schemas_apart: "kinds_apart (user_schema fs []) (user_schema gs [])"
  "kinds_apart (user_schema fs [TypedEdge ''likes'' ''user'' ''post'' []]) (user_schema gs [])"
  by (simp_all add: kinds_apart_def table_names_def edge_names_def user_schema_simps TypedEdge_def NewEdge_def)

text \<open>Replacing the field \<open>name\<close> by \<open>age\<close>, and adding an edge.\<close>

definition replace_name :: "schema_diff list" where
  "replace_name =
     [(diff_on AddField ''user'' ''Add field age to user'' ''DEFINE FIELD age ON TABLE user TYPE int ASSERT $value > 0;''
         ''REMOVE FIELD age ON TABLE user;'')\<lparr>sd_field := ''age'', sd_details := [(''type'', ''int'')]\<rparr>,
      (diff_on DropField ''user'' ''Drop field name from user'' ''REMOVE FIELD name ON TABLE user;''
         ''DEFINE FIELD name ON TABLE user TYPE string;'')\<lparr>sd_field := ''name''\<rparr>]"

definition add_likes :: "schema_diff list" where
  "add_likes = [diff_on AddTable ''likes'' ''Add edge likes'' ''DEFINE TABLE likes TYPE RELATION FROM user TO post;'' ''REMOVE TABLE likes;'']"

lemma replace_name_diffs:
  "DiffSchemas (user_schema [age_field] []) (user_schema [name_field] []) = Inr replace_name"
  "DiffSchemas (user_schema [age_field] [TypedEdge ''likes'' ''user'' ''post'' []]) (user_schema [name_field] []) = Inr (replace_name @ add_likes)"
  by code_simp+




section \<open>What the engine does not see or restore\<close>

text \<open>An index, an event or a mode that changes under the same name gives no diff.\<close>

lemma index_change_unseen: "DiffIndexes (t\<lparr>tb_indexes := [i]\<rparr>) (t\<lparr>tb_indexes := [j]\<rparr>) = Inr []" if "ix_name i = ix_name j"
  using that by (simp add: DiffIndexes_def append_results_Nil collect_Nil_iff only_in_Nil)

lemma event_change_unseen: "DiffEvents (t\<lparr>tb_events := [e]\<rparr>) (t\<lparr>tb_events := [f]\<rparr>) = Inr []" if "ev_name e = ev_name f"
  using that by (simp add: DiffEvents_def append_results_Nil collect_Nil_iff only_in_Nil)

lemma mode_change_unseen: "wf_table t \<Longrightarrow> DiffTables (Some t) (Some (t\<lparr>tb_mode := m, tb_drop := d\<rparr>)) = Inr []"
  by (auto simp: DiffTables_def diff_members_Nil wf_table_def same_table_def same_by_def fieldsEqual_def distinct_map dest: inj_onD)

text \<open>Taking back the removal of a table brings back its definition but none of its fields, and that
  of an edge runs no statement at all.\<close>

lemma dropped_fields_lost:
  "undo_all [generateDropTableDiff t] (apply_diff (generateDropTableDiff t) c) (FieldKey (tb_name t) f) = None"
  by (simp add: undo_all_def undo_diff_def apply_diff_def generateDropTableDiff_def written_def)

lemma dropped_edge_lost: "sd_backward (generateDropEdgeDiff e) = []"
  by (simp add: generateDropEdgeDiff_def)

text \<open>A table that takes the name of an edge is defined in the pass over the tables and removed again in
  the pass over the edges.\<close>

lemma edge_to_table_lost:
  "\<exists>ds. DiffSchemas (user_schema [] []) \<lparr>ss_tables = [], ss_edges = [TypedEdge ''user'' ''a'' ''b'' []], ss_buckets = []\<rparr> = Inr ds
     \<and> apply_all ds c (TableKey ''user'') = None"
proof -
  have "DiffSchemas (user_schema [] []) \<lparr>ss_tables = [], ss_edges = [TypedEdge ''user'' ''a'' ''b'' []], ss_buckets = []\<rparr> =
      Inr [diff_on AddTable ''user'' ''Add table user'' ''DEFINE TABLE user SCHEMAFULL;'' ''REMOVE TABLE user;'',
           diff_on DropTable ''user'' ''Drop edge user'' ''REMOVE TABLE user;'' []]" by code_simp
  then show ?thesis by (simp add: apply_all_def apply_diff_def written_def)
qed

end
