(* ===== verification/Schema_Parser.thy ===== *)
theory Schema_Parser
  imports Schema_Generate Go_Regexp Go_Values
begin

text \<open>
  The parser of package \<open>schema\<close> (\<open>parser.go\<close>): from the DEFINE statements that INFO FOR DB and INFO
  FOR TABLE return back to definitions. Each clause is found by a regular expression over the whole
  statement. A Go map is the list of its entries in the order a \<open>range\<close> loop visits them.
\<close>

section \<open>Field clauses\<close>

definition Ident1 :: regex where
  "Ident1 = Grp 1 (Seq (Sat (\<lambda>c. word_char c \<and> \<not> is_digit c)) (Star (Sat word_char)))"

definition AnyChar :: regex where
  "AnyChar = Sat (\<lambda>_. True)"

definition LazyPlus :: "regex \<Rightarrow> regex" where
  "LazyPlus r = Seq r (LazyStar r)"

text \<open>Where a clause ends: before one of the keywords, at a semicolon or at the end.\<close>

definition stop_at :: "string list \<Rightarrow> regex" where
  "stop_at keywords =
     foldr Alt (map (\<lambda>k. Seqs [Spaces, LitI k, WordB]) keywords)
       (Alt (Seq (Star (Sat re_space)) (Chr (CHR '';''))) (Seq (Star (Sat re_space)) AtEnd))"

definition clause_re :: "string \<Rightarrow> string list \<Rightarrow> regex" where
  "clause_re keyword stops = Seqs [Alt AtStart (Sat re_space), LitI keyword, Spaces, Grp 1 (LazyPlus AnyChar), stop_at stops]"

definition reFieldType :: regex where
  "reFieldType = Seqs [LitI ''TYPE'', Spaces, Ident1]"

definition reFieldAssert :: regex where
  "reFieldAssert = clause_re ''ASSERT'' [''DEFAULT'', ''VALUE'', ''READONLY'', ''FLEXIBLE'', ''PERMISSIONS'']"

definition reFieldDefault :: regex where
  "reFieldDefault = clause_re ''DEFAULT'' [''VALUE'', ''READONLY'', ''FLEXIBLE'', ''PERMISSIONS'', ''ASSERT'']"

definition reFieldValueExpr :: regex where
  "reFieldValueExpr = clause_re ''VALUE'' [''DEFAULT'', ''READONLY'', ''FLEXIBLE'', ''PERMISSIONS'', ''ASSERT'']"

definition word_re :: "string \<Rightarrow> regex" where
  "word_re keyword = Seqs [WordB, LitI keyword, WordB]"

definition reFieldReadOnly :: regex where
  "reFieldReadOnly = word_re ''READONLY''"

definition reFieldFlexible :: regex where
  "reFieldFlexible = word_re ''FLEXIBLE''"

text \<open>The text of the first group of a match, if there is a match.\<close>

definition first_group :: "regex \<Rightarrow> string \<Rightarrow> string option" where
  "first_group re s = map_option (\<lambda>m. group m 1) (find_submatch re s)"

definition extractFieldType :: "string \<Rightarrow> field_type" where
  "extractFieldType def =
     (case first_group reFieldType def of
        None \<Rightarrow> ''any''
      | Some t \<Rightarrow> if to_lower t \<in> set field_types then to_lower t else ''any'')"

definition trim_suffix :: "string \<Rightarrow> string \<Rightarrow> string" where
  "trim_suffix s suf = (if has_suffix s suf then take (length s - length suf) s else s)"

definition extract_clause :: "regex \<Rightarrow> string \<Rightarrow> string" where
  "extract_clause re def =
     (case first_group re def of None \<Rightarrow> [] | Some t \<Rightarrow> trim_space (trim_suffix t '';''))"

definition extractAssertion :: "string \<Rightarrow> string" where "extractAssertion def = extract_clause reFieldAssert def"
definition extractDefault :: "string \<Rightarrow> string" where "extractDefault def = extract_clause reFieldDefault def"
definition extractValue :: "string \<Rightarrow> string" where "extractValue def = extract_clause reFieldValueExpr def"
definition extractReadOnly :: "string \<Rightarrow> bool" where "extractReadOnly def = matches_anywhere reFieldReadOnly def"
definition extractFlexible :: "string \<Rightarrow> bool" where "extractFlexible def = matches_anywhere reFieldFlexible def"

definition parse_error :: "string \<Rightarrow> go_error" where
  "parse_error msg = err_new ErrSchemaParse msg"

text \<open>The two checks at the start of every parser of a statement.\<close>

definition parse_guard :: "string \<Rightarrow> string \<Rightarrow> string \<Rightarrow> go_error option" where
  "parse_guard kind name def =
     (if name = [] then Some (parse_error (kind @ '' name cannot be empty''))
      else if trim_space def = [] then Some (parse_error (kind @ '' '' @ go_quote name @ '' has empty definition''))
      else None)"

definition ParseField :: "string \<Rightarrow> string \<Rightarrow> field_definition result" where
  "ParseField fieldName def =
     (case parse_guard ''field'' fieldName def of
        Some e \<Rightarrow> Inl e
      | None \<Rightarrow>
          Inr \<lparr>fd_name = fieldName, fd_type = extractFieldType def, fd_assertion = extractAssertion def,
            fd_default = extractDefault def, fd_value = extractValue def, fd_permissions = fmempty,
            fd_readonly = extractReadOnly def, fd_flexible = extractFlexible def\<rparr>)"

section \<open>Index clauses\<close>

definition columns_re :: "string \<Rightarrow> regex" where
  "columns_re keyword =
     Seqs [LitI keyword, Spaces, Grp 1 (LazyPlus (Sat (\<lambda>c. c \<noteq> CHR '';''))),
       stop_at [''UNIQUE'', ''FULLTEXT'', ''SEARCH'', ''HNSW'', ''MTREE'', ''DISKANN'']]"

definition Digits1 :: regex where
  "Digits1 = Grp 1 (Plus (Sat is_digit))"

definition number_re :: "string \<Rightarrow> regex" where
  "number_re keyword = Seqs [WordB, LitI keyword, Spaces, Digits1]"

definition reIndexDim :: regex where
  "reIndexDim = Seqs [LitI ''DIMENSION'', Spaces, Digits1]"

definition reIndexDist :: regex where
  "reIndexDist = Seqs [Alt (LitI ''DIST'') (LitI ''DISTANCE''), Spaces, Ident1]"

definition reIndexAnlzr :: regex where
  "reIndexAnlzr = Seqs [LitI ''ANALYZER'', Spaces, Grp 1 (Plus (Sat word_char))]"

definition reIndexAlpha :: regex where
  "reIndexAlpha =
     Seqs [WordB, LitI ''ALPHA'', Spaces,
       Grp 1 (Seq (Plus (Sat is_digit)) (Opt (Seq (Chr (CHR ''.'')) (Plus (Sat is_digit)))))]"

definition splitColumns :: "string \<Rightarrow> string list" where
  "splitColumns raw = filter (\<lambda>p. p \<noteq> []) (map trim_space (split_on CHR '','' raw))"

definition extract_columns :: "string \<Rightarrow> string \<Rightarrow> string list" where
  "extract_columns keyword def = (case first_group (columns_re keyword) def of Some raw \<Rightarrow> splitColumns raw | None \<Rightarrow> [])"

definition extractIndexType :: "string \<Rightarrow> string" where
  "extractIndexType def =
     (let up = to_upper def in
      if str_contains up ''UNIQUE'' then ''UNIQUE''
      else if str_contains up ''HNSW'' then ''HNSW''
      else if str_contains up ''MTREE'' then ''MTREE''
      else if str_contains up ''DISKANN'' then ''DISKANN''
      else if str_contains up ''FULLTEXT'' \<or> str_contains up ''SEARCH'' then ''SEARCH''
      else ''INDEX'')"

definition extractIndexAnalyzer :: "string \<Rightarrow> string" where
  "extractIndexAnalyzer def =
     (case first_group reIndexAnlzr def of Some a \<Rightarrow> if equal_fold a ''ascii'' then [] else a | None \<Rightarrow> [])"

text \<open>\<open>strconv.Atoi\<close> of the first group; what is absent or does not fit is 0.\<close>

definition extract_number :: "regex \<Rightarrow> string \<Rightarrow> int" where
  "extract_number re def =
     (case first_group re def of Some t \<Rightarrow> (case parse_int64 t of Some n \<Rightarrow> n | None \<Rightarrow> 0) | None \<Rightarrow> 0)"

text \<open>A name out of a fixed list of names, compared in upper case.\<close>

definition extract_name :: "regex \<Rightarrow> string list \<Rightarrow> string \<Rightarrow> string" where
  "extract_name re names def =
     (case first_group re def of Some t \<Rightarrow> if to_upper t \<in> set names then to_upper t else [] | None \<Rightarrow> [])"

definition extractMtreeDimension :: "string \<Rightarrow> int" where "extractMtreeDimension def = extract_number reIndexDim def"
definition extractMtreeDistance :: "string \<Rightarrow> string" where "extractMtreeDistance def = extract_name reIndexDist mtree_distances def"
definition extractHnswDistance :: "string \<Rightarrow> string" where "extractHnswDistance def = extract_name reIndexDist hnsw_distances def"
definition extractVectorType :: "string \<Rightarrow> string" where "extractVectorType def = extract_name reFieldType vector_types def"
definition extractDiskAnnDistance :: "string \<Rightarrow> string" where
  "extractDiskAnnDistance def = extract_name reIndexDist diskann_distances def"
definition extractDiskAnnAlpha :: "string \<Rightarrow> string" where
  "extractDiskAnnAlpha def = (case first_group reIndexAlpha def of Some t \<Rightarrow> t | None \<Rightarrow> [])"

definition ParseIndex :: "string \<Rightarrow> string \<Rightarrow> index_definition result" where
  "ParseIndex indexName def =
     (case parse_guard ''index'' indexName def of
        Some e \<Rightarrow> Inl e
      | None \<Rightarrow>
          let cols = extract_columns ''COLUMNS'' def;
              columns = (if cols = [] then extract_columns ''FIELDS'' def else cols);
              ty = extractIndexType def; up = to_upper def; idx = NewIndex indexName columns ty in
          Inr (if ty = ''MTREE'' then
                 idx\<lparr>ix_dimension := extractMtreeDimension def, ix_distance := extractMtreeDistance def,
                   ix_vector := extractVectorType def\<rparr>
               else if ty = ''HNSW'' then
                 idx\<lparr>ix_dimension := extractMtreeDimension def, ix_vector := extractVectorType def,
                   ix_hnsw_distance := extractHnswDistance def, ix_efc := extract_number (number_re ''EFC'') def,
                   ix_m := extract_number (number_re ''M'') def\<rparr>
               else if ty = ''DISKANN'' then
                 idx\<lparr>ix_dimension := extractMtreeDimension def, ix_vector := extractVectorType def,
                   ix_diskann_distance := extractDiskAnnDistance def, ix_degree := extract_number (number_re ''DEGREE'') def,
                   ix_lbuild := extract_number (number_re ''L_BUILD'') def, ix_alpha := extractDiskAnnAlpha def,
                   ix_hashed := str_contains up ''HASHED_VECTOR''\<rparr>
               else if ty = ''SEARCH'' then
                 idx\<lparr>ix_analyzer := extractIndexAnalyzer def, ix_bm25 := str_contains up ''BM25'',
                   ix_highlights := str_contains up ''HIGHLIGHTS''\<rparr>
               else idx))"

section \<open>Events\<close>

definition reEventWhen :: regex where
  "reEventWhen = Seqs [LitI ''WHEN'', Spaces, Grp 1 (LazyPlus AnyChar), Spaces, LitI ''THEN'', WordB]"

definition reEventThen :: regex where
  "reEventThen =
     Seqs [LitI ''THEN'', Spaces,
       Alt (Seqs [Chr (CHR ''{''), Star (Sat re_space), Grp 1 (LazyPlus AnyChar), Star (Sat re_space), Chr (CHR ''}'')])
         (Grp 2 (LazyPlus AnyChar)),
       Alt (Seq (Star (Sat re_space)) (Chr (CHR '';''))) (Seq (Star (Sat re_space)) AtEnd)]"

definition extractEventCondition :: "string \<Rightarrow> string" where
  "extractEventCondition def = (case first_group reEventWhen def of Some t \<Rightarrow> trim_space t | None \<Rightarrow> [])"

definition extractEventAction :: "string \<Rightarrow> string" where
  "extractEventAction def =
     (case find_submatch reEventThen def of
        None \<Rightarrow> []
      | Some m \<Rightarrow> trim_space (or_default (group m 1) (group m 2)))"

definition ParseEvent :: "string \<Rightarrow> string \<Rightarrow> event_definition result" where
  "ParseEvent eventName def =
     (case parse_guard ''event'' eventName def of
        Some e \<Rightarrow> Inl e
      | None \<Rightarrow>
          let condition = extractEventCondition def; action = extractEventAction def in
          if condition = [] \<or> action = [] then
            Inl (parse_error (''event '' @ go_quote eventName @ '' missing WHEN or THEN clause''))
          else Inr \<lparr>ev_name = eventName, ev_condition = condition, ev_action = action\<rparr>)"

section \<open>Access rules\<close>

definition end_re :: regex where
  "end_re = Alt (Seq (Star (Sat re_space)) (Chr (CHR '';''))) (Seq (Star (Sat re_space)) AtEnd)"

definition reAccessType :: regex where
  "reAccessType = Seqs [LitI ''TYPE'', Spaces, Grp 1 (Alt (LitI ''JWT'') (LitI ''RECORD'')), WordB]"

definition reJwtAlgorithm :: regex where
  "reJwtAlgorithm = Seqs [LitI ''ALGORITHM'', Spaces, Grp 1 (Plus (Sat (\<lambda>c. word_char c \<and> c \<noteq> CHR ''_'')))]"

definition single_quoted :: "nat \<Rightarrow> regex" where
  "single_quoted n = Seqs [Chr (CHR 0x27), Grp n (Star (Sat (\<lambda>c. c \<noteq> CHR 0x27))), Chr (CHR 0x27)]"

definition reJwtIssuer :: regex where
  "reJwtIssuer = Seqs [LitI ''WITH'', Spaces, LitI ''ISSUER'', Spaces, single_quoted 1]"

definition reDurationBlock :: regex where
  "reDurationBlock = Seqs [LitI ''DURATION'', Spaces, Grp 1 (LazyPlus AnyChar), end_re]"

definition duration_re :: "string \<Rightarrow> regex" where
  "duration_re keyword =
     Seqs [LitI ''FOR'', Spaces, LitI keyword, Spaces, Grp 1 (LazyPlus (Sat (\<lambda>c. c \<noteq> CHR '','' \<and> c \<noteq> CHR '';''))),
       Alt (Seq (Star (Sat re_space)) (Chr (CHR '',''))) (Seq (Star (Sat re_space)) AtEnd)]"

definition extractAccessType :: "string \<Rightarrow> string" where
  "extractAccessType def = (case first_group reAccessType def of Some t \<Rightarrow> to_upper t | None \<Rightarrow> [])"

definition extractJwtAlgorithm :: "string \<Rightarrow> string" where
  "extractJwtAlgorithm def = (case first_group reJwtAlgorithm def of Some t \<Rightarrow> to_upper t | None \<Rightarrow> [])"

definition extractJwtIssuer :: "string \<Rightarrow> string" where
  "extractJwtIssuer def = (case first_group reJwtIssuer def of Some t \<Rightarrow> t | None \<Rightarrow> [])"

definition extractQuoted :: "string \<Rightarrow> string \<Rightarrow> string" where
  "extractQuoted def keyword =
     (case first_group (Seqs [WordB, LitI keyword, Spaces, single_quoted 1]) def of Some t \<Rightarrow> t | None \<Rightarrow> [])"

text \<open>\<open>paren_body depth acc s\<close> is the loop over the characters after the keyword: the text between the
  first parenthesis and the one that closes it, collected in \<open>acc\<close>.\<close>

fun paren_body :: "nat \<Rightarrow> string \<Rightarrow> string \<Rightarrow> string option" where
  "paren_body depth acc [] = None"
| "paren_body depth acc (c # cs) =
     (if c = CHR ''('' then paren_body (depth + 1) (c # acc) cs
      else if c = CHR '')'' then (if depth = 1 then Some (rev acc) else paren_body (depth - 1) (c # acc) cs)
      else paren_body depth (c # acc) cs)"

definition extractParenClause :: "string \<Rightarrow> string \<Rightarrow> string" where
  "extractParenClause def keyword =
     (case str_index (to_upper def) (to_upper keyword) of
        None \<Rightarrow> []
      | Some i \<Rightarrow>
          let rest = dropWhile (\<lambda>c. c = CHR '' '' \<or> c = CHR 0x09 \<or> c = CHR 0x0A \<or> c = CHR 0x0D) (drop (i + length keyword) def) in
          (case rest of
             [] \<Rightarrow> []
           | c # cs \<Rightarrow>
               if c \<noteq> CHR ''('' then []
               else (case paren_body 1 [] cs of Some t \<Rightarrow> trim_space t | None \<Rightarrow> [])))"

definition extractAccessDuration :: "string \<Rightarrow> string \<Rightarrow> string" where
  "extractAccessDuration def keyword =
     (case first_group reDurationBlock def of
        None \<Rightarrow> []
      | Some body \<Rightarrow>
          if to_upper keyword \<noteq> ''SESSION'' \<and> to_upper keyword \<noteq> ''TOKEN'' then []
          else (case first_group (duration_re (to_upper keyword)) (body @ '','') of Some t \<Rightarrow> trim_space t | None \<Rightarrow> []))"

definition ParseAccess :: "string \<Rightarrow> string \<Rightarrow> access_definition result" where
  "ParseAccess accessName def =
     (case parse_guard ''access'' accessName def of
        Some e \<Rightarrow> Inl e
      | None \<Rightarrow>
          let ty = extractAccessType def in
          if \<not> AccessType_IsValid ty then Inl (parse_error (''access '' @ go_quote accessName @ '' has unknown type''))
          else
            Inr \<lparr>ac_name = accessName, ac_type = ty,
              ac_jwt = (if ty = ''JWT'' then
                  Some \<lparr>jwt_algorithm = extractJwtAlgorithm def, jwt_key = extractQuoted def ''KEY'',
                    jwt_url = extractQuoted def ''URL'', jwt_issuer = extractJwtIssuer def\<rparr> else None),
              ac_record = (if ty = ''RECORD'' then
                  Some \<lparr>ra_signup = extractParenClause def ''SIGNUP'', ra_signin = extractParenClause def ''SIGNIN''\<rparr> else None),
              ac_session = extractAccessDuration def ''SESSION'', ac_token = extractAccessDuration def ''TOKEN''\<rparr>)"

section \<open>Buckets\<close>

definition reBucketBackend :: regex where
  "reBucketBackend =
     Seqs [LitI ''BACKEND'', Spaces,
       Alt (Seqs [Chr (CHR 0x22), Grp 1 (Star (Sat (\<lambda>c. c \<noteq> CHR 0x22))), Chr (CHR 0x22)]) (single_quoted 2)]"

definition extractBucketBackend :: "string \<Rightarrow> string" where
  "extractBucketBackend def =
     (case find_submatch reBucketBackend def of None \<Rightarrow> [] | Some m \<Rightarrow> or_default (group m 1) (group m 2))"

definition permissions_re :: "string \<Rightarrow> regex" where
  "permissions_re keyword = Seqs [LitI ''PERMISSIONS'', Spaces, LitI keyword, WordB]"

definition extractBucketPermissions :: "string \<Rightarrow> permissions" where
  "extractBucketPermissions def =
     (if matches_anywhere (permissions_re ''FULL'') def then fmupd ''*'' ''FULL'' fmempty
      else if matches_anywhere (permissions_re ''NONE'') def then fmupd ''*'' ''NONE'' fmempty
      else fmempty)"

definition ParseBucket :: "string \<Rightarrow> string \<Rightarrow> bucket_definition result" where
  "ParseBucket bucketName def =
     (case parse_guard ''bucket'' bucketName def of
        Some e \<Rightarrow> Inl e
      | None \<Rightarrow>
          Inr \<lparr>bk_name = bucketName, bk_backend = extractBucketBackend def, bk_readonly = matches_anywhere (word_re ''READONLY'') def,
            bk_permissions = extractBucketPermissions def, bk_comment = extractQuoted def ''COMMENT''\<rparr>)"

section \<open>Tables, edges and the whole database\<close>

type_synonym dict = "(string \<times> string) list"

definition stringAt :: "go_map \<Rightarrow> string \<Rightarrow> string" where
  "stringAt m k = (case as_string (map_index m k) of Some s \<Rightarrow> s | None \<Rightarrow> [])"

definition string_entries :: "go_map \<Rightarrow> dict" where
  "string_entries m = List.map_filter (\<lambda>(k, v). map_option (Pair k) (as_string v)) m"

fun extractStringMap :: "go_map \<Rightarrow> string list \<Rightarrow> dict" where
  "extractStringMap info [] = []"
| "extractStringMap info (k # ks) =
     (case map_get info k of
        Some (MapV m) \<Rightarrow> if string_entries m = [] then extractStringMap info ks else string_entries m
      | _ \<Rightarrow> extractStringMap info ks)"

definition parseTableMode :: "string \<Rightarrow> string" where
  "parseTableMode def =
     (let up = to_upper def in
      if def = [] then ''SCHEMALESS''
      else if str_contains up ''SCHEMAFULL'' then ''SCHEMAFULL''
      else if str_contains up ''SCHEMALESS'' then ''SCHEMALESS''
      else if str_contains up ''DROP'' then ''DROP''
      else ''SCHEMALESS'')"

definition reRelationFrom :: regex where
  "reRelationFrom = Seqs [LitI ''FROM'', Spaces, Ident1]"

definition reRelationTo :: regex where
  "reRelationTo = Seqs [WordB, LitI ''TO'', Spaces, Ident1]"

definition isEdgeDefinitionSource :: "string \<Rightarrow> bool" where
  "isEdgeDefinitionSource def = str_contains (to_upper def) ''TYPE RELATION''"

definition group_or_empty :: "regex \<Rightarrow> string \<Rightarrow> string" where
  "group_or_empty re def = (case first_group re def of Some t \<Rightarrow> t | None \<Rightarrow> [])"

definition parseEdgeFromDefinition :: "string \<Rightarrow> string \<Rightarrow> edge_definition" where
  "parseEdgeFromDefinition name def =
     (let edge = NewEdge name []; up = to_upper def in
      if str_contains up ''TYPE RELATION'' then
        edge\<lparr>ed_from := group_or_empty reRelationFrom def, ed_to := group_or_empty reRelationTo def\<rparr>
      else if str_contains up ''SCHEMAFULL'' then edge\<lparr>ed_mode := ''SCHEMAFULL''\<rparr>
      else if str_contains up ''SCHEMALESS'' then edge\<lparr>ed_mode := ''SCHEMALESS''\<rparr>
      else edge)"

text \<open>The entries that parse; the others are skipped.\<close>

definition parse_each :: "(string \<Rightarrow> string \<Rightarrow> 'a result) \<Rightarrow> dict \<Rightarrow> 'a list" where
  "parse_each parse d = List.map_filter (\<lambda>(name, def). case parse name def of Inr x \<Rightarrow> Some x | Inl _ \<Rightarrow> None) d"

definition parseFields :: "dict \<Rightarrow> field_definition list" where "parseFields d = parse_each ParseField d"
definition parseIndexes :: "dict \<Rightarrow> index_definition list" where "parseIndexes d = parse_each ParseIndex d"
definition parseEvents :: "dict \<Rightarrow> event_definition list" where "parseEvents d = parse_each ParseEvent d"

definition ParseTableInfo :: "string \<Rightarrow> go_map \<Rightarrow> table_definition result" where
  "ParseTableInfo tableName info =
     (if tableName = [] then Inl (parse_error ''table name cannot be empty'')
      else
        Inr \<lparr>tb_name = tableName, tb_mode = parseTableMode (stringAt info ''tb''),
          tb_fields = parseFields (extractStringMap info [''fields'', ''fd'']),
          tb_indexes = parseIndexes (extractStringMap info [''indexes'', ''ix'']),
          tb_events = parseEvents (extractStringMap info [''events'', ''ev'']),
          tb_permissions = fmempty, tb_drop = False\<rparr>)"

definition ParseEdgeInfo :: "string \<Rightarrow> go_map \<Rightarrow> edge_definition result" where
  "ParseEdgeInfo edgeName info =
     (if edgeName = [] then Inl (parse_error ''edge name cannot be empty'')
      else
        Inr ((parseEdgeFromDefinition edgeName (stringAt info ''tb''))
          \<lparr>ed_fields := parseFields (extractStringMap info [''fields'', ''fd'']),
            ed_indexes := parseIndexes (extractStringMap info [''indexes'', ''ix'']),
            ed_events := parseEvents (extractStringMap info [''events'', ''ev''])\<rparr>))"

record database_info =
  di_tables :: "(string \<times> table_definition) list"
  di_edges :: "(string \<times> edge_definition) list"
  di_accesses :: "(string \<times> access_definition) list"
  di_buckets :: "(string \<times> bucket_definition) list"

text \<open>The entries of a map keyed by name: no entry for an empty name or for a statement that fails.\<close>

definition keyed :: "(string \<Rightarrow> string \<Rightarrow> 'a option) \<Rightarrow> dict \<Rightarrow> (string \<times> 'a) list" where
  "keyed parse d = List.map_filter (\<lambda>(name, def). if name = [] then None else map_option (Pair name) (parse name def)) d"

definition ok_value :: "'a result \<Rightarrow> 'a option" where
  "ok_value r = (case r of Inr x \<Rightarrow> Some x | Inl _ \<Rightarrow> None)"

definition bare_table :: "string \<Rightarrow> string \<Rightarrow> table_definition" where
  "bare_table name def = NewTable name [\<lambda>t. t\<lparr>tb_mode := parseTableMode def\<rparr>]"

definition ParseDBInfo :: "go_map \<Rightarrow> database_info" where
  "ParseDBInfo info =
     (let tb = extractStringMap info [''tables'', ''tb''] in
      \<lparr>di_tables = keyed (\<lambda>name def. if isEdgeDefinitionSource def then None else Some (bare_table name def)) tb,
       di_edges = keyed (\<lambda>name def. if isEdgeDefinitionSource def then Some (parseEdgeFromDefinition name def) else None) tb,
       di_accesses = keyed (\<lambda>name def. ok_value (ParseAccess name def)) (extractStringMap info [''accesses'', ''ac'']),
       di_buckets = keyed (\<lambda>name def. ok_value (ParseBucket name def)) (extractStringMap info [''buckets'', ''bu''])\<rparr>)"

end
