(* ===== verification/Regexp_Search.thy ===== *)
theory Regexp_Search
  imports Schema_Parser
begin

text \<open>
  Searching statements with regular expressions. A statement is a list of words separated by single
  spaces and closed by a semicolon; what the patterns of the schema parser find in it is stated in
  terms of the words: clauses (\<open>clause_of_words\<close>), flags (\<open>word_anywhere\<close>) and the type of a field.
\<close>

section \<open>Rewriting matches\<close>

lemma matches_Seq_Alt: "set (matches (Seq (Alt a b) r) p s) = set (matches (Seq a r) p s) \<union> set (matches (Seq b r) p s)"
  "matches (Seq (Alt a b) r) p s = matches (Seq a r) p s @ matches (Seq b r) p s"
  by (simp_all add: matches.simps(3))

lemma matches_Seq_AtStart [simp]: "matches (Seq AtStart r) p s = (if p = None then matches r p s else [])"
  by (cases p) (simp_all add: matches.simps(3) last_before_def case_prod_beta')

lemma matches_Seq_WordB [simp]: "matches (Seq WordB r) p s = (if is_word p \<noteq> is_word (hd_opt s) then matches r p s else [])"
  by (simp add: matches.simps(3) last_before_def case_prod_beta')

lemma in_matches_Seq:
  "(x, s') \<in> set (matches (Seq r1 r2) p s) \<longleftrightarrow>
    (\<exists>x1 s1 x2. (x1, s1) \<in> set (matches r1 p s) \<and> length s1 \<le> length s \<and> (x2, s') \<in> set (matches r2 (last_before p s s1) s1) \<and> x = x1 @ x2)"
  by (force simp: matches.simps(3) split: if_splits)

lemma in_matches_Star:
  "(x, s') \<in> set (matches (Star r) p s) \<longleftrightarrow> (x = [] \<and> s' = s) \<or>
    (\<exists>x1 s1 x2. (x1, s1) \<in> set (matches r p s) \<and> length s1 < length s \<and> (x2, s') \<in> set (matches (Star r) (last_before p s s1) s1) \<and> x = x1 @ x2)"
  by (subst matches.simps(5)) (force split: if_splits)

lemma in_matches_LazyStar:
  "(x, s') \<in> set (matches (LazyStar r) p s) \<longleftrightarrow> (x = [] \<and> s' = s) \<or>
    (\<exists>x1 s1 x2. (x1, s1) \<in> set (matches r p s) \<and> length s1 < length s \<and> (x2, s') \<in> set (matches (LazyStar r) (last_before p s s1) s1) \<and> x = x1 @ x2)"
  by (subst matches.simps(9)) (force split: if_splits)

lemma matches_suffix: "(x, s') \<in> set (matches r p s) \<Longrightarrow> \<exists>u. s = u @ s'"
proof (induction r p s arbitrary: x s' rule: matches.induct)
  case (3 r1 r2 p s)
  from "3.prems" obtain x1 s1 x2 where m: "(x1, s1) \<in> set (matches r1 p s)" "length s1 \<le> length s"
    "(x2, s') \<in> set (matches r2 (last_before p s s1) s1)" unfolding in_matches_Seq by blast
  obtain u where u: "s = u @ s1" using "3.IH"(1) m(1) by blast
  have "\<exists>u. s1 = u @ s'" by (rule "3.IH"(2) [of "(x1, s1)"]) (use m in auto)
  then show ?case using u by auto
next
  case (5 r p s)
  show ?case
  proof (cases "x = [] \<and> s' = s")
    case False
    with "5.prems" obtain x1 s1 x2 where m: "(x1, s1) \<in> set (matches r p s)" "length s1 < length s"
      "(x2, s') \<in> set (matches (Star r) (last_before p s s1) s1)" unfolding in_matches_Star [of x] by blast
    obtain u where u: "s = u @ s1" using "5.IH"(1) m(1) by blast
    have "\<exists>u. s1 = u @ s'" by (rule "5.IH"(2) [of "(x1, s1)"]) (use m in auto)
    then show ?thesis using u by auto
  qed auto
next
  case (9 r p s)
  show ?case
  proof (cases "x = [] \<and> s' = s")
    case False
    with "9.prems" obtain x1 s1 x2 where m: "(x1, s1) \<in> set (matches r p s)" "length s1 < length s"
      "(x2, s') \<in> set (matches (LazyStar r) (last_before p s s1) s1)" unfolding in_matches_LazyStar [of x] by blast
    obtain u where u: "s = u @ s1" using "9.IH"(1) m(1) by blast
    have "\<exists>u. s1 = u @ s'" by (rule "9.IH"(2) [of "(x1, s1)"]) (use m in auto)
    then show ?thesis using u by auto
  qed auto
qed (auto split: list.splits if_splits)

lemma matches_length: "(x, s') \<in> set (matches r p s) \<Longrightarrow> length s' \<le> length s"
  using matches_suffix by fastforce

lemma matches_Seq:
  "matches (Seq a b) p s = concat (map (\<lambda>(x, s1). map (\<lambda>(y, s2). (x @ y, s2)) (matches b (last_before p s s1) s1)) (matches a p s))"
  unfolding matches.simps(3) by (rule arg_cong [of _ _ concat], rule map_cong) (auto dest: matches_length)

lemma last_before_trans: "s = u @ s1 \<Longrightarrow> s1 = v @ s2 \<Longrightarrow> last_before (last_before p s s1) s1 s2 = last_before p s s2"
  by (cases v) (auto simp: last_before_def nth_append)

lemma concat_map_concat: "concat (map f (concat xss)) = concat (map (\<lambda>xs. concat (map f xs)) xss)"
  by (induction xss) simp_all

lemma matches_Seq_assoc: "matches (Seq (Seq a b) r) p s = matches (Seq a (Seq b r)) p s"
proof -
  let ?f = "\<lambda>(x, s2). map (\<lambda>(y, s3). (x @ y, s3)) (matches r (last_before p s s2) s2)"
  have "concat (map ?f (map (\<lambda>(y, s2). (x @ y, s2)) (matches b (last_before p s s1) s1)))
      = map (\<lambda>(y, s3). (x @ y, s3)) (matches (Seq b r) (last_before p s s1) s1)" if m: "(x, s1) \<in> set (matches a p s)" for x s1
  proof -
    obtain u where u: "s = u @ s1" using matches_suffix [OF m] by blast
    have "last_before p s s2 = last_before (last_before p s s1) s1 s2" if "(y, s2) \<in> set (matches b (last_before p s s1) s1)" for y s2
      using matches_suffix [OF that] last_before_trans [OF u] by metis
    then have "map ?f (map (\<lambda>(y, s2). (x @ y, s2)) (matches b (last_before p s s1) s1))
        = map (\<lambda>(y, s2). map (\<lambda>(z, s3). (x @ z, s3)) (map (\<lambda>(z, s3). (y @ z, s3)) (matches r (last_before (last_before p s s1) s1 s2) s2)))
            (matches b (last_before p s s1) s1)"
      by (auto simp: case_prod_unfold)
    then have "concat (map ?f (map (\<lambda>(y, s2). (x @ y, s2)) (matches b (last_before p s s1) s1)))
        = concat (map (\<lambda>(y, s2). map (\<lambda>(z, s3). (x @ z, s3)) (map (\<lambda>(z, s3). (y @ z, s3)) (matches r (last_before (last_before p s s1) s1 s2) s2)))
            (matches b (last_before p s s1) s1))" by (rule arg_cong)
    also have "\<dots> = map (\<lambda>(y, s3). (x @ y, s3)) (matches (Seq b r) (last_before p s s1) s1)"
      unfolding matches_Seq [of b r] map_concat by (simp add: case_prod_unfold comp_def)
    finally show ?thesis .
  qed
  then have "map (\<lambda>(x, s1). concat (map ?f (map (\<lambda>(y, s2). (x @ y, s2)) (matches b (last_before p s s1) s1)))) (matches a p s)
      = map (\<lambda>(x, s1). map (\<lambda>(y, s3). (x @ y, s3)) (matches (Seq b r) (last_before p s s1) s1)) (matches a p s)"
    by (intro map_cong) auto
  moreover have "matches (Seq (Seq a b) r) p s
      = concat (map (\<lambda>(x, s1). concat (map ?f (map (\<lambda>(y, s2). (x @ y, s2)) (matches b (last_before p s s1) s1)))) (matches a p s))"
    unfolding matches_Seq [of "Seq a b"] matches_Seq [of a b] concat_map_concat by (simp add: case_prod_unfold comp_def)
  ultimately show ?thesis unfolding matches_Seq [of a "Seq b r"] by (simp only:)
qed

lemmas matches_Seq_assoc_Sat = matches_Seq_assoc [of "Sat P" for P]

definition ci_prefix :: "string \<Rightarrow> string \<Rightarrow> bool" where
  "ci_prefix t s \<longleftrightarrow> to_lower (take (length t) s) = to_lower t"

lemma ci_prefix_Cons [simp]: "ci_prefix (c # t) s \<longleftrightarrow> (\<exists>x xs. s = x # xs \<and> char_lower x = char_lower c \<and> ci_prefix t xs)"
  by (cases s) (auto simp: ci_prefix_def to_lower_def)

lemma ci_prefix_Nil [simp]: "ci_prefix [] s"
  by (simp add: ci_prefix_def to_lower_def)

lemma ci_prefix_length: "ci_prefix t s \<Longrightarrow> length t \<le> length s"
  unfolding ci_prefix_def to_lower_def by (metis length_map length_take min.cobounded1 min_def)

lemma matches_Seq_LitI:
  "matches (Seq (LitI t) r) p s =
     (if ci_prefix t s then matches r (if t = [] then p else Some (s ! (length t - 1))) (drop (length t) s) else [])"
proof (induction t arbitrary: p s)
  case Nil
  then show ?case by simp
next
  case (Cons c t)
  note assoc = matches_Seq_assoc_Sat
  show ?case
  proof (cases s)
    case Nil
    then show ?thesis by (simp add: assoc)
  next
    case (Cons x xs)
    show ?thesis
    proof (cases "char_lower x = char_lower c")
      case True
      have "matches (Seq (LitI (c # t)) r) p s = matches (Seq (LitI t) r) (Some x) xs"
        using Cons True by (simp add: assoc)
      then show ?thesis using Cons True Cons.IH [of "Some x" xs] by (cases t) auto
    next
      case False
      then show ?thesis using Cons by (simp add: assoc)
    qed
  qed
qed

lemma matches_LazyStar_Sat:
  "matches (LazyStar (Sat P)) p s = map (\<lambda>k. ([], drop k s)) [0..<Suc (length (takeWhile P s))]"
proof (induction s arbitrary: p)
  case Nil
  then show ?case by (simp add: matches.simps(9))
next
  case (Cons c cs)
  show ?case
  proof (cases "P c")
    case True
    have "[0..<Suc (Suc n)] = 0 # map Suc [0..<Suc n]" for n
      by (metis map_Suc_upt upt_conv_Cons zero_less_Suc)
    then show ?thesis using True by (subst matches.simps(9)) (simp add: Cons.IH case_prod_beta' o_def del: upt_Suc)
  next
    case False
    then show ?thesis by (subst matches.simps(9)) simp
  qed
qed

lemma matches_Grp_lazy:
  "P c \<Longrightarrow> matches (Seq (Grp i (LazyPlus (Sat P))) r) p (c # w) =
    concat (map (\<lambda>k. map (\<lambda>(x, y). ((i, take (Suc (length w) - (length w - k)) (c # w)) # x, y))
      (matches r (last_before p (c # w) (drop k w)) (drop k w))) [0..<Suc (length (takeWhile P w))])"
  by (subst matches.simps(3)) (simp add: LazyPlus_def matches_LazyStar_Sat case_prod_beta' o_def diff_le_self [THEN le_SucI] del: upt_Suc)

text \<open>A reluctant capture ends at the first place where the rest of the pattern matches.\<close>

lemma lazy_capture:
  assumes P: "P c" "\<forall>x \<in> set a. P x"
    and inside: "\<And>a1 a2 q. a = a1 @ a2 \<Longrightarrow> a2 \<noteq> [] \<Longrightarrow> matches r q (a2 @ b) = []"
    and stop: "matches r (Some (last (c # a))) b \<noteq> []"
  shows "\<exists>y s'. hd_opt (matches (Seq (Grp i (LazyPlus (Sat P))) r) p (c # a @ b)) = Some ((i, c # a) # y, s')"
proof -
  let ?s = "c # a @ b" and ?n = "length (takeWhile P (a @ b))"
  let ?f = "\<lambda>k. map (\<lambda>(x, y). ((i, take (Suc (length (a @ b)) - (length (a @ b) - k)) ?s) # x, y))
        (matches r (last_before p ?s (drop k (a @ b))) (drop k (a @ b)))"
  have n: "length a \<le> ?n" using P(2) by (simp add: takeWhile_append)
  have "matches (Seq (Grp i (LazyPlus (Sat P))) r) p ?s = concat (map ?f [0..<Suc ?n])"
    by (rule matches_Grp_lazy) (rule P(1))
  also have "[0..<Suc ?n] = [0..<length a] @ length a # [Suc (length a)..<Suc ?n]"
    using n by (metis le_imp_less_Suc upt_add_eq_append upt_conv_Cons zero_le le_eq_less_or_eq add.commute le_add_diff_inverse le_SucI)
  finally have all: "matches (Seq (Grp i (LazyPlus (Sat P))) r) p ?s
      = concat (map ?f [0..<length a]) @ ?f (length a) @ concat (map ?f [Suc (length a)..<Suc ?n])" by (simp del: upt_Suc)
  have "?f k = []" if "k < length a" for k
    using inside [of "take k a" "drop k a"] that by simp
  then have none: "concat (map ?f [0..<length a]) = []" by simp
  have last: "last_before p ?s b = Some (last (c # a))"
    by (auto simp: last_before_def nth_Cons' last_conv_nth nth_append)
  obtain m ms where m: "matches r (Some (last (c # a))) b = m # ms" using stop by (cases "matches r (Some (last (c # a))) b") auto
  have f: "?f (length a) = map (\<lambda>(x, y). ((i, c # a) # x, y)) (m # ms)"
    using m last by simp
  show ?thesis unfolding all none f by (cases m) (simp add: hd_opt_def)
qed

section \<open>Searching\<close>

lemma find_from_skip:
  assumes "\<And>a c b. x = a @ c # b \<Longrightarrow> match_here r (if a = [] then p else Some (last a)) (c # b @ y) = None"
  shows "find_from r p (x @ y) = find_from r (if x = [] then p else Some (last x)) y"
  using assms
proof (induction x arbitrary: p)
  case (Cons c x)
  have "match_here r p (c # x @ y) = None" using Cons.prems [of "[]" c x] by simp
  moreover have "find_from r (Some c) (x @ y) = find_from r (if x = [] then Some c else Some (last x)) y"
  proof (rule Cons.IH)
    fix a d b assume "x = a @ d # b"
    then show "match_here r (if a = [] then Some c else Some (last a)) (d # b @ y) = None"
      using Cons.prems [of "c # a" d b] by (auto split: if_splits)
  qed
  ultimately show ?case by (cases "x @ y") auto
qed simp

lemma match_here_None: "match_here r p s = None \<longleftrightarrow> matches r p s = []"
  by (cases "matches r p s") (auto simp: match_here_def hd_opt_def)

lemma group_match_here: "hd_opt (matches r p s) = Some ((1, t) # y, s') \<Longrightarrow> \<exists>m. match_here r p s = Some m \<and> group m 1 = t"
  by (simp add: match_here_def group_def)

section \<open>Sentences\<close>

definition word_ok :: "string \<Rightarrow> bool" where
  "word_ok w \<longleftrightarrow> w \<noteq> [] \<and> (\<forall>c \<in> set w. \<not> is_space c \<and> c \<noteq> CHR '';'')"

definition sentence :: "string list \<Rightarrow> string" where
  "sentence ws = str_join '' '' ws @ '';''"

lemma sentence_spaced: "sentence (w # ws) = w @ spaced ws @ '';''"
  by (simp add: sentence_def str_join_spaced)

lemma re_space_is_space: "re_space c \<Longrightarrow> is_space c"
  by (auto simp: re_space_def is_space_def)

lemma word_ok_chars: "word_ok w \<Longrightarrow> c \<in> set w \<Longrightarrow> \<not> re_space c \<and> c \<noteq> CHR '';''"
  using re_space_is_space by (auto simp: word_ok_def)

text \<open>A character of a text in words is part of a word or the space before one.\<close>

lemma spaced_position:
  assumes "x @ spaced ws = a @ c # b" "list_all word_ok ws" "\<forall>c \<in> set x. \<not> re_space c \<and> c \<noteq> CHR '';''"
  shows "(\<not> re_space c \<and> c \<noteq> CHR '';'') \<or> (c = CHR '' '' \<and> (\<exists>us v vs. ws = us @ v # vs \<and> b = v @ spaced vs \<and> a = x @ spaced us))"
  using assms
proof (induction ws arbitrary: x a)
  case Nil
  then show ?case by (metis append_Nil2 in_set_conv_decomp spaced_simps(1))
next
  case (Cons w ws)
  show ?case
  proof (cases "length a < length x")
    case True
    then have "c = x ! length a" using Cons.prems(1) by (metis nth_append nth_append_length)
    then show ?thesis using Cons.prems(3) True by simp
  next
    case False
    then obtain a' where a: "a = x @ a'" using Cons.prems(1) by (metis append_eq_append_conv_if append_eq_append_conv2 le_refl linorder_not_less append_take_drop_id)
    then have eq: "CHR '' '' # w @ spaced ws = a' @ c # b" using Cons.prems(1) by simp
    show ?thesis
    proof (cases a')
      case Nil
      then have "c = CHR '' ''" "b = w @ spaced ws" "a = x @ spaced []" using eq a by simp_all
      then show ?thesis by blast
    next
      case (Cons d a'')
      then have "w @ spaced ws = a'' @ c # b" and d: "d = CHR '' ''" using eq by simp_all
      moreover have "\<forall>c \<in> set w. \<not> re_space c \<and> c \<noteq> CHR '';''" using Cons.prems(2) word_ok_chars [of w] by auto
      ultimately have "(\<not> re_space c \<and> c \<noteq> CHR '';'') \<or> (c = CHR '' '' \<and> (\<exists>us v vs. ws = us @ v # vs \<and> b = v @ spaced vs \<and> a'' = w @ spaced us))"
        using Cons.IH Cons.prems(2) by simp
      then show ?thesis
      proof
        assume "c = CHR '' '' \<and> (\<exists>us v vs. ws = us @ v # vs \<and> b = v @ spaced vs \<and> a'' = w @ spaced us)"
        then obtain us v vs where "c = CHR '' ''" "ws = us @ v # vs" "b = v @ spaced vs" "a'' = w @ spaced us" by blast
        then have "c = CHR '' ''" "w # ws = (w # us) @ v # vs" "b = v @ spaced vs" "a = x @ spaced (w # us)" using a Cons d by simp_all
        then show ?thesis by blast
      qed simp
    qed
  qed
qed

section \<open>Keywords\<close>

definition kw_ok :: "string \<Rightarrow> bool" where
  "kw_ok k \<longleftrightarrow> k \<noteq> [] \<and> list_all word_char k"

definition starts_kw :: "string \<Rightarrow> string \<Rightarrow> bool" where
  "starts_kw k v \<longleftrightarrow> ci_prefix k v \<and> \<not> is_word (hd_opt (drop (length k) v))"

lemma word_char_lower: "word_char (char_lower c) \<longleftrightarrow> word_char c"
  by (auto simp: word_char_def char_lower_def is_digit_def of_char_of)

lemma word_char_eq: "char_lower x = char_lower c \<Longrightarrow> word_char c \<Longrightarrow> word_char x"
  by (metis word_char_lower)

lemma word_char_no_space: "word_char c \<Longrightarrow> \<not> re_space c \<and> c \<noteq> CHR '';'' \<and> c \<noteq> CHR '' ''"
  by (auto simp: re_space_def word_char_def is_digit_def)

text \<open>What follows a word does not start with a word character.\<close>

definition breaks :: "string \<Rightarrow> bool" where
  "breaks s \<longleftrightarrow> \<not> is_word (hd_opt s)"

lemma breaks_simps [simp]: "breaks []" "breaks (c # s) \<longleftrightarrow> \<not> word_char c"
  by (simp_all add: breaks_def is_word_def hd_opt_def)

lemma breaks_spaced [simp]: "breaks (spaced ws @ '';'')" "breaks (spaced ws @ '';'' @ t)"
  by (cases ws; simp add: word_char_def is_digit_def)+

lemma ci_prefix_word: "list_all word_char k \<Longrightarrow> breaks R \<Longrightarrow> ci_prefix k (v @ R) \<longleftrightarrow> ci_prefix k v"
proof (induction k arbitrary: v)
  case (Cons c k)
  show ?case
  proof (cases v)
    case Nil
    then show ?thesis using Cons.prems by (cases R) (auto dest: word_char_eq)
  next
    case (Cons x v')
    then show ?thesis using Cons.IH Cons.prems by simp
  qed
qed simp

lemma starts_kw_word: "kw_ok k \<Longrightarrow> breaks R \<Longrightarrow> starts_kw k (v @ R) \<longleftrightarrow> starts_kw k v"
  using ci_prefix_word [of k R v] ci_prefix_length [of k v]
  by (cases "length k = length v") (auto simp: starts_kw_def kw_ok_def breaks_def hd_opt_def drop_append is_word_def split: list.splits)

lemma matches_Spaces:
  "\<not> re_space c \<Longrightarrow> matches (Seq Spaces r) q (c # s) = []"
  "s = [] \<or> \<not> re_space (hd s) \<Longrightarrow> matches (Seq Spaces r) q (CHR '' '' # s) = matches r (Some (CHR '' '')) s"
proof -
  show "matches (Seq Spaces r) q (c # s) = []" if "\<not> re_space c"
    using that by (simp add: Spaces_def Plus_def matches_Seq_assoc_Sat)
  have sp: "re_space (CHR '' '')" by (simp add: re_space_def)
  assume a: "s = [] \<or> \<not> re_space (hd s)"
  then have t: "takeWhile re_space s = []" "dropWhile re_space s = s" by (cases s; simp)+
  have "matches (Seq (Star (Sat re_space)) r) (Some (CHR '' '')) s = matches r (last_before (Some (CHR '' '')) s (dropWhile re_space s)) (dropWhile re_space s)"
    by (rule matches_run) (simp add: t)
  then show "matches (Seq Spaces r) q (CHR '' '' # s) = matches r (Some (CHR '' '')) s"
    using sp t by (simp add: Spaces_def Plus_def matches_Seq_assoc_Sat last_before_def)
qed

lemma matches_foldr_Alt: "matches (foldr Alt rs r) q s = concat (map (\<lambda>r. matches r q s) rs) @ matches r q s"
  by (induction rs) simp_all

lemma matches_Star_space:
  "s = [] \<or> \<not> re_space (hd s) \<Longrightarrow> matches (Seq (Star (Sat re_space)) r) q s = matches r q s"
  "s = [] \<or> \<not> re_space (hd s) \<Longrightarrow> matches (Seq (Star (Sat re_space)) r) q (CHR '' '' # s) = [] \<longleftrightarrow>
     matches r (Some (CHR '' '')) s = [] \<and> matches r q (CHR '' '' # s) = []"
proof -
  assume a: "s = [] \<or> \<not> re_space (hd s)"
  have sp: "re_space (CHR '' '')" by (simp add: re_space_def)
  have t: "takeWhile re_space s = []" using a by (cases s) simp_all
  show "matches (Seq (Star (Sat re_space)) r) q s = matches r q s"
    by (subst matches.simps(3)) (simp add: matches_Star_Sat t case_prod_beta' last_before_def)
  show "matches (Seq (Star (Sat re_space)) r) q (CHR '' '' # s) = [] \<longleftrightarrow> matches r (Some (CHR '' '')) s = [] \<and> matches r q (CHR '' '' # s) = []"
    by (subst matches.simps(3)) (simp add: matches_Star_Sat t sp case_prod_beta' last_before_def)
qed

lemma matches_LitI_WordB:
  "kw_ok k \<Longrightarrow> matches (Seq (LitI k) WordB) q s \<noteq> [] \<longleftrightarrow> starts_kw k s"
proof (cases "ci_prefix k s")
  assume k: "kw_ok k"
  case True
  then have "length k \<le> length s" by (rule ci_prefix_length)
  moreover have "word_char (s ! (length k - 1))"
  proof -
    have "length k - 1 < length k" using k by (cases k) (auto simp: kw_ok_def)
    then have "char_lower (s ! (length k - 1)) = char_lower (k ! (length k - 1))"
      using True \<open>length k \<le> length s\<close> unfolding ci_prefix_def to_lower_def
      by (metis (no_types, lifting) length_map length_take min.absorb2 nth_map nth_take)
    moreover have "word_char (k ! (length k - 1))"
      using k \<open>length k - 1 < length k\<close> by (auto simp: kw_ok_def list_all_iff)
    ultimately show ?thesis by (rule word_char_eq)
  qed
  ultimately show ?thesis using k True by (simp add: matches_Seq_LitI starts_kw_def kw_ok_def is_word_def)
qed (simp add: matches_Seq_LitI starts_kw_def)

section \<open>Where a clause ends\<close>

lemma stop_alternatives:
  "matches (stop_at kws) q s = [] \<longleftrightarrow>
    (\<forall>k \<in> set kws. matches (Seq Spaces (Seq (LitI k) WordB)) q s = [])
    \<and> matches (Seq (Star (Sat re_space)) (Chr (CHR '';''))) q s = [] \<and> matches (Seq (Star (Sat re_space)) AtEnd) q s = []"
  by (auto simp: stop_at_def matches_foldr_Alt)

lemma Chr_no_match: "c \<noteq> d \<Longrightarrow> matches (Chr d) q (c # s) = []"
  by (simp add: Chr_def)

lemma stop_none_char: "\<not> re_space c \<Longrightarrow> c \<noteq> CHR '';'' \<Longrightarrow> matches (stop_at kws) q (c # s) = []"
  by (simp add: stop_alternatives matches_Spaces matches_Star_space Chr_no_match)

definition stop_word :: "string list \<Rightarrow> string \<Rightarrow> bool" where
  "stop_word kws v \<longleftrightarrow> (\<exists>k \<in> set kws. starts_kw k v)"

lemma word_ok_hd: "word_ok v \<Longrightarrow> \<exists>c cs. v = c # cs \<and> \<not> re_space c \<and> c \<noteq> CHR '';''"
proof (cases v)
  case (Cons c cs)
  assume "word_ok v"
  from word_ok_chars [OF this, of c] Cons show ?thesis by simp
qed (simp add: word_ok_def)

lemma stop_space:
  assumes "word_ok v" "breaks R" "list_all kw_ok kws"
  shows "matches (stop_at kws) q (CHR '' '' # v @ R) = [] \<longleftrightarrow> \<not> stop_word kws v"
proof -
  obtain c cs where v: "v = c # cs" "\<not> re_space c" "c \<noteq> CHR '';''" using word_ok_hd [OF assms(1)] by blast
  have h: "v @ R = [] \<or> \<not> re_space (hd (v @ R))" by (simp add: v)
  have "matches (Seq Spaces (Seq (LitI k) WordB)) q (CHR '' '' # v @ R) = [] \<longleftrightarrow> \<not> starts_kw k v" if "k \<in> set kws" for k
  proof -
    have k: "kw_ok k" using that assms(3) by (simp add: list_all_iff)
    show ?thesis unfolding matches_Spaces(2) [OF h] using matches_LitI_WordB [OF k] starts_kw_word [OF k assms(2)] by blast
  qed
  moreover have "matches (Seq (Star (Sat re_space)) (Chr (CHR '';''))) q (CHR '' '' # v @ R) = []"
    unfolding matches_Star_space(2) [OF h] by (simp add: v Chr_no_match)
  moreover have "matches (Seq (Star (Sat re_space)) AtEnd) q (CHR '' '' # v @ R) = []"
    unfolding matches_Star_space(2) [OF h] by (simp add: v)
  ultimately show ?thesis unfolding stop_alternatives stop_word_def by blast
qed

lemma stop_end: "matches (stop_at kws) q (CHR '';'' # R) \<noteq> []"
proof -
  have "matches (Seq (Star (Sat re_space)) (Chr (CHR '';''))) q (CHR '';'' # R) \<noteq> []"
    by (subst matches_Star_space(1)) (simp_all add: re_space_def Chr_def)
  then show ?thesis by (simp add: stop_alternatives)
qed

section \<open>Clauses\<close>

text \<open>The words of the clause that a keyword opens, up to the first word that ends it.\<close>

fun clause_of_words :: "string \<Rightarrow> string list \<Rightarrow> string list \<Rightarrow> string option" where
  "clause_of_words kw stops (k # v # vs) =
     (if to_lower k = to_lower kw then Some (str_join '' '' (v # takeWhile (\<lambda>w. \<not> stop_word stops w) vs))
      else clause_of_words kw stops (v # vs))"
| "clause_of_words kw stops _ = None"

lemma ci_prefix_eq: "length k = length v \<Longrightarrow> ci_prefix k v \<longleftrightarrow> to_lower v = to_lower k"
  by (simp add: ci_prefix_def)

text \<open>A reluctant capture of words, up to a text \<open>T\<close> where the rest of the pattern matches.\<close>

lemma breaks_spaced_append: "breaks T \<Longrightarrow> breaks (spaced ws @ T)"
  by (cases ws) (simp_all add: word_char_def is_digit_def)

lemma capture_words:
  assumes v: "word_ok v" "list_all word_ok vs" and T: "breaks T"
    and char: "\<And>w c q s. w \<in> set (v # vs) \<Longrightarrow> c \<in> set w \<Longrightarrow> matches r q (c # s) = []"
    and space: "\<And>w q R. w \<in> set vs \<Longrightarrow> breaks R \<Longrightarrow> matches r q (CHR '' '' # w @ R) = []"
    and stop: "\<And>q. matches r q T \<noteq> []"
  shows "\<exists>y s'. hd_opt (matches (Seq (Grp i (LazyPlus AnyChar)) r) q (v @ spaced vs @ T)) = Some ((i, str_join '' '' (v # vs)) # y, s')"
proof -
  obtain c cs where c: "v = c # cs" using v(1) by (cases v) (auto simp: word_ok_def)
  have ok: "\<forall>x \<in> set cs. \<not> re_space x \<and> x \<noteq> CHR '';''" using word_ok_chars [OF v(1)] c by simp
  have "\<exists>y s'. hd_opt (matches (Seq (Grp i (LazyPlus (Sat (\<lambda>_. True)))) r) q (c # (cs @ spaced vs) @ T)) = Some ((i, c # cs @ spaced vs) # y, s')"
  proof (rule lazy_capture)
    fix a1 a2 q assume a: "cs @ spaced vs = a1 @ a2" "a2 \<noteq> []"
    then obtain d b where d: "a2 = d # b" by (cases a2) auto
    from a d have eq: "cs @ spaced vs = a1 @ d # b" by simp
    show "matches r q (a2 @ T) = []"
    proof (cases "d = CHR '' ''")
      case True
      then obtain xs w zs where w: "vs = xs @ w # zs" "b = w @ spaced zs"
        using spaced_position [OF eq v(2) ok] by (auto simp: re_space_def)
      have "matches r q (CHR '' '' # w @ (spaced zs @ T)) = []"
        by (rule space) (use w breaks_spaced_append [OF T] in simp_all)
      then show ?thesis using d w True by simp
    next
      case False
      have "d \<in> set (cs @ spaced vs)" using eq by simp
      then have "\<exists>w \<in> set (v # vs). d \<in> set w" using False c by (auto simp: spaced_def split: if_splits)
      then show ?thesis using char d by auto
    qed
  qed (simp_all add: stop)
  moreover have "c # cs @ spaced vs = str_join '' '' (v # vs)" by (simp only: str_join_spaced c append_Cons)
  ultimately show ?thesis unfolding AnyChar_def using c by simp
qed

lemma clause_capture:
  assumes v: "word_ok v" "list_all word_ok vs" and kws: "list_all kw_ok stops"
  shows "\<exists>y s'. hd_opt (matches (Seq (Grp 1 (LazyPlus AnyChar)) (stop_at stops)) q (v @ spaced vs @ '';''))
      = Some ((1, str_join '' '' (v # takeWhile (\<lambda>w. \<not> stop_word stops w) vs)) # y, s')"
proof -
  let ?us = "takeWhile (\<lambda>w. \<not> stop_word stops w) vs" and ?ws = "dropWhile (\<lambda>w. \<not> stop_word stops w) vs"
  have us: "\<forall>w \<in> set ?us. word_ok w \<and> \<not> stop_word stops w" using v(2) by (auto simp: list_all_iff dest: set_takeWhileD)
  have "spaced vs = spaced ?us @ spaced ?ws" by (metis spaced_append takeWhile_dropWhile_id)
  then have parts: "v @ spaced vs @ '';'' = v @ spaced ?us @ (spaced ?ws @ '';'')" by simp
  show ?thesis unfolding parts
  proof (rule capture_words)
    show "list_all word_ok ?us" using us by (simp add: list_all_iff)
    show "matches (stop_at stops) q (c # s) = []" if "w \<in> set (v # ?us)" "c \<in> set w" for w c q s
      using that us v(1) word_ok_chars [of w c] stop_none_char by auto
    show "matches (stop_at stops) q (CHR '' '' # w @ R) = []" if "w \<in> set ?us" "breaks R" for w q R
      using that us stop_space [OF _ that(2) kws] by blast
    show "matches (stop_at stops) q (spaced ?ws @ '';'') \<noteq> []" for q
    proof (cases ?ws)
      case Nil
      show ?thesis unfolding Nil spaced_simps append_Nil by (rule stop_end)
    next
      case (Cons w zs)
      then have "stop_word stops w" using hd_dropWhile [of "\<lambda>w. \<not> stop_word stops w" vs] by simp
      have "word_ok w" using v(2) Cons by (metis in_set_conv_decomp_first list_all_iff set_dropWhileD list.set_intros(1))
      show ?thesis using \<open>stop_word stops w\<close> unfolding Cons spaced_simps append_Cons append_assoc stop_space [OF \<open>word_ok w\<close> breaks_spaced(1) kws] by blast
    qed
  qed (use v(1) breaks_spaced in simp_all)
qed

text \<open>A keyword and the space after it at the start of a word.\<close>

lemma keyword_at:
  assumes "word_ok k" "kw_ok kw" "list_all word_ok us"
  shows "matches (Seq (LitI kw) (Seq Spaces r)) q (k @ spaced us @ '';'') =
    (case us of [] \<Rightarrow> []
     | v # vs \<Rightarrow> if to_lower k = to_lower kw then matches r (Some (CHR '' '')) (v @ spaced vs @ '';'') else [])"
proof (cases "ci_prefix kw k")
  case True
  then have le: "length kw \<le> length k" by (rule ci_prefix_length)
  have pre: "ci_prefix kw (k @ spaced us @ '';'')"
    using True assms(2) ci_prefix_word [OF _ breaks_spaced(1)] by (simp add: kw_ok_def)
  show ?thesis
  proof (cases "drop (length kw) k")
    case Nil
    then have len: "length kw = length k" using le by simp
    then have eq: "to_lower k = to_lower kw" using True by (simp add: ci_prefix_eq)
    show ?thesis
    proof (cases us)
      case Nil
      then show ?thesis unfolding matches_Seq_LitI using len matches_Spaces(1) [of "CHR '';''"] by (simp add: re_space_def)
    next
      case (Cons v vs)
      then have "v @ spaced vs @ '';'' = [] \<or> \<not> re_space (hd (v @ spaced vs @ '';''))" using word_ok_hd [of v] assms(3) by auto
      from matches_Spaces(2) [OF this] show ?thesis unfolding matches_Seq_LitI using len pre eq Cons by simp
    qed
  next
    case (Cons c cs)
    then have "c \<in> set k" by (metis in_set_dropD list.set_intros(1))
    then have "\<not> re_space c" using word_ok_chars [OF assms(1)] by blast
    moreover have "to_lower k \<noteq> to_lower kw"
    proof
      assume "to_lower k = to_lower kw"
      then have "length k = length kw" unfolding to_lower_def by (metis length_map)
      then show False using Cons by simp
    qed
    ultimately show ?thesis unfolding matches_Seq_LitI using Cons le by (simp add: matches_Spaces(1) split: list.splits)
  qed
next
  case False
  then have "\<not> ci_prefix kw (k @ spaced us @ '';'')" using assms(2) ci_prefix_word [OF _ breaks_spaced(1)] by (simp add: kw_ok_def)
  moreover have "to_lower k \<noteq> to_lower kw"
  proof
    assume eq: "to_lower k = to_lower kw"
    then have "length kw = length k" unfolding to_lower_def by (metis length_map)
    then show False using False eq by (simp add: ci_prefix_eq)
  qed
  ultimately show ?thesis unfolding matches_Seq_LitI by (simp split: list.splits)
qed

lemma clause_at:
  assumes "word_ok k" "list_all word_ok us" "kw_ok kw" "list_all kw_ok stops"
  shows "to_lower k = to_lower kw \<Longrightarrow> us = v # vs \<Longrightarrow>
      \<exists>m. match_here (clause_re kw stops) (Some q) (CHR '' '' # k @ spaced us @ '';'') = Some m
        \<and> group m 1 = str_join '' '' (v # takeWhile (\<lambda>w. \<not> stop_word stops w) vs)"
    and "to_lower k \<noteq> to_lower kw \<or> us = [] \<Longrightarrow> match_here (clause_re kw stops) (Some q) (CHR '' '' # k @ spaced us @ '';'') = None"
    and "to_lower k \<noteq> to_lower kw \<or> us = [] \<Longrightarrow> match_here (clause_re kw stops) None (k @ spaced us @ '';'') = None"
proof -
  let ?r = "Seq (Grp 1 (LazyPlus AnyChar)) (stop_at stops)"
  have sp: "re_space (CHR '' '')" by (simp add: re_space_def)
  have start: "matches (clause_re kw stops) (Some q) (CHR '' '' # s) = matches (Seq (LitI kw) (Seq Spaces ?r)) (Some (CHR '' '')) s" for s
    using sp by (simp add: clause_re_def matches_Seq_Alt(2))
  obtain c cs where c: "k = c # cs" "\<not> re_space c" using word_ok_hd [OF assms(1)] by blast
  have first: "matches (clause_re kw stops) None (k @ s) = matches (Seq (LitI kw) (Seq Spaces ?r)) None (k @ s)" for s
    using c by (simp add: clause_re_def matches_Seq_Alt(2))
  note at = keyword_at [OF assms(1,3,2)]
  show "\<exists>m. match_here (clause_re kw stops) (Some q) (CHR '' '' # k @ spaced us @ '';'') = Some m
        \<and> group m 1 = str_join '' '' (v # takeWhile (\<lambda>w. \<not> stop_word stops w) vs)" if eq: "to_lower k = to_lower kw" "us = v # vs"
  proof -
    have "word_ok v" "list_all word_ok vs" using assms(2) eq(2) by simp_all
    then obtain y s' where "hd_opt (matches ?r (Some (CHR '' '')) (v @ spaced vs @ '';''))
        = Some ((1, str_join '' '' (v # takeWhile (\<lambda>w. \<not> stop_word stops w) vs)) # y, s')"
      using clause_capture assms(4) by blast
    then have "hd_opt (matches (clause_re kw stops) (Some q) (CHR '' '' # k @ spaced us @ '';''))
        = Some ((1, str_join '' '' (v # takeWhile (\<lambda>w. \<not> stop_word stops w) vs)) # y, s')"
      unfolding start at using eq by simp
    then show ?thesis by (rule group_match_here)
  qed
  assume "to_lower k \<noteq> to_lower kw \<or> us = []"
  then have "matches (Seq (LitI kw) (Seq Spaces ?r)) z (k @ spaced us @ '';'') = []" for z
    unfolding at by (auto split: list.splits)
  then show "match_here (clause_re kw stops) (Some q) (CHR '' '' # k @ spaced us @ '';'') = None"
    "match_here (clause_re kw stops) None (k @ spaced us @ '';'') = None"
    unfolding match_here_None start first by simp_all
qed

lemma clause_not_at: "\<not> re_space c \<Longrightarrow> match_here (clause_re kw stops) (Some q) (c # s) = None"
  by (simp add: match_here_None clause_re_def matches_Seq_Alt(2))

lemma clause_search:
  assumes "list_all word_ok us" "kw_ok kw" "list_all kw_ok stops" "\<forall>c \<in> set x. \<not> re_space c"
  shows "map_option (\<lambda>m. group m 1) (find_from (clause_re kw stops) (Some q) (x @ spaced us @ '';'')) = clause_of_words kw stops us"
  using assms(1,4)
proof (induction us arbitrary: x q)
  case Nil
  have "find_from (clause_re kw stops) (Some q) (x @ '';'') = find_from (clause_re kw stops) (if x = [] then Some q else Some (last x)) '';''"
    by (rule find_from_skip) (use Nil in \<open>auto intro: clause_not_at\<close>)
  moreover have "\<not> re_space (CHR '';'')" by (simp add: re_space_def)
  moreover have "match_here (clause_re kw stops) (Some z) [] = None" for z
    by (simp add: match_here_None clause_re_def matches_Seq_Alt(2))
  ultimately show ?case by (simp add: clause_not_at)
next
  case (Cons k us)
  let ?p = "if x = [] then q else last x"
  have skip: "find_from (clause_re kw stops) (Some q) (x @ spaced (k # us) @ '';'')
      = find_from (clause_re kw stops) (if x = [] then Some q else Some (last x)) (spaced (k # us) @ '';'')"
  proof (rule find_from_skip)
    fix a c b assume "x = a @ c # b"
    then have "\<not> re_space c" using Cons.prems by simp
    then show "match_here (clause_re kw stops) (if a = [] then Some q else Some (last a)) (c # b @ spaced (k # us) @ '';'') = None"
      by (cases "a = []") (simp_all add: clause_not_at)
  qed
  also have "\<dots> = find_from (clause_re kw stops) (Some ?p) (CHR '' '' # k @ spaced us @ '';'')" by (cases "x = []") simp_all
  finally have eq: "find_from (clause_re kw stops) (Some q) (x @ spaced (k # us) @ '';'')
      = find_from (clause_re kw stops) (Some ?p) (CHR '' '' # k @ spaced us @ '';'')" .
  have ok: "word_ok k" "list_all word_ok us" using Cons.prems by simp_all
  note at = clause_at [OF ok assms(2,3)]
  show ?case
  proof (cases "to_lower k = to_lower kw \<and> us \<noteq> []")
    case True
    then obtain v vs where us: "us = v # vs" by (cases us) auto
    obtain m where "match_here (clause_re kw stops) (Some ?p) (CHR '' '' # k @ spaced us @ '';'') = Some m"
      "group m 1 = str_join '' '' (v # takeWhile (\<lambda>w. \<not> stop_word stops w) vs)"
      using at(1) [OF conjunct1 [OF True] us] by blast
    then show ?thesis unfolding eq using True us by simp
  next
    case False
    then have "match_here (clause_re kw stops) (Some ?p) (CHR '' '' # k @ spaced us @ '';'') = None" by (intro at(2)) auto
    moreover have "\<forall>c \<in> set k. \<not> re_space c" using word_ok_chars [OF ok(1)] by blast
    moreover have "clause_of_words kw stops (k # us) = clause_of_words kw stops us" using False by (cases us) auto
    ultimately show ?thesis unfolding eq using Cons.IH [OF ok(2), of k "CHR '' ''"] by simp
  qed
qed

theorem clause_of_sentence:
  assumes "list_all word_ok (k # us)" "kw_ok kw" "list_all kw_ok stops" "to_lower k \<noteq> to_lower kw"
  shows "first_group (clause_re kw stops) (sentence (k # us)) = clause_of_words kw stops (k # us)"
proof -
  obtain c cs where c: "k = c # cs" using assms(1) by (cases k) (auto simp: word_ok_def)
  have ok: "word_ok k" "list_all word_ok us" using assms(1) by simp_all
  have "match_here (clause_re kw stops) None (k @ spaced us @ '';'') = None"
    by (rule clause_at(3) [OF ok assms(2,3)]) (use assms(4) in simp)
  moreover have "\<forall>d \<in> set cs. \<not> re_space d" using word_ok_chars [OF ok(1)] c by simp
  moreover have "clause_of_words kw stops (k # us) = clause_of_words kw stops us" using assms(4) by (cases us) auto
  ultimately show ?thesis
    using clause_search [OF ok(2) assms(2,3), of cs c] c by (simp add: first_group_def find_submatch_def sentence_spaced)
qed

section \<open>Flags\<close>

text \<open>A keyword anywhere in a word, between characters that are not of a word.\<close>

definition mentions :: "string \<Rightarrow> string \<Rightarrow> bool" where
  "mentions kw w \<longleftrightarrow> matches_anywhere (word_re kw) w"

lemma word_re_at: "kw_ok kw \<Longrightarrow> match_here (word_re kw) p s \<noteq> None \<longleftrightarrow> \<not> is_word p \<and> starts_kw kw s"
proof -
  assume k: "kw_ok kw"
  have m: "matches (word_re kw) p s = (if is_word p \<noteq> is_word (hd_opt s) then matches (Seq (LitI kw) WordB) p s else [])"
    by (simp add: word_re_def)
  have "is_word (hd_opt s)" if start: "starts_kw kw s"
  proof -
    obtain c kw' where c: "kw = c # kw'" "word_char c" using k by (cases kw) (auto simp: kw_ok_def)
    then obtain x xs where "s = x # xs" "char_lower x = char_lower c" using start by (auto simp: starts_kw_def)
    then show ?thesis using word_char_eq [OF _ c(2)] by (simp add: hd_opt_def is_word_def)
  qed
  then show ?thesis unfolding match_here_None m using matches_LitI_WordB [OF k, of p s] by auto
qed

lemma word_re_split:
  assumes "kw_ok kw" "breaks R"
  shows "find_from (word_re kw) p (w @ R) \<noteq> None \<longleftrightarrow>
    find_from (word_re kw) p w \<noteq> None \<or> find_from (word_re kw) (if w = [] then p else Some (last w)) R \<noteq> None"
proof (induction w arbitrary: p)
  case Nil
  have "\<not> starts_kw kw []" using assms(1) by (cases kw) (auto simp: starts_kw_def kw_ok_def)
  then have "find_from (word_re kw) p [] = None" using word_re_at [OF assms(1), of p "[]"] by auto
  then show ?case by simp
next
  case (Cons c w)
  have "match_here (word_re kw) p (c # w @ R) \<noteq> None \<longleftrightarrow> match_here (word_re kw) p (c # w) \<noteq> None"
    unfolding word_re_at [OF assms(1)] using starts_kw_word [OF assms, of "c # w"] by simp
  then show ?case using Cons [of "Some c"] by (cases "match_here (word_re kw) p (c # w @ R)"; cases "match_here (word_re kw) p (c # w)") auto
qed

lemma word_re_fresh: "kw_ok kw \<Longrightarrow> \<not> is_word p \<Longrightarrow> find_from (word_re kw) p w \<noteq> None \<longleftrightarrow> mentions kw w"
proof -
  assume a: "kw_ok kw" "\<not> is_word p"
  have none: "\<not> is_word None" by (simp add: is_word_def)
  have "match_here (word_re kw) p w \<noteq> None \<longleftrightarrow> match_here (word_re kw) None w \<noteq> None"
    unfolding word_re_at [OF a(1)] using a(2) none by simp
  then show ?thesis unfolding mentions_def matches_anywhere_def find_submatch_def
    by (cases w; cases "match_here (word_re kw) p w"; cases "match_here (word_re kw) None w") auto
qed

lemma word_re_spaced:
  assumes "kw_ok kw"
  shows "find_from (word_re kw) p (spaced ws @ '';'') \<noteq> None \<longleftrightarrow> (\<exists>w \<in> set ws. mentions kw w)"
proof (induction ws arbitrary: p)
  case Nil
  have "\<not> starts_kw kw '';''" "\<not> starts_kw kw []"
    using assms word_char_eq [of "CHR '';''"] by (cases kw; auto simp: starts_kw_def kw_ok_def word_char_def is_digit_def)+
  then have "match_here (word_re kw) p '';'' = None" "match_here (word_re kw) (Some (CHR '';'')) [] = None"
    using word_re_at [OF assms] by blast+
  then show ?case by simp
next
  case (Cons w ws)
  have "\<not> starts_kw kw (CHR '' '' # s)" for s
    using assms word_char_eq [of "CHR '' ''"] by (cases kw) (auto simp: starts_kw_def kw_ok_def word_char_def is_digit_def)
  then have "match_here (word_re kw) p (CHR '' '' # w @ spaced ws @ '';'') = None" using word_re_at [OF assms] by blast
  then have "find_from (word_re kw) p (spaced (w # ws) @ '';'') \<noteq> None \<longleftrightarrow> find_from (word_re kw) (Some (CHR '' '')) (w @ spaced ws @ '';'') \<noteq> None"
    by simp
  also have "\<dots> \<longleftrightarrow> mentions kw w \<or> (\<exists>w \<in> set ws. mentions kw w)"
    unfolding word_re_split [OF assms breaks_spaced(1)] Cons.IH
    using word_re_fresh [OF assms, of "Some (CHR '' '')" w] by (simp add: is_word_def word_char_def is_digit_def)
  finally show ?case by simp
qed

lemma word_anywhere:
  assumes "kw_ok kw"
  shows "matches_anywhere (word_re kw) (sentence (w # ws)) \<longleftrightarrow> (\<exists>w \<in> set (w # ws). mentions kw w)"
  unfolding matches_anywhere_def find_submatch_def sentence_spaced word_re_split [OF assms breaks_spaced(1)] word_re_spaced [OF assms]
  by (simp add: mentions_def matches_anywhere_def find_submatch_def)

lemma starts_mentions: "kw_ok kw \<Longrightarrow> starts_kw kw w \<Longrightarrow> mentions kw w"
proof -
  assume a: "kw_ok kw" "starts_kw kw w"
  then have "match_here (word_re kw) None w \<noteq> None" using word_re_at [OF a(1), of None w] by (simp add: is_word_def)
  then show ?thesis by (cases w) (auto simp: mentions_def matches_anywhere_def find_submatch_def)
qed

section \<open>Keywords that end a word\<close>

definition ends_kw :: "string \<Rightarrow> string \<Rightarrow> bool" where
  "ends_kw kw w \<longleftrightarrow> has_suffix (to_lower w) (to_lower kw)"

lemma word_ok_suffix: "word_ok (a @ b) \<Longrightarrow> b \<noteq> [] \<Longrightarrow> word_ok b"
  by (auto simp: word_ok_def)

text \<open>A pattern that starts with a keyword and a space, without a word boundary before the keyword.\<close>

abbreviation keyed_re :: "string \<Rightarrow> regex \<Rightarrow> regex" where
  "keyed_re kw r \<equiv> Seq (LitI kw) (Seq Spaces r)"

lemma keyed_inside:
  assumes "kw_ok kw" "word_ok w" "list_all word_ok vs" "w = a @ b" "b \<noteq> []" "\<not> ends_kw kw w"
  shows "match_here (keyed_re kw r) p (b @ spaced vs @ '';'') = None"
proof -
  have b: "word_ok b" using assms word_ok_suffix by blast
  have "to_lower b \<noteq> to_lower kw"
  proof
    assume "to_lower b = to_lower kw"
    then have "to_lower w = to_lower a @ to_lower kw" using assms(4) by (simp add: to_lower_def)
    then show False using assms(6) by (simp add: ends_kw_def)
  qed
  then show ?thesis unfolding match_here_None keyword_at [OF b assms(1,3)] by (simp split: list.splits)
qed

lemma keyed_word:
  assumes "kw_ok kw" "word_ok w" "list_all word_ok vs" "\<not> ends_kw kw w"
  shows "find_from (keyed_re kw r) p (w @ spaced vs @ '';'') = find_from (keyed_re kw r) (Some (last w)) (spaced vs @ '';'')"
proof -
  have "find_from (keyed_re kw r) p (w @ spaced vs @ '';'') = find_from (keyed_re kw r) (if w = [] then p else Some (last w)) (spaced vs @ '';'')"
  proof (rule find_from_skip)
    fix a c b assume "w = a @ c # b"
    from keyed_inside [OF assms(1-3) this _ assms(4)]
    show "match_here (keyed_re kw r) (if a = [] then p else Some (last a)) (c # b @ spaced vs @ '';'') = None" by simp
  qed
  then show ?thesis using assms(2) by (simp add: word_ok_def)
qed

lemma keyed_space: "kw_ok kw \<Longrightarrow> match_here (keyed_re kw r) p (CHR '' '' # s) = None"
proof -
  assume "kw_ok kw"
  then obtain c k where "kw = c # k" "word_char c" by (cases kw) (auto simp: kw_ok_def)
  then have "\<not> ci_prefix kw (CHR '' '' # s)" using word_char_eq [of "CHR '' ''" c] by (auto simp: word_char_def is_digit_def)
  then show ?thesis by (simp only: match_here_None matches_Seq_LitI if_False)
qed

lemma keyed_search:
  assumes "kw_ok kw" "list_all word_ok (us @ k # t # vs)" "\<forall>u \<in> set us. \<not> ends_kw kw u" "to_lower k = to_lower kw"
    and h: "hd_opt (matches r (Some (CHR '' '')) (t @ spaced vs @ '';'')) = Some (y, s')"
  shows "\<exists>m. find_from (keyed_re kw r) p (spaced (us @ k # t # vs) @ '';'') = Some m \<and> (\<forall>n > 0. group m n = group y n)"
  using assms(2,3)
proof (induction us arbitrary: p)
  case Nil
  have ok: "word_ok k" "list_all word_ok (t # vs)" using Nil by simp_all
  have "hd_opt (matches (keyed_re kw r) (Some (CHR '' '')) (k @ spaced (t # vs) @ '';'')) = Some (y, s')"
    unfolding keyword_at [OF ok(1) assms(1) ok(2)] using h assms(4) by simp
  then obtain m where m: "match_here (keyed_re kw r) (Some (CHR '' '')) (k @ spaced (t # vs) @ '';'') = Some m" "\<forall>n > 0. group m n = group y n"
    by (auto simp: match_here_def group_def)
  obtain c cs where "k = c # cs" using ok(1) by (cases k) (auto simp: word_ok_def)
  then show ?case using m keyed_space [OF assms(1)] by simp
next
  case (Cons u us)
  have ok: "word_ok u" "list_all word_ok (us @ k # t # vs)" "\<not> ends_kw kw u" using Cons.prems by simp_all
  have "find_from (keyed_re kw r) p (spaced ((u # us) @ k # t # vs) @ '';'')
      = find_from (keyed_re kw r) (Some (CHR '' '')) (u @ spaced (us @ k # t # vs) @ '';'')"
    using keyed_space [OF assms(1)] by simp
  also have "\<dots> = find_from (keyed_re kw r) (Some (last u)) (spaced (us @ k # t # vs) @ '';'')" by (rule keyed_word [OF assms(1) ok])
  finally show ?case using Cons by simp
qed

theorem keyed_sentence:
  assumes "kw_ok kw" "list_all word_ok (u # us @ k # t # vs)" "\<forall>w \<in> set (u # us). \<not> ends_kw kw w" "to_lower k = to_lower kw"
    and h: "hd_opt (matches r (Some (CHR '' '')) (t @ spaced vs @ '';'')) = Some (y, s')"
  shows "\<exists>m. find_submatch (keyed_re kw r) (sentence (u # us @ k # t # vs)) = Some m \<and> (\<forall>n > 0. group m n = group y n)"
proof -
  have ok: "word_ok u" "list_all word_ok (us @ k # t # vs)" "\<not> ends_kw kw u" using assms by simp_all
  show ?thesis
    unfolding find_submatch_def sentence_spaced keyed_word [OF assms(1) ok]
    by (rule keyed_search [OF assms(1) ok(2) _ assms(4) h]) (use assms(3) in simp)
qed

section \<open>The type of a field\<close>

lemma kw_ok_TYPE: "kw_ok ''TYPE''"
  by code_simp

definition ident_ok :: "string \<Rightarrow> bool" where
  "ident_ok t \<longleftrightarrow> t \<noteq> [] \<and> list_all word_char t \<and> \<not> is_digit (hd t)"

lemma ident_at:
  assumes "ident_ok t" "breaks R"
  shows "\<exists>y s'. hd_opt (matches Ident1 p (t @ R)) = Some ((1, t) # y, s')"
proof -
  obtain c cs where t: "t = c # cs" "word_char c" "\<not> is_digit c" "\<forall>x \<in> set cs. word_char x"
    using assms(1) by (cases t) (auto simp: ident_ok_def list_all_iff)
  have R: "takeWhile word_char R = []" using assms(2) by (cases R) auto
  have tw: "takeWhile word_char (cs @ R) = cs" using t(4) R by simp
  have "matches Ident1 p (t @ R) = map (\<lambda>k. ([(1, take (Suc (length (cs @ R)) - (length (cs @ R) - k)) (c # cs @ R))], drop k (cs @ R)))
      (rev [0..<Suc (length cs)])"
    using t(1-3) tw by (simp add: Ident1_def matches_Star_Sat o_def del: upt_Suc)
  also have "rev [0..<Suc (length cs)] = length cs # rev [0..<length cs]" by simp
  finally show ?thesis by (simp add: hd_opt_def t(1))
qed

theorem type_of_sentence:
  assumes "list_all word_ok (u # us @ k # t # vs)" "\<forall>w \<in> set (u # us). \<not> ends_kw ''TYPE'' w" "to_lower k = to_lower ''TYPE''" "ident_ok t"
  shows "first_group reFieldType (sentence (u # us @ k # t # vs)) = Some t"
proof -
  obtain y s' where h: "hd_opt (matches Ident1 (Some (CHR '' '')) (t @ spaced vs @ '';'')) = Some ((1, t) # y, s')"
    using ident_at [OF assms(4) breaks_spaced(1)] by blast
  from keyed_sentence [OF kw_ok_TYPE assms(1-3) h] show ?thesis
    by (auto simp: first_group_def reFieldType_def group_def)
qed

end
