(* ===== verification/Schema_Parser_Correct.thy ===== *)
theory Schema_Parser_Correct
  imports Regexp_Search Schema_Reconcile
begin

text \<open>
  The parser is the inverse of the generator: a field that is rendered and parsed again is the same
  field, provided none of its texts contains what the patterns of the parser take for a keyword. With
  the diff engine this gives that a table read back from the database needs no change.
\<close>

section \<open>A field as words\<close>

definition opt_words :: "string \<Rightarrow> string \<Rightarrow> string list" where
  "opt_words kw e = (if e = [] then [] else kw # split_on (CHR '' '') e)"

definition flag_words :: "string \<Rightarrow> bool \<Rightarrow> string list" where
  "flag_words kw b = (if b then [kw] else [])"

definition head_words :: "string \<Rightarrow> string \<Rightarrow> bool \<Rightarrow> string list" where
  "head_words n tn ine = [''FIELD''] @ (if ine then [''IF'', ''NOT'', ''EXISTS''] else []) @ [n, ''ON'', ''TABLE'', tn]"

definition tail_words :: "field_definition \<Rightarrow> string list" where
  "tail_words f = opt_words ''ASSERT'' (fd_assertion f) @ opt_words ''DEFAULT'' (fd_default f) @ opt_words ''VALUE'' (fd_value f)
     @ flag_words ''READONLY'' (fd_readonly f) @ flag_words ''FLEXIBLE'' (fd_flexible f)"

lemma spaced_split: "spaced (split_on (CHR '' '') e) = CHR '' '' # e"
proof (cases "split_on (CHR '' '') e")
  case (Cons w ws)
  then have "e = w @ spaced ws" using join_split_on [of "CHR '' ''" e] by (simp add: str_join_spaced)
  then show ?thesis using Cons by simp
qed simp

lemma spaced_opt: "spaced (opt_words kw e) = clause (CHR '' '' # kw @ '' '') e"
  by (simp add: opt_words_def clause_def spaced_split)

lemma spaced_flag: "spaced (flag_words kw b) = flag (CHR '' '' # kw) b"
  by (simp add: flag_words_def flag_def)

lemma field_sentence:
  "field_toSurql f tn ine = sentence (''DEFINE'' # head_words (fd_name f) tn ine @ ''TYPE'' # fd_type f # tail_words f)"
  by (simp add: sentence_spaced field_toSurql_def head_words_def tail_words_def spaced_append spaced_opt spaced_flag flag_def [of "'' IF NOT EXISTS''"])

section \<open>Which texts are plain\<close>

definition plain_word :: "string \<Rightarrow> bool" where
  "plain_word w \<longleftrightarrow> word_ok w \<and> list_all (\<lambda>k. \<not> starts_kw k w) [''ASSERT'', ''DEFAULT'', ''VALUE'', ''PERMISSIONS'']
     \<and> \<not> mentions ''READONLY'' w \<and> \<not> mentions ''FLEXIBLE'' w"

definition plain_expr :: "string \<Rightarrow> bool" where
  "plain_expr e \<longleftrightarrow> e = [] \<or> list_all plain_word (split_on (CHR '' '') e)"

definition plain_name :: "string \<Rightarrow> bool" where
  "plain_name n \<longleftrightarrow> word_ok n \<and> to_lower n \<notin> {''assert'', ''default'', ''value''} \<and> \<not> ends_kw ''TYPE'' n
     \<and> \<not> mentions ''READONLY'' n \<and> \<not> mentions ''FLEXIBLE'' n"

definition plain_field :: "field_definition \<Rightarrow> bool" where
  "plain_field f \<longleftrightarrow> plain_name (fd_name f) \<and> FieldType_IsValid (fd_type f)
     \<and> plain_expr (fd_assertion f) \<and> plain_expr (fd_default f) \<and> plain_expr (fd_value f)"

lemma keywords_ok:
  "kw_ok ''ASSERT''" "kw_ok ''DEFAULT''" "kw_ok ''VALUE''" "kw_ok ''READONLY''" "kw_ok ''FLEXIBLE''" "kw_ok ''PERMISSIONS''"
  by code_simp+

lemma starts_kw_eq: "to_lower w = to_lower kw \<Longrightarrow> starts_kw kw w"
proof -
  assume eq: "to_lower w = to_lower kw"
  then have "length w = length kw" unfolding to_lower_def by (metis length_map)
  then show ?thesis using eq by (simp add: starts_kw_def ci_prefix_def is_word_def hd_opt_def)
qed

definition clause_keywords :: "string list" where
  "clause_keywords = [''ASSERT'', ''DEFAULT'', ''VALUE'', ''READONLY'', ''FLEXIBLE'', ''PERMISSIONS'']"

lemma clause_keywords_mem:
  "''ASSERT'' \<in> set clause_keywords" "''DEFAULT'' \<in> set clause_keywords" "''VALUE'' \<in> set clause_keywords"
  "''READONLY'' \<in> set clause_keywords" "''FLEXIBLE'' \<in> set clause_keywords" "''PERMISSIONS'' \<in> set clause_keywords"
  by (simp_all add: clause_keywords_def)

lemma plain_word_clause:
  assumes "plain_word w"
  shows "word_ok w" "k \<in> set clause_keywords \<Longrightarrow> \<not> starts_kw k w"
proof -
  show "word_ok w" using assms by (simp add: plain_word_def)
  have "list_all (\<lambda>k. \<not> starts_kw k w) clause_keywords"
    using assms starts_mentions [OF keywords_ok(4)] starts_mentions [OF keywords_ok(5)] by (auto simp: plain_word_def clause_keywords_def)
  then show "\<not> starts_kw k w" if "k \<in> set clause_keywords" using that by (simp add: list_all_iff)
qed

lemma plain_expr_words: "plain_expr e \<Longrightarrow> e \<noteq> [] \<Longrightarrow> w \<in> set (split_on (CHR '' '') e) \<Longrightarrow> plain_word w"
  by (auto simp: plain_expr_def list_all_iff)

lemma words_trimmed:
  assumes "list_all word_ok (split_on (CHR '' '') e)"
  shows "trimmed e" "CHR '';'' \<notin> set e"
proof -
  obtain w ws where ws: "split_on (CHR '' '') e = w # ws" by (cases "split_on (CHR '' '') e") auto
  have ok: "\<forall>v \<in> set (w # ws). word_ok v" using assms ws by (simp add: list_all_iff)
  have e: "e = w @ spaced ws" using join_split_on [of "CHR '' ''" e] ws by (simp add: str_join_spaced)
  have "CHR '';'' \<notin> set (spaced vs)" if "\<forall>v \<in> set vs. word_ok v" for vs
    using that by (induction vs) (auto simp: word_ok_def)
  then show "CHR '';'' \<notin> set e" using ok e by (auto simp: word_ok_def)
  have "last (w @ spaced vs) = last (last (w # vs)) \<and> w @ spaced vs \<noteq> []" if "\<forall>v \<in> set (w # vs). v \<noteq> []" for vs
    using that by (induction vs rule: rev_induct) (simp_all add: spaced_append)
  moreover have ne: "\<forall>v \<in> set (w # ws). v \<noteq> []" using ok by (auto simp: word_ok_def)
  ultimately have "last e = last (last (w # ws))" using e by blast
  moreover have l: "last (w # ws) \<in> set (w # ws)" by (rule last_in_set) simp
  then have "word_ok (last (w # ws))" using ok by blast
  ultimately have "\<not> is_space (last e)" by (metis last_in_set word_ok_def)
  moreover have "\<not> is_space (hd e)"
  proof -
    have w: "word_ok w" using ok by simp
    then have "hd w \<in> set w" "hd e = hd w" using e by (simp_all add: word_ok_def)
    then show ?thesis using w by (simp add: word_ok_def)
  qed
  ultimately show "trimmed e" by (simp add: trimmed_def)
qed

lemma plain_expr_chars:
  assumes "plain_expr e"
  shows "trim_space (trim_suffix e '';'') = e"
proof (cases "e = []")
  case True
  then show ?thesis by (simp add: trim_suffix_def has_suffix_def trimmed_def)
next
  case False
  then have "list_all word_ok (split_on (CHR '' '') e)" using plain_expr_words [OF assms] plain_word_clause(1) by (auto simp: list_all_iff)
  note w = words_trimmed [OF this]
  have "\<not> has_suffix e '';''"
  proof
    assume "has_suffix e '';''"
    then have "drop (length e - 1) e = '';''" by (simp add: has_suffix_def)
    then show False using w(2) by (metis in_set_dropD list.set_intros(1))
  qed
  then show ?thesis using w(1) by (simp add: trim_suffix_def)
qed

section \<open>Reading the clauses\<close>

definition avoids :: "string \<Rightarrow> string list \<Rightarrow> bool" where
  "avoids kw ws \<longleftrightarrow> (\<forall>w \<in> set ws. to_lower w \<noteq> to_lower kw)"

lemma avoids_append [simp]: "avoids kw (xs @ ys) \<longleftrightarrow> avoids kw xs \<and> avoids kw ys"
  by (auto simp: avoids_def)

lemma avoids_Cons [simp]: "avoids kw (x # xs) \<longleftrightarrow> to_lower x \<noteq> to_lower kw \<and> avoids kw xs"
  by (auto simp: avoids_def)

lemma avoids_Nil [simp]: "avoids kw []"
  by (simp add: avoids_def)

lemma clause_skip: "avoids kw us \<Longrightarrow> clause_of_words kw stops (us @ ws) = clause_of_words kw stops ws"
proof (induction us)
  case (Cons u us)
  then have "clause_of_words kw stops (u # us @ ws) = clause_of_words kw stops (us @ ws)" by (cases "us @ ws") auto
  then show ?case using Cons by simp
qed simp

lemma clause_absent: "avoids kw us \<Longrightarrow> clause_of_words kw stops us = None"
  using clause_skip [of kw us stops "[]"] by simp

lemma clause_take:
  assumes "e \<noteq> []" "\<forall>w \<in> set (split_on (CHR '' '') e). \<not> stop_word stops w" "rest = [] \<or> stop_word stops (hd rest)"
  shows "clause_of_words kw stops (opt_words kw e @ rest) = Some e"
proof -
  obtain v vs where ws: "split_on (CHR '' '') e = v # vs" by (cases "split_on (CHR '' '') e") auto
  have "takeWhile (\<lambda>w. \<not> stop_word stops w) (vs @ rest) = vs"
    using assms(2,3) ws by (cases rest) simp_all
  then show ?thesis using ws join_split_on [of "CHR '' ''" e] assms(1) by (simp add: opt_words_def)
qed

lemma avoids_opt:
  assumes "plain_expr e" "kw \<in> set clause_keywords" "to_lower k \<noteq> to_lower kw"
  shows "avoids kw (opt_words k e)"
proof (cases "e = []")
  case False
  have "to_lower w \<noteq> to_lower kw" if "w \<in> set (split_on (CHR '' '') e)" for w
    using plain_word_clause(2) [OF plain_expr_words [OF assms(1) False that] assms(2)] starts_kw_eq by blast
  then show ?thesis using assms(3) False by (simp add: avoids_def opt_words_def)
qed (simp add: opt_words_def)

lemma lower_keywords:
  "to_lower ''ASSERT'' = ''assert''" "to_lower ''DEFAULT'' = ''default''" "to_lower ''VALUE'' = ''value''"
  "to_lower ''READONLY'' = ''readonly''" "to_lower ''FLEXIBLE'' = ''flexible''" "to_lower ''DEFINE'' = ''define''"
  "to_lower ''FIELD'' = ''field''" "to_lower ''IF'' = ''if''" "to_lower ''NOT'' = ''not''" "to_lower ''EXISTS'' = ''exists''"
  "to_lower ''ON'' = ''on''" "to_lower ''TABLE'' = ''table''" "to_lower ''TYPE'' = ''type''"
  by code_simp+

lemma avoids_flag: "kw \<in> {''ASSERT'', ''DEFAULT'', ''VALUE''} \<Longrightarrow> k \<in> {''READONLY'', ''FLEXIBLE''} \<Longrightarrow> avoids kw (flag_words k b)"
  by (auto simp: flag_words_def lower_keywords)

lemma avoids_head:
  assumes "plain_name n" "plain_name tn" "FieldType_IsValid ty" "kw \<in> {''ASSERT'', ''DEFAULT'', ''VALUE''}"
  shows "avoids kw (''DEFINE'' # head_words n tn ine @ [''TYPE'', ty])"
proof -
  have "list_all (\<lambda>t. to_lower t \<notin> {''assert'', ''default'', ''value''}) field_types" by code_simp
  then have "to_lower ty \<notin> {''assert'', ''default'', ''value''}" using assms(3) by (auto simp: FieldType_IsValid_def list_all_iff)
  then have "list_all (\<lambda>k. k \<notin> to_lower ` set (''DEFINE'' # head_words n tn ine @ [''TYPE'', ty])) [''assert'', ''default'', ''value'']"
    using assms(1,2) by (cases ine) (simp_all add: head_words_def lower_keywords plain_name_def, metis+)
  moreover have "to_lower kw \<in> set [''assert'', ''default'', ''value'']" using assms(4) lower_keywords by auto
  ultimately have "to_lower kw \<notin> to_lower ` set (''DEFINE'' # head_words n tn ine @ [''TYPE'', ty])" unfolding list_all_iff by blast
  then show ?thesis unfolding avoids_def by (metis imageI)
qed

lemma stop_keywords:
  "stop_word stops k" if "k \<in> set stops"
  using that starts_kw_eq [of k k] by (auto simp: stop_word_def)

lemma plain_expr_stop: "plain_expr e \<Longrightarrow> e \<noteq> [] \<Longrightarrow> set stops \<subseteq> set clause_keywords \<Longrightarrow> w \<in> set (split_on (CHR '' '') e) \<Longrightarrow> \<not> stop_word stops w"
proof -
  assume a: "plain_expr e" "e \<noteq> []" "set stops \<subseteq> set clause_keywords" "w \<in> set (split_on (CHR '' '') e)"
  have "plain_word w" by (rule plain_expr_words [OF a(1,2,4)])
  from plain_word_clause(2) [OF this] show "\<not> stop_word stops w" unfolding stop_word_def using a(3) by blast
qed

lemma sentence_words_ok:
  assumes "plain_field f" "plain_name tn"
  shows "list_all word_ok (''DEFINE'' # head_words (fd_name f) tn ine @ ''TYPE'' # fd_type f # tail_words f)"
proof -
  have opt: "list_all word_ok (opt_words k e)" if "plain_expr e" "word_ok k" for k e
  proof (cases "e = []")
    case False
    have "word_ok w" if "w \<in> set (split_on (CHR '' '') e)" for w
      by (rule plain_word_clause(1) [OF plain_expr_words [OF \<open>plain_expr e\<close> False that]])
    then show ?thesis using that(2) by (simp add: opt_words_def list_all_iff)
  qed (simp add: opt_words_def)
  have fixed: "word_ok ''DEFINE''" "word_ok ''FIELD''" "word_ok ''IF''" "word_ok ''NOT''" "word_ok ''EXISTS''" "word_ok ''ON''" "word_ok ''TABLE''"
    "word_ok ''TYPE''" "word_ok ''ASSERT''" "word_ok ''DEFAULT''" "word_ok ''VALUE''" "word_ok ''READONLY''" "word_ok ''FLEXIBLE''"
    by code_simp+
  have "list_all word_ok field_types" by code_simp
  then have ty: "word_ok (fd_type f)" using assms(1) by (auto simp: plain_field_def FieldType_IsValid_def list_all_iff)
  have names: "word_ok (fd_name f)" "word_ok tn" using assms by (simp_all add: plain_field_def plain_name_def)
  have e: "plain_expr (fd_assertion f)" "plain_expr (fd_default f)" "plain_expr (fd_value f)" using assms(1) by (simp_all add: plain_field_def)
  have "list_all word_ok (tail_words f)"
    using opt [OF e(1) fixed(9)] opt [OF e(2) fixed(10)] opt [OF e(3) fixed(11)] fixed by (simp add: tail_words_def flag_words_def)
  then show ?thesis using fixed ty names by (simp add: head_words_def)
qed

text \<open>The clauses of a rendered field: the texts before and after one of them do not interfere.\<close>

lemma clause_value:
  assumes "plain_expr e" "set stops \<subseteq> set clause_keywords" "avoids kw before" "avoids kw after" "after = [] \<or> stop_word stops (hd after)"
  shows "clause_of_words kw stops (before @ opt_words kw e @ after) = (if e = [] then None else Some e)"
proof (cases "e = []")
  case True
  then show ?thesis using assms(3,4) by (simp add: clause_absent opt_words_def)
next
  case False
  then have "\<forall>w \<in> set (split_on (CHR '' '') e). \<not> stop_word stops w" using plain_expr_stop [OF assms(1) False assms(2)] by blast
  then show ?thesis using False by (simp add: clause_skip [OF assms(3)] clause_take [OF False _ assms(5)])
qed

lemma rendered_clauses:
  fixes ine :: bool
  assumes "plain_field f" "plain_name tn"
  defines "ws \<equiv> ''DEFINE'' # head_words (fd_name f) tn ine @ ''TYPE'' # fd_type f # tail_words f"
  shows "clause_of_words ''ASSERT'' [''DEFAULT'', ''VALUE'', ''READONLY'', ''FLEXIBLE'', ''PERMISSIONS''] ws
      = (if fd_assertion f = [] then None else Some (fd_assertion f))" (is ?assert)
    and "clause_of_words ''DEFAULT'' [''VALUE'', ''READONLY'', ''FLEXIBLE'', ''PERMISSIONS'', ''ASSERT''] ws
      = (if fd_default f = [] then None else Some (fd_default f))" (is ?default)
    and "clause_of_words ''VALUE'' [''DEFAULT'', ''READONLY'', ''FLEXIBLE'', ''PERMISSIONS'', ''ASSERT''] ws
      = (if fd_value f = [] then None else Some (fd_value f))" (is ?val)
proof -
  let ?head = "''DEFINE'' # head_words (fd_name f) tn ine @ [''TYPE'', fd_type f]"
  let ?A = "opt_words ''ASSERT'' (fd_assertion f)" and ?D = "opt_words ''DEFAULT'' (fd_default f)" and ?V = "opt_words ''VALUE'' (fd_value f)"
  let ?F = "flag_words ''READONLY'' (fd_readonly f) @ flag_words ''FLEXIBLE'' (fd_flexible f)"
  have ws: "ws = ?head @ ?A @ (?D @ ?V @ ?F)" "ws = (?head @ ?A) @ ?D @ (?V @ ?F)" "ws = (?head @ ?A @ ?D) @ ?V @ ?F"
    by (simp_all add: ws_def tail_words_def)
  have e: "plain_expr (fd_assertion f)" "plain_expr (fd_default f)" "plain_expr (fd_value f)"
    and n: "plain_name (fd_name f)" "FieldType_IsValid (fd_type f)" using assms(1) by (simp_all add: plain_field_def)
  note head = avoids_head [OF n(1) assms(2) n(2)]
  have flags: "avoids kw ?F" if "kw \<in> {''ASSERT'', ''DEFAULT'', ''VALUE''}" for kw using that by (simp add: avoids_flag)
  have opts: "avoids kw (opt_words k x)" if "plain_expr x" "kw \<in> set clause_keywords" "to_lower k \<noteq> to_lower kw" for kw k x
    using that by (rule avoids_opt)
  have later: "?D @ ?V @ ?F = [] \<or> stop_word [''DEFAULT'', ''VALUE'', ''READONLY'', ''FLEXIBLE'', ''PERMISSIONS''] (hd (?D @ ?V @ ?F))"
    "?V @ ?F = [] \<or> stop_word [''VALUE'', ''READONLY'', ''FLEXIBLE'', ''PERMISSIONS'', ''ASSERT''] (hd (?V @ ?F))"
    "?F = [] \<or> stop_word [''DEFAULT'', ''READONLY'', ''FLEXIBLE'', ''PERMISSIONS'', ''ASSERT''] (hd ?F)"
    by (auto simp: opt_words_def flag_words_def stop_keywords)
  show ?assert unfolding ws(1)
    by (rule clause_value [OF e(1) _ head _ later(1)])
      (simp add: clause_keywords_mem, simp, simp only: avoids_append, simp add: clause_keywords_mem flags [unfolded avoids_append] opts [OF e(2)] opts [OF e(3)] lower_keywords)
  show ?default unfolding ws(2)
    by (rule clause_value [OF e(2) _ _ _ later(2)])
      (simp add: clause_keywords_mem, simp only: avoids_append, simp del: avoids_Cons add: clause_keywords_mem head opts [OF e(1)] lower_keywords,
       simp only: avoids_append, simp add: clause_keywords_mem flags [unfolded avoids_append] opts [OF e(3)] lower_keywords)
  show ?val unfolding ws(3)
    by (rule clause_value [OF e(3) _ _ _ later(3)])
      (simp add: clause_keywords_mem, simp only: avoids_append, simp del: avoids_Cons add: clause_keywords_mem head opts [OF e(1)] opts [OF e(2)] lower_keywords,
       simp only: avoids_append, simp add: clause_keywords_mem flags [unfolded avoids_append])
qed

section \<open>The round trip of a field\<close>

lemma types_plain:
  "list_all (\<lambda>t. ident_ok t \<and> \<not> ends_kw ''TYPE'' t \<and> to_lower t = t \<and> \<not> mentions ''READONLY'' t \<and> \<not> mentions ''FLEXIBLE'' t) field_types"
  by code_simp

lemma fixed_words:
  "list_all (\<lambda>w. \<not> ends_kw ''TYPE'' w \<and> \<not> mentions ''READONLY'' w \<and> \<not> mentions ''FLEXIBLE'' w)
     [''DEFINE'', ''FIELD'', ''IF'', ''NOT'', ''EXISTS'', ''ON'', ''TABLE'']"
  "list_all (\<lambda>w. \<not> mentions ''READONLY'' w \<and> \<not> mentions ''FLEXIBLE'' w) [''TYPE'', ''ASSERT'', ''DEFAULT'', ''VALUE'']"
  "mentions ''READONLY'' ''READONLY''" "\<not> mentions ''FLEXIBLE'' ''READONLY''" "mentions ''FLEXIBLE'' ''FLEXIBLE''" "\<not> mentions ''READONLY'' ''FLEXIBLE''"
  by code_simp+

lemma head_words_plain:
  assumes "plain_name n" "plain_name tn" "w \<in> set (''DEFINE'' # head_words n tn ine)"
  shows "\<not> ends_kw ''TYPE'' w \<and> \<not> mentions ''READONLY'' w \<and> \<not> mentions ''FLEXIBLE'' w"
proof -
  consider "w = n" | "w = tn" | "w \<in> set [''DEFINE'', ''FIELD'', ''IF'', ''NOT'', ''EXISTS'', ''ON'', ''TABLE'']"
    using assms(3) unfolding head_words_def by (cases ine) (simp_all, metis+)
  then show ?thesis
  proof cases
    case 3
    then show ?thesis using fixed_words(1) unfolding list_all_iff by blast
  qed (use assms(1,2) in \<open>simp_all add: plain_name_def\<close>)
qed

lemma opt_mentions:
  assumes "plain_expr e" "k \<in> {''ASSERT'', ''DEFAULT'', ''VALUE''}" "w \<in> set (opt_words k e)"
  shows "\<not> mentions ''READONLY'' w \<and> \<not> mentions ''FLEXIBLE'' w"
proof (cases "w = k")
  case True
  then show ?thesis using fixed_words(2) assms(2) by auto
next
  case False
  then have "e \<noteq> []" "w \<in> set (split_on (CHR '' '') e)" using assms(3) by (auto simp: opt_words_def split: if_splits)
  then show ?thesis using plain_expr_words [OF assms(1)] by (simp add: plain_word_def)
qed

lemma rendered_flags:
  assumes "plain_field f" "plain_name tn"
  shows "(\<exists>w \<in> set (''DEFINE'' # head_words (fd_name f) tn ine @ ''TYPE'' # fd_type f # tail_words f). mentions ''READONLY'' w) = fd_readonly f"
    and "(\<exists>w \<in> set (''DEFINE'' # head_words (fd_name f) tn ine @ ''TYPE'' # fd_type f # tail_words f). mentions ''FLEXIBLE'' w) = fd_flexible f"
proof -
  have e: "plain_expr (fd_assertion f)" "plain_expr (fd_default f)" "plain_expr (fd_value f)"
    and n: "plain_name (fd_name f)" "fd_type f \<in> set field_types" using assms(1) by (simp_all add: plain_field_def FieldType_IsValid_def)
  have ty: "\<not> mentions ''READONLY'' (fd_type f) \<and> \<not> mentions ''FLEXIBLE'' (fd_type f)" using types_plain n(2) unfolding list_all_iff by blast
  have before: "\<not> mentions ''READONLY'' w \<and> \<not> mentions ''FLEXIBLE'' w"
    if "w \<in> set (''DEFINE'' # head_words (fd_name f) tn ine) \<union> {''TYPE'', fd_type f} \<union> set (opt_words ''ASSERT'' (fd_assertion f))
      \<union> set (opt_words ''DEFAULT'' (fd_default f)) \<union> set (opt_words ''VALUE'' (fd_value f))" for w
    using that unfolding Un_iff insert_iff empty_iff
  proof (elim disjE)
    assume "w \<in> set (''DEFINE'' # head_words (fd_name f) tn ine)"
    then show ?thesis using head_words_plain [OF n(1) assms(2)] by blast
  next
    assume "w \<in> set (opt_words ''ASSERT'' (fd_assertion f))"
    then show ?thesis by (rule opt_mentions [OF e(1), rotated]) simp
  next
    assume "w \<in> set (opt_words ''DEFAULT'' (fd_default f))"
    then show ?thesis by (rule opt_mentions [OF e(2), rotated]) simp
  next
    assume "w \<in> set (opt_words ''VALUE'' (fd_value f))"
    then show ?thesis by (rule opt_mentions [OF e(3), rotated]) simp
  qed (use ty fixed_words(2) in simp_all)
  show "(\<exists>w \<in> set (''DEFINE'' # head_words (fd_name f) tn ine @ ''TYPE'' # fd_type f # tail_words f). mentions ''READONLY'' w) = fd_readonly f"
    using before fixed_words(3-6) unfolding tail_words_def flag_words_def by auto
  show "(\<exists>w \<in> set (''DEFINE'' # head_words (fd_name f) tn ine @ ''TYPE'' # fd_type f # tail_words f). mentions ''FLEXIBLE'' w) = fd_flexible f"
    using before fixed_words(3-6) unfolding tail_words_def flag_words_def by auto
qed

text \<open>
  Parsing the statement that is generated for a field gives the field back: its
  type, assertion, default, value and flags (the permissions are not part of the statement), whether
  or not the statement says IF NOT EXISTS, when none of its texts contains a keyword of the statement.
\<close>
theorem field_roundtrip:
  assumes "plain_field f" "plain_name tableName"
  shows "ParseField (fd_name f) (field_toSurql f tableName ine) = Inr (f\<lparr>fd_permissions := fmempty\<rparr>)"
proof -
  let ?def = "field_toSurql f tableName ine" and ?us = "head_words (fd_name f) tableName ine @ ''TYPE'' # fd_type f # tail_words f"
  have name: "fd_name f \<noteq> []" and n: "plain_name (fd_name f)" and ty: "fd_type f \<in> set field_types"
    and e: "plain_expr (fd_assertion f)" "plain_expr (fd_default f)" "plain_expr (fd_value f)"
    using assms(1) by (auto simp: plain_field_def plain_name_def word_ok_def FieldType_IsValid_def)
  have guard: "parse_guard ''field'' (fd_name f) ?def = None"
    using name by (simp add: parse_guard_def field_toSurql_def trim_space_def trim_left_def is_space_def trim_right_def dropWhile_append)
  note ok = sentence_words_ok [OF assms, of ine]
  have type: "extractFieldType ?def = fd_type f"
  proof -
    have "ident_ok (fd_type f)" "to_lower (fd_type f) = fd_type f" using types_plain ty unfolding list_all_iff by blast+
    moreover have "\<forall>w \<in> set (''DEFINE'' # head_words (fd_name f) tableName ine). \<not> ends_kw ''TYPE'' w" using head_words_plain [OF n assms(2)] by blast
    ultimately have "first_group reFieldType ?def = Some (fd_type f)"
      unfolding field_sentence using ok by (intro type_of_sentence) simp_all
    then show ?thesis using ty \<open>to_lower (fd_type f) = fd_type f\<close> by (simp add: extractFieldType_def)
  qed
  have clause: "extract_clause (clause_re kw stops) ?def = x"
    if "clause_of_words kw stops (''DEFINE'' # ?us) = (if x = [] then None else Some x)" "plain_expr x" "kw_ok kw" "list_all kw_ok stops" "to_lower ''DEFINE'' \<noteq> to_lower kw" for kw stops x
    using clause_of_sentence [OF ok that(3-5)] that(1) plain_expr_chars [OF that(2)] unfolding field_sentence [symmetric] by (simp add: extract_clause_def)
  have clauses: "extractAssertion ?def = fd_assertion f" "extractDefault ?def = fd_default f" "extractValue ?def = fd_value f"
    unfolding extractAssertion_def extractDefault_def extractValue_def reFieldAssert_def reFieldDefault_def reFieldValueExpr_def
    by (rule clause [OF rendered_clauses(1) [OF assms] e(1)] clause [OF rendered_clauses(2) [OF assms] e(2)] clause [OF rendered_clauses(3) [OF assms] e(3)];
        simp add: keywords_ok lower_keywords)+
  have flags: "extractReadOnly ?def = fd_readonly f" "extractFlexible ?def = fd_flexible f"
    unfolding extractReadOnly_def extractFlexible_def reFieldReadOnly_def reFieldFlexible_def field_sentence
      word_anywhere [OF keywords_ok(4)] word_anywhere [OF keywords_ok(5)] by (rule rendered_flags [OF assms])+
  show ?thesis by (simp add: ParseField_def guard type clauses flags)
qed

section \<open>The round trip of an event\<close>

definition plain_event_name :: "string \<Rightarrow> bool" where
  "plain_event_name n \<longleftrightarrow> word_ok n \<and> \<not> ends_kw ''WHEN'' n \<and> \<not> ends_kw ''THEN'' n"

definition plain_event :: "event_definition \<Rightarrow> bool" where
  "plain_event e \<longleftrightarrow> plain_event_name (ev_name e) \<and> ev_condition e \<noteq> [] \<and> ev_action e \<noteq> []
     \<and> list_all (\<lambda>w. word_ok w \<and> \<not> starts_kw ''THEN'' w \<and> \<not> ends_kw ''THEN'' w) (split_on (CHR '' '') (ev_condition e))
     \<and> list_all (\<lambda>w. word_ok w \<and> CHR ''}'' \<notin> set w) (split_on (CHR '' '') (ev_action e))"

definition event_words :: "event_definition \<Rightarrow> string \<Rightarrow> string list" where
  "event_words e tn = [''EVENT'', ev_name e, ''ON'', ''TABLE'', tn]"

lemma event_sentence:
  "event_sql tn e = sentence (''DEFINE'' # event_words e tn @ ''WHEN'' # split_on (CHR '' '') (ev_condition e)
     @ ''THEN'' # ''{'' # split_on (CHR '' '') (ev_action e) @ [''}''])"
  by (simp add: sentence_spaced event_sql_def event_words_def spaced_append spaced_split)

lemma then_ok: "kw_ok ''THEN''" "kw_ok ''WHEN''"
  by code_simp+

lemma then_after:
  "\<not> re_space c \<Longrightarrow> matches (Seq Spaces (Seq (LitI ''THEN'') WordB)) q (c # s) = []"
  "word_ok w \<Longrightarrow> breaks R \<Longrightarrow> matches (Seq Spaces (Seq (LitI ''THEN'') WordB)) q (CHR '' '' # w @ R) = [] \<longleftrightarrow> \<not> starts_kw ''THEN'' w"
proof -
  show "matches (Seq Spaces (Seq (LitI ''THEN'') WordB)) q (c # s) = []" if "\<not> re_space c" using that by (rule matches_Spaces(1))
  assume w: "word_ok w" "breaks R"
  obtain c cs where "w = c # cs" "\<not> re_space c" using word_ok_hd [OF w(1)] by blast
  then have h: "w @ R = [] \<or> \<not> re_space (hd (w @ R))" by simp
  show "matches (Seq Spaces (Seq (LitI ''THEN'') WordB)) q (CHR '' '' # w @ R) = [] \<longleftrightarrow> \<not> starts_kw ''THEN'' w"
    unfolding matches_Spaces(2) [OF h] using matches_LitI_WordB [OF then_ok(1)] starts_kw_word [OF then_ok(1) w(2)] by blast
qed

lemma fixed_event_words:
  "list_all (\<lambda>w. word_ok w \<and> \<not> ends_kw ''WHEN'' w \<and> \<not> ends_kw ''THEN'' w) [''DEFINE'', ''EVENT'', ''ON'', ''TABLE'']"
  "word_ok ''WHEN'' \<and> \<not> ends_kw ''THEN'' ''WHEN'' \<and> word_ok ''THEN'' \<and> starts_kw ''THEN'' ''THEN'' \<and> word_ok ''{'' \<and> word_ok ''}''"
  by code_simp+

lemma event_condition:
  assumes "plain_event e" "plain_event_name tn"
  shows "extractEventCondition (event_sql tn e) = ev_condition e"
proof -
  obtain v vs where c: "split_on (CHR '' '') (ev_condition e) = v # vs" by (cases "split_on (CHR '' '') (ev_condition e)") auto
  obtain a as where a: "split_on (CHR '' '') (ev_action e) = a # as" by (cases "split_on (CHR '' '') (ev_action e)") auto
  let ?r = "Seq (Grp 1 (LazyPlus AnyChar)) (Seq Spaces (Seq (LitI ''THEN'') WordB))"
  let ?rest = "''THEN'' # ''{'' # (a # as) @ [''}'']"
  have cw: "\<forall>w \<in> set (v # vs). word_ok w \<and> \<not> starts_kw ''THEN'' w" and aw: "\<forall>w \<in> set (a # as). word_ok w"
    using assms(1) unfolding plain_event_def c a by (auto simp: list_all_iff)
  have n: "plain_event_name (ev_name e)" using assms(1) by (simp add: plain_event_def)
  have parts: "v @ spaced (vs @ ?rest) @ '';'' = v @ spaced vs @ (spaced ?rest @ '';'')" by (simp add: spaced_append)
  have "\<exists>y s'. hd_opt (matches ?r (Some (CHR '' '')) (v @ spaced vs @ (spaced ?rest @ '';''))) = Some ((1, str_join '' '' (v # vs)) # y, s')"
  proof (rule capture_words)
    show "matches (Seq Spaces (Seq (LitI ''THEN'') WordB)) q (c # s) = []" if "w \<in> set (v # vs)" "c \<in> set w" for w c q s
      using that cw word_ok_chars [of w c] then_after(1) by blast
    show "matches (Seq Spaces (Seq (LitI ''THEN'') WordB)) q (CHR '' '' # w @ R) = []" if "w \<in> set vs" "breaks R" for w q R
      using then_after(2) [OF _ that(2)] cw that(1) by (meson list.set_intros(2))
    show "matches (Seq Spaces (Seq (LitI ''THEN'') WordB)) q (spaced ?rest @ '';'') \<noteq> []" for q
    proof -
      have "matches (Seq Spaces (Seq (LitI ''THEN'') WordB)) q (CHR '' '' # ''THEN'' @ (spaced (''{'' # (a # as) @ [''}'']) @ '';'')) \<noteq> []"
        using then_after(2) [OF _ breaks_spaced(1)] fixed_event_words(2) by blast
      then show ?thesis by (simp only: spaced_simps append_Cons append_Nil append_assoc simp_thms)
    qed
  qed (use cw in \<open>auto simp: list_all_iff word_char_def is_digit_def\<close>)
  then obtain y s' where h: "hd_opt (matches ?r (Some (CHR '' '')) (v @ spaced (vs @ ?rest) @ '';'')) = Some ((1, str_join '' '' (v # vs)) # y, s')"
    unfolding parts by blast
  have ok: "list_all word_ok (''DEFINE'' # event_words e tn @ ''WHEN'' # v # vs @ ?rest)"
    using cw aw n assms(2) fixed_event_words by (auto simp: event_words_def plain_event_name_def list_all_iff)
  have "\<forall>w \<in> set (''DEFINE'' # event_words e tn). \<not> ends_kw ''WHEN'' w"
    using n assms(2) fixed_event_words(1) by (auto simp: event_words_def plain_event_name_def)
  from keyed_sentence [OF then_ok(2) ok this refl h]
  have "first_group reEventWhen (event_sql tn e) = Some (str_join '' '' (v # vs))"
    unfolding event_sentence c a by (auto simp: first_group_def reEventWhen_def group_def)
  moreover have "str_join '' '' (v # vs) = ev_condition e" using join_split_on [of "CHR '' ''" "ev_condition e"] c by simp
  moreover have "trimmed (ev_condition e)" by (rule words_trimmed(1)) (use cw c in \<open>simp add: list_all_iff\<close>)
  ultimately show ?thesis by (simp add: extractEventCondition_def)
qed

text \<open>The action stands in braces; the spaces inside them are not part of it.\<close>

lemma hd_opt_append: "xs \<noteq> [] \<Longrightarrow> hd_opt (xs @ ys) = hd_opt xs"
  by (cases xs) (simp_all add: hd_opt_def)

lemma skip_space:
  assumes "w = [] \<or> \<not> re_space (hd w)" "matches r (Some (CHR '' '')) w \<noteq> []"
  shows "hd_opt (matches (Seq (Star (Sat re_space)) r) q (CHR '' '' # w)) = hd_opt (matches r (Some (CHR '' '')) w)"
proof -
  have sp: "re_space (CHR '' '')" by (simp add: re_space_def)
  have t: "takeWhile re_space w = []" using assms(1) by (cases w) simp_all
  have "matches (Seq (Star (Sat re_space)) r) q (CHR '' '' # w) = matches r (Some (CHR '' '')) w @ matches r q (CHR '' '' # w)"
    unfolding matches_Seq by (simp add: matches_Star_Sat t sp case_prod_beta' last_before_def)
  then show ?thesis using assms(2) by (simp add: hd_opt_append)
qed

definition brace_end :: regex where
  "brace_end = Seq (Star (Sat re_space)) (Seq (Chr (CHR ''}'')) (Alt (Seq (Star (Sat re_space)) (Chr (CHR '';''))) (Seq (Star (Sat re_space)) AtEnd)))"

lemma brace_end_cases:
  "\<not> re_space c \<Longrightarrow> c \<noteq> CHR ''}'' \<Longrightarrow> matches brace_end q (c # s) = []"
  "word_ok w \<Longrightarrow> CHR ''}'' \<notin> set w \<Longrightarrow> matches brace_end q (CHR '' '' # w @ R) = []"
  "matches brace_end q '' };'' \<noteq> []"
proof -
  show "matches brace_end q (c # s) = []" if "\<not> re_space c" "c \<noteq> CHR ''}''"
    unfolding brace_end_def using that by (subst matches_Star_space(1)) simp_all
  show "matches brace_end q (CHR '' '' # w @ R) = []" if w: "word_ok w" "CHR ''}'' \<notin> set w"
  proof -
    obtain c cs where c: "w = c # cs" "\<not> re_space c" using word_ok_hd [OF w(1)] by blast
    then show ?thesis unfolding brace_end_def using w(2) by (subst matches_Star_space(2)) auto
  qed
  have "matches (Alt (Seq (Star (Sat re_space)) (Chr (CHR '';''))) (Seq (Star (Sat re_space)) AtEnd)) q '';'' \<noteq> []" for q
    using matches_Star_space(1) [of "'';''"] by (simp add: re_space_def Chr_def)
  then show "matches brace_end q '' };'' \<noteq> []"
    unfolding brace_end_def using matches_Star_space(2) [of "''};''"] by (simp add: re_space_def)
qed

lemma matches_Seq_cong: "(\<And>q s. matches X q s = matches Y q s) \<Longrightarrow> matches (Seq a X) p s = matches (Seq a Y) p s"
  by (simp add: matches_Seq)

lemma braced_body:
  "matches (Seq (Seqs [Chr (CHR ''{''), Star (Sat re_space), g, Star (Sat re_space), Chr (CHR ''}'')])
       (Alt (Seq (Star (Sat re_space)) (Chr (CHR '';''))) (Seq (Star (Sat re_space)) AtEnd))) q (CHR ''{'' # s)
     = matches (Seq (Star (Sat re_space)) (Seq g brace_end)) (Some (CHR ''{'')) s"
proof -
  let ?sp = "Star (Sat re_space)"
  let ?fin = "Alt (Seq ?sp (Chr (CHR '';''))) (Seq ?sp AtEnd)"
  have "matches (Seq (Seq g (Seq ?sp (Chr (CHR ''}'')))) ?fin) q s = matches (Seq g brace_end) q s" for q s
    unfolding matches_Seq_assoc brace_end_def by (rule matches_Seq_cong) (rule matches_Seq_assoc)
  then have "matches (Seq (Seq ?sp (Seq g (Seq ?sp (Chr (CHR ''}''))))) ?fin) q s = matches (Seq ?sp (Seq g brace_end)) q s" for q s
    unfolding matches_Seq_assoc [of ?sp] by (rule matches_Seq_cong)
  then have eq: "matches (Seq (Seq (Chr (CHR ''{'')) (Seq ?sp (Seq g (Seq ?sp (Chr (CHR ''}'')))))) ?fin) q (CHR ''{'' # s)
      = matches (Seq (Chr (CHR ''{'')) (Seq ?sp (Seq g brace_end))) q (CHR ''{'' # s)"
    unfolding matches_Seq_assoc [of "Chr (CHR ''{'')"] by (rule matches_Seq_cong)
  have "matches (Seq (Chr (CHR ''{'')) (Seq ?sp (Seq g brace_end))) q (CHR ''{'' # s) = matches (Seq ?sp (Seq g brace_end)) (Some (CHR ''{'')) s"
    unfolding Chr_def matches_Seq_Sat by simp
  with eq show ?thesis by (simp only: Seqs.simps)
qed

lemma event_action:
  assumes "plain_event e" "plain_event_name tn"
  shows "extractEventAction (event_sql tn e) = ev_action e"
proof -
  obtain v vs where c: "split_on (CHR '' '') (ev_condition e) = v # vs" by (cases "split_on (CHR '' '') (ev_condition e)") auto
  obtain a as where a: "split_on (CHR '' '') (ev_action e) = a # as" by (cases "split_on (CHR '' '') (ev_action e)") auto
  have cw: "\<forall>w \<in> set (v # vs). word_ok w \<and> \<not> ends_kw ''THEN'' w" and aw: "\<forall>w \<in> set (a # as). word_ok w \<and> CHR ''}'' \<notin> set w"
    using assms(1) unfolding plain_event_def c a by (auto simp: list_all_iff)
  have n: "plain_event_name (ev_name e)" using assms(1) by (simp add: plain_event_def)
  let ?fin = "Alt (Seq (Star (Sat re_space)) (Chr (CHR '';''))) (Seq (Star (Sat re_space)) AtEnd)"
  let ?braced = "Seqs [Chr (CHR ''{''), Star (Sat re_space), Grp 1 (LazyPlus AnyChar), Star (Sat re_space), Chr (CHR ''}'')]"
  let ?r = "Seq (Alt ?braced (Grp 2 (LazyPlus AnyChar))) ?fin" and ?body = "Seq (Grp 1 (LazyPlus AnyChar)) brace_end"
  have body: "\<exists>y s'. hd_opt (matches ?body q (a @ spaced as @ '' };'')) = Some ((1, str_join '' '' (a # as)) # y, s')" for q
  proof (rule capture_words)
    show "matches brace_end q (c # s) = []" if "w \<in> set (a # as)" "c \<in> set w" for w c q s
      using that aw word_ok_chars [of w c] brace_end_cases(1) by metis
  qed (use aw brace_end_cases(2,3) in \<open>auto simp: list_all_iff word_char_def is_digit_def\<close>)
  obtain x xs where ax: "a = x # xs" "\<not> re_space x" using aw word_ok_hd [of a] by auto
  have "matches (Seq ?braced ?fin) q (CHR ''{'' # CHR '' '' # a @ spaced as @ '' };'')
      = matches (Seq (Star (Sat re_space)) ?body) (Some (CHR ''{'')) (CHR '' '' # a @ spaced as @ '' };'')" for q
    by (rule braced_body)
  moreover have "hd_opt (matches (Seq (Star (Sat re_space)) ?body) q (CHR '' '' # a @ spaced as @ '' };'')) = hd_opt (matches ?body (Some (CHR '' '')) (a @ spaced as @ '' };''))" for q
    by (rule skip_space) (use ax body [of "Some (CHR '' '')"] in \<open>auto simp: hd_opt_def\<close>)
  ultimately obtain y s' where b: "hd_opt (matches (Seq ?braced ?fin) (Some (CHR '' '')) (CHR ''{'' # CHR '' '' # a @ spaced as @ '' };''))
      = Some ((1, str_join '' '' (a # as)) # y, s')" using body by metis
  then have "matches (Seq ?braced ?fin) (Some (CHR '' '')) (CHR ''{'' # CHR '' '' # a @ spaced as @ '' };'') \<noteq> []" by (auto simp: hd_opt_def)
  then have h: "hd_opt (matches ?r (Some (CHR '' '')) (''{'' @ spaced ((a # as) @ [''}'']) @ '';'')) = Some ((1, str_join '' '' (a # as)) # y, s')"
    using b unfolding matches_Seq_Alt(2) by (simp add: spaced_append hd_opt_append)
  let ?us = "event_words e tn @ ''WHEN'' # v # vs"
  have ok: "list_all word_ok (''DEFINE'' # ?us @ ''THEN'' # ''{'' # (a # as) @ [''}''])"
    using cw aw n assms(2) fixed_event_words by (auto simp: event_words_def plain_event_name_def list_all_iff)
  have "\<forall>w \<in> set (''DEFINE'' # ?us). \<not> ends_kw ''THEN'' w"
    using n assms(2) cw fixed_event_words by (auto simp: event_words_def plain_event_name_def)
  from keyed_sentence [OF then_ok(1) ok this refl h]
  obtain m where "find_submatch reEventThen (event_sql tn e) = Some m" "group m 1 = str_join '' '' (a # as)"
    unfolding event_sentence c a by (auto simp: reEventThen_def group_def)
  moreover have "str_join '' '' (a # as) = ev_action e" using join_split_on [of "CHR '' ''" "ev_action e"] a by simp
  moreover have "trimmed (ev_action e)" by (rule words_trimmed(1)) (use aw a in \<open>simp add: list_all_iff\<close>)
  moreover have "ev_action e \<noteq> []" using assms(1) by (simp add: plain_event_def)
  ultimately show ?thesis by (simp add: extractEventAction_def or_default_def)
qed

lemma event_roundtrip:
  assumes "plain_event e" "plain_event_name tn"
  shows "ParseEvent (ev_name e) (event_sql tn e) = Inr e"
proof -
  have "ev_name e \<noteq> []" "ev_condition e \<noteq> []" "ev_action e \<noteq> []" using assms(1) by (auto simp: plain_event_def plain_event_name_def word_ok_def)
  moreover have "parse_guard ''event'' (ev_name e) (event_sql tn e) = None"
    using \<open>ev_name e \<noteq> []\<close> by (simp add: parse_guard_def event_sql_def trim_space_def trim_left_def is_space_def trim_right_def dropWhile_append)
  ultimately show ?thesis by (simp add: ParseEvent_def event_condition [OF assms] event_action [OF assms] Let_def)
qed

section \<open>A table read back\<close>

text \<open>The database reports a member of a table under one of the keys, once per name, with its statement.\<close>

definition reported :: "go_map \<Rightarrow> string list \<Rightarrow> ('a \<Rightarrow> string) \<Rightarrow> ('a \<Rightarrow> string) \<Rightarrow> 'a list \<Rightarrow> bool" where
  "reported info ks nm sql xs \<longleftrightarrow>
     distinct (map fst (extractStringMap info ks)) \<and> set (extractStringMap info ks) = (\<lambda>x. (nm x, sql x)) ` set xs"

definition reports_table :: "go_map \<Rightarrow> table_definition \<Rightarrow> bool" where
  "reports_table info t \<longleftrightarrow>
     reported info [''fields'', ''fd''] fd_name (\<lambda>f. field_toSurql f (tb_name t) False) (tb_fields t)
     \<and> reported info [''indexes'', ''ix''] ix_name (\<lambda>i. index_toSurql i (tb_name t) False) (tb_indexes t)
     \<and> reported info [''events'', ''ev''] ev_name (event_sql (tb_name t)) (tb_events t)"

definition plain_table :: "table_definition \<Rightarrow> bool" where
  "plain_table t \<longleftrightarrow> plain_name (tb_name t) \<and> plain_event_name (tb_name t) \<and> list_all plain_field (tb_fields t)
     \<and> list_all (\<lambda>i. ix_name i \<noteq> []) (tb_indexes t) \<and> list_all plain_event (tb_events t)"

lemma parse_each_simps:
  "parse_each p [] = []" "parse_each p ((n, s) # d) = (case p n s of Inr x \<Rightarrow> x # parse_each p d | Inl _ \<Rightarrow> parse_each p d)"
  by (simp_all add: parse_each_def map_filter_simps split: sum.split)

lemma parse_each_names:
  "(\<And>n s. (n, s) \<in> set d \<Longrightarrow> \<exists>x. p n s = Inr x \<and> nm x = n) \<Longrightarrow> map nm (parse_each p d) = map fst d"
proof (induction d)
  case (Cons e d)
  obtain n s where e: "e = (n, s)" by (cases e)
  obtain x where "p n s = Inr x" "nm x = n" using Cons.prems [of n s] e by auto
  then show ?case using Cons e by (simp add: parse_each_simps)
qed (simp add: parse_each_simps)

lemma parse_each_set: "set (parse_each p d) = {x. \<exists>(n, s) \<in> set d. p n s = Inr x}"
proof (induction d)
  case (Cons e d)
  then show ?case by (cases e; cases "p (fst e) (snd e)") (auto simp: parse_each_simps)
qed (simp add: parse_each_simps)

lemma parse_reported:
  assumes "reported info ks nm sql xs" "\<And>x. x \<in> set xs \<Longrightarrow> \<exists>y. p (nm x) (sql x) = Inr y \<and> nm y = nm x \<and> R x y"
  shows "distinct (map nm (parse_each p (extractStringMap info ks)))"
    "nm ` set (parse_each p (extractStringMap info ks)) = nm ` set xs"
    "set (parse_each p (extractStringMap info ks)) = {y. \<exists>x \<in> set xs. p (nm x) (sql x) = Inr y}"
    "y \<in> set (parse_each p (extractStringMap info ks)) \<Longrightarrow> \<exists>x \<in> set xs. nm y = nm x \<and> R x y"
proof -
  let ?d = "extractStringMap info ks"
  have d: "distinct (map fst ?d)" "set ?d = (\<lambda>x. (nm x, sql x)) ` set xs" using assms(1) by (simp_all add: reported_def)
  have ok: "\<exists>x. p n s = Inr x \<and> nm x = n" if "(n, s) \<in> set ?d" for n s using that assms(2) unfolding d(2) by blast
  have names: "map nm (parse_each p ?d) = map fst ?d" by (rule parse_each_names) (rule ok)
  show "distinct (map nm (parse_each p ?d))" using d(1) names by simp
  have "nm ` set (parse_each p ?d) = fst ` set ?d" by (metis names set_map)
  then show "nm ` set (parse_each p ?d) = nm ` set xs" unfolding d(2) by (simp add: image_image)
  show *: "set (parse_each p ?d) = {y. \<exists>x \<in> set xs. p (nm x) (sql x) = Inr y}" unfolding parse_each_set d(2) by auto
  show "\<exists>x \<in> set xs. nm y = nm x \<and> R x y" if "y \<in> set (parse_each p ?d)"
    using that assms(2) unfolding * by fastforce
qed

lemma index_parses:
  assumes "ix_name i \<noteq> []"
  shows "\<exists>j. ParseIndex (ix_name i) (index_toSurql i tn b) = Inr j \<and> ix_name j = ix_name i"
proof -
  have "parse_guard ''index'' (ix_name i) (index_toSurql i tn b) = None"
    using assms by (simp add: parse_guard_def index_toSurql_def trim_space_def trim_left_def is_space_def trim_right_def dropWhile_append)
  then show ?thesis by (simp add: ParseIndex_def Let_def NewIndex_def)
qed

text \<open>
  C21 (refinement). No drift after a migration: when the database reports the fields, indexes and events of a
  table with the statements the code generated for them, the table that is parsed from the report has
  the same fields (but for their permissions) and events, and comparing it with the table in the code
  gives no change.
\<close>
theorem no_drift:
  assumes plain: "plain_table t" and wf: "wf_table t" "tb_permissions t = fmempty" and info: "reports_table info t"
  shows "\<exists>db. ParseTableInfo (tb_name t) info = Inr db \<and> DiffTables (Some db) (Some t) = Inr []
    \<and> set (tb_fields db) = (\<lambda>f. f\<lparr>fd_permissions := fmempty\<rparr>) ` set (tb_fields t) \<and> set (tb_events db) = set (tb_events t)"
proof -
  have tn: "plain_name (tb_name t)" "plain_event_name (tb_name t)" "tb_name t \<noteq> []"
    using plain by (auto simp: plain_table_def plain_name_def word_ok_def)
  let ?db = "\<lparr>tb_name = tb_name t, tb_mode = parseTableMode (stringAt info ''tb''),
      tb_fields = parseFields (extractStringMap info [''fields'', ''fd'']), tb_indexes = parseIndexes (extractStringMap info [''indexes'', ''ix'']),
      tb_events = parseEvents (extractStringMap info [''events'', ''ev'']), tb_permissions = fmempty, tb_drop = False\<rparr>"
  have f: "ParseField (fd_name x) (field_toSurql x (tb_name t) False) = Inr (x\<lparr>fd_permissions := fmempty\<rparr>)" if "x \<in> set (tb_fields t)" for x
    using field_roundtrip [OF _ tn(1)] plain that by (auto simp: plain_table_def list_all_iff)
  have e: "ParseEvent (ev_name x) (event_sql (tb_name t) x) = Inr x" if "x \<in> set (tb_events t)" for x
    using event_roundtrip [OF _ tn(2)] plain that by (auto simp: plain_table_def list_all_iff)
  have i: "\<exists>y. ParseIndex (ix_name x) (index_toSurql x (tb_name t) False) = Inr y \<and> ix_name y = ix_name x \<and> True" if "x \<in> set (tb_indexes t)" for x
    using index_parses plain that by (auto simp: plain_table_def list_all_iff)
  note rep = info [unfolded reports_table_def]
  have "\<exists>y. ParseField (fd_name x) (field_toSurql x (tb_name t) False) = Inr y \<and> fd_name y = fd_name x \<and> y = x\<lparr>fd_permissions := fmempty\<rparr>"
    if "x \<in> set (tb_fields t)" for x using f [OF that] by simp
  note F = parse_reported [OF rep [THEN conjunct1] this, folded parseFields_def]
  note I = parse_reported [OF rep [THEN conjunct2, THEN conjunct1] i, folded parseIndexes_def]
  have "\<exists>y. ParseEvent (ev_name x) (event_sql (tb_name t) x) = Inr y \<and> ev_name y = ev_name x \<and> y = x"
    if "x \<in> set (tb_events t)" for x using e [OF that] by simp
  note E = parse_reported [OF rep [THEN conjunct2, THEN conjunct2] this, folded parseEvents_def]
  have fs: "set (tb_fields ?db) = (\<lambda>f. f\<lparr>fd_permissions := fmempty\<rparr>) ` set (tb_fields t)"
    using F(3) f by (auto simp: image_iff)
  have es: "set (tb_events ?db) = set (tb_events t)" using E(3) e by auto
  have "same_by fd_name fieldsEqual (tb_fields ?db) (tb_fields t)"
    unfolding same_by_def
  proof (intro conjI ballI impI)
    show "fd_name ` set (tb_fields ?db) = fd_name ` set (tb_fields t)" using F(2) by simp
    fix x y assume xy: "x \<in> set (tb_fields ?db)" "y \<in> set (tb_fields t)" "fd_name x = fd_name y"
    obtain z where z: "z \<in> set (tb_fields t)" "x = z\<lparr>fd_permissions := fmempty\<rparr>" using xy(1) fs by blast
    have "inj_on fd_name (set (tb_fields t))" using wf(1) by (simp add: wf_table_def distinct_map)
    then have "z = y" using z xy(2,3) by (simp add: inj_on_def)
    then show "fieldsEqual x y" using z(2) by (simp add: fieldsEqual_def)
  qed
  then have "same_table ?db t" using I(2) E(2) wf(2) by (simp add: same_table_def)
  moreover have "wf_table ?db" using F(1) I(1) E(1) by (simp add: wf_table_def)
  ultimately have "DiffTables (Some ?db) (Some t) = Inr []" using diff_members_Nil [OF _ wf(1)] by (simp add: DiffTables_def)
  moreover have "ParseTableInfo (tb_name t) info = Inr ?db" using tn(3) by (simp add: ParseTableInfo_def)
  ultimately show ?thesis using fs es by blast
qed

section \<open>A concrete table\<close>

definition email_field :: field_definition where
  "email_field =
     NewField ''email'' ''string'' [WithAssertion ''string::is_email($value)'', WithDefault ''NONE'', WithValue ''string::lowercase($value)'', WithReadOnly True]"

definition signup_event :: event_definition where
  "signup_event = \<lparr>ev_name = ''signup'', ev_condition = ''$event = 1'', ev_action = ''CREATE audit SET kind = 2''\<rparr>"

definition account_table :: table_definition where
  "account_table = NewTable ''account'' [WithFields [email_field, age_field], WithIndexes [NewIndex ''by_email'' [''email''] ''UNIQUE''],
     WithEvents [signup_event]]"

definition account_info :: go_map where
  "account_info =
     [(''events'', MapV [(''signup'', StrV (event_sql ''account'' signup_event))]),
      (''fields'', MapV [(''age'', StrV ''DEFINE FIELD age ON TABLE account TYPE int ASSERT $value > 0;''),
         (''email'', StrV (field_toSurql email_field ''account'' False))]),
      (''indexes'', MapV [(''by_email'', StrV ''DEFINE INDEX by_email ON TABLE account COLUMNS email UNIQUE;'')]),
      (''tb'', StrV ''DEFINE TABLE account SCHEMAFULL;'')]"

lemma account_plain:
  "plain_field email_field" "plain_field age_field" "plain_event signup_event" "plain_name ''account''" "plain_event_name ''account''"
  by code_simp+

lemma account_members:
  "tb_name account_table = ''account''" "tb_fields account_table = [email_field, age_field]"
  "tb_indexes account_table = [NewIndex ''by_email'' [''email''] ''UNIQUE'']" "tb_events account_table = [signup_event]"
  "tb_permissions account_table = fmempty"
  by (simp_all add: account_table_def NewTable_def WithFields_def WithIndexes_def WithEvents_def)

lemma account_names:
  "fd_name email_field = ''email''" "fd_name age_field = ''age''" "ev_name signup_event = ''signup''"
  "ix_name (NewIndex ''by_email'' [''email''] ''UNIQUE'') = ''by_email''"
  "field_toSurql age_field ''account'' False = ''DEFINE FIELD age ON TABLE account TYPE int ASSERT $value > 0;''"
  "index_toSurql (NewIndex ''by_email'' [''email''] ''UNIQUE'') ''account'' False = ''DEFINE INDEX by_email ON TABLE account COLUMNS email UNIQUE;''"
  by code_simp+

lemma account_reported: "reports_table account_info account_table"
  unfolding reports_table_def reported_def account_members
  by (auto simp: account_info_def string_entries_def map_filter_simps account_names)

lemma account_ok: "plain_table account_table" "wf_table account_table"
  by (simp_all add: plain_table_def wf_table_def account_members account_plain account_names)

lemma field_roundtrip_witness:
  "ParseField ''email'' (field_toSurql email_field ''account'' True) = Inr email_field
   \<and> extractReadOnly (field_toSurql email_field ''account'' True) \<and> \<not> extractFlexible (field_toSurql email_field ''account'' True)"
proof -
  have p: "fd_permissions email_field = fmempty" "fd_readonly email_field" "\<not> fd_flexible email_field"
    by (simp_all add: email_field_def NewField_def WithAssertion_def WithDefault_def WithValue_def WithReadOnly_def)
  have r: "ParseField ''email'' (field_toSurql email_field ''account'' True) = Inr email_field"
    using field_roundtrip [OF account_plain(1,4), of True] p(1) account_names(1) by simp
  then have "\<lparr>fd_name = ''email'', fd_type = extractFieldType d, fd_assertion = extractAssertion d, fd_default = extractDefault d,
      fd_value = extractValue d, fd_permissions = fmempty, fd_readonly = extractReadOnly d, fd_flexible = extractFlexible d\<rparr> = email_field"
    if "d = field_toSurql email_field ''account'' True" for d using that by (simp add: ParseField_def split: option.splits)
  from this [OF refl] show ?thesis using r p(2,3) by (metis field_definition.select_convs(7,8))
qed

lemma no_drift_witness:
  "\<exists>db. ParseTableInfo ''account'' account_info = Inr db \<and> DiffTables (Some db) (Some account_table) = Inr [] \<and> set (tb_events db) = {signup_event}"
  using no_drift [OF account_ok account_members(5) account_reported] by (auto simp: account_members)

section \<open>What the parser does not read back\<close>

text \<open>The keyword of a clause is found wherever it stands: a field named \<open>value\<close> is read with the rest of
  its own statement as its value, and one whose name ends in \<open>type\<close> loses its type.\<close>

lemma field_named_value:
  "extractValue (field_toSurql (NewField ''value'' ''int'' []) ''t'' False) = ''ON TABLE t TYPE int''"
  by code_simp

lemma field_named_type:
  "extractFieldType (field_toSurql (NewField ''user_type'' ''string'' []) ''t'' False) = ''any''"
  by code_simp

lemma index_named_unique:
  "extractIndexType (index_toSurql (NewIndex ''unique_email'' [''email''] ''INDEX'') ''t'' False) = ''UNIQUE''"
  by code_simp

text \<open>The comment of a bucket is written between double quotes and read between single ones.\<close>

lemma bucket_comment_lost:
  "extractQuoted (bucket_toSurql \<lparr>bk_name = ''b'', bk_backend = ''memory'', bk_readonly = False, bk_permissions = fmempty,
      bk_comment = ''logs''\<rparr> DefinePlain) ''COMMENT'' = []"
  by code_simp

text \<open>A table with permissions differs from what is read back, every time.\<close>

lemma permissions_never_read: "ParseTableInfo n info = Inr db \<Longrightarrow> tb_permissions db = fmempty"
  by (auto simp: ParseTableInfo_def split: if_splits)

lemma permissions_always_differ:
  assumes "ParseTableInfo n info = Inr db" "tb_permissions t \<noteq> fmempty"
  shows "DiffTables (Some db) (Some t) \<noteq> Inr []"
  using assms permissions_never_read [OF assms(1)]
  by (auto simp: DiffTables_def diff_members_def append_results_Nil DiffPermissions_def)

section \<open>What the checks of the diff engine let through\<close>

text \<open>A separator that no space follows is accepted in an event, and two safe expressions of one field
  can make a statement of their own: the quote that the default opens ends in the value.\<close>

lemma separator_accepted: "validateEventExpression ''a = 1;DELETE user'' ''action'' = None"
  by code_simp

lemma safe_clauses_combine:
  "fieldToSQL ''t'' (NewField ''x'' ''int'' [WithDefault [CHR ''f'', CHR ''('', CHR 0x27, CHR '')''],
      WithValue (CHR 0x27 # ''); REMOVE TABLE user; --'' @ [CHR 0x27])])
   = Inr (''DEFINE FIELD x ON TABLE t TYPE int DEFAULT f('' @ CHR 0x27 # '') VALUE '' @ CHR 0x27 # ''); REMOVE TABLE user; --'' @ CHR 0x27 # '';'')"
  by code_simp

text \<open>Clearing the permissions of a bucket is a change whose statement says nothing of permissions.\<close>

lemma cleared_permissions_unsaid:
  "sd_forward (generateModifyBucketDiff
       \<lparr>bk_name = ''b'', bk_backend = ''memory'', bk_readonly = False, bk_permissions = fmupd ''*'' ''FULL'' fmempty, bk_comment = []\<rparr>
       \<lparr>bk_name = ''b'', bk_backend = ''memory'', bk_readonly = False, bk_permissions = fmempty, bk_comment = []\<rparr>) = ''ALTER BUCKET b;''"
  by code_simp

end
