(* ===== verification/Schema_Validator.thy ===== *)
theory Schema_Validator
  imports Schema_Diff Sql_Values
begin

text \<open>
  The validator of package \<open>schema\<close> (\<open>validator.go\<close>, \<open>validator_utils.go\<close>): structural checks of the definitions
  in a registry, the drift between a schema in code and the schema of a database, and the report. A
  report is the list of its results; the pointer to one is an option. As in the diff engine, maps
  built from slices keep the last definition of a name (\<open>by_name\<close>).
\<close>

section \<open>Results and reports\<close>

type_synonym severity = string

definition SeverityError :: severity where "SeverityError = ''error''"
definition SeverityWarning :: severity where "SeverityWarning = ''warning''"
definition SeverityInfo :: severity where "SeverityInfo = ''info''"

definition Severity_IsValid :: "severity \<Rightarrow> bool" where
  "Severity_IsValid s \<longleftrightarrow> s = SeverityError \<or> s = SeverityWarning \<or> s = SeverityInfo"

lemma severities_differ [simp]:
  "SeverityError \<noteq> SeverityWarning" "SeverityError \<noteq> SeverityInfo" "SeverityWarning \<noteq> SeverityInfo"
  "SeverityWarning \<noteq> SeverityError" "SeverityInfo \<noteq> SeverityError" "SeverityInfo \<noteq> SeverityWarning"
  by (simp_all add: SeverityError_def SeverityWarning_def SeverityInfo_def)

record validation_result =
  vr_severity :: severity
  vr_table :: string
  vr_field :: string
  vr_message :: string
  vr_code :: string
  vr_db :: string

definition in_parentheses :: "validation_result \<Rightarrow> string \<Rightarrow> string \<Rightarrow> string" where
  "in_parentheses r before after =
     (if vr_code r = [] \<and> vr_db r = [] then [] else before @ vr_code r @ '', db: '' @ vr_db r @ after)"

definition ValidationResult_String :: "validation_result \<Rightarrow> string" where
  "ValidationResult_String r =
     ''['' @ to_upper (vr_severity r) @ ''] '' @ vr_table r @ clause ''.'' (vr_field r) @ '': '' @ vr_message r
     @ in_parentheses r '' (code: '' '')''"

type_synonym validation_report = "validation_result list"

definition FilterBySeverity :: "validation_report \<Rightarrow> severity \<Rightarrow> validation_report" where
  "FilterBySeverity rs s = filter (\<lambda>r. vr_severity r = s) rs"

definition FilterErrors :: "validation_report \<Rightarrow> validation_report" where "FilterErrors rs = FilterBySeverity rs SeverityError"
definition FilterWarnings :: "validation_report \<Rightarrow> validation_report" where "FilterWarnings rs = FilterBySeverity rs SeverityWarning"
definition FilterInfos :: "validation_report \<Rightarrow> validation_report" where "FilterInfos rs = FilterBySeverity rs SeverityInfo"

definition HasErrors :: "validation_report \<Rightarrow> bool" where
  "HasErrors rs \<longleftrightarrow> list_ex (\<lambda>r. vr_severity r = SeverityError) rs"

text \<open>The methods of the report; a nil receiver is left as it is.\<close>

definition report_Add :: "validation_result \<Rightarrow> validation_report option \<Rightarrow> validation_report option" where
  "report_Add r vr = map_option (\<lambda>rs. rs @ [r]) vr"

definition report_AddAll :: "validation_report \<Rightarrow> validation_report option \<Rightarrow> validation_report option" where
  "report_AddAll new vr = map_option (\<lambda>rs. rs @ new) vr"

definition report_Merge :: "validation_report option \<Rightarrow> validation_report option \<Rightarrow> validation_report option" where
  "report_Merge other vr = (case other of None \<Rightarrow> vr | Some new \<Rightarrow> map_option (\<lambda>rs. rs @ new) vr)"

definition report_select :: "severity \<Rightarrow> validation_report option \<Rightarrow> validation_report" where
  "report_select s vr = (case vr of None \<Rightarrow> [] | Some rs \<Rightarrow> FilterBySeverity rs s)"

definition report_IsValid :: "validation_report option \<Rightarrow> bool" where
  "report_IsValid vr \<longleftrightarrow> (case vr of None \<Rightarrow> True | Some rs \<Rightarrow> \<not> HasErrors rs)"

definition report_Len :: "validation_report option \<Rightarrow> nat" where
  "report_Len vr = (case vr of None \<Rightarrow> 0 | Some rs \<Rightarrow> length rs)"

definition GroupByTable :: "validation_report \<Rightarrow> (string, validation_report) fmap" where
  "GroupByTable rs =
     fmap_of_list (map (\<lambda>t. (t, filter (\<lambda>r. vr_table r = t) rs)) (remdups (map vr_table rs)))"

definition severityIcon :: "severity \<Rightarrow> string" where
  "severityIcon s =
     (if s = SeverityError then ''[!]'' else if s = SeverityWarning then ''[~]'' else if s = SeverityInfo then ''[i]'' else ''[ ]'')"

definition report_line :: "validation_result \<Rightarrow> string" where
  "report_line r =
     [CHR 0x0A] @ ''  '' @ severityIcon (vr_severity r) @ '' '' @ vr_message r @ clause ''.'' (vr_field r)
     @ in_parentheses r ([CHR 0x0A] @ ''      code: '') []"

definition FormatValidationReport :: "validation_report \<Rightarrow> bool \<Rightarrow> string" where
  "FormatValidationReport rs includeInfo =
     (let filtered = (if includeInfo then rs else filter (\<lambda>r. vr_severity r \<noteq> SeverityInfo) rs); grouped = GroupByTable filtered in
      if rs = [] then ''No schema validation issues found.''
      else if filtered = [] then ''No significant schema validation issues found.''
      else
        ''Schema Validation Report: '' @ show_nat (length (FilterErrors filtered)) @ '' errors, ''
        @ show_nat (length (FilterWarnings filtered)) @ '' warnings'' @ [CHR 0x0A] @ replicate 60 (CHR ''='')
        @ concat (map (\<lambda>t. [CHR 0x0A, CHR 0x0A] @ ''['' @ t @ '']''
            @ concat (map report_line (case fmlookup grouped t of Some g \<Rightarrow> g | None \<Rightarrow> [])))
          (sorted_list_of_fset (fmdom grouped))))"

record validation_summary =
  vs_total :: nat
  vs_errors :: nat
  vs_warnings :: nat
  vs_info :: nat
  vs_tables :: nat
  vs_has_errors :: bool

definition GetValidationSummary :: "validation_report \<Rightarrow> validation_summary" where
  "GetValidationSummary rs =
     \<lparr>vs_total = length rs, vs_errors = length (FilterErrors rs), vs_warnings = length (FilterWarnings rs),
      vs_info = length (FilterInfos rs), vs_tables = fcard (fmdom (GroupByTable rs)), vs_has_errors = HasErrors rs\<rparr>"

section \<open>Comparing texts\<close>

definition normalizeExpression :: "string \<Rightarrow> string" where
  "normalizeExpression e = str_join '' '' (str_fields e)"

definition extractRecordTarget :: "string \<Rightarrow> string" where
  "extractRecordTarget assertion =
     (case str_index assertion ''$value.table ='' of
        None \<Rightarrow> []
      | Some i \<Rightarrow>
          (case trim_space (drop (i + length ''$value.table ='') assertion) of
             [] \<Rightarrow> []
           | q # rest \<Rightarrow>
               if q \<noteq> CHR 0x22 \<and> q \<noteq> CHR 0x27 then []
               else if q \<in> set rest then takeWhile (\<lambda>c. c \<noteq> q) rest else []))"

definition sortedSliceEqual :: "string list \<Rightarrow> string list \<Rightarrow> bool" where
  "sortedSliceEqual a b \<longleftrightarrow> length a = length b \<and> sort a = sort b"

section \<open>Drift between code and database\<close>

definition issue :: "severity \<Rightarrow> string \<Rightarrow> string \<Rightarrow> string \<Rightarrow> validation_result" where
  "issue s table field message =
     \<lparr>vr_severity = s, vr_table = table, vr_field = field, vr_message = message, vr_code = [], vr_db = []\<rparr>"

definition mismatch :: "severity \<Rightarrow> string \<Rightarrow> string \<Rightarrow> string \<Rightarrow> string \<Rightarrow> string \<Rightarrow> validation_result" where
  "mismatch s table field message c d = (issue s table field message)\<lparr>vr_code := c, vr_db := d\<rparr>"

definition report_if :: "bool \<Rightarrow> validation_result \<Rightarrow> validation_report" where
  "report_if b r = (if b then [r] else [])"

definition missing_from_db :: "string \<Rightarrow> string \<Rightarrow> string \<Rightarrow> validation_result" where
  "missing_from_db kind table field = mismatch SeverityError table field (kind @ '' defined in code but missing from database'') ''exists'' ''missing''"

definition extra_in_db :: "string \<Rightarrow> string \<Rightarrow> string \<Rightarrow> validation_result" where
  "extra_in_db kind table field = mismatch SeverityWarning table field (kind @ '' exists in database but not defined in code'') ''missing'' ''exists''"

definition keys_of :: "('a \<Rightarrow> string) \<Rightarrow> 'a list \<Rightarrow> string list" where
  "keys_of nm xs = sort (remdups (map nm xs))"

text \<open>The three loops over the sorted names: missing, extra, and common ones compared.\<close>

definition diff_named ::
  "(string \<Rightarrow> validation_result) \<Rightarrow> (string \<Rightarrow> validation_result) \<Rightarrow> ('a \<Rightarrow> 'a \<Rightarrow> validation_report) \<Rightarrow> ('a \<Rightarrow> string)
     \<Rightarrow> 'a list \<Rightarrow> 'a list \<Rightarrow> validation_report" where
  "diff_named missing extra compare nm code db =
     map missing (filter (\<lambda>n. by_name nm db n = None) (keys_of nm code))
     @ map extra (filter (\<lambda>n. by_name nm code n = None) (keys_of nm db))
     @ concat (map (\<lambda>n. case (by_name nm code n, by_name nm db n) of (Some c, Some d) \<Rightarrow> compare c d | _ \<Rightarrow> []) (keys_of nm code))"

definition bool_text :: "bool \<Rightarrow> string" where
  "bool_text b = (if b then ''true'' else ''false'')"

definition diffField :: "string \<Rightarrow> field_definition \<Rightarrow> field_definition \<Rightarrow> validation_report" where
  "diffField container code db =
     report_if (fd_type code \<noteq> fd_type db)
       (mismatch SeverityError container (fd_name code) ''Field type mismatch'' (fd_type code) (fd_type db))
     @ report_if (normalizeExpression (fd_assertion code) \<noteq> normalizeExpression (fd_assertion db))
       (mismatch SeverityWarning container (fd_name code) ''Field assertion mismatch'' (fd_assertion code) (fd_assertion db))
     @ report_if (normalizeExpression (fd_default code) \<noteq> normalizeExpression (fd_default db))
       (mismatch SeverityWarning container (fd_name code) ''Field default value mismatch'' (fd_default code) (fd_default db))
     @ report_if (normalizeExpression (fd_value code) \<noteq> normalizeExpression (fd_value db))
       (mismatch SeverityWarning container (fd_name code) ''Field computed value mismatch'' (fd_value code) (fd_value db))
     @ report_if (fd_readonly code \<noteq> fd_readonly db)
       (mismatch SeverityInfo container (fd_name code) ''Field readonly flag mismatch'' (bool_text (fd_readonly code)) (bool_text (fd_readonly db)))
     @ report_if (fd_flexible code \<noteq> fd_flexible db)
       (mismatch SeverityInfo container (fd_name code) ''Field flexible flag mismatch'' (bool_text (fd_flexible code)) (bool_text (fd_flexible db)))"

definition diffFields :: "string \<Rightarrow> field_definition list \<Rightarrow> field_definition list \<Rightarrow> validation_report" where
  "diffFields container = diff_named (missing_from_db ''Field'' container) (extra_in_db ''Field'' container) (diffField container) fd_name"

definition index_label :: "string \<Rightarrow> string" where
  "index_label n = ''index:'' @ n"

definition event_label :: "string \<Rightarrow> string" where
  "event_label n = ''event:'' @ n"

definition diffMTreeParams :: "string \<Rightarrow> index_definition \<Rightarrow> index_definition \<Rightarrow> validation_report" where
  "diffMTreeParams container code db =
     report_if (ix_dimension code \<noteq> ix_dimension db)
       (mismatch SeverityError container (index_label (ix_name code)) ''MTREE index dimension mismatch'' (show_int (ix_dimension code)) (show_int (ix_dimension db)))
     @ report_if (ix_distance code \<noteq> ix_distance db)
       (mismatch SeverityWarning container (index_label (ix_name code)) ''MTREE index distance metric mismatch'' (ix_distance code) (ix_distance db))
     @ report_if (ix_vector code \<noteq> ix_vector db)
       (mismatch SeverityWarning container (index_label (ix_name code)) ''MTREE index vector type mismatch'' (ix_vector code) (ix_vector db))"

definition diffHnswParams :: "string \<Rightarrow> index_definition \<Rightarrow> index_definition \<Rightarrow> validation_report" where
  "diffHnswParams container code db =
     report_if (ix_dimension code \<noteq> ix_dimension db)
       (mismatch SeverityError container (index_label (ix_name code)) ''HNSW index dimension mismatch'' (show_int (ix_dimension code)) (show_int (ix_dimension db)))
     @ report_if (ix_hnsw_distance code \<noteq> ix_hnsw_distance db)
       (mismatch SeverityWarning container (index_label (ix_name code)) ''HNSW index distance metric mismatch'' (ix_hnsw_distance code) (ix_hnsw_distance db))
     @ report_if (ix_vector code \<noteq> ix_vector db)
       (mismatch SeverityWarning container (index_label (ix_name code)) ''HNSW index vector type mismatch'' (ix_vector code) (ix_vector db))
     @ report_if (ix_efc code \<noteq> ix_efc db)
       (mismatch SeverityWarning container (index_label (ix_name code)) ''HNSW index EFC mismatch'' (show_int (ix_efc code)) (show_int (ix_efc db)))
     @ report_if (ix_m code \<noteq> ix_m db)
       (mismatch SeverityWarning container (index_label (ix_name code)) ''HNSW index M mismatch'' (show_int (ix_m code)) (show_int (ix_m db)))"

definition diffIndex :: "string \<Rightarrow> index_definition \<Rightarrow> index_definition \<Rightarrow> validation_report" where
  "diffIndex container code db =
     report_if (ix_type code \<noteq> ix_type db)
       (mismatch SeverityError container (index_label (ix_name code)) ''Index type mismatch'' (ix_type code) (ix_type db))
     @ report_if (\<not> sortedSliceEqual (ix_columns code) (ix_columns db))
       (mismatch SeverityError container (index_label (ix_name code)) ''Index columns mismatch'' (str_join '','' (ix_columns code)) (str_join '','' (ix_columns db)))
     @ (if ix_type code = ''MTREE'' \<and> ix_type db = ''MTREE'' then diffMTreeParams container code db else [])
     @ (if ix_type code = ''HNSW'' \<and> ix_type db = ''HNSW'' then diffHnswParams container code db else [])"

definition diffIndexes :: "string \<Rightarrow> index_definition list \<Rightarrow> index_definition list \<Rightarrow> validation_report" where
  "diffIndexes container =
     diff_named (\<lambda>n. missing_from_db ''Index'' container (index_label n)) (\<lambda>n. extra_in_db ''Index'' container (index_label n))
       (diffIndex container) ix_name"

definition diffEvents :: "string \<Rightarrow> event_definition list \<Rightarrow> event_definition list \<Rightarrow> validation_report" where
  "diffEvents container =
     diff_named (\<lambda>n. missing_from_db ''Event'' container (event_label n)) (\<lambda>n. extra_in_db ''Event'' container (event_label n))
       (\<lambda>_ _. []) ev_name"

definition diffTable :: "table_definition \<Rightarrow> table_definition \<Rightarrow> validation_report" where
  "diffTable code db =
     report_if (tb_mode code \<noteq> tb_mode db) (mismatch SeverityError (tb_name code) [] ''Table mode mismatch'' (tb_mode code) (tb_mode db))
     @ diffFields (tb_name code) (tb_fields code) (tb_fields db)
     @ diffIndexes (tb_name code) (tb_indexes code) (tb_indexes db)
     @ diffEvents (tb_name code) (tb_events code) (tb_events db)"

definition diffEdge :: "edge_definition \<Rightarrow> edge_definition \<Rightarrow> validation_report" where
  "diffEdge code db =
     report_if (ed_mode code \<noteq> ed_mode db) (mismatch SeverityError (ed_name code) [] ''Edge mode mismatch'' (ed_mode code) (ed_mode db))
     @ report_if (ed_from code \<noteq> ed_from db) (mismatch SeverityError (ed_name code) [] ''Edge from_table mismatch'' (ed_from code) (ed_from db))
     @ report_if (ed_to code \<noteq> ed_to db) (mismatch SeverityError (ed_name code) [] ''Edge to_table mismatch'' (ed_to code) (ed_to db))
     @ diffFields (ed_name code) (ed_fields code) (ed_fields db)
     @ diffIndexes (ed_name code) (ed_indexes code) (ed_indexes db)
     @ diffEvents (ed_name code) (ed_events code) (ed_events db)"

definition CompareSchemas ::
  "table_definition list \<Rightarrow> table_definition list \<Rightarrow> edge_definition list \<Rightarrow> edge_definition list \<Rightarrow> validation_report" where
  "CompareSchemas codeTables dbTables codeEdges dbEdges =
     diff_named (\<lambda>n. missing_from_db ''Table'' n []) (\<lambda>n. extra_in_db ''Table'' n []) diffTable tb_name codeTables dbTables
     @ diff_named (\<lambda>n. missing_from_db ''Edge'' n []) (\<lambda>n. extra_in_db ''Edge'' n []) diffEdge ed_name codeEdges dbEdges"

section \<open>Structural checks\<close>

text \<open>The loop over named members: a name seen before is reported and skipped, then the member is
  checked, and a member that passes may give further results.\<close>

fun validate_members ::
  "(string \<Rightarrow> string) \<Rightarrow> string \<Rightarrow> ('a \<Rightarrow> string) \<Rightarrow> ('a \<Rightarrow> go_error option) \<Rightarrow> ('a \<Rightarrow> validation_report) \<Rightarrow> string
     \<Rightarrow> string list \<Rightarrow> 'a list \<Rightarrow> validation_report" where
  "validate_members label kind nm check further container seen [] = []"
| "validate_members label kind nm check further container seen (x # xs) =
     (if nm x \<in> set seen \<and> nm x \<noteq> [] then
        issue SeverityError container (label (nm x)) (''duplicate '' @ kind @ '' name'')
        # validate_members label kind nm check further container seen xs
      else
        (case check x of
           Some e \<Rightarrow> [issue SeverityError container (label (nm x)) (err_text e)]
         | None \<Rightarrow> further x)
        @ validate_members label kind nm check further container (nm x # seen) xs)"

definition reserved_warning :: "bool \<Rightarrow> string \<Rightarrow> field_definition \<Rightarrow> validation_report" where
  "reserved_warning allowEdge container f =
     (let warn = CheckReservedWord (fd_name f) allowEdge in
      report_if (warn \<noteq> []) (issue SeverityWarning container (fd_name f) warn))"

definition validateFieldList :: "string \<Rightarrow> field_definition list \<Rightarrow> bool \<Rightarrow> validation_report" where
  "validateFieldList container fs allowEdge =
     validate_members (\<lambda>n. n) ''field'' fd_name field_validate (reserved_warning allowEdge container) container [] fs"

definition unknown_columns :: "string \<Rightarrow> field_definition list \<Rightarrow> index_definition \<Rightarrow> validation_report" where
  "unknown_columns container fs idx =
     (if fs = [] then []
      else
        concat (map (\<lambda>col. report_if (col \<notin> fd_name ` set fs)
          ((issue SeverityWarning container (index_label (ix_name idx)) (''index references unknown column '' @ go_quote col))\<lparr>vr_code := col\<rparr>))
          (ix_columns idx)))"

definition validateIndexList :: "string \<Rightarrow> index_definition list \<Rightarrow> field_definition list \<Rightarrow> validation_report" where
  "validateIndexList container indexes fs =
     validate_members index_label ''index'' ix_name index_validate (unknown_columns container fs) container [] indexes"

definition validateEventList :: "string \<Rightarrow> event_definition list \<Rightarrow> validation_report" where
  "validateEventList container events =
     validate_members event_label ''event'' ev_name event_validate (\<lambda>_. []) container [] events"

definition permission_actions :: "string list" where
  "permission_actions = [''select'', ''create'', ''update'', ''delete'']"

definition validatePermissions :: "string \<Rightarrow> permissions \<Rightarrow> validation_report" where
  "validatePermissions container perms =
     concat (map (\<lambda>action.
       report_if (to_lower action \<notin> set permission_actions)
         ((issue SeverityWarning container (''permissions:'' @ action) ''unknown permission action'')\<lparr>vr_code := action\<rparr>)
       @ report_if (trim_space (case fmlookup perms action of Some e \<Rightarrow> e | None \<Rightarrow> []) = [])
         (issue SeverityError container (''permissions:'' @ action) ''permission expression cannot be empty''))
       (sorted_keys perms))"

definition ValidateTable :: "table_definition \<Rightarrow> validation_report" where
  "ValidateTable t =
     (if tb_name t = [] then [issue SeverityError [] [] ''table name cannot be empty'']
      else
        report_if (tb_mode t \<notin> set table_modes) ((issue SeverityError (tb_name t) [] ''invalid table mode'')\<lparr>vr_code := tb_mode t\<rparr>)
        @ validateFieldList (tb_name t) (tb_fields t) False
        @ validateIndexList (tb_name t) (tb_indexes t) (tb_fields t)
        @ validateEventList (tb_name t) (tb_events t)
        @ validatePermissions (tb_name t) (tb_permissions t))"

definition ValidateEdge :: "edge_definition \<Rightarrow> validation_report" where
  "ValidateEdge e =
     (if ed_name e = [] then [issue SeverityError [] [] ''edge name cannot be empty'']
      else
        report_if (ed_mode e \<notin> set edge_modes) ((issue SeverityError (ed_name e) [] ''invalid edge mode'')\<lparr>vr_code := ed_mode e\<rparr>)
        @ report_if (ed_mode e = ''RELATION'' \<and> ed_from e = []) (issue SeverityError (ed_name e) [] ''edge with RELATION mode requires a from_table'')
        @ report_if (ed_mode e = ''RELATION'' \<and> ed_to e = []) (issue SeverityError (ed_name e) [] ''edge with RELATION mode requires a to_table'')
        @ validateFieldList (ed_name e) (ed_fields e) True
        @ validateIndexList (ed_name e) (ed_indexes e) (ed_fields e)
        @ validateEventList (ed_name e) (ed_events e)
        @ validatePermissions (ed_name e) (ed_permissions e))"

definition jwt_issues :: "access_definition \<Rightarrow> validation_report" where
  "jwt_issues a =
     (case ac_jwt a of
        None \<Rightarrow> [issue SeverityError (ac_name a) [] ''JWT access requires a JWT configuration'']
      | Some j \<Rightarrow>
          report_if (jwt_key j = [] \<and> jwt_url j = []) (issue SeverityError (ac_name a) [] ''JWT access requires either a KEY or a URL'')
          @ report_if (jwt_key j \<noteq> [] \<and> jwt_url j \<noteq> []) (issue SeverityWarning (ac_name a) [] ''JWT access has both KEY and URL; URL takes precedence''))
     @ report_if (ac_record a \<noteq> None) (issue SeverityWarning (ac_name a) [] ''JWT access should not carry a record configuration'')"

definition record_issues :: "access_definition \<Rightarrow> validation_report" where
  "record_issues a =
     (case ac_record a of
        None \<Rightarrow> [issue SeverityError (ac_name a) [] ''RECORD access requires a record configuration'']
      | Some r \<Rightarrow>
          report_if (ra_signup r = [] \<and> ra_signin r = []) (issue SeverityWarning (ac_name a) [] ''RECORD access declares neither SIGNUP nor SIGNIN''))
     @ report_if (ac_jwt a \<noteq> None) (issue SeverityWarning (ac_name a) [] ''RECORD access should not carry a JWT configuration'')"

definition ValidateAccess :: "access_definition \<Rightarrow> validation_report" where
  "ValidateAccess a =
     (if ac_name a = [] then [issue SeverityError [] [] ''access name cannot be empty'']
      else
        report_if (\<not> AccessType_IsValid (ac_type a)) ((issue SeverityError (ac_name a) [] ''invalid access type'')\<lparr>vr_code := ac_type a\<rparr>)
        @ (if ac_type a = ''JWT'' then jwt_issues a else if ac_type a = ''RECORD'' then record_issues a else []))"

section \<open>Checks across definitions\<close>

definition detectNameCollisions :: "table_definition list \<Rightarrow> edge_definition list \<Rightarrow> validation_report" where
  "detectNameCollisions tables edges =
     concat (map (\<lambda>e. report_if (ed_name e \<in> tb_name ` set tables)
       (issue SeverityError (ed_name e) [] ''name conflict: edge and table share the same name'')) edges)"

definition record_targets :: "string set \<Rightarrow> string \<Rightarrow> field_definition list \<Rightarrow> validation_report" where
  "record_targets known container fs =
     concat (map (\<lambda>f. let target = extractRecordTarget (fd_assertion f) in
       report_if (fd_type f = ''record'' \<and> target \<noteq> [] \<and> target \<notin> known)
         ((issue SeverityWarning container (fd_name f) ''record field references unknown table'')\<lparr>vr_code := target\<rparr>)) fs)"

definition detectRecordFieldTargets :: "table_definition list \<Rightarrow> edge_definition list \<Rightarrow> validation_report" where
  "detectRecordFieldTargets tables edges =
     (let known = tb_name ` set tables \<union> ed_name ` set edges in
      concat (map (\<lambda>t. record_targets known (tb_name t) (tb_fields t)) tables)
      @ concat (map (\<lambda>e. record_targets known (ed_name e) (ed_fields e)) edges))"

definition endpoint_issue :: "string set \<Rightarrow> string \<Rightarrow> string \<Rightarrow> string \<Rightarrow> validation_report" where
  "endpoint_issue known container which t =
     report_if (t \<noteq> [] \<and> t \<notin> known)
       ((issue SeverityWarning container [] (''edge '' @ which @ '' is not a registered table''))\<lparr>vr_code := t\<rparr>)"

definition detectEdgeTableReferences :: "table_definition list \<Rightarrow> edge_definition list \<Rightarrow> validation_report" where
  "detectEdgeTableReferences tables edges =
     (let known = tb_name ` set tables in
      concat (map (\<lambda>e. if ed_mode e \<noteq> ''RELATION'' then []
        else endpoint_issue known (ed_name e) ''from_table'' (ed_from e) @ endpoint_issue known (ed_name e) ''to_table'' (ed_to e)) edges))"

fun duplicate_access :: "string list \<Rightarrow> access_definition list \<Rightarrow> validation_report" where
  "duplicate_access seen [] = []"
| "duplicate_access seen (a # as) =
     (if ac_name a = [] then duplicate_access seen as
      else if ac_name a \<in> set seen then issue SeverityError (ac_name a) [] ''duplicate access definition'' # duplicate_access seen as
      else duplicate_access (ac_name a # seen) as)"

definition detectDuplicateAccessNames :: "access_definition list \<Rightarrow> validation_report" where
  "detectDuplicateAccessNames as = duplicate_access [] as"

definition ValidateSchema :: "schema_registry option \<Rightarrow> access_definition list \<Rightarrow> validation_report result" where
  "ValidateSchema r accesses =
     (case r of
        None \<Rightarrow> Inl (err_new ErrValidation ''cannot validate schema: registry is nil'')
      | Some r \<Rightarrow>
          let tables = sorted_values (sr_tables r); edges = sorted_values (sr_edges r) in
          Inr (concat (map ValidateTable tables) @ concat (map ValidateEdge edges) @ concat (map ValidateAccess accesses)
            @ detectNameCollisions tables edges @ detectRecordFieldTargets tables edges
            @ detectEdgeTableReferences tables edges @ detectDuplicateAccessNames accesses))"

end
