(* ===== verification/Schema_Validator_Correct.thy ===== *)
theory Schema_Validator_Correct
  imports Schema_Validator Schema_Reconcile "HOL-Library.Multiset"
begin

text \<open>
  What a report of the validator means: the structural checks find an error exactly when a definition
  is invalid or two definitions clash, so that a schema without errors is one the diff engine is proved
  for; and the comparison with a database finds nothing exactly when the two agree in what it looks at.
\<close>

section \<open>Errors in a report\<close>

lemma report_if_simps [simp]:
  "report_if b r = [] \<longleftrightarrow> \<not> b" "HasErrors (report_if b r) \<longleftrightarrow> b \<and> vr_severity r = SeverityError"
  by (simp_all add: report_if_def HasErrors_def)

lemma HasErrors_simps [simp]:
  "\<not> HasErrors []" "HasErrors (r # rs) \<longleftrightarrow> vr_severity r = SeverityError \<or> HasErrors rs"
  "HasErrors (xs @ ys) \<longleftrightarrow> HasErrors xs \<or> HasErrors ys" "HasErrors (concat xss) \<longleftrightarrow> (\<exists>xs \<in> set xss. HasErrors xs)"
  by (auto simp: HasErrors_def list_ex_iff)

lemma severity_simps [simp]:
  "vr_severity (issue s t f m) = s" "vr_severity (mismatch s t f m c d) = s"
  "vr_severity (missing_from_db k t f) = SeverityError" "vr_severity (extra_in_db k t f) = SeverityWarning"
  by (simp_all add: issue_def mismatch_def missing_from_db_def extra_in_db_def)

section \<open>Drift\<close>

lemma set_keys_of [simp]: "set (keys_of nm xs) = nm ` set xs"
  by (simp add: keys_of_def)

text \<open>A kind of results \<open>Q\<close> occurs among the differences of two lists of named objects.\<close>

lemma diff_named_results:
  assumes "distinct (map nm code)" "distinct (map nm db)"
  shows "(\<exists>r \<in> set (diff_named missing extra compare nm code db). Q r) \<longleftrightarrow>
     (\<exists>x \<in> set code. nm x \<notin> nm ` set db \<and> Q (missing (nm x))) \<or> (\<exists>y \<in> set db. nm y \<notin> nm ` set code \<and> Q (extra (nm y)))
     \<or> (\<exists>x \<in> set code. \<exists>y \<in> set db. nm x = nm y \<and> (\<exists>r \<in> set (compare x y). Q r))"
proof -
  let ?common = "\<lambda>n. case (by_name nm code n, by_name nm db n) of (Some c, Some d) \<Rightarrow> compare c d | _ \<Rightarrow> []"
  have "r \<in> set (?common n) \<longleftrightarrow> (\<exists>x \<in> set code. \<exists>y \<in> set db. nm x = n \<and> nm y = n \<and> r \<in> set (compare x y))" for r n
  proof -
    have c: "by_name nm code n = Some x \<longleftrightarrow> x \<in> set code \<and> nm x = n" for x by (rule by_name_distinct [OF assms(1)])
    have d: "by_name nm db n = Some y \<longleftrightarrow> y \<in> set db \<and> nm y = n" for y by (rule by_name_distinct [OF assms(2)])
    have "r \<in> set (?common n) \<longleftrightarrow> (\<exists>x y. by_name nm code n = Some x \<and> by_name nm db n = Some y \<and> r \<in> set (compare x y))"
      by (cases "by_name nm code n"; cases "by_name nm db n") simp_all
    then show ?thesis unfolding c d by blast
  qed
  then show ?thesis unfolding diff_named_def by (auto simp: by_name_None bex_Un) metis+
qed

definition fits_by :: "('a \<Rightarrow> string) \<Rightarrow> ('a \<Rightarrow> 'a \<Rightarrow> bool) \<Rightarrow> 'a list \<Rightarrow> 'a list \<Rightarrow> bool" where
  "fits_by nm fits code db \<longleftrightarrow> (\<forall>x \<in> set code. \<exists>y \<in> set db. nm y = nm x \<and> fits x y)"

lemma Nil_results: "rs = [] \<longleftrightarrow> \<not> (\<exists>r \<in> set rs. True)"
  by (cases rs) auto

lemma HasErrors_results: "HasErrors rs \<longleftrightarrow> (\<exists>r \<in> set rs. vr_severity r = SeverityError)"
  by (simp add: HasErrors_def list_ex_iff)

lemma diff_named_iff:
  assumes "distinct (map nm code)" "distinct (map nm db)"
  shows "diff_named missing extra compare nm code db = [] \<longleftrightarrow> same_by nm (\<lambda>x y. compare x y = []) code db"
    and "(\<And>n. vr_severity (missing n) = SeverityError) \<Longrightarrow> (\<And>n. vr_severity (extra n) \<noteq> SeverityError) \<Longrightarrow>
      \<not> HasErrors (diff_named missing extra compare nm code db) \<longleftrightarrow> fits_by nm (\<lambda>x y. \<not> HasErrors (compare x y)) code db"
proof -
  show "diff_named missing extra compare nm code db = [] \<longleftrightarrow> same_by nm (\<lambda>x y. compare x y = []) code db"
    unfolding Nil_results diff_named_results [OF assms] same_by_def by auto
  assume s: "\<And>n. vr_severity (missing n) = SeverityError" "\<And>n. vr_severity (extra n) \<noteq> SeverityError"
  have inj: "inj_on nm (set db)" using assms(2) by (simp add: distinct_map)
  show "\<not> HasErrors (diff_named missing extra compare nm code db) \<longleftrightarrow> fits_by nm (\<lambda>x y. \<not> HasErrors (compare x y)) code db"
    unfolding HasErrors_results diff_named_results [OF assms] fits_by_def using s inj by (auto simp: inj_on_def image_iff) metis+
qed

definition field_agrees :: "field_definition \<Rightarrow> field_definition \<Rightarrow> bool" where
  "field_agrees a b \<longleftrightarrow> fd_type a = fd_type b \<and> normalizeExpression (fd_assertion a) = normalizeExpression (fd_assertion b)
     \<and> normalizeExpression (fd_default a) = normalizeExpression (fd_default b)
     \<and> normalizeExpression (fd_value a) = normalizeExpression (fd_value b) \<and> fd_readonly a = fd_readonly b \<and> fd_flexible a = fd_flexible b"

definition index_fits :: "index_definition \<Rightarrow> index_definition \<Rightarrow> bool" where
  "index_fits a b \<longleftrightarrow> ix_type a = ix_type b \<and> mset (ix_columns a) = mset (ix_columns b)
     \<and> (ix_type a \<in> {''MTREE'', ''HNSW''} \<longrightarrow> ix_dimension a = ix_dimension b)"

definition index_agrees :: "index_definition \<Rightarrow> index_definition \<Rightarrow> bool" where
  "index_agrees a b \<longleftrightarrow> index_fits a b
     \<and> (ix_type a = ''MTREE'' \<longrightarrow> ix_distance a = ix_distance b \<and> ix_vector a = ix_vector b)
     \<and> (ix_type a = ''HNSW'' \<longrightarrow> ix_hnsw_distance a = ix_hnsw_distance b \<and> ix_vector a = ix_vector b \<and> ix_efc a = ix_efc b \<and> ix_m a = ix_m b)"

definition members_agree :: "table_definition \<Rightarrow> table_definition \<Rightarrow> bool" where
  "members_agree a b \<longleftrightarrow> same_by fd_name field_agrees (tb_fields a) (tb_fields b)
     \<and> same_by ix_name index_agrees (tb_indexes a) (tb_indexes b) \<and> ev_name ` set (tb_events a) = ev_name ` set (tb_events b)"

definition members_fit :: "table_definition \<Rightarrow> table_definition \<Rightarrow> bool" where
  "members_fit a b \<longleftrightarrow> fits_by fd_name (\<lambda>x y. fd_type x = fd_type y) (tb_fields a) (tb_fields b)
     \<and> fits_by ix_name index_fits (tb_indexes a) (tb_indexes b) \<and> ev_name ` set (tb_events a) \<subseteq> ev_name ` set (tb_events b)"

definition same_ends :: "edge_definition \<Rightarrow> edge_definition \<Rightarrow> bool" where
  "same_ends a b \<longleftrightarrow> ed_mode a = ed_mode b \<and> ed_from a = ed_from b \<and> ed_to a = ed_to b"

lemma sortedSliceEqual_mset: "sortedSliceEqual a b \<longleftrightarrow> mset a = mset b"
  unfolding sortedSliceEqual_def by (metis mset_sort size_mset properties_for_sort sorted_sort)

lemma member_results:
  "diffField c a b = [] \<longleftrightarrow> field_agrees a b" "\<not> HasErrors (diffField c a b) \<longleftrightarrow> fd_type a = fd_type b"
  "diffIndex c a' b' = [] \<longleftrightarrow> index_agrees a' b'" "\<not> HasErrors (diffIndex c a' b') \<longleftrightarrow> index_fits a' b'"
  by (auto simp: diffField_def field_agrees_def diffIndex_def index_agrees_def index_fits_def sortedSliceEqual_mset
      diffMTreeParams_def diffHnswParams_def)

lemma table_results:
  assumes "wf_table a" "wf_table b"
  shows "diffFields c (tb_fields a) (tb_fields b) @ diffIndexes c (tb_indexes a) (tb_indexes b) @ diffEvents c (tb_events a) (tb_events b) = []
      \<longleftrightarrow> members_agree a b"
    "\<not> HasErrors (diffFields c (tb_fields a) (tb_fields b) @ diffIndexes c (tb_indexes a) (tb_indexes b) @ diffEvents c (tb_events a) (tb_events b))
      \<longleftrightarrow> members_fit a b"
proof -
  have d: "distinct (map fd_name (tb_fields a))" "distinct (map fd_name (tb_fields b))" "distinct (map ix_name (tb_indexes a))"
    "distinct (map ix_name (tb_indexes b))" "distinct (map ev_name (tb_events a))" "distinct (map ev_name (tb_events b))"
    using assms by (simp_all add: wf_table_def)
  note f = diff_named_iff [OF d(1,2)] and i = diff_named_iff [OF d(3,4)] and e = diff_named_iff [OF d(5,6)]
  show "diffFields c (tb_fields a) (tb_fields b) @ diffIndexes c (tb_indexes a) (tb_indexes b) @ diffEvents c (tb_events a) (tb_events b) = []
      \<longleftrightarrow> members_agree a b"
    unfolding diffFields_def diffIndexes_def diffEvents_def append_is_Nil_conv f(1) i(1) e(1) members_agree_def member_results
    by (simp add: same_by_def [of ev_name])
  have "\<not> HasErrors (diffFields c (tb_fields a) (tb_fields b)) \<longleftrightarrow> fits_by fd_name (\<lambda>x y. fd_type x = fd_type y) (tb_fields a) (tb_fields b)"
    unfolding diffFields_def by (subst f(2)) (simp_all add: member_results)
  moreover have "\<not> HasErrors (diffIndexes c (tb_indexes a) (tb_indexes b)) \<longleftrightarrow> fits_by ix_name index_fits (tb_indexes a) (tb_indexes b)"
    unfolding diffIndexes_def by (subst i(2)) (simp_all add: member_results)
  moreover have "\<not> HasErrors (diffEvents c (tb_events a) (tb_events b)) \<longleftrightarrow> ev_name ` set (tb_events a) \<subseteq> ev_name ` set (tb_events b)"
  proof -
    have "fits_by ev_name (\<lambda>x y. \<not> HasErrors []) (tb_events a) (tb_events b) \<longleftrightarrow> ev_name ` set (tb_events a) \<subseteq> ev_name ` set (tb_events b)"
      unfolding fits_by_def image_subset_iff by (simp add: image_iff eq_commute)
    moreover have "\<not> HasErrors (diffEvents c (tb_events a) (tb_events b)) \<longleftrightarrow> fits_by ev_name (\<lambda>x y. \<not> HasErrors []) (tb_events a) (tb_events b)"
      unfolding diffEvents_def by (rule e(2)) simp_all
    ultimately show ?thesis by (simp only: simp_thms)
  qed
  ultimately show "\<not> HasErrors (diffFields c (tb_fields a) (tb_fields b) @ diffIndexes c (tb_indexes a) (tb_indexes b) @ diffEvents c (tb_events a) (tb_events b))
      \<longleftrightarrow> members_fit a b"
    unfolding HasErrors_simps(3) members_fit_def by blast
qed

lemma diffTable_results:
  assumes "wf_table a" "wf_table b"
  shows "diffTable a b = [] \<longleftrightarrow> tb_mode a = tb_mode b \<and> members_agree a b"
    "\<not> HasErrors (diffTable a b) \<longleftrightarrow> tb_mode a = tb_mode b \<and> members_fit a b"
  using table_results [OF assms, of "tb_name a"] by (auto simp: diffTable_def)

lemma diffEdge_results:
  assumes "wf_table (edgeToTableProxy a)" "wf_table (edgeToTableProxy b)"
  shows "diffEdge a b = [] \<longleftrightarrow> same_ends a b \<and> members_agree (edgeToTableProxy a) (edgeToTableProxy b)"
    "\<not> HasErrors (diffEdge a b) \<longleftrightarrow> same_ends a b \<and> members_fit (edgeToTableProxy a) (edgeToTableProxy b)"
  using table_results [OF assms, of "ed_name a"] by (auto simp: diffEdge_def same_ends_def edgeToTableProxy_def)

lemma fits_by_cong:
  "xs = xs' \<Longrightarrow> ys = ys' \<Longrightarrow> (\<And>x y. x \<in> set xs' \<Longrightarrow> y \<in> set ys' \<Longrightarrow> P x y = Q x y) \<Longrightarrow> fits_by nm P xs ys = fits_by nm Q xs' ys'"
  unfolding fits_by_def by blast

lemma compare_results:
  assumes wf: "wf_snapshot code" "wf_snapshot db"
  defines "rep \<equiv> CompareSchemas (ss_tables code) (ss_tables db) (ss_edges code) (ss_edges db)"
  shows "rep = [] \<longleftrightarrow>
      same_by tb_name (\<lambda>a b. tb_mode a = tb_mode b \<and> members_agree a b) (ss_tables code) (ss_tables db)
      \<and> same_by ed_name (\<lambda>a b. same_ends a b \<and> members_agree (edgeToTableProxy a) (edgeToTableProxy b)) (ss_edges code) (ss_edges db)"
    and "\<not> HasErrors rep \<longleftrightarrow>
      fits_by tb_name (\<lambda>a b. tb_mode a = tb_mode b \<and> members_fit a b) (ss_tables code) (ss_tables db)
      \<and> fits_by ed_name (\<lambda>a b. same_ends a b \<and> members_fit (edgeToTableProxy a) (edgeToTableProxy b)) (ss_edges code) (ss_edges db)"
proof -
  note w = wf_snapshotD [OF wf(1)] wf_snapshotD [OF wf(2)]
  have d: "distinct (map tb_name (ss_tables code))" "distinct (map tb_name (ss_tables db))"
    "distinct (map ed_name (ss_edges code))" "distinct (map ed_name (ss_edges db))"
    using wf by (simp_all add: wf_snapshot_def)
  note t = diff_named_iff [OF d(1,2)] and e = diff_named_iff [OF d(3,4)]
  have tw: "wf_table x" if "x \<in> set (ss_tables code) \<union> set (ss_tables db)" for x using that wf by (auto simp: wf_snapshot_def)
  have ew: "wf_table (edgeToTableProxy x)" if "x \<in> set (ss_edges code) \<union> set (ss_edges db)" for x using that wf by (auto simp: wf_snapshot_def)
  show "rep = [] \<longleftrightarrow>
      same_by tb_name (\<lambda>a b. tb_mode a = tb_mode b \<and> members_agree a b) (ss_tables code) (ss_tables db)
      \<and> same_by ed_name (\<lambda>a b. same_ends a b \<and> members_agree (edgeToTableProxy a) (edgeToTableProxy b)) (ss_edges code) (ss_edges db)"
    unfolding rep_def CompareSchemas_def append_is_Nil_conv t(1) e(1)
    using same_by_cong [where xs = "ss_tables code" and ys = "ss_tables db", OF diffTable_results(1)]
      same_by_cong [where xs = "ss_edges code" and ys = "ss_edges db", OF diffEdge_results(1)] tw ew by simp
  show "\<not> HasErrors rep \<longleftrightarrow>
      fits_by tb_name (\<lambda>a b. tb_mode a = tb_mode b \<and> members_fit a b) (ss_tables code) (ss_tables db)
      \<and> fits_by ed_name (\<lambda>a b. same_ends a b \<and> members_fit (edgeToTableProxy a) (edgeToTableProxy b)) (ss_edges code) (ss_edges db)"
  proof -
    have "\<not> HasErrors (diff_named (\<lambda>n. missing_from_db ''Table'' n []) (\<lambda>n. extra_in_db ''Table'' n []) diffTable tb_name (ss_tables code) (ss_tables db))
        \<longleftrightarrow> fits_by tb_name (\<lambda>a b. tb_mode a = tb_mode b \<and> members_fit a b) (ss_tables code) (ss_tables db)"
      by (subst t(2)) (simp_all, rule fits_by_cong [OF refl refl diffTable_results(2)], simp_all add: tw)
    moreover have "\<not> HasErrors (diff_named (\<lambda>n. missing_from_db ''Edge'' n []) (\<lambda>n. extra_in_db ''Edge'' n []) diffEdge ed_name (ss_edges code) (ss_edges db))
        \<longleftrightarrow> fits_by ed_name (\<lambda>a b. same_ends a b \<and> members_fit (edgeToTableProxy a) (edgeToTableProxy b)) (ss_edges code) (ss_edges db)"
      by (subst e(2)) (simp_all, rule fits_by_cong [OF refl refl diffEdge_results(2)], simp_all add: ew)
    ultimately show ?thesis unfolding rep_def CompareSchemas_def HasErrors_simps(3) by blast
  qed
qed

text \<open>
  C22 (equivalence). The comparison with the database reports nothing exactly when tables and edges are the same by
  name, mode and end points, their fields agree up to white space in the expressions, their indexes in
  what is compared for their type, and their events by name. It reports no error exactly when the
  database has all that the code defines, with the same modes, end points, field types and index shapes.
\<close>
theorem compare_schemas_iff:
  assumes "wf_snapshot code" "wf_snapshot db" "rep = CompareSchemas (ss_tables code) (ss_tables db) (ss_edges code) (ss_edges db)"
  shows "(rep = [] \<longleftrightarrow>
      same_by tb_name (\<lambda>a b. tb_mode a = tb_mode b \<and> members_agree a b) (ss_tables code) (ss_tables db)
      \<and> same_by ed_name (\<lambda>a b. same_ends a b \<and> members_agree (edgeToTableProxy a) (edgeToTableProxy b)) (ss_edges code) (ss_edges db))
    \<and> (\<not> HasErrors rep \<longleftrightarrow>
      fits_by tb_name (\<lambda>a b. tb_mode a = tb_mode b \<and> members_fit a b) (ss_tables code) (ss_tables db)
      \<and> fits_by ed_name (\<lambda>a b. same_ends a b \<and> members_fit (edgeToTableProxy a) (edgeToTableProxy b)) (ss_edges code) (ss_edges db))"
  using compare_results [OF assms(1,2)] unfolding assms(3) by blast

section \<open>Structural checks\<close>

lemma first_invalid_None: "first_invalid check xs = None \<longleftrightarrow> (\<forall>x \<in> set xs. check x = None)"
  by (induction xs) (auto split: option.splits)

lemma or_else_None: "or_else a b = None \<longleftrightarrow> a = None \<and> b = None"
  by (simp add: or_else_def split: option.split)

text \<open>A loop over named members reports no error exactly when all members are valid and no name occurs twice.\<close>

lemma validate_members_ok:
  assumes "\<And>x. \<not> HasErrors (further x)" "\<And>x. check x = None \<Longrightarrow> nm x \<noteq> []"
  shows "\<not> HasErrors (validate_members label kind nm check further c seen xs) \<longleftrightarrow>
     (\<forall>x \<in> set xs. check x = None) \<and> distinct (map nm xs) \<and> nm ` set xs \<inter> set seen = {}"
proof (induction xs arbitrary: seen)
  case (Cons x xs)
  then show ?case using assms(1) assms(2) [of x] by (cases "check x") auto
qed simp

lemma reserved_no_error: "\<not> HasErrors (reserved_warning b c f)"
  by (simp add: reserved_warning_def Let_def)

lemma columns_no_error: "\<not> HasErrors (unknown_columns c fs i)"
  by (auto simp: unknown_columns_def issue_def)

lemma checked_names:
  "field_validate f = None \<Longrightarrow> fd_name f \<noteq> []" "index_validate i = None \<Longrightarrow> ix_name i \<noteq> []" "event_validate e = None \<Longrightarrow> ev_name e \<noteq> []"
  by (auto simp: field_validate_def validateFieldName_def index_validate_def event_validate_def)

lemma member_lists_ok:
  "\<not> HasErrors (validateFieldList c fs b) \<longleftrightarrow> (\<forall>f \<in> set fs. field_validate f = None) \<and> distinct (map fd_name fs)"
  "\<not> HasErrors (validateIndexList c is fs) \<longleftrightarrow> (\<forall>i \<in> set is. index_validate i = None) \<and> distinct (map ix_name is)"
  "\<not> HasErrors (validateEventList c es) \<longleftrightarrow> (\<forall>e \<in> set es. event_validate e = None) \<and> distinct (map ev_name es)"
  unfolding validateFieldList_def validateIndexList_def validateEventList_def
  by (subst validate_members_ok; simp add: reserved_no_error columns_no_error checked_names)+

definition permissions_ok :: "permissions \<Rightarrow> bool" where
  "permissions_ok p \<longleftrightarrow> (\<forall>e \<in> fmran' p. trim_space e \<noteq> [])"

lemma validatePermissions_ok: "\<not> HasErrors (validatePermissions c p) \<longleftrightarrow> permissions_ok p"
proof -
  have e: "HasErrors (validatePermissions c p) \<longleftrightarrow>
      (\<exists>k \<in> fset (fmdom p). trim_space (case fmlookup p k of Some e \<Rightarrow> e | None \<Rightarrow> []) = [])"
    by (simp add: validatePermissions_def sorted_keys_def)
  have "HasErrors (validatePermissions c p) \<longleftrightarrow> (\<exists>k e. fmlookup p k = Some e \<and> trim_space e = [])"
    unfolding e by (metis fmdom_notI fmdomI option.simps(5) fmlookup_dom_iff)
  then show ?thesis by (auto simp: permissions_ok_def fmran'_def)
qed

lemma table_ok:
  "\<not> HasErrors (ValidateTable t) \<longleftrightarrow> table_validate t = None \<and> wf_table t \<and> permissions_ok (tb_permissions t)"
  by (auto simp: ValidateTable_def table_validate_def member_lists_ok validatePermissions_ok wf_table_def or_else_None first_invalid_None issue_def)

lemma edge_ok:
  "\<not> HasErrors (ValidateEdge e) \<longleftrightarrow> edge_validate e = None \<and> wf_table (edgeToTableProxy e) \<and> permissions_ok (ed_permissions e)"
  by (auto simp: ValidateEdge_def edge_validate_def member_lists_ok validatePermissions_ok wf_table_def or_else_None first_invalid_None
      endpoints_missing_def edgeToTableProxy_def issue_def)

definition access_ok :: "access_definition \<Rightarrow> bool" where
  "access_ok a \<longleftrightarrow> access_validate a = None
     \<and> (ac_type a = ''JWT'' \<longrightarrow> (case ac_jwt a of Some j \<Rightarrow> jwt_key j \<noteq> [] \<or> jwt_url j \<noteq> [] | None \<Rightarrow> True))"

lemma access_ok: "\<not> HasErrors (ValidateAccess a) \<longleftrightarrow> access_ok a"
  by (cases "ac_jwt a"; cases "ac_record a")
    (auto simp: ValidateAccess_def access_ok_def access_validate_def jwt_issues_def record_issues_def AccessType_IsValid_def)

lemma duplicate_access_ok:
  "[] \<notin> set (map ac_name as) \<Longrightarrow>
     \<not> HasErrors (duplicate_access seen as) \<longleftrightarrow> distinct (map ac_name as) \<and> ac_name ` set as \<inter> set seen = {}"
  by (induction as arbitrary: seen) auto

lemma warnings_only:
  "\<not> HasErrors (detectRecordFieldTargets ts es)" "\<not> HasErrors (detectEdgeTableReferences ts es)"
  by (auto simp: detectRecordFieldTargets_def record_targets_def detectEdgeTableReferences_def endpoint_issue_def Let_def split: if_splits)

lemma collisions_ok: "\<not> HasErrors (detectNameCollisions ts es) \<longleftrightarrow> tb_name ` set ts \<inter> ed_name ` set es = {}"
  unfolding detectNameCollisions_def HasErrors_simps by (simp add: disjoint_iff image_iff) blast

section \<open>The registry\<close>

text \<open>The registries that the operations make.\<close>

inductive registry_reachable :: "schema_registry \<Rightarrow> bool" where
  new: "registry_reachable NewSchemaRegistry"
| table: "registry_reachable r \<Longrightarrow> registry_reachable (snd (RegisterTable t r))"
| edge: "registry_reachable r \<Longrightarrow> registry_reachable (snd (RegisterEdge e r))"
| bucket: "registry_reachable r \<Longrightarrow> registry_reachable (snd (RegisterBucket b r))"
| clear: "registry_reachable r \<Longrightarrow> registry_reachable (registry_clear r)"

definition keyed_by :: "('a \<Rightarrow> string) \<Rightarrow> (string, 'a) fmap \<Rightarrow> bool" where
  "keyed_by nm m \<longleftrightarrow> (\<forall>k x. fmlookup m k = Some x \<longrightarrow> nm x = k)"

lemma registry_keyed:
  "registry_reachable r \<Longrightarrow> keyed_by tb_name (sr_tables r) \<and> keyed_by ed_name (sr_edges r) \<and> keyed_by bk_name (sr_buckets r)"
  by (induction rule: registry_reachable.induct)
    (auto simp: keyed_by_def NewSchemaRegistry_def RegisterTable_def RegisterEdge_def RegisterBucket_def registry_clear_def)

lemma sorted_values_names:
  assumes "keyed_by nm m"
  shows "map nm (sorted_values m) = sorted_names m"
proof -
  have "map nm (List.map_filter (fmlookup m) ks) = ks" if "set ks \<subseteq> fset (fmdom m)" for ks
    using that
  proof (induction ks)
    case (Cons k ks)
    then obtain x where "fmlookup m k = Some x" by (auto simp: fmlookup_dom_iff)
    then show ?case using Cons assms by (auto simp: map_filter_simps keyed_by_def)
  qed (simp add: map_filter_simps)
  then show ?thesis by (simp add: sorted_values_def sorted_names_def)
qed

lemma sorted_values_distinct: "keyed_by nm m \<Longrightarrow> distinct (map nm (sorted_values m))"
  by (simp add: sorted_values_names sorted_names_def sorted_list_of_fset.rep_eq)

text \<open>What a snapshot of the registry holds.\<close>

definition registry_schema :: "schema_registry \<Rightarrow> schema_snapshot" where
  "registry_schema r =
     \<lparr>ss_tables = sorted_values (sr_tables r), ss_edges = sorted_values (sr_edges r), ss_buckets = sorted_values (sr_buckets r)\<rparr>"

definition valid_schema :: "schema_snapshot \<Rightarrow> access_definition list \<Rightarrow> bool" where
  "valid_schema s as \<longleftrightarrow>
     (\<forall>t \<in> set (ss_tables s). table_validate t = None \<and> permissions_ok (tb_permissions t))
     \<and> (\<forall>e \<in> set (ss_edges s). edge_validate e = None \<and> permissions_ok (ed_permissions e))
     \<and> list_all access_ok as \<and> distinct (map ac_name as) \<and> wf_snapshot s \<and> table_names s \<inter> edge_names s = {}"

lemma validated_registry:
  assumes "registry_reachable r" "ValidateSchema (Some r) as = Inr rep"
  shows "\<not> HasErrors rep \<longleftrightarrow> valid_schema (registry_schema r) as"
proof -
  note k = registry_keyed [OF assms(1)]
  let ?ts = "sorted_values (sr_tables r)" and ?es = "sorted_values (sr_edges r)"
  have "distinct (map tb_name ?ts)" "distinct (map ed_name ?es)" "distinct (map bk_name (sorted_values (sr_buckets r)))"
    using k sorted_values_distinct by blast+
  then have wf: "wf_snapshot (registry_schema r) \<longleftrightarrow> (\<forall>t \<in> set ?ts. wf_table t) \<and> (\<forall>e \<in> set ?es. wf_table (edgeToTableProxy e))"
    by (simp add: wf_snapshot_def registry_schema_def)
  have names: "[] \<notin> set (map ac_name as)" if "list_all access_ok as"
    using that by (auto simp: list_all_iff access_ok_def access_validate_def split: if_splits)
  have rep: "rep = concat (map ValidateTable ?ts) @ concat (map ValidateEdge ?es) @ concat (map ValidateAccess as)
      @ detectNameCollisions ?ts ?es @ detectRecordFieldTargets ?ts ?es @ detectEdgeTableReferences ?ts ?es @ duplicate_access [] as"
    using assms(2) by (simp add: ValidateSchema_def Let_def detectDuplicateAccessNames_def)
  have "\<not> HasErrors rep \<longleftrightarrow> (\<forall>t \<in> set ?ts. \<not> HasErrors (ValidateTable t)) \<and> (\<forall>e \<in> set ?es. \<not> HasErrors (ValidateEdge e))
      \<and> list_all access_ok as \<and> tb_name ` set ?ts \<inter> ed_name ` set ?es = {} \<and> \<not> HasErrors (duplicate_access [] as)"
    unfolding rep HasErrors_simps de_Morgan_disj collisions_ok by (simp add: warnings_only access_ok list_all_iff)
  then show ?thesis
    unfolding table_ok edge_ok valid_schema_def wf
    using names duplicate_access_ok [of as "[]"] by (auto simp: registry_schema_def table_names_def edge_names_def)
qed

text \<open>
  C23 (type). The validation of a registry reports no error exactly when every definition in it passes its own check
  and gives every permission an expression, no two members of a table or edge, no two access rules and
  no table and edge share a name; such a registry is a schema the diff engine is proved for.
\<close>
theorem validate_schema_iff:
  assumes "registry_reachable r" "ValidateSchema (Some r) as = Inr rep"
  shows "\<not> HasErrors rep \<longleftrightarrow> valid_schema (registry_schema r) as"
  by (rule validated_registry [OF assms])


section \<open>Concrete schemas\<close>

lemma compare_schemas_iff_witness:
  "CompareSchemas [NewTable ''user'' [WithFields [name_field]]] [NewTable ''user'' [WithFields [name_field, age_field]]] [] []
     = [extra_in_db ''Field'' ''user'' ''age'']
   \<and> fits_by tb_name (\<lambda>a b. tb_mode a = tb_mode b \<and> members_fit a b) [NewTable ''user'' [WithFields [name_field]]] [NewTable ''user'' [WithFields [name_field, age_field]]]
   \<and> \<not> same_by tb_name (\<lambda>a b. tb_mode a = tb_mode b \<and> members_agree a b) [NewTable ''user'' [WithFields [name_field]]] [NewTable ''user'' [WithFields [name_field, age_field]]]"
proof -
  have wf: "wf_snapshot (user_schema [name_field] [])" "wf_snapshot (user_schema [name_field, age_field] [])"
    by (simp_all add: user_schema_wf user_fields)
  have r: "CompareSchemas [NewTable ''user'' [WithFields [name_field]]] [NewTable ''user'' [WithFields [name_field, age_field]]] [] []
     = [extra_in_db ''Field'' ''user'' ''age'']"
    by code_simp
  show ?thesis
    using compare_schemas_iff [OF wf refl] r by (simp add: user_schema_simps user_schema_def fits_by_def same_by_def)
qed

definition user_registry :: schema_registry where
  "user_registry = snd (RegisterTable (NewTable ''user'' [WithFields [name_field]]) NewSchemaRegistry)"

lemma user_registry_schema: "registry_schema user_registry = user_schema [name_field] []"
proof -
  have "sorted_list_of_fset {|''user''|} = [''user'']" "sorted_list_of_fset ({||} :: string fset) = []" by (simp_all add: sorted_list_of_fset.rep_eq)
  then show ?thesis
    by (simp add: registry_schema_def user_registry_def user_schema_def RegisterTable_def NewSchemaRegistry_def sorted_values_def sorted_names_def
        map_filter_simps NewTable_def WithFields_def)
qed

lemma user_registry_validates: "ValidateSchema (Some user_registry) [] = Inr []"
proof -
  have "sorted_values (sr_tables user_registry) = [NewTable ''user'' [WithFields [name_field]]]" "sorted_values (sr_edges user_registry) = []"
    using user_registry_schema by (simp_all add: registry_schema_def user_schema_def)
  moreover have "ValidateTable (NewTable ''user'' [WithFields [name_field]]) = []" by code_simp
  moreover have "detectRecordFieldTargets [NewTable ''user'' [WithFields [name_field]]] [] = []" by code_simp
  ultimately show ?thesis
    by (simp add: ValidateSchema_def Let_def detectNameCollisions_def detectEdgeTableReferences_def detectDuplicateAccessNames_def)
qed

lemma validate_schema_iff_witness: "ValidateSchema (Some user_registry) [] = Inr [] \<and> valid_schema (user_schema [name_field] []) []"
proof -
  have "registry_reachable user_registry" unfolding user_registry_def by (intro registry_reachable.intros)
  from validate_schema_iff [OF this user_registry_validates] show ?thesis using user_registry_validates user_registry_schema by simp
qed


section \<open>What the comparison does not see\<close>

lemma event_drift_unseen: "ev_name e = ev_name f \<Longrightarrow> diffEvents c [e] [f] = []"
  by (simp add: diffEvents_def diff_named_def keys_of_def by_name_def)

lemma search_drift_unseen:
  "diffIndex c (i\<lparr>ix_type := ''SEARCH'', ix_analyzer := a, ix_bm25 := True\<rparr>) (i\<lparr>ix_type := ''SEARCH'', ix_analyzer := b, ix_bm25 := False\<rparr>) = []"
  by (simp add: diffIndex_def sortedSliceEqual_def report_if_def)

lemma diskann_drift_unseen:
  "diffIndex c (i\<lparr>ix_type := ''DISKANN'', ix_dimension := m\<rparr>) (i\<lparr>ix_type := ''DISKANN'', ix_dimension := n\<rparr>) = []"
  by (simp add: diffIndex_def sortedSliceEqual_def report_if_def)

lemma column_order_unseen:
  "diffIndex c (NewIndex ''i'' [''a'', ''b''] ''INDEX'') (NewIndex ''i'' [''b'', ''a''] ''INDEX'') = []"
  by code_simp

lemma permission_drift_unseen: "diffTable (t\<lparr>tb_permissions := p\<rparr>) (t\<lparr>tb_permissions := q\<rparr>) = diffTable t t"
  by (simp add: diffTable_def)

end
