(* ===== verification/Query_Values.thy ===== *)
theory Query_Values
  imports Sql_Values Go_Values
begin

text \<open>
  Package \<open>types\<close>, the operators of a condition (\<open>operators.go\<close>): the literal of a value and the text of an
  operator, and what reads them back. A value is an interface in Go; here it is the case the type
  switch of \<open>quoteValue\<close> takes: the integer kinds carry their number, a float its decimal text as
  \<open>strconv.FormatFloat\<close> gives it, a record id itself, a map or a slice
  of maps its content and the text \<open>fmt.Sprint\<close> gives it, a Stringer and any other value its text.
\<close>

section \<open>Literals\<close>

datatype sql_any =
    SNil
  | SBool bool
  | SInt int
  | SFloat string
  | SString string
  | SFn surreal_fn
  | SRef record_ref
  | SRaw string
  | SList "sql_any list"
  | SRecord record_id
  | SMap "(string \<times> sql_any) list" string
  | SMaps "(string \<times> sql_any) list list" string
  | SOther string

definition quoteString :: "string \<Rightarrow> string" where
  "quoteString s =
     [squote] @ replace_all [squote] [backslash, squote] (replace_all [backslash] [backslash, backslash] s) @ [squote]"

fun quoteValue :: "sql_any \<Rightarrow> string" where
  "quoteValue SNil = ''NULL''"
| "quoteValue (SBool b) = (if b then ''true'' else ''false'')"
| "quoteValue (SInt n) = show_int n"
| "quoteValue (SFloat t) = t"
| "quoteValue (SString s) = quoteString s"
| "quoteValue (SFn f) = sf_expression f"
| "quoteValue (SRef r) = record_ref_surql r"
| "quoteValue (SRaw t) = t"
| "quoteValue (SList xs) = ''['' @ str_join '', '' (map quoteValue xs) @ '']''"
| "quoteValue (SRecord r) = quoteString (record_id_string r)"
| "quoteValue (SMap m s) = quoteString s"
| "quoteValue (SMaps ms s) = quoteString s"
| "quoteValue (SOther s) = quoteString s"

definition renderList :: "sql_any list \<Rightarrow> string" where
  "renderList xs = ''['' @ str_join '', '' (map quoteValue xs) @ '']''"

section \<open>Operators\<close>

text \<open>\<open>ExprOp\<close> is any other implementation of the interface: a \<open>SurrealFn\<close> or an \<open>Expression\<close>, rendered.\<close>

datatype operator =
    EqOp string sql_any | NeOp string sql_any | GtOp string sql_any | GteOp string sql_any
  | LtOp string sql_any | LteOp string sql_any | ContainsOp string sql_any | ContainsNotOp string sql_any
  | ContainsAllOp string "sql_any list" | ContainsAnyOp string "sql_any list"
  | InsideOp string "sql_any list" | NotInsideOp string "sql_any list"
  | IsNullOp string | IsNotNullOp string
  | AndOp operator operator | OrOp operator operator | NotOp operator
  | ExprOp string

fun op_ToSurql :: "operator \<Rightarrow> string" where
  "op_ToSurql (EqOp f v) = f @ '' = '' @ quoteValue v"
| "op_ToSurql (NeOp f v) = f @ '' != '' @ quoteValue v"
| "op_ToSurql (GtOp f v) = f @ '' > '' @ quoteValue v"
| "op_ToSurql (GteOp f v) = f @ '' >= '' @ quoteValue v"
| "op_ToSurql (LtOp f v) = f @ '' < '' @ quoteValue v"
| "op_ToSurql (LteOp f v) = f @ '' <= '' @ quoteValue v"
| "op_ToSurql (ContainsOp f v) = f @ '' CONTAINS '' @ quoteValue v"
| "op_ToSurql (ContainsNotOp f v) = f @ '' CONTAINSNOT '' @ quoteValue v"
| "op_ToSurql (ContainsAllOp f vs) = f @ '' CONTAINSALL '' @ renderList vs"
| "op_ToSurql (ContainsAnyOp f vs) = f @ '' CONTAINSANY '' @ renderList vs"
| "op_ToSurql (InsideOp f vs) = f @ '' INSIDE '' @ renderList vs"
| "op_ToSurql (NotInsideOp f vs) = f @ '' NOTINSIDE '' @ renderList vs"
| "op_ToSurql (IsNullOp f) = f @ '' IS NULL''"
| "op_ToSurql (IsNotNullOp f) = f @ '' IS NOT NULL''"
| "op_ToSurql (AndOp l r) = ''('' @ op_ToSurql l @ '') AND ('' @ op_ToSurql r @ '')''"
| "op_ToSurql (OrOp l r) = ''('' @ op_ToSurql l @ '') OR ('' @ op_ToSurql r @ '')''"
| "op_ToSurql (NotOp x) = ''NOT ('' @ op_ToSurql x @ '')''"
| "op_ToSurql (ExprOp t) = t"

section \<open>Reading literals\<close>

text \<open>\<open>read_seps\<close> reads items separated by a comma and a space, at most \<open>k\<close> of them; \<open>read_value\<close> reads a literal
  whose lists nest less than \<open>d\<close> deep. Any text has fewer items, and nests less deeply, than it has characters.\<close>

fun read_seps :: "(string \<Rightarrow> ('a \<times> string) option) \<Rightarrow> nat \<Rightarrow> string \<Rightarrow> ('a list \<times> string) option" where
  "read_seps rd 0 s = None"
| "read_seps rd (Suc k) s =
     (case rd s of
        None \<Rightarrow> None
      | Some (x, r) \<Rightarrow>
          if has_prefix r '', '' then map_option (\<lambda>(xs, r'). (x # xs, r')) (read_seps rd k (drop 2 r))
          else Some ([x], r))"

definition read_number :: "string \<Rightarrow> (sql_any \<times> string) option" where
  "read_number s =
     (let neg = has_prefix s ''-''; ds = takeWhile is_digit (if neg then drop 1 s else s) in
      if ds = [] then None
      else Some (SInt (if neg then - int (digits_val ds) else int (digits_val ds)),
        drop (length ds) (if neg then drop 1 s else s)))"

fun read_value :: "nat \<Rightarrow> string \<Rightarrow> (sql_any \<times> string) option" where
  "read_value 0 s = None"
| "read_value (Suc d) s =
     (if has_prefix s ''NULL'' then Some (SNil, drop 4 s)
      else if has_prefix s ''true'' then Some (SBool True, drop 4 s)
      else if has_prefix s ''false'' then Some (SBool False, drop 5 s)
      else if has_prefix s ''[]'' then Some (SList [], drop 2 s)
      else if has_prefix s ''['' then
        (case read_seps (read_value d) (length s) (drop 1 s) of
           Some (vs, r) \<Rightarrow> if has_prefix r '']'' then Some (SList vs, drop 1 r) else None
         | None \<Rightarrow> None)
      else if has_prefix s [squote] then map_option (\<lambda>(t, r). (SString t, r)) (lex_literal s)
      else read_number s)"

text \<open>The values that are written as a literal, and the value that is read back: a Stringer is read as
  its text.\<close>

fun literal :: "sql_any \<Rightarrow> bool" where
  "literal SNil = True"
| "literal (SBool b) = True"
| "literal (SInt n) = True"
| "literal (SString s) = True"
| "literal (SList xs) = list_all literal xs"
| "literal (SRecord r) = True"
| "literal (SMap m s) = True"
| "literal (SMaps ms s) = True"
| "literal (SOther s) = True"
| "literal _ = False"

fun as_read :: "sql_any \<Rightarrow> sql_any" where
  "as_read (SOther s) = SString s"
| "as_read (SRecord r) = SString (record_id_string r)"
| "as_read (SMap m s) = SString s"
| "as_read (SMaps ms s) = SString s"
| "as_read (SList xs) = SList (map as_read xs)"
| "as_read v = v"

fun nesting :: "sql_any \<Rightarrow> nat" where
  "nesting (SList xs) = Suc (Max (insert 0 (set (map nesting xs))))"
| "nesting v = 1"

lemma quoteString_map: "quoteString s = squote # concat (map esc_char s) @ [squote]"
  using escape_single_quotes_map [of s] by (simp add: quoteString_def escape_single_quotes_def)

lemma lex_quoteString: "lex_literal (quoteString s @ rest) = Some (s, rest)"
  by (simp add: quoteString_map lex_body_escaped)

lemma read_seps_join:
  assumes "xs \<noteq> []" "length xs \<le> k" "\<not> has_prefix rest '', ''"
    and "\<And>x R. x \<in> set xs \<Longrightarrow> R = rest \<or> has_prefix R '', '' \<Longrightarrow> rd (sh x @ R) = Some (f x, R)"
  shows "read_seps rd k (str_join '', '' (map sh xs) @ rest) = Some (map f xs, rest)"
  using assms
proof (induction xs arbitrary: k)
  case (Cons x xs)
  obtain k' where k: "k = Suc k'" using Cons.prems(2) by (cases k) simp_all
  show ?case
  proof (cases xs)
    case Nil
    have "rd (sh x @ rest) = Some (f x, rest)" by (rule Cons.prems(4)) simp_all
    then show ?thesis using Nil k Cons.prems(3) by simp
  next
    case (Cons y ys)
    have "rd (sh x @ '', '' @ str_join '', '' (map sh xs) @ rest) = Some (f x, '', '' @ str_join '', '' (map sh xs) @ rest)"
      by (rule Cons.prems(4)) (simp_all add: has_prefix_def)
    moreover have "read_seps rd k' (str_join '', '' (map sh xs) @ rest) = Some (map f xs, rest)"
      by (rule Cons.IH) (use Cons.prems k Cons in auto)
    ultimately show ?thesis using k Cons by (simp add: has_prefix_def)
  qed
qed simp

lemma takeWhile_show_nat: "rest = [] \<or> \<not> is_digit (hd rest) \<Longrightarrow> takeWhile is_digit (show_nat n @ rest) = show_nat n"
  using list_all_show_nat [of n] by (cases rest) (auto simp: list_all_iff takeWhile_append2 takeWhile_tail)

lemma read_show_int:
  assumes "rest = [] \<or> \<not> is_digit (hd rest)"
  shows "read_number (show_int n @ rest) = Some (SInt n, rest)"
proof -
  obtain c cs where c: "show_nat (nat \<bar>n\<bar>) = c # cs" using show_nat_not_Nil by (cases "show_nat (nat \<bar>n\<bar>)") auto
  then have "is_digit c" using list_all_show_nat [of "nat \<bar>n\<bar>"] by simp
  then have "c \<noteq> CHR ''-''" by (auto simp: is_digit_def)
  moreover have "digits_val (c # cs) = nat \<bar>n\<bar>" using digits_val_show_nat [of "nat \<bar>n\<bar>"] c by simp
  ultimately show ?thesis using takeWhile_show_nat [OF assms, of "nat \<bar>n\<bar>"] c
    by (auto simp: read_number_def show_int_def has_prefix_def digits_val_show_nat Let_def split: if_splits)
qed

lemma quoteValue_hd:
  assumes "literal v"
  shows "\<exists>c cs. quoteValue v = c # cs \<and> c \<noteq> CHR '']'' \<and> c \<noteq> CHR ''('' \<and> \<not> (c = CHR '','')"
proof (cases v)
  case (SInt n)
  obtain c cs where c: "show_int n = c # cs" using show_int_not_Nil by (cases "show_int n") auto
  then have "is_digit c \<or> c = CHR ''-''" using show_int_chars [of n] by auto
  then show ?thesis using c SInt by (auto simp: is_digit_def)
qed (use assms in \<open>auto simp: quoteString_map\<close>)

lemma nesting_pos: "0 < nesting v"
  by (cases v) simp_all

lemma value_read:
  assumes "literal v" "nesting v \<le> d" "rest = [] \<or> \<not> is_digit (hd rest)"
  shows "read_value d (quoteValue v @ rest) = Some (as_read v, rest)"
  using assms
proof (induction v arbitrary: d rest)
  case (SInt n)
  obtain c cs where c: "show_int n = c # cs" using show_int_not_Nil by (cases "show_int n") auto
  then have "is_digit c \<or> c = CHR ''-''" using show_int_chars [of n] by auto
  then have "c \<notin> {CHR ''N'', CHR ''t'', CHR ''f'', CHR ''['', squote}" by (auto simp: is_digit_def)
  then show ?case using SInt read_show_int [OF SInt.prems(3), of n] c by (cases d) (simp_all add: has_prefix_def)
next
  case (SList xs)
  obtain d' where d: "d = Suc d'" using SList.prems(2) by (cases d) simp_all
  show ?case
  proof (cases xs)
    case Nil
    then show ?thesis using d by (simp add: has_prefix_def)
  next
    case (Cons x ys)
    have "read_seps (read_value d') (Suc (length (str_join '', '' (map quoteValue xs) @ '']'' @ rest))) (str_join '', '' (map quoteValue xs) @ '']'' @ rest)
        = Some (map as_read xs, '']'' @ rest)"
    proof (rule read_seps_join)
      have "length xs \<le> Suc (length (str_join '', '' (map quoteValue xs)))"
        by (induction xs rule: induct_list012) auto
      then show "length xs \<le> Suc (length (str_join '', '' (map quoteValue xs) @ '']'' @ rest))" by simp
      fix y R assume y: "y \<in> set xs" and R: "R = '']'' @ rest \<or> has_prefix R '', ''"
      have "nesting y \<le> d'" using SList.prems(2) d y by (auto simp: Max_ge_iff)
      moreover have "R = [] \<or> \<not> is_digit (hd R)" using R by (cases R) (auto simp: has_prefix_def is_digit_def split: if_splits)
      moreover have "literal y" using SList.prems(1) y by (simp add: list_all_iff)
      ultimately show "read_value d' (quoteValue y @ R) = Some (as_read y, R)" using SList.IH y by blast
    qed (simp_all add: Cons has_prefix_def)
    moreover have "literal x" using SList.prems(1) Cons by simp
    then obtain c cs where "quoteValue x = c # cs" "c \<noteq> CHR '']''" using quoteValue_hd by blast
    then have "\<exists>ds. str_join '', '' (map quoteValue xs) = c # ds" using Cons by (cases ys) auto
    ultimately show ?thesis using d \<open>c \<noteq> CHR '']''\<close> by (auto simp: has_prefix_def)
  qed
qed (use lex_quoteString in \<open>auto simp: has_prefix_def quoteString_map gr0_conv_Suc less_eq_Suc_le [symmetric] elim!: lessE\<close>)

section \<open>Reading conditions\<close>

text \<open>\<open>scan\<close> follows a text with its depth of parentheses and whether it is inside a quoted string; a closed_text
  text ends where it began and never closes a parenthesis it did not open. \<open>close_paren\<close> cuts a text at the
  parenthesis that closes it.\<close>

fun scan :: "nat \<Rightarrow> bool \<Rightarrow> string \<Rightarrow> (nat \<times> bool) option" where
  "scan d q [] = Some (d, q)"
| "scan d True (c # cs) =
     (if c = backslash then (case cs of [] \<Rightarrow> None | _ # ds \<Rightarrow> scan d True ds)
      else scan d (c \<noteq> squote) cs)"
| "scan d False (c # cs) =
     (if c = CHR ''('' then scan (Suc d) False cs
      else if c = CHR '')'' then (if d = 0 then None else scan (d - 1) False cs)
      else scan d (c = squote) cs)"

definition closed_text :: "string \<Rightarrow> bool" where
  "closed_text s \<longleftrightarrow> scan 0 False s = Some (0, False)"

fun close_paren :: "nat \<Rightarrow> bool \<Rightarrow> string \<Rightarrow> (string \<times> string) option" where
  "close_paren d q [] = None"
| "close_paren d True (c # cs) =
     (if c = backslash then
        (case cs of [] \<Rightarrow> None | x # ds \<Rightarrow> map_option (\<lambda>(b, r). (c # x # b, r)) (close_paren d True ds))
      else map_option (\<lambda>(b, r). (c # b, r)) (close_paren d (c \<noteq> squote) cs))"
| "close_paren d False (c # cs) =
     (if c = CHR ''('' then map_option (\<lambda>(b, r). (c # b, r)) (close_paren (Suc d) False cs)
      else if c = CHR '')'' then
        (if d = 0 then Some ([], cs) else map_option (\<lambda>(b, r). (c # b, r)) (close_paren (d - 1) False cs))
      else map_option (\<lambda>(b, r). (c # b, r)) (close_paren d (c = squote) cs))"

lemma scan_append: "scan d q s = Some (d', q') \<Longrightarrow> scan d q (s @ t) = scan d' q' t"
  by (induction d q s rule: scan.induct) (auto split: list.splits if_splits)

lemma scan_shift: "scan d q s = Some (d', q') \<Longrightarrow> scan (d + k) q s = Some (d' + k, q')"
proof (induction d q s rule: scan.induct)
  case (3 d c cs)
  then show ?case by (cases d) (auto split: if_splits)
qed (auto split: list.splits if_splits)

lemma close_scan: "scan d q s = Some (d', q') \<Longrightarrow> close_paren d q (s @ t) = map_option (\<lambda>(b, r). (s @ b, r)) (close_paren d' q' t)"
  by (induction d q s rule: scan.induct)
    (auto split: list.splits if_splits simp: option.map_comp o_def case_prod_beta' map_option.id [unfolded id_def])

lemma close_closed: "closed_text s \<Longrightarrow> close_paren 0 False (s @ CHR '')'' # rest) = Some (s, rest)"
  using close_scan [of 0 False s 0 False "CHR '')'' # rest"] by (simp add: closed_text_def)

lemma closed_scan: "closed_text s \<Longrightarrow> scan d False s = Some (d, False)"
  using scan_shift [of 0 False s 0 False d] by (simp add: closed_text_def)

lemma closed_append: "closed_text s \<Longrightarrow> closed_text t \<Longrightarrow> closed_text (s @ t)"
  using scan_append [of 0 False s 0 False t] by (simp add: closed_text_def)

lemma closed_paren: "closed_text s \<Longrightarrow> closed_text (''('' @ s @ '')'')"
  using closed_scan [of s 1] scan_append [of 1 False s 1 False "'')''"] by (simp add: closed_text_def)

definition plain_char :: "char \<Rightarrow> bool" where
  "plain_char c \<longleftrightarrow> c \<noteq> squote \<and> c \<noteq> CHR ''('' \<and> c \<noteq> CHR '')''"

lemma closed_plain: "list_all plain_char s \<Longrightarrow> closed_text s"
  unfolding closed_text_def by (induction s) (auto simp: plain_char_def)

lemma closed_quoted: "closed_text (quoteString s)"
proof -
  have "scan 0 True (concat (map esc_char s) @ [squote]) = Some (0, False)" by (induction s) (auto simp: esc_char_def)
  then show ?thesis by (simp add: closed_text_def quoteString_map)
qed

lemma closed_join: "closed_text sep \<Longrightarrow> (\<And>x. x \<in> set xs \<Longrightarrow> closed_text x) \<Longrightarrow> closed_text (str_join sep xs)"
  by (induction xs rule: induct_list012) (auto intro: closed_append simp: closed_text_def [of "[]"])

lemma closed_literal: "literal v \<Longrightarrow> closed_text (quoteValue v)"
proof (induction v)
  case (SInt n)
  have "list_all plain_char (show_int n)" using show_int_chars [of n] by (auto simp: list_all_iff plain_char_def is_digit_def)
  then show ?case by (simp add: closed_plain)
next
  case (SList xs)
  have "closed_text (str_join '', '' (map quoteValue xs))"
  proof (rule closed_join)
    show "closed_text '', ''" by (rule closed_plain) (simp add: plain_char_def)
    show "closed_text x" if "x \<in> set (map quoteValue xs)" for x using that SList by (auto simp: list_all_iff)
  qed
  moreover have "closed_text ''[''" "closed_text '']''" by (rule closed_plain, simp add: plain_char_def)+
  ultimately have "closed_text (''['' @ str_join '', '' (map quoteValue xs) @ '']'')" by (intro closed_append)
  then show ?case by simp
qed (auto intro: closed_plain closed_quoted simp: plain_char_def)

text \<open>What the server reads in a condition: its connectives, and the text of the comparisons.\<close>

datatype condition_tree = Leaf string | AndT condition_tree condition_tree | OrT condition_tree condition_tree | NotT condition_tree

fun op_tree :: "operator \<Rightarrow> condition_tree" where
  "op_tree (AndOp l r) = AndT (op_tree l) (op_tree r)"
| "op_tree (OrOp l r) = OrT (op_tree l) (op_tree r)"
| "op_tree (NotOp x) = NotT (op_tree x)"
| "op_tree x = Leaf (op_ToSurql x)"

fun op_depth :: "operator \<Rightarrow> nat" where
  "op_depth (AndOp l r) = Suc (max (op_depth l) (op_depth r))"
| "op_depth (OrOp l r) = Suc (max (op_depth l) (op_depth r))"
| "op_depth (NotOp x) = Suc (op_depth x)"
| "op_depth x = 1"

fun read_condition :: "nat \<Rightarrow> string \<Rightarrow> condition_tree option" where
  "read_condition 0 s = None"
| "read_condition (Suc d) s =
     (if has_prefix s ''NOT ('' then
        (case close_paren 0 False (drop 5 s) of
           Some (b, []) \<Rightarrow> map_option NotT (read_condition d b)
         | _ \<Rightarrow> None)
      else if has_prefix s ''('' then
        (case close_paren 0 False (drop 1 s) of
           Some (l, r) \<Rightarrow>
             if has_prefix r '' AND ('' then
               (case close_paren 0 False (drop 6 r) of
                  Some (b, []) \<Rightarrow> Option.bind (read_condition d l) (\<lambda>x. map_option (AndT x) (read_condition d b))
                | _ \<Rightarrow> None)
             else if has_prefix r '' OR ('' then
               (case close_paren 0 False (drop 5 r) of
                  Some (b, []) \<Rightarrow> Option.bind (read_condition d l) (\<lambda>x. map_option (OrT x) (read_condition d b))
                | _ \<Rightarrow> None)
             else None
         | None \<Rightarrow> None)
      else Some (Leaf s))"

text \<open>A field is a path without quotes, parentheses and spaces; an expression of another kind is closed
  and does not look like a connective.\<close>

definition field_path :: "string \<Rightarrow> bool" where
  "field_path f \<longleftrightarrow> f \<noteq> [] \<and> list_all (\<lambda>c. plain_char c \<and> c \<noteq> CHR '' '') f"

fun op_ok :: "operator \<Rightarrow> bool" where
  "op_ok (EqOp f v) = (field_path f \<and> literal v)"
| "op_ok (NeOp f v) = (field_path f \<and> literal v)"
| "op_ok (GtOp f v) = (field_path f \<and> literal v)"
| "op_ok (GteOp f v) = (field_path f \<and> literal v)"
| "op_ok (LtOp f v) = (field_path f \<and> literal v)"
| "op_ok (LteOp f v) = (field_path f \<and> literal v)"
| "op_ok (ContainsOp f v) = (field_path f \<and> literal v)"
| "op_ok (ContainsNotOp f v) = (field_path f \<and> literal v)"
| "op_ok (ContainsAllOp f vs) = (field_path f \<and> list_all literal vs)"
| "op_ok (ContainsAnyOp f vs) = (field_path f \<and> list_all literal vs)"
| "op_ok (InsideOp f vs) = (field_path f \<and> list_all literal vs)"
| "op_ok (NotInsideOp f vs) = (field_path f \<and> list_all literal vs)"
| "op_ok (IsNullOp f) = field_path f"
| "op_ok (IsNotNullOp f) = field_path f"
| "op_ok (AndOp l r) = (op_ok l \<and> op_ok r)"
| "op_ok (OrOp l r) = (op_ok l \<and> op_ok r)"
| "op_ok (NotOp x) = op_ok x"
| "op_ok (ExprOp t) = (closed_text t \<and> \<not> has_prefix t ''('' \<and> \<not> has_prefix t ''NOT ('')"

definition leaf_text :: "string \<Rightarrow> bool" where
  "leaf_text t \<longleftrightarrow> closed_text t \<and> \<not> has_prefix t ''('' \<and> \<not> has_prefix t ''NOT (''"

lemma leaf_read: "leaf_text t \<Longrightarrow> read_condition (Suc d) t = Some (Leaf t)"
  by (simp add: leaf_text_def)

lemma comparison_leaf:
  assumes "field_path f" "closed_text (c # w)" "c \<noteq> CHR ''(''"
  shows "leaf_text (f @ CHR '' '' # c # w)"
proof -
  obtain x xs where x: "f = x # xs" "x \<noteq> CHR ''(''" using assms(1) by (cases f) (auto simp: field_path_def plain_char_def)
  have f: "closed_text f" by (rule closed_plain) (use assms(1) in \<open>simp add: field_path_def list_all_iff\<close>)
  have "\<not> has_prefix (f @ CHR '' '' # c # w) ''NOT (''"
  proof
    assume "has_prefix (f @ CHR '' '' # c # w) ''NOT (''"
    then obtain z where z: "f @ CHR '' '' # c # w = ''NOT ('' @ z" by (auto simp: has_prefix_iff)
    have "takeWhile (\<lambda>x. x \<noteq> CHR '' '') (f @ CHR '' '' # c # w) = f"
      using assms(1) by (subst takeWhile_append2) (auto simp: field_path_def list_all_iff)
    then have "f = ''NOT''" using z by simp
    then show False using z assms(3) by simp
  qed
  moreover have "closed_text ([CHR '' ''] @ c # w)" by (rule closed_append) (use assms(2) in \<open>simp_all add: closed_text_def\<close>)
  then have "closed_text (f @ CHR '' '' # c # w)" using closed_append [OF f] by simp
  ultimately show ?thesis using x by (simp add: leaf_text_def has_prefix_def)
qed

lemma keyword_leaf:
  assumes "field_path f" "list_all plain_char (c # kw)" "closed_text v"
  shows "leaf_text (f @ CHR '' '' # c # kw @ v)"
proof -
  have "closed_text ((c # kw) @ v)" by (rule closed_append [OF closed_plain assms(3)]) (use assms(2) in simp)
  then show ?thesis using comparison_leaf [OF assms(1), of c "kw @ v"] assms(2) by (simp add: plain_char_def)
qed

lemma closed_Nil: "closed_text []"
  by (simp add: closed_text_def)

lemma closed_renderList: "list_all literal vs \<Longrightarrow> closed_text (renderList vs)"
  using closed_literal [of "SList vs"] by (simp add: renderList_def)

lemma op_leaf:
  assumes "op_ok x" "op_tree x = Leaf t"
  shows "leaf_text t \<and> t = op_ToSurql x"
proof -
  note k = keyword_leaf [OF _ _ closed_literal] keyword_leaf [OF _ _ closed_renderList]
    keyword_leaf [where c = "CHR ''I''" and kw = "''S NULL''" and v = "[]"] keyword_leaf [where c = "CHR ''I''" and kw = "''S NOT NULL''" and v = "[]"]
  show ?thesis
  proof (cases x)
    case (EqOp f v)
    then show ?thesis using assms k(1) [of f "CHR ''=''" "'' ''" v] by (auto simp: plain_char_def)
  next
    case (NeOp f v)
    then show ?thesis using assms k(1) [of f "CHR ''!''" "''= ''" v] by (auto simp: plain_char_def)
  next
    case (GtOp f v)
    then show ?thesis using assms k(1) [of f "CHR ''>''" "'' ''" v] by (auto simp: plain_char_def)
  next
    case (GteOp f v)
    then show ?thesis using assms k(1) [of f "CHR ''>''" "''= ''" v] by (auto simp: plain_char_def)
  next
    case (LtOp f v)
    then show ?thesis using assms k(1) [of f "CHR ''<''" "'' ''" v] by (auto simp: plain_char_def)
  next
    case (LteOp f v)
    then show ?thesis using assms k(1) [of f "CHR ''<''" "''= ''" v] by (auto simp: plain_char_def)
  next
    case (ContainsOp f v)
    then show ?thesis using assms k(1) [of f "CHR ''C''" "''ONTAINS ''" v] by (auto simp: plain_char_def)
  next
    case (ContainsNotOp f v)
    then show ?thesis using assms k(1) [of f "CHR ''C''" "''ONTAINSNOT ''" v] by (auto simp: plain_char_def)
  next
    case (ContainsAllOp f vs)
    then show ?thesis using assms k(2) [of f "CHR ''C''" "''ONTAINSALL ''" vs] by (auto simp: plain_char_def)
  next
    case (ContainsAnyOp f vs)
    then show ?thesis using assms k(2) [of f "CHR ''C''" "''ONTAINSANY ''" vs] by (auto simp: plain_char_def)
  next
    case (InsideOp f vs)
    then show ?thesis using assms k(2) [of f "CHR ''I''" "''NSIDE ''" vs] by (auto simp: plain_char_def)
  next
    case (NotInsideOp f vs)
    then show ?thesis using assms k(2) [of f "CHR ''N''" "''OTINSIDE ''" vs] by (auto simp: plain_char_def)
  next
    case (IsNullOp f)
    then show ?thesis using assms k(3) [of f] by (auto simp: plain_char_def closed_Nil)
  next
    case (IsNotNullOp f)
    then show ?thesis using assms k(4) [of f] by (auto simp: plain_char_def closed_Nil)
  qed (use assms in \<open>auto simp: leaf_text_def\<close>)
qed

lemma closed_connective:
  assumes "closed_text l" "closed_text r" "list_all plain_char kw"
  shows "closed_text (''('' @ l @ '')'' @ kw @ ''('' @ r @ '')'')"
  using closed_append [OF closed_paren [OF assms(1)] closed_append [OF closed_plain [OF assms(3)] closed_paren [OF assms(2)]]] by simp

lemma leaf_closed: "op_ok x \<Longrightarrow> op_tree x = Leaf (op_ToSurql x) \<Longrightarrow> closed_text (op_ToSurql x)"
  using op_leaf [of x "op_ToSurql x"] by (simp only: leaf_text_def)

lemma op_closed: "op_ok x \<Longrightarrow> closed_text (op_ToSurql x)"
proof (induction x)
  case (AndOp l r)
  then show ?case using closed_connective [of "op_ToSurql l" "op_ToSurql r" "'' AND ''"] by (simp add: plain_char_def)
next
  case (OrOp l r)
  then show ?case using closed_connective [of "op_ToSurql l" "op_ToSurql r" "'' OR ''"] by (simp add: plain_char_def)
next
  case (NotOp x)
  then have "closed_text (''NOT '' @ ''('' @ op_ToSurql x @ '')'')"
    by (intro closed_append [OF closed_plain] closed_paren) (simp_all add: plain_char_def)
  then show ?case by simp
qed (rule leaf_closed; simp)+

lemma leaf_condition:
  assumes "op_ok x" "op_tree x = Leaf (op_ToSurql x)" "op_depth x \<le> d"
  shows "read_condition d (op_ToSurql x) = Some (op_tree x)"
proof -
  have "0 < op_depth x" by (cases x) simp_all
  then obtain e where "d = Suc e" using assms(3) by (cases d) auto
  moreover have "leaf_text (op_ToSurql x)" using op_leaf [OF assms(1,2)] by (simp only: simp_thms)
  ultimately show ?thesis using leaf_read [of "op_ToSurql x" e] assms(2) by (simp only:)
qed

lemma connective_read:
  assumes "closed_text l" "closed_text r" "op = '' AND ('' \<or> op = '' OR (''"
    and "read_condition d l = Some x" "read_condition d r = Some y"
  shows "read_condition (Suc d) (''('' @ l @ '')'' @ op @ r @ '')'') = Some (if op = '' AND ('' then AndT x y else OrT x y)"
proof -
  have l: "close_paren 0 False (l @ CHR '')'' # op @ r @ '')'') = Some (l, op @ r @ '')'')" by (rule close_closed [OF assms(1)])
  have r: "close_paren 0 False (r @ '')'') = Some (r, [])" using close_closed [OF assms(2), of "[]"] by simp
  show ?thesis using assms(3-) l r by (auto simp: has_prefix_def)
qed

lemma condition_read: "op_ok x \<Longrightarrow> op_depth x \<le> d \<Longrightarrow> read_condition d (op_ToSurql x) = Some (op_tree x)"
proof (induction x arbitrary: d)
  case (AndOp l r)
  obtain e where d: "d = Suc e" "op_depth l \<le> e" "op_depth r \<le> e" using AndOp.prems(2) by (cases d) auto
  have "read_condition e (op_ToSurql l) = Some (op_tree l)" "read_condition e (op_ToSurql r) = Some (op_tree r)"
    using AndOp.IH AndOp.prems(1) d by simp_all
  then show ?case
    using connective_read [of "op_ToSurql l" "op_ToSurql r" "'' AND (''" e] AndOp.prems(1) d(1) by (simp add: op_closed)
next
  case (OrOp l r)
  obtain e where d: "d = Suc e" "op_depth l \<le> e" "op_depth r \<le> e" using OrOp.prems(2) by (cases d) auto
  have "read_condition e (op_ToSurql l) = Some (op_tree l)" "read_condition e (op_ToSurql r) = Some (op_tree r)"
    using OrOp.IH OrOp.prems(1) d by simp_all
  then show ?case
    using connective_read [of "op_ToSurql l" "op_ToSurql r" "'' OR (''" e] OrOp.prems(1) d(1) by (simp add: op_closed)
next
  case (NotOp x)
  obtain e where d: "d = Suc e" "op_depth x \<le> e" using NotOp.prems(2) by (cases d) auto
  have "close_paren 0 False (op_ToSurql x @ '')'') = Some (op_ToSurql x, [])"
    using close_closed [of "op_ToSurql x" "[]"] NotOp.prems(1) by (simp add: op_closed)
  then show ?case using NotOp.IH NotOp.prems(1) d by (simp add: has_prefix_def)
qed (rule leaf_condition; simp)+

end
