(* ===== verification/Query_Builder.thy ===== *)
theory Query_Builder
  imports Query_Values Go_Regexp
begin

text \<open>
  Package \<open>query\<close>: identifier checks (\<open>helpers.go\<close>), optimiser hints (\<open>hints.go\<close>), expressions and function
  factories (\<open>expressions.go\<close>, \<open>functions.go\<close>) and the query builder (\<open>builder.go\<close>). A query is a value; the
  source copies slices and maps on every step, so no step changes the query it starts from. A
  \<open>map[string]any\<close> is the list of its entries in the order of a range loop, a \<open>float64\<close> its value with
  the texts \<open>strconv.FormatFloat\<close> and the verb \<open>%v\<close> give it.
\<close>

section \<open>Identifiers\<close>

type_synonym data_map = "(string \<times> sql_any) list"

definition identifierPattern :: regex where
  "identifierPattern = Seq (Sat alpha_under) (Seq (Star (Sat word_char)) AtEnd)"

definition capitalize :: "string \<Rightarrow> string" where
  "capitalize s = to_upper (take 1 s) @ drop 1 s"

definition validateSqlIdentifier :: "string \<Rightarrow> string \<Rightarrow> go_error option" where
  "validateSqlIdentifier name context =
     (if name = [] then Some (err_new ErrValidation (capitalize context @ '' cannot be empty''))
      else if find_anchored identifierPattern name = None then
        Some (err_new ErrValidation (''Invalid '' @ context @ '': '' @ go_quote name
          @ ''. Must contain only alphanumeric characters and underscores, and cannot start with a digit''))
      else None)"

definition splitTablePart :: "string \<Rightarrow> string" where
  "splitTablePart target = (case str_index target '':'' of Some i \<Rightarrow> take i target | None \<Rightarrow> target)"

fun validateDataKeys :: "data_map \<Rightarrow> go_error option" where
  "validateDataKeys [] = None"
| "validateDataKeys ((k, v) # m) = (case validateSqlIdentifier k ''field name'' of Some e \<Rightarrow> Some e | None \<Rightarrow> validateDataKeys m)"

section \<open>Hints\<close>

datatype float64 = Float64 (f_num: go_float) (f_text: string) (f_general: string)

datatype query_hint =
    IndexHint string string bool
  | ParallelHint bool "nat option"
  | TimeoutHint float64
  | FetchHint string "nat option"
  | ExplainHint bool

definition NewIndexHint :: "string \<Rightarrow> string \<Rightarrow> query_hint" where
  "NewIndexHint table index = IndexHint table index False"

definition ParallelWithWorkers :: "nat \<Rightarrow> query_hint result" where
  "ParallelWithWorkers n =
     (if n < 1 \<or> 32 < n then Inl (err_new ErrValidation (''ParallelHint max_workers must be in 1..=32, got '' @ show_nat n))
      else Inr (ParallelHint True (Some n)))"

definition NewTimeoutHint :: "float64 \<Rightarrow> query_hint result" where
  "NewTimeoutHint seconds =
     (if f_num seconds = NaN \<or> fl_le (f_num seconds) (Fin 0) then
        Inl (err_new ErrValidation (''TimeoutHint seconds must be > 0, got '' @ f_general seconds))
      else Inr (TimeoutHint seconds))"

definition FetchBatchHint :: "nat \<Rightarrow> query_hint result" where
  "FetchBatchHint n =
     (if n < 1 \<or> 10000 < n then Inl (err_new ErrValidation (''FetchHint batch_size must be in 1..=10000, got '' @ show_nat n))
      else Inr (FetchHint ''batch'' (Some n)))"

fun hint_ToSurql :: "query_hint \<Rightarrow> string" where
  "hint_ToSurql (IndexHint t i force) = ''/* '' @ (if force then ''FORCE'' else ''USE'') @ '' INDEX '' @ t @ ''.'' @ i @ '' */''"
| "hint_ToSurql (ParallelHint enabled workers) =
     (if \<not> enabled then ''/* PARALLEL OFF */''
      else (case workers of Some n \<Rightarrow> ''/* PARALLEL '' @ show_nat n @ '' */'' | None \<Rightarrow> ''/* PARALLEL ON */''))"
| "hint_ToSurql (TimeoutHint s) = ''/* TIMEOUT '' @ f_text s @ ''s */''"
| "hint_ToSurql (FetchHint strategy batch_size) =
     (if strategy = ''batch'' \<and> batch_size \<noteq> None then ''/* FETCH BATCH '' @ show_nat (the batch_size) @ '' */''
      else if strategy = ''eager'' then ''/* FETCH EAGER */''
      else if strategy = ''lazy'' then ''/* FETCH LAZY */''
      else if strategy = ''batch'' then ''/* FETCH BATCH */'' else ''/* FETCH */'')"
| "hint_ToSurql (ExplainHint full) = (if full then ''/* EXPLAIN FULL */'' else ''/* EXPLAIN */'')"

datatype hint_type = HintIndex | HintParallel | HintTimeout | HintFetch | HintExplain

fun hint_Type :: "query_hint \<Rightarrow> hint_type" where
  "hint_Type (IndexHint t i f) = HintIndex"
| "hint_Type (ParallelHint e w) = HintParallel"
| "hint_Type (TimeoutHint s) = HintTimeout"
| "hint_Type (FetchHint s n) = HintFetch"
| "hint_Type (ExplainHint f) = HintExplain"

fun ValidateHint :: "query_hint \<Rightarrow> string \<Rightarrow> string list" where
  "ValidateHint (IndexHint t i f) table =
     (if table \<noteq> [] \<and> t \<noteq> table then [''Index hint table '' @ go_quote t @ '' does not match query table '' @ go_quote table] else [])"
| "ValidateHint _ table = []"

definition fetch_validate :: "query_hint \<Rightarrow> go_error option" where
  "fetch_validate h =
     (case h of
        FetchHint strategy None \<Rightarrow>
          if strategy = ''batch'' then Some (err_new ErrValidation ''FetchHint batch_size required when strategy is batch'') else None
      | _ \<Rightarrow> None)"

text \<open>The loop keeps the position of each category in \<open>idx\<close> and the hints so far in \<open>out\<close>.\<close>

fun merge_loop :: "(hint_type \<rightharpoonup> nat) \<Rightarrow> query_hint list \<Rightarrow> query_hint list \<Rightarrow> query_hint list" where
  "merge_loop idx out [] = out"
| "merge_loop idx out (h # hs) =
     (case idx (hint_Type h) of
        Some i \<Rightarrow> merge_loop idx (out[i := h]) hs
      | None \<Rightarrow> merge_loop (idx(hint_Type h \<mapsto> length out)) (out @ [h]) hs)"

definition MergeHints :: "query_hint list \<Rightarrow> query_hint list" where
  "MergeHints hs = merge_loop Map.empty [] hs"

definition RenderHints :: "query_hint list \<Rightarrow> string" where
  "RenderHints hs = str_join '' '' (map hint_ToSurql (MergeHints hs))"

section \<open>Expressions\<close>

datatype expression_kind = ExprRaw | ExprField | ExprValue | ExprFunction

record expression =
  ex_sql :: string
  ex_kind :: expression_kind

definition quoteValueExpr :: "sql_any \<Rightarrow> string" where
  "quoteValueExpr v = trim_prefix (op_ToSurql (EqOp ''__x__'' v)) ''__x__ = ''"

definition NewRaw :: "string \<Rightarrow> expression" where "NewRaw s = \<lparr>ex_sql = s, ex_kind = ExprRaw\<rparr>"
definition NewFieldExpr :: "string \<Rightarrow> expression" where "NewFieldExpr s = \<lparr>ex_sql = s, ex_kind = ExprField\<rparr>"
definition NewValue :: "sql_any \<Rightarrow> expression" where "NewValue v = \<lparr>ex_sql = quoteValueExpr v, ex_kind = ExprValue\<rparr>"
definition NewFunction :: "string \<Rightarrow> expression" where "NewFunction s = \<lparr>ex_sql = s, ex_kind = ExprFunction\<rparr>"

text \<open>An argument is an expression or a string; both come as their text.\<close>

datatype expr_arg = ArgExpr expression | ArgStr string | ArgNone

definition arg_render :: "expr_arg \<Rightarrow> string" where
  "arg_render a = (case a of ArgExpr e \<Rightarrow> ex_sql e | ArgStr s \<Rightarrow> s | ArgNone \<Rightarrow> [])"

definition Func :: "string \<Rightarrow> expr_arg list \<Rightarrow> expression" where
  "Func name args = NewFunction (name @ ''('' @ str_join '', '' (map arg_render args) @ '')'')"

definition Count :: "string \<Rightarrow> expression" where
  "Count f = NewFunction (if f = [] then ''count()'' else ''count('' @ f @ '')'')"

definition function_of :: "string \<Rightarrow> string \<Rightarrow> expression" where
  "function_of name f = NewFunction (name @ ''('' @ f @ '')'')"

definition MathMean :: "string \<Rightarrow> expression" where "MathMean f = function_of ''math::mean'' f"
definition MathSum :: "string \<Rightarrow> expression" where "MathSum f = function_of ''math::sum'' f"
definition MathMax :: "string \<Rightarrow> expression" where "MathMax f = function_of ''math::max'' f"
definition MathMin :: "string \<Rightarrow> expression" where "MathMin f = function_of ''math::min'' f"
definition Upper :: "string \<Rightarrow> expression" where "Upper f = function_of ''string::uppercase'' f"
definition Lower :: "string \<Rightarrow> expression" where "Lower f = function_of ''string::lowercase'' f"
definition ArrayLength :: "string \<Rightarrow> expression" where "ArrayLength f = function_of ''array::len'' f"
definition Abs :: "string \<Rightarrow> expression" where "Abs f = function_of ''math::abs'' f"
definition Ceil :: "string \<Rightarrow> expression" where "Ceil f = function_of ''math::ceil'' f"
definition Floor :: "string \<Rightarrow> expression" where "Floor f = function_of ''math::floor'' f"
definition Sum :: "string \<Rightarrow> expression" where "Sum f = MathSum f"
definition Avg :: "string \<Rightarrow> expression" where "Avg f = MathMean f"
definition MinFn :: "string \<Rightarrow> expression" where "MinFn f = MathMin f"
definition MaxFn :: "string \<Rightarrow> expression" where "MaxFn f = MathMax f"
definition TimeNow :: expression where "TimeNow = NewFunction ''time::now()''"
definition TypeIs :: "string \<Rightarrow> string \<Rightarrow> expression" where "TypeIs f ty = function_of (''type::is::'' @ ty) f"

definition Concat :: "expr_arg list \<Rightarrow> expression" where
  "Concat parts = NewFunction (''string::concat('' @ str_join '', '' (map arg_render parts) @ '')'')"

definition ArrayContains :: "string \<Rightarrow> sql_any \<Rightarrow> expression" where
  "ArrayContains f v = NewFunction (''array::includes('' @ f @ '', '' @ quoteValueExpr v @ '')'')"

definition Round :: "string \<Rightarrow> int \<Rightarrow> expression" where
  "Round f p = NewFunction (''math::round('' @ f @ '', '' @ show_int p @ '')'')"

definition TimeFormat :: "string \<Rightarrow> string \<Rightarrow> expression" where
  "TimeFormat f format = NewFunction (''time::format('' @ f @ '', '' @ quoteValueExpr (SString format) @ '')'')"

definition Cast :: "string \<Rightarrow> string \<Rightarrow> expression" where
  "Cast f ty = NewRaw (''<'' @ ty @ ''>'' @ f)"

definition As :: "expression \<Rightarrow> string \<Rightarrow> expression" where
  "As e alias = NewRaw (ex_sql e @ '' AS '' @ alias)"

definition StringConcat :: "string list \<Rightarrow> surreal_fn" where
  "StringConcat args =
     \<lparr>sf_expression = ''string::concat('' @ foldl (\<lambda>j (i, a). j @ (if 0 < i then '', '' else []) @ a) [] (enumerate 0 args) @ '')''\<rparr>"

definition surreal_call :: "string \<Rightarrow> string \<Rightarrow> surreal_fn" where
  "surreal_call name f = \<lparr>sf_expression = name @ ''('' @ f @ '')''\<rparr>"

definition MathAbs :: "string \<Rightarrow> surreal_fn" where "MathAbs f = surreal_call ''math::abs'' f"
definition MathCeil :: "string \<Rightarrow> surreal_fn" where "MathCeil f = surreal_call ''math::ceil'' f"
definition MathFloor :: "string \<Rightarrow> surreal_fn" where "MathFloor f = surreal_call ''math::floor'' f"
definition MathRound :: "string \<Rightarrow> surreal_fn" where "MathRound f = surreal_call ''math::round'' f"
definition StringLen :: "string \<Rightarrow> surreal_fn" where "StringLen f = surreal_call ''string::len'' f"
definition StringLower :: "string \<Rightarrow> surreal_fn" where "StringLower f = surreal_call ''string::lowercase'' f"
definition StringUpper :: "string \<Rightarrow> surreal_fn" where "StringUpper f = surreal_call ''string::uppercase'' f"
definition CountField :: "string \<Rightarrow> surreal_fn" where "CountField f = surreal_call ''count'' f"
definition CountIf :: "string \<Rightarrow> surreal_fn" where "CountIf f = surreal_call ''count'' f"
definition CountAll :: surreal_fn where "CountAll = surreal_call ''count'' []"

section \<open>Queries\<close>

record query =
  q_operation :: string
  q_table :: string
  q_fields :: "string list"
  q_conditions :: "string list"
  q_order :: "(string \<times> string) list"
  q_group :: "string list"
  q_group_all :: bool
  q_limit :: "int option"
  q_offset :: "int option"
  q_insert :: data_map
  q_update :: data_map
  q_from :: string
  q_to :: string
  q_relate :: data_map
  q_joins :: "string list"
  q_traversal :: string
  q_return :: string
  q_vector_field :: string
  q_vector :: "float64 list"
  q_k :: "int option"
  q_distance :: string
  q_threshold :: "float64 option"
  q_ef :: "int option"
  q_ft_field :: string
  q_ft_reference :: int
  q_ft_query :: string
  q_ft_set :: bool
  q_hints :: "query_hint list"

definition NewQuery :: query where
  "NewQuery =
     \<lparr>q_operation = [], q_table = [], q_fields = [], q_conditions = [], q_order = [], q_group = [], q_group_all = False,
      q_limit = None, q_offset = None, q_insert = [], q_update = [], q_from = [], q_to = [], q_relate = [], q_joins = [],
      q_traversal = [], q_return = [], q_vector_field = [], q_vector = [], q_k = None, q_distance = [], q_threshold = None,
      q_ef = None, q_ft_field = [], q_ft_reference = 0, q_ft_query = [], q_ft_set = False, q_hints = []\<rparr>"

definition or_star :: "string list \<Rightarrow> string list" where
  "or_star fs = (if fs = [] then [''*''] else fs)"

definition Select :: "string list \<Rightarrow> query \<Rightarrow> query" where
  "Select fs q = q\<lparr>q_operation := ''SELECT'', q_fields := or_star fs\<rparr>"

definition SelectExpr :: "operator list \<Rightarrow> query \<Rightarrow> query" where
  "SelectExpr es q = q\<lparr>q_operation := ''SELECT'', q_fields := or_star (map op_ToSurql es)\<rparr>"

definition SelectAliased :: "(string \<times> operator) list \<Rightarrow> query \<Rightarrow> query" where
  "SelectAliased m q =
     q\<lparr>q_operation := ''SELECT'',
       q_fields := or_star (map (\<lambda>k. op_ToSurql (the (map_of m k)) @ '' AS '' @ k) (sort (map fst m)))\<rparr>"

definition unless :: "go_error option \<Rightarrow> 'a \<Rightarrow> 'a result" where
  "unless e x = (case e of Some e \<Rightarrow> Inl e | None \<Rightarrow> Inr x)"

definition check_target :: "string \<Rightarrow> go_error option" where
  "check_target target = validateSqlIdentifier (splitTablePart target) ''table name''"

definition FromTable :: "string \<Rightarrow> query \<Rightarrow> query result" where
  "FromTable table q = unless (check_target table) (q\<lparr>q_table := table\<rparr>)"

text \<open>The argument of \<open>Where\<close>: a string, an operator, nil, or a value of another type given by its name.\<close>

datatype condition = CondText string | CondOp operator | CondNil | CondOther string

definition Where :: "condition \<Rightarrow> query \<Rightarrow> query result" where
  "Where c q =
     (case c of
        CondText t \<Rightarrow> Inr (q\<lparr>q_conditions := q_conditions q @ [t]\<rparr>)
      | CondOp x \<Rightarrow> Inr (q\<lparr>q_conditions := q_conditions q @ [op_ToSurql x]\<rparr>)
      | CondNil \<Rightarrow> Inl (err_new ErrValidation ''Where condition cannot be nil'')
      | CondOther ty \<Rightarrow> Inl (err_new ErrValidation (''Where condition must be a string or types.Operator, got '' @ ty)))"

definition OrderBy :: "string \<Rightarrow> string \<Rightarrow> query \<Rightarrow> query result" where
  "OrderBy f direction q =
     (let dir = to_upper direction in
      if dir \<noteq> ''ASC'' \<and> dir \<noteq> ''DESC'' then
        Inl (err_new ErrValidation (''Invalid direction: '' @ direction @ ''. Must be ASC or DESC''))
      else Inr (q\<lparr>q_order := q_order q @ [(f, dir)]\<rparr>))"

definition GroupBy :: "string list \<Rightarrow> query \<Rightarrow> query" where "GroupBy fs q = q\<lparr>q_group := q_group q @ fs\<rparr>"
definition GroupAll :: "query \<Rightarrow> query" where "GroupAll q = q\<lparr>q_group_all := True\<rparr>"

definition Limit :: "int \<Rightarrow> query \<Rightarrow> query result" where
  "Limit n q =
     (if n < 0 then Inl (err_new ErrValidation (''Limit must be non-negative, got '' @ show_int n))
      else Inr (q\<lparr>q_limit := Some n\<rparr>))"

definition Offset :: "int \<Rightarrow> query \<Rightarrow> query result" where
  "Offset n q =
     (if n < 0 then Inl (err_new ErrValidation (''Offset must be non-negative, got '' @ show_int n))
      else Inr (q\<lparr>q_offset := Some n\<rparr>))"

definition Insert :: "string \<Rightarrow> data_map \<Rightarrow> query \<Rightarrow> query result" where
  "Insert table data q =
     (case validateSqlIdentifier table ''table name'' of
        Some e \<Rightarrow> Inl e
      | None \<Rightarrow> unless (validateDataKeys data) (q\<lparr>q_operation := ''INSERT'', q_table := table, q_insert := data\<rparr>))"

definition Update :: "string \<Rightarrow> data_map \<Rightarrow> query \<Rightarrow> query result" where
  "Update target data q =
     (case check_target target of
        Some e \<Rightarrow> Inl e
      | None \<Rightarrow> unless (validateDataKeys data) (q\<lparr>q_operation := ''UPDATE'', q_table := target, q_update := data\<rparr>))"

definition Upsert :: "string \<Rightarrow> data_map \<Rightarrow> query \<Rightarrow> query result" where
  "Upsert target data q =
     (case check_target target of
        Some e \<Rightarrow> Inl e
      | None \<Rightarrow> unless (validateDataKeys data) (q\<lparr>q_operation := ''UPSERT'', q_table := target, q_update := data\<rparr>))"

definition Delete :: "string \<Rightarrow> query \<Rightarrow> query result" where
  "Delete target q = unless (check_target target) (q\<lparr>q_operation := ''DELETE'', q_table := target\<rparr>)"

text \<open>An end point of \<open>Relate\<close>: a string, a record id or a Stringer by their text, nil, or another type.\<close>

datatype endpoint = EndString string | EndRecord record_id | EndStringer string | EndNil | EndOther string

definition relateEndpoint :: "endpoint \<Rightarrow> string result" where
  "relateEndpoint v =
     (case v of
        EndString s \<Rightarrow> if s = [] then Inl (err_new ErrValidation ''relate endpoint cannot be empty'') else Inr s
      | EndRecord r \<Rightarrow> Inr (record_id_string r)
      | EndStringer s \<Rightarrow> if s = [] then Inl (err_new ErrValidation ''relate endpoint cannot be empty'') else Inr s
      | EndNil \<Rightarrow> Inl (err_new ErrValidation ''relate endpoint cannot be nil'')
      | EndOther ty \<Rightarrow> Inl (err_new ErrValidation (''relate endpoint must be string or types.RecordID, got '' @ ty)))"

definition Relate :: "string \<Rightarrow> endpoint \<Rightarrow> endpoint \<Rightarrow> data_map \<Rightarrow> query \<Rightarrow> query result" where
  "Relate edge from to data q =
     (case validateSqlIdentifier edge ''edge table name'' of
        Some e \<Rightarrow> Inl e
      | None \<Rightarrow>
          rbind (relateEndpoint from) (\<lambda>f. rbind (relateEndpoint to) (\<lambda>t.
            case validateSqlIdentifier (splitTablePart f) ''from table name'' of
              Some e \<Rightarrow> Inl e
            | None \<Rightarrow>
                (case validateSqlIdentifier (splitTablePart t) ''to table name'' of
                   Some e \<Rightarrow> Inl e
                 | None \<Rightarrow>
                     unless (validateDataKeys data)
                       (q\<lparr>q_operation := ''RELATE'', q_table := edge, q_from := f, q_to := t, q_relate := data\<rparr>)))))"

definition Traverse :: "string \<Rightarrow> query \<Rightarrow> query" where "Traverse path q = q\<lparr>q_traversal := path\<rparr>"
definition Join :: "string \<Rightarrow> query \<Rightarrow> query" where "Join c q = q\<lparr>q_joins := q_joins q @ [c]\<rparr>"

definition VectorSearch :: "string \<Rightarrow> float64 list \<Rightarrow> int \<Rightarrow> string \<Rightarrow> float64 option \<Rightarrow> query \<Rightarrow> query result" where
  "VectorSearch f vector k distance threshold q =
     (if k < 1 then Inl (err_new ErrValidation (''k must be at least 1, got '' @ show_int k))
      else if vector = [] then Inl (err_new ErrValidation ''Vector cannot be empty'')
      else Inr (q\<lparr>q_vector_field := f, q_vector := vector, q_k := Some k, q_distance := distance,
        q_threshold := (if threshold = None then q_threshold q else threshold)\<rparr>))"

definition VectorSearchIndexed :: "string \<Rightarrow> float64 list \<Rightarrow> int \<Rightarrow> int \<Rightarrow> query \<Rightarrow> query result" where
  "VectorSearchIndexed f vector k ef q =
     (if k < 1 then Inl (err_new ErrValidation (''k must be at least 1, got '' @ show_int k))
      else if ef < 1 then Inl (err_new ErrValidation (''ef must be at least 1, got '' @ show_int ef))
      else if vector = [] then Inl (err_new ErrValidation ''Vector cannot be empty'')
      else Inr (q\<lparr>q_vector_field := f, q_vector := vector, q_k := Some k, q_ef := Some ef, q_distance := [],
        q_threshold := None\<rparr>))"

definition renderVectorLiteral :: "float64 list \<Rightarrow> string" where
  "renderVectorLiteral vec = ''['' @ str_join '', '' (map f_text vec) @ '']''"

definition SimilarityScore :: "string \<Rightarrow> float64 list \<Rightarrow> string \<Rightarrow> string \<Rightarrow> query \<Rightarrow> query" where
  "SimilarityScore f vector metric alias q =
     q\<lparr>q_fields := q_fields q @ [''vector::similarity::'' @ to_lower metric @ ''('' @ f @ '', '' @ renderVectorLiteral vector
       @ '') AS '' @ (if alias = [] then ''similarity'' else alias)]\<rparr>"

definition FullTextSearch :: "string \<Rightarrow> int \<Rightarrow> string \<Rightarrow> query \<Rightarrow> query result" where
  "FullTextSearch f reference query_text q =
     (if f = [] then Inl (err_new ErrValidation ''Full-text search field cannot be empty'')
      else if query_text = [] then Inl (err_new ErrValidation ''Full-text search query cannot be empty'')
      else Inr (q\<lparr>q_ft_field := f, q_ft_reference := reference, q_ft_query := query_text, q_ft_set := True\<rparr>))"

definition SearchScore :: "int \<Rightarrow> string \<Rightarrow> query \<Rightarrow> query" where
  "SearchScore reference alias q =
     q\<lparr>q_fields := q_fields q @ [''search::score('' @ show_int reference @ '') AS '' @ alias]\<rparr>"

definition WithReturnFormat :: "string \<Rightarrow> query \<Rightarrow> query" where "WithReturnFormat f q = q\<lparr>q_return := f\<rparr>"
definition ReturnNone :: "query \<Rightarrow> query" where "ReturnNone q = WithReturnFormat ''NONE'' q"
definition ReturnDiff :: "query \<Rightarrow> query" where "ReturnDiff q = WithReturnFormat ''DIFF'' q"
definition ReturnFull :: "query \<Rightarrow> query" where "ReturnFull q = WithReturnFormat ''FULL'' q"
definition ReturnBefore :: "query \<Rightarrow> query" where "ReturnBefore q = WithReturnFormat ''BEFORE'' q"
definition ReturnAfter :: "query \<Rightarrow> query" where "ReturnAfter q = WithReturnFormat ''AFTER'' q"

definition Hint :: "query_hint \<Rightarrow> query \<Rightarrow> query" where "Hint h q = q\<lparr>q_hints := q_hints q @ [h]\<rparr>"
definition WithHints :: "query_hint list \<Rightarrow> query \<Rightarrow> query" where "WithHints hs q = q\<lparr>q_hints := q_hints q @ hs\<rparr>"

definition index_hint :: "bool \<Rightarrow> string \<Rightarrow> query \<Rightarrow> query result" where
  "index_hint force index q =
     (if q_table q = [] then Inl (err_new ErrValidation ''Table name required for index hint'')
      else Inr (Hint (IndexHint (q_table q) index force) q))"

definition ForceIndex :: "string \<Rightarrow> query \<Rightarrow> query result" where "ForceIndex index q = index_hint True index q"
definition UseIndex :: "string \<Rightarrow> query \<Rightarrow> query result" where "UseIndex index q = index_hint False index q"

definition WithTimeout :: "float64 \<Rightarrow> query \<Rightarrow> query result" where
  "WithTimeout seconds q = rbind (NewTimeoutHint seconds) (\<lambda>h. Inr (Hint h q))"

definition Parallel :: "nat option \<Rightarrow> query \<Rightarrow> query result" where
  "Parallel workers q =
     (case workers of
        None \<Rightarrow> Inr (Hint (ParallelHint True None) q)
      | Some n \<Rightarrow> rbind (ParallelWithWorkers n) (\<lambda>h. Inr (Hint h q)))"

definition WithFetch :: "string \<Rightarrow> nat option \<Rightarrow> query \<Rightarrow> query result" where
  "WithFetch strategy batch_size q =
     (if strategy = ''eager'' \<or> strategy = ''lazy'' then Inr (Hint (FetchHint strategy None) q)
      else if strategy = ''batch'' then
        (case batch_size of
           None \<Rightarrow> Inl (err_new ErrValidation ''FetchHint batch_size required when strategy is batch'')
         | Some n \<Rightarrow> rbind (FetchBatchHint n) (\<lambda>h. Inr (Hint h q)))
      else Inl (err_new ErrValidation (''unknown fetch strategy: '' @ go_quote strategy)))"

definition Explain :: "bool \<Rightarrow> query \<Rightarrow> query" where "Explain full q = Hint (ExplainHint full) q"

section \<open>Rendering\<close>

definition sortedKeys :: "data_map \<Rightarrow> string list" where
  "sortedKeys m = sort (map fst m)"

definition entry_of :: "data_map \<Rightarrow> string \<Rightarrow> sql_any" where
  "entry_of m k = the (map_of m k)"

definition renderDataObject :: "data_map \<Rightarrow> string" where
  "renderDataObject m =
     ''{'' @ str_join '', '' (map (\<lambda>k. k @ '': '' @ quoteValueExpr (entry_of m k)) (sortedKeys m)) @ ''}''"

definition joinConditions :: "string list \<Rightarrow> string" where
  "joinConditions conds = str_join '' AND '' (map (\<lambda>c. ''('' @ c @ '')'') conds)"

definition vector_part :: "query \<Rightarrow> string list" where
  "vector_part q =
     (case q_k q of
        None \<Rightarrow> []
      | Some k \<Rightarrow>
          if q_vector_field q \<noteq> [] \<and> q_vector q \<noteq> [] \<and> (q_distance q \<noteq> [] \<or> q_ef q \<noteq> None) then
            [q_vector_field q @ '' <|'' @ show_int k @ '',''
              @ (case (q_ef q, q_threshold q) of
                   (Some ef, _) \<Rightarrow> show_int ef
                 | (None, Some t) \<Rightarrow> q_distance q @ '','' @ f_text t
                 | (None, None) \<Rightarrow> q_distance q)
              @ ''|> '' @ renderVectorLiteral (q_vector q)]
          else [])"

definition fulltext_part :: "query \<Rightarrow> string list" where
  "fulltext_part q =
     (if q_ft_set q \<and> q_ft_field q \<noteq> [] \<and> q_ft_query q \<noteq> [] then
        [q_ft_field q @ '' @'' @ show_int (q_ft_reference q) @ ''@ '' @ quoteValueExpr (SString (q_ft_query q))]
      else [])"

definition buildSelect :: "query \<Rightarrow> string result" where
  "buildSelect q =
     (if q_table q = [] then Inl (err_new ErrValidation ''Table name required for SELECT query'')
      else
        let where_parts = vector_part q @ fulltext_part q @ map (\<lambda>c. ''('' @ c @ '')'') (q_conditions q) in
        Inr (str_join '' ''
          ([''SELECT '' @ (if q_fields q = [] then ''*'' else str_join '', '' (q_fields q)) @ '' FROM '' @ q_table q @ q_traversal q]
           @ q_joins q
           @ (if where_parts = [] then [] else [''WHERE '' @ str_join '' AND '' where_parts])
           @ (if q_group_all q then [''GROUP ALL'']
              else if q_group q \<noteq> [] then [''GROUP BY '' @ str_join '', '' (q_group q)] else [])
           @ (if q_order q = [] then [] else [''ORDER BY '' @ str_join '', '' (map (\<lambda>(f, d). f @ '' '' @ d) (q_order q))])
           @ (case q_limit q of Some n \<Rightarrow> [''LIMIT '' @ show_int n] | None \<Rightarrow> [])
           @ (case q_offset q of Some n \<Rightarrow> [''START '' @ show_int n] | None \<Rightarrow> []))))"

definition where_part :: "query \<Rightarrow> string list" where
  "where_part q = (if q_conditions q = [] then [] else [''WHERE '' @ joinConditions (q_conditions q)])"

definition return_part :: "query \<Rightarrow> string list" where
  "return_part q = (if q_return q = [] then [] else [''RETURN '' @ q_return q])"

definition buildInsert :: "query \<Rightarrow> string result" where
  "buildInsert q =
     (if q_table q = [] then Inl (err_new ErrValidation ''Table name required for INSERT query'')
      else if q_insert q = [] then Inl (err_new ErrValidation ''Insert data required for INSERT query'')
      else Inr (str_join '' '' ([''CREATE '' @ q_table q @ '' CONTENT '' @ renderDataObject (q_insert q)] @ return_part q)))"

definition buildUpdate :: "query \<Rightarrow> string result" where
  "buildUpdate q =
     (if q_table q = [] then Inl (err_new ErrValidation ''Table name required for UPDATE query'')
      else if q_update q = [] then Inl (err_new ErrValidation ''Update data required for UPDATE query'')
      else Inr (str_join '' ''
        ([''UPDATE '' @ q_table q @ '' SET ''
            @ str_join '', '' (map (\<lambda>k. k @ '' = '' @ quoteValueExpr (entry_of (q_update q) k)) (sortedKeys (q_update q)))]
         @ where_part q @ return_part q)))"

definition buildUpsert :: "query \<Rightarrow> string result" where
  "buildUpsert q =
     (if q_table q = [] then Inl (err_new ErrValidation ''Table name required for UPSERT query'')
      else if q_update q = [] then Inl (err_new ErrValidation ''Data required for UPSERT query'')
      else Inr (str_join '' ''
        ([''UPSERT '' @ q_table q @ '' CONTENT '' @ renderDataObject (q_update q)] @ where_part q @ return_part q)))"

definition buildDelete :: "query \<Rightarrow> string result" where
  "buildDelete q =
     (if q_table q = [] then Inl (err_new ErrValidation ''Table name required for DELETE query'')
      else Inr (str_join '' '' ([''DELETE '' @ q_table q] @ where_part q @ return_part q)))"

definition buildRelate :: "query \<Rightarrow> string result" where
  "buildRelate q =
     (if q_table q = [] then Inl (err_new ErrValidation ''Edge table name required for RELATE query'')
      else if q_from q = [] \<or> q_to q = [] then
        Inl (err_new ErrValidation ''From and to records required for RELATE query'')
      else Inr (str_join '' ''
        ([''RELATE '' @ q_from q @ ''->'' @ q_table q @ ''->'' @ q_to q]
         @ (if q_relate q = [] then [] else [''CONTENT '' @ renderDataObject (q_relate q)]) @ return_part q)))"

definition query_base :: "query \<Rightarrow> string result" where
  "query_base q =
     (if q_operation q = ''SELECT'' then buildSelect q
      else if q_operation q = ''INSERT'' then buildInsert q
      else if q_operation q = ''UPDATE'' then buildUpdate q
      else if q_operation q = ''DELETE'' then buildDelete q
      else if q_operation q = ''UPSERT'' then buildUpsert q
      else if q_operation q = ''RELATE'' then buildRelate q
      else Inl (err_new ErrValidation (''Unsupported operation: '' @ q_operation q)))"

definition query_ToSurql :: "query \<Rightarrow> string result" where
  "query_ToSurql q =
     (if q_operation q = [] then Inl (err_new ErrValidation ''Query operation not specified'')
      else rbind (query_base q) (\<lambda>base.
        Inr (if q_hints q \<noteq> [] then RenderHints (q_hints q) @ [CHR 0x0A] @ base else base)))"

section \<open>Standalone constructors\<close>

definition VectorSearchQuery ::
  "string \<Rightarrow> string \<Rightarrow> float64 list \<Rightarrow> int \<Rightarrow> string \<Rightarrow> string list \<Rightarrow> float64 option \<Rightarrow> query result" where
  "VectorSearchQuery table f vector k distance fs threshold =
     rbind (FromTable table (Select fs NewQuery)) (VectorSearch f vector k distance threshold)"

definition SimilaritySearchQuery ::
  "string \<Rightarrow> string \<Rightarrow> float64 list \<Rightarrow> int \<Rightarrow> string \<Rightarrow> float64 option \<Rightarrow> string list \<Rightarrow> string \<Rightarrow> query result" where
  "SimilaritySearchQuery table f vector k distance threshold fs alias =
     rbind (FromTable table (Select fs NewQuery)) (\<lambda>q.
       VectorSearch f vector k distance threshold
         (SimilarityScore f vector distance (if alias = [] then ''similarity'' else alias) q))"

definition FullTextSearchQuery ::
  "string \<Rightarrow> string \<Rightarrow> int \<Rightarrow> string \<Rightarrow> string list \<Rightarrow> string \<Rightarrow> query result" where
  "FullTextSearchQuery table f reference query_text fs score_alias =
     rbind (FromTable table (SearchScore reference score_alias (Select fs NewQuery))) (FullTextSearch f reference query_text)"

end
