(* ===== verification/Query_Builder_Correct.thy ===== *)
theory Query_Builder_Correct
  imports Query_Builder
begin

text \<open>
  What the steps of the query builder keep (\<open>query_built\<close>, \<open>query_wf\<close>), when a query renders, what merging
  hints does, and that a rendered statement reads back as what the caller passed.
\<close>

section \<open>Identifiers\<close>

fun safe_ident :: "string \<Rightarrow> bool" where
  "safe_ident [] = False"
| "safe_ident (c # cs) = (alpha_under c \<and> list_all word_char cs)"

lemma validateSqlIdentifier_iff: "validateSqlIdentifier name context = None \<longleftrightarrow> safe_ident name"
proof (cases name)
  case (Cons c cs)
  then show ?thesis using find_anchored_class [of alpha_under word_char name]
    by (auto simp: validateSqlIdentifier_def identifierPattern_def)
qed (simp add: validateSqlIdentifier_def)

lemma validateDataKeys_iff: "validateDataKeys m = None \<longleftrightarrow> list_all (\<lambda>(k, v). safe_ident k) m"
  by (induction m rule: validateDataKeys.induct)
    (simp_all add: validateSqlIdentifier_iff [symmetric, of _ "''field name''"] split: option.split)

lemma safe_ident_chars: "safe_ident s \<Longrightarrow> s \<noteq> [] \<and> list_all word_char s"
  by (cases s) (auto simp: alpha_under_def)

lemma safe_ident_head: "safe_ident s \<Longrightarrow> s \<noteq> [] \<and> \<not> is_digit (hd s)"
  by (cases s) (auto simp: alpha_under_def)

definition safe_target :: "string \<Rightarrow> bool" where
  "safe_target t \<longleftrightarrow> safe_ident (splitTablePart t)"

lemma check_target_iff: "check_target t = None \<longleftrightarrow> safe_target t"
  by (simp add: check_target_def safe_target_def validateSqlIdentifier_iff)

lemma safe_target_ne: "safe_target t \<Longrightarrow> t \<noteq> []"
  by (auto simp: safe_target_def splitTablePart_def split: option.splits)

lemma safe_ident_target: "safe_ident t \<Longrightarrow> safe_target t"
proof -
  assume t: "safe_ident t"
  then have "CHR '':'' \<notin> set t" using safe_ident_chars [OF t] by (auto simp: list_all_iff word_char_def is_digit_def)
  then have "str_index t '':'' = None" by (simp add: str_index_char_None)
  then show ?thesis using t by (simp add: safe_target_def splitTablePart_def)
qed

section \<open>Steps of the builder\<close>

inductive query_step :: "query \<Rightarrow> query \<Rightarrow> bool" where
  "query_step q (Select fs q)"
| "query_step q (SelectExpr es q)"
| "query_step q (SelectAliased m q)"
| "query_step q (GroupBy fs q)"
| "query_step q (GroupAll q)"
| "query_step q (Traverse path q)"
| "query_step q (Join c q)"
| "query_step q (SimilarityScore f v metric alias q)"
| "query_step q (SearchScore n alias q)"
| "query_step q (WithReturnFormat r q)"
| "query_step q (Hint h q)"
| "query_step q (WithHints hs q)"
| "query_step q (Explain full q)"
| "FromTable t q = Inr q' \<Longrightarrow> query_step q q'"
| "Where c q = Inr q' \<Longrightarrow> query_step q q'"
| "OrderBy f d q = Inr q' \<Longrightarrow> query_step q q'"
| "Limit n q = Inr q' \<Longrightarrow> query_step q q'"
| "Offset n q = Inr q' \<Longrightarrow> query_step q q'"
| "distinct (map fst m) \<Longrightarrow> Insert t m q = Inr q' \<Longrightarrow> query_step q q'"
| "distinct (map fst m) \<Longrightarrow> Update t m q = Inr q' \<Longrightarrow> query_step q q'"
| "distinct (map fst m) \<Longrightarrow> Upsert t m q = Inr q' \<Longrightarrow> query_step q q'"
| "Delete t q = Inr q' \<Longrightarrow> query_step q q'"
| "distinct (map fst m) \<Longrightarrow> Relate e a b m q = Inr q' \<Longrightarrow> query_step q q'"
| "VectorSearch f v k metric thr q = Inr q' \<Longrightarrow> query_step q q'"
| "VectorSearchIndexed f v k ef q = Inr q' \<Longrightarrow> query_step q q'"
| "FullTextSearch f n s q = Inr q' \<Longrightarrow> query_step q q'"
| "ForceIndex i q = Inr q' \<Longrightarrow> query_step q q'"
| "UseIndex i q = Inr q' \<Longrightarrow> query_step q q'"
| "WithTimeout s q = Inr q' \<Longrightarrow> query_step q q'"
| "Parallel w q = Inr q' \<Longrightarrow> query_step q q'"
| "WithFetch st n q = Inr q' \<Longrightarrow> query_step q q'"

inductive query_built :: "query \<Rightarrow> bool" where
  start: "query_built NewQuery"
| step: "query_built q \<Longrightarrow> query_step q q' \<Longrightarrow> query_built q'"

definition data_ok :: "data_map \<Rightarrow> bool" where
  "data_ok m \<longleftrightarrow> distinct (map fst m) \<and> list_all (\<lambda>(k, v). safe_ident k) m"

definition search_ok :: "query \<Rightarrow> bool" where
  "search_ok q \<longleftrightarrow>
     (q_k q \<noteq> None \<longrightarrow> 1 \<le> the (q_k q) \<and> q_vector q \<noteq> [])
     \<and> (q_ef q \<noteq> None \<longrightarrow> 1 \<le> the (q_ef q))
     \<and> (q_ft_set q \<longrightarrow> q_ft_field q \<noteq> [] \<and> q_ft_query q \<noteq> [])"

definition target_ok :: "query \<Rightarrow> bool" where
  "target_ok q \<longleftrightarrow>
     q_operation q \<in> {[], ''SELECT'', ''INSERT'', ''UPDATE'', ''UPSERT'', ''DELETE'', ''RELATE''}
     \<and> (q_table q = [] \<or> safe_target (q_table q))
     \<and> (q_operation q \<in> {''INSERT'', ''UPDATE'', ''UPSERT'', ''DELETE'', ''RELATE''} \<longrightarrow> q_table q \<noteq> [])
     \<and> (q_operation q = ''RELATE'' \<longrightarrow> q_from q \<noteq> [] \<and> q_to q \<noteq> [])"

definition clauses_ok :: "query \<Rightarrow> bool" where
  "clauses_ok q \<longleftrightarrow>
     list_all (\<lambda>(f, d). d = ''ASC'' \<or> d = ''DESC'') (q_order q)
     \<and> (q_limit q \<noteq> None \<longrightarrow> 0 \<le> the (q_limit q))
     \<and> (q_offset q \<noteq> None \<longrightarrow> 0 \<le> the (q_offset q))"

definition contents_ok :: "query \<Rightarrow> bool" where
  "contents_ok q \<longleftrightarrow> data_ok (q_insert q) \<and> data_ok (q_update q) \<and> data_ok (q_relate q)"

definition query_wf :: "query \<Rightarrow> bool" where
  "query_wf q \<longleftrightarrow> target_ok q \<and> search_ok q \<and> clauses_ok q \<and> contents_ok q"

text \<open>Every step changes what few of the four parts look at.\<close>

lemma search_ok_simps [simp]:
  "search_ok (q\<lparr>q_operation := x1\<rparr>) = search_ok q" "search_ok (q\<lparr>q_table := x2\<rparr>) = search_ok q"
  "search_ok (q\<lparr>q_fields := x3\<rparr>) = search_ok q" "search_ok (q\<lparr>q_conditions := x4\<rparr>) = search_ok q"
  "search_ok (q\<lparr>q_order := x5\<rparr>) = search_ok q" "search_ok (q\<lparr>q_group := x6\<rparr>) = search_ok q"
  "search_ok (q\<lparr>q_group_all := x7\<rparr>) = search_ok q" "search_ok (q\<lparr>q_limit := x8\<rparr>) = search_ok q"
  "search_ok (q\<lparr>q_offset := x8\<rparr>) = search_ok q" "search_ok (q\<lparr>q_insert := x9\<rparr>) = search_ok q"
  "search_ok (q\<lparr>q_update := x9\<rparr>) = search_ok q" "search_ok (q\<lparr>q_relate := x9\<rparr>) = search_ok q"
  "search_ok (q\<lparr>q_from := x1\<rparr>) = search_ok q" "search_ok (q\<lparr>q_to := x1\<rparr>) = search_ok q"
  "search_ok (q\<lparr>q_joins := x3\<rparr>) = search_ok q" "search_ok (q\<lparr>q_traversal := x1\<rparr>) = search_ok q"
  "search_ok (q\<lparr>q_return := x1\<rparr>) = search_ok q" "search_ok (q\<lparr>q_hints := hs\<rparr>) = search_ok q"
  by (simp_all add: search_ok_def)

lemma target_ok_simps [simp]:
  "target_ok (q\<lparr>q_fields := x3\<rparr>) = target_ok q" "target_ok (q\<lparr>q_conditions := x4\<rparr>) = target_ok q"
  "target_ok (q\<lparr>q_order := x5\<rparr>) = target_ok q" "target_ok (q\<lparr>q_group := x6\<rparr>) = target_ok q"
  "target_ok (q\<lparr>q_group_all := x7\<rparr>) = target_ok q" "target_ok (q\<lparr>q_limit := x8\<rparr>) = target_ok q"
  "target_ok (q\<lparr>q_offset := x8\<rparr>) = target_ok q" "target_ok (q\<lparr>q_insert := x9\<rparr>) = target_ok q"
  "target_ok (q\<lparr>q_update := x9\<rparr>) = target_ok q" "target_ok (q\<lparr>q_relate := x9\<rparr>) = target_ok q"
  "target_ok (q\<lparr>q_joins := x3\<rparr>) = target_ok q" "target_ok (q\<lparr>q_traversal := x1\<rparr>) = target_ok q"
  "target_ok (q\<lparr>q_return := x1\<rparr>) = target_ok q" "target_ok (q\<lparr>q_hints := hs\<rparr>) = target_ok q"
  "target_ok (q\<lparr>q_vector_field := x1\<rparr>) = target_ok q" "target_ok (q\<lparr>q_vector := v\<rparr>) = target_ok q"
  "target_ok (q\<lparr>q_k := x8\<rparr>) = target_ok q" "target_ok (q\<lparr>q_distance := x1\<rparr>) = target_ok q"
  "target_ok (q\<lparr>q_threshold := w\<rparr>) = target_ok q" "target_ok (q\<lparr>q_ef := x8\<rparr>) = target_ok q"
  "target_ok (q\<lparr>q_ft_field := x1\<rparr>) = target_ok q" "target_ok (q\<lparr>q_ft_reference := n\<rparr>) = target_ok q"
  "target_ok (q\<lparr>q_ft_query := x1\<rparr>) = target_ok q" "target_ok (q\<lparr>q_ft_set := x7\<rparr>) = target_ok q"
  by (simp_all add: target_ok_def)

lemmas wf_defs = query_wf_def clauses_ok_def contents_ok_def

lemma unless_Inr: "unless e x = Inr y \<longleftrightarrow> e = None \<and> y = x"
  by (cases e) (auto simp: unless_def)

lemma record_id_string_ne: "record_id_string r \<noteq> []"
  by (simp add: record_id_string_def)

lemma relateEndpoint_ne: "relateEndpoint v = Inr s \<Longrightarrow> s \<noteq> []"
  by (cases v) (auto simp: relateEndpoint_def record_id_string_ne split: if_splits)


lemma Relate_wf:
  assumes "query_wf q" "distinct (map fst m)" "Relate e a b m q = Inr q'"
  shows "query_wf q'"
proof -
  have e: "safe_ident e"
    using assms(3) by (auto simp: Relate_def validateSqlIdentifier_iff [symmetric, of e "''edge table name''"] split: option.splits)
  obtain f t where ft: "relateEndpoint a = Inr f" "relateEndpoint b = Inr t"
    using assms(3) by (auto simp: Relate_def rbind_Inr_iff split: option.splits)
  have m: "data_ok m"
    and q': "q' = q\<lparr>q_operation := ''RELATE'', q_table := e, q_from := f, q_to := t, q_relate := m\<rparr>"
    using assms(2,3) ft by (auto simp: Relate_def rbind_Inr_iff unless_Inr data_ok_def validateDataKeys_iff split: option.splits)
  show ?thesis using assms(1) m q' relateEndpoint_ne [OF ft(1)] relateEndpoint_ne [OF ft(2)]
      safe_ident_target [OF e] safe_target_ne [OF safe_ident_target [OF e]] by (simp add: wf_defs target_ok_def)
qed

lemma step_wf: "query_step q q' \<Longrightarrow> query_wf q \<Longrightarrow> query_wf q'"
proof (induction rule: query_step.induct)
  case (14 t q q')
  then show ?case using safe_target_ne [of t] by (clarsimp simp: FromTable_def unless_Inr check_target_iff wf_defs target_ok_def)
next
  case (15 c q q')
  then show ?case by (cases c) (auto simp: Where_def wf_defs)
next
  case (16 f d q q')
  then show ?case by (clarsimp simp: OrderBy_def wf_defs Let_def split: if_split_asm)
next
  case (19 m t q q')
  then have "safe_ident t" "q' = q\<lparr>q_operation := ''INSERT'', q_table := t, q_insert := m\<rparr>" "data_ok m"
    by (auto simp: Insert_def unless_Inr validateSqlIdentifier_iff [symmetric, of t "''table name''"] validateDataKeys_iff data_ok_def
        split: option.splits)
  then show ?case using 19 safe_ident_target [of t] safe_target_ne [of t] by (simp add: wf_defs target_ok_def)
next
  case (20 m t q q')
  then have "safe_target t" "q' = q\<lparr>q_operation := ''UPDATE'', q_table := t, q_update := m\<rparr>" "data_ok m"
    by (auto simp: Update_def unless_Inr check_target_iff [symmetric] validateDataKeys_iff data_ok_def split: option.splits)
  then show ?case using 20 safe_target_ne [of t] by (simp add: wf_defs target_ok_def)
next
  case (21 m t q q')
  then have "safe_target t" "q' = q\<lparr>q_operation := ''UPSERT'', q_table := t, q_update := m\<rparr>" "data_ok m"
    by (auto simp: Upsert_def unless_Inr check_target_iff [symmetric] validateDataKeys_iff data_ok_def split: option.splits)
  then show ?case using 21 safe_target_ne [of t] by (simp add: wf_defs target_ok_def)
next
  case (22 t q q')
  then show ?case using safe_target_ne [of t] by (clarsimp simp: Delete_def unless_Inr check_target_iff wf_defs target_ok_def)
next
  case (23 m e a b q q')
  then show ?case using Relate_wf by blast
next
  case (24 f v k metric thr q q')
  then show ?case by (clarsimp simp: VectorSearch_def wf_defs search_ok_def split: if_split_asm)
next
  case (25 f v k ef q q')
  then show ?case by (clarsimp simp: VectorSearchIndexed_def wf_defs search_ok_def split: if_split_asm)
next
  case (26 f n s q q')
  then show ?case by (clarsimp simp: FullTextSearch_def wf_defs search_ok_def split: if_split_asm)
next
  case (1 q fs)
  then show ?case by (simp add: Select_def wf_defs) (simp add: target_ok_def)
next
  case (2 q es)
  then show ?case by (simp add: SelectExpr_def wf_defs) (simp add: target_ok_def)
next
  case (3 q m)
  then show ?case by (simp add: SelectAliased_def wf_defs) (simp add: target_ok_def)
qed (auto simp: wf_defs GroupBy_def GroupAll_def Traverse_def Join_def
    SimilarityScore_def SearchScore_def WithReturnFormat_def Hint_def WithHints_def Explain_def Limit_def Offset_def
    ForceIndex_def UseIndex_def index_hint_def WithTimeout_def Parallel_def WithFetch_def rbind_Inr_iff
    split: if_split_asm option.split_asm)

lemma built_wf: "query_built q \<Longrightarrow> query_wf q"
proof (induction rule: query_built.induct)
  case start
  then show ?case by (simp add: wf_defs target_ok_def search_ok_def NewQuery_def data_ok_def)
qed (rule step_wf)

section \<open>When a query renders\<close>

definition renderable :: "query \<Rightarrow> bool" where
  "renderable q \<longleftrightarrow>
     (q_operation q = ''SELECT'' \<and> q_table q \<noteq> [])
     \<or> (q_operation q = ''INSERT'' \<and> q_insert q \<noteq> [])
     \<or> (q_operation q \<in> {''UPDATE'', ''UPSERT''} \<and> q_update q \<noteq> [])
     \<or> q_operation q \<in> {''DELETE'', ''RELATE''}"

lemmas build_defs = buildSelect_def buildInsert_def buildUpdate_def buildUpsert_def buildDelete_def buildRelate_def

lemma renders_iff: "query_wf q \<Longrightarrow> (\<exists>s. query_ToSurql q = Inr s) \<longleftrightarrow> renderable q"
  by (auto simp: query_ToSurql_def query_base_def build_defs renderable_def rbind_Inr_iff wf_defs target_ok_def Let_def)

section \<open>Hints\<close>

definition hint_types :: "query_hint list \<Rightarrow> hint_type list" where
  "hint_types hs = rev (remdups (rev (map hint_Type hs)))"

definition last_hint :: "query_hint list \<Rightarrow> hint_type \<Rightarrow> query_hint" where
  "last_hint hs t = last (filter (\<lambda>h. hint_Type h = t) hs)"

lemma hint_types_snoc:
  "hint_types (hs @ [h]) = (if hint_Type h \<in> set (hint_types hs) then hint_types hs else hint_types hs @ [hint_Type h])"
  by (auto simp: hint_types_def)

lemma last_hint_snoc: "last_hint (hs @ [h]) t = (if hint_Type h = t then h else last_hint hs t)"
  by (simp add: last_hint_def)

lemma merge_loop_last:
  assumes "out = map (last_hint ds) (hint_types ds)"
    and "\<And>t i. idx t = Some i \<longleftrightarrow> i < length (hint_types ds) \<and> hint_types ds ! i = t"
  shows "merge_loop idx out hs = map (last_hint (ds @ hs)) (hint_types (ds @ hs))"
  using assms
proof (induction idx out hs arbitrary: ds rule: merge_loop.induct)
  case (2 idx out h hs)
  have dist: "distinct (hint_types ds)" by (simp add: hint_types_def)
  show ?case
  proof (cases "idx (hint_Type h)")
    case None
    then have new: "hint_Type h \<notin> set (hint_types ds)" using 2(4) by (metis in_set_conv_nth option.distinct(1))
    have "merge_loop (idx(hint_Type h \<mapsto> length out)) (out @ [h]) hs
        = map (last_hint ((ds @ [h]) @ hs)) (hint_types ((ds @ [h]) @ hs))"
    proof (rule 2(1) [OF None])
      show "out @ [h] = map (last_hint (ds @ [h])) (hint_types (ds @ [h]))"
        using new 2(3) by (auto simp: hint_types_snoc last_hint_snoc)
      show "(idx(hint_Type h \<mapsto> length out)) t = Some i
          \<longleftrightarrow> i < length (hint_types (ds @ [h])) \<and> hint_types (ds @ [h]) ! i = t" for t i
        using None new 2(3) 2(4) [of t i] by (auto simp: hint_types_snoc nth_append less_Suc_eq)
    qed
    then show ?thesis using None by simp
  next
    case (Some i)
    then have i: "i < length (hint_types ds)" "hint_types ds ! i = hint_Type h" using 2(4) by blast+
    then have old: "hint_types (ds @ [h]) = hint_types ds" using nth_mem by (force simp: hint_types_snoc)
    have "merge_loop idx (out[i := h]) hs = map (last_hint ((ds @ [h]) @ hs)) (hint_types ((ds @ [h]) @ hs))"
    proof (rule 2(2) [OF Some])
      show "out[i := h] = map (last_hint (ds @ [h])) (hint_types (ds @ [h]))"
        using i old dist 2(3) by (auto intro!: nth_equalityI simp: nth_list_update last_hint_snoc nth_eq_iff_index_eq)
      show "idx t = Some j \<longleftrightarrow> j < length (hint_types (ds @ [h])) \<and> hint_types (ds @ [h]) ! j = t" for t j
        using 2(4) old by simp
    qed
    then show ?thesis using Some by simp
  qed
qed simp

lemma MergeHints_last: "MergeHints hs = map (last_hint hs) (hint_types hs)"
  using merge_loop_last [of "[]" "[]" Map.empty hs] by (simp add: MergeHints_def hint_types_def)

section \<open>Reading statements\<close>

text \<open>Entries \<open>k: v\<close> and \<open>k = v\<close>, the conditions of a WHERE clause, the RETURN clause.\<close>

type_synonym entries = "(string \<times> sql_any) list"

definition read_entry :: "string \<Rightarrow> nat \<Rightarrow> string \<Rightarrow> ((string \<times> sql_any) \<times> string) option" where
  "read_entry sep d s =
     (let k = takeWhile word_char s; r = drop (length k) s in
      if k \<noteq> [] \<and> has_prefix r sep then map_option (\<lambda>(v, r'). ((k, v), r')) (read_value d (drop (length sep) r)) else None)"

definition read_entries :: "string \<Rightarrow> nat \<Rightarrow> string \<Rightarrow> (entries \<times> string) option" where
  "read_entries sep d s = read_seps (read_entry sep d) (length s) s"

definition read_object :: "nat \<Rightarrow> string \<Rightarrow> (entries \<times> string) option" where
  "read_object d s =
     (if has_prefix s ''{'' then
        (case read_entries '': '' d (drop 1 s) of
           Some (es, r) \<Rightarrow> if has_prefix r ''}'' then Some (es, drop 1 r) else None
         | None \<Rightarrow> None)
      else None)"

fun read_conditions :: "nat \<Rightarrow> string \<Rightarrow> (string list \<times> string) option" where
  "read_conditions 0 s = None"
| "read_conditions (Suc k) s =
     (if has_prefix s ''('' then
        (case close_paren 0 False (drop 1 s) of
           Some (c, r) \<Rightarrow>
             if has_prefix r '' AND ('' then map_option (\<lambda>(cs, r'). (c # cs, r')) (read_conditions k (drop 5 r))
             else Some ([c], r)
         | None \<Rightarrow> None)
      else None)"

definition read_where :: "string \<Rightarrow> (string list \<times> string) option" where
  "read_where s = (if has_prefix s '' WHERE '' then read_conditions (length s) (drop 7 s) else Some ([], s))"

definition read_return :: "string \<Rightarrow> string option" where
  "read_return s = (if s = [] then Some [] else if has_prefix s '' RETURN '' then Some (drop 8 s) else None)"

definition read_tail :: "string \<Rightarrow> (string list \<times> string) option" where
  "read_tail s = Option.bind (read_where s) (\<lambda>(cs, r). map_option (\<lambda>f. (cs, f)) (read_return r))"

datatype statement =
    CreateS string entries string
  | UpdateS string entries "string list" string
  | UpsertS string entries "string list" string
  | DeleteS string "string list" string
  | RelateS string string string entries string

definition until :: "char \<Rightarrow> string \<Rightarrow> string \<times> string" where
  "until c s = (takeWhile (\<lambda>x. x \<noteq> c) s, dropWhile (\<lambda>x. x \<noteq> c) s)"

definition after :: "string \<Rightarrow> string \<Rightarrow> string option" where
  "after p s = (if has_prefix s p then Some (drop (length p) s) else None)"

definition read_mutation :: "nat \<Rightarrow> string \<Rightarrow> statement option" where
  "read_mutation d s =
     (case after ''CREATE '' s of
        Some r \<Rightarrow>
          (let (t, r) = until (CHR '' '') r in
           Option.bind (after '' CONTENT '' r) (\<lambda>r. Option.bind (read_object d r) (\<lambda>(es, r).
             map_option (CreateS t es) (read_return r))))
      | None \<Rightarrow> (case after ''UPDATE '' s of
        Some r \<Rightarrow>
          (let (t, r) = until (CHR '' '') r in
           Option.bind (after '' SET '' r) (\<lambda>r. Option.bind (read_entries '' = '' d r) (\<lambda>(es, r).
             map_option (\<lambda>(cs, f). UpdateS t es cs f) (read_tail r))))
      | None \<Rightarrow> (case after ''UPSERT '' s of
        Some r \<Rightarrow>
          (let (t, r) = until (CHR '' '') r in
           Option.bind (after '' CONTENT '' r) (\<lambda>r. Option.bind (read_object d r) (\<lambda>(es, r).
             map_option (\<lambda>(cs, f). UpsertS t es cs f) (read_tail r))))
      | None \<Rightarrow> (case after ''DELETE '' s of
        Some r \<Rightarrow>
          (let (t, r) = until (CHR '' '') r in map_option (\<lambda>(cs, f). DeleteS t cs f) (read_tail r))
      | None \<Rightarrow> Option.bind (after ''RELATE '' s) (\<lambda>r.
          (let (a, r) = until (CHR ''>'') r; (e, r) = until (CHR ''-'') (drop 1 r); (b, r) = until (CHR '' '') (drop 2 r) in
           case after '' CONTENT '' r of
             Some r \<Rightarrow> Option.bind (read_object d r) (\<lambda>(es, r). map_option (RelateS (butlast a) e b es) (read_return r))
           | None \<Rightarrow> map_option (RelateS (butlast a) e b []) (read_return r)))))))"

lemma quoteValueExpr_quoteValue [simp]: "quoteValueExpr v = quoteValue v"
  by (simp add: quoteValueExpr_def trim_prefix_def has_prefix_def)

lemma after_append [simp]: "after p (p @ s) = Some s"
  by (simp add: after_def)

lemma until_append: "c \<notin> set t \<Longrightarrow> until c (t @ c # r) = (t, c # r)"
  by (auto simp: until_def takeWhile_append dropWhile_append)

lemma read_entry_render:
  assumes "safe_ident k" "sep \<noteq> []" "\<not> word_char (hd sep)" "literal v" "nesting v \<le> d" "rest = [] \<or> \<not> is_digit (hd rest)"
  shows "read_entry sep d (k @ sep @ quoteValue v @ rest) = Some ((k, as_read v), rest)"
proof -
  have "takeWhile word_char (k @ sep @ quoteValue v @ rest) = k"
    using safe_ident_chars [OF assms(1)] assms(2,3) by (cases sep) (auto simp: list_all_iff takeWhile_append2 takeWhile_tail)
  then show ?thesis using safe_ident_chars [OF assms(1)] value_read [OF assms(4-6)] by (simp add: read_entry_def Let_def)
qed

definition contents_readable :: "nat \<Rightarrow> data_map \<Rightarrow> bool" where
  "contents_readable d m \<longleftrightarrow> (\<forall>v \<in> snd ` set m. literal v \<and> nesting v \<le> d)"

definition sorted_entries :: "data_map \<Rightarrow> entries" where
  "sorted_entries m = map (\<lambda>k. (k, as_read (entry_of m k))) (sortedKeys m)"

lemma sortedKeys_Nil: "sortedKeys m = [] \<longleftrightarrow> m = []"
  by (metis sortedKeys_def length_0_conv length_map length_sort)

lemma entry_of_mem: "k \<in> set (sortedKeys m) \<Longrightarrow> (k, entry_of m k) \<in> set m"
proof -
  assume "k \<in> set (sortedKeys m)"
  then have "k \<in> fst ` set m" by (simp add: sortedKeys_def)
  then obtain v where "map_of m k = Some v" by (cases "map_of m k") (auto simp: map_of_eq_None_iff)
  then show ?thesis by (simp add: entry_of_def map_of_SomeD)
qed

lemma read_entries_render:
  assumes "data_ok m" "m \<noteq> []" "contents_readable d m" "sep \<noteq> []" "\<not> word_char (hd sep)"
    and "rest = [] \<or> \<not> is_digit (hd rest)" "\<not> has_prefix rest '', ''"
  shows "read_entries sep d (str_join '', '' (map (\<lambda>k. k @ sep @ quoteValue (entry_of m k)) (sortedKeys m)) @ rest)
    = Some (sorted_entries m, rest)"
proof -
  let ?sh = "\<lambda>k. k @ sep @ quoteValue (entry_of m k)"
  have "read_seps (read_entry sep d) (length (str_join '', '' (map ?sh (sortedKeys m)) @ rest))
      (str_join '', '' (map ?sh (sortedKeys m)) @ rest) = Some (map (\<lambda>k. (k, as_read (entry_of m k))) (sortedKeys m), rest)"
  proof (rule read_seps_join)
    have "length ks \<le> length (str_join '', '' (map ?sh ks))" for ks
      by (induction ks rule: induct_list012) (use assms(4) in \<open>auto simp: Suc_le_eq\<close>)
    then show "length (sortedKeys m) \<le> length (str_join '', '' (map ?sh (sortedKeys m)) @ rest)" by (simp add: trans_le_add1)
    fix k R assume k: "k \<in> set (sortedKeys m)" and R: "R = rest \<or> has_prefix R '', ''"
    note e = entry_of_mem [OF k]
    have "safe_ident k" using assms(1) e by (auto simp: data_ok_def list_all_iff)
    moreover have "literal (entry_of m k)" "nesting (entry_of m k) \<le> d" using assms(3) e by (force simp: contents_readable_def)+
    moreover have "R = [] \<or> \<not> is_digit (hd R)" using R assms(6) by (cases R) (auto simp: has_prefix_def is_digit_def split: if_splits)
    ultimately show "read_entry sep d ((k @ sep @ quoteValue (entry_of m k)) @ R) = Some ((k, as_read (entry_of m k)), R)"
      using read_entry_render [OF _ assms(4,5)] by simp
  qed (use assms(2,7) in \<open>simp_all add: sortedKeys_Nil\<close>)
  then show ?thesis by (simp add: read_entries_def sorted_entries_def)
qed

lemma read_object_render:
  assumes "data_ok m" "m \<noteq> []" "contents_readable d m"
  shows "read_object d (renderDataObject m @ rest) = Some (sorted_entries m, rest)"
  using read_entries_render [OF assms, of "'': ''" "''}'' @ rest"]
  by (simp add: read_object_def renderDataObject_def word_char_def is_digit_def has_prefix_def)

lemma read_conditions_render:
  assumes "cs \<noteq> []" "list_all closed_text cs" "length cs \<le> k" "\<not> has_prefix rest '' AND (''"
  shows "read_conditions k (joinConditions cs @ rest) = Some (cs, rest)"
  using assms
proof (induction cs arbitrary: k)
  case (Cons c cs)
  obtain k' where k: "k = Suc k'" using Cons.prems(3) by (cases k) simp_all
  have c: "close_paren 0 False (c @ CHR '')'' # r) = Some (c, r)" for r using Cons.prems(2) close_closed by simp
  show ?case
  proof (cases cs)
    case Nil
    then show ?thesis using k c Cons.prems(4) by (simp add: joinConditions_def has_prefix_def)
  next
    case (Cons c2 cs2)
    then have j: "joinConditions (c # cs) = ''('' @ c @ '') AND '' @ joinConditions cs" by (simp add: joinConditions_def)
    have "has_prefix (joinConditions cs @ rest) ''(''" using Cons by (cases cs2) (simp_all add: joinConditions_def has_prefix_def)
    then have "has_prefix ('' AND '' @ joinConditions cs @ rest) '' AND (''" by (auto simp: has_prefix_iff)
    moreover have "read_conditions k' (joinConditions cs @ rest) = Some (cs, rest)"
      by (rule Cons.IH) (use Cons.prems k Cons in auto)
    ultimately show ?thesis using k c j by (simp add: has_prefix_def)
  qed
qed simp

text \<open>The statement a well-formed mutation stands for.\<close>

definition statement_of :: "query \<Rightarrow> statement" where
  "statement_of q =
     (if q_operation q = ''INSERT'' then CreateS (q_table q) (sorted_entries (q_insert q)) (q_return q)
      else if q_operation q = ''UPDATE'' then UpdateS (q_table q) (sorted_entries (q_update q)) (q_conditions q) (q_return q)
      else if q_operation q = ''UPSERT'' then UpsertS (q_table q) (sorted_entries (q_update q)) (q_conditions q) (q_return q)
      else if q_operation q = ''DELETE'' then DeleteS (q_table q) (q_conditions q) (q_return q)
      else RelateS (q_from q) (q_table q) (q_to q) (sorted_entries (q_relate q)) (q_return q))"

definition return_text :: "query \<Rightarrow> string" where "return_text q = spaced (return_part q)"
definition where_text :: "query \<Rightarrow> string" where "where_text q = spaced (where_part q)"

lemma read_return_text: "read_return (return_text q) = Some (q_return q)"
  by (simp add: read_return_def return_text_def return_part_def has_prefix_def)

lemma return_text_cases: "return_text q = [] \<or> has_prefix (return_text q) '' RETURN ''"
  by (simp add: return_text_def return_part_def has_prefix_def)

lemma tail_text_cases:
  "where_text q @ return_text q = [] \<or> (\<exists>t. where_text q @ return_text q = CHR '' '' # t)"
  using return_text_cases [of q] by (auto simp: where_text_def where_part_def has_prefix_iff)

lemma read_where_render:
  assumes "list_all closed_text cs" "\<not> has_prefix rest '' AND (''" "\<not> has_prefix rest '' WHERE ''"
  shows "read_where (spaced (if cs = [] then [] else [''WHERE '' @ joinConditions cs]) @ rest) = Some (cs, rest)"
proof (cases "cs = []")
  case False
  have "length cs \<le> length (joinConditions cs)" by (induction cs rule: induct_list012) (auto simp: joinConditions_def)
  then have "read_conditions (length ('' WHERE '' @ joinConditions cs @ rest)) (joinConditions cs @ rest) = Some (cs, rest)"
    using assms False by (intro read_conditions_render) simp_all
  then show ?thesis using False by (simp add: read_where_def has_prefix_def)
qed (use assms in \<open>simp add: read_where_def\<close>)

lemma read_tail_text:
  assumes "list_all closed_text (q_conditions q)"
  shows "read_tail (where_text q @ return_text q) = Some (q_conditions q, q_return q)"
proof -
  have "\<not> has_prefix (return_text q) '' AND (''" "\<not> has_prefix (return_text q) '' WHERE ''"
    using return_text_cases [of q] by (auto simp: has_prefix_iff)
  then have "read_where (where_text q @ return_text q) = Some (q_conditions q, return_text q)"
    using read_where_render [OF assms] by (simp add: where_text_def where_part_def)
  then show ?thesis by (simp add: read_tail_def read_return_text)
qed

definition mutation_readable :: "nat \<Rightarrow> query \<Rightarrow> bool" where
  "mutation_readable d q \<longleftrightarrow>
     q_operation q \<in> {''INSERT'', ''UPDATE'', ''UPSERT'', ''DELETE'', ''RELATE''} \<and> q_hints q = []
     \<and> CHR '' '' \<notin> set (q_table q) \<and> (q_operation q = ''RELATE'' \<longrightarrow> CHR ''-'' \<notin> set (q_table q))
     \<and> CHR ''>'' \<notin> set (q_from q) \<and> CHR '' '' \<notin> set (q_to q)
     \<and> contents_readable d (q_insert q) \<and> contents_readable d (q_update q) \<and> contents_readable d (q_relate q)
     \<and> list_all closed_text (q_conditions q)"

lemma until_tail: "c \<notin> set t \<Longrightarrow> r = [] \<or> (\<exists>r'. r = c # r') \<Longrightarrow> until c (t @ r) = (t, r)"
  by (auto simp: until_append) (auto simp: until_def takeWhile_eq_all_conv dropWhile_eq_Nil_conv)

lemma mutation_text:
  assumes "query_ToSurql q = Inr s" "mutation_readable d q"
  shows "s =
    (if q_operation q = ''INSERT'' then ''CREATE '' @ q_table q @ '' CONTENT '' @ renderDataObject (q_insert q) @ return_text q
     else if q_operation q = ''UPDATE'' then
       ''UPDATE '' @ q_table q @ '' SET '' @ str_join '', '' (map (\<lambda>k. k @ '' = '' @ quoteValue (entry_of (q_update q) k)) (sortedKeys (q_update q)))
         @ where_text q @ return_text q
     else if q_operation q = ''UPSERT'' then
       ''UPSERT '' @ q_table q @ '' CONTENT '' @ renderDataObject (q_update q) @ where_text q @ return_text q
     else if q_operation q = ''DELETE'' then ''DELETE '' @ q_table q @ where_text q @ return_text q
     else ''RELATE '' @ q_from q @ ''->'' @ q_table q @ ''->'' @ q_to q
       @ (if q_relate q = [] then [] else '' CONTENT '' @ renderDataObject (q_relate q)) @ return_text q)"
  using assms
  by (auto simp: query_ToSurql_def query_base_def build_defs mutation_readable_def str_join_spaced spaced_append
      return_text_def where_text_def split: if_split_asm)

lemma after_none: "\<not> has_prefix s p \<Longrightarrow> after p s = None"
  by (simp add: after_def)

lemma tail_facts:
  "\<not> has_prefix (where_text q @ return_text q) '', ''" "where_text q @ return_text q = [] \<or> \<not> is_digit (hd (where_text q @ return_text q))"
  using tail_text_cases [of q] by (auto simp: is_digit_def)

lemma read_relate:
  assumes "CHR ''>'' \<notin> set a" "CHR ''-'' \<notin> set e" "CHR '' '' \<notin> set b" "data_ok m" "contents_readable d m"
    and "r = [] \<or> has_prefix r '' RETURN ''"
  shows "read_mutation d (''RELATE '' @ a @ ''->'' @ e @ ''->'' @ b @ (if m = [] then [] else '' CONTENT '' @ renderDataObject m) @ r)
    = map_option (RelateS a e b (sorted_entries m)) (read_return r)"
proof -
  let ?r = "(if m = [] then [] else '' CONTENT '' @ renderDataObject m) @ r"
  have a: "until (CHR ''>'') (a @ CHR ''-'' # CHR ''>'' # x) = (a @ ''-'', CHR ''>'' # x)" for x
    using assms(1) until_append [of "CHR ''>''" "a @ ''-''" x] by simp
  have e: "until (CHR ''-'') (e @ CHR ''-'' # x) = (e, CHR ''-'' # x)" for x using assms(2) by (rule until_append)
  have b: "until (CHR '' '') (b @ ?r) = (b, ?r)"
    by (rule until_tail) (use assms(3,6) in \<open>auto simp: has_prefix_iff\<close>)
  have n: "\<not> has_prefix r '' CONTENT ''" using assms(6) by (auto simp: has_prefix_iff)
  show ?thesis
  proof (cases "m = []")
    case True
    then show ?thesis using a e b n
      by (simp add: read_mutation_def after_def Let_def sorted_entries_def sortedKeys_def)
  next
    case False
    then show ?thesis using a e b read_object_render [OF assms(4) _ assms(5), of r]
      by (simp add: read_mutation_def after_def Let_def)
  qed
qed

lemma mutation_read:
  assumes "query_wf q" "mutation_readable d q" "query_ToSurql q = Inr s"
  shows "read_mutation d s = Some (statement_of q)"
proof -
  note shape = mutation_text [OF assms(3,2)]
  note c = assms(1) [unfolded wf_defs] assms(2) [unfolded mutation_readable_def]
  have u: "until (CHR '' '') (q_table q @ CHR '' '' # r) = (q_table q, CHR '' '' # r)" for r
    by (rule until_append) (use c in blast)
  have tail: "read_tail (where_text q @ return_text q) = Some (q_conditions q, q_return q)"
    by (rule read_tail_text) (use c in blast)
  have built: "renderable q" using renders_iff [OF assms(1)] assms(3) by blast
  consider "q_operation q = ''INSERT''" | "q_operation q = ''UPDATE''" | "q_operation q = ''UPSERT''" | "q_operation q = ''DELETE''"
    | "q_operation q = ''RELATE''" using c by blast
  then show ?thesis
  proof cases
    case 1
    then have "q_insert q \<noteq> []" using built by (simp add: renderable_def)
    then have "read_object d (renderDataObject (q_insert q) @ return_text q) = Some (sorted_entries (q_insert q), return_text q)"
      using read_object_render c by blast
    then show ?thesis using 1 shape u by (simp add: read_mutation_def after_def statement_of_def read_return_text Let_def)
  next
    case 2
    then have "q_update q \<noteq> []" using built by (simp add: renderable_def)
    then have "read_entries '' = '' d (str_join '', '' (map (\<lambda>k. k @ '' = '' @ quoteValue (entry_of (q_update q) k)) (sortedKeys (q_update q)))
        @ where_text q @ return_text q) = Some (sorted_entries (q_update q), where_text q @ return_text q)"
      by (intro read_entries_render tail_facts) (use c in \<open>simp_all add: word_char_def is_digit_def\<close>)
    then show ?thesis using 2 shape u tail by (simp add: read_mutation_def after_def statement_of_def Let_def)
  next
    case 3
    then have "q_update q \<noteq> []" using built by (simp add: renderable_def)
    then have "read_object d (renderDataObject (q_update q) @ where_text q @ return_text q)
        = Some (sorted_entries (q_update q), where_text q @ return_text q)"
      using read_object_render c by blast
    then show ?thesis using 3 shape u tail by (simp add: read_mutation_def after_def statement_of_def Let_def)
  next
    case 4
    have "until (CHR '' '') (q_table q @ where_text q @ return_text q) = (q_table q, where_text q @ return_text q)"
      by (rule until_tail) (use c tail_text_cases [of q] in auto)
    then show ?thesis using 4 shape tail by (simp add: read_mutation_def after_def statement_of_def Let_def)
  next
    case 5
    have "read_mutation d s = map_option (RelateS (q_from q) (q_table q) (q_to q) (sorted_entries (q_relate q))) (read_return (return_text q))"
      using 5 shape read_relate [of "q_from q" "q_table q" "q_to q" "q_relate q" d "return_text q"] c return_text_cases [of q] by simp
    then show ?thesis using 5 by (simp add: statement_of_def read_return_text)
  qed
qed

section \<open>Reading SELECT statements\<close>

record select_stmt =
  ss_fields :: "string list"
  ss_table :: string
  ss_conditions :: "string list"
  ss_group :: "string list option"
  ss_order :: "(string \<times> string) list"
  ss_limit :: "int option"
  ss_start :: "int option"

definition read_word :: "string \<Rightarrow> (string \<times> string) option" where
  "read_word s =
     (let w = takeWhile (\<lambda>c. c \<noteq> CHR '','' \<and> c \<noteq> CHR '' '') s in
      if w = [] then None else Some (w, drop (length w) s))"

definition read_words :: "string \<Rightarrow> (string list \<times> string) option" where
  "read_words s = read_seps read_word (length s) s"

definition read_ordering :: "string \<Rightarrow> ((string \<times> string) \<times> string) option" where
  "read_ordering s =
     Option.bind (read_word s) (\<lambda>(f, r). Option.bind (after '' '' r) (\<lambda>r.
       map_option (\<lambda>(d, r'). ((f, d), r')) (read_word r)))"

definition read_orderings :: "string \<Rightarrow> ((string \<times> string) list \<times> string) option" where
  "read_orderings s = read_seps read_ordering (length s) s"

definition read_int :: "string \<Rightarrow> (int \<times> string) option" where
  "read_int s = (case read_number s of Some (SInt n, r) \<Rightarrow> Some (n, r) | _ \<Rightarrow> None)"

definition read_clause :: "string \<Rightarrow> (string \<Rightarrow> ('a \<times> string) option) \<Rightarrow> string \<Rightarrow> ('a option \<times> string) option" where
  "read_clause kw rd s =
     (case after kw s of
        Some r \<Rightarrow> map_option (\<lambda>(x, r'). (Some x, r')) (rd r)
      | None \<Rightarrow> Some (None, s))"

definition listed :: "'a list option \<Rightarrow> 'a list" where
  "listed x = (case x of Some xs \<Rightarrow> xs | None \<Rightarrow> [])"

text \<open>\<open>ss_group\<close> is \<open>Some []\<close> for GROUP ALL.\<close>

definition read_select :: "string \<Rightarrow> select_stmt option" where
  "read_select s =
     Option.bind (after ''SELECT '' s) (\<lambda>r. Option.bind (read_words r) (\<lambda>(fs, r). Option.bind (after '' FROM '' r) (\<lambda>r.
       (let (t, r) = until (CHR '' '') r in
        Option.bind (read_where r) (\<lambda>(cs, r).
        Option.bind (read_clause '' GROUP ALL'' (\<lambda>r. Some ([], r)) r) (\<lambda>(ga, r).
        Option.bind (read_clause '' GROUP BY '' read_words r) (\<lambda>(gs, r).
        Option.bind (read_clause '' ORDER BY '' read_orderings r) (\<lambda>(os, r).
        Option.bind (read_clause '' LIMIT '' read_int r) (\<lambda>(l, r).
        Option.bind (read_clause '' START '' read_int r) (\<lambda>(st, r).
          if r = [] then
            Some \<lparr>ss_fields = fs, ss_table = t, ss_conditions = cs, ss_group = (if ga = None then gs else ga),
              ss_order = listed os, ss_limit = l, ss_start = st\<rparr>
          else None)))))))))) "

definition plain_word :: "string \<Rightarrow> bool" where
  "plain_word w \<longleftrightarrow> w \<noteq> [] \<and> CHR '','' \<notin> set w \<and> CHR '' '' \<notin> set w"

definition select_readable :: "query \<Rightarrow> bool" where
  "select_readable q \<longleftrightarrow>
     q_operation q = ''SELECT'' \<and> q_hints q = [] \<and> q_traversal q = [] \<and> q_joins q = [] \<and> q_k q = None \<and> \<not> q_ft_set q
     \<and> CHR '' '' \<notin> set (q_table q) \<and> list_all plain_word (q_fields q) \<and> list_all plain_word (q_group q)
     \<and> list_all (\<lambda>(f, d). plain_word f) (q_order q) \<and> list_all closed_text (q_conditions q)"

definition select_of :: "query \<Rightarrow> select_stmt" where
  "select_of q =
     \<lparr>ss_fields = or_star (q_fields q), ss_table = q_table q, ss_conditions = q_conditions q,
      ss_group = (if q_group_all q then Some [] else if q_group q = [] then None else Some (q_group q)),
      ss_order = q_order q, ss_limit = q_limit q, ss_start = q_offset q\<rparr>"

definition stops :: "string \<Rightarrow> bool" where
  "stops r \<longleftrightarrow> r = [] \<or> (\<exists>t. r = CHR '' '' # t)"

lemma read_word_plain:
  assumes "plain_word w" "r = [] \<or> hd r = CHR '','' \<or> hd r = CHR '' ''"
  shows "read_word (w @ r) = Some (w, r)"
proof -
  have "takeWhile (\<lambda>c. c \<noteq> CHR '','' \<and> c \<noteq> CHR '' '') (w @ r) = w"
    using assms by (cases r) (auto simp: plain_word_def takeWhile_append takeWhile_eq_all_conv)
  then show ?thesis using assms(1) by (simp add: read_word_def plain_word_def)
qed

lemma length_le_join: "list_all (\<lambda>x. x \<noteq> []) xs \<Longrightarrow> length xs \<le> length (str_join sep xs)"
proof (induction xs rule: induct_list012)
  case (3 x y zs)
  then have "0 < length x" by simp
  moreover have "Suc (length zs) \<le> length (str_join sep (y # zs))" using 3 by simp
  ultimately show ?case unfolding str_join.simps length_append list.size by linarith
qed (auto simp: Suc_le_eq)

lemma stops_sep: "stops r \<Longrightarrow> \<not> has_prefix r '', ''"
  by (auto simp: stops_def)

lemma read_words_join:
  assumes "list_all plain_word ws" "ws \<noteq> []" "stops r"
  shows "read_words (str_join '', '' ws @ r) = Some (ws, r)"
proof -
  have "length ws \<le> length (str_join '', '' ws)"
    by (rule length_le_join) (use assms(1) in \<open>auto simp: list_all_iff plain_word_def\<close>)
  then have "read_seps read_word (length (str_join '', '' ws @ r)) (str_join '', '' (map id ws) @ r) = Some (map id ws, r)"
    using assms by (intro read_seps_join)
      (auto intro!: read_word_plain stops_sep simp: list_all_iff stops_def has_prefix_iff)
  then show ?thesis by (simp add: read_words_def)
qed

lemma read_orderings_join:
  assumes "list_all (\<lambda>(f, d). plain_word f \<and> plain_word d) os" "os \<noteq> []" "stops r"
  shows "read_orderings (str_join '', '' (map (\<lambda>(f, d). f @ '' '' @ d) os) @ r) = Some (os, r)"
proof -
  let ?sh = "\<lambda>(f, d). f @ '' '' @ d"
  have "length (map ?sh os) \<le> length (str_join '', '' (map ?sh os))"
    by (rule length_le_join) (auto simp: list_all_iff)
  moreover have "read_ordering (?sh x @ R) = Some (id x, R)" if "x \<in> set os" "R = r \<or> has_prefix R '', ''" for x R
  proof -
    obtain f d where x: "x = (f, d)" by (cases x)
    then have w: "plain_word f" "plain_word d" using assms(1) that(1) by (auto simp: list_all_iff)
    have "R = [] \<or> hd R = CHR '','' \<or> hd R = CHR '' ''" using that(2) assms(3) by (auto simp: stops_def has_prefix_iff)
    then show ?thesis using x read_word_plain [OF w(1), of "CHR '' '' # d @ R"] read_word_plain [OF w(2), of R]
      by (simp add: read_ordering_def after_def)
  qed
  ultimately have "read_seps read_ordering (length (str_join '', '' (map ?sh os) @ r)) (str_join '', '' (map ?sh os) @ r)
      = Some (map id os, r)"
    using assms(2) stops_sep [OF assms(3)] by (intro read_seps_join) auto
  then show ?thesis by (simp add: read_orderings_def)
qed

lemma read_int_show: "stops r \<Longrightarrow> read_int (show_int n @ r) = Some (n, r)"
  using read_show_int [of r n] by (auto simp: read_int_def stops_def is_digit_def)

lemma read_clause_present: "rd (x @ r) = Some (y, r) \<Longrightarrow> read_clause kw rd (kw @ x @ r) = Some (Some y, r)"
  by (simp add: read_clause_def)

lemma read_clause_absent: "\<not> has_prefix r kw \<Longrightarrow> read_clause kw rd r = Some (None, r)"
  by (simp add: read_clause_def after_def)

definition group_text :: "query \<Rightarrow> string" where
  "group_text q =
     (if q_group_all q then '' GROUP ALL'' else if q_group q \<noteq> [] then '' GROUP BY '' @ str_join '', '' (q_group q) else [])"

definition order_text :: "query \<Rightarrow> string" where
  "order_text q =
     (if q_order q = [] then [] else '' ORDER BY '' @ str_join '', '' (map (\<lambda>(f, d). f @ '' '' @ d) (q_order q)))"

definition number_text :: "string \<Rightarrow> int option \<Rightarrow> string" where
  "number_text kw n = (case n of Some n \<Rightarrow> kw @ show_int n | None \<Rightarrow> [])"

lemma clause_texts:
  "spaced (if q_group_all q then [''GROUP ALL''] else if q_group q \<noteq> [] then [''GROUP BY '' @ str_join '', '' (q_group q)] else [])
    = group_text q"
  "spaced (if q_order q = [] then [] else [''ORDER BY '' @ str_join '', '' (map (\<lambda>(f, d). f @ '' '' @ d) (q_order q))]) = order_text q"
  "spaced (case q_limit q of Some n \<Rightarrow> [''LIMIT '' @ show_int n] | None \<Rightarrow> []) = number_text '' LIMIT '' (q_limit q)"
  "spaced (case q_offset q of Some n \<Rightarrow> [''START '' @ show_int n] | None \<Rightarrow> []) = number_text '' START '' (q_offset q)"
  by (simp_all add: group_text_def order_text_def number_text_def split: option.split)

lemma select_text:
  assumes "query_ToSurql q = Inr s" "select_readable q"
  shows "s = ''SELECT '' @ str_join '', '' (or_star (q_fields q)) @ '' FROM '' @ q_table q @ where_text q @ group_text q @ order_text q
    @ number_text '' LIMIT '' (q_limit q) @ number_text '' START '' (q_offset q)"
proof -
  have base: "buildSelect q = Inr s" "q_traversal q = []" "q_joins q = []"
    and none: "vector_part q = []" "fulltext_part q = []"
    using assms by (simp_all add: query_ToSurql_def query_base_def select_readable_def vector_part_def fulltext_part_def rbind_Inr_iff)
  have "s = str_join '' '' ((''SELECT '' @ str_join '', '' (or_star (q_fields q)) @ '' FROM '' @ q_table q) # where_part q
      @ (if q_group_all q then [''GROUP ALL''] else if q_group q \<noteq> [] then [''GROUP BY '' @ str_join '', '' (q_group q)] else [])
      @ (if q_order q = [] then [] else [''ORDER BY '' @ str_join '', '' (map (\<lambda>(f, d). f @ '' '' @ d) (q_order q))])
      @ (case q_limit q of Some n \<Rightarrow> [''LIMIT '' @ show_int n] | None \<Rightarrow> [])
      @ (case q_offset q of Some n \<Rightarrow> [''START '' @ show_int n] | None \<Rightarrow> []))"
    using base(1) unfolding buildSelect_def Let_def base(2,3) none append_Nil append_Nil2 map_is_Nil_conv
      or_star_def where_part_def joinConditions_def
    by (cases "q_fields q = []"; cases "q_table q = []") (simp_all split del: if_split)
  then show ?thesis unfolding str_join_spaced spaced_append clause_texts where_text_def by simp
qed

text \<open>What can follow a clause: the text of the later ones.\<close>

definition next_clauses :: "string list \<Rightarrow> string \<Rightarrow> bool" where
  "next_clauses kws r \<longleftrightarrow> r = [] \<or> (\<exists>kw \<in> set kws. has_prefix r kw)"

lemma next_start: "next_clauses ['' START ''] (number_text '' START '' n)"
  by (cases n) (simp_all add: next_clauses_def number_text_def has_prefix_def)

lemma next_limit: "next_clauses kws r \<Longrightarrow> next_clauses ('' LIMIT '' # kws) (number_text '' LIMIT '' n @ r)"
  by (cases n) (auto simp: next_clauses_def number_text_def has_prefix_def)

lemma next_order: "next_clauses kws r \<Longrightarrow> next_clauses ('' ORDER BY '' # kws) (order_text q @ r)"
  by (auto simp: next_clauses_def order_text_def has_prefix_def)

lemma next_group: "next_clauses kws r \<Longrightarrow> next_clauses ('' GROUP ALL'' # '' GROUP BY '' # kws) (group_text q @ r)"
  by (auto simp: next_clauses_def group_text_def has_prefix_def)

lemma next_stops: "next_clauses kws r \<Longrightarrow> list_all (\<lambda>k. has_prefix k '' '') kws \<Longrightarrow> stops r"
  by (auto simp: next_clauses_def stops_def list_all_iff has_prefix_iff)

lemma prefixes_differ: "has_prefix r a \<Longrightarrow> has_prefix r b \<Longrightarrow> has_prefix a b \<or> has_prefix b a"
  by (auto simp: has_prefix_iff append_eq_append_conv2)

lemma next_other:
  "next_clauses kws r \<Longrightarrow> list_all (\<lambda>k. \<not> has_prefix k kw \<and> \<not> has_prefix kw k) kws \<Longrightarrow> kw \<noteq> [] \<Longrightarrow> \<not> has_prefix r kw"
  using prefixes_differ by (fastforce simp: next_clauses_def list_all_iff has_prefix_def)

lemma read_number_clause:
  assumes "next_clauses kws r" "list_all (\<lambda>k. has_prefix k '' '' \<and> \<not> has_prefix k kw \<and> \<not> has_prefix kw k) kws" "kw \<noteq> []"
  shows "read_clause kw read_int (number_text kw n @ r) = Some (n, r)"
proof (cases n)
  case None
  then show ?thesis using next_other [OF assms(1) _ assms(3)] assms(2)
    by (simp add: number_text_def read_clause_absent list_all_iff)
next
  case (Some k)
  have "stops r" using next_stops [OF assms(1)] assms(2) by (simp add: list_all_iff)
  then show ?thesis using Some read_int_show by (simp add: number_text_def read_clause_present)
qed

lemma read_order_clause:
  assumes "next_clauses ['' LIMIT '', '' START ''] r" "list_all (\<lambda>(f, d). plain_word f) (q_order q)"
    and "list_all (\<lambda>(f, d). d = ''ASC'' \<or> d = ''DESC'') (q_order q)"
  shows "\<exists>os. read_clause '' ORDER BY '' read_orderings (order_text q @ r) = Some (os, r) \<and> listed os = q_order q"
proof (cases "q_order q = []")
  case True
  have "\<not> has_prefix r '' ORDER BY ''" by (rule next_other [OF assms(1)]) (simp_all add: has_prefix_def)
  then show ?thesis using True by (simp add: order_text_def read_clause_absent listed_def)
next
  case False
  have "list_all (\<lambda>(f, d). plain_word f \<and> plain_word d) (q_order q)" using assms(2,3)
    by (auto simp: list_all_iff plain_word_def)
  moreover have "stops r" by (rule next_stops [OF assms(1)]) (simp add: has_prefix_def)
  ultimately show ?thesis using False read_orderings_join
    by (simp add: order_text_def read_clause_def after_def has_prefix_def listed_def)
qed

lemma read_group_clauses:
  assumes "next_clauses ['' ORDER BY '', '' LIMIT '', '' START ''] r" "list_all plain_word (q_group q)"
  shows "\<exists>ga gs. read_clause '' GROUP ALL'' (\<lambda>r. Some ([], r)) (group_text q @ r) = Some (ga, (if q_group_all q then r else group_text q @ r))
    \<and> read_clause '' GROUP BY '' read_words (if q_group_all q then r else group_text q @ r) = Some (gs, r)
    \<and> (if ga = None then gs else ga) = (if q_group_all q then Some [] else if q_group q = [] then None else Some (q_group q))"
proof -
  have n: "\<not> has_prefix r '' GROUP ALL''" "\<not> has_prefix r '' GROUP BY ''"
    by (rule next_other [OF assms(1)]; simp add: has_prefix_def)+
  have s: "stops r" by (rule next_stops [OF assms(1)]) (simp add: has_prefix_def)
  consider "q_group_all q" | "\<not> q_group_all q" "q_group q = []" | "\<not> q_group_all q" "q_group q \<noteq> []" by blast
  then show ?thesis
  proof cases
    case 3
    then show ?thesis using read_words_join [OF assms(2) _ s]
      by (simp add: group_text_def read_clause_def after_def has_prefix_def)
  qed (use n in \<open>simp_all add: group_text_def read_clause_absent\<close>, simp add: read_clause_def after_def has_prefix_def)
qed

lemma select_read:
  assumes "query_wf q" "select_readable q" "query_ToSurql q = Inr s"
  shows "read_select s = Some (select_of q)"
proof -
  note c = assms(2) [unfolded select_readable_def]
  let ?S = "number_text '' START '' (q_offset q)"
  let ?L = "number_text '' LIMIT '' (q_limit q) @ ?S"
  let ?O = "order_text q @ ?L"
  let ?G = "group_text q @ ?O"
  note nS = next_start [of "q_offset q"]
  note nL = next_limit [OF nS, of "q_limit q"]
  note nO = next_order [OF nL, of q]
  note nG = next_group [OF nO, of q]
  have start: "read_clause '' START '' read_int ?S = Some (q_offset q, [])"
    using read_number_clause [of "[]" "[]" "'' START ''" "q_offset q"] by (simp add: next_clauses_def)
  have limit: "read_clause '' LIMIT '' read_int ?L = Some (q_limit q, ?S)"
    by (rule read_number_clause [OF nS]) (simp_all add: has_prefix_def)
  have "list_all (\<lambda>(f, d). d = ''ASC'' \<or> d = ''DESC'') (q_order q)" using assms(1) by (simp add: wf_defs)
  then obtain os where order: "read_clause '' ORDER BY '' read_orderings ?O = Some (os, ?L)" "listed os = q_order q"
    using read_order_clause [OF nL] c by blast
  obtain ga gs where group: "read_clause '' GROUP ALL'' (\<lambda>r. Some ([], r)) ?G = Some (ga, (if q_group_all q then ?O else ?G))"
    "read_clause '' GROUP BY '' read_words (if q_group_all q then ?O else ?G) = Some (gs, ?O)"
    "(if ga = None then gs else ga) = (if q_group_all q then Some [] else if q_group q = [] then None else Some (q_group q))"
    using read_group_clauses [OF nO] c by blast
  have closed: "list_all closed_text (q_conditions q)" using c by blast
  have "\<not> has_prefix ?G '' AND (''" "\<not> has_prefix ?G '' WHERE ''" by (rule next_other [OF nG]; simp add: has_prefix_def)+
  then have whr: "read_where (where_text q @ ?G) = Some (q_conditions q, ?G)"
    using read_where_render [OF closed] by (simp add: where_text_def where_part_def)
  have "?G = [] \<or> (\<exists>r. ?G = CHR '' '' # r)" using next_stops [OF nG] by (simp add: stops_def has_prefix_def)
  then have "where_text q @ ?G = [] \<or> (\<exists>r. where_text q @ ?G = CHR '' '' # r)" by (simp add: where_text_def where_part_def)
  then have table: "until (CHR '' '') (q_table q @ where_text q @ ?G) = (q_table q, where_text q @ ?G)"
    by (rule until_tail [rotated]) (use c in blast)
  have words: "read_words (str_join '', '' (or_star (q_fields q)) @ '' FROM '' @ x) = Some (or_star (q_fields q), '' FROM '' @ x)" for x
    by (rule read_words_join) (use c in \<open>auto simp: or_star_def plain_word_def stops_def\<close>)
  show ?thesis
    unfolding select_text [OF assms(3,2)] read_select_def after_append words table whr order limit start group
      option.simps Option.bind.simps prod.case Let_def
    by (simp add: order(2) group(3) select_of_def)
qed

section \<open>Properties\<close>

text \<open>
  The text of a condition reads back as the tree of its connectives over the texts of
  its comparisons, whatever strings the values are: no value closes a parenthesis or a quote early.
\<close>
theorem condition_roundtrip: "op_ok x \<Longrightarrow> op_depth x \<le> d \<Longrightarrow> read_condition d (op_ToSurql x) = Some (op_tree x)"
  by (rule condition_read)

theorem condition_roundtrip_witness:
  "read_condition 3 (op_ToSurql (AndOp (EqOp ''name'' (SString ''x') OR ('a'='a'')) (NotOp (IsNullOp ''age''))))
    = Some (AndT (Leaf (op_ToSurql (EqOp ''name'' (SString ''x') OR ('a'='a'')))) (NotT (Leaf ''age IS NULL'')))"
  using condition_roundtrip [of "AndOp (EqOp ''name'' (SString ''x') OR ('a'='a'')) (NotOp (IsNullOp ''age''))" 3]
  by (simp add: field_path_def plain_char_def)

text \<open>
  C25 (error). Every query built by the steps of the builder is well formed: its targets and the keys of its data
  are safe identifiers, limits and offsets are not negative, orderings are ASC or DESC, search parameters
  are positive. It renders exactly when its operation is set and has what it needs: a table for SELECT, data
  for INSERT, UPDATE and UPSERT.
\<close>
theorem built_query_renders:
  assumes "query_built q"
  shows "query_wf q \<and> ((\<exists>s. query_ToSurql q = Inr s) \<longleftrightarrow> renderable q)"
  using built_wf [OF assms] renders_iff by blast+

definition sample_query :: query where
  "sample_query = NewQuery\<lparr>q_operation := ''UPDATE'', q_table := ''user:1'',
     q_update := [(''name'', SString ''O'Brien''), (''age'', SInt 3)], q_conditions := [''age > 2''], q_return := ''AFTER''\<rparr>"

lemma sample_query_built: "query_built sample_query"
proof -
  have "Update ''user:1'' [(''name'', SString ''O'Brien''), (''age'', SInt 3)] NewQuery
      = Inr (NewQuery\<lparr>q_operation := ''UPDATE'', q_table := ''user:1'', q_update := [(''name'', SString ''O'Brien''), (''age'', SInt 3)]\<rparr>)"
    by code_simp
  then have 1: "query_built (NewQuery\<lparr>q_operation := ''UPDATE'', q_table := ''user:1'',
      q_update := [(''name'', SString ''O'Brien''), (''age'', SInt 3)]\<rparr>)"
    by (intro query_built.step [OF query_built.start] query_step.intros(20)) simp_all
  have "query_built (NewQuery\<lparr>q_operation := ''UPDATE'', q_table := ''user:1'',
      q_update := [(''name'', SString ''O'Brien''), (''age'', SInt 3)], q_conditions := [''age > 2'']\<rparr>)"
    by (rule query_built.step [OF 1 query_step.intros(15) [where c = "CondText ''age > 2''"]]) (simp add: Where_def NewQuery_def)
  then have "query_built (WithReturnFormat ''AFTER'' (NewQuery\<lparr>q_operation := ''UPDATE'', q_table := ''user:1'',
      q_update := [(''name'', SString ''O'Brien''), (''age'', SInt 3)], q_conditions := [''age > 2'']\<rparr>))"
    by (rule query_built.step [OF _ query_step.intros(10)])
  then show ?thesis by (simp add: sample_query_def WithReturnFormat_def)
qed

theorem built_query_renders_witness: "\<exists>s. query_ToSurql sample_query = Inr s"
  using built_query_renders [OF sample_query_built] by (simp add: renderable_def sample_query_def NewQuery_def)


lemma sample_query_text: "query_ToSurql sample_query
    = Inr (''UPDATE user:1 SET age = 3, name = '' @ quoteString ''O'Brien'' @ '' WHERE (age > 2) RETURN AFTER'')"
  by code_simp


text \<open>
  C27 (roundtrip). A rendered SELECT statement over plain columns reads back as the projection, the table, the
  conditions, the grouping, the ordering, the limit and the offset that the builder was given.
\<close>
theorem select_roundtrip:
  assumes "query_built q" "select_readable q" "query_ToSurql q = Inr s"
  shows "read_select s = Some (select_of q)"
  by (rule select_read [OF built_wf [OF assms(1)] assms(2,3)])

definition sample_select :: query where
  "sample_select = NewQuery\<lparr>q_operation := ''SELECT'', q_table := ''user'', q_fields := [''name'', ''age''],
     q_order := [(''age'', ''DESC'')], q_limit := Some 10\<rparr>"

lemma sample_select_built: "query_built sample_select"
proof -
  let ?q1 = "Select [''name'', ''age''] NewQuery"
  have 1: "query_built ?q1" by (intro query_built.step [OF query_built.start] query_step.intros(1))
  have "FromTable ''user'' ?q1 = Inr (?q1\<lparr>q_table := ''user''\<rparr>)" by code_simp
  then have 2: "query_built (?q1\<lparr>q_table := ''user''\<rparr>)" by (rule query_built.step [OF 1 query_step.intros(14)])
  have "OrderBy ''age'' ''desc'' (?q1\<lparr>q_table := ''user''\<rparr>) = Inr (?q1\<lparr>q_table := ''user'', q_order := [(''age'', ''DESC'')]\<rparr>)"
    by code_simp
  then have 3: "query_built (?q1\<lparr>q_table := ''user'', q_order := [(''age'', ''DESC'')]\<rparr>)"
    by (rule query_built.step [OF 2 query_step.intros(16)])
  have "query_built (?q1\<lparr>q_table := ''user'', q_order := [(''age'', ''DESC'')], q_limit := Some 10\<rparr>)"
    by (rule query_built.step [OF 3 query_step.intros(17) [where n = 10]]) (simp add: Limit_def)
  then show ?thesis by (simp add: sample_select_def Select_def or_star_def NewQuery_def)
qed

theorem select_roundtrip_witness:
  "read_select ''SELECT name, age FROM user ORDER BY age DESC LIMIT 10''
    = Some \<lparr>ss_fields = [''name'', ''age''], ss_table = ''user'', ss_conditions = [], ss_group = None,
        ss_order = [(''age'', ''DESC'')], ss_limit = Some 10, ss_start = None\<rparr>"
proof -
  have "select_readable sample_select" by code_simp
  moreover have "query_ToSurql sample_select = Inr ''SELECT name, age FROM user ORDER BY age DESC LIMIT 10''" by code_simp
  moreover have "select_of sample_select = \<lparr>ss_fields = [''name'', ''age''], ss_table = ''user'', ss_conditions = [], ss_group = None,
        ss_order = [(''age'', ''DESC'')], ss_limit = Some 10, ss_start = None\<rparr>" by code_simp
  ultimately show ?thesis using select_roundtrip [OF sample_select_built] by simp
qed

text \<open>
  Merging hints keeps one hint per category, the last one given, in the order in which the
  categories first appear, and a rendered query carries exactly the merged hints on the line before it.
\<close>
theorem merge_hints_last:
  "MergeHints hs = map (last_hint hs) (hint_types hs) \<and> RenderHints hs = str_join '' '' (map (hint_ToSurql \<circ> last_hint hs) (hint_types hs))"
  by (simp_all add: MergeHints_last RenderHints_def)

section \<open>Findings\<close>

text \<open>Only the part of a target before the colon is checked.\<close>

lemma target_id_unchecked:
  "rbind (Delete ''user:1; REMOVE TABLE user'' NewQuery) query_ToSurql = Inr ''DELETE user:1; REMOVE TABLE user''"
  by code_simp

text \<open>\<open>VectorSearchIndexed\<close> clears the members of the exhaustive form, but not the other way round: asked for the
  COSINE metric after an indexed search, the query still renders the indexed form.\<close>

lemma exploration_factor_kept:
  "rbind (FromTable ''doc'' (Select [] NewQuery)) (\<lambda>q. rbind (VectorSearchIndexed ''emb'' [Float64 (Fin 1) ''1'' ''1''] 5 40 q)
      (\<lambda>q. rbind (VectorSearch ''emb'' [Float64 (Fin 1) ''1'' ''1''] 3 ''COSINE'' None q) query_ToSurql))
    = Inr ''SELECT * FROM doc WHERE emb <|3,40|> [1]''"
  by code_simp

end
