(* ===== verification/Query_Results.thy ===== *)
theory Query_Results
  imports Go_Values Go_Regexp
begin

text \<open>
  Package \<open>query\<close>, \<open>results.go\<close>: the wrappers of query results, pagination over \<open>uint64\<close> (arithmetic wraps), and
  the extraction of records from a raw response. A pointer is an option, \<open>Unwrap\<close> of a nil record (a panic)
  is None; \<open>json.Marshal\<close> is an argument.
\<close>

section \<open>Wrappers\<close>

record 'a query_outcome =
  qo_data :: 'a
  qo_time :: string
  qo_status :: string

definition Success :: "'a \<Rightarrow> string \<Rightarrow> 'a query_outcome" where
  "Success data time = \<lparr>qo_data = data, qo_time = time, qo_status = ''OK''\<rparr>"

record 'a record_result =
  rr_record :: "'a option"
  rr_exists :: bool

definition Record :: "'a option \<Rightarrow> bool \<Rightarrow> 'a record_result" where
  "Record r ex = \<lparr>rr_record = r, rr_exists = ex\<rparr>"

definition Unwrap :: "'a record_result \<Rightarrow> 'a option" where
  "Unwrap r = rr_record r"

definition TryUnwrap :: "'a record_result \<Rightarrow> 'a result" where
  "TryUnwrap r = (case rr_record r of None \<Rightarrow> Inl (err_new ErrValidation ''Cannot unwrap nil record'') | Some x \<Rightarrow> Inr x)"

definition UnwrapOr :: "'a record_result \<Rightarrow> 'a \<Rightarrow> 'a" where
  "UnwrapOr r d = (case rr_record r of None \<Rightarrow> d | Some x \<Rightarrow> x)"

type_synonym uint64 = "64 word"

record 'a list_result =
  lr_records :: "'a list"
  lr_total :: "uint64 option"
  lr_limit :: "uint64 option"
  lr_offset :: "uint64 option"
  lr_has_more :: bool

definition Records :: "'a list \<Rightarrow> uint64 option \<Rightarrow> uint64 option \<Rightarrow> uint64 option \<Rightarrow> 'a list_result" where
  "Records items tot limit offset =
     \<lparr>lr_records = items, lr_total = tot, lr_limit = limit, lr_offset = offset,
      lr_has_more =
        (case (tot, limit, offset) of
           (Some t, Some l, Some off) \<Rightarrow> off + l < t
         | (None, Some l, _) \<Rightarrow> of_nat (length items) = l
         | _ \<Rightarrow> False)\<rparr>"

definition list_Len :: "'a list_result \<Rightarrow> nat" where "list_Len r = length (lr_records r)"
definition list_IsEmpty :: "'a list_result \<Rightarrow> bool" where "list_IsEmpty r \<longleftrightarrow> lr_records r = []"
definition list_First :: "'a list_result \<Rightarrow> 'a option" where "list_First r = hd_opt (lr_records r)"

definition list_Last :: "'a list_result \<Rightarrow> 'a option" where
  "list_Last r = (if lr_records r = [] then None else Some (last (lr_records r)))"

record count_result =
  cr_count :: int64

definition NewCountResult :: "int64 \<Rightarrow> count_result" where "NewCountResult n = \<lparr>cr_count = n\<rparr>"

record aggregate_result =
  ar_value :: string
  ar_operation :: string
  ar_field :: string

definition Aggregate :: "(any \<Rightarrow> string result) \<Rightarrow> any \<Rightarrow> string \<Rightarrow> string \<Rightarrow> aggregate_result result" where
  "Aggregate marshal v operation f =
     (case marshal v of
        Inl e \<Rightarrow> Inl (err_wrap ErrSerialization ''aggregate value'' e)
      | Inr raw \<Rightarrow> Inr \<lparr>ar_value = raw, ar_operation = operation, ar_field = f\<rparr>)"

section \<open>Pagination\<close>

record page_info =
  pi_current :: uint64
  pi_size :: uint64
  pi_pages :: uint64
  pi_items :: uint64
  pi_previous :: bool
  pi_next :: bool

record 'a paginated_result =
  pr_items :: "'a list"
  pr_info :: page_info

definition total_pages :: "uint64 \<Rightarrow> uint64 \<Rightarrow> uint64" where
  "total_pages sz tot = (if 0 < sz then (tot + sz - 1) div sz else 0)"

definition Paginated :: "'a list \<Rightarrow> uint64 \<Rightarrow> uint64 \<Rightarrow> uint64 \<Rightarrow> 'a paginated_result" where
  "Paginated items page sz tot =
     \<lparr>pr_items = items,
      pr_info = \<lparr>pi_current = page, pi_size = sz, pi_pages = total_pages sz tot, pi_items = tot,
        pi_previous = 1 < page, pi_next = page < total_pages sz tot\<rparr>\<rparr>"

definition page_Len :: "'a paginated_result \<Rightarrow> nat" where "page_Len p = length (pr_items p)"
definition page_IsEmpty :: "'a paginated_result \<Rightarrow> bool" where "page_IsEmpty p \<longleftrightarrow> pr_items p = []"

section \<open>Extraction\<close>

fun pushValue :: "any \<Rightarrow> go_map list" where
  "pushValue (ListV xs) = List.map_filter as_map xs"
| "pushValue (MapV m) = [m]"
| "pushValue NilV = []"
| "pushValue v = [[(''value'', v)]]"

definition result_rows :: "any \<Rightarrow> go_map list" where
  "result_rows item =
     (case as_map item of
        None \<Rightarrow> []
      | Some m \<Rightarrow> (case map_get m ''result'' of None \<Rightarrow> [] | Some inner \<Rightarrow> pushValue inner))"

definition is_envelope :: "any \<Rightarrow> bool" where
  "is_envelope item \<longleftrightarrow> (case as_map item of None \<Rightarrow> False | Some m \<Rightarrow> map_get m ''result'' \<noteq> None)"

fun ExtractResult :: "any \<Rightarrow> go_map list" where
  "ExtractResult (ListV []) = []"
| "ExtractResult (ListV (x # xs)) =
     (if is_envelope x then concat (map result_rows (x # xs)) else List.map_filter as_map (x # xs))"
| "ExtractResult (MapV m) = result_rows (MapV m)"
| "ExtractResult _ = []"

definition ExtractOne :: "any \<Rightarrow> go_map option" where
  "ExtractOne v = hd_opt (ExtractResult v)"

definition ExtractScalar :: "any \<Rightarrow> string \<Rightarrow> any \<Rightarrow> any" where
  "ExtractScalar v key d =
     (case ExtractOne v of None \<Rightarrow> d | Some m \<Rightarrow> (case map_get m key of Some x \<Rightarrow> x | None \<Rightarrow> d))"

definition HasResults :: "any \<Rightarrow> bool" where
  "HasResults v \<longleftrightarrow> 0 < length (ExtractResult v)"

section \<open>Pages\<close>

lemma le_div_iff_mult: "0 < (b :: int) \<Longrightarrow> p \<le> a div b \<longleftrightarrow> p * b \<le> a"
proof
  assume b: "0 < b"
  show "p * b \<le> a" if "p \<le> a div b"
  proof -
    have "p * b \<le> a div b * b" using b that by (simp add: mult_right_mono)
    also have "\<dots> \<le> a" using b by (simp add: minus_mod_eq_div_mult [symmetric])
    finally show ?thesis .
  qed
  show "p \<le> a div b" if "p * b \<le> a" using zdiv_mono1 [OF that b] b by simp
qed

lemma total_pages_exact:
  assumes "0 < sz" "uint tot + uint sz \<le> 2 ^ 64"
  shows "uint (total_pages sz tot) = (uint tot + uint sz - 1) div uint sz"
proof -
  have s: "1 \<le> uint sz" using assms(1) by (simp add: word_less_def)
  have "uint (tot + sz - 1) = uint tot + uint sz - 1"
  proof -
    have "uint (tot + sz - 1) = (uint tot + uint sz - 1) mod 2 ^ 64"
      by (simp add: uint_word_ariths mod_simps)
    moreover have "0 \<le> uint tot + uint sz - 1" using s uint_ge_0 [of tot] by linarith
    ultimately show ?thesis using assms(2) by (simp add: mod_pos_pos_trivial)
  qed
  then show ?thesis using assms(1) by (simp add: total_pages_def uint_div)
qed

text \<open>An item numbered from 0 is on page \<open>i div sz + 1\<close>; the pages up to \<open>total_pages\<close> hold them all.\<close>

lemma next_page_iff:
  assumes "0 < sz" "uint tot + uint sz \<le> 2 ^ 64"
  shows "pi_next (pr_info (Paginated items page sz tot)) \<longleftrightarrow> uint page * uint sz < uint tot"
proof -
  have s: "0 < uint sz" using assms(1) by (simp add: word_less_def)
  have "uint page < (uint tot + uint sz - 1) div uint sz
      \<longleftrightarrow> uint page + 1 \<le> (uint tot + uint sz - 1) div uint sz" by linarith
  also have "\<dots> \<longleftrightarrow> (uint page + 1) * uint sz \<le> uint tot + uint sz - 1"
    by (rule le_div_iff_mult [OF s])
  also have "\<dots> \<longleftrightarrow> uint page * uint sz < uint tot" by (simp add: distrib_right)
  finally show ?thesis using total_pages_exact [OF assms] by (simp add: Paginated_def word_less_def)
qed

end
