(* ===== verification/Query_Crud.thy ===== *)
theory Query_Crud
  imports Query_Builder Query_Results Database_Client
begin

text \<open>
  Package \<open>query\<close>: execution (\<open>executor.go\<close>), the CRUD helpers (\<open>crud.go\<close>) and their typed forms (\<open>typed.go\<close>)
  over the client of \<open>Database_Client\<close>. A nil client is None, a nil map is None, a record that does not exist is
  None. The data of a call are rendered as SurrealQL (\<open>data_map\<close>) or handed to the SDK; \<open>wire\<close> is the value the SDK
  receives. \<open>encoding/json\<close> is the record \<open>json\<close> of
  functions.
\<close>

section \<open>Sequencing\<close>

definition and_then :: "('w \<Rightarrow> 'a result \<times> 'w) \<Rightarrow> ('a \<Rightarrow> 'w \<Rightarrow> 'b result \<times> 'w) \<Rightarrow> 'w \<Rightarrow> 'b result \<times> 'w" where
  "and_then m f w = (case m w of (Inl e, w') \<Rightarrow> (Inl e, w') | (Inr x, w') \<Rightarrow> f x w')"

definition pure :: "'a result \<Rightarrow> 'w \<Rightarrow> 'a result \<times> 'w" where
  "pure r w = (r, w)"

definition check :: "go_error option \<Rightarrow> 'w \<Rightarrow> unit result \<times> 'w" where
  "check e w = ((case e of Some e \<Rightarrow> Inl e | None \<Rightarrow> Inr ()), w)"

lemma and_then_simps [simp]:
  "and_then (pure (Inl e)) f w = (Inl e, w)" "and_then (pure (Inr x)) f w = f x w"
  "and_then (check None) g w = g () w" "and_then (check (Some e)) g w = (Inl e, w)"
  by (simp_all add: and_then_def pure_def check_def)

definition no_client :: go_error where
  "no_client = err_new ErrValidation ''client cannot be nil''"

definition with_client :: "client option \<Rightarrow> (client \<Rightarrow> 'w \<Rightarrow> 'a result \<times> 'w) \<Rightarrow> 'w \<Rightarrow> 'a result \<times> 'w" where
  "with_client co f w = (case co of None \<Rightarrow> (Inl no_client, w) | Some c \<Rightarrow> f c w)"

lemma with_client_simps [simp]: "with_client None f w = (Inl no_client, w)" "with_client (Some c) f w = f c w"
  by (simp_all add: with_client_def)

section \<open>Execution\<close>

definition ExecuteQuery :: "('w, 'tx) sdk \<Rightarrow> client option \<Rightarrow> query \<Rightarrow> 'w \<Rightarrow> any result \<times> 'w" where
  "ExecuteQuery sdk co q = with_client co (\<lambda>c. and_then (pure (query_ToSurql q)) (Query sdk c))"

definition ExecuteRaw :: "('w, 'tx) sdk \<Rightarrow> client option \<Rightarrow> string \<Rightarrow> go_map \<Rightarrow> 'w \<Rightarrow> any result \<times> 'w" where
  "ExecuteRaw sdk co surql vars = with_client co (\<lambda>c w.
     if surql = [] then (Inl (err_new ErrValidation ''surql cannot be empty''), w) else QueryWithVars sdk c surql vars w)"

record 'a json =
  js_marshal :: "go_map option \<Rightarrow> string result"
  js_unmarshal :: "string \<Rightarrow> 'a result"
  js_encode :: "'a \<Rightarrow> string result"
  js_decode_map :: "string \<Rightarrow> data_map result"
  js_as_map :: "'a \<Rightarrow> data_map option option"

definition decodeRecord :: "'a json \<Rightarrow> go_map option \<Rightarrow> 'a result" where
  "decodeRecord js r =
     (case js_marshal js r of
        Inl e \<Rightarrow> Inl (err_wrap ErrSerialization ''encode record'' e)
      | Inr buf \<Rightarrow>
          (case js_unmarshal js buf of
             Inl e \<Rightarrow> Inl (err_wrap ErrSerialization ''decode record'' e)
           | Inr x \<Rightarrow> Inr x))"

fun decodeRecords :: "'a json \<Rightarrow> go_map list \<Rightarrow> 'a list result" where
  "decodeRecords js [] = Inr []"
| "decodeRecords js (r # rs) = rbind (decodeRecord js (Some r)) (\<lambda>x. rbind (decodeRecords js rs) (\<lambda>xs. Inr (x # xs)))"

definition FetchOne :: "('w, 'tx) sdk \<Rightarrow> 'a json \<Rightarrow> client option \<Rightarrow> query \<Rightarrow> 'w \<Rightarrow> 'a option result \<times> 'w" where
  "FetchOne sdk js co q = and_then (ExecuteQuery sdk co q) (\<lambda>raw.
     pure (case ExtractOne raw of None \<Rightarrow> Inr None | Some r \<Rightarrow> rbind (decodeRecord js (Some r)) (\<lambda>x. Inr (Some x))))"

definition FetchAll :: "('w, 'tx) sdk \<Rightarrow> 'a json \<Rightarrow> client option \<Rightarrow> query \<Rightarrow> 'w \<Rightarrow> 'a list result \<times> 'w" where
  "FetchAll sdk js co q = and_then (ExecuteQuery sdk co q) (\<lambda>raw. pure (decodeRecords js (ExtractResult raw)))"

definition as_uint64 :: "int option \<Rightarrow> uint64 option" where
  "as_uint64 n = map_option word_of_int n"

definition FetchMany :: "('w, 'tx) sdk \<Rightarrow> 'a json \<Rightarrow> client option \<Rightarrow> query \<Rightarrow> 'w \<Rightarrow> 'a list_result result \<times> 'w" where
  "FetchMany sdk js co q = and_then (FetchAll sdk js co q) (\<lambda>items.
     pure (Inr (Records items None (as_uint64 (q_limit q)) (as_uint64 (q_offset q)))))"

definition FetchRecord :: "('w, 'tx) sdk \<Rightarrow> 'a json \<Rightarrow> client option \<Rightarrow> query \<Rightarrow> 'w \<Rightarrow> 'a record_result result \<times> 'w" where
  "FetchRecord sdk js co q = and_then (FetchOne sdk js co q) (\<lambda>r. pure (Inr (Record r (r \<noteq> None))))"

definition FetchRecords :: "('w, 'tx) sdk \<Rightarrow> 'a json \<Rightarrow> client option \<Rightarrow> query \<Rightarrow> 'w \<Rightarrow> 'a list_result result \<times> 'w" where
  "FetchRecords = FetchMany"

definition ExecuteRawTyped ::
  "('w, 'tx) sdk \<Rightarrow> 'a json \<Rightarrow> client option \<Rightarrow> string \<Rightarrow> go_map \<Rightarrow> 'w \<Rightarrow> 'a list result \<times> 'w" where
  "ExecuteRawTyped sdk js co surql vars = and_then (ExecuteRaw sdk co surql vars) (\<lambda>raw. pure (decodeRecords js (ExtractResult raw)))"

section \<open>Responses\<close>

lemma size_map_of [termination_simp]: "map_of m k = Some v \<Longrightarrow> size v < Suc (size_list (\<lambda>x. Suc (size (snd x))) m)"
  by (induction m) (auto split: if_splits)

fun normaliseSingle :: "any \<Rightarrow> go_map option" where
  "normaliseSingle NilV = None"
| "normaliseSingle (MapV m) =
     (case map_of m ''result'' of
        Some inner \<Rightarrow> (case normaliseSingle inner of Some nested \<Rightarrow> Some nested | None \<Rightarrow> Some m)
      | None \<Rightarrow> Some m)"
| "normaliseSingle (ListV []) = None"
| "normaliseSingle (ListV (x # xs)) = normaliseSingle x"
| "normaliseSingle _ = None"

text \<open>The SDK decodes numbers to the kinds of \<open>any\<close>; the other integer widths and \<open>json.Number\<close> do not occur.\<close>

fun toInt64 :: "any \<Rightarrow> int64" where
  "toInt64 (IntV n) = n"
| "toInt64 (Int32V n) = scast n"
| "toInt64 (Int64V n) = n"
| "toInt64 (UintV n) = n"
| "toInt64 (Uint32V n) = ucast n"
| "toInt64 (Uint64V n) = n"
| "toInt64 (Float32V f) = float_to_int64 f"
| "toInt64 (Float64V f) = float_to_int64 f"
| "toInt64 _ = 0"

definition tableMissingNeedles :: "string list" where
  "tableMissingNeedles = [''does not exist'', ''table not found'']"

definition isTableMissingError :: "go_error \<Rightarrow> bool" where
  "isTableMissingError e \<longleftrightarrow> list_ex (str_contains (to_lower (err_text e))) tableMissingNeedles"

text \<open>A missing table counts as the empty answer \<open>d\<close>.\<close>

definition missing_as :: "'a \<Rightarrow> ('w \<Rightarrow> 'a result \<times> 'w) \<Rightarrow> 'w \<Rightarrow> 'a result \<times> 'w" where
  "missing_as d m w =
     (case m w of
        (Inl e, w') \<Rightarrow> (if isTableMissingError e then Inr d else Inl e, w')
      | r \<Rightarrow> r)"

definition one_or_normal :: "any \<Rightarrow> go_map option" where
  "one_or_normal raw = (case ExtractOne raw of Some m \<Rightarrow> Some m | None \<Rightarrow> normaliseSingle raw)"

section \<open>Single records\<close>

definition need_data :: "data_map option \<Rightarrow> data_map result" where
  "need_data data = (case data of None \<Rightarrow> Inl (err_new ErrValidation ''data cannot be nil'') | Some d \<Rightarrow> Inr d)"

definition ident_check :: "string \<Rightarrow> string \<Rightarrow> 'w \<Rightarrow> unit result \<times> 'w" where
  "ident_check name context = check (validateSqlIdentifier name context)"

definition CreateRecord ::
  "('w, 'tx) sdk \<Rightarrow> (data_map \<Rightarrow> any) \<Rightarrow> client option \<Rightarrow> string \<Rightarrow> data_map option \<Rightarrow> 'w \<Rightarrow> go_map option result \<times> 'w" where
  "CreateRecord sdk wire co table data = with_client co (\<lambda>c.
     and_then (ident_check table ''table name'') (\<lambda>_.
     and_then (pure (need_data data)) (\<lambda>d.
     and_then (client_rpc sdk c (RpcCreate (wire d)) table) (\<lambda>res. pure (Inr (normaliseSingle res))))))"

fun create_rows ::
  "('w, 'tx) sdk \<Rightarrow> (data_map \<Rightarrow> any) \<Rightarrow> client \<Rightarrow> string \<Rightarrow> nat \<Rightarrow> data_map option list \<Rightarrow> 'w \<Rightarrow> go_map option list result \<times> 'w" where
  "create_rows sdk wire c table i [] = pure (Inr [])"
| "create_rows sdk wire c table i (row # rows) =
     (case row of
        None \<Rightarrow> pure (Inl (err_new ErrValidation (''rows['' @ show_nat i @ ''] cannot be nil'')))
      | Some d \<Rightarrow>
          and_then (client_rpc sdk c (RpcCreate (wire d)) table) (\<lambda>res.
          and_then (create_rows sdk wire c table (Suc i) rows) (\<lambda>out. pure (Inr (normaliseSingle res # out)))))"

definition CreateRecords ::
  "('w, 'tx) sdk \<Rightarrow> (data_map \<Rightarrow> any) \<Rightarrow> client option \<Rightarrow> string \<Rightarrow> data_map option list \<Rightarrow> 'w \<Rightarrow> go_map option list result \<times> 'w" where
  "CreateRecords sdk wire co table rows = with_client co (\<lambda>c.
     and_then (ident_check table ''table name'') (\<lambda>_. create_rows sdk wire c table 0 rows))"

text \<open>An id is a string, a record id, a Stringer by its text, nil or a value of another type by its name.\<close>

definition bare_target :: "string \<Rightarrow> string \<Rightarrow> string result" where
  "bare_target table s =
     (if s = [] then Inl (err_new ErrValidation ''record id cannot be empty'')
      else (case validateSqlIdentifier table ''table name'' of Some e \<Rightarrow> Inl e | None \<Rightarrow> Inr (table @ '':'' @ s)))"

definition buildRecordTarget :: "string \<Rightarrow> endpoint \<Rightarrow> string result" where
  "buildRecordTarget table rid =
     (case rid of
        EndNil \<Rightarrow> Inl (err_new ErrValidation ''record id cannot be nil'')
      | EndRecord r \<Rightarrow> Inr (record_id_string r)
      | EndString s \<Rightarrow> bare_target table s
      | EndStringer s \<Rightarrow> bare_target table s
      | EndOther ty \<Rightarrow> Inl (err_new ErrValidation (''record id must be string or types.RecordID, got '' @ ty)))"

definition select_one :: "('w, 'tx) sdk \<Rightarrow> client \<Rightarrow> string \<Rightarrow> 'w \<Rightarrow> go_map option result \<times> 'w" where
  "select_one sdk c target = missing_as None
     (and_then (Query sdk c (''SELECT * FROM '' @ target @ '';'')) (\<lambda>res. pure (Inr (hd_opt (ExtractResult res)))))"

definition GetRecord :: "('w, 'tx) sdk \<Rightarrow> client option \<Rightarrow> string \<Rightarrow> endpoint \<Rightarrow> 'w \<Rightarrow> go_map option result \<times> 'w" where
  "GetRecord sdk co table rid = with_client co (\<lambda>c. and_then (pure (buildRecordTarget table rid)) (select_one sdk c))"

definition replace_record ::
  "('w, 'tx) sdk \<Rightarrow> (any \<Rightarrow> rpc) \<Rightarrow> (data_map \<Rightarrow> any) \<Rightarrow> client option \<Rightarrow> string \<Rightarrow> endpoint \<Rightarrow> data_map option \<Rightarrow> 'w
   \<Rightarrow> go_map option result \<times> 'w" where
  "replace_record sdk call wire co table rid data = with_client co (\<lambda>c.
     and_then (pure (buildRecordTarget table rid)) (\<lambda>target.
     and_then (pure (need_data data)) (\<lambda>d.
     and_then (client_rpc sdk c (call (wire d)) target) (\<lambda>res. pure (Inr (normaliseSingle res))))))"

definition UpdateRecord ::
  "('w, 'tx) sdk \<Rightarrow> (data_map \<Rightarrow> any) \<Rightarrow> client option \<Rightarrow> string \<Rightarrow> endpoint \<Rightarrow> data_map option \<Rightarrow> 'w \<Rightarrow> go_map option result \<times> 'w" where
  "UpdateRecord sdk = replace_record sdk RpcUpdate"

definition MergeRecord ::
  "('w, 'tx) sdk \<Rightarrow> (data_map \<Rightarrow> any) \<Rightarrow> client option \<Rightarrow> string \<Rightarrow> endpoint \<Rightarrow> data_map option \<Rightarrow> 'w \<Rightarrow> go_map option result \<times> 'w" where
  "MergeRecord sdk = replace_record sdk RpcMerge"

definition UpsertRecord ::
  "('w, 'tx) sdk \<Rightarrow> client option \<Rightarrow> string \<Rightarrow> endpoint \<Rightarrow> data_map option \<Rightarrow> 'w \<Rightarrow> go_map option result \<times> 'w" where
  "UpsertRecord sdk co table rid data = with_client co (\<lambda>c.
     and_then (pure (buildRecordTarget table rid)) (\<lambda>target.
     and_then (pure (need_data data)) (\<lambda>d.
     and_then (pure (Upsert target d NewQuery)) (\<lambda>q.
     and_then (ExecuteQuery sdk (Some c) q) (\<lambda>raw. pure (Inr (one_or_normal raw)))))))"

definition delete_target :: "('w, 'tx) sdk \<Rightarrow> client \<Rightarrow> string \<Rightarrow> 'w \<Rightarrow> unit result \<times> 'w" where
  "delete_target sdk c target = missing_as ()
     (and_then (Query sdk c (''DELETE '' @ target @ '';'')) (\<lambda>_. pure (Inr ())))"

definition DeleteRecord :: "('w, 'tx) sdk \<Rightarrow> client option \<Rightarrow> string \<Rightarrow> endpoint \<Rightarrow> 'w \<Rightarrow> unit result \<times> 'w" where
  "DeleteRecord sdk co table rid = with_client co (\<lambda>c. and_then (pure (buildRecordTarget table rid)) (delete_target sdk c))"

definition Exists :: "('w, 'tx) sdk \<Rightarrow> client option \<Rightarrow> string \<Rightarrow> endpoint \<Rightarrow> 'w \<Rightarrow> bool result \<times> 'w" where
  "Exists sdk co table rid = missing_as False
     (and_then (GetRecord sdk co table rid) (\<lambda>r. pure (Inr (r \<noteq> None))))"

section \<open>Composed targets\<close>

definition target_expr :: "surreal_fn \<Rightarrow> string result" where
  "target_expr f = (if sf_expression f = [] then Inl (err_new ErrValidation ''target cannot be empty'') else Inr (sf_expression f))"

definition GetByTarget :: "('w, 'tx) sdk \<Rightarrow> client option \<Rightarrow> surreal_fn \<Rightarrow> 'w \<Rightarrow> go_map option result \<times> 'w" where
  "GetByTarget sdk co f = with_client co (\<lambda>c. and_then (pure (target_expr f)) (select_one sdk c))"

definition write_target ::
  "string \<Rightarrow> string \<Rightarrow> ('w, 'tx) sdk \<Rightarrow> client option \<Rightarrow> surreal_fn \<Rightarrow> data_map option \<Rightarrow> 'w \<Rightarrow> go_map option result \<times> 'w" where
  "write_target verb clause sdk co f data = with_client co (\<lambda>c.
     and_then (pure (target_expr f)) (\<lambda>expr.
     and_then (pure (need_data data)) (\<lambda>d.
     and_then (check (validateDataKeys d)) (\<lambda>_.
     and_then (Query sdk c (verb @ expr @ clause @ renderDataObject d @ '';'')) (\<lambda>raw. pure (Inr (one_or_normal raw)))))))"

definition UpdateByTarget ::
  "('w, 'tx) sdk \<Rightarrow> client option \<Rightarrow> surreal_fn \<Rightarrow> data_map option \<Rightarrow> 'w \<Rightarrow> go_map option result \<times> 'w" where
  "UpdateByTarget = write_target ''UPDATE '' '' CONTENT ''"

definition MergeByTarget ::
  "('w, 'tx) sdk \<Rightarrow> client option \<Rightarrow> surreal_fn \<Rightarrow> data_map option \<Rightarrow> 'w \<Rightarrow> go_map option result \<times> 'w" where
  "MergeByTarget = write_target ''UPDATE '' '' MERGE ''"

definition UpsertByTarget ::
  "('w, 'tx) sdk \<Rightarrow> client option \<Rightarrow> surreal_fn \<Rightarrow> data_map option \<Rightarrow> 'w \<Rightarrow> go_map option result \<times> 'w" where
  "UpsertByTarget = write_target ''UPSERT '' '' CONTENT ''"

definition DeleteByTarget :: "('w, 'tx) sdk \<Rightarrow> client option \<Rightarrow> surreal_fn \<Rightarrow> 'w \<Rightarrow> unit result \<times> 'w" where
  "DeleteByTarget sdk co f = with_client co (\<lambda>c. and_then (pure (target_expr f)) (delete_target sdk c))"

definition ExistsByTarget :: "('w, 'tx) sdk \<Rightarrow> client option \<Rightarrow> surreal_fn \<Rightarrow> 'w \<Rightarrow> bool result \<times> 'w" where
  "ExistsByTarget sdk co f = and_then (GetByTarget sdk co f) (\<lambda>r. pure (Inr (r \<noteq> None)))"

section \<open>Sets of records\<close>

definition where_unless_nil :: "condition \<Rightarrow> query \<Rightarrow> query result" where
  "where_unless_nil cond q = (if cond = CondNil then Inr q else Where cond q)"

definition DeleteRecords :: "('w, 'tx) sdk \<Rightarrow> client option \<Rightarrow> string \<Rightarrow> condition \<Rightarrow> 'w \<Rightarrow> unit result \<times> 'w" where
  "DeleteRecords sdk co table cond = with_client co (\<lambda>c.
     and_then (pure (rbind (Delete table NewQuery) (where_unless_nil cond))) (\<lambda>q.
     and_then (ExecuteQuery sdk (Some c) q) (\<lambda>_. pure (Inr ()))))"

record query_options =
  qo_conditions :: "condition list"
  qo_order :: "(string \<times> string) option"
  qo_limit :: "int option"
  qo_offset :: "int option"

fun where_all :: "condition list \<Rightarrow> query \<Rightarrow> query result" where
  "where_all [] q = Inr q"
| "where_all (c # cs) q = rbind (Where c q) (where_all cs)"

definition if_given :: "'a option \<Rightarrow> ('a \<Rightarrow> query \<Rightarrow> query result) \<Rightarrow> query \<Rightarrow> query result" where
  "if_given x f q = (case x of None \<Rightarrow> Inr q | Some x \<Rightarrow> f x q)"

definition buildSelectFromOptions :: "string \<Rightarrow> query_options \<Rightarrow> query result" where
  "buildSelectFromOptions table opts =
     rbind (FromTable table (Select [] NewQuery)) (\<lambda>q.
     rbind (where_all (qo_conditions opts) q) (\<lambda>q.
     rbind (if_given (qo_order opts) (\<lambda>(f, d). OrderBy f d) q) (\<lambda>q.
     rbind (if_given (qo_limit opts) Limit q) (if_given (qo_offset opts) Offset))))"

definition QueryRecords :: "('w, 'tx) sdk \<Rightarrow> client option \<Rightarrow> string \<Rightarrow> query_options \<Rightarrow> 'w \<Rightarrow> go_map list result \<times> 'w" where
  "QueryRecords sdk co table opts =
     and_then (pure (buildSelectFromOptions table opts)) (\<lambda>q.
     and_then (ExecuteQuery sdk co q) (\<lambda>raw. pure (Inr (ExtractResult raw))))"

definition QueryRecordsWrapped ::
  "('w, 'tx) sdk \<Rightarrow> client option \<Rightarrow> string \<Rightarrow> query_options \<Rightarrow> 'w \<Rightarrow> go_map list_result result \<times> 'w" where
  "QueryRecordsWrapped sdk co table opts =
     and_then (QueryRecords sdk co table opts) (\<lambda>rows.
     pure (Inr (Records rows None (as_uint64 (qo_limit opts)) (as_uint64 (qo_offset opts)))))"

definition count_of :: "any \<Rightarrow> int64" where
  "count_of raw =
     (case ExtractOne raw of
        None \<Rightarrow> 0
      | Some m \<Rightarrow> (case map_get m ''count'' of Some v \<Rightarrow> toInt64 v | None \<Rightarrow> 0))"

definition CountRecords :: "('w, 'tx) sdk \<Rightarrow> client option \<Rightarrow> string \<Rightarrow> condition \<Rightarrow> 'w \<Rightarrow> int64 result \<times> 'w" where
  "CountRecords sdk co table cond = with_client co (\<lambda>c.
     and_then (pure (rbind (FromTable table (Select [''count()''] NewQuery)) (where_unless_nil cond))) (\<lambda>q.
     missing_as 0 (and_then (ExecuteQuery sdk (Some c) (GroupAll q)) (\<lambda>raw. pure (Inr (count_of raw))))))"

definition FirstRecord :: "('w, 'tx) sdk \<Rightarrow> client option \<Rightarrow> string \<Rightarrow> query_options \<Rightarrow> 'w \<Rightarrow> go_map option result \<times> 'w" where
  "FirstRecord sdk co table opts =
     and_then (QueryRecords sdk co table (opts\<lparr>qo_limit := Some 1\<rparr>)) (\<lambda>rows. pure (Inr (hd_opt rows)))"

definition flip_order :: "string \<times> string \<Rightarrow> string \<times> string" where
  "flip_order o1 = (fst o1, if snd o1 = ''ASC'' then ''DESC'' else ''ASC'')"

definition LastRecord :: "('w, 'tx) sdk \<Rightarrow> client option \<Rightarrow> string \<Rightarrow> query_options \<Rightarrow> 'w \<Rightarrow> go_map option result \<times> 'w" where
  "LastRecord sdk co table opts = FirstRecord sdk co table (opts\<lparr>qo_order := map_option flip_order (qo_order opts)\<rparr>)"

record aggregate_opts =
  ao_table :: string
  ao_select :: "(string \<times> operator) list"
  ao_group_by :: "string list"
  ao_group_all :: bool
  ao_where :: "condition list"
  ao_order :: "(string \<times> string) option"
  ao_limit :: "int option"
  ao_offset :: "int option"

definition grouped_projection :: "aggregate_opts \<Rightarrow> query" where
  "grouped_projection opts =
     (let q = SelectAliased (ao_select opts) NewQuery in
      if \<not> ao_group_all opts \<and> ao_group_by opts \<noteq> [] then q\<lparr>q_fields := ao_group_by opts @ q_fields q\<rparr> else q)"

definition aggregate_query :: "aggregate_opts \<Rightarrow> query \<Rightarrow> query result" where
  "aggregate_query opts q =
     rbind (where_all (ao_where opts) q) (\<lambda>q.
     rbind (Inr (if ao_group_all opts then GroupAll q else if ao_group_by opts \<noteq> [] then GroupBy (ao_group_by opts) q else q)) (\<lambda>q.
     rbind (if_given (ao_order opts) (\<lambda>(f, d). OrderBy f d) q) (\<lambda>q.
     rbind (if_given (ao_limit opts) Limit q) (if_given (ao_offset opts) Offset))))"

definition AggregateRecords :: "('w, 'tx) sdk \<Rightarrow> client option \<Rightarrow> aggregate_opts \<Rightarrow> 'w \<Rightarrow> go_map list result \<times> 'w" where
  "AggregateRecords sdk co opts =
     (if ao_table opts = [] then pure (Inl (err_new ErrValidation ''AggregateOpts.Table cannot be empty''))
      else if ao_select opts = [] then
        pure (Inl (err_new ErrValidation ''AggregateOpts.Select must contain at least one aggregation expression''))
      else
        and_then (pure (FromTable (ao_table opts) (grouped_projection opts))) (\<lambda>q.
        with_client co (\<lambda>c.
        and_then (pure (aggregate_query opts q)) (\<lambda>q.
        missing_as [] (and_then (ExecuteQuery sdk (Some c) q) (\<lambda>raw. pure (Inr (ExtractResult raw))))))))"

section \<open>Typed forms\<close>

text \<open>A value that is itself a \<open>map[string]any\<close> is taken as it is (\<open>js_as_map\<close>).\<close>

definition toJSONMap :: "'a json \<Rightarrow> 'a \<Rightarrow> data_map result" where
  "toJSONMap js v =
     (case js_as_map js v of
        Some m \<Rightarrow> need_data m
      | None \<Rightarrow>
          (case js_encode js v of
             Inl e \<Rightarrow> Inl (err_wrap ErrSerialization ''encode payload'' e)
           | Inr buf \<Rightarrow>
               if buf = [] \<or> buf = ''null'' then need_data None
               else
                 (case js_decode_map js buf of
                    Inl e \<Rightarrow> Inl (err_wrap ErrSerialization ''decode payload to map'' e)
                  | Inr m \<Rightarrow> Inr m)))"

definition CreateTyped ::
  "('w, 'tx) sdk \<Rightarrow> 'a json \<Rightarrow> (data_map \<Rightarrow> any) \<Rightarrow> client option \<Rightarrow> string \<Rightarrow> 'a \<Rightarrow> 'w \<Rightarrow> 'a result \<times> 'w" where
  "CreateTyped sdk js wire co table v =
     and_then (pure (toJSONMap js v)) (\<lambda>d.
     and_then (CreateRecord sdk wire co table (Some d)) (\<lambda>r. pure (decodeRecord js r)))"

definition GetTyped ::
  "('w, 'tx) sdk \<Rightarrow> 'a json \<Rightarrow> client option \<Rightarrow> string \<Rightarrow> endpoint \<Rightarrow> 'w \<Rightarrow> 'a option result \<times> 'w" where
  "GetTyped sdk js co table rid =
     and_then (GetRecord sdk co table rid) (\<lambda>r.
     pure (case r of None \<Rightarrow> Inr None | Some m \<Rightarrow> rbind (decodeRecord js (Some m)) (\<lambda>x. Inr (Some x))))"

definition UpdateTyped ::
  "('w, 'tx) sdk \<Rightarrow> 'a json \<Rightarrow> (data_map \<Rightarrow> any) \<Rightarrow> client option \<Rightarrow> string \<Rightarrow> endpoint \<Rightarrow> 'a \<Rightarrow> 'w \<Rightarrow> 'a result \<times> 'w" where
  "UpdateTyped sdk js wire co table rid v =
     and_then (pure (toJSONMap js v)) (\<lambda>d.
     and_then (UpdateRecord sdk wire co table rid (Some d)) (\<lambda>r. pure (decodeRecord js r)))"

definition UpsertTyped ::
  "('w, 'tx) sdk \<Rightarrow> 'a json \<Rightarrow> client option \<Rightarrow> string \<Rightarrow> endpoint \<Rightarrow> 'a \<Rightarrow> 'w \<Rightarrow> 'a result \<times> 'w" where
  "UpsertTyped sdk js co table rid v =
     and_then (pure (toJSONMap js v)) (\<lambda>d.
     and_then (UpsertRecord sdk co table rid (Some d)) (\<lambda>r. pure (decodeRecord js r)))"

end
