(* ===== verification/Query_Batch.thy ===== *)
theory Query_Batch
  imports Query_Crud
begin

text \<open>
  Package \<open>query\<close>: batches (\<open>batch.go\<close>), graph helpers (\<open>graph.go\<close>) and the graph query builder (\<open>graph_query.go\<close>).
  \<open>json_of\<close> is \<open>json.Marshal\<close> on the maps and slices that \<open>renderLiteral\<close> encodes. The receiver that \<open>GraphQuery\<close>
  mutates is returned updated; a range loop over a map is a list of its entries.
\<close>

section \<open>Literals of a batch\<close>

definition renderLiteral :: "(sql_any \<Rightarrow> string result) \<Rightarrow> sql_any \<Rightarrow> string result" where
  "renderLiteral json_of v =
     (let encoded = (case json_of v of Inl e \<Rightarrow> Inl (err_wrap ErrSerialization ''encode literal'' e) | Inr buf \<Rightarrow> Inr buf) in
      case v of
        SMap m s \<Rightarrow> encoded
      | SList xs \<Rightarrow> encoded
      | SMaps ms s \<Rightarrow> encoded
      | SRecord r \<Rightarrow> Inr (record_id_string r)
      | _ \<Rightarrow> Inr (quoteValueExpr v))"

text \<open>The entries in the order of their keys, each with the separator of its clause.\<close>

fun format_entries :: "(sql_any \<Rightarrow> string result) \<Rightarrow> string \<Rightarrow> data_map \<Rightarrow> string list \<Rightarrow> string list result" where
  "format_entries json_of sep m [] = Inr []"
| "format_entries json_of sep m (k # ks) =
     (case validateSqlIdentifier k ''field name'' of
        Some e \<Rightarrow> Inl e
      | None \<Rightarrow>
          rbind (renderLiteral json_of (entry_of m k)) (\<lambda>t.
          rbind (format_entries json_of sep m ks) (\<lambda>ts. Inr ((k @ sep @ t) # ts))))"

definition formatItem :: "(sql_any \<Rightarrow> string result) \<Rightarrow> data_map option \<Rightarrow> string result" where
  "formatItem json_of item =
     (case item of
        None \<Rightarrow> Inl (err_new ErrValidation ''item cannot be nil'')
      | Some m \<Rightarrow> rbind (format_entries json_of '': '' m (sortedKeys m)) (\<lambda>parts. Inr (''{ '' @ str_join '', '' parts @ '' }'')))"

fun format_items :: "(sql_any \<Rightarrow> string result) \<Rightarrow> nat \<Rightarrow> data_map option list \<Rightarrow> string list result" where
  "format_items json_of i [] = Inr []"
| "format_items json_of i (item # items) =
     (case formatItem json_of item of
        Inl e \<Rightarrow> Inl (err_wrap ErrValidation (''items['' @ show_nat i @ '']'') e)
      | Inr s \<Rightarrow> rbind (format_items json_of (Suc i) items) (\<lambda>ss. Inr (s # ss)))"

definition items_sep :: string where
  "items_sep = CHR '','' # CHR 0x0A # ''  ''"

definition formatItemsArray :: "(sql_any \<Rightarrow> string result) \<Rightarrow> data_map option list \<Rightarrow> string result" where
  "formatItemsArray json_of items =
     rbind (format_items json_of 0 items) (\<lambda>ss.
       Inr (CHR ''['' # CHR 0x0A # ''  '' @ str_join items_sep ss @ CHR 0x0A # '']''))"

definition formatSetClauses :: "(sql_any \<Rightarrow> string result) \<Rightarrow> data_map \<Rightarrow> string list result" where
  "formatSetClauses json_of m = format_entries json_of '' = '' m (sortedKeys m)"

section \<open>Statements of a batch\<close>

definition item_entries :: "data_map option \<Rightarrow> data_map" where
  "item_entries item = (case item of Some m \<Rightarrow> m | None \<Rightarrow> [])"

definition collectAssignFields :: "data_map option list \<Rightarrow> string list" where
  "collectAssignFields items =
     sort (remdups (filter (\<lambda>k. k \<noteq> ''id'') (concat (map (\<lambda>item. map fst (item_entries item)) items))))"

fun valid_names :: "string \<Rightarrow> string list \<Rightarrow> go_error option" where
  "valid_names context [] = None"
| "valid_names context (f # fs) = (case validateSqlIdentifier f context of Some e \<Rightarrow> Some e | None \<Rightarrow> valid_names context fs)"

definition BuildUpsertQuery ::
  "(sql_any \<Rightarrow> string result) \<Rightarrow> string \<Rightarrow> data_map option list \<Rightarrow> string list \<Rightarrow> string result" where
  "BuildUpsertQuery json_of table items conflict_fields =
     (if items = [] then Inr []
      else case validateSqlIdentifier table ''table name'' of
        Some e \<Rightarrow> Inl e
      | None \<Rightarrow>
          (case valid_names ''conflict field name'' conflict_fields of
             Some e \<Rightarrow> Inl e
           | None \<Rightarrow>
               rbind (formatItemsArray json_of items) (\<lambda>arr.
                 let assign = (if conflict_fields = [] then collectAssignFields items else conflict_fields) in
                 if assign = [] then Inr (''INSERT INTO '' @ table @ '' '' @ arr @ '';'')
                 else case valid_names ''assign field name'' assign of
                   Some e \<Rightarrow> Inl e
                 | None \<Rightarrow> Inr (''INSERT INTO '' @ table @ '' '' @ arr @ '' ON DUPLICATE KEY UPDATE ''
                     @ str_join '', '' (map (\<lambda>f. f @ '' = $input.'' @ f) assign) @ '';''))))"

definition query_rows :: "('w, 'tx) sdk \<Rightarrow> client \<Rightarrow> string \<Rightarrow> 'w \<Rightarrow> go_map list result \<times> 'w" where
  "query_rows sdk c surql = and_then (Query sdk c surql) (\<lambda>raw. pure (Inr (ExtractResult raw)))"

definition UpsertMany ::
  "('w, 'tx) sdk \<Rightarrow> (sql_any \<Rightarrow> string result) \<Rightarrow> client option \<Rightarrow> string \<Rightarrow> data_map option list \<Rightarrow> string list \<Rightarrow> 'w
   \<Rightarrow> go_map list result \<times> 'w" where
  "UpsertMany sdk json_of co table items conflict_fields = with_client co (\<lambda>c.
     if items = [] then pure (Inr [])
     else and_then (pure (BuildUpsertQuery json_of table items conflict_fields)) (query_rows sdk c))"

definition InsertMany ::
  "('w, 'tx) sdk \<Rightarrow> (sql_any \<Rightarrow> string result) \<Rightarrow> client option \<Rightarrow> string \<Rightarrow> data_map option list \<Rightarrow> 'w \<Rightarrow> go_map list result \<times> 'w" where
  "InsertMany sdk json_of co table items = with_client co (\<lambda>c.
     if items = [] then pure (Inr [])
     else
       and_then (ident_check table ''table name'') (\<lambda>_.
       and_then (pure (formatItemsArray json_of items)) (\<lambda>arr.
       query_rows sdk c (''INSERT INTO '' @ table @ '' '' @ arr @ '';''))))"

record relation =
  rel_from :: string
  rel_to :: string
  rel_data :: data_map

definition BuildRelateQuery :: "(sql_any \<Rightarrow> string result) \<Rightarrow> string \<Rightarrow> string \<Rightarrow> string \<Rightarrow> data_map \<Rightarrow> string result" where
  "BuildRelateQuery json_of from_id edge to_id data =
     (case validateSqlIdentifier edge ''edge table name'' of
        Some e \<Rightarrow> Inl e
      | None \<Rightarrow>
          if from_id = [] then Inl (err_new ErrValidation ''from record id cannot be empty'')
          else if to_id = [] then Inl (err_new ErrValidation ''to record id cannot be empty'')
          else case validateSqlIdentifier (splitTablePart from_id) ''from record table'' of
            Some e \<Rightarrow> Inl e
          | None \<Rightarrow>
              (case validateSqlIdentifier (splitTablePart to_id) ''to record table'' of
                 Some e \<Rightarrow> Inl e
               | None \<Rightarrow>
                   (let stmt = ''RELATE '' @ from_id @ ''->'' @ edge @ ''->'' @ to_id in
                    if data = [] then Inr (stmt @ '';'')
                    else rbind (formatSetClauses json_of data) (\<lambda>parts. Inr (stmt @ '' SET '' @ str_join '', '' parts @ '';'')))))"

fun relate_statements :: "(sql_any \<Rightarrow> string result) \<Rightarrow> string \<Rightarrow> nat \<Rightarrow> relation list \<Rightarrow> string list result" where
  "relate_statements json_of edge i [] = Inr []"
| "relate_statements json_of edge i (rel # rels) =
     (if rel_from rel = [] \<or> rel_to rel = [] then
        Inl (err_new ErrValidation (''relations['' @ show_nat i @ '']: from and to record ids are required''))
      else case validateSqlIdentifier (splitTablePart (rel_from rel)) ''from record table'' of
        Some e \<Rightarrow> Inl e
      | None \<Rightarrow>
          (case validateSqlIdentifier (splitTablePart (rel_to rel)) ''to record table'' of
             Some e \<Rightarrow> Inl e
           | None \<Rightarrow>
               rbind (BuildRelateQuery json_of (rel_from rel) edge (rel_to rel) (rel_data rel)) (\<lambda>s.
               rbind (relate_statements json_of edge (Suc i) rels) (\<lambda>ss. Inr (s # ss)))))"

definition RelateMany ::
  "('w, 'tx) sdk \<Rightarrow> (sql_any \<Rightarrow> string result) \<Rightarrow> client option \<Rightarrow> string \<Rightarrow> string \<Rightarrow> string \<Rightarrow> relation list \<Rightarrow> 'w
   \<Rightarrow> go_map list result \<times> 'w" where
  "RelateMany sdk json_of co from_table edge to_table rels = with_client co (\<lambda>c.
     if rels = [] then pure (Inr [])
     else
       and_then (ident_check edge ''edge table name'') (\<lambda>_.
       and_then (ident_check from_table ''from table name'') (\<lambda>_.
       and_then (ident_check to_table ''to table name'') (\<lambda>_.
       and_then (pure (relate_statements json_of edge 0 rels)) (\<lambda>stmts.
       query_rows sdk c (str_join [CHR 0x0A] stmts))))))"

definition delete_id_target :: "string \<Rightarrow> string \<Rightarrow> string result" where
  "delete_id_target table id1 =
     (if id1 = [] then Inl (err_new ErrValidation ''id cannot be empty'')
      else if \<not> str_contains id1 '':'' then Inr (table @ '':'' @ id1)
      else (case validateSqlIdentifier (splitTablePart id1) ''record ID table'' of Some e \<Rightarrow> Inl e | None \<Rightarrow> Inr id1))"

fun delete_ids :: "('w, 'tx) sdk \<Rightarrow> client \<Rightarrow> string \<Rightarrow> string list \<Rightarrow> 'w \<Rightarrow> go_map list result \<times> 'w" where
  "delete_ids sdk c table [] = pure (Inr [])"
| "delete_ids sdk c table (id1 # ids) =
     and_then (pure (delete_id_target table id1)) (\<lambda>target.
     and_then (missing_as [] (query_rows sdk c (''DELETE '' @ target @ '' RETURN BEFORE;''))) (\<lambda>rows.
     and_then (delete_ids sdk c table ids) (\<lambda>rest. pure (Inr (rows @ rest)))))"

definition DeleteMany :: "('w, 'tx) sdk \<Rightarrow> client option \<Rightarrow> string \<Rightarrow> string list \<Rightarrow> 'w \<Rightarrow> go_map list result \<times> 'w" where
  "DeleteMany sdk co table ids = with_client co (\<lambda>c.
     if ids = [] then pure (Inr [])
     else and_then (ident_check table ''table name'') (\<lambda>_. delete_ids sdk c table ids))"

section \<open>Graph helpers\<close>

text \<open>A direction is its string: \<open>out\<close> (or empty), \<open>in\<close>, \<open>both\<close>.\<close>

definition arrow :: "string \<Rightarrow> string result" where
  "arrow d =
     (if d = ''out'' \<or> d = [] then Inr ''->''
      else if d = ''in'' then Inr ''<-''
      else if d = ''both'' then Inr ''<->''
      else Inl (err_new ErrValidation (''invalid direction '' @ go_quote d @ '': must be \"out\", \"in\" or \"both\"'')))"

definition recordToString :: "endpoint \<Rightarrow> string \<Rightarrow> string result" where
  "recordToString v role =
     (let nonempty = (\<lambda>s. if s = [] then Inl (err_new ErrValidation (role @ '' record cannot be empty'')) else Inr s) in
      case v of
        EndNil \<Rightarrow> Inl (err_new ErrValidation (role @ '' record cannot be nil''))
      | EndString s \<Rightarrow> nonempty s
      | EndRecord r \<Rightarrow> Inr (record_id_string r)
      | EndStringer s \<Rightarrow> nonempty s
      | EndOther ty \<Rightarrow> Inl (err_new ErrValidation (role @ '' record must be string or types.RecordID, got '' @ ty)))"

definition selectTraversalSurql :: "string \<Rightarrow> string \<Rightarrow> condition list \<Rightarrow> string result" where
  "selectTraversalSurql start path conditions =
     rbind (FromTable start (Select [] NewQuery)) (\<lambda>q.
     rbind (where_all conditions (Traverse path q)) (\<lambda>q.
     rbind (query_ToSurql q) (\<lambda>s. Inr (s @ '';''))))"

definition TraversePath ::
  "('w, 'tx) sdk \<Rightarrow> client option \<Rightarrow> endpoint \<Rightarrow> string \<Rightarrow> condition list \<Rightarrow> 'w \<Rightarrow> go_map list result \<times> 'w" where
  "TraversePath sdk co start path conditions = with_client co (\<lambda>c.
     and_then (pure (recordToString start ''start'')) (\<lambda>s.
     if path = [] then pure (Inl (err_new ErrValidation ''path cannot be empty''))
     else and_then (pure (selectTraversalSurql s path conditions)) (query_rows sdk c)))"

definition depth_text :: "int option \<Rightarrow> string result" where
  "depth_text depth =
     (case depth of
        None \<Rightarrow> Inr []
      | Some d \<Rightarrow> if d < 0 then Inl (err_new ErrValidation (''depth must be non-negative, got '' @ show_int d)) else Inr (show_int d))"

definition TraverseWithDepth ::
  "('w, 'tx) sdk \<Rightarrow> client option \<Rightarrow> endpoint \<Rightarrow> string \<Rightarrow> string \<Rightarrow> string \<Rightarrow> int option \<Rightarrow> condition list \<Rightarrow> 'w
   \<Rightarrow> go_map list result \<times> 'w" where
  "TraverseWithDepth sdk co start edge target direction depth conditions = with_client co (\<lambda>c.
     and_then (ident_check edge ''edge table name'') (\<lambda>_.
     and_then (ident_check target ''target table name'') (\<lambda>_.
     and_then (pure (arrow direction)) (\<lambda>a.
     and_then (pure (depth_text depth)) (\<lambda>d.
     TraversePath sdk (Some c) start (a @ edge @ d @ a @ target) conditions)))))"

definition CreateRelation ::
  "('w, 'tx) sdk \<Rightarrow> (sql_any \<Rightarrow> string result) \<Rightarrow> client option \<Rightarrow> string \<Rightarrow> endpoint \<Rightarrow> endpoint \<Rightarrow> data_map \<Rightarrow> 'w
   \<Rightarrow> go_map option result \<times> 'w" where
  "CreateRelation sdk json_of co edge a b data = with_client co (\<lambda>c.
     and_then (pure (recordToString a ''from'')) (\<lambda>f.
     and_then (pure (recordToString b ''to'')) (\<lambda>t.
     and_then (pure (BuildRelateQuery json_of f edge t data)) (\<lambda>stmt.
     and_then (Query sdk c stmt) (\<lambda>raw. pure (Inr (ExtractOne raw)))))))"

definition RemoveRelation ::
  "('w, 'tx) sdk \<Rightarrow> client option \<Rightarrow> string \<Rightarrow> endpoint \<Rightarrow> endpoint \<Rightarrow> 'w \<Rightarrow> unit result \<times> 'w" where
  "RemoveRelation sdk co edge a b = with_client co (\<lambda>c.
     and_then (ident_check edge ''edge table name'') (\<lambda>_.
     and_then (pure (recordToString a ''from'')) (\<lambda>f.
     and_then (pure (recordToString b ''to'')) (\<lambda>t.
     delete_target sdk c (f @ ''->'' @ edge @ ''->'' @ t)))))"

definition edges_of ::
  "string \<Rightarrow> ('w, 'tx) sdk \<Rightarrow> client option \<Rightarrow> endpoint \<Rightarrow> string \<Rightarrow> condition list \<Rightarrow> 'w \<Rightarrow> go_map list result \<times> 'w" where
  "edges_of a sdk co r edge conditions = with_client co (\<lambda>c.
     and_then (ident_check edge ''edge table name'') (\<lambda>_.
     and_then (pure (recordToString r ''record'')) (\<lambda>s.
     and_then (pure (selectTraversalSurql s (a @ edge) conditions)) (\<lambda>stmt.
     missing_as [] (query_rows sdk c stmt)))))"

definition GetOutgoingEdges ::
  "('w, 'tx) sdk \<Rightarrow> client option \<Rightarrow> endpoint \<Rightarrow> string \<Rightarrow> condition list \<Rightarrow> 'w \<Rightarrow> go_map list result \<times> 'w" where
  "GetOutgoingEdges = edges_of ''->''"

definition GetIncomingEdges ::
  "('w, 'tx) sdk \<Rightarrow> client option \<Rightarrow> endpoint \<Rightarrow> string \<Rightarrow> condition list \<Rightarrow> 'w \<Rightarrow> go_map list result \<times> 'w" where
  "GetIncomingEdges = edges_of ''<-''"

definition one_way :: "string \<Rightarrow> string result" where
  "one_way d =
     (if d = ''out'' \<or> d = [] then Inr ''->''
      else if d = ''in'' then Inr ''<-''
      else Inl (err_new ErrValidation (''invalid direction '' @ go_quote d @ '': must be \"out\" or \"in\"'')))"

definition GetRelatedRecords ::
  "('w, 'tx) sdk \<Rightarrow> client option \<Rightarrow> endpoint \<Rightarrow> string \<Rightarrow> string \<Rightarrow> string \<Rightarrow> condition list \<Rightarrow> 'w \<Rightarrow> go_map list result \<times> 'w" where
  "GetRelatedRecords sdk co r edge target direction conditions = with_client co (\<lambda>c.
     and_then (ident_check edge ''edge table name'') (\<lambda>_.
     and_then (ident_check target ''target table name'') (\<lambda>_.
     and_then (pure (recordToString r ''record'')) (\<lambda>s.
     and_then (pure (one_way direction)) (\<lambda>a.
     and_then (pure (selectTraversalSurql s (a @ edge @ a @ target) conditions)) (\<lambda>stmt.
     missing_as [] (query_rows sdk c stmt)))))))"

definition CountRelated :: "('w, 'tx) sdk \<Rightarrow> client option \<Rightarrow> endpoint \<Rightarrow> string \<Rightarrow> string \<Rightarrow> 'w \<Rightarrow> int64 result \<times> 'w" where
  "CountRelated sdk co r edge direction = with_client co (\<lambda>c.
     and_then (ident_check edge ''edge table name'') (\<lambda>_.
     and_then (pure (recordToString r ''record'')) (\<lambda>s.
     and_then (pure (one_way direction)) (\<lambda>a.
     and_then (pure (rbind (FromTable s (Select [''count()''] NewQuery)) (\<lambda>q. query_ToSurql (GroupAll (Traverse (a @ edge) q))))) (\<lambda>stmt.
     missing_as 0 (and_then (Query sdk c (stmt @ '';'')) (\<lambda>raw. pure (Inr (count_of raw)))))))))"

text \<open>The loop over the depths still to be tried; a missing table ends the search.\<close>

definition path_guards :: "string \<Rightarrow> condition list \<Rightarrow> condition list" where
  "path_guards to_str conditions = CondText (''id = '' @ to_str) # conditions"

fun deepen ::
  "('w, 'tx) sdk \<Rightarrow> client \<Rightarrow> string \<Rightarrow> string \<Rightarrow> condition list \<Rightarrow> nat list \<Rightarrow> 'w \<Rightarrow> go_map list result \<times> 'w" where
  "deepen sdk c from_str step guards [] = pure (Inr [])"
| "deepen sdk c from_str step guards (depth # depths) =
     and_then (pure (selectTraversalSurql from_str (concat (replicate depth step)) guards)) (\<lambda>stmt w.
       case query_rows sdk c stmt w of
         (Inl e, w') \<Rightarrow> (if isTableMissingError e then Inr [] else Inl e, w')
       | (Inr rows, w') \<Rightarrow> if rows \<noteq> [] then (Inr rows, w') else deepen sdk c from_str step guards depths w')"

definition path_depth :: "int \<Rightarrow> nat" where
  "path_depth max_depth = (if max_depth \<le> 0 then 10 else nat max_depth)"

definition ShortestPath ::
  "('w, 'tx) sdk \<Rightarrow> client option \<Rightarrow> endpoint \<Rightarrow> endpoint \<Rightarrow> string \<Rightarrow> int \<Rightarrow> condition list \<Rightarrow> 'w \<Rightarrow> go_map list result \<times> 'w" where
  "ShortestPath sdk co a b edge max_depth conditions = with_client co (\<lambda>c.
     and_then (ident_check edge ''edge table name'') (\<lambda>_.
     and_then (pure (recordToString a ''from'')) (\<lambda>f.
     and_then (pure (recordToString b ''to'')) (\<lambda>t.
     deepen sdk c f (''->'' @ edge @ ''->?'') (path_guards t conditions) [1..<Suc (path_depth max_depth)]))))"

section \<open>Graph query builder\<close>

record graph_query =
  gq_start :: string
  gq_path :: "string list"
  gq_conditions :: "string list"
  gq_limit :: "int option"
  gq_fields :: "string list"
  gq_fetch :: "string list"
  gq_target :: string

definition NewGraphQuery :: "string \<Rightarrow> graph_query" where
  "NewGraphQuery start =
     \<lparr>gq_start = start, gq_path = [], gq_conditions = [], gq_limit = None, gq_fields = [], gq_fetch = [], gq_target = []\<rparr>"

definition formatEdgeStep :: "string \<Rightarrow> string \<Rightarrow> int option \<Rightarrow> string" where
  "formatEdgeStep a edge depth = a @ edge @ (case depth of None \<Rightarrow> [] | Some d \<Rightarrow> show_int d)"

definition gq_step :: "string \<Rightarrow> string \<Rightarrow> int option \<Rightarrow> graph_query \<Rightarrow> graph_query" where
  "gq_step a edge depth g = g\<lparr>gq_path := gq_path g @ [formatEdgeStep a edge depth]\<rparr>"

definition gq_Out :: "string \<Rightarrow> int option \<Rightarrow> graph_query \<Rightarrow> graph_query" where "gq_Out = gq_step ''->''"
definition gq_In :: "string \<Rightarrow> int option \<Rightarrow> graph_query \<Rightarrow> graph_query" where "gq_In = gq_step ''<-''"
definition gq_Both :: "string \<Rightarrow> int option \<Rightarrow> graph_query \<Rightarrow> graph_query" where "gq_Both = gq_step ''<->''"
definition gq_To :: "string \<Rightarrow> graph_query \<Rightarrow> graph_query" where "gq_To table g = g\<lparr>gq_target := table\<rparr>"

definition gq_Where :: "string \<Rightarrow> graph_query \<Rightarrow> graph_query" where
  "gq_Where cond g = (if cond = [] then g else g\<lparr>gq_conditions := gq_conditions g @ [cond]\<rparr>)"

definition gq_Select :: "string list \<Rightarrow> graph_query \<Rightarrow> graph_query" where "gq_Select fs g = g\<lparr>gq_fields := gq_fields g @ fs\<rparr>"
definition gq_Limit :: "int \<Rightarrow> graph_query \<Rightarrow> graph_query" where "gq_Limit n g = g\<lparr>gq_limit := Some n\<rparr>"
definition gq_Fetch :: "string list \<Rightarrow> graph_query \<Rightarrow> graph_query" where "gq_Fetch refs g = g\<lparr>gq_fetch := gq_fetch g @ refs\<rparr>"

definition buildGraphPath :: "string list \<Rightarrow> string" where
  "buildGraphPath parts = concat parts"

definition gq_route :: "graph_query \<Rightarrow> string" where
  "gq_route g = gq_start g @ buildGraphPath (gq_path g) @ (if gq_target g = [] then [] else ''->'' @ gq_target g)"

definition gq_where :: "graph_query \<Rightarrow> string" where
  "gq_where g = (if gq_conditions g = [] then [] else '' WHERE '' @ joinConditions (gq_conditions g))"

definition no_start :: go_error where
  "no_start = err_new ErrValidation ''graph query requires a start record''"

definition no_steps :: go_error where
  "no_steps = err_new ErrValidation ''graph query requires at least one traversal step (Out/In/Both)''"

text \<open>A nil receiver is None.\<close>

definition gq_ToSurql :: "graph_query option \<Rightarrow> string result" where
  "gq_ToSurql go =
     (case go of
        None \<Rightarrow> Inl (err_new ErrValidation ''graph query cannot be nil'')
      | Some g \<Rightarrow>
          if gq_start g = [] then Inl no_start
          else if gq_path g = [] then Inl no_steps
          else if gq_limit g \<noteq> None \<and> the (gq_limit g) < 0 then
            Inl (err_new ErrValidation (''limit must be non-negative, got '' @ show_int (the (gq_limit g))))
          else Inr (''SELECT '' @ (if gq_fields g = [] then ''*'' else str_join '', '' (gq_fields g)) @ '' FROM '' @ gq_route g @ gq_where g
            @ (if gq_fetch g = [] then [] else '' FETCH '' @ str_join '', '' (gq_fetch g))
            @ (case gq_limit g of None \<Rightarrow> [] | Some n \<Rightarrow> '' LIMIT '' @ show_int n)))"

definition gq_Execute :: "('w, 'tx) sdk \<Rightarrow> client option \<Rightarrow> graph_query option \<Rightarrow> 'w \<Rightarrow> go_map list result \<times> 'w" where
  "gq_Execute sdk co go = with_client co (\<lambda>c.
     and_then (pure (gq_ToSurql go)) (\<lambda>surql.
     missing_as [] (and_then (QueryWithVars sdk c surql []) (\<lambda>raw. pure (Inr (ExtractResult raw))))))"

definition gq_count_text :: "graph_query option \<Rightarrow> string result" where
  "gq_count_text go =
     (case go of
        None \<Rightarrow> Inl no_start
      | Some g \<Rightarrow>
          if gq_start g = [] then Inl no_start
          else if gq_path g = [] then Inl no_steps
          else Inr (''SELECT count() FROM '' @ gq_route g @ gq_where g @ '' GROUP ALL;''))"

definition gq_Count :: "('w, 'tx) sdk \<Rightarrow> client option \<Rightarrow> graph_query option \<Rightarrow> 'w \<Rightarrow> int64 result \<times> 'w" where
  "gq_Count sdk co go = with_client co (\<lambda>c.
     and_then (pure (gq_count_text go)) (\<lambda>surql.
     missing_as 0 (and_then (QueryWithVars sdk c surql []) (\<lambda>raw. pure (Inr (count_of raw))))))"

definition gq_Exists :: "('w, 'tx) sdk \<Rightarrow> client option \<Rightarrow> graph_query option \<Rightarrow> 'w \<Rightarrow> bool result \<times> 'w" where
  "gq_Exists sdk co go = and_then (gq_Count sdk co go) (\<lambda>n. pure (Inr (0 <s n)))"

end
