(* ===== verification/Query_Crud_Correct.thy ===== *)
theory Query_Crud_Correct
  imports Query_Batch Query_Builder_Correct
begin

text \<open>
  The CRUD helpers against an abstract store of records by target. \<open>store_laws\<close> states the documented behaviour of
  the server for the statements the helpers send: what a SELECT answers, what DELETE, UPSERT and the update and merge calls
  change. It says nothing about which calls succeed, and a failed call may or may not have taken effect. The
  search for a shortest path is shown to return the rows of the least depth.
\<close>

section \<open>Answers of the client\<close>

lemma hd_opt_simps [simp]: "hd_opt [] = None" "hd_opt (x # xs) = Some x"
  by (simp_all add: hd_opt_def)

lemma envelope_simps [simp]:
  "result_rows (envelope r) = pushValue (qr_result r)" "is_envelope (envelope r)" "as_map (envelope r) \<noteq> None"
  by (simp_all add: envelope_def result_rows_def is_envelope_def)

text \<open>Every row of every statement, in order.\<close>

lemma extract_response:
  "ExtractResult (queryResultsToEnvelopes (Some rs)) = concat (map (\<lambda>r. pushValue (qr_result r)) rs)"
  by (cases rs) (simp_all add: queryResultsToEnvelopes_def o_def)

lemma extract_no_response [simp]: "ExtractResult (queryResultsToEnvelopes None) = []"
  by (simp add: queryResultsToEnvelopes_def)

definition one_row :: "go_map option \<Rightarrow> query_result list option \<Rightarrow> bool" where
  "one_row m res \<longleftrightarrow> (\<exists>st tm. res = Some [\<lparr>qr_status = st, qr_time = tm, qr_result = ListV (case m of None \<Rightarrow> [] | Some m \<Rightarrow> [MapV m])\<rparr>])"

lemma extract_one_row [simp]:
  "one_row m res \<Longrightarrow> ExtractResult (queryResultsToEnvelopes res) = (case m of None \<Rightarrow> [] | Some m \<Rightarrow> [m])"
  by (auto simp: one_row_def extract_response List.map_filter_simps split: option.splits)

lemma query_answer:
  "Query sdk c s w = (case requireDB c of Some e \<Rightarrow> (Inl e, w) | None \<Rightarrow>
     (case sdk_query sdk s [] w of (Inl e, w') \<Rightarrow> (Inl (mapQueryError e), w') | (Inr res, w') \<Rightarrow> (Inr (queryResultsToEnvelopes res), w')))"
  by (simp add: Query_def QueryWithVars_def)

section \<open>The store\<close>

text \<open>
  \<open>sv_full t v\<close> is the record stored at \<open>t\<close> with the content \<open>v\<close> of an SDK call, \<open>sv_merge\<close> the record after a merge,
  \<open>sv_text t x\<close> the record stored with the object written \<open>x\<close>.
\<close>

type_synonym store = "string \<Rightarrow> go_map option"

record 'w store_view =
  sv_rows :: "'w \<Rightarrow> store"
  sv_full :: "string \<Rightarrow> any \<Rightarrow> go_map"
  sv_merge :: "go_map \<Rightarrow> any \<Rightarrow> go_map"
  sv_text :: "string \<Rightarrow> string \<Rightarrow> go_map"

definition plain_target :: "string \<Rightarrow> bool" where
  "plain_target t \<longleftrightarrow> CHR '' '' \<notin> set t \<and> CHR '';'' \<notin> set t"

definition missing :: "sdk_error \<Rightarrow> bool" where
  "missing e \<longleftrightarrow> isTableMissingError (mapQueryError e)"

definition replaced :: "(go_map \<Rightarrow> go_map) \<Rightarrow> string \<Rightarrow> store \<Rightarrow> store" where
  "replaced f t s = (case s t of None \<Rightarrow> s | Some m \<Rightarrow> s(t \<mapsto> f m))"

text \<open>A failed call leaves the store, or has changed it; where the table is missing there is no record.\<close>

definition failed :: "bool \<Rightarrow> string \<Rightarrow> store \<Rightarrow> store \<Rightarrow> store \<Rightarrow> bool" where
  "failed is_missing t before done now \<longleftrightarrow> (if is_missing then now = before \<and> before t = None else now \<in> {before, done})"

definition select_law :: "('w, 'tx) sdk \<Rightarrow> 'w store_view \<Rightarrow> bool" where
  "select_law sdk sv \<longleftrightarrow> (\<forall>t w r w'. plain_target t \<longrightarrow> sdk_query sdk (''SELECT * FROM '' @ t @ '';'') [] w = (r, w') \<longrightarrow>
     (case r of
        Inr res \<Rightarrow> one_row (sv_rows sv w t) res \<and> sv_rows sv w' = sv_rows sv w
      | Inl e \<Rightarrow> failed (missing e) t (sv_rows sv w) (sv_rows sv w) (sv_rows sv w')))"

definition delete_law :: "('w, 'tx) sdk \<Rightarrow> 'w store_view \<Rightarrow> bool" where
  "delete_law sdk sv \<longleftrightarrow> (\<forall>t w r w'. plain_target t \<longrightarrow> sdk_query sdk (''DELETE '' @ t @ '';'') [] w = (r, w') \<longrightarrow>
     (case r of
        Inr res \<Rightarrow> sv_rows sv w' = (sv_rows sv w)(t := None)
      | Inl e \<Rightarrow> failed (missing e) t (sv_rows sv w) ((sv_rows sv w)(t := None)) (sv_rows sv w')))"

definition upsert_law :: "('w, 'tx) sdk \<Rightarrow> 'w store_view \<Rightarrow> bool" where
  "upsert_law sdk sv \<longleftrightarrow> (\<forall>t x w r w'. plain_target t \<longrightarrow> sdk_query sdk (''UPSERT '' @ t @ '' CONTENT '' @ x) [] w = (r, w') \<longrightarrow>
     (let done = (sv_rows sv w)(t \<mapsto> sv_text sv t x) in
      case r of
        Inr res \<Rightarrow> one_row (Some (sv_text sv t x)) res \<and> sv_rows sv w' = done
      | Inl e \<Rightarrow> sv_rows sv w' \<in> {sv_rows sv w, done}))"

text \<open>Update and merge calls act on records that exist; otherwise they answer nothing.\<close>

definition call_law :: "('w, 'tx) sdk \<Rightarrow> 'w store_view \<Rightarrow> rpc \<Rightarrow> (string \<Rightarrow> go_map \<Rightarrow> go_map) \<Rightarrow> bool" where
  "call_law sdk sv call f \<longleftrightarrow> (\<forall>t w r w'. plain_target t \<longrightarrow> sdk_rpc sdk call t w = (r, w') \<longrightarrow>
     (let done = replaced (f t) t (sv_rows sv w) in
      case r of
        Inr res \<Rightarrow> res = map_option MapV (done t) \<and> sv_rows sv w' = done
      | Inl e \<Rightarrow> sv_rows sv w' \<in> {sv_rows sv w, done}))"

definition store_laws :: "('w, 'tx) sdk \<Rightarrow> 'w store_view \<Rightarrow> bool" where
  "store_laws sdk sv \<longleftrightarrow> select_law sdk sv \<and> delete_law sdk sv \<and> upsert_law sdk sv
     \<and> (\<forall>v. call_law sdk sv (RpcUpdate v) (\<lambda>t m. sv_full sv t v))
     \<and> (\<forall>v. call_law sdk sv (RpcMerge v) (\<lambda>t m. sv_merge sv m v))"

text \<open>A record with a field named \<open>result\<close> is not told from an envelope (\<open>result_field_unwrapped\<close> below).\<close>

definition no_result_field :: "'w store_view \<Rightarrow> bool" where
  "no_result_field sv \<longleftrightarrow> (\<forall>t v m. map_of (sv_full sv t v) ''result'' = None \<and> map_of (sv_merge sv m v) ''result'' = None)"

section \<open>Operations\<close>

datatype crud_op = OpGet | OpExists | OpUpdate data_map | OpMerge data_map | OpUpsert data_map | OpDelete

datatype crud_answer = Row "go_map option" | Flag bool | Removed

definition answer_by :: "('a \<Rightarrow> crud_answer) \<Rightarrow> 'a result \<times> 'w \<Rightarrow> crud_answer result \<times> 'w" where
  "answer_by f r = (case r of (Inl e, w) \<Rightarrow> (Inl e, w) | (Inr x, w) \<Rightarrow> (Inr (f x), w))"

fun crud_run ::
  "('w, 'tx) sdk \<Rightarrow> (data_map \<Rightarrow> any) \<Rightarrow> client option \<Rightarrow> string \<Rightarrow> endpoint \<Rightarrow> crud_op \<Rightarrow> 'w \<Rightarrow> crud_answer result \<times> 'w" where
  "crud_run sdk wire co table rid OpGet w = answer_by Row (GetRecord sdk co table rid w)"
| "crud_run sdk wire co table rid OpExists w = answer_by Flag (Exists sdk co table rid w)"
| "crud_run sdk wire co table rid (OpUpdate d) w = answer_by Row (UpdateRecord sdk wire co table rid (Some d) w)"
| "crud_run sdk wire co table rid (OpMerge d) w = answer_by Row (MergeRecord sdk wire co table rid (Some d) w)"
| "crud_run sdk wire co table rid (OpUpsert d) w = answer_by Row (UpsertRecord sdk co table rid (Some d) w)"
| "crud_run sdk wire co table rid OpDelete w = answer_by (\<lambda>_. Removed) (DeleteRecord sdk co table rid w)"

fun store_do :: "'w store_view \<Rightarrow> (data_map \<Rightarrow> any) \<Rightarrow> string \<Rightarrow> crud_op \<Rightarrow> store \<Rightarrow> crud_answer \<times> store" where
  "store_do sv wire t OpGet s = (Row (s t), s)"
| "store_do sv wire t OpExists s = (Flag (s t \<noteq> None), s)"
| "store_do sv wire t (OpUpdate d) s = (let s' = replaced (\<lambda>m. sv_full sv t (wire d)) t s in (Row (s' t), s'))"
| "store_do sv wire t (OpMerge d) s = (let s' = replaced (\<lambda>m. sv_merge sv m (wire d)) t s in (Row (s' t), s'))"
| "store_do sv wire t (OpUpsert d) s = (let m = sv_text sv t (renderDataObject d) in (Row (Some m), s(t \<mapsto> m)))"
| "store_do sv wire t OpDelete s = (Removed, s(t := None))"

text \<open>What the store allows of an operation: its answer and effect, or an error and the effect or none.\<close>

definition allowed :: "'w store_view \<Rightarrow> (data_map \<Rightarrow> any) \<Rightarrow> string \<Rightarrow> crud_op \<Rightarrow> store \<Rightarrow> crud_answer result \<Rightarrow> store \<Rightarrow> bool" where
  "allowed sv wire t op s r s' \<longleftrightarrow>
     (case r of
        Inr a \<Rightarrow> store_do sv wire t op s = (a, s')
      | Inl e \<Rightarrow> s' \<in> {s, snd (store_do sv wire t op s)})"

lemma allowed_error: "s' = s \<Longrightarrow> allowed sv wire t op s (Inl e) s'"
  by (simp add: allowed_def)

lemma answer_by_simps [simp]: "answer_by f (Inl e, w) = (Inl e, w)" "answer_by f (Inr x, w) = (Inr (f x), w)"
  by (simp_all add: answer_by_def)

lemma missing_as_simps [simp]:
  "m w = (Inr x, w') \<Longrightarrow> missing_as d m w = (Inr x, w')"
  "m w = (Inl e, w') \<Longrightarrow> missing_as d m w = (if isTableMissingError e then Inr d else Inl e, w')"
  by (simp_all add: missing_as_def)

lemma not_connected: "requireDB c = Some e \<Longrightarrow> \<not> isTableMissingError e"
proof -
  have "\<not> isTableMissingError (err_new ErrConnection ''client is not connected'')" by code_simp
  then show "requireDB c = Some e \<Longrightarrow> \<not> isTableMissingError e" by (simp add: requireDB_def split: if_splits)
qed

lemma select_one_answer:
  assumes "store_laws sdk sv" "plain_target t" "select_one sdk c t w = (r, w')"
  shows "sv_rows sv w' = sv_rows sv w \<and> (\<forall>x. r = Inr x \<longrightarrow> x = sv_rows sv w t) \<and> (\<forall>e. r = Inl e \<longrightarrow> \<not> isTableMissingError e)"
proof (cases "requireDB c")
  case None
  obtain a w1 where q: "sdk_query sdk (''SELECT * FROM '' @ t @ '';'') [] w = (a, w1)" by fastforce
  then have law: "case a of Inr res \<Rightarrow> one_row (sv_rows sv w t) res \<and> sv_rows sv w1 = sv_rows sv w
      | Inl e \<Rightarrow> failed (missing e) t (sv_rows sv w) (sv_rows sv w) (sv_rows sv w1)"
    using assms(1,2) by (simp add: store_laws_def select_law_def)
  show ?thesis
  proof (cases a)
    case (Inl e)
    then show ?thesis using assms(3) q None law
      by (auto simp: select_one_def and_then_def query_answer missing_as_def failed_def missing_def pure_def split: if_splits)
  next
    case (Inr res)
    then show ?thesis using assms(3) q None law
      by (auto simp: select_one_def and_then_def query_answer missing_as_def pure_def split: option.splits)
  qed
next
  case (Some e)
  note not_connected [OF this]
  then show ?thesis using assms(3) Some by (auto simp: select_one_def and_then_def query_answer missing_as_def)
qed


lemma delete_target_answer:
  assumes "store_laws sdk sv" "plain_target t" "delete_target sdk c t w = (r, w')"
  shows "(\<forall>x. r = Inr x \<longrightarrow> sv_rows sv w' = (sv_rows sv w)(t := None)) \<and> sv_rows sv w' \<in> {sv_rows sv w, (sv_rows sv w)(t := None)}"
proof (cases "requireDB c")
  case None
  obtain a w1 where q: "sdk_query sdk (''DELETE '' @ t @ '';'') [] w = (a, w1)" by fastforce
  then have law: "case a of Inr res \<Rightarrow> sv_rows sv w1 = (sv_rows sv w)(t := None)
      | Inl e \<Rightarrow> failed (missing e) t (sv_rows sv w) ((sv_rows sv w)(t := None)) (sv_rows sv w1)"
    using assms(1,2) by (simp add: store_laws_def delete_law_def)
  show ?thesis
  proof (cases a)
    case (Inl e)
    then show ?thesis using assms(3) q None law
      by (auto simp: delete_target_def and_then_def query_answer missing_as_def failed_def missing_def pure_def fun_upd_idem_iff split: if_splits)
  next
    case (Inr res)
    then show ?thesis using assms(3) q None law
      by (auto simp: delete_target_def and_then_def query_answer missing_as_def pure_def)
  qed
next
  case (Some e)
  then show ?thesis using assms(3) not_connected [OF Some] by (auto simp: delete_target_def and_then_def query_answer missing_as_def)
qed

lemma normaliseSingle_row: "map_of m ''result'' = None \<Longrightarrow> normaliseSingle (MapV m) = Some m"
  by simp

lemma replace_record_answer:
  assumes "call_law sdk sv (call (wire d)) f" "\<And>t m. map_of (f t m) ''result'' = None" "plain_target t"
    and "buildRecordTarget table rid = Inr t" "replace_record sdk call wire co table rid (Some d) w = (r, w')"
  shows "sv_rows sv w' \<in> {sv_rows sv w, replaced (f t) t (sv_rows sv w)}
    \<and> (\<forall>x. r = Inr x \<longrightarrow> sv_rows sv w' = replaced (f t) t (sv_rows sv w) \<and> x = sv_rows sv w' t)"
proof (cases co)
  case (Some c)
  let ?s = "sv_rows sv w"
  obtain a w1 where q: "sdk_rpc sdk (call (wire d)) t w = (a, w1)" by fastforce
  then have law: "case a of Inr res \<Rightarrow> res = map_option MapV (replaced (f t) t ?s t) \<and> sv_rows sv w1 = replaced (f t) t ?s
      | Inl e \<Rightarrow> sv_rows sv w1 \<in> {?s, replaced (f t) t ?s}"
    using assms(1,3) by (auto simp: call_law_def Let_def)
  have "map_of m ''result'' = None" if "replaced (f t) t ?s t = Some m" for m
    using that assms(2) by (auto simp: replaced_def split: option.splits)
  then have row: "normaliseSingle (case map_option MapV (replaced (f t) t ?s t) of None \<Rightarrow> NilV | Some v \<Rightarrow> v) = replaced (f t) t ?s t"
    by (cases "replaced (f t) t ?s t") simp_all
  show ?thesis
  proof (cases "requireDB c")
    case None
    show ?thesis
    proof (cases a)
      case (Inl e)
      then show ?thesis using assms(4,5) q None law Some
        by (auto simp: replace_record_def need_data_def client_rpc_def and_then_def pure_def)
    next
      case (Inr res)
      then show ?thesis using assms(4,5) q None law Some row
        by (auto simp: replace_record_def need_data_def client_rpc_def and_then_def pure_def)
    qed
  next
    case (Some e)
    then show ?thesis using assms(4,5) \<open>co = Some c\<close> by (auto simp: replace_record_def need_data_def client_rpc_def and_then_def pure_def)
  qed
qed (use assms(5) in \<open>auto simp: replace_record_def\<close>)

lemma upsert_text:
  assumes "Upsert t d NewQuery = Inr q" "query_ToSurql q = Inr s"
  shows "s = ''UPSERT '' @ t @ '' CONTENT '' @ renderDataObject d"
  using assms by (auto simp: Upsert_def unless_Inr query_ToSurql_def query_base_def buildUpsert_def NewQuery_def where_part_def return_part_def
      split: option.splits if_splits)

lemma UpsertRecord_answer:
  assumes "store_laws sdk sv" "plain_target t" "buildRecordTarget table rid = Inr t" "UpsertRecord sdk co table rid (Some d) w = (r, w')"
  defines "m \<equiv> sv_text sv t (renderDataObject d)"
  shows "sv_rows sv w' \<in> {sv_rows sv w, (sv_rows sv w)(t \<mapsto> m)}
    \<and> (\<forall>x. r = Inr x \<longrightarrow> x = Some m \<and> sv_rows sv w' = (sv_rows sv w)(t \<mapsto> m))"
proof (cases "\<exists>c q s. co = Some c \<and> requireDB c = None \<and> Upsert t d NewQuery = Inr q \<and> query_ToSurql q = Inr s")
  case True
  then obtain c q s where run: "co = Some c" "requireDB c = None" "Upsert t d NewQuery = Inr q" "query_ToSurql q = Inr s" by blast
  note s = upsert_text [OF run(3,4)]
  obtain a w1 where q: "sdk_query sdk s [] w = (a, w1)" by fastforce
  have law: "case a of Inr res \<Rightarrow> one_row (Some m) res \<and> sv_rows sv w1 = (sv_rows sv w)(t \<mapsto> m)
      | Inl e \<Rightarrow> sv_rows sv w1 \<in> {sv_rows sv w, (sv_rows sv w)(t \<mapsto> m)}"
    by (rule assms(1) [unfolded store_laws_def upsert_law_def Let_def, THEN conjunct2, THEN conjunct2, THEN conjunct1, rule_format,
          OF assms(2) q [unfolded s], folded m_def])
  show ?thesis
  proof (cases a)
    case (Inl e)
    then show ?thesis using assms(3,4) run q law
      by (auto simp: UpsertRecord_def need_data_def ExecuteQuery_def query_answer and_then_def pure_def)
  next
    case (Inr res)
    then show ?thesis using assms(3,4) run q law
      by (auto simp: UpsertRecord_def need_data_def ExecuteQuery_def query_answer and_then_def pure_def one_or_normal_def ExtractOne_def)
  qed
next
  case False
  then have "sv_rows sv w' = sv_rows sv w \<and> (\<exists>e. r = Inl e)"
    using assms(3,4)
    by (cases co) (auto simp: UpsertRecord_def need_data_def ExecuteQuery_def query_answer and_then_def pure_def split: option.splits sum.splits)
  then show ?thesis by auto
qed

lemma crud_step:
  assumes "store_laws sdk sv" "no_result_field sv" "plain_target t" "buildRecordTarget table rid = Inr t"
    and "crud_run sdk wire co table rid op w = (r, w')"
  shows "allowed sv wire t op (sv_rows sv w) r (sv_rows sv w')"
proof (cases op)
  case OpGet
  then show ?thesis
  proof (cases co)
    case (Some c)
    obtain a w1 where g: "select_one sdk c t w = (a, w1)" by fastforce
    note select_one_answer [OF assms(1,3) g]
    then show ?thesis using assms(4,5) OpGet Some g by (cases a) (auto simp: GetRecord_def allowed_def)
  qed (use assms(5) in \<open>auto simp: GetRecord_def allowed_def\<close>)
next
  case OpExists
  then show ?thesis
  proof (cases co)
    case (Some c)
    obtain a w1 where g: "select_one sdk c t w = (a, w1)" by fastforce
    note select_one_answer [OF assms(1,3) g]
    then show ?thesis using assms(4,5) OpExists Some g
      by (cases a) (auto simp: Exists_def GetRecord_def and_then_def missing_as_def pure_def allowed_def split: if_splits)
  next
    case None
    have "\<not> isTableMissingError no_client" by code_simp
    then show ?thesis using assms(5) OpExists None by (auto simp: Exists_def GetRecord_def and_then_def missing_as_def allowed_def)
  qed
next
  case (OpUpdate d)
  have "call_law sdk sv (RpcUpdate (wire d)) (\<lambda>t m. sv_full sv t (wire d))" using assms(1) by (simp add: store_laws_def)
  note ans = replace_record_answer [where call = RpcUpdate and wire = wire and d = d, OF this _ assms(3,4)]
  obtain a where "UpdateRecord sdk wire co table rid (Some d) w = (a, w')" using assms(5) OpUpdate
    by (auto simp: answer_by_def split: prod.splits sum.splits)
  then show ?thesis using assms(2,5) OpUpdate ans [of co w a w'] by (cases a) (auto simp: UpdateRecord_def allowed_def no_result_field_def Let_def)
next
  case (OpMerge d)
  have "call_law sdk sv (RpcMerge (wire d)) (\<lambda>t m. sv_merge sv m (wire d))" using assms(1) by (simp add: store_laws_def)
  note ans = replace_record_answer [where call = RpcMerge and wire = wire and d = d, OF this _ assms(3,4)]
  obtain a where "MergeRecord sdk wire co table rid (Some d) w = (a, w')" using assms(5) OpMerge
    by (auto simp: answer_by_def split: prod.splits sum.splits)
  then show ?thesis using assms(2,5) OpMerge ans [of co w a w'] by (cases a) (auto simp: MergeRecord_def allowed_def no_result_field_def Let_def)
next
  case (OpUpsert d)
  obtain a where u: "UpsertRecord sdk co table rid (Some d) w = (a, w')" using assms(5) OpUpsert
    by (auto simp: answer_by_def split: prod.splits sum.splits)
  show ?thesis using assms(5) OpUpsert u UpsertRecord_answer [OF assms(1,3,4) u] by (cases a) (auto simp: allowed_def Let_def)
next
  case OpDelete
  then show ?thesis
  proof (cases co)
    case (Some c)
    obtain a w1 where g: "delete_target sdk c t w = (a, w1)" by fastforce
    note delete_target_answer [OF assms(1,3) g]
    then show ?thesis using assms(4,5) OpDelete Some g by (cases a) (auto simp: DeleteRecord_def allowed_def)
  qed (use assms(5) in \<open>auto simp: DeleteRecord_def allowed_def\<close>)
qed


section \<open>Histories\<close>

type_synonym crud_call = "string \<times> endpoint \<times> crud_op"

fun crud_history ::
  "('w, 'tx) sdk \<Rightarrow> (data_map \<Rightarrow> any) \<Rightarrow> client option \<Rightarrow> crud_call list \<Rightarrow> 'w \<Rightarrow> crud_answer result list \<times> 'w" where
  "crud_history sdk wire co [] w = ([], w)"
| "crud_history sdk wire co ((table, rid, op) # calls) w =
     (case crud_run sdk wire co table rid op w of
        (r, w1) \<Rightarrow> (case crud_history sdk wire co calls w1 of (rs, w2) \<Rightarrow> (r # rs, w2)))"

definition call_target :: "string \<Rightarrow> endpoint \<Rightarrow> string option" where
  "call_target table rid = (case buildRecordTarget table rid of Inr t \<Rightarrow> if plain_target t then Some t else None | Inl _ \<Rightarrow> None)"

fun allowed_history ::
  "'w store_view \<Rightarrow> (data_map \<Rightarrow> any) \<Rightarrow> crud_call list \<Rightarrow> store \<Rightarrow> crud_answer result list \<Rightarrow> store \<Rightarrow> bool" where
  "allowed_history sv wire [] s rs s' \<longleftrightarrow> rs = [] \<and> s' = s"
| "allowed_history sv wire ((table, rid, op) # calls) s rs s' \<longleftrightarrow>
     (\<exists>r rs' s1. rs = r # rs' \<and> allowed sv wire (the (call_target table rid)) op s r s1 \<and> allowed_history sv wire calls s1 rs' s')"


text \<open>A server that keeps the store itself.\<close>

definition answer_row :: "go_map option \<Rightarrow> query_result list option" where
  "answer_row m = Some [\<lparr>qr_status = ''OK'', qr_time = [], qr_result = ListV (case m of None \<Rightarrow> [] | Some m \<Rightarrow> [MapV m])\<rparr>]"

definition kept_query :: "string \<Rightarrow> go_map \<Rightarrow> store \<Rightarrow> query_response \<times> store" where
  "kept_query q vars s =
     (case after ''SELECT * FROM '' q of
        Some r \<Rightarrow> (Inr (answer_row (s (fst (until (CHR '';'') r)))), s)
      | None \<Rightarrow>
          (case after ''DELETE '' q of
             Some r \<Rightarrow> (Inr (answer_row None), s(fst (until (CHR '';'') r) := None))
           | None \<Rightarrow>
               (case after ''UPSERT '' q of
                  Some r \<Rightarrow>
                    (let (t, x) = until (CHR '' '') r; m = [(''text'', StrV (drop 9 x))] in (Inr (answer_row (Some m)), s(t \<mapsto> m)))
                | None \<Rightarrow> (Inl (OtherFault ''Parse error''), s))))"

definition kept_view :: "store store_view" where
  "kept_view = \<lparr>sv_rows = id, sv_full = (\<lambda>t v. [(''content'', v)]), sv_merge = (\<lambda>m v. [(''merged'', v)]), sv_text = (\<lambda>t x. [(''text'', StrV x)])\<rparr>"

fun kept_rpc :: "rpc \<Rightarrow> string \<Rightarrow> store \<Rightarrow> any option result \<times> store" where
  "kept_rpc (RpcUpdate v) t s = (let s' = replaced (\<lambda>m. [(''content'', v)]) t s in (Inr (map_option MapV (s' t)), s'))"
| "kept_rpc (RpcMerge v) t s = (let s' = replaced (\<lambda>m. [(''merged'', v)]) t s in (Inr (map_option MapV (s' t)), s'))"
| "kept_rpc call t s = (Inl (Opaque ''unsupported''), s)"

definition kept_sdk :: "(store, unit) sdk" where
  "kept_sdk =
     \<lparr>sdk_cancelled = (\<lambda>s. None), sdk_wait = (\<lambda>d s. (None, s)), sdk_dial = (\<lambda>u s. (None, s)), sdk_use = (\<lambda>ns db s. (None, s)),
      sdk_close = (\<lambda>s. (None, s)), sdk_signin = (\<lambda>p s. (Inr [], s)), sdk_signup = (\<lambda>p s. (Inr [], s)),
      sdk_authenticate = (\<lambda>t s. (None, s)), sdk_invalidate = (\<lambda>s. (None, s)), sdk_version = (\<lambda>s. (None, s)),
      sdk_rpc = kept_rpc, sdk_query = kept_query, sdk_begin = (\<lambda>s. (Inr (), s)),
      sdk_tx_query = (\<lambda>tx. kept_query), sdk_commit = (\<lambda>tx s. (None, s)), sdk_cancel = (\<lambda>tx s. (None, s))\<rparr>"

lemma until_semicolon: "plain_target t \<Longrightarrow> until (CHR '';'') (t @ CHR '';'' # r) = (t, CHR '';'' # r)"
  by (rule until_append) (simp add: plain_target_def)

lemma until_space: "plain_target t \<Longrightarrow> until (CHR '' '') (t @ CHR '' '' # r) = (t, CHR '' '' # r)"
  by (rule until_append) (simp add: plain_target_def)

lemma kept_laws: "store_laws kept_sdk kept_view"
proof -
  have row: "one_row m (answer_row m)" for m by (auto simp: one_row_def answer_row_def)
  have "select_law kept_sdk kept_view" using row
    by (auto simp: select_law_def kept_sdk_def kept_view_def kept_query_def after_def until_semicolon)
  moreover have "delete_law kept_sdk kept_view"
    by (auto simp: delete_law_def kept_sdk_def kept_view_def kept_query_def after_def until_semicolon)
  moreover have "upsert_law kept_sdk kept_view" using row
    by (auto simp: upsert_law_def kept_sdk_def kept_view_def kept_query_def after_def until_space Let_def)
  moreover have "call_law kept_sdk kept_view (RpcUpdate v) (\<lambda>t m. sv_full kept_view t v)"
      "call_law kept_sdk kept_view (RpcMerge v) (\<lambda>t m. sv_merge kept_view m v)" for v
    by (auto simp: call_law_def kept_sdk_def kept_view_def Let_def)
  ultimately show ?thesis by (simp add: store_laws_def)
qed

definition kept_client :: client where
  "kept_client = \<lparr>cl_cfg = DefaultConfig, cl_db = True, cl_connected = True, cl_token = [], cl_auth = []\<rparr>"

definition sample_calls :: "crud_call list" where
  "sample_calls = [(''user'', EndString ''ann'', OpUpsert [(''age'', SInt 3)]), (''user'', EndString ''ann'', OpGet),
     (''user'', EndString ''ann'', OpDelete), (''user'', EndString ''ann'', OpExists)]"

lemma sample_target: "call_target ''user'' (EndString ''ann'') = Some ''user:ann''"
  by code_simp



section \<open>Shortest paths\<close>

text \<open>The rows at a depth, or the error of its statement; a SELECT leaves the world as it is.\<close>

definition rows_at :: "('w, 'tx) sdk \<Rightarrow> client \<Rightarrow> string \<Rightarrow> string \<Rightarrow> condition list \<Rightarrow> 'w \<Rightarrow> nat \<Rightarrow> go_map list result" where
  "rows_at sdk c start edge guards w depth =
     rbind (selectTraversalSurql start (concat (replicate depth (''->'' @ edge @ ''->?''))) guards) (\<lambda>stmt. fst (query_rows sdk c stmt w))"

definition selects_read :: "('w, 'tx) sdk \<Rightarrow> 'w \<Rightarrow> bool" where
  "selects_read sdk w \<longleftrightarrow> (\<forall>s. has_prefix s ''SELECT '' \<longrightarrow> snd (sdk_query sdk s [] w) = w)"

lemma where_all_select: "where_all cs q = Inr q' \<Longrightarrow> q_operation q' = q_operation q \<and> q_hints q' = q_hints q"
proof (induction cs arbitrary: q)
  case (Cons c cs)
  then obtain q1 where w: "Where c q = Inr q1" "where_all cs q1 = Inr q'" by (auto simp: rbind_Inr_iff)
  then have "q_operation q1 = q_operation q \<and> q_hints q1 = q_hints q" by (auto simp: Where_def split: condition.splits if_splits)
  then show ?case using Cons.IH [OF w(2)] by simp
qed simp

lemma str_join_prefix: "has_prefix (str_join sep ((p @ x) # xs)) p"
  by (cases xs) (simp_all add: has_prefix_def)

lemma select_prefix:
  assumes "q_operation q = ''SELECT''" "q_hints q = []" "query_ToSurql q = Inr s"
  shows "has_prefix s ''SELECT ''"
proof -
  have "buildSelect q = Inr s" using assms by (simp add: query_ToSurql_def query_base_def rbind_Inr_iff)
  then obtain x xs where "s = str_join '' '' ((''SELECT '' @ x) # xs)" unfolding buildSelect_def Let_def
    by (cases "q_table q = []") (simp_all split del: if_split, blast)
  then show ?thesis using str_join_prefix by metis
qed

lemma has_prefix_snoc: "has_prefix s p \<Longrightarrow> has_prefix (s @ t) p"
  by (auto simp: has_prefix_iff)

lemma traversal_is_select:
  assumes "selectTraversalSurql start path conds = Inr s"
  shows "has_prefix s ''SELECT ''"
proof -
  obtain q q' s' where q: "FromTable start (Select [] NewQuery) = Inr q" "where_all conds (Traverse path q) = Inr q'"
    "query_ToSurql q' = Inr s'" "s = s' @ '';''"
    using assms unfolding selectTraversalSurql_def by (auto simp: rbind_Inr_iff simp del: append.simps)
  have "q_operation q' = ''SELECT'' \<and> q_hints q' = []"
    using q(1) where_all_select [OF q(2)] by (simp add: FromTable_def unless_Inr Select_def NewQuery_def Traverse_def)
  then show ?thesis using select_prefix q(3,4) has_prefix_snoc by metis
qed

lemma traversal_reads:
  assumes "selects_read sdk w" "selectTraversalSurql start path conds = Inr s"
  shows "snd (query_rows sdk c s w) = w"
  using assms traversal_is_select [OF assms(2)]
  by (auto simp: query_rows_def and_then_def query_answer pure_def selects_read_def split: option.splits sum.splits prod.splits)

lemma deepen_least:
  assumes "selects_read sdk w" "\<forall>d \<in> set depths. \<exists>rows. rows_at sdk c start edge guards w d = Inr rows"
  shows "deepen sdk c start (''->'' @ edge @ ''->?'') guards depths w =
    (case find (\<lambda>d. rows_at sdk c start edge guards w d \<noteq> Inr []) depths of
       Some d \<Rightarrow> (rows_at sdk c start edge guards w d, w) | None \<Rightarrow> (Inr [], w))"
  using assms(2)
proof (induction depths)
  case (Cons d ds)
  then obtain rows where r: "rows_at sdk c start edge guards w d = Inr rows" by auto
  then obtain s where s: "selectTraversalSurql start (concat (replicate d (''->'' @ edge @ ''->?''))) guards = Inr s"
    and q: "fst (query_rows sdk c s w) = Inr rows" by (auto simp: rows_at_def rbind_Inr_iff)
  then have "query_rows sdk c s w = (Inr rows, w)" using traversal_reads [OF assms(1) s, of c] by (simp add: prod_eq_iff)
  then show ?case using Cons r s by (simp add: pure_def and_then_def)
qed (simp add: pure_def)


text \<open>
  C29 (liveness). The search for a shortest path ends, and returns the rows of the least depth at which there are
  any; it returns nothing only if there is nothing up to the depth asked for.
\<close>

theorem shortest_path_least:
  assumes "selects_read sdk w" "validateSqlIdentifier edge ''edge table name'' = None"
    and "recordToString a ''from'' = Inr f" "recordToString b ''to'' = Inr t"
    and "\<forall>d \<in> {1..path_depth n}. \<exists>rows. rows_at sdk c f edge (path_guards t conds) w d = Inr rows"
  shows "\<exists>rows. ShortestPath sdk (Some c) a b edge n conds w = (Inr rows, w) \<and>
    (if rows = [] then \<forall>d \<in> {1..path_depth n}. rows_at sdk c f edge (path_guards t conds) w d = Inr []
     else \<exists>d \<in> {1..path_depth n}. rows_at sdk c f edge (path_guards t conds) w d = Inr rows
       \<and> (\<forall>d' \<in> {1..<d}. rows_at sdk c f edge (path_guards t conds) w d' = Inr []))"
proof -
  let ?at = "rows_at sdk c f edge (path_guards t conds) w" and ?ds = "[1..<Suc (path_depth n)]"
  have set: "set ?ds = {1..path_depth n}" by auto
  have run: "ShortestPath sdk (Some c) a b edge n conds w
      = (case find (\<lambda>d. ?at d \<noteq> Inr []) ?ds of Some d \<Rightarrow> (?at d, w) | None \<Rightarrow> (Inr [], w))"
  proof -
    have "deepen sdk c f (''->'' @ edge @ ''->?'') (path_guards t conds) ?ds w
      = (case find (\<lambda>d. ?at d \<noteq> Inr []) ?ds of Some d \<Rightarrow> (?at d, w) | None \<Rightarrow> (Inr [], w))"
      by (rule deepen_least [OF assms(1)]) (use assms(5) set in blast)
    then show ?thesis using assms(2-4) by (simp add: ShortestPath_def ident_check_def del: upt_Suc)
  qed
  show ?thesis
  proof (cases "find (\<lambda>d. ?at d \<noteq> Inr []) ?ds")
    case None
    then have "ShortestPath sdk (Some c) a b edge n conds w = (Inr [], w)" using run by simp
    moreover have "\<forall>d \<in> {1..path_depth n}. ?at d = Inr []" using None unfolding find_None_iff set [symmetric] by blast
    ultimately show ?thesis by simp
  next
    case (Some d)
    then obtain i where i: "i < length ?ds" "?at (?ds ! i) \<noteq> Inr []" "d = ?ds ! i" "\<forall>j < i. ?at (?ds ! j) = Inr []"
      by (auto simp: find_Some_iff simp del: upt_Suc)
    then have d: "d = Suc i" "i < path_depth n" by (simp_all del: upt_Suc)
    then have "d \<in> {1..path_depth n}" by simp
    then obtain rows where rows: "?at d = Inr rows" using assms(5) by blast
    have "?at d' = Inr []" if d': "d' \<in> {1..<d}" for d'
    proof -
      have "d' - 1 < i" using d' d by auto
      then show ?thesis using i(4) d' d by (auto simp del: upt_Suc)
    qed
    then show ?thesis using run Some rows i d by auto
  qed
qed

text \<open>A server on which \<open>user:b\<close> is two steps away.\<close>

definition two_steps_sdk :: "(store, unit) sdk" where
  "two_steps_sdk = kept_sdk\<lparr>sdk_query := (\<lambda>q vars s.
     (Inr (answer_row (if str_contains q ''->knows->?->knows->?'' then Some [(''id'', StrV ''user:b'')] else None)), s))\<rparr>"

lemma two_steps_rows:
  "rows_at two_steps_sdk kept_client ''user:a'' ''knows'' (path_guards ''user:b'' []) s 1 = Inr []"
  "rows_at two_steps_sdk kept_client ''user:a'' ''knows'' (path_guards ''user:b'' []) s 2 = Inr [[(''id'', StrV ''user:b'')]]"
  by code_simp+

theorem shortest_path_least_witness:
  "\<exists>rows. ShortestPath two_steps_sdk (Some kept_client) (EndString ''user:a'') (EndString ''user:b'') ''knows'' 2 [] (\<lambda>_. None)
     = (Inr rows, \<lambda>_. None) \<and> rows \<noteq> []"
proof -
  have d: "d = 1 \<or> d = 2" if "d \<in> {1..path_depth 2}" for d using that by (auto simp: path_depth_def)
  have "selects_read two_steps_sdk (\<lambda>_. None)" by (simp add: selects_read_def two_steps_sdk_def)
  moreover have "validateSqlIdentifier ''knows'' ''edge table name'' = None" by code_simp
  moreover have "recordToString (EndString ''user:a'') ''from'' = Inr ''user:a''" "recordToString (EndString ''user:b'') ''to'' = Inr ''user:b''"
    by code_simp+
  moreover have "\<forall>d \<in> {1..path_depth 2}. \<exists>rows.
      rows_at two_steps_sdk kept_client ''user:a'' ''knows'' (path_guards ''user:b'' []) (\<lambda>_. None) d = Inr rows"
    using d two_steps_rows by blast
  moreover have "2 \<in> {1..path_depth 2}" by (simp add: path_depth_def)
  ultimately show ?thesis using shortest_path_least [of two_steps_sdk "\<lambda>_. None" "''knows''" "EndString ''user:a''" "''user:a''" "EndString ''user:b''"
      "''user:b''" 2 kept_client "[]"] two_steps_rows(2) [of "\<lambda>_. None"] by (auto split: if_splits)
qed

section \<open>Where the helpers and their documentation differ\<close>

text \<open>A record with a map in a field named \<open>result\<close> comes back as that map.\<close>

lemma result_field_unwrapped:
  "normaliseSingle (MapV [(''id'', StrV ''exam:1''), (''result'', MapV [(''score'', IntV 3)])]) = Some [(''score'', IntV 3)]"
  by simp

text \<open>An update of a record that does not exist answers no rows; the envelope of the answer is returned as the record.\<close>

lemma empty_answer_is_a_record:
  assumes "requireDB c = None" "validateDataKeys d = None" "sf_expression f \<noteq> []"
    and "sdk_query sdk (''UPDATE '' @ sf_expression f @ '' CONTENT '' @ renderDataObject d @ '';'') [] w = (Inr (answer_row None), w')"
  shows "UpdateByTarget sdk (Some c) f (Some d) w = (Inr (Some [(''status'', StrV ''OK''), (''time'', StrV []), (''result'', ListV [])]), w')"
  using assms by (simp add: UpdateByTarget_def write_target_def target_expr_def need_data_def query_answer and_then_def pure_def check_def
      one_or_normal_def ExtractOne_def extract_response answer_row_def queryResultsToEnvelopes_def envelope_def List.map_filter_simps
      result_rows_def is_envelope_def)

text \<open>Any error that says \<open>does not exist\<close> counts as a missing table.\<close>

lemma other_missing_things_ignored:
  assumes "requireDB c = None" "sdk_query sdk ''DELETE user:ann;'' [] w = (Inl (OtherFault ''The namespace does not exist''), w')"
  shows "DeleteRecord sdk (Some c) ''user'' (EndString ''ann'') w = (Inr (), w')"
proof -
  have "buildRecordTarget ''user'' (EndString ''ann'') = Inr ''user:ann''" by code_simp
  moreover have "isTableMissingError (mapQueryError (OtherFault ''The namespace does not exist''))" by code_simp
  ultimately show ?thesis using assms
    by (simp add: DeleteRecord_def delete_target_def missing_as_def and_then_def query_answer pure_def)
qed

text \<open>The part of a target after the colon is not checked.\<close>

lemma record_id_unchecked:
  "buildRecordTarget ''user'' (EndString ''1; REMOVE TABLE user'') = Inr ''user:1; REMOVE TABLE user''"
  "delete_id_target ''user'' ''1; REMOVE TABLE user'' = Inr ''user:1; REMOVE TABLE user''"
  by code_simp+

text \<open>FETCH is written before LIMIT; the grammar of SurrealQL has it after.\<close>

lemma fetch_before_limit:
  "gq_ToSurql (Some (gq_Limit 5 (gq_Fetch [''author''] (gq_Out ''wrote'' None (NewGraphQuery ''user:a'')))))
    = Inr ''SELECT * FROM user:a->wrote FETCH author LIMIT 5''"
  by code_simp

text \<open>Without an order, the last record is the first.\<close>

lemma last_is_first: "qo_order opts = None \<Longrightarrow> LastRecord sdk co table opts = FirstRecord sdk co table opts"
  by (simp add: LastRecord_def fun_eq_iff) (metis query_options.surjective query_options.update_convs(2))

text \<open>The number of pages wraps near the largest count.\<close>

lemma page_count_wraps: "total_pages 10 (2 ^ 64 - 1) = 0"
  by code_simp

end
