(* ===== verification/Query_Batch_Correct.thy ===== *)
theory Query_Batch_Correct
  imports Query_Crud_Correct
begin

text \<open>
  The statements of a batch are read back: an INSERT gives its table, its items with every field and the
  fields assigned on conflict. The items are the literals that are written
  in place (\<open>scalar\<close>); maps and slices go through the JSON encoder, which is a parameter.
\<close>

section \<open>Items\<close>

fun scalar :: "sql_any \<Rightarrow> bool" where
  "scalar (SMap m s) = False"
| "scalar (SMaps ms s) = False"
| "scalar (SList xs) = False"
| "scalar (SRecord r) = False"
| "scalar v = literal v"

lemma scalar_literal: "scalar v \<Longrightarrow> literal v \<and> nesting v = 1"
  by (cases v) simp_all

lemma renderLiteral_scalar: "scalar v \<Longrightarrow> renderLiteral json_of v = Inr (quoteValue v)"
  by (cases v) (simp_all add: renderLiteral_def split: sum.splits)

definition scalar_data :: "data_map \<Rightarrow> bool" where
  "scalar_data m \<longleftrightarrow> distinct (map fst m) \<and> (\<forall>v \<in> snd ` set m. scalar v)"

lemma scalar_readable: "scalar_data m \<Longrightarrow> contents_readable 1 m"
  using scalar_literal by (fastforce simp: scalar_data_def contents_readable_def)

lemma format_entries_text:
  assumes "\<forall>k \<in> set ks. scalar (entry_of m k)"
  shows "format_entries json_of sep m ks = Inr ts \<longleftrightarrow>
    list_all safe_ident ks \<and> ts = map (\<lambda>k. k @ sep @ quoteValue (entry_of m k)) ks"
  using assms
proof (induction ks arbitrary: ts)
  case (Cons k ks)
  then have "renderLiteral json_of (entry_of m k) = Inr (quoteValue (entry_of m k))" by (simp add: renderLiteral_scalar)
  then show ?case using Cons validateSqlIdentifier_iff [of k "''field name''"] by (auto simp: rbind_Inr_iff split: option.splits)
qed auto

lemma format_sorted:
  assumes "scalar_data m" "format_entries json_of sep m (sortedKeys m) = Inr ts"
  shows "data_ok m \<and> ts = map (\<lambda>k. k @ sep @ quoteValue (entry_of m k)) (sortedKeys m)"
proof -
  have "\<forall>k \<in> set (sortedKeys m). scalar (entry_of m k)" using assms(1) entry_of_mem by (force simp: scalar_data_def)
  note t = format_entries_text [OF this, of json_of sep ts, THEN iffD1, OF assms(2)]
  then have "list_all safe_ident (map fst m)" by (simp add: sortedKeys_def list_all_iff)
  then show ?thesis using t assms(1) by (simp add: data_ok_def list_all_iff case_prod_beta scalar_data_def)
qed

lemma sorted_entries_Nil [simp]: "sorted_entries [] = []"
  by (simp add: sorted_entries_def sortedKeys_def)

definition read_item :: "string \<Rightarrow> (entries \<times> string) option" where
  "read_item s =
     (case after ''{ '' s of
        None \<Rightarrow> None
      | Some r \<Rightarrow>
          (case after '' }'' r of
             Some r' \<Rightarrow> Some ([], r')
           | None \<Rightarrow> Option.bind (read_entries '': '' 1 r) (\<lambda>(es, r). map_option (\<lambda>r'. (es, r')) (after '' }'' r))))"

lemma item_read:
  assumes "formatItem json_of (Some m) = Inr t" "scalar_data m"
  shows "read_item (t @ rest) = Some (sorted_entries m, rest)"
proof -
  obtain ts where "format_entries json_of '': '' m (sortedKeys m) = Inr ts" "t = ''{ '' @ str_join '', '' ts @ '' }''"
    using assms(1) by (auto simp: formatItem_def rbind_Inr_iff)
  then have t: "data_ok m" "t = ''{ '' @ str_join '', '' (map (\<lambda>k. k @ '': '' @ quoteValue (entry_of m k)) (sortedKeys m)) @ '' }''"
    using format_sorted [OF assms(2)] by blast+
  show ?thesis
  proof (cases "m = []")
    case True
    then show ?thesis using t(2) by (simp add: read_item_def after_def has_prefix_def sortedKeys_def)
  next
    case False
    let ?body = "str_join '', '' (map (\<lambda>k. k @ '': '' @ quoteValue (entry_of m k)) (sortedKeys m))"
    have read: "read_entries '': '' 1 (?body @ '' }'' @ rest) = Some (sorted_entries m, '' }'' @ rest)"
      by (rule read_entries_render [OF t(1) False scalar_readable [OF assms(2)]]) (simp_all add: word_char_def is_digit_def has_prefix_def)
    obtain k ks where k: "sortedKeys m = k # ks" using False by (cases "sortedKeys m") (auto simp: sortedKeys_Nil)
    then have "safe_ident k" using t(1) entry_of_mem [of k m] by (fastforce simp: data_ok_def list_all_iff)
    then obtain c cs where "k = c # cs" "word_char c" using safe_ident_chars [of k] by (cases k) auto
    then have "after '' }'' (?body @ '' }'' @ rest) = None" using k by (cases ks) (auto simp: after_def has_prefix_def word_char_def is_digit_def)
    then show ?thesis using read unfolding t(2) read_item_def by (simp add: after_def has_prefix_def)
  qed
qed

fun read_items :: "nat \<Rightarrow> string \<Rightarrow> (entries list \<times> string) option" where
  "read_items 0 s = None"
| "read_items (Suc n) s =
     (case read_item s of
        None \<Rightarrow> None
      | Some (es, r) \<Rightarrow>
          (case after items_sep r of
             Some r' \<Rightarrow> map_option (\<lambda>(ess, r''). (es # ess, r'')) (read_items n r')
           | None \<Rightarrow> Some ([es], r)))"

definition items_of :: "data_map option list \<Rightarrow> entries list" where
  "items_of items = map (\<lambda>item. sorted_entries (item_entries item)) items"

definition items_ok :: "data_map option list \<Rightarrow> bool" where
  "items_ok items \<longleftrightarrow> (\<forall>item \<in> set items. scalar_data (item_entries item))"

lemma items_read:
  assumes "format_items json_of i items = Inr ts" "items \<noteq> []" "items_ok items" "length items \<le> n" "after items_sep rest = None"
  shows "read_items n (str_join items_sep ts @ rest) = Some (items_of items, rest)"
  using assms
proof (induction items arbitrary: i ts n)
  case (Cons item items)
  obtain t ts' where t: "formatItem json_of item = Inr t" "format_items json_of (Suc i) items = Inr ts'" "ts = t # ts'"
    using Cons.prems(1) by (auto simp: rbind_Inr_iff split: sum.splits)
  then obtain m where m: "item = Some m" by (cases item) (auto simp: formatItem_def)
  note rd = item_read [OF t(1) [unfolded m]]
  have ok: "scalar_data m" "items_ok items" using Cons.prems(3) m by (simp_all add: items_ok_def item_entries_def)
  obtain n' where n: "n = Suc n'" using Cons.prems(4) by (cases n) auto
  show ?case
  proof (cases items)
    case Nil
    then show ?thesis using t m n rd [OF ok(1)] Cons.prems(5) by (simp add: items_of_def item_entries_def)
  next
    case (Cons item2 items2)
    then obtain t2 ts2 where "ts' = t2 # ts2" using t(2) by (auto simp: rbind_Inr_iff split: sum.splits)
    moreover have "read_items n' (str_join items_sep ts' @ rest) = Some (items_of items, rest)"
      by (rule Cons.IH [OF t(2) _ ok(2)]) (use Cons Cons.prems n in simp_all)
    ultimately show ?thesis using t m n rd [OF ok(1)] by (simp add: items_of_def item_entries_def)
  qed
qed simp


section \<open>Statements\<close>

definition read_assign :: "string \<Rightarrow> (string \<times> string) option" where
  "read_assign s =
     (let k = takeWhile word_char s in
      if k = [] then None else map_option (\<lambda>r. (k, r)) (after ('' = $input.'' @ k) (drop (length k) s)))"

definition read_assigns :: "string \<Rightarrow> string list option" where
  "read_assigns r =
     (if r = '';'' then Some []
      else Option.bind (after '' ON DUPLICATE KEY UPDATE '' r) (\<lambda>r.
        (case read_seps read_assign (length r) r of Some (fs, '';'') \<Rightarrow> Some fs | _ \<Rightarrow> None)))"

definition read_insert :: "string \<Rightarrow> (string \<times> entries list \<times> string list) option" where
  "read_insert s =
     Option.bind (after ''INSERT INTO '' s) (\<lambda>r.
       (let (t, r) = until (CHR '' '') r in
        Option.bind (after ('' ['' @ CHR 0x0A # ''  '') r) (\<lambda>r.
        Option.bind (read_items (length s) r) (\<lambda>(ess, r).
        Option.bind (after (CHR 0x0A # '']'') r) (\<lambda>r. map_option (\<lambda>fs. (t, ess, fs)) (read_assigns r))))))"

lemma assign_read:
  assumes "safe_ident f" "rest = [] \<or> \<not> word_char (hd rest)"
  shows "read_assign ((f @ '' = $input.'' @ f) @ rest) = Some (f, rest)"
proof -
  have "takeWhile word_char (f @ '' = $input.'' @ f @ rest) = f"
    using safe_ident_chars [OF assms(1)] by (auto simp: list_all_iff takeWhile_append2 word_char_def is_digit_def)
  then show ?thesis using safe_ident_chars [OF assms(1)] by (simp add: read_assign_def after_def has_prefix_def)
qed

lemma valid_names_iff: "valid_names context fs = None \<longleftrightarrow> list_all safe_ident fs"
proof (induction fs)
  case (Cons f fs)
  then show ?case using validateSqlIdentifier_iff [of f "context"] by (cases "validateSqlIdentifier f context") simp_all
qed simp

lemma assigns_read:
  assumes "list_all safe_ident fs" "fs \<noteq> []"
  shows "read_assigns ('' ON DUPLICATE KEY UPDATE '' @ str_join '', '' (map (\<lambda>f. f @ '' = $input.'' @ f) fs) @ '';'') = Some fs"
proof -
  let ?body = "str_join '', '' (map (\<lambda>f. f @ '' = $input.'' @ f) fs) @ '';''"
  have len: "length gs \<le> length (str_join '', '' (map (\<lambda>f. f @ '' = $input.'' @ f) gs))" for gs :: "string list"
    by (induction gs rule: induct_list012) auto
  have "read_seps read_assign (length ?body) ?body = Some (map id fs, '';'')"
  proof (rule read_seps_join)
    show "length fs \<le> length ?body" using len [of fs] by simp
    fix f R assume "f \<in> set fs" "R = '';'' \<or> has_prefix R '', ''"
    then show "read_assign ((f @ '' = $input.'' @ f) @ R) = Some (id f, R)"
      using assms(1) assign_read [of f R] by (auto simp: list_all_iff has_prefix_iff word_char_def is_digit_def)
  qed (use assms(2) in \<open>simp_all add: has_prefix_def\<close>)
  then show ?thesis by (simp add: read_assigns_def after_def has_prefix_def)
qed

lemma format_items_length: "format_items json_of i items = Inr ts \<Longrightarrow> length ts = length items \<and> list_all (\<lambda>t. t \<noteq> []) ts"
proof (induction items arbitrary: i ts)
  case (Cons item items)
  then obtain t ts' where t: "formatItem json_of item = Inr t" "format_items json_of (Suc i) items = Inr ts'" "ts = t # ts'"
    by (auto simp: rbind_Inr_iff split: sum.splits)
  then have "t \<noteq> []" by (cases item) (auto simp: formatItem_def rbind_Inr_iff)
  then show ?case using Cons.IH [OF t(2)] t(3) by simp
qed simp

lemma insert_read:
  assumes "formatItemsArray json_of items = Inr arr" "safe_ident table" "items \<noteq> []" "items_ok items" "read_assigns tail = Some fs"
  shows "read_insert (''INSERT INTO '' @ table @ '' '' @ arr @ tail) = Some (table, items_of items, fs)"
proof -
  obtain ts where ts: "format_items json_of 0 items = Inr ts" "arr = CHR ''['' # CHR 0x0A # ''  '' @ str_join items_sep ts @ CHR 0x0A # '']''"
    using assms(1) by (auto simp: formatItemsArray_def rbind_Inr_iff)
  let ?s = "''INSERT INTO '' @ table @ '' '' @ arr @ tail"
  have "length items \<le> length (str_join items_sep ts)" using format_items_length [OF ts(1)] length_le_join [of ts items_sep] by simp
  then have "length items \<le> length ?s" using ts(2) by simp
  then have items: "read_items (length ?s) (str_join items_sep ts @ CHR 0x0A # '']'' @ tail) = Some (items_of items, CHR 0x0A # '']'' @ tail)"
    by (intro items_read [OF ts(1) assms(3,4)]) (simp_all add: items_sep_def after_def has_prefix_def)
  have "CHR '' '' \<notin> set table" using safe_ident_chars [OF assms(2)] by (auto simp: list_all_iff word_char_def is_digit_def)
  then have u: "until (CHR '' '') (table @ '' '' @ arr @ tail) = (table, '' '' @ arr @ tail)" using until_append [of "CHR '' ''" table "arr @ tail"] by simp
  have b: "after ('' ['' @ CHR 0x0A # ''  '') ('' '' @ arr @ tail) = Some (str_join items_sep ts @ CHR 0x0A # '']'' @ tail)"
    using ts(2) by (simp add: after_def has_prefix_def)
  have e: "after (CHR 0x0A # '']'') (CHR 0x0A # '']'' @ tail) = Some tail" by (simp add: after_def has_prefix_def)
  show ?thesis unfolding read_insert_def by (simp only: after_append u b items e assms(5) prod.case bind.bind_lunit option.map Let_def)
qed

text \<open>
  C30 (roundtrip). A batch is written as one INSERT that reads back as its table, every item with every field and the
  fields to assign on conflict: those asked for, or every field that occurs in an item except the id.
\<close>

theorem batch_roundtrip:
  assumes "BuildUpsertQuery json_of table items conflict_fields = Inr s" "items \<noteq> []" "items_ok items"
  shows "read_insert s = Some (table, items_of items, if conflict_fields = [] then collectAssignFields items else conflict_fields)"
proof -
  let ?fs = "if conflict_fields = [] then collectAssignFields items else conflict_fields"
  let ?tail = "if ?fs = [] then '';'' else '' ON DUPLICATE KEY UPDATE '' @ str_join '', '' (map (\<lambda>f. f @ '' = $input.'' @ f) ?fs) @ '';''"
  obtain arr where arr: "safe_ident table" "formatItemsArray json_of items = Inr arr" "s = ''INSERT INTO '' @ table @ '' '' @ arr @ ?tail"
      "?fs = [] \<or> list_all safe_ident ?fs"
    using assms(1,2) by (auto simp: BuildUpsertQuery_def Let_def rbind_Inr_iff validateSqlIdentifier_iff valid_names_iff split: option.splits if_splits)
  have "read_assigns ?tail = Some ?fs" using assigns_read [of ?fs] arr(4) by (cases "?fs = []") (auto simp: read_assigns_def)
  then show ?thesis unfolding arr(3) by (rule insert_read [OF arr(2,1) assms(2,3)])
qed

definition sample_batch :: "data_map option list" where
  "sample_batch = [Some [(''id'', SString ''user:1''), (''name'', SString (''O'' @ [squote] @ ''Hara''))], Some [(''age'', SInt (- 4))]]"


lemma sample_batch_text:
  "case BuildUpsertQuery (\<lambda>v. Inr []) ''user'' sample_batch [] of Inr s \<Rightarrow> True | Inl e \<Rightarrow> False"
  "collectAssignFields sample_batch = [''age'', ''name'']"
  by code_simp+

theorem batch_roundtrip_witness:
  "\<exists>s. BuildUpsertQuery (\<lambda>v. Inr []) ''user'' sample_batch [] = Inr s
     \<and> read_insert s = Some (''user'', items_of sample_batch, [''age'', ''name''])"
proof -
  have "items_ok sample_batch" "sample_batch \<noteq> []"
    by (auto simp: sample_batch_def items_ok_def item_entries_def scalar_data_def)
  then show ?thesis using batch_roundtrip [of "\<lambda>v. Inr []" "''user''" sample_batch "[]"] sample_batch_text
    by (auto split: sum.splits)
qed

end
