(* ===== verification/Schema_Snapshots.thy ===== *)
theory Schema_Snapshots
  imports Migration_Files Schema_Diff
begin

text \<open>
  Package \<open>migration\<close>: snapshot files (\<open>versioning.go\<close>) and the hooks around them (\<open>hooks.go\<close>): drift reports, the
  files staged in git, the pre-commit configuration and automatic snapshots. The disk is the record \<open>disk\<close> of its
  calls on a world \<open>'w\<close>; \<open>encoding/json\<close>, the layout of a time stamp, git and \<open>path/filepath\<close> are arguments.
\<close>

section \<open>Snapshots\<close>

record stored_snapshot =
  st_version :: string
  st_time :: gotime
  st_description :: string
  st_schema :: schema_snapshot
  st_accesses :: "access_definition list"

definition snapshotFileSuffix :: string where "snapshotFileSuffix = ''.snapshot.json''"

definition CreateSnapshot :: "(gotime \<Rightarrow> string) \<Rightarrow> gotime \<Rightarrow> schema_registry option \<Rightarrow> string \<Rightarrow> stored_snapshot result" where
  "CreateSnapshot layout now registry description =
     (case registry of
        None \<Rightarrow> Inl (err_new ErrValidation ''cannot create snapshot from nil registry'')
      | Some r \<Rightarrow> Inr \<lparr>st_version = layout now, st_time = now, st_description = description,
          st_schema = \<lparr>ss_tables = sorted_values (sr_tables r), ss_edges = sorted_values (sr_edges r), ss_buckets = sorted_values (sr_buckets r)\<rparr>,
          st_accesses = []\<rparr>)"

datatype stat_answer = StatDir | StatFile | StatMissing | StatError go_error

record 'w disk =
  dk_stat :: "string \<Rightarrow> 'w \<Rightarrow> stat_answer"
  dk_mkdir :: "string \<Rightarrow> 'w \<Rightarrow> go_error option \<times> 'w"
  dk_write :: "string \<Rightarrow> string \<Rightarrow> 'w \<Rightarrow> go_error option \<times> 'w"
  dk_read :: "string \<Rightarrow> 'w \<Rightarrow> string result"
  dk_list :: "string \<Rightarrow> 'w \<Rightarrow> (string \<times> bool) list result"
  dk_join :: "string \<Rightarrow> string \<Rightarrow> string"
  dk_dir :: "string \<Rightarrow> string"

record snapshot_codec =
  sc_encode :: "stored_snapshot \<Rightarrow> string result"
  sc_decode :: "string \<Rightarrow> stored_snapshot result"

definition resolveSnapshotPath :: "'w disk \<Rightarrow> string \<Rightarrow> string \<Rightarrow> 'w \<Rightarrow> string result" where
  "resolveSnapshotPath dk path version w =
     (if has_suffix path snapshotFileSuffix then Inr path
      else case dk_stat dk path w of
        StatDir \<Rightarrow> Inr (dk_join dk path (version @ snapshotFileSuffix))
      | StatFile \<Rightarrow> Inl (err_new ErrValidation (''snapshot path '' @ go_quote path @ '' exists and is neither a directory nor a ''
          @ snapshotFileSuffix @ '' file''))
      | StatMissing \<Rightarrow> Inr (dk_join dk path (version @ snapshotFileSuffix))
      | StatError e \<Rightarrow> Inl (err_wrap ErrValidation (''failed to stat snapshot path '' @ go_quote path) e))"

definition make_parent :: "'w disk \<Rightarrow> string \<Rightarrow> 'w \<Rightarrow> go_error option \<times> 'w" where
  "make_parent dk target w =
     (let dir = dk_dir dk target in
      if dir \<noteq> [] \<and> dir \<noteq> ''.'' then
        (case dk_mkdir dk dir w of
           (Some e, w') \<Rightarrow> (Some (err_wrap ErrSerialization (''failed to create snapshot directory '' @ go_quote dir) e), w')
         | (None, w') \<Rightarrow> (None, w'))
      else (None, w))"

definition StoreSnapshot :: "'w disk \<Rightarrow> snapshot_codec \<Rightarrow> stored_snapshot \<Rightarrow> string \<Rightarrow> 'w \<Rightarrow> go_error option \<times> 'w" where
  "StoreSnapshot dk sc snap path w =
     (if st_version snap = [] then (Some (err_new ErrValidation ''cannot store snapshot with empty version''), w)
      else if path = [] then (Some (err_new ErrValidation ''snapshot path cannot be empty''), w)
      else case resolveSnapshotPath dk path (st_version snap) w of
        Inl e \<Rightarrow> (Some e, w)
      | Inr target \<Rightarrow>
          (case make_parent dk target w of
             (Some e, w1) \<Rightarrow> (Some e, w1)
           | (None, w1) \<Rightarrow>
               (case sc_encode sc snap of
                  Inl e \<Rightarrow> (Some (err_wrap ErrSerialization (''failed to marshal snapshot '' @ go_quote (st_version snap)) e), w1)
                | Inr data \<Rightarrow>
                    (case dk_write dk target data w1 of
                       (Some e, w2) \<Rightarrow> (Some (err_wrap ErrSerialization (''failed to write snapshot file '' @ go_quote target) e), w2)
                     | (None, w2) \<Rightarrow> (None, w2)))))"

definition LoadSnapshot :: "'w disk \<Rightarrow> snapshot_codec \<Rightarrow> string \<Rightarrow> 'w \<Rightarrow> stored_snapshot result" where
  "LoadSnapshot dk sc path w =
     (if path = [] then Inl (err_new ErrValidation ''snapshot path cannot be empty'')
      else case dk_read dk path w of
        Inl e \<Rightarrow> Inl (err_wrap ErrMigrationLoad (''failed to read snapshot file '' @ go_quote path) e)
      | Inr data \<Rightarrow>
          (case sc_decode sc data of
             Inl e \<Rightarrow> Inl (err_wrap ErrSerialization (''failed to decode snapshot file '' @ go_quote path) e)
           | Inr snap \<Rightarrow>
               if st_version snap = [] then Inl (err_new ErrSerialization (''snapshot file '' @ go_quote path @ '' has empty version''))
               else Inr snap))"

fun load_snapshots :: "'w disk \<Rightarrow> snapshot_codec \<Rightarrow> string \<Rightarrow> (string \<times> bool) list \<Rightarrow> 'w \<Rightarrow> stored_snapshot list result" where
  "load_snapshots dk sc dir [] w = Inr []"
| "load_snapshots dk sc dir ((name, is_dir) # entries) w =
     (if is_dir \<or> \<not> has_suffix name snapshotFileSuffix then load_snapshots dk sc dir entries w
      else rbind (LoadSnapshot dk sc (dk_join dk dir name) w) (\<lambda>snap.
           rbind (load_snapshots dk sc dir entries w) (\<lambda>snaps. Inr (snap # snaps))))"

definition ListSnapshots :: "'w disk \<Rightarrow> snapshot_codec \<Rightarrow> string \<Rightarrow> 'w \<Rightarrow> stored_snapshot list result" where
  "ListSnapshots dk sc dir w =
     (if dir = [] then Inl (err_new ErrValidation ''snapshot directory cannot be empty'')
      else case dk_list dk dir w of
        Inl e \<Rightarrow> Inl (err_wrap ErrMigrationDiscovery (''failed to read snapshot directory '' @ go_quote dir) e)
      | Inr entries \<Rightarrow> rbind (load_snapshots dk sc dir entries w) (\<lambda>snaps. Inr (sort_key st_version snaps)))"

definition CompareSnapshots :: "stored_snapshot \<Rightarrow> stored_snapshot \<Rightarrow> schema_diff list result" where
  "CompareSnapshots from_snap to_snap = DiffSchemas (st_schema to_snap) (st_schema from_snap)"

section \<open>Drift reports\<close>

datatype drift_severity = DriftInfo | DriftWarning | DriftError

record drift_issue =
  di_severity :: drift_severity
  di_operation :: diff_operation
  di_table :: string
  di_field :: string
  di_description :: string

record drift_report =
  dr_detected :: bool
  dr_issues :: "drift_issue list"
  dr_suggestion :: string

fun severityForOperation :: "diff_operation \<Rightarrow> drift_severity" where
  "severityForOperation AddTable = DriftInfo"
| "severityForOperation AddField = DriftInfo"
| "severityForOperation AddIndex = DriftInfo"
| "severityForOperation AddEvent = DriftInfo"
| "severityForOperation DropTable = DriftWarning"
| "severityForOperation DropField = DriftWarning"
| "severityForOperation DropIndex = DriftWarning"
| "severityForOperation DropEvent = DriftWarning"
| "severityForOperation ModifyField = DriftWarning"
| "severityForOperation ModifyPermissions = DriftWarning"
| "severityForOperation _ = DriftInfo"

definition issue_of :: "schema_diff \<Rightarrow> drift_issue" where
  "issue_of d = \<lparr>di_severity = severityForOperation (sd_op d), di_operation = sd_op d, di_table = sd_table d, di_field = sd_field d,
     di_description = sd_description d\<rparr>"

definition CheckSchemaDriftFromSnapshots :: "stored_snapshot \<Rightarrow> stored_snapshot \<Rightarrow> drift_report result" where
  "CheckSchemaDriftFromSnapshots code recorded =
     (case DiffSchemas (st_schema code) (st_schema recorded) of
        Inl e \<Rightarrow> Inl (err_wrap ErrMigrationGeneration ''failed to diff snapshots for drift report'' e)
      | Inr ds \<Rightarrow>
          if ds = [] then Inr \<lparr>dr_detected = False, dr_issues = [], dr_suggestion = []\<rparr>
          else Inr \<lparr>dr_detected = True, dr_issues = map issue_of ds,
                 dr_suggestion = ''surql-go migrate generate -m '' @ [CHR 0x27] @ ''<describe-your-change>'' @ [CHR 0x27]\<rparr>)"

section \<open>Git\<close>

text \<open>\<open>fp_rel root path\<close> is \<open>filepath.Rel\<close>; \<open>fp_eval\<close> is \<open>EvalSymlinks\<close>.\<close>

record paths =
  fp_abs :: "string \<Rightarrow> string result"
  fp_clean :: "string \<Rightarrow> string"
  fp_rel :: "string \<Rightarrow> string \<Rightarrow> string result"
  fp_eval :: "string \<Rightarrow> string result"
  fp_join :: "string \<Rightarrow> string \<Rightarrow> string"

definition isUnderDirectory :: "paths \<Rightarrow> string \<Rightarrow> string \<Rightarrow> bool" where
  "isUnderDirectory fp candidate root =
     (if candidate = root then True
      else case fp_rel fp root candidate of
        Inl e \<Rightarrow> False
      | Inr rel \<Rightarrow> if rel = ''.'' then True else if has_prefix rel ''..'' then False else True)"

definition resolved :: "paths \<Rightarrow> string \<Rightarrow> string" where
  "resolved fp p = (case fp_eval fp p of Inr q \<Rightarrow> fp_clean fp q | Inl e \<Rightarrow> p)"

text \<open>\<open>diff_cached\<close> and \<open>top_level\<close> are what git prints in a directory, or its error.\<close>

definition staged_lines :: "string \<Rightarrow> string list" where
  "staged_lines out = filter (\<lambda>l. l \<noteq> []) (map trim_space (split_on (CHR 0x0A) (trim_space out)))"

definition GetStagedSchemaFiles :: "paths \<Rightarrow> (string \<Rightarrow> string result) \<Rightarrow> (string \<Rightarrow> string result) \<Rightarrow> string \<Rightarrow> string list result" where
  "GetStagedSchemaFiles fp diff_cached top_level schemaDir =
     (if trim_space schemaDir = [] then Inl (err_new ErrValidation ''schema directory path must not be empty'')
      else case fp_abs fp schemaDir of
        Inl e \<Rightarrow> Inl (err_wrap ErrValidation (''failed to resolve absolute path for '' @ go_quote schemaDir) e)
      | Inr absolute \<Rightarrow>
          (let dir = fp_clean fp absolute in
           rbind (diff_cached dir) (\<lambda>out.
           rbind (top_level dir) (\<lambda>top_dir.
             let root = resolved fp (fp_clean fp top_dir); schema = resolved fp dir in
             Inr (sort (filter (\<lambda>l. isUnderDirectory fp (fp_join fp root l) schema) (staged_lines out)))))))"

text \<open>\<open>stderr\<close> of an \<open>ExitError\<close>, when there is any.\<close>

definition wrapGitError :: "string option \<Rightarrow> go_error \<Rightarrow> string \<Rightarrow> go_error" where
  "wrapGitError stderr e reason =
     (case stderr of
        Some s \<Rightarrow> if s = [] then err_wrap ErrMigrationGeneration reason e else err_wrap ErrMigrationGeneration (reason @ '': '' @ trim_space s) e
      | None \<Rightarrow> err_wrap ErrMigrationGeneration reason e)"

definition text_lines :: "string list \<Rightarrow> string" where
  "text_lines ls = concat (map (\<lambda>l. l @ [CHR 0x0A]) ls)"

definition GeneratePreCommitConfig :: "string \<Rightarrow> bool \<Rightarrow> string" where
  "GeneratePreCommitConfig schemaPath failOnDrift =
     (let path = (if trim_space schemaPath = [] then ''schemas/'' else schemaPath);
          fail_flag = (if failOnDrift then '' --fail-on-drift'' else []) in
      text_lines [''repos:'', ''  - repo: local'', ''    hooks:'', ''      - id: surql-schema-check'',
        ''        name: Check schema migrations'', ''        entry: surql-go migrate check --schema '' @ path @ fail_flag,
        ''        language: system'', ''        pass_filenames: false''])"

section \<open>Automatic snapshots\<close>

text \<open>The process-wide flag is the argument \<open>enabled\<close>; \<open>EnableAutoSnapshots\<close> and \<open>DisableAutoSnapshots\<close> set it.\<close>

definition EnableAutoSnapshots :: "bool \<Rightarrow> bool" where "EnableAutoSnapshots enabled = True"
definition DisableAutoSnapshots :: "bool \<Rightarrow> bool" where "DisableAutoSnapshots enabled = False"

record 'w snapshot_hook =
  sh_registry :: "schema_registry option"
  sh_before :: "(migration \<Rightarrow> 'w \<Rightarrow> go_error option \<times> 'w) option"
  sh_after :: "(migration \<Rightarrow> stored_snapshot \<Rightarrow> string \<Rightarrow> 'w \<Rightarrow> go_error option \<times> 'w) option"

definition run_before :: "'w snapshot_hook \<Rightarrow> migration \<Rightarrow> 'w \<Rightarrow> go_error option \<times> 'w" where
  "run_before hook m w = (case sh_before hook of None \<Rightarrow> (None, w) | Some f \<Rightarrow> f m w)"

definition run_after :: "'w snapshot_hook \<Rightarrow> migration \<Rightarrow> stored_snapshot \<Rightarrow> string \<Rightarrow> 'w \<Rightarrow> go_error option \<times> 'w" where
  "run_after hook m snap path w = (case sh_after hook of None \<Rightarrow> (None, w) | Some f \<Rightarrow> f m snap path w)"

text \<open>The path and the error.\<close>

definition CreateSnapshotOnMigration ::
  "bool \<Rightarrow> 'w disk \<Rightarrow> snapshot_codec \<Rightarrow> (gotime \<Rightarrow> string) \<Rightarrow> ('w \<Rightarrow> go_error option) \<Rightarrow> ('w \<Rightarrow> gotime) \<Rightarrow> string \<Rightarrow> migration
   \<Rightarrow> 'w snapshot_hook \<Rightarrow> 'w \<Rightarrow> (string \<times> go_error option) \<times> 'w" where
  "CreateSnapshotOnMigration enabled dk sc layout cancelled clock dir m hook w =
     (if \<not> enabled then (([], None), w)
      else case cancelled w of
        Some e \<Rightarrow> (([], Some (err_wrap ErrMigrationHistory ''context cancelled before auto-snapshot'' e)), w)
      | None \<Rightarrow>
          if trim_space dir = [] then (([], Some (err_new ErrValidation ''snapshot directory must not be empty'')), w)
          else if sh_registry hook = None then (([], Some (err_new ErrValidation ''SnapshotHook.Registry must not be nil'')), w)
          else
            (case run_before hook m w of
               (Some e, w1) \<Rightarrow> (([], Some (err_wrap ErrMigrationHistory ''pre-snapshot hook failed'' e)), w1)
             | (None, w1) \<Rightarrow>
                 (case CreateSnapshot layout (clock w1) (sh_registry hook)
                         (if mg_description m = [] then ''auto-snapshot after '' @ mg_version m else mg_description m) of
                    Inl e \<Rightarrow> (([], Some (err_wrap ErrMigrationHistory ''failed to create snapshot'' e)), w1)
                  | Inr snap \<Rightarrow>
                      (case StoreSnapshot dk sc snap dir w1 of
                         (Some e, w2) \<Rightarrow> (([], Some (err_wrap ErrMigrationHistory ''failed to store snapshot'' e)), w2)
                       | (None, w2) \<Rightarrow>
                           (let path = (case resolveSnapshotPath dk dir (st_version snap) w2 of Inr p \<Rightarrow> p | Inl e \<Rightarrow> []) in
                            case run_after hook m snap path w2 of
                              (Some e, w3) \<Rightarrow> ((path, Some (err_wrap ErrMigrationHistory ''post-snapshot hook failed'' e)), w3)
                            | (None, w3) \<Rightarrow> ((path, None), w3))))))"

end
