(* ===== verification/Schema_Snapshots_Correct.thy ===== *)
theory Schema_Snapshots_Correct
  imports Schema_Snapshots Schema_Reconcile "HOL-Library.Multiset"
begin

text \<open>
  Snapshot files on a disk that keeps what was written: the snapshots stored in a directory are listed, each whole, in
  the order of their versions; the automatic snapshot of a migration is read back as the schema of the
  registry, so that the drift check finds nothing.
\<close>

section \<open>The disk\<close>

text \<open>\<open>files w n\<close> is the content of the file \<open>n\<close> of the directory \<open>d\<close>; \<open>there w\<close>: the directory exists. Any call may fail; what a
  failed write leaves of its file is not said.\<close>

definition disk_holds :: "'w disk \<Rightarrow> string \<Rightarrow> ('w \<Rightarrow> string \<Rightarrow> string option) \<Rightarrow> ('w \<Rightarrow> bool) \<Rightarrow> bool" where
  "disk_holds dk d files there \<longleftrightarrow>
     (\<forall>w. there w \<longrightarrow> dk_stat dk d w = StatDir)
   \<and> (\<forall>p w r w'. there w \<longrightarrow> dk_mkdir dk p w = (r, w') \<longrightarrow> there w' \<and> files w' = files w)
   \<and> (\<forall>n c w r w'. there w \<longrightarrow> dk_write dk (dk_join dk d n) c w = (r, w') \<longrightarrow> there w' \<and> (r = None \<longrightarrow> files w' = (files w)(n \<mapsto> c)))
   \<and> (\<forall>n w c. there w \<longrightarrow> files w n = Some c \<longrightarrow> dk_join dk d n \<noteq> [] \<and> dk_read dk (dk_join dk d n) w = Inr c)
   \<and> (\<forall>w. there w \<longrightarrow> (\<exists>es. dk_list dk d w = Inr es \<and> distinct (map fst es) \<and> {n. (n, False) \<in> set es} = dom (files w)))"

definition codec_holds :: "snapshot_codec \<Rightarrow> bool" where
  "codec_holds sc \<longleftrightarrow> (\<forall>s x. sc_encode sc s = Inr x \<longrightarrow> sc_decode sc x = Inr s)"

definition snapshot_name :: "stored_snapshot \<Rightarrow> string" where
  "snapshot_name s = st_version s @ snapshotFileSuffix"

definition plain_dir :: "string \<Rightarrow> bool" where
  "plain_dir d \<longleftrightarrow> d \<noteq> [] \<and> \<not> has_suffix d snapshotFileSuffix"

lemma resolve_in_dir:
  "disk_holds dk d files there \<Longrightarrow> there w \<Longrightarrow> plain_dir d \<Longrightarrow> resolveSnapshotPath dk d v w = Inr (dk_join dk d (v @ snapshotFileSuffix))"
proof -
  assume "disk_holds dk d files there" "there w" "plain_dir d"
  moreover from this have "dk_stat dk d w = StatDir" unfolding disk_holds_def by blast
  ultimately show ?thesis by (simp add: plain_dir_def resolveSnapshotPath_def)
qed

lemma make_parent_holds:
  assumes "disk_holds dk d files there" "there w" "make_parent dk target w = (r, w')"
  shows "there w' \<and> files w' = files w"
proof (cases "dk_dir dk target \<noteq> [] \<and> dk_dir dk target \<noteq> ''.''")
  case True
  obtain a w1 where m: "dk_mkdir dk (dk_dir dk target) w = (a, w1)" by fastforce
  then have "there w1 \<and> files w1 = files w" using assms(1,2) unfolding disk_holds_def by blast
  then show ?thesis using assms(3) True m by (cases a) (auto simp: make_parent_def Let_def)
qed (use assms in \<open>auto simp: make_parent_def Let_def\<close>)

lemma StoreSnapshot_holds:
  assumes "disk_holds dk d files there" "there w" "plain_dir d" "StoreSnapshot dk sc s d w = (None, w')"
  shows "there w' \<and> st_version s \<noteq> [] \<and> (\<exists>x. sc_encode sc s = Inr x \<and> files w' = (files w)(snapshot_name s \<mapsto> x))"
proof -
  note res = resolve_in_dir [OF assms(1-3), of "st_version s"]
  obtain a w1 where m: "make_parent dk (dk_join dk d (snapshot_name s)) w = (a, w1)" by fastforce
  have v: "st_version s \<noteq> []" using assms(4) by (auto simp: StoreSnapshot_def split: if_splits)
  have a: "a = None" using assms(3,4) res m v by (cases a) (auto simp: StoreSnapshot_def snapshot_name_def plain_dir_def)
  obtain x where x: "sc_encode sc s = Inr x"
    using assms(3,4) res m v a by (cases "sc_encode sc s") (auto simp: StoreSnapshot_def snapshot_name_def plain_dir_def)
  obtain b w2 where wr: "dk_write dk (dk_join dk d (snapshot_name s)) x w1 = (b, w2)" by fastforce
  have b: "b = None" "w' = w2" using assms(3,4) res m v a x wr
    by (cases b; auto simp: StoreSnapshot_def snapshot_name_def plain_dir_def)+
  have one: "there w1 \<and> files w1 = files w" using make_parent_holds [OF assms(1,2)] m by blast
  have "there w2 \<and> (b = None \<longrightarrow> files w2 = (files w1)(snapshot_name s \<mapsto> x))"
    using assms(1) one wr unfolding disk_holds_def by blast
  then show ?thesis using one b v x by simp
qed

section \<open>Listing\<close>

fun store_all :: "'w disk \<Rightarrow> snapshot_codec \<Rightarrow> string \<Rightarrow> stored_snapshot list \<Rightarrow> 'w \<Rightarrow> go_error option \<times> 'w" where
  "store_all dk sc d [] w = (None, w)"
| "store_all dk sc d (s # ss) w =
     (case StoreSnapshot dk sc s d w of
        (Some e, w') \<Rightarrow> (Some e, w')
      | (None, w') \<Rightarrow> store_all dk sc d ss w')"

text \<open>The snapshot files of the directory are those of \<open>ss\<close>.\<close>

definition holds_snapshots :: "snapshot_codec \<Rightarrow> (string \<Rightarrow> string option) \<Rightarrow> stored_snapshot list \<Rightarrow> bool" where
  "holds_snapshots sc fs ss \<longleftrightarrow>
     (\<forall>s \<in> set ss. st_version s \<noteq> [] \<and> (\<exists>x. sc_encode sc s = Inr x \<and> fs (snapshot_name s) = Some x))
     \<and> (\<forall>n \<in> dom fs. has_suffix n snapshotFileSuffix \<longrightarrow> n \<in> snapshot_name ` set ss)"

lemma snapshot_name_inj: "snapshot_name s = snapshot_name t \<longleftrightarrow> st_version s = st_version t"
  by (simp add: snapshot_name_def)

lemma store_all_holds:
  assumes "disk_holds dk d files there" "plain_dir d"
  shows "store_all dk sc d ss w = (None, w') \<Longrightarrow> there w \<Longrightarrow> holds_snapshots sc (files w) old \<Longrightarrow> distinct (map st_version (old @ ss))
    \<Longrightarrow> there w' \<and> holds_snapshots sc (files w') (old @ ss)"
proof (induction ss arbitrary: w old)
  case (Cons s ss)
  obtain w1 where st: "StoreSnapshot dk sc s d w = (None, w1)" "store_all dk sc d ss w1 = (None, w')"
    using Cons.prems(1) by (auto split: prod.splits option.splits)
  obtain x where x: "there w1" "st_version s \<noteq> []" "sc_encode sc s = Inr x" "files w1 = (files w)(snapshot_name s \<mapsto> x)"
    using StoreSnapshot_holds [OF assms(1) Cons.prems(2) assms(2) st(1)] by blast
  have "holds_snapshots sc (files w1) (old @ [s])"
    using Cons.prems(3,4) x unfolding holds_snapshots_def by (auto simp: snapshot_name_inj image_iff)
  then show ?case using Cons.IH [OF st(2) x(1), of "old @ [s]"] Cons.prems(4) by simp
qed simp

lemma load_snapshots_known:
  assumes "disk_holds dk d files there" "there w" "codec_holds sc" "holds_snapshots sc (files w) ss"
    and "distinct (map st_version ss)" "\<forall>n. (n, False) \<in> set es \<longrightarrow> n \<in> dom (files w)"
  shows "\<exists>out. load_snapshots dk sc d es w = Inr out
    \<and> map snapshot_name out = filter (\<lambda>n. has_suffix n snapshotFileSuffix) (map fst (filter (\<lambda>e. \<not> snd e) es)) \<and> set out \<subseteq> set ss"
  using assms(6)
proof (induction es)
  case (Cons e es)
  obtain n dir where e: "e = (n, dir)" by fastforce
  obtain out where out: "load_snapshots dk sc d es w = Inr out" "set out \<subseteq> set ss"
      "map snapshot_name out = filter (\<lambda>n. has_suffix n snapshotFileSuffix) (map fst (filter (\<lambda>e. \<not> snd e) es))"
    using Cons by auto
  show ?case
  proof (cases "dir \<or> \<not> has_suffix n snapshotFileSuffix")
    case False
    then have "n \<in> dom (files w)" using Cons.prems e by auto
    then obtain s where s: "s \<in> set ss" "n = snapshot_name s" using assms(4) False by (auto simp: holds_snapshots_def)
    then obtain x where x: "sc_encode sc s = Inr x" "files w n = Some x" "st_version s \<noteq> []" using assms(4) by (auto simp: holds_snapshots_def)
    have "dk_join dk d n \<noteq> [] \<and> dk_read dk (dk_join dk d n) w = Inr x" using assms(1,2) x(2) unfolding disk_holds_def by blast
    then have "LoadSnapshot dk sc (dk_join dk d n) w = Inr s" using assms(3) x by (simp add: LoadSnapshot_def codec_holds_def)
    then show ?thesis using out s e False by auto
  qed (use out e in auto)
qed simp

lemma filter_single: "distinct zs \<Longrightarrow> k \<in> set zs \<Longrightarrow> filter (\<lambda>x. x = k) zs = [k]"
  by (induction zs) (auto simp: filter_empty_conv)

lemma sort_key_unique:
  assumes "mset xs = mset ys" "distinct (map f ys)"
  shows "sort_key f xs = sort_key f ys"
proof (rule properties_for_sort_key)
  show "mset (sort_key f ys) = mset xs" using assms(1) by simp
  have inj: "inj_on f (set ys)" "distinct ys" using assms(2) by (auto simp: distinct_map)
  have xs: "set xs = set ys" "distinct xs" using assms(1) inj(2) by (metis mset_eq_setD, metis mset_eq_imp_distinct_iff)
  fix k assume k: "k \<in> set (sort_key f ys)"
  have one: "filter (\<lambda>x. f k = f x) zs = [k]" if "set zs = set ys" "distinct zs" for zs
  proof -
    have "filter (\<lambda>x. f k = f x) zs = filter (\<lambda>x. x = k) zs" using that(1) k inj(1) by (intro filter_cong) (auto simp: inj_on_def)
    then show ?thesis using that k by (simp add: filter_single)
  qed
  show "filter (\<lambda>x. f k = f x) (sort_key f ys) = filter (\<lambda>x. f k = f x) xs" using one [of "sort_key f ys"] one [OF xs] inj(2) by simp
qed simp

text \<open>
  C33 (roundtrip). Snapshots stored in a directory one after the other, without an error, are what the directory lists: each of
  them whole, in the order of their versions, and nothing else.
\<close>

theorem stored_snapshots_listed:
  assumes "disk_holds dk d files there" "codec_holds sc" "plain_dir d" "there w"
    and "\<forall>n \<in> dom (files w). \<not> has_suffix n snapshotFileSuffix" "distinct (map st_version ss)" "store_all dk sc d ss w = (None, w')"
  shows "ListSnapshots dk sc d w' = Inr (sort_key st_version ss)"
proof -
  have "holds_snapshots sc (files w) []" using assms(5) by (auto simp: holds_snapshots_def)
  then have h: "there w'" "holds_snapshots sc (files w') ss"
    using store_all_holds [OF assms(1,3,7,4), of "[]"] assms(6) by auto
  obtain es where es: "dk_list dk d w' = Inr es" "distinct (map fst es)" "{n. (n, False) \<in> set es} = dom (files w')"
    using assms(1) h(1) unfolding disk_holds_def by blast
  let ?names = "filter (\<lambda>n. has_suffix n snapshotFileSuffix) (map fst (filter (\<lambda>e. \<not> snd e) es))"
  obtain out where out: "load_snapshots dk sc d es w' = Inr out" "map snapshot_name out = ?names" "set out \<subseteq> set ss"
    using load_snapshots_known [OF assms(1) h(1) assms(2) h(2) assms(6), of es] es(3) by blast
  have "distinct ?names" using es(2) by (simp add: distinct_map_filter)
  then have "distinct out" using out(2) by (metis distinct_map)
  moreover have "set out = set ss"
  proof
    show "set ss \<subseteq> set out"
    proof
      fix s assume s: "s \<in> set ss"
      then have "snapshot_name s \<in> dom (files w')" using h(2) by (auto simp: holds_snapshots_def)
      then have "(snapshot_name s, False) \<in> set es" using es(3) by blast
      then have "snapshot_name s \<in> set ?names" by (force simp: snapshot_name_def)
      then obtain t where t: "t \<in> set out" "snapshot_name t = snapshot_name s" using out(2) by (metis in_set_conv_nth length_map nth_map nth_mem)
      then have "t = s" using s out(3) assms(6) by (auto simp: snapshot_name_inj distinct_map inj_on_def)
      then show "s \<in> set out" using t by simp
    qed
  qed (rule out(3))
  moreover have "distinct ss" using assms(6) by (simp add: distinct_map)
  ultimately have "mset out = mset ss" by (simp add: set_eq_iff_mset_eq_distinct)
  then have "sort_key st_version out = sort_key st_version ss" using assms(6) by (rule sort_key_unique)
  then show ?thesis using assms(3) es(1) out(1) by (simp add: ListSnapshots_def plain_dir_def)
qed

section \<open>Automatic snapshots\<close>

lemma same_by_refl: "(\<And>x. x \<in> set xs \<Longrightarrow> same x x) \<Longrightarrow> distinct (map nm xs) \<Longrightarrow> same_by nm same xs xs"
  by (auto simp: same_by_def distinct_map inj_on_def)

lemma fieldsEqual_refl: "fieldsEqual f f"
  by (simp add: fieldsEqual_def)

lemma same_table_refl: "wf_table t \<Longrightarrow> same_table t t"
  by (auto simp: same_table_def wf_table_def fieldsEqual_refl intro: same_by_refl)

lemma same_schema_refl: "wf_snapshot s \<Longrightarrow> same_schema s s"
  unfolding same_schema_def by (auto simp: wf_snapshot_def intro!: same_by_refl same_table_refl)

definition contents :: "schema_registry \<Rightarrow> schema_snapshot" where
  "contents r = \<lparr>ss_tables = sorted_values (sr_tables r), ss_edges = sorted_values (sr_edges r), ss_buckets = sorted_values (sr_buckets r)\<rparr>"

definition before_keeps :: "'w snapshot_hook \<Rightarrow> ('w \<Rightarrow> bool) \<Rightarrow> bool" where
  "before_keeps hook there \<longleftrightarrow> (\<forall>f m w r w'. sh_before hook = Some f \<longrightarrow> there w \<longrightarrow> f m w = (r, w') \<longrightarrow> there w')"

text \<open>
  C34 (safety). The automatic snapshot of a migration: with the flag set and no error, the file at the path returned holds
  the schema of the registry, and the drift check of that registry against it finds nothing; with the flag unset nothing
  happens.
\<close>

theorem automatic_snapshot_no_drift:
  assumes "disk_holds dk d files there" "codec_holds sc" "plain_dir d" "there w"
    and "sh_registry hook = Some r" "before_keeps hook there" "sh_after hook = None" "wf_snapshot (contents r)"
    and "CreateSnapshotOnMigration enabled dk sc layout cancelled clock d m hook w = ((path, None), w')"
  shows "if enabled then \<exists>snap. LoadSnapshot dk sc path w' = Inr snap \<and> st_schema snap = contents r
      \<and> (\<forall>code. CreateSnapshot layout now (Some r) descr = Inr code \<longrightarrow>
          CheckSchemaDriftFromSnapshots code snap = Inr \<lparr>dr_detected = False, dr_issues = [], dr_suggestion = []\<rparr>)
    else path = [] \<and> w' = w"
proof (cases enabled)
  case True
  let ?descr = "if mg_description m = [] then ''auto-snapshot after '' @ mg_version m else mg_description m"
  obtain a w1 where b: "run_before hook m w = (a, w1)" by fastforce
  have run: "cancelled w = None" "trim_space d \<noteq> []" "a = None"
    using assms(5,9) True b by (auto simp: CreateSnapshotOnMigration_def split: option.splits if_splits)
  have there1: "there w1" using b assms(4,6) by (auto simp: run_before_def before_keeps_def split: option.splits)
  define snap where "snap = \<lparr>st_version = layout (clock w1), st_time = clock w1, st_description = ?descr, st_schema = contents r, st_accesses = []\<rparr>"
  have create: "CreateSnapshot layout (clock w1) (Some r) ?descr = Inr snap" by (simp add: CreateSnapshot_def snap_def contents_def)
  obtain e w2 where st: "StoreSnapshot dk sc snap d w1 = (e, w2)" by fastforce
  have e: "e = None" using assms(5,9) True b run create st by (cases e) (auto simp: CreateSnapshotOnMigration_def)
  obtain x where x: "there w2" "st_version snap \<noteq> []" "sc_encode sc snap = Inr x" "files w2 = (files w1)(snapshot_name snap \<mapsto> x)"
    using StoreSnapshot_holds [OF assms(1) there1 assms(3)] st e by blast
  note res = resolve_in_dir [OF assms(1) x(1) assms(3), of "st_version snap", folded snapshot_name_def]
  have path: "path = dk_join dk d (snapshot_name snap)" "w' = w2"
    using assms(5,7,9) True b run create st e res by (auto simp: CreateSnapshotOnMigration_def run_after_def)
  have "dk_join dk d (snapshot_name snap) \<noteq> [] \<and> dk_read dk (dk_join dk d (snapshot_name snap)) w2 = Inr x"
    using assms(1) x(1,4) unfolding disk_holds_def by (metis fun_upd_same)
  then have load: "LoadSnapshot dk sc path w' = Inr snap" using assms(2) x(2,3) path by (simp add: LoadSnapshot_def codec_holds_def)
  have "DiffSchemas (contents r) (contents r) = Inr []" using no_diffs_same [OF assms(8,8)] same_schema_refl [OF assms(8)] by simp
  then show ?thesis using load True
    by (auto simp: snap_def CreateSnapshot_def contents_def CheckSchemaDriftFromSnapshots_def intro!: exI [of _ snap])
qed (use assms(9) in \<open>simp add: CreateSnapshotOnMigration_def\<close>)


section \<open>A disk\<close>

text \<open>The files by their paths, without duplicates.\<close>

type_synonym toy_files = "(string \<times> string) list"

definition toy_disk :: "toy_files disk" where
  "toy_disk = \<lparr>dk_stat = (\<lambda>p w. StatDir), dk_mkdir = (\<lambda>p w. (None, w)), dk_write = (\<lambda>p c w. (None, (p, c) # filter (\<lambda>e. fst e \<noteq> p) w)),
     dk_read = (\<lambda>p w. case map_of w p of Some c \<Rightarrow> Inr c | None \<Rightarrow> Inl (Opaque ''no such file'')),
     dk_list = (\<lambda>d w. Inr (map (\<lambda>e. (drop (Suc (length d)) (fst e), False)) (filter (\<lambda>e. has_prefix (fst e) (d @ ''/'')) w))),
     dk_join = (\<lambda>d n. d @ ''/'' @ n), dk_dir = (\<lambda>p. ''snaps'')\<rparr>"

definition toy_content :: "toy_files \<Rightarrow> string \<Rightarrow> string option" where
  "toy_content w n = map_of w (''snaps/'' @ n)"

definition toy_distinct :: "toy_files \<Rightarrow> bool" where
  "toy_distinct w \<longleftrightarrow> distinct (map fst w)"

lemma toy_disk_simps:
  "dk_stat toy_disk p w = StatDir" "dk_mkdir toy_disk p w = (None, w)" "dk_write toy_disk p c w = (None, (p, c) # filter (\<lambda>e. fst e \<noteq> p) w)"
  "dk_join toy_disk d n = d @ ''/'' @ n" "dk_dir toy_disk p = ''snaps''"
  by (simp_all add: toy_disk_def)

lemma map_of_filter_neq: "map_of (filter (\<lambda>e. fst e \<noteq> p) w) q = (if q = p then None else map_of w q)"
  by (induction w) auto

lemma toy_disk_holds: "disk_holds toy_disk ''snaps'' toy_content toy_distinct"
proof -
  have list: "distinct (map fst es) \<and> {n. (n, False) \<in> set es} = dom (toy_content w)"
    if w: "toy_distinct w" and es: "dk_list toy_disk ''snaps'' w = Inr es" for w es
  proof
    let ?fs = "filter (\<lambda>e. has_prefix (fst e) ''snaps/'') w"
    have es: "es = map (\<lambda>e. (drop 6 (fst e), False)) ?fs" using es by (simp add: toy_disk_def numeral_eq_Suc)
    have inj: "fst a = fst b" if "a \<in> set ?fs" "b \<in> set ?fs" "drop 6 (fst a) = drop 6 (fst b)" for a b
      using that by (auto simp: has_prefix_iff)
    have "distinct (map fst ?fs)" using w by (simp add: toy_distinct_def distinct_map_filter)
    then have f: "inj_on fst (set ?fs)" "distinct ?fs" by (simp_all only: distinct_map)
    have "inj_on (drop 6 \<circ> fst) (set ?fs)"
    proof (rule inj_onI)
      fix a b assume "a \<in> set ?fs" "b \<in> set ?fs" "(drop 6 \<circ> fst) a = (drop 6 \<circ> fst) b"
      then show "a = b" using inj [of a b] inj_onD [OF f(1), of a b] by simp
    qed
    then have "distinct (map (drop 6 \<circ> fst) ?fs)" using f(2) by (simp add: distinct_map)
    then show "distinct (map fst es)" unfolding es by (simp add: o_def)
    show "{n. (n, False) \<in> set es} = dom (toy_content w)"
    proof (rule set_eqI)
      fix n
      have "n \<in> dom (toy_content w) \<longleftrightarrow> ''snaps/'' @ n \<in> fst ` set w" by (simp add: toy_content_def domIff map_of_eq_None_iff)
      also have "\<dots> \<longleftrightarrow> n \<in> {n. (n, False) \<in> set es}" unfolding es by (force simp: has_prefix_iff)
      finally show "n \<in> {n. (n, False) \<in> set es} \<longleftrightarrow> n \<in> dom (toy_content w)" by simp
    qed
  qed
  have wr: "toy_distinct w' \<and> toy_content w' = (toy_content w)(n \<mapsto> c)"
    if "toy_distinct w" "dk_write toy_disk (dk_join toy_disk ''snaps'' n) c w = (r, w')" for n c w r w'
    using that by (auto simp: toy_disk_def toy_distinct_def toy_content_def distinct_map_filter map_of_filter_neq fun_eq_iff)
  have "\<exists>es. dk_list toy_disk ''snaps'' w = Inr es" for w by (simp add: toy_disk_def)
  then have "\<forall>w. toy_distinct w \<longrightarrow> (\<exists>es. dk_list toy_disk ''snaps'' w = Inr es \<and> distinct (map fst es) \<and> {n. (n, False) \<in> set es} = dom (toy_content w))"
    using list by blast
  moreover have "\<forall>w. toy_distinct w \<longrightarrow> dk_stat toy_disk ''snaps'' w = StatDir"
    "\<forall>p w r w'. toy_distinct w \<longrightarrow> dk_mkdir toy_disk p w = (r, w') \<longrightarrow> toy_distinct w' \<and> toy_content w' = toy_content w"
    "\<forall>n w c. toy_distinct w \<longrightarrow> toy_content w n = Some c \<longrightarrow> dk_join toy_disk ''snaps'' n \<noteq> []
       \<and> dk_read toy_disk (dk_join toy_disk ''snaps'' n) w = Inr c"
    by (simp_all add: toy_disk_def toy_content_def)
  ultimately show ?thesis unfolding disk_holds_def using wr by blast
qed

definition snap_of :: "string \<Rightarrow> schema_snapshot \<Rightarrow> stored_snapshot" where
  "snap_of v s = \<lparr>st_version = v, st_time = 0, st_description = ''auto-snapshot after 7'', st_schema = s, st_accesses = []\<rparr>"

definition user_tables :: schema_snapshot where "user_tables = user_schema [name_field] []"

definition toy_codec :: snapshot_codec where
  "toy_codec = \<lparr>sc_encode = (\<lambda>s. if s = snap_of ''1'' user_tables then Inr ''a'' else if s = snap_of ''2'' user_tables then Inr ''b'' else Inl (Opaque ''unsupported'')),
     sc_decode = (\<lambda>x. Inr (if x = ''a'' then snap_of ''1'' user_tables else snap_of ''2'' user_tables))\<rparr>"

lemma toy_codec_holds: "codec_holds toy_codec"
  by (auto simp: codec_holds_def toy_codec_def)

lemma snap_of_eq: "snap_of v s = snap_of v' s \<longleftrightarrow> v = v'" "st_version (snap_of v s) = v"
  by (auto simp: snap_of_def)

lemma plain_snaps: "plain_dir ''snaps''"
  by code_simp

definition two_files :: toy_files where
  "two_files = [(''snaps/1.snapshot.json'', ''a''), (''snaps/2.snapshot.json'', ''b'')]"

lemma toy_encode:
  "sc_encode toy_codec (snap_of ''1'' user_tables) = Inr ''a''" "sc_encode toy_codec (snap_of ''2'' user_tables) = Inr ''b''"
  by (simp_all add: toy_codec_def snap_of_eq)

lemma suffix_plain: "\<not> has_suffix ''snaps'' snapshotFileSuffix"
  by code_simp

lemma toy_store:
  "sc_encode toy_codec s = Inr c \<Longrightarrow> st_version s \<noteq> [] \<Longrightarrow>
   StoreSnapshot toy_disk toy_codec s ''snaps'' w = (None, (''snaps/'' @ snapshot_name s, c) # filter (\<lambda>e. fst e \<noteq> ''snaps/'' @ snapshot_name s) w)"
  by (simp add: StoreSnapshot_def resolveSnapshotPath_def make_parent_def Let_def toy_disk_simps snapshot_name_def suffix_plain)

lemma two_stored: "store_all toy_disk toy_codec ''snaps'' [snap_of ''2'' user_tables, snap_of ''1'' user_tables] [] = (None, two_files)"
  by (simp add: toy_store toy_encode snap_of_eq snapshot_name_def two_files_def) (simp add: snapshotFileSuffix_def)

theorem stored_snapshots_listed_witness:
  "ListSnapshots toy_disk toy_codec ''snaps'' two_files = Inr [snap_of ''1'' user_tables, snap_of ''2'' user_tables]"
proof -
  have "sort_key st_version [snap_of ''2'' user_tables, snap_of ''1'' user_tables] = [snap_of ''1'' user_tables, snap_of ''2'' user_tables]"
    by (simp add: snap_of_eq)
  moreover have "ListSnapshots toy_disk toy_codec ''snaps'' two_files = Inr (sort_key st_version [snap_of ''2'' user_tables, snap_of ''1'' user_tables])"
    by (rule stored_snapshots_listed [OF toy_disk_holds toy_codec_holds plain_snaps _ _ _ two_stored])
      (simp_all add: toy_distinct_def toy_content_def snap_of_eq dom_def)
  ultimately show ?thesis by simp
qed

definition user_hook :: "toy_files snapshot_hook" where
  "user_hook = \<lparr>sh_registry = Some (snd (RegisterTable (NewTable ''user'' [WithFields [name_field]]) NewSchemaRegistry)), sh_before = None, sh_after = None\<rparr>"

definition seventh :: migration where
  "seventh = \<lparr>mg_version = ''7'', mg_description = [], mg_path = [], mg_up = [], mg_down = [], mg_checksum = [], mg_depends_on = []\<rparr>"


lemma user_contents: "contents (snd (RegisterTable (NewTable ''user'' [WithFields [name_field]]) NewSchemaRegistry)) = user_tables"
proof -
  have "sorted_list_of_fset {|''user''|} = [''user'']" "sorted_list_of_fset ({||} :: string fset) = []" by (simp_all add: sorted_list_of_fset.rep_eq)
  then show ?thesis
    by (simp add: contents_def user_tables_def user_schema_def RegisterTable_def NewSchemaRegistry_def sorted_values_def sorted_names_def
        map_filter_simps NewTable_def WithFields_def)
qed

definition user_layout :: "gotime \<Rightarrow> string" where "user_layout t = ''1''"

lemma user_run:
  "CreateSnapshotOnMigration True toy_disk toy_codec user_layout (\<lambda>w. None) (\<lambda>w. 0) ''snaps'' seventh user_hook []
    = ((''snaps/1.snapshot.json'', None), [(''snaps/1.snapshot.json'', ''a'')])"
proof -
  have "CreateSnapshot user_layout 0 (sh_registry user_hook) ''auto-snapshot after 7'' = Inr (snap_of ''1'' user_tables)"
    using user_contents by (simp add: CreateSnapshot_def user_hook_def snap_of_def user_layout_def contents_def)
  moreover have "StoreSnapshot toy_disk toy_codec (snap_of ''1'' user_tables) ''snaps'' [] = (None, [(''snaps/1.snapshot.json'', ''a'')])"
    by (simp add: toy_store toy_encode snap_of_eq snapshot_name_def) (simp add: snapshotFileSuffix_def)
  moreover have "resolveSnapshotPath toy_disk ''snaps'' ''1'' w = Inr ''snaps/1.snapshot.json''" for w
    by (simp add: resolveSnapshotPath_def toy_disk_simps suffix_plain) (simp add: snapshotFileSuffix_def)
  moreover have "sh_registry user_hook \<noteq> None" "run_before user_hook m w = (None, w)" "run_after user_hook m sn p w = (None, w)" for m w sn p
    by (simp_all add: user_hook_def run_before_def run_after_def)
  moreover have "trim_space ''snaps'' \<noteq> []" by code_simp
  ultimately show ?thesis by (simp add: CreateSnapshotOnMigration_def seventh_def snap_of_eq)
qed

theorem automatic_snapshot_no_drift_witness:
  "\<exists>snap. LoadSnapshot toy_disk toy_codec ''snaps/1.snapshot.json'' [(''snaps/1.snapshot.json'', ''a'')] = Inr snap \<and> st_schema snap = user_tables"
proof -
  have "sh_registry user_hook = Some (snd (RegisterTable (NewTable ''user'' [WithFields [name_field]]) NewSchemaRegistry))"
    "before_keeps user_hook toy_distinct" "sh_after user_hook = None" by (simp_all add: user_hook_def before_keeps_def)
  moreover have "wf_snapshot user_tables" by (simp add: user_tables_def user_schema_wf)
  moreover have "toy_distinct []" by (simp add: toy_distinct_def)
  ultimately show ?thesis
    using automatic_snapshot_no_drift [OF toy_disk_holds toy_codec_holds plain_snaps, of "[]" user_hook] user_run user_contents
    by fastforce
qed

section \<open>Where the code and its documentation differ\<close>

text \<open>Two snapshots of one second have one version: the second replaces the first.\<close>

lemma same_second_overwrites:
  assumes "disk_holds dk d files there" "plain_dir d" "there w" "snapshot_name s = snapshot_name t"
    and "store_all dk sc d [s, t] w = (None, w')"
  shows "\<exists>x. sc_encode sc t = Inr x \<and> files w' = (files w)(snapshot_name s \<mapsto> x)"
proof -
  obtain w1 where st: "StoreSnapshot dk sc s d w = (None, w1)" "StoreSnapshot dk sc t d w1 = (None, w')"
    using assms(5) by (auto split: prod.splits option.splits)
  note one = StoreSnapshot_holds [OF assms(1,3,2) st(1)]
  then show ?thesis using StoreSnapshot_holds [OF assms(1) _ assms(2) st(2)] assms(4) by auto
qed

text \<open>A snapshot holds no access rules; dropped and changed buckets count as information.\<close>

lemma no_accesses_kept: "CreateSnapshot layout now registry descr = Inr s \<Longrightarrow> st_accesses s = []"
  by (auto simp: CreateSnapshot_def split: option.splits)

lemma bucket_changes_informational: "severityForOperation DropBucket = DriftInfo" "severityForOperation ModifyBucket = DriftInfo"
  by simp_all

text \<open>A directory whose name starts with two dots is not under its parent.\<close>

lemma dotted_name_outside: "fp_rel fp root c = Inr ''..data/user.surql'' \<Longrightarrow> c \<noteq> root \<Longrightarrow> \<not> isUnderDirectory fp c root"
  by (simp add: isUnderDirectory_def has_prefix_def)

end
