(* ===== verification/Schema_Watcher.thy ===== *)
theory Schema_Watcher
  imports Prelude Go_Strconv Surql_Errors "HOL-Library.Multiset"
begin

text \<open>
  Package \<open>migration\<close>, \<open>watcher.go\<close>: the watcher of a schema directory. Its two goroutines, the channels between
  them and \<open>Stop\<close> are a step relation; the file system, \<open>fsnotify\<close>, the clock and the drift checker are
  parameters. A report is a value of type \<open>'r\<close>.
\<close>

section \<open>Paths\<close>

text \<open>\<open>filepath.Base\<close> and \<open>filepath.Ext\<close> on paths with \<open>/\<close>.\<close>

definition path_base :: "string \<Rightarrow> string" where
  "path_base p =
     (if p = [] then ''.''
      else let b = rev (takeWhile (\<lambda>c. c \<noteq> CHR ''/'') (dropWhile (\<lambda>c. c = CHR ''/'') (rev p))) in
        if b = [] then ''/'' else b)"

definition path_ext :: "string \<Rightarrow> string" where
  "path_ext p =
     (let r = takeWhile (\<lambda>c. c \<noteq> CHR ''/'') (rev p) in
      if CHR ''.'' \<in> set r then CHR ''.'' # rev (takeWhile (\<lambda>c. c \<noteq> CHR ''.'') r) else [])"

definition DefaultSchemaFileFilter :: "string \<Rightarrow> bool" where
  "DefaultSchemaFileFilter path =
     (let base = path_base path; ext = path_ext base in
      if ext = ''.surql'' then True
      else if ext = ''.go'' then \<not> has_suffix base ''_test.go''
      else False)"

section \<open>Events\<close>

text \<open>The bits of an \<open>fsnotify.Op\<close> are the list of the operations it has.\<close>

datatype fs_op = FsCreate | FsWrite | FsRemove | FsRename | FsChmod

record fs_event =
  fe_name :: string
  fe_ops :: "fs_op list"

datatype change_type = Created | Modified | Deleted | Renamed

record change_event =
  ce_path :: string
  ce_type :: change_type
  ce_time :: gotime

definition classifyEvent :: "fs_event \<Rightarrow> change_type" where
  "classifyEvent ev =
     (if FsRemove \<in> set (fe_ops ev) then Deleted
      else if FsRename \<in> set (fe_ops ev) then Renamed
      else if FsCreate \<in> set (fe_ops ev) then Created
      else Modified)"

section \<open>Options and life cycle\<close>

record watcher_options =
  wo_debounce :: duration
  wo_recursive :: bool
  wo_recursive_set :: bool
  wo_filter :: "(string \<Rightarrow> bool) option"
  wo_buffer :: int
  wo_on_error :: bool

definition DefaultWatcherDebounce :: duration where "DefaultWatcherDebounce = 500 * 1000000"

definition normal_options :: "watcher_options \<Rightarrow> watcher_options" where
  "normal_options opts = opts\<lparr>
     wo_debounce := if wo_debounce opts \<le> 0 then DefaultWatcherDebounce else wo_debounce opts,
     wo_recursive := \<not> wo_recursive_set opts \<or> wo_recursive opts,
     wo_filter := Some (case wo_filter opts of None \<Rightarrow> DefaultSchemaFileFilter | Some f \<Rightarrow> f),
     wo_buffer := if wo_buffer opts \<le> 0 then 8 else wo_buffer opts\<rparr>"

text \<open>\<open>ws_fsw\<close>: an \<open>fsnotify\<close> watcher was created and not given up; \<open>ws_done\<close>: the channel \<open>done\<close> is closed.\<close>

record schema_watcher =
  ws_dir :: string
  ws_opts :: "watcher_options"
  ws_fsw :: bool
  ws_running :: bool
  ws_done :: bool

text \<open>\<open>stat\<close> tells whether the directory is one.\<close>

definition NewSchemaWatcher :: "(string \<Rightarrow> bool result) \<Rightarrow> string \<Rightarrow> bool \<Rightarrow> watcher_options \<Rightarrow> schema_watcher result" where
  "NewSchemaWatcher stat dir checker_given opts =
     (if \<not> checker_given then Inl (err_new ErrValidation ''DriftChecker must not be nil'')
      else case stat dir of
        Inl e \<Rightarrow> Inl (err_wrap ErrValidation (''failed to stat schema directory '' @ go_quote dir) e)
      | Inr is_dir \<Rightarrow>
          if \<not> is_dir then Inl (err_new ErrValidation (''schema path '' @ go_quote dir @ '' is not a directory''))
          else Inr \<lparr>ws_dir = dir, ws_opts = normal_options opts, ws_fsw = False, ws_running = False, ws_done = False\<rparr>)"

text \<open>\<open>visits\<close> is what \<open>filepath.Walk\<close> visits, with its error or whether it is a directory; \<open>add\<close> is \<open>fsnotify\<close>'s.
  The errors handed to \<open>OnError\<close> and the directories watched are returned.\<close>

fun add_visits :: "(string \<Rightarrow> go_error option) \<Rightarrow> (string \<times> (go_error + bool)) list \<Rightarrow> go_error list \<times> string list" where
  "add_visits add [] = ([], [])"
| "add_visits add ((path, info) # visits) =
     (let (errs, dirs) = add_visits add visits in
      case info of
        Inl e \<Rightarrow> (err_wrap ErrValidation (''walking '' @ go_quote path) e # errs, dirs)
      | Inr is_dir \<Rightarrow>
          if \<not> is_dir then (errs, dirs)
          else (case add path of
                  Some e \<Rightarrow> (err_wrap ErrValidation (''failed to watch directory '' @ go_quote path) e # errs, dirs)
                | None \<Rightarrow> (errs, path # dirs)))"

definition addRoot ::
  "(string \<Rightarrow> go_error option) \<Rightarrow> (string \<times> (go_error + bool)) list \<Rightarrow> schema_watcher
   \<Rightarrow> go_error option \<times> go_error list \<times> string list" where
  "addRoot add visits w =
     (if \<not> wo_recursive (ws_opts w) then
        (case add (ws_dir w) of
           Some e \<Rightarrow> (Some (err_wrap ErrValidation (''failed to watch '' @ go_quote (ws_dir w)) e), [], [])
         | None \<Rightarrow> (None, [], [ws_dir w]))
      else (None, add_visits add visits))"

text \<open>\<open>created\<close> is the outcome of \<open>fsnotify.NewWatcher\<close>; on success the loops below run.\<close>

definition Start ::
  "go_error option \<Rightarrow> (string \<Rightarrow> go_error option) \<Rightarrow> (string \<times> (go_error + bool)) list \<Rightarrow> schema_watcher
   \<Rightarrow> go_error option \<times> schema_watcher" where
  "Start created add visits w =
     (if ws_running w then (Some (err_new ErrValidation ''SchemaWatcher is already running''), w)
      else case created of
        Some e \<Rightarrow> (Some (err_wrap ErrValidation ''failed to create fsnotify watcher'' e), w)
      | None \<Rightarrow>
          (case addRoot add visits w of
             (Some e, _) \<Rightarrow> (Some e, w\<lparr>ws_fsw := False, ws_running := False\<rparr>)
           | (None, _) \<Rightarrow> (None, w\<lparr>ws_fsw := True, ws_running := True\<rparr>)))"

definition Stop :: "schema_watcher \<Rightarrow> schema_watcher" where
  "Stop w = w\<lparr>ws_done := True\<rparr>"

text \<open>What an event of the file system becomes: errors, directories watched from now on, and the change to
  offer. \<open>dir_now\<close> tells whether the name is a directory at this moment.\<close>

definition handleEvent ::
  "watcher_options \<Rightarrow> (string \<Rightarrow> bool) \<Rightarrow> (string \<Rightarrow> go_error option) \<Rightarrow> gotime \<Rightarrow> fs_event
   \<Rightarrow> go_error list \<times> string list \<times> change_event option" where
  "handleEvent opts dir_now add now ev =
     (if wo_recursive opts \<and> FsCreate \<in> set (fe_ops ev) \<and> dir_now (fe_name ev) then
        (case add (fe_name ev) of
           Some e \<Rightarrow> ([err_wrap ErrValidation (''failed to watch new directory '' @ go_quote (fe_name ev)) e], [], None)
         | None \<Rightarrow> ([], [fe_name ev], None))
      else if (case wo_filter opts of Some f \<Rightarrow> \<not> f (fe_name ev) | None \<Rightarrow> False) then ([], [], None)
      else ([], [], Some \<lparr>ce_path = fe_name ev, ce_type = classifyEvent ev, ce_time = now\<rparr>))"

text \<open>\<open>overflow e\<close>: \<open>e\<close> wraps the error with which \<open>fsnotify\<close> reports an overflow of its queue.\<close>

definition IsClosed :: "(go_error \<Rightarrow> bool) \<Rightarrow> go_error option \<Rightarrow> bool" where
  "IsClosed overflow err =
     (case err of None \<Rightarrow> False | Some e \<Rightarrow> overflow e \<or> err_text e = ''fsnotify: watcher already closed'')"

section \<open>Batches\<close>

fun replace_path :: "change_event \<Rightarrow> change_event list \<Rightarrow> change_event list" where
  "replace_path ev [] = []"
| "replace_path ev (x # xs) = (if ce_path x = ce_path ev then ev # xs else x # replace_path ev xs)"

text \<open>The loop of \<open>flush\<close> runs from the end of the batch and puts what it keeps in front.\<close>

fun keep_last :: "string set \<Rightarrow> change_event list \<Rightarrow> change_event list \<Rightarrow> change_event list" where
  "keep_last seen kept [] = kept"
| "keep_last seen kept (ev # evs) =
     (if ce_path ev \<in> seen then keep_last seen kept evs else keep_last (insert (ce_path ev) seen) (ev # kept) evs)"

definition flush_order :: "change_event list \<Rightarrow> change_event list" where
  "flush_order batch = keep_last {} [] (rev batch)"

section \<open>The goroutines\<close>

text \<open>The event loop is between events, has found the channel full, has dropped the oldest, or has returned; the
  dispatcher collects, tries to send a report (and returns after it, or not), or has returned.\<close>

datatype producer = Ready | Overflowing change_event | Retrying change_event | Ended

datatype 'r dispatcher = Collecting | Sending 'r bool | Finished

text \<open>The last five components are a record of what happened: what was offered, dropped for lack of room, received since the
  last flush, received before each flush, and handed to the checker.\<close>

record 'r watching =
  wt_events :: "change_event list"
  wt_producer :: producer
  wt_dispatcher :: "'r dispatcher"
  wt_batch :: "change_event list"
  wt_dedupe :: "string \<rightharpoonup> change_event"
  wt_timer :: bool
  wt_stopped :: bool
  wt_reports :: "'r list"
  wt_errors :: "go_error list"
  wt_offered :: "change_event list"
  wt_dropped :: "change_event list"
  wt_received :: "change_event list"
  wt_segments :: "change_event list list"
  wt_checked :: "change_event list list"

definition event_buffer :: nat where "event_buffer = 64"

definition watch_start :: "'r watching" where
  "watch_start = \<lparr>wt_events = [], wt_producer = Ready, wt_dispatcher = Collecting, wt_batch = [], wt_dedupe = Map.empty, wt_timer = False,
     wt_stopped = False, wt_reports = [], wt_errors = [], wt_offered = [], wt_dropped = [], wt_received = [], wt_segments = [], wt_checked = []\<rparr>"

definition offer :: "change_event \<Rightarrow> 'r watching \<Rightarrow> 'r watching" where
  "offer ev s =
     (let s = s\<lparr>wt_offered := wt_offered s @ [ev]\<rparr> in
      if length (wt_events s) < event_buffer then s\<lparr>wt_events := wt_events s @ [ev]\<rparr> else s\<lparr>wt_producer := Overflowing ev\<rparr>)"

definition drop_oldest :: "change_event \<Rightarrow> 'r watching \<Rightarrow> 'r watching" where
  "drop_oldest ev s =
     (let s = s\<lparr>wt_producer := Retrying ev\<rparr> in
      case wt_events s of
        [] \<Rightarrow> s
      | e # es \<Rightarrow> s\<lparr>wt_events := es, wt_dropped := wt_dropped s @ [e]\<rparr>)"

definition retry :: "change_event \<Rightarrow> 'r watching \<Rightarrow> 'r watching" where
  "retry ev s =
     (let s = s\<lparr>wt_producer := Ready\<rparr> in
      if length (wt_events s) < event_buffer then s\<lparr>wt_events := wt_events s @ [ev]\<rparr> else s\<lparr>wt_dropped := wt_dropped s @ [ev]\<rparr>)"

definition gather :: "change_event \<Rightarrow> 'r watching \<Rightarrow> 'r watching" where
  "gather ev s = s\<lparr>
     wt_batch := if wt_dedupe s (ce_path ev) = None then wt_batch s @ [ev] else replace_path ev (wt_batch s),
     wt_dedupe := (wt_dedupe s)(ce_path ev \<mapsto> ev), wt_timer := True, wt_received := wt_received s @ [ev]\<rparr>"

definition next_state :: "bool \<Rightarrow> 'r dispatcher" where
  "next_state final = (if final then Finished else Collecting)"

text \<open>A flush with the outcome \<open>r\<close> of the checker; \<open>final\<close> when the loop returns after it.\<close>

definition flush :: "watcher_options \<Rightarrow> 'r option result \<Rightarrow> bool \<Rightarrow> 'r watching \<Rightarrow> 'r watching" where
  "flush opts r final s =
     (if wt_batch s = [] then s\<lparr>wt_timer := False, wt_dispatcher := next_state final\<rparr>
      else let s = s\<lparr>wt_timer := False, wt_batch := [], wt_dedupe := Map.empty, wt_checked := wt_checked s @ [flush_order (wt_batch s)],
                   wt_segments := wt_segments s @ [wt_received s], wt_received := []\<rparr> in
        case r of
          Inl e \<Rightarrow> s\<lparr>wt_errors := wt_errors s @ (if wo_on_error opts then [err_wrap ErrValidation ''drift checker failed'' e] else []),
                    wt_dispatcher := next_state final\<rparr>
        | Inr None \<Rightarrow> s\<lparr>wt_dispatcher := next_state final\<rparr>
        | Inr (Some rep) \<Rightarrow> s\<lparr>wt_dispatcher := Sending rep final\<rparr>)"

text \<open>\<open>checker evs r\<close>: the checker may answer \<open>r\<close>. A select with several ready cases takes any of them; the timer
  may fire whenever it is set.\<close>

inductive watch_step :: "watcher_options \<Rightarrow> (change_event list \<Rightarrow> 'r option result \<Rightarrow> bool) \<Rightarrow> 'r watching \<Rightarrow> 'r watching \<Rightarrow> bool"
  for opts checker where
  observe: "wt_producer s = Ready \<Longrightarrow> watch_step opts checker s (offer ev s)"
| overflow: "wt_producer s = Overflowing ev \<Longrightarrow> watch_step opts checker s (drop_oldest ev s)"
| again: "wt_producer s = Retrying ev \<Longrightarrow> watch_step opts checker s (retry ev s)"
| loop_ends: "wt_producer s = Ready \<Longrightarrow> wt_stopped s \<Longrightarrow> watch_step opts checker s (s\<lparr>wt_producer := Ended\<rparr>)"
| stop: "watch_step opts checker s (s\<lparr>wt_stopped := True\<rparr>)"
| receive: "wt_dispatcher s = Collecting \<Longrightarrow> wt_events s = ev # evs \<Longrightarrow> watch_step opts checker s (gather ev (s\<lparr>wt_events := evs\<rparr>))"
| tick: "wt_dispatcher s = Collecting \<Longrightarrow> wt_timer s \<Longrightarrow> checker (flush_order (wt_batch s)) r \<Longrightarrow> watch_step opts checker s (flush opts r False s)"
| stop_seen: "wt_dispatcher s = Collecting \<Longrightarrow> wt_stopped s \<Longrightarrow> wt_batch s = [] \<or> checker (flush_order (wt_batch s)) r \<Longrightarrow>
    watch_step opts checker s (flush opts r True s)"
| closed_seen: "wt_dispatcher s = Collecting \<Longrightarrow> wt_producer s = Ended \<Longrightarrow> wt_events s = [] \<Longrightarrow>
    wt_batch s = [] \<or> checker (flush_order (wt_batch s)) r \<Longrightarrow> watch_step opts checker s (flush opts r True s)"
| deliver: "wt_dispatcher s = Sending rep final \<Longrightarrow> int (length (wt_reports s)) < wo_buffer opts \<Longrightarrow>
    watch_step opts checker s (s\<lparr>wt_reports := wt_reports s @ [rep], wt_dispatcher := next_state final\<rparr>)"
| abandon: "wt_dispatcher s = Sending rep final \<Longrightarrow> wt_stopped s \<Longrightarrow> watch_step opts checker s (s\<lparr>wt_dispatcher := next_state final\<rparr>)"
| consume: "wt_reports s = rep # reps \<Longrightarrow> watch_step opts checker s (s\<lparr>wt_reports := reps\<rparr>)"

abbreviation watch_steps where "watch_steps opts checker \<equiv> (watch_step opts checker)\<^sup>*\<^sup>*"

section \<open>Collapsing\<close>

text \<open>The latest event of each path, in the order in which the paths appeared.\<close>

definition firsts :: "'a list \<Rightarrow> 'a list" where
  "firsts xs = rev (remdups (rev xs))"

definition collapsed :: "change_event list \<Rightarrow> change_event list" where
  "collapsed evs = map (\<lambda>p. last (filter (\<lambda>e. ce_path e = p) evs)) (firsts (map ce_path evs))"

lemma firsts_simps [simp]: "firsts [] = []" "firsts (xs @ [x]) = (if x \<in> set xs then firsts xs else firsts xs @ [x])"
  "set (firsts xs) = set xs" "distinct (firsts xs)"
  by (simp_all add: firsts_def)

lemma last_filter_path: "p \<in> ce_path ` set evs \<Longrightarrow> ce_path (last (filter (\<lambda>e. ce_path e = p) evs)) = p"
  using last_in_set [of "filter (\<lambda>e. ce_path e = p) evs"] by (auto simp: filter_empty_conv)

lemma collapsed_paths: "map ce_path (collapsed evs) = firsts (map ce_path evs)"
  by (rule nth_equalityI) (auto simp: collapsed_def intro!: last_filter_path, metis firsts_simps(3) nth_mem set_map)

lemma collapsed_Nil [simp]: "collapsed [] = []" "collapsed evs = [] \<longleftrightarrow> evs = []"
  using collapsed_paths [of evs] by (simp_all add: collapsed_def) (metis firsts_simps(3) list.map_disc_iff set_empty)

lemma collapsed_snoc:
  "collapsed (evs @ [e]) =
     (if ce_path e \<in> ce_path ` set evs then map (\<lambda>x. if ce_path x = ce_path e then e else x) (collapsed evs) else collapsed evs @ [e])"
proof -
  have "last (filter (\<lambda>x. ce_path x = p) (evs @ [e])) = (if p = ce_path e then e else last (filter (\<lambda>x. ce_path x = p) evs))"
    for p by simp
  moreover have "(if ce_path (last (filter (\<lambda>x. ce_path x = p) evs)) = ce_path e then e else last (filter (\<lambda>x. ce_path x = p) evs))
      = (if p = ce_path e then e else last (filter (\<lambda>x. ce_path x = p) evs))" if "p \<in> ce_path ` set evs" for p
    using last_filter_path [OF that] by simp
  ultimately show ?thesis by (auto simp: collapsed_def)
qed

lemma replace_path_map:
  "distinct (map ce_path xs) \<Longrightarrow> replace_path e xs = map (\<lambda>x. if ce_path x = ce_path e then e else x) xs"
  by (induction xs) (auto intro!: map_idI [symmetric] simp: image_iff)

lemma keep_last_distinct:
  "distinct (map ce_path evs) \<Longrightarrow> seen \<inter> ce_path ` set evs = {} \<Longrightarrow> keep_last seen kept evs = rev evs @ kept"
  by (induction seen kept evs rule: keep_last.induct) auto

lemma flush_order_id: "distinct (map ce_path batch) \<Longrightarrow> flush_order batch = batch"
  by (simp add: flush_order_def keep_last_distinct rev_map [symmetric])

lemma distinct_collapsed: "distinct (map ce_path (collapsed evs))"
  by (simp add: collapsed_paths)

end
