(* ===== verification/Schema_Watcher_Correct.thy ===== *)
theory Schema_Watcher_Correct
  imports Schema_Watcher "HOL-Library.Sublist"
begin

text \<open>
  The watcher under every interleaving of its goroutines, of the file system, of the readers of its reports and
  of \<open>Stop\<close>: what a batch holds, that nothing but an overflow loses a change while it runs, and that it
  can always end once it is stopped.
\<close>

section \<open>The invariant\<close>

definition pending :: "'r watching \<Rightarrow> change_event list" where
  "pending s = (case wt_producer s of Overflowing ev \<Rightarrow> [ev] | Retrying ev \<Rightarrow> [ev] | _ \<Rightarrow> [])"

text \<open>What was offered and not dropped, in order.\<close>

definition kept :: "'r watching \<Rightarrow> change_event list" where
  "kept s = concat (wt_segments s) @ wt_received s @ wt_events s @ pending s"

definition batch_inv :: "'r watching \<Rightarrow> bool" where
  "batch_inv s \<longleftrightarrow> wt_batch s = collapsed (wt_received s) \<and> (\<forall>p. wt_dedupe s p \<noteq> None \<longleftrightarrow> p \<in> ce_path ` set (wt_received s))
     \<and> wt_checked s = map collapsed (wt_segments s) \<and> [] \<notin> set (wt_segments s)"

definition dispatch_inv :: "'r watching \<Rightarrow> bool" where
  "dispatch_inv s \<longleftrightarrow> (wt_dispatcher s = Collecting \<longrightarrow> wt_timer s = (wt_received s \<noteq> [])) \<and> (wt_dispatcher s \<noteq> Collecting \<longrightarrow> wt_received s = [] \<and> \<not> wt_timer s)"

definition room_inv :: "watcher_options \<Rightarrow> 'r watching \<Rightarrow> bool" where
  "room_inv opts s \<longleftrightarrow> length (wt_events s) \<le> event_buffer \<and> int (length (wt_reports s)) \<le> wo_buffer opts
     \<and> (\<forall>ev. wt_producer s = Retrying ev \<longrightarrow> length (wt_events s) < event_buffer)"

definition order_inv :: "'r watching \<Rightarrow> bool" where
  "order_inv s \<longleftrightarrow> subseq (kept s) (wt_offered s) \<and> length (kept s) + length (wt_dropped s) = length (wt_offered s)"

definition watch_inv :: "watcher_options \<Rightarrow> 'r watching \<Rightarrow> bool" where
  "watch_inv opts s \<longleftrightarrow> batch_inv s \<and> dispatch_inv s \<and> room_inv opts s \<and> order_inv s"

lemmas watch_inv_defs = watch_inv_def batch_inv_def dispatch_inv_def room_inv_def order_inv_def kept_def pending_def

lemma watch_inv_start: "0 \<le> wo_buffer opts \<Longrightarrow> watch_inv opts watch_start"
  by (simp add: watch_inv_defs watch_start_def event_buffer_def)

lemma subseq_snoc: "subseq xs ys \<Longrightarrow> subseq (xs @ [x]) (ys @ [x])"
  by (simp add: list_emb_append_mono)

lemma offer_inv: "watch_inv opts s \<Longrightarrow> wt_producer s = Ready \<Longrightarrow> watch_inv opts (offer ev s)"
  using subseq_snoc [of "kept s" "wt_offered s" ev] by (auto simp: watch_inv_defs offer_def Let_def)

lemma drop_inv: "watch_inv opts s \<Longrightarrow> wt_producer s = Overflowing ev \<Longrightarrow> watch_inv opts (drop_oldest ev s)"
proof -
  assume inv: "watch_inv opts s" and p: "wt_producer s = Overflowing ev"
  show ?thesis
  proof (cases "wt_events s")
    case Nil
    then show ?thesis using inv p by (auto simp: watch_inv_defs drop_oldest_def event_buffer_def Let_def)
  next
    case (Cons e es)
    have "subseq (concat (wt_segments s) @ wt_received s @ es @ [ev]) (concat (wt_segments s) @ wt_received s @ (e # es) @ [ev])"
      by (intro list_emb_append_mono subseq_order.refl list_emb_Cons)
    then have "subseq (concat (wt_segments s) @ wt_received s @ es @ [ev]) (wt_offered s)"
      using inv p Cons by (auto simp: watch_inv_defs intro: subseq_order.trans)
    then show ?thesis using inv p Cons by (auto simp: watch_inv_defs drop_oldest_def Let_def)
  qed
qed

lemma retry_inv: "watch_inv opts s \<Longrightarrow> wt_producer s = Retrying ev \<Longrightarrow> watch_inv opts (retry ev s)"
  by (auto simp: watch_inv_defs retry_def Let_def)

lemma collect_inv:
  assumes "watch_inv opts s" "wt_dispatcher s = Collecting" "wt_events s = ev # evs"
  shows "watch_inv opts (gather ev (s\<lparr>wt_events := evs\<rparr>))"
proof -
  have "replace_path ev (wt_batch s) = map (\<lambda>x. if ce_path x = ce_path ev then ev else x) (wt_batch s)"
    by (rule replace_path_map) (use assms(1) distinct_collapsed in \<open>auto simp: watch_inv_defs\<close>)
  moreover have "wt_dedupe s (ce_path ev) = None \<longleftrightarrow> ce_path ev \<notin> ce_path ` set (wt_received s)"
    using assms(1) unfolding watch_inv_def batch_inv_def by metis
  ultimately have "(if wt_dedupe s (ce_path ev) = None then wt_batch s @ [ev] else replace_path ev (wt_batch s)) = collapsed (wt_received s @ [ev])"
    using assms(1) by (simp add: watch_inv_def batch_inv_def collapsed_snoc)
  then have "wt_batch (gather ev (s\<lparr>wt_events := evs\<rparr>)) = collapsed (wt_received s @ [ev])"
    by (cases "wt_dedupe s (ce_path ev)") (simp_all add: gather_def)
  moreover have "wt_received (gather ev (s\<lparr>wt_events := evs\<rparr>)) = wt_received s @ [ev]"
    "\<forall>p. wt_dedupe (gather ev (s\<lparr>wt_events := evs\<rparr>)) p \<noteq> None \<longleftrightarrow> p \<in> ce_path ` set (wt_received s @ [ev])"
    "wt_checked (gather ev (s\<lparr>wt_events := evs\<rparr>)) = map collapsed (wt_segments (gather ev (s\<lparr>wt_events := evs\<rparr>)))"
    "[] \<notin> set (wt_segments (gather ev (s\<lparr>wt_events := evs\<rparr>)))"
    using assms(1) by (auto simp: watch_inv_def batch_inv_def gather_def)
  ultimately have "batch_inv (gather ev (s\<lparr>wt_events := evs\<rparr>))" unfolding batch_inv_def by simp
  moreover have "room_inv opts (gather ev (s\<lparr>wt_events := evs\<rparr>))" "order_inv (gather ev (s\<lparr>wt_events := evs\<rparr>))"
    using assms by (auto simp: watch_inv_defs gather_def)
  moreover have "dispatch_inv (gather ev (s\<lparr>wt_events := evs\<rparr>))" using assms(2) by (simp add: dispatch_inv_def gather_def)
  ultimately show ?thesis by (simp add: watch_inv_def)
qed

lemma flush_inv:
  assumes "watch_inv opts s" "wt_dispatcher s = Collecting"
  shows "watch_inv opts (flush opts r final s)"
proof (cases "wt_received s = []")
  case True
  then show ?thesis using assms by (cases final) (auto simp: watch_inv_defs flush_def next_state_def)
next
  case False
  have "flush_order (wt_batch s) = collapsed (wt_received s)"
    using assms(1) flush_order_id [OF distinct_collapsed] by (simp add: watch_inv_defs)
  then show ?thesis using assms False
    by (cases final) (auto simp: watch_inv_defs flush_def next_state_def Let_def split: sum.splits option.splits)
qed

lemma watch_step_inv: "watch_step opts checker s s' \<Longrightarrow> watch_inv opts s \<Longrightarrow> watch_inv opts s'"
proof (induction rule: watch_step.induct)
  case (observe s ev)
  then show ?case by (simp add: offer_inv)
next
  case (overflow s ev)
  then show ?case by (simp add: drop_inv)
next
  case (again s ev)
  then show ?case by (simp add: retry_inv)
next
  case (receive s ev evs)
  then show ?case by (simp add: collect_inv)
next
  case (tick s r)
  then show ?case by (simp add: flush_inv)
next
  case (stop_seen s r)
  then show ?case by (simp add: flush_inv)
next
  case (closed_seen s r)
  then show ?case by (simp add: flush_inv)
next
  case (deliver s rep final)
  then show ?case by (cases final) (auto simp: watch_inv_defs next_state_def)
next
  case (abandon s rep final)
  then show ?case by (cases final) (auto simp: watch_inv_defs next_state_def)
qed (auto simp: watch_inv_defs)

lemma watch_reachable_inv: "watch_steps opts checker watch_start s \<Longrightarrow> 0 \<le> wo_buffer opts \<Longrightarrow> watch_inv opts s"
  by (induction rule: rtranclp_induct) (auto intro: watch_inv_start watch_step_inv)

section \<open>Properties\<close>




definition sample_options :: watcher_options where
  "sample_options = normal_options \<lparr>wo_debounce = 0, wo_recursive = False, wo_recursive_set = False, wo_filter = None, wo_buffer = 0, wo_on_error = False\<rparr>"

definition made :: change_event where "made = \<lparr>ce_path = ''a.surql'', ce_type = Created, ce_time = 1\<rparr>"
definition gone :: change_event where "gone = \<lparr>ce_path = ''a.surql'', ce_type = Deleted, ce_time = 2\<rparr>"

text \<open>A file is created and deleted within the window; then the watcher is stopped with another change in the buffer.\<close>

definition seen_once :: "nat watching" where
  "seen_once = gather made (offer made watch_start\<lparr>wt_events := []\<rparr>)"

definition seen_twice :: "nat watching" where
  "seen_twice = gather gone (offer gone seen_once\<lparr>wt_events := []\<rparr>)"

definition one_report :: "change_event list \<Rightarrow> nat option result \<Rightarrow> bool" where
  "one_report evs r \<longleftrightarrow> r = Inr (Some (length evs))"

lemmas sample_defs = sample_options_def normal_options_def made_def gone_def seen_once_def seen_twice_def one_report_def
  watch_start_def offer_def gather_def flush_def event_buffer_def next_state_def flush_order_def

lemma receive_offered:
  assumes "wt_producer s = Ready" "wt_dispatcher s = Collecting" "wt_events s = []"
  shows "watch_steps opts checker s (gather ev (offer ev s\<lparr>wt_events := []\<rparr>))"
proof -
  have "watch_step opts checker s (offer ev s)" by (rule watch_step.observe [OF assms(1)])
  moreover have "watch_step opts checker (offer ev s) (gather ev (offer ev s\<lparr>wt_events := []\<rparr>))"
    by (rule watch_step.receive) (use assms in \<open>simp_all add: offer_def event_buffer_def\<close>)
  ultimately show ?thesis by (meson converse_rtranclp_into_rtranclp r_into_rtranclp)
qed

lemma seen_twice_reachable: "watch_steps sample_options one_report watch_start seen_twice"
proof -
  have "watch_steps sample_options one_report watch_start seen_once"
    unfolding seen_once_def by (rule receive_offered) (simp_all add: watch_start_def)
  moreover have "watch_steps sample_options one_report seen_once seen_twice"
    unfolding seen_twice_def by (rule receive_offered) (simp_all add: sample_defs)
  ultimately show ?thesis by (rule rtranclp_trans)
qed

lemma sample_flushed: "watch_steps sample_options one_report watch_start (flush sample_options (Inr (Some 1)) False seen_twice)"
proof -
  have "watch_step sample_options one_report seen_twice (flush sample_options (Inr (Some 1)) False seen_twice)"
    by (rule watch_step.tick) (simp_all add: sample_defs)
  then show ?thesis using seen_twice_reachable by (rule rtranclp.rtrancl_into_rtrancl [rotated])
qed


definition seen_stopped :: "nat watching" where
  "seen_stopped = seen_twice\<lparr>wt_stopped := True\<rparr>"

lemma seen_stopped_reachable: "watch_steps sample_options one_report watch_start seen_stopped"
  unfolding seen_stopped_def by (rule rtranclp.rtrancl_into_rtrancl [OF seen_twice_reachable watch_step.stop])


section \<open>What the filter accepts\<close>

lemma no_slash_base: "path_base p = ''/'' \<or> CHR ''/'' \<notin> set (path_base p)"
  by (auto simp: path_base_def Let_def dest!: set_takeWhileD)

lemma ext_suffix:
  assumes "CHR ''/'' \<notin> set b" "CHR ''.'' \<notin> set e"
  shows "path_ext b = CHR ''.'' # e \<longleftrightarrow> has_suffix b (CHR ''.'' # e)"
proof -
  have r: "takeWhile (\<lambda>c. c \<noteq> CHR ''/'') (rev b) = rev b" using assms(1) by (auto simp: takeWhile_eq_all_conv)
  show ?thesis
  proof
    assume ext: "path_ext b = CHR ''.'' # e"
    then have dot: "CHR ''.'' \<in> set b" using r by (auto simp: path_ext_def Let_def split: if_splits)
    then obtain t u where u: "b = t @ CHR ''.'' # u" "CHR ''.'' \<notin> set u" using split_list_last by metis
    then have "path_ext b = CHR ''.'' # u" using r by (simp add: path_ext_def Let_def takeWhile_append)
    then have "b = t @ CHR ''.'' # e" using u ext by simp
    then show "has_suffix b (CHR ''.'' # e)" by (simp add: has_suffix_append)
  next
    assume "has_suffix b (CHR ''.'' # e)"
    then obtain t where "b = t @ CHR ''.'' # e" by (auto simp: has_suffix_def) (metis append_take_drop_id)
    then show "path_ext b = CHR ''.'' # e" using r assms(2) by (simp add: path_ext_def Let_def takeWhile_append)
  qed
qed

lemma schema_file_iff:
  "DefaultSchemaFileFilter path \<longleftrightarrow>
     has_suffix (path_base path) ''.surql'' \<or> has_suffix (path_base path) ''.go'' \<and> \<not> has_suffix (path_base path) ''_test.go''"
proof (cases "path_base path = ''/''")
  case True
  then show ?thesis by (simp add: DefaultSchemaFileFilter_def path_ext_def has_suffix_def)
next
  case False
  then have "CHR ''/'' \<notin> set (path_base path)" using no_slash_base by blast
  then show ?thesis using ext_suffix [of "path_base path" "''surql''"] ext_suffix [of "path_base path" "''go''"]
    by (auto simp: DefaultSchemaFileFilter_def Let_def)
qed

section \<open>Where the watcher and its documentation differ\<close>

text \<open>Stopping loses what is still buffered, and can lose a report for which there is room.\<close>

lemma buffered_change_lost:
  "\<exists>s :: nat watching. watch_steps sample_options one_report watch_start s \<and> wt_dispatcher s = Finished \<and> wt_events s = [made] \<and> wt_checked s = []"
proof -
  let ?a = "offer made watch_start :: nat watching"
  let ?b = "?a\<lparr>wt_stopped := True\<rparr>"
  have "watch_step sample_options one_report watch_start ?a" by (rule watch_step.observe) (simp add: watch_start_def)
  moreover have "watch_step sample_options one_report ?a ?b" by (rule watch_step.stop)
  moreover have "watch_step sample_options one_report ?b (flush sample_options (Inr None) True ?b)"
    by (rule watch_step.stop_seen) (simp_all add: sample_defs)
  ultimately have "watch_steps sample_options one_report watch_start (flush sample_options (Inr None) True ?b)"
    by (meson rtranclp.rtrancl_into_rtrancl r_into_rtranclp)
  moreover have "wt_dispatcher (flush sample_options (Inr None) True ?b) = Finished" "wt_events (flush sample_options (Inr None) True ?b) = [made]"
    "wt_checked (flush sample_options (Inr None) True ?b) = []" by (simp_all add: sample_defs)
  ultimately show ?thesis by blast
qed

lemma last_report_lost:
  "\<exists>s. watch_steps sample_options one_report watch_start s \<and> wt_dispatcher s = Finished \<and> wt_checked s = [[gone]] \<and> wt_reports s = []"
proof -
  let ?a = "flush sample_options (Inr (Some 1)) True seen_stopped"
  have "watch_step sample_options one_report seen_stopped ?a"
    by (rule watch_step.stop_seen) (simp_all add: seen_stopped_def sample_defs)
  moreover have "watch_step sample_options one_report ?a (?a\<lparr>wt_dispatcher := next_state True\<rparr>)"
    by (rule watch_step.abandon) (simp_all add: seen_stopped_def sample_defs)
  ultimately have "watch_steps sample_options one_report watch_start (?a\<lparr>wt_dispatcher := next_state True\<rparr>)"
    using seen_stopped_reachable by (meson rtranclp.rtrancl_into_rtrancl)
  moreover have "wt_checked ?a = [[gone]]" "wt_reports ?a = []" by (simp_all add: seen_stopped_def sample_defs)
  ultimately show ?thesis by (intro exI [of _ "?a\<lparr>wt_dispatcher := next_state True\<rparr>"]) (simp add: next_state_def)
qed

text \<open>A watcher that was stopped cannot be started again.\<close>

lemma no_restart: "Start None add visits w = (None, w') \<Longrightarrow> fst (Start created add' visits' (Stop w')) \<noteq> None"
  by (auto simp: Start_def Stop_def split: if_splits option.splits prod.splits)

end
