(* ===== verification/Connection_Registry.thy ===== *)
theory Connection_Registry
  imports Database_Client
begin

text \<open>
  Package \<open>connection\<close>: named connections (\<open>registry.go\<close>), the ambient client of a context (\<open>context.go\<close>) and the token
  bookkeeping of \<open>auth_manager.go\<close>. Clients are shared by reference, so they live in a heap; a lock held for a
  whole section makes the section one definition, and the registry is what any sequence of sections makes of it.
\<close>

section \<open>Clients in a heap\<close>

record 'w clients =
  cp_heap :: "nat \<Rightarrow> client option"
  cp_next :: nat
  cp_world :: 'w

definition put_client :: "nat \<Rightarrow> client \<Rightarrow> 'w \<Rightarrow> 'w clients \<Rightarrow> 'w clients" where
  "put_client a c w s = s\<lparr>cp_heap := (cp_heap s)(a \<mapsto> c), cp_world := w\<rparr>"

definition connected_at :: "'w clients \<Rightarrow> nat \<Rightarrow> bool" where
  "connected_at s a \<longleftrightarrow> (case cp_heap s a of Some c \<Rightarrow> IsConnected c | None \<Rightarrow> False)"

text \<open>\<open>NewDatabaseClient\<close> and, if asked, \<open>Connect\<close>.\<close>

definition open_client :: "('w, 'tx) sdk \<Rightarrow> float_ops \<Rightarrow> connection_config \<Rightarrow> bool \<Rightarrow> 'w clients \<Rightarrow> nat result \<times> 'w clients" where
  "open_client sdk fo cfg connect s =
     (case NewDatabaseClient cfg of
        Inl e \<Rightarrow> (Inl e, s)
      | Inr c \<Rightarrow>
          (let a = cp_next s; s = s\<lparr>cp_next := Suc (cp_next s)\<rparr> in
           if connect then
             (case Connect sdk fo c (cp_world s) of
                (Some e, c', w) \<Rightarrow> (Inl e, put_client a c' w s)
              | (None, c', w) \<Rightarrow> (Inr a, put_client a c' w s))
           else (Inr a, put_client a c (cp_world s) s)))"

definition disconnect_at :: "('w, 'tx) sdk \<Rightarrow> nat \<Rightarrow> 'w clients \<Rightarrow> go_error option \<times> 'w clients" where
  "disconnect_at sdk a s =
     (case cp_heap s a of
        None \<Rightarrow> (None, s)
      | Some c \<Rightarrow> (case Disconnect sdk c (cp_world s) of (e, c', w) \<Rightarrow> (e, put_client a c' w s)))"

section \<open>The registry\<close>

record registry =
  rg_connections :: "(string, nat) fmap"
  rg_configs :: "(string, connection_config) fmap"
  rg_default :: string

definition NewRegistry :: registry where
  "NewRegistry = \<lparr>rg_connections = fmempty, rg_configs = fmempty, rg_default = []\<rparr>"

record connection_options =
  ro_connect :: "bool option"
  ro_set_default :: "bool option"

definition option_or :: "'a \<Rightarrow> ('o \<Rightarrow> 'a option) \<Rightarrow> 'o option \<Rightarrow> 'a" where
  "option_or d sel opts = (case opts of None \<Rightarrow> d | Some os \<Rightarrow> (case sel os of None \<Rightarrow> d | Some x \<Rightarrow> x))"

definition not_found :: "string \<Rightarrow> go_error" where
  "not_found name = err_new ErrRegistry (''connection '' @ go_quote name @ '' not found'')"

text \<open>The section of \<open>Register\<close> under the lock.\<close>

definition insert_client :: "string \<Rightarrow> nat \<Rightarrow> connection_config \<Rightarrow> bool \<Rightarrow> registry \<Rightarrow> go_error option \<times> registry" where
  "insert_client name a cfg setDefault r =
     (if fmlookup (rg_connections r) name \<noteq> None then
        (Some (err_new ErrRegistry (''connection '' @ go_quote name @ '' already registered'')), r)
      else
        (None, r\<lparr>rg_connections := fmupd name a (rg_connections r), rg_configs := fmupd name cfg (rg_configs r),
           rg_default := if setDefault \<or> rg_default r = [] then name else rg_default r\<rparr>))"

definition RegisterConnection ::
  "('w, 'tx) sdk \<Rightarrow> float_ops \<Rightarrow> string \<Rightarrow> connection_config \<Rightarrow> connection_options option \<Rightarrow> registry \<Rightarrow> 'w clients
   \<Rightarrow> nat result \<times> registry \<times> 'w clients" where
  "RegisterConnection sdk fo name cfg opts r s =
     (if name = [] then (Inl (err_new ErrValidation ''connection name cannot be empty''), r, s)
      else
        let connect = option_or True ro_connect opts; setDefault = option_or False ro_set_default opts in
        case open_client sdk fo cfg connect s of
          (Inl e, s1) \<Rightarrow> (Inl e, r, s1)
        | (Inr a, s1) \<Rightarrow>
            (case insert_client name a cfg setDefault r of
               (Some e, r') \<Rightarrow> (Inl e, r', if connect then snd (disconnect_at sdk a s1) else s1)
             | (None, r') \<Rightarrow> (Inr a, r', s1)))"

definition firstName :: "(string, nat) fmap \<Rightarrow> string" where
  "firstName m = (case sorted_list_of_fset (fmdom m) of [] \<Rightarrow> [] | name # _ \<Rightarrow> name)"

definition remove_client :: "string \<Rightarrow> registry \<Rightarrow> nat result \<times> registry" where
  "remove_client name r =
     (case fmlookup (rg_connections r) name of
        None \<Rightarrow> (Inl (not_found name), r)
      | Some a \<Rightarrow>
          (let cs = fmdrop name (rg_connections r) in
           (Inr a, r\<lparr>rg_connections := cs, rg_configs := fmdrop name (rg_configs r),
              rg_default := if rg_default r = name then firstName cs else rg_default r\<rparr>)))"

definition UnregisterConnection :: "('w, 'tx) sdk \<Rightarrow> string \<Rightarrow> bool \<Rightarrow> registry \<Rightarrow> 'w clients \<Rightarrow> go_error option \<times> registry \<times> 'w clients" where
  "UnregisterConnection sdk name disconnect r s =
     (case remove_client name r of
        (Inl e, r') \<Rightarrow> (Some e, r', s)
      | (Inr a, r') \<Rightarrow>
          if disconnect then (case disconnect_at sdk a s of (e, s') \<Rightarrow> (e, r', s')) else (None, r', s))"

definition named :: "string \<Rightarrow> registry \<Rightarrow> string result" where
  "named name r =
     (if name = [] then
        if rg_default r = [] then Inl (err_new ErrRegistry ''no default connection set'') else Inr (rg_default r)
      else Inr name)"

definition registry_Get :: "string \<Rightarrow> registry \<Rightarrow> nat result" where
  "registry_Get name r =
     rbind (named name r) (\<lambda>n. case fmlookup (rg_connections r) n of None \<Rightarrow> Inl (not_found n) | Some a \<Rightarrow> Inr a)"

definition GetConfig :: "string \<Rightarrow> registry \<Rightarrow> connection_config result" where
  "GetConfig name r =
     rbind (named name r) (\<lambda>n. case fmlookup (rg_configs r) n of None \<Rightarrow> Inl (not_found n) | Some cfg \<Rightarrow> Inr cfg)"

definition SetDefault :: "string \<Rightarrow> registry \<Rightarrow> go_error option \<times> registry" where
  "SetDefault name r =
     (if fmlookup (rg_connections r) name = None then (Some (not_found name), r) else (None, r\<lparr>rg_default := name\<rparr>))"

definition registry_List :: "registry \<Rightarrow> string list" where
  "registry_List r = sorted_list_of_fset (fmdom (rg_connections r))"

text \<open>The clients in the order a range loop visits them.\<close>

fun disconnect_each :: "('w, 'tx) sdk \<Rightarrow> nat list \<Rightarrow> 'w clients \<Rightarrow> go_error option \<times> 'w clients" where
  "disconnect_each sdk [] s = (None, s)"
| "disconnect_each sdk (a # as) s =
     (let (e, s1) = (if connected_at s a then disconnect_at sdk a s else (None, s));
          (es, s2) = disconnect_each sdk as s1 in
      (case e of Some x \<Rightarrow> Some x | None \<Rightarrow> es, s2))"

definition DisconnectAll :: "('w, 'tx) sdk \<Rightarrow> string list \<Rightarrow> registry \<Rightarrow> 'w clients \<Rightarrow> go_error option \<times> 'w clients" where
  "DisconnectAll sdk order r s = disconnect_each sdk (List.map_filter (fmlookup (rg_connections r)) order) s"

definition reset :: "registry \<Rightarrow> registry" where
  "reset r = NewRegistry"

definition registry_Clear :: "('w, 'tx) sdk \<Rightarrow> string list \<Rightarrow> registry \<Rightarrow> 'w clients \<Rightarrow> go_error option \<times> registry \<times> 'w clients" where
  "registry_Clear sdk order r s = (case DisconnectAll sdk order r s of (e, s') \<Rightarrow> (e, reset r, s'))"

section \<open>The ambient client\<close>

text \<open>A context is the list of the clients attached to it, the innermost first; a nil client is None, a nil context the
  background context, where \<open>GetDB\<close> finds nothing either.\<close>

type_synonym ctx = "nat option list"

definition SetDB :: "nat option \<Rightarrow> ctx \<Rightarrow> ctx" where "SetDB c ctx = c # ctx"

definition GetDB :: "ctx \<Rightarrow> nat option" where
  "GetDB ctx = (case ctx of [] \<Rightarrow> None | c # _ \<Rightarrow> c)"

definition MustGetDB :: "ctx \<Rightarrow> nat result" where
  "MustGetDB ctx =
     (case GetDB ctx of
        Some a \<Rightarrow> Inr a
      | None \<Rightarrow> Inl (err_new ErrContext ''no active database connection; use ConnectionScope or SetDB first''))"

definition HasDB :: "ctx \<Rightarrow> bool" where "HasDB ctx \<longleftrightarrow> GetDB ctx \<noteq> None"
definition ClearDB :: "ctx \<Rightarrow> ctx" where "ClearDB ctx = None # ctx"

definition ConnectionScope :: "('w, 'tx) sdk \<Rightarrow> float_ops \<Rightarrow> connection_config \<Rightarrow> ctx \<Rightarrow> 'w clients \<Rightarrow> (ctx \<times> nat) result \<times> 'w clients" where
  "ConnectionScope sdk fo cfg ctx s =
     (case open_client sdk fo cfg True s of
        (Inl e, s') \<Rightarrow> (Inl e, s')
      | (Inr a, s') \<Rightarrow> (Inr (SetDB (Some a) ctx, a), s'))"

definition ConnectionOverride :: "nat option \<Rightarrow> ctx \<Rightarrow> ctx" where "ConnectionOverride c ctx = SetDB c ctx"

text \<open>The cleanup of a scope: the flag tells whether it ran before.\<close>

definition disconnectOnce :: "('w, 'tx) sdk \<Rightarrow> nat \<Rightarrow> bool \<times> 'w clients \<Rightarrow> bool \<times> 'w clients" where
  "disconnectOnce sdk a st = (case st of (done, s) \<Rightarrow> if done then (done, s) else (True, snd (disconnect_at sdk a s)))"

section \<open>Tokens\<close>

record auth_manager =
  am_client :: nat
  am_token :: string
  am_type :: string

definition NewAuthManager :: "nat option \<Rightarrow> auth_manager result" where
  "NewAuthManager c =
     (case c of
        None \<Rightarrow> Inl (err_new ErrValidation ''client cannot be nil'')
      | Some a \<Rightarrow> Inr \<lparr>am_client = a, am_token = [], am_type = []\<rparr>)"

text \<open>A call of the client at an address; \<open>call\<close> gives its result, the client after it and the world.\<close>

definition at_client :: "nat \<Rightarrow> (client \<Rightarrow> 'w \<Rightarrow> 'a \<times> client \<times> 'w) \<Rightarrow> 'a \<Rightarrow> 'w clients \<Rightarrow> 'a \<times> 'w clients" where
  "at_client a call d s =
     (case cp_heap s a of
        None \<Rightarrow> (d, s)
      | Some c \<Rightarrow> (case call c (cp_world s) of (x, c', w) \<Rightarrow> (x, put_client a c' w s)))"

definition nil_pointer :: go_error where "nil_pointer = Opaque ''nil pointer dereference''"

definition manager_Signin :: "('w, 'tx) sdk \<Rightarrow> credentials option \<Rightarrow> auth_manager \<Rightarrow> 'w clients \<Rightarrow> string result \<times> auth_manager \<times> 'w clients" where
  "manager_Signin sdk creds m s =
     (case creds of
        None \<Rightarrow> (Inl (err_new ErrValidation ''credentials cannot be nil''), m, s)
      | Some cr \<Rightarrow>
          (case at_client (am_client m) (Signin sdk (Some cr)) (Inl nil_pointer) s of
             (Inl e, s') \<Rightarrow> (Inl e, m, s')
           | (Inr token, s') \<Rightarrow> (Inr token, m\<lparr>am_token := token, am_type := AuthType cr\<rparr>, s')))"

definition manager_Signup :: "('w, 'tx) sdk \<Rightarrow> credentials \<Rightarrow> auth_manager \<Rightarrow> 'w clients \<Rightarrow> string result \<times> auth_manager \<times> 'w clients" where
  "manager_Signup sdk cr m s =
     (case at_client (am_client m) (Signup sdk cr) (Inl nil_pointer) s of
        (Inl e, s') \<Rightarrow> (Inl e, m, s')
      | (Inr token, s') \<Rightarrow> (Inr token, m\<lparr>am_token := token, am_type := ''scope''\<rparr>, s'))"

definition manager_Authenticate :: "('w, 'tx) sdk \<Rightarrow> string \<Rightarrow> auth_manager \<Rightarrow> 'w clients \<Rightarrow> go_error option \<times> auth_manager \<times> 'w clients" where
  "manager_Authenticate sdk token m s =
     (if token = [] then (Some (err_new ErrValidation ''token cannot be empty''), m, s)
      else case at_client (am_client m) (Authenticate sdk token) (Some nil_pointer) s of
        (Some e, s') \<Rightarrow> (Some e, m, s')
      | (None, s') \<Rightarrow> (None, m\<lparr>am_token := token\<rparr>, s'))"

definition manager_Invalidate :: "('w, 'tx) sdk \<Rightarrow> auth_manager \<Rightarrow> 'w clients \<Rightarrow> go_error option \<times> auth_manager \<times> 'w clients" where
  "manager_Invalidate sdk m s =
     (case at_client (am_client m) (Invalidate sdk) (Some nil_pointer) s of
        (Some e, s') \<Rightarrow> (Some e, m, s')
      | (None, s') \<Rightarrow> (None, m\<lparr>am_token := [], am_type := []\<rparr>, s'))"

definition manager_Refresh :: "('w, 'tx) sdk \<Rightarrow> auth_manager \<Rightarrow> 'w clients \<Rightarrow> go_error option \<times> 'w clients" where
  "manager_Refresh sdk m s =
     (if am_token m = [] then (Some (err_new ErrContext ''no cached token to refresh; sign in first''), s)
      else at_client (am_client m) (Authenticate sdk (am_token m)) (Some nil_pointer) s)"

definition IsAuthenticated :: "auth_manager \<Rightarrow> bool" where "IsAuthenticated m \<longleftrightarrow> am_token m \<noteq> []"

section \<open>Consistency\<close>

text \<open>Whatever sections of concurrent calls run, in whatever order.\<close>

inductive connections_reachable :: "registry \<Rightarrow> bool" where
  created: "connections_reachable NewRegistry"
| registered: "connections_reachable r \<Longrightarrow> name \<noteq> [] \<Longrightarrow> connections_reachable (snd (insert_client name a cfg d r))"
| unregistered: "connections_reachable r \<Longrightarrow> connections_reachable (snd (remove_client name r))"
| promoted: "connections_reachable r \<Longrightarrow> connections_reachable (snd (SetDefault name r))"
| cleared: "connections_reachable r \<Longrightarrow> connections_reachable (reset r)"

definition registry_ok :: "registry \<Rightarrow> bool" where
  "registry_ok r \<longleftrightarrow> fmdom (rg_configs r) = fmdom (rg_connections r) \<and> [] |\<notin>| fmdom (rg_connections r)
     \<and> (if rg_default r = [] then fmdom (rg_connections r) = {||} else rg_default r |\<in>| fmdom (rg_connections r))"

lemma set_sorted_fset: "set (sorted_list_of_fset A) = fset A"
  by (simp add: sorted_list_of_fset.rep_eq)

lemma firstName_in: "fmdom m \<noteq> {||} \<Longrightarrow> firstName m |\<in>| fmdom m"
proof (cases "sorted_list_of_fset (fmdom m)")
  case Nil
  assume "fmdom m \<noteq> {||}"
  moreover have "fset (fmdom m) = {}" using set_sorted_fset [of "fmdom m"] Nil by simp
  ultimately show ?thesis by (metis bot_fset.rep_eq fset_inject)
next
  case (Cons n ns)
  then have "n \<in> fset (fmdom m)" using set_sorted_fset [of "fmdom m"] by (metis list.set_intros(1))
  then show ?thesis by (simp add: firstName_def Cons)
qed

lemma firstName_empty: "fmdom m = {||} \<Longrightarrow> firstName m = []"
  by (simp add: firstName_def sorted_list_of_fset.rep_eq)

lemma registry_okI:
  assumes "fmdom (rg_configs r) = A" "fmdom (rg_connections r) = A" "[] |\<notin>| A"
    and "rg_default r = [] \<Longrightarrow> A = {||}" "rg_default r \<noteq> [] \<Longrightarrow> rg_default r |\<in>| A"
  shows "registry_ok r"
  using assms by (simp add: registry_ok_def)

lemma remove_ok:
  assumes ok: "registry_ok r"
  shows "registry_ok (snd (remove_client name r))"
proof (cases "fmlookup (rg_connections r) name")
  case (Some a)
  let ?cs = "fmdrop name (rg_connections r)" and ?r = "snd (remove_client name r)"
  have r: "rg_connections ?r = ?cs" "rg_configs ?r = fmdrop name (rg_configs r)"
    "rg_default ?r = (if rg_default r = name then firstName ?cs else rg_default r)"
    unfolding remove_client_def Some Let_def by simp_all
  have dom: "fmdom (fmdrop name (rg_configs r)) = fmdom ?cs" "[] |\<notin>| fmdom ?cs" using ok by (simp_all add: registry_ok_def)
  have there: "name |\<in>| fmdom (rg_connections r)" using Some by (rule fmdomI)
  show ?thesis
  proof (rule registry_okI [of _ "fmdom ?cs"])
    show "fmdom (rg_configs ?r) = fmdom ?cs" "fmdom (rg_connections ?r) = fmdom ?cs" "[] |\<notin>| fmdom ?cs" using r dom by simp_all
    have other: "rg_default r \<noteq> name \<Longrightarrow> rg_default r \<noteq> [] \<and> rg_default r |\<in>| fmdom ?cs"
      using ok there by (auto simp: registry_ok_def split: if_splits)
    show "rg_default ?r = [] \<Longrightarrow> fmdom ?cs = {||}" using other firstName_in [of ?cs] dom(2) unfolding r by (metis)
    show "rg_default ?r \<noteq> [] \<Longrightarrow> rg_default ?r |\<in>| fmdom ?cs" using other firstName_in [of ?cs] firstName_empty [of ?cs] unfolding r by metis
  qed
qed (simp add: remove_client_def ok)

lemma insert_ok:
  assumes ok: "registry_ok r" and name: "name \<noteq> []"
  shows "registry_ok (snd (insert_client name a cfg d r))"
proof (cases "fmlookup (rg_connections r) name")
  case None
  let ?r = "snd (insert_client name a cfg d r)"
  have r: "rg_connections ?r = fmupd name a (rg_connections r)" "rg_configs ?r = fmupd name cfg (rg_configs r)"
    "rg_default ?r = (if d \<or> rg_default r = [] then name else rg_default r)"
    using None by (simp_all add: insert_client_def)
  show ?thesis
  proof (rule registry_okI [of _ "finsert name (fmdom (rg_connections r))"])
    show "rg_default ?r = [] \<Longrightarrow> finsert name (fmdom (rg_connections r)) = {||}" using name r(3) by (simp split: if_splits)
    show "rg_default ?r |\<in>| finsert name (fmdom (rg_connections r))" using ok r(3) by (simp add: registry_ok_def split: if_splits)
  qed (use ok name r in \<open>simp_all add: registry_ok_def\<close>)
qed (simp add: insert_client_def ok)

lemma promote_ok:
  assumes ok: "registry_ok r"
  shows "registry_ok (snd (SetDefault name r))"
proof (cases "fmlookup (rg_connections r) name")
  case (Some a)
  have "name |\<in>| fmdom (rg_connections r)" using Some by (rule fmdomI)
  then show ?thesis using ok by (auto simp: SetDefault_def Some registry_ok_def)
qed (simp add: SetDefault_def ok)

lemma reachable_ok: "connections_reachable r \<Longrightarrow> registry_ok r"
proof (induction rule: connections_reachable.induct)
  case created
  then show ?case by (simp add: registry_ok_def NewRegistry_def)
next
  case (cleared r)
  then show ?case by (simp add: registry_ok_def NewRegistry_def reset_def)
qed (rule insert_ok remove_ok promote_ok, assumption+)+

lemma get_iff:
  assumes ok: "registry_ok r"
  shows "(\<exists>a. registry_Get name r = Inr a) \<longleftrightarrow> (\<exists>n. named name r = Inr n \<and> n |\<in>| fmdom (rg_connections r))"
    and "(\<exists>cfg. GetConfig name r = Inr cfg) \<longleftrightarrow> (\<exists>n. named name r = Inr n \<and> n |\<in>| fmdom (rg_connections r))"
proof -
  have same: "n |\<in>| fmdom (rg_connections r) \<longleftrightarrow> n |\<in>| fmdom (rg_configs r)" for n using ok by (simp add: registry_ok_def)
  show "(\<exists>a. registry_Get name r = Inr a) \<longleftrightarrow> (\<exists>n. named name r = Inr n \<and> n |\<in>| fmdom (rg_connections r))"
    by (cases "named name r") (simp_all add: registry_Get_def fmlookup_dom_iff split: option.splits)
  show "(\<exists>cfg. GetConfig name r = Inr cfg) \<longleftrightarrow> (\<exists>n. named name r = Inr n \<and> n |\<in>| fmdom (rg_connections r))"
    unfolding same by (cases "named name r") (simp_all add: GetConfig_def fmlookup_dom_iff split: option.splits)
qed

lemma listed_iff: "name \<in> set (registry_List r) \<longleftrightarrow> name |\<in>| fmdom (rg_connections r)"
  by (simp add: registry_List_def set_sorted_fset)

lemma listed_empty: "registry_List r = [] \<longleftrightarrow> fmdom (rg_connections r) = {||}"
  using set_sorted_fset [of "fmdom (rg_connections r)"] unfolding registry_List_def by (metis bot_fset.rep_eq fset_inject set_empty)

text \<open>
  C38 (invariant). However its operations interleave, the registry is consistent: every connection has its configuration, the
  default is a registered connection as long as there is any, and looking up the default succeeds exactly then.
\<close>

theorem registry_consistent:
  assumes "connections_reachable r"
  shows "registry_ok r \<and> ((\<exists>a. registry_Get [] r = Inr a) \<longleftrightarrow> registry_List r \<noteq> [])
    \<and> (\<forall>name. (\<exists>a. registry_Get name r = Inr a) \<longleftrightarrow> (\<exists>cfg. GetConfig name r = Inr cfg))
    \<and> (\<forall>name. name \<noteq> [] \<longrightarrow> ((\<exists>a. registry_Get name r = Inr a) \<longleftrightarrow> name \<in> set (registry_List r)))"
proof -
  have ok: "registry_ok r" using reachable_ok assms by blast
  have "(\<exists>a. registry_Get [] r = Inr a) \<longleftrightarrow> registry_List r \<noteq> []"
    using ok unfolding get_iff [OF ok] listed_empty by (cases "rg_default r = []") (auto simp: registry_ok_def named_def)
  then show ?thesis using ok unfolding get_iff [OF ok] by (simp add: named_def listed_iff)
qed

definition one_registry :: registry where
  "one_registry = snd (insert_client ''main'' 0 DefaultConfig False NewRegistry)"

theorem registry_consistent_witness:
  "(\<exists>a. registry_Get [] one_registry = Inr a) \<and> registry_List one_registry = [''main'']"
proof -
  have "connections_reachable one_registry" unfolding one_registry_def by (intro registered created) simp
  moreover have "registry_List one_registry = [''main'']"
    by (simp add: registry_List_def one_registry_def insert_client_def NewRegistry_def sorted_list_of_fset.rep_eq)
  ultimately show ?thesis using registry_consistent [of one_registry] by simp
qed

section \<open>Outcomes of a registration\<close>

text \<open>An error leaves the registry alone.\<close>

lemma register_error_keeps: "RegisterConnection sdk fo name cfg opts r s = (Inl e, r', s') \<Longrightarrow> r' = r"
  by (auto simp: RegisterConnection_def insert_client_def Let_def split: if_splits sum.splits prod.splits)

text \<open>A name in use: the client that was opened in the meantime is disconnected again.\<close>

lemma disconnect_at_disconnects: "\<not> connected_at (snd (disconnect_at sdk a s)) a"
  by (auto simp: connected_at_def disconnect_at_def put_client_def Disconnect_def IsConnected_def Let_def split: option.splits prod.splits if_splits)

text \<open>\<open>Clear\<close> gives up the lock between its two parts: a client registered there is forgotten, still connected.\<close>

lemma clear_forgets:
  "fmlookup (rg_connections (reset (snd (insert_client name a cfg d r)))) name = None"
  by (simp add: reset_def NewRegistry_def)

text \<open>Disconnecting the client does not tell the token bookkeeping.\<close>

lemma token_survives_disconnect:
  "manager_Signin sdk creds m s = (Inr token, m', s') \<Longrightarrow> token \<noteq> [] \<Longrightarrow>
   IsAuthenticated m' \<and> \<not> connected_at (snd (disconnect_at sdk (am_client m') s')) (am_client m')"
  by (auto simp: manager_Signin_def IsAuthenticated_def disconnect_at_disconnects split: option.splits prod.splits sum.splits)

end
