(* ===== verification/Connection_Files.thy ===== *)
theory Connection_Files
  imports Record_Ids Database_Client
begin

text \<open>
  Package \<open>connection\<close>, \<open>files.go\<close>: operations on the files of a storage bucket. The interface \<open>queryRunner\<close> is a function of the
  statement, its variables and the world; the client and a session both are one. A \<open>[]byte\<close> is told apart by an argument.
\<close>

section \<open>Operations\<close>

type_synonym 'w runner = "string \<Rightarrow> go_map \<Rightarrow> 'w \<Rightarrow> any result \<times> 'w"

text \<open>\<open>bo_bytes v\<close> are the bytes of a value of type \<open>[]byte\<close>; \<open>bo_type\<close> is \<open>%T\<close>.\<close>

record byte_ops =
  bo_bytes :: "any \<Rightarrow> string option"
  bo_type :: "any \<Rightarrow> string"

definition fileVars :: "string \<Rightarrow> string \<Rightarrow> go_map" where
  "fileVars name key = [(''bucket'', StrV name), (''key'', StrV key)]"

definition coerceData :: "byte_ops \<Rightarrow> any \<Rightarrow> any result" where
  "coerceData bo data =
     (if as_string data \<noteq> None \<or> bo_bytes bo data \<noteq> None then Inr data
      else Inl (err_new ErrValidation (''bucket data must be string or []byte, got '' @ bo_type bo data)))"

definition firstResult :: "any \<Rightarrow> any" where
  "firstResult raw =
     (case as_list raw of
        Some (first # _) \<Rightarrow> (case as_map first of Some env \<Rightarrow> map_index env ''result'' | None \<Rightarrow> NilV)
      | _ \<Rightarrow> NilV)"

text \<open>One statement; \<open>what\<close> begins the text of a failure.\<close>

definition file_error :: "string \<Rightarrow> string \<Rightarrow> string \<Rightarrow> string" where
  "file_error what name key = what @ '' '' @ name @ '':/'' @ key"

definition file_query :: "'w runner \<Rightarrow> string \<Rightarrow> string \<Rightarrow> go_map \<Rightarrow> 'w \<Rightarrow> any result \<times> 'w" where
  "file_query run stmt subject vars w =
     (case run stmt vars w of
        (Inl e, w') \<Rightarrow> (Inl (err_wrap ErrQuery (subject @ '' failed'') e), w')
      | (Inr raw, w') \<Rightarrow> (Inr raw, w'))"

definition file_effect :: "'w runner \<Rightarrow> string \<Rightarrow> string \<Rightarrow> go_map \<Rightarrow> 'w \<Rightarrow> go_error option \<times> 'w" where
  "file_effect run stmt subject vars w =
     (case file_query run stmt subject vars w of (Inl e, w') \<Rightarrow> (Some e, w') | (Inr _, w') \<Rightarrow> (None, w'))"

definition put_with :: "string \<Rightarrow> string \<Rightarrow> 'w runner \<Rightarrow> byte_ops \<Rightarrow> string \<Rightarrow> string \<Rightarrow> any \<Rightarrow> 'w \<Rightarrow> go_error option \<times> 'w" where
  "put_with stmt what run bo name key data w =
     (case coerceData bo data of
        Inl e \<Rightarrow> (Some e, w)
      | Inr payload \<Rightarrow> file_effect run stmt (file_error what name key) (map_put ''data'' payload (fileVars name key)) w)"

definition Put :: "'w runner \<Rightarrow> byte_ops \<Rightarrow> string \<Rightarrow> string \<Rightarrow> any \<Rightarrow> 'w \<Rightarrow> go_error option \<times> 'w" where
  "Put = put_with ''RETURN type::file($bucket, $key).put($data);'' ''put''"

definition PutIfNotExists :: "'w runner \<Rightarrow> byte_ops \<Rightarrow> string \<Rightarrow> string \<Rightarrow> any \<Rightarrow> 'w \<Rightarrow> go_error option \<times> 'w" where
  "PutIfNotExists = put_with ''RETURN type::file($bucket, $key).put_if_not_exists($data);'' ''put_if_not_exists''"

text \<open>What \<open>Get\<close> and \<open>GetText\<close> return; no bytes at all are None in the former and the empty string in the latter.\<close>

definition bytes_of :: "byte_ops \<Rightarrow> any \<Rightarrow> string option" where
  "bytes_of bo v = (case as_string v of Some s \<Rightarrow> Some s | None \<Rightarrow> bo_bytes bo v)"

definition read_with ::
  "string \<Rightarrow> string \<Rightarrow> 'w runner \<Rightarrow> byte_ops \<Rightarrow> string \<Rightarrow> string \<Rightarrow> 'w \<Rightarrow> string option result \<times> 'w" where
  "read_with stmt what run bo name key w =
     (case file_query run stmt (file_error what name key) (fileVars name key) w of
        (Inl e, w') \<Rightarrow> (Inl e, w')
      | (Inr raw, w') \<Rightarrow>
          (let v = firstResult raw in
           if v = NilV then (Inr None, w')
           else case bytes_of bo v of
             Some bs \<Rightarrow> (Inr (Some bs), w')
           | None \<Rightarrow> (Inl (err_new ErrQuery (file_error what name key @ '' returned unexpected type '' @ bo_type bo v)), w')))"

definition file_Get :: "'w runner \<Rightarrow> byte_ops \<Rightarrow> string \<Rightarrow> string \<Rightarrow> 'w \<Rightarrow> string option result \<times> 'w" where
  "file_Get = read_with ''RETURN type::file($bucket, $key).get();'' ''get''"

definition GetText :: "'w runner \<Rightarrow> byte_ops \<Rightarrow> string \<Rightarrow> string \<Rightarrow> 'w \<Rightarrow> string result \<times> 'w" where
  "GetText run bo name key w =
     (case read_with ''RETURN <string>type::file($bucket, $key).get();'' ''get_text'' run bo name key w of
        (Inl e, w') \<Rightarrow> (Inl e, w')
      | (Inr r, w') \<Rightarrow> (Inr (case r of Some s \<Rightarrow> s | None \<Rightarrow> []), w'))"

definition file_Exists :: "'w runner \<Rightarrow> string \<Rightarrow> string \<Rightarrow> 'w \<Rightarrow> bool result \<times> 'w" where
  "file_Exists run name key w =
     (case file_query run ''RETURN type::file($bucket, $key).exists();'' (file_error ''exists'' name key) (fileVars name key) w of
        (Inl e, w') \<Rightarrow> (Inl e, w')
      | (Inr raw, w') \<Rightarrow> (Inr (case firstResult raw of BoolV b \<Rightarrow> b | _ \<Rightarrow> False), w'))"

definition Head :: "'w runner \<Rightarrow> byte_ops \<Rightarrow> string \<Rightarrow> string \<Rightarrow> 'w \<Rightarrow> go_map option result \<times> 'w" where
  "Head run bo name key w =
     (case file_query run (''SELECT file::bucket(file) AS bucket, file::key(file) AS key, size, updated ''
                @ ''FROM type::file($bucket, $key).head();'') (file_error ''head'' name key) (fileVars name key) w of
        (Inl e, w') \<Rightarrow> (Inl e, w')
      | (Inr raw, w') \<Rightarrow>
          (let v = firstResult raw in
           if v = NilV then (Inr None, w')
           else case as_list v of
             None \<Rightarrow> (Inl (err_new ErrQuery (file_error ''head'' name key @ '' returned unexpected type '' @ bo_type bo v)), w')
           | Some [] \<Rightarrow> (Inr None, w')
           | Some (row # _) \<Rightarrow>
               (case as_map row of
                  Some m \<Rightarrow> (Inr (Some m), w')
                | None \<Rightarrow> (Inl (err_new ErrQuery (file_error ''head'' name key @ '' returned unexpected row type '' @ bo_type bo row)), w'))))"

definition file_Delete :: "'w runner \<Rightarrow> string \<Rightarrow> string \<Rightarrow> 'w \<Rightarrow> go_error option \<times> 'w" where
  "file_Delete run name key =
     file_effect run ''RETURN type::file($bucket, $key).delete();'' (file_error ''delete'' name key) (fileVars name key)"

definition move_with :: "string \<Rightarrow> string \<Rightarrow> 'w runner \<Rightarrow> string \<Rightarrow> string \<Rightarrow> string \<Rightarrow> 'w \<Rightarrow> go_error option \<times> 'w" where
  "move_with stmt what run name key dst =
     file_effect run stmt (file_error what name key @ '' -> '' @ dst) (map_put ''dst'' (StrV dst) (fileVars name key))"

definition Copy :: "'w runner \<Rightarrow> string \<Rightarrow> string \<Rightarrow> string \<Rightarrow> 'w \<Rightarrow> go_error option \<times> 'w" where
  "Copy = move_with ''RETURN type::file($bucket, $key).copy($dst);'' ''copy''"

definition CopyIfNotExists :: "'w runner \<Rightarrow> string \<Rightarrow> string \<Rightarrow> string \<Rightarrow> 'w \<Rightarrow> go_error option \<times> 'w" where
  "CopyIfNotExists = move_with ''RETURN type::file($bucket, $key).copy_if_not_exists($dst);'' ''copy_if_not_exists''"

definition Rename :: "'w runner \<Rightarrow> string \<Rightarrow> string \<Rightarrow> string \<Rightarrow> 'w \<Rightarrow> go_error option \<times> 'w" where
  "Rename = move_with ''RETURN type::file($bucket, $key).rename($dst);'' ''rename''"

definition RenameIfNotExists :: "'w runner \<Rightarrow> string \<Rightarrow> string \<Rightarrow> string \<Rightarrow> 'w \<Rightarrow> go_error option \<times> 'w" where
  "RenameIfNotExists = move_with ''RETURN type::file($bucket, $key).rename_if_not_exists($dst);'' ''rename_if_not_exists''"

section \<open>Listing\<close>

text \<open>\<open>types.FileRefFromMap\<close>.\<close>

definition FileRefFromMap :: "go_map \<Rightarrow> file_ref option" where
  "FileRefFromMap m =
     (case (as_string (map_index m ''bucket''), as_string (map_index m ''key'')) of
        (Some b, Some k) \<Rightarrow> Some \<lparr>fr_bucket = b, fr_key = k\<rparr>
      | _ \<Rightarrow> None)"

definition text_or_empty :: "any \<Rightarrow> string" where
  "text_or_empty v = (case as_string v of Some s \<Rightarrow> s | None \<Rightarrow> [])"

definition fileRefFromListEntry :: "string \<Rightarrow> any \<Rightarrow> file_ref option" where
  "fileRefFromListEntry bucket entry =
     (case as_map entry of
        None \<Rightarrow> None
      | Some m \<Rightarrow>
          (let key = text_or_empty (map_index m ''key''); pb = text_or_empty (map_index m ''bucket'') in
           if key \<noteq> [] then Some \<lparr>fr_bucket = if pb \<noteq> [] then pb else bucket, fr_key = key\<rparr>
           else case map_get m ''file'' of
             Some (MapV f) \<Rightarrow> FileRefFromMap f
           | Some (StrV v) \<Rightarrow>
               (case ParseFileRef v of Inr ref \<Rightarrow> Some ref | Inl _ \<Rightarrow> Some \<lparr>fr_bucket = bucket, fr_key = v\<rparr>)
           | _ \<Rightarrow> None))"

definition file_List :: "'w runner \<Rightarrow> byte_ops \<Rightarrow> string \<Rightarrow> 'w \<Rightarrow> file_ref list result \<times> 'w" where
  "file_List run bo name w =
     (case file_query run (''SELECT file::bucket(file) AS bucket, file::key(file) AS key, size, updated ''
                @ ''FROM file::list($bucket);'') (''list '' @ name) [(''bucket'', StrV name)] w of
        (Inl e, w') \<Rightarrow> (Inl e, w')
      | (Inr raw, w') \<Rightarrow>
          (let v = firstResult raw in
           if v = NilV then (Inr [], w')
           else case as_list v of
             None \<Rightarrow> (Inl (err_new ErrQuery (''list '' @ name @ '' returned unexpected type '' @ bo_type bo v)), w')
           | Some entries \<Rightarrow> (Inr (List.map_filter (fileRefFromListEntry name) entries), w')))"

end
