(* ===== verification/Connection_Files_Correct.thy ===== *)
theory Connection_Files_Correct
  imports Connection_Files
begin

text \<open>
  Files of a bucket, against what the server is documented to do: the operations of a handle are those of a map from keys to
  contents.
\<close>

section \<open>The server\<close>

definition put_stmt :: string where "put_stmt = ''RETURN type::file($bucket, $key).put($data);''"
definition put_new_stmt :: string where "put_new_stmt = ''RETURN type::file($bucket, $key).put_if_not_exists($data);''"
definition get_stmt :: string where "get_stmt = ''RETURN type::file($bucket, $key).get();''"
definition exists_stmt :: string where "exists_stmt = ''RETURN type::file($bucket, $key).exists();''"
definition delete_stmt :: string where "delete_stmt = ''RETURN type::file($bucket, $key).delete();''"
definition copy_stmt :: string where "copy_stmt = ''RETURN type::file($bucket, $key).copy($dst);''"
definition copy_new_stmt :: string where "copy_new_stmt = ''RETURN type::file($bucket, $key).copy_if_not_exists($dst);''"
definition rename_stmt :: string where "rename_stmt = ''RETURN type::file($bucket, $key).rename($dst);''"
definition rename_new_stmt :: string where "rename_new_stmt = ''RETURN type::file($bucket, $key).rename_if_not_exists($dst);''"
definition list_stmt :: string where
  "list_stmt = ''SELECT file::bucket(file) AS bucket, file::key(file) AS key, size, updated FROM file::list($bucket);''"

lemmas stmt_defs = put_stmt_def put_new_stmt_def get_stmt_def exists_stmt_def delete_stmt_def copy_stmt_def copy_new_stmt_def
  rename_stmt_def rename_new_stmt_def list_stmt_def

lemma statements_differ:
  "distinct [put_stmt, put_new_stmt, get_stmt, exists_stmt, delete_stmt, copy_stmt, copy_new_stmt, rename_stmt, rename_new_stmt, list_stmt]"
  by code_simp

type_synonym files = "string \<rightharpoonup> string"

text \<open>A leading slash does not matter in a key.\<close>

definition canonical :: "string \<Rightarrow> string" where
  "canonical k = (if has_prefix k ''/'' then k else CHR ''/'' # k)"

definition store_new :: "string \<Rightarrow> string \<Rightarrow> files \<Rightarrow> files" where
  "store_new k b fs = (if fs (canonical k) = None then fs(canonical k \<mapsto> b) else fs)"

definition copied :: "string \<Rightarrow> string \<Rightarrow> files \<Rightarrow> files" where
  "copied k d fs = (case fs (canonical k) of None \<Rightarrow> fs | Some b \<Rightarrow> fs(canonical d \<mapsto> b))"

definition renamed :: "string \<Rightarrow> string \<Rightarrow> files \<Rightarrow> files" where
  "renamed k d fs = (case fs (canonical k) of None \<Rightarrow> fs | Some b \<Rightarrow> (fs(canonical k := None))(canonical d \<mapsto> b))"

definition unless_there :: "string \<Rightarrow> (files \<Rightarrow> files) \<Rightarrow> files \<Rightarrow> files" where
  "unless_there d f fs = (if fs (canonical d) = None then f fs else fs)"

definition one_result :: "any \<Rightarrow> any \<Rightarrow> bool" where
  "one_result raw v \<longleftrightarrow> (\<exists>t. raw = ListV [MapV [(''status'', StrV ''OK''), (''time'', t), (''result'', v)]])"

definition content_row :: "string \<Rightarrow> string \<Rightarrow> any \<Rightarrow> bool" where
  "content_row name k row \<longleftrightarrow> (\<exists>size updated. row = MapV [(''bucket'', StrV name), (''key'', StrV k), (''size'', size), (''updated'', updated)])"

text \<open>What a successful statement says and does.\<close>

definition file_reply :: "byte_ops \<Rightarrow> string \<Rightarrow> string \<Rightarrow> go_map \<Rightarrow> files \<Rightarrow> any \<Rightarrow> files \<Rightarrow> bool" where
  "file_reply bo name stmt vars fs raw fs' \<longleftrightarrow>
     (stmt = list_stmt \<longrightarrow> fs' = fs \<and> (\<exists>rows ks. one_result raw (ListV rows) \<and> distinct ks \<and> set ks = dom fs \<and> list_all2 (content_row name) ks rows))
   \<and> (\<forall>k. map_get vars ''key'' = Some (StrV k) \<longrightarrow>
       (stmt = get_stmt \<longrightarrow> fs' = fs \<and> (\<exists>v. one_result raw v \<and> (case fs (canonical k) of
            None \<Rightarrow> v = NilV | Some b \<Rightarrow> v \<noteq> NilV \<and> bytes_of bo v = Some b)))
     \<and> (stmt = exists_stmt \<longrightarrow> fs' = fs \<and> one_result raw (BoolV (fs (canonical k) \<noteq> None)))
     \<and> (stmt = delete_stmt \<longrightarrow> fs' = fs(canonical k := None))
     \<and> (\<forall>v b. map_get vars ''data'' = Some v \<and> bytes_of bo v = Some b \<longrightarrow>
          (stmt = put_stmt \<longrightarrow> fs' = fs(canonical k \<mapsto> b)) \<and> (stmt = put_new_stmt \<longrightarrow> fs' = store_new k b fs))
     \<and> (\<forall>d. map_get vars ''dst'' = Some (StrV d) \<longrightarrow>
          (stmt = copy_stmt \<longrightarrow> fs' = copied k d fs) \<and> (stmt = copy_new_stmt \<longrightarrow> fs' = unless_there d (copied k d) fs)
        \<and> (stmt = rename_stmt \<longrightarrow> fs' = renamed k d fs) \<and> (stmt = rename_new_stmt \<longrightarrow> fs' = unless_there d (renamed k d) fs)))"

text \<open>A statement on the bucket succeeds so, or fails and leaves the files alone. No file has an empty key.\<close>

definition file_server :: "'w runner \<Rightarrow> byte_ops \<Rightarrow> string \<Rightarrow> ('w \<Rightarrow> files) \<Rightarrow> ('w \<Rightarrow> bool) \<Rightarrow> bool" where
  "file_server run bo name view there \<longleftrightarrow>
     (\<forall>w. there w \<longrightarrow> view w [] = None) \<and>
     (\<forall>stmt vars w. there w \<and> map_get vars ''bucket'' = Some (StrV name) \<longrightarrow>
        (case run stmt vars w of
           (Inl e, w') \<Rightarrow> there w' \<and> view w' = view w
         | (Inr raw, w') \<Rightarrow> there w' \<and> file_reply bo name stmt vars (view w) raw (view w')))"

section \<open>Histories\<close>

datatype file_op = DoPut string any | DoPutNew string any | DoGet string | DoExists string | DoDelete string
  | DoCopy string string | DoCopyNew string string | DoRename string string | DoRenameNew string string | DoList

datatype file_answer = Done | Content "string option" | Present bool | Refs "file_ref list"

definition done_or :: "go_error option \<times> 'w \<Rightarrow> file_answer result \<times> 'w" where
  "done_or p = (case p of (Some e, w) \<Rightarrow> (Inl e, w) | (None, w) \<Rightarrow> (Inr Done, w))"

definition answer_as :: "('a \<Rightarrow> file_answer) \<Rightarrow> 'a result \<times> 'w \<Rightarrow> file_answer result \<times> 'w" where
  "answer_as f p = (case p of (Inl e, w) \<Rightarrow> (Inl e, w) | (Inr x, w) \<Rightarrow> (Inr (f x), w))"

fun do_file :: "'w runner \<Rightarrow> byte_ops \<Rightarrow> string \<Rightarrow> file_op \<Rightarrow> 'w \<Rightarrow> file_answer result \<times> 'w" where
  "do_file run bo name (DoPut k v) w = done_or (Put run bo name k v w)"
| "do_file run bo name (DoPutNew k v) w = done_or (PutIfNotExists run bo name k v w)"
| "do_file run bo name (DoGet k) w = answer_as Content (file_Get run bo name k w)"
| "do_file run bo name (DoExists k) w = answer_as Present (file_Exists run name k w)"
| "do_file run bo name (DoDelete k) w = done_or (file_Delete run name k w)"
| "do_file run bo name (DoCopy k d) w = done_or (Copy run name k d w)"
| "do_file run bo name (DoCopyNew k d) w = done_or (CopyIfNotExists run name k d w)"
| "do_file run bo name (DoRename k d) w = done_or (Rename run name k d w)"
| "do_file run bo name (DoRenameNew k d) w = done_or (RenameIfNotExists run name k d w)"
| "do_file run bo name DoList w = answer_as Refs (file_List run bo name w)"

fun do_files :: "'w runner \<Rightarrow> byte_ops \<Rightarrow> string \<Rightarrow> file_op list \<Rightarrow> 'w \<Rightarrow> file_answer result list \<times> 'w" where
  "do_files run bo name [] w = ([], w)"
| "do_files run bo name (op # ops) w =
     (case do_file run bo name op w of (a, w1) \<Rightarrow> (case do_files run bo name ops w1 of (as, w2) \<Rightarrow> (a # as, w2)))"

text \<open>The same on a map.\<close>

fun payload :: "file_op \<Rightarrow> any option" where
  "payload (DoPut k v) = Some v"
| "payload (DoPutNew k v) = Some v"
| "payload _ = None"

fun files_after :: "byte_ops \<Rightarrow> file_op \<Rightarrow> files \<Rightarrow> files" where
  "files_after bo (DoPut k v) fs = (case bytes_of bo v of None \<Rightarrow> fs | Some b \<Rightarrow> fs(canonical k \<mapsto> b))"
| "files_after bo (DoPutNew k v) fs = (case bytes_of bo v of None \<Rightarrow> fs | Some b \<Rightarrow> store_new k b fs)"
| "files_after bo (DoDelete k) fs = fs(canonical k := None)"
| "files_after bo (DoCopy k d) fs = copied k d fs"
| "files_after bo (DoCopyNew k d) fs = unless_there d (copied k d) fs"
| "files_after bo (DoRename k d) fs = renamed k d fs"
| "files_after bo (DoRenameNew k d) fs = unless_there d (renamed k d) fs"
| "files_after bo _ fs = fs"

fun right_answer :: "string \<Rightarrow> file_op \<Rightarrow> files \<Rightarrow> file_answer \<Rightarrow> bool" where
  "right_answer name (DoGet k) fs a \<longleftrightarrow> a = Content (fs (canonical k))"
| "right_answer name (DoExists k) fs a \<longleftrightarrow> a = Present (fs (canonical k) \<noteq> None)"
| "right_answer name DoList fs a \<longleftrightarrow> (\<exists>ks. a = Refs (map (file_ref.make name) ks) \<and> distinct ks \<and> set ks = {k. fs k \<noteq> None})"
| "right_answer name op fs a \<longleftrightarrow> a = Done"

fun file_history :: "byte_ops \<Rightarrow> string \<Rightarrow> file_op list \<Rightarrow> file_answer result list \<Rightarrow> files \<Rightarrow> files \<Rightarrow> bool" where
  "file_history bo name (op # ops) (Inl e # as) fs fs' \<longleftrightarrow> file_history bo name ops as fs fs'"
| "file_history bo name (op # ops) (Inr a # as) fs fs' \<longleftrightarrow> right_answer name op fs a \<and> file_history bo name ops as (files_after bo op fs) fs'"
| "file_history bo name ops as fs fs' \<longleftrightarrow> ops = [] \<and> as = [] \<and> fs = fs'"

section \<open>One operation\<close>

definition replies :: "'w runner \<Rightarrow> ('w \<Rightarrow> bool) \<Rightarrow> bool" where
  "replies run there \<longleftrightarrow> (\<forall>stmt vars w e w'. there w \<longrightarrow> run stmt vars w \<noteq> (Inl e, w'))"

lemma effect_cases:
  assumes "file_server run bo name view there" "there w" "map_get vars ''bucket'' = Some (StrV name)"
    and "file_query run stmt subject vars w = (r, w')"
  obtains e where "r = Inl e" "there w'" "view w' = view w" "\<not> replies run there"
  | raw where "r = Inr raw" "there w'" "file_reply bo name stmt vars (view w) raw (view w')"
proof (cases "run stmt vars w")
  case (Pair x w1)
  have reply: "case run stmt vars w of (Inl e, w') \<Rightarrow> there w' \<and> view w' = view w
      | (Inr raw, w') \<Rightarrow> there w' \<and> file_reply bo name stmt vars (view w) raw (view w')"
    by (rule assms(1) [unfolded file_server_def, THEN conjunct2, rule_format, OF conjI [OF assms(2,3)]])
  show ?thesis
  proof (cases x)
    case (Inl e)
    have "\<not> replies run there" using assms(2) Pair [unfolded Inl] unfolding replies_def by blast
    then show ?thesis using reply assms(4) by (auto simp: Pair Inl file_query_def intro: that(1))
  next
    case (Inr raw)
    then show ?thesis using reply assms(4) by (auto simp: Pair file_query_def intro: that(2))
  qed
qed

lemma firstResult_one: "one_result raw v \<Longrightarrow> firstResult raw = v"
  by (auto simp: one_result_def firstResult_def map_index_def)

lemma vars_simps [simp]:
  "map_get (fileVars name k) ''bucket'' = Some (StrV name)" "map_get (fileVars name k) ''key'' = Some (StrV k)"
  by (simp_all add: fileVars_def)

lemma moved_reply:
  assumes "file_reply bo name stmt vars fs raw fs'" "map_get vars ''key'' = Some (StrV k)" "map_get vars ''dst'' = Some (StrV d)"
  shows "(stmt = copy_stmt \<longrightarrow> fs' = copied k d fs) \<and> (stmt = copy_new_stmt \<longrightarrow> fs' = unless_there d (copied k d) fs)
    \<and> (stmt = rename_stmt \<longrightarrow> fs' = renamed k d fs) \<and> (stmt = rename_new_stmt \<longrightarrow> fs' = unless_there d (renamed k d) fs)"
  using assms unfolding file_reply_def by blast

lemma put_ok:
  assumes "file_server run bo name view there" "there w" "done_or (put_with stmt what run bo name k v w) = (a, w')"
  shows "there w' \<and> (case a of
     Inl e \<Rightarrow> view w' = view w \<and> (bytes_of bo v = None \<or> \<not> replies run there)
   | Inr x \<Rightarrow> x = Done \<and> (\<exists>b. bytes_of bo v = Some b \<and> (stmt = put_stmt \<longrightarrow> view w' = (view w)(canonical k \<mapsto> b))
        \<and> (stmt = put_new_stmt \<longrightarrow> view w' = store_new k b (view w))))"
proof (cases "bytes_of bo v")
  case None
  then have "coerceData bo v = Inl (err_new ErrValidation (''bucket data must be string or []byte, got '' @ bo_type bo v))"
    by (simp add: coerceData_def bytes_of_def split: option.splits)
  then show ?thesis using assms None by (auto simp: put_with_def done_or_def)
next
  case (Some b)
  then have c: "coerceData bo v = Inr v" by (auto simp: coerceData_def bytes_of_def split: option.splits)
  let ?vars = "map_put ''data'' v (fileVars name k)"
  have vars: "map_get ?vars ''bucket'' = Some (StrV name)" "map_get ?vars ''key'' = Some (StrV k)" "map_get ?vars ''data'' = Some v"
    by (simp_all add: map_of_put)
  obtain r w1 where q: "file_query run stmt (file_error what name k) ?vars w = (r, w1)" by fastforce
  show ?thesis
  proof (rule effect_cases [OF assms(1,2) vars(1) q])
    fix e assume "r = Inl e" "there w1" "view w1 = view w" "\<not> replies run there"
    then show ?thesis using assms(3) c q by (auto simp: put_with_def done_or_def file_effect_def)
  next
    fix raw assume "r = Inr raw" "there w1" "file_reply bo name stmt ?vars (view w) raw (view w1)"
    then show ?thesis using assms(3) c q vars Some by (auto simp: put_with_def done_or_def file_effect_def file_reply_def)
  qed
qed

lemma move_ok:
  assumes "file_server run bo name view there" "there w" "done_or (move_with stmt what run name k d w) = (a, w')"
  shows "there w' \<and> (case a of
     Inl e \<Rightarrow> view w' = view w \<and> \<not> replies run there
   | Inr x \<Rightarrow> x = Done \<and> (stmt = copy_stmt \<longrightarrow> view w' = copied k d (view w)) \<and> (stmt = copy_new_stmt \<longrightarrow> view w' = unless_there d (copied k d) (view w))
        \<and> (stmt = rename_stmt \<longrightarrow> view w' = renamed k d (view w)) \<and> (stmt = rename_new_stmt \<longrightarrow> view w' = unless_there d (renamed k d) (view w)))"
proof -
  let ?vars = "map_put ''dst'' (StrV d) (fileVars name k)"
  have vars: "map_get ?vars ''bucket'' = Some (StrV name)" "map_get ?vars ''key'' = Some (StrV k)" "map_get ?vars ''dst'' = Some (StrV d)"
    by (simp_all add: map_of_put)
  obtain r w1 where q: "file_query run stmt (file_error what name k @ '' -> '' @ d) ?vars w = (r, w1)" by fastforce
  show ?thesis
  proof (rule effect_cases [OF assms(1,2) vars(1) q])
    fix e assume "r = Inl e" "there w1" "view w1 = view w" "\<not> replies run there"
    then show ?thesis using assms(3) q by (auto simp: move_with_def done_or_def file_effect_def)
  next
    fix raw assume r: "r = Inr raw" "there w1" and reply: "file_reply bo name stmt ?vars (view w) raw (view w1)"
    have "a = Inr Done" "w' = w1" using assms(3) q r by (simp_all add: move_with_def done_or_def file_effect_def)
    then show ?thesis using r moved_reply [OF reply vars(2,3)] by simp
  qed
qed

lemma listed_row:
  assumes "content_row name k row" "k \<noteq> []"
  shows "fileRefFromListEntry name row = Some (file_ref.make name k)"
proof -
  obtain size updated where row: "row = MapV [(''bucket'', StrV name), (''key'', StrV k), (''size'', size), (''updated'', updated)]"
    using assms(1) by (auto simp: content_row_def)
  have "text_or_empty (map_index [(''bucket'', StrV name), (''key'', StrV k), (''size'', size), (''updated'', updated)] ''key'') = k"
    "text_or_empty (map_index [(''bucket'', StrV name), (''key'', StrV k), (''size'', size), (''updated'', updated)] ''bucket'') = name"
    by (simp_all add: map_index_def text_or_empty_def)
  then show ?thesis using assms(2) by (simp add: row fileRefFromListEntry_def file_ref.make_def)
qed

lemma listed_rows: "list_all2 (content_row name) ks rows \<Longrightarrow> [] \<notin> set ks \<Longrightarrow>
   List.map_filter (fileRefFromListEntry name) rows = map (file_ref.make name) ks"
  by (induction rule: list_all2_induct) (auto simp: map_filter_simps listed_row)

definition read_answer :: "'w runner \<Rightarrow> byte_ops \<Rightarrow> string \<Rightarrow> ('w \<Rightarrow> files) \<Rightarrow> ('w \<Rightarrow> bool) \<Rightarrow> file_op \<Rightarrow> 'w \<Rightarrow> bool" where
  "read_answer run bo name view there op w \<longleftrightarrow>
     (\<forall>a w'. do_file run bo name op w = (a, w') \<longrightarrow> there w' \<and> view w' = view w \<and>
        (case a of Inl e \<Rightarrow> \<not> replies run there | Inr x \<Rightarrow> right_answer name op (view w) x))"

lemma get_ok:
  assumes server: "file_server run bo name view there" "there w"
  shows "read_answer run bo name view there (DoGet k) w"
  unfolding read_answer_def
proof (intro allI impI)
  fix a w' assume g: "do_file run bo name (DoGet k) w = (a, w')"
  obtain r w1 where q: "file_query run get_stmt (file_error ''get'' name k) (fileVars name k) w = (r, w1)" by fastforce
  note g = g [simplified, unfolded file_Get_def read_with_def, folded get_stmt_def]
  show "there w' \<and> view w' = view w \<and> (case a of Inl e \<Rightarrow> \<not> replies run there | Inr x \<Rightarrow> right_answer name (DoGet k) (view w) x)"
  proof (rule effect_cases [OF server vars_simps(1) q])
    fix e assume "r = Inl e" "there w1" "view w1 = view w" "\<not> replies run there"
    then show ?thesis using g q by (auto simp: answer_as_def)
  next
    fix raw assume r: "r = Inr raw" "there w1" "file_reply bo name get_stmt (fileVars name k) (view w) raw (view w1)"
    have "view w1 = view w \<and> (\<exists>v. one_result raw v \<and> (case view w (canonical k) of None \<Rightarrow> v = NilV | Some b \<Rightarrow> v \<noteq> NilV \<and> bytes_of bo v = Some b))"
      using r(3) vars_simps(2) unfolding file_reply_def by blast
    then obtain v where v: "view w1 = view w" "one_result raw v"
      "case view w (canonical k) of None \<Rightarrow> v = NilV | Some b \<Rightarrow> v \<noteq> NilV \<and> bytes_of bo v = Some b" by blast
    then show ?thesis using g q r firstResult_one [OF v(2)] by (cases "view w (canonical k)") (auto simp: answer_as_def)
  qed
qed

lemma exists_ok:
  assumes server: "file_server run bo name view there" "there w"
  shows "read_answer run bo name view there (DoExists k) w"
  unfolding read_answer_def
proof (intro allI impI)
  fix a w' assume g: "do_file run bo name (DoExists k) w = (a, w')"
  obtain r w1 where q: "file_query run exists_stmt (file_error ''exists'' name k) (fileVars name k) w = (r, w1)" by fastforce
  note g = g [simplified, unfolded file_Exists_def, folded exists_stmt_def]
  show "there w' \<and> view w' = view w \<and> (case a of Inl e \<Rightarrow> \<not> replies run there | Inr x \<Rightarrow> right_answer name (DoExists k) (view w) x)"
  proof (rule effect_cases [OF server vars_simps(1) q])
    fix e assume "r = Inl e" "there w1" "view w1 = view w" "\<not> replies run there"
    then show ?thesis using g q by (auto simp: answer_as_def)
  next
    fix raw assume r: "r = Inr raw" "there w1" "file_reply bo name exists_stmt (fileVars name k) (view w) raw (view w1)"
    have v: "view w1 = view w" "one_result raw (BoolV (view w (canonical k) \<noteq> None))"
      using r(3) vars_simps(2) unfolding file_reply_def by blast+
    then show ?thesis using g q r firstResult_one [OF v(2)] by (auto simp: answer_as_def)
  qed
qed

lemma list_ok:
  assumes server: "file_server run bo name view there" "there w"
  shows "read_answer run bo name view there DoList w"
  unfolding read_answer_def
proof (intro allI impI)
  fix a w' assume g: "do_file run bo name DoList w = (a, w')"
  let ?vars = "[(''bucket'', StrV name)]"
  obtain r w1 where q: "file_query run list_stmt (''list '' @ name) ?vars w = (r, w1)" by fastforce
  have list: "''SELECT file::bucket(file) AS bucket, file::key(file) AS key, size, updated '' @ ''FROM file::list($bucket);'' = list_stmt"
    by (simp add: list_stmt_def)
  note g = g [unfolded do_file.simps file_List_def list]
  show "there w' \<and> view w' = view w \<and> (case a of Inl e \<Rightarrow> \<not> replies run there | Inr x \<Rightarrow> right_answer name DoList (view w) x)"
  proof (rule effect_cases [OF server _ q])
    fix e assume "r = Inl e" "there w1" "view w1 = view w" "\<not> replies run there"
    then show ?thesis using g q by (auto simp: answer_as_def)
  next
    fix raw assume r: "r = Inr raw" "there w1" "file_reply bo name list_stmt ?vars (view w) raw (view w1)"
    obtain rows ks where v: "view w1 = view w" "one_result raw (ListV rows)" "distinct ks" "set ks = dom (view w)" "list_all2 (content_row name) ks rows"
      using r(3) unfolding file_reply_def by blast
    have "[] \<notin> set ks" using v(4) server by (auto simp: file_server_def)
    then show ?thesis using g q r v(1,3,4) firstResult_one [OF v(2)] listed_rows [OF v(5)]
      by (auto simp: answer_as_def dom_def intro!: exI [of _ ks])
  qed simp
qed

lemma delete_ok:
  assumes server: "file_server run bo name view there" "there w" and g: "do_file run bo name (DoDelete k) w = (a, w')"
  shows "there w' \<and> (case a of Inl e \<Rightarrow> view w' = view w \<and> \<not> replies run there | Inr x \<Rightarrow> x = Done \<and> view w' = (view w)(canonical k := None))"
proof -
  obtain r w1 where q: "file_query run delete_stmt (file_error ''delete'' name k) (fileVars name k) w = (r, w1)" by fastforce
  note g = g [simplified, unfolded file_Delete_def file_effect_def, folded delete_stmt_def]
  show ?thesis
  proof (rule effect_cases [OF server vars_simps(1) q])
    fix e assume "r = Inl e" "there w1" "view w1 = view w" "\<not> replies run there"
    then show ?thesis using g q by (auto simp: done_or_def)
  next
    fix raw assume r: "r = Inr raw" "there w1" "file_reply bo name delete_stmt (fileVars name k) (view w) raw (view w1)"
    have "view w1 = (view w)(canonical k := None)" using r(3) vars_simps(2) unfolding file_reply_def by blast
    then show ?thesis using g q r by (auto simp: done_or_def)
  qed
qed

lemma do_file_ok:
  assumes server: "file_server run bo name view there" "there w" and d: "do_file run bo name op w = (a, w')"
  shows "there w' \<and> (case a of
     Inl e \<Rightarrow> view w' = view w \<and> (\<not> replies run there \<or> (\<exists>v. payload op = Some v \<and> bytes_of bo v = None))
   | Inr x \<Rightarrow> right_answer name op (view w) x \<and> view w' = files_after bo op (view w))"
proof (cases op)
  case (DoPut k v)
  show ?thesis using put_ok [OF server, of put_stmt "''put''" k v a w'] d
    by (auto simp: DoPut Put_def put_stmt_def split: sum.splits)
next
  case (DoPutNew k v)
  show ?thesis using put_ok [OF server, of put_new_stmt "''put_if_not_exists''" k v a w'] d
    by (auto simp: DoPutNew PutIfNotExists_def put_new_stmt_def split: sum.splits)
next
  case (DoGet k)
  show ?thesis using get_ok [OF server, of k] d by (auto simp: DoGet read_answer_def split: sum.splits)
next
  case (DoExists k)
  show ?thesis using exists_ok [OF server, of k] d by (auto simp: DoExists read_answer_def split: sum.splits)
next
  case DoList
  show ?thesis using list_ok [OF server] d by (auto simp: DoList read_answer_def split: sum.splits)
next
  case (DoDelete k)
  show ?thesis using delete_ok [OF server, of k a w'] d by (auto simp: DoDelete split: sum.splits)
next
  case (DoCopy k dst)
  show ?thesis using move_ok [OF server, of copy_stmt "''copy''" k dst a w'] d
    by (auto simp: DoCopy Copy_def copy_stmt_def split: sum.splits)
next
  case (DoCopyNew k dst)
  show ?thesis using move_ok [OF server, of copy_new_stmt "''copy_if_not_exists''" k dst a w'] d
    by (auto simp: DoCopyNew CopyIfNotExists_def copy_new_stmt_def split: sum.splits)
next
  case (DoRename k dst)
  show ?thesis using move_ok [OF server, of rename_stmt "''rename''" k dst a w'] d
    by (auto simp: DoRename Rename_def rename_stmt_def split: sum.splits)
next
  case (DoRenameNew k dst)
  show ?thesis using move_ok [OF server, of rename_new_stmt "''rename_if_not_exists''" k dst a w'] d
    by (auto simp: DoRenameNew RenameIfNotExists_def rename_new_stmt_def split: sum.splits)
qed

text \<open>
  C35 (refinement). On a server that serves files as documented, every history of operations on a bucket, with any failures,
  gives the answers of a map from canonical keys to contents and leaves the files of that map. When no statement fails, the
  only operations that do are those with a payload that is neither a string nor bytes.
\<close>

theorem bucket_refines_files:
  assumes "file_server run bo name view there" "there w" "do_files run bo name ops w = (answers, w')"
  shows "there w' \<and> file_history bo name ops answers (view w) (view w')
    \<and> (replies run there \<longrightarrow> list_all2 (\<lambda>op a. (\<exists>e. a = Inl e) \<longrightarrow> (\<exists>v. payload op = Some v \<and> bytes_of bo v = None)) ops answers)"
  using assms(2,3)
proof (induction ops arbitrary: w answers)
  case (Cons op ops)
  obtain a w1 where one: "do_file run bo name op w = (a, w1)" by fastforce
  obtain as w2 where rest: "do_files run bo name ops w1 = (as, w2)" by fastforce
  have all: "answers = a # as" "w' = w2" using Cons.prems(2) by (simp_all add: one rest)
  note ok = do_file_ok [OF assms(1) Cons.prems(1) one]
  then have "there w1" by blast
  note ih = Cons.IH [OF this rest [folded all(2)]]
  show ?case using ok ih by (cases a) (auto simp: all)
qed simp

section \<open>A server\<close>

definition toy_bytes :: byte_ops where
  "toy_bytes = \<lparr>bo_bytes = (\<lambda>v. None), bo_type = (\<lambda>v. ''int'')\<rparr>"

definition toy_ok :: "any \<Rightarrow> any" where
  "toy_ok v = ListV [MapV [(''status'', StrV ''OK''), (''time'', NilV), (''result'', v)]]"

definition var_text :: "go_map \<Rightarrow> string \<Rightarrow> string" where
  "var_text vars k = text_or_empty (map_index vars k)"

definition toy_change :: "string \<Rightarrow> string \<Rightarrow> string \<Rightarrow> string \<Rightarrow> files \<Rightarrow> files" where
  "toy_change stmt k d b fs =
     (if stmt = put_stmt then fs(canonical k \<mapsto> b) else if stmt = put_new_stmt then store_new k b fs
      else if stmt = delete_stmt then fs(canonical k := None)
      else if stmt = copy_stmt then copied k d fs else if stmt = copy_new_stmt then unless_there d (copied k d) fs
      else if stmt = rename_stmt then renamed k d fs else if stmt = rename_new_stmt then unless_there d (renamed k d) fs else fs)"

text \<open>The world is the map of the files.\<close>

definition toy_value :: "string \<Rightarrow> string \<Rightarrow> files \<Rightarrow> any" where
  "toy_value stmt k fs =
     (if stmt = get_stmt then (case fs (canonical k) of None \<Rightarrow> NilV | Some b \<Rightarrow> StrV b)
      else if stmt = exists_stmt then BoolV (fs (canonical k) \<noteq> None)
      else if stmt = list_stmt then ListV (map (\<lambda>k. MapV [(''bucket'', StrV ''docs''), (''key'', StrV k), (''size'', NilV), (''updated'', NilV)])
        (sorted_list_of_set (dom fs)))
      else NilV)"

definition toy_runner :: "files runner" where
  "toy_runner stmt vars fs =
     (let k = var_text vars ''key'' in
      (Inr (toy_ok (toy_value stmt k fs)), toy_change stmt k (var_text vars ''dst'') (var_text vars ''data'') fs))"

definition toy_files_ok :: "files \<Rightarrow> bool" where
  "toy_files_ok fs \<longleftrightarrow> finite (dom fs) \<and> fs [] = None"

lemma canonical_nonempty [simp]: "canonical k \<noteq> []" "[] \<noteq> canonical k"
  by (auto simp: canonical_def has_prefix_def)

lemma toy_change_ok: "toy_files_ok fs \<Longrightarrow> toy_files_ok (toy_change stmt k d b fs)"
  by (auto simp: toy_files_ok_def toy_change_def store_new_def unless_there_def copied_def renamed_def split: option.splits)

lemma var_text_simps:
  "map_get vars x = Some (StrV s) \<Longrightarrow> var_text vars x = s"
  "map_get vars x = Some v \<Longrightarrow> bytes_of toy_bytes v = Some b \<Longrightarrow> var_text vars x = b"
  by (auto simp: var_text_def text_or_empty_def map_index_def bytes_of_def toy_bytes_def split: option.splits)

lemma different: "put_stmt \<noteq> put_new_stmt" "put_stmt \<noteq> get_stmt" "put_stmt \<noteq> exists_stmt" "put_stmt \<noteq> delete_stmt" "put_stmt \<noteq> copy_stmt"
  "put_stmt \<noteq> copy_new_stmt" "put_stmt \<noteq> rename_stmt" "put_stmt \<noteq> rename_new_stmt" "put_stmt \<noteq> list_stmt"
  "put_new_stmt \<noteq> get_stmt" "put_new_stmt \<noteq> exists_stmt" "put_new_stmt \<noteq> delete_stmt" "put_new_stmt \<noteq> copy_stmt"
  "put_new_stmt \<noteq> copy_new_stmt" "put_new_stmt \<noteq> rename_stmt" "put_new_stmt \<noteq> rename_new_stmt" "put_new_stmt \<noteq> list_stmt"
  "get_stmt \<noteq> exists_stmt" "get_stmt \<noteq> delete_stmt" "get_stmt \<noteq> copy_stmt" "get_stmt \<noteq> copy_new_stmt" "get_stmt \<noteq> rename_stmt"
  "get_stmt \<noteq> rename_new_stmt" "get_stmt \<noteq> list_stmt" "exists_stmt \<noteq> delete_stmt" "exists_stmt \<noteq> copy_stmt" "exists_stmt \<noteq> copy_new_stmt"
  "exists_stmt \<noteq> rename_stmt" "exists_stmt \<noteq> rename_new_stmt" "exists_stmt \<noteq> list_stmt" "delete_stmt \<noteq> copy_stmt" "delete_stmt \<noteq> copy_new_stmt"
  "delete_stmt \<noteq> rename_stmt" "delete_stmt \<noteq> rename_new_stmt" "delete_stmt \<noteq> list_stmt" "copy_stmt \<noteq> copy_new_stmt" "copy_stmt \<noteq> rename_stmt"
  "copy_stmt \<noteq> rename_new_stmt" "copy_stmt \<noteq> list_stmt" "copy_new_stmt \<noteq> rename_stmt" "copy_new_stmt \<noteq> rename_new_stmt"
  "copy_new_stmt \<noteq> list_stmt" "rename_stmt \<noteq> rename_new_stmt" "rename_stmt \<noteq> list_stmt" "rename_new_stmt \<noteq> list_stmt"
  using statements_differ by auto

lemma toy_reply:
  assumes "toy_files_ok fs"
  shows "file_reply toy_bytes ''docs'' stmt vars fs (toy_ok (toy_value stmt (var_text vars ''key'') fs))
     (toy_change stmt (var_text vars ''key'') (var_text vars ''dst'') (var_text vars ''data'') fs)"
proof -
  let ?rows = "map (\<lambda>k. MapV [(''bucket'', StrV ''docs''), (''key'', StrV k), (''size'', NilV), (''updated'', NilV)]) (sorted_list_of_set (dom fs))"
  have one: "one_result (toy_ok v) v" for v by (simp add: one_result_def toy_ok_def)
  have "list_all2 (content_row ''docs'') (sorted_list_of_set (dom fs)) ?rows"
    by (simp add: list_all2_map2 list_all2_same content_row_def)
  moreover have "finite (dom fs)" using assms by (simp add: toy_files_ok_def)
  ultimately have "\<exists>rows ks. one_result (toy_ok (ListV ?rows)) (ListV rows) \<and> distinct ks \<and> set ks = dom fs \<and> list_all2 (content_row ''docs'') ks rows"
    using one by (intro exI [of _ ?rows] exI [of _ "sorted_list_of_set (dom fs)"]) simp
  then show ?thesis
    unfolding file_reply_def
    by (intro conjI allI impI; (elim conjE)?; simp add: var_text_simps toy_change_def toy_value_def different different [symmetric] one split: option.splits)
      (auto simp: bytes_of_def intro!: exI [of _ "StrV _"] one)
qed

lemma toy_file_server: "file_server toy_runner toy_bytes ''docs'' (\<lambda>fs. fs) toy_files_ok"
  using toy_reply toy_change_ok by (auto simp: file_server_def toy_runner_def Let_def toy_files_ok_def)

lemma toy_replies: "replies toy_runner there"
  by (simp add: replies_def toy_runner_def Let_def)

definition some_file_ops :: "file_op list" where
  "some_file_ops = [DoPut ''a.txt'' (StrV ''one''), DoPutNew ''/a.txt'' (StrV ''two''), DoRename ''a.txt'' ''b.txt'', DoGet ''/b.txt'', DoExists ''a.txt'']"

theorem bucket_refines_files_witness:
  "fst (do_files toy_runner toy_bytes ''docs'' some_file_ops Map.empty)
     = [Inr Done, Inr Done, Inr Done, Inr (Content (Some ''one'')), Inr (Present False)]"
proof -
  obtain as w' where d: "do_files toy_runner toy_bytes ''docs'' some_file_ops Map.empty = (as, w')" by fastforce
  have "toy_files_ok Map.empty" by (simp add: toy_files_ok_def)
  note ok = bucket_refines_files [OF toy_file_server this d]
  have "\<forall>op \<in> set some_file_ops. \<forall>v. payload op = Some v \<longrightarrow> bytes_of toy_bytes v \<noteq> None"
    by (auto simp: some_file_ops_def bytes_of_def)
  then have good: "list_all2 (\<lambda>op a. \<exists>x. a = Inr x) some_file_ops as"
    using ok toy_replies by (auto elim!: list.rel_mono_strong) (metis sum.exhaust)
  have canon: "canonical ''a.txt'' = ''/a.txt''" "canonical ''/a.txt'' = ''/a.txt''" "canonical ''b.txt'' = ''/b.txt''" "canonical ''/b.txt'' = ''/b.txt''"
    by (simp_all add: canonical_def has_prefix_def)
  have "as = [Inr Done, Inr Done, Inr Done, Inr (Content (Some ''one'')), Inr (Present False)]" using ok good
    by (auto simp: toy_replies some_file_ops_def list_all2_Cons1 bytes_of_def canon store_new_def renamed_def)
  then show ?thesis by (simp add: d)
qed

section \<open>Where the code and its documentation differ\<close>

text \<open>The key of a file pointer in a listing loses its leading slash, that of a projected row keeps it.\<close>

lemma listed_pointer_key:
  "fileRefFromListEntry b (MapV [(''file'', StrV ''docs:/a.txt'')]) = Some \<lparr>fr_bucket = ''docs'', fr_key = ''a.txt''\<rparr>"
  "fileRefFromListEntry b (MapV [(''bucket'', StrV ''docs''), (''key'', StrV ''/a.txt'')]) = Some \<lparr>fr_bucket = ''docs'', fr_key = ''/a.txt''\<rparr>"
  by code_simp+

text \<open>An answer that is not a Boolean counts as absence.\<close>

lemma strange_exists_answer:
  "file_Exists (\<lambda>stmt vars w. (Inr NilV, w)) name key w = (Inr False, w)"
  by (simp add: file_Exists_def file_query_def firstResult_def as_list_def)

end
