(* ===== verification/Connection_Sessions.thy ===== *)
theory Connection_Sessions
  imports Connection_Files
begin

text \<open>
  Package \<open>connection\<close>: sessions (\<open>session.go\<close>), live queries (\<open>streaming.go\<close>) and their manager
  (\<open>streaming_manager.go\<close>). The calls of the SDK on a session and on live queries are the records \<open>session_sdk\<close> and
  \<open>live_sdk\<close>. What runs under a lock is one definition; calls that overlap are steps of a relation.
\<close>

section \<open>Sessions\<close>

record ('w, 's) session_sdk =
  sx_attach :: "'w \<Rightarrow> 's result \<times> 'w"
  sx_use :: "'s \<Rightarrow> string \<Rightarrow> string \<Rightarrow> 'w \<Rightarrow> go_error option \<times> 'w"
  sx_signin :: "'s \<Rightarrow> go_map \<Rightarrow> 'w \<Rightarrow> string result \<times> 'w"
  sx_authenticate :: "'s \<Rightarrow> string \<Rightarrow> 'w \<Rightarrow> go_error option \<times> 'w"
  sx_invalidate :: "'s \<Rightarrow> 'w \<Rightarrow> go_error option \<times> 'w"
  sx_detach :: "'s \<Rightarrow> 'w \<Rightarrow> go_error option \<times> 'w"
  sx_query :: "'s \<Rightarrow> string \<Rightarrow> go_map \<Rightarrow> 'w \<Rightarrow> query_response \<times> 'w"
  sx_rpc :: "'s \<Rightarrow> rpc \<Rightarrow> string \<Rightarrow> 'w \<Rightarrow> any option result \<times> 'w"

record 's session =
  sn_session :: "'s option"
  sn_token :: string
  sn_auth :: string
  sn_detached :: bool

definition Attach :: "('w, 's) session_sdk \<Rightarrow> client \<Rightarrow> 'w \<Rightarrow> 's session result \<times> 'w" where
  "Attach sx c w =
     (case requireDB c of
        Some e \<Rightarrow> (Inl e, w)
      | None \<Rightarrow>
          (let refused = (case detectProtocol (cc_url (cl_cfg c)) of
             Inr proto \<Rightarrow>
               if proto \<noteq> ProtocolWebSocket \<and> proto \<noteq> ProtocolWebSocketSecure then
                 Some (err_new ErrConnection (''sessions require a WebSocket connection (ws:// or wss://); current transport is ''
                   @ go_quote (protocol_string proto)))
               else None
           | Inl _ \<Rightarrow> None) in
           case refused of
               Some e \<Rightarrow> (Inl e, w)
             | None \<Rightarrow>
                 (case sx_attach sx w of
                    (Inl e, w') \<Rightarrow> (Inl (err_wrap ErrConnection ''attach session failed'' e), w')
                  | (Inr s, w') \<Rightarrow> (Inr \<lparr>sn_session = Some s, sn_token = [], sn_auth = [], sn_detached = False\<rparr>, w'))))"

definition requireSession :: "'s session \<Rightarrow> 's result" where
  "requireSession s =
     (case sn_session s of
        Some h \<Rightarrow> if sn_detached s then Inl (err_new ErrConnection ''session has been detached'') else Inr h
      | None \<Rightarrow> Inl (err_new ErrConnection ''session has been detached''))"

definition session_Use :: "('w, 's) session_sdk \<Rightarrow> string \<Rightarrow> string \<Rightarrow> 's session \<Rightarrow> 'w \<Rightarrow> go_error option \<times> 'w" where
  "session_Use sx ns db s w =
     (case requireSession s of
        Inl e \<Rightarrow> (Some e, w)
      | Inr h \<Rightarrow>
          (case sx_use sx h ns db w of
             (Some e, w') \<Rightarrow> (Some (err_wrap ErrConnection ''session use failed'' e), w')
           | (None, w') \<Rightarrow> (None, w')))"

text \<open>The sections that write the token.\<close>

definition cache_token :: "string \<Rightarrow> string option \<Rightarrow> 's session \<Rightarrow> 's session" where
  "cache_token token kind s = s\<lparr>sn_token := token, sn_auth := (case kind of Some k \<Rightarrow> k | None \<Rightarrow> sn_auth s)\<rparr>"

definition session_Signin :: "('w, 's) session_sdk \<Rightarrow> credentials option \<Rightarrow> 's session \<Rightarrow> 'w \<Rightarrow> string result \<times> 's session \<times> 'w" where
  "session_Signin sx creds s w =
     (case creds of
        None \<Rightarrow> (Inl (err_new ErrValidation ''credentials must not be nil''), s, w)
      | Some cr \<Rightarrow>
          (case requireSession s of
             Inl e \<Rightarrow> (Inl e, s, w)
           | Inr h \<Rightarrow>
               (case sx_signin sx h (toSdkAuthPayload cr) w of
                  (Inl e, w') \<Rightarrow> (Inl (err_wrap ErrConnection ''session signin failed'' e), s, w')
                | (Inr token, w') \<Rightarrow> (Inr token, cache_token token (Some (AuthType cr)) s, w'))))"

definition session_Authenticate :: "('w, 's) session_sdk \<Rightarrow> string \<Rightarrow> 's session \<Rightarrow> 'w \<Rightarrow> go_error option \<times> 's session \<times> 'w" where
  "session_Authenticate sx token s w =
     (case requireSession s of
        Inl e \<Rightarrow> (Some e, s, w)
      | Inr h \<Rightarrow>
          if token = [] then (Some (err_new ErrValidation ''token must not be empty''), s, w)
          else
            (case sx_authenticate sx h token w of
               (Some e, w') \<Rightarrow> (Some (err_wrap ErrConnection ''session authenticate failed'' e), s, w')
             | (None, w') \<Rightarrow> (None, cache_token token None s, w')))"

definition session_Invalidate :: "('w, 's) session_sdk \<Rightarrow> 's session \<Rightarrow> 'w \<Rightarrow> go_error option \<times> 's session \<times> 'w" where
  "session_Invalidate sx s w =
     (case requireSession s of
        Inl e \<Rightarrow> (Some e, s, w)
      | Inr h \<Rightarrow>
          (case sx_invalidate sx h w of
             (Some e, w') \<Rightarrow> (Some (err_wrap ErrConnection ''session invalidate failed'' e), s, w')
           | (None, w') \<Rightarrow> (None, cache_token [] (Some []) s, w')))"

text \<open>The section of \<open>Detach\<close> under the lock: the handle to give back, if any.\<close>

definition detach_section :: "'s session \<Rightarrow> 's option \<times> 's session" where
  "detach_section s =
     (if sn_detached s \<or> sn_session s = None then (None, s\<lparr>sn_detached := True, sn_session := None\<rparr>)
      else (sn_session s, s\<lparr>sn_detached := True, sn_session := None, sn_token := [], sn_auth := []\<rparr>))"

definition session_Detach :: "('w, 's) session_sdk \<Rightarrow> 's session \<Rightarrow> 'w \<Rightarrow> go_error option \<times> 's session \<times> 'w" where
  "session_Detach sx s w =
     (case detach_section s of
        (None, s') \<Rightarrow> (None, s', w)
      | (Some h, s') \<Rightarrow>
          (case sx_detach sx h w of
             (Some e, w') \<Rightarrow> (Some (err_wrap ErrConnection ''detach session failed'' e), s', w')
           | (None, w') \<Rightarrow> (None, s', w')))"

definition session_QueryWithVars :: "('w, 's) session_sdk \<Rightarrow> 's session \<Rightarrow> string \<Rightarrow> go_map \<Rightarrow> 'w \<Rightarrow> any result \<times> 'w" where
  "session_QueryWithVars sx s surql vars w =
     (case requireSession s of
        Inl e \<Rightarrow> (Inl e, w)
      | Inr h \<Rightarrow>
          (case sx_query sx h surql vars w of
             (Inl e, w') \<Rightarrow> (Inl (mapQueryError e), w')
           | (Inr results, w') \<Rightarrow> (Inr (queryResultsToEnvelopes results), w')))"

definition session_Query :: "('w, 's) session_sdk \<Rightarrow> 's session \<Rightarrow> string \<Rightarrow> 'w \<Rightarrow> any result \<times> 'w" where
  "session_Query sx s surql w = session_QueryWithVars sx s surql [] w"

text \<open>\<open>Select\<close>, \<open>Create\<close>, \<open>Update\<close>, \<open>Merge\<close> and \<open>Delete\<close>.\<close>

definition session_rpc :: "('w, 's) session_sdk \<Rightarrow> 's session \<Rightarrow> rpc \<Rightarrow> string \<Rightarrow> 'w \<Rightarrow> any result \<times> 'w" where
  "session_rpc sx s call target w =
     (case requireSession s of
        Inl e \<Rightarrow> (Inl e, w)
      | Inr h \<Rightarrow>
          (case sx_rpc sx h call target w of
             (Inl e, w') \<Rightarrow> (Inl (err_wrap ErrQuery (rpc_name call @ go_quote target @ '' failed'') e), w')
           | (Inr res, w') \<Rightarrow> (Inr (case res of None \<Rightarrow> NilV | Some v \<Rightarrow> v), w')))"

text \<open>The buckets of a session and of a client differ in the runner.\<close>

definition session_runner :: "('w, 's) session_sdk \<Rightarrow> 's session \<Rightarrow> 'w runner" where
  "session_runner sx s = session_QueryWithVars sx s"

definition client_runner :: "('w, 'tx) sdk \<Rightarrow> client \<Rightarrow> 'w runner" where
  "client_runner sdk c = QueryWithVars sdk c"

section \<open>Overlapping calls on a session\<close>

text \<open>A call has taken the handle and waits for the server; another writes its token when it is done. \<open>si_sent\<close> counts
  the handles given back to the server.\<close>

record 's session_run =
  si_session :: "'s session"
  si_waiting :: "'s list"
  si_sent :: "'s list"

inductive session_step :: "'s session_run \<Rightarrow> 's session_run \<Rightarrow> bool" where
  take: "requireSession (si_session r) = Inr h \<Longrightarrow> session_step r (r\<lparr>si_waiting := h # si_waiting r\<rparr>)"
| give: "si_waiting r = hs @ h # hs' \<Longrightarrow> session_step r (r\<lparr>si_waiting := hs @ hs'\<rparr>)"
| signed: "si_waiting r = hs @ h # hs' \<Longrightarrow>
    session_step r (r\<lparr>si_waiting := hs @ hs', si_session := cache_token token kind (si_session r)\<rparr>)"
| detach: "detach_section (si_session r) = (h, s) \<Longrightarrow>
    session_step r (r\<lparr>si_session := s, si_sent := si_sent r @ (case h of Some x \<Rightarrow> [x] | None \<Rightarrow> [])\<rparr>)"

definition attached :: "'s \<Rightarrow> 's session_run" where
  "attached h = \<lparr>si_session = \<lparr>sn_session = Some h, sn_token = [], sn_auth = [], sn_detached = False\<rparr>, si_waiting = [], si_sent = []\<rparr>"

text \<open>However calls overlap, the handle is given back once at most, by the first \<open>Detach\<close>, and calls that come after it are refused.\<close>

lemma session_detached_once:
  assumes "session_step\<^sup>*\<^sup>* (attached h) r"
  shows "set (si_waiting r) \<subseteq> {h} \<and>
    (if sn_detached (si_session r) then si_sent r = [h] \<and> requireSession (si_session r) = Inl (err_new ErrConnection ''session has been detached'')
     else si_sent r = [] \<and> requireSession (si_session r) = Inr h)"
  using assms
proof (induction rule: rtranclp_induct)
  case base
  then show ?case by (simp add: attached_def requireSession_def)
next
  case (step r r')
  from step(2) show ?case
  proof cases
    case (detach h' s)
    then show ?thesis using step(3) by (auto simp: detach_section_def requireSession_def split: if_splits option.splits)
  qed (use step(3) in \<open>auto simp: requireSession_def cache_token_def split: if_splits option.splits\<close>)
qed

text \<open>A \<open>Signin\<close> that was waiting when the session was detached leaves its token there.\<close>

lemma token_after_detach:
  "\<exists>r. session_step\<^sup>*\<^sup>* (attached h) r \<and> sn_detached (si_session r) \<and> sn_token (si_session r) = token"
proof -
  define gone :: "'a session" where "gone = \<lparr>sn_session = None, sn_token = [], sn_auth = [], sn_detached = True\<rparr>"
  define waiting where "waiting = \<lparr>si_session = si_session (attached h), si_waiting = [h], si_sent = []\<rparr>"
  define left where "left = \<lparr>si_session = gone, si_waiting = [h], si_sent = [h]\<rparr>"
  define late where "late = \<lparr>si_session = cache_token token None gone, si_waiting = [], si_sent = [h]\<rparr>"
  have "session_step (attached h) waiting" using take [of "attached h" h] by (simp add: attached_def requireSession_def waiting_def)
  moreover have "session_step waiting left" using detach [of waiting "Some h" gone]
    by (simp add: attached_def detach_section_def waiting_def left_def gone_def)
  moreover have "session_step left late" using signed [of left "[]" h "[]" token None] by (simp add: left_def late_def)
  ultimately have "session_step\<^sup>*\<^sup>* (attached h) late" by (meson converse_rtranclp_into_rtranclp rtranclp.rtrancl_refl)
  moreover have "sn_detached (si_session late) \<and> sn_token (si_session late) = token" by (simp add: late_def gone_def cache_token_def)
  ultimately show ?thesis by blast
qed

section \<open>Live queries\<close>

record 'w live_sdk =
  lk_live :: "string \<Rightarrow> bool \<Rightarrow> 'w \<Rightarrow> string result \<times> 'w"
  lk_notifications :: "string \<Rightarrow> 'w \<Rightarrow> go_error option \<times> 'w"
  lk_kill :: "string \<Rightarrow> 'w \<Rightarrow> go_error option \<times> 'w"

text \<open>Live queries are shared by reference and live in a heap.\<close>

record live_query =
  lq_id :: string
  lq_table :: string
  lq_diff :: bool
  lq_closed :: bool

record 'w lives =
  lv_heap :: "nat \<Rightarrow> live_query option"
  lv_next :: nat
  lv_world :: 'w

definition Live :: "'w live_sdk \<Rightarrow> client \<Rightarrow> string \<Rightarrow> bool \<Rightarrow> 'w lives \<Rightarrow> nat result \<times> 'w lives" where
  "Live lk c table diff s =
     (if table = [] then (Inl (err_new ErrValidation ''table must not be empty''), s)
      else case detectProtocol (cc_url (cl_cfg c)) of
        Inl e \<Rightarrow> (Inl e, s)
      | Inr proto \<Rightarrow>
          if proto = ProtocolHTTP \<or> proto = ProtocolHTTPS then
            (Inl (err_new ErrValidation (''live queries are not supported on '' @ protocol_string proto @ '' transport'')), s)
          else case requireDB c of
            Some e \<Rightarrow> (Inl e, s)
          | None \<Rightarrow>
              (case lk_live lk table diff (lv_world s) of
                 (Inl e, w1) \<Rightarrow> (Inl (err_wrap ErrStreaming (''live('' @ go_quote table @ '') failed'') e), s\<lparr>lv_world := w1\<rparr>)
               | (Inr i, w1) \<Rightarrow>
                   (case lk_notifications lk i w1 of
                      (Some e, w2) \<Rightarrow>
                        (Inl (err_wrap ErrStreaming (''unable to subscribe to notifications for '' @ go_quote table) e),
                         s\<lparr>lv_world := snd (lk_kill lk i w2)\<rparr>)
                    | (None, w2) \<Rightarrow>
                        (Inr (lv_next s), \<lparr>lv_heap = (lv_heap s)(lv_next s \<mapsto> \<lparr>lq_id = i, lq_table = table, lq_diff = diff, lq_closed = False\<rparr>),
                           lv_next = Suc (lv_next s), lv_world = w2\<rparr>))))"

text \<open>\<open>c\<close> is the client of the query at the moment of the call. The lock is held throughout.\<close>

definition live_Close :: "'w live_sdk \<Rightarrow> client \<Rightarrow> nat \<Rightarrow> 'w lives \<Rightarrow> go_error option \<times> 'w lives" where
  "live_Close lk c a s =
     (case lv_heap s a of
        None \<Rightarrow> (None, s)
      | Some q \<Rightarrow>
          if lq_closed q then (None, s)
          else
            (let s = s\<lparr>lv_heap := (lv_heap s)(a \<mapsto> q\<lparr>lq_closed := True\<rparr>)\<rparr> in
             if \<not> cl_db c then (None, s)
             else case lk_kill lk (lq_id q) (lv_world s) of
               (Some e, w) \<Rightarrow> (Some (err_wrap ErrStreaming ''kill failed'' e), s\<lparr>lv_world := w\<rparr>)
             | (None, w) \<Rightarrow> (None, s\<lparr>lv_world := w\<rparr>)))"

section \<open>The manager\<close>

type_synonym manager = "(string, nat) fmap"

definition NewStreamingManager :: "'c option \<Rightarrow> manager result" where
  "NewStreamingManager c =
     (case c of None \<Rightarrow> Inl (err_new ErrValidation ''client cannot be nil'') | Some _ \<Rightarrow> Inr fmempty)"

definition track_query :: "string \<Rightarrow> nat \<Rightarrow> manager \<Rightarrow> manager" where
  "track_query i a m = fmupd i a m"

definition Spawn :: "'w live_sdk \<Rightarrow> client \<Rightarrow> string \<Rightarrow> bool \<Rightarrow> manager \<Rightarrow> 'w lives \<Rightarrow> nat result \<times> manager \<times> 'w lives" where
  "Spawn lk c table diff m s =
     (case Live lk c table diff s of
        (Inl e, s') \<Rightarrow> (Inl e, m, s')
      | (Inr a, s') \<Rightarrow> (Inr a, track_query (case lv_heap s' a of Some q \<Rightarrow> lq_id q | None \<Rightarrow> []) a m, s'))"

definition untrack :: "string \<Rightarrow> manager \<Rightarrow> nat option \<times> manager" where
  "untrack i m = (fmlookup m i, case fmlookup m i of Some _ \<Rightarrow> fmdrop i m | None \<Rightarrow> m)"

definition Kill :: "'w live_sdk \<Rightarrow> client \<Rightarrow> string \<Rightarrow> manager \<Rightarrow> 'w lives \<Rightarrow> go_error option \<times> manager \<times> 'w lives" where
  "Kill lk c i m s =
     (if i = [] then (Some (err_new ErrValidation ''live query id cannot be empty''), m, s)
      else case untrack i m of
        (None, m') \<Rightarrow> (Some (err_new ErrStreaming (''live query '' @ go_quote i @ '' not found'')), m', s)
      | (Some a, m') \<Rightarrow> (case live_Close lk c a s of (e, s') \<Rightarrow> (e, m', s')))"

definition CountLive :: "manager \<Rightarrow> nat" where
  "CountLive m = fcard (fmdom m)"

text \<open>The queries in the order in which a range loop meets them.\<close>

fun close_each :: "'w live_sdk \<Rightarrow> client \<Rightarrow> nat list \<Rightarrow> 'w lives \<Rightarrow> go_error option \<times> 'w lives" where
  "close_each lk c [] s = (None, s)"
| "close_each lk c (a # as) s =
     (let (e, s1) = live_Close lk c a s; (es, s2) = close_each lk c as s1 in
      (case e of Some x \<Rightarrow> Some x | None \<Rightarrow> es, s2))"

definition untrack_all :: "string list \<Rightarrow> manager \<Rightarrow> nat list \<times> manager" where
  "untrack_all order m = (List.map_filter (fmlookup m) order, fmempty)"

definition DrainAll :: "'w live_sdk \<Rightarrow> client \<Rightarrow> string list \<Rightarrow> manager \<Rightarrow> 'w lives \<Rightarrow> go_error option \<times> manager \<times> 'w lives" where
  "DrainAll lk c order m s =
     (case untrack_all order m of (as, m') \<Rightarrow> (case close_each lk c as s of (e, s') \<Rightarrow> (e, m', s')))"

section \<open>Closed once, none forgotten\<close>

text \<open>The addresses not closed yet, and what a closing may change.\<close>

definition open_at :: "'w lives \<Rightarrow> nat set" where
  "open_at s = {a. \<exists>q. lv_heap s a = Some q \<and> \<not> lq_closed q}"

lemma live_Close_open: "open_at (snd (live_Close lk c a s)) = open_at s - {a}"
  by (auto simp: live_Close_def open_at_def Let_def split: option.splits prod.splits if_splits)

text \<open>A second \<open>Close\<close> does nothing and succeeds.\<close>

lemma live_Close_again: "a \<notin> open_at s \<Longrightarrow> live_Close lk c a s = (None, s)"
  by (auto simp: live_Close_def open_at_def split: option.splits)

lemma close_each_open: "open_at (snd (close_each lk c as s)) = open_at s - set as"
  by (induction as arbitrary: s) (auto simp: Let_def split_beta live_Close_open)

text \<open>Calls overlap: a query is opened, then tracked; one that was taken out of the manager is closed later.\<close>

record live_run =
  lr_open :: "nat set"
  lr_ids :: "nat \<Rightarrow> string"
  lr_opened :: "nat set"
  lr_taken :: "nat set"
  lr_manager :: manager
  lr_next :: nat

inductive live_step :: "live_run \<Rightarrow> live_run \<Rightarrow> bool" where
  opened: "\<forall>a. a < lr_next r \<longrightarrow> lr_ids r a \<noteq> i \<Longrightarrow>
     live_step r (r\<lparr>lr_open := insert (lr_next r) (lr_open r), lr_ids := (lr_ids r)(lr_next r := i),
       lr_opened := insert (lr_next r) (lr_opened r), lr_next := Suc (lr_next r)\<rparr>)"
| tracked: "a \<in> lr_opened r \<Longrightarrow> live_step r (r\<lparr>lr_opened := lr_opened r - {a}, lr_manager := track_query (lr_ids r a) a (lr_manager r)\<rparr>)"
| killed: "untrack i (lr_manager r) = (Some a, m) \<Longrightarrow> live_step r (r\<lparr>lr_manager := m, lr_taken := insert a (lr_taken r)\<rparr>)"
| drained: "set order = fset (fmdom (lr_manager r)) \<Longrightarrow> untrack_all order (lr_manager r) = (as, m) \<Longrightarrow>
     live_step r (r\<lparr>lr_manager := m, lr_taken := lr_taken r \<union> set as\<rparr>)"
| closed: "live_step r (r\<lparr>lr_open := lr_open r - {a}, lr_taken := lr_taken r - {a}\<rparr>)"

definition no_live :: live_run where
  "no_live = \<lparr>lr_open = {}, lr_ids = (\<lambda>a. []), lr_opened = {}, lr_taken = {}, lr_manager = fmempty, lr_next = 0\<rparr>"

definition live_ok :: "live_run \<Rightarrow> bool" where
  "live_ok r \<longleftrightarrow>
     lr_open r \<subseteq> lr_opened r \<union> lr_taken r \<union> {a. fmlookup (lr_manager r) (lr_ids r a) = Some a}
   \<and> lr_open r \<union> lr_opened r \<union> lr_taken r \<subseteq> {..<lr_next r}
   \<and> (\<forall>i a. fmlookup (lr_manager r) i = Some a \<longrightarrow> a < lr_next r \<and> lr_ids r a = i)
   \<and> inj_on (lr_ids r) {..<lr_next r}"

lemma drained_all:
  assumes "set order = fset (fmdom m)"
  shows "set (fst (untrack_all order m)) = {a. \<exists>i. fmlookup m i = Some a}"
proof
  have f: "set (List.map_filter f xs) = {y. \<exists>x \<in> set xs. f x = Some y}" for f :: "string \<Rightarrow> nat option" and xs
    by (induction xs) (auto simp: map_filter_simps split: option.splits)
  show "set (fst (untrack_all order m)) \<subseteq> {a. \<exists>i. fmlookup m i = Some a}"
    by (auto simp: untrack_all_def f)
  show "{a. \<exists>i. fmlookup m i = Some a} \<subseteq> set (fst (untrack_all order m))"
    using assms by (auto simp: untrack_all_def f) (metis fmdomI)
qed

lemma live_okI:
  assumes "\<And>a. a \<in> lr_open r \<Longrightarrow> a \<in> lr_opened r \<or> a \<in> lr_taken r \<or> fmlookup (lr_manager r) (lr_ids r a) = Some a"
    and "\<And>a. a \<in> lr_open r \<or> a \<in> lr_opened r \<or> a \<in> lr_taken r \<Longrightarrow> a < lr_next r"
    and "\<And>i a. fmlookup (lr_manager r) i = Some a \<Longrightarrow> a < lr_next r \<and> lr_ids r a = i"
    and "inj_on (lr_ids r) {..<lr_next r}"
  shows "live_ok r"
  using assms by (auto simp: live_ok_def)

lemma live_okD:
  assumes "live_ok r"
  shows "a \<in> lr_open r \<Longrightarrow> a \<in> lr_opened r \<or> a \<in> lr_taken r \<or> fmlookup (lr_manager r) (lr_ids r a) = Some a"
    and "a \<in> lr_open r \<or> a \<in> lr_opened r \<or> a \<in> lr_taken r \<Longrightarrow> a < lr_next r"
    and "fmlookup (lr_manager r) i = Some a \<Longrightarrow> a < lr_next r \<and> lr_ids r a = i"
    and "a < lr_next r \<Longrightarrow> b < lr_next r \<Longrightarrow> lr_ids r a = lr_ids r b \<Longrightarrow> a = b"
    and "inj_on (lr_ids r) {..<lr_next r}"
  using assms by (auto simp: live_ok_def inj_on_def)

lemma live_step_ok: "live_step r r' \<Longrightarrow> live_ok r \<Longrightarrow> live_ok r'"
proof (induction rule: live_step.induct)
  case (opened r i)
  note d = live_okD [OF opened(2)]
  have fresh: "a < lr_next r \<Longrightarrow> lr_ids r a \<noteq> i" for a using opened(1) by blast
  show ?case
  proof (rule live_okI, goal_cases)
    case (1 a)
    then show ?case using d(1,2) [of a] by auto
  next
    case (2 a)
    then show ?case using d(2) [of a] by auto
  next
    case (3 j a)
    then show ?case using d(3) [of j a] by auto
  next
    case 4
    have "inj_on ((lr_ids r)(lr_next r := i)) {..<lr_next r}" "i \<notin> ((lr_ids r)(lr_next r := i)) ` {..<lr_next r}"
      using d(4) fresh by (auto simp: inj_on_def)
    then show ?case by (simp add: lessThan_Suc)
  qed
next
  case (tracked a r)
  note d = live_okD [OF tracked(2)]
  have a: "a < lr_next r" using d(2) tracked(1) by blast
  show ?case
  proof (rule live_okI, goal_cases)
    case (1 b)
    then have "b < lr_next r" using d(2) by simp
    then show ?case using 1 d(1) [of b] d(4) [OF a, of b] by (auto simp: track_query_def)
  next
    case (2 b)
    then show ?case using d(2) [of b] by auto
  next
    case (3 j b)
    then show ?case using d(3) [of j b] a by (auto simp: track_query_def split: if_splits)
  next
    case 4
    show ?case using d(5) by simp
  qed
next
  case (killed i r a m)
  note d = live_okD [OF killed(2)]
  have m: "fmlookup (lr_manager r) i = Some a" "m = fmdrop i (lr_manager r)"
    using killed(1) by (auto simp: untrack_def split: option.splits)
  have a: "a < lr_next r" "lr_ids r a = i" using d(3) [OF m(1)] by simp_all
  show ?case
  proof (rule live_okI, goal_cases)
    case (1 b)
    then show ?case using d(1) [of b] m by auto
  next
    case (2 b)
    then show ?case using d(2) [of b] a by auto
  next
    case (3 j b)
    then show ?case using d(3) [of j b] m(2) by (auto split: if_splits)
  next
    case 4
    show ?case using d(5) by simp
  qed
next
  case (drained order r as m)
  note d = live_okD [OF drained(3)]
  have m: "set as = {a. \<exists>i. fmlookup (lr_manager r) i = Some a}" "m = fmempty"
    using drained_all [OF drained(1)] drained(2) by (simp_all add: untrack_all_def)
  show ?case
  proof (rule live_okI, goal_cases)
    case (1 b)
    then show ?case using d(1) [of b] m(1) by auto
  next
    case (2 b)
    then show ?case using d(2) [of b] d(3) m(1) by auto
  next
    case (3 j b)
    then show ?case using m(2) by simp
  next
    case 4
    show ?case using d(5) by simp
  qed
next
  case (closed r a)
  note d = live_okD [OF closed]
  show ?case
  proof (rule live_okI, goal_cases)
    case (1 b)
    then show ?case using d(1) [of b] by auto
  next
    case (2 b)
    then show ?case using d(2) [of b] by auto
  next
    case (3 j b)
    then show ?case using d(3) [of j b] by simp
  next
    case 4
    show ?case using d(5) by simp
  qed
qed

text \<open>A query that was not closed is tracked, about to be tracked, or about to be closed: none is out of reach.\<close>

lemma live_never_lost:
  assumes "live_step\<^sup>*\<^sup>* no_live r" "a \<in> lr_open r"
  shows "a \<in> lr_opened r \<or> a \<in> lr_taken r \<or> fmlookup (lr_manager r) (lr_ids r a) = Some a"
proof -
  have "live_ok r" using assms(1)
    by (induction rule: rtranclp_induct) (auto simp: live_step_ok, simp add: live_ok_def no_live_def)
  then show ?thesis using assms(2) by (auto simp: live_ok_def)
qed

text \<open>An unknown id is reported as \<open>ErrStreaming\<close>; one query that was spawned while \<open>DrainAll\<close> ran stays.\<close>

lemma kill_unknown: "i \<noteq> [] \<Longrightarrow> fmlookup m i = None \<Longrightarrow>
   fst (Kill lk c i m s) = Some (err_new ErrStreaming (''live query '' @ go_quote i @ '' not found''))"
  by (simp add: Kill_def untrack_def)

end
