(* ===== verification/Runtime_Settings.thy ===== *)
theory Runtime_Settings
  imports Connection_Config Schema_Watcher
begin

text \<open>
  Package \<open>settings\<close>: the configuration of the library, from its defaults, a file, a dotenv file, the environment and
  explicit options. The file system, the decoders of YAML, TOML and dotenv files and \<open>strconv.ParseFloat\<close> are arguments.
\<close>

section \<open>Settings\<close>

text \<open>Environments and log levels are strings; validation comes after loading.\<close>

record settings =
  se_environment :: string
  se_debug :: bool
  se_log_level :: string
  se_app_name :: string
  se_version :: string
  se_migration_path :: string
  se_database :: connection_config

definition Environment_Valid :: "string \<Rightarrow> bool" where
  "Environment_Valid e \<longleftrightarrow> e \<in> {''development'', ''staging'', ''production''}"

definition LogLevel_Valid :: "string \<Rightarrow> bool" where
  "LogLevel_Valid l \<longleftrightarrow> l \<in> {''DEBUG'', ''INFO'', ''WARNING'', ''ERROR'', ''CRITICAL''}"

definition Defaults :: settings where
  "Defaults = \<lparr>se_environment = ''development'', se_debug = True, se_log_level = ''INFO'', se_app_name = ''surql'',
     se_version = ''0.1.0-dev'', se_migration_path = ''migrations'', se_database = DefaultConfig\<rparr>"

type_synonym load_option = "settings \<Rightarrow> settings"

definition WithEnvironment :: "string \<Rightarrow> load_option" where "WithEnvironment v s = s\<lparr>se_environment := v\<rparr>"
definition WithDebug :: "bool \<Rightarrow> load_option" where "WithDebug v s = s\<lparr>se_debug := v\<rparr>"
definition WithLogLevel :: "string \<Rightarrow> load_option" where "WithLogLevel v s = s\<lparr>se_log_level := v\<rparr>"
definition WithAppName :: "string \<Rightarrow> load_option" where "WithAppName v s = s\<lparr>se_app_name := v\<rparr>"
definition WithVersion :: "string \<Rightarrow> load_option" where "WithVersion v s = s\<lparr>se_version := v\<rparr>"
definition WithMigrationPath :: "string \<Rightarrow> load_option" where "WithMigrationPath v s = s\<lparr>se_migration_path := v\<rparr>"
definition WithDatabase :: "connection_config \<Rightarrow> load_option" where "WithDatabase v s = s\<lparr>se_database := v\<rparr>"

definition validateSettings :: "settings \<Rightarrow> go_error option" where
  "validateSettings s =
     (if \<not> Environment_Valid (se_environment s) then
        Some (err_new ErrValidation (''settings: invalid environment '' @ go_quote (se_environment s)))
      else if \<not> LogLevel_Valid (se_log_level s) then
        Some (err_new ErrValidation (''settings: invalid log_level '' @ go_quote (se_log_level s)))
      else if se_app_name s = [] then Some (err_new ErrValidation ''settings: app_name cannot be empty'')
      else if se_migration_path s = [] then Some (err_new ErrValidation ''settings: migration_path cannot be empty'')
      else Validate (se_database s))"

section \<open>The environment\<close>

definition settings_bool :: "string \<Rightarrow> bool result" where
  "settings_bool s =
     (let t = to_lower (trim_space s) in
      if t \<in> {''1'', ''true'', ''yes'', ''on''} then Inr True
      else if t \<in> {''0'', ''false'', ''no'', ''off''} then Inr False
      else Inl (Opaque ''invalid boolean value''))"

definition settings_float :: "(string \<Rightarrow> go_float result) \<Rightarrow> string \<Rightarrow> go_float result" where
  "settings_float parse_float s = parse_float (trim_space s)"

definition settings_uint :: "string \<Rightarrow> 32 word result" where
  "settings_uint s = parse_uint32 (trim_space s)"

fun first_key :: "env_lookup \<Rightarrow> string list \<Rightarrow> string option" where
  "first_key lookup [] = None"
| "first_key lookup (k # ks) = (case lookup (''SURQL_'' @ k) of Some v \<Rightarrow> Some v | None \<Rightarrow> first_key lookup ks)"

definition overlayDatabaseEnv ::
  "(string \<Rightarrow> go_float result) \<Rightarrow> env_lookup \<Rightarrow> connection_config \<Rightarrow> connection_config result" where
  "overlayDatabaseEnv parse_float lookup cfg =
     (let get = first_key lookup;
          c0 = load_text (get [''URL'', ''DB_URL'']) (\<lambda>v. cc_url_update (\<lambda>_. v)) cfg;
          c1 = load_text (get [''NAMESPACE'', ''DB_NS'']) (\<lambda>v. cc_ns_update (\<lambda>_. v)) c0;
          c2 = load_text (get [''DATABASE'', ''DB'']) (\<lambda>v. cc_db_update (\<lambda>_. v)) c1;
          c3 = load_text (get [''USERNAME'', ''DB_USER'']) (\<lambda>v. cc_user_update (\<lambda>_. Some v)) c2;
          c4 = load_text (get [''PASSWORD'', ''DB_PASS'']) (\<lambda>v. cc_pass_update (\<lambda>_. Some v)) c3 in
      rbind (load_number (get [''TIMEOUT'', ''DB_TIMEOUT'']) ''timeout'' (settings_float parse_float)
               (\<lambda>f. cc_timeout_update (\<lambda>_. f)) c4) (\<lambda>c5.
      rbind (load_number (get [''MAX_CONNECTIONS'', ''DB_MAX_CONNECTIONS'']) ''max_connections'' settings_uint
               (\<lambda>n. cc_max_connections_update (\<lambda>_. n)) c5) (\<lambda>c6.
      rbind (load_number (get [''RETRY_MAX_ATTEMPTS'', ''DB_RETRY_MAX_ATTEMPTS'']) ''retry_max_attempts'' settings_uint
               (\<lambda>n. cc_retry_attempts_update (\<lambda>_. n)) c6) (\<lambda>c7.
      rbind (load_number (get [''RETRY_MIN_WAIT'', ''DB_RETRY_MIN_WAIT'']) ''retry_min_wait'' (settings_float parse_float)
               (\<lambda>f. cc_retry_min_update (\<lambda>_. f)) c7) (\<lambda>c8.
      rbind (load_number (get [''RETRY_MAX_WAIT'', ''DB_RETRY_MAX_WAIT'']) ''retry_max_wait'' (settings_float parse_float)
               (\<lambda>f. cc_retry_max_update (\<lambda>_. f)) c8) (\<lambda>c9.
      rbind (load_number (get [''RETRY_MULTIPLIER'', ''DB_RETRY_MULTIPLIER'']) ''retry_multiplier'' (settings_float parse_float)
               (\<lambda>f. cc_retry_multiplier_update (\<lambda>_. f)) c9) (\<lambda>c10.
      load_number (get [''ENABLE_LIVE_QUERIES'']) ''enable_live_queries'' settings_bool (\<lambda>b. cc_live_update (\<lambda>_. b)) c10)))))))"

definition applyEnv :: "(string \<Rightarrow> go_float result) \<Rightarrow> env_lookup \<Rightarrow> settings \<Rightarrow> settings result" where
  "applyEnv parse_float lookup s =
     (let s = load_text (lookup ''SURQL_ENVIRONMENT'') (\<lambda>v. se_environment_update (\<lambda>_. to_lower v)) s in
      rbind (case lookup ''SURQL_DEBUG'' of
               None \<Rightarrow> Inr s
             | Some v \<Rightarrow>
                 (case settings_bool v of
                    Inl e \<Rightarrow> Inl (err_wrap ErrValidation (''SURQL_DEBUG='' @ go_quote v) e)
                  | Inr b \<Rightarrow> Inr (s\<lparr>se_debug := b\<rparr>))) (\<lambda>s.
      let s = load_text (lookup ''SURQL_LOG_LEVEL'') (\<lambda>v. se_log_level_update (\<lambda>_. to_upper v)) s;
          s = load_text (lookup ''SURQL_APP_NAME'') (\<lambda>v. se_app_name_update (\<lambda>_. v)) s;
          s = load_text (lookup ''SURQL_VERSION'') (\<lambda>v. se_version_update (\<lambda>_. v)) s;
          s = load_text (lookup ''SURQL_MIGRATION_PATH'') (\<lambda>v. se_migration_path_update (\<lambda>_. v)) s in
      rbind (overlayDatabaseEnv parse_float lookup (se_database s)) (\<lambda>cfg. Inr (s\<lparr>se_database := cfg\<rparr>))))"

section \<open>Files\<close>

record config_file_db =
  cd_url :: "string option"
  cd_namespace :: "string option"
  cd_database :: "string option"
  cd_username :: "string option"
  cd_password :: "string option"
  cd_timeout :: "go_float option"
  cd_max_connections :: "32 word option"
  cd_retry_attempts :: "32 word option"
  cd_retry_min :: "go_float option"
  cd_retry_max :: "go_float option"
  cd_retry_multiplier :: "go_float option"
  cd_live :: "bool option"

record config_file =
  cf_environment :: "string option"
  cf_debug :: "bool option"
  cf_log_level :: "string option"
  cf_app_name :: "string option"
  cf_version :: "string option"
  cf_migration_path :: "string option"
  cf_database :: "config_file_db option"

definition given :: "'a option \<Rightarrow> 'a \<Rightarrow> 'a" where
  "given v d = (case v of Some x \<Rightarrow> x | None \<Rightarrow> d)"

definition apply_db_file :: "config_file_db \<Rightarrow> connection_config \<Rightarrow> connection_config" where
  "apply_db_file d c = c\<lparr>
     cc_url := given (cd_url d) (cc_url c), cc_ns := given (cd_namespace d) (cc_ns c), cc_db := given (cd_database d) (cc_db c),
     cc_user := (case cd_username d of None \<Rightarrow> cc_user c | Some u \<Rightarrow> Some u),
     cc_pass := (case cd_password d of None \<Rightarrow> cc_pass c | Some p \<Rightarrow> Some p),
     cc_timeout := given (cd_timeout d) (cc_timeout c), cc_max_connections := given (cd_max_connections d) (cc_max_connections c),
     cc_retry_attempts := given (cd_retry_attempts d) (cc_retry_attempts c), cc_retry_min := given (cd_retry_min d) (cc_retry_min c),
     cc_retry_max := given (cd_retry_max d) (cc_retry_max c), cc_retry_multiplier := given (cd_retry_multiplier d) (cc_retry_multiplier c),
     cc_live := given (cd_live d) (cc_live c)\<rparr>"

definition apply_file :: "config_file \<Rightarrow> settings \<Rightarrow> settings" where
  "apply_file cf s = s\<lparr>
     se_environment := given (map_option to_lower (cf_environment cf)) (se_environment s), se_debug := given (cf_debug cf) (se_debug s),
     se_log_level := given (map_option to_upper (cf_log_level cf)) (se_log_level s), se_app_name := given (cf_app_name cf) (se_app_name s),
     se_version := given (cf_version cf) (se_version s), se_migration_path := given (cf_migration_path cf) (se_migration_path s),
     se_database := (case cf_database cf of None \<Rightarrow> se_database s | Some d \<Rightarrow> apply_db_file d (se_database s))\<rparr>"

text \<open>\<open>sy_stat_file p\<close>: there is something at \<open>p\<close> that is no directory.\<close>

record system =
  sy_cwd :: "string result"
  sy_stat_file :: "string \<Rightarrow> bool"
  sy_join :: "string \<Rightarrow> string \<Rightarrow> string"
  sy_read :: "string \<Rightarrow> string result"
  sy_toml :: "string \<Rightarrow> config_file result"
  sy_yaml :: "string \<Rightarrow> config_file result"
  sy_dotenv :: "string \<Rightarrow> env_lookup result"
  sy_parse_float :: "string \<Rightarrow> go_float result"

fun first_file :: "system \<Rightarrow> string \<Rightarrow> string list \<Rightarrow> string" where
  "first_file sy dir [] = []"
| "first_file sy dir (name # names) = (if sy_stat_file sy (sy_join sy dir name) then sy_join sy dir name else first_file sy dir names)"

definition findConfigFile :: "system \<Rightarrow> string \<Rightarrow> string" where
  "findConfigFile sy dir = first_file sy dir [''surql.yaml'', ''surql.yml'', ''surql.toml'']"

definition read_config_file :: "system \<Rightarrow> string \<Rightarrow> config_file result" where
  "read_config_file sy path =
     (case sy_read sy path of
        Inl e \<Rightarrow> Inl (err_wrap ErrValidation (''read config '' @ go_quote path) e)
      | Inr data \<Rightarrow>
          (let ext = to_lower (path_ext path) in
           if ext = ''.toml'' then
             (case sy_toml sy data of Inl e \<Rightarrow> Inl (err_wrap ErrValidation (''parse toml '' @ go_quote path) e) | Inr cf \<Rightarrow> Inr cf)
           else if ext = ''.yaml'' \<or> ext = ''.yml'' then
             (case sy_yaml sy data of Inl e \<Rightarrow> Inl (err_wrap ErrValidation (''parse yaml '' @ go_quote path) e) | Inr cf \<Rightarrow> Inr cf)
           else Inl (err_new ErrValidation (''unknown settings file format '' @ go_quote (path_ext path) @ '' (want .yaml|.yml|.toml)''))))"

definition applyConfigFile :: "system \<Rightarrow> string \<Rightarrow> settings \<Rightarrow> settings result" where
  "applyConfigFile sy path s = rbind (read_config_file sy path) (\<lambda>cf. Inr (apply_file cf s))"

definition applyDotenv :: "system \<Rightarrow> string \<Rightarrow> settings \<Rightarrow> settings result" where
  "applyDotenv sy path s =
     (case sy_dotenv sy path of
        Inl e \<Rightarrow> Inl (err_wrap ErrValidation (''read dotenv '' @ go_quote path) e)
      | Inr raw \<Rightarrow> applyEnv (sy_parse_float sy) raw s)"

section \<open>Loading\<close>

text \<open>\<open>lc_env\<close> is None when the lookup was set to nil.\<close>

record load_config =
  lc_env :: "env_lookup option"
  lc_dotenv_path :: string
  lc_config_path :: string
  lc_skip_dotenv :: bool
  lc_skip_file :: bool
  lc_cwd :: string

type_synonym resolver_option = "load_config \<Rightarrow> load_config"

definition WithEnvLookup :: "env_lookup option \<Rightarrow> resolver_option" where "WithEnvLookup v c = c\<lparr>lc_env := v\<rparr>"
definition WithDotenvPath :: "string \<Rightarrow> resolver_option" where "WithDotenvPath v c = c\<lparr>lc_dotenv_path := v\<rparr>"
definition WithConfigFile :: "string \<Rightarrow> resolver_option" where "WithConfigFile v c = c\<lparr>lc_config_path := v\<rparr>"
definition WithoutDotenv :: "resolver_option" where "WithoutDotenv c = c\<lparr>lc_skip_dotenv := True\<rparr>"
definition WithoutConfigFile :: "resolver_option" where "WithoutConfigFile c = c\<lparr>lc_skip_file := True\<rparr>"
definition WithCwd :: "string \<Rightarrow> resolver_option" where "WithCwd v c = c\<lparr>lc_cwd := v\<rparr>"

text \<open>An option is of one of the two types, nil, or of another type, whose name is given.\<close>

datatype any_option = Resolver resolver_option | Override load_option | NilOption | Unsupported string

fun sort_options :: "any_option list \<Rightarrow> load_config \<Rightarrow> load_option list \<Rightarrow> (load_config \<times> load_option list) result" where
  "sort_options [] cfg inits = Inr (cfg, inits)"
| "sort_options (Resolver f # os) cfg inits = sort_options os (f cfg) inits"
| "sort_options (Override f # os) cfg inits = sort_options os cfg (inits @ [f])"
| "sort_options (NilOption # os) cfg inits = sort_options os cfg inits"
| "sort_options (Unsupported t # os) cfg inits = Inl (err_new ErrValidation (''LoadSettings: unsupported option type '' @ t))"

definition working_directory :: "system \<Rightarrow> load_config \<Rightarrow> string result" where
  "working_directory sy cfg =
     (if lc_cwd cfg \<noteq> [] then Inr (lc_cwd cfg)
      else case sy_cwd sy of Inl e \<Rightarrow> Inl (err_wrap ErrValidation ''resolve cwd'' e) | Inr d \<Rightarrow> Inr d)"

definition config_path :: "system \<Rightarrow> load_config \<Rightarrow> string \<Rightarrow> string" where
  "config_path sy cfg cwd =
     (if lc_skip_file cfg then [] else if lc_config_path cfg = [] then findConfigFile sy cwd else lc_config_path cfg)"

definition dotenv_path :: "system \<Rightarrow> load_config \<Rightarrow> string \<Rightarrow> string" where
  "dotenv_path sy cfg cwd =
     (if lc_skip_dotenv cfg then []
      else if lc_dotenv_path cfg \<noteq> [] then lc_dotenv_path cfg
      else if sy_stat_file sy (sy_join sy cwd ''.env'') then sy_join sy cwd ''.env'' else [])"

definition LoadSettings :: "system \<Rightarrow> env_lookup \<Rightarrow> any_option list \<Rightarrow> settings result" where
  "LoadSettings sy environ opts =
     rbind (sort_options opts \<lparr>lc_env = Some environ, lc_dotenv_path = [], lc_config_path = [], lc_skip_dotenv = False,
              lc_skip_file = False, lc_cwd = []\<rparr> []) (\<lambda>(cfg, inits).
     rbind (working_directory sy cfg) (\<lambda>cwd.
     let file = config_path sy cfg cwd; dotenv = dotenv_path sy cfg cwd in
     rbind (if file = [] then Inr Defaults else applyConfigFile sy file Defaults) (\<lambda>s1.
     rbind (if dotenv = [] then Inr s1 else applyDotenv sy dotenv s1) (\<lambda>s2.
     rbind (case lc_env cfg of None \<Rightarrow> Inr s2 | Some lookup \<Rightarrow> applyEnv (sy_parse_float sy) lookup s2) (\<lambda>s3.
     let s = fold (\<lambda>f s. f s) inits s3 in
     case validateSettings s of Some e \<Rightarrow> Inl e | None \<Rightarrow> Inr s)))))"

section \<open>The process-wide settings\<close>

text \<open>\<open>gs_done\<close>: \<open>globalOnce\<close> has run. A nil pointer is None.\<close>

record global_settings =
  gs_set :: "settings option"
  gs_err :: "go_error option"
  gs_done :: bool

definition no_settings :: global_settings where
  "no_settings = \<lparr>gs_set = None, gs_err = None, gs_done = False\<rparr>"

text \<open>The section of the first call, after its load.\<close>

definition store_loaded :: "settings result \<Rightarrow> global_settings \<Rightarrow> global_settings" where
  "store_loaded r g = g\<lparr>gs_set := (case r of Inr s \<Rightarrow> Some s | Inl _ \<Rightarrow> None), gs_err := (case r of Inl e \<Rightarrow> Some e | Inr _ \<Rightarrow> None)\<rparr>"

definition GetSettings :: "settings result \<Rightarrow> global_settings \<Rightarrow> (settings option \<times> go_error option) \<times> global_settings" where
  "GetSettings loaded g =
     (let g = (if gs_done g then g else (store_loaded loaded g)\<lparr>gs_done := True\<rparr>) in ((gs_set g, gs_err g), g))"

definition install :: "settings option \<Rightarrow> global_settings \<Rightarrow> global_settings" where
  "install s g = g\<lparr>gs_set := s, gs_err := None\<rparr>"

definition SetGlobal :: "settings option \<Rightarrow> global_settings \<Rightarrow> global_settings" where
  "SetGlobal s g = (install s g)\<lparr>gs_done := True\<rparr>"

definition ResetGlobal :: "global_settings \<Rightarrow> global_settings" where
  "ResetGlobal g = no_settings"

text \<open>A part of the global settings; None is a nil pointer followed.\<close>

definition global_part :: "(settings \<Rightarrow> 'a) \<Rightarrow> settings result \<Rightarrow> global_settings \<Rightarrow> 'a result option \<times> global_settings" where
  "global_part sel loaded g =
     (case GetSettings loaded g of
        ((s, Some e), g') \<Rightarrow> (Some (Inl e), g')
      | ((None, None), g') \<Rightarrow> (None, g')
      | ((Some s, None), g') \<Rightarrow> (Some (Inr (sel s)), g'))"

definition GetDBConfig :: "settings result \<Rightarrow> global_settings \<Rightarrow> connection_config result option \<times> global_settings" where
  "GetDBConfig = global_part se_database"

definition GetMigrationPath :: "settings result \<Rightarrow> global_settings \<Rightarrow> string result option \<times> global_settings" where
  "GetMigrationPath = global_part se_migration_path"

definition settings_String :: "settings \<Rightarrow> string" where
  "settings_String s =
     ''Settings{env='' @ se_environment s @ '' debug='' @ (if se_debug s then ''true'' else ''false'') @ '' log='' @ se_log_level s
     @ '' app='' @ se_app_name s @ '' version='' @ se_version s @ '' migrations='' @ se_migration_path s @ ''}''"

end
