(* ===== verification/Runtime_Settings_Correct.thy ===== *)
theory Runtime_Settings_Correct
  imports Runtime_Settings "HOL-Library.Monad_Syntax"
begin

text \<open>
  The layers of the settings: a load gives every setting the value of the highest layer that has one.
\<close>

section \<open>Layers\<close>

definition ok_of :: "'a result \<Rightarrow> 'a option" where
  "ok_of r = (case r of Inr x \<Rightarrow> Some x | Inl _ \<Rightarrow> None)"

lemma ok_of_simps [simp]: "ok_of (Inr x) = Some x" "ok_of (Inl e) = None" "ok_of r = Some x \<longleftrightarrow> r = Inr x"
  by (auto simp: ok_of_def split: sum.splits)

lemma ok_of_rbind [simp]: "ok_of (rbind r f) = ok_of r \<bind> (\<lambda>x. ok_of (f x))"
  by (cases r) simp_all

text \<open>A value that may be given, once read: None when it does not parse.\<close>

definition parsed_entry :: "('a \<Rightarrow> 'b result) \<Rightarrow> 'a option \<Rightarrow> 'b option option" where
  "parsed_entry p v = (case v of None \<Rightarrow> Some None | Some x \<Rightarrow> map_option Some (ok_of (p x)))"

definition set_given :: "('a \<Rightarrow> 'c \<Rightarrow> 'c) \<Rightarrow> 'c \<Rightarrow> 'a option \<Rightarrow> 'c" where
  "set_given set_it c v = (case v of None \<Rightarrow> c | Some n \<Rightarrow> set_it n c)"

lemma ok_load_number [simp]: "ok_of (load_number v n p f c) = map_option (set_given f c) (parsed_entry p v)"
  by (auto simp: load_number_def parsed_entry_def set_given_def ok_of_def split: option.splits sum.splits)

lemma bind_map [simp]: "map_option f x \<bind> g = x \<bind> (\<lambda>y. g (f y))"
  by (cases x) simp_all

lemma map_bind [simp]: "map_option f (x \<bind> g) = x \<bind> (\<lambda>y. map_option f (g y))"
  by (cases x) simp_all

lemma given_simps [simp]:
  "given None d = d" "given (Some x) d = x"
  by (simp_all add: given_def)

lemma given_Some: "(case v of None \<Rightarrow> d | Some x \<Rightarrow> Some x) = given (map_option Some v) d"
  by (simp add: given_def split: option.split)

lemma load_config_updates [simp]:
  "load_text v (\<lambda>v. cc_url_update (\<lambda>_. v)) c = c\<lparr>cc_url := given v (cc_url c)\<rparr>"
  "load_text v (\<lambda>v. cc_ns_update (\<lambda>_. v)) c = c\<lparr>cc_ns := given v (cc_ns c)\<rparr>"
  "load_text v (\<lambda>v. cc_db_update (\<lambda>_. v)) c = c\<lparr>cc_db := given v (cc_db c)\<rparr>"
  "load_text v (\<lambda>v. cc_user_update (\<lambda>_. Some v)) c = c\<lparr>cc_user := given (map_option Some v) (cc_user c)\<rparr>"
  "load_text v (\<lambda>v. cc_pass_update (\<lambda>_. Some v)) c = c\<lparr>cc_pass := given (map_option Some v) (cc_pass c)\<rparr>"
  by (cases c; cases v; simp add: load_text_def)+

lemma load_settings_updates [simp]:
  "load_text v (\<lambda>v. se_environment_update (\<lambda>_. to_lower v)) s = s\<lparr>se_environment := given (map_option to_lower v) (se_environment s)\<rparr>"
  "load_text v (\<lambda>v. se_log_level_update (\<lambda>_. to_upper v)) s = s\<lparr>se_log_level := given (map_option to_upper v) (se_log_level s)\<rparr>"
  "load_text v (\<lambda>v. se_app_name_update (\<lambda>_. v)) s = s\<lparr>se_app_name := given v (se_app_name s)\<rparr>"
  "load_text v (\<lambda>v. se_version_update (\<lambda>_. v)) s = s\<lparr>se_version := given v (se_version s)\<rparr>"
  "load_text v (\<lambda>v. se_migration_path_update (\<lambda>_. v)) s = s\<lparr>se_migration_path := given v (se_migration_path s)\<rparr>"
  by (cases s; cases v; simp add: load_text_def)+

lemma given_float_updates [simp]:
  "set_given (\<lambda>x. cc_timeout_update (\<lambda>_. x)) c w = c\<lparr>cc_timeout := given w (cc_timeout c)\<rparr>"
  "set_given (\<lambda>x. cc_retry_min_update (\<lambda>_. x)) c w = c\<lparr>cc_retry_min := given w (cc_retry_min c)\<rparr>"
  "set_given (\<lambda>x. cc_retry_max_update (\<lambda>_. x)) c w = c\<lparr>cc_retry_max := given w (cc_retry_max c)\<rparr>"
  "set_given (\<lambda>x. cc_retry_multiplier_update (\<lambda>_. x)) c w = c\<lparr>cc_retry_multiplier := given w (cc_retry_multiplier c)\<rparr>"
  by (cases c; cases w; simp add: set_given_def)+

lemma given_number_updates [simp]:
  "set_given (\<lambda>x. cc_max_connections_update (\<lambda>_. x)) c n = c\<lparr>cc_max_connections := given n (cc_max_connections c)\<rparr>"
  "set_given (\<lambda>x. cc_retry_attempts_update (\<lambda>_. x)) c n = c\<lparr>cc_retry_attempts := given n (cc_retry_attempts c)\<rparr>"
  by (cases c; cases n; simp add: set_given_def)+

lemma given_flag_updates [simp]:
  "set_given (\<lambda>x. cc_live_update (\<lambda>_. x)) c = (\<lambda>b. c\<lparr>cc_live := given b (cc_live c)\<rparr>)"
proof
  show "set_given (\<lambda>x. cc_live_update (\<lambda>_. x)) c b = c\<lparr>cc_live := given b (cc_live c)\<rparr>" for b
    by (cases c; cases b; simp add: set_given_def)
qed

text \<open>The variables of an environment, as the content of a file.\<close>

definition env_db :: "(string \<Rightarrow> go_float result) \<Rightarrow> env_lookup \<Rightarrow> config_file_db option" where
  "env_db pf lookup =
     (let get = first_key lookup in
      parsed_entry (settings_float pf) (get [''TIMEOUT'', ''DB_TIMEOUT'']) \<bind> (\<lambda>t.
      parsed_entry settings_uint (get [''MAX_CONNECTIONS'', ''DB_MAX_CONNECTIONS'']) \<bind> (\<lambda>mc.
      parsed_entry settings_uint (get [''RETRY_MAX_ATTEMPTS'', ''DB_RETRY_MAX_ATTEMPTS'']) \<bind> (\<lambda>ra.
      parsed_entry (settings_float pf) (get [''RETRY_MIN_WAIT'', ''DB_RETRY_MIN_WAIT'']) \<bind> (\<lambda>rmin.
      parsed_entry (settings_float pf) (get [''RETRY_MAX_WAIT'', ''DB_RETRY_MAX_WAIT'']) \<bind> (\<lambda>rmax.
      parsed_entry (settings_float pf) (get [''RETRY_MULTIPLIER'', ''DB_RETRY_MULTIPLIER'']) \<bind> (\<lambda>mult.
      parsed_entry settings_bool (get [''ENABLE_LIVE_QUERIES'']) \<bind> (\<lambda>live.
      Some \<lparr>cd_url = get [''URL'', ''DB_URL''], cd_namespace = get [''NAMESPACE'', ''DB_NS''], cd_database = get [''DATABASE'', ''DB''],
        cd_username = get [''USERNAME'', ''DB_USER''], cd_password = get [''PASSWORD'', ''DB_PASS''], cd_timeout = t, cd_max_connections = mc,
        cd_retry_attempts = ra, cd_retry_min = rmin, cd_retry_max = rmax, cd_retry_multiplier = mult, cd_live = live\<rparr>))))))))"

definition file_of_env :: "(string \<Rightarrow> go_float result) \<Rightarrow> env_lookup \<Rightarrow> config_file option" where
  "file_of_env pf lookup =
     parsed_entry settings_bool (lookup ''SURQL_DEBUG'') \<bind> (\<lambda>d. env_db pf lookup \<bind> (\<lambda>db.
     Some \<lparr>cf_environment = lookup ''SURQL_ENVIRONMENT'', cf_debug = d, cf_log_level = lookup ''SURQL_LOG_LEVEL'',
       cf_app_name = lookup ''SURQL_APP_NAME'', cf_version = lookup ''SURQL_VERSION'',
       cf_migration_path = lookup ''SURQL_MIGRATION_PATH'', cf_database = Some db\<rparr>))"

lemma overlay_env: "ok_of (overlayDatabaseEnv pf lookup c) = map_option (\<lambda>d. apply_db_file d c) (env_db pf lookup)"
  by (simp add: overlayDatabaseEnv_def env_db_def Let_def apply_db_file_def given_Some map_conv_bind_option comp_def
    del: first_key.simps bind_map map_bind)

lemma apply_env: "ok_of (applyEnv pf lookup s) = map_option (\<lambda>cf. apply_file cf s) (file_of_env pf lookup)"
proof -
  have debug: "ok_of (case v of None \<Rightarrow> Inr s | Some v \<Rightarrow> (case settings_bool v of Inl e \<Rightarrow> Inl (f v e) | Inr b \<Rightarrow> Inr (s\<lparr>se_debug := b\<rparr>)))
      = map_option (\<lambda>b. s\<lparr>se_debug := given b (se_debug s)\<rparr>) (parsed_entry settings_bool v)" for v s f
    by (cases s; cases v) (simp_all add: parsed_entry_def ok_of_def split: sum.splits)
  show ?thesis by (simp add: applyEnv_def file_of_env_def overlay_env debug Let_def apply_file_def)
qed

section \<open>The value of a setting\<close>

text \<open>The value of the last layer that gives one.\<close>

fun highest :: "'a option list \<Rightarrow> 'a option" where
  "highest [] = None"
| "highest (v # vs) = (case highest vs of Some x \<Rightarrow> Some x | None \<Rightarrow> v)"

definition setting :: "(config_file \<Rightarrow> 'a option) \<Rightarrow> config_file list \<Rightarrow> 'a \<Rightarrow> 'a" where
  "setting sel layers d = given (highest (map sel layers)) d"

definition db_setting :: "(config_file_db \<Rightarrow> 'a option) \<Rightarrow> config_file list \<Rightarrow> 'a \<Rightarrow> 'a" where
  "db_setting sel layers d = setting (\<lambda>cf. cf_database cf \<bind> sel) layers d"

definition resolve :: "config_file list \<Rightarrow> settings \<Rightarrow> settings" where
  "resolve ls s =
     (let c = se_database s in
      \<lparr>se_environment = setting (\<lambda>cf. map_option to_lower (cf_environment cf)) ls (se_environment s), se_debug = setting cf_debug ls (se_debug s),
       se_log_level = setting (\<lambda>cf. map_option to_upper (cf_log_level cf)) ls (se_log_level s), se_app_name = setting cf_app_name ls (se_app_name s),
       se_version = setting cf_version ls (se_version s), se_migration_path = setting cf_migration_path ls (se_migration_path s),
       se_database = \<lparr>cc_url = db_setting cd_url ls (cc_url c), cc_ns = db_setting cd_namespace ls (cc_ns c), cc_db = db_setting cd_database ls (cc_db c),
         cc_user = db_setting (\<lambda>d. map_option Some (cd_username d)) ls (cc_user c), cc_pass = db_setting (\<lambda>d. map_option Some (cd_password d)) ls (cc_pass c),
         cc_timeout = db_setting cd_timeout ls (cc_timeout c), cc_max_connections = db_setting cd_max_connections ls (cc_max_connections c),
         cc_retry_attempts = db_setting cd_retry_attempts ls (cc_retry_attempts c), cc_retry_min = db_setting cd_retry_min ls (cc_retry_min c),
         cc_retry_max = db_setting cd_retry_max ls (cc_retry_max c), cc_retry_multiplier = db_setting cd_retry_multiplier ls (cc_retry_multiplier c),
         cc_live = db_setting cd_live ls (cc_live c)\<rparr>\<rparr>)"

lemma setting_simps: "setting sel [] d = d" "setting sel (cf # ls) d = setting sel ls (given (sel cf) d)"
  by (simp_all add: setting_def split: option.split)

lemma resolve_Nil: "resolve [] s = s"
  by (simp add: resolve_def db_setting_def setting_simps Let_def)

lemma resolve_Cons: "resolve (cf # ls) s = resolve ls (apply_file cf s)"
  by (cases "cf_database cf") (simp_all add: resolve_def db_setting_def setting_simps apply_file_def apply_db_file_def given_Some Let_def)

section \<open>Loading\<close>

definition file_layer :: "system \<Rightarrow> string \<Rightarrow> config_file list option" where
  "file_layer sy path = (if path = [] then Some [] else map_option (\<lambda>cf. [cf]) (ok_of (read_config_file sy path)))"

definition dotenv_layer :: "system \<Rightarrow> string \<Rightarrow> config_file list option" where
  "dotenv_layer sy path =
     (if path = [] then Some [] else ok_of (sy_dotenv sy path) \<bind> (\<lambda>raw. map_option (\<lambda>cf. [cf]) (file_of_env (sy_parse_float sy) raw)))"

definition env_layer :: "system \<Rightarrow> env_lookup option \<Rightarrow> config_file list option" where
  "env_layer sy lookup = (case lookup of None \<Rightarrow> Some [] | Some l \<Rightarrow> map_option (\<lambda>cf. [cf]) (file_of_env (sy_parse_float sy) l))"

definition layers :: "system \<Rightarrow> load_config \<Rightarrow> string \<Rightarrow> config_file list option" where
  "layers sy cfg cwd =
     file_layer sy (config_path sy cfg cwd) \<bind> (\<lambda>f. dotenv_layer sy (dotenv_path sy cfg cwd) \<bind> (\<lambda>d. env_layer sy (lc_env cfg) \<bind> (\<lambda>e.
     Some (f @ d @ e))))"

definition start_config :: "env_lookup \<Rightarrow> load_config" where
  "start_config environ = \<lparr>lc_env = Some environ, lc_dotenv_path = [], lc_config_path = [], lc_skip_dotenv = False,
     lc_skip_file = False, lc_cwd = []\<rparr>"

lemma resolve_append: "resolve (xs @ ys) s = resolve ys (resolve xs s)"
  by (induction xs arbitrary: s) (simp_all add: resolve_Nil resolve_Cons)

lemma file_step: "ok_of (if path = [] then Inr s else applyConfigFile sy path s) = map_option (\<lambda>l. resolve l s) (file_layer sy path)"
  by (simp add: file_layer_def applyConfigFile_def resolve_Nil resolve_Cons comp_def option.map_comp map_conv_bind_option)

lemma dotenv_step: "ok_of (if path = [] then Inr s else applyDotenv sy path s) = map_option (\<lambda>l. resolve l s) (dotenv_layer sy path)"
  by (cases "sy_dotenv sy path")
    (simp_all add: dotenv_layer_def applyDotenv_def apply_env resolve_Nil resolve_Cons comp_def option.map_comp)

lemma env_step: "ok_of (case l of None \<Rightarrow> Inr s | Some lookup \<Rightarrow> applyEnv (sy_parse_float sy) lookup s) = map_option (\<lambda>l. resolve l s) (env_layer sy l)"
  by (cases l) (simp_all add: env_layer_def apply_env resolve_Nil resolve_Cons comp_def option.map_comp)


section \<open>The process-wide settings\<close>

text \<open>The first call loads, every other returns what that one did.\<close>

lemma settings_loaded_once:
  assumes "GetSettings loaded no_settings = (r, g)"
  shows "GetSettings later g = (r, g)"
  using assms by (auto simp: GetSettings_def no_settings_def Let_def)

text \<open>A value installed while the first call is loading is replaced by what was loaded.\<close>

lemma set_global_lost: "gs_set (store_loaded (Inr t) (install (Some s) g)) = Some t"
  by (simp add: store_loaded_def)

text \<open>A nil pointer may be installed; the accessors follow it.\<close>

lemma nil_settings_followed: "fst (GetDBConfig loaded (SetGlobal None g)) = None"
  by (simp add: GetDBConfig_def global_part_def GetSettings_def SetGlobal_def install_def)

end
