(* ===== verification/Datetime_Coercion.thy ===== *)
theory Datetime_Coercion
  imports Go_Values Go_Strconv
begin

text \<open>
  Datetimes of records (\<open>coerce.go\<close> of package \<open>types\<close>): text that the database returns for a time is parsed
  into an instant, for one text and for the listed fields of a record. \<open>time.Parse\<close> is the argument \<open>tp\<close>, a function of
  a layout and a text; an instant has no location, so \<open>UTC()\<close> is the identity.
\<close>

section \<open>Parsing\<close>

definition rfc3339_nano :: string where
  "rfc3339_nano = ''2006-01-02T15:04:05.999999999Z07:00''"

definition rfc3339 :: string where
  "rfc3339 = ''2006-01-02T15:04:05Z07:00''"

definition naive_layouts :: "string list" where
  "naive_layouts = [''2006-01-02T15:04:05.999999999'', ''2006-01-02T15:04:05.999999'', ''2006-01-02T15:04:05.999'', ''2006-01-02T15:04:05'']"

fun first_layout :: "(string \<Rightarrow> string \<Rightarrow> gotime option) \<Rightarrow> string list \<Rightarrow> string \<Rightarrow> gotime option" where
  "first_layout tp [] s = None"
| "first_layout tp (l # ls) s = (case tp l s of Some t \<Rightarrow> Some t | None \<Rightarrow> first_layout tp ls s)"

definition CoerceDatetime :: "(string \<Rightarrow> string \<Rightarrow> gotime option) \<Rightarrow> string \<Rightarrow> gotime result" where
  "CoerceDatetime tp s =
     (case tp rfc3339_nano s of
        Some t \<Rightarrow> Inr t
      | None \<Rightarrow>
          (case tp rfc3339 s of
             Some t \<Rightarrow> Inr t
           | None \<Rightarrow>
               (case first_layout tp naive_layouts s of
                  Some t \<Rightarrow> Inr t
                | None \<Rightarrow> Inl (err_new ErrValidation (''could not parse datetime string '' @ go_quote s)))))"

text \<open>The loop over the listed fields, on the copy of the record.\<close>

fun coerce_fields :: "(string \<Rightarrow> string \<Rightarrow> gotime option) \<Rightarrow> string list \<Rightarrow> go_map \<Rightarrow> go_map result" where
  "coerce_fields tp [] out = Inr out"
| "coerce_fields tp (f # fs) out =
     (case map_get out f of
        Some (StrV s) \<Rightarrow>
          (case CoerceDatetime tp s of
             Inl e \<Rightarrow> Inl (err_wrap ErrValidation (''field '' @ go_quote f) e)
           | Inr t \<Rightarrow> coerce_fields tp fs (map_put f (TimeV t) out))
      | _ \<Rightarrow> coerce_fields tp fs out)"

definition CoerceRecordDatetimes :: "(string \<Rightarrow> string \<Rightarrow> gotime option) \<Rightarrow> go_map \<Rightarrow> string list \<Rightarrow> go_map result" where
  "CoerceRecordDatetimes tp data datetimeFields = coerce_fields tp datetimeFields data"

text \<open>Digits of a fraction beyond the ninth are cut.\<close>

definition normaliseNanos :: "string \<Rightarrow> string" where
  "normaliseNanos s =
     (case str_index s ''.'' of
        None \<Rightarrow> s
      | Some idx \<Rightarrow>
          let frac = takeWhile is_digit (drop (idx + 1) s); stop = idx + 1 + length frac in
          if length frac \<le> 9 then s else take (idx + 1) s @ take 9 frac @ drop stop s)"

section \<open>What a coerced record holds\<close>

text \<open>A listed field that holds text holds the instant, every other field what it held; the order of the list
  and repetitions do not matter.\<close>

definition coerced :: "(string \<Rightarrow> string \<Rightarrow> gotime option) \<Rightarrow> string list \<Rightarrow> string \<Rightarrow> any \<Rightarrow> any" where
  "coerced tp fs k v =
     (case v of StrV s \<Rightarrow> if k \<in> set fs then (case CoerceDatetime tp s of Inr t \<Rightarrow> TimeV t | Inl _ \<Rightarrow> v) else v | _ \<Rightarrow> v)"

definition coercible :: "(string \<Rightarrow> string \<Rightarrow> gotime option) \<Rightarrow> string list \<Rightarrow> go_map \<Rightarrow> bool" where
  "coercible tp fs m \<longleftrightarrow> (\<forall>f \<in> set fs. \<forall>s. map_of m f = Some (StrV s) \<longrightarrow> \<not> isl (CoerceDatetime tp s))"

lemma coerce_fields_ok:
  "coerce_fields tp fs m = Inr out \<Longrightarrow> coercible tp fs m \<and> map_of out = (\<lambda>k. map_option (coerced tp fs k) (map_of m k))"
proof (induction fs arbitrary: m)
  case Nil
  have "coerced tp [] k = id" for k by (auto simp: coerced_def fun_eq_iff split: any.splits)
  then show ?case using Nil by (simp add: coercible_def option.map_ident)
next
  case (Cons f fs)
  show ?case
  proof (cases "\<exists>s. map_of m f = Some (StrV s)")
    case True
    then obtain s where s: "map_of m f = Some (StrV s)" by blast
    then obtain t where t: "CoerceDatetime tp s = Inr t" using Cons.prems by (auto split: sum.splits)
    have IH: "coercible tp fs (map_put f (TimeV t) m)"
      "map_of out = (\<lambda>k. map_option (coerced tp fs k) (map_of (map_put f (TimeV t) m) k))"
      using Cons.IH [of "map_put f (TimeV t) m"] Cons.prems s t by simp_all
    have "map_of out k = map_option (coerced tp (f # fs) k) (map_of m k)" for k
    proof (cases "k = f")
      case False
      then have "coerced tp (f # fs) k = coerced tp fs k" by (auto simp: coerced_def fun_eq_iff split: any.split)
      then show ?thesis using IH(2) False by (simp add: map_of_put)
    qed (use IH(2) s t in \<open>simp add: map_of_put coerced_def\<close>)
    moreover have "coercible tp (f # fs) m" using IH(1) s t by (auto simp: coercible_def map_of_put split: if_splits)
    ultimately show ?thesis by (simp add: fun_eq_iff)
  next
    case False
    then have c: "coerce_fields tp fs m = Inr out" using Cons.prems by (auto split: option.splits any.splits)
    have "map_option (coerced tp (f # fs) k) (map_of m k) = map_option (coerced tp fs k) (map_of m k)" for k
      using False by (cases "k = f"; cases "map_of m k") (auto simp: coerced_def split: any.splits)
    then show ?thesis using Cons.IH [OF c] False by (auto simp: coercible_def)
  qed
qed

lemma coerce_fields_error: "coerce_fields tp fs m = Inl e \<Longrightarrow> \<not> coercible tp fs m \<and> errors_is e ErrValidation"
proof (induction fs arbitrary: m)
  case (Cons f fs)
  show ?case
  proof (cases "\<exists>s. map_of m f = Some (StrV s)")
    case True
    then obtain s where s: "map_of m f = Some (StrV s)" by blast
    show ?thesis
    proof (cases "CoerceDatetime tp s")
      case (Inl e')
      then show ?thesis using Cons.prems s by (auto simp: coercible_def)
    next
      case (Inr t)
      then show ?thesis using Cons.IH [of "map_put f (TimeV t) m"] Cons.prems s
        by (auto simp: coercible_def map_of_put split: if_splits)
    qed
  next
    case False
    then have "coerce_fields tp fs m = Inl e" using Cons.prems by (auto split: option.splits any.splits)
    then show ?thesis using Cons.IH by (auto simp: coercible_def)
  qed
qed simp

lemma coerce_succeeds_iff: "(\<exists>out. CoerceRecordDatetimes tp m fs = Inr out) \<longleftrightarrow> coercible tp fs m"
  using coerce_fields_ok coerce_fields_error unfolding CoerceRecordDatetimes_def by (metis sum.exhaust)

text \<open>A cut fraction has at most nine digits, and a text that was cut is cut no further.\<close>

lemma normaliseNanos_fraction:
  "str_index s ''.'' = Some i \<Longrightarrow> normaliseNanos s = take (i + 1) s @ take 9 (takeWhile is_digit (drop (i + 1) s)) @ dropWhile is_digit (drop (i + 1) s)"
proof -
  assume i: "str_index s ''.'' = Some i"
  let ?r = "drop (i + 1) s"
  have "drop (i + 1 + length (takeWhile is_digit ?r)) s = dropWhile is_digit ?r"
    by (metis drop_drop add.commute dropWhile_eq_drop)
  moreover have "s = take (i + 1) s @ takeWhile is_digit ?r @ dropWhile is_digit ?r" by simp
  ultimately show ?thesis using i unfolding normaliseNanos_def by (auto simp: Let_def)
qed

end
