(* ===== verification/Schema_Themes.thy ===== *)
theory Schema_Themes
  imports Schema_Generate
begin

text \<open>
  The themes of the schema diagrams (\<open>themes.go\<close>): a palette and one style for each diagram format,
  bundled under a name; \<open>GetTheme\<close> looks a bundle up.
\<close>

section \<open>Styles\<close>

record color_scheme =
  col_primary :: string
  col_secondary :: string
  col_background :: string
  col_text :: string
  col_accent :: string
  col_success :: string
  col_warning :: string
  col_error :: string
  col_muted :: string

record graphviz_theme =
  gvt_node_color :: string
  gvt_edge_color :: string
  gvt_bg_color :: string
  gvt_font_name :: string
  gvt_node_shape :: string
  gvt_node_style :: string
  gvt_edge_style :: string
  gvt_use_gradients :: bool
  gvt_use_clusters :: bool

record mermaid_theme =
  mmt_theme_name :: string
  mmt_primary_color :: string
  mmt_secondary_color :: string
  mmt_use_custom_css :: bool

record ascii_theme =
  aat_box_style :: string
  aat_use_unicode :: bool
  aat_use_colors :: bool
  aat_use_icons :: bool
  aat_color_scheme :: string

record visual_theme =
  vth_name :: string
  vth_description :: string
  vth_colors :: color_scheme
  vth_graph_viz :: graphviz_theme
  vth_mermaid :: mermaid_theme
  vth_ascii :: ascii_theme

section \<open>Presets\<close>

definition ModernColorScheme :: color_scheme where
  "ModernColorScheme = \<lparr>col_primary = ''#6366f1'', col_secondary = ''#ec4899'',
     col_background = ''#f8fafc'', col_text = ''#0f172a'', col_accent = ''#8b5cf6'', col_success = ''#10b981'',
     col_warning = ''#f59e0b'', col_error = ''#ef4444'', col_muted = ''#94a3b8''\<rparr>"

definition DarkColorScheme :: color_scheme where
  "DarkColorScheme = \<lparr>col_primary = ''#8b5cf6'', col_secondary = ''#d946ef'', col_background = ''#1e1b4b'',
     col_text = ''#f1f5f9'', col_accent = ''#a78bfa'', col_success = ''#34d399'', col_warning = ''#fbbf24'',
     col_error = ''#f87171'', col_muted = ''#64748b''\<rparr>"

definition ForestColorScheme :: color_scheme where
  "ForestColorScheme = \<lparr>col_primary = ''#10b981'', col_secondary = ''#14b8a6'',
     col_background = ''#f0fdf4'', col_text = ''#14532d'', col_accent = ''#059669'', col_success = ''#22c55e'',
     col_warning = ''#f59e0b'', col_error = ''#ef4444'', col_muted = ''#86efac''\<rparr>"

definition MinimalColorScheme :: color_scheme where
  "MinimalColorScheme = \<lparr>col_primary = ''#6b7280'', col_secondary = ''#64748b'',
     col_background = ''#ffffff'', col_text = ''#1f2937'', col_accent = ''#9ca3af'', col_success = ''#10b981'',
     col_warning = ''#f59e0b'', col_error = ''#ef4444'', col_muted = ''#d1d5db''\<rparr>"

definition ModernGraphVizTheme :: graphviz_theme where
  "ModernGraphVizTheme = \<lparr>gvt_node_color = ''#6366f1'', gvt_edge_color = ''#64748b'',
     gvt_bg_color = ''transparent'', gvt_font_name = ''Arial'', gvt_node_shape = ''record'',
     gvt_node_style = ''filled,rounded'', gvt_edge_style = ''solid'', gvt_use_gradients = True,
     gvt_use_clusters = False\<rparr>"

definition DarkGraphVizTheme :: graphviz_theme where
  "DarkGraphVizTheme = \<lparr>gvt_node_color = ''#8b5cf6'', gvt_edge_color = ''#64748b'',
     gvt_bg_color = ''#1e1b4b'', gvt_font_name = ''Arial'', gvt_node_shape = ''record'',
     gvt_node_style = ''filled,rounded'', gvt_edge_style = ''solid'', gvt_use_gradients = True,
     gvt_use_clusters = False\<rparr>"

definition ForestGraphVizTheme :: graphviz_theme where
  "ForestGraphVizTheme = \<lparr>gvt_node_color = ''#10b981'', gvt_edge_color = ''#059669'',
     gvt_bg_color = ''transparent'', gvt_font_name = ''Arial'', gvt_node_shape = ''record'',
     gvt_node_style = ''filled,rounded'', gvt_edge_style = ''solid'', gvt_use_gradients = True,
     gvt_use_clusters = False\<rparr>"

definition MinimalGraphVizTheme :: graphviz_theme where
  "MinimalGraphVizTheme = \<lparr>gvt_node_color = ''#6b7280'', gvt_edge_color = ''#9ca3af'',
     gvt_bg_color = ''transparent'', gvt_font_name = ''Arial'', gvt_node_shape = ''record'',
     gvt_node_style = ''filled'', gvt_edge_style = ''solid'', gvt_use_gradients = False,
     gvt_use_clusters = False\<rparr>"

definition ModernMermaidTheme :: mermaid_theme where
  "ModernMermaidTheme = \<lparr>mmt_theme_name = ''default'', mmt_primary_color = ''#6366f1'',
     mmt_secondary_color = ''#ec4899'', mmt_use_custom_css = True\<rparr>"

definition DarkMermaidTheme :: mermaid_theme where
  "DarkMermaidTheme = \<lparr>mmt_theme_name = ''dark'', mmt_primary_color = ''#8b5cf6'',
     mmt_secondary_color = ''#d946ef'', mmt_use_custom_css = True\<rparr>"

definition ForestMermaidTheme :: mermaid_theme where
  "ForestMermaidTheme = \<lparr>mmt_theme_name = ''forest'', mmt_primary_color = ''#10b981'',
     mmt_secondary_color = ''#14b8a6'', mmt_use_custom_css = True\<rparr>"

definition MinimalMermaidTheme :: mermaid_theme where
  "MinimalMermaidTheme = \<lparr>mmt_theme_name = ''neutral'', mmt_primary_color = ''#6b7280'',
     mmt_secondary_color = ''#64748b'', mmt_use_custom_css = True\<rparr>"

definition ModernASCIITheme :: ascii_theme where
  "ModernASCIITheme = \<lparr>aat_box_style = ''rounded'', aat_use_unicode = True, aat_use_colors = True,
     aat_use_icons = True, aat_color_scheme = ''default''\<rparr>"

definition DarkASCIITheme :: ascii_theme where
  "DarkASCIITheme = \<lparr>aat_box_style = ''rounded'', aat_use_unicode = True, aat_use_colors = True,
     aat_use_icons = True, aat_color_scheme = ''dark''\<rparr>"

definition ForestASCIITheme :: ascii_theme where
  "ForestASCIITheme = \<lparr>aat_box_style = ''rounded'', aat_use_unicode = True, aat_use_colors = True,
     aat_use_icons = True, aat_color_scheme = ''forest''\<rparr>"

definition MinimalASCIITheme :: ascii_theme where
  "MinimalASCIITheme = \<lparr>aat_box_style = ''single'', aat_use_unicode = True, aat_use_colors = False,
     aat_use_icons = False, aat_color_scheme = ''minimal''\<rparr>"

definition ModernTheme :: visual_theme where
  "ModernTheme = \<lparr>vth_name = ''modern'', vth_description = ''Clean,
     professional design with indigo and pink accents'', vth_colors = ModernColorScheme,
     vth_graph_viz = ModernGraphVizTheme, vth_mermaid = ModernMermaidTheme, vth_ascii = ModernASCIITheme\<rparr>"

definition DarkTheme :: visual_theme where
  "DarkTheme = \<lparr>vth_name = ''dark'',
     vth_description = ''Dark background theme with violet and fuchsia for dark mode environments'',
     vth_colors = DarkColorScheme, vth_graph_viz = DarkGraphVizTheme, vth_mermaid = DarkMermaidTheme,
     vth_ascii = DarkASCIITheme\<rparr>"

definition ForestTheme :: visual_theme where
  "ForestTheme = \<lparr>vth_name = ''forest'',
     vth_description = ''Nature-inspired theme with emerald and teal on light green background'',
     vth_colors = ForestColorScheme, vth_graph_viz = ForestGraphVizTheme, vth_mermaid = ForestMermaidTheme,
     vth_ascii = ForestASCIITheme\<rparr>"

definition MinimalTheme :: visual_theme where
  "MinimalTheme = \<lparr>vth_name = ''minimal'',
     vth_description = ''Minimalist grayscale theme with subtle styling'', vth_colors = MinimalColorScheme,
     vth_graph_viz = MinimalGraphVizTheme, vth_mermaid = MinimalMermaidTheme, vth_ascii = MinimalASCIITheme\<rparr>"

section \<open>Lookup\<close>

text \<open>The list is sorted before it is returned.\<close>

definition ListThemes :: "string list" where
  "ListThemes = sort [''dark'', ''forest'', ''minimal'', ''modern'']"

definition GetTheme :: "string \<Rightarrow> visual_theme result" where
  "GetTheme name =
     (if name = ''modern'' then Inr ModernTheme
      else if name = ''dark'' then Inr DarkTheme
      else if name = ''forest'' then Inr ForestTheme
      else if name = ''minimal'' then Inr MinimalTheme
      else Inl (err_new ErrValidation (''unknown theme '' @ go_quote name @ ''. Available themes: [''
        @ str_join '' '' ListThemes @ '']'')))"

text \<open>The listed names are exactly those that are found, each under its own name.\<close>

lemma GetTheme_listed: "(\<exists>t. GetTheme name = Inr t \<and> vth_name t = name) \<longleftrightarrow> name \<in> set ListThemes"
  by (auto simp: GetTheme_def ListThemes_def ModernTheme_def DarkTheme_def ForestTheme_def MinimalTheme_def)

end
