(* ===== verification/Schema_Visualize.thy ===== *)
theory Schema_Visualize
  imports Schema_Themes
begin

text \<open>
  Diagrams of a schema (\<open>visualize.go\<close>, \<open>utils.go\<close>): a Mermaid entity diagram, a GraphViz digraph and boxes of
  plain text. A Go string is a list of bytes, so the width of a text on a terminal goes through
  \<open>runes\<close>, the decoding that \<open>range\<close> performs on a string: a byte that starts no UTF-8 sequence is
  U+FFFD and one byte is consumed. Box characters and icons are written as the encoding of their code
  point. Lengths and paddings that the source keeps from falling below zero are natural numbers.
\<close>

section \<open>UTF-8\<close>

fun rune_bytes :: "nat \<Rightarrow> string" where
  "rune_bytes r =
     map char_of
       (if r < 0x80 then [r]
        else if r < 0x800 then [0xC0 + r div 64, 0x80 + r mod 64]
        else if r < 0x10000 then [0xE0 + r div 4096, 0x80 + r div 64 mod 64, 0x80 + r mod 64]
        else [0xF0 + r div 262144, 0x80 + r div 4096 mod 64, 0x80 + r div 64 mod 64, 0x80 + r mod 64])"

definition rune_error :: nat where
  "rune_error = 0xFFFD"

definition cont_byte :: "char \<Rightarrow> bool" where
  "cont_byte c \<longleftrightarrow> 0x80 \<le> (of_char c :: nat) \<and> (of_char c :: nat) \<le> 0xBF"

text \<open>What the second byte may be after the first: overlong forms, surrogates and code points above
  U+10FFFF are no sequences.\<close>

definition second_ok :: "nat \<Rightarrow> char \<Rightarrow> bool" where
  "second_ok b0 c \<longleftrightarrow> cont_byte c \<and>
     (b0 = 0xE0 \<longrightarrow> 0xA0 \<le> (of_char c :: nat)) \<and> (b0 = 0xED \<longrightarrow> (of_char c :: nat) \<le> 0x9F) \<and>
     (b0 = 0xF0 \<longrightarrow> 0x90 \<le> (of_char c :: nat)) \<and> (b0 = 0xF4 \<longrightarrow> (of_char c :: nat) \<le> 0x8F)"

definition low6 :: "char \<Rightarrow> nat" where
  "low6 c = (of_char c :: nat) - 0x80"

text \<open>The first code point of a text and the number of bytes it takes.\<close>

definition decode_rune :: "string \<Rightarrow> nat \<times> nat" where
  "decode_rune s =
     (let b0 = (case s of [] \<Rightarrow> 0 | c # _ \<Rightarrow> (of_char c :: nat)) in
      if b0 < 0x80 then (b0, 1)
      else if 0xC2 \<le> b0 \<and> b0 \<le> 0xDF then
        (case s of _ # c1 # _ \<Rightarrow> if second_ok b0 c1 then ((b0 - 0xC0) * 64 + low6 c1, 2) else (rune_error, 1) | _ \<Rightarrow> (rune_error, 1))
      else if 0xE0 \<le> b0 \<and> b0 \<le> 0xEF then
        (case s of
           _ # c1 # c2 # _ \<Rightarrow>
             if second_ok b0 c1 \<and> cont_byte c2 then ((b0 - 0xE0) * 4096 + low6 c1 * 64 + low6 c2, 3) else (rune_error, 1)
         | _ \<Rightarrow> (rune_error, 1))
      else if 0xF0 \<le> b0 \<and> b0 \<le> 0xF4 then
        (case s of
           _ # c1 # c2 # c3 # _ \<Rightarrow>
             if second_ok b0 c1 \<and> cont_byte c2 \<and> cont_byte c3
             then ((b0 - 0xF0) * 262144 + low6 c1 * 4096 + low6 c2 * 64 + low6 c3, 4) else (rune_error, 1)
         | _ \<Rightarrow> (rune_error, 1))
      else (rune_error, 1))"

lemma decode_rune_size: "0 < snd (decode_rune s)"
  by (auto simp: decode_rune_def Let_def split: list.splits)

lemma decode_rune_drop: "(r, k) = decode_rune s \<Longrightarrow> s \<noteq> [] \<Longrightarrow> length (drop k s) < length s"
  using decode_rune_size [of s] by (cases "decode_rune s") simp

function runes :: "string \<Rightarrow> nat list" where
  "runes [] = []"
| "runes (c # cs) = (case decode_rune (c # cs) of (r, k) \<Rightarrow> r # runes (drop k (c # cs)))"
  by pat_completeness auto
termination by (relation "measure length") (simp, metis decode_rune_drop in_measure list.distinct(1))

section \<open>Width on a terminal\<close>

text \<open>The pattern of an ANSI colour sequence, and \<open>ReplaceAllString\<close> by the empty text for a pattern that never
  matches the empty text.\<close>

definition ansi_param :: "char \<Rightarrow> bool" where
  "ansi_param c \<longleftrightarrow> is_digit c \<or> c = CHR '';''"

definition ansiEscapePattern :: regex where
  "ansiEscapePattern = Seq (Chr CHR 0x1B) (Seq (Chr CHR ''['')
     (Seq (Star (Sat ansi_param)) (Chr CHR ''m'')))"

function remove_matches :: "regex \<Rightarrow> char option \<Rightarrow> string \<Rightarrow> string" where
  "remove_matches r p [] = []"
| "remove_matches r p (c # cs) =
     (case hd_opt (progress (c # cs) (matches r p (c # cs))) of
        Some (_, s') \<Rightarrow> if length s' < Suc (length cs) then remove_matches r (last_before p (c # cs) s') s' else []
      | None \<Rightarrow> c # remove_matches r (Some c) cs)"
  by pat_completeness auto
termination by (relation "measure (\<lambda>(r, p, s). length s)") auto

definition strip_ansi :: "string \<Rightarrow> string" where
  "strip_ansi text = remove_matches ansiEscapePattern None text"

definition wide_ranges :: "(nat \<times> nat) list" where
  "wide_ranges = [(0x1100, 0x115F), (0x2E80, 0x303E), (0x3041, 0x33FF), (0x3400, 0x4DBF), (0x4E00, 0x9FFF),
     (0xA000, 0xA4CF), (0xAC00, 0xD7A3), (0xF900, 0xFAFF), (0xFE30, 0xFE4F), (0xFF00, 0xFF60), (0xFFE0, 0xFFE6),
     (0x1F300, 0x1F64F), (0x1F680, 0x1F6FF), (0x1F900, 0x1F9FF), (0x1FA70, 0x1FAFF), (0x20000, 0x2FFFD), (0x30000, 0x3FFFD)]"

definition isWideRune :: "nat \<Rightarrow> bool" where
  "isWideRune r \<longleftrightarrow> \<not> r < 0x1100 \<and> list_ex (\<lambda>(lo, hi). lo \<le> r \<and> r \<le> hi) wide_ranges"

definition rune_width :: "nat \<Rightarrow> nat" where
  "rune_width r = (if r < 0x20 then 0 else if isWideRune r then 2 else 1)"

definition displayWidth :: "string \<Rightarrow> nat" where
  "displayWidth text = sum_list (map rune_width (runes (strip_ansi text)))"

section \<open>Constraints and types of fields\<close>

definition fieldConstraint :: "string \<Rightarrow> table_definition \<Rightarrow> string" where
  "fieldConstraint fieldName t =
     (if fieldName = ''id'' then ''PK''
      else if list_ex (\<lambda>ix. ix_type ix = ''UNIQUE'' \<and> fieldName \<in> set (ix_columns ix)) (tb_indexes t) then ''UK''
      else if list_ex (\<lambda>f. fd_name f = fieldName \<and> fd_type f = ''record'') (tb_fields t) then ''FK''
      else [])"

definition fieldTypeString :: "field_type \<Rightarrow> string" where
  "fieldTypeString t = t"

section \<open>Centring, boxes and colours\<close>

definition str_repeat :: "string \<Rightarrow> nat \<Rightarrow> string" where
  "str_repeat s n = concat (replicate n s)"

definition centerPad :: "string \<Rightarrow> nat \<Rightarrow> nat \<times> nat" where
  "centerPad txt width =
     (let visible = displayWidth txt in
      if width \<le> visible then (0, 0)
      else let padding = width - visible; right = padding div 2 in (padding - right, right))"

definition centerText :: "string \<Rightarrow> nat \<Rightarrow> string" where
  "centerText txt width =
     (let visible = displayWidth txt in
      if width \<le> visible then txt
      else let padding = width - visible; right = padding div 2; left = padding - right in
        str_repeat '' '' left @ txt @ str_repeat '' '' right)"

record box_chars =
  bx_tl :: string
  bx_tr :: string
  bx_bl :: string
  bx_br :: string
  bx_h :: string
  bx_v :: string
  bx_ml :: string
  bx_mr :: string

definition boxChars :: "ascii_theme \<Rightarrow> box_chars" where
  "boxChars theme =
     (if \<not> aat_use_unicode theme then
        \<lparr>bx_tl = ''+'', bx_tr = ''+'', bx_bl = ''+'', bx_br = ''+'', bx_h = ''-'', bx_v = ''|'', bx_ml = ''+'', bx_mr = ''+''\<rparr>
      else if aat_box_style theme = ''double'' then
        \<lparr>bx_tl = rune_bytes 0x2554, bx_tr = rune_bytes 0x2557, bx_bl = rune_bytes 0x255A, bx_br = rune_bytes 0x255D,
         bx_h = rune_bytes 0x2550, bx_v = rune_bytes 0x2551, bx_ml = rune_bytes 0x2560, bx_mr = rune_bytes 0x2563\<rparr>
      else if aat_box_style theme = ''rounded'' then
        \<lparr>bx_tl = rune_bytes 0x256D, bx_tr = rune_bytes 0x256E, bx_bl = rune_bytes 0x2570, bx_br = rune_bytes 0x256F,
         bx_h = rune_bytes 0x2500, bx_v = rune_bytes 0x2502, bx_ml = rune_bytes 0x251C, bx_mr = rune_bytes 0x2524\<rparr>
      else if aat_box_style theme = ''heavy'' then
        \<lparr>bx_tl = rune_bytes 0x250F, bx_tr = rune_bytes 0x2513, bx_bl = rune_bytes 0x2517, bx_br = rune_bytes 0x251B,
         bx_h = rune_bytes 0x2501, bx_v = rune_bytes 0x2503, bx_ml = rune_bytes 0x2523, bx_mr = rune_bytes 0x252B\<rparr>
      else
        \<lparr>bx_tl = rune_bytes 0x250C, bx_tr = rune_bytes 0x2510, bx_bl = rune_bytes 0x2514, bx_br = rune_bytes 0x2518,
         bx_h = rune_bytes 0x2500, bx_v = rune_bytes 0x2502, bx_ml = rune_bytes 0x251C, bx_mr = rune_bytes 0x2524\<rparr>)"

definition ansi_code :: "string \<Rightarrow> string" where
  "ansi_code digits = [CHR 0x1B, CHR ''[''] @ digits @ ''m''"

definition colorize :: "ascii_theme \<Rightarrow> string \<Rightarrow> string \<Rightarrow> string" where
  "colorize theme txt colorType =
     (if \<not> aat_use_colors theme then txt
      else let ct = to_lower colorType in
        if ct = ''pk'' then ansi_code ''91'' @ txt @ ansi_code ''0''
        else if ct = ''fk'' then ansi_code ''94'' @ txt @ ansi_code ''0''
        else if ct = ''uk'' then ansi_code ''95'' @ txt @ ansi_code ''0''
        else if ct = ''header'' then ansi_code ''1'' @ txt @ ansi_code ''0''
        else txt)"

definition constraintIcon :: "ascii_theme \<Rightarrow> string \<Rightarrow> string" where
  "constraintIcon theme c =
     (if \<not> aat_use_icons theme then []
      else if c = ''PK'' then rune_bytes 0x1F511 @ '' ''
      else if c = ''FK'' then rune_bytes 0x1F517 @ '' ''
      else if c = ''UK'' then rune_bytes 0x2B50 @ '' ''
      else [])"

section \<open>Options and the order of tables and edges\<close>

record visualize_options =
  vo_fields :: bool
  vo_edges :: bool
  vo_fields_set :: bool
  vo_edges_set :: bool

type_synonym visualize_option = "visualize_options \<Rightarrow> visualize_options"

definition WithIncludeFields :: "bool \<Rightarrow> visualize_option" where
  "WithIncludeFields include v = v\<lparr>vo_fields := include, vo_fields_set := True\<rparr>"

definition WithIncludeEdges :: "bool \<Rightarrow> visualize_option" where
  "WithIncludeEdges include v = v\<lparr>vo_edges := include, vo_edges_set := True\<rparr>"

definition resolveOptions :: "visualize_option list \<Rightarrow> visualize_options" where
  "resolveOptions opts =
     (let v = fold (\<lambda>fn. fn) opts \<lparr>vo_fields = False, vo_edges = False, vo_fields_set = False, vo_edges_set = False\<rparr>;
          v = (if vo_fields_set v then v else v\<lparr>vo_fields := True\<rparr>) in
      if vo_edges_set v then v else v\<lparr>vo_edges := True\<rparr>)"

text \<open>The names in order, each with what the map holds for it.\<close>

definition named_entries :: "(string, 'a) fmap \<Rightarrow> (string \<times> 'a) list" where
  "named_entries m = List.map_filter (\<lambda>n. map_option (\<lambda>x. (n, x)) (fmlookup m n)) (sorted_names m)"

definition registryTables :: "schema_registry \<Rightarrow> (string, table_definition) fmap" where
  "registryTables r = fold (\<lambda>t. fmupd (tb_name t) t) (sorted_values (sr_tables r)) fmempty"

definition registryEdges :: "schema_registry \<Rightarrow> (string, edge_definition) fmap" where
  "registryEdges r = fold (\<lambda>e. fmupd (ed_name e) e) (sorted_values (sr_edges r)) fmempty"

section \<open>Mermaid\<close>

abbreviation nl :: string where
  "nl \<equiv> [CHR 0x0A]"

definition quoted_raw :: "string \<Rightarrow> string" where
  "quoted_raw s = [CHR 0x22] @ s @ [CHR 0x22]"

definition mermaidCardinality :: "edge_definition \<Rightarrow> string" where
  "mermaidCardinality e = (if ed_from e \<noteq> [] \<and> ed_from e = ed_to e then ''}o--o{'' else ''||--o{'')"

definition mermaid_table_field :: "table_definition \<Rightarrow> field_definition \<Rightarrow> string" where
  "mermaid_table_field t f =
     (let c = fieldConstraint (fd_name f) t in
      nl @ ''        '' @ fieldTypeString (fd_type f) @ '' '' @ fd_name f @ (if c \<noteq> [] then '' '' @ c else []))"

definition mermaid_table :: "visualize_options \<Rightarrow> string \<times> table_definition \<Rightarrow> string" where
  "mermaid_table opts = (\<lambda>(name, t).
     nl @ ''    '' @ name @ '' {''
     @ (if vo_fields opts then nl @ ''        string id PK'' @ concat (map (mermaid_table_field t) (tb_fields t)) else [])
     @ nl @ ''    }'')"

definition mermaid_edge :: "visualize_options \<Rightarrow> string \<times> edge_definition \<Rightarrow> string" where
  "mermaid_edge opts = (\<lambda>(name, e).
     if \<not> vo_fields opts \<or> ed_fields e = [] then []
     else nl @ ''    '' @ name @ '' {''
       @ concat (map (\<lambda>f. nl @ ''        '' @ fieldTypeString (fd_type f) @ '' '' @ fd_name f) (ed_fields e))
       @ nl @ ''    }'')"

definition mermaid_relation :: "(string, table_definition) fmap \<Rightarrow> string \<times> edge_definition \<Rightarrow> string" where
  "mermaid_relation tables = (\<lambda>(name, e).
     let from = (if ed_from e = [] then ''unknown'' else ed_from e);
         to = (if ed_to e = [] then ''unknown'' else ed_to e) in
     if fmlookup tables from = None \<and> from \<noteq> ''unknown'' then []
     else if fmlookup tables to = None \<and> to \<noteq> ''unknown'' then []
     else nl @ ''    '' @ from @ '' '' @ mermaidCardinality e @ '' '' @ to @ '' : '' @ name)"

definition GenerateMermaidFromMaps ::
    "(string, table_definition) fmap \<Rightarrow> (string, edge_definition) fmap \<Rightarrow> mermaid_theme \<Rightarrow> visualize_option list \<Rightarrow> string" where
  "GenerateMermaidFromMaps tables edges theme opts =
     (let options = resolveOptions opts in
      (if mmt_theme_name theme \<noteq> [] then
         ''%%{init: {'' @ [CHR 0x27] @ ''theme'' @ [CHR 0x27] @ '':'' @ [CHR 0x27] @ mmt_theme_name theme @ [CHR 0x27] @ ''}}%%'' @ nl
       else [])
      @ ''erDiagram''
      @ concat (map (mermaid_table options) (named_entries tables))
      @ concat (map (mermaid_edge options) (named_entries edges))
      @ (if vo_edges options then nl @ concat (map (mermaid_relation tables) (named_entries edges)) else []))"

definition GenerateMermaid :: "schema_registry \<Rightarrow> mermaid_theme \<Rightarrow> visualize_option list \<Rightarrow> string" where
  "GenerateMermaid r theme opts = GenerateMermaidFromMaps (registryTables r) (registryEdges r) theme opts"

section \<open>GraphViz\<close>

definition fieldTypeColor :: "field_type \<Rightarrow> color_scheme \<Rightarrow> string" where
  "fieldTypeColor t c =
     (if t = ''string'' then col_success c
      else if t \<in> {''int'', ''float'', ''decimal'', ''number''} then col_warning c
      else if t = ''bool'' then col_accent c
      else if t \<in> {''datetime'', ''duration''} then col_secondary c
      else if t = ''record'' then col_primary c
      else if t \<in> {''object'', ''array''} then col_muted c
      else col_text c)"

definition constraintColor :: "string \<Rightarrow> color_scheme \<Rightarrow> string" where
  "constraintColor k c =
     (if k = ''PK'' then col_error c else if k = ''FK'' then col_primary c else if k = ''UK'' then col_accent c else col_text c)"

text \<open>Pieces of the HTML-like labels: the opening of the table with its heading, a coloured text, a cell.\<close>

definition html_font :: "string \<Rightarrow> string \<Rightarrow> string" where
  "html_font color txt = ''<FONT COLOR='' @ quoted_raw color @ ''>'' @ txt @ ''</FONT>''"

definition html_cell :: "string \<Rightarrow> string" where
  "html_cell txt = ''<TD ALIGN='' @ quoted_raw ''LEFT'' @ ''>'' @ txt @ ''</TD>''"

definition html_heading :: "graphviz_theme \<Rightarrow> string \<Rightarrow> string" where
  "html_heading theme name =
     ''<'' @ ''<TABLE BORDER='' @ quoted_raw ''0'' @ '' CELLBORDER='' @ quoted_raw ''1'' @ '' CELLSPACING='' @ quoted_raw ''0''
       @ '' CELLPADDING='' @ quoted_raw ''4'' @ ''>''
     @ ''<TR><TD BGCOLOR='' @ quoted_raw (gvt_node_color theme) @ '' COLSPAN='' @ quoted_raw ''2'' @ ''>''
     @ ''<FONT COLOR='' @ quoted_raw ''#FFFFFF'' @ ''><B>'' @ name @ ''</B></FONT>'' @ ''</TD></TR>''"

definition html_table_field :: "table_definition \<Rightarrow> field_definition \<Rightarrow> string" where
  "html_table_field t f =
     (let c = fieldConstraint (fd_name f) t; colors = vth_colors ModernTheme in
      ''<TR>'' @ html_cell (fd_name f)
      @ html_cell (html_font (fieldTypeColor (fd_type f) colors) (fieldTypeString (fd_type f))
          @ (if c \<noteq> [] then '' '' @ html_font (constraintColor c colors) c else []))
      @ ''</TR>'')"

definition buildGraphVizHTMLLabel :: "string \<Rightarrow> table_definition \<Rightarrow> graphviz_theme \<Rightarrow> string" where
  "buildGraphVizHTMLLabel name t theme =
     (let colors = vth_colors ModernTheme in
      html_heading theme name
      @ ''<TR>'' @ html_cell ''id'' @ html_cell (html_font (col_muted colors) ''string'' @ '' '' @ html_font (col_error colors) ''PK'') @ ''</TR>''
      @ concat (map (html_table_field t) (tb_fields t)) @ ''</TABLE>>'')"

definition record_label :: "string list \<Rightarrow> string" where
  "record_label parts = quoted_raw (''{'' @ str_join ''|'' parts @ ''}'')"

definition buildGraphVizTableLabel :: "string \<Rightarrow> table_definition \<Rightarrow> bool \<Rightarrow> graphviz_theme \<Rightarrow> string" where
  "buildGraphVizTableLabel name t includeFields theme =
     (if \<not> includeFields then go_quote name
      else if gvt_use_gradients theme then buildGraphVizHTMLLabel name t theme
      else record_label ([name, ''id : string (PK)'' @ [CHR 0x5C, CHR ''l'']]
        @ map (\<lambda>f. let c = fieldConstraint (fd_name f) t in
            fd_name f @ '' : '' @ fieldTypeString (fd_type f) @ (if c \<noteq> [] then '' ('' @ c @ '')'' else []) @ [CHR 0x5C, CHR ''l''])
          (tb_fields t)))"

definition buildGraphVizEdgeLabel :: "string \<Rightarrow> edge_definition \<Rightarrow> graphviz_theme \<Rightarrow> string" where
  "buildGraphVizEdgeLabel name e theme =
     (if gvt_use_gradients theme then
        html_heading theme name
        @ concat (map (\<lambda>f. ''<TR>'' @ html_cell (fd_name f)
            @ html_cell (html_font (fieldTypeColor (fd_type f) (vth_colors ModernTheme)) (fieldTypeString (fd_type f))) @ ''</TR>'')
          (ed_fields e)) @ ''</TABLE>>''
      else record_label (name # map (\<lambda>f. fd_name f @ '' : '' @ fieldTypeString (fd_type f) @ [CHR 0x5C, CHR ''l'']) (ed_fields e)))"

definition graphVizEdgeStyle :: "edge_definition \<Rightarrow> graphviz_theme \<Rightarrow> color_scheme \<Rightarrow> string" where
  "graphVizEdgeStyle e theme colors =
     (if ed_from e \<noteq> [] \<and> ed_from e = ed_to e then
        (if gvt_use_gradients theme then '', style=dashed, color='' @ go_quote (col_secondary colors) else '', style=dashed'')
      else [])"

definition graphviz_attributes :: "graphviz_theme \<Rightarrow> string" where
  "graphviz_attributes theme =
     (if gvt_use_gradients theme \<or> (gvt_node_style theme \<noteq> [] \<and> gvt_node_style theme \<noteq> ''filled,rounded'') then
        (if gvt_bg_color theme \<noteq> [] \<and> gvt_bg_color theme \<noteq> ''transparent''
         then ''    bgcolor='' @ go_quote (gvt_bg_color theme) @ '';'' @ nl else [])
        @ ''    fontname='' @ go_quote (gvt_font_name theme) @ '';'' @ nl
        @ ''    node ['' @ str_join '', ''
            ([''shape='' @ gvt_node_shape theme]
             @ (if gvt_node_style theme \<noteq> [] then [''style='' @ go_quote (gvt_node_style theme)] else [])
             @ [''fontname='' @ go_quote (gvt_font_name theme), ''pad='' @ quoted_raw ''0.5'', ''margin='' @ quoted_raw ''0.2'']) @ ''];'' @ nl
        @ ''    edge ['' @ str_join '', ''
            ([''color='' @ go_quote (gvt_edge_color theme)]
             @ (if gvt_edge_style theme \<noteq> [] then [''style='' @ gvt_edge_style theme] else [])
             @ [''fontname='' @ go_quote (gvt_font_name theme)]) @ ''];'' @ nl
      else ''    node [shape=record];'' @ nl)"

definition graphviz_edge_node :: "visualize_options \<Rightarrow> graphviz_theme \<Rightarrow> string \<times> edge_definition \<Rightarrow> string" where
  "graphviz_edge_node opts theme = (\<lambda>(name, e).
     if \<not> vo_fields opts \<or> ed_fields e = [] then []
     else ''    '' @ name @ '' [label='' @ buildGraphVizEdgeLabel name e theme @ ''];'' @ nl)"

definition graphviz_arrow :: "(string, table_definition) fmap \<Rightarrow> graphviz_theme \<Rightarrow> string \<times> edge_definition \<Rightarrow> string" where
  "graphviz_arrow tables theme = (\<lambda>(name, e).
     if ed_from e = [] \<or> ed_to e = [] then []
     else if fmlookup tables (ed_from e) = None then []
     else if fmlookup tables (ed_to e) = None then []
     else ''    '' @ ed_from e @ '' -> '' @ ed_to e @ '' [label='' @ go_quote name
       @ graphVizEdgeStyle e theme (vth_colors ModernTheme) @ ''];'' @ nl)"

definition GenerateGraphVizFromMaps ::
    "(string, table_definition) fmap \<Rightarrow> (string, edge_definition) fmap \<Rightarrow> graphviz_theme \<Rightarrow> visualize_option list \<Rightarrow> string" where
  "GenerateGraphVizFromMaps tables edges theme opts =
     (let options = resolveOptions opts in
      ''digraph schema {'' @ nl @ ''    rankdir=LR;'' @ nl
      @ graphviz_attributes theme @ nl
      @ concat (map (\<lambda>(name, t). ''    '' @ name @ '' [label='' @ buildGraphVizTableLabel name t (vo_fields options) theme @ ''];'' @ nl)
          (named_entries tables))
      @ concat (map (graphviz_edge_node options theme) (named_entries edges)) @ nl
      @ (if vo_edges options then concat (map (graphviz_arrow tables theme) (named_entries edges)) else [])
      @ ''}'')"

definition GenerateGraphViz :: "schema_registry \<Rightarrow> graphviz_theme \<Rightarrow> visualize_option list \<Rightarrow> string" where
  "GenerateGraphViz r theme opts = GenerateGraphVizFromMaps (registryTables r) (registryEdges r) theme opts"

section \<open>Boxes of text\<close>

definition ascii_field_line :: "ascii_theme \<Rightarrow> table_definition \<Rightarrow> field_definition \<Rightarrow> string" where
  "ascii_field_line theme t f =
     (let c = fieldConstraint (fd_name f) t in
      fd_name f @ '' : '' @ fieldTypeString (fd_type f)
      @ (if c \<noteq> [] then '' '' @ colorize theme (constraintIcon theme c @ ''('' @ c @ '')'') (to_lower c) else []))"

definition ascii_field_lines :: "ascii_theme \<Rightarrow> table_definition \<Rightarrow> bool \<Rightarrow> string list" where
  "ascii_field_lines theme t includeFields =
     (if includeFields then
        (''id : string '' @ colorize theme (constraintIcon theme ''PK'' @ ''(PK)'') ''pk'') # map (ascii_field_line theme t) (tb_fields t)
      else [])"

definition box_width :: "string \<Rightarrow> string list \<Rightarrow> nat" where
  "box_width name fieldLines =
     (let minWidth = length name + 4;
          minWidth = (if minWidth < 20 then 20 else minWidth);
          contentWidth = fold (\<lambda>l w. if displayWidth l > w then displayWidth l else w) fieldLines 0 in
      if contentWidth + 2 > minWidth then contentWidth + 2 else minWidth)"

definition buildASCIITableBox :: "string \<Rightarrow> table_definition \<Rightarrow> bool \<Rightarrow> ascii_theme \<Rightarrow> string list" where
  "buildASCIITableBox name t includeFields theme =
     (let chars = boxChars theme;
          fieldLines = ascii_field_lines theme t includeFields;
          width = box_width name fieldLines;
          styledName = colorize theme (centerText name width) ''header'';
          pads = centerPad styledName width in
      [bx_tl chars @ str_repeat (bx_h chars) width @ bx_tr chars,
       bx_v chars @ str_repeat '' '' (fst pads) @ styledName @ str_repeat '' '' (snd pads) @ bx_v chars]
      @ (if includeFields then
           (bx_ml chars @ str_repeat (bx_h chars) width @ bx_mr chars)
           # map (\<lambda>line. bx_v chars @ '' '' @ line @ str_repeat '' '' (width - displayWidth line - 1) @ bx_v chars) fieldLines
         else [])
      @ [bx_bl chars @ str_repeat (bx_h chars) width @ bx_br chars])"

definition ascii_relation :: "string \<times> edge_definition \<Rightarrow> string" where
  "ascii_relation = (\<lambda>(name, e).
     ''  '' @ (if ed_from e = [] then ''?'' else ed_from e) @ '' --['' @ name @ '']--> '' @ (if ed_to e = [] then ''?'' else ed_to e))"

definition GenerateASCIIFromMaps ::
    "(string, table_definition) fmap \<Rightarrow> (string, edge_definition) fmap \<Rightarrow> ascii_theme \<Rightarrow> visualize_option list \<Rightarrow> string" where
  "GenerateASCIIFromMaps tables edges theme opts =
     (let options = resolveOptions opts in
      str_join nl
        (concat (map (\<lambda>(name, t). buildASCIITableBox name t (vo_fields options) theme @ [[]]) (named_entries tables))
         @ (if vo_edges options \<and> edges \<noteq> fmempty then
              [''Relationships:'', str_repeat ''-'' 40] @ map ascii_relation (named_entries edges)
            else [])))"

definition GenerateASCII :: "schema_registry \<Rightarrow> ascii_theme \<Rightarrow> visualize_option list \<Rightarrow> string" where
  "GenerateASCII r theme opts = GenerateASCIIFromMaps (registryTables r) (registryEdges r) theme opts"

end
