(* ===== verification/Schema_Visualize_Correct.thy ===== *)
theory Schema_Visualize_Correct
  imports Schema_Visualize
begin

text \<open>
  The boxes of a text diagram are rectangles: whatever the names, colours and icons, every line of a
  box is as wide on a terminal as the others, in the measure of \<open>displayWidth\<close>. The width of a text is the sum of
  the widths of its parts wherever a part does not begin inside a colour sequence or a code point.
\<close>

section \<open>Colour sequences\<close>

lemma ansi_params [simp]: "\<not> ansi_param CHR ''m''" "\<not> ansi_param CHR ''[''" "\<not> ansi_param CHR 0x1B" "\<not> ansi_param CHR '' ''"
    "\<not> ansi_param CHR ''+''" "\<not> ansi_param CHR ''-''" "\<not> ansi_param CHR ''|''"
    "ansi_param CHR ''0''" "ansi_param CHR ''1''" "ansi_param CHR ''4''" "ansi_param CHR ''5''" "ansi_param CHR ''9''"
  by (simp_all add: ansi_param_def is_digit_bits)

text \<open>What follows a colour sequence at the start of a text.\<close>

definition ansi_rest :: "string \<Rightarrow> string option" where
  "ansi_rest s =
     (case s of
        c # d # r \<Rightarrow>
          if c = CHR 0x1B \<and> d = CHR ''['' then
            (case dropWhile ansi_param r of e # x \<Rightarrow> if e = CHR ''m'' then Some x else None | [] \<Rightarrow> None)
          else None
      | _ \<Rightarrow> None)"

lemma matches_params: "matches (Seq (Star (Sat ansi_param)) (Chr CHR ''m'')) p s =
    (case dropWhile ansi_param s of e # x \<Rightarrow> if e = CHR ''m'' then [([], x)] else [] | [] \<Rightarrow> [])"
proof -
  have "matches (Chr CHR ''m'') (last_before p s (drop k s)) (drop k s) = []" if k: "k < length (takeWhile ansi_param s)" for k
  proof -
    have "k < length s" using k length_takeWhile_le [of ansi_param s] by simp
    then have d: "drop k s = s ! k # drop (Suc k) s" by (simp add: Cons_nth_drop_Suc)
    have "ansi_param (s ! k)" using k by (metis nth_mem set_takeWhileD takeWhile_nth)
    then have "s ! k \<noteq> CHR ''m''" by auto
    then show ?thesis unfolding d Chr_def by simp
  qed
  then have "matches (Seq (Star (Sat ansi_param)) (Chr CHR ''m'')) p s
      = matches (Chr CHR ''m'') (last_before p s (dropWhile ansi_param s)) (dropWhile ansi_param s)" by (rule matches_run)
  then show ?thesis unfolding Chr_def by (simp split: list.split del: dropWhile_eq_Nil_conv)
qed

lemma ansi_matches: "matches ansiEscapePattern p s = (case ansi_rest s of Some x \<Rightarrow> [([], x)] | None \<Rightarrow> [])"
  by (auto simp: ansiEscapePattern_def matches_params ansi_rest_def simp del: dropWhile_eq_Nil_conv split: list.split)

lemma ansi_rest_length: "ansi_rest s = Some x \<Longrightarrow> length x < length s"
proof -
  assume a: "ansi_rest s = Some x"
  then obtain c d r e where s: "s = c # d # r" "dropWhile ansi_param r = e # x"
    by (auto simp: ansi_rest_def split: list.splits if_splits)
  have "length (e # x) \<le> length r" using s(2) length_dropWhile_le by metis
  then show ?thesis using s(1) by simp
qed

lemma remove_ansi: "remove_matches ansiEscapePattern p s =
    (case ansi_rest s of Some x \<Rightarrow> strip_ansi x
     | None \<Rightarrow> (case s of [] \<Rightarrow> [] | c # cs \<Rightarrow> c # strip_ansi cs))"
proof (induction "length s" arbitrary: p s rule: less_induct)
  case less
  have any: "remove_matches ansiEscapePattern q t = strip_ansi t" if "length t < length s" for q t
    using less [OF that, of q] less [OF that, of None] unfolding strip_ansi_def by simp
  show ?case
  proof (cases s)
    case (Cons c cs)
    then show ?thesis
      using any ansi_rest_length [of s] by (auto simp: ansi_matches progress_def hd_opt_def split: option.splits)
  qed (simp add: ansi_rest_def)
qed

lemma strip_ansi_rest: "ansi_rest s = Some x \<Longrightarrow> strip_ansi s = strip_ansi x"
  using remove_ansi [of None s] by (simp add: strip_ansi_def)

lemma strip_ansi_Nil [simp]: "strip_ansi [] = []"
  by (simp add: strip_ansi_def)

lemma strip_ansi_Cons: "ansi_rest (c # cs) = None \<Longrightarrow> strip_ansi (c # cs) = c # strip_ansi cs"
  using remove_ansi [of None "c # cs"] by (simp add: strip_ansi_def)

lemma strip_ansi_plain [simp]: "c \<noteq> CHR 0x1B \<Longrightarrow> strip_ansi (c # cs) = c # strip_ansi cs"
  by (rule strip_ansi_Cons) (auto simp: ansi_rest_def split: list.splits)

lemma strip_ansi_code [simp]: "\<forall>c \<in> set ds. ansi_param c \<Longrightarrow> strip_ansi (ansi_code ds @ s) = strip_ansi s"
  by (rule strip_ansi_rest) (auto simp: ansi_rest_def ansi_code_def dropWhile_append2)

lemma length_strip_ansi: "length (strip_ansi s) \<le> length s"
proof (induction "length s" arbitrary: s rule: less_induct)
  case less
  show ?case
  proof (cases "ansi_rest s")
    case None
    then show ?thesis using less by (cases s) (auto simp: strip_ansi_Cons)
  next
    case (Some x)
    then show ?thesis using less [of x] ansi_rest_length [OF Some] strip_ansi_rest [OF Some] by simp
  qed
qed

text \<open>A text that does not go on a colour sequence left open before it.\<close>

definition fresh_ansi :: "string \<Rightarrow> bool" where
  "fresh_ansi b \<longleftrightarrow> (case b of [] \<Rightarrow> True | c # _ \<Rightarrow> \<not> ansi_param c \<and> c \<noteq> CHR ''m'' \<and> c \<noteq> CHR ''['')"

lemma ansi_rest_append:
  assumes "a \<noteq> []" "fresh_ansi b"
  shows "ansi_rest (a @ b) = map_option (\<lambda>x. x @ b) (ansi_rest a)"
proof (cases a rule: remdups_adj.cases)
  case (2 c)
  then show ?thesis using assms(2) by (auto simp: ansi_rest_def fresh_ansi_def split: list.splits)
next
  case (3 c d r)
  have "(case dropWhile ansi_param (r @ b) of e # x \<Rightarrow> if e = CHR ''m'' then Some x else None | [] \<Rightarrow> None)
      = map_option (\<lambda>x. x @ b) (case dropWhile ansi_param r of e # x \<Rightarrow> if e = CHR ''m'' then Some x else None | [] \<Rightarrow> None)"
  proof (cases "\<forall>c \<in> set r. ansi_param c")
    case True
    then have "dropWhile ansi_param (r @ b) = dropWhile ansi_param b" "dropWhile ansi_param r = []"
      by (auto simp: dropWhile_append2)
    then show ?thesis using assms(2) unfolding \<open>dropWhile ansi_param r = []\<close> \<open>dropWhile ansi_param (r @ b) = dropWhile ansi_param b\<close>
      by (cases b) (simp_all add: fresh_ansi_def)
  next
    case False
    then have "dropWhile ansi_param (r @ b) = dropWhile ansi_param r @ b" "dropWhile ansi_param r \<noteq> []"
      by auto
    then show ?thesis by (cases "dropWhile ansi_param r") auto
  qed
  then show ?thesis using 3 by (simp add: ansi_rest_def)
qed (use assms(1) in simp)

lemma strip_ansi_append: "fresh_ansi b \<Longrightarrow> strip_ansi (a @ b) = strip_ansi a @ strip_ansi b"
proof (induction "length a" arbitrary: a rule: less_induct)
  case less
  show ?case
  proof (cases "a = []")
    case False
    note r = ansi_rest_append [OF False less.prems]
    show ?thesis
    proof (cases "ansi_rest a")
      case None
      obtain c cs where a: "a = c # cs" using False by (cases a) auto
      then have "ansi_rest (c # cs @ b) = None" using None r by simp
      then show ?thesis using a None less.hyps [of cs] less.prems by (simp add: strip_ansi_Cons)
    next
      case (Some x)
      then have "ansi_rest (a @ b) = Some (x @ b)" using r by simp
      then show ?thesis
        using strip_ansi_rest Some less.hyps [of x] less.prems ansi_rest_length [OF Some] by metis
    qed
  qed simp
qed

section \<open>Code points\<close>

lemma second_cont: "second_ok b c \<Longrightarrow> cont_byte c"
  by (simp add: second_ok_def)

lemma decode_rune_append:
  assumes "a \<noteq> []" "b = [] \<or> \<not> cont_byte (hd b)"
  shows "decode_rune (a @ b) = decode_rune a \<and> snd (decode_rune a) \<le> length a"
proof -
  obtain c0 a1 where a: "a = c0 # a1" using assms(1) by (cases a) auto
  have nc: "b = d # ds \<Longrightarrow> \<not> cont_byte d" "b = d # ds \<Longrightarrow> \<not> second_ok n d" for d ds n
    using assms(2) second_cont by auto
  have two: "decode_rune (c0 # [c1] @ b) = decode_rune [c0, c1] \<and> snd (decode_rune [c0, c1]) \<le> 2" for c1
    by (auto simp: decode_rune_def Let_def nc split: list.splits)
  have three: "decode_rune (c0 # [c1, c2] @ b) = decode_rune [c0, c1, c2] \<and> snd (decode_rune [c0, c1, c2]) \<le> 3" for c1 c2
    by (auto simp: decode_rune_def Let_def nc split: list.splits)
  have one: "decode_rune (c0 # b) = decode_rune [c0] \<and> snd (decode_rune [c0]) \<le> 1"
    by (auto simp: decode_rune_def Let_def nc split: list.splits)
  have four: "decode_rune (c0 # c1 # c2 # c3 # r @ b) = decode_rune (c0 # c1 # c2 # c3 # r)
      \<and> snd (decode_rune (c0 # c1 # c2 # c3 # r)) \<le> 4" for c1 c2 c3 r
    by (auto simp: decode_rune_def Let_def)
  consider "a1 = []" | c1 where "a1 = [c1]" | c1 c2 where "a1 = [c1, c2]" | c1 c2 c3 r where "a1 = c1 # c2 # c3 # r"
    by (metis neq_Nil_conv)
  then show ?thesis
  proof cases
    case 4
    have "snd (decode_rune (c0 # c1 # c2 # c3 # r)) \<le> 4 + length r" using four [of c1 c2 c3 r] by linarith
    then show ?thesis using four [of c1 c2 c3 r] 4 a by simp
  qed (use a one two three in \<open>auto simp: numeral_2_eq_2 numeral_3_eq_3\<close>)
qed

lemma runes_append: "b = [] \<or> \<not> cont_byte (hd b) \<Longrightarrow> runes (a @ b) = runes a @ runes b"
proof (induction a rule: runes.induct)
  case (2 c cs)
  obtain r k where d: "decode_rune (c # cs) = (r, k)" by fastforce
  then have "decode_rune (c # cs @ b) = (r, k)" "k \<le> length (c # cs)"
    using decode_rune_append [of "c # cs" b] "2.prems" by auto
  moreover have "runes (drop k (c # cs) @ b) = runes (drop k (c # cs)) @ runes b"
    using "2.IH" [OF d [symmetric] "2.prems"] .
  ultimately show ?case using d by (simp add: drop_append [of k "c # cs", simplified])
qed simp

lemma rune_width_small: "r < 0x1100 \<Longrightarrow> rune_width r \<le> 1"
  by (simp add: rune_width_def isWideRune_def)

lemma rune_width_le: "rune_width r \<le> 2"
  by (simp add: rune_width_def)

lemma low6_less: "cont_byte c \<Longrightarrow> low6 c < 64"
  by (auto simp: cont_byte_def low6_def)

lemma rune_width_error: "rune_width rune_error = 1"
  by (simp add: rune_width_def isWideRune_def rune_error_def wide_ranges_def)

lemma decode_width: "decode_rune s = (r, k) \<Longrightarrow> rune_width r \<le> k"
proof -
  assume d: "decode_rune s = (r, k)"
  then consider "r < 0x80" "k = 1" | "r = rune_error" "k = 1" | b c where "r = (b - 0xC0) * 64 + low6 c" "b \<le> 0xDF" "cont_byte c" "k = 2" | "3 \<le> k"
    by (auto simp: decode_rune_def Let_def dest: second_cont split: if_splits list.splits)
  then show ?thesis
  proof cases
    case (3 b c)
    then have "r < 0x1100" using low6_less [of c] by auto
    then show ?thesis using rune_width_small 3(4) by fastforce
  qed (use rune_width_small [of r] rune_width_error rune_width_le [of r] in auto)
qed

lemma runes_width_le: "sum_list (map rune_width (runes s)) \<le> length s"
proof (induction s rule: runes.induct)
  case (2 c cs)
  obtain r k where d: "decode_rune (c # cs) = (r, k)" by fastforce
  have "k \<le> length (c # cs)" using decode_rune_append [of "c # cs" "[]"] d by simp
  then show ?case using d "2.IH" [OF d [symmetric]] decode_width [OF d] by simp
qed simp

section \<open>The width of a text\<close>

lemma displayWidth_le_length: "displayWidth s \<le> length s"
  using runes_width_le length_strip_ansi le_trans unfolding displayWidth_def by blast

text \<open>A text that can follow any other.\<close>

definition fresh :: "string \<Rightarrow> bool" where
  "fresh b \<longleftrightarrow> fresh_ansi b \<and> (b = [] \<or> hd b \<noteq> CHR 0x1B \<and> \<not> cont_byte (hd b))"

lemma fresh_strip: "fresh b \<Longrightarrow> strip_ansi b = [] \<or> \<not> cont_byte (hd (strip_ansi b))"
  by (cases b) (auto simp: fresh_def)

lemma displayWidth_append: "fresh b \<Longrightarrow> displayWidth (a @ b) = displayWidth a + displayWidth b"
  by (simp add: displayWidth_def strip_ansi_append fresh_def [of b] runes_append fresh_strip)

lemma displayWidth_Nil [simp]: "displayWidth [] = 0"
  by (simp add: displayWidth_def)

text \<open>A printable ASCII character is one column and separates what follows.\<close>

definition ascii_glyph :: "char \<Rightarrow> bool" where
  "ascii_glyph c \<longleftrightarrow> 0x20 \<le> (of_char c :: nat) \<and> (of_char c :: nat) < 0x80"

lemma displayWidth_glyph: "ascii_glyph c \<Longrightarrow> displayWidth (c # s) = Suc (displayWidth s)"
proof -
  assume c: "ascii_glyph c"
  then have "c \<noteq> CHR 0x1B" by (auto simp: ascii_glyph_def)
  moreover have "decode_rune (c # t) = (of_char c, 1)" for t using c by (simp add: decode_rune_def ascii_glyph_def)
  moreover have "rune_width (of_char c) = 1" using c by (simp add: rune_width_def isWideRune_def ascii_glyph_def)
  ultimately show ?thesis by (simp add: displayWidth_def)
qed

lemma glyph_space: "ascii_glyph CHR '' ''" and glyph_bar: "ascii_glyph CHR ''|''"
  and glyph_plus: "ascii_glyph CHR ''+''" and glyph_dash: "ascii_glyph CHR ''-''"
  by (simp_all add: ascii_glyph_def)

lemma str_repeat_Suc [simp]: "str_repeat s (Suc n) = s @ str_repeat s n" and str_repeat_0 [simp]: "str_repeat s 0 = []"
  by (simp_all add: str_repeat_def)

lemma displayWidth_spaces: "displayWidth (str_repeat '' '' n @ s) = n + displayWidth s"
  by (induction n) (simp_all add: displayWidth_glyph glyph_space)

lemma displayWidth_colorize:
  assumes "fresh (w @ b)" "fresh b"
  shows "displayWidth (a @ colorize theme w ct @ b) = displayWidth (a @ w @ b)"
proof -
  have esc: "fresh_ansi (ansi_code ds @ s)" for ds s by (simp add: fresh_ansi_def ansi_code_def)
  have "strip_ansi (a @ ansi_code ds @ w @ ansi_code ''0'' @ b) = strip_ansi (a @ w @ b)" if "\<forall>c \<in> set ds. ansi_param c" for ds
    using that assms
    by (simp add: strip_ansi_append [of "ansi_code ds @ w @ ansi_code ''0'' @ b" a] strip_ansi_append [of "ansi_code ''0'' @ b" w]
        strip_ansi_append [of "w @ b" a] strip_ansi_append [of b w] esc fresh_def)
  then have "strip_ansi (a @ colorize theme w ct @ b) = strip_ansi (a @ w @ b)"
    by (simp add: colorize_def Let_def)
  then show ?thesis by (simp add: displayWidth_def)
qed

section \<open>Boxes\<close>

text \<open>A character of a box: one column, and it separates.\<close>

definition box_piece :: "string \<Rightarrow> bool" where
  "box_piece s \<longleftrightarrow> s \<noteq> [] \<and> fresh s \<and> displayWidth s = 1"

lemma fresh_append: "box_piece s \<Longrightarrow> fresh (s @ t)"
  by (cases s) (simp_all add: box_piece_def fresh_def fresh_ansi_def)

lemma fresh_space [simp]: "fresh (CHR '' '' # s)"
  by (simp add: fresh_def fresh_ansi_def cont_byte_def)

lemma box_piece_glyph: "c \<in> {CHR ''+'', CHR ''-'', CHR ''|''} \<Longrightarrow> box_piece [c]"
  by (auto simp: box_piece_def displayWidth_glyph glyph_bar glyph_plus glyph_dash fresh_def fresh_ansi_def cont_byte_def)

declare rune_bytes.simps [simp del]

text \<open>The block of box drawing characters, U+2500 to U+257F.\<close>

lemma box_piece_drawing:
  assumes "0x2500 \<le> r" "r < 0x2580"
  shows "box_piece (rune_bytes r)"
proof -
  define m l where "m = r div 64 mod 64" and "l = r mod 64"
  have ml: "m < 64" "l < 64" by (simp_all add: m_def l_def)
  have q: "148 \<le> r div 64" "r div 64 < 150"
    using assms by (simp_all add: less_eq_div_iff_mult_less_eq div_less_iff_less_mult)
  then have "r div 64 = 148 \<or> r div 64 = 149" by linarith
  then have m: "m = r div 64 - 128" "r div 64 div 64 = 2" by (auto simp: m_def)
  then have b: "rune_bytes r = [char_of (0xE2 :: nat), char_of (0x80 + m), char_of (0x80 + l)]"
    using assms m(2) by (simp add: rune_bytes.simps m_def l_def flip: div_mult2_eq)
  have "r = r div 64 * 64 + l" by (simp add: l_def)
  then have r: "r = 0x2000 + m * 64 + l" using m(1) q by simp
  have d: "decode_rune (rune_bytes r) = (r, 3)"
    unfolding b using ml by (simp add: decode_rune_def second_ok_def cont_byte_def low6_def r)
  have p: "char_of (0x80 + k) \<noteq> c" if "k < 128" "(of_char c :: nat) < 128" for k :: nat and c :: char
  proof
    assume "char_of (0x80 + k) = c"
    then have "(of_char (char_of (0x80 + k) :: char) :: nat) = of_char c" by simp
    then show False using that by simp
  qed
  have p98: "char_of (226 :: nat) \<noteq> c" if "(of_char c :: nat) < 128" for c :: char using p [of 98 c] that by simp
  have "strip_ansi (rune_bytes r) = rune_bytes r" using ml by (simp add: b p p98)
  moreover have "runes (rune_bytes r) = [r]" using d by (simp add: b)
  moreover have "rune_width r = 1" using assms by (simp add: rune_width_def isWideRune_def wide_ranges_def)
  ultimately have "displayWidth (rune_bytes r) = 1" by (simp add: displayWidth_def)
  moreover have "fresh (rune_bytes r)" by (simp add: b fresh_def fresh_ansi_def cont_byte_def ansi_param_def is_digit_def p98)
  ultimately show ?thesis by (simp add: box_piece_def b)
qed

lemma box_chars_pieces:
  "box_piece (bx_tl (boxChars theme))" "box_piece (bx_tr (boxChars theme))" "box_piece (bx_bl (boxChars theme))"
  "box_piece (bx_br (boxChars theme))" "box_piece (bx_h (boxChars theme))" "box_piece (bx_v (boxChars theme))"
  "box_piece (bx_ml (boxChars theme))" "box_piece (bx_mr (boxChars theme))"
  by (simp_all add: boxChars_def box_piece_drawing box_piece_glyph)

lemma box_rule:
  assumes "box_piece l" "box_piece h" "box_piece r"
  shows "displayWidth (l @ str_repeat h n @ r) = n + 2"
proof -
  have f: "fresh (str_repeat h k @ r)" for k using assms by (cases k) (simp_all add: fresh_append box_piece_def)
  have "displayWidth (str_repeat h n @ r) = n + 1"
  proof (induction n)
    case (Suc n)
    then show ?case using assms(2) displayWidth_append [OF f] by (simp add: box_piece_def)
  qed (use assms(3) in \<open>simp add: box_piece_def\<close>)
  then show ?thesis using assms(1) displayWidth_append [OF f] by (simp add: box_piece_def)
qed

lemma box_line:
  assumes "box_piece v" "displayWidth line + 2 \<le> n"
  shows "displayWidth (v @ '' '' @ line @ str_repeat '' '' (n - displayWidth line - 1) @ v) = n + 2"
proof -
  obtain k where k: "n - displayWidth line - 1 = Suc k" using assms(2) by (metis Suc_diff_Suc add_2_eq_Suc' diff_diff_left less_eq_Suc_le plus_1_eq_Suc add.commute)
  have "displayWidth (line @ str_repeat '' '' (Suc k) @ v) = displayWidth line + Suc k + 1"
    using assms(1) displayWidth_append [of "str_repeat '' '' (Suc k) @ v" line] displayWidth_spaces [of "Suc k" v] by (simp add: box_piece_def)
  then have "displayWidth (v @ '' '' @ line @ str_repeat '' '' (Suc k) @ v) = 1 + (1 + (displayWidth line + Suc k + 1))"
    using assms(1) displayWidth_append [of "'' '' @ line @ str_repeat '' '' (Suc k) @ v" v]
    by (simp add: box_piece_def displayWidth_glyph glyph_space)
  then show ?thesis using assms(2) k by simp
qed

lemma displayWidth_centerText:
  assumes "displayWidth name + 2 \<le> n"
  shows "displayWidth (centerText name n) = n" "fresh (centerText name n @ s)"
proof -
  define k where "k = n - displayWidth name - 2"
  have k: "n - displayWidth name = Suc (Suc k)" and n: "n = displayWidth name + k + 2" using assms by (simp_all add: k_def)
  define r l where "r = k div 2" and "l = k - k div 2"
  have rl: "l + r = k" by (simp add: r_def l_def)
  have "Suc (Suc k) div 2 = Suc r" "Suc (Suc k) - Suc r = Suc l" using rl by (simp_all add: r_def l_def)
  then have c: "centerText name n = str_repeat '' '' (Suc l) @ name @ str_repeat '' '' (Suc r)"
    using n by (simp only: centerText_def Let_def k) simp
  have "displayWidth (name @ str_repeat '' '' (Suc r)) = displayWidth name + Suc r"
    using displayWidth_append [of "str_repeat '' '' (Suc r)" name] displayWidth_spaces [of "Suc r" "[]"] by simp
  then have "displayWidth (centerText name n) = Suc l + (displayWidth name + Suc r)"
    by (simp only: c displayWidth_spaces)
  then show "displayWidth (centerText name n) = n" using n rl by simp
  show "fresh (centerText name n @ s)" by (simp add: c)
qed

lemma box_width_bounds:
  "20 \<le> box_width name ls" "length name + 4 \<le> box_width name ls" "l \<in> set ls \<Longrightarrow> displayWidth l + 2 \<le> box_width name ls"
proof -
  define mx where "mx = (\<lambda>l w. if displayWidth l > w then displayWidth l else w)"
  have up: "w \<le> fold mx ls w" for w ls
    by (induction ls arbitrary: w) (auto simp: mx_def intro: le_trans less_imp_le)
  have "l \<in> set ls \<Longrightarrow> displayWidth l \<le> fold mx ls w" for w
  proof (induction ls arbitrary: w)
    case (Cons x xs)
    have "displayWidth x \<le> mx x w" by (simp add: mx_def)
    then show ?case using Cons up [of "mx x w" xs] by auto
  qed simp
  then show "l \<in> set ls \<Longrightarrow> displayWidth l + 2 \<le> box_width name ls"
    unfolding box_width_def Let_def mx_def [symmetric] by (smt (verit) add_le_mono1 le_trans not_le order_less_imp_le)
  show "20 \<le> box_width name ls" "length name + 4 \<le> box_width name ls" by (simp_all add: box_width_def Let_def)
qed

lemma box_header:
  fixes theme :: ascii_theme
  assumes "box_piece v" "displayWidth name + 2 \<le> n"
  defines "styled \<equiv> colorize theme (centerText name n) ''header''"
  shows "displayWidth (v @ str_repeat '' '' (fst (centerPad styled n)) @ styled @ str_repeat '' '' (snd (centerPad styled n)) @ v) = n + 2"
proof -
  note c = displayWidth_centerText [OF assms(2)]
  have "displayWidth styled = n"
    using displayWidth_colorize [of "centerText name n" "[]" "[]" theme "''header''"] c(1) c(2) [of "[]"]
    by (simp add: styled_def fresh_def fresh_ansi_def)
  then have p: "centerPad styled n = (0, 0)" by (simp add: centerPad_def)
  have v: "fresh v" "displayWidth v = 1" using assms(1) by (simp_all add: box_piece_def)
  have "displayWidth (v @ styled @ v) = displayWidth (v @ centerText name n @ v)"
    unfolding styled_def using c(2) v(1) by (rule displayWidth_colorize)
  also have "\<dots> = 1 + n + 1" using displayWidth_append [OF c(2), of v v] displayWidth_append [OF v(1)] v(2) c(1) by simp
  finally show ?thesis by (simp add: p)
qed


section \<open>Relationships\<close>

text \<open>A GraphViz arrow joins two declared tables; a Mermaid relationship may also name the stand-in \<open>unknown\<close>.\<close>

lemma graphviz_arrow_declared:
  "graphviz_arrow tables theme (name, e) \<noteq> [] \<longleftrightarrow>
     ed_from e \<noteq> [] \<and> ed_to e \<noteq> [] \<and> ed_from e |\<in>| fmdom tables \<and> ed_to e |\<in>| fmdom tables"
  by (auto simp: graphviz_arrow_def fmlookup_dom_iff)

lemma mermaid_relation_declared:
  "mermaid_relation tables (name, e) \<noteq> [] \<longleftrightarrow>
     (\<forall>t \<in> {ed_from e, ed_to e}. t = [] \<or> t = ''unknown'' \<or> t |\<in>| fmdom tables)"
  by (auto simp: mermaid_relation_def Let_def fmlookup_dom_iff)

section \<open>What the drawings do not do\<close>

text \<open>A column of an index over two columns is marked unique, where the comment asks for a field that is alone in it.\<close>

lemma compound_unique_marked:
  "fieldConstraint ''name'' (NewTable ''user'' [WithFields [NewField ''name'' ''string'' []],
     WithIndexes [UniqueIndex ''by_name_mail'' [''name'', ''mail'']]]) = ''UK''"
  by (simp add: fieldConstraint_def NewTable_def WithFields_def WithIndexes_def UniqueIndex_def NewIndex_def)

text \<open>The star of a unique column, U+2B50, takes two columns on a terminal and is counted as one.\<close>

lemma star_counted_once: "rune_width 0x2B50 = 1" "rune_width 0x1F511 = 2"
  by (simp_all add: rune_width_def isWideRune_def wide_ranges_def)

text \<open>A theme that sets colours and a font but neither gradients nor another node style is not applied.\<close>

lemma plain_theme_ignored:
  "graphviz_attributes (DarkGraphVizTheme\<lparr>gvt_use_gradients := False\<rparr>) = ''    node [shape=record];'' @ nl"
  by (simp add: graphviz_attributes_def DarkGraphVizTheme_def)

text \<open>An edge without endpoints is drawn from an entity that the diagram does not declare.\<close>

lemma unknown_entity_drawn:
  "mermaid_relation fmempty (''knows'', NewEdge ''knows'' []) = nl @ ''    unknown ||--o{ unknown : knows''"
  by (simp add: mermaid_relation_def mermaidCardinality_def NewEdge_def Let_def)

end
