(* ===== verification/Cli_Output.thy ===== *)
theory Cli_Output
  imports Go_Strconv Surql_Errors
begin

text \<open>
  The command line, output (\<open>fmt.go\<close>): the printer with its markers and colours, and tables. What has been written
  to standard output and standard error is kept as text in the printer; a format and its arguments are the text
  they give. The encoder of \<open>encoding/json\<close> is an argument.
\<close>

section \<open>The printer\<close>

definition esc_seq :: "string \<Rightarrow> string" where
  "esc_seq digits = [CHR 0x1B, CHR ''[''] @ digits @ ''m''"

definition esc_reset :: string where "esc_reset = esc_seq ''0''"
definition esc_bold :: string where "esc_bold = esc_seq ''1''"
definition esc_red :: string where "esc_red = esc_seq ''31''"
definition esc_green :: string where "esc_green = esc_seq ''32''"
definition esc_yellow :: string where "esc_yellow = esc_seq ''33''"
definition esc_blue :: string where "esc_blue = esc_seq ''34''"
definition esc_cyan :: string where "esc_cyan = esc_seq ''36''"
definition esc_gray :: string where "esc_gray = esc_seq ''90''"

record printer =
  pr_out :: string
  pr_err :: string
  pr_color :: bool
  pr_quiet :: bool
  pr_silent :: bool

definition NewPrinter :: "string \<Rightarrow> string \<Rightarrow> bool \<Rightarrow> printer" where
  "NewPrinter out err color = \<lparr>pr_out = out, pr_err = err, pr_color = color, pr_quiet = False, pr_silent = False\<rparr>"

definition SetQuiet :: "bool \<Rightarrow> printer \<Rightarrow> printer" where
  "SetQuiet b p = p\<lparr>pr_quiet := b\<rparr>"

definition SetSilent :: "bool \<Rightarrow> printer \<Rightarrow> printer" where
  "SetSilent b p = p\<lparr>pr_silent := b\<rparr>"

definition paint :: "printer \<Rightarrow> string \<Rightarrow> string \<Rightarrow> string" where
  "paint p txt color = (if \<not> pr_color p \<or> color = [] then txt else color @ txt @ esc_reset)"

definition out_line :: "string \<Rightarrow> printer \<Rightarrow> printer" where
  "out_line s p = p\<lparr>pr_out := pr_out p @ s @ [CHR 0x0A]\<rparr>"

definition err_line :: "string \<Rightarrow> printer \<Rightarrow> printer" where
  "err_line s p = p\<lparr>pr_err := pr_err p @ s @ [CHR 0x0A]\<rparr>"

definition Infof :: "string \<Rightarrow> printer \<Rightarrow> printer" where
  "Infof msg p = (if pr_silent p \<or> pr_quiet p then p else out_line (paint p ''[info]'' esc_blue @ '' '' @ msg) p)"

definition Successf :: "string \<Rightarrow> printer \<Rightarrow> printer" where
  "Successf msg p = (if pr_silent p \<or> pr_quiet p then p else out_line (paint p ''[ok]'' esc_green @ '' '' @ msg) p)"

definition Warnf :: "string \<Rightarrow> printer \<Rightarrow> printer" where
  "Warnf msg p = (if pr_silent p then p else err_line (paint p ''[warn]'' esc_yellow @ '' '' @ msg) p)"

definition Errorf :: "string \<Rightarrow> printer \<Rightarrow> printer" where
  "Errorf msg p = (if pr_silent p then p else err_line (paint p ''[err]'' esc_red @ '' '' @ msg) p)"

definition Plainf :: "string \<Rightarrow> printer \<Rightarrow> printer" where
  "Plainf msg p = out_line msg p"

definition Section :: "string \<Rightarrow> printer \<Rightarrow> printer" where
  "Section title p = (if pr_silent p then p else out_line (paint p title (esc_bold @ esc_cyan)) p)"

text \<open>An encoder that fails has written nothing.\<close>

definition print_json :: "('v \<Rightarrow> string result) \<Rightarrow> 'v \<Rightarrow> printer \<Rightarrow> go_error option \<times> printer" where
  "print_json enc v p = (case enc v of Inl e \<Rightarrow> (Some e, p) | Inr s \<Rightarrow> (None, p\<lparr>pr_out := pr_out p @ s\<rparr>))"

text \<open>Colours are for terminals, and not at all when \<open>NO_COLOR\<close> is set. A writer that is a file has the
  mode that \<open>Stat\<close> gives: whether it is a character device.\<close>

definition colorEnabled :: "bool \<Rightarrow> bool result option \<Rightarrow> bool" where
  "colorEnabled noColor file =
     (if noColor then False
      else (case file of None \<Rightarrow> False | Some (Inl e) \<Rightarrow> False | Some (Inr charDevice) \<Rightarrow> charDevice))"

section \<open>Tables\<close>

definition spaces :: "nat \<Rightarrow> string" where
  "spaces n = replicate n CHR '' ''"

definition padRight :: "string \<Rightarrow> nat \<Rightarrow> string" where
  "padRight s width = (if width \<le> length s then s else s @ spaces (width - length s))"

definition truncateString :: "string \<Rightarrow> int \<Rightarrow> string" where
  "truncateString s mx = (if mx \<le> 3 \<or> int (length s) \<le> mx then s else take (nat mx - 3) s @ ''...'')"

text \<open>The widths after a row: cells beyond the columns are passed over.\<close>

fun widen :: "nat list \<Rightarrow> string list \<Rightarrow> nat list" where
  "widen (w # ws) (c # cs) = (if length c > w then length c else w) # widen ws cs"
| "widen ws cs = ws"

definition column_widths :: "string list \<Rightarrow> string list list \<Rightarrow> nat list" where
  "column_widths headers rows = fold (\<lambda>row ws. widen ws row) rows (map length headers)"

fun pad_cells :: "string list \<Rightarrow> nat list \<Rightarrow> string list" where
  "pad_cells (c # cs) (w # ws) = padRight c w # pad_cells cs ws"
| "pad_cells cs ws = []"

definition render_row :: "nat list \<Rightarrow> string list \<Rightarrow> string" where
  "render_row widths cols = str_join ''  '' (pad_cells cols widths)"

definition table_lines :: "printer \<Rightarrow> string list \<Rightarrow> string list list \<Rightarrow> string list" where
  "table_lines p headers rows =
     (let widths = column_widths headers rows in
      [str_join ''  '' (map (\<lambda>h. paint p h (esc_bold @ esc_cyan)) (pad_cells headers widths)),
       paint p (str_join ''  '' (map (\<lambda>w. replicate w CHR ''-'') widths)) esc_gray]
      @ map (render_row widths) rows)"

definition print_table :: "string list \<Rightarrow> string list list \<Rightarrow> printer \<Rightarrow> printer" where
  "print_table headers rows p = (if headers = [] then p else fold out_line (table_lines p headers rows) p)"

section \<open>Properties of tables\<close>

lemma length_padRight: "length (padRight s n) = max n (length s)"
  by (simp add: padRight_def spaces_def)

lemma truncate_length: "3 < mx \<Longrightarrow> int (length (truncateString s mx)) \<le> mx"
  by (auto simp: truncateString_def)

lemma length_widen [simp]: "length (widen ws cs) = length ws"
  by (induction ws cs rule: widen.induct) simp_all

lemma widen_ge: "list_all2 (\<le>) ws (widen ws cs)"
  by (induction ws cs rule: widen.induct) (simp_all add: list_all2_refl)

lemma widen_fits: "length cs \<le> length ws \<Longrightarrow> list_all2 (\<lambda>c w. length c \<le> w) cs (take (length cs) (widen ws cs))"
  by (induction ws cs rule: widen.induct) auto

lemma length_fold_widen [simp]: "length (fold (\<lambda>row ws. widen ws row) rows ws) = length ws"
  by (induction rows arbitrary: ws) simp_all

lemma length_column_widths [simp]: "length (column_widths headers rows) = length headers"
  by (simp add: column_widths_def)

lemma fold_widen_ge: "list_all2 (\<le>) ws (fold (\<lambda>row ws. widen ws row) rows ws)"
proof (induction rows arbitrary: ws)
  case (Cons r rs)
  have "list_all2 (\<le>) ws (fold (\<lambda>row ws. widen ws row) rs (widen ws r))"
    by (rule list_all2_trans [OF _ widen_ge Cons]) (rule le_trans)
  then show ?case by simp
qed (simp add: list_all2_refl)

text \<open>Every cell of a row with as many cells as there are columns fits its column.\<close>

lemma cells_fit:
  assumes "row \<in> set rows" "length row = length headers"
  shows "list_all2 (\<lambda>c w. length c \<le> w) row (column_widths headers rows)"
proof -
  obtain before later where rows: "rows = before @ row # later" using split_list [OF assms(1)] by blast
  define ws where "ws = fold (\<lambda>row ws. widen ws row) before (map length headers)"
  have "length ws = length row" using assms(2) by (simp add: ws_def)
  then have "list_all2 (\<lambda>c w. length c \<le> w) row (widen ws row)" using widen_fits [of row ws] by simp
  moreover have "list_all2 (\<le>) (widen ws row) (column_widths headers rows)"
    using fold_widen_ge [of "widen ws row" later] by (simp add: column_widths_def rows ws_def)
  ultimately show ?thesis by (rule list_all2_trans [rotated 1]) (rule le_trans)
qed

lemma headers_fit: "list_all2 (\<lambda>c w. length c \<le> w) headers (column_widths headers rows)"
  using fold_widen_ge [of "map length headers" rows] by (simp add: column_widths_def list_all2_map1)

definition join_width :: "nat list \<Rightarrow> nat" where
  "join_width ws = sum_list ws + 2 * (length ws - 1)"

lemma length_join2: "length (str_join ''  '' xs) = join_width (map length xs)"
  by (induction xs rule: induct_list012) (simp_all add: join_width_def)

lemma pad_cells_lengths: "list_all2 (\<lambda>c w. length c \<le> w) cs ws \<Longrightarrow> map length (pad_cells cs ws) = ws"
  by (induction cs ws rule: list_all2_induct) (simp_all add: length_padRight)

text \<open>Without colours the lines of a table whose rows all have a cell for each column are of one length.\<close>

lemma table_aligned:
  assumes "\<not> pr_color p" "\<forall>row \<in> set rows. length row = length headers"
  shows "\<forall>line \<in> set (table_lines p headers rows). length line = join_width (column_widths headers rows)"
proof -
  have "map length (map (\<lambda>h. paint p h (esc_bold @ esc_cyan)) (pad_cells headers (column_widths headers rows))) = column_widths headers rows"
    using assms(1) pad_cells_lengths [OF headers_fit] by (simp add: paint_def comp_def)
  moreover have "length (render_row (column_widths headers rows) row) = join_width (column_widths headers rows)" if "row \<in> set rows" for row
    using pad_cells_lengths [OF cells_fit [OF that]] assms(2) that by (simp add: render_row_def length_join2)
  ultimately show ?thesis using assms(1) by (auto simp: table_lines_def Let_def length_join2 paint_def comp_def)
qed

text \<open>A row with too few cells is short, one with too many loses the rest.\<close>

lemma ragged_rows:
  "render_row (column_widths [''a'', ''b''] [[''x'']]) [''x''] = ''x''"
  "render_row (column_widths [''a''] [[''x'', ''y'']]) [''x'', ''y''] = ''x''"
  by (simp_all add: render_row_def column_widths_def padRight_def)

text \<open>A cut may fall inside a code point: the three bytes of U+20AC lose the last.\<close>

lemma cut_inside_code_point:
  "truncateString (map char_of [0xE2, 0x82, 0xAC :: nat] @ ''ab'') 4 = [char_of (0xE2 :: nat)] @ ''...''"
  by (simp add: truncateString_def)

end
