(* ===== verification/Cli_Root.thy ===== *)
theory Cli_Root
  imports Cli_Output Database_Client Runtime_Settings
begin

text \<open>
  The command line, its root (\<open>root.go\<close>): the context every command gets, the settings it is resolved from, the
  connection a command works on and the exit code its error becomes. Parsing of arguments and the choice of the
  command are cobra's; a command is a function of the flags it declares. A command returns its error and the printer,
  and the world of the SDK where it connects.
\<close>

section \<open>The context of a command\<close>

record build_info =
  bi_version :: string
  bi_commit :: string
  bi_date :: string

record global_flags =
  gf_config :: string
  gf_verbose :: bool
  gf_quiet :: bool
  gf_no_color :: bool
  gf_json :: bool

record root_context =
  rx_flags :: global_flags
  rx_settings :: "settings option"
  rx_build :: build_info

text \<open>The error of a command is a usage error or any other.\<close>

datatype cli_error = UsageError string | CommandError go_error

fun cli_error_text :: "cli_error \<Rightarrow> string" where
  "cli_error_text (UsageError msg) = msg"
| "cli_error_text (CommandError e) = err_text e"

definition newUsageError :: "string \<Rightarrow> cli_error option" where
  "newUsageError msg = Some (UsageError msg)"

definition failure :: "string \<Rightarrow> cli_error option" where
  "failure msg = Some (CommandError (Opaque msg))"

definition returned :: "go_error \<Rightarrow> cli_error option" where
  "returned e = Some (CommandError e)"

text \<open>The exit code, and what is written to standard error.\<close>

definition classifyError :: "cli_error option \<Rightarrow> string \<Rightarrow> nat \<times> string" where
  "classifyError err errOut =
     (case err of
        None \<Rightarrow> (0, errOut)
      | Some (UsageError msg) \<Rightarrow> (2, errOut @ ''surql: '' @ msg @ [CHR 0x0A])
      | Some (CommandError e) \<Rightarrow> (1, errOut @ ''surql: '' @ err_text e @ [CHR 0x0A]))"

section \<open>Settings\<close>

text \<open>The names of a command and its parents.\<close>

definition requiresSettings :: "string list \<Rightarrow> bool" where
  "requiresSettings names \<longleftrightarrow> \<not> list_ex (\<lambda>n. n \<in> {''version'', ''help'', ''completion''}) names"

definition settings_options :: "global_flags \<Rightarrow> any_option list" where
  "settings_options flags = (if gf_config flags \<noteq> [] then [Resolver (WithConfigFile (gf_config flags))] else [])"

text \<open>Runs before every command: \<open>useColor\<close> is what \<open>colorEnabled\<close> says of standard output.\<close>

definition persistent_pre_run ::
    "system \<Rightarrow> env_lookup \<Rightarrow> build_info \<Rightarrow> global_flags \<Rightarrow> string list \<Rightarrow> bool \<Rightarrow> string \<Rightarrow> string
       \<Rightarrow> root_context \<times> printer \<times> cli_error option" where
  "persistent_pre_run sy environ build flags names useColor out err =
     (let p = SetQuiet (gf_quiet flags) (NewPrinter out err (\<not> gf_no_color flags \<and> useColor));
          rc = \<lparr>rx_flags = flags, rx_settings = None, rx_build = build\<rparr> in
      if \<not> requiresSettings names then (rc, p, None)
      else
        (case LoadSettings sy environ (settings_options flags) of
           Inl e \<Rightarrow> (rc, p, failure (''failed to load settings: '' @ err_text e))
         | Inr s \<Rightarrow> (rc\<lparr>rx_settings := Some s\<rparr>, p, None)))"

definition version_text :: "build_info \<Rightarrow> string" where
  "version_text b =
     ''surql '' @ bi_version b
     @ (if bi_commit b \<noteq> [] then '' (commit '' @ bi_commit b @ '')'' else [])
     @ (if bi_date b \<noteq> [] then '' built '' @ bi_date b else []) @ [CHR 0x0A]"

definition migrationsDir :: "root_context \<Rightarrow> string \<Rightarrow> string" where
  "migrationsDir rc override =
     (if override \<noteq> [] then override
      else
        (case rx_settings rc of
           Some s \<Rightarrow> if se_migration_path s \<noteq> [] then se_migration_path s else ''migrations''
         | None \<Rightarrow> ''migrations''))"

section \<open>The connection of a command\<close>

definition newConnectedClient ::
    "('w, 'tx) sdk \<Rightarrow> float_ops \<Rightarrow> root_context \<Rightarrow> 'w \<Rightarrow> client result \<times> 'w" where
  "newConnectedClient sdk fo rc w =
     (case rx_settings rc of
        None \<Rightarrow> (Inl (Opaque ''settings unavailable''), w)
      | Some s \<Rightarrow>
          (case NewDatabaseClient (se_database s) of
             Inl e \<Rightarrow> (Inl e, w)
           | Inr c \<Rightarrow>
               (case Connect sdk fo c w of
                  (Some e, _, w') \<Rightarrow> (Inl e, w')
                | (None, c', w') \<Rightarrow> (Inr c', w'))))"

text \<open>The beginning and the end that the connecting commands share: a connection that fails is reported, and the
  deferred cleanup disconnects whatever the body did.\<close>

definition with_connection ::
    "('w, 'tx) sdk \<Rightarrow> float_ops \<Rightarrow> root_context \<Rightarrow> (client \<Rightarrow> printer \<Rightarrow> 'w \<Rightarrow> cli_error option \<times> printer \<times> 'w)
       \<Rightarrow> printer \<Rightarrow> 'w \<Rightarrow> cli_error option \<times> printer \<times> 'w" where
  "with_connection sdk fo rc body p w =
     (case newConnectedClient sdk fo rc w of
        (Inl e, w1) \<Rightarrow> (returned e, Errorf (''connection failed: '' @ err_text e) p, w1)
      | (Inr c, w1) \<Rightarrow>
          (case body c p w1 of (r, p2, w2) \<Rightarrow> (r, p2, snd (snd (Disconnect sdk c w2)))))"

section \<open>Exit codes and connections\<close>

lemma exit_zero_iff: "fst (classifyError err out) = 0 \<longleftrightarrow> err = None"
  by (auto simp: classifyError_def split: option.splits cli_error.splits)

lemma exit_codes: "fst (classifyError err out) \<in> {0, 1, 2}"
  by (auto simp: classifyError_def split: option.splits cli_error.splits)

text \<open>A command without settings cannot connect, and a command of \<open>version\<close>, \<open>help\<close> or \<open>completion\<close> has none.\<close>

lemma no_settings_no_client:
  "list_ex (\<lambda>n. n \<in> {''version'', ''help'', ''completion''}) names \<Longrightarrow>
   newConnectedClient sdk fo (fst (persistent_pre_run sy environ build flags names color out err)) w
     = (Inl (Opaque ''settings unavailable''), w)"
  by (simp add: newConnectedClient_def persistent_pre_run_def requiresSettings_def Let_def)

text \<open>The world after connecting and disconnecting keeps whatever dialling, selecting, waiting and closing keep.\<close>

definition connecting_keeps :: "('w, 'tx) sdk \<Rightarrow> ('w \<Rightarrow> 'v) \<Rightarrow> bool" where
  "connecting_keeps sdk view \<longleftrightarrow>
     (\<forall>u w. view (snd (sdk_dial sdk u w)) = view w) \<and> (\<forall>n d w. view (snd (sdk_use sdk n d w)) = view w)
     \<and> (\<forall>w. view (snd (sdk_close sdk w)) = view w) \<and> (\<forall>t w. view (snd (sdk_wait sdk t w)) = view w)"

lemma dial_keeps: "connecting_keeps sdk view \<Longrightarrow> dial sdk cfg w = (r, w') \<Longrightarrow> view w' = view w"
  unfolding dial_def connecting_keeps_def by (auto split: prod.splits option.splits) (metis snd_conv)+

lemma connect_loop_keeps:
  "connecting_keeps sdk view \<Longrightarrow> connect_loop sdk fo n rest err c w = (r, c', w') \<Longrightarrow> view w' = view w"
proof (induction rest arbitrary: err w)
  case (Cons a rest)
  obtain d w1 where d: "dial sdk (cl_cfg c) w = (d, w1)" by fastforce
  have v1: "view w1 = view w" by (rule dial_keeps [OF Cons.prems(1) d])
  show ?case
  proof (cases "sdk_cancelled sdk w")
    case None
    show ?thesis
    proof (cases d)
      case (Some e)
      obtain x w2 where x: "sdk_wait sdk (backoffDelay fo a (cc_retry_min (cl_cfg c)) (cc_retry_max (cl_cfg c)) (cc_retry_multiplier (cl_cfg c))) w1 = (x, w2)"
        by fastforce
      have "view w2 = view w1" using Cons.prems(1) x unfolding connecting_keeps_def by (metis snd_conv)
      then show ?thesis using Cons.prems Cons.IH [OF Cons.prems(1), of "Some e" w2] None Some d v1 x
        by (auto split: if_splits option.splits)
    qed (use Cons.prems None d v1 in auto)
  qed (use Cons.prems in auto)
qed simp

lemma disconnect_keeps: "connecting_keeps sdk view \<Longrightarrow> view (snd (snd (Disconnect sdk c w))) = view w"
  unfolding Disconnect_def connecting_keeps_def Let_def by (auto split: prod.splits option.splits) (metis snd_conv)+

lemma client_keeps:
  assumes "connecting_keeps sdk view" "newConnectedClient sdk fo rc w = (r, w')"
  shows "view w' = view w"
proof (cases "rx_settings rc")
  case (Some s)
  show ?thesis
  proof (cases "NewDatabaseClient (se_database s)")
    case (Inr c)
    then have "\<not> IsConnected c" by (auto simp: NewDatabaseClient_def IsConnected_def split: option.splits)
    then show ?thesis using assms Some Inr connect_loop_keeps [OF assms(1)]
      by (auto simp: newConnectedClient_def Connect_def split: option.splits prod.splits)
  qed (use assms Some in \<open>simp add: newConnectedClient_def\<close>)
qed (use assms in \<open>simp add: newConnectedClient_def\<close>)

text \<open>What a connecting command comes to: nothing but an error, or what its body does.\<close>

lemma with_connection_cases:
  assumes "connecting_keeps sdk view" "with_connection sdk fo rc body p w = (r, p', w')"
  shows "(\<exists>e. r = returned e \<and> view w' = view w)
    \<or> (\<exists>c w1 w2. view w1 = view w \<and> body c p w1 = (r, p', w2) \<and> view w' = view w2)"
proof -
  obtain q w1 where q: "newConnectedClient sdk fo rc w = (q, w1)" by fastforce
  note v = client_keeps [OF assms(1) q]
  show ?thesis
  proof (cases q)
    case (Inl e)
    then show ?thesis using assms(2) q v by (auto simp: with_connection_def)
  next
    case (Inr c)
    obtain w2 where "body c p w1 = (r, p', w2)" "w' = snd (snd (Disconnect sdk c w2))"
      using assms(2) q Inr by (auto simp: with_connection_def split: prod.splits)
    then show ?thesis using v disconnect_keeps [OF assms(1), of c w2] by blast
  qed
qed

end
