(* ===== verification/Cli_Migrate.thy ===== *)
theory Cli_Migrate
  imports Cli_Root Migration_Rollback Squash
begin

text \<open>
  The command line, \<open>surql migrate\<close> (\<open>migrate.go\<close>): applying, rolling back, reporting, creating, validating and squashing
  migrations. What discovery gives for a directory is the argument \<open>disc\<close>; directories of migration files are those of
  \<open>Migration_Files\<close>; the layout of a time and the JSON of a report are arguments.
\<close>

section \<open>Rendering\<close>

definition renderMigrationList :: "migration list \<Rightarrow> printer \<Rightarrow> printer" where
  "renderMigrationList ms p = fold (\<lambda>m. Plainf (''  - '' @ mg_version m @ '' '' @ mg_description m)) ms p"

definition render_status :: "migration_status \<Rightarrow> printer \<Rightarrow> printer" where
  "render_status s p =
     (let name = mg_version (ms_migration s) @ '' '' @ mg_description (ms_migration s) in
      if ms_state s = ''applied'' then Successf name p
      else if ms_state s = ''failed'' then Errorf (name @ '': '' @ ms_error s) p
      else Infof (name @ '' ('' @ ms_state s @ '')'') p)"

definition renderMigrationStatuses :: "migration_status list \<Rightarrow> printer \<Rightarrow> printer" where
  "renderMigrationStatuses sts p = fold render_status sts p"

section \<open>Up\<close>

text \<open>The prefix up to the target and with it; all of them when the target is not among them.\<close>

fun clampPendingToTarget :: "migration list \<Rightarrow> string \<Rightarrow> migration list" where
  "clampPendingToTarget [] target = []"
| "clampPendingToTarget (m # ms) target = (if mg_version m = target then [m] else m # clampPendingToTarget ms target)"

text \<open>The number of pending migrations is converted to 32 bits before it is compared.\<close>

definition clampPendingToSteps :: "32 word \<Rightarrow> migration list \<Rightarrow> migration list" where
  "clampPendingToSteps steps pending =
     (if 0 < steps \<and> steps < word_of_nat (length pending) then take (unat steps) pending else pending)"

definition chosen_up :: "string \<Rightarrow> 32 word \<Rightarrow> migration list \<Rightarrow> migration list" where
  "chosen_up target steps pending =
     clampPendingToSteps steps (if target \<noteq> [] then clampPendingToTarget pending target else pending)"

definition count_text :: "string \<Rightarrow> 'a list \<Rightarrow> string \<Rightarrow> string" where
  "count_text before xs after = before @ show_nat (length xs) @ after"

definition up_body ::
    "('w, 'tx) sdk \<Rightarrow> 'w time_env \<Rightarrow> migration list result \<Rightarrow> string \<Rightarrow> 32 word \<Rightarrow> bool
       \<Rightarrow> client \<Rightarrow> printer \<Rightarrow> 'w \<Rightarrow> cli_error option \<times> printer \<times> 'w" where
  "up_body sdk tm discovered target steps dryRun c p w =
     (case GetPendingMigrations sdk tm (Some c) discovered w of
        (Inl e, w1) \<Rightarrow> (returned e, p, w1)
      | (Inr pending, w1) \<Rightarrow>
          (let chosen = chosen_up target steps pending in
           if chosen = [] then (None, Successf ''no pending migrations'' p, w1)
           else if dryRun then
             (None, renderMigrationList chosen (Infof (count_text ''dry-run: '' chosen '' migration(s) would be applied'') p), w1)
           else
             (case ExecuteMigrationPlan sdk tm (Some c) \<lparr>mp_migrations = chosen, mp_direction = ''up''\<rparr> w1 of
                (sts, Some e, w2) \<Rightarrow> (returned e, Errorf (''migration failed: '' @ err_text e) (renderMigrationStatuses sts p), w2)
              | (sts, None, w2) \<Rightarrow>
                  (None, Successf (count_text ''applied '' sts '' migration(s)'') (renderMigrationStatuses sts p), w2))))"

definition runMigrateUp ::
    "('w, 'tx) sdk \<Rightarrow> 'w time_env \<Rightarrow> float_ops \<Rightarrow> (string \<Rightarrow> migration list result) \<Rightarrow> root_context \<Rightarrow> string \<Rightarrow> string \<Rightarrow> 32 word \<Rightarrow> bool
       \<Rightarrow> printer \<Rightarrow> 'w \<Rightarrow> cli_error option \<times> printer \<times> 'w" where
  "runMigrateUp sdk tm fo disc rc dir target steps dryRun =
     with_connection sdk fo rc (up_body sdk tm (disc dir) target steps dryRun)"

section \<open>Down\<close>

definition PlanRollbackToVersion ::
    "('w, 'tx) sdk \<Rightarrow> 'w time_env \<Rightarrow> client option \<Rightarrow> string \<Rightarrow> migration list result \<Rightarrow> string \<Rightarrow> 'w \<Rightarrow> rollback_plan result \<times> 'w" where
  "PlanRollbackToVersion sdk tm co directory discovered target w = CreateRollbackPlan sdk tm co directory discovered target w"

definition IsSafe :: "rollback_plan \<Rightarrow> bool" where
  "IsSafe plan \<longleftrightarrow> rb_overall plan = RollbackSafe"

fun safety_text :: "rollback_safety \<Rightarrow> string" where
  "safety_text RollbackSafe = ''safe''"
| "safety_text RollbackWarning = ''warning''"
| "safety_text RollbackDanger = ''danger''"

definition down_to_target ::
    "('w, 'tx) sdk \<Rightarrow> 'w time_env \<Rightarrow> string \<Rightarrow> migration list result \<Rightarrow> string \<Rightarrow> bool
       \<Rightarrow> client \<Rightarrow> printer \<Rightarrow> 'w \<Rightarrow> cli_error option \<times> printer \<times> 'w" where
  "down_to_target sdk tm dir discovered target dryRun c p w =
     (case PlanRollbackToVersion sdk tm (Some c) dir discovered target w of
        (Inl e, w1) \<Rightarrow> (returned e, p, w1)
      | (Inr plan, w1) \<Rightarrow>
          (if MigrationCount plan = 0 then (None, Successf (''already at target version '' @ target) p, w1)
           else if dryRun then
             (let p1 = renderMigrationList (rb_migrations plan)
                 (Infof (''dry-run: '' @ show_nat (MigrationCount plan) @ '' migration(s) would be rolled back'') p) in
              (None,
               if \<not> IsSafe plan then Warnf (''rollback is not fully safe ('' @ safety_text (rb_overall plan) @ '')'') p1 else p1, w1))
           else
             (case ExecuteRollback sdk tm (Some c) plan w1 of
                (_, Some e, w2) \<Rightarrow> (returned e, Errorf (''rollback failed: '' @ err_text e) p, w2)
              | (res, None, w2) \<Rightarrow> (None, Successf (''rolled back '' @ show_nat (rr_count res) @ '' migration(s)'') p, w2))))"

definition down_by_steps ::
    "('w, 'tx) sdk \<Rightarrow> 'w time_env \<Rightarrow> string \<Rightarrow> migration list result \<Rightarrow> 32 word \<Rightarrow> bool
       \<Rightarrow> client \<Rightarrow> printer \<Rightarrow> 'w \<Rightarrow> cli_error option \<times> printer \<times> 'w" where
  "down_by_steps sdk tm dir discovered steps dryRun c p w =
     (if steps = 0 then (newUsageError ''--steps must be >= 1 when --target is not provided'', p, w)
      else if dryRun then
        (case GetAppliedMigrationsOrdered sdk tm (Some c) w of
           (Inl e, w1) \<Rightarrow> (returned e, p, w1)
         | (Inr applied, w1) \<Rightarrow>
             (let preview = last_steps steps applied in
              (None,
               fold (\<lambda>e. Plainf (''  - '' @ h_version e @ '' '' @ h_description e)) (rev preview)
                 (Infof (count_text ''dry-run: '' preview '' migration(s) would be rolled back'') p), w1)))
      else
        (case MigrateDown sdk tm (Some c) dir discovered steps w of
           (sts, Some e, w1) \<Rightarrow> (returned e, Errorf (''rollback failed: '' @ err_text e) (renderMigrationStatuses sts p), w1)
         | (sts, None, w1) \<Rightarrow>
             (None, Successf (count_text ''rolled back '' sts '' migration(s)'') (renderMigrationStatuses sts p), w1)))"

definition runMigrateDown ::
    "('w, 'tx) sdk \<Rightarrow> 'w time_env \<Rightarrow> float_ops \<Rightarrow> (string \<Rightarrow> migration list result) \<Rightarrow> root_context \<Rightarrow> string \<Rightarrow> string \<Rightarrow> 32 word \<Rightarrow> bool
       \<Rightarrow> printer \<Rightarrow> 'w \<Rightarrow> cli_error option \<times> printer \<times> 'w" where
  "runMigrateDown sdk tm fo disc rc dir target steps dryRun =
     with_connection sdk fo rc
       (if target \<noteq> [] then down_to_target sdk tm dir (disc dir) target dryRun else down_by_steps sdk tm dir (disc dir) steps dryRun)"

text \<open>For flags that would rather explain a number that does not parse.\<close>

definition flag_uint32 :: "string \<Rightarrow> 32 word result" where
  "flag_uint32 s = parse_uint32 (trim_space s)"

section \<open>Status and history\<close>

definition runMigrateStatus ::
    "('w, 'tx) sdk \<Rightarrow> 'w time_env \<Rightarrow> float_ops \<Rightarrow> (status_report \<Rightarrow> string result) \<Rightarrow> (string \<Rightarrow> migration list result) \<Rightarrow> root_context \<Rightarrow> string
       \<Rightarrow> printer \<Rightarrow> 'w \<Rightarrow> cli_error option \<times> printer \<times> 'w" where
  "runMigrateStatus sdk tm fo enc disc rc dir =
     with_connection sdk fo rc (\<lambda>c p w.
       case GetMigrationStatus sdk tm (Some c) (disc dir) w of
         (Inl e, w1) \<Rightarrow> (returned e, p, w1)
       | (Inr report, w1) \<Rightarrow>
           (if gf_json (rx_flags rc) then
              (case print_json enc report p of (None, p1) \<Rightarrow> (None, p1, w1) | (Some e, p1) \<Rightarrow> (returned e, p1, w1))
            else
              (None,
               Plainf (''  pending: '' @ show_nat (rp_pending report))
                 (Plainf (''  applied: '' @ show_nat (rp_applied report))
                   (Plainf (''  total:   '' @ show_nat (rp_total report)) (Section ''Migration status'' p))), w1)))"

definition history_row :: "(gotime \<Rightarrow> string) \<Rightarrow> history_entry \<Rightarrow> string list" where
  "history_row fmt e =
     [h_version e, truncateString (h_description e) 48, fmt (h_applied_at e),
      (case h_execution_ms e of None \<Rightarrow> ''-'' | Some ms \<Rightarrow> show_int (sint ms) @ ''ms'')]"

definition runMigrateHistory ::
    "('w, 'tx) sdk \<Rightarrow> 'w time_env \<Rightarrow> float_ops \<Rightarrow> (history_entry list \<Rightarrow> string result) \<Rightarrow> (gotime \<Rightarrow> string) \<Rightarrow> root_context
       \<Rightarrow> printer \<Rightarrow> 'w \<Rightarrow> cli_error option \<times> printer \<times> 'w" where
  "runMigrateHistory sdk tm fo enc fmt rc =
     with_connection sdk fo rc (\<lambda>c p w.
       case GetMigrationHistory sdk tm (Some c) w of
         (Inl e, w1) \<Rightarrow> (returned e, p, w1)
       | (Inr entries, w1) \<Rightarrow>
           (if gf_json (rx_flags rc) then
              (case print_json enc entries p of (None, p1) \<Rightarrow> (None, p1, w1) | (Some e, p1) \<Rightarrow> (returned e, p1, w1))
            else if entries = [] then (None, Infof ''no migrations applied'' p, w1)
            else (None, print_table [''Version'', ''Description'', ''Applied'', ''Execution''] (map (history_row fmt) entries) p, w1)))"

section \<open>Files\<close>

text \<open>\<open>version\<close> is the formatted clock; no flag of \<open>create\<close> is bound to its description.\<close>

definition migrate_create :: "mig_io \<Rightarrow> string \<Rightarrow> string list \<Rightarrow> string \<Rightarrow> printer \<Rightarrow> mig_dir \<Rightarrow> cli_error option \<times> printer \<times> mig_dir" where
  "migrate_create io version args dir p fs =
     (let description = str_join '' '' args in
      case CreateBlankMigration io version description description dir fs of
        (Inl e, fs1) \<Rightarrow> (returned e, p, fs1)
      | (Inr m, fs1) \<Rightarrow> (None, Successf (''created '' @ mg_path m) p, fs1))"

definition migrate_generate ::
    "mig_io \<Rightarrow> string \<Rightarrow> string list \<Rightarrow> string \<Rightarrow> string \<Rightarrow> string \<Rightarrow> printer \<Rightarrow> mig_dir \<Rightarrow> cli_error option \<times> printer \<times> mig_dir" where
  "migrate_generate io version args from to dir p fs =
     (let description = str_join '' '' args;
          p1 = (if from \<noteq> [] \<or> to \<noteq> []
                then Warnf ''--from / --to ignored: schema-diff generation requires a code registry (not yet wired into the CLI)'' p else p) in
      case CreateBlankMigration io version description description dir fs of
        (Inl e, fs1) \<Rightarrow> (returned e, p1, fs1)
      | (Inr m, fs1) \<Rightarrow>
          (None, Infof ''edit the file to populate the -- @up / -- @down sections'' (Successf (''generated '' @ mg_path m) p1), fs1))"

definition migrate_validate :: "migration list result \<Rightarrow> string list \<Rightarrow> printer \<Rightarrow> cli_error option \<times> printer" where
  "migrate_validate discovered args p =
     (case ValidateMigrations discovered of
        Inl e \<Rightarrow> (returned e, p)
      | Inr all \<Rightarrow>
          (let issues = (case args of [] \<Rightarrow> all | a # _ \<Rightarrow> filter (\<lambda>iss. str_contains iss a) all) in
           if issues = [] then (None, Successf ''migrations are valid'' p)
           else
             (failure (''migration validation failed ('' @ show_nat (length issues) @ '' issue(s))''),
              fold (\<lambda>iss. Plainf (''  - '' @ iss)) issues (Errorf ''validation failed'' p))))"

definition render_squash :: "bool \<Rightarrow> squash_result \<Rightarrow> printer \<Rightarrow> printer" where
  "render_squash dryRun res p =
     (let p1 = (if dryRun
             then Infof (''dry-run: would squash '' @ show_nat (sr_original_count res) @ '' migration(s) -> '' @ sr_path res) p
             else Successf (''squashed '' @ show_nat (sr_original_count res) @ '' migration(s) into '' @ sr_path res) p);
          p2 = Plainf (''  statements:      '' @ show_nat (sr_statement_count res)) p1;
          p3 = Plainf (''  optimizations:   '' @ show_nat (sr_optimizations res)) p2;
          p4 = Plainf (''  warnings:        '' @ show_nat (length (sr_warnings res))) p3 in
      fold (\<lambda>x. Warnf (sw_migration x @ '' ['' @ sw_severity x @ '']: '' @ sw_message x)) (sr_warnings res) p4)"

definition migrate_squash ::
    "mig_io \<Rightarrow> string \<Rightarrow> go_error option \<Rightarrow> (squash_result \<Rightarrow> string result) \<Rightarrow> migration list result \<Rightarrow> root_context
       \<Rightarrow> string \<Rightarrow> string \<Rightarrow> string \<Rightarrow> string option \<Rightarrow> bool \<Rightarrow> printer \<Rightarrow> mig_dir \<Rightarrow> cli_error option \<times> printer \<times> mig_dir" where
  "migrate_squash io version cancelled enc discovered rc dir from to outDir dryRun p fs =
     (case SquashMigrationsWithOptions io version cancelled discovered dir from to
              \<lparr>so_description = [], so_dir = outDir, so_optimize = None, so_dry_run = dryRun\<rparr> fs of
        (Inl e, fs1) \<Rightarrow> (returned e, p, fs1)
      | (Inr res, fs1) \<Rightarrow>
          (if gf_json (rx_flags rc) then
             (case print_json enc res p of (None, p1) \<Rightarrow> (None, p1, fs1) | (Some e, p1) \<Rightarrow> (returned e, p1, fs1))
           else (None, render_squash dryRun res p, fs1)))"

end
