(* ===== verification/Cli_Migrate_Correct.thy ===== *)
theory Cli_Migrate_Correct
  imports Cli_Migrate
begin

text \<open>
  What \<open>surql migrate up\<close> does to a database, from the flags to the exit code: the composition of the connection, the
  pending migrations, the clamps of the flags and the executor.
\<close>

section \<open>The clamps\<close>

lemma clamp_target_prefix: "\<exists>k. clampPendingToTarget ms target = take k ms"
proof (induction ms)
  case (Cons m ms)
  then obtain k where "clampPendingToTarget ms target = take k ms" by blast
  then have "clampPendingToTarget (m # ms) target = take (if mg_version m = target then 1 else Suc k) (m # ms)" by simp
  then show ?case by blast
qed simp

lemma clamp_target_found:
  "m \<in> set ms \<Longrightarrow> mg_version m = target \<Longrightarrow>
   clampPendingToTarget ms target \<noteq> [] \<and> mg_version (last (clampPendingToTarget ms target)) = target
   \<and> target \<notin> set (map mg_version (butlast (clampPendingToTarget ms target)))"
  by (induction ms) auto

lemma chosen_up_prefix: "\<exists>k. chosen_up target steps pending = take k pending"
proof -
  have "\<exists>k. (if target \<noteq> [] then clampPendingToTarget pending target else pending) = take k pending"
    using clamp_target_prefix [of pending target] by (cases "target = []") (auto intro: exI [of _ "length pending"])
  then obtain k where "(if target \<noteq> [] then clampPendingToTarget pending target else pending) = take k pending" by blast
  then have "chosen_up target steps pending \<in> {take (unat steps) (take k pending), take k pending}"
    by (auto simp: chosen_up_def clampPendingToSteps_def)
  then show ?thesis by (auto simp: min_def)
qed

lemma chosen_up_limit:
  assumes "0 < steps" "length pending < 2 ^ 32"
  shows "length (chosen_up target steps pending) \<le> unat steps"
proof -
  have "length xs \<le> unat steps" if "length xs \<le> length pending" "\<not> steps < word_of_nat (length xs)" for xs :: "'a list"
  proof -
    have "unat (word_of_nat (length xs) :: 32 word) = length xs" using that(1) assms(2) by (simp add: unsigned_of_nat take_bit_nat_eq_self)
    then show ?thesis using that(2) by (simp add: not_less word_le_nat_alt)
  qed
  moreover have "length (if target \<noteq> [] then clampPendingToTarget pending target else pending) \<le> length pending"
    using clamp_target_prefix [of pending target] by (auto simp: min_def)
  ultimately show ?thesis using assms(1) by (auto simp: chosen_up_def clampPendingToSteps_def)
qed

section \<open>Up\<close>

text \<open>How far the command came through the chosen migrations.\<close>

definition applied_prefix :: "('w, 'tx, 'd) db_view \<Rightarrow> migration list \<Rightarrow> 'w \<Rightarrow> 'w \<Rightarrow> bool" where
  "applied_prefix dv ms w w' \<longleftrightarrow>
     (\<exists>k wm. k \<le> length ms \<and> done_all dv ''up'' (take k ms) w wm
        \<and> (unchanged dv wm w' \<or> k < length ms \<and> all_or_nothing dv ''up'' (ms ! k) wm w'))"

lemma plan_report:
  assumes laws: "surreal_laws sdk tm dv" and ne: "ms \<noteq> []"
    and ex: "ExecuteMigrationPlan sdk tm (Some c) \<lparr>mp_migrations = ms, mp_direction = ''up''\<rparr> w = (sts, err, w')"
  shows "run_report dv ''up'' ms w sts err w'"
  using ex ne run_pending_law [OF laws, of "''up''"] by (simp add: ExecuteMigrationPlan_def direction_valid_def)

lemma up_body_law:
  assumes laws: "surreal_laws sdk tm dv" and h: "[] \<notin> set (dv_hist dv w)"
    and body: "up_body sdk tm (Inr ms) target steps dryRun c p w = (r, p', w')"
  defines "chosen \<equiv> chosen_up target steps (pending_of ms (dv_hist dv w))"
  shows "(dryRun \<longrightarrow> unchanged dv w w') \<and> (r = None \<and> \<not> dryRun \<longrightarrow> done_all dv ''up'' chosen w w') \<and> applied_prefix dv chosen w w'"
proof -
  obtain q w1 where q: "pendingMigrations sdk tm (Some c) ms w = (q, w1)" by fastforce
  note pend = pending_law [OF laws h q]
  have none: "applied_prefix dv chosen w w2" if "unchanged dv w w2" for w2
    unfolding applied_prefix_def using that by (intro exI [of _ 0] exI [of _ w]) (simp add: done_all_Nil)
  show ?thesis
  proof (cases q)
    case (Inl e)
    then show ?thesis using body q pend none by (auto simp: up_body_def GetPendingMigrations_def returned_def)
  next
    case (Inr ps)
    then have ps: "ps = pending_of ms (dv_hist dv w)" and u: "unchanged dv w w1" using pend by simp_all
    show ?thesis
    proof (cases "chosen = [] \<or> dryRun")
      case True
      then have "w' = w1" "chosen = [] \<or> dryRun" using body q Inr
        by (auto simp: up_body_def GetPendingMigrations_def Let_def chosen_def ps split: if_splits)
      then show ?thesis using u none by (auto simp: done_all_Nil)
    next
      case False
      obtain sts err w2 where ex: "ExecuteMigrationPlan sdk tm (Some c) \<lparr>mp_migrations = chosen, mp_direction = ''up''\<rparr> w1 = (sts, err, w2)"
        by (metis prod_cases3)
      have rw: "w' = w2" "r = None \<longleftrightarrow> err = None" using body q Inr False ex
        by (auto simp: up_body_def GetPendingMigrations_def Let_def chosen_def ps returned_def split: option.splits)
      have rep: "run_report dv ''up'' chosen w1 sts err w2" using plan_report [OF laws _ ex] False by blast
      have rep: "run_report dv ''up'' chosen w sts err w2" by (rule run_report_unchanged [OF u rep])
      show ?thesis
      proof (cases err)
        case None
        then have "done_all dv ''up'' chosen w w'" using rep rw by (simp add: run_report_def)
        moreover have "applied_prefix dv chosen w w'"
          unfolding applied_prefix_def using calculation by (intro exI [of _ "length chosen"] exI [of _ w']) simp
        ultimately show ?thesis using False by simp
      next
        case (Some e)
        then obtain k wm where "k < length chosen" "done_all dv ''up'' (take k chosen) w wm" "all_or_nothing dv ''up'' (chosen ! k) wm w'"
          using rep rw by (auto simp: run_report_def)
        then have "applied_prefix dv chosen w w'" unfolding applied_prefix_def by (metis less_imp_le)
        then show ?thesis using False Some rw by auto
      qed
    qed
  qed
qed

text \<open>
  C39 (safety). \<open>surql migrate up\<close> against a database, whatever happens on the way: with \<open>--dry-run\<close> neither data nor
  history change; without it an exit code of zero means that the pending migrations chosen by \<open>--target\<close> and \<open>--steps\<close>, a
  prefix of the pending ones in order that ends with the target and is no longer than the steps, have all run and are recorded;
  and with any exit code the database is where a prefix of them leads, the next one being applied as a whole or not at all.\<close>

theorem migrate_up_command:
  assumes laws: "surreal_laws sdk tm dv" and keeps: "connecting_keeps sdk (\<lambda>x. (dv_data dv x, dv_hist dv x))"
    and h: "[] \<notin> set (dv_hist dv w)" and disc: "disc dir = Inr ms"
    and run: "runMigrateUp sdk tm fo disc rc dir target steps dryRun p w = (r, p', w')"
  defines "chosen \<equiv> chosen_up target steps (pending_of ms (dv_hist dv w))"
  shows "(dryRun \<longrightarrow> unchanged dv w w')
    \<and> (fst (classifyError r out) = 0 \<and> \<not> dryRun \<longrightarrow>
          dv_data dv w' = run_script dv (concat (map mg_up chosen)) (dv_data dv w)
          \<and> dv_hist dv w' = dv_hist dv w @ map mg_version chosen)
    \<and> (\<exists>k. chosen = take k (pending_of ms (dv_hist dv w)))
    \<and> (target \<noteq> [] \<and> steps = 0 \<and> target \<in> set (map mg_version (pending_of ms (dv_hist dv w))) \<longrightarrow>
          chosen \<noteq> [] \<and> mg_version (last chosen) = target)
    \<and> (0 < steps \<and> length (pending_of ms (dv_hist dv w)) < 2 ^ 32 \<longrightarrow> length chosen \<le> unat steps)
    \<and> applied_prefix dv chosen w w'"
proof -
  have same: "unchanged dv a b \<longleftrightarrow> (dv_data dv b, dv_hist dv b) = (dv_data dv a, dv_hist dv a)" for a b
    by (auto simp: unchanged_def)
  from with_connection_cases [OF keeps run [unfolded runMigrateUp_def disc]]
  have "(dryRun \<longrightarrow> unchanged dv w w') \<and> (r = None \<and> \<not> dryRun \<longrightarrow> done_all dv ''up'' chosen w w') \<and> applied_prefix dv chosen w w'"
  proof (elim disjE exE conjE)
    fix e assume e: "r = returned e" "(dv_data dv w', dv_hist dv w') = (dv_data dv w, dv_hist dv w)"
    then have "unchanged dv w w'" by (simp add: same)
    then have "applied_prefix dv chosen w w'" unfolding applied_prefix_def
      by (intro exI [of _ 0] exI [of _ w]) (simp add: done_all_Nil)
    then show ?thesis using e \<open>unchanged dv w w'\<close> by (simp add: returned_def)
  next
    fix c w1 w2
    assume a: "(dv_data dv w1, dv_hist dv w1) = (dv_data dv w, dv_hist dv w)" "up_body sdk tm (Inr ms) target steps dryRun c p w1 = (r, p', w2)"
      "(dv_data dv w', dv_hist dv w') = (dv_data dv w2, dv_hist dv w2)"
    then have h1: "dv_hist dv w1 = dv_hist dv w" "dv_data dv w1 = dv_data dv w"
      and h2: "dv_hist dv w' = dv_hist dv w2" "dv_data dv w' = dv_data dv w2" by simp_all
    have "[] \<notin> set (dv_hist dv w1)" using h h1 by simp
    note law = up_body_law [OF laws this a(2), unfolded h1, folded chosen_def]
    have move: "done_all dv d xs w1 x \<longleftrightarrow> done_all dv d xs w x" "done_all dv d xs y w2 \<longleftrightarrow> done_all dv d xs y w'"
      "unchanged dv w1 x \<longleftrightarrow> unchanged dv w x" "unchanged dv y w2 \<longleftrightarrow> unchanged dv y w'"
      "all_or_nothing dv d m y w2 \<longleftrightarrow> all_or_nothing dv d m y w'" for d xs x y m
      by (simp_all add: done_all_def unchanged_def all_or_nothing_def h1 h2)
    show ?thesis using law unfolding applied_prefix_def move by blast
  qed
  moreover have "\<exists>k. chosen = take k (pending_of ms (dv_hist dv w))" unfolding chosen_def by (rule chosen_up_prefix)
  moreover have "chosen \<noteq> [] \<and> mg_version (last chosen) = target"
    if "target \<noteq> []" "steps = 0" "target \<in> set (map mg_version (pending_of ms (dv_hist dv w)))"
    using that clamp_target_found [of _ "pending_of ms (dv_hist dv w)" target] by (auto simp: chosen_def chosen_up_def clampPendingToSteps_def)
  moreover have "0 < steps \<Longrightarrow> length (pending_of ms (dv_hist dv w)) < 2 ^ 32 \<Longrightarrow> length chosen \<le> unat steps"
    unfolding chosen_def by (rule chosen_up_limit)
  ultimately show ?thesis by (auto simp: done_all_def hist_after_up exit_zero_iff script_of_def)
qed

lemma toy_keeps: "connecting_keeps toy_sdk view"
  by (simp add: connecting_keeps_def toy_sdk_def)

definition toy_context :: root_context where
  "toy_context = \<lparr>rx_flags = \<lparr>gf_config = [], gf_verbose = False, gf_quiet = True, gf_no_color = True, gf_json = False\<rparr>,
     rx_settings = Some Defaults, rx_build = \<lparr>bi_version = ''1'', bi_commit = [], bi_date = []\<rparr>\<rparr>"

definition toy_files :: "string \<Rightarrow> migration list result" where
  "toy_files dir = Inr [toy_migration ''1'' [''a''] [], toy_migration ''2'' [''b''] [], toy_migration ''3'' [''c''] []]"

lemma toy_files_eq: "toy_files dir = Inr [toy_migration ''1'' [''a''] [], toy_migration ''2'' [''b''] [], toy_migration ''3'' [''c''] []]"
  by (simp add: toy_files_def)

lemma toy_up_command:
  "runMigrateUp toy_sdk toy_time sample_float_ops toy_files toy_context ''m'' ''2'' 0 False (SetQuiet True (NewPrinter [] [] False)) toy_empty
     = (None, SetQuiet True (NewPrinter [] [] False), \<lparr>ty_data = [''a'', ''b''], ty_hist = [''1'', ''2''], ty_staged = [''a'', ''b'']\<rparr>)"
  by code_simp

theorem migrate_up_command_witness:
  "dv_hist toy_view \<lparr>ty_data = [''a'', ''b''], ty_hist = [''1'', ''2''], ty_staged = [''a'', ''b'']\<rparr>
     = map mg_version (chosen_up ''2'' 0 (pending_of [toy_migration ''1'' [''a''] [], toy_migration ''2'' [''b''] [], toy_migration ''3'' [''c''] []] []))"
  using migrate_up_command [OF toy_laws toy_keeps _ toy_files_eq toy_up_command, of "[]"]
  by (simp add: toy_view_def classifyError_def)

section \<open>Down\<close>

lemma plan_unchanged:
  assumes laws: "surreal_laws sdk tm dv" and h: "[] \<notin> set (dv_hist dv w)"
    and "CreateRollbackPlan sdk tm (Some c) dir discovered target w = (q, w')"
  shows "unchanged dv w w'"
proof -
  obtain a w1 where a: "GetAppliedMigrationsOrdered sdk tm (Some c) w = (a, w1)" by fastforce
  have "w' = w \<or> w' = w1" using assms(3) a by (auto simp: CreateRollbackPlan_def Let_def split: if_splits sum.splits)
  then show ?thesis using ordered_law [OF laws h a] by auto
qed

lemma dry_target:
  assumes laws: "surreal_laws sdk tm dv" and h: "[] \<notin> set (dv_hist dv w)"
    and "down_to_target sdk tm dir discovered target True c p w = (r, p', w')"
  shows "unchanged dv w w'"
proof -
  obtain a w1 where a: "CreateRollbackPlan sdk tm (Some c) dir discovered target w = (a, w1)" by fastforce
  then have "w' = w1" using assms(3) by (auto simp: down_to_target_def PlanRollbackToVersion_def Let_def split: if_splits sum.splits)
  then show ?thesis using plan_unchanged [OF laws h a] by simp
qed

lemma dry_steps:
  assumes laws: "surreal_laws sdk tm dv" and h: "[] \<notin> set (dv_hist dv w)"
    and "down_by_steps sdk tm dir discovered steps True c p w = (r, p', w')"
  shows "unchanged dv w w'"
proof -
  obtain a w1 where a: "GetAppliedMigrationsOrdered sdk tm (Some c) w = (a, w1)" by fastforce
  then have "w' = w \<or> w' = w1" using assms(3) by (auto simp: down_by_steps_def Let_def split: if_splits sum.splits)
  then show ?thesis using ordered_law [OF laws h a] by auto
qed

text \<open>A dry run rolls nothing back, with a target as with a number of steps.\<close>

lemma down_dry_run:
  assumes laws: "surreal_laws sdk tm dv" and keeps: "connecting_keeps sdk (\<lambda>x. (dv_data dv x, dv_hist dv x))"
    and h: "[] \<notin> set (dv_hist dv w)"
    and run: "runMigrateDown sdk tm fo disc rc dir target steps True p w = (r, p', w')"
  shows "unchanged dv w w'"
proof -
  have view: "(dv_data dv b, dv_hist dv b) = (dv_data dv a, dv_hist dv a) \<longleftrightarrow> unchanged dv a b" for a b
    by (auto simp: unchanged_def)
  from with_connection_cases [OF keeps run [unfolded runMigrateDown_def]] show ?thesis unfolding view
  proof (elim disjE exE conjE)
    fix c w1 w2
    assume a: "unchanged dv w w1" "unchanged dv w2 w'"
      "(if target \<noteq> [] then down_to_target sdk tm dir (disc dir) target True else down_by_steps sdk tm dir (disc dir) steps True) c p w1 = (r, p', w2)"
    have h1: "[] \<notin> set (dv_hist dv w1)" using h a(1) by (simp add: unchanged_def)
    have "unchanged dv w1 w2"
    proof (cases "target = []")
      case True
      then have "down_by_steps sdk tm dir (disc dir) steps True c p w1 = (r, p', w2)" using a(3) by simp
      then show ?thesis by (rule dry_steps [OF laws h1])
    next
      case False
      then have "down_to_target sdk tm dir (disc dir) target True c p w1 = (r, p', w2)" using a(3) by simp
      then show ?thesis by (rule dry_target [OF laws h1])
    qed
    then show ?thesis using a(1,2) by (simp add: unchanged_def)
  qed
qed

text \<open>Without a target a number of steps of zero is a usage error, found after the connection was made.\<close>

lemma down_zero_steps:
  "rx_settings rc = Some s \<Longrightarrow> newConnectedClient sdk fo rc w = (Inr c, w1) \<Longrightarrow>
   \<exists>err. runMigrateDown sdk tm fo disc rc dir [] 0 dryRun p w = (Some (UsageError err), p, snd (snd (Disconnect sdk c w1)))"
  by (simp add: runMigrateDown_def with_connection_def down_by_steps_def newUsageError_def)

section \<open>What the command does not do\<close>

text \<open>A target that no pending migration has is no error: the comment leaves it to the executor to refuse, which never
  sees the target, and every pending migration is applied.\<close>

lemma unknown_target_applies_all:
  "target \<notin> set (map mg_version ms) \<Longrightarrow> clampPendingToTarget ms target = ms"
  by (induction ms) auto

lemma mistyped_target:
  "runMigrateUp toy_sdk toy_time sample_float_ops toy_files toy_context ''m'' ''20'' 0 False (SetQuiet True (NewPrinter [] [] False)) toy_empty
     = (None, SetQuiet True (NewPrinter [] [] False),
        \<lparr>ty_data = [''a'', ''b'', ''c''], ty_hist = [''1'', ''2'', ''3''], ty_staged = [''a'', ''b'', ''c'']\<rparr>)"
  by code_simp

end
