(* ===== verification/Cli_Database.thy ===== *)
theory Cli_Database
  imports Cli_Root Migration_History Connection_Sessions Schema_Parser
begin

text \<open>
  The command line, \<open>surql db\<close> (\<open>db.go\<close>) and \<open>surql bucket\<close> (\<open>bucket.go\<close>): the history table, health, configuration, reset and
  raw queries; buckets and their files. Reading and writing a file of the user, the encoder of JSON and the text of a
  value under \<open>%v\<close> are arguments. A command that reads the settings where there are none dereferences nil, which is an error
  here.
\<close>

definition with_settings ::
    "root_context \<Rightarrow> (settings \<Rightarrow> printer \<Rightarrow> 'w \<Rightarrow> cli_error option \<times> printer \<times> 'w) \<Rightarrow> printer \<Rightarrow> 'w \<Rightarrow> cli_error option \<times> printer \<times> 'w" where
  "with_settings rc body p w =
     (case rx_settings rc of None \<Rightarrow> (failure ''nil pointer dereference'', p, w) | Some s \<Rightarrow> body s p w)"

definition emit_json :: "('v \<Rightarrow> string result) \<Rightarrow> 'v \<Rightarrow> printer \<Rightarrow> 'w \<Rightarrow> cli_error option \<times> printer \<times> 'w" where
  "emit_json enc v p w = (case print_json enc v p of (None, p1) \<Rightarrow> (None, p1, w) | (Some e, p1) \<Rightarrow> (returned e, p1, w))"

text \<open>\<open>ns/db\<close> of the settings.\<close>

definition db_path :: "settings \<Rightarrow> string" where
  "db_path s = cc_ns (se_database s) @ ''/'' @ cc_db (se_database s)"

section \<open>Initialising, health and configuration\<close>

definition db_init :: "('w, 'tx) sdk \<Rightarrow> float_ops \<Rightarrow> root_context \<Rightarrow> printer \<Rightarrow> 'w \<Rightarrow> cli_error option \<times> printer \<times> 'w" where
  "db_init sdk fo rc =
     with_connection sdk fo rc (\<lambda>c p w.
       case CreateMigrationTable sdk (Some c) w of
         (Some e, w1) \<Rightarrow> (returned e, Errorf (''init failed: '' @ err_text e) p, w1)
       | (None, w1) \<Rightarrow> (None, Successf (''migration tracking table ready ('' @ MigrationTableName @ '')'') p, w1))"

definition db_ping :: "('w, 'tx) sdk \<Rightarrow> float_ops \<Rightarrow> root_context \<Rightarrow> printer \<Rightarrow> 'w \<Rightarrow> cli_error option \<times> printer \<times> 'w" where
  "db_ping sdk fo rc =
     with_settings rc (\<lambda>s p0 w0.
       with_connection sdk fo rc (\<lambda>c p w.
         case Health sdk c w of
           (Inl e, w1) \<Rightarrow> (returned e, Errorf (''health check failed: '' @ err_text e) p, w1)
         | (Inr ok, w1) \<Rightarrow>
             (if \<not> ok then (None, Errorf ''health check failed: <nil>'' p, w1)
              else (None, Successf (''database is reachable ('' @ db_path s @ '')'') p, w1)))
         (Infof (''connecting to '' @ cc_url (se_database s)) p0) w0)"

definition optionalString :: "string option \<Rightarrow> string" where
  "optionalString s = (case s of None \<Rightarrow> ''(none)'' | Some t \<Rightarrow> t)"

definition maskOptionalString :: "string option \<Rightarrow> string" where
  "maskOptionalString s = (case s of None \<Rightarrow> ''(none)'' | Some t \<Rightarrow> if t = [] then ''(none)'' else ''***'')"

definition db_info_map :: "connection_config \<Rightarrow> go_map" where
  "db_info_map cfg =
     [(''url'', StrV (cc_url cfg)), (''namespace'', StrV (cc_ns cfg)), (''database'', StrV (cc_db cfg)),
      (''username'', StrV (optionalString (cc_user cfg))), (''password'', StrV (maskOptionalString (cc_pass cfg))),
      (''timeout_seconds'', Float64V (cc_timeout cfg)), (''max_connections'', Uint32V (cc_max_connections cfg)),
      (''retry_max_attempts'', Uint32V (cc_retry_attempts cfg)), (''retry_min_wait'', Float64V (cc_retry_min cfg)),
      (''retry_max_wait'', Float64V (cc_retry_max cfg)), (''retry_multiplier'', Float64V (cc_retry_multiplier cfg)),
      (''enable_live_queries'', BoolV (cc_live cfg))]"

definition db_info ::
    "(go_map \<Rightarrow> string result) \<Rightarrow> (any \<Rightarrow> string) \<Rightarrow> root_context \<Rightarrow> printer \<Rightarrow> 'w \<Rightarrow> cli_error option \<times> printer \<times> 'w" where
  "db_info enc fmt rc =
     with_settings rc (\<lambda>s p w.
       let info = db_info_map (se_database s) in
       if gf_json (rx_flags rc) then emit_json enc info p w
       else
         (None,
          fold (\<lambda>(k, v). Plainf (''  '' @ padRight k 22 @ '' '' @ fmt v)) (sort_key fst info) (Section ''Database configuration'' p), w))"

section \<open>The tables of a database\<close>

text \<open>Insertion sort: an element sinks from the end of the sorted prefix, which is held reversed, past the greater ones.\<close>

fun sink :: "string \<Rightarrow> string list \<Rightarrow> string list" where
  "sink x [] = [x]"
| "sink x (y # ys) = (if y > x then y # sink x ys else x # y # ys)"

definition sortStringsStable :: "string list \<Rightarrow> string list" where
  "sortStringsStable xs = rev (fold sink xs [])"

definition unwrapQueryResult :: "any \<Rightarrow> any" where
  "unwrapQueryResult res =
     (case as_list res of
        Some (first # _) \<Rightarrow> (case as_map first of Some env \<Rightarrow> map_index env ''result'' | None \<Rightarrow> NilV)
      | _ \<Rightarrow> NilV)"

definition table_sections :: "go_map \<Rightarrow> string list" where
  "table_sections info =
     concat (map (\<lambda>key. case map_get info key of Some (MapV m) \<Rightarrow> map fst m | _ \<Rightarrow> []) [''tables'', ''tb''])"

definition extractTableNames :: "any \<Rightarrow> string list" where
  "extractTableNames res =
     (case as_map (unwrapQueryResult res) of None \<Rightarrow> [] | Some info \<Rightarrow> sortStringsStable (table_sections info))"

text \<open>A connection of its own.\<close>

definition listDatabaseTables :: "('w, 'tx) sdk \<Rightarrow> float_ops \<Rightarrow> root_context \<Rightarrow> 'w \<Rightarrow> string list result \<times> 'w" where
  "listDatabaseTables sdk fo rc w =
     (case newConnectedClient sdk fo rc w of
        (Inl e, w1) \<Rightarrow> (Inl e, w1)
      | (Inr c, w1) \<Rightarrow>
          (case Query sdk c ''INFO FOR DB;'' w1 of
             (Inl e, w2) \<Rightarrow> (Inl e, snd (snd (Disconnect sdk c w2)))
           | (Inr res, w2) \<Rightarrow> (Inr (extractTableNames res), snd (snd (Disconnect sdk c w2)))))"

section \<open>Reset\<close>

definition remove_table_sql :: "string \<Rightarrow> string" where
  "remove_table_sql t = ''REMOVE TABLE '' @ t @ '';''"

fun remove_tables ::
    "('w, 'tx) sdk \<Rightarrow> client \<Rightarrow> string list \<Rightarrow> printer \<Rightarrow> 'w \<Rightarrow> cli_error option \<times> printer \<times> 'w" where
  "remove_tables sdk c [] p w = (None, p, w)"
| "remove_tables sdk c (t # ts) p w =
     (case Query sdk c (remove_table_sql t) w of
        (Inl e, w1) \<Rightarrow> (returned e, Errorf (''failed to remove '' @ t @ '': '' @ err_text e) p, w1)
      | (Inr _, w1) \<Rightarrow> remove_tables sdk c ts (Plainf (''  - removed '' @ t) p) w1)"

definition reset_body ::
    "('w, 'tx) sdk \<Rightarrow> float_ops \<Rightarrow> root_context \<Rightarrow> client \<Rightarrow> printer \<Rightarrow> 'w \<Rightarrow> cli_error option \<times> printer \<times> 'w" where
  "reset_body sdk fo rc c p w =
     (case listDatabaseTables sdk fo rc w of
        (Inl e, w1) \<Rightarrow> (returned e, p, w1)
      | (Inr tables, w1) \<Rightarrow>
          (if tables = [] then (None, Successf ''database already empty'' p, w1)
           else
             with_settings rc (\<lambda>s p1 w1.
               case remove_tables sdk c tables
                      (Warnf (''removing '' @ show_nat (length tables) @ '' table(s) from '' @ db_path s) p1) w1 of
                 (Some e, p2, w2) \<Rightarrow> (Some e, p2, w2)
               | (None, p2, w2) \<Rightarrow> (None, Successf (''removed '' @ show_nat (length tables) @ '' table(s)'') p2, w2)) p w1))"

definition db_reset ::
    "('w, 'tx) sdk \<Rightarrow> float_ops \<Rightarrow> root_context \<Rightarrow> bool \<Rightarrow> printer \<Rightarrow> 'w \<Rightarrow> cli_error option \<times> printer \<times> 'w" where
  "db_reset sdk fo rc yes p0 w0 =
     (if \<not> yes then
        with_settings rc (\<lambda>s p w.
          (newUsageError (''refusing to reset without --yes; this drops every table in '' @ db_path s), p, w)) p0 w0
      else with_connection sdk fo rc (reset_body sdk fo rc) p0 w0)"

section \<open>Raw queries and the server version\<close>

definition resolveQueryText :: "(string \<Rightarrow> string result) \<Rightarrow> string list \<Rightarrow> string \<Rightarrow> cli_error + string" where
  "resolveQueryText read args file =
     (if file \<noteq> [] then
        (case read file of
           Inl e \<Rightarrow> Inl (CommandError (Opaque (''read '' @ file @ '': '' @ err_text e)))
         | Inr data \<Rightarrow>
             (let txt = trim_space data in
              if txt = [] then Inl (UsageError (''query file '' @ file @ '' is empty'')) else Inr txt))
      else if args = [] then Inl (UsageError ''a SurrealQL query or --file is required'')
      else Inr (str_join '' '' args))"

definition db_query ::
    "('w, 'tx) sdk \<Rightarrow> float_ops \<Rightarrow> (any \<Rightarrow> string result) \<Rightarrow> (string \<Rightarrow> string result) \<Rightarrow> root_context \<Rightarrow> string list \<Rightarrow> string
       \<Rightarrow> printer \<Rightarrow> 'w \<Rightarrow> cli_error option \<times> printer \<times> 'w" where
  "db_query sdk fo enc read rc args file p0 w0 =
     (case resolveQueryText read args file of
        Inl e \<Rightarrow> (Some e, p0, w0)
      | Inr q \<Rightarrow>
          with_connection sdk fo rc (\<lambda>c p w.
            case Query sdk c q w of
              (Inl e, w1) \<Rightarrow> (returned e, Errorf (''query failed: '' @ err_text e) p, w1)
            | (Inr res, w1) \<Rightarrow>
                (if res = NilV then (None, Successf ''query executed (no results)'' p, w1) else emit_json enc res p w1)) p0 w0)"

text \<open>\<open>reported\<close> is the text of the version the server sends.\<close>

definition db_version ::
    "('w, 'tx) sdk \<Rightarrow> float_ops \<Rightarrow> ('w \<Rightarrow> string) \<Rightarrow> root_context \<Rightarrow> printer \<Rightarrow> 'w \<Rightarrow> cli_error option \<times> printer \<times> 'w" where
  "db_version sdk fo reported rc =
     with_connection sdk fo rc (\<lambda>c p w.
       if \<not> cl_db c then (failure ''underlying connection unavailable'', p, w)
       else
         (case sdk_version sdk w of
            (Some e, w1) \<Rightarrow> (returned e, Errorf (''version failed: '' @ err_text e) p, w1)
          | (None, w1) \<Rightarrow> (None, Successf (''server: '' @ reported w) p, w1)))"

section \<open>Buckets\<close>

definition WithBucketReadOnly :: "bool \<Rightarrow> bucket_option" where "WithBucketReadOnly b k = k\<lparr>bk_readonly := b\<rparr>"
definition WithBucketComment :: "string \<Rightarrow> bucket_option" where "WithBucketComment c k = k\<lparr>bk_comment := c\<rparr>"

definition RemoveBucketSurql :: "string \<Rightarrow> string" where
  "RemoveBucketSurql name = ''REMOVE BUCKET '' @ name @ '';''"

definition bucket_define ::
    "('w, 'tx) sdk \<Rightarrow> float_ops \<Rightarrow> root_context \<Rightarrow> string \<Rightarrow> string \<Rightarrow> bool \<Rightarrow> string \<Rightarrow> bool \<Rightarrow> bool
       \<Rightarrow> printer \<Rightarrow> 'w \<Rightarrow> cli_error option \<times> printer \<times> 'w" where
  "bucket_define sdk fo rc name backend readOnly comment ifNotExists dryRun p0 w0 =
     (let b = NewBucket name backend [WithBucketReadOnly readOnly, WithBucketComment comment] in
      case bucket_validate b of
        Some e \<Rightarrow> (newUsageError (err_text e), p0, w0)
      | None \<Rightarrow>
          (let stmt = bucket_toSurql b (if ifNotExists then DefineIfNotExists else DefinePlain) in
           if dryRun then (None, Plainf stmt (Infof ''dry-run: would execute'' p0), w0)
           else
             with_connection sdk fo rc (\<lambda>c p w.
               case Query sdk c stmt w of
                 (Inl e, w1) \<Rightarrow> (returned e, Errorf (''define bucket failed: '' @ err_text e) p, w1)
               | (Inr _, w1) \<Rightarrow>
                   (None, Successf (''bucket '' @ bk_name b @ '' defined (backend '' @ go_quote (bk_backend b) @ '')'') p, w1)) p0 w0))"

definition listBuckets :: "('w, 'tx) sdk \<Rightarrow> client \<Rightarrow> 'w \<Rightarrow> string list result \<times> 'w" where
  "listBuckets sdk c w =
     (case Query sdk c ''INFO FOR DB;'' w of
        (Inl e, w1) \<Rightarrow> (Inl e, w1)
      | (Inr res, w1) \<Rightarrow>
          (case as_map (unwrapQueryResult res) of
             None \<Rightarrow> (Inr [], w1)
           | Some info \<Rightarrow> (Inr (sortStringsStable (map fst (di_buckets (ParseDBInfo info)))), w1)))"

definition list_files ::
    "('w, 'tx) sdk \<Rightarrow> byte_ops \<Rightarrow> (file_ref list \<Rightarrow> string result) \<Rightarrow> root_context \<Rightarrow> string
       \<Rightarrow> client \<Rightarrow> printer \<Rightarrow> 'w \<Rightarrow> cli_error option \<times> printer \<times> 'w" where
  "list_files sdk bo enc rc name c p w =
     (case file_List (client_runner sdk c) bo name w of
        (Inl e, w1) \<Rightarrow> (returned e, Errorf (''list files failed: '' @ err_text e) p, w1)
      | (Inr refs, w1) \<Rightarrow>
          (if gf_json (rx_flags rc) then emit_json enc refs p w1
           else if refs = [] then (None, Infof (''bucket '' @ name @ '' is empty'') p, w1)
           else (None, print_table [''Key'', ''File''] (map (\<lambda>ref. [fr_key ref, file_ref_string ref]) refs) p, w1)))"

definition list_buckets_body ::
    "('w, 'tx) sdk \<Rightarrow> (string list \<Rightarrow> string result) \<Rightarrow> root_context \<Rightarrow> client \<Rightarrow> printer \<Rightarrow> 'w \<Rightarrow> cli_error option \<times> printer \<times> 'w" where
  "list_buckets_body sdk enc rc c p w =
     (case listBuckets sdk c w of
        (Inl e, w1) \<Rightarrow> (returned e, Errorf (''list buckets failed: '' @ err_text e) p, w1)
      | (Inr names, w1) \<Rightarrow>
          (if gf_json (rx_flags rc) then emit_json enc names p w1
           else if names = [] then with_settings rc (\<lambda>s p w. (None, Infof (''no buckets in '' @ db_path s) p, w)) p w1
           else (None, print_table [''Bucket''] (map (\<lambda>n. [n]) names) p, w1)))"

definition bucket_list ::
    "('w, 'tx) sdk \<Rightarrow> float_ops \<Rightarrow> byte_ops \<Rightarrow> (file_ref list \<Rightarrow> string result) \<Rightarrow> (string list \<Rightarrow> string result) \<Rightarrow> root_context
       \<Rightarrow> string list \<Rightarrow> printer \<Rightarrow> 'w \<Rightarrow> cli_error option \<times> printer \<times> 'w" where
  "bucket_list sdk fo bo enc_refs enc_names rc args =
     with_connection sdk fo rc
       (case args of [name] \<Rightarrow> list_files sdk bo enc_refs rc name | _ \<Rightarrow> list_buckets_body sdk enc_names rc)"

definition bucket_remove ::
    "('w, 'tx) sdk \<Rightarrow> float_ops \<Rightarrow> root_context \<Rightarrow> string \<Rightarrow> bool \<Rightarrow> printer \<Rightarrow> 'w \<Rightarrow> cli_error option \<times> printer \<times> 'w" where
  "bucket_remove sdk fo rc name yes p0 w0 =
     (if \<not> yes then
        (newUsageError (''refusing to remove bucket '' @ go_quote name @ '' without --yes; this deletes the bucket and its files''), p0, w0)
      else
        with_connection sdk fo rc (\<lambda>c p w.
          case Query sdk c (RemoveBucketSurql name) w of
            (Inl e, w1) \<Rightarrow> (returned e, Errorf (''remove bucket failed: '' @ err_text e) p, w1)
          | (Inr _, w1) \<Rightarrow> (None, Successf (''bucket '' @ name @ '' removed'') p, w1)) p0 w0)"

section \<open>Files of a bucket\<close>

definition resolveBucketPayload :: "(string \<Rightarrow> string result) \<Rightarrow> string \<Rightarrow> string \<Rightarrow> cli_error + string" where
  "resolveBucketPayload read data file =
     (if data \<noteq> [] \<and> file \<noteq> [] then Inl (UsageError ''specify only one of --data or --file'')
      else if file \<noteq> [] then
        (case read file of Inl e \<Rightarrow> Inl (CommandError (Opaque (''read '' @ file @ '': '' @ err_text e))) | Inr b \<Rightarrow> Inr b)
      else if data \<noteq> [] then Inr data
      else Inl (UsageError ''a payload is required: pass --data or --file''))"

text \<open>\<open>of_bytes\<close> makes a value of a \<open>[]byte\<close>.\<close>

definition bucket_put ::
    "('w, 'tx) sdk \<Rightarrow> float_ops \<Rightarrow> byte_ops \<Rightarrow> (string \<Rightarrow> any) \<Rightarrow> (string \<Rightarrow> string result) \<Rightarrow> root_context \<Rightarrow> string \<Rightarrow> string
       \<Rightarrow> string \<Rightarrow> string \<Rightarrow> bool \<Rightarrow> printer \<Rightarrow> 'w \<Rightarrow> cli_error option \<times> printer \<times> 'w" where
  "bucket_put sdk fo bo of_bytes read rc name key data file ifNotExists p0 w0 =
     (case resolveBucketPayload read data file of
        Inl e \<Rightarrow> (Some e, p0, w0)
      | Inr payload \<Rightarrow>
          with_connection sdk fo rc (\<lambda>c p w.
            case (if ifNotExists then PutIfNotExists else Put) (client_runner sdk c) bo name key (of_bytes payload) w of
              (Some e, w1) \<Rightarrow> (returned e, Errorf (''put failed: '' @ err_text e) p, w1)
            | (None, w1) \<Rightarrow>
                (None, Successf (''wrote '' @ show_nat (length payload) @ '' byte(s) to '' @ name @ '':/'' @ key) p, w1)) p0 w0)"

text \<open>Nothing at all is written as no bytes.\<close>

definition bucket_get ::
    "('w, 'tx) sdk \<Rightarrow> float_ops \<Rightarrow> byte_ops \<Rightarrow> (string \<Rightarrow> string \<Rightarrow> go_error option) \<Rightarrow> root_context \<Rightarrow> string \<Rightarrow> string \<Rightarrow> string
       \<Rightarrow> printer \<Rightarrow> 'w \<Rightarrow> cli_error option \<times> printer \<times> 'w" where
  "bucket_get sdk fo bo wr rc name key output =
     with_connection sdk fo rc (\<lambda>c p w.
       case file_Get (client_runner sdk c) bo name key w of
         (Inl e, w1) \<Rightarrow> (returned e, Errorf (''get failed: '' @ err_text e) p, w1)
       | (Inr content, w1) \<Rightarrow>
           (let bytes = (case content of None \<Rightarrow> [] | Some b \<Rightarrow> b) in
            if output \<noteq> [] then
              (case wr output bytes of
                 Some e \<Rightarrow> (failure (''write '' @ output @ '': '' @ err_text e), p, w1)
               | None \<Rightarrow> (None, Successf (''wrote '' @ show_nat (length bytes) @ '' byte(s) to '' @ output) p, w1))
            else (None, p\<lparr>pr_out := pr_out p @ bytes\<rparr>, w1)))"

definition bucket_delete ::
    "('w, 'tx) sdk \<Rightarrow> float_ops \<Rightarrow> root_context \<Rightarrow> string \<Rightarrow> string \<Rightarrow> printer \<Rightarrow> 'w \<Rightarrow> cli_error option \<times> printer \<times> 'w" where
  "bucket_delete sdk fo rc name key =
     with_connection sdk fo rc (\<lambda>c p w.
       case file_Delete (client_runner sdk c) name key w of
         (Some e, w1) \<Rightarrow> (returned e, Errorf (''delete failed: '' @ err_text e) p, w1)
       | (None, w1) \<Rightarrow> (None, Successf (''deleted '' @ name @ '':/'' @ key) p, w1))"

definition bucket_exists ::
    "('w, 'tx) sdk \<Rightarrow> float_ops \<Rightarrow> (go_map \<Rightarrow> string result) \<Rightarrow> root_context \<Rightarrow> string \<Rightarrow> string \<Rightarrow> printer \<Rightarrow> 'w \<Rightarrow> cli_error option \<times> printer \<times> 'w" where
  "bucket_exists sdk fo enc rc name key =
     with_connection sdk fo rc (\<lambda>c p w.
       case file_Exists (client_runner sdk c) name key w of
         (Inl e, w1) \<Rightarrow> (returned e, Errorf (''exists failed: '' @ err_text e) p, w1)
       | (Inr found, w1) \<Rightarrow>
           (if gf_json (rx_flags rc) then emit_json enc [(''exists'', BoolV found)] p w1
            else if found then (None, Successf (name @ '':/'' @ key @ '' exists'') p, w1)
            else (None, Infof (name @ '':/'' @ key @ '' does not exist'') p, w1)))"

section \<open>Sorting\<close>

lemma set_sink [simp]: "mset (sink x ys) = add_mset x (mset ys)"
  by (induction ys) auto

lemma sorted_sink: "sorted_wrt (\<ge>) ys \<Longrightarrow> sorted_wrt (\<ge>) (sink x ys)"
proof (induction ys)
  case (Cons y ys)
  have "set (sink x ys) = insert x (set ys)" by (metis set_sink set_mset_add_mset_insert set_mset_mset)
  then show ?case using Cons by auto
qed simp

text \<open>The insertion sort of the names is the sort of the library; names in both sections of the answer stay double.\<close>

lemma sortStringsStable_sort: "sortStringsStable xs = sort xs"
proof -
  have "sorted_wrt (\<ge>) (fold sink xs ys) \<and> mset (fold sink xs ys) = mset xs + mset ys" if "sorted_wrt (\<ge>) ys" for ys
    using that
  proof (induction xs arbitrary: ys)
    case (Cons x xs)
    then show ?case using Cons.IH [OF sorted_sink [OF Cons.prems], of x] by simp
  qed simp
  from this [of "[]"] have "sorted_wrt (\<ge>) (fold sink xs [])" "mset (fold sink xs []) = mset xs" by simp_all
  then show ?thesis unfolding sortStringsStable_def
    by (intro properties_for_sort [symmetric]) (simp_all add: sorted_wrt_rev)
qed

section \<open>Commands that must not act\<close>

text \<open>Without \<open>--yes\<close> neither the tables nor a bucket are touched: there is not even a connection.\<close>

lemma reset_refused:
  "\<exists>err. db_reset sdk fo rc False p w = (Some err, p, w) \<and> (rx_settings rc \<noteq> None \<longrightarrow> fst (classifyError (Some err) out) = 2)"
  by (auto simp: db_reset_def with_settings_def newUsageError_def failure_def classifyError_def split: option.splits)

lemma bucket_remove_refused: "\<exists>msg. bucket_remove sdk fo rc name False p w = (Some (UsageError msg), p, w)"
  by (simp add: bucket_remove_def newUsageError_def)

text \<open>The password never appears.\<close>

lemma info_masks_password: "map_of (db_info_map cfg) ''password'' \<in> {Some (StrV ''(none)''), Some (StrV ''***'')}"
  by (simp add: db_info_map_def maskOptionalString_def split: option.splits)

text \<open>The statements of a reset, in order: one for every table of the answer, each name as it is.\<close>

fun all_succeed :: "('w, 'tx) sdk \<Rightarrow> client \<Rightarrow> string list \<Rightarrow> 'w \<Rightarrow> 'w option" where
  "all_succeed sdk c [] w = Some w"
| "all_succeed sdk c (s # ss) w = (case Query sdk c s w of (Inl e, w1) \<Rightarrow> None | (Inr r, w1) \<Rightarrow> all_succeed sdk c ss w1)"

lemma remove_tables_statements:
  "remove_tables sdk c ts p w = (None, p', w') \<Longrightarrow> all_succeed sdk c (map remove_table_sql ts) w = Some w'"
  by (induction ts arbitrary: p w) (auto simp: returned_def split: prod.splits sum.splits)

section \<open>What the commands do not do\<close>

text \<open>A table that both sections name is listed twice, and a reset removes it twice.\<close>

lemma tables_listed_twice:
  "extractTableNames (ListV [MapV [(''result'', MapV [(''tables'', MapV [(''user'', StrV ''x'')]), (''tb'', MapV [(''user'', StrV ''x'')])])]])
     = [''user'', ''user'']"
  by (simp add: extractTableNames_def unwrapQueryResult_def table_sections_def sortStringsStable_def map_index_def)

text \<open>A reset does not quote the names: one with a dash ends the name early.\<close>

lemma reset_does_not_quote: "remove_table_sql ''my-table'' = ''REMOVE TABLE my-table;''"
  by (simp add: remove_table_sql_def)

end
