(* ===== verification/Cli_Schema.thy ===== *)
theory Cli_Schema
  imports Cli_Database Schema_Watcher Schema_Visualize Schema_Snapshots Schema_Validator
begin

text \<open>
  The command line, \<open>surql schema\<close> (\<open>schema.go\<close>): the registry of the code printed, checked, drawn and sent to a database,
  and the schema of a database printed and compared with it. The process-wide registry is the argument \<open>reg\<close>; writing a
  file of the user and the encoders are arguments. The loop of \<open>watch\<close> only waits, so the command is its beginning and
  its end.
\<close>

section \<open>The database as it is\<close>

definition info_for_table :: "string \<Rightarrow> string" where
  "info_for_table t = ''INFO FOR TABLE '' @ t @ '';''"

definition schema_show ::
    "('w, 'tx) sdk \<Rightarrow> float_ops \<Rightarrow> (any \<Rightarrow> string result) \<Rightarrow> root_context \<Rightarrow> string list \<Rightarrow> printer \<Rightarrow> 'w \<Rightarrow> cli_error option \<times> printer \<times> 'w" where
  "schema_show sdk fo enc rc args =
     with_connection sdk fo rc (\<lambda>c p w.
       case Query sdk c (case args of [t] \<Rightarrow> info_for_table t | _ \<Rightarrow> ''INFO FOR DB;'') w of
         (Inl e, w1) \<Rightarrow> (returned e, p, w1)
       | (Inr res, w1) \<Rightarrow> emit_json enc res p w1)"

definition schema_inspect ::
    "('w, 'tx) sdk \<Rightarrow> float_ops \<Rightarrow> (any \<Rightarrow> string result) \<Rightarrow> root_context \<Rightarrow> string \<Rightarrow> printer \<Rightarrow> 'w \<Rightarrow> cli_error option \<times> printer \<times> 'w" where
  "schema_inspect sdk fo enc rc t =
     with_connection sdk fo rc (\<lambda>c p w.
       case Query sdk c (info_for_table t) w of
         (Inl e, w1) \<Rightarrow> (returned e, p, w1)
       | (Inr res, w1) \<Rightarrow> emit_json enc res p w1)"

definition schema_tables ::
    "('w, 'tx) sdk \<Rightarrow> float_ops \<Rightarrow> (string list \<Rightarrow> string result) \<Rightarrow> root_context \<Rightarrow> printer \<Rightarrow> 'w \<Rightarrow> cli_error option \<times> printer \<times> 'w" where
  "schema_tables sdk fo enc rc p0 w0 =
     (case listDatabaseTables sdk fo rc w0 of
        (Inl e, w1) \<Rightarrow> (returned e, Errorf (''tables failed: '' @ err_text e) p0, w1)
      | (Inr names, w1) \<Rightarrow>
          (if gf_json (rx_flags rc) then emit_json enc names p0 w1
           else if names = [] then with_settings rc (\<lambda>s p w. (None, Infof (''no tables in '' @ db_path s) p, w)) p0 w1
           else (None, print_table [''Table''] (map (\<lambda>n. [n]) names) p0, w1)))"

text \<open>The end of the commands that print a text or write it to a file.\<close>

definition deliver :: "(string \<Rightarrow> string \<Rightarrow> go_error option) \<Rightarrow> string \<Rightarrow> string \<Rightarrow> (printer \<Rightarrow> printer) \<Rightarrow> printer \<Rightarrow> cli_error option \<times> printer" where
  "deliver wr output txt show_it p =
     (if output = [] then (None, show_it p)
      else
        (case wr output txt of
           Some e \<Rightarrow> (failure (''write '' @ output @ '': '' @ err_text e), p)
         | None \<Rightarrow> (None, Successf (''wrote '' @ show_nat (length txt) @ '' bytes to '' @ output) p)))"

text \<open>The format is looked at when the answer is there.\<close>

definition exported :: "(any \<Rightarrow> string result) \<Rightarrow> (any \<Rightarrow> string result) \<Rightarrow> string \<Rightarrow> any \<Rightarrow> cli_error + string" where
  "exported enc_json enc_yaml format res =
     (if to_lower format = [] \<or> to_lower format = ''json'' then
        (case enc_json res of Inl e \<Rightarrow> Inl (CommandError e) | Inr s \<Rightarrow> Inr (s @ [CHR 0x0A]))
      else if to_lower format = ''yaml'' then (case enc_yaml res of Inl e \<Rightarrow> Inl (CommandError e) | Inr s \<Rightarrow> Inr s)
      else Inl (UsageError ''--format must be one of: json, yaml''))"

definition schema_export ::
    "('w, 'tx) sdk \<Rightarrow> float_ops \<Rightarrow> (any \<Rightarrow> string result) \<Rightarrow> (any \<Rightarrow> string result) \<Rightarrow> (string \<Rightarrow> string \<Rightarrow> go_error option) \<Rightarrow> root_context
       \<Rightarrow> string \<Rightarrow> string \<Rightarrow> printer \<Rightarrow> 'w \<Rightarrow> cli_error option \<times> printer \<times> 'w" where
  "schema_export sdk fo enc_json enc_yaml wr rc format output =
     with_connection sdk fo rc (\<lambda>c p w.
       case Query sdk c ''INFO FOR DB;'' w of
         (Inl e, w1) \<Rightarrow> (returned e, p, w1)
       | (Inr res, w1) \<Rightarrow>
           (case exported enc_json enc_yaml format res of
              Inl e \<Rightarrow> (Some e, p, w1)
            | Inr txt \<Rightarrow>
                (case deliver wr output txt (\<lambda>p. p\<lparr>pr_out := pr_out p @ txt\<rparr>) p of (r, p1) \<Rightarrow> (r, p1, w1))))"

section \<open>Differences\<close>

fun operation_name :: "diff_operation \<Rightarrow> string" where
  "operation_name AddTable = ''add_table''"
| "operation_name DropTable = ''drop_table''"
| "operation_name AddField = ''add_field''"
| "operation_name DropField = ''drop_field''"
| "operation_name ModifyField = ''modify_field''"
| "operation_name AddIndex = ''add_index''"
| "operation_name DropIndex = ''drop_index''"
| "operation_name AddEvent = ''add_event''"
| "operation_name DropEvent = ''drop_event''"
| "operation_name ModifyPermissions = ''modify_permissions''"
| "operation_name AddBucket = ''add_bucket''"
| "operation_name DropBucket = ''drop_bucket''"
| "operation_name ModifyBucket = ''modify_bucket''"

text \<open>A width in a format counts code points.\<close>

definition pad_runes :: "nat \<Rightarrow> string \<Rightarrow> string" where
  "pad_runes n s = s @ spaces (n - length (runes s))"

definition diff_line :: "schema_diff \<Rightarrow> string" where
  "diff_line d = ''  '' @ pad_runes 20 (operation_name (sd_op d)) @ '' '' @ pad_runes 24 (sd_table d) @ '' '' @ sd_description d"

text \<open>A reference is a file, or a version whose file is among the snapshots.\<close>

definition loadSnapshotFromReference :: "'w disk \<Rightarrow> snapshot_codec \<Rightarrow> string \<Rightarrow> string \<Rightarrow> 'w \<Rightarrow> stored_snapshot result" where
  "loadSnapshotFromReference dk sc snapshotsDir ref w =
     (if dk_stat dk ref w = StatFile then LoadSnapshot dk sc ref w
      else
        (let candidate = dk_join dk snapshotsDir (ref @ snapshotFileSuffix) in
         if dk_stat dk candidate w \<in> {StatDir, StatFile} then LoadSnapshot dk sc candidate w
         else Inl (Opaque (''snapshot '' @ go_quote ref @ '' not found (looked in '' @ snapshotsDir @ '')''))))"

definition render_diffs :: "schema_diff list \<Rightarrow> printer \<Rightarrow> printer" where
  "render_diffs ds p = fold (\<lambda>d. Plainf (diff_line d)) ds p"

definition json_only :: "('v \<Rightarrow> string result) \<Rightarrow> 'v \<Rightarrow> printer \<Rightarrow> cli_error option \<times> printer" where
  "json_only enc v p = (case print_json enc v p of (None, p1) \<Rightarrow> (None, p1) | (Some e, p1) \<Rightarrow> (returned e, p1))"

definition schema_diff_command ::
    "'w disk \<Rightarrow> snapshot_codec \<Rightarrow> (schema_diff list \<Rightarrow> string result) \<Rightarrow> root_context \<Rightarrow> string \<Rightarrow> string \<Rightarrow> string \<Rightarrow> 'w
       \<Rightarrow> printer \<Rightarrow> cli_error option \<times> printer" where
  "schema_diff_command dk sc enc rc from to dir w p =
     (if from = [] \<or> to = [] then
        (newUsageError ''--from and --to are required (both point to stored snapshot files or versions)'', p)
      else
        (let snapDir = (if dir = [] then dk_join dk (migrationsDir rc []) ''snapshots'' else dir) in
         case loadSnapshotFromReference dk sc snapDir from w of
           Inl e \<Rightarrow> (failure (''load --from snapshot: '' @ err_text e), p)
         | Inr src \<Rightarrow>
             (case loadSnapshotFromReference dk sc snapDir to w of
                Inl e \<Rightarrow> (failure (''load --to snapshot: '' @ err_text e), p)
              | Inr dst \<Rightarrow>
                  (case CompareSnapshots src dst of
                     Inl e \<Rightarrow> (returned e, p)
                   | Inr ds \<Rightarrow>
                       (if gf_json (rx_flags rc) then json_only enc ds p
                        else if ds = [] then (None, Successf ''no differences'' p)
                        else
                          (None,
                           render_diffs ds
                             (Section (show_nat (length ds) @ '' diff(s): '' @ st_version src @ '' -> '' @ st_version dst) p)))))))"

section \<open>The registry\<close>

definition TableCount :: "schema_registry \<Rightarrow> nat" where "TableCount r = fcard (fmdom (sr_tables r))"
definition EdgeCount :: "schema_registry \<Rightarrow> nat" where "EdgeCount r = fcard (fmdom (sr_edges r))"

definition nothing_registered :: "schema_registry \<Rightarrow> bool" where
  "nothing_registered reg \<longleftrightarrow> TableCount reg = 0 \<and> EdgeCount reg = 0"

definition schema_generate ::
    "(string \<Rightarrow> string \<Rightarrow> go_error option) \<Rightarrow> schema_registry \<Rightarrow> string \<Rightarrow> printer \<Rightarrow> cli_error option \<times> printer" where
  "schema_generate wr reg output p =
     (if nothing_registered reg then
        (None,
         Infof ''register TableDefinition / EdgeDefinition instances via schema.GetRegistry().RegisterTable(...)''
           (Warnf ''schema registry is empty (no definitions registered via code)'' p))
      else
        (case GenerateSchemaSQL (Some reg) False of
           Inl e \<Rightarrow> (returned e, p)
         | Inr sql \<Rightarrow> deliver wr output sql (Plainf sql) p))"

definition sync_warning :: string where
  "sync_warning = ''schema sync is destructive '' @ map char_of [0xE2, 0x80, 0x94 :: nat]
     @ '' prefer `surql migrate generate` to produce a reviewable migration''"

definition schema_sync ::
    "('w, 'tx) sdk \<Rightarrow> float_ops \<Rightarrow> root_context \<Rightarrow> schema_registry \<Rightarrow> bool \<Rightarrow> printer \<Rightarrow> 'w \<Rightarrow> cli_error option \<times> printer \<times> 'w" where
  "schema_sync sdk fo rc reg dryRun p0 w0 =
     (if nothing_registered reg then (None, Warnf ''registry is empty; nothing to sync'' p0, w0)
      else
        (case GenerateSchemaSQL (Some reg) True of
           Inl e \<Rightarrow> (returned e, p0, w0)
         | Inr sql \<Rightarrow>
             (if dryRun then (None, Plainf sql (Infof ''dry-run: would execute the following SurrealQL'' p0), w0)
              else
                with_connection sdk fo rc (\<lambda>c p w.
                  case Query sdk c sql w of
                    (Inl e, w1) \<Rightarrow> (returned e, p, w1)
                  | (Inr _, w1) \<Rightarrow> (None, Successf ''schema synchronized'' p, w1)) (Warnf sync_warning p0) w0)))"

definition render_report :: "validation_report \<Rightarrow> printer \<Rightarrow> printer" where
  "render_report report p =
     fold (\<lambda>i. Infof (ValidationResult_String i)) (FilterInfos report)
       (fold (\<lambda>x. Warnf (ValidationResult_String x)) (FilterWarnings report)
         (fold (\<lambda>e. Errorf (ValidationResult_String e)) (FilterErrors report) p))"

definition schema_validate ::
    "(validation_report \<Rightarrow> string result) \<Rightarrow> root_context \<Rightarrow> schema_registry \<Rightarrow> bool \<Rightarrow> printer \<Rightarrow> cli_error option \<times> printer" where
  "schema_validate enc rc reg strict p =
     (if nothing_registered reg then (None, Warnf ''registry is empty; nothing to validate'' p)
      else
        (case ValidateSchema (Some reg) [] of
           Inl e \<Rightarrow> (returned e, p)
         | Inr report \<Rightarrow>
             (if gf_json (rx_flags rc) then json_only enc report p
              else if HasErrors report \<or> strict \<and> FilterWarnings report \<noteq> [] then
                (failure (''schema validation failed ('' @ show_nat (length (FilterErrors report)) @ '' error(s), ''
                   @ show_nat (length (FilterWarnings report)) @ '' warning(s))''), render_report report p)
              else (None, Successf ''schema is valid'' (render_report report p)))))"

definition drawing :: "schema_registry \<Rightarrow> string \<Rightarrow> string \<Rightarrow> cli_error + string" where
  "drawing reg themeName format =
     (case GetTheme themeName of
        Inl e \<Rightarrow> Inl (UsageError (err_text e))
      | Inr theme \<Rightarrow>
          (let f = to_lower format in
           if f = ''mermaid'' \<or> f = [] then Inr (GenerateMermaid reg (vth_mermaid theme) [])
           else if f = ''graphviz'' \<or> f = ''dot'' then Inr (GenerateGraphViz reg (vth_graph_viz theme) [])
           else if f = ''ascii'' then Inr (GenerateASCII reg (vth_ascii theme) [])
           else Inl (UsageError ''--format must be one of: mermaid, graphviz, ascii'')))"

definition schema_visualize ::
    "(string \<Rightarrow> string \<Rightarrow> go_error option) \<Rightarrow> schema_registry \<Rightarrow> string \<Rightarrow> string \<Rightarrow> string \<Rightarrow> printer \<Rightarrow> cli_error option \<times> printer" where
  "schema_visualize wr reg themeName format output p =
     (if nothing_registered reg then (None, Warnf ''registry is empty; nothing to visualize'' p)
      else
        (case drawing reg themeName format of
           Inl e \<Rightarrow> (Some e, p)
         | Inr out \<Rightarrow> deliver wr output out (Plainf out) p))"

section \<open>Drift\<close>

definition extractTableNamesFromInfo :: "go_map \<Rightarrow> string list" where
  "extractTableNamesFromInfo info = sortStringsStable (table_sections info)"

text \<open>What one table of the database is in the snapshot: a table, and an edge when it parses as one.\<close>

definition live_table :: "string \<Rightarrow> any \<Rightarrow> (table_definition \<times> edge_definition option) option" where
  "live_table name res =
     (case as_map (unwrapQueryResult res) of
        None \<Rightarrow> None
      | Some info \<Rightarrow>
          (case ParseTableInfo name info of
             Inl _ \<Rightarrow> None
           | Inr t \<Rightarrow>
               Some (t, case ParseEdgeInfo name info of Inl _ \<Rightarrow> None | Inr e \<Rightarrow> if ed_name e \<noteq> [] then Some e else None)))"

fun live_tables ::
    "('w, 'tx) sdk \<Rightarrow> client \<Rightarrow> string list \<Rightarrow> 'w \<Rightarrow> (table_definition \<times> edge_definition option) list result \<times> 'w" where
  "live_tables sdk c [] w = (Inr [], w)"
| "live_tables sdk c (name # names) w =
     (case Query sdk c (info_for_table name) w of
        (Inl e, w1) \<Rightarrow> (Inl e, w1)
      | (Inr res, w1) \<Rightarrow>
          (case live_tables sdk c names w1 of
             (Inl e, w2) \<Rightarrow> (Inl e, w2)
           | (Inr rest, w2) \<Rightarrow> (Inr ((case live_table name res of None \<Rightarrow> [] | Some x \<Rightarrow> [x]) @ rest), w2)))"

definition live_buckets :: "database_info \<Rightarrow> bucket_definition list" where
  "live_buckets info = List.map_filter (map_of (di_buckets info)) (sortStringsStable (map fst (di_buckets info)))"

definition empty_snapshot :: schema_snapshot where
  "empty_snapshot = \<lparr>ss_tables = [], ss_edges = [], ss_buckets = []\<rparr>"

definition liveSnapshot :: "('w, 'tx) sdk \<Rightarrow> client \<Rightarrow> 'w \<Rightarrow> schema_snapshot result \<times> 'w" where
  "liveSnapshot sdk c w =
     (case Query sdk c ''INFO FOR DB;'' w of
        (Inl e, w1) \<Rightarrow> (Inl e, w1)
      | (Inr res, w1) \<Rightarrow>
          (case as_map (unwrapQueryResult res) of
             None \<Rightarrow> (Inr empty_snapshot, w1)
           | Some info \<Rightarrow>
               (case live_tables sdk c (extractTableNamesFromInfo info) w1 of
                  (Inl e, w2) \<Rightarrow> (Inl e, w2)
                | (Inr found, w2) \<Rightarrow>
                    (Inr \<lparr>ss_tables = map fst found, ss_edges = List.map_filter snd found,
                       ss_buckets = live_buckets (ParseDBInfo info)\<rparr>, w2))))"

text \<open>The side of the code has its tables and edges.\<close>

definition code_snapshot :: "schema_registry \<Rightarrow> schema_snapshot" where
  "code_snapshot reg = \<lparr>ss_tables = sorted_values (sr_tables reg), ss_edges = sorted_values (sr_edges reg), ss_buckets = []\<rparr>"

definition check_body ::
    "('w, 'tx) sdk \<Rightarrow> (schema_diff list \<Rightarrow> string result) \<Rightarrow> root_context \<Rightarrow> schema_registry \<Rightarrow> client \<Rightarrow> printer \<Rightarrow> 'w \<Rightarrow> cli_error option \<times> printer \<times> 'w" where
  "check_body sdk enc rc reg c p w =
     (case liveSnapshot sdk c w of
        (Inl e, w1) \<Rightarrow> (returned e, p, w1)
      | (Inr live, w1) \<Rightarrow>
          (case DiffSchemas (code_snapshot reg) live of
             Inl e \<Rightarrow> (returned e, p, w1)
           | Inr ds \<Rightarrow>
               (if ds = [] then (None, Successf ''no drift detected'' p, w1)
                else if gf_json (rx_flags rc) then emit_json enc ds p w1
                else
                  (failure (''schema drift: '' @ show_nat (length ds) @ '' difference(s)''),
                   render_diffs ds (Errorf (''drift detected ('' @ show_nat (length ds) @ '' diff(s))'') p), w1))))"

definition schema_check ::
    "('w, 'tx) sdk \<Rightarrow> float_ops \<Rightarrow> (schema_diff list \<Rightarrow> string result) \<Rightarrow> root_context \<Rightarrow> schema_registry
       \<Rightarrow> printer \<Rightarrow> 'w \<Rightarrow> cli_error option \<times> printer \<times> 'w" where
  "schema_check sdk fo enc rc reg p w =
     (if nothing_registered reg then (None, Warnf ''registry is empty; nothing to check'' p, w)
      else with_connection sdk fo rc (check_body sdk enc rc reg) p w)"

section \<open>Hooks and watching\<close>

definition escape_char :: "char \<Rightarrow> string \<Rightarrow> string" where
  "escape_char c s = concat (map (\<lambda>x. if x = c then [CHR 0x5C, x] else [x]) s)"

definition escapeYAMLRegex :: "string \<Rightarrow> string" where
  "escapeYAMLRegex path = escape_char CHR ''.'' (escape_char CHR 0x5C path)"

definition schema_hook_config :: "string \<Rightarrow> printer \<Rightarrow> cli_error option \<times> printer" where
  "schema_hook_config schemaPath p =
     (None, Plainf (text_lines
        [''- repo: local'', ''  hooks:'', ''    - id: surql-schema-check'', ''      name: surql schema check'',
         ''      entry: surql schema check'', ''      language: system'',
         ''      files: ^'' @ escapeYAMLRegex schemaPath @ ''.*'' @ [CHR 0x5C] @ ''.go$'', ''      pass_filenames: false'']) p)"

fun change_text :: "change_type \<Rightarrow> string" where
  "change_text Created = ''created''"
| "change_text Modified = ''modified''"
| "change_text Deleted = ''deleted''"
| "change_text Renamed = ''renamed''"

text \<open>The checker of the command prints the changes and reports nothing.\<close>

definition watch_checker :: "change_event list \<Rightarrow> printer \<Rightarrow> drift_report option result \<times> printer" where
  "watch_checker events p =
     (Inr (Some \<lparr>dr_detected = False, dr_issues = [], dr_suggestion = []\<rparr>),
      fold (\<lambda>ev. Infof (change_text (ce_type ev) @ '' '' @ ce_path ev)) events p)"

definition watch_error :: "go_error \<Rightarrow> printer \<Rightarrow> printer" where
  "watch_error e = Warnf (''watcher error: '' @ err_text e)"

definition watch_dir :: "root_context \<Rightarrow> string \<Rightarrow> string" where
  "watch_dir rc dir = (if dir = [] then migrationsDir rc [] else dir)"

definition watch_options :: "duration \<Rightarrow> watcher_options" where
  "watch_options debounce = \<lparr>wo_debounce = debounce, wo_recursive = False, wo_recursive_set = False, wo_filter = None,
     wo_buffer = 0, wo_on_error = True\<rparr>"

definition schema_watch_begin ::
    "(string \<Rightarrow> bool result) \<Rightarrow> go_error option \<Rightarrow> (string \<Rightarrow> go_error option) \<Rightarrow> (string \<times> (go_error + bool)) list \<Rightarrow> root_context
       \<Rightarrow> string \<Rightarrow> duration \<Rightarrow> printer \<Rightarrow> cli_error option \<times> schema_watcher option \<times> printer" where
  "schema_watch_begin stat created add visits rc dir debounce p =
     (case NewSchemaWatcher stat (watch_dir rc dir) True (watch_options debounce) of
        Inl e \<Rightarrow> (returned e, None, p)
      | Inr ws \<Rightarrow>
          (let p1 = (if created = None then fold watch_error (fst (snd (addRoot add visits ws))) p else p) in
           case Start created add visits ws of
             (Some e, ws1) \<Rightarrow> (returned e, Some ws1, p1)
           | (None, ws1) \<Rightarrow> (None, Some ws1, Infof (''watching '' @ watch_dir rc dir @ '' (Ctrl+C to stop)'') p1)))"

text \<open>The loop ends when the context is done or the channel of reports is closed.\<close>

definition schema_watch_end :: "bool \<Rightarrow> schema_watcher \<Rightarrow> printer \<Rightarrow> cli_error option \<times> schema_watcher \<times> printer" where
  "schema_watch_end cancelled ws p =
     (if cancelled then (None, Stop ws, Successf ''watcher stopped'' p) else (None, ws, p))"

end
