(* ===== verification/Cli_Schema_Correct.thy ===== *)
theory Cli_Schema_Correct
  imports Cli_Schema Schema_Diff_Correct
begin

text \<open>
  What \<open>surql schema check\<close> does and finds: it asks and touches nothing, and a database with tables is never in order,
  because each is read as an edge too.
\<close>

section \<open>Looking does not touch\<close>

text \<open>What INFO statements keep, the check keeps, in whatever way it ends.\<close>

definition asking_keeps :: "('w, 'tx) sdk \<Rightarrow> ('w \<Rightarrow> 'v) \<Rightarrow> bool" where
  "asking_keeps sdk view \<longleftrightarrow>
     connecting_keeps sdk view \<and> (\<forall>c s w. has_prefix s ''INFO FOR '' \<longrightarrow> view (snd (Query sdk c s w)) = view w)"

lemma asking: "asking_keeps sdk view \<Longrightarrow> has_prefix s ''INFO FOR '' \<Longrightarrow> Query sdk c s w = (r, w') \<Longrightarrow> view w' = view w"
  unfolding asking_keeps_def by (metis snd_conv)

lemma info_prefixes: "has_prefix (info_for_table t) ''INFO FOR ''" "has_prefix ''INFO FOR DB;'' ''INFO FOR ''"
  by (simp_all add: has_prefix_def info_for_table_def)

lemma live_tables_keep:
  assumes keeps: "asking_keeps sdk view"
  shows "live_tables sdk c names w = (r, w') \<Longrightarrow> view w' = view w"
proof (induction names arbitrary: r w)
  case (Cons n ns)
  then show ?case using asking [OF keeps info_prefixes(1)]
    by (auto split: prod.splits sum.splits)
qed simp

lemma live_snapshot_keeps:
  assumes keeps: "asking_keeps sdk view" and "liveSnapshot sdk c w = (r, w')"
  shows "view w' = view w"
  using assms(2) asking [OF keeps info_prefixes(2)] live_tables_keep [OF keeps]
  by (auto simp: liveSnapshot_def split: prod.splits sum.splits option.splits)

lemma check_body_world: "check_body sdk enc rc reg c p w = (r, p', w') \<Longrightarrow> w' = snd (liveSnapshot sdk c w)"
  by (auto simp: check_body_def emit_json_def split: prod.splits sum.splits option.splits if_splits)

lemma schema_check_keeps:
  assumes keeps: "asking_keeps sdk view" and check: "schema_check sdk fo enc rc reg p w = (r, p', w')"
  shows "view w' = view w"
proof (cases "nothing_registered reg")
  case False
  have conn: "connecting_keeps sdk view" using keeps by (simp add: asking_keeps_def)
  have "with_connection sdk fo rc (check_body sdk enc rc reg) p w = (r, p', w')" using check False by (simp add: schema_check_def)
  from with_connection_cases [OF conn this] show ?thesis
  proof (elim disjE exE conjE)
    fix c w1 w2 assume a: "view w1 = view w" "check_body sdk enc rc reg c p w1 = (r, p', w2)" "view w' = view w2"
    have "w2 = snd (liveSnapshot sdk c w1)" by (rule check_body_world [OF a(2)])
    then show ?thesis using a(1,3) live_snapshot_keeps [OF keeps, of c w1] by (cases "liveSnapshot sdk c w1") simp
  qed
qed (use check in \<open>simp add: schema_check_def\<close>)

section \<open>What the check finds\<close>

text \<open>Every table of a database is an edge of its snapshot as well: the parser of edges fails on an empty name only.\<close>

lemma parsed_edge_name: "ed_name (parseEdgeFromDefinition name def) = name"
  by (simp add: parseEdgeFromDefinition_def Let_def NewEdge_def)

lemma parsed_names:
  "ParseTableInfo name info = Inr t \<Longrightarrow> name \<noteq> [] \<and> tb_name t = name"
  "name \<noteq> [] \<Longrightarrow> \<exists>e. ParseEdgeInfo name info = Inr e \<and> ed_name e = name"
  by (auto simp: ParseTableInfo_def ParseEdgeInfo_def parsed_edge_name split: if_splits)

lemma live_table_is_edge:
  assumes "live_table name res = Some (t, e)"
  shows "\<exists>e'. e = Some e' \<and> ed_name e' = tb_name t"
proof -
  obtain info where "as_map (unwrapQueryResult res) = Some info" "ParseTableInfo name info = Inr t"
    and e: "e = (case ParseEdgeInfo name info of Inl _ \<Rightarrow> None | Inr e \<Rightarrow> if ed_name e \<noteq> [] then Some e else None)"
    using assms by (auto simp: live_table_def split: option.splits sum.splits)
  then have "name \<noteq> []" "tb_name t = name" by (simp_all add: parsed_names(1))
  then show ?thesis using e parsed_names(2) [of name info] by auto
qed

lemma live_tables_are_edges:
  "live_tables sdk c names w = (Inr found, w') \<Longrightarrow> map ed_name (List.map_filter snd found) = map (tb_name \<circ> fst) found"
proof (induction names arbitrary: found w)
  case (Cons n ns)
  then obtain res w1 rest where rest: "live_tables sdk c ns w1 = (Inr rest, w')"
    and found: "found = (case live_table n res of None \<Rightarrow> [] | Some x \<Rightarrow> [x]) @ rest"
    by (auto split: prod.splits sum.splits)
  note ih = Cons.IH [OF rest]
  show ?case
  proof (cases "live_table n res")
    case None
    then show ?thesis using ih found by simp
  next
    case (Some x)
    then obtain t e where "x = (t, Some e)" "ed_name e = tb_name t" using live_table_is_edge by (metis surj_pair)
    then show ?thesis using Some ih found by (simp add: List.map_filter_simps)
  qed
qed (simp add: List.map_filter_simps)

lemma live_edges: "liveSnapshot sdk c w = (Inr live, w') \<Longrightarrow> map ed_name (ss_edges live) = map tb_name (ss_tables live)"
  by (auto simp: liveSnapshot_def empty_snapshot_def live_tables_are_edges split: prod.splits sum.splits option.splits)

text \<open>So a database with a table that the code does not have as an edge is never found to be in order.\<close>

lemma only_there:
  assumes "x \<in> set db" "nm x \<notin> nm ` set code" "D (Some x) None \<noteq> Inr []"
  shows "diff_sets nm D code db \<noteq> Inr []"
proof
  assume "diff_sets nm D code db = Inr []"
  then obtain ds where ds: "collect (\<lambda>x. D (Some x) None) (only_in nm db code) = Inr ds" "concat ds = []"
    by (auto simp: diff_sets_def rbind_Inr_iff)
  have "x \<in> set (only_in nm db code)" using assms(1,2) by (simp add: set_only_in)
  then obtain d where "d \<in> set ds" "D (Some x) None = Inr d" using collect_Inr [OF ds(1)] by blast
  then show False using ds(2) assms(3) by auto
qed

lemma no_diffs_parts:
  assumes "DiffSchemas code live = Inr []"
  shows "diff_sets ed_name DiffEdges (ss_edges code) (ss_edges live) = Inr []"
    and "diff_sets bk_name DiffBuckets (ss_buckets code) (ss_buckets live) = Inr []"
  using assms by (auto simp: DiffSchemas_def diffBucketSets_def append_results_def rbind_Inr_iff)

lemma dropped_edge:
  assumes "e \<in> set (ss_edges live)" "ed_name e \<notin> ed_name ` set (ss_edges code)"
  shows "DiffSchemas code live \<noteq> Inr []"
  using only_there [OF assms, of DiffEdges] no_diffs_parts(1) by (auto simp: DiffEdges_def)

text \<open>And so is one with a bucket, registered or not.\<close>

lemma registered_bucket_is_drift:
  "b \<in> set (ss_buckets live) \<Longrightarrow> DiffSchemas (code_snapshot reg) live \<noteq> Inr []"
  using only_there [of b "ss_buckets live" bk_name "[]" DiffBuckets] no_diffs_parts(2) [of "code_snapshot reg" live]
  by (auto simp: DiffBuckets_def code_snapshot_def)

lemma check_never_in_order:
  assumes "t \<in> set (ss_tables live)" "tb_name t \<notin> ed_name ` set (sorted_values (sr_edges reg))"
    and "liveSnapshot sdk c w = (Inr live, w')" and json: "\<not> gf_json (rx_flags rc)"
  shows "fst (classifyError (fst (check_body sdk enc rc reg c p w)) out) = 1"
proof -
  have "tb_name t \<in> set (map ed_name (ss_edges live))" using assms(1) live_edges [OF assms(3)] by simp
  then have "DiffSchemas (code_snapshot reg) live \<noteq> Inr []" using dropped_edge [of _ live "code_snapshot reg"] assms(2)
    by (auto simp: code_snapshot_def)
  then show ?thesis using assms(3) json
    by (auto simp: check_body_def returned_def failure_def classifyError_def split: sum.splits)
qed

text \<open>With \<open>--json\<close> a drift is no error, and neither is a schema that does not validate.\<close>

lemma drift_in_json:
  assumes "liveSnapshot sdk c w = (Inr live, w')" "DiffSchemas (code_snapshot reg) live = Inr ds" "gf_json (rx_flags rc)" "enc ds = Inr txt"
  shows "fst (check_body sdk enc rc reg c p w) = None"
  using assms by (simp add: check_body_def emit_json_def print_json_def)

text \<open>A registry of buckets alone counts as empty.\<close>

lemma buckets_not_synced:
  "snd (RegisterBucket b NewSchemaRegistry) = reg \<Longrightarrow>
   schema_sync sdk fo rc reg dryRun p w = (None, Warnf ''registry is empty; nothing to sync'' p, w)"
  by (cases "bk_name b = []") (auto simp: schema_sync_def nothing_registered_def TableCount_def EdgeCount_def RegisterBucket_def NewSchemaRegistry_def)

text \<open>The prefix of the hook is escaped as far as dots and backslashes go.\<close>

lemma escaped_length: "length (escape_char c s) = length s + count_list s c"
  by (induction s) (simp_all add: escape_char_def)

lemma escape_other_kept: "c \<notin> set s \<Longrightarrow> escape_char c s = s"
  by (induction s) (auto simp: escape_char_def)

end
