(* ===== verification/Cli_Orchestrate.thy ===== *)
theory Cli_Orchestrate
  imports Cli_Root Orchestration
begin

text \<open>
  The command line, \<open>surql orchestrate\<close> (\<open>orchestrate.go\<close>): deploying to several environments, their health and the
  validation of the file that lists them. Every environment has a world; the outcome None is a panic in a probe, as in
  \<open>Orchestration\<close>. What is in the file of environments, what discovery gives, the encoder and the text of a duration in
  seconds are arguments, and \<open>ks\<close> enumerates the registry.
\<close>

section \<open>Arguments and cells\<close>

definition boolMarker :: "bool \<Rightarrow> string" where
  "boolMarker ok = (if ok then ''ok'' else ''fail'')"

definition splitCSVArg :: "string \<Rightarrow> string list" where
  "splitCSVArg s = (if trim_space s = [] then [] else filter (\<lambda>v. v \<noteq> []) (map trim_space (split_on CHR '','' s)))"

definition sortedStringKeys :: "(string, 'v) fmap \<Rightarrow> string list" where
  "sortedStringKeys m = sorted_list_of_fset (fmdom m)"

definition load_plan :: "string \<Rightarrow> env_file \<Rightarrow> cli_error + environment_registry" where
  "load_plan path file =
     (case LoadRegistryFromFile path file of
        Inl e \<Rightarrow> Inl (CommandError (Opaque (''load plan '' @ path @ '': '' @ err_text e)))
      | Inr reg \<Rightarrow> Inr reg)"

section \<open>Deploying\<close>

text \<open>The duration of a deployment; the zero time has not been completed.\<close>

definition deployment_nanos :: "deployment_result \<Rightarrow> duration" where
  "deployment_nanos r = (if dr_completed r = 0 then 0 else dr_completed r - dr_started r)"

definition deployment_row :: "(duration \<Rightarrow> string) \<Rightarrow> deployment_result \<Rightarrow> string list" where
  "deployment_row seconds r =
     [dr_environment r, dr_status r, show_nat (dr_applied r), seconds (deployment_nanos r) @ ''s'', truncateString (dr_error r) 48]"

text \<open>The error of the encoder is dropped.\<close>

definition renderDeploymentResults ::
    "(result_map \<Rightarrow> string result) \<Rightarrow> (duration \<Rightarrow> string) \<Rightarrow> root_context \<Rightarrow> result_map \<Rightarrow> printer \<Rightarrow> printer" where
  "renderDeploymentResults enc seconds rc results p =
     (if results = fmempty then p
      else if gf_json (rx_flags rc) then snd (print_json enc results p)
      else
        print_table [''Environment'', ''Status'', ''Applied'', ''Duration'', ''Error'']
          (map (\<lambda>name. deployment_row seconds (the (fmlookup results name))) (sortedStringKeys results)) p)"

record deploy_flags =
  df_strategy :: string
  df_batch :: int
  df_canary :: go_float
  df_concurrent :: int
  df_dry_run :: bool
  df_skip_health :: bool
  df_no_rollback :: bool

definition options_of :: "deploy_flags \<Rightarrow> 'w deploy_options" where
  "options_of fl =
     \<lparr>do_strategy = df_strategy fl, do_batch_size = df_batch fl, do_canary = df_canary fl, do_max_concurrent = df_concurrent fl,
      do_verify_health = Some (\<not> df_skip_health fl), do_auto_rollback = Some (\<not> df_no_rollback fl), do_dry_run = df_dry_run fl,
      do_factory = None, do_health_factory = None\<rparr>"

definition failed_names :: "result_map \<Rightarrow> string list" where
  "failed_names results = filter (\<lambda>name. is_failed (the (fmlookup results name))) (sortedStringKeys results)"

text \<open>What the command makes of the answer of the coordinator.\<close>

definition deploy_verdict :: "(result_map \<Rightarrow> printer \<Rightarrow> printer) \<Rightarrow> result_map result \<Rightarrow> printer \<Rightarrow> cli_error option \<times> printer" where
  "deploy_verdict render answer p =
     (case answer of
        Inl e \<Rightarrow> (returned e, Errorf (''deploy failed: '' @ err_text e) (render fmempty p))
      | Inr results \<Rightarrow>
          (if failed_names results \<noteq> [] then
             (failure (show_nat (length (failed_names results)) @ '' environment(s) failed''), render results p)
           else (None, Successf (''deployed to '' @ show_nat (length (sortedStringKeys results)) @ '' environment(s)'') (render results p))))"

definition runOrchestrateDeploy ::
    "('w, 'tx) sdk \<Rightarrow> 'w time_env \<Rightarrow> float_ops \<Rightarrow> (go_float \<Rightarrow> go_float \<Rightarrow> go_float) \<Rightarrow> (go_float \<Rightarrow> string) \<Rightarrow> bool list
       \<Rightarrow> (result_map \<Rightarrow> string result) \<Rightarrow> (duration \<Rightarrow> string) \<Rightarrow> (string \<Rightarrow> migration list result) \<Rightarrow> (string \<Rightarrow> env_file) \<Rightarrow> root_context
       \<Rightarrow> string \<Rightarrow> string list \<Rightarrow> deploy_flags \<Rightarrow> string \<Rightarrow> printer \<Rightarrow> 'w worlds \<Rightarrow> (cli_error option \<times> printer \<times> 'w worlds) option" where
  "runOrchestrateDeploy sdk tm fo fdiv fixed2 pauses enc seconds disc file_at rc plan envs fl dir p ws =
     (case load_plan plan (file_at plan) of
        Inl e \<Rightarrow> Some (Some e, p, ws)
      | Inr reg \<Rightarrow>
          (case disc dir of
             Inl e \<Rightarrow> Some (returned e, p, ws)
           | Inr ms \<Rightarrow>
               (let p1 = (if ms = [] then Warnf (''no migrations found under '' @ dir) p else p);
                    p2 = Infof (''deploying '' @ show_nat (length ms) @ '' migration(s) to '' @ show_nat (length envs)
                           @ '' environment(s) via '' @ df_strategy fl) p1;
                    p3 = (if df_dry_run fl then Warnf ''dry-run mode: no migrations will be applied'' p2 else p2) in
                case DeployToEnvironments sdk tm fo fdiv fixed2 pauses None reg envs ms (options_of fl) ws of
                  None \<Rightarrow> None
                | Some (answer, ws1) \<Rightarrow>
                    (case deploy_verdict (renderDeploymentResults enc seconds rc) answer p3 of (r, p4) \<Rightarrow> Some (r, p4, ws1)))))"

definition orchestrate_deploy ::
    "('w, 'tx) sdk \<Rightarrow> 'w time_env \<Rightarrow> float_ops \<Rightarrow> (go_float \<Rightarrow> go_float \<Rightarrow> go_float) \<Rightarrow> (go_float \<Rightarrow> string) \<Rightarrow> bool list
       \<Rightarrow> (result_map \<Rightarrow> string result) \<Rightarrow> (duration \<Rightarrow> string) \<Rightarrow> (string \<Rightarrow> migration list result) \<Rightarrow> (string \<Rightarrow> env_file) \<Rightarrow> root_context
       \<Rightarrow> string \<Rightarrow> string \<Rightarrow> deploy_flags \<Rightarrow> string \<Rightarrow> printer \<Rightarrow> 'w worlds \<Rightarrow> (cli_error option \<times> printer \<times> 'w worlds) option" where
  "orchestrate_deploy sdk tm fo fdiv fixed2 pauses enc seconds disc file_at rc plan envCSV fl dir p ws =
     (if plan = [] then Some (newUsageError ''--plan is required (path to environments registry JSON)'', p, ws)
      else if envCSV = [] then Some (newUsageError ''--environments is required (comma-separated env names)'', p, ws)
      else if splitCSVArg envCSV = [] then Some (newUsageError ''--environments produced zero entries'', p, ws)
      else
        runOrchestrateDeploy sdk tm fo fdiv fixed2 pauses enc seconds disc file_at rc plan (splitCSVArg envCSV) fl
          (migrationsDir rc dir) p ws)"

section \<open>Health\<close>

definition verdict_of :: "bool \<Rightarrow> string" where
  "verdict_of healthy = (if healthy then ''healthy'' else ''unhealthy'')"

definition status_rows :: "(string, bool) fmap \<Rightarrow> string list list" where
  "status_rows statuses = map (\<lambda>name. [name, verdict_of (the (fmlookup statuses name))]) (sortedStringKeys statuses)"

text \<open>The coordinator's \<open>GetDeploymentStatus\<close>: names that are not registered are skipped.\<close>

definition GetDeploymentStatus ::
    "('w, 'tx) sdk \<Rightarrow> float_ops \<Rightarrow> environment_registry \<Rightarrow> string list \<Rightarrow> 'w worlds \<Rightarrow> ((string, bool) fmap \<times> 'w worlds) option" where
  "GetDeploymentStatus sdk fo reg names ws =
     (case verify_all sdk (defaultClientFactory sdk fo) (List.map_filter (fmlookup reg) names) fmempty ws of
        None \<Rightarrow> None
      | Some (statuses, ws1) \<Rightarrow> Some (fmmap hs_healthy statuses, ws1))"

definition orchestrate_status ::
    "('w, 'tx) sdk \<Rightarrow> float_ops \<Rightarrow> ((string, bool) fmap \<Rightarrow> string result) \<Rightarrow> (string \<Rightarrow> env_file) \<Rightarrow> string list \<Rightarrow> root_context
       \<Rightarrow> string \<Rightarrow> string \<Rightarrow> printer \<Rightarrow> 'w worlds \<Rightarrow> (cli_error option \<times> printer \<times> 'w worlds) option" where
  "orchestrate_status sdk fo enc file_at ks rc plan envCSV p ws =
     (if plan = [] then Some (newUsageError ''--plan is required (path to environments registry JSON)'', p, ws)
      else
        (case load_plan plan (file_at plan) of
           Inl e \<Rightarrow> Some (Some e, p, ws)
         | Inr reg \<Rightarrow>
             (let names = (if splitCSVArg envCSV = [] then registry_list ks reg else splitCSVArg envCSV) in
              case GetDeploymentStatus sdk fo reg names ws of
                None \<Rightarrow> None
              | Some (statuses, ws1) \<Rightarrow>
                  (if gf_json (rx_flags rc) then
                     (case print_json enc statuses p of (None, p1) \<Rightarrow> Some (None, p1, ws1) | (Some e, p1) \<Rightarrow> Some (returned e, p1, ws1))
                   else Some (None, print_table [''Environment'', ''Status''] (status_rows statuses) p, ws1)))))"

definition health_row :: "string \<Rightarrow> health_status \<Rightarrow> string list" where
  "health_row name s =
     [name, boolMarker (hs_can_connect s), boolMarker (hs_table_exists s), boolMarker (hs_healthy s), truncateString (hs_error s) 48]"

text \<open>The configurations of the names of the registry.\<close>

fun registered_configs :: "environment_registry \<Rightarrow> string list \<Rightarrow> environment_config list result" where
  "registered_configs reg [] = Inr []"
| "registered_configs reg (n # ns) =
     (case registry_get reg n of Inl e \<Rightarrow> Inl e | Inr cfg \<Rightarrow> rbind (registered_configs reg ns) (\<lambda>cfgs. Inr (cfg # cfgs)))"

definition validate_verdict :: "(string, health_status) fmap \<Rightarrow> printer \<Rightarrow> cli_error option \<times> printer" where
  "validate_verdict statuses p =
     (let names = sortedStringKeys statuses;
          status_at = (\<lambda>name. the (fmlookup statuses name));
          p1 = print_table [''Environment'', ''Connect'', ''MigrationTable'', ''Healthy'', ''Error'']
                 (map (\<lambda>name. health_row name (status_at name)) names) p in
      if \<not> list_all (\<lambda>name. hs_healthy (status_at name)) names then (failure ''one or more environments unhealthy'', p1)
      else (None, Successf ''all environments healthy'' p1))"

definition orchestrate_validate ::
    "('w, 'tx) sdk \<Rightarrow> float_ops \<Rightarrow> (string \<Rightarrow> env_file) \<Rightarrow> string list \<Rightarrow> string \<Rightarrow> printer \<Rightarrow> 'w worlds
       \<Rightarrow> (cli_error option \<times> printer \<times> 'w worlds) option" where
  "orchestrate_validate sdk fo file_at ks plan p ws =
     (if plan = [] then Some (newUsageError ''--plan is required (path to environments registry JSON)'', p, ws)
      else
        (case load_plan plan (file_at plan) of
           Inl e \<Rightarrow> Some (Some e, p, ws)
         | Inr reg \<Rightarrow>
             (if registry_list ks reg = [] then Some (None, Warnf ''no environments configured'' p, ws)
              else
                (case registered_configs reg (registry_list ks reg) of
                   Inl e \<Rightarrow> Some (returned e, p, ws)
                 | Inr envs \<Rightarrow>
                     (case verify_all sdk (defaultClientFactory sdk fo) envs fmempty ws of
                        None \<Rightarrow> None
                      | Some (statuses, ws1) \<Rightarrow>
                          (case validate_verdict statuses p of (r, p1) \<Rightarrow> Some (r, p1, ws1)))))))"

section \<open>Verdicts\<close>

lemma every_entry:
  "(\<forall>name \<in> set (sortedStringKeys m). P (the (fmlookup m name))) \<longleftrightarrow> (\<forall>name v. fmlookup m name = Some v \<longrightarrow> P v)"
proof -
  have keys: "name \<in> set (sortedStringKeys m) \<longleftrightarrow> fmlookup m name \<noteq> None" for name
    by (simp add: sortedStringKeys_def fmlookup_dom_iff)
  show ?thesis unfolding Ball_def keys by auto
qed

text \<open>The exit code of a deployment is zero exactly when the coordinator has an answer in which nothing has failed.\<close>

lemma deploy_verdict_zero:
  "fst (classifyError (fst (deploy_verdict render answer p)) out) = 0 \<longleftrightarrow>
     (\<exists>results. answer = Inr results \<and> (\<forall>name r. fmlookup results name = Some r \<longrightarrow> \<not> is_failed r))"
proof -
  have "failed_names results = [] \<longleftrightarrow> (\<forall>name r. fmlookup results name = Some r \<longrightarrow> \<not> is_failed r)" for results
    using every_entry [of results "\<lambda>r. \<not> is_failed r"] by (simp add: failed_names_def filter_empty_conv)
  then show ?thesis by (auto simp: deploy_verdict_def exit_zero_iff returned_def failure_def split: sum.splits)
qed

lemma validate_verdict_zero:
  "fst (classifyError (fst (validate_verdict statuses p)) out) = 0 \<longleftrightarrow> (\<forall>name s. fmlookup statuses name = Some s \<longrightarrow> hs_healthy s)"
  using every_entry [of statuses hs_healthy] by (auto simp: validate_verdict_def exit_zero_iff failure_def Let_def list_all_iff)

text \<open>The arguments of a list: no empty names, none with blanks around it.\<close>

lemma splitCSVArg_names: "n \<in> set (splitCSVArg s) \<Longrightarrow> n \<noteq> [] \<and> n \<in> trim_space ` set (split_on CHR '','' s)"
  by (auto simp: splitCSVArg_def split: if_splits)

section \<open>What the commands do not do\<close>

text \<open>A file of environments that does not exist is an empty registry: validating it succeeds.\<close>

lemma missing_file_validates:
  "plan \<noteq> [] \<Longrightarrow> file_at plan = EnvFileMissing \<Longrightarrow>
   orchestrate_validate sdk fo file_at [] plan p ws = Some (None, Warnf ''no environments configured'' p, ws)"
  by (simp add: orchestrate_validate_def load_plan_def LoadRegistryFromFile_def registry_list_def entries_of_def by_priority_def List.map_filter_simps)

text \<open>The status of an environment that is not registered is left out without a word.\<close>

lemma unknown_status_skipped:
  "fmlookup reg name = None \<Longrightarrow> GetDeploymentStatus sdk fo reg [name] ws = Some (fmempty, ws)"
  by (simp add: GetDeploymentStatus_def List.map_filter_simps)

end
