(* ===== verification/Cli_Previews.thy ===== *)
theory Cli_Previews
  imports Cli_Migrate_Correct Cli_Schema_Correct
begin

text \<open>
  What the command line promises not to touch: the dry runs, the commands that want \<open>--yes\<close>, and the commands that only
  look.
\<close>

definition left_world :: "cli_error option \<times> printer \<times> 'w \<Rightarrow> 'w" where
  "left_world run = snd (snd run)"

definition exit_code :: "cli_error option \<times> printer \<times> 'w \<Rightarrow> nat" where
  "exit_code run = fst (classifyError (fst run) [])"

section \<open>Commands that look\<close>

lemma pair_unchanged: "(dv_data dv b, dv_hist dv b) = (dv_data dv a, dv_hist dv a) \<longleftrightarrow> unchanged dv a b"
  by (auto simp: unchanged_def)

lemma asking_connects: "asking_keeps sdk view \<Longrightarrow> connecting_keeps sdk view"
  by (simp add: asking_keeps_def)

text \<open>A command whose body keeps what connecting keeps.\<close>

lemma with_connection_keeps:
  assumes "connecting_keeps sdk view" "\<And>c p w. view (left_world (body c p w)) = view w"
  shows "view (left_world (with_connection sdk fo rc body p w)) = view w"
proof -
  obtain r p' w' where run: "with_connection sdk fo rc body p w = (r, p', w')" by (metis prod_cases3)
  from with_connection_cases [OF assms(1) run] show ?thesis
  proof (elim disjE exE conjE)
    fix c w1 w2 assume "view w1 = view w" "body c p w1 = (r, p', w2)" "view w' = view w2"
    then show ?thesis using assms(2) [of c p w1] run by (simp add: left_world_def)
  qed (use run in \<open>simp add: left_world_def\<close>)
qed

lemma query_keeps:
  "asking_keeps sdk view \<Longrightarrow> has_prefix s ''INFO FOR '' \<Longrightarrow> view (snd (Query sdk c s w)) = view w"
  by (simp add: asking_keeps_def)

lemma emit_json_world [simp]: "left_world (emit_json enc v p w) = w"
  by (auto simp: emit_json_def left_world_def split: prod.splits option.splits)

lemma inspect_keeps:
  assumes "asking_keeps sdk view"
  shows "view (left_world (schema_inspect sdk fo enc rc t p w)) = view w"
  unfolding schema_inspect_def
proof (rule with_connection_keeps [OF asking_connects [OF assms]])
  fix c p w
  show "view (left_world (case Query sdk c (info_for_table t) w of (Inl e, w1) \<Rightarrow> (returned e, p, w1) | (Inr res, w1) \<Rightarrow> emit_json enc res p w1)) = view w"
    using query_keeps [OF assms info_prefixes(1), of c t w]
    by (auto split: prod.splits sum.splits simp: left_world_def [of "(_, _, _)"])
qed

lemma tables_keep:
  assumes "asking_keeps sdk view" "listDatabaseTables sdk fo rc w = (r, w')"
  shows "view w' = view w"
proof -
  note conn = asking_connects [OF assms(1)]
  obtain q w1 where q: "newConnectedClient sdk fo rc w = (q, w1)" by fastforce
  note v = client_keeps [OF conn q]
  show ?thesis
  proof (cases q)
    case (Inl e)
    then show ?thesis using assms(2) q v by (simp add: listDatabaseTables_def)
  next
    case (Inr c)
    obtain a w2 where a: "Query sdk c ''INFO FOR DB;'' w1 = (a, w2)" by fastforce
    then have "w' = snd (snd (Disconnect sdk c w2))" using assms(2) q Inr by (auto simp: listDatabaseTables_def split: sum.splits)
    then show ?thesis using v asking [OF assms(1) info_prefixes(2) a] disconnect_keeps [OF conn] by simp
  qed
qed

lemma schema_tables_keep:
  assumes "asking_keeps sdk view"
  shows "view (left_world (schema_tables sdk fo enc rc p w)) = view w"
proof -
  obtain r w1 where r: "listDatabaseTables sdk fo rc w = (r, w1)" by fastforce
  then have "left_world (schema_tables sdk fo enc rc p w) = w1"
    by (auto simp: schema_tables_def with_settings_def left_world_def [of "(_, _, _)"] split: sum.splits option.splits)
  then show ?thesis using tables_keep [OF assms r] by simp
qed

section \<open>Dry runs\<close>

lemma up_dry_run:
  assumes laws: "surreal_laws sdk tm dv" and keeps: "connecting_keeps sdk (\<lambda>x. (dv_data dv x, dv_hist dv x))"
    and h: "[] \<notin> set (dv_hist dv w)"
    and run: "runMigrateUp sdk tm fo disc rc dir target steps True p w = (r, p', w')"
  shows "unchanged dv w w'"
  using with_connection_cases [OF keeps run [unfolded runMigrateUp_def]] unfolding pair_unchanged
proof (elim disjE exE conjE)
  fix c w1 w2
  assume a: "unchanged dv w w1" "up_body sdk tm (disc dir) target steps True c p w1 = (r, p', w2)" "unchanged dv w2 w'"
  have "unchanged dv w1 w2"
  proof (cases "disc dir")
    case (Inl e)
    then show ?thesis using a(2) by (simp add: up_body_def GetPendingMigrations_def)
  next
    case (Inr ms)
    have "[] \<notin> set (dv_hist dv w1)" using h a(1) by (simp add: unchanged_def)
    then show ?thesis using up_body_law [OF laws _ a(2) [unfolded Inr]] by simp
  qed
  then show ?thesis using a(1,3) by (simp add: unchanged_def)
qed


lemma toy_info: "has_prefix s ''INFO FOR '' \<Longrightarrow> snd (Query toy_sdk c s w) = w"
  by (auto simp: Query_def QueryWithVars_def toy_sdk_def toy_query_def split: option.splits prod.splits sum.splits if_splits)

lemma toy_asks: "asking_keeps toy_sdk (\<lambda>x. (dv_data toy_view x, dv_hist toy_view x))"
  by (simp add: asking_keeps_def toy_keeps toy_info)


end
