(* ===== verification/Spec2Isabelle.thy ===== *)
theory Spec2Isabelle
  imports Prelude Go_Strings Go_Strconv Go_Regexp Surql_Errors Record_Ids Sql_Values
    Version_Graph Version_Graph_Correct Version_Graph_Search
    Memory_Cache Memory_Cache_Correct Cache_Manager Cache_Coherence Redis_Cache
    Migration_Files Migration_Files_Correct Squash Squash_Correct
    Go_Values Connection_Config Database_Client Transactions Migration_History Migration_Executor
    Migration_Executor_Correct Migration_Rollback Orchestration Orchestration_Correct Orchestration_Rollback
    Schema_Model Schema_Generate Schema_Diff Schema_Diff_Correct Schema_Reconcile
    Schema_Parser Regexp_Search Schema_Parser_Correct Schema_Validator Schema_Validator_Correct
    Query_Values Query_Builder Query_Builder_Correct Query_Results Query_Crud Query_Batch
    Query_Crud_Correct Query_Batch_Correct
    Schema_Snapshots Schema_Snapshots_Correct Schema_Watcher Schema_Watcher_Correct
    Connection_Registry Connection_Files Connection_Files_Correct Connection_Sessions
    Runtime_Settings Runtime_Settings_Correct Datetime_Coercion
    Schema_Themes Schema_Visualize Schema_Visualize_Correct
    Cli_Output Cli_Root Cli_Migrate Cli_Migrate_Correct Cli_Database Cli_Schema Cli_Schema_Correct Cli_Orchestrate
    Cli_Previews
begin

text \<open>
  Verification development for surql-go (\<open>pkg/surql\<close>), a SurrealDB toolkit for Go: typed values and record
  identifiers, a client with retry and transactions, a query builder, schema definitions in code, a diff engine that
  turns the difference of two schemas into migrations, migration files, their execution, rollback and
  squashing, a graph of schema versions, deployments to several environments, files in buckets, sessions and live
  queries, layered settings, diagrams, a cache, and the command line over all of it (\<open>internal/cli\<close>).

  How the parts interact. A schema in code (package \<open>schema\<close>) is rendered to SurrealQL and read back from
  the INFO statements of the database by the parser. The diff engine (package \<open>migration\<close>) compares the two
  and yields diffs; the generator writes them to a migration file, discovery loads the files, the
  squasher merges them, the executor runs them inside transactions of the client (package \<open>connection\<close>) and
  records them in the history table, and rollback plans the way back. The watcher checks the schema files of a
  project for changes that no migration covers, and snapshots record the schema a version had. Package
  \<open>orchestration\<close> runs the executor on many environments. Queries are built and executed through a client, a session
  or a transaction alike. The cache stands beside this and talks to a backend interface.

  Foundations.
  \<^item> \<open>Prelude\<close>: machine types and generic lemmas. \<open>Go_Strings\<close>, \<open>Go_Strconv\<close>, \<open>Go_Values\<close>: what the sources use of
    \<open>strings\<close>, \<open>strconv\<close> and of dynamic values. A Go string is a list of 8-bit characters; case mapping and
    character classes are those of ASCII. \<open>Go_Regexp\<close>: the fragment of \<open>regexp\<close> in use, as a function that
    lists the matches in the order of a backtracking matcher; it ends because a repetition goes on only
    when its body consumed something.
  \<^item> \<open>Surql_Errors\<close> (\<open>errors/errors.go\<close>): sentinels, wrapping and \<open>errors.Is\<close>; the type \<open>result\<close> of every fallible
    operation is a sum of an error and a value, and each \<open>return err\<close> of the source is a branch.

  Values (package \<open>types\<close>).
  \<^item> \<open>Record_Ids\<close> (\<open>record_id.go\<close>, \<open>file_ref.go\<close>) and \<open>Sql_Values\<close> (\<open>record_ref.go\<close>, \<open>surreal_fn.go\<close>, \<open>reserved.go\<close>):
    printing and parsing are inverse; an escaped value is read back as one literal. \<open>Datetime_Coercion\<close> (\<open>coerce.go\<close>): the
    listed fields of a record that hold text hold instants afterwards, and nothing else changes.

  Cache (package \<open>cache\<close>).
  \<^item> \<open>Memory_Cache\<close> (\<open>memory.go\<close>, \<open>stats.go\<close>) models the index and the LRU list over a heap of shared elements;
    \<open>Memory_Cache_Correct\<close> refines it to a list of entries, with the capacity and counter invariant.
  \<^item> \<open>Cache_Manager\<close> (\<open>manager.go\<close>, \<open>config.go\<close>, \<open>backend.go\<close>, \<open>cache.go\<close>, \<open>decorator.go\<close>); \<open>Cache_Coherence\<close> states the
    contract of a backend as two locales: \<open>sound_backend\<close> (what is read was stored and not removed since) and its
    extension \<open>backend_contract\<close> (what is stored is also found). The manager is proved once inside them and they are
    interpreted on the memory cache: no stale reads, exact table invalidation, read-through.
  \<^item> \<open>Redis_Cache\<close> (\<open>redis.go\<close>) shows the same safety over Redis, which may lose entries and decodes what it returns.

  Schema (package \<open>schema\<close>).
  \<^item> \<open>Schema_Model\<close> (\<open>fields.go\<close>, \<open>table.go\<close>, \<open>edge.go\<close>) and \<open>Schema_Generate\<close> (\<open>access.go\<close>, \<open>bucket.go\<close>, \<open>analyzer.go\<close>,
    \<open>sql.go\<close>, \<open>registry.go\<close>): definitions, checks, SurrealQL.
  \<^item> \<open>Schema_Parser\<close> (\<open>parser.go\<close>): the regular expressions and every parser of a statement. \<open>Regexp_Search\<close> says what
    the patterns find in a statement that is a list of words; with it \<open>Schema_Parser_Correct\<close> shows that
    a rendered field or event is parsed back, and that a table read back needs no change.
  \<^item> \<open>Schema_Validator\<close> (\<open>validator.go\<close>, \<open>validator_utils.go\<close>); \<open>Schema_Validator_Correct\<close>: a report is empty, or free of
    errors, exactly when two schemas agree, or a registry is well formed, in a sense stated without the
    validator, and a validated schema deploys.
  \<^item> \<open>Schema_Themes\<close> (\<open>themes.go\<close>), \<open>Schema_Visualize\<close> (\<open>visualize.go\<close>, \<open>utils.go\<close>): diagrams as text, with the decoding of UTF-8
    and the columns a text takes; \<open>Schema_Visualize_Correct\<close>: a box is a rectangle.

  Queries (packages \<open>types\<close> and \<open>query\<close>).
  \<^item> \<open>Query_Values\<close> (\<open>operators.go\<close>): literals and conditions, with readers for both. \<open>Query_Builder\<close> (\<open>builder.go\<close>,
    \<open>helpers.go\<close>, \<open>hints.go\<close>, \<open>expressions.go\<close>, \<open>functions.go\<close>): one definition per step of the builder and one per
    statement. \<open>Query_Builder_Correct\<close>: the queries that steps reach are well formed (\<open>query_built\<close>, \<open>query_wf\<close>), and a
    reader of statements gives back what the builder was given. The readers bound the number of items and
    of nested lists by a number; the length of the text is always enough for the first, the depth of the
    data for the second.
  \<^item> \<open>Query_Results\<close> (\<open>results.go\<close>), \<open>Query_Crud\<close> (\<open>crud.go\<close>, \<open>executor.go\<close>, \<open>typed.go\<close>, \<open>graph.go\<close>, \<open>graph_query.go\<close>), \<open>Query_Batch\<close>
    (\<open>batch.go\<close>). \<open>Query_Crud_Correct\<close>: against a store that keeps the laws of the statements sent (\<open>store_laws\<close>, seen through
    \<open>store_view\<close>), the helpers are the operations of a map from record ids to records, and the shortest path
    returned is a path and no path is shorter. \<open>Query_Batch_Correct\<close>: a reader of the batch statements gives back the items.

  Migrations (package \<open>migration\<close>).
  \<^item> \<open>Schema_Diff\<close> (\<open>diff.go\<close>); \<open>Schema_Diff_Correct\<close> follows the effect of the diffs on a catalog, with the locales
    \<open>object_changes\<close> (objects with their own part of the catalog, changed one after the other) and
    \<open>table_like\<close>, interpreted for tables, edges and buckets, forward and backward; \<open>Schema_Reconcile\<close> puts the
    passes together: diffs reconcile, are undone, and are absent exactly for equal schemas.
  \<^item> \<open>Migration_Files\<close> (\<open>models.go\<close>, \<open>discovery.go\<close>, \<open>generator.go\<close>) and \<open>Migration_Files_Correct\<close>: file names, the file
    format and its parser, generation and discovery.
  \<^item> \<open>Squash\<close> (\<open>squash.go\<close>) and \<open>Squash_Correct\<close>: the optimiser deletes only, counts exactly and keeps the schema.
  \<^item> \<open>Version_Graph\<close> (\<open>versioning.go\<close>), \<open>Version_Graph_Correct\<close>, \<open>Version_Graph_Search\<close>: the forest invariant of every
    reachable graph, and the three searches. Their loops run on fuel; the fuel chosen bounds the number
    of nodes that can be visited and the theorems show that it is enough.
  \<^item> \<open>Migration_History\<close> (\<open>history.go\<close>), \<open>Migration_Executor\<close> (\<open>executor.go\<close>), \<open>Migration_Rollback\<close> (\<open>rollback.go\<close>),
    \<open>Migration_Executor_Correct\<close>: a migration is applied whole or not at all, up and down are inverse.
  \<^item> \<open>Schema_Snapshots\<close> (snapshot files of \<open>versioning.go\<close>, \<open>hooks.go\<close>), \<open>Schema_Snapshots_Correct\<close>: stored snapshots are
    listed in order, the automatic snapshot leaves no drift.
  \<^item> \<open>Schema_Watcher\<close> (\<open>watcher.go\<close>): goroutines, channels and the debounce timer as a step relation;
    \<open>Schema_Watcher_Correct\<close>: the batches checked partition the events received, in order, and a stopped watcher ends.

  Connections and deployments.
  \<^item> \<open>Connection_Config\<close> (\<open>config.go\<close>), \<open>Database_Client\<close> (\<open>client.go\<close>, \<open>auth.go\<close>), \<open>Transactions\<close> (\<open>transaction.go\<close>): loading and
    validating a configuration, retry within bounds, and the interleavings of concurrent commit and
    rollback as a step relation.
  \<^item> \<open>Runtime_Settings\<close> (\<open>settings.go\<close>, \<open>yaml.go\<close>), \<open>Runtime_Settings_Correct\<close>: a load is the overlay of its layers, stated
    as a merge of partial settings.
  \<^item> \<open>Connection_Registry\<close> (\<open>registry.go\<close>, \<open>context.go\<close>, \<open>auth_manager.go\<close>): named clients in a heap, with the invariant of
    every reachable registry. \<open>Connection_Files\<close> (\<open>files.go\<close>), \<open>Connection_Files_Correct\<close>: a bucket refines a map
    from keys to contents. \<open>Connection_Sessions\<close> (\<open>session.go\<close>, \<open>streaming.go\<close>, \<open>streaming_manager.go\<close>): a session is
    detached once, a live query killed once, however calls overlap.
  \<^item> \<open>Orchestration\<close> (\<open>environment.go\<close>, \<open>health.go\<close>, \<open>result.go\<close>, \<open>strategies.go\<close>, \<open>coordinator.go\<close>), \<open>Orchestration_Correct\<close>,
    \<open>Orchestration_Rollback\<close>: the four strategies, the bounded fan-out as a step relation, and the
    automatic rollback.

  Command line (\<open>internal/cli\<close>).
  \<^item> \<open>Cli_Output\<close> (\<open>fmt.go\<close>): the printer, whose two streams are text; \<open>Cli_Root\<close> (\<open>root.go\<close>): the context of a command,
    its settings, its connection (\<open>with_connection\<close>: the report of a connection that fails, and the deferred disconnection)
    and its exit code. A command is a function of its flags that returns its error, the printer and the world.
  \<^item> \<open>Cli_Migrate\<close> (\<open>migrate.go\<close>), \<open>Cli_Database\<close> (\<open>db.go\<close>, \<open>bucket.go\<close>), \<open>Cli_Schema\<close> (\<open>schema.go\<close>), \<open>Cli_Orchestrate\<close>
    (\<open>orchestrate.go\<close>): every command. \<open>Cli_Migrate_Correct\<close>: what \<open>migrate up\<close> does to a database, from its flags to its exit
    code; \<open>Cli_Schema_Correct\<close>: what \<open>schema check\<close> finds; \<open>Cli_Previews\<close>: what dry runs, unconfirmed commands and
    commands that only ask leave alone.

  Parameters. The SurrealDB SDK is a record of functions on an abstract world (\<open>sdk\<close>); what the executor
  relies on is \<open>surreal_laws\<close> over a \<open>db_view\<close>: a transaction takes effect at its commit or not at all, and
  rows that were written are read back. \<open>time_env\<close> holds the clock and the time format, \<open>float_ops\<close> the
  floating-point operations, \<open>factory_laws\<close> what a client factory promises; \<open>path.Match\<close>, SHA-256, \<open>filepath.Join\<close>
  and the outcomes of file operations are arguments. So are the disk and codec of snapshots (\<open>disk_holds\<close>), what git
  prints, the text \<open>encoding/json\<close> and the byte conversions give, the server of a bucket and the runner of its statements
  (\<open>file_server\<close>), the session and live calls of the SDK (\<open>session_sdk\<close>, \<open>live_sdk\<close>), the calls of go-redis
  (\<open>redis_client\<close>, with \<open>redis_server\<close> and \<open>scan_complete\<close> for what the server promises), the file decoders and lookups of
  the settings, and \<open>time.Parse\<close>. The command line relies on \<open>connecting_keeps\<close> (dialling, selecting and closing change
  no data) and \<open>asking_keeps\<close> (neither do INFO statements); its process-wide registry, the files of the user and the
  encoders are arguments. Each theorem that has such a hypothesis is applied to a concrete instance by its
  witness.

  Locking. Where the source takes a lock for a whole operation the operation is one step; where it lets
  go of the lock in between (\<open>transaction.go\<close>, the fan-out of \<open>strategies.go\<close>, the watcher, sessions, live queries, the
  connection registry, the global settings) the interleavings are modelled.

  At the end of several theories a section evaluates concrete inputs on which the code does not do what
  it promises; these lemmas belong to no theorem.

  Not modelled: cobra, which parses the arguments, chooses the command and prints help, and the handling of signals; the
  codecs of JSON, CBOR and YAML; the key of a cached call (reflection and SHA-256) and the swaps of the global cache;
  \<open>atomicWriteFile\<close>, whose outcome is an argument; of \<open>orchestration\<close> the process-wide registry; the facade and the
  documentation packages.
\<close>

end
